(* ===== verification/Atomic_File.thy ===== *)
theory Atomic_File
  imports Prelude
begin

text \<open>
  The write-to-a-temporary-then-rename protocol that four packages of the daemon implement
  separately (\<open>config.Manager.saveLocked\<close>, \<open>auth.Store.save\<close>, \<open>state.atomicWriteJSON\<close>,
  \<open>wizard.SaveState\<close>), over one file system model. A file is described by what reading and
  decoding it gives: it is missing, cannot be read, is empty, holds text that is not the
  expected JSON, or holds the encoding of a value. The operating system's answers to the
  individual calls are an argument, so every early return is a branch.

  The locale \<open>atomic_saver\<close> states what a client of any of the four may rely on; each
  package interprets it with its own code.
\<close>

section \<open>Files and the calls that write them\<close>

datatype 'a stored = NoFile | Unreadable | Blank | Garbage | Holds 'a

record 'a disk =
  target :: "'a stored"
  strays :: nat

record io_env =
  marshal_ok :: bool
  mkdir_ok :: bool
  create_ok :: bool
  write_ok :: bool
  sync_ok :: bool
  close_ok :: bool
  chmod_ok :: bool
  rename_ok :: bool
  remove_ok :: bool

datatype io_error = EMarshal | EMkdir | ECreate | EWrite | ESync | EClose | EChmod | ERename

type_synonym 'a saver = "io_env \<Rightarrow> 'a \<Rightarrow> 'a disk \<Rightarrow> io_error option \<times> 'a disk"

definition io_all_ok :: io_env where
  "io_all_ok = \<lparr>marshal_ok = True, mkdir_ok = True, create_ok = True, write_ok = True,
     sync_ok = True, close_ok = True, chmod_ok = True, rename_ok = True, remove_ok = True\<rparr>"

text \<open>\<open>os.CreateTemp\<close> adds a file, \<open>os.Remove\<close> takes it away when it succeeds, and
  \<open>os.Rename\<close> replaces the target by it in one step.\<close>

definition create_temp :: "'a disk \<Rightarrow> 'a disk" where
  "create_temp d = d\<lparr>strays := Suc (strays d)\<rparr>"

definition remove_temp :: "io_env \<Rightarrow> 'a disk \<Rightarrow> 'a disk" where
  "remove_temp io d = (if remove_ok io then d\<lparr>strays := strays d - 1\<rparr> else d)"

definition rename_temp :: "'a \<Rightarrow> 'a disk \<Rightarrow> 'a disk" where
  "rename_temp v d = d\<lparr>target := Holds v, strays := strays d - 1\<rparr>"

lemmas disk_defs = create_temp_def remove_temp_def rename_temp_def

lemma disk_calls_target [simp]:
  "target (create_temp d) = target d"
  "target (remove_temp io d) = target d"
  "target (rename_temp v d) = Holds v"
  by (simp_all add: disk_defs)

lemma disk_calls_strays [simp]:
  "strays (rename_temp v (create_temp d)) = strays d"
  "remove_ok io \<Longrightarrow> strays (remove_temp io (create_temp d)) = strays d"
  "strays (remove_temp io (create_temp d)) \<le> Suc (strays d)"
  by (simp_all add: disk_defs)

lemma rename_create_temp [simp]: "rename_temp v (create_temp d) = d\<lparr>target := Holds v\<rparr>"
  by (simp add: disk_defs)

section \<open>The contract of an atomic save\<close>

text \<open>A sequence of saves, each under its own system answers; its results are dropped, as a
  caller that ignores the error does.\<close>

fun save_all :: "'a saver \<Rightarrow> (io_env \<times> 'a) list \<Rightarrow> 'a disk \<Rightarrow> 'a disk" where
  "save_all save [] d = d"
| "save_all save ((io, v) # rest) d = save_all save rest (snd (save io v d))"

locale atomic_saver =
  fixes save :: "io_env \<Rightarrow> 'a \<Rightarrow> 'a disk \<Rightarrow> io_error option \<times> 'a disk"
  assumes save_success: "save io v d = (None, d') \<Longrightarrow> d' = d\<lparr>target := Holds v\<rparr>"
    and save_failure: "save io v d = (Some e, d') \<Longrightarrow> target d' = target d"
    and save_tidy: "save io v d = (Some e, d') \<Longrightarrow> remove_ok io \<Longrightarrow> strays d' = strays d"
    and save_all_ok: "fst (save io_all_ok v d) = None"
begin

lemma save_old_or_new: "target (snd (save io v d)) \<in> {target d, Holds v}"
proof (cases "save io v d")
  case (Pair r d')
  then show ?thesis
    by (cases r) (auto dest: save_success save_failure)
qed

lemma save_ok_target: "fst (save io v d) = None \<Longrightarrow> target (snd (save io v d)) = Holds v"
  by (cases "save io v d") (auto dest: save_success)

lemma save_err_target: "fst (save io v d) = Some e \<Longrightarrow> target (snd (save io v d)) = target d"
  by (cases "save io v d") (auto dest: save_failure)

lemma save_no_strays: "remove_ok io \<Longrightarrow> strays (snd (save io v d)) = strays d"
proof (cases "save io v d")
  case (Pair r d')
  assume "remove_ok io"
  then show ?thesis using Pair
    by (cases r) (auto dest: save_success save_tidy)
qed

lemma save_all_target:
  "target (save_all save ws d) = target d \<or> (\<exists>(io, v) \<in> set ws. target (save_all save ws d) = Holds v)"
proof (induction ws arbitrary: d)
  case Nil
  then show ?case by simp
next
  case (Cons w ws)
  obtain io v where w: "w = (io, v)" by (cases w)
  have "target (snd (save io v d)) \<in> {target d, Holds v}" by (rule save_old_or_new)
  then show ?case using Cons.IH [of "snd (save io v d)"] w by auto
qed

end

end
