(* ===== verification/Base64_Codec.thy ===== *)
theory Base64_Codec
  imports Prelude
begin

text \<open>
  The two alphabets of Go's \<open>encoding/base64\<close> that the daemon uses:
  \<open>RawURLEncoding\<close> (API tokens and the three parts of a JWT) and \<open>StdEncoding\<close> (the JWT
  signing key and the invite ciphertext). As in Go, decoding skips carriage returns and line
  feeds, the raw form takes no padding, and the standard form requires it.
\<close>

section \<open>Digits\<close>

definition url_alphabet :: string where
  "url_alphabet = ''ABCDEFGHIJKLMNOPQRSTUVWXYZabcdefghijklmnopqrstuvwxyz0123456789-_''"

definition std_alphabet :: string where
  "std_alphabet = ''ABCDEFGHIJKLMNOPQRSTUVWXYZabcdefghijklmnopqrstuvwxyz0123456789+/''"

definition b64_char :: "string \<Rightarrow> nat \<Rightarrow> char" where
  "b64_char alph n = alph ! n"

definition b64_val :: "string \<Rightarrow> char \<Rightarrow> nat option" where
  "b64_val alph c = first_index (\<lambda>a. a = c) alph"

abbreviation byte :: "char \<Rightarrow> nat" where
  "byte c \<equiv> of_char c"

abbreviation chr :: "nat \<Rightarrow> char" where
  "chr n \<equiv> char_of n"

section \<open>Encoding and decoding\<close>

fun b64_digits :: "string \<Rightarrow> nat list" where
  "b64_digits [] = []"
| "b64_digits [a] = [byte a div 4, (byte a mod 4) * 16]"
| "b64_digits [a, b] =
     [byte a div 4, (byte a mod 4) * 16 + byte b div 16, (byte b mod 16) * 4]"
| "b64_digits (a # b # c # rest) =
     [byte a div 4, (byte a mod 4) * 16 + byte b div 16,
      (byte b mod 16) * 4 + byte c div 64, byte c mod 64] @ b64_digits rest"

fun b64_bytes :: "nat list \<Rightarrow> string option" where
  "b64_bytes [] = Some []"
| "b64_bytes [p] = None"
| "b64_bytes [p, q] = Some [chr (p * 4 + q div 16)]"
| "b64_bytes [p, q, r] = Some [chr (p * 4 + q div 16), chr ((q mod 16) * 16 + r div 4)]"
| "b64_bytes (p # q # r # s # rest) =
     map_option (\<lambda>out. [chr (p * 4 + q div 16), chr ((q mod 16) * 16 + r div 4),
                         chr ((r mod 4) * 64 + s)] @ out) (b64_bytes rest)"

definition b64_raw_decode :: "string \<Rightarrow> string \<Rightarrow> string option" where
  "b64_raw_decode alph s =
     (case those (map (b64_val alph) s) of None \<Rightarrow> None | Some ds \<Rightarrow> b64_bytes ds)"

definition strip_newlines :: "string \<Rightarrow> string" where
  "strip_newlines = filter (\<lambda>c. byte c \<noteq> 10 \<and> byte c \<noteq> 13)"

definition rawurl_encode :: "string \<Rightarrow> string" where
  "rawurl_encode s = map (b64_char url_alphabet) (b64_digits s)"

definition rawurl_decode :: "string \<Rightarrow> string option" where
  "rawurl_decode s = b64_raw_decode url_alphabet (strip_newlines s)"

definition std_padding :: "nat \<Rightarrow> string" where
  "std_padding n = (if n mod 3 = 1 then ''=='' else if n mod 3 = 2 then ''='' else [])"

definition std_encode :: "string \<Rightarrow> string" where
  "std_encode s = map (b64_char std_alphabet) (b64_digits s) @ std_padding (length s)"

definition std_decode :: "string \<Rightarrow> string option" where
  "std_decode s =
     (let t = strip_newlines s in
      if length t mod 4 \<noteq> 0 then None
      else if has_suffix t ''=='' then
        (let u = take (length t - 2) t in if has_suffix u ''='' then None
         else b64_raw_decode std_alphabet u)
      else b64_raw_decode std_alphabet (trim_suffix t ''=''))"

section \<open>Round trips\<close>

lemma byte_less: "byte c < 256"
  by simp

lemma div_less_64: "(a::nat) < 256 \<Longrightarrow> a div 4 < 64"
  by (simp add: less_mult_imp_div_less)

lemma div_less_16: "(a::nat) < 256 \<Longrightarrow> a div 16 < 16"
  by (simp add: less_mult_imp_div_less)

lemma div_less_4: "(a::nat) < 256 \<Longrightarrow> a div 64 < 4"
  by (simp add: less_mult_imp_div_less)

lemma digit_sum_less: "p < 4 \<Longrightarrow> q < 16 \<Longrightarrow> p * 16 + q < (64::nat)"
  "q < 16 \<Longrightarrow> p < 4 \<Longrightarrow> q * 4 + p < (64::nat)"
  by arith+

lemmas byte_bounds = div_less_64 [OF byte_less] div_less_16 [OF byte_less] div_less_4 [OF byte_less]

lemma b64_digits_less: "d \<in> set (b64_digits s) \<Longrightarrow> d < 64"
proof (induction s rule: b64_digits.induct)
  case (2 a)
  then consider "d = byte a div 4" | "d = (byte a mod 4) * 16 + 0" by auto
  then show ?case using byte_bounds digit_sum_less(1) [of "byte a mod 4" 0] by cases auto
next
  case (3 a b)
  then consider "d = byte a div 4" | "d = (byte a mod 4) * 16 + byte b div 16"
    | "d = (byte b mod 16) * 4 + 0" by auto
  then show ?case using byte_bounds digit_sum_less(1) [of "byte a mod 4" "byte b div 16"]
      digit_sum_less(2) [of "byte b mod 16" 0] by cases simp_all
next
  case (4 a b c rest)
  then consider "d = byte a div 4" | "d = (byte a mod 4) * 16 + byte b div 16"
    | "d = (byte b mod 16) * 4 + byte c div 64" | "d = byte c mod 64"
    | "d \<in> set (b64_digits rest)" by auto
  then show ?case using byte_bounds 4 digit_sum_less(1) [of "byte a mod 4" "byte b div 16"]
      digit_sum_less(2) [of "byte b mod 16" "byte c div 64"] by cases simp_all
qed simp

lemma regroup_high: "y < 16 \<Longrightarrow> x div 4 * 4 + (x mod 4 * 16 + y) div 16 = (x::nat)"
  by (simp add: div_add1_eq)

lemma regroup_mid: "y < 16 \<Longrightarrow> (x * 16 + y) mod 16 = (y::nat)"
  by simp

lemma regroup_mid4: "y < 4 \<Longrightarrow> (x * 4 + y) div 4 = (x::nat)" "y < 4 \<Longrightarrow> (x * 4 + y) mod 4 = (y::nat)"
  by (simp_all add: div_add1_eq)

lemma b64_bytes_digits [simp]: "b64_bytes (b64_digits s) = Some s"
proof (induction s rule: b64_digits.induct)
  case (2 a)
  have "byte a div 4 * 4 + byte a mod 4 * 16 div 16 = byte a" by simp
  then show ?case by simp
next
  case (3 a b)
  show ?case using byte_bounds
    by (simp only: b64_digits.simps b64_bytes.simps regroup_high regroup_mid) simp
next
  case (4 a b c rest)
  show ?case using byte_bounds 4
    by (simp only: b64_digits.simps b64_bytes.simps regroup_high regroup_mid regroup_mid4
        append_Cons append_Nil) simp
qed simp

lemma url_val_char_all: "list_all (\<lambda>n. b64_val url_alphabet (b64_char url_alphabet n) = Some n
    \<and> byte (b64_char url_alphabet n) \<noteq> 10 \<and> byte (b64_char url_alphabet n) \<noteq> 13
    \<and> b64_char url_alphabet n \<noteq> CHR ''.'') [0..<64]"
  by code_simp

lemma std_val_char_all: "list_all (\<lambda>n. b64_val std_alphabet (b64_char std_alphabet n) = Some n
    \<and> byte (b64_char std_alphabet n) \<noteq> 10 \<and> byte (b64_char std_alphabet n) \<noteq> 13
    \<and> b64_char std_alphabet n \<noteq> CHR ''='') [0..<64]"
  by code_simp

lemma url_char:
  assumes "n < 64"
  shows "b64_val url_alphabet (b64_char url_alphabet n) = Some n"
    and "byte (b64_char url_alphabet n) \<noteq> 10" and "byte (b64_char url_alphabet n) \<noteq> 13"
    and "b64_char url_alphabet n \<noteq> CHR ''.''"
  using url_val_char_all assms by (simp_all add: list_all_iff)

lemma std_char:
  assumes "n < 64"
  shows "b64_val std_alphabet (b64_char std_alphabet n) = Some n"
    and "byte (b64_char std_alphabet n) \<noteq> 10" and "byte (b64_char std_alphabet n) \<noteq> 13"
    and "b64_char std_alphabet n \<noteq> CHR ''=''"
  using std_val_char_all assms by (simp_all add: list_all_iff)

lemma those_map_Some: "(\<And>x. x \<in> set xs \<Longrightarrow> f x = Some (g x)) \<Longrightarrow> those (map f xs) = Some (map g xs)"
  by (induction xs) auto

lemma rawurl_no_dot: "CHR ''.'' \<notin> set (rawurl_encode s)"
  using url_char(4) b64_digits_less by (fastforce simp: rawurl_encode_def)

lemma rawurl_decode_encode [simp]: "rawurl_decode (rawurl_encode s) = Some s"
proof -
  let ?cs = "map (b64_char url_alphabet) (b64_digits s)"
  have "strip_newlines ?cs = ?cs"
    unfolding strip_newlines_def using url_char(2,3) b64_digits_less
    by (auto simp: filter_id_conv)
  moreover have "those (map (b64_val url_alphabet) ?cs) = Some (b64_digits s)"
    using those_map_Some [of "b64_digits s" "b64_val url_alphabet \<circ> b64_char url_alphabet" id]
      url_char(1) b64_digits_less by (simp add: comp_def)
  ultimately show ?thesis
    by (simp add: rawurl_decode_def rawurl_encode_def b64_raw_decode_def)
qed

lemma rawurl_encode_inj [simp]: "rawurl_encode a = rawurl_encode b \<longleftrightarrow> a = b"
  using rawurl_decode_encode by (metis option.inject)

lemma std_padding_3 [simp]: "std_padding (Suc (Suc (Suc n))) = std_padding n"
proof -
  have "Suc (Suc (Suc n)) mod 3 = n mod 3" by presburger
  then show ?thesis by (simp only: std_padding_def)
qed

lemma length_b64_digits: "(length (b64_digits s) + length (std_padding (length s))) mod 4 = 0"
proof (induction s rule: b64_digits.induct)
  case (4 a b c rest)
  then show ?case by simp
qed (simp_all add: std_padding_def)

lemma has_suffix_append: "has_suffix (s @ p) p"
  by (simp add: has_suffix_def)

lemma has_suffix_last: "has_suffix s p \<Longrightarrow> p \<noteq> [] \<Longrightarrow> s \<noteq> [] \<and> last s = last p"
proof -
  assume "has_suffix s p" "p \<noteq> []"
  then obtain t where "s = t @ p"
    by (metis append_take_drop_id has_suffix_def)
  then show ?thesis using \<open>p \<noteq> []\<close> by simp
qed

lemma std_decode_encode [simp]: "std_decode (std_encode s) = Some s"
proof -
  let ?cs = "map (b64_char std_alphabet) (b64_digits s)"
  let ?pad = "std_padding (length s)"
  have raw: "b64_raw_decode std_alphabet ?cs = Some s"
    using those_map_Some [of "b64_digits s" "b64_val std_alphabet \<circ> b64_char std_alphabet" id]
      std_char(1) b64_digits_less by (simp add: b64_raw_decode_def comp_def)
  have noeq: "CHR ''='' \<notin> set ?cs"
    using std_char(4) b64_digits_less by fastforce
  have last: "?cs \<noteq> [] \<Longrightarrow> last ?cs \<noteq> CHR ''=''"
    using noeq last_in_set [of ?cs] by metis
  have nosuf: "\<not> has_suffix ?cs ''=''" "\<not> has_suffix ?cs ''==''"
    using last has_suffix_last [of ?cs "''=''"] has_suffix_last [of ?cs "''==''"] by auto
  have nosuf1: "\<not> has_suffix (?cs @ ''='') ''==''"
  proof
    assume "has_suffix (?cs @ ''='') ''==''"
    then obtain t where "?cs @ ''='' = t @ ''==''"
      by (metis append_take_drop_id has_suffix_def)
    then have "?cs = t @ ''=''" by simp
    then show False using noeq by (metis in_set_conv_decomp)
  qed
  have strip: "strip_newlines (std_encode s) = ?cs @ ?pad"
    unfolding strip_newlines_def std_encode_def using std_char(2,3) b64_digits_less
    by (auto simp: filter_id_conv std_padding_def)
  have len: "length (?cs @ ?pad) mod 4 = 0"
    using length_b64_digits [of s] by simp
  consider "?pad = []" | "?pad = ''=''" | "?pad = ''==''"
    unfolding std_padding_def by presburger
  then show ?thesis
  proof cases
    case 1
    then show ?thesis using raw nosuf nosuf1 strip len by (simp add: std_decode_def trim_suffix_def)
  next
    case 2
    then show ?thesis using raw nosuf nosuf1 strip len
      by (simp add: std_decode_def trim_suffix_def has_suffix_append)
  next
    case 3
    then show ?thesis using raw nosuf nosuf1 strip len
      by (simp add: std_decode_def has_suffix_append)
  qed
qed

end
