(* ===== verification/Token_Store.thy ===== *)
theory Token_Store
  imports Atomic_File Base64_Codec
begin

text \<open>
  Package \<open>auth\<close>, first part: permission scopes (\<open>scope.go\<close>), API tokens and how they are
  minted (\<open>token.go\<close>, \<open>hash.go\<close>), and the JSON-file token store (\<open>store.go\<close>).
  bcrypt, the random source, the clock and the UUID generator are arguments of the operations
  that call them. The store keeps nothing in memory: its state is the file, so every operation
  is a function of the \<^typ>\<open>'a disk\<close> of \<open>Atomic_File\<close>.
\<close>

section \<open>Scopes\<close>

type_synonym scope = string

definition ScopeRead :: scope where
  "ScopeRead = ''read''"

definition ScopeWrite :: scope where
  "ScopeWrite = ''write''"

definition ScopeAdmin :: scope where
  "ScopeAdmin = ''admin''"

lemmas scope_defs = ScopeRead_def ScopeWrite_def ScopeAdmin_def

definition Allows :: "scope \<Rightarrow> scope \<Rightarrow> bool" where
  "Allows s required =
     (if required = ScopeRead then s = ScopeAdmin \<or> s = ScopeWrite \<or> s = ScopeRead
      else if required = ScopeWrite then s = ScopeAdmin \<or> s = ScopeWrite
      else if required = ScopeAdmin then s = ScopeAdmin
      else False)"

text \<open>The specification: scopes form a chain, and any other string grants nothing and is
  granted by nothing.\<close>

definition scope_rank :: "scope \<Rightarrow> nat option" where
  "scope_rank s = (if s = ''read'' then Some 0 else if s = ''write'' then Some 1
     else if s = ''admin'' then Some 2 else None)"

lemma Allows_rank:
  "Allows s r \<longleftrightarrow> (\<exists>m n. scope_rank s = Some m \<and> scope_rank r = Some n \<and> n \<le> m)"
  by (auto simp: Allows_def scope_rank_def scope_defs)

lemma Allows_trans: "Allows a b \<Longrightarrow> Allows b c \<Longrightarrow> Allows a c"
  by (auto simp: Allows_rank)

lemma Allows_admin: "scope_rank s \<noteq> None \<Longrightarrow> Allows ScopeAdmin s"
  by (auto simp: Allows_def scope_rank_def scope_defs split: if_splits)

section \<open>Tokens\<close>

record api_token =
  tok_ID :: string
  tok_Name :: string
  tok_TokenHash :: string
  tok_TokenPrefix :: string
  tok_Scope :: scope
  tok_CreatedBy :: string
  tok_CreatedAt :: instant
  tok_ExpiresAt :: "instant option"
  tok_LastUsedAt :: "instant option"
  tok_RequestCount :: int
  tok_Enabled :: bool

datatype store_error = ErrDuplicateName | ErrInvalidDate | ErrTokenNotFound
  | ErrHash | ErrRead | ErrDecode | ErrSave io_error

text \<open>\<open>bcrypt.GenerateFromPassword\<close> draws its own salt, so one run of it is an arbitrary partial
  function; \<open>bcrypt.CompareHashAndPassword\<close> is a fixed relation of hash and password.\<close>

type_synonym bcrypt_gen = "string \<Rightarrow> string option"
type_synonym bcrypt_cmp = "string \<Rightarrow> string \<Rightarrow> bool"

definition HashToken :: "bcrypt_gen \<Rightarrow> string \<Rightarrow> store_error + string" where
  "HashToken gen plain = (case gen plain of None \<Rightarrow> Inl ErrHash | Some h \<Rightarrow> Inr h)"

definition VerifyToken :: "bcrypt_cmp \<Rightarrow> string \<Rightarrow> string \<Rightarrow> bool" where
  "VerifyToken cmp plain hash = cmp hash plain"

definition GenerateTokenString :: "string \<Rightarrow> string" where
  "GenerateTokenString random32 = ''unet_'' @ rawurl_encode random32"

definition NewAPIToken ::
  "bcrypt_gen \<Rightarrow> string \<Rightarrow> string \<Rightarrow> instant \<Rightarrow> string \<Rightarrow> scope \<Rightarrow> string \<Rightarrow> instant option
     \<Rightarrow> store_error + api_token \<times> string" where
  "NewAPIToken gen random32 uuid now name scope createdBy expiresAt =
     (if expiresAt \<noteq> None \<and> the expiresAt < now then Inl ErrInvalidDate
      else
        let plainToken = GenerateTokenString random32 in
        case HashToken gen plainToken of
          Inl e \<Rightarrow> Inl e
        | Inr hash \<Rightarrow>
            let prefixLen = (if length plainToken < 8 then length plainToken else 8) in
            Inr (\<lparr>tok_ID = uuid, tok_Name = name, tok_TokenHash = hash,
                   tok_TokenPrefix = take prefixLen plainToken, tok_Scope = scope,
                   tok_CreatedBy = createdBy, tok_CreatedAt = now, tok_ExpiresAt = expiresAt,
                   tok_LastUsedAt = None, tok_RequestCount = 0, tok_Enabled = True\<rparr>, plainToken))"

lemma b64_digits_length_32: "length s = 32 \<Longrightarrow> length (b64_digits s) = 43"
proof -
  have step: "length (b64_digits s) = 4 + length (b64_digits (drop 3 s))" if "3 \<le> length s" for s
    using that by (cases s rule: b64_digits.cases) auto
  have two: "length s = 2 \<Longrightarrow> length (b64_digits s) = 3" for s
    by (cases s rule: b64_digits.cases) auto
  assume "length s = 32"
  then show ?thesis by (simp add: step two)
qed

lemma GenerateTokenString_length:
  "length random32 = 32 \<Longrightarrow> length (GenerateTokenString random32) = 48"
  by (simp add: GenerateTokenString_def rawurl_encode_def b64_digits_length_32)

lemma GenerateTokenString_inj: "GenerateTokenString r = GenerateTokenString r' \<Longrightarrow> r = r'"
  by (metis GenerateTokenString_def append_eq_append_conv option.inject rawurl_decode_encode)

lemma GenerateTokenString_no_dot: "CHR ''.'' \<notin> set (GenerateTokenString r)"
  using rawurl_no_dot by (simp add: GenerateTokenString_def)

lemma NewAPIToken_ok:
  assumes "NewAPIToken gen random32 uuid now name scope createdBy expiresAt = Inr (t, plain)"
  shows "plain = GenerateTokenString random32" "gen plain = Some (tok_TokenHash t)"
    "tok_Enabled t" "tok_ExpiresAt t = expiresAt" "tok_ID t = uuid" "tok_Name t = name"
    "tok_Scope t = scope" "tok_TokenPrefix t = take 8 plain"
    "expiresAt = Some e \<Longrightarrow> now \<le> e"
  using assms
  by (auto simp: NewAPIToken_def HashToken_def Let_def split: if_splits option.splits sum.splits)

section \<open>The store\<close>

type_synonym token_disk = "api_token list disk"

definition Store_load :: "token_disk \<Rightarrow> store_error + api_token list" where
  "Store_load d = (case target d of
       NoFile \<Rightarrow> Inr []
     | Unreadable \<Rightarrow> Inl ErrRead
     | Blank \<Rightarrow> Inr []
     | Garbage \<Rightarrow> Inl ErrDecode
     | Holds ts \<Rightarrow> Inr ts)"

definition Store_save :: "io_env \<Rightarrow> api_token list \<Rightarrow> token_disk \<Rightarrow> io_error option \<times> token_disk" where
  "Store_save io tokens d =
     (if \<not> marshal_ok io then (Some EMarshal, d)
      else if \<not> mkdir_ok io then (Some EMkdir, d)
      else if \<not> create_ok io then (Some ECreate, d)
      else
        let d1 = create_temp d in
        if \<not> write_ok io then (Some EWrite, remove_temp io d1)
        else if \<not> sync_ok io then (Some ESync, remove_temp io d1)
        else if \<not> close_ok io then (Some EClose, remove_temp io d1)
        else if \<not> rename_ok io then (Some ERename, remove_temp io d1)
        else (None, rename_temp tokens d1))"

definition Store_finish :: "io_error option \<times> token_disk \<Rightarrow> store_error option \<times> token_disk" where
  "Store_finish r = (map_option ErrSave (fst r), snd r)"

definition Store_Create :: "io_env \<Rightarrow> api_token \<Rightarrow> token_disk \<Rightarrow> store_error option \<times> token_disk" where
  "Store_Create io token d =
     (case Store_load d of
        Inl e \<Rightarrow> (Some e, d)
      | Inr tokens \<Rightarrow>
          if \<exists>t \<in> set tokens. tok_Name t = tok_Name token then (Some ErrDuplicateName, d)
          else Store_finish (Store_save io (tokens @ [token]) d))"

definition Store_GetByID :: "string \<Rightarrow> token_disk \<Rightarrow> store_error + api_token" where
  "Store_GetByID i d =
     (case Store_load d of
        Inl e \<Rightarrow> Inl e
      | Inr tokens \<Rightarrow> (case List.find (\<lambda>t. tok_ID t = i) tokens of
            Some t \<Rightarrow> Inr t | None \<Rightarrow> Inl ErrTokenNotFound))"

definition Store_GetByName :: "string \<Rightarrow> token_disk \<Rightarrow> store_error + api_token" where
  "Store_GetByName n d =
     (case Store_load d of
        Inl e \<Rightarrow> Inl e
      | Inr tokens \<Rightarrow> (case List.find (\<lambda>t. tok_Name t = n) tokens of
            Some t \<Rightarrow> Inr t | None \<Rightarrow> Inl ErrTokenNotFound))"

definition Store_List :: "token_disk \<Rightarrow> store_error + api_token list" where
  "Store_List d = Store_load d"

definition Store_Update :: "io_env \<Rightarrow> api_token \<Rightarrow> token_disk \<Rightarrow> store_error option \<times> token_disk" where
  "Store_Update io token d =
     (case Store_load d of
        Inl e \<Rightarrow> (Some e, d)
      | Inr tokens \<Rightarrow>
          (case List.find (\<lambda>t. tok_ID t = tok_ID token) tokens of
             None \<Rightarrow> (Some ErrTokenNotFound, d)
           | Some t \<Rightarrow>
               if tok_Name t \<noteq> tok_Name token
                  \<and> (\<exists>other \<in> set tokens. tok_ID other \<noteq> tok_ID token \<and> tok_Name other = tok_Name token)
               then (Some ErrDuplicateName, d)
               else Store_finish (Store_save io (update_first (\<lambda>t. tok_ID t = tok_ID token) (\<lambda>_. token) tokens) d)))"

definition Store_SoftDelete :: "io_env \<Rightarrow> string \<Rightarrow> token_disk \<Rightarrow> store_error option \<times> token_disk" where
  "Store_SoftDelete io i d =
     (case Store_load d of
        Inl e \<Rightarrow> (Some e, d)
      | Inr tokens \<Rightarrow>
          if \<not> (\<exists>t \<in> set tokens. tok_ID t = i) then (Some ErrTokenNotFound, d)
          else Store_finish (Store_save io (update_first (\<lambda>t. tok_ID t = i) (\<lambda>t. t\<lparr>tok_Enabled := False\<rparr>) tokens) d))"

interpretation token_file: atomic_saver Store_save
  by unfold_locales
    (auto simp: Store_save_def io_all_ok_def Let_def split: if_splits)

lemmas store_op_defs = Store_Create_def Store_Update_def Store_SoftDelete_def Store_finish_def

section \<open>Refinement of a finite map from identifiers to tokens\<close>

definition store_wf :: "token_disk \<Rightarrow> bool" where
  "store_wf d = (case Store_load d of Inl _ \<Rightarrow> True
     | Inr ts \<Rightarrow> distinct (map tok_ID ts) \<and> distinct (map tok_Name ts))"

definition token_map :: "api_token list \<Rightarrow> string \<Rightarrow> api_token option" where
  "token_map ts i = List.find (\<lambda>t. tok_ID t = i) ts"

definition store_abs :: "token_disk \<Rightarrow> string \<Rightarrow> api_token option" where
  "store_abs d = (case Store_load d of Inl _ \<Rightarrow> (\<lambda>_. None) | Inr ts \<Rightarrow> token_map ts)"

datatype store_op = OpCreate api_token | OpUpdate api_token | OpSoftDelete string

fun store_exec :: "io_env \<Rightarrow> store_op \<Rightarrow> token_disk \<Rightarrow> store_error option \<times> token_disk" where
  "store_exec io (OpCreate t) d = Store_Create io t d"
| "store_exec io (OpUpdate t) d = Store_Update io t d"
| "store_exec io (OpSoftDelete i) d = Store_SoftDelete io i d"

text \<open>What the store promises, on the map alone: names are unique, an update keeps them so, and a
  deletion only disables.\<close>

fun store_spec :: "store_op \<Rightarrow> (string \<Rightarrow> api_token option) \<Rightarrow> store_error + (string \<Rightarrow> api_token option)" where
  "store_spec (OpCreate t) m =
     (if \<exists>u \<in> ran m. tok_Name u = tok_Name t then Inl ErrDuplicateName else Inr (m(tok_ID t \<mapsto> t)))"
| "store_spec (OpUpdate t) m =
     (if m (tok_ID t) = None then Inl ErrTokenNotFound
      else if \<exists>u \<in> ran m. tok_ID u \<noteq> tok_ID t \<and> tok_Name u = tok_Name t then Inl ErrDuplicateName
      else Inr (m(tok_ID t \<mapsto> t)))"
| "store_spec (OpSoftDelete i) m =
     (case m i of None \<Rightarrow> Inl ErrTokenNotFound | Some t \<Rightarrow> Inr (m(i \<mapsto> t\<lparr>tok_Enabled := False\<rparr>)))"

fun op_fresh :: "store_op \<Rightarrow> (string \<Rightarrow> api_token option) \<Rightarrow> bool" where
  "op_fresh (OpCreate t) m = (m (tok_ID t) = None)"
| "op_fresh _ m = True"

lemma token_map_SomeD: "token_map ts i = Some t \<Longrightarrow> t \<in> set ts \<and> tok_ID t = i"
  unfolding token_map_def by (rule find_Some_in)

lemma token_map_None: "token_map ts i = None \<longleftrightarrow> i \<notin> tok_ID ` set ts"
  by (auto simp: token_map_def find_None_iff)

lemma token_map_in: "distinct (map tok_ID ts) \<Longrightarrow> t \<in> set ts \<Longrightarrow> token_map ts (tok_ID t) = Some t"
  unfolding token_map_def by (rule find_distinct_key)

lemma ran_token_map: "distinct (map tok_ID ts) \<Longrightarrow> ran (token_map ts) = set ts"
  by (force simp: ran_def dest: token_map_SomeD token_map_in)

lemma token_map_append:
  "tok_ID t \<notin> tok_ID ` set ts \<Longrightarrow> token_map (ts @ [t]) = (token_map ts)(tok_ID t \<mapsto> t)"
  by (induction ts) (auto simp: token_map_def fun_eq_iff)

lemma token_map_update_first:
  assumes "i \<in> tok_ID ` set ts" and "\<And>t. tok_ID t = i \<Longrightarrow> tok_ID (f t) = i"
  shows "token_map (update_first (\<lambda>t. tok_ID t = i) f ts) = (token_map ts)(i \<mapsto> f (the (token_map ts i)))"
  using assms by (induction ts) (auto simp: token_map_def fun_eq_iff)

lemma Store_load_target: "target d' = target d \<Longrightarrow> Store_load d' = Store_load d"
  by (simp add: Store_load_def)

lemma Store_load_Holds [simp]: "target d = Holds ts \<Longrightarrow> Store_load d = Inr ts"
  by (simp add: Store_load_def)

text \<open>Every mutating operation either leaves the decoded contents alone and reports why, or
  writes exactly the list it computed.\<close>

lemma Store_finish_save:
  "Store_finish (Store_save io ts d) = (r, d') \<Longrightarrow>
     (r = None \<and> Store_load d' = Inr ts) \<or> (\<exists>e. r = Some (ErrSave e) \<and> Store_load d' = Store_load d)"
  using token_file.save_ok_target [of io ts d] token_file.save_err_target [of io ts d]
  by (cases "fst (Store_save io ts d)") (auto simp: Store_finish_def intro: Store_load_target)

lemma distinct_names_update:
  assumes d: "distinct (map tok_ID ts)" "distinct (map tok_Name ts)"
    and free: "\<forall>u \<in> set ts. tok_ID u \<noteq> tok_ID t \<longrightarrow> tok_Name u \<noteq> tok_Name t"
  shows "distinct (map tok_Name (update_first (\<lambda>u. tok_ID u = tok_ID t) (\<lambda>_. t) ts))"
  using assms
proof (induction ts)
  case Nil
  then show ?case by simp
next
  case (Cons a ts)
  show ?case
  proof (cases "tok_ID a = tok_ID t")
    case True
    then have "tok_ID t \<notin> tok_ID ` set ts" using Cons.prems(1) by simp
    then have "\<forall>u \<in> set ts. tok_ID u \<noteq> tok_ID t" by (metis imageI)
    then have "tok_Name t \<notin> tok_Name ` set ts" using Cons.prems(3) by auto
    then show ?thesis using True Cons.prems by simp
  next
    case False
    then have "tok_Name a \<notin> tok_Name ` set (update_first (\<lambda>u. tok_ID u = tok_ID t) (\<lambda>_. t) ts)"
      using Cons.prems by (force dest: in_set_update_firstD)
    then show ?thesis using False Cons by simp
  qed
qed

lemma store_abs_Inr: "Store_load d = Inr ts \<Longrightarrow> store_abs d = token_map ts"
  by (simp add: store_abs_def)

lemma store_wf_Inr:
  "Store_load d = Inr ts \<Longrightarrow> store_wf d \<longleftrightarrow> distinct (map tok_ID ts) \<and> distinct (map tok_Name ts)"
  by (simp add: store_wf_def)

lemmas store_views = store_abs_Inr store_wf_Inr

text \<open>The verdict of an operation against the map: it agrees with the specification, or the
  write failed after the checks passed and nothing changed.\<close>

definition refines_spec ::
  "store_op \<Rightarrow> token_disk \<Rightarrow> store_error option \<Rightarrow> token_disk \<Rightarrow> bool" where
  "refines_spec op d r d' =
     (store_wf d' \<and>
      (case r of
         None \<Rightarrow> store_spec op (store_abs d) = Inr (store_abs d')
       | Some (ErrSave e) \<Rightarrow> store_abs d' = store_abs d \<and> (\<exists>m. store_spec op (store_abs d) = Inr m)
       | Some e \<Rightarrow> store_abs d' = store_abs d \<and> store_spec op (store_abs d) = Inl e))"

lemma refines_by_save:
  assumes "Store_load d = Inr ts" and "store_wf d"
    and "store_spec op (token_map ts) = Inr (token_map ts')"
    and "distinct (map tok_ID ts')" and "distinct (map tok_Name ts')"
    and "Store_finish (Store_save io ts' d) = (r, d')"
  shows "refines_spec op d r d'"
  using assms Store_finish_save [OF assms(6)]
  by (auto simp: refines_spec_def store_views store_wf_def store_abs_def)

lemma Create_refines:
  assumes "Store_load d = Inr ts" and "store_wf d" and "tok_ID t \<notin> tok_ID ` set ts"
    and "Store_Create io t d = (r, d')"
  shows "refines_spec (OpCreate t) d r d'"
proof (cases "\<exists>u \<in> set ts. tok_Name u = tok_Name t")
  case True
  then show ?thesis using assms
    by (auto simp: refines_spec_def Store_Create_def store_views ran_token_map)
next
  case False
  then show ?thesis using assms
    by (intro refines_by_save [OF assms(1,2), of _ "ts @ [t]"])
      (auto simp: Store_Create_def store_views ran_token_map token_map_append)
qed

lemma Update_refines:
  assumes "Store_load d = Inr ts" and wf: "store_wf d" and upd: "Store_Update io t d = (r, d')"
  shows "refines_spec (OpUpdate t) d r d'"
proof (cases "token_map ts (tok_ID t)")
  case None
  then show ?thesis using assms
    by (auto simp: refines_spec_def Store_Update_def store_views token_map_def)
next
  case (Some u)
  note D = wf [unfolded store_wf_Inr [OF assms(1)]]
  have u: "u \<in> set ts" "tok_ID u = tok_ID t" using token_map_SomeD [OF Some] by auto
  have F: "List.find (\<lambda>v. tok_ID v = tok_ID t) ts = Some u" using Some by (simp add: token_map_def)
  have same: "\<not> (\<exists>v \<in> set ts. tok_ID v \<noteq> tok_ID t \<and> tok_Name v = tok_Name t)" if "tok_Name u = tok_Name t"
    using that u D by (metis distinct_map inj_on_def)
  show ?thesis
  proof (cases "\<exists>v \<in> set ts. tok_ID v \<noteq> tok_ID t \<and> tok_Name v = tok_Name t")
    case True
    then have "tok_Name u \<noteq> tok_Name t" using same by blast
    then have "r = Some ErrDuplicateName" "d' = d" using upd assms(1) F True by (simp_all add: Store_Update_def)
    then show ?thesis using wf True Some D
      by (simp add: refines_spec_def store_views [OF assms(1)] ran_token_map)
  next
    case False
    let ?ts' = "update_first (\<lambda>v. tok_ID v = tok_ID t) (\<lambda>_. t) ts"
    have run: "Store_finish (Store_save io ?ts' d) = (r, d')"
      using upd assms(1) F False by (auto simp: Store_Update_def)
    have "tok_ID t \<in> tok_ID ` set ts" using u by (metis imageI)
    then have "token_map ?ts' = (token_map ts)(tok_ID t \<mapsto> t)"
      by (subst token_map_update_first) simp_all
    then have "store_spec (OpUpdate t) (token_map ts) = Inr (token_map ?ts')"
      using False Some D by (simp add: ran_token_map)
    moreover have "distinct (map tok_Name ?ts')"
      using False D by (intro distinct_names_update) auto
    ultimately show ?thesis using D
      by (intro refines_by_save [OF assms(1,2) _ _ _ run]) (simp_all add: map_update_first_eq)
  qed
qed

lemma SoftDelete_refines:
  assumes "Store_load d = Inr ts" and wf: "store_wf d" and del: "Store_SoftDelete io i d = (r, d')"
  shows "refines_spec (OpSoftDelete i) d r d'"
proof (cases "token_map ts i")
  case None
  then have "\<forall>t \<in> set ts. tok_ID t \<noteq> i" by (auto simp: token_map_None)
  then show ?thesis using assms None
    by (auto simp: refines_spec_def Store_SoftDelete_def store_views)
next
  case (Some u)
  let ?ts' = "update_first (\<lambda>t. tok_ID t = i) (\<lambda>t. t\<lparr>tok_Enabled := False\<rparr>) ts"
  have hit: "\<exists>t \<in> set ts. tok_ID t = i" using token_map_SomeD [OF Some] by blast
  then have run: "Store_finish (Store_save io ?ts' d) = (r, d')"
    using del assms(1) by (auto simp: Store_SoftDelete_def)
  have "token_map ?ts' = (token_map ts)(i \<mapsto> u\<lparr>tok_Enabled := False\<rparr>)"
    using hit Some by (subst token_map_update_first) auto
  then show ?thesis using wf Some
    by (intro refines_by_save [OF assms(1,2) _ _ _ run])
      (simp_all add: store_views [OF assms(1)] map_update_first_eq)
qed

text \<open>C4: every store operation refines the abstract map. On a readable store whose identifiers
  and names are unique, and with a fresh identifier for a creation, an operation keeps them
  unique and either does what the map specification says (result and error code included), or
  reports a failed write and leaves the store's contents as they were.\<close>

theorem store_op_refines:
  assumes "Store_load d = Inr ts" and "store_wf d" and "op_fresh op (store_abs d)"
    and "store_exec io op d = (r, d')"
  shows "refines_spec op d r d'"
  using assms by (cases op) (auto simp: store_views token_map_None intro: Create_refines Update_refines SoftDelete_refines)

definition sample_token :: "string \<Rightarrow> string \<Rightarrow> api_token" where
  "sample_token i n = \<lparr>tok_ID = i, tok_Name = n, tok_TokenHash = ''h'' @ i, tok_TokenPrefix = ''unet_abc'',
     tok_Scope = ScopeRead, tok_CreatedBy = ''cli'', tok_CreatedAt = 0, tok_ExpiresAt = None,
     tok_LastUsedAt = None, tok_RequestCount = 0, tok_Enabled = True\<rparr>"

definition sample_disk :: token_disk where
  "sample_disk = \<lparr>target = Holds [sample_token ''1'' ''ci''], strays = 0\<rparr>"

theorem store_op_refines_witness:
  "refines_spec (OpCreate (sample_token ''2'' ''web'')) sample_disk
     (fst (Store_Create io_all_ok (sample_token ''2'' ''web'') sample_disk))
     (snd (Store_Create io_all_ok (sample_token ''2'' ''web'') sample_disk))
   \<and> fst (Store_Create io_all_ok (sample_token ''2'' ''web'') sample_disk) = None"
proof
  show "fst (Store_Create io_all_ok (sample_token ''2'' ''web'') sample_disk) = None" by code_simp
  show "refines_spec (OpCreate (sample_token ''2'' ''web'')) sample_disk
     (fst (Store_Create io_all_ok (sample_token ''2'' ''web'') sample_disk))
     (snd (Store_Create io_all_ok (sample_token ''2'' ''web'') sample_disk))"
    by (rule store_op_refines [where ts = "[sample_token ''1'' ''ci'']" and io = io_all_ok])
      (simp_all add: sample_disk_def sample_token_def store_wf_def store_abs_def Store_load_def token_map_def)
qed

end
