(* ===== verification/Token_Cache.thy ===== *)
theory Token_Cache
  imports Token_Store
begin

text \<open>
  Package \<open>auth\<close>, second part: the validation cache of \<open>cache.go\<close>, which sits between the HTTP
  middleware and the token store. SHA-256 and bcrypt's comparison are arguments. A call reads the
  clock several times; the model uses one reading per call. \<open>Validate\<close> is written as its three
  critical sections (look up under the read lock, list the store, scan and install under the write
  lock), because other requests can run between them; \<open>Auth_Runs\<close> interleaves them.

  The locale \<open>token_source\<close> is what the cache needs of a store; the token store of
  \<open>Token_Store\<close> interprets it.
\<close>

section \<open>State and operations\<close>

record cache_entry =
  ent_tokenID :: string
  ent_tokenName :: string
  ent_scope :: scope
  ent_hash :: string
  ent_sha256Sum :: string
  ent_enabled :: bool
  ent_expiresAt :: "instant option"
  ent_cachedAt :: instant

record token_cache =
  cache_entries :: "string \<Rightarrow> cache_entry option"
  cache_ttl :: duration

record validation_result =
  res_TokenID :: string
  res_TokenName :: string
  res_Scope :: scope

definition NewTokenCache :: "duration \<Rightarrow> token_cache" where
  "NewTokenCache ttl = \<lparr>cache_entries = (\<lambda>_. None), cache_ttl = (if ttl = 0 then 5 * minute else ttl)\<rparr>"

definition cache_prefix :: "string \<Rightarrow> string" where
  "cache_prefix plainToken = (if 8 < length plainToken then take 8 plainToken else plainToken)"

definition cache_lookup ::
  "(string \<Rightarrow> string) \<Rightarrow> instant \<Rightarrow> string \<Rightarrow> token_cache \<Rightarrow> validation_result option" where
  "cache_lookup sha now plainToken c =
     (case cache_entries c (cache_prefix plainToken) of
        None \<Rightarrow> None
      | Some entry \<Rightarrow>
          if now - ent_cachedAt entry < cache_ttl c \<and> ent_enabled entry
             \<and> sha plainToken = ent_sha256Sum entry
          then Some \<lparr>res_TokenID = ent_tokenID entry, res_TokenName = ent_tokenName entry,
                     res_Scope = ent_scope entry\<rparr>
          else None)"

fun scan_tokens :: "bcrypt_cmp \<Rightarrow> instant \<Rightarrow> string \<Rightarrow> api_token list \<Rightarrow> api_token option" where
  "scan_tokens cmp now plainToken [] = None"
| "scan_tokens cmp now plainToken (t # ts) =
     (if \<not> tok_Enabled t then scan_tokens cmp now plainToken ts
      else if tok_ExpiresAt t \<noteq> None \<and> the (tok_ExpiresAt t) < now then scan_tokens cmp now plainToken ts
      else if VerifyToken cmp plainToken (tok_TokenHash t) then Some t
      else scan_tokens cmp now plainToken ts)"

definition cache_install :: "(string \<Rightarrow> string) \<Rightarrow> instant \<Rightarrow> string \<Rightarrow> api_token \<Rightarrow> token_cache \<Rightarrow> token_cache" where
  "cache_install sha now plainToken t c =
     c\<lparr>cache_entries := (cache_entries c)(tok_TokenPrefix t \<mapsto>
        \<lparr>ent_tokenID = tok_ID t, ent_tokenName = tok_Name t, ent_scope = tok_Scope t,
         ent_hash = tok_TokenHash t, ent_sha256Sum = sha plainToken, ent_enabled = tok_Enabled t,
         ent_expiresAt = tok_ExpiresAt t, ent_cachedAt = now\<rparr>)\<rparr>"

definition validation_result_of :: "api_token \<Rightarrow> validation_result" where
  "validation_result_of t = \<lparr>res_TokenID = tok_ID t, res_TokenName = tok_Name t, res_Scope = tok_Scope t\<rparr>"

text \<open>The part of \<open>Validate\<close> after the cache miss, on the listing it obtained.\<close>

definition scan_and_install ::
  "bcrypt_cmp \<Rightarrow> (string \<Rightarrow> string) \<Rightarrow> instant \<Rightarrow> string \<Rightarrow> store_error + api_token list \<Rightarrow> token_cache
     \<Rightarrow> (store_error + validation_result) \<times> token_cache" where
  "scan_and_install cmp sha now plainToken listing c =
     (case listing of
        Inl e \<Rightarrow> (Inl e, c)
      | Inr tokens \<Rightarrow>
          (case scan_tokens cmp now plainToken tokens of
             None \<Rightarrow> (Inl ErrTokenNotFound, c)
           | Some t \<Rightarrow> (Inr (validation_result_of t), cache_install sha now plainToken t c)))"

definition validate_with ::
  "bcrypt_cmp \<Rightarrow> (string \<Rightarrow> string) \<Rightarrow> instant \<Rightarrow> string \<Rightarrow> store_error + api_token list \<Rightarrow> token_cache
     \<Rightarrow> (store_error + validation_result) \<times> token_cache" where
  "validate_with cmp sha now plainToken listing c =
     (case cache_lookup sha now plainToken c of
        Some r \<Rightarrow> (Inr r, c)
      | None \<Rightarrow> scan_and_install cmp sha now plainToken listing c)"

definition Cache_Validate ::
  "bcrypt_cmp \<Rightarrow> (string \<Rightarrow> string) \<Rightarrow> instant \<Rightarrow> string \<Rightarrow> token_disk \<Rightarrow> token_cache
     \<Rightarrow> (store_error + validation_result) \<times> token_cache" where
  "Cache_Validate cmp sha now plainToken d c = validate_with cmp sha now plainToken (Store_List d) c"

definition Cache_Invalidate :: "string \<Rightarrow> token_cache \<Rightarrow> token_cache" where
  "Cache_Invalidate tokenPrefix c = c\<lparr>cache_entries := (cache_entries c)(tokenPrefix := None)\<rparr>"

definition Cache_InvalidateAll :: "token_cache \<Rightarrow> token_cache" where
  "Cache_InvalidateAll c = c\<lparr>cache_entries := (\<lambda>_. None)\<rparr>"

section \<open>The cache invariant of validations served one at a time\<close>

text \<open>An entry is backed by a token of the listing that is still enabled, was installed for a
  plaintext that matched the token's hash, and not after the token had expired. The set \<open>P\<close> holds
  the plaintexts presented so far; collision freedom of SHA-256 is only ever needed on it.\<close>

definition entry_backed :: "bcrypt_cmp \<Rightarrow> (string \<Rightarrow> string) \<Rightarrow> string set \<Rightarrow> api_token list \<Rightarrow> string \<Rightarrow> cache_entry \<Rightarrow> bool" where
  "entry_backed cmp sha P ts p e \<longleftrightarrow>
     (\<exists>t \<in> set ts. tok_Enabled t \<and> tok_TokenPrefix t = p \<and> tok_ID t = ent_tokenID e
        \<and> tok_Name t = ent_tokenName e \<and> tok_Scope t = ent_scope e
        \<and> tok_ExpiresAt t = ent_expiresAt e
        \<and> (\<exists>plain \<in> P. sha plain = ent_sha256Sum e \<and> cmp (tok_TokenHash t) plain)
        \<and> (\<forall>x. tok_ExpiresAt t = Some x \<longrightarrow> ent_cachedAt e \<le> x))"

definition cache_ok :: "bcrypt_cmp \<Rightarrow> (string \<Rightarrow> string) \<Rightarrow> string set \<Rightarrow> api_token list \<Rightarrow> token_cache \<Rightarrow> bool" where
  "cache_ok cmp sha P ts c \<longleftrightarrow>
     (\<forall>p e. cache_entries c p = Some e \<longrightarrow> entry_backed cmp sha P ts p e)"

text \<open>What a client may conclude from an accepted plaintext: an enabled token with that
  identity matches it, and it has not been expired for a full TTL.\<close>

definition vouched :: "bcrypt_cmp \<Rightarrow> duration \<Rightarrow> instant \<Rightarrow> string \<Rightarrow> api_token list \<Rightarrow> validation_result \<Rightarrow> bool" where
  "vouched cmp ttl now plain ts r \<longleftrightarrow>
     (\<exists>t \<in> set ts. tok_Enabled t \<and> r = validation_result_of t \<and> cmp (tok_TokenHash t) plain
        \<and> (\<forall>x. tok_ExpiresAt t = Some x \<longrightarrow> now < x + ttl))"

lemma scan_tokens_SomeD:
  "scan_tokens cmp now plain ts = Some t \<Longrightarrow>
     t \<in> set ts \<and> tok_Enabled t \<and> cmp (tok_TokenHash t) plain \<and> (\<forall>x. tok_ExpiresAt t = Some x \<longrightarrow> now \<le> x)"
  by (induction ts) (auto simp: VerifyToken_def split: if_splits)

lemma scan_tokens_NoneD:
  "scan_tokens cmp now plain ts = None \<Longrightarrow> t \<in> set ts \<Longrightarrow> tok_Enabled t \<Longrightarrow>
     (\<And>x. tok_ExpiresAt t = Some x \<Longrightarrow> now \<le> x) \<Longrightarrow> \<not> cmp (tok_TokenHash t) plain"
  by (induction ts) (auto simp: VerifyToken_def split: if_splits)

lemma NewTokenCache_ok [simp]: "cache_ok cmp sha P ts (NewTokenCache ttl)"
  by (simp add: cache_ok_def NewTokenCache_def)

lemma cache_ok_mono:
  assumes "cache_ok cmp sha P ts c" and "\<And>t. t \<in> set ts \<Longrightarrow> tok_Enabled t \<Longrightarrow> t \<in> set ts'"
  shows "cache_ok cmp sha P ts' c"
  using assms unfolding cache_ok_def entry_backed_def by meson

lemma cache_ok_plaintexts: "cache_ok cmp sha P ts c \<Longrightarrow> P \<subseteq> Q \<Longrightarrow> cache_ok cmp sha Q ts c"
  unfolding cache_ok_def entry_backed_def by (meson subsetD)

lemma cache_ok_InvalidateAll [simp]: "cache_ok cmp sha P ts (Cache_InvalidateAll c)"
  by (simp add: cache_ok_def Cache_InvalidateAll_def)

lemma cache_install_ok:
  assumes "cache_ok cmp sha P ts c" and "scan_tokens cmp now plain ts = Some t" and "plain \<in> P"
  shows "cache_ok cmp sha P ts (cache_install sha now plain t c)"
  using assms(1,3) scan_tokens_SomeD [OF assms(2)]
  by (auto simp: cache_ok_def cache_install_def entry_backed_def)

lemma validate_with_ok:
  "cache_ok cmp sha P ts c \<Longrightarrow> plain \<in> P \<Longrightarrow> cache_ok cmp sha P ts (snd (validate_with cmp sha now plain (Inr ts) c))"
  by (auto simp: validate_with_def scan_and_install_def cache_install_ok split: option.splits)

lemma cache_ttl_validate [simp]: "cache_ttl (snd (validate_with cmp sha now plain listing c)) = cache_ttl c"
  by (auto simp: validate_with_def scan_and_install_def cache_install_def split: option.splits sum.splits)

lemma cache_lookup_vouched:
  assumes "cache_ok cmp sha P ts c" and "inj_on sha P" and "plain \<in> P" and "cache_lookup sha now plain c = Some r"
  shows "vouched cmp (cache_ttl c) now plain ts r"
proof -
  from assms(4) obtain e where e: "cache_entries c (cache_prefix plain) = Some e"
      "now - ent_cachedAt e < cache_ttl c" "sha plain = ent_sha256Sum e"
      "r = \<lparr>res_TokenID = ent_tokenID e, res_TokenName = ent_tokenName e, res_Scope = ent_scope e\<rparr>"
    by (auto simp: cache_lookup_def split: option.splits if_splits)
  with assms(1) obtain t p where t: "t \<in> set ts" "tok_Enabled t" "tok_ID t = ent_tokenID e"
      "tok_Name t = ent_tokenName e" "tok_Scope t = ent_scope e"
      "p \<in> P" "sha p = ent_sha256Sum e" "cmp (tok_TokenHash t) p"
      "\<forall>x. tok_ExpiresAt t = Some x \<longrightarrow> ent_cachedAt e \<le> x"
    unfolding cache_ok_def entry_backed_def by metis
  then have "p = plain" using e(3) assms(2,3) by (metis inj_onD)
  then show ?thesis using t e
    by (fastforce simp: vouched_def validation_result_of_def)
qed

lemma validate_with_vouched:
  assumes "cache_ok cmp sha P ts c" and "inj_on sha P" and "plain \<in> P" and "0 < cache_ttl c"
    and "fst (validate_with cmp sha now plain (Inr ts) c) = Inr r"
  shows "vouched cmp (cache_ttl c) now plain ts r"
proof (cases "cache_lookup sha now plain c")
  case None
  then obtain t where "scan_tokens cmp now plain ts = Some t" "r = validation_result_of t"
    using assms(5) by (auto simp: validate_with_def scan_and_install_def split: option.splits)
  then show ?thesis using scan_tokens_SomeD [of cmp now plain ts t] assms(4)
    by (force simp: vouched_def)
next
  case (Some r')
  then show ?thesis using assms cache_lookup_vouched by (auto simp: validate_with_def)
qed

section \<open>What the cache needs of a store\<close>

locale token_source =
  fixes list_tokens :: "'s \<Rightarrow> store_error + api_token list"
    and revoke :: "io_env \<Rightarrow> string \<Rightarrow> 's \<Rightarrow> store_error option \<times> 's"
    and create :: "io_env \<Rightarrow> api_token \<Rightarrow> 's \<Rightarrow> store_error option \<times> 's"
    and wf :: "'s \<Rightarrow> bool"
  assumes list_ids: "wf s \<Longrightarrow> list_tokens s = Inr ts \<Longrightarrow> distinct (map tok_ID ts)"
    and revoke_wf: "wf s \<Longrightarrow> wf (snd (revoke io i s))"
    and revoke_ok: "wf s \<Longrightarrow> list_tokens s = Inr ts \<Longrightarrow> revoke io i s = (None, s') \<Longrightarrow>
      \<exists>ts'. list_tokens s' = Inr ts' \<and> (\<forall>t \<in> set ts'. tok_ID t = i \<longrightarrow> \<not> tok_Enabled t)
        \<and> (\<forall>t \<in> set ts. tok_ID t \<noteq> i \<longrightarrow> t \<in> set ts')"
    and revoke_err: "revoke io i s = (Some e, s') \<Longrightarrow> list_tokens s' = list_tokens s"
    and create_ok: "list_tokens s = Inr ts \<Longrightarrow> create io t s = (None, s') \<Longrightarrow> list_tokens s' = Inr (ts @ [t])"
    and create_err: "create io t s = (Some e, s') \<Longrightarrow> list_tokens s' = list_tokens s"
begin

lemma create_keeps_cache:
  assumes "list_tokens s = Inr ts" and "cache_ok cmp sha P ts c" and "list_tokens (snd (create io t s)) = Inr ts'"
  shows "cache_ok cmp sha P ts' c"
proof (cases "create io t s")
  case (Pair r s')
  show ?thesis
  proof (cases r)
    case None
    then have "ts' = ts @ [t]" using create_ok [OF assms(1)] Pair assms(3) by fastforce
    then show ?thesis using assms(2) by (auto intro: cache_ok_mono)
  next
    case (Some e)
    then show ?thesis using create_err Pair assms by fastforce
  qed
qed

text \<open>Revoking a token and dropping the entry under its prefix keeps the invariant: the only
  entries that the revocation unbacks are under that prefix.\<close>

lemma revoke_keeps_cache:
  assumes "wf s" and "list_tokens s = Inr ts" and "cache_ok cmp sha P ts c"
    and t: "t \<in> set ts" and "revoke io (tok_ID t) s = (None, s')" and "list_tokens s' = Inr ts'"
  shows "cache_ok cmp sha P ts' (Cache_Invalidate (tok_TokenPrefix t) c)"
  unfolding cache_ok_def
proof (intro allI impI)
  fix p e
  assume e: "cache_entries (Cache_Invalidate (tok_TokenPrefix t) c) p = Some e"
  then have p: "p \<noteq> tok_TokenPrefix t" "cache_entries c p = Some e"
    by (auto simp: Cache_Invalidate_def split: if_splits)
  then obtain u where u: "u \<in> set ts" "tok_TokenPrefix u = p" "tok_Enabled u"
      "tok_ID u = ent_tokenID e" "tok_Name u = ent_tokenName e" "tok_Scope u = ent_scope e"
      "tok_ExpiresAt u = ent_expiresAt e"
      "\<exists>plain \<in> P. sha plain = ent_sha256Sum e \<and> cmp (tok_TokenHash u) plain"
      "\<forall>x. tok_ExpiresAt u = Some x \<longrightarrow> ent_cachedAt e \<le> x"
    using assms(3) unfolding cache_ok_def entry_backed_def by metis
  have "tok_ID u \<noteq> tok_ID t"
    using list_ids [OF assms(1,2)] u(1,2) t p(1) by (metis distinct_map inj_on_def)
  then have "u \<in> set ts'" using revoke_ok [OF assms(1,2,5)] assms(6) u(1) by auto
  then show "entry_backed cmp sha P ts' p e" unfolding entry_backed_def using u by blast
qed

text \<open>After a completed revocation the identifier is never validated again.\<close>

lemma revoked_never_validates:
  assumes "wf s" and "list_tokens s = Inr ts" and "cache_ok cmp sha P ts c" and "inj_on sha P" and "plain \<in> P"
    and "0 < cache_ttl c" and "t \<in> set ts" and "revoke io (tok_ID t) s = (None, s')"
    and "fst (validate_with cmp sha now plain (list_tokens s') (Cache_Invalidate (tok_TokenPrefix t) c)) = Inr r"
  shows "res_TokenID r \<noteq> tok_ID t"
proof -
  obtain ts' where ts': "list_tokens s' = Inr ts'" "\<forall>u \<in> set ts'. tok_ID u = tok_ID t \<longrightarrow> \<not> tok_Enabled u"
    using revoke_ok [OF assms(1,2,8)] by auto
  have "vouched cmp (cache_ttl c) now plain ts' r"
    using validate_with_vouched [OF revoke_keeps_cache [OF assms(1,2,3,7,8) ts'(1)] assms(4,5)] assms(6,9) ts'(1)
    by (simp add: Cache_Invalidate_def)
  then show ?thesis using ts'(2) by (auto simp: vouched_def validation_result_of_def)
qed

end

lemma Store_SoftDelete_ok:
  assumes "Store_load d = Inr ts" and "Store_SoftDelete io i d = (None, d')"
  shows "Store_load d' = Inr (update_first (\<lambda>t. tok_ID t = i) (\<lambda>t. t\<lparr>tok_Enabled := False\<rparr>) ts)"
  using assms Store_finish_save
  by (fastforce simp: Store_SoftDelete_def split: if_splits)

lemma Store_SoftDelete_err: "Store_SoftDelete io i d = (Some e, d') \<Longrightarrow> Store_load d' = Store_load d"
  by (auto simp: Store_SoftDelete_def split: if_splits sum.splits dest: Store_finish_save)

lemma Store_Create_ok:
  "Store_load d = Inr ts \<Longrightarrow> Store_Create io t d = (None, d') \<Longrightarrow> Store_load d' = Inr (ts @ [t])"
  using Store_finish_save by (fastforce simp: Store_Create_def split: if_splits)

lemma Store_Create_err: "Store_Create io t d = (Some e, d') \<Longrightarrow> Store_load d' = Store_load d"
  by (auto simp: Store_Create_def split: if_splits sum.splits dest: Store_finish_save)

lemma update_first_disables:
  "distinct (map tok_ID ts) \<Longrightarrow>
   t \<in> set (update_first (\<lambda>t. tok_ID t = i) (\<lambda>t. t\<lparr>tok_Enabled := False\<rparr>) ts) \<Longrightarrow> tok_ID t = i \<Longrightarrow> \<not> tok_Enabled t"
proof (induction ts)
  case (Cons a ts)
  show ?case
  proof (cases "tok_ID a = i")
    case True
    then have "i \<notin> tok_ID ` set ts" using Cons.prems(1) by simp
    then have "t \<notin> set ts" using Cons.prems(3) by (metis imageI)
    then have "t = a\<lparr>tok_Enabled := False\<rparr>" using Cons.prems(2) True by simp
    then show ?thesis by simp
  next
    case False
    then have "t \<noteq> a" using Cons.prems(3) by blast
    then show ?thesis using Cons False by simp
  qed
qed simp

lemma SoftDelete_wf: "store_wf d \<Longrightarrow> store_wf (snd (Store_SoftDelete io i d))"
proof (cases "Store_load d")
  case (Inl e)
  then show "store_wf d \<Longrightarrow> ?thesis" by (simp add: Store_SoftDelete_def)
next
  case (Inr ts)
  then show "store_wf d \<Longrightarrow> ?thesis"
    using SoftDelete_refines [of d ts io i "fst (Store_SoftDelete io i d)" "snd (Store_SoftDelete io i d)"]
    by (simp add: refines_spec_def)
qed

interpretation auth_store: token_source Store_List Store_SoftDelete Store_Create store_wf
proof unfold_locales
  fix d :: token_disk and ts and d' and i and io
  assume "store_wf d" "Store_List d = Inr ts" "Store_SoftDelete io i d = (None, d')"
  then show "\<exists>ts'. Store_List d' = Inr ts' \<and> (\<forall>t \<in> set ts'. tok_ID t = i \<longrightarrow> \<not> tok_Enabled t)
      \<and> (\<forall>t \<in> set ts. tok_ID t \<noteq> i \<longrightarrow> t \<in> set ts')"
    using update_first_disables [of ts _ i] set_update_first_keep [of _ ts "\<lambda>t. tok_ID t = i"]
    by (simp add: Store_List_def Store_SoftDelete_ok store_wf_Inr)
qed (auto simp: Store_List_def store_wf_Inr SoftDelete_wf Store_SoftDelete_err Store_Create_ok Store_Create_err)

section \<open>Properties\<close>

lemma scan_unique:
  assumes "t \<in> set ts" and "tok_Enabled t" and "cmp (tok_TokenHash t) plain"
    and "\<And>x. tok_ExpiresAt t = Some x \<Longrightarrow> now \<le> x"
    and "\<And>u. u \<in> set ts \<Longrightarrow> cmp (tok_TokenHash u) plain \<Longrightarrow> u = t"
  shows "scan_tokens cmp now plain ts = Some t"
proof (cases "scan_tokens cmp now plain ts")
  case None
  then show ?thesis using scan_tokens_NoneD [OF None assms(1,2)] assms(3,4) by blast
next
  case (Some u)
  then show ?thesis using scan_tokens_SomeD [OF Some] assms(5) by auto
qed

text \<open>a freshly minted token works at once. After \<open>NewAPIToken\<close> and a successful
  \<open>Store.Create\<close>, presenting the returned plaintext before the expiry date yields that token's
  identity and scope, whatever the cache held, provided bcrypt accepts what it hashed and no older
  hash in the store accepts the new plaintext.\<close>

theorem minted_token_validates:
  assumes new: "NewAPIToken gen random32 uuid now0 name scope createdBy exp = Inr (t, plain)"
    and created: "Store_Create io t d = (None, d')" and "Store_load d = Inr ts"
    and "cache_ok cmp sha P ts c" and "inj_on sha (insert plain P)"
    and "\<And>p h. gen p = Some h \<Longrightarrow> cmp h p"
    and old: "\<And>u. u \<in> set ts \<Longrightarrow> \<not> cmp (tok_TokenHash u) plain"
    and "\<And>x. exp = Some x \<Longrightarrow> now \<le> x"
  shows "fst (Cache_Validate cmp sha now plain d' c) = Inr (validation_result_of t)"
proof -
  note t = NewAPIToken_ok [OF new]
  have load': "Store_load d' = Inr (ts @ [t])" using created assms(3) by (rule Store_Create_ok [rotated])
  have ok: "cache_ok cmp sha (insert plain P) ts c" using assms(4) by (rule cache_ok_plaintexts) auto
  have miss: "cache_lookup sha now plain c = None"
  proof (rule ccontr)
    assume "cache_lookup sha now plain c \<noteq> None"
    then obtain r where "cache_lookup sha now plain c = Some r" by blast
    then have "vouched cmp (cache_ttl c) now plain ts r"
      using cache_lookup_vouched [OF ok assms(5)] by simp
    then show False using old by (auto simp: vouched_def)
  qed
  have "scan_tokens cmp now plain (ts @ [t]) = Some t"
    using t assms(6,8) old by (intro scan_unique) auto
  then show ?thesis using miss load'
    by (simp add: Cache_Validate_def validate_with_def scan_and_install_def Store_List_def)
qed

definition sample_minted :: "api_token \<times> string" where
  "sample_minted = (case NewAPIToken (\<lambda>p. Some (''#'' @ p)) (replicate 32 (CHR ''k'')) ''2'' 5 ''web'' ScopeWrite
      ''system'' (Some 90) of Inr r \<Rightarrow> r | Inl e \<Rightarrow> (sample_token [] [], []))"

theorem minted_token_validates_witness:
  "fst (Cache_Validate (\<lambda>h p. h = ''#'' @ p) id 60 (snd sample_minted)
      (snd (Store_Create io_all_ok (fst sample_minted) sample_disk)) (NewTokenCache 0))
    = Inr (validation_result_of (fst sample_minted))"
proof (rule minted_token_validates [where d = sample_disk and ts = "[sample_token ''1'' ''ci'']"
      and gen = "\<lambda>p. Some (''#'' @ p)" and P = "{}" and io = io_all_ok])
  show "NewAPIToken (\<lambda>p. Some (''#'' @ p)) (replicate 32 (CHR ''k'')) ''2'' 5 ''web'' ScopeWrite
      ''system'' (Some 90) = Inr (fst sample_minted, snd sample_minted)"
    by (simp add: sample_minted_def NewAPIToken_def HashToken_def Let_def)
  show "Store_Create io_all_ok (fst sample_minted) sample_disk
      = (None, snd (Store_Create io_all_ok (fst sample_minted) sample_disk))"
    by (simp add: Store_Create_def sample_disk_def sample_token_def sample_minted_def NewAPIToken_def
        HashToken_def Let_def Store_finish_def Store_save_def io_all_ok_def Store_load_def)
qed (simp_all add: sample_disk_def sample_token_def)

text \<open>C10: the revocation race. \<open>Validate\<close> lists the store without holding the cache lock, so a
  revocation that completes (token disabled, cache entry dropped) between the listing and the
  installation is undone in the cache: the scan installs the token as enabled, and the plaintext
  is then accepted from the cache for up to the TTL although the store has it disabled.\<close>

theorem revocation_race:
  assumes "Store_load d = Inr ts" and "store_wf d" and "scan_tokens cmp now plain ts = Some t"
    and "tok_TokenPrefix t = cache_prefix plain" and "now' - now < cache_ttl c"
    and "Store_SoftDelete io (tok_ID t) d = (None, d')"
    and "c' = snd (scan_and_install cmp sha now plain (Store_List d) (Cache_Invalidate (tok_TokenPrefix t) c))"
  shows "fst (Cache_Validate cmp sha now' plain d' c') = Inr (validation_result_of t)
    \<and> (\<forall>u ts'. Store_load d' = Inr ts' \<longrightarrow> u \<in> set ts' \<longrightarrow> tok_ID u = tok_ID t \<longrightarrow> \<not> tok_Enabled u)"
proof
  have "tok_Enabled t" using scan_tokens_SomeD [OF assms(3)] by simp
  then show "fst (Cache_Validate cmp sha now' plain d' c') = Inr (validation_result_of t)"
    using assms(1,3,4,5,7)
    by (simp add: Cache_Validate_def validate_with_def cache_lookup_def scan_and_install_def
        Store_List_def cache_install_def validation_result_of_def Cache_Invalidate_def)
  show "\<forall>u ts'. Store_load d' = Inr ts' \<longrightarrow> u \<in> set ts' \<longrightarrow> tok_ID u = tok_ID t \<longrightarrow> \<not> tok_Enabled u"
    using auth_store.revoke_ok [of d ts io "tok_ID t" d'] assms(1,2,6) by (auto simp: Store_List_def)
qed

theorem revocation_race_witness:
  "fst (Cache_Validate (\<lambda>h p. p = ''unet_abcXYZ'') id 8 ''unet_abcXYZ''
        (snd (Store_SoftDelete io_all_ok ''1'' sample_disk))
        (snd (scan_and_install (\<lambda>h p. p = ''unet_abcXYZ'') id 7 ''unet_abcXYZ'' (Store_List sample_disk)
           (Cache_Invalidate ''unet_abc'' (NewTokenCache 0)))))
    = Inr \<lparr>res_TokenID = ''1'', res_TokenName = ''ci'', res_Scope = ScopeRead\<rparr>"
proof -
  have del: "Store_SoftDelete io_all_ok ''1'' sample_disk = (None, snd (Store_SoftDelete io_all_ok ''1'' sample_disk))"
    by (simp add: Store_SoftDelete_def sample_disk_def sample_token_def Store_finish_def Store_save_def
        io_all_ok_def Store_load_def)
  show ?thesis
    using revocation_race [where d = sample_disk and ts = "[sample_token ''1'' ''ci'']" and sha = id
        and t = "sample_token ''1'' ''ci''" and cmp = "\<lambda>h p. p = ''unet_abcXYZ''" and now = 7
        and now' = 8 and plain = "''unet_abcXYZ''" and c = "NewTokenCache 0" and io = io_all_ok, OF _ _ _ _ _ _ refl]
      del
    by (simp add: sample_disk_def store_wf_def Store_load_def sample_token_def VerifyToken_def cache_prefix_def
        NewTokenCache_def minute_def second_def validation_result_of_def)
qed

end
