(* ===== verification/Jwt.thy ===== *)
theory Jwt
  imports Token_Store
begin

text \<open>
  Package \<open>auth\<close>, third part: the session tokens of \<open>jwt.go\<close>. HMAC-SHA256 is an argument (key and
  message give the digest) and so are the JSON encoder and decoder of the claims; base64 is that of
  \<open>Base64_Codec\<close>. The times inside a token are Unix seconds, the floor of the instant.
\<close>

section \<open>State and operations\<close>

record jwt_claims =
  Sub :: string
  clm_Name :: string
  clm_Scope :: scope
  Iss :: string
  Iat :: int
  Exp :: int
  Jti :: string

record jwt_issuer =
  signingKey :: string
  issuer_ttl :: duration

datatype jwt_error = ErrDecodeKey | ErrKeyTooShort nat | ErrRandom | ErrMarshalClaims
  | ErrInvalidFormat | ErrInvalidSignature | ErrDecodePayload | ErrUnmarshalClaims
  | ErrInvalidIssuer | ErrJWTExpired

type_synonym hmac = "string \<Rightarrow> string \<Rightarrow> string"
type_synonym claims_enc = "jwt_claims \<Rightarrow> string option"
type_synonym claims_dec = "string \<Rightarrow> jwt_claims option"

definition defaultJWTTTL :: duration where
  "defaultJWTTTL = 15 * minute"

definition Unix :: "instant \<Rightarrow> int" where
  "Unix t = t div second"

definition NewJWTIssuer :: "string \<Rightarrow> jwt_error + jwt_issuer" where
  "NewJWTIssuer signingKeyBase64 =
     (case std_decode signingKeyBase64 of
        None \<Rightarrow> Inl ErrDecodeKey
      | Some key \<Rightarrow>
          if length key < 32 then Inl (ErrKeyTooShort (length key))
          else Inr \<lparr>signingKey = key, issuer_ttl = defaultJWTTTL\<rparr>)"

definition GenerateJWTSigningKey :: "string option \<Rightarrow> jwt_error + string" where
  "GenerateJWTSigningKey random32 =
     (case random32 of None \<Rightarrow> Inl ErrRandom | Some key \<Rightarrow> Inr (std_encode key))"

definition jwt_header :: string where
  "jwt_header = ''{\"alg\":\"HS256\",\"typ\":\"JWT\"}''"

definition jwt_sign :: "hmac \<Rightarrow> jwt_issuer \<Rightarrow> string \<Rightarrow> string" where
  "jwt_sign hmac j signingInput = rawurl_encode (hmac (signingKey j) signingInput)"

definition issued_claims :: "jwt_issuer \<Rightarrow> instant \<Rightarrow> string \<Rightarrow> string \<Rightarrow> string \<Rightarrow> scope \<Rightarrow> jwt_claims" where
  "issued_claims j now uuid tokenID tokenName scope =
     \<lparr>Sub = tokenID, clm_Name = tokenName, clm_Scope = scope, Iss = ''unet-daemon'',
      Iat = Unix now, Exp = Unix (now + issuer_ttl j), Jti = uuid\<rparr>"

definition Issue ::
  "hmac \<Rightarrow> claims_enc \<Rightarrow> jwt_issuer \<Rightarrow> instant \<Rightarrow> string \<Rightarrow> string \<Rightarrow> string \<Rightarrow> scope \<Rightarrow> jwt_error + string" where
  "Issue hmac enc j now uuid tokenID tokenName scope =
     (case enc (issued_claims j now uuid tokenID tokenName scope) of
        None \<Rightarrow> Inl ErrMarshalClaims
      | Some payload \<Rightarrow>
          let signingInput = rawurl_encode jwt_header @ ''.'' @ rawurl_encode payload
          in Inr (signingInput @ ''.'' @ jwt_sign hmac j signingInput))"

text \<open>The loop of \<open>splitJWT\<close>: \<open>parts\<close> are the pieces so far, \<open>cur\<close> is \<open>s[start:i]\<close> and the
  argument is \<open>s[i:]\<close>; the second dot ends the loop with the rest as the third piece.\<close>

fun split_loop :: "string list \<Rightarrow> string \<Rightarrow> string \<Rightarrow> string list" where
  "split_loop parts cur [] = []"
| "split_loop parts cur (c # s) =
     (if c = CHR ''.'' then
        (let parts' = parts @ [cur] in
         if length parts' = 2 then parts' @ [s] else split_loop parts' [] s)
      else split_loop parts (cur @ [c]) s)"

definition splitJWT :: "string \<Rightarrow> string list" where
  "splitJWT s = split_loop [] [] s"

definition Jwt_Validate ::
  "hmac \<Rightarrow> claims_dec \<Rightarrow> jwt_issuer \<Rightarrow> instant \<Rightarrow> string \<Rightarrow> jwt_error + jwt_claims" where
  "Jwt_Validate hmac dec j now tokenStr =
     (let parts = splitJWT tokenStr in
      if length parts \<noteq> 3 then Inl ErrInvalidFormat
      else
        let signingInput = parts ! 0 @ ''.'' @ parts ! 1 in
        if parts ! 2 \<noteq> jwt_sign hmac j signingInput then Inl ErrInvalidSignature
        else
          case rawurl_decode (parts ! 1) of
            None \<Rightarrow> Inl ErrDecodePayload
          | Some payload \<Rightarrow>
              (case dec payload of
                 None \<Rightarrow> Inl ErrUnmarshalClaims
               | Some claims \<Rightarrow>
                   if Iss claims \<noteq> ''unet-daemon'' then Inl ErrInvalidIssuer
                   else if Unix now > Exp claims then Inl ErrJWTExpired
                   else Inr claims))"

section \<open>Splitting\<close>

lemma split_loop_no_dot: "CHR ''.'' \<notin> set p \<Longrightarrow> split_loop parts cur (p @ s) = split_loop parts (cur @ p) s"
  by (induction p arbitrary: cur) auto

lemma splitJWT_join:
  assumes "CHR ''.'' \<notin> set a" and "CHR ''.'' \<notin> set b"
  shows "splitJWT (a @ ''.'' @ b @ ''.'' @ s) = [a, b, s]"
  using assms by (simp add: splitJWT_def split_loop_no_dot)

lemma split_loop_spec:
  "split_loop parts cur s = qs \<Longrightarrow> length parts < 2 \<Longrightarrow> qs \<noteq> [] \<Longrightarrow>
     length qs = 3 \<and> join_with ''.'' (parts @ [cur @ s]) = join_with ''.'' qs"
proof (induction parts cur s rule: split_loop.induct)
  case (1 parts cur)
  then show ?case by simp
next
  case (2 parts cur c s)
  show ?case
  proof (cases "c = CHR ''.''")
    case False
    then show ?thesis using 2 by simp
  next
    case True
    have "length parts = 0 \<or> length parts = 1" using 2(4) by linarith
    then show ?thesis
    proof
      assume "length parts = 0"
      then show ?thesis using True 2 by simp
    next
      assume "length parts = 1"
      then obtain p where "parts = [p]" by (cases parts) auto
      then show ?thesis using True 2(3) by auto
    qed
  qed
qed

lemma splitJWT_Some:
  assumes "length (splitJWT s) = 3"
  shows "s = splitJWT s ! 0 @ ''.'' @ splitJWT s ! 1 @ ''.'' @ splitJWT s ! 2"
proof -
  obtain a b c where abc: "splitJWT s = [a, b, c]"
    using assms by (auto simp: numeral_3_eq_3 length_Suc_conv)
  then have "join_with ''.'' [s] = join_with ''.'' [a, b, c]"
    using split_loop_spec [of "[]" "[]" s] by (simp add: splitJWT_def)
  then show ?thesis using abc by simp
qed

lemma div_le_less_add: "a div s \<le> b div s \<Longrightarrow> 0 < s \<Longrightarrow> a < b + (s::int)"
proof -
  assume le: "a div s \<le> b div s" and s: "0 < s"
  have "a < s * (a div s) + s" using s by (metis add.commute add_less_cancel_right div_mult_mod_eq mult.commute pos_mod_bound)
  also have "\<dots> \<le> s * (b div s) + s" using le s by simp
  also have "\<dots> \<le> b + s" using s by (metis add_le_cancel_right minus_mod_eq_mult_div pos_mod_sign diff_left_mono diff_zero)
  finally show ?thesis .
qed

lemma split_loop_parts:
  "split_loop parts cur s = qs \<Longrightarrow> length parts < 2 \<Longrightarrow> qs \<noteq> [] \<Longrightarrow> CHR ''.'' \<notin> set cur \<Longrightarrow>
     (\<forall>p \<in> set parts. CHR ''.'' \<notin> set p) \<Longrightarrow> (\<forall>p \<in> set (butlast qs). CHR ''.'' \<notin> set p)"
proof (induction parts cur s rule: split_loop.induct)
  case (1 parts cur)
  then show ?case by simp
next
  case (2 parts cur c s)
  show ?case
  proof (cases "c = CHR ''.'' \<and> parts = []")
    case True
    then show ?thesis using 2 by simp
  next
    case False
    then have "c = CHR ''.'' \<Longrightarrow> length parts = 1" using 2(4) by (cases parts) auto
    then show ?thesis using 2 by (cases "c = CHR ''.''") (auto simp: butlast_append)
  qed
qed

lemma splitJWT_iff:
  "splitJWT s = [a, b, c] \<longleftrightarrow>
     s = a @ ''.'' @ b @ ''.'' @ c \<and> CHR ''.'' \<notin> set a \<and> CHR ''.'' \<notin> set b"
proof
  assume abc: "splitJWT s = [a, b, c]"
  then have "CHR ''.'' \<notin> set a \<and> CHR ''.'' \<notin> set b"
    using split_loop_parts [of "[]" "[]" s] by (simp add: splitJWT_def)
  then show "s = a @ ''.'' @ b @ ''.'' @ c \<and> CHR ''.'' \<notin> set a \<and> CHR ''.'' \<notin> set b"
    using splitJWT_Some [of s] abc by simp
qed (use splitJWT_join [of a b c] in auto)

definition accepted_form :: "hmac \<Rightarrow> claims_dec \<Rightarrow> jwt_issuer \<Rightarrow> instant \<Rightarrow> string \<Rightarrow> jwt_claims \<Rightarrow> string \<Rightarrow> string \<Rightarrow> bool" where
  "accepted_form hmac dec j now tok claims h b \<longleftrightarrow>
     tok = h @ ''.'' @ b @ ''.'' @ jwt_sign hmac j (h @ ''.'' @ b)
     \<and> CHR ''.'' \<notin> set h \<and> CHR ''.'' \<notin> set b
     \<and> (\<exists>payload. rawurl_decode b = Some payload \<and> dec payload = Some claims)
     \<and> Iss claims = ''unet-daemon'' \<and> Unix now \<le> Exp claims"

lemma Jwt_Validate_InrD:
  assumes "Jwt_Validate hmac dec j now tok = Inr claims"
  shows "\<exists>h b. accepted_form hmac dec j now tok claims h b"
proof -
  have "length (splitJWT tok) = 3" using assms by (auto simp: Jwt_Validate_def Let_def split: if_splits)
  then obtain h b c where hbc: "splitJWT tok = [h, b, c]"
    by (auto simp: numeral_3_eq_3 length_Suc_conv)
  then have "tok = h @ ''.'' @ b @ ''.'' @ c" "CHR ''.'' \<notin> set h" "CHR ''.'' \<notin> set b"
    by (simp_all add: splitJWT_iff)
  then show ?thesis using assms hbc
    by (auto simp: accepted_form_def Jwt_Validate_def Let_def split: if_splits option.splits)
qed

section \<open>Properties\<close>

text \<open>what the validator accepts, exactly. A string is accepted with given claims if and only
  if it is three dot-separated parts whose last is the base64 of the HMAC, under the issuer's key,
  of the first two and the dot between them, and the second part decodes to those claims, with the
  daemon as issuer and the expiry second not yet passed.\<close>

theorem Jwt_Validate_iff:
  "Jwt_Validate hmac dec j now tok = Inr claims \<longleftrightarrow> (\<exists>h b. accepted_form hmac dec j now tok claims h b)"
proof
  assume "\<exists>h b. accepted_form hmac dec j now tok claims h b"
  then obtain h b where r: "accepted_form hmac dec j now tok claims h b" by blast
  then have "splitJWT tok = [h, b, jwt_sign hmac j (h @ ''.'' @ b)]"
    by (simp only: accepted_form_def splitJWT_join not_False_eq_True)
  then show "Jwt_Validate hmac dec j now tok = Inr claims"
    using r by (auto simp: Jwt_Validate_def accepted_form_def)
qed (rule Jwt_Validate_InrD)

lemma issue_then_validate:
  assumes "Issue hmac enc j now uuid tokenID tokenName scope = Inr tok"
    and "\<And>c p. enc c = Some p \<Longrightarrow> dec p = Some c"
  shows "Jwt_Validate hmac dec j now' tok =
      (if Unix now' \<le> Unix (now + issuer_ttl j)
       then Inr (issued_claims j now uuid tokenID tokenName scope) else Inl ErrJWTExpired)"
proof -
  let ?c = "issued_claims j now uuid tokenID tokenName scope"
  obtain payload where p: "enc ?c = Some payload"
      "tok = rawurl_encode jwt_header @ ''.'' @ rawurl_encode payload @ ''.''
             @ jwt_sign hmac j (rawurl_encode jwt_header @ ''.'' @ rawurl_encode payload)"
    using assms(1) by (auto simp: Issue_def Let_def split: option.splits)
  have "splitJWT tok = [rawurl_encode jwt_header, rawurl_encode payload,
      jwt_sign hmac j (rawurl_encode jwt_header @ ''.'' @ rawurl_encode payload)]"
    unfolding p(2) by (rule splitJWT_join) (rule rawurl_no_dot)+
  moreover have "dec payload = Some ?c" using p(1) by (rule assms(2))
  ultimately show ?thesis by (simp add: Jwt_Validate_def issued_claims_def)
qed


definition sample_issuer :: jwt_issuer where
  "sample_issuer = \<lparr>signingKey = ''k'', issuer_ttl = defaultJWTTTL\<rparr>"

definition sample_claims :: jwt_claims where
  "sample_claims = issued_claims sample_issuer 0 ''u'' ''1'' ''ci'' ScopeRead"

definition sample_enc :: claims_enc where
  "sample_enc c = (if c = sample_claims then Some ''{}'' else None)"

definition sample_dec :: claims_dec where
  "sample_dec p = (if p = ''{}'' then Some sample_claims else None)"

definition sample_jwt :: string where
  "sample_jwt = (let h = rawurl_encode jwt_header; b = rawurl_encode ''{}'' in
     h @ ''.'' @ b @ ''.'' @ jwt_sign (@) sample_issuer (h @ ''.'' @ b))"

lemma sample_jwt_issued: "Issue (@) sample_enc sample_issuer 0 ''u'' ''1'' ''ci'' ScopeRead = Inr sample_jwt"
  by (simp add: Issue_def sample_enc_def sample_claims_def sample_jwt_def Let_def)

lemma sample_codec: "sample_enc c = Some p \<Longrightarrow> sample_dec p = Some c"
  by (auto simp: sample_enc_def sample_dec_def split: if_splits)


text \<open>C7: a tampered session token is rejected. If a string carries, as its third part, the
  signature of an issued token and is accepted, then it is that token, as long as the HMAC under
  the signing key separates the two signed inputs.\<close>

theorem jwt_tamper_evident:
  assumes "Issue hmac enc j now uuid tokenID tokenName scope = Inr tok"
    and "Jwt_Validate hmac dec j now' tok' = Inr claims"
    and "splitJWT tok' ! 2 = splitJWT tok ! 2"
    and "inj_on (hmac (signingKey j)) {splitJWT tok ! 0 @ ''.'' @ splitJWT tok ! 1,
                                        splitJWT tok' ! 0 @ ''.'' @ splitJWT tok' ! 1}"
  shows "tok' = tok"
proof -
  obtain payload where p: "tok = rawurl_encode jwt_header @ ''.'' @ rawurl_encode payload @ ''.''
      @ jwt_sign hmac j (rawurl_encode jwt_header @ ''.'' @ rawurl_encode payload)"
    using assms(1) by (auto simp: Issue_def Let_def split: option.splits)
  define h where "h = rawurl_encode jwt_header"
  define b where "b = rawurl_encode payload"
  have s: "splitJWT tok = [h, b, jwt_sign hmac j (h @ ''.'' @ b)]"
    unfolding p h_def b_def by (rule splitJWT_join) (rule rawurl_no_dot)+
  obtain h' b' where t': "tok' = h' @ ''.'' @ b' @ ''.'' @ jwt_sign hmac j (h' @ ''.'' @ b')"
      and nd: "CHR ''.'' \<notin> set h'" "CHR ''.'' \<notin> set b'"
    using Jwt_Validate_InrD [OF assms(2)] unfolding accepted_form_def by blast
  have s': "splitJWT tok' = [h', b', jwt_sign hmac j (h' @ ''.'' @ b')]"
    unfolding t' using nd by (rule splitJWT_join)
  have "hmac (signingKey j) (h' @ ''.'' @ b') = hmac (signingKey j) (h @ ''.'' @ b)"
    using assms(3) s s' by (simp add: jwt_sign_def)
  then have "h' @ ''.'' @ b' = h @ ''.'' @ b" 
    by (rule inj_onD [OF assms(4)]) (simp_all add: s s')
  then show ?thesis unfolding t' p h_def [symmetric] b_def [symmetric] by (metis append.assoc)
qed

theorem jwt_tamper_evident_witness:
  "splitJWT sample_jwt ! 0 @ ''.'' @ splitJWT sample_jwt ! 1 @ ''.'' @ splitJWT sample_jwt ! 2 = sample_jwt"
  (is "?tok = _")
proof (rule jwt_tamper_evident [OF sample_jwt_issued])
  show "Jwt_Validate (@) sample_dec sample_issuer 7 ?tok = Inr sample_claims" by code_simp
  show "splitJWT ?tok ! 2 = splitJWT sample_jwt ! 2" by code_simp
  show "inj_on ((@) (signingKey sample_issuer)) X" for X by (simp add: inj_on_def)
qed

lemma signing_key_roundtrip:
  "32 \<le> length key \<Longrightarrow> GenerateJWTSigningKey (Some key) = Inr enc \<Longrightarrow>
     NewJWTIssuer enc = Inr \<lparr>signingKey = key, issuer_ttl = defaultJWTTTL\<rparr>"
  by (auto simp: GenerateJWTSigningKey_def NewJWTIssuer_def)

end
