(* ===== verification/Float64.thy ===== *)
theory Float64
  imports Complex_Main
begin

text \<open>
  The rounding of Go's \<open>float64\<close> arithmetic: every operation returns the exact result rounded to 53
  significant binary digits, to the nearest, ties to even. Values are rationals; the exponent range is not
  bounded, which is exact for results between \<open>2 ^ -1022\<close> and \<open>2 ^ 1024\<close> in magnitude and for zero. All
  definitions compute.
\<close>

section \<open>Rounding\<close>

function bit_len :: "int \<Rightarrow> int" where
  "bit_len n = (if n \<le> 0 then 0 else 1 + bit_len (n div 2))"
  by pat_completeness auto
termination by (relation "measure nat") auto

declare bit_len.simps [simp del]

text \<open>The exponent of the leading binary digit of a positive rational.\<close>

definition ilog2 :: "rat \<Rightarrow> int" where
  "ilog2 x = (let (p, q) = quotient_of x; e = bit_len p - bit_len q in if x < 2 powi e then e - 1 else e)"

definition round_even :: "rat \<Rightarrow> int" where
  "round_even q = (let f = \<lfloor>q\<rfloor>; d = q - of_int f
     in if d < 1 / 2 then f else if d > 1 / 2 then f + 1 else if even f then f else f + 1)"

definition fl64 :: "rat \<Rightarrow> rat" where
  "fl64 x = (if x = 0 then 0 else let u = 2 powi (ilog2 \<bar>x\<bar> - 52) in of_int (round_even (x / u)) * u)"

section \<open>The leading digit\<close>

lemma bit_len_bounds: "0 < n \<Longrightarrow> 0 < bit_len n \<and> 2 ^ nat (bit_len n - 1) \<le> n \<and> n < 2 ^ nat (bit_len n)"
proof (induction n rule: bit_len.induct)
  case (1 n)
  show ?case
  proof (cases "n = 1")
    case True
    then show ?thesis by (simp add: bit_len.simps)
  next
    case False
    then have h: "0 < n div 2" using 1 by simp
    then have IH: "0 < bit_len (n div 2)" "2 ^ nat (bit_len (n div 2) - 1) \<le> n div 2" "n div 2 < 2 ^ nat (bit_len (n div 2))"
      using 1 by auto
    have b: "bit_len n = 1 + bit_len (n div 2)" using 1 by (simp add: bit_len.simps [of n])
    have "nat (bit_len (n div 2)) = Suc (nat (bit_len (n div 2) - 1))" "nat (1 + bit_len (n div 2)) = Suc (nat (bit_len (n div 2)))"
      using IH(1) by simp_all
    then have "bit_len n = 1 + bit_len (n div 2)" "2 ^ nat (bit_len n - 1) = 2 * (2 :: int) ^ nat (bit_len (n div 2) - 1)"
      "2 ^ nat (bit_len n) = 2 * (2 :: int) ^ nat (bit_len (n div 2))" using b IH(1) by simp_all
    moreover have "2 * (n div 2) \<le> n" "n < 2 * (n div 2) + 2" by presburger+
    ultimately show ?thesis using IH by linarith
  qed
qed

lemma ilog2_bounds:
  assumes "0 < x"
  shows "2 powi ilog2 x \<le> x" and "x < 2 powi (ilog2 x + 1)"
proof -
  obtain p q where pq: "quotient_of x = (p, q)" by fastforce
  have q: "0 < q" using quotient_of_denom_pos [OF pq] .
  have x: "x = of_int p / of_int q" using quotient_of_div [OF pq] .
  have p: "0 < p" using assms x q by (simp add: zero_less_divide_iff)
  define e where "e = bit_len p - bit_len q"
  note bp = bit_len_bounds [OF p] and bq = bit_len_bounds [OF q]
  have powi: "(2 :: rat) powi b = of_int (2 ^ nat b)" if "0 \<le> b" for b
    using that by (simp add: power_int_nonneg_exp)
  have p_b: "2 powi (bit_len p - 1) \<le> (of_int p :: rat)" "(of_int p :: rat) < 2 powi bit_len p"
    using bp by (simp_all add: powi del: of_int_power of_int_numeral)
  have q_b: "2 powi (bit_len q - 1) \<le> (of_int q :: rat)" "(of_int q :: rat) < 2 powi bit_len q"
    using bq by (simp_all add: powi del: of_int_power of_int_numeral)
  have "x * of_int q < 2 powi (e + 1) * of_int q"
  proof -
    have "x * of_int q < 2 powi bit_len p" using p_b(2) x q by simp
    also have "\<dots> = 2 powi (e + 1) * 2 powi (bit_len q - 1)" by (simp add: e_def power_int_add [symmetric])
    also have "\<dots> \<le> 2 powi (e + 1) * of_int q" using q_b(1) by (intro mult_left_mono) simp_all
    finally show ?thesis .
  qed
  then have up: "x < 2 powi (e + 1)" using q by simp
  have "2 powi (e - 1) * of_int q < x * of_int q"
  proof -
    have "2 powi (e - 1) * of_int q < (2 :: rat) powi (e - 1) * 2 powi bit_len q" using q_b(2) by (intro mult_strict_left_mono) simp_all
    also have "\<dots> = 2 powi (bit_len p - 1)" by (simp add: e_def power_int_add [symmetric])
    also have "\<dots> \<le> x * of_int q" using p_b(1) x q by simp
    finally show ?thesis .
  qed
  then have lo: "2 powi (e - 1) < x" using q by simp
  have i: "ilog2 x = (if x < 2 powi e then e - 1 else e)" by (simp add: ilog2_def pq e_def Let_def)
  show "2 powi ilog2 x \<le> x" "x < 2 powi (ilog2 x + 1)" using up lo by (auto simp: i)
qed

lemma ilog2_mono: "0 < x \<Longrightarrow> x \<le> y \<Longrightarrow> ilog2 x \<le> ilog2 y"
proof (rule ccontr)
  assume x: "0 < x" "x \<le> y" "\<not> ilog2 x \<le> ilog2 y"
  then have "(2 :: rat) powi (ilog2 y + 1) \<le> 2 powi ilog2 x" by (intro power_int_increasing) simp_all
  then show False using ilog2_bounds [of x] ilog2_bounds [of y] x by simp
qed

section \<open>Error and monotonicity\<close>

lemma round_even_of_int [simp]: "round_even (of_int n) = n"
  by (simp add: round_even_def)

lemma round_even_error: "\<bar>of_int (round_even q) - q\<bar> \<le> 1 / 2"
proof -
  have "of_int \<lfloor>q\<rfloor> \<le> q" "q < of_int \<lfloor>q\<rfloor> + 1" by linarith+
  then show ?thesis by (auto simp: round_even_def Let_def abs_le_iff field_simps)
qed

lemma round_even_cases: "round_even q = \<lfloor>q\<rfloor> \<or> round_even q = \<lfloor>q\<rfloor> + 1"
  by (simp add: round_even_def Let_def)

lemma round_even_mono: "q \<le> r \<Longrightarrow> round_even q \<le> round_even r"
proof -
  assume qr: "q \<le> r"
  show ?thesis
  proof (cases "\<lfloor>q\<rfloor> = \<lfloor>r\<rfloor>")
    case True
    then show ?thesis using qr by (auto simp: round_even_def Let_def)
  next
    case False
    then have "\<lfloor>q\<rfloor> + 1 \<le> \<lfloor>r\<rfloor>" using floor_mono [OF qr] by simp
    then show ?thesis using round_even_cases [of q] round_even_cases [of r] by linarith
  qed
qed

lemma fl64_0 [simp]: "fl64 0 = 0"
  by (simp add: fl64_def)

lemma fl64_error: "\<bar>fl64 x - x\<bar> \<le> \<bar>x\<bar> / 2 ^ 53"
proof (cases "x = 0")
  case False
  define u :: rat where "u = 2 powi (ilog2 \<bar>x\<bar> - 52)"
  have u: "0 < u" by (simp add: u_def)
  have "u = 2 powi ilog2 \<bar>x\<bar> / 2 ^ 52" by (simp add: u_def power_int_diff)
  then have ux: "u \<le> \<bar>x\<bar> / 2 ^ 52" using ilog2_bounds(1) [of "\<bar>x\<bar>"] False by (simp add: divide_right_mono)
  have "fl64 x = of_int (round_even (x / u)) * u" using False by (simp add: fl64_def u_def Let_def)
  then have "fl64 x - x = (of_int (round_even (x / u)) - x / u) * u" using u by (simp add: left_diff_distrib)
  then have "\<bar>fl64 x - x\<bar> = \<bar>of_int (round_even (x / u)) - x / u\<bar> * u" using u by (simp add: abs_mult)
  also have "\<dots> \<le> 1 / 2 * u" using round_even_error u by (intro mult_right_mono) auto
  also have "\<dots> \<le> 1 / 2 * (\<bar>x\<bar> / 2 ^ 52)" using ux by simp
  finally show ?thesis by simp
qed simp

lemma fl64_nonneg: "0 \<le> x \<Longrightarrow> 0 \<le> fl64 x"
proof -
  assume x: "0 \<le> x"
  have "0 \<le> round_even (x / u)" if "0 < u" for u :: rat
    using round_even_mono [of 0 "x / u"] x that round_even_of_int [of 0] by simp
  then show ?thesis by (simp add: fl64_def Let_def)
qed

lemma fl64_mono:
  assumes "0 \<le> x" and "x \<le> y"
  shows "fl64 x \<le> fl64 y"
proof (cases "x = 0")
  case True
  then show ?thesis using assms fl64_nonneg [of y] by simp
next
  case False
  then have x: "0 < x" "0 < y" using assms by auto
  define a b where "a = ilog2 x" and "b = ilog2 y"
  have F: "fl64 x = of_int (round_even (x / 2 powi (a - 52))) * 2 powi (a - 52)"
    "fl64 y = of_int (round_even (y / 2 powi (b - 52))) * 2 powi (b - 52)"
    using x by (simp_all add: fl64_def a_def b_def Let_def)
  have ab: "a \<le> b" unfolding a_def b_def using x(1) assms(2) by (rule ilog2_mono)
  show ?thesis
  proof (cases "a = b")
    case True
    have "x / 2 powi (b - 52) \<le> y / 2 powi (b - 52)" using assms(2) by (intro divide_right_mono) simp_all
    then have "round_even (x / 2 powi (b - 52)) \<le> round_even (y / 2 powi (b - 52))" by (rule round_even_mono)
    then show ?thesis unfolding F True by (intro mult_right_mono) simp_all
  next
    case neq: False
    have "x / 2 powi (a - 52) \<le> of_int (2 ^ 53)"
    proof -
      have "x < 2 powi (a + 1)" unfolding a_def using ilog2_bounds(2) [OF x(1)] .
      also have "\<dots> = 2 ^ 53 * 2 powi (a - 52)"
        using power_int_add [of "2 :: rat" 53 "a - 52"] by (simp add: add.commute)
      finally show ?thesis by (simp add: divide_le_eq)
    qed
    then have "round_even (x / 2 powi (a - 52)) \<le> 2 ^ 53" using round_even_mono round_even_of_int by metis
    then have "(of_int (round_even (x / 2 powi (a - 52))) :: rat) \<le> of_int (2 ^ 53)" by (simp only: of_int_le_iff)
    then have "fl64 x \<le> of_int (2 ^ 53) * 2 powi (a - 52)" unfolding F(1) by (intro mult_right_mono) simp_all
    also have "\<dots> = 2 powi (a + 1)" using power_int_add [of "2 :: rat" 53 "a - 52"] by (simp add: add.commute)
    also have "\<dots> \<le> 2 powi b" using ab neq by (intro power_int_increasing) simp_all
    also have "\<dots> = of_int (2 ^ 52) * 2 powi (b - 52)" using power_int_add [of "2 :: rat" 52 "b - 52"] by simp
    also have "\<dots> \<le> fl64 y"
    proof -
      have "of_int (2 ^ 52) * 2 powi (b - 52) \<le> y"
        using ilog2_bounds(1) [OF x(2)] power_int_add [of "2 :: rat" 52 "b - 52"] by (simp add: b_def)
      then have "of_int (2 ^ 52) \<le> y / 2 powi (b - 52)" by (simp add: le_divide_eq)
      then have "2 ^ 52 \<le> round_even (y / 2 powi (b - 52))" using round_even_mono round_even_of_int by metis
      then have "(of_int (2 ^ 52) :: rat) \<le> of_int (round_even (y / 2 powi (b - 52)))" by (simp only: of_int_le_iff)
      then show ?thesis unfolding F(2) by (intro mult_right_mono) simp_all
    qed
    finally show ?thesis .
  qed
qed

text \<open>Integers of at most 53 binary digits are exact.\<close>

lemma fl64_int:
  assumes "0 \<le> n" and "n < 2 ^ 53"
  shows "fl64 (of_int n) = of_int n"
proof (cases "n = 0")
  case False
  then have n: "(0 :: rat) < of_int n" using assms by simp
  define e where "e = ilog2 (of_int n)"
  have "(2 :: rat) powi e \<le> of_int n" unfolding e_def using ilog2_bounds(1) [OF n] .
  also have "\<dots> < of_int (2 ^ 53)" using assms(2) by (simp only: of_int_less_iff)
  also have "\<dots> = 2 powi 53" by simp
  finally have "e < 53" using power_int_increasing [of 53 e "2 :: rat"] by linarith
  then have k: "(2 :: rat) powi (52 - e) = of_int (2 ^ nat (52 - e))" by (simp add: power_int_nonneg_exp)
  have "(2 :: rat) powi (e - 52) * 2 powi (52 - e) = 1" by (simp add: power_int_add [symmetric])
  then have "of_int n / (2 :: rat) powi (e - 52) = of_int n * 2 powi (52 - e)" by (simp add: field_simps)
  then have d: "of_int n / (2 :: rat) powi (e - 52) = of_int (n * 2 ^ nat (52 - e))" using k by simp
  have "fl64 (of_int n) = of_int (round_even (of_int n / 2 powi (e - 52))) * 2 powi (e - 52)"
    using n by (simp add: fl64_def e_def Let_def)
  also have "\<dots> = of_int (n * 2 ^ nat (52 - e)) * 2 powi (e - 52)" unfolding d round_even_of_int ..
  also have "\<dots> = of_int n" using d by (simp add: divide_eq_eq)
  finally show ?thesis .
qed simp

lemma fl64_ge_int: "0 \<le> n \<Longrightarrow> n < 2 ^ 53 \<Longrightarrow> of_int n \<le> x \<Longrightarrow> of_int n \<le> fl64 x"
  using fl64_mono [of "of_int n" x] fl64_int [of n] by simp

lemma fl64_le: "0 \<le> x \<Longrightarrow> fl64 x \<le> x * (1 + 1 / 2 ^ 53)"
proof -
  assume "0 \<le> x"
  then have "fl64 x - x \<le> x / 2 ^ 53" using fl64_error [of x] by linarith
  then show ?thesis by (simp add: distrib_left)
qed

end
