(* ===== verification/Rate_Limiter.thy ===== *)
theory Rate_Limiter
  imports Prelude Float64
begin

text \<open>
  The per-token rate limiter of \<open>api/middleware/ratelimit.go\<close>. The table of visitors is an
  association list with at most one entry per key (a Go map: only its size, its lookups and the
  deletion of idle entries matter). The bucket level is a \<open>float64\<close>: every operation of the code is
  rounded by \<open>fl64\<close> of \<open>Float64\<close>, in the code's order. The properties bound what one key is admitted by
  the exact clock, through any interleaving with other keys and any eviction of idle visitors.
\<close>

section \<open>State and operations\<close>

record visitor =
  vis_tokens :: rat
  vis_lastCheck :: instant

type_synonym visitors = "(string \<times> visitor) list"

definition rateLimitPerMinute :: rat where
  "rateLimitPerMinute = 60"

definition rateLimitBurst :: rat where
  "rateLimitBurst = 10"

definition rateLimitWindow :: duration where
  "rateLimitWindow = minute"

definition rateLimitEvictAfter :: duration where
  "rateLimitEvictAfter = 2 * minute"

lemmas rate_defs = rateLimitPerMinute_def rateLimitBurst_def rateLimitWindow_def
  rateLimitEvictAfter_def minute_def second_def

fun set_visitor :: "string \<Rightarrow> visitor \<Rightarrow> visitors \<Rightarrow> visitors" where
  "set_visitor k v [] = [(k, v)]"
| "set_visitor k v ((k', v') # vs) = (if k' = k then (k, v) # vs else (k', v') # set_visitor k v vs)"

definition evict_idle :: "instant \<Rightarrow> visitors \<Rightarrow> visitors" where
  "evict_idle now vs =
     (if length vs > 1000 then filter (\<lambda>(k, v). \<not> now - vis_lastCheck v > rateLimitEvictAfter) vs else vs)"

text \<open>\<open>v.tokens + float64(elapsed) * 60 / float64(time.Minute)\<close>, operation by operation, then the cap.\<close>

definition refill :: "instant \<Rightarrow> visitor \<Rightarrow> rat" where
  "refill now v =
     (let elapsed = now - vis_lastCheck v;
          t = fl64 (vis_tokens v + fl64 (fl64 (fl64 (of_int elapsed) * rateLimitPerMinute) / of_int rateLimitWindow))
      in if t > rateLimitBurst then rateLimitBurst else t)"

definition rl_allow :: "instant \<Rightarrow> string \<Rightarrow> visitors \<Rightarrow> bool \<times> visitors" where
  "rl_allow now key visitors =
     (let vs = evict_idle now visitors in
      case map_of vs key of
        None \<Rightarrow> (True, set_visitor key \<lparr>vis_tokens = rateLimitBurst - 1, vis_lastCheck = now\<rparr> vs)
      | Some v \<Rightarrow>
          let t = refill now v in
          if t < 1 then (False, set_visitor key \<lparr>vis_tokens = t, vis_lastCheck = now\<rparr> vs)
          else (True, set_visitor key \<lparr>vis_tokens = fl64 (t - 1), vis_lastCheck = now\<rparr> vs))"

section \<open>The table\<close>

lemma map_of_set_visitor [simp]: "map_of (set_visitor k v vs) = (map_of vs)(k \<mapsto> v)"
  by (induction vs) auto

lemma keys_set_visitor: "set (map fst (set_visitor k v vs)) = insert k (set (map fst vs))"
proof (induction vs)
  case (Cons a vs)
  then show ?case by (cases a) auto
qed simp

lemma distinct_set_visitor: "distinct (map fst vs) \<Longrightarrow> distinct (map fst (set_visitor k v vs))"
proof (induction vs)
  case Nil
  then show ?case by simp
next
  case (Cons a vs)
  then show ?case using keys_set_visitor [of k v vs] by (cases a) auto
qed

lemma set_set_visitor: "set (set_visitor k v vs) \<subseteq> insert (k, v) (set vs)"
  by (induction vs) (auto split: if_splits)

section \<open>One call in exact seconds\<close>

text \<open>The credit a key has by the exact clock: its stored tokens plus one per elapsed second, at most 10;
  a key without a visitor has 10.\<close>

definition seconds :: "instant \<Rightarrow> instant \<Rightarrow> rat" where
  "seconds a b = of_int (b - a) / 1000000000"

definition credit :: "visitors \<Rightarrow> string \<Rightarrow> instant \<Rightarrow> rat" where
  "credit vs key now =
     (case map_of vs key of None \<Rightarrow> 10 | Some v \<Rightarrow> min 10 (vis_tokens v + seconds (vis_lastCheck v) now))"

definition rl_wf :: "instant \<Rightarrow> visitors \<Rightarrow> bool" where
  "rl_wf now vs \<longleftrightarrow> distinct (map fst vs) \<and>
     (\<forall>(k, v) \<in> set vs. 0 \<le> vis_tokens v \<and> vis_tokens v \<le> 10 \<and> vis_lastCheck v \<le> now)"

lemma seconds_split: "seconds l b = seconds l a + seconds a b"
  by (simp add: seconds_def diff_divide_distrib)

lemma seconds_nonneg: "a \<le> b \<Longrightarrow> 0 \<le> seconds a b"
  by (simp add: seconds_def)

lemma rl_wfD:
  "rl_wf now vs \<Longrightarrow> map_of vs k = Some v \<Longrightarrow> 0 \<le> vis_tokens v \<and> vis_tokens v \<le> 10 \<and> vis_lastCheck v \<le> now"
  by (fastforce simp: rl_wf_def dest: map_of_SomeD)

lemma rl_wf_mono: "rl_wf now vs \<Longrightarrow> now \<le> now' \<Longrightarrow> rl_wf now' vs"
  unfolding rl_wf_def by force

text \<open>The rounded refill amount, against the exact one.\<close>

definition fl_amount :: "instant \<Rightarrow> rat" where
  "fl_amount n = fl64 (fl64 (fl64 (of_int n) * 60) / 60000000000)"

lemma refill_amount: "refill now v = min 10 (fl64 (vis_tokens v + fl_amount (now - vis_lastCheck v)))"
  by (simp add: refill_def fl_amount_def rate_defs min_def Let_def)

lemma fl_amount_nonneg: "0 \<le> n \<Longrightarrow> 0 \<le> fl_amount n"
  unfolding fl_amount_def by (intro fl64_nonneg divide_nonneg_nonneg mult_nonneg_nonneg) simp_all

lemma fl_amount_le:
  assumes "0 \<le> n"
  shows "fl_amount n \<le> of_int n / 1000000000 * (1 + 1 / 2 ^ 51)"
proof -
  let ?w = "1 + 1 / 2 ^ 53 :: rat"
  have x0: "(0 :: rat) \<le> of_int n" using assms by simp
  have "fl64 (of_int n) * 60 \<le> of_int n * ?w * 60" using fl64_le [OF x0] by simp
  moreover have "0 \<le> fl64 (of_int n) * 60" using fl64_nonneg [OF x0] by simp
  ultimately have "fl64 (fl64 (of_int n) * 60) \<le> of_int n * ?w * 60 * ?w"
    using fl64_le [of "fl64 (of_int n) * 60"] by (meson mult_right_mono order_trans zero_le_divide_1_iff add_nonneg_nonneg zero_le_numeral zero_le_one zero_le_power)
  then have "fl64 (fl64 (of_int n) * 60) / 60000000000 \<le> of_int n / 1000000000 * (?w * ?w)" by (simp add: field_simps)
  moreover have "0 \<le> fl64 (fl64 (of_int n) * 60) / 60000000000"
    using fl64_nonneg [of "fl64 (of_int n) * 60"] \<open>0 \<le> fl64 (of_int n) * 60\<close> by simp
  ultimately have "fl_amount n \<le> of_int n / 1000000000 * (?w * ?w) * ?w"
    using fl64_le [of "fl64 (fl64 (of_int n) * 60) / 60000000000"] unfolding fl_amount_def
    by (meson mult_right_mono order_trans zero_le_divide_1_iff add_nonneg_nonneg zero_le_numeral zero_le_one zero_le_power)
  also have "\<dots> = of_int n / 1000000000 * (?w * ?w * ?w)" by (simp only: mult.assoc)
  also have "\<dots> \<le> of_int n / 1000000000 * (1 + 1 / 2 ^ 51)"
    using x0 by (intro mult_left_mono) simp_all
  finally show ?thesis .
qed

lemma fl_amount_ge:
  assumes "of_int (k * 1000000000) \<le> (of_int n :: rat)" and "0 \<le> k" and "k \<le> 120"
  shows "of_int k \<le> fl_amount n"
proof -
  have "of_int (k * 1000000000) \<le> fl64 (of_int n)" using assms by (intro fl64_ge_int) simp_all
  then have "of_int (k * 60000000000) \<le> fl64 (of_int n) * 60" by simp
  then have "of_int (k * 60000000000) \<le> fl64 (fl64 (of_int n) * 60)" using assms by (intro fl64_ge_int) simp_all
  then have "of_int k \<le> fl64 (fl64 (of_int n) * 60) / 60000000000" by simp
  then show ?thesis unfolding fl_amount_def using assms by (intro fl64_ge_int) simp_all
qed

text \<open>A refill overshoots the exact credit by at most \<open>52 / 2 ^ 53\<close>.\<close>

lemma refill_le_exact:
  assumes "0 \<le> vis_tokens v" and "vis_tokens v \<le> 10" and "vis_lastCheck v \<le> now"
  shows "refill now v \<le> min 10 (vis_tokens v + seconds (vis_lastCheck v) now) + 52 / 2 ^ 53"
proof (cases "10 \<le> vis_tokens v + seconds (vis_lastCheck v) now")
  case True
  then show ?thesis by (simp add: refill_amount min_def)
next
  case False
  define a where "a = seconds (vis_lastCheck v) now"
  have a: "0 \<le> a" "a \<le> 10" "vis_tokens v + a \<le> 10" "0 \<le> now - vis_lastCheck v"
    using False assms seconds_nonneg [OF assms(3)] by (auto simp: a_def)
  have "fl_amount (now - vis_lastCheck v) \<le> a * (1 + 1 / 2 ^ 51)"
    using fl_amount_le [OF a(4)] by (simp add: a_def seconds_def)
  then have "fl_amount (now - vis_lastCheck v) \<le> a + 10 / 2 ^ 51" using a(2) by (simp add: distrib_left)
  then have s: "vis_tokens v + fl_amount (now - vis_lastCheck v) \<le> vis_tokens v + a + 10 / 2 ^ 51" by simp
  have p: "0 \<le> vis_tokens v + fl_amount (now - vis_lastCheck v)" using assms(1) fl_amount_nonneg [OF a(4)] by simp
  have "fl64 (vis_tokens v + fl_amount (now - vis_lastCheck v))
      \<le> (vis_tokens v + fl_amount (now - vis_lastCheck v)) * (1 + 1 / 2 ^ 53)"
    using p by (rule fl64_le)
  also have "\<dots> \<le> (vis_tokens v + a + 10 / 2 ^ 51) * (1 + 1 / 2 ^ 53)" using s by (intro mult_right_mono) simp_all
  also have "\<dots> \<le> vis_tokens v + a + 52 / 2 ^ 53"
    using a(3) by (simp add: distrib_left distrib_right)
  finally show ?thesis using False by (simp add: refill_amount a_def min_def)
qed

lemma refill_nonneg: "0 \<le> vis_tokens v \<Longrightarrow> vis_lastCheck v \<le> now \<Longrightarrow> 0 \<le> refill now v"
  using fl_amount_nonneg [of "now - vis_lastCheck v"] fl64_nonneg [of "vis_tokens v + fl_amount (now - vis_lastCheck v)"]
  by (simp add: refill_amount)

lemma refill_le_10: "refill now v \<le> 10"
  by (simp add: refill_amount)

text \<open>A whole number of tokens is not lost by rounding, and \<open>k\<close> whole seconds add at least \<open>k\<close>.\<close>

lemma refill_ge:
  assumes "of_int n \<le> vis_tokens v" and "0 \<le> n" and "n \<le> 10"
    and "vis_lastCheck v + k * 1000000000 \<le> now" and "0 \<le> k" and "k \<le> 120"
  shows "of_int (min 10 (n + k)) \<le> refill now v"
proof -
  have "of_int (k * 1000000000) \<le> (of_int (now - vis_lastCheck v) :: rat)"
    using assms(4) by (simp only: of_int_le_iff)
  then have "of_int k \<le> fl_amount (now - vis_lastCheck v)" using assms(5,6) by (rule fl_amount_ge)
  then have "of_int (n + k) \<le> vis_tokens v + fl_amount (now - vis_lastCheck v)" using assms(1) by simp
  then have "of_int (n + k) \<le> fl64 (vis_tokens v + fl_amount (now - vis_lastCheck v))"
    using assms by (intro fl64_ge_int) simp_all
  then show ?thesis by (simp add: refill_amount min_def)
qed

lemma refill_idle:
  assumes "0 \<le> vis_tokens v" and "now - vis_lastCheck v > rateLimitEvictAfter"
  shows "refill now v = 10"
  using refill_ge [of 0 v 120 now] assms refill_le_10 [of now v] by (simp add: rate_defs)

section \<open>One call\<close>

lemma map_of_filter_values:
  "distinct (map fst vs) \<Longrightarrow>
   map_of (filter (\<lambda>(k, v). P v) vs) k = (case map_of vs k of None \<Rightarrow> None | Some v \<Rightarrow> if P v then Some v else None)"
proof (induction vs)
  case (Cons a vs)
  have "map_of vs k = None" if "k = fst a" using Cons.prems that by (simp add: map_of_eq_None_iff)
  then show ?case using Cons by (cases a) (auto split: option.splits)
qed simp

lemma evict_wf: "rl_wf now vs \<Longrightarrow> rl_wf now (evict_idle now vs)"
  by (auto simp: rl_wf_def evict_idle_def distinct_map_filter)

lemma map_of_evict:
  assumes "rl_wf now vs"
  shows "map_of (evict_idle now vs) k = map_of vs k
    \<or> (map_of (evict_idle now vs) k = None \<and> (\<exists>v. map_of vs k = Some v \<and> now - vis_lastCheck v > rateLimitEvictAfter))"
proof (cases "length vs > 1000")
  case True
  have "distinct (map fst vs)" using assms by (simp add: rl_wf_def)
  then show ?thesis using True by (auto simp: evict_idle_def map_of_filter_values split: option.splits)
qed (simp add: evict_idle_def)

lemma rl_wf_set_visitor:
  "rl_wf now vs \<Longrightarrow> 0 \<le> t \<Longrightarrow> t \<le> 10 \<Longrightarrow> rl_wf now (set_visitor k \<lparr>vis_tokens = t, vis_lastCheck = now\<rparr> vs)"
  unfolding rl_wf_def using set_set_visitor [of k "\<lparr>vis_tokens = t, vis_lastCheck = now\<rparr>" vs]
  by (auto simp: distinct_set_visitor)

lemma fl64_pred_bounds:
  assumes "1 \<le> t" and "t \<le> 10"
  shows "0 \<le> fl64 (t - 1)" and "fl64 (t - 1) \<le> 9" and "fl64 (t - 1) \<le> t - 1 + 10 / 2 ^ 53"
proof -
  show "0 \<le> fl64 (t - 1)" using assms by (intro fl64_nonneg) simp
  show "fl64 (t - 1) \<le> 9" using fl64_mono [of "t - 1" 9] fl64_int [of 9] assms by simp
  have "fl64 (t - 1) \<le> (t - 1) * (1 + 1 / 2 ^ 53)" using assms by (intro fl64_le) simp
  then show "fl64 (t - 1) \<le> t - 1 + 10 / 2 ^ 53" using assms by (simp add: distrib_left)
qed

text \<open>The four outcomes of a call, for a well-formed table: what is stored for the key, and the verdict.\<close>

lemma rl_allow_cases:
  assumes "rl_wf now vs"
  obtains (fresh) "fst (rl_allow now key vs)" "snd (rl_allow now key vs)
      = set_visitor key \<lparr>vis_tokens = 9, vis_lastCheck = now\<rparr> (evict_idle now vs)" "map_of (evict_idle now vs) key = None"
  | (denied) v where "map_of vs key = Some v" "\<not> fst (rl_allow now key vs)" "refill now v < 1"
      "snd (rl_allow now key vs) = set_visitor key \<lparr>vis_tokens = refill now v, vis_lastCheck = now\<rparr> (evict_idle now vs)"
  | (paid) v where "map_of vs key = Some v" "fst (rl_allow now key vs)" "1 \<le> refill now v"
      "snd (rl_allow now key vs) = set_visitor key \<lparr>vis_tokens = fl64 (refill now v - 1), vis_lastCheck = now\<rparr> (evict_idle now vs)"
proof (cases "map_of (evict_idle now vs) key")
  case None
  then show thesis by (intro fresh) (simp_all add: rl_allow_def rateLimitBurst_def)
next
  case (Some v)
  then have v: "map_of vs key = Some v" using map_of_evict [OF assms, of key] by auto
  show thesis
  proof (cases "refill now v < 1")
    case True
    then show thesis using v Some by (intro denied) (simp_all add: rl_allow_def Let_def)
  next
    case False
    then show thesis using v Some by (intro paid) (simp_all add: rl_allow_def Let_def)
  qed
qed

lemma rl_allow_wf:
  assumes "rl_wf now vs"
  shows "rl_wf now (snd (rl_allow now key vs))"
  using assms
proof (cases rule: rl_allow_cases [where key = key])
  case fresh
  then show ?thesis using evict_wf [OF assms] by (simp add: rl_wf_set_visitor)
next
  case (denied v)
  then show ?thesis using evict_wf [OF assms] rl_wfD [OF assms denied(1)] refill_nonneg [of v now]
    by (simp add: rl_wf_set_visitor)
next
  case (paid v)
  then show ?thesis using evict_wf [OF assms] fl64_pred_bounds [OF paid(3) refill_le_10]
    by (simp add: rl_wf_set_visitor)
qed

lemma credit_evict:
  assumes "rl_wf now vs" and "now \<le> t"
  shows "credit (evict_idle now vs) k t = credit vs k t"
proof (cases "map_of (evict_idle now vs) k = map_of vs k")
  case False
  then obtain v where v: "map_of (evict_idle now vs) k = None" "map_of vs k = Some v" "now - vis_lastCheck v > rateLimitEvictAfter"
    using map_of_evict [OF assms(1)] by blast
  then have "120000000000 \<le> t - vis_lastCheck v" using assms(2) by (simp add: rate_defs)
  then have "(120000000000 :: rat) \<le> of_int (t - vis_lastCheck v)" using of_int_le_iff by fastforce
  then have "10 \<le> vis_tokens v + seconds (vis_lastCheck v) t"
    using rl_wfD [OF assms(1) v(2)] by (simp add: seconds_def field_simps)
  then show ?thesis using v by (simp add: credit_def)
qed (simp add: credit_def)

lemma credit_bounds: "rl_wf now vs \<Longrightarrow> 0 \<le> credit vs k now \<and> credit vs k now \<le> 10"
  using rl_wfD [of now vs k] seconds_nonneg by (fastforce simp: credit_def split: option.splits)

lemma min_add_le: "0 \<le> e \<Longrightarrow> min m (x + e) \<le> min m x + (e::rat)"
  by (simp add: min_def)

lemma credit_growth:
  assumes "a \<le> b"
  shows "credit vs k b \<le> credit vs k a + seconds a b"
proof -
  have "min 10 (t + seconds l b) \<le> min 10 (t + seconds l a) + seconds a b" for t l
    using min_add_le [OF seconds_nonneg [OF assms], of 10 "t + seconds l a"] seconds_split [of l b a]
    by (simp only: add.assoc)
  then show ?thesis using seconds_nonneg [OF assms] by (simp add: credit_def split: option.splits)
qed

text \<open>An admission costs the exact credit one, up to \<open>2 ^ -47\<close>; a denial costs nothing and creates at
  most that; other keys are not touched.\<close>

lemma credit_call:
  assumes "rl_wf now vs"
  shows "credit (snd (rl_allow now key vs)) key now
    \<le> credit vs key now - (if fst (rl_allow now key vs) then 1 else 0) + 1 / 2 ^ 47"
  using assms
proof (cases rule: rl_allow_cases [where key = key])
  case fresh
  then have "credit vs key now = 10"
    using credit_evict [OF assms order_refl, of key] by (simp add: credit_def)
  then show ?thesis using fresh by (simp add: credit_def seconds_def)
next
  case (denied v)
  then have "refill now v \<le> credit vs key now + 52 / 2 ^ 53"
    using refill_le_exact [of v now] rl_wfD [OF assms denied(1)] by (simp add: credit_def)
  then show ?thesis using denied by (simp add: credit_def seconds_def)
next
  case (paid v)
  then have "refill now v \<le> credit vs key now + 52 / 2 ^ 53"
    using refill_le_exact [of v now] rl_wfD [OF assms paid(1)] by (simp add: credit_def)
  then show ?thesis using paid fl64_pred_bounds(3) [OF paid(3) refill_le_10] by (simp add: credit_def seconds_def)
qed

lemma credit_other:
  assumes "rl_wf now vs" and "k \<noteq> key" and "now \<le> t"
  shows "credit (snd (rl_allow now key vs)) k t = credit vs k t"
  using assms(1)
  by (cases rule: rl_allow_cases [where key = key])
    (use assms credit_evict [OF assms(1,3), of k] in \<open>simp_all add: credit_def\<close>)

section \<open>Runs of requests\<close>

text \<open>A run of requests \<open>(instant, key)\<close> on the limiter, and how many of one key's were admitted.\<close>

fun rl_run :: "(instant \<times> string) list \<Rightarrow> visitors \<Rightarrow> bool list \<times> visitors" where
  "rl_run [] vs = ([], vs)"
| "rl_run ((now, key) # rs) vs =
     (let (ok, vs1) = rl_allow now key vs; (oks, vs2) = rl_run rs vs1 in (ok # oks, vs2))"

definition requests_of :: "string \<Rightarrow> (instant \<times> string) list \<Rightarrow> instant list" where
  "requests_of key rs = map fst (filter (\<lambda>r. snd r = key) rs)"

definition admitted :: "string \<Rightarrow> (instant \<times> string) list \<Rightarrow> visitors \<Rightarrow> nat" where
  "admitted key rs vs = length (filter (\<lambda>((t, k), ok). k = key \<and> ok) (zip rs (fst (rl_run rs vs))))"

lemma admitted_simps [simp]:
  "admitted key [] vs = 0"
  "admitted key ((t, k) # rs) vs =
     (if k = key \<and> fst (rl_allow t k vs) then 1 else 0) + admitted key rs (snd (rl_allow t k vs))"
  by (auto simp: admitted_def Let_def split: prod.splits)

lemma requests_of_simps [simp]:
  "requests_of key [] = []"
  "requests_of key ((t, k) # rs) = (if k = key then [t] else []) @ requests_of key rs"
  by (simp_all add: requests_of_def)

lemma requests_of_append [simp]: "requests_of key (rs @ rs') = requests_of key rs @ requests_of key rs'"
  by (simp add: requests_of_def)

lemma rl_run_append: "snd (rl_run (rs @ rs') vs) = snd (rl_run rs' (snd (rl_run rs vs)))"
  by (induction rs arbitrary: vs) (simp_all add: Let_def case_prod_beta split_paired_all)

lemma rl_run_snoc: "snd (rl_run (rs @ [(t, k)]) vs) = snd (rl_allow t k (snd (rl_run rs vs)))"
  by (simp add: rl_run_append Let_def split: prod.splits)

lemma admitted_bound:
  assumes "rl_wf now vs" and "sorted (map fst rs)" and "\<forall>r \<in> set rs. now \<le> fst r \<and> fst r \<le> end_t" and "now \<le> end_t"
  shows "of_nat (admitted key rs vs)
    \<le> credit vs key now + seconds now end_t + of_nat (length (requests_of key rs)) / 2 ^ 47"
  using assms
proof (induction rs arbitrary: vs now)
  case Nil
  then show ?case using credit_bounds [of now vs key] seconds_nonneg [of now end_t] by simp
next
  case (Cons r rs)
  obtain t k where r: "r = (t, k)" by (cases r)
  have t: "now \<le> t" "t \<le> end_t" using Cons.prems(3) r by auto
  have wf: "rl_wf t vs" using Cons.prems(1) t(1) by (rule rl_wf_mono)
  let ?vs = "snd (rl_allow t k vs)"
  have "\<forall>r \<in> set rs. t \<le> fst r \<and> fst r \<le> end_t" using Cons.prems(2,3) r by auto
  then have IH: "of_nat (admitted key rs ?vs)
      \<le> credit ?vs key t + seconds t end_t + of_nat (length (requests_of key rs)) / 2 ^ 47"
    using Cons.IH [of t ?vs] rl_allow_wf [OF wf] Cons.prems(2) t(2) by simp
  have grow: "credit vs key t \<le> credit vs key now + seconds now t" using t(1) by (rule credit_growth)
  have split: "seconds now end_t = seconds now t + seconds t end_t" by (rule seconds_split)
  show ?case
  proof (cases "k = key")
    case True
    then show ?thesis using IH grow split credit_call [OF wf, of key] r
      by (cases "fst (rl_allow t key vs)") (simp_all add: add_divide_distrib)
  next
    case False
    then have "credit ?vs key t = credit vs key t" using credit_other [OF wf] by simp
    then show ?thesis using IH grow split False r by simp
  qed
qed

text \<open>What the table knows of a key after a run: the last request's instant, and at least ten tokens less
  the requests made.\<close>

definition remembers :: "string \<Rightarrow> instant list \<Rightarrow> visitors \<Rightarrow> bool" where
  "remembers key ts vs \<longleftrightarrow>
     (\<forall>v. map_of vs key = Some v \<longrightarrow> vis_lastCheck v \<in> set ts
        \<and> (length ts \<le> 10 \<longrightarrow> of_int (10 - int (length ts)) \<le> vis_tokens v))"

lemma remembers_call:
  assumes wf: "rl_wf now vs" and m: "remembers key ts vs"
  shows "remembers key (ts @ [now]) (snd (rl_allow now key vs))"
  using wf
proof (cases rule: rl_allow_cases [where key = key])
  case fresh
  then show ?thesis by (auto simp: remembers_def)
next
  case (denied v)
  have "10 < length ts + 1"
  proof (rule ccontr)
    assume "\<not> 10 < length ts + 1"
    then have l: "length ts \<le> 9" by simp
    then have "of_int (10 - int (length ts)) \<le> vis_tokens v" using m denied(1) by (simp add: remembers_def)
    then have "of_int (min 10 (10 - int (length ts) + 0)) \<le> refill now v"
      using rl_wfD [OF wf denied(1)] l by (intro refill_ge) simp_all
    then show False using denied(3) l by simp
  qed
  then show ?thesis using denied by (simp add: remembers_def)
next
  case (paid v)
  have "of_int (10 - int (length (ts @ [now]))) \<le> fl64 (refill now v - 1)" if l: "length (ts @ [now]) \<le> 10"
  proof -
    have "of_int (10 - int (length ts)) \<le> vis_tokens v" using m paid(1) l by (simp add: remembers_def)
    then have "of_int (min 10 (10 - int (length ts) + 0)) \<le> refill now v"
      using rl_wfD [OF wf paid(1)] l by (intro refill_ge) simp_all
    then have "of_int (10 - int (length (ts @ [now]))) \<le> refill now v - 1" using l by simp
    then show ?thesis using l by (intro fl64_ge_int) simp_all
  qed
  then show ?thesis using paid by (simp add: remembers_def)
qed

lemma remembers_other:
  assumes "rl_wf now vs" and "remembers key ts vs" and "k \<noteq> key"
  shows "remembers key ts (snd (rl_allow now k vs))"
  using assms(1)
  by (cases rule: rl_allow_cases [where key = k])
    (use assms map_of_evict [OF assms(1), of key] in \<open>auto simp: remembers_def\<close>)

lemma run_table:
  assumes "sorted (map fst rs)" and "\<forall>r \<in> set rs. fst r \<le> now"
  shows "rl_wf now (snd (rl_run rs [])) \<and> remembers key (requests_of key rs) (snd (rl_run rs []))"
  using assms
proof (induction rs arbitrary: now rule: rev_induct)
  case Nil
  then show ?case by (simp add: rl_wf_def remembers_def)
next
  case (snoc r rs)
  obtain t k where r: "r = (t, k)" by (cases r)
  have h: "sorted (map fst rs)" "\<forall>r \<in> set rs. fst r \<le> t" "t \<le> now"
    using snoc.prems r by (auto simp: sorted_append)
  note IH = snoc.IH [OF h(1,2)]
  have "rl_wf t (snd (rl_run (rs @ [r]) []))" using IH r by (simp add: rl_run_snoc rl_allow_wf)
  then have "rl_wf now (snd (rl_run (rs @ [r]) []))" using h(3) by (rule rl_wf_mono)
  moreover have "remembers key (requests_of key (rs @ [r])) (snd (rl_run (rs @ [r]) []))"
    using IH remembers_call remembers_other r by (cases "k = key") (auto simp: rl_run_snoc)
  ultimately show ?case by blast
qed

text \<open>C8: The limit of ten at once and sixty a minute, for the code's floating point. Take a limiter that has
  served any sequence of requests of any keys, in the order of the clock. (1) In any further sequence up
  to \<open>end_t\<close>, whatever keys interleave and whoever is evicted, a key is admitted at most 10 times plus
  once per second of the window; rounding can add less than \<open>2 ^ -47\<close> of an admission per request. (2) A
  request that comes at least one second after every earlier request of its key is admitted. (3) The
  first ten requests of a key are admitted. The instants are exact; (1) and (2) fix the rate from above
  and from below.\<close>

theorem rate_limit_exact_clock:
  assumes "sorted (map fst past)" and "\<forall>(t, k) \<in> set past. t \<le> now" and "vs = snd (rl_run past [])"
  shows "(\<forall>rs end_t. sorted (map fst rs) \<longrightarrow> (\<forall>(t, k) \<in> set rs. now \<le> t \<and> t \<le> end_t) \<longrightarrow> now \<le> end_t \<longrightarrow>
      of_nat (admitted key rs vs)
        \<le> (10 :: rat) + of_int (end_t - now) / 1000000000 + of_nat (length (requests_of key rs)) / 2 ^ 47)
    \<and> ((\<forall>t. (t, key) \<in> set past \<longrightarrow> t + 1000000000 \<le> now) \<longrightarrow> fst (rl_allow now key vs))
    \<and> (length (filter (\<lambda>(t, k). k = key) past) < 10 \<longrightarrow> fst (rl_allow now key vs))"
proof (intro conjI allI impI)
  have table: "rl_wf now vs" "remembers key (requests_of key past) vs"
    using run_table [OF assms(1), of now key] assms(2,3) by (simp_all add: case_prod_beta)
  show "of_nat (admitted key rs vs)
      \<le> (10 :: rat) + of_int (end_t - now) / 1000000000 + of_nat (length (requests_of key rs)) / 2 ^ 47"
    if "sorted (map fst rs)" "\<forall>(t, k) \<in> set rs. now \<le> t \<and> t \<le> end_t" "now \<le> end_t" for rs end_t
  proof -
    have "\<forall>r \<in> set rs. now \<le> fst r \<and> fst r \<le> end_t" using that(2) by auto
    from admitted_bound [OF table(1) that(1) this that(3), of key] credit_bounds [OF table(1), of key]
    show ?thesis by (simp add: seconds_def)
  qed
  have refills: "fst (rl_allow now key vs)"
    if "\<And>v. map_of vs key = Some v \<Longrightarrow> 1 \<le> refill now v"
    using table(1)
  proof (cases rule: rl_allow_cases [where key = key])
    case (denied v)
    then show ?thesis using that [OF denied(1)] by simp
  qed simp_all
  show "fst (rl_allow now key vs)" if late: "\<forall>t. (t, key) \<in> set past \<longrightarrow> t + 1000000000 \<le> now"
  proof (rule refills)
    fix v assume v: "map_of vs key = Some v"
    then have "vis_lastCheck v \<in> set (requests_of key past)" using table(2) by (simp add: remembers_def)
    then have "(vis_lastCheck v, key) \<in> set past" by (auto simp: requests_of_def)
    then have "of_int (min 10 (0 + 1)) \<le> refill now v"
      using late rl_wfD [OF table(1) v] by (intro refill_ge) simp_all
    then show "1 \<le> refill now v" by simp
  qed
  show "fst (rl_allow now key vs)" if few: "length (filter (\<lambda>(t, k). k = key) past) < 10"
  proof (rule refills)
    fix v assume v: "map_of vs key = Some v"
    have "(\<lambda>(t, k). k = key) = (\<lambda>r :: instant \<times> string. snd r = key)" by auto
    then have l: "length (requests_of key past) \<le> 9" using few by (simp add: requests_of_def)
    then have "of_int (10 - int (length (requests_of key past))) \<le> vis_tokens v"
      using table(2) v by (simp add: remembers_def)
    then have "of_int (min 10 (10 - int (length (requests_of key past)) + 0)) \<le> refill now v"
      using rl_wfD [OF table(1) v] l by (intro refill_ge) simp_all
    then show "1 \<le> refill now v" using l by simp
  qed
qed

text \<open>The rounding shows: a key that has no token left and asks after 200, 900 and 1000 ms is still denied
  after one full second, because the rounded 0.2, 0.7 and 0.1 add up to less than 1.\<close>

fun one_key_run :: "visitor \<Rightarrow> instant list \<Rightarrow> bool list" where
  "one_key_run v [] = []"
| "one_key_run v (now # ts) =
     (let t = refill now v in
      if t < 1 then False # one_key_run \<lparr>vis_tokens = t, vis_lastCheck = now\<rparr> ts
      else True # one_key_run \<lparr>vis_tokens = fl64 (t - 1), vis_lastCheck = now\<rparr> ts)"

lemma rl_run_one_key: "fst (rl_run (map (\<lambda>t. (t, key)) ts) [(key, v)]) = one_key_run v ts"
  by (induction ts arbitrary: v) (simp_all add: rl_allow_def evict_idle_def Let_def case_prod_beta)

lemma float_shortfall:
  "fst (rl_run (map (\<lambda>t. (t, key)) [200000000, 900000000, 1000000000]) [(key, \<lparr>vis_tokens = 0, vis_lastCheck = 0\<rparr>)])
     = replicate 3 False"
proof -
  have "one_key_run \<lparr>vis_tokens = 0, vis_lastCheck = 0\<rparr> [200000000, 900000000, 1000000000]
      = replicate 3 False"
    by code_simp
  then show ?thesis by (simp only: rl_run_one_key)
qed

theorem rate_limit_exact_clock_witness:
  "of_nat (admitted ''a'' [(5, ''b''), (1000000000, ''a'')] (snd (rl_run [(0, ''a''), (3, ''b'')] [])))
      \<le> (10 :: rat) + of_int (2000000000 - 3) / 1000000000 + 1 / 2 ^ 47
   \<and> fst (rl_allow 1000000003 ''a'' (snd (rl_run [(0, ''a''), (3, ''a'')] [])))
   \<and> fst (rl_allow 3 ''a'' (snd (rl_run [(0, ''a''), (3, ''b'')] [])))"
proof (intro conjI)
  show "of_nat (admitted ''a'' [(5, ''b''), (1000000000, ''a'')] (snd (rl_run [(0, ''a''), (3, ''b'')] [])))
      \<le> (10 :: rat) + of_int (2000000000 - 3) / 1000000000 + 1 / 2 ^ 47"
    using conjunct1 [OF rate_limit_exact_clock [of "[(0, ''a''), (3, ''b'')]" 3, OF _ _ refl, of "''a''"],
        rule_format, of "[(5, ''b''), (1000000000, ''a'')]" 2000000000] by simp
  show "fst (rl_allow 1000000003 ''a'' (snd (rl_run [(0, ''a''), (3, ''a'')] [])))"
    using rate_limit_exact_clock [of "[(0, ''a''), (3, ''a'')]" 1000000003, OF _ _ refl, of "''a''"] by simp
  show "fst (rl_allow 3 ''a'' (snd (rl_run [(0, ''a''), (3, ''b'')] [])))"
    using rate_limit_exact_clock [of "[(0, ''a''), (3, ''b'')]" 3, OF _ _ refl, of "''a''"] by simp
qed

end
