(* ===== verification/Line_Scan.thy ===== *)
theory Line_Scan
  imports Prelude
begin

text \<open>
  \<open>bufio.Scanner\<close> with \<open>bufio.ScanLines\<close>, as the JSONL readers use it: the lines of a text, a last line without
  newline included unless it is empty, each without a trailing carriage return. A line that does not fit the
  buffer ends the scan with an error; the buffer holds 64 KiB unless the reader gives another size.
\<close>

definition drop_cr :: "string \<Rightarrow> string" where
  "drop_cr l = (if l \<noteq> [] \<and> last l = CHR 0x0D then butlast l else l)"

definition raw_lines :: "string \<Rightarrow> string list" where
  "raw_lines s = (let ps = split_on (CHR 0x0A) s in if last ps = [] then butlast ps else ps)"

definition defaultMaxLine :: nat where
  "defaultMaxLine = 64 * 1024"

definition scan_text :: "nat \<Rightarrow> string \<Rightarrow> string list \<times> bool" where
  "scan_text limit s =
     (let ls = raw_lines s; ok = takeWhile (\<lambda>l. length l < limit) ls
      in (map drop_cr ok, length ok < length ls))"

text \<open>The file that holds the given lines, each ended by a newline.\<close>

definition lines_file :: "string list \<Rightarrow> string" where
  "lines_file ls = concat (map (\<lambda>l. l @ [CHR 0x0A]) ls)"

lemma lines_file_simps [simp]:
  "lines_file [] = []" "lines_file (ls @ ms) = lines_file ls @ lines_file ms" "lines_file [l] = l @ [CHR 0x0A]"
  by (simp_all add: lines_file_def)

lemma split_lines_file: "\<forall>l \<in> set ls. CHR 0x0A \<notin> set l \<Longrightarrow> split_on (CHR 0x0A) (lines_file ls) = ls @ [[]]"
  by (induction ls) (auto simp: lines_file_def split_on_append)

lemma raw_lines_file: "\<forall>l \<in> set ls. CHR 0x0A \<notin> set l \<Longrightarrow> raw_lines (lines_file ls) = ls"
  by (simp add: raw_lines_def split_lines_file)

lemma scan_lines_file:
  assumes "\<forall>l \<in> set ls. CHR 0x0A \<notin> set l \<and> drop_cr l = l \<and> length l < limit"
  shows "scan_text limit (lines_file ls) = (ls, False)"
proof -
  have tw: "takeWhile (\<lambda>l. length l < limit) ls = ls" using assms by (intro takeWhile_eq_all_conv [THEN iffD2]) blast
  have "map drop_cr ls = ls" using assms by (simp add: map_idI)
  moreover have "raw_lines (lines_file ls) = ls" using assms by (simp add: raw_lines_file)
  ultimately show ?thesis by (simp add: scan_text_def Let_def tw)
qed

end
