(* ===== verification/Audit_Log.thy ===== *)
theory Audit_Log
  imports Line_Scan "HOL-Library.Multiset" "HOL-Library.List_Lexorder" "HOL-Library.Char_ord"
begin

text \<open>
  Package \<open>audit\<close>: the append-only JSONL file (\<open>logger.go\<close>) and its paged reader
  (\<open>reader.go\<close>). The file is its text. The JSON encoder and decoder, the timestamp parser and the
  sorting routine (\<open>sort.Slice\<close>, which is not stable) are arguments. \<open>int\<close> is 64 bits wide, and the
  reader's sum of offset and limit is kept at that width.
\<close>

section \<open>Entries and the writer\<close>

type_synonym action = string

definition ActionCreatePeer :: action where "ActionCreatePeer = ''create_peer''"
definition ActionDeletePeer :: action where "ActionDeletePeer = ''delete_peer''"
definition ActionCreateRoute :: action where "ActionCreateRoute = ''create_route''"
definition ActionDeleteRoute :: action where "ActionDeleteRoute = ''delete_route''"
definition ActionCreateToken :: action where "ActionCreateToken = ''create_token''"
definition ActionRevokeToken :: action where "ActionRevokeToken = ''revoke_token''"

lemmas action_defs = ActionCreatePeer_def ActionDeletePeer_def ActionCreateRoute_def
  ActionDeleteRoute_def ActionCreateToken_def ActionRevokeToken_def

text \<open>The metadata field is \<open>None\<close> for a nil map, and otherwise what marshalling it gives.\<close>

datatype metadata = MetaJSON string | MetaUnmarshalable

record audit_entry =
  aud_ID :: string
  aud_Timestamp :: string
  aud_ActorTokenID :: string
  aud_ActorTokenName :: string
  aud_Action :: action
  aud_TargetResourceID :: string
  aud_SourceIP :: string
  aud_UserAgent :: string
  aud_Metadata :: "metadata option"

datatype audit_error = ErrMarshalMetadata | ErrMetadataSize | ErrMarshalEntry | ErrWriteFile | ErrSyncFile | ErrOpenFile

definition maxMetadataSize :: nat where
  "maxMetadataSize = 4096"

text \<open>How the write of a line ends: complete and synced, complete with a failing sync, or cut after some
  bytes.\<close>

datatype write_end = WriteOK | SyncFails | WriteCut nat

definition fill_entry :: "string \<Rightarrow> string \<Rightarrow> audit_entry \<Rightarrow> audit_entry" where
  "fill_entry uuid timestamp e =
     (let e1 = (if aud_ID e = [] then e\<lparr>aud_ID := uuid\<rparr> else e)
      in if aud_Timestamp e1 = [] then e1\<lparr>aud_Timestamp := timestamp\<rparr> else e1)"

definition metadata_error :: "metadata option \<Rightarrow> audit_error option" where
  "metadata_error m = (case m of
       None \<Rightarrow> None
     | Some MetaUnmarshalable \<Rightarrow> Some ErrMarshalMetadata
     | Some (MetaJSON raw) \<Rightarrow> if length raw > maxMetadataSize then Some ErrMetadataSize else None)"

definition Logger_Write ::
  "(audit_entry \<Rightarrow> string option) \<Rightarrow> string \<Rightarrow> string \<Rightarrow> write_end \<Rightarrow> audit_entry \<Rightarrow> string
     \<Rightarrow> audit_error option \<times> string" where
  "Logger_Write encode uuid timestamp w entry log =
     (case metadata_error (aud_Metadata entry) of Some e \<Rightarrow> (Some e, log)
      | None \<Rightarrow>
          (case encode (fill_entry uuid timestamp entry) of
             None \<Rightarrow> (Some ErrMarshalEntry, log)
           | Some line \<Rightarrow>
               (case w of
                  WriteOK \<Rightarrow> (None, log @ line @ [CHR 0x0A])
                | SyncFails \<Rightarrow> (Some ErrSyncFile, log @ line @ [CHR 0x0A])
                | WriteCut n \<Rightarrow> (Some ErrWriteFile, log @ take n (line @ [CHR 0x0A])))))"

section \<open>The reader\<close>

record query_params =
  q_Offset :: int
  q_Limit :: int
  q_Actor :: string
  q_Action :: action
  q_From :: "instant option"
  q_To :: "instant option"

record query_result =
  res_Entries :: "audit_entry list"
  res_Total :: int
  res_HasMore :: bool

definition clamp_limit :: "int \<Rightarrow> int" where
  "clamp_limit l = (let l1 = (if l \<le> 0 then 50 else l) in if l1 > 200 then 200 else l1)"

definition query_match :: "(string \<Rightarrow> instant option) \<Rightarrow> query_params \<Rightarrow> audit_entry \<Rightarrow> bool" where
  "query_match parse q e \<longleftrightarrow>
     \<not> (q_Actor q \<noteq> [] \<and> aud_ActorTokenName e \<noteq> q_Actor q)
     \<and> \<not> (q_Action q \<noteq> [] \<and> aud_Action e \<noteq> q_Action q)
     \<and> (case q_From q of None \<Rightarrow> True
         | Some from \<Rightarrow> (case parse (aud_Timestamp e) of None \<Rightarrow> False | Some ts \<Rightarrow> \<not> ts < from))
     \<and> (case q_To q of None \<Rightarrow> True
         | Some to \<Rightarrow> (case parse (aud_Timestamp e) of None \<Rightarrow> False | Some ts \<Rightarrow> \<not> ts > to))"

fun scan_lines :: "(string \<Rightarrow> audit_entry option) \<Rightarrow> (string \<Rightarrow> instant option) \<Rightarrow> query_params \<Rightarrow> string list \<Rightarrow> audit_entry list" where
  "scan_lines decode parse q [] = []"
| "scan_lines decode parse q (l # ls) =
     (case decode l of
        None \<Rightarrow> scan_lines decode parse q ls
      | Some e \<Rightarrow> if query_match parse q e then e # scan_lines decode parse q ls else scan_lines decode parse q ls)"

definition scan_log :: "(string \<Rightarrow> audit_entry option) \<Rightarrow> (string \<Rightarrow> instant option) \<Rightarrow> query_params \<Rightarrow> string \<Rightarrow> audit_entry list" where
  "scan_log decode parse q log = scan_lines decode parse q (fst (scan_text defaultMaxLine log))"

definition int64 :: "int \<Rightarrow> int" where
  "int64 n = (n + 2 ^ 63) mod 2 ^ 64 - 2 ^ 63"

text \<open>The file is not there yet, cannot be opened, or has contents. A negative start is a slice-bounds panic in
  Go, written out as the result \<open>None\<close>.\<close>

datatype file_open = Missing | OpenFails | Contents string

definition page_of :: "query_params \<Rightarrow> audit_entry list \<Rightarrow> query_result option" where
  "page_of q entries =
     (let total = int (length entries);
          hasMore = int64 (q_Offset q + q_Limit q) < total;
          start = (if q_Offset q > total then total else q_Offset q);
          last = (if int64 (start + q_Limit q) > total then total else int64 (start + q_Limit q))
      in if start < 0 \<or> last < start then None
         else Some \<lparr>res_Entries = take (nat (last - start)) (drop (nat start) entries),
                    res_Total = total, res_HasMore = hasMore\<rparr>)"

definition Query ::
  "(string \<Rightarrow> audit_entry option) \<Rightarrow> (string \<Rightarrow> instant option) \<Rightarrow> (audit_entry list \<Rightarrow> audit_entry list)
     \<Rightarrow> file_open \<Rightarrow> query_params \<Rightarrow> (audit_error + query_result) option" where
  "Query decode parse sorter f params =
     (let q = params\<lparr>q_Limit := clamp_limit (q_Limit params)\<rparr> in
      case f of
        Missing \<Rightarrow> Some (Inr \<lparr>res_Entries = [], res_Total = 0, res_HasMore = False\<rparr>)
      | OpenFails \<Rightarrow> Some (Inl ErrOpenFile)
      | Contents log \<Rightarrow> map_option Inr (page_of q (sorter (scan_log decode parse q log))))"

section \<open>Facts\<close>

lemma int64_id: "- (2 ^ 63) \<le> n \<Longrightarrow> n < 2 ^ 63 \<Longrightarrow> int64 n = n"
  by (simp add: int64_def)

lemma clamp_limit_bounds: "1 \<le> clamp_limit l \<and> clamp_limit l \<le> 200"
  by (auto simp: clamp_limit_def Let_def)

lemma clamp_limit_id: "1 \<le> l \<Longrightarrow> l \<le> 200 \<Longrightarrow> clamp_limit l = l"
  by (auto simp: clamp_limit_def Let_def)

lemma scan_lines_append [simp]:
  "scan_lines decode parse q (ls @ ms) = scan_lines decode parse q ls @ scan_lines decode parse q ms"
  by (induction ls) (auto split: option.splits)

lemma query_match_page [simp]:
  "query_match parse (q\<lparr>q_Limit := l\<rparr>) e = query_match parse q e"
  "query_match parse (q\<lparr>q_Offset := n\<rparr>) e = query_match parse q e"
  by (simp_all add: query_match_def)

lemma scan_log_page [simp]:
  "scan_log decode parse (q\<lparr>q_Limit := l\<rparr>) log = scan_log decode parse q log"
  "scan_log decode parse (q\<lparr>q_Offset := n\<rparr>) log = scan_log decode parse q log"
proof -
  have "scan_lines decode parse (q\<lparr>q_Limit := l\<rparr>) ls = scan_lines decode parse q ls"
    and "scan_lines decode parse (q\<lparr>q_Offset := n\<rparr>) ls = scan_lines decode parse q ls" for ls
    by (induction ls) (auto split: option.splits)
  then show "scan_log decode parse (q\<lparr>q_Limit := l\<rparr>) log = scan_log decode parse q log"
    and "scan_log decode parse (q\<lparr>q_Offset := n\<rparr>) log = scan_log decode parse q log"
    by (simp_all add: scan_log_def)
qed

text \<open>The filter, condition by condition.\<close>

lemma query_match_iff:
  "query_match parse q e \<longleftrightarrow> (q_Actor q = [] \<or> aud_ActorTokenName e = q_Actor q)
     \<and> (q_Action q = [] \<or> aud_Action e = q_Action q)
     \<and> (\<forall>from. q_From q = Some from \<longrightarrow> (\<exists>t. parse (aud_Timestamp e) = Some t \<and> from \<le> t))
     \<and> (\<forall>to. q_To q = Some to \<longrightarrow> (\<exists>t. parse (aud_Timestamp e) = Some t \<and> t \<le> to))"
  by (auto simp: query_match_def not_less split: option.splits)

lemma page_of_eq:
  assumes "0 \<le> q_Offset q" and "q_Offset q + 200 < 2 ^ 63" and "1 \<le> q_Limit q" and "q_Limit q \<le> 200"
    and "int (length es) + 200 < 2 ^ 63"
  shows "page_of q es = Some \<lparr>res_Entries = take (nat (q_Limit q)) (drop (nat (q_Offset q)) es),
     res_Total = int (length es), res_HasMore = (q_Offset q + q_Limit q < int (length es))\<rparr>"
proof -
  have 1: "int64 (q_Offset q + q_Limit q) = q_Offset q + q_Limit q"
    using assms by (intro int64_id) auto
  have 2: "int64 (int (length es) + q_Limit q) = int (length es) + q_Limit q"
    using assms by (intro int64_id) auto
  show ?thesis
  proof (cases "q_Offset q > int (length es)")
    case True
    then have "drop (nat (q_Offset q)) es = []" by simp
    then show ?thesis using assms True 1 2 by (simp add: page_of_def Let_def)
  next
    case False
    have "take (nat (int (length es) - q_Offset q)) (drop (nat (q_Offset q)) es)
        = take (nat (q_Limit q)) (drop (nat (q_Offset q)) es)"
      if "int (length es) < q_Offset q + q_Limit q"
      using that assms(1,3) False by simp
    then show ?thesis using assms False 1 2 by (auto simp: page_of_def Let_def)
  qed
qed

section \<open>Properties\<close>

lemma concat_pages: "concat (map (\<lambda>k. take L (drop (k * L) xs)) [0..<n]) = take (n * L) xs"
proof (induction n)
  case 0
  then show ?case by simp
next
  case (Suc n)
  have "take (Suc n * L) xs = take (n * L) xs @ take L (drop (n * L) xs)"
    using take_add [of "n * L" L xs] by (simp add: add.commute)
  then show ?case using Suc by simp
qed

text \<open>One call of the logger: the entry, the generators' results, and how the write ended. What a history
  of calls leaves in the file, and which entries were stored.\<close>

type_synonym audit_call = "audit_entry \<times> string \<times> string \<times> write_end"

fun log_history :: "(audit_entry \<Rightarrow> string option) \<Rightarrow> audit_call list \<Rightarrow> string \<Rightarrow> string" where
  "log_history encode [] log = log"
| "log_history encode ((e, uuid, ts, w) # cs) log = log_history encode cs (snd (Logger_Write encode uuid ts w e log))"

lemma log_history_file:
  assumes "\<forall>(e, u, ts, w) \<in> set cs. \<forall>n. w \<noteq> WriteCut n"
  shows "log_history encode cs (lines_file ls) = lines_file (ls @ map (\<lambda>(e, u, ts, w). the (encode (fill_entry u ts e)))
    (filter (\<lambda>(e, u, ts, w). metadata_error (aud_Metadata e) = None \<and> encode (fill_entry u ts e) \<noteq> None) cs))"
  using assms
proof (induction cs arbitrary: ls)
  case (Cons c cs)
  obtain e u ts w where c: "c = (e, u, ts, w)" by (cases c) 
  have w: "\<forall>n. w \<noteq> WriteCut n" using Cons.prems c by simp
  show ?case
  proof (cases "metadata_error (aud_Metadata e) = None \<and> encode (fill_entry u ts e) \<noteq> None")
    case True
    then obtain l where l: "encode (fill_entry u ts e) = Some l" by blast
    have "snd (Logger_Write encode u ts w e (lines_file ls)) = lines_file (ls @ [l])"
      using True w l by (cases w) (simp_all add: Logger_Write_def)
    then show ?thesis using Cons.IH [of "ls @ [l]"] Cons.prems c l True by simp
  next
    case False
    then have "snd (Logger_Write encode u ts w e (lines_file ls)) = lines_file ls"
      by (auto simp: Logger_Write_def split: option.splits)
    then show ?thesis using Cons.IH [of ls] Cons.prems c False by auto
  qed
qed simp

lemma scan_decodable:
  assumes "\<And>x. x \<in> set xs \<Longrightarrow> decode (f x) = Some (g x)"
  shows "scan_lines decode parse q (map f xs) = filter (query_match parse q) (map g xs)"
  using assms by (induction xs) auto

lemma Query_page:
  assumes "1 \<le> q_Limit q" and "q_Limit q \<le> 200" and "int k * q_Limit q + 200 < 2 ^ 63"
    and "int (length (sorter (scan_log decode parse q log))) + 200 < 2 ^ 63"
  shows "Query decode parse sorter (Contents log) (q\<lparr>q_Offset := int k * q_Limit q\<rparr>) = Some (Inr
    \<lparr>res_Entries = take (nat (q_Limit q)) (drop (k * nat (q_Limit q)) (sorter (scan_log decode parse q log))),
     res_Total = int (length (sorter (scan_log decode parse q log))),
     res_HasMore = (int (Suc k) * q_Limit q < int (length (sorter (scan_log decode parse q log))))\<rparr>)"
proof -
  have "nat (int k * q_Limit q) = k * nat (q_Limit q)" using assms(1) by (simp add: nat_mult_distrib)
  then show ?thesis using assms by (simp add: Query_def Let_def clamp_limit_id page_of_eq algebra_simps)
qed

lemma scan_written_log:
  assumes "\<forall>(e, u, ts, w) \<in> set cs. \<forall>n. w \<noteq> WriteCut n"
    and "es = map (\<lambda>(e, u, ts, w). fill_entry u ts e)
      (filter (\<lambda>(e, u, ts, w). metadata_error (aud_Metadata e) = None \<and> encode (fill_entry u ts e) \<noteq> None) cs)"
    and "\<And>e l. e \<in> set es \<Longrightarrow> encode e = Some l \<Longrightarrow>
      CHR 0x0A \<notin> set l \<and> CHR 0x0D \<notin> set l \<and> length l < 65536 \<and> decode l = Some e"
  shows "scan_log decode parse q (log_history encode cs []) = filter (query_match parse q) es"
proof -
  let ?xs = "filter (\<lambda>(e, u, ts, w). metadata_error (aud_Metadata e) = None \<and> encode (fill_entry u ts e) \<noteq> None) cs"
  let ?f = "\<lambda>(e, u, ts, w :: write_end). the (encode (fill_entry u ts e))"
  let ?g = "\<lambda>(e, u, ts, w :: write_end). fill_entry u ts e"
  have es: "es = map ?g ?xs" by (rule assms(2))
  have line: "CHR 0x0A \<notin> set (?f x) \<and> CHR 0x0D \<notin> set (?f x) \<and> length (?f x) < 65536 \<and> decode (?f x) = Some (?g x)"
    if "x \<in> set ?xs" for x
  proof -
    have "?g x \<in> set es" using that unfolding es by (simp add: rev_image_eqI)
    moreover have "encode (?g x) = Some (?f x)" using that by (auto simp: case_prod_beta)
    ultimately show ?thesis by (rule assms(3))
  qed
  have "\<forall>l \<in> set (map ?f ?xs). CHR 0x0A \<notin> set l \<and> drop_cr l = l \<and> length l < defaultMaxLine"
  proof
    fix l assume "l \<in> set (map ?f ?xs)"
    then obtain x where x: "x \<in> set ?xs" "l = ?f x" unfolding set_map by (rule imageE)
    then have "CHR 0x0A \<notin> set l" "CHR 0x0D \<notin> set l" "length l < 65536" using line [OF x(1)] by simp_all
    moreover from this(2) have "drop_cr l = l" by (metis drop_cr_def last_in_set)
    ultimately show "CHR 0x0A \<notin> set l \<and> drop_cr l = l \<and> length l < defaultMaxLine"
      by (simp add: defaultMaxLine_def)
  qed
  then have "scan_text defaultMaxLine (lines_file (map ?f ?xs)) = (map ?f ?xs, False)" by (rule scan_lines_file)
  moreover have "log_history encode cs [] = lines_file (map ?f ?xs)"
    using log_history_file [OF assms(1), of encode "[]"] by simp
  moreover have "scan_lines decode parse q (map ?f ?xs) = filter (query_match parse q) (map ?g ?xs)"
    by (rule scan_decodable) (use line in blast)
  ultimately show ?thesis unfolding es scan_log_def by (simp only: fst_conv)
qed

text \<open>C9: Paging through the audit log returns what was written. Take the file that any sequence of
  logger calls leaves of which no write was cut short, with failing syncs and refused metadata among
  them, and whose lines are shorter than 64 KiB and free of line breaks, as JSON is. A reader that asks
  for page after page with a limit between 1 and 200 gets no error; every page reports the number of
  stored entries that pass the four filter conditions, and \<open>hasMore\<close> exactly when entries follow; and
  once the pages cover that number, together they hold exactly those entries, each as often as it was
  stored, newest timestamp first. The sorting routine may be any that sorts.\<close>

theorem audit_pages_complete:
  assumes "log = log_history encode cs []" and "\<forall>(e, u, ts, w) \<in> set cs. \<forall>n. w \<noteq> WriteCut n"
    and "es = map (\<lambda>(e, u, ts, w). fill_entry u ts e) (filter (\<lambda>(e, u, ts, w).
      (\<forall>m. aud_Metadata e = Some m \<longrightarrow> (\<exists>raw. m = MetaJSON raw \<and> length raw \<le> 4096))
      \<and> encode (fill_entry u ts e) \<noteq> None) cs)"
    and codec: "\<And>e l. e \<in> set es \<Longrightarrow> encode e = Some l \<Longrightarrow>
      CHR 0x0A \<notin> set l \<and> CHR 0x0D \<notin> set l \<and> length l < 65536 \<and> decode l = Some e"
    and sorter: "\<And>xs. mset (sorter xs) = mset xs \<and> sorted_wrt (\<lambda>a b. aud_Timestamp b \<le> aud_Timestamp a) (sorter xs)"
    and "1 \<le> q_Limit q" and "q_Limit q \<le> 200" and "int n * q_Limit q + 200 < 2 ^ 63" and "int (length cs) + 200 < 2 ^ 63"
    and "ms = filter (\<lambda>e. (q_Actor q = [] \<or> aud_ActorTokenName e = q_Actor q) \<and> (q_Action q = [] \<or> aud_Action e = q_Action q)
      \<and> (\<forall>from. q_From q = Some from \<longrightarrow> (\<exists>t. parse (aud_Timestamp e) = Some t \<and> from \<le> t))
      \<and> (\<forall>to. q_To q = Some to \<longrightarrow> (\<exists>t. parse (aud_Timestamp e) = Some t \<and> t \<le> to))) es"
  shows "\<exists>pages. (\<forall>k < n. \<exists>r. Query decode parse sorter (Contents log) (q\<lparr>q_Offset := int k * q_Limit q\<rparr>) = Some (Inr r)
        \<and> res_Entries r = pages k \<and> res_Total r = int (length ms)
        \<and> (res_HasMore r \<longleftrightarrow> (k + 1) * nat (q_Limit q) < length ms))
    \<and> (length ms \<le> n * nat (q_Limit q) \<longrightarrow> mset (concat (map pages [0..<n])) = mset ms
        \<and> sorted_wrt (\<lambda>a b. aud_Timestamp b \<le> aud_Timestamp a) (concat (map pages [0..<n])))"
proof -
  have "metadata_error m = None \<longleftrightarrow> (\<forall>x. m = Some x \<longrightarrow> (\<exists>raw. x = MetaJSON raw \<and> length raw \<le> 4096))" for m
    by (auto simp: metadata_error_def maxMetadataSize_def split: option.splits metadata.splits)
  then have es: "es = map (\<lambda>(e, u, ts, w). fill_entry u ts e)
      (filter (\<lambda>(e, u, ts, w). metadata_error (aud_Metadata e) = None \<and> encode (fill_entry u ts e) \<noteq> None) cs)"
    using assms(3) by simp
  have scan: "scan_log decode parse q log = ms"
    using scan_written_log [OF assms(2) es codec, of parse q] by (simp add: query_match_iff [abs_def] assms(1,10))
  have len: "length (sorter ms) = length ms" using sorter [of ms] by (metis size_mset)
  have "length ms \<le> length es" unfolding assms(10) by (rule length_filter_le)
  also have "\<dots> \<le> length cs" unfolding assms(3) length_map by (rule length_filter_le)
  finally have "length ms \<le> length cs" .
  then have "int (length (sorter (scan_log decode parse q log))) + 200 < 2 ^ 63" using scan len assms(9) by simp
  moreover have "int k * q_Limit q + 200 < 2 ^ 63" if "k < n" for k
  proof -
    have "int k * q_Limit q \<le> int n * q_Limit q" using that assms(6) by (intro mult_right_mono) auto
    then show ?thesis using assms(8) by linarith
  qed
  ultimately have page: "Query decode parse sorter (Contents log) (q\<lparr>q_Offset := int k * q_Limit q\<rparr>) = Some (Inr
      \<lparr>res_Entries = take (nat (q_Limit q)) (drop (k * nat (q_Limit q)) (sorter ms)),
       res_Total = int (length ms), res_HasMore = (int (Suc k) * q_Limit q < int (length ms))\<rparr>)" if "k < n" for k
    using Query_page [OF assms(6,7), of k sorter decode parse log] that scan len by simp
  have more: "int (Suc k) * q_Limit q < int (length ms) \<longleftrightarrow> (k + 1) * nat (q_Limit q) < length ms" for k
  proof -
    have "int (Suc k) * q_Limit q = int ((k + 1) * nat (q_Limit q))" using assms(6) by (simp add: algebra_simps)
    then show ?thesis by (simp only: of_nat_less_iff)
  qed
  let ?pages = "\<lambda>k. take (nat (q_Limit q)) (drop (k * nat (q_Limit q)) (sorter ms))"
  have "concat (map ?pages [0..<n]) = sorter ms" if "length ms \<le> n * nat (q_Limit q)"
    using that len by (simp add: concat_pages)
  then show ?thesis using page more sorter [of ms] by (intro exI [of _ ?pages]) simp
qed

definition sample_entry :: "string \<Rightarrow> audit_entry" where
  "sample_entry i = \<lparr>aud_ID = i, aud_Timestamp = ''t'' @ i, aud_ActorTokenID = ''1'', aud_ActorTokenName = ''ci'',
     aud_Action = ActionCreatePeer, aud_TargetResourceID = [], aud_SourceIP = [], aud_UserAgent = [],
     aud_Metadata = None\<rparr>"

definition sample_query :: query_params where
  "sample_query = \<lparr>q_Offset = 0, q_Limit = 1, q_Actor = ''ci'', q_Action = [], q_From = None, q_To = None\<rparr>"

text \<open>Four calls: two are stored (one with a failing sync), one is of another actor, one has too much
  metadata.\<close>

definition sample_calls :: "audit_call list" where
  "sample_calls = [(sample_entry ''1'', [], [], WriteOK), ((sample_entry ''7'')\<lparr>aud_ActorTokenName := ''x''\<rparr>, [], [], WriteOK),
     ((sample_entry ''8'')\<lparr>aud_Metadata := Some MetaUnmarshalable\<rparr>, [], [], WriteOK), (sample_entry ''2'', [], [], SyncFails)]"

definition sample_encode :: "audit_entry \<Rightarrow> string option" where
  "sample_encode e = Some (aud_ID e)"

definition sample_decode :: "string \<Rightarrow> audit_entry option" where
  "sample_decode l = Some (if l = ''7'' then (sample_entry l)\<lparr>aud_ActorTokenName := ''x''\<rparr> else sample_entry l)"

definition newest_first :: "audit_entry list \<Rightarrow> audit_entry list" where
  "newest_first xs = rev (sort_key aud_Timestamp xs)"

theorem audit_pages_complete_witness:
  "\<exists>pages. (\<forall>k < 2. \<exists>r. Query sample_decode (\<lambda>_. None) newest_first
        (Contents (''1'' @ [CHR 0x0A] @ ''7'' @ [CHR 0x0A] @ ''2'' @ [CHR 0x0A])) (sample_query\<lparr>q_Offset := int k\<rparr>) = Some (Inr r)
        \<and> res_Entries r = pages k \<and> res_Total r = 2 \<and> (res_HasMore r \<longleftrightarrow> k = 0))
    \<and> mset (concat (map pages [0..<2])) = {#sample_entry ''1'', sample_entry ''2''#}"
proof -
  have log: "log_history sample_encode sample_calls [] = ''1'' @ [CHR 0x0A] @ ''7'' @ [CHR 0x0A] @ ''2'' @ [CHR 0x0A]"
    by code_simp
  have q: "q_Limit sample_query = 1" "q_Actor sample_query = ''ci''" "q_Action sample_query = []"
    "q_From sample_query = None" "q_To sample_query = None" by (simp_all add: sample_query_def)
  have s: "mset (newest_first xs) = mset xs
      \<and> sorted_wrt (\<lambda>a b. aud_Timestamp b \<le> aud_Timestamp a) (newest_first xs)" for xs
    using sorted_sort_key [of aud_Timestamp xs] by (simp add: newest_first_def sorted_wrt_rev sorted_map)
  let ?es = "[sample_entry ''1'', (sample_entry ''7'')\<lparr>aud_ActorTokenName := ''x''\<rparr>, sample_entry ''2'']"
  let ?ms = "[sample_entry ''1'', sample_entry ''2'']"
  have es: "?es = map (\<lambda>(e, u, ts, w). fill_entry u ts e) (filter (\<lambda>(e, u, ts, w).
      (\<forall>m. aud_Metadata e = Some m \<longrightarrow> (\<exists>raw. m = MetaJSON raw \<and> length raw \<le> 4096))
      \<and> sample_encode (fill_entry u ts e) \<noteq> None) sample_calls)"
    by (simp add: sample_calls_def sample_encode_def sample_entry_def fill_entry_def Let_def)
  have codec: "CHR 0x0A \<notin> set l \<and> CHR 0x0D \<notin> set l \<and> length l < 65536 \<and> sample_decode l = Some e"
    if "e \<in> set ?es" "sample_encode e = Some l" for e l
    using that by (auto simp: sample_encode_def sample_decode_def sample_entry_def)
  have ms: "?ms = filter (\<lambda>e. (q_Actor sample_query = [] \<or> aud_ActorTokenName e = q_Actor sample_query)
      \<and> (q_Action sample_query = [] \<or> aud_Action e = q_Action sample_query)
      \<and> (\<forall>from. q_From sample_query = Some from \<longrightarrow> (\<exists>t. (\<lambda>_. None) (aud_Timestamp e) = Some t \<and> from \<le> t))
      \<and> (\<forall>to. q_To sample_query = Some to \<longrightarrow> (\<exists>t. (\<lambda>_. None) (aud_Timestamp e) = Some t \<and> t \<le> to))) ?es"
    by (simp add: q sample_entry_def)
  have cut: "\<forall>(e, u, ts, w) \<in> set sample_calls. \<forall>n. w \<noteq> WriteCut n" by (simp add: sample_calls_def)
  have "1 \<le> q_Limit sample_query" "q_Limit sample_query \<le> 200" "int 2 * q_Limit sample_query + 200 < 2 ^ 63"
    "int (length sample_calls) + 200 < 2 ^ 63" by (simp_all add: q sample_calls_def)
  from audit_pages_complete [OF log [symmetric] cut es codec s this ms] obtain pages where
    p: "\<forall>k < 2. \<exists>r. Query sample_decode (\<lambda>_. None) newest_first
        (Contents (''1'' @ [CHR 0x0A] @ ''7'' @ [CHR 0x0A] @ ''2'' @ [CHR 0x0A])) (sample_query\<lparr>q_Offset := int k\<rparr>) = Some (Inr r)
        \<and> res_Entries r = pages k \<and> res_Total r = 2 \<and> (res_HasMore r \<longleftrightarrow> k + 1 < 2)"
      "mset (concat (map pages [0..<2])) = mset ?ms"
    by (auto simp: q)
  have "k + 1 < 2 \<longleftrightarrow> k = 0" for k :: nat by auto
  then show ?thesis using p by (intro exI [of _ pages]) simp
qed

text \<open>an over-long line hides the rest of the log. The reader never asks the scanner for its
  error, so once an entry of 64 KiB or more has been written (the user agent is copied from the
  request unbounded), no entry written after it is ever returned, whatever is appended.\<close>

lemma audit_long_line_hides:
  assumes "\<forall>l \<in> set (pre @ long # later). CHR 0x0A \<notin> set l" and "65536 \<le> length long"
  shows "Query decode parse sorter (Contents (lines_file (pre @ long # later))) q
    = Query decode parse sorter (Contents (lines_file (pre @ [long]))) q"
proof -
  have "takeWhile (\<lambda>l. length l < defaultMaxLine) (pre @ long # xs) = takeWhile (\<lambda>l. length l < defaultMaxLine) pre" for xs
    using assms(2) by (induction pre) (simp_all add: defaultMaxLine_def)
  then have "fst (scan_text defaultMaxLine (lines_file (pre @ long # later)))
      = fst (scan_text defaultMaxLine (lines_file (pre @ [long])))"
    using assms(1) raw_lines_file [of "pre @ long # later"] raw_lines_file [of "pre @ [long]"]
    by (simp add: scan_text_def Let_def)
  then show ?thesis by (simp add: Query_def scan_log_def Let_def)
qed

text \<open>A cut write is not taken back: the next entry continues the broken line.\<close>

lemma torn_entry_joins_next:
  assumes "metadata_error (aud_Metadata e1) = None" and "encode (fill_entry u1 t1 e1) = Some l1"
    and "metadata_error (aud_Metadata e2) = None" and "encode (fill_entry u2 t2 e2) = Some l2" and "n \<le> length l1"
  shows "log_history encode [(e1, u1, t1, WriteCut n), (e2, u2, t2, WriteOK)] (lines_file ls)
    = lines_file (ls @ [take n l1 @ l2])"
  using assms by (simp add: Logger_Write_def)

text \<open>Two further consequences of how the reader computes: the flag wraps around for an offset at
  the top of the integer range, and the newest-first order is that of the timestamp strings, in
  which a whole second sorts as newer than every fraction of it.\<close>

lemma hasMore_wraps:
  "page_of \<lparr>q_Offset = 2 ^ 63 - 1, q_Limit = 50, q_Actor = [], q_Action = [], q_From = None, q_To = None\<rparr> []
    = Some \<lparr>res_Entries = [], res_Total = 0, res_HasMore = True\<rparr>"
  by (simp add: page_of_def int64_def)

lemma timestamp_order_not_chronological:
  assumes "sorted_wrt (\<lambda>a b. aud_Timestamp b \<le> aud_Timestamp a) [x, y]"
    and "{aud_Timestamp x, aud_Timestamp y} = {''2026-01-01T00:00:05Z'', ''2026-01-01T00:00:05.9Z''}"
  shows "aud_Timestamp x = ''2026-01-01T00:00:05Z''"
  using assms by (auto simp: doubleton_eq_iff less_eq_char_def)

end
