(* ===== verification/Remote_Api.thy ===== *)
theory Remote_Api
  imports Token_Cache Jwt Rate_Limiter Audit_Log
begin

text \<open>
  The remote HTTP API: the authentication dispatcher and the middleware chain
  (\<open>api/middleware\<close>), the request context (\<open>api/apicontext\<close>), the handlers (\<open>api/v1\<close>) and the
  routing table (\<open>api/remote/routes.go\<close>). A handler takes the request, the authentication
  information of the request context and the server's state, and returns its reply and the new
  state. The Go interfaces through which handlers reach peers, routes and the tunnel are records of
  functions on an abstract world. A request is described by what the handlers read of it; its JSON
  body is what decoding it gives. The goroutine that writes an audit entry is recorded as an entry
  of the server's queue of pending writes.
\<close>

section \<open>Requests, context and state\<close>

datatype req_body = BadBody | PeerReq string | RouteReq string int
  | TokenReq string string "instant option"

record request =
  r_Method :: string
  r_Path :: string
  r_RemoteAddr :: string
  r_XForwardedFor :: string
  r_Authorization :: string
  r_UserAgent :: string
  r_Body :: req_body
  r_Query :: "string \<Rightarrow> string"

record auth_info =
  ai_TokenID :: string
  ai_TokenName :: string
  ai_Scope :: string
  ai_Source :: string
  ai_SessionID :: string

text \<open>Views of \<open>v1/handlers.go\<close>.\<close>

record peer_view =
  pv_ID :: string
  pv_Name :: string
  pv_PublicKey :: string
  pv_AllowedIP :: string
  pv_CreatedVia :: string
  pv_CreatedAt :: string
  pv_Connected :: bool
  pv_LastHandshake :: string
  pv_TransferRx :: int
  pv_TransferTx :: int

record peer_detail_view =
  pd_PeerView :: peer_view
  pd_ClientConfig :: string

record route_view =
  rv_ID :: string
  rv_Subdomain :: string
  rv_LocalPort :: int
  rv_Status :: string
  rv_FQDN :: string
  rv_CreatedAt :: string

record tunnel_config_view =
  tc_LocalIP :: string
  tc_ServerIP :: string
  tc_ServerEndpoint :: string
  tc_Status :: string
  tc_ConnectedAt :: string

record token_info =
  ti_ID :: string
  ti_Name :: string
  ti_TokenPrefix :: string
  ti_Scope :: string
  ti_CreatedBy :: string
  ti_CreatedAt :: instant
  ti_ExpiresAt :: "instant option"
  ti_LastUsedAt :: "instant option"
  ti_RequestCount :: int
  ti_Enabled :: bool

datatype api_body = PeerListBody "peer_view list" | PeerBody peer_detail_view
  | RouteListBody "route_view list" | RouteBody route_view
  | RemovedBody string | RevokedBody string
  | TokenListBody "token_info list"
  | TokenCreatedBody string string string string string instant
  | SessionBody string int string
  | TunnelBody string string string string string bool
  | StatusBody string nat string string
  | AuditBody query_result

text \<open>The Go interfaces \<open>PeerMutator\<close>, \<open>RouteMutator\<close> and \<open>TunnelStatusProvider\<close>; an error is its
  message.\<close>

record 'w peer_mutator =
  pm_List :: "'w \<Rightarrow> string + peer_view list"
  pm_GetByID :: "string \<Rightarrow> 'w \<Rightarrow> string + peer_detail_view"
  pm_Create :: "string \<Rightarrow> 'w \<Rightarrow> (string + peer_detail_view) \<times> 'w"
  pm_Delete :: "string \<Rightarrow> 'w \<Rightarrow> string option \<times> 'w"

record 'w route_mutator =
  rm_List :: "'w \<Rightarrow> string + route_view list"
  rm_Create :: "string \<Rightarrow> int \<Rightarrow> 'w \<Rightarrow> (string + route_view) \<times> 'w"
  rm_Delete :: "string \<Rightarrow> 'w \<Rightarrow> string option \<times> 'w"

record 'w tunnel_status =
  ts_Status :: "'w \<Rightarrow> string"
  ts_IsConnected :: "'w \<Rightarrow> bool"
  ts_GetConfig :: "'w \<Rightarrow> tunnel_config_view"

record 'w server =
  srv_disk :: token_disk
  srv_cache :: token_cache
  srv_visitors :: visitors
  srv_audit :: "audit_entry list"
  srv_world :: 'w

text \<open>The cryptographic parameters, and what the environment answers during one request.\<close>

record crypto =
  cr_cmp :: bcrypt_cmp
  cr_sha :: "string \<Rightarrow> string"
  cr_hmac :: hmac
  cr_enc :: claims_enc
  cr_dec :: claims_dec

record req_env =
  re_now :: instant
  re_uuid :: string
  re_random :: string
  re_gen :: bcrypt_gen
  re_io :: io_env

type_synonym 'w handler = "request \<Rightarrow> auth_info option \<Rightarrow> 'w server \<Rightarrow> api_body reply \<times> 'w server"

definition ErrCodeUnauthorized :: string where "ErrCodeUnauthorized = ''unauthorized''"
definition ErrCodeForbiddenScope :: string where "ErrCodeForbiddenScope = ''forbidden_scope''"
definition ErrCodeNotFound :: string where "ErrCodeNotFound = ''not_found''"
definition ErrCodePeerNameConflict :: string where "ErrCodePeerNameConflict = ''peer_name_conflict''"
definition ErrCodeRouteConflict :: string where "ErrCodeRouteConflict = ''route_conflict''"
definition ErrCodeTunnelNotConnected :: string where "ErrCodeTunnelNotConnected = ''tunnel_not_connected''"
definition ErrCodeIPPoolExhausted :: string where "ErrCodeIPPoolExhausted = ''ip_pool_exhausted''"
definition ErrCodeVPSUnreachable :: string where "ErrCodeVPSUnreachable = ''vps_unreachable''"
definition ErrCodeRateLimited :: string where "ErrCodeRateLimited = ''rate_limited''"
definition ErrCodeInternalError :: string where "ErrCodeInternalError = ''internal_error''"
definition ErrCodeBadRequest :: string where "ErrCodeBadRequest = ''bad_request''"

section \<open>Authentication dispatcher\<close>

definition last_index :: "char \<Rightarrow> string \<Rightarrow> nat option" where
  "last_index c s = map_option (\<lambda>i. length s - 1 - i) (first_index (\<lambda>x. x = c) (rev s))"

text \<open>\<open>net.SplitHostPort\<close>; \<open>None\<close> for each of its errors.\<close>

definition SplitHostPort :: "string \<Rightarrow> (string \<times> string) option" where
  "SplitHostPort hp =
     (case last_index (CHR '':'') hp of
        None \<Rightarrow> None
      | Some i \<Rightarrow>
          if hp ! 0 = CHR ''['' then
            (case first_index (\<lambda>x. x = CHR '']'') hp of
               None \<Rightarrow> None
             | Some e \<Rightarrow>
                 if e + 1 \<noteq> i then None
                 else if CHR ''['' \<in> set (drop 1 hp) \<or> CHR '']'' \<in> set (drop (e + 1) hp) then None
                 else Some (drop 1 (take e hp), drop (i + 1) hp))
          else
            let host = take i hp in
            if CHR '':'' \<in> set host then None
            else if CHR ''['' \<in> set hp \<or> CHR '']'' \<in> set hp then None
            else Some (host, drop (i + 1) hp))"

definition isLoopback :: "string \<Rightarrow> bool" where
  "isLoopback host \<longleftrightarrow> host = ''127.0.0.1'' \<or> host = ''::1'' \<or> host = ''localhost'' \<or> has_prefix host ''127.''"

definition unauthorized :: "'w server \<Rightarrow> api_body reply \<times> 'w server" where
  "unauthorized s = (ErrorResponse 401 ErrCodeUnauthorized, s)"

definition handlePAT :: "crypto \<Rightarrow> instant \<Rightarrow> string \<Rightarrow> 'w handler \<Rightarrow> request \<Rightarrow> 'w server \<Rightarrow> api_body reply \<times> 'w server" where
  "handlePAT cr now plainToken next r s =
     (let (res, c) = Cache_Validate (cr_cmp cr) (cr_sha cr) now plainToken (srv_disk s) (srv_cache s);
          s1 = s\<lparr>srv_cache := c\<rparr>
      in case res of
           Inl _ \<Rightarrow> unauthorized s1
         | Inr v \<Rightarrow> next r (Some \<lparr>ai_TokenID = res_TokenID v, ai_TokenName = res_TokenName v,
                                   ai_Scope = res_Scope v, ai_Source = ''pat'', ai_SessionID = []\<rparr>) s1)"

definition handleJWT :: "crypto \<Rightarrow> jwt_issuer \<Rightarrow> instant \<Rightarrow> string \<Rightarrow> 'w handler \<Rightarrow> request \<Rightarrow> 'w server \<Rightarrow> api_body reply \<times> 'w server" where
  "handleJWT cr j now tokenStr next r s =
     (case Jwt_Validate (cr_hmac cr) (cr_dec cr) j now tokenStr of
        Inl _ \<Rightarrow> unauthorized s
      | Inr claims \<Rightarrow>
          (case Store_List (srv_disk s) of
             Inl _ \<Rightarrow> unauthorized s
           | Inr tokens \<Rightarrow>
               if \<not> (\<exists>t \<in> set tokens. tok_ID t = Sub claims \<and> tok_Enabled t) then unauthorized s
               else next r (Some \<lparr>ai_TokenID = Sub claims, ai_TokenName = clm_Name claims,
                                  ai_Scope = clm_Scope claims, ai_Source = ''jwt'',
                                  ai_SessionID = Jti claims\<rparr>) s))"

definition handleTokenAuth :: "crypto \<Rightarrow> jwt_issuer \<Rightarrow> instant \<Rightarrow> 'w handler \<Rightarrow> request \<Rightarrow> 'w server \<Rightarrow> api_body reply \<times> 'w server" where
  "handleTokenAuth cr j now next r s =
     (let authHeader = r_Authorization r in
      if authHeader = [] then unauthorized s
      else
        let token = trim_prefix authHeader ''Bearer '' in
        if token = authHeader then unauthorized s
        else if has_prefix token ''unet_'' then handlePAT cr now token next r s
        else if has_prefix token ''eyJ'' then handleJWT cr j now token next r s
        else unauthorized s)"

definition localhost_info :: auth_info where
  "localhost_info = \<lparr>ai_TokenID = ''localhost'', ai_TokenName = ''localhost'', ai_Scope = ScopeAdmin,
     ai_Source = ''localhost'', ai_SessionID = []\<rparr>"

definition remote_host :: "request \<Rightarrow> string" where
  "remote_host r = (case SplitHostPort (r_RemoteAddr r) of Some (h, _) \<Rightarrow> h | None \<Rightarrow> r_RemoteAddr r)"

definition AuthDispatcher :: "crypto \<Rightarrow> jwt_issuer \<Rightarrow> instant \<Rightarrow> 'w handler \<Rightarrow> request \<Rightarrow> 'w server \<Rightarrow> api_body reply \<times> 'w server" where
  "AuthDispatcher cr j now next r s =
     (if r_XForwardedFor r \<noteq> [] then handleTokenAuth cr j now next r s
      else if isLoopback (remote_host r) then next r (Some localhost_info) s
      else handleTokenAuth cr j now next r s)"

section \<open>Middleware\<close>

definition RequireScope :: "scope \<Rightarrow> 'w handler \<Rightarrow> 'w handler" where
  "RequireScope required next r info s =
     (case info of
        None \<Rightarrow> unauthorized s
      | Some i \<Rightarrow>
          if \<not> Allows (ai_Scope i) required then (ErrorResponse 403 ErrCodeForbiddenScope, s)
          else next r info s)"

definition rl_Middleware :: "instant \<Rightarrow> 'w handler \<Rightarrow> 'w handler" where
  "rl_Middleware now next r info s =
     (case info of
        None \<Rightarrow> next r info s
      | Some i \<Rightarrow>
          if ai_TokenID i = [] \<or> ai_Source i = ''localhost'' then next r info s
          else
            let (ok, vs) = rl_allow now (ai_TokenID i) (srv_visitors s);
                s1 = s\<lparr>srv_visitors := vs\<rparr>
            in if \<not> ok then (ErrorResponse 429 ErrCodeRateLimited, s1) else next r info s1)"

definition methodToAction :: "string \<Rightarrow> string \<Rightarrow> action" where
  "methodToAction method path =
     (if contains path ''/peers'' then
        (if method = ''POST'' then ActionCreatePeer else ActionDeletePeer)
      else if contains path ''/routes'' then
        (if method = ''POST'' then ActionCreateRoute else ActionDeleteRoute)
      else if contains path ''/tokens'' then
        (if method = ''POST'' then ActionCreateToken else ActionRevokeToken)
      else [])"

definition audit_record :: "request \<Rightarrow> auth_info \<Rightarrow> audit_entry" where
  "audit_record r i = \<lparr>aud_ID = [], aud_Timestamp = [], aud_ActorTokenID = ai_TokenID i,
     aud_ActorTokenName = ai_TokenName i, aud_Action = methodToAction (r_Method r) (r_Path r),
     aud_TargetResourceID = [], aud_SourceIP = r_RemoteAddr r, aud_UserAgent = r_UserAgent r,
     aud_Metadata = None\<rparr>"

definition AuditLog :: "bool \<Rightarrow> 'w handler \<Rightarrow> 'w handler" where
  "AuditLog logger_present next r info s =
     (let (rep, s1) = next r info s in
      if \<not> logger_present then (rep, s1)
      else case info of
             None \<Rightarrow> (rep, s1)
           | Some i \<Rightarrow>
               if ai_Source i = ''localhost'' then (rep, s1)
               else if r_Method r \<noteq> ''POST'' \<and> r_Method r \<noteq> ''DELETE'' then (rep, s1)
               else if reply_status rep < 200 \<or> reply_status rep \<ge> 300 then (rep, s1)
               else (rep, s1\<lparr>srv_audit := srv_audit s1 @ [audit_record r i]\<rparr>))"

end
