(* ===== verification/Remote_Handlers.thy ===== *)
theory Remote_Handlers
  imports Remote_Api
begin

text \<open>
  The handlers of \<open>api/v1/handlers.go\<close> and \<open>api/v1/mutations.go\<close>, the routing table of
  \<open>api/remote/routes.go\<close>, and the properties of the assembled server: who can get a request past
  the dispatcher, what a scope permits, what a revocation ends, and what is audited. Paths are
  taken as already cleaned and unescaped, as \<open>net/http\<close> hands them to its pattern matcher.
\<close>

section \<open>Read handlers\<close>

definition GetPeers :: "'w peer_mutator \<Rightarrow> 'w handler" where
  "GetPeers peers r info s =
     (case pm_List peers (srv_world s) of
        Inl _ \<Rightarrow> (ErrorResponse 500 ErrCodeInternalError, s)
      | Inr l \<Rightarrow> (JSONResponse 200 (PeerListBody l), s))"

definition GetPeerByID :: "'w peer_mutator \<Rightarrow> string \<Rightarrow> 'w handler" where
  "GetPeerByID peers i r info s =
     (if i = [] then (ErrorResponse 400 ErrCodeBadRequest, s)
      else case pm_GetByID peers i (srv_world s) of
             Inl _ \<Rightarrow> (ErrorResponse 404 ErrCodeNotFound, s)
           | Inr p \<Rightarrow> (JSONResponse 200 (PeerBody p), s))"

definition GetRoutes :: "'w route_mutator \<Rightarrow> 'w handler" where
  "GetRoutes routes r info s =
     (case rm_List routes (srv_world s) of
        Inl _ \<Rightarrow> (ErrorResponse 500 ErrCodeInternalError, s)
      | Inr l \<Rightarrow> (JSONResponse 200 (RouteListBody l), s))"

definition GetTunnelStatus :: "'w tunnel_status \<Rightarrow> 'w handler" where
  "GetTunnelStatus tunnel r info s =
     (let cfg = ts_GetConfig tunnel (srv_world s);
          status0 = ts_Status tunnel (srv_world s);
          status = (if status0 = [] then ''disconnected'' else status0);
          stale = (\<not> ts_IsConnected tunnel (srv_world s) \<and> tc_LocalIP cfg \<noteq> [])
      in (JSONResponse 200 (TunnelBody status (tc_LocalIP cfg) (tc_ServerIP cfg) (tc_ServerEndpoint cfg)
            (tc_ConnectedAt cfg) stale), s))"

definition GetStatus :: "'w tunnel_status \<Rightarrow> 'w handler" where
  "GetStatus tunnel r info s =
     (let cfg = ts_GetConfig tunnel (srv_world s);
          tokens = (case Store_List (srv_disk s) of Inl _ \<Rightarrow> [] | Inr ts \<Rightarrow> ts)
      in (JSONResponse 200 (StatusBody (ts_Status tunnel (srv_world s)) (length tokens)
            (tc_LocalIP cfg) (tc_ServerIP cfg)), s))"

definition token_info_of :: "api_token \<Rightarrow> token_info" where
  "token_info_of t = \<lparr>ti_ID = tok_ID t, ti_Name = tok_Name t, ti_TokenPrefix = tok_TokenPrefix t,
     ti_Scope = tok_Scope t, ti_CreatedBy = tok_CreatedBy t, ti_CreatedAt = tok_CreatedAt t,
     ti_ExpiresAt = tok_ExpiresAt t, ti_LastUsedAt = tok_LastUsedAt t,
     ti_RequestCount = tok_RequestCount t, ti_Enabled = tok_Enabled t\<rparr>"

definition GetTokens :: "'w handler" where
  "GetTokens r info s =
     (case Store_List (srv_disk s) of
        Inl _ \<Rightarrow> (ErrorResponse 500 ErrCodeInternalError, s)
      | Inr ts \<Rightarrow> (JSONResponse 200 (TokenListBody (map token_info_of ts)), s))"

record audit_reader =
  ar_parse3339 :: "string \<Rightarrow> instant option"
  ar_parseNano :: "string \<Rightarrow> instant option"
  ar_decode :: "string \<Rightarrow> audit_entry option"
  ar_sorter :: "audit_entry list \<Rightarrow> audit_entry list"
  ar_file :: file_open

definition audit_params :: "audit_reader \<Rightarrow> (string \<Rightarrow> string) \<Rightarrow> query_params" where
  "audit_params ar q = \<lparr>q_Offset = (if q ''offset'' \<noteq> [] then Atoi_value (q ''offset'') else 0),
     q_Limit = (if q ''limit'' \<noteq> [] then Atoi_value (q ''limit'') else 50),
     q_Actor = q ''actor'', q_Action = q ''action'',
     q_From = (if q ''from'' \<noteq> [] then ar_parse3339 ar (q ''from'') else None),
     q_To = (if q ''to'' \<noteq> [] then ar_parse3339 ar (q ''to'') else None)\<rparr>"

text \<open>A panic inside the reader would be the outer \<open>None\<close>; it is answered by the server's recovery
  as a dropped connection, modelled as status 0.\<close>

definition GetAudit :: "audit_reader \<Rightarrow> 'w handler" where
  "GetAudit ar r info s =
     (let params = audit_params ar (r_Query r) in
      if q_Offset params < 0 then (ErrorResponse 400 ErrCodeBadRequest, s)
      else if q_Limit params \<le> 0 \<or> q_Limit params > 200 then (ErrorResponse 400 ErrCodeBadRequest, s)
      else case Query (ar_decode ar) (ar_parseNano ar) (ar_sorter ar) (ar_file ar) params of
             None \<Rightarrow> (ErrorResponse 0 ''panic'', s)
           | Some (Inl _) \<Rightarrow> (ErrorResponse 500 ErrCodeInternalError, s)
           | Some (Inr res) \<Rightarrow> (JSONResponse 200 (AuditBody res), s))"

definition NotFound :: "'w handler" where
  "NotFound r info s = (ErrorResponse 404 ''not_found'', s)"

section \<open>Mutating handlers\<close>

definition peer_name_char :: "char \<Rightarrow> bool" where
  "peer_name_char c \<longleftrightarrow> (let n = byte c in
     (97 \<le> n \<and> n \<le> 122) \<or> (65 \<le> n \<and> n \<le> 90) \<or> (48 \<le> n \<and> n \<le> 57) \<or> c = CHR ''_'' \<or> c = CHR ''-'')"

definition peerNameRe :: "string \<Rightarrow> bool" where
  "peerNameRe s \<longleftrightarrow> 1 \<le> length s \<and> length s \<le> 64 \<and> list_all peer_name_char s"

definition handlePeerError :: "string \<Rightarrow> api_body reply" where
  "handlePeerError msg =
     (let m = to_lower msg in
      if contains m ''conflict'' \<or> contains m ''duplicate'' then ErrorResponse 409 ErrCodePeerNameConflict
      else if contains m ''exhausted'' \<or> contains m ''ip'' then ErrorResponse 507 ErrCodeIPPoolExhausted
      else if contains m ''unreachable'' \<or> contains m ''vps'' then ErrorResponse 503 ErrCodeVPSUnreachable
      else ErrorResponse 500 ErrCodeInternalError)"

definition handleRouteError :: "string \<Rightarrow> api_body reply" where
  "handleRouteError msg =
     (let m = to_lower msg in
      if contains m ''conflict'' \<or> contains m ''duplicate'' then ErrorResponse 409 ErrCodeRouteConflict
      else if contains m ''tunnel'' \<or> contains m ''connected'' then ErrorResponse 412 ErrCodeTunnelNotConnected
      else ErrorResponse 500 ErrCodeInternalError)"

definition CreatePeer :: "'w peer_mutator \<Rightarrow> 'w handler" where
  "CreatePeer peers r info s =
     (case r_Body r of
        PeerReq name \<Rightarrow>
          if \<not> peerNameRe name then (ErrorResponse 400 ErrCodeBadRequest, s)
          else (case pm_Create peers name (srv_world s) of
                  (Inl msg, w) \<Rightarrow> (handlePeerError msg, s\<lparr>srv_world := w\<rparr>)
                | (Inr p, w) \<Rightarrow> (JSONResponse 201 (PeerBody p), s\<lparr>srv_world := w\<rparr>))
      | _ \<Rightarrow> (ErrorResponse 400 ErrCodeBadRequest, s))"

definition DeletePeer :: "'w peer_mutator \<Rightarrow> string \<Rightarrow> 'w handler" where
  "DeletePeer peers i r info s =
     (if i = [] then (ErrorResponse 400 ErrCodeBadRequest, s)
      else case pm_Delete peers i (srv_world s) of
             (Some _, w) \<Rightarrow> (ErrorResponse 404 ErrCodeNotFound, s\<lparr>srv_world := w\<rparr>)
           | (None, w) \<Rightarrow> (JSONResponse 200 (RemovedBody i), s\<lparr>srv_world := w\<rparr>))"

definition CreateRoute :: "'w route_mutator \<Rightarrow> 'w handler" where
  "CreateRoute routes r info s =
     (case r_Body r of
        RouteReq subdomain localPort \<Rightarrow>
          if subdomain = [] then (ErrorResponse 400 ErrCodeBadRequest, s)
          else if localPort < 1 \<or> localPort > 65535 then (ErrorResponse 400 ErrCodeBadRequest, s)
          else (case rm_Create routes subdomain localPort (srv_world s) of
                  (Inl msg, w) \<Rightarrow> (handleRouteError msg, s\<lparr>srv_world := w\<rparr>)
                | (Inr v, w) \<Rightarrow> (JSONResponse 201 (RouteBody v), s\<lparr>srv_world := w\<rparr>))
      | _ \<Rightarrow> (ErrorResponse 400 ErrCodeBadRequest, s))"

definition DeleteRoute :: "'w route_mutator \<Rightarrow> string \<Rightarrow> 'w handler" where
  "DeleteRoute routes i r info s =
     (if i = [] then (ErrorResponse 400 ErrCodeBadRequest, s)
      else case rm_Delete routes i (srv_world s) of
             (Some _, w) \<Rightarrow> (ErrorResponse 404 ErrCodeNotFound, s\<lparr>srv_world := w\<rparr>)
           | (None, w) \<Rightarrow> (JSONResponse 200 (RemovedBody i), s\<lparr>srv_world := w\<rparr>))"

definition CreateToken :: "req_env \<Rightarrow> 'w handler" where
  "CreateToken env r info s =
     (case r_Body r of
        TokenReq name scope expiresAt \<Rightarrow>
          if name = [] then (ErrorResponse 400 ErrCodeBadRequest, s)
          else if scope \<noteq> ScopeRead \<and> scope \<noteq> ScopeWrite \<and> scope \<noteq> ScopeAdmin
          then (ErrorResponse 400 ErrCodeBadRequest, s)
          else
            let createdBy = (case info of None \<Rightarrow> ''system''
                  | Some i \<Rightarrow> if ai_TokenID i \<noteq> ''localhost'' then ai_TokenID i else ''system'')
            in case NewAPIToken (re_gen env) (re_random env) (re_uuid env) (re_now env) name scope createdBy expiresAt of
                 Inl _ \<Rightarrow> (ErrorResponse 400 ErrCodeBadRequest, s)
               | Inr (token, plain) \<Rightarrow>
                   (case Store_Create (re_io env) token (srv_disk s) of
                      (Some e, d) \<Rightarrow>
                        (if e = ErrDuplicateName then ErrorResponse 409 ''peer_name_conflict''
                         else ErrorResponse 500 ErrCodeInternalError, s\<lparr>srv_disk := d\<rparr>)
                    | (None, d) \<Rightarrow>
                        (JSONResponse 201 (TokenCreatedBody (tok_ID token) (tok_Name token) (tok_TokenPrefix token)
                           (tok_Scope token) plain (tok_CreatedAt token)), s\<lparr>srv_disk := d\<rparr>))
      | _ \<Rightarrow> (ErrorResponse 400 ErrCodeBadRequest, s))"

definition RevokeToken :: "req_env \<Rightarrow> string \<Rightarrow> 'w handler" where
  "RevokeToken env i r info s =
     (if i = [] then (ErrorResponse 400 ErrCodeBadRequest, s)
      else case Store_GetByID i (srv_disk s) of
             Inl _ \<Rightarrow> (ErrorResponse 404 ErrCodeNotFound, s)
           | Inr token \<Rightarrow>
               (case Store_SoftDelete (re_io env) i (srv_disk s) of
                  (Some _, d) \<Rightarrow> (ErrorResponse 500 ErrCodeInternalError, s\<lparr>srv_disk := d\<rparr>)
                | (None, d) \<Rightarrow>
                    (JSONResponse 200 (RevokedBody i),
                     s\<lparr>srv_disk := d, srv_cache := Cache_Invalidate (tok_TokenPrefix token) (srv_cache s)\<rparr>)))"

definition CreateSession :: "crypto \<Rightarrow> jwt_issuer \<Rightarrow> req_env \<Rightarrow> 'w handler" where
  "CreateSession cr j env r info s =
     (case info of
        None \<Rightarrow> unauthorized s
      | Some i \<Rightarrow>
          if ai_Source i = ''jwt'' then unauthorized s
          else case Issue (cr_hmac cr) (cr_enc cr) j (re_now env) (re_uuid env) (ai_TokenID i) (ai_TokenName i) (ai_Scope i) of
                 Inl _ \<Rightarrow> (ErrorResponse 500 ErrCodeInternalError, s)
               | Inr token \<Rightarrow> (JSONResponse 200 (SessionBody token (issuer_ttl j div second) (ai_Scope i)), s))"

definition updateTokenUsage :: "io_env \<Rightarrow> instant \<Rightarrow> string \<Rightarrow> token_disk \<Rightarrow> token_disk" where
  "updateTokenUsage io now tokenID d =
     (case Store_GetByID tokenID d of
        Inl _ \<Rightarrow> d
      | Inr token \<Rightarrow>
          snd (Store_Update io (token\<lparr>tok_LastUsedAt := Some now, tok_RequestCount := int64 (tok_RequestCount token + 1)\<rparr>) d))"

section \<open>Routing\<close>

record 'w api_deps =
  dep_Peers :: "'w peer_mutator"
  dep_Routes :: "'w route_mutator"
  dep_Tunnel :: "'w tunnel_status"
  dep_Crypto :: crypto
  dep_Issuer :: jwt_issuer
  dep_Audit :: audit_reader
  dep_AuditLog :: bool

datatype endpoint = GetStatusE | GetPeersE | GetPeerE string | CreatePeerE | DeletePeerE string
  | GetRoutesE | CreateRouteE | DeleteRouteE string | TunnelStatusE | GetTokensE | CreateTokenE
  | RevokeTokenE string | GetAuditE | CreateSessionE | NotFoundE

definition match_pattern :: "string \<Rightarrow> string \<Rightarrow> endpoint" where
  "match_pattern method path =
     (let parts = split_on (CHR ''/'') path;
          get = (method = ''GET'' \<or> method = ''HEAD'')
      in if get \<and> parts = [[], ''v1'', ''status''] then GetStatusE
         else if get \<and> parts = [[], ''v1'', ''peers''] then GetPeersE
         else if method = ''POST'' \<and> parts = [[], ''v1'', ''peers''] then CreatePeerE
         else if get \<and> length parts = 4 \<and> take 3 parts = [[], ''v1'', ''peers''] \<and> parts ! 3 \<noteq> [] then GetPeerE (parts ! 3)
         else if method = ''DELETE'' \<and> length parts = 4 \<and> take 3 parts = [[], ''v1'', ''peers''] \<and> parts ! 3 \<noteq> [] then DeletePeerE (parts ! 3)
         else if get \<and> parts = [[], ''v1'', ''routes''] then GetRoutesE
         else if method = ''POST'' \<and> parts = [[], ''v1'', ''routes''] then CreateRouteE
         else if method = ''DELETE'' \<and> length parts = 4 \<and> take 3 parts = [[], ''v1'', ''routes''] \<and> parts ! 3 \<noteq> [] then DeleteRouteE (parts ! 3)
         else if get \<and> parts = [[], ''v1'', ''tunnel'', ''status''] then TunnelStatusE
         else if get \<and> parts = [[], ''v1'', ''tokens''] then GetTokensE
         else if method = ''POST'' \<and> parts = [[], ''v1'', ''tokens''] then CreateTokenE
         else if method = ''DELETE'' \<and> length parts = 4 \<and> take 3 parts = [[], ''v1'', ''tokens''] \<and> parts ! 3 \<noteq> [] then RevokeTokenE (parts ! 3)
         else if get \<and> parts = [[], ''v1'', ''audit''] then GetAuditE
         else if method = ''POST'' \<and> parts = [[], ''v1'', ''auth'', ''session''] then CreateSessionE
         else NotFoundE)"

definition wrap :: "'w api_deps \<Rightarrow> instant \<Rightarrow> scope \<Rightarrow> 'w handler \<Rightarrow> 'w handler" where
  "wrap deps now scope h = RequireScope scope (rl_Middleware now (AuditLog (dep_AuditLog deps) h))"

definition mux :: "'w api_deps \<Rightarrow> req_env \<Rightarrow> 'w handler" where
  "mux deps env r info s =
     (let w = (\<lambda>sc h. wrap deps (re_now env) sc h r info s) in
      case match_pattern (r_Method r) (r_Path r) of
        GetStatusE \<Rightarrow> w ScopeRead (GetStatus (dep_Tunnel deps))
      | GetPeersE \<Rightarrow> w ScopeRead (GetPeers (dep_Peers deps))
      | GetPeerE i \<Rightarrow> w ScopeRead (GetPeerByID (dep_Peers deps) i)
      | CreatePeerE \<Rightarrow> w ScopeWrite (CreatePeer (dep_Peers deps))
      | DeletePeerE i \<Rightarrow> w ScopeWrite (DeletePeer (dep_Peers deps) i)
      | GetRoutesE \<Rightarrow> w ScopeRead (GetRoutes (dep_Routes deps))
      | CreateRouteE \<Rightarrow> w ScopeWrite (CreateRoute (dep_Routes deps))
      | DeleteRouteE i \<Rightarrow> w ScopeWrite (DeleteRoute (dep_Routes deps) i)
      | TunnelStatusE \<Rightarrow> w ScopeRead (GetTunnelStatus (dep_Tunnel deps))
      | GetTokensE \<Rightarrow> w ScopeAdmin GetTokens
      | CreateTokenE \<Rightarrow> w ScopeAdmin (CreateToken env)
      | RevokeTokenE i \<Rightarrow> w ScopeAdmin (RevokeToken env i)
      | GetAuditE \<Rightarrow> w ScopeAdmin (GetAudit (dep_Audit deps))
      | CreateSessionE \<Rightarrow> w ScopeRead (CreateSession (dep_Crypto deps) (dep_Issuer deps) env)
      | NotFoundE \<Rightarrow> NotFound r info s)"

definition RegisterRoutes :: "'w api_deps \<Rightarrow> req_env \<Rightarrow> request \<Rightarrow> 'w server \<Rightarrow> api_body reply \<times> 'w server" where
  "RegisterRoutes deps env r s =
     AuthDispatcher (dep_Crypto deps) (dep_Issuer deps) (re_now env) (mux deps env) r s"

end
