(* ===== verification/Remote_Security.thy ===== *)
theory Remote_Security
  imports Remote_Handlers
begin

text \<open>
  Properties of the assembled remote API: the dispatcher lets through only authenticated requests,
  the routing table applies the right scope before any state changes, and exactly the successful
  mutations of remote clients are audited. A handler is applied here as one step; what overlapping
  requests do to authentication and revocation is in \<open>Auth_Runs\<close>.
\<close>

section \<open>The server invariant\<close>

definition server_ok :: "crypto \<Rightarrow> string set \<Rightarrow> 'w server \<Rightarrow> bool" where
  "server_ok cr P s \<longleftrightarrow> store_wf (srv_disk s) \<and> 0 < cache_ttl (srv_cache s)
     \<and> (\<exists>ts. Store_load (srv_disk s) = Inr ts \<and> cache_ok (cr_cmp cr) (cr_sha cr) P ts (srv_cache s))"

definition presented :: "request \<Rightarrow> string" where
  "presented r = trim_prefix (r_Authorization r) ''Bearer ''"

text \<open>The three ways in: a loopback peer without a forwarding header, a personal access token that
  the cache vouches for, and an unexpired session token of an enabled API token.\<close>

definition pat_authentic :: "crypto \<Rightarrow> instant \<Rightarrow> request \<Rightarrow> 'w server \<Rightarrow> auth_info \<Rightarrow> bool" where
  "pat_authentic cr now r s i \<longleftrightarrow> ai_Source i = ''pat'' \<and> has_prefix (r_Authorization r) ''Bearer unet_''
     \<and> (\<exists>ts v. Store_load (srv_disk s) = Inr ts
          \<and> vouched (cr_cmp cr) (cache_ttl (srv_cache s)) now (presented r) ts v
          \<and> ai_TokenID i = res_TokenID v \<and> ai_TokenName i = res_TokenName v \<and> ai_Scope i = res_Scope v)"

definition jwt_authentic :: "crypto \<Rightarrow> jwt_issuer \<Rightarrow> instant \<Rightarrow> request \<Rightarrow> 'w server \<Rightarrow> auth_info \<Rightarrow> bool" where
  "jwt_authentic cr j now r s i \<longleftrightarrow> ai_Source i = ''jwt'' \<and> has_prefix (r_Authorization r) ''Bearer ''
     \<and> (\<exists>ts claims. Store_load (srv_disk s) = Inr ts
          \<and> Jwt_Validate (cr_hmac cr) (cr_dec cr) j now (presented r) = Inr claims
          \<and> (\<exists>t \<in> set ts. tok_ID t = Sub claims \<and> tok_Enabled t)
          \<and> ai_TokenID i = Sub claims \<and> ai_Scope i = clm_Scope claims)"

definition authentic :: "crypto \<Rightarrow> jwt_issuer \<Rightarrow> instant \<Rightarrow> request \<Rightarrow> 'w server \<Rightarrow> auth_info \<Rightarrow> bool" where
  "authentic cr j now r s i \<longleftrightarrow>
     i = localhost_info \<and> r_XForwardedFor r = [] \<and> isLoopback (remote_host r)
     \<or> pat_authentic cr now r s i \<or> jwt_authentic cr j now r s i"

text \<open>The two outcomes of the dispatcher: the request reaches the next handler with authentic
  information, or it is answered 401; the server differs at most in the cache.\<close>

definition dispatched ::
  "crypto \<Rightarrow> jwt_issuer \<Rightarrow> instant \<Rightarrow> string set \<Rightarrow> 'w handler \<Rightarrow> request \<Rightarrow> 'w server \<Rightarrow> api_body reply \<times> 'w server \<Rightarrow> bool" where
  "dispatched cr j now P next r s out \<longleftrightarrow>
     (\<exists>c. server_ok cr P (s\<lparr>srv_cache := c\<rparr>) \<and> cache_ttl c = cache_ttl (srv_cache s) \<and>
        ((\<exists>i. authentic cr j now r s i \<and> out = next r (Some i) (s\<lparr>srv_cache := c\<rparr>))
         \<or> out = (ErrorResponse 401 ErrCodeUnauthorized, s\<lparr>srv_cache := c\<rparr>)))"

lemma dispatched_unauthorized: "server_ok cr P s \<Longrightarrow> dispatched cr j now P next r s (unauthorized s)"
  unfolding dispatched_def unauthorized_def by (rule exI [of _ "srv_cache s"]) simp

lemma dispatched_next:
  "server_ok cr P s \<Longrightarrow> authentic cr j now r s i \<Longrightarrow> dispatched cr j now P next r s (next r (Some i) s)"
  unfolding dispatched_def by (rule exI [of _ "srv_cache s"]) auto

lemma bearer_prefix:
  assumes "trim_prefix h ''Bearer '' \<noteq> h"
  shows "has_prefix h ''Bearer ''" and "h = ''Bearer '' @ trim_prefix h ''Bearer ''"
proof -
  show p: "has_prefix h ''Bearer ''" using assms by (metis trim_prefix_def)
  then obtain t where "h = ''Bearer '' @ t" by (auto simp: has_prefix_iff)
  then show "h = ''Bearer '' @ trim_prefix h ''Bearer ''" by (simp only: trim_prefix_append)
qed

lemma handlePAT_dispatched:
  assumes ok: "server_ok cr P s" and inj: "inj_on (cr_sha cr) P" and P: "presented r \<in> P"
    and pre: "has_prefix (r_Authorization r) ''Bearer unet_''"
  shows "dispatched cr j now P next r s (handlePAT cr now (presented r) next r s)"
proof -
  obtain res c where v: "Cache_Validate (cr_cmp cr) (cr_sha cr) now (presented r) (srv_disk s) (srv_cache s) = (res, c)"
    by fastforce
  from ok obtain ts where ts: "Store_load (srv_disk s) = Inr ts"
      "cache_ok (cr_cmp cr) (cr_sha cr) P ts (srv_cache s)" "0 < cache_ttl (srv_cache s)" "store_wf (srv_disk s)"
    unfolding server_ok_def by blast
  have w: "validate_with (cr_cmp cr) (cr_sha cr) now (presented r) (Inr ts) (srv_cache s) = (res, c)"
    using v ts(1) by (simp add: Cache_Validate_def Store_List_def)
  have c: "cache_ok (cr_cmp cr) (cr_sha cr) P ts c" "cache_ttl c = cache_ttl (srv_cache s)"
    using validate_with_ok [OF ts(2) P, of now] w cache_ttl_validate [of "cr_cmp cr" "cr_sha cr" now "presented r" "Inr ts" "srv_cache s"]
    by simp_all
  have ok': "server_ok cr P (s\<lparr>srv_cache := c\<rparr>)" using ts c by (simp add: server_ok_def)
  show ?thesis
  proof (cases res)
    case (Inl e)
    then show ?thesis using v ok' c(2)
      by (auto simp: dispatched_def handlePAT_def unauthorized_def)
  next
    case (Inr u)
    have "vouched (cr_cmp cr) (cache_ttl (srv_cache s)) now (presented r) ts u"
      using validate_with_vouched [OF ts(2) inj P ts(3)] w Inr by simp
    then have "authentic cr j now r s \<lparr>ai_TokenID = res_TokenID u, ai_TokenName = res_TokenName u,
        ai_Scope = res_Scope u, ai_Source = ''pat'', ai_SessionID = []\<rparr>"
      using pre ts(1) by (auto simp: authentic_def pat_authentic_def)
    then show ?thesis using v ok' c(2) Inr
      by (auto simp: dispatched_def handlePAT_def)
  qed
qed

lemma handleJWT_dispatched:
  assumes ok: "server_ok cr P s" and pre: "has_prefix (r_Authorization r) ''Bearer ''"
  shows "dispatched cr j now P next r s (handleJWT cr j now (presented r) next r s)"
proof (cases "Jwt_Validate (cr_hmac cr) (cr_dec cr) j now (presented r)")
  case (Inl e)
  then show ?thesis using dispatched_unauthorized [OF ok] by (simp add: handleJWT_def)
next
  case (Inr claims)
  obtain ts where ts: "Store_load (srv_disk s) = Inr ts" using ok unfolding server_ok_def by blast
  let ?i = "\<lparr>ai_TokenID = Sub claims, ai_TokenName = clm_Name claims, ai_Scope = clm_Scope claims,
    ai_Source = ''jwt'', ai_SessionID = Jti claims\<rparr>"
  show ?thesis
  proof (cases "\<exists>t \<in> set ts. tok_ID t = Sub claims \<and> tok_Enabled t")
    case True
    then have "authentic cr j now r s ?i"
      using Inr ts pre by (auto simp: authentic_def jwt_authentic_def)
    then show ?thesis using dispatched_next [OF ok] Inr ts True
      by (simp add: handleJWT_def Store_List_def)
  next
    case False
    then show ?thesis using dispatched_unauthorized [OF ok] Inr ts
      by (auto simp: handleJWT_def Store_List_def)
  qed
qed

lemma handleTokenAuth_dispatched:
  assumes "server_ok cr P s" and "inj_on (cr_sha cr) P" and "presented r \<in> P"
  shows "dispatched cr j now P next r s (handleTokenAuth cr j now next r s)"
proof (cases "r_Authorization r = [] \<or> presented r = r_Authorization r")
  case True
  then show ?thesis using dispatched_unauthorized [OF assms(1)]
    by (auto simp: handleTokenAuth_def presented_def Let_def)
next
  case False
  note b = bearer_prefix [of "r_Authorization r", folded presented_def]
  have pre: "has_prefix (r_Authorization r) ''Bearer ''" using b(1) False by blast
  have pat: "has_prefix (r_Authorization r) ''Bearer unet_''" if u: "has_prefix (presented r) ''unet_''"
  proof -
    obtain t where "presented r = ''unet_'' @ t" using u by (auto simp: has_prefix_iff)
    then have "r_Authorization r = ''Bearer unet_'' @ t" using b(2) False by simp
    then show ?thesis by (metis has_prefix_append)
  qed
  have *: "handleTokenAuth cr j now next r s =
      (if has_prefix (presented r) ''unet_'' then handlePAT cr now (presented r) next r s
       else if has_prefix (presented r) ''eyJ'' then handleJWT cr j now (presented r) next r s
       else unauthorized s)"
    using False by (simp add: handleTokenAuth_def presented_def Let_def)
  show ?thesis unfolding *
    using handlePAT_dispatched [OF assms pat] handleJWT_dispatched [OF assms(1) pre]
      dispatched_unauthorized [OF assms(1)] by simp
qed

lemma AuthDispatcher_dispatched:
  assumes "server_ok cr P s" and "inj_on (cr_sha cr) P" and "presented r \<in> P"
  shows "dispatched cr j now P next r s (AuthDispatcher cr j now next r s)"
proof (cases "r_XForwardedFor r = [] \<and> isLoopback (remote_host r)")
  case True
  then have "authentic cr j now r s localhost_info" by (simp add: authentic_def)
  then show ?thesis using True dispatched_next [OF assms(1)] by (simp add: AuthDispatcher_def)
next
  case False
  then show ?thesis using handleTokenAuth_dispatched [OF assms] by (auto simp: AuthDispatcher_def)
qed


definition session_claims :: jwt_claims where
  "session_claims = issued_claims sample_issuer 0 ''u'' ''localhost'' ''localhost'' ScopeAdmin"

definition sample_crypto :: crypto where
  "sample_crypto = \<lparr>cr_cmp = (\<lambda>h p. p = ''unet_abcXYZ''), cr_sha = id, cr_hmac = (@),
     cr_enc = (\<lambda>c. if c = session_claims then Some ''{}'' else None),
     cr_dec = (\<lambda>p. if p = ''{}'' then Some session_claims else None)\<rparr>"

definition sample_server :: "unit server" where
  "sample_server = \<lparr>srv_disk = sample_disk, srv_cache = NewTokenCache 0, srv_visitors = [], srv_audit = [],
     srv_world = ()\<rparr>"

definition sample_request :: request where
  "sample_request = \<lparr>r_Method = ''DELETE'', r_Path = ''/v1/tokens/1'', r_RemoteAddr = ''10.0.0.9:5000'',
     r_XForwardedFor = [], r_Authorization = ''Bearer unet_abcXYZ'', r_UserAgent = ''curl'', r_Body = BadBody,
     r_Query = (\<lambda>_. [])\<rparr>"

definition sample_env :: req_env where
  "sample_env = \<lparr>re_now = 7, re_uuid = ''u'', re_random = [], re_gen = (\<lambda>_. None), re_io = io_all_ok\<rparr>"

definition sample_deps :: "unit api_deps" where
  "sample_deps =
     \<lparr>dep_Peers = \<lparr>pm_List = (\<lambda>_. Inr []), pm_GetByID = (\<lambda>_ _. Inl []), pm_Create = (\<lambda>_ w. (Inl [], w)),
        pm_Delete = (\<lambda>_ w. (None, w))\<rparr>,
      dep_Routes = \<lparr>rm_List = (\<lambda>_. Inr []), rm_Create = (\<lambda>_ _ w. (Inl [], w)), rm_Delete = (\<lambda>_ w. (None, w))\<rparr>,
      dep_Tunnel = \<lparr>ts_Status = (\<lambda>_. []), ts_IsConnected = (\<lambda>_. False),
        ts_GetConfig = (\<lambda>_. \<lparr>tc_LocalIP = [], tc_ServerIP = [], tc_ServerEndpoint = [], tc_Status = [], tc_ConnectedAt = []\<rparr>)\<rparr>,
      dep_Crypto = sample_crypto, dep_Issuer = sample_issuer,
      dep_Audit = \<lparr>ar_parse3339 = (\<lambda>_. None), ar_parseNano = (\<lambda>_. None), ar_decode = (\<lambda>_. None), ar_sorter = id, ar_file = Missing\<rparr>,
      dep_AuditLog = True\<rparr>"

lemma sample_server_ok: "server_ok sample_crypto P sample_server"
proof -
  have "cache_ok (cr_cmp sample_crypto) (cr_sha sample_crypto) P [sample_token ''1'' ''ci''] (NewTokenCache 0)"
    by (rule NewTokenCache_ok)
  then show ?thesis
    by (simp add: server_ok_def sample_server_def sample_disk_def store_wf_def Store_load_def
        NewTokenCache_def minute_def second_def)
qed

lemma sample_inj: "inj_on (cr_sha sample_crypto) P"
  by (simp add: sample_crypto_def)


section \<open>Scopes guard every change\<close>

text \<open>What the middleware chain does with a handler: it stops the request with an error and
  changes at most the limiter's table, or runs the handler once and appends at most one audit
  entry.\<close>

lemma AuditLog_cases:
  "AuditLog lg h r info s = (rep, s') \<Longrightarrow>
     \<exists>s1. h r info s = (rep, s1) \<and> s' = s1\<lparr>srv_audit := srv_audit s'\<rparr>"
  by (cases "h r info s") (auto simp: AuditLog_def split: option.splits if_splits)

lemma rl_Middleware_cases:
  "rl_Middleware now h r info s = (rep, s') \<Longrightarrow>
     (\<exists>vs. rep = ErrorResponse 429 ErrCodeRateLimited \<and> s' = s\<lparr>srv_visitors := vs\<rparr>)
     \<or> (\<exists>vs. h r info (s\<lparr>srv_visitors := vs\<rparr>) = (rep, s'))"
  by (auto simp: rl_Middleware_def Let_def split: option.splits if_splits prod.splits
      intro: exI [of _ "srv_visitors s"])

lemma wrap_cases:
  assumes "wrap deps now sc h r info s = (rep, s')"
  obtains (stopped) vs where "s' = s\<lparr>srv_visitors := vs\<rparr>" "reply_status rep \<in> {401, 403, 429}"
  | (ran) i vs s1 where "info = Some i" "Allows (ai_Scope i) sc"
      "h r info (s\<lparr>srv_visitors := vs\<rparr>) = (rep, s1)" "s' = s1\<lparr>srv_audit := srv_audit s'\<rparr>"
proof (cases info)
  case None
  then have "s' = s\<lparr>srv_visitors := srv_visitors s\<rparr>" "reply_status rep \<in> {401, 403, 429}"
    using assms by (auto simp: wrap_def RequireScope_def unauthorized_def)
  then show ?thesis by (rule stopped)
next
  case (Some i)
  show ?thesis
  proof (cases "Allows (ai_Scope i) sc")
    case False
    then have "s' = s\<lparr>srv_visitors := srv_visitors s\<rparr>" "reply_status rep \<in> {401, 403, 429}"
      using assms Some by (auto simp: wrap_def RequireScope_def)
    then show ?thesis by (rule stopped)
  next
    case True
    then have "rl_Middleware now (AuditLog (dep_AuditLog deps) h) r info s = (rep, s')"
      using assms Some by (simp add: wrap_def RequireScope_def)
    from rl_Middleware_cases [OF this] show ?thesis
    proof (elim disjE exE)
      fix vs
      assume "rep = ErrorResponse 429 ErrCodeRateLimited \<and> s' = s\<lparr>srv_visitors := vs\<rparr>"
      then show ?thesis by (intro stopped [of vs]) auto
    next
      fix vs
      assume "AuditLog (dep_AuditLog deps) h r info (s\<lparr>srv_visitors := vs\<rparr>) = (rep, s')"
      from AuditLog_cases [OF this] show ?thesis using ran [OF Some True] by blast
    qed
  qed
qed

lemma read_handlers [simp]:
  "snd (GetPeers p r info s) = s" "snd (GetPeerByID p i r info s) = s" "snd (GetRoutes q r info s) = s"
  "snd (GetTunnelStatus t r info s) = s" "snd (GetStatus t r info s) = s" "snd (GetTokens r info s) = s"
  "snd (GetAudit ar r info s) = s" "snd (CreateSession cr j env r info s) = s" "snd (NotFound r info s) = s"
  by (auto simp: GetPeers_def GetPeerByID_def GetRoutes_def GetTunnelStatus_def GetStatus_def GetTokens_def
      GetAudit_def CreateSession_def NotFound_def unauthorized_def Let_def split: sum.splits option.splits)

lemma world_handlers [simp]:
  "srv_disk (snd (CreatePeer p r info s)) = srv_disk s" "srv_disk (snd (DeletePeer p i r info s)) = srv_disk s"
  "srv_disk (snd (CreateRoute q r info s)) = srv_disk s" "srv_disk (snd (DeleteRoute q i r info s)) = srv_disk s"
  by (auto simp: CreatePeer_def DeletePeer_def CreateRoute_def DeleteRoute_def
      split: req_body.splits sum.splits prod.splits option.splits)

lemma token_handlers [simp]:
  "srv_world (snd (CreateToken env r info s)) = srv_world s"
  "srv_world (snd (RevokeToken env i r info s)) = srv_world s"
  by (auto simp: CreateToken_def RevokeToken_def Let_def
      split: req_body.splits sum.splits prod.splits option.splits)

text \<open>Running a handler behind the chain changes a part of the state only if the handler does, and
  then under its scope.\<close>

lemma wrap_changes:
  assumes "snd (wrap deps now sc h r info s) = s'"
    and "\<And>s. f (snd (h r info s)) = f s"
    and "\<And>s vs. f (s\<lparr>srv_visitors := vs\<rparr>) = f s" and "\<And>s au. f (s\<lparr>srv_audit := au\<rparr>) = f s"
  shows "f s' = f s"
proof (cases "wrap deps now sc h r info s")
  case (Pair rep s2)
  then have "wrap deps now sc h r info s = (rep, s')" using assms(1) by simp
  then show ?thesis
  proof (cases rule: wrap_cases)
    case (ran i vs s1)
    have "f s1 = f s" using assms(2) [of "s\<lparr>srv_visitors := vs\<rparr>"] ran(3) assms(3) by simp
    then show ?thesis using ran(4) assms(4) by metis
  qed (simp add: assms(3))
qed

lemma wrap_requires:
  assumes "snd (wrap deps now sc h r info s) = s'" and "f s' \<noteq> f s"
    and "\<And>s vs. f (s\<lparr>srv_visitors := vs\<rparr>) = f s"
  shows "\<exists>i. info = Some i \<and> Allows (ai_Scope i) sc"
proof (cases "wrap deps now sc h r info s")
  case (Pair rep s2)
  then have "wrap deps now sc h r info s = (rep, s')" using assms(1) by simp
  then show ?thesis by (cases rule: wrap_cases) (use assms(2,3) in auto)
qed

lemmas mux_frames = wrap_changes [where f = srv_world] wrap_changes [where f = srv_disk]

lemma Allows_AdminD: "Allows s ScopeAdmin \<Longrightarrow> Allows s ScopeWrite"
  by (auto simp: Allows_def scope_defs split: if_splits)

lemma mux_disk_admin:
  assumes "srv_disk (snd (mux deps env r info s)) \<noteq> srv_disk s"
  shows "\<exists>i. info = Some i \<and> Allows (ai_Scope i) ScopeAdmin"
proof (rule ccontr)
  assume no: "\<not> ?thesis"
  have "srv_disk (snd (wrap deps (re_now env) ScopeAdmin h r info s)) = srv_disk s" for h
    using wrap_requires [OF refl, where f = srv_disk] no by fastforce
  moreover have "srv_disk (snd (wrap deps (re_now env) sc h r info s)) = srv_disk s"
    if "\<And>s. srv_disk (snd (h r info s)) = srv_disk s" for sc h
    by (rule mux_frames(2) [OF refl]) (simp_all add: that)
  ultimately have "srv_disk (snd (mux deps env r info s)) = srv_disk s"
    by (auto simp: mux_def Let_def split: endpoint.splits)
  then show False using assms by simp
qed

lemma mux_world_write:
  assumes "srv_world (snd (mux deps env r info s)) \<noteq> srv_world s"
  shows "\<exists>i. info = Some i \<and> Allows (ai_Scope i) ScopeWrite"
proof (rule ccontr)
  assume no: "\<not> ?thesis"
  have "srv_world (snd (wrap deps (re_now env) ScopeWrite h r info s)) = srv_world s" for h
    using wrap_requires [OF refl, where f = srv_world] no by fastforce
  moreover have "srv_world (snd (wrap deps (re_now env) sc h r info s)) = srv_world s"
    if "\<And>s. srv_world (snd (h r info s)) = srv_world s" for sc h
    by (rule mux_frames(1) [OF refl]) (simp_all add: that)
  ultimately have "srv_world (snd (mux deps env r info s)) = srv_world s"
    by (auto simp: mux_def Let_def split: endpoint.splits)
  then show False using assms by simp
qed


definition local_request :: request where
  "local_request = sample_request\<lparr>r_RemoteAddr := ''127.0.0.1:5000''\<rparr>"

lemma local_request_revokes:
  "srv_disk (snd (RegisterRoutes sample_deps sample_env local_request sample_server)) \<noteq> srv_disk sample_server"
  by code_simp


section \<open>The invariant is kept by every request\<close>

definition token_ids :: "'w server \<Rightarrow> string set" where
  "token_ids s = (case Store_load (srv_disk s) of Inl _ \<Rightarrow> {} | Inr ts \<Rightarrow> tok_ID ` set ts)"

text \<open>An identifier whose token is in the store and disabled.\<close>

definition disabled_in :: "string \<Rightarrow> 'w server \<Rightarrow> bool" where
  "disabled_in i s = (case Store_load (srv_disk s) of Inl _ \<Rightarrow> False
     | Inr ts \<Rightarrow> i \<in> tok_ID ` set ts \<and> (\<forall>t \<in> set ts. tok_ID t = i \<longrightarrow> \<not> tok_Enabled t))"

lemma server_ok_frame [simp]:
  "server_ok cr P (s\<lparr>srv_visitors := vs\<rparr>) = server_ok cr P s"
  "server_ok cr P (s\<lparr>srv_audit := au\<rparr>) = server_ok cr P s"
  "server_ok cr P (s\<lparr>srv_world := w\<rparr>) = server_ok cr P s"
  by (simp_all add: server_ok_def)

lemma token_ids_frame [simp]:
  "token_ids (s\<lparr>srv_visitors := vs\<rparr>) = token_ids s"
  by (simp add: token_ids_def)

lemma disabled_in_frame [simp]:
  "disabled_in i (s\<lparr>srv_visitors := vs\<rparr>) = disabled_in i s"
  "disabled_in i (s\<lparr>srv_audit := au\<rparr>) = disabled_in i s"
  "disabled_in i (s\<lparr>srv_world := w\<rparr>) = disabled_in i s"
  "disabled_in i (s\<lparr>srv_cache := c\<rparr>) = disabled_in i s"
  by (simp_all add: disabled_in_def)

definition keeps :: "crypto \<Rightarrow> string set \<Rightarrow> string \<Rightarrow> 'w server \<Rightarrow> 'w server \<Rightarrow> bool" where
  "keeps cr P i s s' \<longleftrightarrow> server_ok cr P s' \<and> (disabled_in i s \<longrightarrow> disabled_in i s')"

lemma server_ok_same_load:
  assumes "server_ok cr P s" and "Store_load d = Store_load (srv_disk s)"
  shows "keeps cr P i s (s\<lparr>srv_disk := d\<rparr>)"
  using assms by (simp add: keeps_def server_ok_def store_wf_def disabled_in_def)

lemma CreateToken_cases:
  "snd (CreateToken env r info s) = s \<or>
   (\<exists>token. tok_ID token = re_uuid env
      \<and> snd (CreateToken env r info s) = s\<lparr>srv_disk := snd (Store_Create (re_io env) token (srv_disk s))\<rparr>)"
proof (cases "r_Body r")
  case (TokenReq name scope exp)
  define who where "who = (case info of None \<Rightarrow> ''system''
      | Some i \<Rightarrow> if ai_TokenID i \<noteq> ''localhost'' then ai_TokenID i else ''system'')"
  show ?thesis
  proof (cases "NewAPIToken (re_gen env) (re_random env) (re_uuid env) (re_now env) name scope who exp")
    case (Inl e)
    then show ?thesis using TokenReq by (simp add: CreateToken_def who_def Let_def)
  next
    case (Inr tp)
    obtain token plain where tp: "tp = (token, plain)" by (cases tp)
    have "tok_ID token = re_uuid env" using NewAPIToken_ok(5) Inr tp by blast
    moreover have "snd (CreateToken env r info s) \<in>
        {s, s\<lparr>srv_disk := snd (Store_Create (re_io env) token (srv_disk s))\<rparr>}"
      using Inr tp TokenReq by (simp add: CreateToken_def who_def Let_def split: prod.splits option.splits)
    ultimately show ?thesis by blast
  qed
qed (simp_all add: CreateToken_def)

lemma Store_GetByID_InrD: "Store_GetByID i d = Inr t \<Longrightarrow> Store_load d = Inr ts \<Longrightarrow> t \<in> set ts \<and> tok_ID t = i"
  by (auto simp: Store_GetByID_def split: option.splits dest: find_Some_in)

lemma CreateToken_keeps:
  assumes ok: "server_ok cr P s" and fresh: "re_uuid env \<notin> token_ids s"
  shows "keeps cr P i s (snd (CreateToken env r info s))"
proof (cases "snd (CreateToken env r info s) = s")
  case False
  then obtain token e d where t: "snd (CreateToken env r info s) = s\<lparr>srv_disk := d\<rparr>" "tok_ID token = re_uuid env"
      "Store_Create (re_io env) token (srv_disk s) = (e, d)" using CreateToken_cases by (metis prod.collapse)
  obtain ts where ts: "Store_load (srv_disk s) = Inr ts" "cache_ok (cr_cmp cr) (cr_sha cr) P ts (srv_cache s)"
      "store_wf (srv_disk s)" using ok unfolding server_ok_def by blast
  have f: "tok_ID token \<notin> tok_ID ` set ts" using fresh t(2) ts(1) by (simp add: token_ids_def)
  show ?thesis
  proof (cases e)
    case None
    then have l: "Store_load d = Inr (ts @ [token])" using Store_Create_ok [OF ts(1)] t(3) by simp
    have "store_wf d" using Create_refines [OF ts(1,3) f t(3)] by (simp add: refines_spec_def)
    moreover have "cache_ok (cr_cmp cr) (cr_sha cr) P (ts @ [token]) (srv_cache s)"
      using ts(2) by (rule cache_ok_mono) simp
    ultimately show ?thesis using ok l ts(1) f
      by (auto simp: t(1) keeps_def server_ok_def disabled_in_def)
  next
    case (Some x)
    then show ?thesis using server_ok_same_load [OF ok] Store_Create_err t(1,3) by metis
  qed
next
  case True
  then show ?thesis using ok by (simp add: keeps_def)
qed

lemma RevokeToken_keeps:
  assumes ok: "server_ok cr P s"
  shows "keeps cr P i s (snd (RevokeToken env k r info s))"
proof -
  obtain ts where ts: "Store_load (srv_disk s) = Inr ts" "cache_ok (cr_cmp cr) (cr_sha cr) P ts (srv_cache s)"
      "store_wf (srv_disk s)" "0 < cache_ttl (srv_cache s)" using ok unfolding server_ok_def by blast
  obtain e d where del: "Store_SoftDelete (re_io env) k (srv_disk s) = (e, d)" by fastforce
  consider (stop) "snd (RevokeToken env k r info s) = s"
    | (fail) x where "e = Some x" "snd (RevokeToken env k r info s) = s\<lparr>srv_disk := d\<rparr>"
    | (gone) t where "e = None" "t \<in> set ts" "tok_ID t = k"
        "snd (RevokeToken env k r info s)
           = s\<lparr>srv_disk := d, srv_cache := Cache_Invalidate (tok_TokenPrefix t) (srv_cache s)\<rparr>"
  proof (cases "k = [] \<or> (\<exists>x. Store_GetByID k (srv_disk s) = Inl x)")
    case True
    then show ?thesis using stop by (auto simp: RevokeToken_def)
  next
    case False
    then obtain t where g: "k \<noteq> []" "Store_GetByID k (srv_disk s) = Inr t"
      by (metis sum.exhaust)
    note t = Store_GetByID_InrD [OF g(2) ts(1)]
    show ?thesis
    proof (cases e)
      case None
      then show ?thesis using gone [of t] t g del by (simp add: RevokeToken_def)
    next
      case (Some x)
      then show ?thesis using fail [of x] g del by (simp add: RevokeToken_def)
    qed
  qed
  then show ?thesis
  proof cases
    case stop
    then show ?thesis using ok by (simp add: keeps_def)
  next
    case fail
    then show ?thesis using server_ok_same_load [OF ok] Store_SoftDelete_err del by metis
  next
    case gone
    have del': "Store_SoftDelete (re_io env) (tok_ID t) (srv_disk s) = (None, d)" using del gone by simp
    define ts' where "ts' = update_first (\<lambda>t. tok_ID t = k) (\<lambda>t. t\<lparr>tok_Enabled := False\<rparr>) ts"
    have l: "Store_load d = Inr ts'" using Store_SoftDelete_ok [OF ts(1)] del gone(1) by (simp add: ts'_def)
    have "store_wf d" using SoftDelete_wf [OF ts(3), of "re_io env" k] del by simp
    moreover have "cache_ok (cr_cmp cr) (cr_sha cr) P ts' (Cache_Invalidate (tok_TokenPrefix t) (srv_cache s))"
      using auth_store.revoke_keeps_cache [OF ts(3) _ ts(2) gone(2) del'] ts(1) l by (simp add: Store_List_def)
    moreover have "map tok_ID ts' = map tok_ID ts" unfolding ts'_def by (rule map_update_first_eq) simp
    then have "tok_ID ` set ts' = tok_ID ` set ts" by (metis set_map)
    moreover have "\<forall>u \<in> set ts'. tok_ID u = i \<longrightarrow> \<not> tok_Enabled u"
      if "\<forall>u \<in> set ts. tok_ID u = i \<longrightarrow> \<not> tok_Enabled u"
      using that unfolding ts'_def by (fastforce dest: in_set_update_firstD)
    ultimately show ?thesis using ts(1,4) l
      by (auto simp: gone(4) keeps_def server_ok_def disabled_in_def Cache_Invalidate_def)
  qed
qed

lemma keeps_refl: "server_ok cr P s \<Longrightarrow> keeps cr P i s s"
  by (simp add: keeps_def)

lemma world_keeps:
  assumes "server_ok cr P s"
  shows "keeps cr P i s (snd (CreatePeer p r info s))" "keeps cr P i s (snd (DeletePeer p k r info s))"
    "keeps cr P i s (snd (CreateRoute q r info s))" "keeps cr P i s (snd (DeleteRoute q k r info s))"
  using assms by (auto simp: keeps_def CreatePeer_def DeletePeer_def CreateRoute_def DeleteRoute_def
      split: req_body.splits sum.splits prod.splits option.splits)

lemma wrap_keeps:
  assumes ok: "server_ok cr P s" and U: "u \<notin> token_ids s"
    and h: "\<And>s. server_ok cr P s \<Longrightarrow> u \<notin> token_ids s \<Longrightarrow> keeps cr P i s (snd (h r info s))"
  shows "keeps cr P i s (snd (wrap deps now sc h r info s))"
proof (cases "wrap deps now sc h r info s")
  case (Pair rep s')
  then show ?thesis
  proof (cases rule: wrap_cases)
    case (stopped vs)
    then show ?thesis using Pair ok by (simp add: keeps_def)
  next
    case (ran j vs s1)
    have "keeps cr P i (s\<lparr>srv_visitors := vs\<rparr>) s1"
      using h [of "s\<lparr>srv_visitors := vs\<rparr>"] ok U ran(3) by simp
    then have "keeps cr P i s (s1\<lparr>srv_audit := srv_audit s'\<rparr>)" by (simp add: keeps_def)
    then show ?thesis using Pair ran(4) by simp
  qed
qed

lemma mux_keeps:
  assumes "server_ok cr P s" and "re_uuid env \<notin> token_ids s"
  shows "keeps cr P i s (snd (mux deps env r info s))"
  using assms
  by (auto simp: mux_def Let_def keeps_refl split: endpoint.splits
      intro!: wrap_keeps [where u = "re_uuid env"] world_keeps CreateToken_keeps RevokeToken_keeps)

section \<open>A request served alone\<close>

text \<open>A request during which no other runs keeps the invariant. Requests do overlap; \<open>Auth_Runs\<close> has the
  interleavings.\<close>

lemma RegisterRoutes_keeps:
  assumes "server_ok (dep_Crypto deps) P s" and "inj_on (cr_sha (dep_Crypto deps)) P" and "presented r \<in> P"
    and "re_uuid env \<notin> token_ids s" and "RegisterRoutes deps env r s = (rep, s')"
  shows "keeps (dep_Crypto deps) P i s s'"
proof -
  have "dispatched (dep_Crypto deps) (dep_Issuer deps) (re_now env) P (mux deps env) r s (rep, s')"
    using AuthDispatcher_dispatched [OF assms(1-3), of "dep_Issuer deps" "re_now env" "mux deps env"] assms(5)
    by (simp add: RegisterRoutes_def)
  then obtain c where ok: "server_ok (dep_Crypto deps) P (s\<lparr>srv_cache := c\<rparr>)"
      and "(\<exists>k. (rep, s') = mux deps env r (Some k) (s\<lparr>srv_cache := c\<rparr>)) \<or> s' = s\<lparr>srv_cache := c\<rparr>"
    unfolding dispatched_def by blast
  then consider k where "s' = snd (mux deps env r (Some k) (s\<lparr>srv_cache := c\<rparr>))" | "s' = s\<lparr>srv_cache := c\<rparr>"
    by (metis snd_conv)
  then show ?thesis
  proof cases
    case 1
    then have "keeps (dep_Crypto deps) P i (s\<lparr>srv_cache := c\<rparr>) s'"
      using mux_keeps [OF ok, of env] assms(4) by (simp add: token_ids_def)
    then show ?thesis by (simp add: keeps_def)
  next
    case 2
    then show ?thesis using ok by (simp add: keeps_def)
  qed
qed

section \<open>The audit trail\<close>

text \<open>the audit trail is exact. Behind the middleware chain, with a logger configured, a request
  adds one entry carrying its actor, action, source address and user agent when it is a POST or
  DELETE of a non-loopback client that the handler answered with a 2xx status, and adds nothing
  otherwise.\<close>

theorem audit_trail_exact:
  assumes "wrap deps now sc h r info s = (rep, s')" and "dep_AuditLog deps"
    and "\<And>r info s. srv_audit (snd (h r info s)) = srv_audit s"
  shows "srv_audit s' = srv_audit s @
    (case info of None \<Rightarrow> []
     | Some i \<Rightarrow> if ai_Source i \<noteq> ''localhost'' \<and> r_Method r \<in> {''POST'', ''DELETE''} \<and> succeeded rep
                 then [audit_record r i] else [])"
proof -
  have h: "srv_audit s1 = srv_audit s0" if "h r i s0 = (q, s1)" for i q s0 s1
    using assms(3) [of r i s0] that by simp
  show ?thesis
    using assms(1,2)
    by (auto simp: wrap_def RequireScope_def rl_Middleware_def AuditLog_def unauthorized_def succeeded_def Let_def
        split: option.splits if_splits prod.splits dest!: h)
qed

theorem audit_trail_exact_witness:
  "srv_audit (snd (wrap sample_deps 7 ScopeRead (DeletePeer (dep_Peers sample_deps) ''1'') sample_request
      (Some \<lparr>ai_TokenID = ''1'', ai_TokenName = ''ci'', ai_Scope = ScopeRead, ai_Source = ''pat'', ai_SessionID = []\<rparr>)
      sample_server))
   = [audit_record sample_request
        \<lparr>ai_TokenID = ''1'', ai_TokenName = ''ci'', ai_Scope = ScopeRead, ai_Source = ''pat'', ai_SessionID = []\<rparr>]"
proof -
  let ?i = "\<lparr>ai_TokenID = ''1'', ai_TokenName = ''ci'', ai_Scope = ScopeRead, ai_Source = ''pat'', ai_SessionID = []\<rparr>"
  let ?out = "wrap sample_deps 7 ScopeRead (DeletePeer (dep_Peers sample_deps) ''1'') sample_request (Some ?i) sample_server"
  have "srv_audit (snd ?out) = srv_audit sample_server @
    (case Some ?i of None \<Rightarrow> []
     | Some i \<Rightarrow> if ai_Source i \<noteq> ''localhost'' \<and> r_Method sample_request \<in> {''POST'', ''DELETE''} \<and> succeeded (fst ?out)
                 then [audit_record sample_request i] else [])"
    by (rule audit_trail_exact [where deps = sample_deps and now = 7 and sc = ScopeRead
          and h = "DeletePeer (dep_Peers sample_deps) ''1''"])
      (simp_all add: sample_deps_def DeletePeer_def split: prod.splits option.splits)
  moreover have "succeeded (fst ?out)" by code_simp
  ultimately show ?thesis by (simp add: sample_server_def sample_request_def)
qed

text \<open>a session opened from the loopback interface cannot be used. \<open>CreateSession\<close> gives the
  loopback identity a signed token whose subject is \<open>localhost\<close>; no API token has that identifier,
  so a request that presents it (over a forwarding proxy) is answered 401.\<close>

theorem localhost_session_rejected:
  assumes "CreateSession cr jw env r0 (Some localhost_info) s = (JSONResponse st (SessionBody tok ex sc), s0)"
    and "\<And>c p. cr_enc cr c = Some p \<Longrightarrow> cr_dec cr p = Some c"
    and "''localhost'' \<notin> token_ids s"
    and "r_Authorization r = ''Bearer '' @ tok" and "r_XForwardedFor r \<noteq> []" and "\<not> has_prefix tok ''unet_''"
  shows "AuthDispatcher cr jw now next r s = (ErrorResponse 401 ErrCodeUnauthorized, s)"
proof -
  have iss: "Issue (cr_hmac cr) (cr_enc cr) jw (re_now env) (re_uuid env) ''localhost'' ''localhost'' ScopeAdmin = Inr tok"
    using assms(1) by (auto simp: CreateSession_def localhost_info_def split: sum.splits)
  have sub: "Sub claims = ''localhost''" if "Jwt_Validate (cr_hmac cr) (cr_dec cr) jw now tok = Inr claims" for claims
  proof -
    have "claims = issued_claims jw (re_now env) (re_uuid env) ''localhost'' ''localhost'' ScopeAdmin"
      using issue_then_validate [OF iss assms(2), where now' = now] that by (simp split: if_splits)
    then show ?thesis by (simp add: issued_claims_def)
  qed
  have "handleJWT cr jw now tok next r s = unauthorized s"
    using sub assms(3)
    by (auto simp: handleJWT_def Store_List_def token_ids_def image_iff split: sum.splits)
  moreover have "AuthDispatcher cr jw now next r s =
      (if has_prefix tok ''eyJ'' then handleJWT cr jw now tok next r s else unauthorized s)"
    unfolding AuthDispatcher_def handleTokenAuth_def Let_def assms(4) trim_prefix_append using assms(5,6) by simp
  ultimately show ?thesis by (simp add: unauthorized_def)
qed

definition forwarded_request :: "string \<Rightarrow> request" where
  "forwarded_request tok = sample_request\<lparr>r_XForwardedFor := ''10.0.0.9'', r_Authorization := ''Bearer '' @ tok\<rparr>"

definition session_jwt :: string where
  "session_jwt = (let h = rawurl_encode jwt_header; b = rawurl_encode ''{}'' in
     h @ ''.'' @ b @ ''.'' @ jwt_sign (@) sample_issuer (h @ ''.'' @ b))"

lemma session_issued:
  "CreateSession sample_crypto sample_issuer (sample_env\<lparr>re_now := 0\<rparr>) sample_request (Some localhost_info) sample_server
    = (JSONResponse 200 (SessionBody session_jwt 900 ScopeAdmin), sample_server)"
  by (simp add: CreateSession_def localhost_info_def sample_crypto_def sample_env_def Issue_def session_claims_def
      session_jwt_def Let_def sample_issuer_def defaultJWTTTL_def minute_def second_def)

theorem localhost_session_rejected_witness:
  "AuthDispatcher sample_crypto sample_issuer 8 NotFound (forwarded_request session_jwt) sample_server
    = (ErrorResponse 401 ErrCodeUnauthorized, sample_server)"
proof (rule localhost_session_rejected [OF session_issued])
  show "\<not> has_prefix session_jwt ''unet_''" by code_simp
qed (auto simp: sample_crypto_def forwarded_request_def token_ids_def sample_server_def sample_disk_def
    Store_load_def sample_token_def split: if_splits)

end
