(* ===== verification/Config.thy ===== *)
theory Config
  imports Atomic_File
begin

text \<open>
  Package \<open>config\<close>: the data model of \<open>~/.unet/config.json\<close>, the manager that owns it, and the
  masking of secrets (\<open>config.go\<close>, \<open>secrets.go\<close>). \<open>Get\<close> hands out the live pointer, so the manager
  is modelled with the configurations it has allocated: a pointer is an index into them, \<open>Update\<close>
  allocates a draft and swings the manager's pointer only after the file was replaced. A nil and an
  empty slice of exposed ports are not distinguished.
\<close>

section \<open>Data model\<close>

type_synonym secret = string

record vps_config =
  vps_Host :: string
  vps_SSHPort :: int
  vps_Username :: string
  vps_AuthMode :: string
  vps_PrivateKeyPath :: string
  vps_Password :: secret
  vps_IsProvisioned :: bool
  vps_ContainerName :: string
  vps_ImageBuildHash :: string

record obfuscation_config =
  obf_Jc :: int
  obf_Jmin :: int
  obf_Jmax :: int
  obf_S1 :: int
  obf_S2 :: int
  obf_S3 :: int
  obf_S4 :: int
  obf_H1 :: int
  obf_H2 :: int
  obf_H3 :: int
  obf_H4 :: int
  obf_I1 :: int
  obf_I2 :: int
  obf_I3 :: int
  obf_I4 :: int
  obf_I5 :: int

record tunnel_config =
  tun_InterfaceName :: string
  tun_Subnet :: string
  tun_ServerIP :: string
  tun_LocalIP :: string
  tun_ServerEndpoint :: string
  tun_ServerPublicKey :: string
  tun_PresharedKey :: secret
  tun_PrivateKey :: secret
  tun_PublicKey :: string
  tun_MTU :: int
  tun_PersistentKeepalive :: int
  tun_Obfuscation :: obfuscation_config
  tun_Status :: string
  tun_ConnectedAt :: string

record caddy_api_config =
  cad_Address :: string
  cad_TLSCert :: string
  cad_TLSKey :: secret
  cad_ClientCert :: string
  cad_ClientKey :: secret

record exposed_port =
  ep_ID :: string
  ep_Protocol :: string
  ep_Internal :: int
  ep_HostHeader :: string
  ep_Status :: string
  ep_CreatedAt :: string

record dns_config =
  dns_Provider :: string
  dns_Token :: secret
  dns_Zone :: string

record daemon_config =
  dae_LogLevel :: string
  dae_PidFile :: string
  dae_AutoStart :: bool
  dae_JWTSigningKey :: secret

record remote_api_config =
  rem_Enabled :: bool
  rem_ListenAddr :: string
  rem_TLSCert :: string
  rem_TLSKey :: string

record root_config =
  cfg_VPS :: vps_config
  cfg_Tunnel :: tunnel_config
  cfg_CaddyAPI :: caddy_api_config
  cfg_ExposedPorts :: "exposed_port list"
  cfg_DNS :: dns_config
  cfg_Daemon :: daemon_config
  cfg_RemoteAPI :: remote_api_config
  cfg_ServerMirror :: string
  cfg_UIToken :: secret

text \<open>Go zero values.\<close>

definition zero_vps :: vps_config where
  "zero_vps = \<lparr>vps_Host = [], vps_SSHPort = 0, vps_Username = [], vps_AuthMode = [], vps_PrivateKeyPath = [],
     vps_Password = [], vps_IsProvisioned = False, vps_ContainerName = [], vps_ImageBuildHash = []\<rparr>"

definition zero_obfuscation :: obfuscation_config where
  "zero_obfuscation = \<lparr>obf_Jc = 0, obf_Jmin = 0, obf_Jmax = 0, obf_S1 = 0, obf_S2 = 0, obf_S3 = 0, obf_S4 = 0,
     obf_H1 = 0, obf_H2 = 0, obf_H3 = 0, obf_H4 = 0, obf_I1 = 0, obf_I2 = 0, obf_I3 = 0, obf_I4 = 0, obf_I5 = 0\<rparr>"

definition zero_tunnel :: tunnel_config where
  "zero_tunnel = \<lparr>tun_InterfaceName = [], tun_Subnet = [], tun_ServerIP = [], tun_LocalIP = [],
     tun_ServerEndpoint = [], tun_ServerPublicKey = [], tun_PresharedKey = [], tun_PrivateKey = [],
     tun_PublicKey = [], tun_MTU = 0, tun_PersistentKeepalive = 0, tun_Obfuscation = zero_obfuscation,
     tun_Status = [], tun_ConnectedAt = []\<rparr>"

definition zero_config :: root_config where
  "zero_config = \<lparr>cfg_VPS = zero_vps, cfg_Tunnel = zero_tunnel,
     cfg_CaddyAPI = \<lparr>cad_Address = [], cad_TLSCert = [], cad_TLSKey = [], cad_ClientCert = [], cad_ClientKey = []\<rparr>,
     cfg_ExposedPorts = [], cfg_DNS = \<lparr>dns_Provider = [], dns_Token = [], dns_Zone = []\<rparr>,
     cfg_Daemon = \<lparr>dae_LogLevel = [], dae_PidFile = [], dae_AutoStart = False, dae_JWTSigningKey = []\<rparr>,
     cfg_RemoteAPI = \<lparr>rem_Enabled = False, rem_ListenAddr = [], rem_TLSCert = [], rem_TLSKey = []\<rparr>,
     cfg_ServerMirror = [], cfg_UIToken = []\<rparr>"

definition defaultConfig :: "string \<Rightarrow> root_config" where
  "defaultConfig uuid = zero_config\<lparr>cfg_UIToken := uuid, cfg_ExposedPorts := []\<rparr>"

section \<open>Masking\<close>

definition secret_mask :: "secret \<Rightarrow> string" where
  "secret_mask v = (if length v \<le> 4 then ''****'' else ''****'' @ drop (length v - 4) v)"

definition RedactedString :: "secret \<Rightarrow> string" where
  "RedactedString _ = ''<redacted>''"

definition cloneAndMask :: "root_config \<Rightarrow> root_config" where
  "cloneAndMask src = (let dst = src in
     dst\<lparr>cfg_VPS := (cfg_VPS dst)\<lparr>vps_Password := secret_mask (vps_Password (cfg_VPS src))\<rparr>,
         cfg_Tunnel := (cfg_Tunnel dst)\<lparr>tun_PresharedKey := secret_mask (tun_PresharedKey (cfg_Tunnel src)),
                                        tun_PrivateKey := secret_mask (tun_PrivateKey (cfg_Tunnel src))\<rparr>,
         cfg_CaddyAPI := (cfg_CaddyAPI dst)\<lparr>cad_TLSKey := secret_mask (cad_TLSKey (cfg_CaddyAPI src)),
                                            cad_ClientKey := secret_mask (cad_ClientKey (cfg_CaddyAPI src))\<rparr>,
         cfg_DNS := (cfg_DNS dst)\<lparr>dns_Token := secret_mask (dns_Token (cfg_DNS src))\<rparr>,
         cfg_UIToken := secret_mask (cfg_UIToken src)\<rparr>)"

section \<open>The manager\<close>

type_synonym config_ptr = nat

record manager =
  mgr_heap :: "root_config list"
  mgr_config :: config_ptr
  mgr_disk :: "root_config disk"

datatype config_error = CfgMkdir | CfgWriteSkeleton io_error | CfgRead | CfgParse

definition deref :: "manager \<Rightarrow> config_ptr \<Rightarrow> root_config" where
  "deref m p = mgr_heap m ! p"

definition saveLocked :: "io_env \<Rightarrow> root_config \<Rightarrow> root_config disk \<Rightarrow> io_error option \<times> root_config disk" where
  "saveLocked io cfg d =
     (if \<not> marshal_ok io then (Some EMarshal, d)
      else if \<not> create_ok io then (Some ECreate, d)
      else
        let d1 = create_temp d in
        if \<not> write_ok io then (Some EWrite, remove_temp io d1)
        else if \<not> sync_ok io then (Some ESync, remove_temp io d1)
        else if \<not> close_ok io then (Some EClose, remove_temp io d1)
        else if \<not> rename_ok io then (Some ERename, remove_temp io d1)
        else (None, rename_temp cfg d1))"

definition Manager_Get :: "manager \<Rightarrow> config_ptr" where
  "Manager_Get m = mgr_config m"

definition GetMasked :: "manager \<Rightarrow> root_config" where
  "GetMasked m = cloneAndMask (deref m (mgr_config m))"

definition Manager_Update :: "io_env \<Rightarrow> (root_config \<Rightarrow> root_config) \<Rightarrow> manager \<Rightarrow> io_error option \<times> manager" where
  "Manager_Update io fn m =
     (let draft = fn (deref m (mgr_config m));
          heap = mgr_heap m @ [draft]
      in case saveLocked io draft (mgr_disk m) of
           (Some e, d) \<Rightarrow> (Some e, m\<lparr>mgr_heap := heap, mgr_disk := d\<rparr>)
         | (None, d) \<Rightarrow> (None, m\<lparr>mgr_heap := heap, mgr_disk := d, mgr_config := length (mgr_heap m)\<rparr>))"

definition Manager_Save :: "io_env \<Rightarrow> manager \<Rightarrow> io_error option \<times> manager" where
  "Manager_Save io m =
     (case saveLocked io (deref m (mgr_config m)) (mgr_disk m) of (e, d) \<Rightarrow> (e, m\<lparr>mgr_disk := d\<rparr>))"

definition NewManager :: "io_env \<Rightarrow> string \<Rightarrow> root_config disk \<Rightarrow> (config_error + manager) \<times> root_config disk" where
  "NewManager io uuid d =
     (if \<not> mkdir_ok io then (Inl CfgMkdir, d)
      else case target d of
        NoFile \<Rightarrow>
          (let m = \<lparr>mgr_heap = [zero_config, defaultConfig uuid], mgr_config = 1, mgr_disk = d\<rparr> in
           case Manager_Save io m of
             (Some e, m1) \<Rightarrow> (Inl (CfgWriteSkeleton e), mgr_disk m1)
           | (None, m1) \<Rightarrow> (Inr m1, mgr_disk m1))
      | Unreadable \<Rightarrow> (Inl CfgRead, d)
      | Blank \<Rightarrow> (Inl CfgParse, d)
      | Garbage \<Rightarrow> (Inl CfgParse, d)
      | Holds cfg \<Rightarrow> (Inr \<lparr>mgr_heap = [cfg], mgr_config = 0, mgr_disk = d\<rparr>, d))"

interpretation config_file: atomic_saver saveLocked
  by unfold_locales (auto simp: saveLocked_def io_all_ok_def Let_def split: if_splits)

section \<open>Properties of the manager\<close>

definition live :: "manager \<Rightarrow> root_config" where
  "live m = deref m (mgr_config m)"

definition manager_ok :: "manager \<Rightarrow> bool" where
  "manager_ok m \<longleftrightarrow> mgr_config m < length (mgr_heap m) \<and> target (mgr_disk m) = Holds (live m)"

lemma NewManager_ok: "fst (NewManager io uuid d) = Inr m \<Longrightarrow> manager_ok m"
  using config_file.save_ok_target [of io "defaultConfig uuid" d]
  by (auto simp: NewManager_def Manager_Save_def manager_ok_def live_def deref_def Let_def
      split: stored.splits prod.splits option.splits if_splits)

text \<open>What one update does, as a relation between the manager before and after.\<close>

definition update_outcome :: "(root_config \<Rightarrow> root_config) \<Rightarrow> manager \<Rightarrow> io_error option \<Rightarrow> manager \<Rightarrow> bool" where
  "update_outcome fn m r m' \<longleftrightarrow>
     (case r of
        None \<Rightarrow> live m' = fn (live m) \<and> target (mgr_disk m') = Holds (fn (live m))
      | Some e \<Rightarrow> live m' = live m \<and> target (mgr_disk m') = target (mgr_disk m))
     \<and> (\<forall>p < length (mgr_heap m). deref m' p = deref m p)"

lemma Manager_Update_step:
  assumes "manager_ok m" and "Manager_Update io fn m = (r, m')"
  shows "manager_ok m' \<and> update_outcome fn m r m'"
proof (cases "saveLocked io (fn (live m)) (mgr_disk m)")
  case (Pair e d)
  have p: "mgr_config m < length (mgr_heap m)" using assms(1) by (simp add: manager_ok_def)
  show ?thesis
  proof (cases e)
    case None
    then have "target d = Holds (fn (live m))"
      using config_file.save_ok_target [of io "fn (live m)" "mgr_disk m"] Pair by simp
    moreover have "m' = m\<lparr>mgr_heap := mgr_heap m @ [fn (live m)], mgr_disk := d, mgr_config := length (mgr_heap m)\<rparr>"
        "r = None"
      using assms(2) Pair None by (simp_all add: Manager_Update_def live_def)
    ultimately show ?thesis
      by (simp add: manager_ok_def update_outcome_def live_def deref_def nth_append)
  next
    case (Some x)
    then have "target d = target (mgr_disk m)"
      using config_file.save_err_target [of io "fn (live m)" "mgr_disk m" x] Pair by simp
    moreover have "m' = m\<lparr>mgr_heap := mgr_heap m @ [fn (live m)], mgr_disk := d\<rparr>" "r = Some x"
      using assms(2) Pair Some by (simp_all add: Manager_Update_def live_def)
    ultimately show ?thesis using assms(1) p
      by (simp add: manager_ok_def update_outcome_def live_def deref_def nth_append)
  qed
qed

lemma save_ok: "fst (Manager_Update io_all_ok fn m) = None"
  by (simp add: Manager_Update_def saveLocked_def io_all_ok_def Let_def)

definition sample_manager :: manager where
  "sample_manager = \<lparr>mgr_heap = [zero_config], mgr_config = 0, mgr_disk = \<lparr>target = Holds zero_config, strays = 0\<rparr>\<rparr>"

text \<open>A sequence of updates under arbitrary system answers; the successful mutations, in order.\<close>

fun run_updates :: "(io_env \<times> (root_config \<Rightarrow> root_config)) list \<Rightarrow> manager \<Rightarrow> manager \<times> (root_config \<Rightarrow> root_config) list" where
  "run_updates [] m = (m, [])"
| "run_updates ((io, fn) # us) m =
     (let (r, m1) = Manager_Update io fn m; (m2, fs) = run_updates us m1
      in (m2, if r = None then fn # fs else fs))"

lemma run_updates_spec:
  "manager_ok m \<Longrightarrow> run_updates us m = (m', fs) \<Longrightarrow>
     manager_ok m' \<and> live m' = fold (\<lambda>f c. f c) fs (live m)"
proof (induction us arbitrary: m m' fs)
  case Nil
  then show ?case by simp
next
  case (Cons u us)
  obtain io fn where u: "u = (io, fn)" by (cases u)
  obtain r m1 where s: "Manager_Update io fn m = (r, m1)" by fastforce
  obtain m2 gs where g: "run_updates us m1 = (m2, gs)" by fastforce
  have o1: "manager_ok m1" "update_outcome fn m r m1" using Manager_Update_step [OF Cons.prems(1) s] by auto
  have "m' = m2" "fs = (if r = None then fn # gs else gs)" using Cons.prems(2) u s g by auto
  moreover have "live m1 = (if r = None then fn (live m) else live m)"
    using o1(2) by (auto simp: update_outcome_def split: option.splits)
  ultimately show ?case using Cons.IH [OF o1(1) g] by simp
qed

text \<open>no update is lost. After any sequence of updates, some of which may fail, the file holds
  the live configuration, and it is the start configuration with exactly the successful mutations
  applied in order.\<close>

theorem config_no_lost_update:
  assumes "manager_ok m" and "run_updates us m = (m', fs)"
  shows "target (mgr_disk m') = Holds (fold (\<lambda>f c. f c) fs (live m)) \<and> live m' = fold (\<lambda>f c. f c) fs (live m)"
  using run_updates_spec [OF assms] by (simp add: manager_ok_def)

theorem config_no_lost_update_witness:
  "live (fst (run_updates [(io_all_ok, cfg_ServerMirror_update (\<lambda>_. ''x'')),
                           (io_all_ok\<lparr>rename_ok := False\<rparr>, cfg_ServerMirror_update (\<lambda>_. ''y''))] sample_manager))
    = zero_config\<lparr>cfg_ServerMirror := ''x''\<rparr>"
proof -
  let ?us = "[(io_all_ok, cfg_ServerMirror_update (\<lambda>_. ''x'')),
    (io_all_ok\<lparr>rename_ok := False\<rparr>, cfg_ServerMirror_update (\<lambda>_. ''y''))]"
  have "snd (run_updates ?us sample_manager) = [cfg_ServerMirror_update (\<lambda>_. ''x'')]"
    by (simp add: Manager_Update_def sample_manager_def saveLocked_def io_all_ok_def deref_def Let_def)
  moreover have "manager_ok sample_manager" by (simp add: sample_manager_def manager_ok_def live_def deref_def)
  moreover have "live sample_manager = zero_config" by (simp add: sample_manager_def live_def deref_def)
  ultimately show ?thesis
    using config_no_lost_update [OF _ prod.collapse [symmetric], of sample_manager ?us]
    by (simp del: run_updates.simps prod.collapse)
qed

section \<open>Properties of masking\<close>

text \<open>Two secrets look the same masked when they are both short or end in the same four bytes.\<close>

definition same_masked :: "secret \<Rightarrow> secret \<Rightarrow> bool" where
  "same_masked a b \<longleftrightarrow> (length a \<le> 4 \<and> length b \<le> 4)
     \<or> (length a > 4 \<and> length b > 4 \<and> drop (length a - 4) a = drop (length b - 4) b)"

lemma mask_eq: "same_masked a b \<Longrightarrow> secret_mask a = secret_mask b"
  by (auto simp: same_masked_def secret_mask_def)

lemma mask_length: "length (secret_mask v) \<le> 8"
  by (simp add: secret_mask_def)

text \<open>Configurations that differ only in the masked secrets, and there only where masking hides it.\<close>

definition same_public :: "root_config \<Rightarrow> root_config \<Rightarrow> bool" where
  "same_public a b \<longleftrightarrow>
     (cfg_VPS a)\<lparr>vps_Password := []\<rparr> = (cfg_VPS b)\<lparr>vps_Password := []\<rparr>
     \<and> same_masked (vps_Password (cfg_VPS a)) (vps_Password (cfg_VPS b))
     \<and> (cfg_Tunnel a)\<lparr>tun_PresharedKey := [], tun_PrivateKey := []\<rparr> = (cfg_Tunnel b)\<lparr>tun_PresharedKey := [], tun_PrivateKey := []\<rparr>
     \<and> same_masked (tun_PresharedKey (cfg_Tunnel a)) (tun_PresharedKey (cfg_Tunnel b))
     \<and> same_masked (tun_PrivateKey (cfg_Tunnel a)) (tun_PrivateKey (cfg_Tunnel b))
     \<and> (cfg_CaddyAPI a)\<lparr>cad_TLSKey := [], cad_ClientKey := []\<rparr> = (cfg_CaddyAPI b)\<lparr>cad_TLSKey := [], cad_ClientKey := []\<rparr>
     \<and> same_masked (cad_TLSKey (cfg_CaddyAPI a)) (cad_TLSKey (cfg_CaddyAPI b))
     \<and> same_masked (cad_ClientKey (cfg_CaddyAPI a)) (cad_ClientKey (cfg_CaddyAPI b))
     \<and> (cfg_DNS a)\<lparr>dns_Token := []\<rparr> = (cfg_DNS b)\<lparr>dns_Token := []\<rparr>
     \<and> same_masked (dns_Token (cfg_DNS a)) (dns_Token (cfg_DNS b))
     \<and> same_masked (cfg_UIToken a) (cfg_UIToken b)
     \<and> cfg_ExposedPorts a = cfg_ExposedPorts b \<and> cfg_Daemon a = cfg_Daemon b
     \<and> cfg_RemoteAPI a = cfg_RemoteAPI b \<and> cfg_ServerMirror a = cfg_ServerMirror b"

lemma vps_masked: "a\<lparr>vps_Password := []\<rparr> = b\<lparr>vps_Password := []\<rparr> \<Longrightarrow> a\<lparr>vps_Password := x\<rparr> = (b\<lparr>vps_Password := x\<rparr> :: vps_config)"
  by (cases a; cases b) simp

lemma tun_masked:
  "a\<lparr>tun_PresharedKey := [], tun_PrivateKey := []\<rparr> = b\<lparr>tun_PresharedKey := [], tun_PrivateKey := []\<rparr> \<Longrightarrow>
   a\<lparr>tun_PresharedKey := x, tun_PrivateKey := y\<rparr> = (b\<lparr>tun_PresharedKey := x, tun_PrivateKey := y\<rparr> :: tunnel_config)"
  by (cases a; cases b) simp

lemma cad_masked:
  "a\<lparr>cad_TLSKey := [], cad_ClientKey := []\<rparr> = b\<lparr>cad_TLSKey := [], cad_ClientKey := []\<rparr> \<Longrightarrow>
   a\<lparr>cad_TLSKey := x, cad_ClientKey := y\<rparr> = (b\<lparr>cad_TLSKey := x, cad_ClientKey := y\<rparr> :: caddy_api_config)"
  by (cases a; cases b) simp

lemma dns_masked: "a\<lparr>dns_Token := []\<rparr> = b\<lparr>dns_Token := []\<rparr> \<Longrightarrow> a\<lparr>dns_Token := x\<rparr> = (b\<lparr>dns_Token := x\<rparr> :: dns_config)"
  by (cases a; cases b) simp

text \<open>masking hides the masked secrets. The masked configuration is the same for any two
  configurations that agree outside those secrets, as long as each pair of secrets is short or ends
  in the same four bytes; nothing else about them can be learnt from it.\<close>

theorem GetMasked_hides:
  assumes "same_public (live m) (live m')"
  shows "GetMasked m = GetMasked m'"
proof -
  let ?a = "live m" and ?b = "live m'"
  have masks: "secret_mask (vps_Password (cfg_VPS ?a)) = secret_mask (vps_Password (cfg_VPS ?b))"
      "secret_mask (tun_PresharedKey (cfg_Tunnel ?a)) = secret_mask (tun_PresharedKey (cfg_Tunnel ?b))"
      "secret_mask (tun_PrivateKey (cfg_Tunnel ?a)) = secret_mask (tun_PrivateKey (cfg_Tunnel ?b))"
      "secret_mask (cad_TLSKey (cfg_CaddyAPI ?a)) = secret_mask (cad_TLSKey (cfg_CaddyAPI ?b))"
      "secret_mask (cad_ClientKey (cfg_CaddyAPI ?a)) = secret_mask (cad_ClientKey (cfg_CaddyAPI ?b))"
      "secret_mask (dns_Token (cfg_DNS ?a)) = secret_mask (dns_Token (cfg_DNS ?b))"
      "secret_mask (cfg_UIToken ?a) = secret_mask (cfg_UIToken ?b)"
    using assms unfolding same_public_def by (auto intro: mask_eq)
  have frames: "\<And>x. (cfg_VPS ?a)\<lparr>vps_Password := x\<rparr> = (cfg_VPS ?b)\<lparr>vps_Password := x\<rparr>"
      "\<And>x y. (cfg_Tunnel ?a)\<lparr>tun_PresharedKey := x, tun_PrivateKey := y\<rparr> = (cfg_Tunnel ?b)\<lparr>tun_PresharedKey := x, tun_PrivateKey := y\<rparr>"
      "\<And>x y. (cfg_CaddyAPI ?a)\<lparr>cad_TLSKey := x, cad_ClientKey := y\<rparr> = (cfg_CaddyAPI ?b)\<lparr>cad_TLSKey := x, cad_ClientKey := y\<rparr>"
      "\<And>x. (cfg_DNS ?a)\<lparr>dns_Token := x\<rparr> = (cfg_DNS ?b)\<lparr>dns_Token := x\<rparr>"
    using assms unfolding same_public_def by (blast intro: vps_masked tun_masked cad_masked dns_masked)+
  have "cloneAndMask ?a = cloneAndMask ?b"
    by (rule root_config.equality)
      (use assms in \<open>simp_all add: cloneAndMask_def Let_def masks frames same_public_def\<close>)
  then show ?thesis by (simp add: GetMasked_def live_def)
qed

definition with_password :: "string \<Rightarrow> manager" where
  "with_password p = sample_manager\<lparr>mgr_heap := [zero_config\<lparr>cfg_VPS := zero_vps\<lparr>vps_Password := p\<rparr>\<rparr>]\<rparr>"

theorem GetMasked_hides_witness:
  "GetMasked (with_password ''hunter-1234'') = GetMasked (with_password ''other-secret-1234'')"
  by (rule GetMasked_hides)
    (simp add: same_public_def with_password_def sample_manager_def live_def deref_def zero_config_def
      zero_vps_def zero_tunnel_def same_masked_def)

text \<open>the JWT signing key is not masked. The copy of the configuration that is meant for
  API responses carries the key that signs sessions in the clear.\<close>

theorem GetMasked_leaks_signing_key:
  "dae_JWTSigningKey (cfg_Daemon (GetMasked m)) = dae_JWTSigningKey (cfg_Daemon (live m))"
  by (simp add: GetMasked_def cloneAndMask_def live_def Let_def)

end
