(* ===== verification/Host_Checks.thy ===== *)
theory Host_Checks
  imports Base64_Codec Complex_Main
begin

text \<open>
  The checks that the setup wizard runs against the target host and the user's domain:
  packages \<open>wizard/preflight\<close> and \<open>wizard/dnscheck\<close>. The SSH session is a function from a command
  to its output or error, the resolver and the Cloudflare API are functions, and
  \<open>strconv.ParseFloat\<close> is an argument. Findings of the checks are kept as values: one constructor
  per message the code formats, with what it interpolates.
\<close>

section \<open>Distribution\<close>

fun cut_at :: "char \<Rightarrow> string \<Rightarrow> (string \<times> string) option" where
  "cut_at c [] = None"
| "cut_at c (x # xs) = (if x = c then Some ([], xs) else map_option (\<lambda>(a, b). (x # a, b)) (cut_at c xs))"

definition trim_quotes :: "string \<Rightarrow> string" where
  "trim_quotes s = (let q = (\<lambda>c. byte c = 34 \<or> byte c = 39) in rev (dropWhile q (rev (dropWhile q s))))"

definition parse_os_line :: "string \<Rightarrow> string \<times> string \<Rightarrow> string \<times> string" where
  "parse_os_line raw acc =
     (let line = trim_space raw in
      if line = [] \<or> has_prefix line ''#'' then acc
      else case cut_at (CHR ''='') line of
             None \<Rightarrow> acc
           | Some (k, v) \<Rightarrow>
               let key = trim_space k; value = trim_quotes (trim_space v) in
               if key = ''ID'' then (value, snd acc)
               else if key = ''VERSION_ID'' then (fst acc, value)
               else acc)"

definition ParseOSRelease :: "string \<Rightarrow> string \<times> string" where
  "ParseOSRelease content = fold parse_os_line (split_on (chr 10) content) ([], [])"

text \<open>\<open>strings.SplitN(v, ".", 3)\<close>: the third part keeps the remaining dots.\<close>

definition parseVersion :: "string \<Rightarrow> int \<times> int \<times> int" where
  "parseVersion v =
     (case split_on (CHR ''.'') v of
        [a] \<Rightarrow> (Atoi_value a, 0, 0)
      | [a, b] \<Rightarrow> (Atoi_value a, Atoi_value b, 0)
      | a # b # rest \<Rightarrow> (Atoi_value a, Atoi_value b, Atoi_value (join_with ''.'' rest))
      | [] \<Rightarrow> (0, 0, 0))"

definition CheckDistro :: "string \<Rightarrow> string \<Rightarrow> bool" where
  "CheckDistro distro versionID =
     (let (major, minor, patch) = parseVersion versionID in
      if distro = ''ubuntu'' then major > 22 \<or> (major = 22 \<and> minor \<ge> 4)
      else if distro = ''debian'' then major \<ge> 12
      else False)"

section \<open>Preflight\<close>

datatype blocking = OsReleaseFailed string | UnsupportedOS string string | DfFailed string | DfFormat
  | LowDisk rat | NoSudo | Port443Used

datatype warning = DiskUnparsed | NoDocker | DockerStopped | PortsUnchecked | Port80Used

record preflight_result =
  pf_TargetHost :: string
  pf_CheckedAt :: string
  pf_Distro :: string
  pf_DistroVersion :: string
  pf_Arch :: string
  pf_DiskFreeGB :: rat
  pf_RAMMB :: int
  pf_HasSudo :: bool
  pf_HasDocker :: bool
  pf_DockerRunning :: bool
  pf_Port443Free :: bool
  pf_Port80Free :: bool
  pf_PortWGFree :: bool
  pf_Compatible :: bool
  pf_Warnings :: "warning list"
  pf_BlockingFailures :: "blocking list"

type_synonym ssh_session = "string \<Rightarrow> string + string"
type_synonym parse_float = "string \<Rightarrow> rat option"

definition block :: "blocking \<Rightarrow> preflight_result \<Rightarrow> preflight_result" where
  "block b r = r\<lparr>pf_BlockingFailures := pf_BlockingFailures r @ [b]\<rparr>"

definition warn :: "warning \<Rightarrow> preflight_result \<Rightarrow> preflight_result" where
  "warn w r = r\<lparr>pf_Warnings := pf_Warnings r @ [w]\<rparr>"

definition checkDistro :: "ssh_session \<Rightarrow> preflight_result \<Rightarrow> preflight_result" where
  "checkDistro ssh r =
     (case ssh ''cat /etc/os-release'' of
        Inl e \<Rightarrow> block (OsReleaseFailed e) r
      | Inr content \<Rightarrow>
          let (i, v) = ParseOSRelease content; r1 = r\<lparr>pf_Distro := i, pf_DistroVersion := v\<rparr>
          in if \<not> CheckDistro i v then block (UnsupportedOS i v) r1 else r1)"

fun fields_acc :: "string \<Rightarrow> string \<Rightarrow> string list" where
  "fields_acc cur [] = (if cur = [] then [] else [cur])"
| "fields_acc cur (c # cs) =
     (if is_space c then (if cur = [] then fields_acc [] cs else cur # fields_acc [] cs)
      else fields_acc (cur @ [c]) cs)"

definition Fields :: "string \<Rightarrow> string list" where
  "Fields s = fields_acc [] s"

definition parseDiskSize :: "parse_float \<Rightarrow> string \<Rightarrow> rat option" where
  "parseDiskSize pf s0 =
     (let s = trim_space s0 in
      if has_suffix s ''G'' then pf (trim_suffix s ''G'')
      else if has_suffix s ''T'' then map_option (\<lambda>v. v * 1024) (pf (trim_suffix s ''T''))
      else if has_suffix s ''M'' then map_option (\<lambda>v. v / 1024) (pf (trim_suffix s ''M''))
      else pf s)"

definition checkDisk :: "parse_float \<Rightarrow> ssh_session \<Rightarrow> preflight_result \<Rightarrow> preflight_result" where
  "checkDisk pf ssh r =
     (case ssh ''df -h /'' of
        Inl e \<Rightarrow> block (DfFailed e) r
      | Inr output \<Rightarrow>
          let lines = split_on (chr 10) (trim_space output) in
          if length lines < 2 then block DfFormat r
          else
            let fields = Fields (lines ! 1) in
            if length fields < 4 then block DfFormat r
            else case parseDiskSize pf (fields ! 3) of
                   None \<Rightarrow> warn DiskUnparsed r
                 | Some gb \<Rightarrow>
                     let r1 = r\<lparr>pf_DiskFreeGB := gb\<rparr> in if gb < 2 then block (LowDisk gb) r1 else r1)"

definition checkSudo :: "ssh_session \<Rightarrow> preflight_result \<Rightarrow> preflight_result" where
  "checkSudo ssh r =
     (case ssh ''sudo -n true'' of
        Inl _ \<Rightarrow> block NoSudo (r\<lparr>pf_HasSudo := False\<rparr>)
      | Inr _ \<Rightarrow> r\<lparr>pf_HasSudo := True\<rparr>)"

definition checkDocker :: "ssh_session \<Rightarrow> preflight_result \<Rightarrow> preflight_result" where
  "checkDocker ssh r =
     (case ssh ''docker info 2>&1'' of
        Inl _ \<Rightarrow> warn NoDocker (r\<lparr>pf_HasDocker := False, pf_DockerRunning := False\<rparr>)
      | Inr output \<Rightarrow>
          let r1 = r\<lparr>pf_HasDocker := True, pf_DockerRunning := contains output ''Server:''\<rparr>
          in if \<not> pf_DockerRunning r1 then warn DockerStopped r1 else r1)"

definition checkPorts :: "ssh_session \<Rightarrow> preflight_result \<Rightarrow> preflight_result" where
  "checkPorts ssh r =
     (case ssh ''ss -tlnp 2>/dev/null || netstat -tlnp 2>/dev/null'' of
        Inl _ \<Rightarrow> warn PortsUnchecked (r\<lparr>pf_Port443Free := True, pf_Port80Free := True, pf_PortWGFree := True\<rparr>)
      | Inr output \<Rightarrow>
          let r1 = r\<lparr>pf_Port443Free := \<not> contains output '':443 '', pf_Port80Free := \<not> contains output '':80 '',
                     pf_PortWGFree := True\<rparr>;
              r2 = (if \<not> pf_Port443Free r1 then block Port443Used r1 else r1)
          in if \<not> pf_Port80Free r2 then warn Port80Used r2 else r2)"

definition preflight_empty :: "string \<Rightarrow> string \<Rightarrow> preflight_result" where
  "preflight_empty host now = \<lparr>pf_TargetHost = host, pf_CheckedAt = now, pf_Distro = [], pf_DistroVersion = [],
     pf_Arch = [], pf_DiskFreeGB = 0, pf_RAMMB = 0, pf_HasSudo = False, pf_HasDocker = False,
     pf_DockerRunning = False, pf_Port443Free = False, pf_Port80Free = False, pf_PortWGFree = False,
     pf_Compatible = False, pf_Warnings = [], pf_BlockingFailures = []\<rparr>"

definition preflight_Run :: "parse_float \<Rightarrow> ssh_session \<Rightarrow> string \<Rightarrow> string \<Rightarrow> preflight_result" where
  "preflight_Run pf ssh host now =
     (let r = checkPorts ssh (checkDocker ssh (checkSudo ssh (checkDisk pf ssh (checkDistro ssh (preflight_empty host now)))))
      in r\<lparr>pf_Compatible := (pf_BlockingFailures r = [])\<rparr>)"

section \<open>Domain checks\<close>

record resolver =
  LookupHost :: "string \<Rightarrow> string + string list"
  LookupNS :: "string \<Rightarrow> string + string list"

record domain_check_result =
  dc_Domain :: string
  dc_Mode :: string
  dc_CheckedAt :: string
  dc_ARecordIPs :: "string list"
  dc_PointsToVPS :: bool
  dc_CloudflareDetected :: bool
  dc_CloudflareTokenValid :: "bool option"
  dc_TLSStrategy :: string
  dc_TLSFeasible :: bool
  dc_Warnings :: "string list"
  dc_Errors :: "string list"

definition dns_Validate :: "resolver \<Rightarrow> string \<Rightarrow> string \<Rightarrow> bool \<Rightarrow> string \<Rightarrow> domain_check_result" where
  "dns_Validate res domain vpsIP port80Free now =
     (let r0 = \<lparr>dc_Domain = domain, dc_Mode = ''byo'', dc_CheckedAt = now, dc_ARecordIPs = [],
                dc_PointsToVPS = False, dc_CloudflareDetected = False, dc_CloudflareTokenValid = None,
                dc_TLSStrategy = [], dc_TLSFeasible = False, dc_Warnings = [], dc_Errors = []\<rparr>;
          r1 = (case LookupHost res domain of
                  Inl e \<Rightarrow> r0\<lparr>dc_Errors := dc_Errors r0 @ [''A record lookup failed: '' @ e]\<rparr>
                | Inr ips \<Rightarrow> r0\<lparr>dc_ARecordIPs := ips, dc_PointsToVPS := (vpsIP \<in> set ips)\<rparr>);
          r2 = (case LookupNS res domain of
                  Inl e \<Rightarrow> r1\<lparr>dc_Warnings := dc_Warnings r1 @ [''NS lookup failed: '' @ e]\<rparr>
                | Inr ns \<Rightarrow> r1\<lparr>dc_CloudflareDetected :=
                              (\<exists>n \<in> set ns. has_suffix (to_lower n) ''.cloudflare.com'')\<rparr>);
          r3 = (if dc_CloudflareDetected r2 \<and> dc_CloudflareTokenValid r2 = Some True
                then r2\<lparr>dc_TLSStrategy := ''dns-01'', dc_TLSFeasible := True\<rparr>
                else let q = r2\<lparr>dc_TLSStrategy := ''http-01''\<rparr> in
                  if port80Free then q\<lparr>dc_TLSFeasible := True\<rparr>
                  else q\<lparr>dc_TLSFeasible := False, dc_Errors := dc_Errors q @
                    [if dc_CloudflareDetected q then ''port 80 is blocked and Cloudflare token is invalid or missing; TLS certificate issuance not possible''
                     else ''port 80 is blocked and no Cloudflare detected; TLS certificate issuance not possible'']\<rparr>)
      in if \<not> dc_PointsToVPS r3 \<and> dc_ARecordIPs r3 \<noteq> []
         then r3\<lparr>dc_Warnings := dc_Warnings r3 @
           [''domain does not point to VPS IP '' @ vpsIP @ ''; current A records: '' @ join_with '', '' (dc_ARecordIPs r3)]\<rparr>
         else r3)"

definition dash_dots :: "string \<Rightarrow> string" where
  "dash_dots = map (\<lambda>c. if c = CHR ''.'' then CHR ''-'' else c)"

definition BuildNipioSubdomain :: "string \<Rightarrow> string \<Rightarrow> string" where
  "BuildNipioSubdomain label ip =
     (if label = [] then dash_dots ip @ ''.nip.io'' else label @ ''.'' @ dash_dots ip @ ''.nip.io'')"

definition CheckNipioResolution :: "resolver \<Rightarrow> string \<Rightarrow> bool" where
  "CheckNipioResolution res ip =
     (case LookupHost res (dash_dots ip @ ''.nip.io'') of Inl _ \<Rightarrow> False | Inr ips \<Rightarrow> ip \<in> set ips)"

record cf_zone =
  zone_ID :: string
  zone_Name :: string

record cloudflare_api =
  ListZones :: "string + cf_zone list"
  VerifyCFToken :: "string + bool \<times> string list"

definition ValidateCloudflareToken :: "cloudflare_api \<Rightarrow> string \<Rightarrow> string \<Rightarrow> string + string" where
  "ValidateCloudflareToken api token domain =
     (if token = [] then Inl ''cf_token_empty''
      else case VerifyCFToken api of
        Inl _ \<Rightarrow> Inl ''cf_token_invalid''
      | Inr (valid, scopes) \<Rightarrow>
          if \<not> valid then Inl ''cf_token_invalid''
          else if \<not> (\<exists>s \<in> set scopes. has_prefix s ''Zone:DNS:'' \<or> s = ''Zone:DNS:Edit'' \<or> s = ''Zone:Edit'')
          then Inl ''cf_token_missing_scope''
          else case ListZones api of
                 Inl _ \<Rightarrow> Inl ''cf_zone_list_failed''
               | Inr zones \<Rightarrow>
                   (case List.find (\<lambda>z. zone_Name z = domain \<or> has_suffix domain (''.'' @ zone_Name z)) zones of
                      Some z \<Rightarrow> Inr (zone_ID z) | None \<Rightarrow> Inl ''cf_zone_not_found''))"

section \<open>Properties\<close>

lemmas check_defs = checkDistro_def checkDisk_def checkSudo_def checkDocker_def checkPorts_def

lemma block_fields [simp]:
  "pf_BlockingFailures (block b r) = pf_BlockingFailures r @ [b]" "pf_Port80Free (block b r) = pf_Port80Free r"
  "pf_BlockingFailures (warn w r) = pf_BlockingFailures r" "pf_Port443Free (warn w r) = pf_Port443Free r"
  by (simp_all add: block_def warn_def)

text \<open>What each check demands of the host.\<close>

definition distro_ok :: "ssh_session \<Rightarrow> bool" where
  "distro_ok ssh = (case ssh ''cat /etc/os-release'' of Inl _ \<Rightarrow> False
     | Inr c \<Rightarrow> CheckDistro (fst (ParseOSRelease c)) (snd (ParseOSRelease c)))"

definition disk_ok :: "parse_float \<Rightarrow> ssh_session \<Rightarrow> bool" where
  "disk_ok pf ssh = (case ssh ''df -h /'' of Inl _ \<Rightarrow> False
     | Inr out \<Rightarrow> (case split_on (chr 10) (trim_space out) of
          h # l # ls \<Rightarrow> length (Fields l) \<ge> 4
             \<and> (\<forall>gb. parseDiskSize pf (Fields l ! 3) = Some gb \<longrightarrow> 2 \<le> gb)
        | _ \<Rightarrow> False))"

definition port443_ok :: "ssh_session \<Rightarrow> bool" where
  "port443_ok ssh = (case ssh ''ss -tlnp 2>/dev/null || netstat -tlnp 2>/dev/null'' of
     Inl _ \<Rightarrow> True | Inr out \<Rightarrow> \<not> contains out '':443 '')"

lemma checkDistro_failures:
  "pf_BlockingFailures (checkDistro ssh r) = [] \<longleftrightarrow> pf_BlockingFailures r = [] \<and> distro_ok ssh"
  by (auto simp: checkDistro_def distro_ok_def Let_def split: sum.splits prod.splits)

lemma checkDisk_failures:
  "pf_BlockingFailures (checkDisk pf ssh r) = [] \<longleftrightarrow> pf_BlockingFailures r = [] \<and> disk_ok pf ssh"
proof (cases "ssh ''df -h /''")
  case (Inl e)
  then show ?thesis by (simp add: checkDisk_def disk_ok_def)
next
  case (Inr out)
  show ?thesis
  proof (cases "split_on (chr 10) (trim_space out)")
    case (Cons h t)
    then show ?thesis using Inr
      by (cases t) (auto simp: checkDisk_def disk_ok_def Let_def not_less split: option.splits)
  qed simp
qed

lemma checkSudo_failures:
  "pf_BlockingFailures (checkSudo ssh r) = [] \<longleftrightarrow> pf_BlockingFailures r = [] \<and> (\<exists>out. ssh ''sudo -n true'' = Inr out)"
  by (auto simp: checkSudo_def split: sum.splits)

lemma checkDocker_failures [simp]: "pf_BlockingFailures (checkDocker ssh r) = pf_BlockingFailures r"
  by (auto simp: checkDocker_def Let_def split: sum.splits)

lemma checkPorts_failures:
  "pf_BlockingFailures (checkPorts ssh r) = [] \<longleftrightarrow> pf_BlockingFailures r = [] \<and> port443_ok ssh"
  by (auto simp: checkPorts_def port443_ok_def Let_def split: sum.splits)

text \<open>what makes a host compatible. The preflight declares a host compatible exactly when its
  distribution is supported, \<open>df\<close> gives four fields and no parsable size below 2 GB, passwordless
  sudo works, and no socket is listed on port 443 (an unavailable socket list does not count
  against it).\<close>

theorem preflight_compatible_iff:
  "pf_Compatible (preflight_Run pf ssh host now) \<longleftrightarrow>
     distro_ok ssh \<and> disk_ok pf ssh \<and> (\<exists>out. ssh ''sudo -n true'' = Inr out) \<and> port443_ok ssh"
proof -
  let ?r = "checkPorts ssh (checkDocker ssh (checkSudo ssh (checkDisk pf ssh (checkDistro ssh (preflight_empty host now)))))"
  have "pf_Compatible (preflight_Run pf ssh host now) \<longleftrightarrow> pf_BlockingFailures ?r = []"
    by (simp add: preflight_Run_def Let_def)
  then show ?thesis
    by (auto simp: checkPorts_failures checkSudo_failures checkDisk_failures checkDistro_failures preflight_empty_def)
qed

lemma dns_Validate_TLS:
  "dc_TLSFeasible (dns_Validate res domain ip p80 now) = p80"
  "dc_TLSStrategy (dns_Validate res domain ip p80 now) = ''http-01''"
  by (simp_all add: dns_Validate_def Let_def split: sum.split)

lemma dns_Validate_points:
  "dc_PointsToVPS (dns_Validate res domain ip p80 now) = (\<exists>ips. LookupHost res domain = Inr ips \<and> ip \<in> set ips)"
  by (simp add: dns_Validate_def Let_def split: sum.split)

text \<open>the DNS challenge is never chosen. The domain check leaves the Cloudflare token's validity
  unset, so the certificate strategy is always the HTTP challenge and it is reported feasible
  exactly when port 80 is free, also for a domain hosted at Cloudflare.\<close>

theorem dns_challenge_unreachable:
  "dc_TLSStrategy (dns_Validate res domain ip p80 now) = ''http-01''
   \<and> dc_TLSFeasible (dns_Validate res domain ip p80 now) = p80
   \<and> dc_PointsToVPS (dns_Validate res domain ip p80 now)
       = (\<exists>ips. LookupHost res domain = Inr ips \<and> ip \<in> set ips)"
  by (simp add: dns_Validate_TLS dns_Validate_points)

text \<open>A token whose only permission is to read DNS records passes the check for an edit scope.\<close>

lemma cloudflare_read_scope_accepted:
  "ValidateCloudflareToken \<lparr>ListZones = Inr [\<lparr>zone_ID = ''z'', zone_Name = ''example.org''\<rparr>],
      VerifyCFToken = Inr (True, [''Zone:DNS:Read''])\<rparr> ''t'' ''a.example.org'' = Inr ''z''"
  by (simp add: ValidateCloudflareToken_def has_prefix_def has_suffix_def)

lemma ValidateCloudflareToken_zone:
  assumes "ValidateCloudflareToken api token domain = Inr z"
  shows "\<exists>zs n. ListZones api = Inr zs \<and> \<lparr>zone_ID = z, zone_Name = n\<rparr> \<in> set zs
     \<and> (n = domain \<or> has_suffix domain (''.'' @ n))"
  using assms
  by (auto simp: ValidateCloudflareToken_def split: if_splits sum.splits option.splits dest!: find_Some_in)
    (metis cf_zone.surjective old.unit.exhaust)+

lemma dash_dots_no_dot: "CHR ''.'' \<notin> set (dash_dots s)"
  by (auto simp: dash_dots_def)

end
