(* ===== verification/Wizard.thy ===== *)
theory Wizard
  imports Atomic_File Host_Checks
begin

text \<open>
  The setup wizard: its state and reducer (\<open>wizard/wizard.go\<close>), its state file
  (\<open>wizard/state.go\<close>), its HTTP handlers (\<open>wizard/handlers.go\<close>) and the commit that runs in the
  background (\<open>wizard/bootstrap.go\<close>). A step that is none of the ten known ones is \<open>StepOther\<close>. The
  reducer mutates the state only on its successful paths, so it is a function to an error or the new
  state. The background commit is a separate operation on the state file, so that its interleaving
  with other requests is explicit; the provisioner it calls is a record of functions.
\<close>

section \<open>Steps and state\<close>

datatype wizard_step = StepWelcome | StepSSH | StepPreflight | StepDomainMode | StepDomainCheck
  | StepCloudflare | StepCreatePeer | StepCommit | StepSuccess | StepError | StepOther string

fun step_name :: "wizard_step \<Rightarrow> string" where
  "step_name StepWelcome = ''welcome''"
| "step_name StepSSH = ''ssh''"
| "step_name StepPreflight = ''preflight''"
| "step_name StepDomainMode = ''domain_mode''"
| "step_name StepDomainCheck = ''domain_check''"
| "step_name StepCloudflare = ''cloudflare''"
| "step_name StepCreatePeer = ''create_peer''"
| "step_name StepCommit = ''commit''"
| "step_name StepSuccess = ''success''"
| "step_name StepError = ''error''"
| "step_name (StepOther s) = s"

definition validSteps :: "wizard_step list" where
  "validSteps = [StepWelcome, StepSSH, StepPreflight, StepDomainMode, StepDomainCheck, StepCloudflare,
     StepCreatePeer, StepCommit, StepSuccess, StepError]"

definition step_of_string :: "string \<Rightarrow> wizard_step" where
  "step_of_string s = (case List.find (\<lambda>st. step_name st = s) validSteps of Some st \<Rightarrow> st | None \<Rightarrow> StepOther s)"

definition IsValidStep :: "wizard_step \<Rightarrow> bool" where
  "IsValidStep s \<longleftrightarrow> s \<in> set validSteps"

datatype session_status = StatusInProgress | StatusCommitted | StatusAbandoned | StatusEmpty

record ssh_input =
  ssh_Host :: string
  ssh_Port :: int
  ssh_User :: string
  ssh_AuthType :: string
  ssh_KeyPath :: string
  ssh_Password :: string

record port_expose =
  exp_LocalPort :: int
  exp_Subdomain :: string

record wizard_inputs =
  in_SSH :: "ssh_input option"
  in_DomainMode :: string
  in_Domain :: string
  in_CloudflareToken :: string
  in_NipioEnabled :: bool
  in_FirstPeerName :: string
  in_FirstPortExpose :: "port_expose option"

record wizard_state =
  ws_SessionID :: string
  ws_CurrentStep :: wizard_step
  ws_Status :: session_status
  ws_Inputs :: wizard_inputs
  ws_PreflightResult :: "preflight_result option"
  ws_DomainCheckResult :: "domain_check_result option"
  ws_ProgressPct :: int
  ws_StartedAt :: string
  ws_LastSavedAt :: string
  ws_CommittedAt :: string
  ws_ErrorMessage :: string

fun stepProgress :: "wizard_step \<Rightarrow> int" where
  "stepProgress StepWelcome = 0"
| "stepProgress StepSSH = 12"
| "stepProgress StepPreflight = 25"
| "stepProgress StepDomainMode = 37"
| "stepProgress StepDomainCheck = 50"
| "stepProgress StepCloudflare = 62"
| "stepProgress StepCreatePeer = 75"
| "stepProgress StepCommit = 87"
| "stepProgress StepSuccess = 100"
| "stepProgress StepError = 0"
| "stepProgress (StepOther _) = 0"

definition NewState :: "string \<Rightarrow> string \<Rightarrow> wizard_state" where
  "NewState uuid now = \<lparr>ws_SessionID = uuid, ws_CurrentStep = StepWelcome, ws_Status = StatusInProgress,
     ws_Inputs = \<lparr>in_SSH = None, in_DomainMode = [], in_Domain = [], in_CloudflareToken = [],
       in_NipioEnabled = False, in_FirstPeerName = [], in_FirstPortExpose = None\<rparr>,
     ws_PreflightResult = None, ws_DomainCheckResult = None, ws_ProgressPct = 0, ws_StartedAt = now,
     ws_LastSavedAt = now, ws_CommittedAt = [], ws_ErrorMessage = []\<rparr>"

section \<open>The reducer\<close>

text \<open>An action; the data of a preflight or domain result is \<open>None\<close> when it has the wrong type.\<close>

datatype wizard_action = ActionStartSession | ActionStepComplete wizard_step | ActionStepBack wizard_step
  | ActionPreflight "preflight_result option" | ActionDomainCheck "domain_check_result option"
  | ActionCommitStart | ActionCommitSuccess | ActionCommitFailure string | ActionRetry | ActionAbandon
  | ActionUnknown string

datatype wizard_error = NilState | TransitionError wizard_step wizard_step | InvalidStep wizard_step
  | InvalidData | UnknownAction string

text \<open>The transition table, in order: from, to, guard. The first row for a pair decides.\<close>

definition transitions :: "(wizard_step \<times> wizard_step \<times> (wizard_state \<Rightarrow> bool)) list" where
  "transitions =
     [(StepWelcome, StepSSH, \<lambda>s. True),
      (StepSSH, StepWelcome, \<lambda>s. True),
      (StepSSH, StepPreflight, \<lambda>s. in_SSH (ws_Inputs s) \<noteq> None),
      (StepPreflight, StepSSH, \<lambda>s. True),
      (StepPreflight, StepDomainMode, \<lambda>s. case ws_PreflightResult s of None \<Rightarrow> False | Some r \<Rightarrow> pf_Compatible r),
      (StepPreflight, StepSSH, \<lambda>s. case ws_PreflightResult s of None \<Rightarrow> False | Some r \<Rightarrow> \<not> pf_Compatible r),
      (StepDomainMode, StepPreflight, \<lambda>s. True),
      (StepDomainMode, StepDomainCheck, \<lambda>s. in_DomainMode (ws_Inputs s) = ''byo''),
      (StepDomainMode, StepCreatePeer, \<lambda>s. in_DomainMode (ws_Inputs s) = ''nipio''),
      (StepDomainCheck, StepDomainMode, \<lambda>s. True),
      (StepDomainCheck, StepCloudflare, \<lambda>s. case ws_DomainCheckResult s of None \<Rightarrow> False
          | Some r \<Rightarrow> dc_CloudflareDetected r \<and> dc_TLSFeasible r),
      (StepDomainCheck, StepCreatePeer, \<lambda>s. case ws_DomainCheckResult s of None \<Rightarrow> False
          | Some r \<Rightarrow> dc_TLSFeasible r \<and> \<not> dc_CloudflareDetected r),
      (StepCloudflare, StepDomainCheck, \<lambda>s. True),
      (StepCloudflare, StepCreatePeer, \<lambda>s. in_CloudflareToken (ws_Inputs s) \<noteq> []),
      (StepCreatePeer, StepCloudflare, \<lambda>s. True),
      (StepCreatePeer, StepDomainMode, \<lambda>s. True),
      (StepCreatePeer, StepCommit, \<lambda>s. in_FirstPeerName (ws_Inputs s) \<noteq> []),
      (StepCommit, StepSuccess, \<lambda>s. True),
      (StepCommit, StepError, \<lambda>s. True),
      (StepError, StepSSH, \<lambda>s. True),
      (StepError, StepWelcome, \<lambda>s. True)]"

definition isTransitionAllowed :: "wizard_step \<Rightarrow> wizard_step \<Rightarrow> wizard_state \<Rightarrow> bool" where
  "isTransitionAllowed from to state =
     (case List.find (\<lambda>(f, t, g). f = from \<and> t = to) transitions of
        None \<Rightarrow> False | Some (_, _, g) \<Rightarrow> g state)"

fun backNavAllowed :: "wizard_step \<Rightarrow> bool" where
  "backNavAllowed StepSSH = True"
| "backNavAllowed StepPreflight = True"
| "backNavAllowed StepDomainMode = True"
| "backNavAllowed StepDomainCheck = True"
| "backNavAllowed StepCloudflare = True"
| "backNavAllowed StepCreatePeer = True"
| "backNavAllowed _ = False"

definition handleStartSession :: "wizard_state \<Rightarrow> wizard_error + wizard_state" where
  "handleStartSession s =
     (if ws_Status s \<noteq> StatusEmpty \<and> ws_Status s \<noteq> StatusInProgress
      then Inl (TransitionError (ws_CurrentStep s) StepWelcome)
      else Inr (s\<lparr>ws_CurrentStep := StepWelcome, ws_Status := StatusInProgress, ws_ProgressPct := stepProgress StepWelcome\<rparr>))"

definition goto_step :: "string \<Rightarrow> wizard_step \<Rightarrow> wizard_state \<Rightarrow> wizard_state" where
  "goto_step now t s = s\<lparr>ws_CurrentStep := t, ws_ProgressPct := stepProgress t, ws_LastSavedAt := now\<rparr>"

definition handleStepComplete :: "string \<Rightarrow> wizard_step \<Rightarrow> wizard_state \<Rightarrow> wizard_error + wizard_state" where
  "handleStepComplete now t s =
     (if \<not> IsValidStep t then Inl (InvalidStep t)
      else if \<not> isTransitionAllowed (ws_CurrentStep s) t s then Inl (TransitionError (ws_CurrentStep s) t)
      else Inr (goto_step now t s))"

definition handleStepBack :: "string \<Rightarrow> wizard_step \<Rightarrow> wizard_state \<Rightarrow> wizard_error + wizard_state" where
  "handleStepBack now t s =
     (if \<not> backNavAllowed (ws_CurrentStep s) then Inl (TransitionError (ws_CurrentStep s) t)
      else if \<not> IsValidStep t then Inl (InvalidStep t)
      else Inr (goto_step now t s))"

definition handlePreflightResult :: "string \<Rightarrow> preflight_result option \<Rightarrow> wizard_state \<Rightarrow> wizard_error + wizard_state" where
  "handlePreflightResult now data s =
     (if ws_CurrentStep s \<noteq> StepPreflight then Inl (TransitionError (ws_CurrentStep s) StepPreflight)
      else case data of
        None \<Rightarrow> Inl InvalidData
      | Some r \<Rightarrow>
          let s1 = s\<lparr>ws_PreflightResult := Some r, ws_LastSavedAt := now\<rparr> in
          Inr (if pf_Compatible r
               then s1\<lparr>ws_CurrentStep := StepDomainMode, ws_ProgressPct := stepProgress StepDomainMode\<rparr> else s1))"

definition handleDomainCheckResult :: "string \<Rightarrow> domain_check_result option \<Rightarrow> wizard_state \<Rightarrow> wizard_error + wizard_state" where
  "handleDomainCheckResult now data s =
     (if ws_CurrentStep s \<noteq> StepDomainCheck then Inl (TransitionError (ws_CurrentStep s) StepDomainCheck)
      else case data of
        None \<Rightarrow> Inl InvalidData
      | Some r \<Rightarrow>
          let s1 = s\<lparr>ws_DomainCheckResult := Some r, ws_LastSavedAt := now\<rparr> in
          Inr (if \<not> dc_TLSFeasible r then s1
               else if dc_CloudflareDetected r
               then s1\<lparr>ws_CurrentStep := StepCloudflare, ws_ProgressPct := stepProgress StepCloudflare\<rparr>
               else s1\<lparr>ws_CurrentStep := StepCreatePeer, ws_ProgressPct := stepProgress StepCreatePeer\<rparr>))"

definition handleCommitStart :: "string \<Rightarrow> wizard_state \<Rightarrow> wizard_error + wizard_state" where
  "handleCommitStart now s =
     (if ws_CurrentStep s \<noteq> StepCommit then Inl (TransitionError (ws_CurrentStep s) StepCommit)
      else Inr (s\<lparr>ws_LastSavedAt := now\<rparr>))"

definition handleCommitSuccess :: "string \<Rightarrow> wizard_state \<Rightarrow> wizard_error + wizard_state" where
  "handleCommitSuccess now s =
     (if ws_CurrentStep s \<noteq> StepCommit then Inl (TransitionError (ws_CurrentStep s) StepSuccess)
      else Inr (s\<lparr>ws_CurrentStep := StepSuccess, ws_Status := StatusCommitted, ws_ProgressPct := 100,
                  ws_CommittedAt := now, ws_LastSavedAt := now\<rparr>))"

definition handleCommitFailure :: "string \<Rightarrow> string \<Rightarrow> wizard_state \<Rightarrow> wizard_error + wizard_state" where
  "handleCommitFailure now msg s =
     (if ws_CurrentStep s \<noteq> StepCommit then Inl (TransitionError (ws_CurrentStep s) StepError)
      else Inr (s\<lparr>ws_CurrentStep := StepError, ws_ErrorMessage := msg, ws_LastSavedAt := now\<rparr>))"

definition handleRetry :: "string \<Rightarrow> wizard_state \<Rightarrow> wizard_error + wizard_state" where
  "handleRetry now s =
     (if ws_CurrentStep s \<noteq> StepError then Inl (TransitionError (ws_CurrentStep s) StepSSH)
      else Inr (s\<lparr>ws_CurrentStep := StepSSH, ws_ErrorMessage := [], ws_PreflightResult := None,
                  ws_DomainCheckResult := None, ws_ProgressPct := stepProgress StepSSH, ws_LastSavedAt := now\<rparr>))"

definition handleAbandon :: "string \<Rightarrow> wizard_state \<Rightarrow> wizard_error + wizard_state" where
  "handleAbandon now s = Inr (s\<lparr>ws_Status := StatusAbandoned, ws_LastSavedAt := now\<rparr>)"

fun Reducer :: "string \<Rightarrow> wizard_action \<Rightarrow> wizard_state option \<Rightarrow> wizard_error + wizard_state" where
  "Reducer now a None = Inl NilState"
| "Reducer now ActionStartSession (Some s) = handleStartSession s"
| "Reducer now (ActionStepComplete t) (Some s) = handleStepComplete now t s"
| "Reducer now (ActionStepBack t) (Some s) = handleStepBack now t s"
| "Reducer now (ActionPreflight d) (Some s) = handlePreflightResult now d s"
| "Reducer now (ActionDomainCheck d) (Some s) = handleDomainCheckResult now d s"
| "Reducer now ActionCommitStart (Some s) = handleCommitStart now s"
| "Reducer now ActionCommitSuccess (Some s) = handleCommitSuccess now s"
| "Reducer now (ActionCommitFailure m) (Some s) = handleCommitFailure now m s"
| "Reducer now ActionRetry (Some s) = handleRetry now s"
| "Reducer now ActionAbandon (Some s) = handleAbandon now s"
| "Reducer now (ActionUnknown t) (Some s) = Inl (UnknownAction t)"

section \<open>The state file\<close>

definition hex :: "char \<Rightarrow> bool" where
  "hex c \<longleftrightarrow> is_digit c \<or> (97 \<le> byte c \<and> byte c \<le> 102) \<or> (65 \<le> byte c \<and> byte c \<le> 70)"

definition uuidPattern :: "string \<Rightarrow> bool" where
  "uuidPattern s \<longleftrightarrow> (case split_on (CHR ''-'') s of
     [a, b, c, d, e] \<Rightarrow> length a = 8 \<and> length b = 4 \<and> length c = 4 \<and> length d = 4 \<and> length e = 12
        \<and> list_all hex (a @ b @ c @ d @ e)
   | _ \<Rightarrow> False)"

datatype load_error = LoadRead | LoadEmpty | LoadJSON | LoadSessionID | LoadStep

text \<open>\<open>SaveState\<close> stamps the state it is given, then replaces the file; failing to set the mode of
  the temporary file is an error here.\<close>

definition write_state :: "io_env \<Rightarrow> wizard_state \<Rightarrow> wizard_state disk \<Rightarrow> io_error option \<times> wizard_state disk" where
  "write_state io s d =
     (if \<not> marshal_ok io then (Some EMarshal, d)
      else if \<not> mkdir_ok io then (Some EMkdir, d)
      else if \<not> create_ok io then (Some ECreate, d)
      else
        let d1 = create_temp d in
        if \<not> write_ok io then (Some EWrite, remove_temp io d1)
        else if \<not> chmod_ok io then (Some EChmod, remove_temp io d1)
        else if \<not> close_ok io then (Some EClose, remove_temp io d1)
        else if \<not> rename_ok io then (Some ERename, remove_temp io d1)
        else (None, rename_temp s d1))"

definition SaveState :: "io_env \<Rightarrow> string \<Rightarrow> wizard_state \<Rightarrow> wizard_state disk \<Rightarrow> io_error option \<times> wizard_state disk" where
  "SaveState io now s d = write_state io (s\<lparr>ws_LastSavedAt := now\<rparr>) d"

definition LoadState :: "wizard_state disk \<Rightarrow> load_error + wizard_state option" where
  "LoadState d =
     (case target d of
        NoFile \<Rightarrow> Inr None
      | Unreadable \<Rightarrow> Inl LoadRead
      | Blank \<Rightarrow> Inl LoadEmpty
      | Garbage \<Rightarrow> Inl LoadJSON
      | Holds s \<Rightarrow>
          if \<not> uuidPattern (ws_SessionID s) then Inl LoadSessionID
          else if \<not> IsValidStep (ws_CurrentStep s) then Inl LoadStep
          else Inr (Some s))"

definition DeleteState :: "bool \<Rightarrow> wizard_state disk \<Rightarrow> bool \<times> wizard_state disk" where
  "DeleteState remove_works d =
     (if target d = NoFile then (True, d)
      else if remove_works then (True, d\<lparr>target := NoFile\<rparr>) else (False, d))"

interpretation wizard_file: atomic_saver write_state
  by unfold_locales (auto simp: write_state_def io_all_ok_def Let_def split: if_splits)

end
