(* ===== verification/Wizard_Handlers.thy ===== *)
theory Wizard_Handlers
  imports Wizard
begin

text \<open>
  The HTTP handlers of the wizard and the background commit, over the state file. The running
  system is the file and the states of the commits that have been started and not yet finished; a
  step relation interleaves requests with the end of any started commit. Each handler, and the
  reload-reduce-save at the end of a commit, is one step: the sources hold no lock across them, and
  the finer interleavings are not modelled.
\<close>

section \<open>Handlers\<close>

datatype wiz_body = WBad | WSSH ssh_input | WMode string | WDomain string | WCloudflare string bool
  | WPeer string "port_expose option"

datatype wiz_reply = StateReply wizard_state | AbandonedReply string
  | StepReply string wizard_step wizard_step int | PreflightReply preflight_result | CommitReply string

record wiz_deps =
  wd_Resolver :: resolver
  wd_vpsIP :: string
  wd_Connect :: "ssh_input \<Rightarrow> string + ssh_session"
  wd_ParseFloat :: parse_float

record wiz_sys =
  sys_disk :: "wizard_state disk"
  sys_running :: "wizard_state list"

definition handleCreateSession :: "io_env \<Rightarrow> string \<Rightarrow> string \<Rightarrow> wizard_state disk \<Rightarrow> wiz_reply reply \<times> wizard_state disk" where
  "handleCreateSession io uuid now d =
     (case LoadState d of
        Inl _ \<Rightarrow> (ErrorResponse 500 ''state_error'', d)
      | Inr (Some existing) \<Rightarrow> (ErrorResponse 409 ''session_exists'', d)
      | Inr None \<Rightarrow>
          (case SaveState io now (NewState uuid now) d of
             (Some _, d1) \<Rightarrow> (ErrorResponse 500 ''save_error'', d1)
           | (None, d1) \<Rightarrow> (JSONResponse 200 (StateReply (NewState uuid now)), d1)))"

definition redactState :: "wizard_state \<Rightarrow> wizard_state" where
  "redactState s =
     (let i1 = (case in_SSH (ws_Inputs s) of
           None \<Rightarrow> ws_Inputs s
         | Some ssh \<Rightarrow> if ssh_Password ssh \<noteq> [] then (ws_Inputs s)\<lparr>in_SSH := Some (ssh\<lparr>ssh_Password := ''[REDACTED]''\<rparr>)\<rparr>
                       else ws_Inputs s);
          token = in_CloudflareToken i1;
          i2 = (if token \<noteq> [] then
                  i1\<lparr>in_CloudflareToken := (if length token > 8 then take 8 token @ ''...'' else token @ ''...'')\<rparr>
                else i1)
      in s\<lparr>ws_Inputs := i2\<rparr>)"

definition handleGetSession :: "string \<Rightarrow> wizard_state disk \<Rightarrow> wiz_reply reply" where
  "handleGetSession i d =
     (case LoadState d of
        Inl _ \<Rightarrow> ErrorResponse 500 ''state_error''
      | Inr None \<Rightarrow> ErrorResponse 404 ''not_found''
      | Inr (Some s) \<Rightarrow>
          if ws_SessionID s \<noteq> i then ErrorResponse 404 ''not_found''
          else if ws_CurrentStep s = StepCommit \<and> ws_Status s = StatusInProgress then JSONResponse 200 (StateReply s)
          else JSONResponse 200 (StateReply (redactState s)))"

definition handleDeleteSession :: "bool \<Rightarrow> string \<Rightarrow> string \<Rightarrow> wizard_state disk \<Rightarrow> wiz_reply reply \<times> wizard_state disk" where
  "handleDeleteSession remove_works now i d =
     (case LoadState d of
        Inl _ \<Rightarrow> (ErrorResponse 500 ''state_error'', d)
      | Inr None \<Rightarrow> (ErrorResponse 404 ''not_found'', d)
      | Inr (Some s) \<Rightarrow>
          if ws_SessionID s \<noteq> i then (ErrorResponse 404 ''not_found'', d)
          else case Reducer now ActionAbandon (Some s) of
                 Inl _ \<Rightarrow> (ErrorResponse 500 ''reducer_error'', d)
               | Inr _ \<Rightarrow>
                   let (ok, d1) = DeleteState remove_works d in
                   if \<not> ok then (ErrorResponse 500 ''delete_error'', d1) else (JSONResponse 200 (AbandonedReply i), d1))"

definition set_inputs :: "(wizard_inputs \<Rightarrow> wizard_inputs) \<Rightarrow> wizard_state \<Rightarrow> wizard_state" where
  "set_inputs f s = s\<lparr>ws_Inputs := f (ws_Inputs s)\<rparr>"

definition applyStepInput :: "wizard_step \<Rightarrow> wiz_body \<Rightarrow> wizard_state \<Rightarrow> wizard_state option" where
  "applyStepInput step body s =
     (case step of
        StepWelcome \<Rightarrow> Some s
      | StepSSH \<Rightarrow> (case body of
            WSSH input \<Rightarrow>
              if ssh_Host input = [] then None
              else if ssh_Port input \<le> 0 then None
              else if ssh_User input = [] then None
              else if ssh_AuthType input = [] then None
              else Some (set_inputs (in_SSH_update (\<lambda>_. Some input)) s)
          | _ \<Rightarrow> None)
      | StepDomainMode \<Rightarrow> (case body of
            WMode mode \<Rightarrow>
              if mode \<noteq> ''byo'' \<and> mode \<noteq> ''nipio'' then None
              else Some (set_inputs (\<lambda>i. i\<lparr>in_DomainMode := mode, in_NipioEnabled := (mode = ''nipio'')\<rparr>) s)
          | _ \<Rightarrow> None)
      | StepDomainCheck \<Rightarrow> (case body of
            WDomain domain \<Rightarrow> if domain = [] then None else Some (set_inputs (in_Domain_update (\<lambda>_. domain)) s)
          | _ \<Rightarrow> None)
      | StepCloudflare \<Rightarrow> (case body of
            WCloudflare token enabled \<Rightarrow>
              if enabled \<and> token = [] then None else Some (set_inputs (in_CloudflareToken_update (\<lambda>_. token)) s)
          | _ \<Rightarrow> None)
      | StepCreatePeer \<Rightarrow> (case body of
            WPeer name port \<Rightarrow>
              if name = [] then None
              else Some (set_inputs (\<lambda>i. i\<lparr>in_FirstPeerName := name, in_FirstPortExpose := port\<rparr>) s)
          | _ \<Rightarrow> None)
      | _ \<Rightarrow> None)"

definition resolveNextStep :: "wizard_state \<Rightarrow> wizard_step \<Rightarrow> wizard_step option" where
  "resolveNextStep s current =
     (case current of
        StepWelcome \<Rightarrow> Some StepSSH
      | StepSSH \<Rightarrow> Some StepPreflight
      | StepDomainMode \<Rightarrow> if in_DomainMode (ws_Inputs s) = ''nipio'' then Some StepCreatePeer else Some StepDomainCheck
      | StepDomainCheck \<Rightarrow>
          (case ws_DomainCheckResult s of
             Some r \<Rightarrow>
               if dc_CloudflareDetected r \<and> dc_TLSFeasible r then Some StepCloudflare
               else if dc_TLSFeasible r then Some StepCreatePeer
               else Some StepCreatePeer
           | None \<Rightarrow> Some StepCreatePeer)
      | StepCloudflare \<Rightarrow> Some StepCreatePeer
      | StepCreatePeer \<Rightarrow> Some StepCommit
      | _ \<Rightarrow> None)"

definition run_domain_check :: "wiz_deps \<Rightarrow> string \<Rightarrow> wizard_state \<Rightarrow> wizard_state" where
  "run_domain_check deps now s =
     (let port80Free = (case ws_PreflightResult s of None \<Rightarrow> True | Some r \<Rightarrow> pf_Port80Free r)
      in s\<lparr>ws_DomainCheckResult :=
            Some (dns_Validate (wd_Resolver deps) (in_Domain (ws_Inputs s)) (wd_vpsIP deps) port80Free now)\<rparr>)"

definition handleStepSubmit ::
  "wiz_deps \<Rightarrow> io_env \<Rightarrow> string \<Rightarrow> string \<Rightarrow> string \<Rightarrow> wiz_body \<Rightarrow> wizard_state disk
     \<Rightarrow> wiz_reply reply \<times> wizard_state disk" where
  "handleStepSubmit deps io now i stepStr body d =
     (case LoadState d of
        Inl _ \<Rightarrow> (ErrorResponse 500 ''state_error'', d)
      | Inr None \<Rightarrow> (ErrorResponse 404 ''not_found'', d)
      | Inr (Some s) \<Rightarrow>
          if ws_SessionID s \<noteq> i then (ErrorResponse 404 ''not_found'', d)
          else
            let step = step_of_string stepStr in
            if \<not> IsValidStep step then (ErrorResponse 422 ''invalid_step'', d)
            else if ws_CurrentStep s \<noteq> step then (ErrorResponse 409 ''invalid_step_order'', d)
            else case applyStepInput step body s of
              None \<Rightarrow> (ErrorResponse 422 ''validation_error'', d)
            | Some s1 \<Rightarrow>
                let s2 = (if step = StepDomainCheck then run_domain_check deps now s1 else s1) in
                case resolveNextStep s2 step of
                  None \<Rightarrow> (ErrorResponse 422 ''transition_error'', d)
                | Some nextStep \<Rightarrow>
                    (case Reducer now (ActionStepComplete nextStep) (Some s2) of
                       Inl _ \<Rightarrow> (ErrorResponse 500 ''reducer_error'', d)
                     | Inr u \<Rightarrow>
                         (case SaveState io now u d of
                            (Some _, d1) \<Rightarrow> (ErrorResponse 500 ''save_error'', d1)
                          | (None, d1) \<Rightarrow>
                              (JSONResponse 200 (StepReply (ws_SessionID u) step nextStep (ws_ProgressPct u)), d1))))"

definition handlePreflight ::
  "wiz_deps \<Rightarrow> io_env \<Rightarrow> string \<Rightarrow> string \<Rightarrow> wizard_state disk \<Rightarrow> wiz_reply reply \<times> wizard_state disk" where
  "handlePreflight deps io now i d =
     (case LoadState d of
        Inl _ \<Rightarrow> (ErrorResponse 500 ''state_error'', d)
      | Inr None \<Rightarrow> (ErrorResponse 404 ''not_found'', d)
      | Inr (Some s) \<Rightarrow>
          if ws_SessionID s \<noteq> i then (ErrorResponse 404 ''not_found'', d)
          else if ws_CurrentStep s \<noteq> StepPreflight then (ErrorResponse 409 ''invalid_step'', d)
          else case in_SSH (ws_Inputs s) of
            None \<Rightarrow> (ErrorResponse 422 ''missing_ssh'', d)
          | Some cfg \<Rightarrow>
              (case wd_Connect deps cfg of
                 Inl _ \<Rightarrow> (ErrorResponse 502 ''ssh_connect_failed'', d)
               | Inr sess \<Rightarrow>
                   let pr = preflight_Run (wd_ParseFloat deps) sess (ssh_Host cfg) now in
                   (case Reducer now (ActionPreflight (Some pr)) (Some s) of
                      Inl _ \<Rightarrow> (ErrorResponse 500 ''reducer_error'', d)
                    | Inr u \<Rightarrow>
                        (case SaveState io now u d of
                           (Some _, d1) \<Rightarrow> (ErrorResponse 500 ''save_error'', d1)
                         | (None, d1) \<Rightarrow> (JSONResponse (if pf_Compatible pr then 200 else 422) (PreflightReply pr), d1)))))"

section \<open>Commit\<close>

record boot_result =
  br_WGEndpoint :: string
  br_ServerPubKey :: string

record peer_result =
  pr_PeerID :: string
  pr_PublicKey :: string
  pr_LocalIP :: string

record route_result =
  rr_RouteID :: string
  rr_Subdomain :: string
  rr_FQDN :: string
  rr_URL :: string

record boot_deps =
  bd_Run :: "wizard_state \<Rightarrow> string + boot_result"
  bd_CreatePeer :: "string \<Rightarrow> wizard_state \<Rightarrow> string + peer_result"
  bd_ExposeRoute :: "int \<Rightarrow> string \<Rightarrow> wizard_state \<Rightarrow> string + route_result"

definition handleCommit :: "io_env \<Rightarrow> string \<Rightarrow> string \<Rightarrow> wiz_sys \<Rightarrow> wiz_reply reply \<times> wiz_sys" where
  "handleCommit io now i sys =
     (let d = sys_disk sys in
      case LoadState d of
        Inl _ \<Rightarrow> (ErrorResponse 500 ''state_error'', sys)
      | Inr None \<Rightarrow> (ErrorResponse 404 ''not_found'', sys)
      | Inr (Some s) \<Rightarrow>
          if ws_SessionID s \<noteq> i then (ErrorResponse 404 ''not_found'', sys)
          else if ws_CurrentStep s \<noteq> StepCommit then (ErrorResponse 409 ''invalid_step'', sys)
          else if ws_Status s \<noteq> StatusInProgress then (ErrorResponse 409 ''invalid_status'', sys)
          else case Reducer now ActionCommitStart (Some s) of
            Inl _ \<Rightarrow> (ErrorResponse 500 ''reducer_error'', sys)
          | Inr u \<Rightarrow>
              (case SaveState io now u d of
                 (Some _, d1) \<Rightarrow> (ErrorResponse 500 ''save_error'', sys\<lparr>sys_disk := d1\<rparr>)
               | (None, d1) \<Rightarrow>
                   (JSONResponse 202 (CommitReply i),
                    sys\<lparr>sys_disk := d1, sys_running := sys_running sys @ [u\<lparr>ws_LastSavedAt := now\<rparr>]\<rparr>)))"

definition commitFailure :: "io_env \<Rightarrow> string \<Rightarrow> string \<Rightarrow> wizard_state disk \<Rightarrow> wizard_state disk" where
  "commitFailure io now msg d =
     (case LoadState d of
        Inl _ \<Rightarrow> d
      | Inr loaded \<Rightarrow>
          (case Reducer now (ActionCommitFailure msg) loaded of
             Inl _ \<Rightarrow> d
           | Inr u \<Rightarrow> snd (SaveState io now u d)))"

text \<open>How the background goroutine ends; a nil dereference takes the whole daemon down.\<close>

datatype boot_end = Returned | Panicked

definition runBootstrap ::
  "boot_deps \<Rightarrow> io_env \<Rightarrow> string \<Rightarrow> wizard_state \<Rightarrow> wizard_state disk \<Rightarrow> boot_end \<times> wizard_state disk" where
  "runBootstrap bd io now s d =
     (case bd_Run bd s of
        Inl e \<Rightarrow> (Returned, commitFailure io now e d)
      | Inr boot \<Rightarrow>
          (case bd_CreatePeer bd (in_FirstPeerName (ws_Inputs s)) s of
             Inl e \<Rightarrow> (Returned, commitFailure io now (''peer creation failed: '' @ e) d)
           | Inr peer \<Rightarrow>
               let finish = (\<lambda>route.
                     case LoadState d of
                       Inl _ \<Rightarrow> (Returned, commitFailure io now ''internal state error'' d)
                     | Inr loaded \<Rightarrow>
                         (case Reducer now ActionCommitSuccess loaded of
                            Inl _ \<Rightarrow> (Returned, d)
                          | Inr u \<Rightarrow>
                              (case SaveState io now u d of
                                 (Some _, d1) \<Rightarrow> (Returned, d1)
                               | (None, d1) \<Rightarrow> (if route = None then Panicked else Returned, d1))))
               in case in_FirstPortExpose (ws_Inputs s) of
                    None \<Rightarrow> finish None
                  | Some p \<Rightarrow>
                      (case bd_ExposeRoute bd (exp_LocalPort p) (exp_Subdomain p) s of
                         Inl e \<Rightarrow> (Returned, commitFailure io now (''route exposure failed: '' @ e) d)
                       | Inr r \<Rightarrow> finish (Some r))))"

section \<open>The running system\<close>

inductive wiz_step :: "wiz_sys \<Rightarrow> wiz_sys \<Rightarrow> bool" where
  Create: "uuidPattern uuid \<Longrightarrow> handleCreateSession io uuid now (sys_disk y) = (r, d) \<Longrightarrow>
    wiz_step y (y\<lparr>sys_disk := d\<rparr>)"
| Submit: "handleStepSubmit deps io now i st body (sys_disk y) = (r, d) \<Longrightarrow> wiz_step y (y\<lparr>sys_disk := d\<rparr>)"
| Preflight: "handlePreflight deps io now i (sys_disk y) = (r, d) \<Longrightarrow> wiz_step y (y\<lparr>sys_disk := d\<rparr>)"
| Delete: "handleDeleteSession w now i (sys_disk y) = (r, d) \<Longrightarrow> wiz_step y (y\<lparr>sys_disk := d\<rparr>)"
| Commit: "handleCommit io now i y = (r, y') \<Longrightarrow> wiz_step y y'"
| Boot: "sys_running y = xs @ s # zs \<Longrightarrow> runBootstrap bd io now s (sys_disk y) = (e, d) \<Longrightarrow>
    wiz_step y (y\<lparr>sys_disk := d, sys_running := xs @ zs\<rparr>)"

inductive_cases wiz_step_E: "wiz_step y y'"

inductive wiz_reach :: "wiz_sys \<Rightarrow> bool" where
  Start: "wiz_reach \<lparr>sys_disk = \<lparr>target = NoFile, strays = 0\<rparr>, sys_running = []\<rparr>"
| Step: "wiz_reach y \<Longrightarrow> wiz_step y y' \<Longrightarrow> wiz_reach y'"

end
