(* ===== verification/Wizard_Safety.thy ===== *)
theory Wizard_Safety
  imports Wizard_Handlers
begin

text \<open>
  Properties of the wizard as a running system: every state that can be on disk has the data its
  step requires, accepted submissions only advance, and the commit phase has the defects that its
  unsynchronised background run allows.
\<close>

section \<open>The state invariant\<close>

fun step_index :: "wizard_step \<Rightarrow> nat" where
  "step_index StepWelcome = 0"
| "step_index StepSSH = 1"
| "step_index StepPreflight = 2"
| "step_index StepDomainMode = 3"
| "step_index StepDomainCheck = 4"
| "step_index StepCloudflare = 5"
| "step_index StepCreatePeer = 6"
| "step_index StepCommit = 7"
| "step_index StepSuccess = 8"
| "step_index StepError = 8"
| "step_index (StepOther _) = 0"

definition ssh_complete :: "ssh_input option \<Rightarrow> bool" where
  "ssh_complete v = (case v of None \<Rightarrow> False
     | Some i \<Rightarrow> ssh_Host i \<noteq> [] \<and> 0 < ssh_Port i \<and> ssh_User i \<noteq> [] \<and> ssh_AuthType i \<noteq> [])"

definition host_compatible :: "preflight_result option \<Rightarrow> bool" where
  "host_compatible v = (case v of None \<Rightarrow> False | Some r \<Rightarrow> pf_Compatible r)"

definition domain_settled :: "wizard_state \<Rightarrow> bool" where
  "domain_settled s \<longleftrightarrow> in_DomainMode (ws_Inputs s) = ''nipio'' \<or>
     (in_DomainMode (ws_Inputs s) = ''byo'' \<and> in_Domain (ws_Inputs s) \<noteq> [] \<and>
      (case ws_DomainCheckResult s of None \<Rightarrow> False
       | Some r \<Rightarrow> dc_TLSFeasible r \<and> (dc_CloudflareDetected r \<longrightarrow> in_CloudflareToken (ws_Inputs s) \<noteq> [])))"

definition cloudflare_pending :: "wizard_state \<Rightarrow> bool" where
  "cloudflare_pending s \<longleftrightarrow> in_DomainMode (ws_Inputs s) = ''byo'' \<and> in_Domain (ws_Inputs s) \<noteq> [] \<and>
     (case ws_DomainCheckResult s of None \<Rightarrow> False | Some r \<Rightarrow> dc_TLSFeasible r \<and> dc_CloudflareDetected r)"

definition wiz_inv :: "wizard_state \<Rightarrow> bool" where
  "wiz_inv s \<longleftrightarrow>
     uuidPattern (ws_SessionID s) \<and> IsValidStep (ws_CurrentStep s)
     \<and> (2 \<le> step_index (ws_CurrentStep s) \<longrightarrow> ssh_complete (in_SSH (ws_Inputs s)))
     \<and> (3 \<le> step_index (ws_CurrentStep s) \<longrightarrow> host_compatible (ws_PreflightResult s))
     \<and> (ws_CurrentStep s = StepDomainCheck \<longrightarrow> in_DomainMode (ws_Inputs s) = ''byo'')
     \<and> (ws_CurrentStep s = StepCloudflare \<longrightarrow> cloudflare_pending s)
     \<and> (6 \<le> step_index (ws_CurrentStep s) \<longrightarrow> domain_settled s)
     \<and> (7 \<le> step_index (ws_CurrentStep s) \<longrightarrow> in_FirstPeerName (ws_Inputs s) \<noteq> [])
     \<and> ws_Status s = (if ws_CurrentStep s = StepSuccess then StatusCommitted else StatusInProgress)
     \<and> ws_ProgressPct s = (if ws_CurrentStep s = StepError then 87 else stepProgress (ws_CurrentStep s))"

lemmas wiz_inv_defs = wiz_inv_def domain_settled_def cloudflare_pending_def

lemma wiz_inv_saved [simp]: "wiz_inv (s\<lparr>ws_LastSavedAt := t\<rparr>) = wiz_inv s"
  by (simp add: wiz_inv_defs cong: option.case_cong)

lemma valid_steps [simp]:
  "IsValidStep StepWelcome" "IsValidStep StepSSH" "IsValidStep StepPreflight" "IsValidStep StepDomainMode"
  "IsValidStep StepDomainCheck" "IsValidStep StepCloudflare" "IsValidStep StepCreatePeer"
  "IsValidStep StepCommit" "IsValidStep StepSuccess" "IsValidStep StepError" "\<not> IsValidStep (StepOther x)"
  by (simp_all add: IsValidStep_def validSteps_def)

lemma allowed_pairs:
  "isTransitionAllowed StepWelcome StepSSH s"
  "isTransitionAllowed StepSSH StepPreflight s \<longleftrightarrow> in_SSH (ws_Inputs s) \<noteq> None"
  "isTransitionAllowed StepDomainMode StepDomainCheck s \<longleftrightarrow> in_DomainMode (ws_Inputs s) = ''byo''"
  "isTransitionAllowed StepDomainMode StepCreatePeer s \<longleftrightarrow> in_DomainMode (ws_Inputs s) = ''nipio''"
  "isTransitionAllowed StepDomainCheck StepCloudflare s \<longleftrightarrow>
     (case ws_DomainCheckResult s of None \<Rightarrow> False | Some r \<Rightarrow> dc_CloudflareDetected r \<and> dc_TLSFeasible r)"
  "isTransitionAllowed StepDomainCheck StepCreatePeer s \<longleftrightarrow>
     (case ws_DomainCheckResult s of None \<Rightarrow> False | Some r \<Rightarrow> dc_TLSFeasible r \<and> \<not> dc_CloudflareDetected r)"
  "isTransitionAllowed StepCloudflare StepCreatePeer s \<longleftrightarrow> in_CloudflareToken (ws_Inputs s) \<noteq> []"
  "isTransitionAllowed StepCreatePeer StepCommit s \<longleftrightarrow> in_FirstPeerName (ws_Inputs s) \<noteq> []"
  by (simp_all add: isTransitionAllowed_def transitions_def)

text \<open>An accepted submission leads to a state with the invariant and to a later step.\<close>

lemma submit_advances:
  assumes inv: "wiz_inv s" and step: "ws_CurrentStep s = st" and "applyStepInput st body s = Some s1"
    and "s2 = (if st = StepDomainCheck then run_domain_check deps now s1 else s1)"
    and "resolveNextStep s2 st = Some n" and "Reducer now (ActionStepComplete n) (Some s2) = Inr u"
  shows "wiz_inv u \<and> ws_CurrentStep u = n \<and> step_index st < step_index n \<and> ws_SessionID u = ws_SessionID s"
proof (cases st)
  case StepWelcome
  then show ?thesis using assms
    by (auto simp: applyStepInput_def resolveNextStep_def handleStepComplete_def goto_step_def wiz_inv_defs allowed_pairs)
next
  case StepSSH
  then show ?thesis using assms
    by (auto simp: applyStepInput_def resolveNextStep_def handleStepComplete_def goto_step_def wiz_inv_defs
        allowed_pairs set_inputs_def ssh_complete_def split: wiz_body.splits if_splits)
next
  case StepDomainMode
  then show ?thesis using assms
    by (clarsimp simp: applyStepInput_def resolveNextStep_def handleStepComplete_def goto_step_def wiz_inv_defs
        allowed_pairs set_inputs_def split: wiz_body.splits if_splits)
next
  case StepDomainCheck
  then show ?thesis using assms
    by (clarsimp simp: applyStepInput_def resolveNextStep_def handleStepComplete_def goto_step_def wiz_inv_defs
        allowed_pairs set_inputs_def run_domain_check_def Let_def split: wiz_body.splits if_splits)
next
  case StepCloudflare
  then show ?thesis using assms
    by (clarsimp simp: applyStepInput_def resolveNextStep_def handleStepComplete_def goto_step_def wiz_inv_defs
        allowed_pairs set_inputs_def split: wiz_body.splits if_splits option.splits)
next
  case StepCreatePeer
  then show ?thesis using assms
    by (clarsimp simp: applyStepInput_def resolveNextStep_def handleStepComplete_def goto_step_def wiz_inv_defs
        allowed_pairs set_inputs_def split: wiz_body.splits if_splits cong: option.case_cong)
qed (use assms in \<open>auto simp: applyStepInput_def resolveNextStep_def split: wiz_body.splits\<close>)

lemma preflight_inv:
  assumes "wiz_inv s" and "Reducer now (ActionPreflight (Some r)) (Some s) = Inr u"
  shows "wiz_inv u"
  using assms
  by (auto simp: handlePreflightResult_def Let_def wiz_inv_defs host_compatible_def split: if_splits)

lemma commit_inv:
  "wiz_inv s \<Longrightarrow> Reducer now ActionCommitStart (Some s) = Inr u \<Longrightarrow> wiz_inv u"
  "wiz_inv s \<Longrightarrow> Reducer now ActionCommitSuccess (Some s) = Inr u \<Longrightarrow> wiz_inv u"
  "wiz_inv s \<Longrightarrow> Reducer now (ActionCommitFailure m) (Some s) = Inr u \<Longrightarrow> wiz_inv u"
  by (clarsimp simp: handleCommitStart_def split: if_splits,
      clarsimp simp: handleCommitSuccess_def wiz_inv_defs split: if_splits cong: option.case_cong,
      clarsimp simp: handleCommitFailure_def wiz_inv_defs split: if_splits cong: option.case_cong)

section \<open>The invariant of the system\<close>

definition disk_inv :: "wizard_state disk \<Rightarrow> bool" where
  "disk_inv d = (case target d of NoFile \<Rightarrow> True | Holds s \<Rightarrow> wiz_inv s | _ \<Rightarrow> False)"

lemma LoadState_inv: "disk_inv d \<Longrightarrow> LoadState d = Inr (Some s) \<Longrightarrow> wiz_inv s"
  by (auto simp: disk_inv_def LoadState_def split: stored.splits if_splits)

lemma SaveState_inv: "disk_inv d \<Longrightarrow> wiz_inv u \<Longrightarrow> disk_inv (snd (SaveState io now u d))"
  using wizard_file.save_old_or_new [of io "u\<lparr>ws_LastSavedAt := now\<rparr>" d]
  by (auto simp: disk_inv_def SaveState_def)

lemma SaveState_inv': "SaveState io now u d = (r, d1) \<Longrightarrow> disk_inv d \<Longrightarrow> wiz_inv u \<Longrightarrow> disk_inv d1"
  using SaveState_inv [of d u io now] by simp

lemma Create_inv:
  assumes "disk_inv d" and "uuidPattern uuid" and "handleCreateSession io uuid now d = (r, d1)"
  shows "disk_inv d1"
proof -
  have "wiz_inv (NewState uuid now)" using assms(2) by (simp add: wiz_inv_defs NewState_def)
  then show ?thesis using assms
    by (auto simp: handleCreateSession_def split: sum.splits option.splits prod.splits dest: SaveState_inv')
qed

lemma Submit_inv:
  assumes "disk_inv d" and "handleStepSubmit deps io now i st body d = (r, d1)"
  shows "disk_inv d1"
proof (cases "d1 = d")
  case False
  then obtain s s1 s2 n u where s: "LoadState d = Inr (Some s)" "ws_CurrentStep s = step_of_string st"
      "applyStepInput (step_of_string st) body s = Some s1"
      "s2 = (if step_of_string st = StepDomainCheck then run_domain_check deps now s1 else s1)"
      "resolveNextStep s2 (step_of_string st) = Some n"
      "Reducer now (ActionStepComplete n) (Some s2) = Inr u"
      "d1 = snd (SaveState io now u d)"
    using assms(2)
    by (auto simp: handleStepSubmit_def Let_def simp del: Reducer.simps
        split: sum.splits option.splits if_splits prod.splits)
  then show ?thesis
    using submit_advances [OF LoadState_inv [OF assms(1) s(1)] s(2-6)] SaveState_inv [OF assms(1)] by simp
qed (use assms in simp)

lemma Preflight_inv:
  assumes "disk_inv d" and "handlePreflight deps io now i d = (r, d1)"
  shows "disk_inv d1"
proof (cases "d1 = d")
  case False
  then obtain s p u where "LoadState d = Inr (Some s)"
      "Reducer now (ActionPreflight (Some p)) (Some s) = Inr u" "d1 = snd (SaveState io now u d)"
    using assms(2)
    by (auto simp: handlePreflight_def Let_def simp del: Reducer.simps
        split: sum.splits option.splits if_splits prod.splits)
  then show ?thesis using preflight_inv LoadState_inv SaveState_inv assms(1) by blast
qed (use assms in simp)

lemma Delete_inv: "disk_inv d \<Longrightarrow> handleDeleteSession w now i d = (r, d1) \<Longrightarrow> disk_inv d1"
  by (auto simp: handleDeleteSession_def handleAbandon_def DeleteState_def disk_inv_def Let_def
      split: sum.splits option.splits if_splits)

lemma Commit_inv:
  assumes "disk_inv (sys_disk y)" and "handleCommit io now i y = (r, y')"
  shows "disk_inv (sys_disk y')"
proof (cases "sys_disk y' = sys_disk y")
  case False
  then obtain s u where "LoadState (sys_disk y) = Inr (Some s)"
      "Reducer now ActionCommitStart (Some s) = Inr u" "sys_disk y' = snd (SaveState io now u (sys_disk y))"
    using assms(2)
    by (auto simp: handleCommit_def Let_def simp del: Reducer.simps
        split: sum.splits option.splits if_splits prod.splits)
  then show ?thesis using commit_inv(1) LoadState_inv SaveState_inv assms(1) by metis
qed (use assms in simp)

lemma Reducer_Some: "Reducer now a l = Inr u \<Longrightarrow> \<exists>s. l = Some s"
  by (cases l) auto

lemma commitFailure_inv:
  assumes "disk_inv d"
  shows "disk_inv (commitFailure io now m d)"
proof -
  have "disk_inv (snd (SaveState io now u d))"
    if "LoadState d = Inr l" "Reducer now (ActionCommitFailure m) l = Inr u" for l u
    using that Reducer_Some commit_inv(3) LoadState_inv SaveState_inv assms by metis
  then show ?thesis using assms
    by (auto simp: commitFailure_def simp del: Reducer.simps split: sum.splits)
qed

lemma Boot_inv:
  assumes "disk_inv d" and "runBootstrap bd io now s d = (e, d1)"
  shows "disk_inv d1"
proof -
  have "disk_inv (snd (SaveState io now u d))"
    if "LoadState d = Inr l" "Reducer now ActionCommitSuccess l = Inr u" for l u
    using that Reducer_Some commit_inv(2) LoadState_inv SaveState_inv assms(1) by metis
  then show ?thesis using assms commitFailure_inv
    by (auto simp: runBootstrap_def Let_def simp del: Reducer.simps
        split: sum.splits option.splits prod.splits if_splits) (metis snd_conv)+
qed

lemma wiz_step_inv: "wiz_step y y' \<Longrightarrow> disk_inv (sys_disk y) \<Longrightarrow> disk_inv (sys_disk y')"
  by (induction rule: wiz_step.induct)
    (auto dest: Create_inv Submit_inv Preflight_inv Delete_inv Commit_inv Boot_inv)

text \<open>C11: the wizard never reaches a step without what it needs. In every reachable state of the
  system, whatever requests and background commits interleave and whichever writes fail, the state
  file is absent or holds a session whose identifier is a UUID and whose step is known; from the
  preflight on it has complete SSH data, from the domain choice on a compatible host, from the peer
  step on a settled domain, from the commit on a peer name; it is committed exactly in the success
  step, and its progress is the step's.\<close>

theorem wizard_reachable_inv:
  assumes "wiz_reach y"
  shows "disk_inv (sys_disk y)"
  using assms by (induction rule: wiz_reach.induct) (auto simp: disk_inv_def dest: wiz_step_inv [unfolded disk_inv_def])

definition sample_deps_w :: wiz_deps where
  "sample_deps_w = \<lparr>wd_Resolver = \<lparr>LookupHost = (\<lambda>_. Inl ''x''), LookupNS = (\<lambda>_. Inl ''x'')\<rparr>, wd_vpsIP = ''1.2.3.4'',
     wd_Connect = (\<lambda>_. Inl ''refused''), wd_ParseFloat = (\<lambda>_. None)\<rparr>"

definition sample_uuid :: string where
  "sample_uuid = ''00000000-0000-4000-8000-000000000000''"

definition created :: wiz_sys where
  "created = \<lparr>sys_disk = \<lparr>target = Holds (NewState sample_uuid ''t''), strays = 0\<rparr>, sys_running = []\<rparr>"

lemma sample_uuid_ok: "uuidPattern sample_uuid"
  by code_simp

lemma created_reach: "wiz_reach created"
proof -
  let ?y = "\<lparr>sys_disk = \<lparr>target = NoFile, strays = 0\<rparr>, sys_running = []\<rparr> :: wiz_sys"
  have "handleCreateSession io_all_ok sample_uuid ''t'' (sys_disk ?y)
      = (JSONResponse 200 (StateReply (NewState sample_uuid ''t'')), sys_disk created)"
    by (simp add: handleCreateSession_def LoadState_def SaveState_def write_state_def io_all_ok_def NewState_def created_def)
  then have "wiz_step ?y (?y\<lparr>sys_disk := sys_disk created\<rparr>)" by (rule wiz_step.Create [OF sample_uuid_ok])
  then have "wiz_step ?y created" by (simp add: created_def)
  then show ?thesis using wiz_reach.Start wiz_reach.Step by blast
qed

theorem wizard_reachable_inv_witness:
  "disk_inv (sys_disk created) \<and> target (sys_disk created) = Holds (NewState sample_uuid ''t'')"
  using wizard_reachable_inv [OF created_reach] by (simp add: created_def)

section \<open>Accepted submissions advance\<close>

lemma Submit_success:
  assumes "disk_inv d" and "handleStepSubmit deps io now i st body d = (JSONResponse c b, d1)"
  shows "\<exists>s u. target d = Holds s \<and> target d1 = Holds u \<and> ws_SessionID s = i \<and> ws_SessionID u = i
    \<and> step_index (ws_CurrentStep s) < step_index (ws_CurrentStep u) \<and> step_name (ws_CurrentStep s) = st \<and> c = 200"
proof -
  obtain s s1 s2 n u where s: "LoadState d = Inr (Some s)" "ws_SessionID s = i" "ws_CurrentStep s = step_of_string st"
      "IsValidStep (step_of_string st)"
      "applyStepInput (step_of_string st) body s = Some s1"
      "s2 = (if step_of_string st = StepDomainCheck then run_domain_check deps now s1 else s1)"
      "resolveNextStep s2 (step_of_string st) = Some n"
      "Reducer now (ActionStepComplete n) (Some s2) = Inr u"
      "SaveState io now u d = (None, d1)" "c = 200"
    using assms(2)
    by (auto simp: handleStepSubmit_def Let_def simp del: Reducer.simps
        split: sum.splits option.splits if_splits prod.splits)
  have h: "target d = Holds s" using s(1) by (auto simp: LoadState_def split: stored.splits if_splits)
  have t: "target d1 = Holds (u\<lparr>ws_LastSavedAt := now\<rparr>)"
    using wizard_file.save_ok_target [of io "u\<lparr>ws_LastSavedAt := now\<rparr>" d] s(9) by (simp add: SaveState_def)
  have nm: "step_name (step_of_string st) = st"
    using s(4) by (auto simp: step_of_string_def IsValidStep_def split: option.splits dest: find_Some_in)
  show ?thesis
    using submit_advances [OF LoadState_inv [OF assms(1) s(1)] s(3,5-8)] h t nm s(2,3,10) by auto
qed



section \<open>What the commit phase allows\<close>

definition at_commit :: "wizard_state \<Rightarrow> bool" where
  "at_commit s \<longleftrightarrow> uuidPattern (ws_SessionID s) \<and> ws_CurrentStep s = StepCommit \<and> ws_Status s = StatusInProgress"

lemma at_commit_load: "at_commit s \<Longrightarrow> target d = Holds s \<Longrightarrow> LoadState d = Inr (Some s)"
  by (simp add: at_commit_def LoadState_def)

lemma SaveState_all_ok: "SaveState io_all_ok now u d = (None, d\<lparr>target := Holds (u\<lparr>ws_LastSavedAt := now\<rparr>)\<rparr>)"
  by (simp add: SaveState_def write_state_def io_all_ok_def)

text \<open>a commit can be started twice. Starting a commit leaves the session in the same step, so a
  second request is accepted as the first was, and two background provisioning runs of the same
  session are under way.\<close>

theorem commit_starts_twice:
  assumes "target (sys_disk y) = Holds s" and "at_commit s"
  shows "\<exists>y1 y2 s1 s2. handleCommit io_all_ok now (ws_SessionID s) y = (JSONResponse 202 (CommitReply (ws_SessionID s)), y1)
    \<and> handleCommit io_all_ok now' (ws_SessionID s) y1 = (JSONResponse 202 (CommitReply (ws_SessionID s)), y2)
    \<and> sys_running y2 = sys_running y @ [s1, s2] \<and> ws_SessionID s1 = ws_SessionID s \<and> ws_SessionID s2 = ws_SessionID s"
proof -
  have c: "\<exists>z s1. handleCommit io_all_ok t (ws_SessionID r) x = (JSONResponse 202 (CommitReply (ws_SessionID r)), z)
      \<and> sys_running z = sys_running x @ [s1] \<and> ws_SessionID s1 = ws_SessionID r
      \<and> target (sys_disk z) = Holds s1 \<and> at_commit s1"
    if "target (sys_disk x) = Holds r" "at_commit r" for t r x
    using that at_commit_load [OF that(2,1)]
    by (simp add: handleCommit_def at_commit_def handleCommitStart_def SaveState_all_ok)
  from c [OF assms, of now] obtain y1 s1 where 1: "handleCommit io_all_ok now (ws_SessionID s) y
      = (JSONResponse 202 (CommitReply (ws_SessionID s)), y1)"
      "sys_running y1 = sys_running y @ [s1]" "ws_SessionID s1 = ws_SessionID s"
      "target (sys_disk y1) = Holds s1" "at_commit s1" by blast
  from c [OF 1(4,5), of now'] obtain y2 s2 where "handleCommit io_all_ok now' (ws_SessionID s) y1
      = (JSONResponse 202 (CommitReply (ws_SessionID s)), y2)"
      "sys_running y2 = sys_running y1 @ [s2]" "ws_SessionID s2 = ws_SessionID s" using 1(3) by auto
  with 1 show ?thesis by auto
qed

definition sample_commit :: wizard_state where
  "sample_commit = (NewState sample_uuid ''t'')\<lparr>ws_CurrentStep := StepCommit, ws_ProgressPct := 87\<rparr>"

definition sample_sys :: wiz_sys where
  "sample_sys = \<lparr>sys_disk = \<lparr>target = Holds sample_commit, strays = 0\<rparr>, sys_running = []\<rparr>"

lemma sample_at_commit: "at_commit sample_commit"
  by (simp add: at_commit_def sample_commit_def NewState_def sample_uuid_ok)

theorem commit_starts_twice_witness:
  "\<exists>y1 y2 s1 s2. handleCommit io_all_ok ''a'' sample_uuid sample_sys = (JSONResponse 202 (CommitReply sample_uuid), y1)
    \<and> handleCommit io_all_ok ''b'' sample_uuid y1 = (JSONResponse 202 (CommitReply sample_uuid), y2)
    \<and> sys_running y2 = [s1, s2] \<and> ws_SessionID s1 = sample_uuid \<and> ws_SessionID s2 = sample_uuid"
  using commit_starts_twice [of sample_sys sample_commit "''a''" "''b''"] sample_at_commit
  by (simp add: sample_sys_def) (simp add: sample_commit_def NewState_def)

text \<open>a commit without a first port crashes the daemon after succeeding. When provisioning and
  the peer succeed and the user asked for no port, the background run stores the success and then
  dereferences the missing route result.\<close>

theorem commit_without_port_panics:
  assumes "bd_Run bd s = Inr boot" and "bd_CreatePeer bd (in_FirstPeerName (ws_Inputs s)) s = Inr peer"
    and "in_FirstPortExpose (ws_Inputs s) = None"
    and "target d = Holds c" and "at_commit c"
  shows "fst (runBootstrap bd io_all_ok now s d) = Panicked
    \<and> (\<exists>u. target (snd (runBootstrap bd io_all_ok now s d)) = Holds u \<and> ws_CurrentStep u = StepSuccess
         \<and> ws_Status u = StatusCommitted)"
  using assms at_commit_load [OF assms(5,4)]
  by (simp add: runBootstrap_def handleCommitSuccess_def at_commit_def SaveState_all_ok)

definition sample_boot :: boot_deps where
  "sample_boot = \<lparr>bd_Run = (\<lambda>_. Inr \<lparr>br_WGEndpoint = [], br_ServerPubKey = []\<rparr>),
     bd_CreatePeer = (\<lambda>_ _. Inr \<lparr>pr_PeerID = ''p'', pr_PublicKey = [], pr_LocalIP = []\<rparr>),
     bd_ExposeRoute = (\<lambda>_ _ _. Inr \<lparr>rr_RouteID = ''r'', rr_Subdomain = [], rr_FQDN = [], rr_URL = []\<rparr>)\<rparr>"

theorem commit_without_port_panics_witness:
  "fst (runBootstrap sample_boot io_all_ok ''t3'' sample_commit (sys_disk sample_sys)) = Panicked"
  using commit_without_port_panics [of sample_boot sample_commit "\<lparr>br_WGEndpoint = [], br_ServerPubKey = []\<rparr>"
      "\<lparr>pr_PeerID = ''p'', pr_PublicKey = [], pr_LocalIP = []\<rparr>" "sys_disk sample_sys" sample_commit "''t3''"]
    sample_at_commit
  by (simp add: sample_boot_def sample_sys_def) (simp add: sample_commit_def NewState_def)

text \<open>a commit finishes whatever session is on file. The end of a background run reloads the
  file without comparing the session: a run started for one session marks another one that has
  meanwhile reached its commit step as committed.\<close>

theorem stale_commit_marks_other_session:
  assumes "bd_Run bd old = Inr boot" and "bd_CreatePeer bd (in_FirstPeerName (ws_Inputs old)) old = Inr peer"
    and "in_FirstPortExpose (ws_Inputs old) = Some p"
    and "bd_ExposeRoute bd (exp_LocalPort p) (exp_Subdomain p) old = Inr route"
    and "target d = Holds c" and "at_commit c" and "ws_SessionID c \<noteq> ws_SessionID old"
  shows "fst (runBootstrap bd io_all_ok now old d) = Returned
    \<and> (\<exists>u. target (snd (runBootstrap bd io_all_ok now old d)) = Holds u \<and> ws_SessionID u = ws_SessionID c
         \<and> ws_Status u = StatusCommitted)"
  using assms at_commit_load [OF assms(6,5)]
  by (simp add: runBootstrap_def handleCommitSuccess_def at_commit_def SaveState_all_ok)

definition other_session :: wizard_state where
  "other_session = sample_commit\<lparr>ws_SessionID := ''old'',
     ws_Inputs := (ws_Inputs sample_commit)\<lparr>in_FirstPortExpose := Some \<lparr>exp_LocalPort = 80, exp_Subdomain = []\<rparr>\<rparr>\<rparr>"

theorem stale_commit_marks_other_session_witness:
  "\<exists>u. target (snd (runBootstrap sample_boot io_all_ok ''t3'' other_session (sys_disk sample_sys))) = Holds u
     \<and> ws_SessionID u = sample_uuid \<and> ws_Status u = StatusCommitted"
  using stale_commit_marks_other_session [of sample_boot other_session "\<lparr>br_WGEndpoint = [], br_ServerPubKey = []\<rparr>"
      "\<lparr>pr_PeerID = ''p'', pr_PublicKey = [], pr_LocalIP = []\<rparr>" "\<lparr>exp_LocalPort = 80, exp_Subdomain = []\<rparr>"
      "\<lparr>rr_RouteID = ''r'', rr_Subdomain = [], rr_FQDN = [], rr_URL = []\<rparr>" "sys_disk sample_sys" sample_commit "''t3''"]
    sample_at_commit
  by (simp add: sample_boot_def sample_sys_def other_session_def)
    (simp add: sample_commit_def NewState_def sample_uuid_def)

text \<open>a domain whose certificate is infeasible cannot be submitted. With port 80 taken on the
  host, every domain submission of the own-domain mode is answered 500 and changes nothing: the
  next step is chosen as if it were feasible and the reducer then refuses it.\<close>

theorem infeasible_domain_rejected:
  assumes "LoadState d = Inr (Some s)" and "ws_SessionID s = i" and "ws_CurrentStep s = StepDomainCheck"
    and "ws_PreflightResult s = Some r" and "\<not> pf_Port80Free r" and "domain \<noteq> []"
  shows "handleStepSubmit deps io now i ''domain_check'' (WDomain domain) d = (ErrorResponse 500 ''reducer_error'', d)"
proof -
  have st: "step_of_string ''domain_check'' = StepDomainCheck" by code_simp
  show ?thesis
    using assms
    by (simp add: handleStepSubmit_def st applyStepInput_def set_inputs_def run_domain_check_def resolveNextStep_def
        dns_Validate_TLS handleStepComplete_def allowed_pairs Let_def)
qed

theorem infeasible_domain_rejected_witness:
  "handleStepSubmit sample_deps_w io_all_ok ''t'' sample_uuid ''domain_check'' (WDomain ''a.org'')
     \<lparr>target = Holds ((NewState sample_uuid ''t'')\<lparr>ws_CurrentStep := StepDomainCheck,
        ws_PreflightResult := Some (preflight_empty [] [])\<rparr>), strays = 0\<rparr>
   = (ErrorResponse 500 ''reducer_error'',
      \<lparr>target = Holds ((NewState sample_uuid ''t'')\<lparr>ws_CurrentStep := StepDomainCheck,
        ws_PreflightResult := Some (preflight_empty [] [])\<rparr>), strays = 0\<rparr>)"
  by (rule infeasible_domain_rejected [where r = "preflight_empty [] []" and s = "(NewState sample_uuid ''t'')\<lparr>ws_CurrentStep := StepDomainCheck,
        ws_PreflightResult := Some (preflight_empty [] [])\<rparr>"]) (simp_all add: LoadState_def NewState_def sample_uuid_ok preflight_empty_def)

section \<open>Redaction\<close>

text \<open>what a session query reveals. Outside the commit step the SSH password is replaced and
  a Cloudflare token of more than eight bytes is cut to its first eight; during the commit step, and
  for shorter tokens, the stored secret is returned whole.\<close>

theorem session_redaction:
  assumes "LoadState d = Inr (Some s)" and "ws_SessionID s = i"
    and "handleGetSession i d = JSONResponse c (StateReply v)"
  shows "(if ws_CurrentStep s = StepCommit \<and> ws_Status s = StatusInProgress then v = s
     else (\<forall>ssh. in_SSH (ws_Inputs v) = Some ssh \<longrightarrow> ssh_Password ssh \<in> {[], ''[REDACTED]''})
        \<and> (let t = in_CloudflareToken (ws_Inputs s) in
            in_CloudflareToken (ws_Inputs v) = (if t = [] then [] else take 8 t @ ''...''))
        \<and> ws_CurrentStep v = ws_CurrentStep s)"
  using assms
  by (auto simp: handleGetSession_def redactState_def Let_def split: option.splits if_splits)

theorem session_redaction_witness:
  "in_CloudflareToken (ws_Inputs (redactState ((NewState sample_uuid ''t'')\<lparr>ws_Inputs :=
      (ws_Inputs (NewState sample_uuid ''t''))\<lparr>in_CloudflareToken := ''short''\<rparr>\<rparr>))) = ''short...''"
proof -
  let ?s = "(NewState sample_uuid ''t'')\<lparr>ws_Inputs := (ws_Inputs (NewState sample_uuid ''t''))\<lparr>in_CloudflareToken := ''short''\<rparr>\<rparr>"
  have "LoadState \<lparr>target = Holds ?s, strays = 0\<rparr> = Inr (Some ?s)"
    by (simp add: LoadState_def NewState_def sample_uuid_ok)
  from session_redaction [OF this refl, of 200 "redactState ?s"] this show ?thesis
    by (simp add: handleGetSession_def NewState_def split: if_splits)
qed

end
