(* ===== verification/Step_Validators.thy ===== *)
theory Step_Validators
  imports Wizard_Handlers
begin

text \<open>
  The per-step validators of \<open>wizard/steps.go\<close>, and how they relate to the checks that the HTTP
  handler applies to the same inputs. The TCP dial and the SSH pool are functions of the input.
\<close>

section \<open>Validators\<close>

text \<open>A validation error is its code and whether it is only a warning.\<close>

datatype validation_error = ValidationError string bool

datatype step_inputs = NoInput | SSHStep ssh_input | TextStep string

definition wizardPeerNameRe :: "string \<Rightarrow> bool" where
  "wizardPeerNameRe s \<longleftrightarrow> 1 \<le> length s \<and> length s \<le> 64 \<and>
     list_all (\<lambda>c. (97 \<le> byte c \<and> byte c \<le> 122) \<or> (65 \<le> byte c \<and> byte c \<le> 90) \<or> is_digit c
        \<or> c = CHR ''_'' \<or> c = CHR ''-'') s"

definition ValidatePeerName :: "string \<Rightarrow> validation_error option" where
  "ValidatePeerName name =
     (if name = [] then Some (ValidationError ''peer_name_empty'' False)
      else if \<not> wizardPeerNameRe name then Some (ValidationError ''peer_name_invalid'' False)
      else None)"

definition validateSSH ::
  "(string \<Rightarrow> int \<Rightarrow> bool) \<Rightarrow> (ssh_input \<Rightarrow> string + ssh_session) \<Rightarrow> ssh_input \<Rightarrow> validation_error option" where
  "validateSSH dial connect input =
     (if ssh_Host input = [] then Some (ValidationError ''ssh_connection_refused'' False)
      else if ssh_Port input \<le> 0 \<or> ssh_Port input > 65535 then Some (ValidationError ''ssh_connection_refused'' False)
      else if \<not> dial (ssh_Host input) (ssh_Port input) then Some (ValidationError ''ssh_connection_refused'' False)
      else case connect input of
        Inl msg \<Rightarrow>
          if contains msg ''passphrase'' \<or> contains msg ''decrypt''
          then Some (ValidationError ''ssh_passphrase_protected'' False)
          else Some (ValidationError ''ssh_auth_failed'' False)
      | Inr sess \<Rightarrow>
          (case sess ''sudo -n true'' of
             Inl _ \<Rightarrow> Some (ValidationError ''ssh_no_sudo'' False)
           | Inr _ \<Rightarrow>
               (case sess ''docker ps'' of
                  Inl _ \<Rightarrow> Some (ValidationError ''ssh_no_docker'' True)
                | Inr _ \<Rightarrow> None)))"

definition validateDomainMode :: "string \<Rightarrow> validation_error option" where
  "validateDomainMode mode =
     (if mode \<noteq> ''byo'' \<and> mode \<noteq> ''nipio'' then Some (ValidationError ''domain_mode_invalid'' False) else None)"

definition domain_char :: "char \<Rightarrow> bool" where
  "domain_char c \<longleftrightarrow> (97 \<le> byte c \<and> byte c \<le> 122) \<or> (65 \<le> byte c \<and> byte c \<le> 90) \<or> is_digit c
     \<or> c = CHR ''.'' \<or> c = CHR ''_'' \<or> c = CHR ''-''"

definition validateDomainCheck :: "string \<Rightarrow> validation_error option" where
  "validateDomainCheck domain =
     (if domain = [] then Some (ValidationError ''domain_empty'' False)
      else if length domain > 253 then Some (ValidationError ''domain_invalid'' False)
      else if list_ex (\<lambda>c. \<not> domain_char c) domain then Some (ValidationError ''domain_invalid'' False)
      else None)"

definition validateCloudflare :: "string \<Rightarrow> validation_error option" where
  "validateCloudflare token = (if token = [] then Some (ValidationError ''cloudflare_token_empty'' False) else None)"

definition validateStep ::
  "(string \<Rightarrow> int \<Rightarrow> bool) \<Rightarrow> (ssh_input \<Rightarrow> string + ssh_session) \<Rightarrow> wizard_step \<Rightarrow> step_inputs
     \<Rightarrow> validation_error + wizard_step" where
  "validateStep dial connect step inputs =
     (let bad = Inl (ValidationError ''invalid_input'' False);
          text_step = (\<lambda>check nxt. case inputs of
              TextStep t \<Rightarrow> (case check t of Some e \<Rightarrow> Inl e | None \<Rightarrow> Inr nxt) | _ \<Rightarrow> bad)
      in case step of
           StepWelcome \<Rightarrow> Inr StepSSH
         | StepSSH \<Rightarrow> (case inputs of
               SSHStep i \<Rightarrow> (case validateSSH dial connect i of Some e \<Rightarrow> Inl e | None \<Rightarrow> Inr StepPreflight)
             | _ \<Rightarrow> bad)
         | StepPreflight \<Rightarrow> Inr StepDomainMode
         | StepDomainMode \<Rightarrow> text_step validateDomainMode StepDomainCheck
         | StepDomainCheck \<Rightarrow> text_step validateDomainCheck StepCloudflare
         | StepCloudflare \<Rightarrow> text_step validateCloudflare StepCreatePeer
         | StepCreatePeer \<Rightarrow> text_step ValidatePeerName StepCommit
         | _ \<Rightarrow> Inl (ValidationError ''unknown_step'' False))"

section \<open>Against the handler\<close>

text \<open>The handler's own checks are weaker: whatever the validator of a step accepts it accepts,
  and it also stores inputs the validator refuses.\<close>

definition handler_body :: "step_inputs \<Rightarrow> wizard_step \<Rightarrow> wiz_body" where
  "handler_body inputs step = (case inputs of
       NoInput \<Rightarrow> WBad
     | SSHStep i \<Rightarrow> WSSH i
     | TextStep t \<Rightarrow> (case step of StepDomainMode \<Rightarrow> WMode t | StepDomainCheck \<Rightarrow> WDomain t
         | StepCloudflare \<Rightarrow> WCloudflare t True | StepCreatePeer \<Rightarrow> WPeer t None | _ \<Rightarrow> WBad))"

lemma validated_inputs_accepted:
  assumes "validateStep dial connect step inputs = Inr n" and "step \<noteq> StepPreflight"
    and "\<And>i. inputs = SSHStep i \<Longrightarrow> ssh_User i \<noteq> [] \<and> ssh_AuthType i \<noteq> []"
  shows "\<exists>s1. applyStepInput step (handler_body inputs step) s = Some s1"
  using assms
  by (cases step; cases inputs)
    (auto simp: validateStep_def Let_def applyStepInput_def handler_body_def validateSSH_def validateDomainMode_def
      validateDomainCheck_def validateCloudflare_def ValidatePeerName_def split: if_splits option.splits)

lemma handler_accepts_bad_port:
  "validateSSH dial connect \<lparr>ssh_Host = ''h'', ssh_Port = 70000, ssh_User = ''u'', ssh_AuthType = ''key'', ssh_KeyPath = [],
      ssh_Password = []\<rparr> = Some (ValidationError ''ssh_connection_refused'' False)"
  "applyStepInput StepSSH (WSSH \<lparr>ssh_Host = ''h'', ssh_Port = 70000, ssh_User = ''u'', ssh_AuthType = ''key'',
      ssh_KeyPath = [], ssh_Password = []\<rparr>) s \<noteq> None"
  by (simp_all add: validateSSH_def applyStepInput_def)

lemma handler_accepts_bad_peer_name:
  "ValidatePeerName ''a b'' \<noteq> None" "applyStepInput StepCreatePeer (WPeer ''a b'' None) s \<noteq> None"
  by (simp_all add: ValidatePeerName_def wizardPeerNameRe_def is_digit_def applyStepInput_def)

end
