(* ===== verification/Invite_Store.thy ===== *)
theory Invite_Store
  imports Base64_Codec Line_Scan
begin

text \<open>
  The invite links' store (\<open>invite/store.go\<close>): an append-only JSONL file with an in-memory index
  from token hash to byte offset, and its garbage collection, which rewrites the file. The file is a
  byte string; the JSON encoder and decoder are arguments. Besides the file the state keeps whether
  the handle is open, because a failed collection leaves it closed. The refinement says that the
  store is the list of invites in the file.
\<close>

section \<open>Data\<close>

type_synonym invite_mode = string

definition ModeHMAC :: invite_mode where
  "ModeHMAC = ''hmac''"

definition ModeShortCode :: invite_mode where
  "ModeShortCode = ''shortcode''"

record invite_link =
  inv_ID :: string
  inv_PeerID :: string
  inv_Mode :: invite_mode
  inv_TokenHash :: string
  inv_ShortCode :: string
  inv_ExpiresAt :: "instant option"
  inv_MaxUses :: int
  inv_UseCount :: int
  inv_CreatedAt :: instant
  inv_CreatedBy :: string
  inv_ConfigEnc :: string
  inv_HMACSig :: string

text \<open>\<open>ExpiresAt\<close> is \<open>None\<close> for Go's zero time. The fields \<open>ClaimedAt\<close> and \<open>ClaimedIP\<close> are never
  written and are left out.\<close>

record invite_codec =
  enc :: "invite_link \<Rightarrow> string option"
  dec :: "string \<Rightarrow> invite_link option"

record invite_store =
  st_file :: string
  st_open :: bool
  st_index :: "string \<Rightarrow> nat option"

datatype invite_error = InvMarshal | InvSeek | InvWrite | InvUnmarshal | InvScan | InvClose | InvRead
  | InvCreateTmp | InvCloseTmp | InvRename | InvReopen

section \<open>Line scanning\<close>

abbreviation newline :: char where
  "newline \<equiv> CHR 0x0A"

definition maxLine :: nat where
  "maxLine = 1024 * 1024"

section \<open>Operations\<close>

fun index_lines :: "(string \<Rightarrow> invite_link option) \<Rightarrow> nat \<Rightarrow> string list \<Rightarrow> (string \<Rightarrow> nat option) \<Rightarrow> string \<Rightarrow> nat option" where
  "index_lines d off [] ix = ix"
| "index_lines d off (l # ls) ix =
     index_lines d (off + length l + 1) ls
       (if l = [] then ix
        else case d l of
               Some iv \<Rightarrow> if inv_TokenHash iv \<noteq> [] then ix(inv_TokenHash iv \<mapsto> off) else ix
             | None \<Rightarrow> ix)"

definition buildIndex :: "invite_codec \<Rightarrow> string \<Rightarrow> (string \<Rightarrow> nat option) option" where
  "buildIndex c file =
     (let (ls, err) = scan_text maxLine file
      in if err then None else Some (index_lines (dec c) 0 ls (\<lambda>_. None)))"

definition NewInviteStore :: "invite_codec \<Rightarrow> string \<Rightarrow> invite_error + invite_store" where
  "NewInviteStore c file =
     (case buildIndex c file of
        None \<Rightarrow> Inl InvScan
      | Some ix \<Rightarrow> Inr \<lparr>st_file = file, st_open = True, st_index = ix\<rparr>)"

text \<open>\<open>written\<close> is \<open>None\<close> for a complete write and otherwise the number of bytes that reached the file.\<close>

definition Append :: "invite_codec \<Rightarrow> nat option \<Rightarrow> invite_link \<Rightarrow> invite_store \<Rightarrow> invite_error option \<times> invite_store" where
  "Append c written iv s =
     (case enc c iv of
        None \<Rightarrow> (Some InvMarshal, s)
      | Some l \<Rightarrow>
          let data = l @ [newline] in
          if \<not> st_open s then (Some InvSeek, s)
          else
            let offset = length (st_file s) in
            case written of
              Some k \<Rightarrow> (Some InvWrite, s\<lparr>st_file := st_file s @ take k data\<rparr>)
            | None \<Rightarrow>
                (None, s\<lparr>st_file := st_file s @ data,
                         st_index := (if inv_TokenHash iv \<noteq> [] then (st_index s)(inv_TokenHash iv \<mapsto> offset)
                                      else st_index s)\<rparr>))"

definition FindByTokenHash :: "invite_codec \<Rightarrow> string \<Rightarrow> invite_store \<Rightarrow> invite_error + invite_link option" where
  "FindByTokenHash c hash s =
     (case st_index s hash of
        None \<Rightarrow> Inr None
      | Some offset \<Rightarrow>
          if \<not> st_open s then Inl InvSeek
          else (case scan_text defaultMaxLine (drop offset (st_file s)) of
                  ([], _) \<Rightarrow> Inr None
                | (l # _, _) \<Rightarrow> (case dec c l of None \<Rightarrow> Inl InvUnmarshal | Some iv \<Rightarrow> Inr (Some iv))))"

text \<open>Garbage collection; \<open>gc_write_fails\<close> names the kept line whose write fails.\<close>

record gc_env =
  gc_now :: instant
  gc_close_ok :: bool
  gc_read_ok :: bool
  gc_create_ok :: bool
  gc_write_fails :: "nat option"
  gc_tmp_close_ok :: bool
  gc_rename_ok :: bool
  gc_reopen_ok :: bool

definition live_invite :: "instant \<Rightarrow> invite_link \<Rightarrow> bool" where
  "live_invite now iv =
     (let expired = (case inv_ExpiresAt iv of None \<Rightarrow> False | Some x \<Rightarrow> now > x);
          consumed = (inv_MaxUses iv > 0 \<and> inv_UseCount iv \<ge> inv_MaxUses iv)
      in \<not> expired \<and> \<not> consumed)"

definition kept_lines :: "invite_codec \<Rightarrow> instant \<Rightarrow> string list \<Rightarrow> string list" where
  "kept_lines c now ls = filter (\<lambda>l. l \<noteq> [] \<and> (case dec c l of None \<Rightarrow> False | Some iv \<Rightarrow> live_invite now iv)) ls"

definition GC :: "invite_codec \<Rightarrow> gc_env \<Rightarrow> invite_store \<Rightarrow> invite_error option \<times> invite_store" where
  "GC c g s =
     (let s1 = s\<lparr>st_open := False\<rparr> in
      if \<not> st_open s \<or> \<not> gc_close_ok g then (Some InvClose, s1)
      else if \<not> gc_read_ok g then (Some InvRead, s1)
      else
        let (ls, err) = scan_text maxLine (st_file s); kept = kept_lines c (gc_now g) ls in
        if err then (Some InvScan, s1)
        else if \<not> gc_create_ok g then (Some InvCreateTmp, s1)
        else
          case gc_write_fails g of
            Some k \<Rightarrow> (Some InvWrite, s1\<lparr>st_index := index_lines (dec c) 0 (take (Suc k) kept) (\<lambda>_. None)\<rparr>)
          | None \<Rightarrow>
              let s2 = s1\<lparr>st_index := index_lines (dec c) 0 kept (\<lambda>_. None)\<rparr> in
              if \<not> gc_tmp_close_ok g then (Some InvCloseTmp, s2)
              else if \<not> gc_rename_ok g then (Some InvRename, s2)
              else
                let s3 = s2\<lparr>st_file := concat (map (\<lambda>l. l @ [newline]) kept)\<rparr> in
                if \<not> gc_reopen_ok g then (Some InvReopen, s3) else (None, s3\<lparr>st_open := True\<rparr>))"

definition Store_Close :: "invite_store \<Rightarrow> invite_error option \<times> invite_store" where
  "Store_Close s = (if st_open s then None else Some InvClose, s\<lparr>st_open := False\<rparr>)"

section \<open>Refinement of a list of invites\<close>

text \<open>The invites whose encodings the store handles: one line, not empty, without a trailing
  carriage return, and short enough for the lookup's scanner; decoding inverts encoding.\<close>

definition storable :: "invite_codec \<Rightarrow> invite_link \<Rightarrow> string \<Rightarrow> bool" where
  "storable c iv l \<longleftrightarrow> enc c iv = Some l \<and> dec c l = Some iv \<and> l \<noteq> [] \<and> newline \<notin> set l
     \<and> last l \<noteq> CHR 0x0D \<and> length l < defaultMaxLine"

abbreviation file_of :: "string list \<Rightarrow> string" where
  "file_of \<equiv> lines_file"

lemmas file_of_def = lines_file_def
lemmas split_file_of = split_lines_file
lemmas raw_lines_file_of = raw_lines_file
lemmas scan_file_of = scan_lines_file

definition represents :: "invite_codec \<Rightarrow> invite_store \<Rightarrow> (invite_link \<times> string) list \<Rightarrow> bool" where
  "represents c s ils \<longleftrightarrow> (\<forall>(i, l) \<in> set ils. storable c i l)
     \<and> st_file s = file_of (map snd ils) \<and> st_open s
     \<and> st_index s = index_lines (dec c) 0 (map snd ils) (\<lambda>_. None)"

text \<open>The abstract lookup: the latest invite with the hash.\<close>

definition latest :: "string \<Rightarrow> invite_link list \<Rightarrow> invite_link option" where
  "latest h is = List.find (\<lambda>i. inv_TokenHash i = h) (rev is)"

lemma storable_line: "storable c i l \<Longrightarrow> newline \<notin> set l \<and> drop_cr l = l \<and> length l < defaultMaxLine \<and> length l < maxLine"
  by (simp add: storable_def drop_cr_def defaultMaxLine_def maxLine_def)

lemma represents_scan:
  assumes "represents c s ils"
  shows "scan_text maxLine (st_file s) = (map snd ils, False)"
proof -
  have "\<forall>l \<in> set (map snd ils). newline \<notin> set l \<and> drop_cr l = l \<and> length l < maxLine"
    using assms storable_line by (fastforce simp: represents_def)
  then show ?thesis using assms scan_file_of by (simp add: represents_def)
qed

lemma file_of_append [simp]: "file_of (xs @ ys) = file_of xs @ file_of ys"
  by (simp add: file_of_def)

lemma length_file_of: "length (file_of (xs @ [l])) = length (file_of xs) + length l + 1"
  by (simp add: file_of_def)

lemma index_lines_snoc:
  "index_lines d off (ls @ [l]) ix =
     (let ix' = index_lines d off ls ix; o' = off + length (file_of ls) in
      if l = [] then ix' else case d l of
        Some iv \<Rightarrow> if inv_TokenHash iv \<noteq> [] then ix'(inv_TokenHash iv \<mapsto> o') else ix'
      | None \<Rightarrow> ix')"
  by (induction ls arbitrary: off ix) (auto simp: file_of_def Let_def algebra_simps split: option.splits)

lemma latest_snoc [simp]: "latest h (is @ [i]) = (if inv_TokenHash i = h then Some i else latest h is)"
  by (simp add: latest_def)

lemma latest_Nil [simp]: "latest h [] = None"
  by (simp add: latest_def)

lemma index_represents:
  assumes "\<forall>(i, l) \<in> set ils. storable c i l" and "h \<noteq> []"
  shows "case latest h (map fst ils) of
           None \<Rightarrow> index_lines (dec c) 0 (map snd ils) (\<lambda>_. None) h = None
         | Some i \<Rightarrow> \<exists>pre l post. ils = pre @ (i, l) # post
             \<and> index_lines (dec c) 0 (map snd ils) (\<lambda>_. None) h = Some (length (file_of (map snd pre)))"
  using assms(1)
proof (induction ils rule: rev_induct)
  case Nil
  then show ?case by simp
next
  case (snoc x xs)
  obtain i l where x: "x = (i, l)" by (cases x)
  have l: "dec c l = Some i" "l \<noteq> []" using snoc.prems x by (auto simp: storable_def)
  show ?case
  proof (cases "inv_TokenHash i = h")
    case True
    then have "\<exists>pre l' post. xs @ [x] = pre @ (i, l') # post
        \<and> index_lines (dec c) 0 (map snd (xs @ [x])) (\<lambda>_. None) h = Some (length (file_of (map snd pre)))"
      using l x assms(2) by (intro exI [of _ xs] exI [of _ l] exI [of _ "[]"]) (simp add: index_lines_snoc Let_def)
    then show ?thesis using True x by simp
  next
    case False
    then have "index_lines (dec c) 0 (map snd (xs @ [x])) (\<lambda>_. None) h
        = index_lines (dec c) 0 (map snd xs) (\<lambda>_. None) h"
      using l x by (simp add: index_lines_snoc Let_def)
    moreover have "latest h (map fst (xs @ [x])) = latest h (map fst xs)" using False x by simp
    moreover have "\<forall>(i, l) \<in> set xs. storable c i l" using snoc.prems by auto
    note IH = snoc.IH [OF this]
    ultimately show ?thesis using IH
      by (auto split: option.splits) (metis append.assoc append_Cons)
  qed
qed

lemma scan_at_line:
  assumes "\<forall>(i, l) \<in> set (pre @ (i, l) # post). storable c i l"
  shows "\<exists>rest. scan_text defaultMaxLine (drop (length (file_of (map snd pre))) (file_of (map snd (pre @ (i, l) # post)))) = (l # rest, False)"
proof -
  have "drop (length (file_of (map snd pre))) (file_of (map snd (pre @ (i, l) # post))) = file_of (map snd ((i, l) # post))"
    by simp
  moreover have "\<forall>k \<in> set (map snd ((i, l) # post)). newline \<notin> set k \<and> drop_cr k = k \<and> length k < defaultMaxLine"
    using assms storable_line by fastforce
  then have "scan_text defaultMaxLine (file_of (map snd ((i, l) # post))) = (map snd ((i, l) # post), False)"
    by (rule scan_file_of)
  ultimately show ?thesis by simp
qed

lemma find_represents:
  assumes r: "represents c s ils" and "h \<noteq> []"
  shows "FindByTokenHash c h s = Inr (latest h (map fst ils))"
proof -
  have st: "\<forall>(i, l) \<in> set ils. storable c i l" and f: "st_file s = file_of (map snd ils)" "st_open s"
    and ix: "st_index s = index_lines (dec c) 0 (map snd ils) (\<lambda>_. None)"
    using r by (auto simp: represents_def)
  show ?thesis
  proof (cases "latest h (map fst ils)")
    case None
    then show ?thesis using index_represents [OF st assms(2)] ix by (simp add: FindByTokenHash_def)
  next
    case (Some i)
    then obtain pre l post where p: "ils = pre @ (i, l) # post"
      and o: "st_index s h = Some (length (file_of (map snd pre)))"
      using index_represents [OF st assms(2)] ix by auto
    obtain rest where "scan_text defaultMaxLine (drop (length (file_of (map snd pre))) (st_file s)) = (l # rest, False)"
      using scan_at_line st p f by metis
    moreover have "dec c l = Some i" using st p by (simp add: storable_def)
    ultimately show ?thesis using o f Some by (simp add: FindByTokenHash_def)
  qed
qed

lemma append_represents:
  assumes "represents c s ils" and "storable c i l"
  shows "fst (Append c None i s) = None \<and> represents c (snd (Append c None i s)) (ils @ [(i, l)])"
proof -
  have "enc c i = Some l" "dec c l = Some i" "l \<noteq> []" using assms(2) by (simp_all add: storable_def)
  then show ?thesis using assms
    by (auto simp: Append_def represents_def index_lines_snoc Let_def file_of_def)
qed

lemma restart_represents:
  assumes "represents c s ils"
  shows "NewInviteStore c (st_file s) = Inr s"
proof -
  have "scan_text maxLine (st_file s) = (map snd ils, False)" by (rule represents_scan [OF assms])
  then show ?thesis using assms by (simp add: NewInviteStore_def buildIndex_def represents_def)
qed

lemma kept_lines_represented:
  assumes "\<forall>(i, l) \<in> set ils. storable c i l"
  shows "kept_lines c now (map snd ils) = map snd (filter (\<lambda>p. live_invite now (fst p)) ils)"
  using assms by (induction ils) (auto simp: kept_lines_def storable_def)

definition gc_ok :: "gc_env \<Rightarrow> bool" where
  "gc_ok g \<longleftrightarrow> gc_close_ok g \<and> gc_read_ok g \<and> gc_create_ok g \<and> gc_write_fails g = None
     \<and> gc_tmp_close_ok g \<and> gc_rename_ok g \<and> gc_reopen_ok g"

lemma gc_represents:
  assumes r: "represents c s ils" and "gc_ok g"
  shows "fst (GC c g s) = None \<and> represents c (snd (GC c g s)) (filter (\<lambda>p. live_invite (gc_now g) (fst p)) ils)"
proof -
  have st: "\<forall>(i, l) \<in> set ils. storable c i l" using r by (simp add: represents_def)
  note k = kept_lines_represented [OF st, of "gc_now g"]
  have "st_open s" using r by (simp add: represents_def)
  then have "GC c g s = (None, \<lparr>st_file = file_of (map snd (filter (\<lambda>p. live_invite (gc_now g) (fst p)) ils)),
      st_open = True, st_index = index_lines (dec c) 0 (map snd (filter (\<lambda>p. live_invite (gc_now g) (fst p)) ils)) (\<lambda>_. None)\<rparr>)"
    using assms(2) by (simp add: GC_def gc_ok_def represents_scan [OF r] k file_of_def)
  then show ?thesis using st by (auto simp: represents_def)
qed

lemma failed_gc_closed: "fst (GC c g s) \<noteq> None \<Longrightarrow> \<not> st_open (snd (GC c g s))"
  by (auto simp: GC_def Let_def split: option.splits prod.splits if_splits)

lemma closed_store_fails:
  assumes "\<not> st_open s"
  shows "fst (Append c w i s) \<noteq> None" and "fst (GC c g s) \<noteq> None" and "snd (Append c w i s) = s"
    and "st_file (snd (GC c g s)) = st_file s" and "\<not> st_open (snd (GC c g s))"
  using assms by (simp_all add: Append_def GC_def Let_def split: option.splits)

text \<open>A sequence of later operations on the store, with the outcome of each.\<close>

datatype store_op = AppendOp "nat option" invite_link | GCOp gc_env

fun store_run :: "invite_codec \<Rightarrow> store_op list \<Rightarrow> invite_store \<Rightarrow> invite_error option list \<times> invite_store" where
  "store_run c [] s = ([], s)"
| "store_run c (AppendOp w i # ops) s =
     (let (e, s') = Append c w i s; (es, t) = store_run c ops s' in (e # es, t))"
| "store_run c (GCOp g # ops) s =
     (let (e, s') = GC c g s; (es, t) = store_run c ops s' in (e # es, t))"

lemma closed_store_run:
  "\<not> st_open s \<Longrightarrow> None \<notin> set (fst (store_run c ops s)) \<and> st_file (snd (store_run c ops s)) = st_file s
     \<and> \<not> st_open (snd (store_run c ops s))"
proof (induction ops arbitrary: s)
  case (Cons op ops)
  show ?case
  proof (cases op)
    case (AppendOp w i)
    obtain e s' where e: "Append c w i s = (e, s')" by fastforce
    have "e \<noteq> None" "s' = s" using closed_store_fails(1,3) [OF Cons.prems, of c w i] e by auto
    then show ?thesis using AppendOp e Cons.IH [OF Cons.prems] by (auto simp: case_prod_beta)
  next
    case (GCOp g)
    obtain e s' where e: "GC c g s = (e, s')" by fastforce
    have "e \<noteq> None" "st_file s' = st_file s" "\<not> st_open s'"
      using closed_store_fails(2,4,5) [OF Cons.prems, of c g] e by auto
    then show ?thesis using GCOp e Cons.IH [of s'] by (auto simp: case_prod_beta)
  qed
qed simp

section \<open>A concrete codec\<close>

definition sample_invite :: "string \<Rightarrow> int \<Rightarrow> invite_link" where
  "sample_invite h x = \<lparr>inv_ID = ''i'', inv_PeerID = ''alice'', inv_Mode = ModeHMAC, inv_TokenHash = h, inv_ShortCode = [],
     inv_ExpiresAt = Some x, inv_MaxUses = 1, inv_UseCount = 0, inv_CreatedAt = 0, inv_CreatedBy = ''system'',
     inv_ConfigEnc = [], inv_HMACSig = []\<rparr>"

definition sample_codec :: invite_codec where
  "sample_codec = \<lparr>enc = (\<lambda>i. if i = sample_invite ''h'' 5 then Some ''{h}''
        else if i = sample_invite ''g'' 9 then Some ''{g}'' else None),
     dec = (\<lambda>l. if l = ''{h}'' then Some (sample_invite ''h'' 5)
        else if l = ''{g}'' then Some (sample_invite ''g'' 9) else None)\<rparr>"

definition sample_store :: invite_store where
  "sample_store = \<lparr>st_file = ''{h}'' @ [newline], st_open = True, st_index = [''h'' \<mapsto> 0]\<rparr>"

definition sample_gc :: "bool \<Rightarrow> gc_env" where
  "sample_gc ok = \<lparr>gc_now = 6, gc_close_ok = True, gc_read_ok = True, gc_create_ok = ok, gc_write_fails = None,
     gc_tmp_close_ok = True, gc_rename_ok = True, gc_reopen_ok = True\<rparr>"

lemma sample_storable:
  "storable sample_codec (sample_invite ''h'' 5) ''{h}''" "storable sample_codec (sample_invite ''g'' 9) ''{g}''"
  by (simp_all add: storable_def sample_codec_def sample_invite_def defaultMaxLine_def)

lemma sample_represents: "represents sample_codec sample_store [(sample_invite ''h'' 5, ''{h}'')]"
  using sample_storable(1)
  by (auto simp: represents_def sample_store_def file_of_def storable_def sample_invite_def)

section \<open>Properties\<close>

text \<open>C14: On a store that represents a list of invites, appending another invite succeeds and yields a store
  that represents the longer list; every lookup returns the latest invite with the hash, or
  nothing; and a daemon restarted on the file rebuilds exactly the same store.\<close>

theorem invite_store_refines:
  assumes "represents c s ils" and "storable c i l" and "h \<noteq> []"
  shows "fst (Append c None i s) = None
     \<and> represents c (snd (Append c None i s)) (ils @ [(i, l)])
     \<and> FindByTokenHash c h (snd (Append c None i s)) = Inr (latest h (map fst ils @ [i]))
     \<and> NewInviteStore c (st_file (snd (Append c None i s))) = Inr (snd (Append c None i s))"
proof -
  have r: "fst (Append c None i s) = None" "represents c (snd (Append c None i s)) (ils @ [(i, l)])"
    using append_represents [OF assms(1,2)] by auto
  then show ?thesis using find_represents [OF r(2) assms(3)] restart_represents [OF r(2)] by simp
qed

theorem invite_store_refines_witness:
  "FindByTokenHash sample_codec ''h'' (snd (Append sample_codec None (sample_invite ''g'' 9) sample_store))
     = Inr (Some (sample_invite ''h'' 5))"
  using invite_store_refines [OF sample_represents sample_storable(2), of "''h''"]
  by (simp add: latest_def sample_invite_def)

text \<open>A garbage collection without I/O error keeps exactly the invites that are neither expired
  nor used up, in their order: the store then represents the filtered list, and lookups and a
  restart agree with it.\<close>

theorem invite_gc_refines:
  assumes "represents c s ils" and "gc_ok g" and "h \<noteq> []"
  shows "fst (GC c g s) = None
     \<and> represents c (snd (GC c g s)) (filter (\<lambda>p. live_invite (gc_now g) (fst p)) ils)
     \<and> FindByTokenHash c h (snd (GC c g s)) = Inr (latest h (filter (live_invite (gc_now g)) (map fst ils)))
     \<and> NewInviteStore c (st_file (snd (GC c g s))) = Inr (snd (GC c g s))"
proof -
  have r: "fst (GC c g s) = None" "represents c (snd (GC c g s)) (filter (\<lambda>p. live_invite (gc_now g) (fst p)) ils)"
    using gc_represents [OF assms(1,2)] by auto
  have "map fst (filter (\<lambda>p. live_invite (gc_now g) (fst p)) ils) = filter (live_invite (gc_now g)) (map fst ils)"
    by (simp add: filter_map comp_def)
  then show ?thesis using r find_represents [OF r(2) assms(3)] restart_represents [OF r(2)] by simp
qed

theorem invite_gc_refines_witness:
  "FindByTokenHash sample_codec ''h'' (snd (GC sample_codec (sample_gc True) sample_store)) = Inr None"
  using invite_gc_refines [OF sample_represents, of "sample_gc True" "''h''"]
  by (simp add: gc_ok_def sample_gc_def live_invite_def sample_invite_def latest_def)

text \<open>A garbage collection that fails at any of its steps leaves the store closed: from then on
  every append and every collection fails and the file never changes again, until a restart.\<close>

theorem failed_gc_disables_store:
  assumes "fst (GC c g s) \<noteq> None"
  shows "None \<notin> set (fst (store_run c ops (snd (GC c g s))))
     \<and> st_file (snd (store_run c ops (snd (GC c g s)))) = st_file (snd (GC c g s))"
  using closed_store_run [OF failed_gc_closed [OF assms]] by blast

theorem failed_gc_disables_store_witness:
  "None \<notin> set (fst (store_run sample_codec [AppendOp None (sample_invite ''g'' 9), GCOp (sample_gc True)]
     (snd (GC sample_codec (sample_gc False) sample_store))))"
proof -
  have "scan_text maxLine (st_file sample_store) = ([''{h}''], False)"
    using represents_scan [OF sample_represents] by simp
  then have "fst (GC sample_codec (sample_gc False) sample_store) \<noteq> None"
    by (simp add: GC_def sample_gc_def Let_def sample_store_def)
  then show ?thesis using failed_gc_disables_store by blast
qed

lemma torn_file:
  assumes "represents c s ils" and "storable c j m" and "k \<le> length m" and "storable c i l"
  shows "st_file (snd (Append c None i (snd (Append c (Some k) j s)))) = file_of (map snd ils @ [take k m @ l])"
    and "st_index (snd (Append c None i (snd (Append c (Some k) j s)))) = (if inv_TokenHash i \<noteq> []
      then (st_index s)(inv_TokenHash i \<mapsto> length (file_of (map snd ils) @ take k m)) else st_index s)"
    and "st_open (snd (Append c None i (snd (Append c (Some k) j s))))"
  using assms by (simp_all add: Append_def represents_def storable_def file_of_def)

text \<open>A write that stops half way leaves a fragment without a newline, and the next append
  continues that line. The invite appended next is found until the daemon restarts; after the
  restart it is gone, because its line no longer parses.\<close>

theorem torn_append_lost_at_restart:
  assumes r: "represents c s ils" and j: "storable c j m" and i: "storable c i l"
    and k: "k \<le> length m" and bad: "dec c (take k m @ l) = None"
    and h: "inv_TokenHash i = h" "h \<noteq> []" and new: "latest h (map fst ils) = None"
  defines "s2 \<equiv> snd (Append c None i (snd (Append c (Some k) j s)))"
  shows "FindByTokenHash c h s2 = Inr (Some i)
     \<and> (\<exists>t. NewInviteStore c (st_file s2) = Inr t \<and> FindByTokenHash c h t = Inr None)"
proof
  note t = torn_file [OF r j k i, folded s2_def]
  have "drop (length (file_of (map snd ils) @ take k m)) (st_file s2) = file_of [l]"
    using t(1) by (simp add: file_of_def)
  moreover have "scan_text defaultMaxLine (file_of [l]) = ([l], False)"
    using storable_line [OF i] by (intro scan_file_of) simp
  ultimately show "FindByTokenHash c h s2 = Inr (Some i)"
    using t(2,3) h i by (simp add: FindByTokenHash_def storable_def)
next
  note t = torn_file [OF r j k i, folded s2_def]
  have st: "\<forall>(i, l) \<in> set ils. storable c i l" using r by (simp add: represents_def)
  have torn: "newline \<notin> set (take k m @ l)" "drop_cr (take k m @ l) = take k m @ l" "length (take k m @ l) < maxLine"
    using i j by (auto simp: storable_def drop_cr_def defaultMaxLine_def maxLine_def dest: in_set_takeD)
  have "\<forall>x \<in> set (map snd ils @ [take k m @ l]). newline \<notin> set x \<and> drop_cr x = x \<and> length x < maxLine"
    using st storable_line torn by fastforce
  then have "scan_text maxLine (st_file s2) = (map snd ils @ [take k m @ l], False)"
    unfolding t(1) by (rule scan_file_of)
  moreover have "index_lines (dec c) 0 (map snd ils @ [take k m @ l]) (\<lambda>_. None) h = None"
    using bad index_represents [OF st h(2)] new by (simp add: index_lines_snoc Let_def)
  ultimately show "\<exists>t. NewInviteStore c (st_file s2) = Inr t \<and> FindByTokenHash c h t = Inr None"
    by (simp add: NewInviteStore_def buildIndex_def FindByTokenHash_def)
qed

theorem torn_append_lost_at_restart_witness:
  "\<exists>t. NewInviteStore sample_codec (st_file (snd (Append sample_codec None (sample_invite ''g'' 9)
        (snd (Append sample_codec (Some 2) (sample_invite ''h'' 5) sample_store))))) = Inr t
     \<and> FindByTokenHash sample_codec ''g'' t = Inr None"
proof -
  have "dec sample_codec (take 2 ''{h}'' @ ''{g}'') = None" by (simp add: sample_codec_def)
  moreover have "inv_TokenHash (sample_invite ''g'' 9) = ''g''" by (simp add: sample_invite_def)
  moreover have "latest ''g'' (map fst [(sample_invite ''h'' 5, ''{h}'')]) = None"
    by (simp add: latest_def sample_invite_def)
  ultimately show ?thesis
    using torn_append_lost_at_restart [OF sample_represents sample_storable(1) sample_storable(2), of 2 "''g''"] by simp
qed

lemma scan_long_line:
  assumes "\<forall>l \<in> set ls. newline \<notin> set l" and "l \<in> set ls" and "limit \<le> length l"
  shows "snd (scan_text limit (file_of ls))"
proof -
  have "takeWhile (\<lambda>l. length l < limit) ls \<noteq> ls"
  proof
    assume "takeWhile (\<lambda>l. length l < limit) ls = ls"
    then have "l \<in> set (takeWhile (\<lambda>l. length l < limit) ls)" using assms(2) by metis
    then show False using assms(3) by (auto dest: set_takeWhileD)
  qed
  then have "length (takeWhile (\<lambda>l. length l < limit) ls) < length ls"
    by (metis length_takeWhile_le nat_less_le takeWhile_eq_take take_all_iff order_refl)
  then show ?thesis using assms(1) by (simp add: scan_text_def raw_lines_file_of Let_def)
qed

lemma index_lines_no_empty_hash: "index_lines d off ls ix [] = ix []"
  by (induction d off ls ix rule: index_lines.induct) (auto split: option.splits)

lemma find_represents_in:
  assumes "represents c s ils" and "FindByTokenHash c h s = Inr (Some i)"
  shows "i \<in> fst ` set ils"
proof (cases "h = []")
  case True
  then show ?thesis using assms by (simp add: FindByTokenHash_def represents_def index_lines_no_empty_hash)
next
  case False
  then have "latest h (map fst ils) = Some i" using find_represents [OF assms(1)] assms(2) by simp
  then have "i \<in> set (rev (map fst ils))" unfolding latest_def by (blast dest: find_Some_in)
  then show ?thesis by simp
qed

lemma append_error_unchanged:
  "represents c s ils \<Longrightarrow> fst (Append c None i s) \<noteq> None \<Longrightarrow> snd (Append c None i s) = s"
  by (simp add: Append_def represents_def Let_def split: option.splits)

text \<open>An invite whose encoding reaches one mebibyte is accepted, after which the daemon cannot open
  the store at its next start, and the next garbage collection fails and closes the store.\<close>

theorem oversized_invite_blocks_restart:
  assumes r: "represents c s ils" and e: "enc c i = Some l" and n: "newline \<notin> set l" and len: "maxLine \<le> length l"
    and g: "gc_close_ok g" "gc_read_ok g"
  shows "fst (Append c None i s) = None
     \<and> NewInviteStore c (st_file (snd (Append c None i s))) = Inl InvScan
     \<and> fst (GC c g (snd (Append c None i s))) = Some InvScan
     \<and> \<not> st_open (snd (GC c g (snd (Append c None i s))))"
proof -
  let ?t = "snd (Append c None i s)"
  have a: "fst (Append c None i s) = None" "st_file ?t = file_of (map snd ils @ [l])" "st_open ?t"
    using r e by (simp_all add: Append_def represents_def file_of_def)
  have "\<forall>k \<in> set (map snd ils @ [l]). newline \<notin> set k" using r n by (auto simp: represents_def storable_def)
  then have sc: "snd (scan_text maxLine (st_file ?t))" unfolding a(2) by (rule scan_long_line [OF _ _ len]) simp
  have "NewInviteStore c (st_file ?t) = Inl InvScan"
    using sc by (simp add: NewInviteStore_def buildIndex_def case_prod_beta)
  moreover have "fst (GC c g ?t) = Some InvScan"
    using sc a(3) g by (simp add: GC_def case_prod_beta Let_def)
  ultimately show ?thesis using a(1) failed_gc_closed [of c g ?t] by simp
qed

theorem oversized_invite_blocks_restart_witness:
  "NewInviteStore (sample_codec\<lparr>enc := \<lambda>_. Some (replicate maxLine CHR ''x'')\<rparr>)
     (st_file (snd (Append (sample_codec\<lparr>enc := \<lambda>_. Some (replicate maxLine CHR ''x'')\<rparr>) None (sample_invite ''h'' 5)
        \<lparr>st_file = [], st_open = True, st_index = \<lambda>_. None\<rparr>))) = Inl InvScan"
proof -
  have "represents (sample_codec\<lparr>enc := \<lambda>_. Some (replicate maxLine CHR ''x'')\<rparr>) \<lparr>st_file = [], st_open = True, st_index = \<lambda>_. None\<rparr> []"
    by (simp add: represents_def file_of_def)
  moreover have "newline \<notin> set (replicate maxLine CHR ''x'')" by simp
  moreover have "gc_close_ok (sample_gc True)" "gc_read_ok (sample_gc True)" by (simp_all add: sample_gc_def)
  ultimately show ?thesis
    using oversized_invite_blocks_restart [where l = "replicate maxLine CHR ''x''" and i = "sample_invite ''h'' 5" and g = "sample_gc True"]
    by simp
qed

end
