(* ===== verification/Invite_Handlers.thy ===== *)
theory Invite_Handlers
  imports Invite_Store Remote_Api "HOL-Library.Word"
begin

unbundle bit_operations_syntax

text \<open>
  The invite links' handlers (\<open>invite/handler.go\<close>) with the signature, the short code, the encryption
  of a stored configuration and the rate limit they use (\<open>hmac.go\<close>, \<open>shortcode.go\<close>, \<open>crypto.go\<close>).
  SHA-256, HMAC, AES-GCM, \<open>fmt.Sscanf\<close> and randomness are arguments. A request reads the clock once.
  The replies keep instants, not their RFC3339 text. The store's properties are those of
  \<open>Invite_Store\<close>.
\<close>

section \<open>Hexadecimal text\<close>

definition hex_digit :: "nat \<Rightarrow> char" where
  "hex_digit n = ''0123456789abcdef'' ! n"

definition hex_encode :: "string \<Rightarrow> string" where
  "hex_encode s = concat (map (\<lambda>c. [hex_digit (byte c div 16), hex_digit (byte c mod 16)]) s)"

definition hex_value :: "char \<Rightarrow> nat option" where
  "hex_value c = first_index (\<lambda>d. d = lower_char c) ''0123456789abcdef''"

text \<open>\<open>hex.DecodeString\<close> with its error ignored: the bytes before the first bad or single digit.\<close>

fun hex_decode_prefix :: "string \<Rightarrow> string" where
  "hex_decode_prefix (a # b # rest) =
     (case (hex_value a, hex_value b) of
        (Some x, Some y) \<Rightarrow> chr (x * 16 + y) # hex_decode_prefix rest
      | _ \<Rightarrow> [])"
| "hex_decode_prefix _ = []"

lemma hex_digit_value_all: "\<forall>n \<in> set [0..<16]. hex_value (hex_digit n) = Some n"
  by code_simp

lemma hex_digit_value [simp]: "n < 16 \<Longrightarrow> hex_value (hex_digit n) = Some n"
  using hex_digit_value_all by (metis atLeastLessThan_iff bot_nat_0.extremum set_upt)

lemma hex_decode_encode [simp]: "hex_decode_prefix (hex_encode s) = s"
  by (induction s) (auto simp: hex_encode_def div_less_16)

section \<open>Short codes (shortcode.go)\<close>

definition be_uint64 :: "string \<Rightarrow> 64 word" where
  "be_uint64 buf = foldl (\<lambda>a c. push_bit 8 a OR word_of_nat (byte c)) 0 buf"

text \<open>The buffer of eight random bytes is \<open>None\<close> when the source of randomness fails.\<close>

definition GenerateCode :: "string option \<Rightarrow> string option" where
  "GenerateCode buf =
     (case buf of
        None \<Rightarrow> None
      | Some b \<Rightarrow>
          let n = be_uint64 b;
              code = 10000000 + uint (n mod 90000000);
              code' = (if code < 10000000 \<or> code > 99999999 then 10000000 + uint (n mod 90000000) else code);
              t = show_int code'
          in Some (replicate (8 - length t) (CHR ''0'') @ t))"

section \<open>Signatures (hmac.go)\<close>

definition binPutUint64 :: "64 word \<Rightarrow> string" where
  "binPutUint64 v = map (\<lambda>k. chr (unat (drop_bit k v))) [56, 48, 40, 32, 24, 16, 8, 0]"

definition SignURL :: "(string \<Rightarrow> string \<Rightarrow> string) \<Rightarrow> string \<Rightarrow> string \<Rightarrow> int \<Rightarrow> string \<Rightarrow> string" where
  "SignURL hmac token peerID expiresAt hmacKey =
     hmac hmacKey (token @ peerID @ binPutUint64 (word_of_int expiresAt))"

definition ValidateURL :: "(string \<Rightarrow> string \<Rightarrow> string) \<Rightarrow> string \<Rightarrow> string \<Rightarrow> int \<Rightarrow> string \<Rightarrow> string \<Rightarrow> bool" where
  "ValidateURL hmac token peerID expiresAt signature hmacKey \<longleftrightarrow>
     signature = SignURL hmac token peerID expiresAt hmacKey"

section \<open>Encrypted configurations (crypto.go)\<close>

record aead =
  sha256 :: "string \<Rightarrow> string"
  gcm_seal :: "string \<Rightarrow> string \<Rightarrow> string \<Rightarrow> string"
  gcm_open :: "string \<Rightarrow> string \<Rightarrow> string \<Rightarrow> string option"

datatype crypto_error = CryptoCipher | CryptoNonce | CryptoBase64 | CryptoTooShort | CryptoOpen

definition aes_key_ok :: "string \<Rightarrow> bool" where
  "aes_key_ok key \<longleftrightarrow> length key \<in> {16, 24, 32}"

definition nonceSize :: nat where
  "nonceSize = 12"

definition DeriveKey :: "aead \<Rightarrow> string \<Rightarrow> string" where
  "DeriveKey a secret = take 32 (sha256 a secret)"

definition EncryptConfig :: "aead \<Rightarrow> string option \<Rightarrow> string \<Rightarrow> string \<Rightarrow> crypto_error + string" where
  "EncryptConfig a nonce plaintext key =
     (if \<not> aes_key_ok key then Inl CryptoCipher
      else case nonce of None \<Rightarrow> Inl CryptoNonce
        | Some n \<Rightarrow> Inr (std_encode (n @ gcm_seal a key n plaintext)))"

definition DecryptConfig :: "aead \<Rightarrow> string \<Rightarrow> string \<Rightarrow> crypto_error + string" where
  "DecryptConfig a blob key =
     (case std_decode blob of
        None \<Rightarrow> Inl CryptoBase64
      | Some data \<Rightarrow>
          if \<not> aes_key_ok key then Inl CryptoCipher
          else if length data < nonceSize then Inl CryptoTooShort
          else (case gcm_open a key (take nonceSize data) (drop nonceSize data) of
                  None \<Rightarrow> Inl CryptoOpen | Some p \<Rightarrow> Inr p))"

section \<open>Rate limit (handler.go)\<close>

definition rateLimitMaxAttempts :: nat where
  "rateLimitMaxAttempts = 5"

definition rateLimitWindow :: duration where
  "rateLimitWindow = 60 * second"

definition checkRateLimit :: "instant \<Rightarrow> string \<Rightarrow> (string \<Rightarrow> instant list option) \<Rightarrow> bool \<times> (string \<Rightarrow> instant list option)" where
  "checkRateLimit now ip m =
     (case m ip of
        None \<Rightarrow> (True, m(ip \<mapsto> [now]))
      | Some attempts \<Rightarrow>
          let cutoff = now - rateLimitWindow; filtered = filter (\<lambda>t. t > cutoff) attempts
          in if length filtered \<ge> rateLimitMaxAttempts then (False, m(ip \<mapsto> filtered))
             else (True, m(ip \<mapsto> filtered @ [now])))"

section \<open>Handlers (handler.go)\<close>

record invite_params =
  ip_codec :: invite_codec
  ip_aead :: aead
  ip_hmac :: "string \<Rightarrow> string \<Rightarrow> string"
  ip_sscan :: "string \<Rightarrow> int"

record invite_handler =
  ih_store :: invite_store
  ih_hmacKey :: string
  ih_encKey :: string
  ih_rlMap :: "string \<Rightarrow> instant list option"

record create_request =
  cr_PeerID :: string
  cr_Mode :: string
  cr_TTLSeconds :: int
  cr_MaxUses :: int

record create_env =
  ce_now :: instant
  ce_id :: string
  ce_token :: string
  ce_random :: "string option"
  ce_written :: "nat option"

record landing_request =
  lr_peerId :: string
  lr_XForwardedFor :: string
  lr_RemoteAddr :: string
  lr_token :: string
  lr_expires :: string
  lr_sig :: string
  lr_code :: string

datatype invite_body =
    CreatedHMAC (cb_link: invite_link) (cb_url: string) (cb_token: string)
  | CreatedCode invite_link string
  | LandingBody string string "instant option" instant
  | ConfigText string

definition NewHandler :: "invite_params \<Rightarrow> invite_store \<Rightarrow> string \<Rightarrow> invite_handler" where
  "NewHandler p st daemonSecret =
     \<lparr>ih_store = st, ih_hmacKey = DeriveKey (ip_aead p) (daemonSecret @ ''-hmac''),
      ih_encKey = DeriveKey (ip_aead p) daemonSecret, ih_rlMap = (\<lambda>_. None)\<rparr>"

definition extractIP :: "landing_request \<Rightarrow> string" where
  "extractIP r = (if lr_XForwardedFor r \<noteq> [] then lr_XForwardedFor r else lr_RemoteAddr r)"

definition token_hash :: "invite_params \<Rightarrow> string \<Rightarrow> string" where
  "token_hash p token = hex_encode (sha256 (ip_aead p) token)"

text \<open>\<open>time.Duration(ttl) * time.Second\<close> in 64 bits, and \<open>Time.Unix\<close>.\<close>

definition ttl_duration :: "int \<Rightarrow> duration" where
  "ttl_duration ttl = sint (word_of_int ttl * word_of_int second :: 64 word)"

definition unix :: "instant \<Rightarrow> int" where
  "unix t = t div second"

definition with_defaults :: "string \<Rightarrow> create_request \<Rightarrow> create_request" where
  "with_defaults peerID req =
     \<lparr>cr_PeerID = (if cr_PeerID req = [] then peerID else cr_PeerID req),
      cr_Mode = (if cr_Mode req = [] then ''hmac'' else cr_Mode req),
      cr_TTLSeconds = (if cr_TTLSeconds req \<le> 0 then 3600 else cr_TTLSeconds req),
      cr_MaxUses = (if cr_MaxUses req \<le> 0 then 1 else cr_MaxUses req)\<rparr>"

definition new_link :: "create_env \<Rightarrow> create_request \<Rightarrow> invite_link" where
  "new_link e req =
     \<lparr>inv_ID = ce_id e, inv_PeerID = cr_PeerID req, inv_Mode = cr_Mode req, inv_TokenHash = [], inv_ShortCode = [],
      inv_ExpiresAt = Some (ce_now e + ttl_duration (cr_TTLSeconds req)), inv_MaxUses = cr_MaxUses req,
      inv_UseCount = 0, inv_CreatedAt = ce_now e, inv_CreatedBy = ''system'', inv_ConfigEnc = [], inv_HMACSig = []\<rparr>"

definition HandleCreate :: "invite_params \<Rightarrow> create_env \<Rightarrow> string \<Rightarrow> create_request option \<Rightarrow> invite_handler
    \<Rightarrow> invite_body reply \<times> invite_handler" where
  "HandleCreate p e peerID body h =
     (if peerID = [] then (ErrorResponse 400 ErrCodeBadRequest, h)
      else case body of
        None \<Rightarrow> (ErrorResponse 400 ErrCodeBadRequest, h)
      | Some req0 \<Rightarrow>
          let req = with_defaults peerID req0; mode = cr_Mode req; link = new_link e req;
              expiresAt = ce_now e + ttl_duration (cr_TTLSeconds req) in
          if mode \<noteq> ModeHMAC \<and> mode \<noteq> ModeShortCode then (ErrorResponse 400 ErrCodeBadRequest, h)
          else if mode = ModeHMAC then
            let token = ce_token e;
                sig = hex_encode (SignURL (ip_hmac p) token (cr_PeerID req) (unix expiresAt) (ih_hmacKey h));
                link1 = link\<lparr>inv_TokenHash := token_hash p token, inv_HMACSig := sig\<rparr> in
            case Append (ip_codec p) (ce_written e) link1 (ih_store h) of
              (Some _, st) \<Rightarrow> (ErrorResponse 500 ErrCodeInternalError, h\<lparr>ih_store := st\<rparr>)
            | (None, st) \<Rightarrow>
                (JSONResponse 201 (CreatedHMAC link1
                   (''/invite/'' @ cr_PeerID req @ ''?token='' @ token @ ''&expires='' @ show_int (unix expiresAt)
                      @ ''&sig='' @ sig) token), h\<lparr>ih_store := st\<rparr>)
          else
            case GenerateCode (ce_random e) of
              None \<Rightarrow> (ErrorResponse 500 ErrCodeInternalError, h)
            | Some code \<Rightarrow>
                let link1 = link\<lparr>inv_TokenHash := token_hash p code, inv_ShortCode := code\<rparr> in
                case Append (ip_codec p) (ce_written e) link1 (ih_store h) of
                  (Some _, st) \<Rightarrow> (ErrorResponse 500 ErrCodeInternalError, h\<lparr>ih_store := st\<rparr>)
                | (None, st) \<Rightarrow> (JSONResponse 201 (CreatedCode link1 code), h\<lparr>ih_store := st\<rparr>))"

text \<open>The three checks that the landing page's two branches and the download share.\<close>

definition check_invite :: "instant \<Rightarrow> string \<Rightarrow> invite_error + invite_link option \<Rightarrow> invite_body reply + invite_link" where
  "check_invite now peerID found =
     (case found of
        Inl _ \<Rightarrow> Inl (ErrorResponse 500 ErrCodeInternalError)
      | Inr None \<Rightarrow> Inl (ErrorResponse 404 ErrCodeNotFound)
      | Inr (Some iv) \<Rightarrow>
          if inv_PeerID iv \<noteq> peerID then Inl (ErrorResponse 404 ErrCodeNotFound)
          else if \<not> (case inv_ExpiresAt iv of None \<Rightarrow> False | Some x \<Rightarrow> now < x) then Inl (ErrorResponse 410 ''expired'')
          else if inv_MaxUses iv > 0 \<and> inv_UseCount iv \<ge> inv_MaxUses iv then Inl (ErrorResponse 410 ''consumed'')
          else Inr iv)"

definition landing_body :: "invite_link \<Rightarrow> invite_body" where
  "landing_body iv = LandingBody (inv_PeerID iv) (inv_Mode iv) (inv_ExpiresAt iv) (inv_CreatedAt iv)"

definition HandleLanding :: "invite_params \<Rightarrow> instant \<Rightarrow> landing_request \<Rightarrow> invite_handler \<Rightarrow> invite_body reply \<times> invite_handler" where
  "HandleLanding p now r h =
     (let peerID = lr_peerId r in
      if peerID = [] then (ErrorResponse 400 ErrCodeBadRequest, h)
      else
        let (ok, rl) = checkRateLimit now (extractIP r) (ih_rlMap h); h1 = h\<lparr>ih_rlMap := rl\<rparr> in
        if \<not> ok then (ErrorResponse 429 ErrCodeRateLimited, h1)
        else if lr_token r \<noteq> [] then
          (case check_invite now peerID (FindByTokenHash (ip_codec p) (token_hash p (lr_token r)) (ih_store h)) of
             Inl err \<Rightarrow> (err, h1)
           | Inr iv \<Rightarrow>
               if lr_expires r \<noteq> [] \<and> lr_sig r \<noteq> []
                  \<and> \<not> ValidateURL (ip_hmac p) (lr_token r) peerID (ip_sscan p (lr_expires r))
                        (hex_decode_prefix (lr_sig r)) (ih_hmacKey h)
               then (ErrorResponse 403 ErrCodeUnauthorized, h1)
               else (JSONResponse 200 (landing_body iv), h1))
        else if lr_code r \<noteq> [] then
          (case check_invite now peerID (FindByTokenHash (ip_codec p) (token_hash p (lr_code r)) (ih_store h)) of
             Inl err \<Rightarrow> (err, h1)
           | Inr iv \<Rightarrow> (JSONResponse 200 (landing_body iv), h1))
        else (ErrorResponse 400 ErrCodeBadRequest, h1))"

definition HandleDownload :: "invite_params \<Rightarrow> instant \<Rightarrow> landing_request \<Rightarrow> invite_handler \<Rightarrow> invite_body reply \<times> invite_handler" where
  "HandleDownload p now r h =
     (let peerID = lr_peerId r in
      if peerID = [] then (ErrorResponse 400 ErrCodeBadRequest, h)
      else
        let (ok, rl) = checkRateLimit now (extractIP r) (ih_rlMap h); h1 = h\<lparr>ih_rlMap := rl\<rparr> in
        if \<not> ok then (ErrorResponse 429 ErrCodeRateLimited, h1)
        else if lr_token r = [] \<and> lr_code r = [] then (ErrorResponse 400 ErrCodeBadRequest, h1)
        else
          let key = (if lr_token r \<noteq> [] then lr_token r else lr_code r) in
          case check_invite now peerID (FindByTokenHash (ip_codec p) (token_hash p key) (ih_store h)) of
            Inl err \<Rightarrow> (err, h1)
          | Inr iv \<Rightarrow>
              if inv_ConfigEnc iv = [] then (ErrorResponse 404 ErrCodeNotFound, h1)
              else (case DecryptConfig (ip_aead p) (inv_ConfigEnc iv) (ih_encKey h) of
                      Inl _ \<Rightarrow> (ErrorResponse 500 ErrCodeInternalError, h1)
                    | Inr t \<Rightarrow> (JSONResponse 200 (ConfigText t), h1)))"

section \<open>Codes, signatures and encryption\<close>

lemma word_mod_small: "uint ((n :: 64 word) mod 90000000) < 90000000"
  by (simp add: uint_mod)

lemma word_mod_small_nat: "unat ((n :: 64 word) mod 90000000) < 90000000"
  by (simp add: unat_mod)

lemma GenerateCode_number:
  "GenerateCode (Some b) = Some (show_nat (10000000 + nat (uint (be_uint64 b mod 90000000))))"
proof -
  let ?u = "uint (be_uint64 b mod 90000000)"
  have u: "0 \<le> ?u" "?u < 90000000" using word_mod_small by simp_all
  have "length (show_nat (10000000 + nat ?u)) = 8"
    using word_mod_small_nat [of "be_uint64 b"] by (intro length_show_nat) auto
  moreover have "nat (10000000 + ?u) = 10000000 + nat ?u" using u by (simp add: nat_add_distrib)
  moreover have "\<not> 10000000 + ?u < 0" using u by linarith
  ultimately show ?thesis using u(2) by (simp add: GenerateCode_def show_int_def Let_def)
qed

lemma GenerateCode_eight_digits:
  assumes "GenerateCode buf = Some t"
  shows "length t = 8 \<and> (\<forall>c \<in> set t. 48 \<le> byte c \<and> byte c \<le> 57)"
proof -
  obtain b where b: "buf = Some b" using assms by (cases buf) (auto simp: GenerateCode_def)
  let ?n = "10000000 + nat (uint (be_uint64 b mod 90000000))"
  have "t = show_nat ?n" using assms b by (simp add: GenerateCode_number)
  moreover have "nat (uint (be_uint64 b mod 90000000)) < 90000000"
    using word_mod_small_nat [of "be_uint64 b"] by simp
  then have "length (show_nat ?n) = 8" by (intro length_show_nat) auto
  ultimately show ?thesis using show_nat_digits by blast
qed

lemma word_of_byte: "word_of_nat (byte (chr (unat w))) = take_bit 8 (w :: 64 word)"
proof -
  have "byte (chr (unat w)) = take_bit 8 (unat w)" by (simp add: take_bit_eq_mod)
  then show ?thesis by (simp only: flip: take_bit_of_nat) simp
qed

lemma join_byte: "push_bit 8 (drop_bit (k + 8) v) OR take_bit 8 (drop_bit k v) = drop_bit k (v :: 64 word)"
  by (rule bit_word_eqI) (auto simp: bit_simps)

lemma be_uint64_binPut: "be_uint64 (binPutUint64 v) = v"
proof -
  have "drop_bit 64 v = 0" by (rule bit_word_eqI) (simp add: bit_simps)
  moreover have "drop_bit 0 v = v" by simp
  ultimately show ?thesis
    using join_byte [of 56 v] join_byte [of 48 v] join_byte [of 40 v] join_byte [of 32 v]
      join_byte [of 24 v] join_byte [of 16 v] join_byte [of 8 v] join_byte [of 0 v]
    by (simp only: be_uint64_def binPutUint64_def word_of_byte foldl_Cons foldl_Nil list.map arith_simps add_0)
qed

lemma DecryptConfig_EncryptConfig:
  assumes "EncryptConfig a (Some n) t key = Inr blob" and "length n = nonceSize"
    and "gcm_open a key n (gcm_seal a key n t) = Some t"
  shows "DecryptConfig a blob key = Inr t"
  using assms by (auto simp: EncryptConfig_def DecryptConfig_def nonceSize_def split: if_splits)

lemma DeriveKey_is_aes_key: "length (sha256 a s) = 32 \<Longrightarrow> aes_key_ok (DeriveKey a s)"
  by (simp add: DeriveKey_def aes_key_ok_def)

section \<open>The rate limit is an exact sliding window\<close>

fun rl_run :: "(string \<times> instant) list \<Rightarrow> (string \<Rightarrow> instant list option) \<Rightarrow> bool list" where
  "rl_run [] m = []"
| "rl_run ((ip, now) # es) m = (let (ok, m') = checkRateLimit now ip m in ok # rl_run es m')"

text \<open>The ideal limit keeps every admitted request for ever and counts those of the window.\<close>

definition in_window :: "instant \<Rightarrow> string \<Rightarrow> (string \<times> instant) list \<Rightarrow> instant list" where
  "in_window now ip adm = map snd (filter (\<lambda>(i, t). i = ip \<and> t > now - rateLimitWindow) adm)"

fun ideal_run :: "(string \<times> instant) list \<Rightarrow> (string \<times> instant) list \<Rightarrow> bool list" where
  "ideal_run [] adm = []"
| "ideal_run ((ip, now) # es) adm =
     (let ok = length (in_window now ip adm) < rateLimitMaxAttempts
      in ok # ideal_run es (if ok then adm @ [(ip, now)] else adm))"

definition rl_rel :: "instant \<Rightarrow> (string \<Rightarrow> instant list option) \<Rightarrow> (string \<times> instant) list \<Rightarrow> bool" where
  "rl_rel t0 m adm \<longleftrightarrow> (\<forall>ip now. t0 \<le> now \<longrightarrow>
     filter (\<lambda>t. t > now - rateLimitWindow) (case m ip of None \<Rightarrow> [] | Some a \<Rightarrow> a) = in_window now ip adm)"

lemma in_window_snoc [simp]:
  "in_window now ip (adm @ [(i, t)]) = in_window now ip adm @ (if i = ip \<and> t > now - rateLimitWindow then [t] else [])"
  by (simp add: in_window_def)

lemma rateLimitWindow_pos [simp]: "0 < rateLimitWindow"
  by (simp add: rateLimitWindow_def duration_defs)

lemma refilter_window:
  "now \<le> now' \<Longrightarrow> filter (\<lambda>t. t > now' - rateLimitWindow) (filter (\<lambda>t. t > now - rateLimitWindow) xs)
     = filter (\<lambda>t. t > now' - rateLimitWindow) (xs :: instant list)"
  by (induction xs) auto

lemma checkRateLimit_step:
  assumes r: "rl_rel t0 m adm" and "t0 \<le> now" and c: "checkRateLimit now ip m = (ok, m')"
  shows "ok = (length (in_window now ip adm) < rateLimitMaxAttempts)
     \<and> rl_rel now m' (if ok then adm @ [(ip, now)] else adm)"
proof -
  have w: "\<And>ip now'. now \<le> now' \<Longrightarrow>
      filter (\<lambda>t. t > now' - rateLimitWindow) (case m ip of None \<Rightarrow> [] | Some a \<Rightarrow> a) = in_window now' ip adm"
    using r assms(2) unfolding rl_rel_def by (meson order_trans)
  show ?thesis
  proof (cases "m ip")
    case None
    then have e: "in_window now' ip adm = []" if "now \<le> now'" for now' using w [OF that, of ip] by simp
    have "ok" "m' = m(ip \<mapsto> [now])" using c None by (simp_all add: checkRateLimit_def)
    then show ?thesis using e w by (auto simp: rl_rel_def rateLimitMaxAttempts_def)
  next
    case (Some a)
    let ?f = "filter (\<lambda>t. t > now - rateLimitWindow) a"
    have f: "?f = in_window now ip adm" using w [of now ip] Some by simp
    have g: "filter (\<lambda>t. t > now' - rateLimitWindow) ?f = in_window now' ip adm" if "now \<le> now'" for now'
      using w [OF that, of ip] refilter_window [OF that, of a] Some by simp
    have ok: "ok = (length ?f < rateLimitMaxAttempts)"
      using c Some by (auto simp: checkRateLimit_def Let_def split: if_splits)
    have m': "m' = m(ip \<mapsto> (if ok then ?f @ [now] else ?f))"
      using c Some by (auto simp: checkRateLimit_def Let_def split: if_splits)
    have "rl_rel now m' (if ok then adm @ [(ip, now)] else adm)"
      unfolding rl_rel_def m' using g w by auto
    then show ?thesis using ok f by simp
  qed
qed

lemma rl_run_ideal:
  "rl_rel t0 m adm \<Longrightarrow> sorted (t0 # map snd es) \<Longrightarrow> rl_run es m = ideal_run es adm"
proof (induction es arbitrary: t0 m adm)
  case (Cons e es)
  obtain ip now where e: "e = (ip, now)" by (cases e)
  obtain ok m' where c: "checkRateLimit now ip m = (ok, m')" by fastforce
  have "t0 \<le> now" "sorted (now # map snd es)" using Cons.prems(2) e by auto
  note step = checkRateLimit_step [OF Cons.prems(1) this(1) c]
  show ?case using Cons.IH [OF conjunct2 [OF step] \<open>sorted (now # map snd es)\<close>] step e c by (simp add: Let_def)
qed simp

text \<open>C15: The rate limit of the public invite pages is an exact sliding window: over any sequence of
  requests in time order, a request is refused if and only if five requests with the same client key
  were admitted in the sixty seconds before it, and forgetting old attempts never changes a
  decision.\<close>

theorem invite_rate_limit_exact:
  assumes "sorted (map snd es)"
  shows "rl_run es (\<lambda>_. None) = ideal_run es []"
proof (cases es)
  case (Cons e es')
  have "rl_rel (snd e) (\<lambda>_. None) []" by (simp add: rl_rel_def in_window_def)
  moreover have "sorted (snd e # map snd es)" using assms Cons by simp
  ultimately show ?thesis by (rule rl_run_ideal)
qed simp

theorem invite_rate_limit_exact_witness:
  "rl_run [(''a'', 0), (''a'', 1), (''a'', 2), (''a'', 3), (''a'', 4), (''a'', 5), (''b'', 6), (''a'', 60 * second)] (\<lambda>_. None)
     = [True, True, True, True, True, False, True, True]"
  using invite_rate_limit_exact [of "[(''a'', 0), (''a'', 1), (''a'', 2), (''a'', 3), (''a'', 4), (''a'', 5), (''b'', 6), (''a'', 60 * second)]"]
  by (simp add: in_window_def rateLimitMaxAttempts_def rateLimitWindow_def duration_defs)

section \<open>Landing and download pages\<close>

lemma binPut_inj: "binPutUint64 v = binPutUint64 w \<longleftrightarrow> v = w"
  by (metis be_uint64_binPut)

lemma length_binPut: "length (binPutUint64 v) = 8"
  by (simp add: binPutUint64_def)

text \<open>What a signature covers: the concatenation of token and peer, and the expiry.\<close>

lemma ValidateURL_scope:
  assumes "\<And>m m'. hmac k m = hmac k m' \<Longrightarrow> m = m'"
  shows "ValidateURL hmac t' q' e' (SignURL hmac t q e k) k
     \<longleftrightarrow> t' @ q' = t @ q \<and> (word_of_int e' :: 64 word) = word_of_int e"
proof -
  have "ValidateURL hmac t' q' e' (SignURL hmac t q e k) k
      \<longleftrightarrow> (t @ q) @ binPutUint64 (word_of_int e) = (t' @ q') @ binPutUint64 (word_of_int e')"
    using assms unfolding ValidateURL_def SignURL_def append_assoc by metis
  also have "\<dots> \<longleftrightarrow> t @ q = t' @ q' \<and> binPutUint64 (word_of_int e) = binPutUint64 (word_of_int e')"
    by (rule append_eq_append_conv) (simp add: length_binPut)
  finally show ?thesis by (auto simp: binPut_inj)
qed

definition valid_invite :: "instant \<Rightarrow> string \<Rightarrow> invite_link \<Rightarrow> bool" where
  "valid_invite now peerID iv \<longleftrightarrow> inv_PeerID iv = peerID
     \<and> (case inv_ExpiresAt iv of None \<Rightarrow> False | Some x \<Rightarrow> now < x)
     \<and> \<not> (inv_MaxUses iv > 0 \<and> inv_UseCount iv \<ge> inv_MaxUses iv)"

lemma check_invite_Inr: "check_invite now q f = Inr iv \<longleftrightarrow> f = Inr (Some iv) \<and> valid_invite now q iv"
  by (auto simp: check_invite_def valid_invite_def split: sum.splits option.splits if_splits)

lemma check_invite_Inl: "check_invite now q f = Inl r \<Longrightarrow> \<not> succeeded r"
  by (auto simp: check_invite_def split: sum.splits option.splits if_splits)

lemma token_hash_nonempty: "sha256 (ip_aead p) t \<noteq> [] \<Longrightarrow> token_hash p t \<noteq> []"
  by (cases "sha256 (ip_aead p) t") (auto simp: token_hash_def hex_encode_def)

definition presented_key :: "landing_request \<Rightarrow> string" where
  "presented_key r = (if lr_token r \<noteq> [] then lr_token r else lr_code r)"

definition signature_acceptable :: "invite_params \<Rightarrow> invite_handler \<Rightarrow> landing_request \<Rightarrow> bool" where
  "signature_acceptable p h r \<longleftrightarrow> lr_token r = [] \<or> lr_expires r = [] \<or> lr_sig r = []
     \<or> ValidateURL (ip_hmac p) (lr_token r) (lr_peerId r) (ip_sscan p (lr_expires r)) (hex_decode_prefix (lr_sig r)) (ih_hmacKey h)"

lemma HandleLanding_succeeds:
  "succeeded (fst (HandleLanding p now r h)) \<longleftrightarrow>
     lr_peerId r \<noteq> [] \<and> fst (checkRateLimit now (extractIP r) (ih_rlMap h)) \<and> presented_key r \<noteq> []
     \<and> signature_acceptable p h r
     \<and> (\<exists>iv. FindByTokenHash (ip_codec p) (token_hash p (presented_key r)) (ih_store h) = Inr (Some iv)
             \<and> valid_invite now (lr_peerId r) iv)"
proof -
  obtain ok rl where c: "checkRateLimit now (extractIP r) (ih_rlMap h) = (ok, rl)" by fastforce
  let ?chk = "check_invite now (lr_peerId r) (FindByTokenHash (ip_codec p) (token_hash p (presented_key r)) (ih_store h))"
  have x: "(\<exists>iv. FindByTokenHash (ip_codec p) (token_hash p (presented_key r)) (ih_store h) = Inr (Some iv)
      \<and> valid_invite now (lr_peerId r) iv) \<longleftrightarrow> (\<exists>iv. ?chk = Inr iv)" by (simp add: check_invite_Inr)
  show ?thesis
  proof (cases ?chk)
    case (Inl e)
    then show ?thesis unfolding x using check_invite_Inl [OF Inl]
      by (cases "lr_token r = []") (simp_all add: HandleLanding_def Let_def c presented_key_def)
  next
    case (Inr iv)
    then show ?thesis unfolding x
      by (cases "lr_token r = []") (simp_all add: HandleLanding_def Let_def c presented_key_def signature_acceptable_def)
  qed
qed

text \<open>On a store that represents a list of invites, the landing page answers with the invite exactly
  when the client is within its rate limit, the latest invite whose hash matches the presented token
  (or else the code) belongs to the peer of the path, has not expired and is not used up, and the
  signature is right; a request that leaves out the signature or the expiry passes the last check.\<close>

theorem landing_accepts_iff:
  assumes "represents (ip_codec p) (ih_store h) ils" and "sha256 (ip_aead p) (presented_key r) \<noteq> []"
  shows "succeeded (fst (HandleLanding p now r h)) \<longleftrightarrow>
     lr_peerId r \<noteq> [] \<and> fst (checkRateLimit now (extractIP r) (ih_rlMap h)) \<and> presented_key r \<noteq> []
     \<and> signature_acceptable p h r
     \<and> (\<exists>iv. latest (token_hash p (presented_key r)) (map fst ils) = Some iv \<and> valid_invite now (lr_peerId r) iv)"
  using find_represents [OF assms(1) token_hash_nonempty [OF assms(2)]]
  by (simp add: HandleLanding_succeeds)

text \<open>A handler over the toy codec: the digest of a text is the text, its HMAC the key and the text.\<close>

definition sample_params :: "invite_codec \<Rightarrow> invite_params" where
  "sample_params c = \<lparr>ip_codec = c,
     ip_aead = \<lparr>sha256 = (\<lambda>s. s), gcm_seal = (\<lambda>k n t. t), gcm_open = (\<lambda>k n t. Some t)\<rparr>,
     ip_hmac = (\<lambda>k m. k @ m), ip_sscan = (\<lambda>s. if s = show_int 3600 then 3600 else 0)\<rparr>"

definition sample_create :: create_env where
  "sample_create = \<lparr>ce_now = 0, ce_id = ''i'', ce_token = ''t'', ce_random = None, ce_written = None\<rparr>"

definition sample_request :: create_request where
  "sample_request = \<lparr>cr_PeerID = [], cr_Mode = [], cr_TTLSeconds = 0, cr_MaxUses = 0\<rparr>"

definition sample_link :: invite_link where
  "sample_link = (new_link sample_create (with_defaults ''alice'' sample_request))
     \<lparr>inv_TokenHash := hex_encode ''t'',
      inv_HMACSig := hex_encode (''s-hmac'' @ ''t'' @ ''alice'' @ binPutUint64 3600)\<rparr>"

definition link_codec :: invite_codec where
  "link_codec = \<lparr>enc = (\<lambda>i. Some ''{l}''), dec = (\<lambda>l. if l = ''{l}'' then Some sample_link else None)\<rparr>"

definition empty_handler :: invite_handler where
  "empty_handler = \<lparr>ih_store = \<lparr>st_file = [], st_open = True, st_index = \<lambda>_. None\<rparr>, ih_hmacKey = ''s-hmac'',
     ih_encKey = ''s'', ih_rlMap = \<lambda>_. None\<rparr>"

lemma empty_represents: "represents c (ih_store empty_handler) []"
  by (simp add: represents_def empty_handler_def file_of_def)

lemma ttl_hour: "ttl_duration 3600 = 3600 * second"
  by (simp add: ttl_duration_def duration_defs)

lemma sample_created:
  "HandleCreate (sample_params link_codec) sample_create ''alice'' (Some sample_request) empty_handler
     = (JSONResponse 201 (CreatedHMAC sample_link
          (''/invite/alice?token=t&expires='' @ show_int 3600 @ ''&sig='' @ inv_HMACSig sample_link) ''t''),
        empty_handler\<lparr>ih_store := snd (Append link_codec None sample_link (ih_store empty_handler))\<rparr>)"
proof -
  have "unix (3600 * second) = 3600" by (simp add: unix_def duration_defs)
  then show ?thesis
    by (simp add: HandleCreate_def sample_params_def sample_create_def sample_request_def with_defaults_def new_link_def
        ModeHMAC_def ttl_hour SignURL_def empty_handler_def token_hash_def sample_link_def Append_def link_codec_def Let_def)
qed

lemma sample_link_storable: "storable link_codec sample_link ''{l}''"
  by (simp add: storable_def link_codec_def defaultMaxLine_def)

lemma Append_success: "Append c w i s = (None, st) \<Longrightarrow> w = None \<and> st = snd (Append c None i s)"
  by (auto simp: Append_def Let_def split: option.splits if_splits)

definition hmac_link :: "invite_params \<Rightarrow> create_env \<Rightarrow> create_request \<Rightarrow> string \<Rightarrow> invite_link" where
  "hmac_link p e req key = (new_link e req)\<lparr>inv_TokenHash := token_hash p (ce_token e),
     inv_HMACSig := hex_encode (SignURL (ip_hmac p) (ce_token e) (cr_PeerID req)
       (unix (ce_now e + ttl_duration (cr_TTLSeconds req))) key)\<rparr>"

definition code_link :: "invite_params \<Rightarrow> create_env \<Rightarrow> create_request \<Rightarrow> string \<Rightarrow> invite_link" where
  "code_link p e req code = (new_link e req)\<lparr>inv_TokenHash := token_hash p code, inv_ShortCode := code\<rparr>"

lemma HandleCreate_cases:
  obtains (error) h' r where "HandleCreate p e peerID body h = (r, h')" "\<not> succeeded r" "ih_rlMap h' = ih_rlMap h"
      "h' = h \<or> (\<exists>w link. fst (Append (ip_codec p) w link (ih_store h)) \<noteq> None \<and> w = ce_written e
           \<and> ih_store h' = snd (Append (ip_codec p) w link (ih_store h)))"
  | (hmac) req link url where "body = Some req" "peerID \<noteq> []" "link = hmac_link p e (with_defaults peerID req) (ih_hmacKey h)"
      "fst (Append (ip_codec p) (ce_written e) link (ih_store h)) = None"
      "HandleCreate p e peerID body h = (JSONResponse 201 (CreatedHMAC link url (ce_token e)),
         h\<lparr>ih_store := snd (Append (ip_codec p) (ce_written e) link (ih_store h))\<rparr>)"
  | (code) req link code where "body = Some req" "peerID \<noteq> []" "GenerateCode (ce_random e) = Some code"
      "link = code_link p e (with_defaults peerID req) code"
      "fst (Append (ip_codec p) (ce_written e) link (ih_store h)) = None"
      "HandleCreate p e peerID body h = (JSONResponse 201 (CreatedCode link code),
         h\<lparr>ih_store := snd (Append (ip_codec p) (ce_written e) link (ih_store h))\<rparr>)"
proof (cases "peerID = [] \<or> body = None")
  case True
  then show ?thesis by (intro error [of "ErrorResponse 400 ErrCodeBadRequest" h]) (auto simp: HandleCreate_def)
next
  case False
  then obtain req where body: "body = Some req" and q: "peerID \<noteq> []" by blast
  let ?req = "with_defaults peerID req"
  consider (bad) "cr_Mode ?req \<noteq> ModeHMAC \<and> cr_Mode ?req \<noteq> ModeShortCode" | (h) "cr_Mode ?req = ModeHMAC"
    | (s) "cr_Mode ?req = ModeShortCode" "cr_Mode ?req \<noteq> ModeHMAC" by blast
  then show ?thesis
  proof cases
    case bad
    then show ?thesis using body q
      by (intro error [of "ErrorResponse 400 ErrCodeBadRequest" h]) (simp_all add: HandleCreate_def Let_def)
  next
    case h
    let ?l = "hmac_link p e ?req (ih_hmacKey h)"
    obtain er st where a: "Append (ip_codec p) (ce_written e) ?l (ih_store h) = (er, st)" by fastforce
    note a' = a [unfolded hmac_link_def]
    show ?thesis
    proof (cases er)
      case None
      then show ?thesis using body q h a
        by (intro hmac [OF body q refl]) (simp_all add: HandleCreate_def Let_def a' hmac_link_def)
    next
      case (Some x)
      then show ?thesis using body q h a
        by (intro error [of "ErrorResponse 500 ErrCodeInternalError" "h\<lparr>ih_store := st\<rparr>"] disjI2 exI [of _ "ce_written e"] exI [of _ ?l])
          (simp_all add: HandleCreate_def Let_def a')
    qed
  next
    case s
    show ?thesis
    proof (cases "GenerateCode (ce_random e)")
      case None
      then show ?thesis using body q s
        by (intro error [of "ErrorResponse 500 ErrCodeInternalError" h]) (simp_all add: HandleCreate_def Let_def)
    next
      case (Some code)
      let ?l = "code_link p e ?req code"
      obtain er st where a: "Append (ip_codec p) (ce_written e) ?l (ih_store h) = (er, st)" by fastforce
      note a' = a [unfolded code_link_def]
      show ?thesis
      proof (cases er)
        case None
        then show ?thesis using body q s a Some
          by (intro code [OF body q Some refl]) (simp_all add: HandleCreate_def Let_def a' code_link_def)
      next
        case (Some x)
        then show ?thesis using body q s a \<open>GenerateCode _ = _\<close>
          by (intro error [of "ErrorResponse 500 ErrCodeInternalError" "h\<lparr>ih_store := st\<rparr>"] disjI2 exI [of _ "ce_written e"] exI [of _ ?l])
            (simp_all add: HandleCreate_def Let_def a')
      qed
    qed
  qed
qed

lemma created_link_fields:
  "inv_UseCount (hmac_link p e req k) = 0" "inv_ConfigEnc (hmac_link p e req k) = []"
  "inv_MaxUses (hmac_link p e req k) = cr_MaxUses req" "inv_PeerID (hmac_link p e req k) = cr_PeerID req"
  "inv_TokenHash (hmac_link p e req k) = token_hash p (ce_token e)"
  "inv_ExpiresAt (hmac_link p e req k) = Some (ce_now e + ttl_duration (cr_TTLSeconds req))"
  "inv_UseCount (code_link p e req c) = 0" "inv_ConfigEnc (code_link p e req c) = []"
  "inv_MaxUses (code_link p e req c) = cr_MaxUses req"
  by (simp_all add: hmac_link_def code_link_def new_link_def)

lemma with_defaults_bounds: "0 < cr_MaxUses (with_defaults q req)" "q \<noteq> [] \<Longrightarrow> cr_PeerID (with_defaults q req) \<noteq> []"
  by (simp_all add: with_defaults_def)

lemma HandleCreate_HMAC:
  assumes "HandleCreate p e peerID (Some req) h = (JSONResponse 201 (CreatedHMAC link url token), h')"
  defines "x \<equiv> ce_now e + ttl_duration (cr_TTLSeconds (with_defaults peerID req))"
  shows "inv_PeerID link \<noteq> []" and "inv_TokenHash link = token_hash p token" and "inv_ExpiresAt link = Some x"
    and "inv_UseCount link = 0"
    and "inv_HMACSig link = hex_encode (SignURL (ip_hmac p) token (inv_PeerID link) (unix x) (ih_hmacKey h))"
    and "h' = h\<lparr>ih_store := snd (Append (ip_codec p) None link (ih_store h))\<rparr>"
proof -
  have l: "link = hmac_link p e (with_defaults peerID req) (ih_hmacKey h) \<and> token = ce_token e \<and> peerID \<noteq> []
      \<and> fst (Append (ip_codec p) (ce_written e) link (ih_store h)) = None
      \<and> h' = h\<lparr>ih_store := snd (Append (ip_codec p) (ce_written e) link (ih_store h))\<rparr>"
    by (rule HandleCreate_cases [where p = p and e = e and peerID = peerID and body = "Some req" and h = h])
      (use assms(1) in auto)
  then have w: "ce_written e = None"
    using Append_success [of "ip_codec p" "ce_written e" link "ih_store h"] by (metis prod.collapse)
  show "inv_PeerID link \<noteq> []" "inv_TokenHash link = token_hash p token" "inv_ExpiresAt link = Some x" "inv_UseCount link = 0"
    using l with_defaults_bounds by (simp_all add: created_link_fields x_def)
  show "inv_HMACSig link = hex_encode (SignURL (ip_hmac p) token (inv_PeerID link) (unix x) (ih_hmacKey h))"
    using l by (simp add: hmac_link_def new_link_def x_def)
  show "h' = h\<lparr>ih_store := snd (Append (ip_codec p) None link (ih_store h))\<rparr>" using l w by simp
qed

text \<open>An HMAC invite that was just created opens the landing page of its peer through the token,
  expiry and signature of its URL until the moment it expires, and answers as expired from then on.\<close>

theorem invite_create_then_land:
  assumes rep: "represents (ip_codec p) (ih_store h) ils"
    and c: "HandleCreate p e peerID (Some req) h = (JSONResponse 201 (CreatedHMAC link url token), h')"
    and st: "storable (ip_codec p) link l"
    and x: "x = ce_now e + ttl_duration (cr_TTLSeconds (with_defaults peerID req))"
    and r: "lr_peerId r = inv_PeerID link" "lr_token r = token" "lr_expires r = show_int (unix x)" "lr_sig r = inv_HMACSig link"
    and t: "token \<noteq> []" and scan: "ip_sscan p (show_int (unix x)) = unix x"
    and sha: "sha256 (ip_aead p) token \<noteq> []"
    and rl: "fst (checkRateLimit now (extractIP r) (ih_rlMap h'))"
  shows "fst (HandleLanding p now r h') =
     (if now < x then JSONResponse 200 (landing_body link) else ErrorResponse 410 ''expired'')"
proof -
  note f = HandleCreate_HMAC [OF c, folded x]
  have "represents (ip_codec p) (ih_store h') (ils @ [(link, l)])"
    using append_represents [OF rep st] f(6) by simp
  then have "FindByTokenHash (ip_codec p) (token_hash p token) (ih_store h') = Inr (Some link)"
    using find_represents [OF _ token_hash_nonempty [OF sha]] f(2) by simp
  then have chk: "check_invite now (inv_PeerID link) (FindByTokenHash (ip_codec p) (token_hash p token) (ih_store h'))
      = (if now < x then Inr link else Inl (ErrorResponse 410 ''expired''))"
    using f(3,4) by (simp add: check_invite_def)
  have "ih_hmacKey h' = ih_hmacKey h" using f(6) by simp
  then have v: "ValidateURL (ip_hmac p) token (inv_PeerID link) (unix x) (hex_decode_prefix (inv_HMACSig link)) (ih_hmacKey h')"
    using f(5) by (simp add: ValidateURL_def)
  obtain rl' where "checkRateLimit now (extractIP r) (ih_rlMap h') = (True, rl')" using rl by (cases "checkRateLimit now (extractIP r) (ih_rlMap h')") auto
  then show ?thesis using chk v f(1) r t scan by (simp add: HandleLanding_def)
qed

theorem invite_create_then_land_witness:
  "fst (HandleLanding (sample_params link_codec) 5
      \<lparr>lr_peerId = ''alice'', lr_XForwardedFor = [], lr_RemoteAddr = ''10.0.0.9:4000'', lr_token = ''t'',
       lr_expires = show_int 3600, lr_sig = inv_HMACSig sample_link, lr_code = []\<rparr>
      (empty_handler\<lparr>ih_store := snd (Append link_codec None sample_link (ih_store empty_handler))\<rparr>))
    = JSONResponse 200 (landing_body sample_link)"
proof -
  have x: "3600 * second = ce_now sample_create + ttl_duration (cr_TTLSeconds (with_defaults ''alice'' sample_request))"
    by (simp add: sample_create_def with_defaults_def sample_request_def ttl_hour)
  have u: "unix (3600 * second) = 3600" by (simp add: unix_def duration_defs)
  have pid: "inv_PeerID sample_link = ''alice''"
    by (simp add: sample_link_def new_link_def with_defaults_def sample_request_def)
  let ?r = "\<lparr>lr_peerId = ''alice'', lr_XForwardedFor = [], lr_RemoteAddr = ''10.0.0.9:4000'', lr_token = ''t'',
       lr_expires = show_int 3600, lr_sig = inv_HMACSig sample_link, lr_code = []\<rparr>"
  have c: "ip_codec (sample_params link_codec) = link_codec" "ip_sscan (sample_params link_codec) (show_int 3600) = 3600"
    "sha256 (ip_aead (sample_params link_codec)) ''t'' = ''t''" by (simp_all add: sample_params_def)
  have rl: "fst (checkRateLimit 5 (extractIP ?r) (ih_rlMap (empty_handler\<lparr>ih_store := st\<rparr>)))" for st
    by (simp add: empty_handler_def checkRateLimit_def)
  have "(5::int) < 3600 * second" by (simp add: duration_defs)
  then show ?thesis
    using invite_create_then_land [where p = "sample_params link_codec" and ils = "[]" and l = "''{l}''"
        and r = ?r and now = 5, OF _ sample_created _ x, unfolded c u, OF empty_represents sample_link_storable]
      rl pid by simp
qed

text \<open>The same handler and request show the exact acceptance condition.\<close>

theorem landing_accepts_iff_witness:
  "\<not> succeeded (fst (HandleLanding (sample_params link_codec) 5
      \<lparr>lr_peerId = ''alice'', lr_XForwardedFor = [], lr_RemoteAddr = ''10.0.0.9:4000'', lr_token = ''t'',
       lr_expires = [], lr_sig = [], lr_code = []\<rparr> empty_handler))"
proof -
  let ?r = "\<lparr>lr_peerId = ''alice'', lr_XForwardedFor = [], lr_RemoteAddr = ''10.0.0.9:4000'', lr_token = ''t'',
       lr_expires = [], lr_sig = [], lr_code = []\<rparr>"
  have "represents (ip_codec (sample_params link_codec)) (ih_store empty_handler) []" by (rule empty_represents)
  moreover have "sha256 (ip_aead (sample_params link_codec)) (presented_key ?r) \<noteq> []"
    by (simp add: sample_params_def presented_key_def)
  ultimately show ?thesis by (simp add: landing_accepts_iff)
qed

section \<open>The life of the invite service\<close>

definition created_link :: "invite_body reply \<Rightarrow> invite_link option" where
  "created_link r = (case r of JSONResponse _ (CreatedHMAC l _ _) \<Rightarrow> Some l | JSONResponse _ (CreatedCode l _) \<Rightarrow> Some l
     | _ \<Rightarrow> None)"

text \<open>The states reached from an empty store by requests whose disk operations succeed and whose created
  invites have an encoding that the store handles.\<close>

inductive invite_reach :: "invite_params \<Rightarrow> invite_handler \<Rightarrow> bool" for p where
  start: "represents (ip_codec p) st [] \<Longrightarrow> invite_reach p (NewHandler p st secret)"
| create: "invite_reach p h \<Longrightarrow> ce_written e = None
    \<Longrightarrow> (case created_link (fst (HandleCreate p e q body h)) of None \<Rightarrow> True | Some link \<Rightarrow> \<exists>l. storable (ip_codec p) link l)
    \<Longrightarrow> invite_reach p (snd (HandleCreate p e q body h))"
| landing: "invite_reach p h \<Longrightarrow> invite_reach p (snd (HandleLanding p now r h))"
| download: "invite_reach p h \<Longrightarrow> invite_reach p (snd (HandleDownload p now r h))"
| collect: "invite_reach p h \<Longrightarrow> gc_ok g
    \<Longrightarrow> invite_reach p (h\<lparr>ih_store := snd (GC (ip_codec p) g (ih_store h))\<rparr>)"

definition unused :: "invite_link \<Rightarrow> bool" where
  "unused i \<longleftrightarrow> inv_UseCount i = 0 \<and> 0 < inv_MaxUses i \<and> inv_ConfigEnc i = []"

definition all_unused :: "invite_params \<Rightarrow> invite_handler \<Rightarrow> bool" where
  "all_unused p h \<longleftrightarrow> (\<exists>ils. represents (ip_codec p) (ih_store h) ils \<and> (\<forall>(i, l) \<in> set ils. unused i))"

lemma landing_keeps_store: "ih_store (snd (HandleLanding p now r h)) = ih_store h"
  by (simp add: HandleLanding_def Let_def split: prod.splits sum.splits)

lemma download_keeps_store: "ih_store (snd (HandleDownload p now r h)) = ih_store h"
  by (simp add: HandleDownload_def Let_def split: prod.splits sum.splits)

lemma append_keeps_unused:
  assumes "all_unused p h" and "storable (ip_codec p) link l" and "unused link"
  shows "all_unused p (h\<lparr>ih_store := snd (Append (ip_codec p) None link (ih_store h))\<rparr>)"
proof -
  obtain ils where r: "represents (ip_codec p) (ih_store h) ils" and u: "\<forall>(i, l) \<in> set ils. unused i"
    using assms(1) by (auto simp: all_unused_def)
  show ?thesis unfolding all_unused_def
    using append_represents [OF r assms(2)] u assms(3) by (intro exI [of _ "ils @ [(link, l)]"]) auto
qed

lemma create_keeps_unused:
  assumes "all_unused p h" and "ce_written e = None"
    and st: "case created_link (fst (HandleCreate p e q body h)) of None \<Rightarrow> True | Some link \<Rightarrow> \<exists>l. storable (ip_codec p) link l"
  shows "all_unused p (snd (HandleCreate p e q body h))"
proof (rule HandleCreate_cases [of p e q body h])
  fix h' r assume c: "HandleCreate p e q body h = (r, h')"
    and u: "h' = h \<or> (\<exists>w link. fst (Append (ip_codec p) w link (ih_store h)) \<noteq> None \<and> w = ce_written e
           \<and> ih_store h' = snd (Append (ip_codec p) w link (ih_store h)))"
  have "ih_store h' = ih_store h"
    using u assms(1,2) append_error_unchanged unfolding all_unused_def by auto
  then show ?thesis using assms(1) c by (simp add: all_unused_def)
next
  fix req link url
  assume "link = hmac_link p e (with_defaults q req) (ih_hmacKey h)"
    and c: "HandleCreate p e q body h = (JSONResponse 201 (CreatedHMAC link url (ce_token e)),
         h\<lparr>ih_store := snd (Append (ip_codec p) (ce_written e) link (ih_store h))\<rparr>)"
  then have "unused link" by (simp add: unused_def created_link_fields with_defaults_bounds)
  moreover obtain l where "storable (ip_codec p) link l" using st c by (auto simp: created_link_def)
  ultimately show ?thesis using append_keeps_unused [OF assms(1)] c assms(2) by simp
next
  fix req link code
  assume "link = code_link p e (with_defaults q req) code"
    and c: "HandleCreate p e q body h = (JSONResponse 201 (CreatedCode link code),
         h\<lparr>ih_store := snd (Append (ip_codec p) (ce_written e) link (ih_store h))\<rparr>)"
  then have "unused link" by (simp add: unused_def created_link_fields with_defaults_bounds)
  moreover obtain l where "storable (ip_codec p) link l" using st c by (auto simp: created_link_def)
  ultimately show ?thesis using append_keeps_unused [OF assms(1)] c assms(2) by simp
qed

lemma reach_unused: "invite_reach p h \<Longrightarrow> all_unused p h"
proof (induction rule: invite_reach.induct)
  case (start st secret)
  then show ?case unfolding all_unused_def by (intro exI [of _ "[]"]) (simp add: NewHandler_def)
next
  case (create h e q body)
  then show ?case using create_keeps_unused by blast
next
  case (collect h g)
  then obtain ils where r: "represents (ip_codec p) (ih_store h) ils" and u: "\<forall>(i, l) \<in> set ils. unused i"
    by (auto simp: all_unused_def)
  show ?case unfolding all_unused_def
    using gc_represents [OF r collect.hyps(2)] u
    by (intro exI [of _ "filter (\<lambda>p. live_invite (gc_now g) (fst p)) ils"]) auto
qed (simp_all add: all_unused_def landing_keeps_store download_keeps_store)

lemma found_unused:
  assumes "all_unused p h" and "FindByTokenHash (ip_codec p) k (ih_store h) = Inr (Some iv)"
  shows "unused iv"
  using assms find_represents_in unfolding all_unused_def by fastforce

lemma check_unused:
  assumes "all_unused p h"
  shows "check_invite now q (FindByTokenHash (ip_codec p) k (ih_store h)) \<noteq> Inl (ErrorResponse 410 ''consumed'')"
  using found_unused [OF assms, of k]
  by (auto simp: check_invite_def unused_def split: sum.splits option.splits)

text \<open>C16: No request of the service ever counts a use or stores a configuration: however often an invite
  is opened, the landing page never reports it as used up, so the limit \<open>max_uses\<close> has no effect,
  and no download ever succeeds.\<close>

theorem invite_uses_never_counted:
  assumes "invite_reach p h"
  shows "fst (HandleLanding p now r h) \<noteq> ErrorResponse 410 ''consumed''
     \<and> \<not> succeeded (fst (HandleDownload p now r h))"
proof
  have u: "all_unused p h" by (rule reach_unused [OF assms])
  show "fst (HandleLanding p now r h) \<noteq> ErrorResponse 410 ''consumed''"
    using check_unused [OF u]
    by (auto simp: HandleLanding_def Let_def split: prod.splits sum.splits)
  show "\<not> succeeded (fst (HandleDownload p now r h))"
    using found_unused [OF u] check_invite_Inl
    by (auto simp: HandleDownload_def Let_def check_invite_Inr unused_def split: prod.splits sum.splits)
qed

theorem invite_uses_never_counted_witness:
  "\<not> succeeded (fst (HandleDownload (sample_params link_codec) 5
      \<lparr>lr_peerId = ''alice'', lr_XForwardedFor = [], lr_RemoteAddr = ''10.0.0.9:4000'', lr_token = ''t'',
       lr_expires = [], lr_sig = [], lr_code = []\<rparr>
      (snd (HandleCreate (sample_params link_codec) sample_create ''alice'' (Some sample_request)
         (NewHandler (sample_params link_codec) (ih_store empty_handler) ''s'')))))"
proof -
  let ?p = "sample_params link_codec"
  have h: "NewHandler ?p (ih_store empty_handler) ''s'' = empty_handler"
    by (simp add: NewHandler_def empty_handler_def DeriveKey_def sample_params_def)
  have "invite_reach ?p empty_handler"
    using invite_reach.start [OF empty_represents [of "ip_codec ?p"], of "''s''"] h by simp
  moreover have "ce_written sample_create = None" by (simp add: sample_create_def)
  moreover have "storable (ip_codec ?p) sample_link ''{l}''" using sample_link_storable by (simp add: sample_params_def)
  ultimately have "invite_reach ?p (snd (HandleCreate ?p sample_create ''alice'' (Some sample_request) empty_handler))"
    by (intro invite_reach.create) (auto simp: sample_created created_link_def)
  then show ?thesis unfolding h using invite_uses_never_counted by blast
qed

text \<open>A time to live of 9223372037 seconds or more wraps around: the invite expires in the past.\<close>

lemma ttl_wraps: "ttl_duration 9223372037 < 0"
  by (simp add: ttl_duration_def duration_defs)

end
