(* ===== verification/Caddy_Client.thy ===== *)
theory Caddy_Client
  imports Config
begin

text \<open>
  The reverse proxy's routes (\<open>proxy/caddy.go\<close>). Caddy itself is not part of the repository: its
  admin interface is a record of three calls on an abstract world, each with the HTTP status or no
  answer. What Caddy's documentation promises of them is the predicate \<open>caddy_laws\<close>, over the list
  of routes that a world holds. The client's own state is the cached address of the interface. The
  mutex makes each operation one step.
\<close>

section \<open>Data\<close>

record caddy_route =
  rt_Match :: "string list list"
  rt_Handle :: "(string \<times> string list) list"
  rt_Terminal :: bool

record route =
  ro_Host :: string
  ro_UpstreamDial :: string

type_synonym caddy_config = "string \<Rightarrow> caddy_route list option"

text \<open>The three requests of the client: \<open>None\<close> is a failed exchange; the decoded body of \<open>GET /config/\<close>
  is \<open>None\<close> when it is not the expected JSON. The first argument is the base URL.\<close>

record 'w caddy_api =
  ca_post :: "string \<Rightarrow> caddy_route \<Rightarrow> 'w \<Rightarrow> int option \<times> 'w"
  ca_get :: "string \<Rightarrow> 'w \<Rightarrow> (int \<times> caddy_config option) option \<times> 'w"
  ca_delete :: "string \<Rightarrow> nat \<Rightarrow> 'w \<Rightarrow> int option \<times> 'w"

datatype caddy_error = CaddyAddress | CaddyUnreachable | CaddyStatus int | CaddyDecode | CaddyNoRoute

record caddy_client =
  cc_baseURL :: string

section \<open>Operations\<close>

text \<open>\<open>net.JoinHostPort\<close>.\<close>

definition JoinHostPort :: "string \<Rightarrow> string \<Rightarrow> string" where
  "JoinHostPort host port = (if CHR '':'' \<in> set host \<or> CHR ''%'' \<in> set host
     then ''['' @ host @ '']:'' @ port else host @ '':'' @ port)"

definition NewCaddyClient :: caddy_client where
  "NewCaddyClient = \<lparr>cc_baseURL = []\<rparr>"

definition resolveBaseURL :: "root_config \<Rightarrow> string option" where
  "resolveBaseURL cfg =
     (if cad_Address (cfg_CaddyAPI cfg) \<noteq> [] then Some (cad_Address (cfg_CaddyAPI cfg))
      else if tun_ServerIP (cfg_Tunnel cfg) = [] then None
      else Some (''http://'' @ JoinHostPort (tun_ServerIP (cfg_Tunnel cfg)) ''2019''))"

definition baseURLResolved :: "root_config \<Rightarrow> caddy_client \<Rightarrow> string option \<times> caddy_client" where
  "baseURLResolved cfg c =
     (if cc_baseURL c \<noteq> [] then (Some (cc_baseURL c), c)
      else case resolveBaseURL cfg of None \<Rightarrow> (None, c) | Some url \<Rightarrow> (Some url, c\<lparr>cc_baseURL := url\<rparr>))"

definition new_route :: "string \<Rightarrow> string \<Rightarrow> caddy_route" where
  "new_route host upstreamDial =
     \<lparr>rt_Match = [[host]], rt_Handle = [(''reverse_proxy'', [upstreamDial])], rt_Terminal = True\<rparr>"

definition AddRoute :: "'w caddy_api \<Rightarrow> root_config \<Rightarrow> string \<Rightarrow> string \<Rightarrow> caddy_client \<times> 'w
    \<Rightarrow> caddy_error option \<times> caddy_client \<times> 'w" where
  "AddRoute api cfg host upstreamDial cw =
     (case baseURLResolved cfg (fst cw) of
        (None, c) \<Rightarrow> (Some CaddyAddress, c, snd cw)
      | (Some url, c) \<Rightarrow>
          (case ca_post api url (new_route host upstreamDial) (snd cw) of
             (None, w) \<Rightarrow> (Some CaddyUnreachable, c, w)
           | (Some st, w) \<Rightarrow> (if st \<ge> 400 then Some (CaddyStatus st) else None, c, w)))"

text \<open>The host is the first of the first matcher that has one, the upstream that of the first reverse proxy
  with one; routes without a host are left out.\<close>

definition route_host :: "caddy_route \<Rightarrow> string" where
  "route_host r = (case List.find (\<lambda>h. h \<noteq> []) (map (\<lambda>m. case m of [] \<Rightarrow> [] | h # _ \<Rightarrow> h) (rt_Match r)) of
     None \<Rightarrow> [] | Some h \<Rightarrow> h)"

definition route_dial :: "caddy_route \<Rightarrow> string" where
  "route_dial r = (case List.find (\<lambda>(h, ups). h = ''reverse_proxy'' \<and> ups \<noteq> []) (rt_Handle r) of
     None \<Rightarrow> [] | Some (_, ups) \<Rightarrow> hd ups)"

definition listed_routes :: "caddy_route list \<Rightarrow> route list" where
  "listed_routes rs = map (\<lambda>r. \<lparr>ro_Host = route_host r, ro_UpstreamDial = route_dial r\<rparr>)
     (filter (\<lambda>r. route_host r \<noteq> []) rs)"

definition listRoutesLocked :: "'w caddy_api \<Rightarrow> string \<Rightarrow> 'w \<Rightarrow> (caddy_error + route list) \<times> 'w" where
  "listRoutesLocked api url w =
     (case ca_get api url w of
        (None, w1) \<Rightarrow> (Inl CaddyUnreachable, w1)
      | (Some (st, body), w1) \<Rightarrow>
          if st \<ge> 400 then (Inl (CaddyStatus st), w1)
          else (case body of
                  None \<Rightarrow> (Inl CaddyDecode, w1)
                | Some cfg \<Rightarrow> (case cfg ''srv0'' of None \<Rightarrow> (Inr [], w1) | Some rs \<Rightarrow> (Inr (listed_routes rs), w1))))"

definition EqualFold :: "string \<Rightarrow> string \<Rightarrow> bool" where
  "EqualFold a b \<longleftrightarrow> to_lower a = to_lower b"

definition findRouteIndexLocked :: "'w caddy_api \<Rightarrow> string \<Rightarrow> string \<Rightarrow> 'w \<Rightarrow> (caddy_error + nat) \<times> 'w" where
  "findRouteIndexLocked api url host w =
     (case listRoutesLocked api url w of
        (Inl e, w1) \<Rightarrow> (Inl e, w1)
      | (Inr rs, w1) \<Rightarrow>
          (case first_index (\<lambda>r. EqualFold (ro_Host r) host) rs of
             None \<Rightarrow> (Inl CaddyNoRoute, w1) | Some i \<Rightarrow> (Inr i, w1)))"

definition RemoveRoute :: "'w caddy_api \<Rightarrow> root_config \<Rightarrow> string \<Rightarrow> caddy_client \<times> 'w
    \<Rightarrow> caddy_error option \<times> caddy_client \<times> 'w" where
  "RemoveRoute api cfg host cw =
     (case baseURLResolved cfg (fst cw) of
        (None, c) \<Rightarrow> (Some CaddyAddress, c, snd cw)
      | (Some url, c) \<Rightarrow>
          (case findRouteIndexLocked api url host (snd cw) of
             (Inl e, w) \<Rightarrow> (Some e, c, w)
           | (Inr i, w) \<Rightarrow>
               (case ca_delete api url i w of
                  (None, w1) \<Rightarrow> (Some CaddyUnreachable, c, w1)
                | (Some st, w1) \<Rightarrow> (if st \<ge> 400 then Some (CaddyStatus st) else None, c, w1))))"

definition ListRoutes :: "'w caddy_api \<Rightarrow> root_config \<Rightarrow> caddy_client \<times> 'w \<Rightarrow> (caddy_error + route list) \<times> caddy_client \<times> 'w" where
  "ListRoutes api cfg cw =
     (case baseURLResolved cfg (fst cw) of
        (None, c) \<Rightarrow> (Inl CaddyAddress, c, snd cw)
      | (Some url, c) \<Rightarrow> (case listRoutesLocked api url (snd cw) of (r, w) \<Rightarrow> (r, c, w)))"

section \<open>What Caddy promises\<close>

text \<open>Caddy's documentation of its admin interface: POST to an array appends, GET returns the configuration
  and changes nothing, DELETE of an array element removes it; an answer with an error status has changed
  nothing. \<open>rs\<close> reads the routes of \<open>srv0\<close> from a world.\<close>

definition caddy_laws :: "'w caddy_api \<Rightarrow> ('w \<Rightarrow> caddy_route list) \<Rightarrow> bool" where
  "caddy_laws api rs \<longleftrightarrow>
     (\<forall>url r w st w'. ca_post api url r w = (Some st, w') \<longrightarrow> rs w' = (if st < 400 then rs w @ [r] else rs w))
     \<and> (\<forall>url w x w'. ca_get api url w = (x, w') \<longrightarrow> rs w' = rs w
          \<and> (\<forall>st cfg. x = Some (st, Some cfg) \<longrightarrow> st < 400 \<longrightarrow> cfg ''srv0'' = Some (rs w)))
     \<and> (\<forall>url i w st w'. ca_delete api url i w = (Some st, w') \<longrightarrow>
          rs w' = (if st < 400 then delete_at i (rs w) else rs w))"

lemma caddy_post: "caddy_laws api rs \<Longrightarrow> ca_post api url r w = (Some st, w') \<Longrightarrow> st < 400 \<Longrightarrow> rs w' = rs w @ [r]"
  by (fastforce simp: caddy_laws_def)

lemma caddy_get:
  "caddy_laws api rs \<Longrightarrow> ca_get api url w = (x, w') \<Longrightarrow> rs w' = rs w"
  "caddy_laws api rs \<Longrightarrow> ca_get api url w = (Some (st, Some cfg), w') \<Longrightarrow> st < 400 \<Longrightarrow> cfg ''srv0'' = Some (rs w)"
  by (fastforce simp: caddy_laws_def)+

lemma caddy_delete: "caddy_laws api rs \<Longrightarrow> ca_delete api url i w = (Some st, w') \<Longrightarrow> st < 400 \<Longrightarrow> rs w' = delete_at i (rs w)"
  by (fastforce simp: caddy_laws_def)

text \<open>A Caddy that answers every request, over the list of routes.\<close>

definition list_caddy :: "caddy_route list caddy_api" where
  "list_caddy = \<lparr>ca_post = (\<lambda>_ r w. (Some 200, w @ [r])), ca_get = (\<lambda>_ w. (Some (200, Some [''srv0'' \<mapsto> w]), w)),
     ca_delete = (\<lambda>_ i w. (Some 200, delete_at i w))\<rparr>"

lemma list_caddy_laws: "caddy_laws list_caddy (\<lambda>w. w)"
  by (auto simp: caddy_laws_def list_caddy_def)

section \<open>Properties\<close>

lemma route_host_new [simp]: "host \<noteq> [] \<Longrightarrow> route_host (new_route host d) = host"
  by (simp add: route_host_def new_route_def)

lemma EqualFold_refl [simp]: "EqualFold h h"
  by (simp add: EqualFold_def)

lemma AddRoute_ok:
  assumes "caddy_laws api rs" and "AddRoute api cfg host d (c, w) = (None, c', w')"
  shows "rs w' = rs w @ [new_route host d]"
  using assms caddy_post
  by (fastforce simp: AddRoute_def split: prod.splits option.splits if_splits)

lemma listed_ok:
  assumes "caddy_laws api rs" and "listRoutesLocked api url w = (Inr ls, w')"
  shows "ls = listed_routes (rs w) \<and> rs w' = rs w"
  using assms(2) caddy_get [OF assms(1)]
  by (fastforce simp: listRoutesLocked_def not_le split: prod.splits option.splits if_splits)

lemma first_index_listed:
  assumes "host \<noteq> []" and "EqualFold (route_host r) host" and "\<forall>x \<in> set pre. \<not> EqualFold (route_host x) host"
  shows "first_index (\<lambda>r. EqualFold (ro_Host r) host) (listed_routes (pre @ r # post))
     = Some (length (filter (\<lambda>x. route_host x \<noteq> []) pre))"
proof -
  have "route_host r \<noteq> []" using assms(1,2) by (auto simp: EqualFold_def to_lower_def)
  then show ?thesis using assms(2,3)
    by (induction pre) (auto simp: listed_routes_def)
qed

lemma RemoveRoute_step:
  assumes "caddy_laws api rs" and "RemoveRoute api cfg host (c, w) = (None, c', w')"
  shows "\<exists>i. first_index (\<lambda>r. EqualFold (ro_Host r) host) (listed_routes (rs w)) = Some i \<and> rs w' = delete_at i (rs w)"
proof -
  obtain url c1 where b: "baseURLResolved cfg c = (Some url, c1)"
    using assms(2) by (auto simp: RemoveRoute_def split: prod.splits option.splits)
  obtain i w1 where f: "findRouteIndexLocked api url host w = (Inr i, w1)"
    using assms(2) b by (auto simp: RemoveRoute_def split: prod.splits sum.splits)
  obtain st where d: "ca_delete api url i w1 = (Some st, w')" "st < 400"
    using assms(2) b f by (auto simp: RemoveRoute_def split: prod.splits option.splits if_splits)
  obtain ls where l: "listRoutesLocked api url w = (Inr ls, w1)" "first_index (\<lambda>r. EqualFold (ro_Host r) host) ls = Some i"
    using f by (auto simp: findRouteIndexLocked_def split: prod.splits sum.splits option.splits)
  show ?thesis using listed_ok [OF assms(1) l(1)] l(2) caddy_delete [OF assms(1) d] by simp
qed

text \<open>Removing a host deletes one route, at the position that the first route of that host has among the
  routes that name a host. That is the host's own route exactly when every route before it names a host;
  with a catch-all route before it, another route is deleted and the host stays published.\<close>

theorem RemoveRoute_deletes:
  assumes "caddy_laws api rs" and "RemoveRoute api cfg host (c, w) = (None, c', w')" and "host \<noteq> []"
    and "rs w = pre @ r # post" and "EqualFold (route_host r) host" and "\<forall>x \<in> set pre. \<not> EqualFold (route_host x) host"
  shows "rs w' = delete_at (length (filter (\<lambda>x. route_host x \<noteq> []) pre)) (rs w)
     \<and> ((\<forall>x \<in> set pre. route_host x \<noteq> []) \<longrightarrow> rs w' = pre @ post)
     \<and> ((\<exists>x \<in> set pre. route_host x = []) \<longrightarrow> r \<in> set (rs w'))"
proof -
  let ?n = "length (filter (\<lambda>x. route_host x \<noteq> []) pre)"
  have e: "rs w' = delete_at ?n (rs w)"
    using RemoveRoute_step [OF assms(1,2)] first_index_listed [OF assms(3,5,6), of post] assms(4) by auto
  moreover have "rs w' = pre @ post" if "\<forall>x \<in> set pre. route_host x \<noteq> []"
  proof -
    have "?n = length pre" using that by (simp add: filter_id_conv [THEN iffD2])
    then show ?thesis using e assms(4) by (simp add: delete_at_def)
  qed
  moreover have "r \<in> set (rs w')" if x: "\<exists>x \<in> set pre. route_host x = []"
  proof -
    have "?n < length pre" using x by (auto intro: length_filter_less)
    then show ?thesis using e assms(4) by (simp add: delete_at_def)
  qed
  ultimately show ?thesis by blast
qed

definition catch_all :: caddy_route where
  "catch_all = \<lparr>rt_Match = [], rt_Handle = [], rt_Terminal = False\<rparr>"

definition tunnel_cfg :: root_config where
  "tunnel_cfg = zero_config\<lparr>cfg_Tunnel := zero_tunnel\<lparr>tun_ServerIP := ''10.8.1.1''\<rparr>\<rparr>"

theorem RemoveRoute_deletes_witness:
  "snd (snd (RemoveRoute list_caddy tunnel_cfg ''a.io'' (NewCaddyClient, [catch_all, new_route ''a.io'' ''x'']))) = [new_route ''a.io'' ''x'']"
proof -
  let ?w = "[catch_all, new_route ''a.io'' ''x'']"
  have h: "route_host catch_all = []" by (simp add: catch_all_def route_host_def)
  have "fst (RemoveRoute list_caddy tunnel_cfg ''a.io'' (NewCaddyClient, ?w)) = None"
    by (simp add: RemoveRoute_def baseURLResolved_def NewCaddyClient_def resolveBaseURL_def tunnel_cfg_def zero_config_def
        zero_tunnel_def findRouteIndexLocked_def listRoutesLocked_def list_caddy_def listed_routes_def h)
  then obtain c' w' where r: "RemoveRoute list_caddy tunnel_cfg ''a.io'' (NewCaddyClient, ?w) = (None, c', w')"
    by (metis prod.collapse)
  have "\<not> EqualFold [] ''a.io''" by (simp add: EqualFold_def to_lower_def)
  then show ?thesis
    using RemoveRoute_deletes [OF list_caddy_laws r, of "[catch_all]" "new_route ''a.io'' ''x''" "[]"] r h
    by (simp add: delete_at_def)
qed

text \<open>Publishing a host that no route names and then removing it restores the routes exactly, provided
  every route names a host.\<close>

theorem add_remove_route:
  assumes "caddy_laws api rs" and "host \<noteq> []" and "\<forall>x \<in> set (rs w). route_host x \<noteq> [] \<and> \<not> EqualFold (route_host x) host"
    and "AddRoute api cfg host d (c, w) = (None, c1, w1)" and "RemoveRoute api cfg host (c1, w1) = (None, c2, w2)"
  shows "rs w1 = rs w @ [new_route host d] \<and> rs w2 = rs w"
proof -
  have a: "rs w1 = rs w @ new_route host d # []" using AddRoute_ok [OF assms(1,4)] by simp
  have "rs w2 = rs w @ []"
    using RemoveRoute_step [OF assms(1,5)] first_index_listed [OF assms(2), of "new_route host d" "rs w" "[]"] assms(2,3) a
    by (auto simp: delete_at_def filter_id_conv [THEN iffD2])
  then show ?thesis using a by simp
qed

theorem add_remove_route_witness:
  "snd (snd (RemoveRoute list_caddy tunnel_cfg ''a.io'' (snd (AddRoute list_caddy tunnel_cfg ''a.io'' ''x''
       (NewCaddyClient, [new_route ''b.io'' ''y'']))))) = [new_route ''b.io'' ''y'']"
proof -
  let ?cw = "snd (AddRoute list_caddy tunnel_cfg ''a.io'' ''x'' (NewCaddyClient, [new_route ''b.io'' ''y'']))"
  have n: "\<not> EqualFold ''b.io'' ''a.io''" by (simp add: EqualFold_def to_lower_def lower_char_def)
  have a: "AddRoute list_caddy tunnel_cfg ''a.io'' ''x'' (NewCaddyClient, [new_route ''b.io'' ''y'']) = (None, ?cw)"
    and w: "snd ?cw = [new_route ''b.io'' ''y'', new_route ''a.io'' ''x'']"
    and u: "\<exists>u. cc_baseURL (fst ?cw) = u \<and> u \<noteq> []"
    by (simp_all add: AddRoute_def baseURLResolved_def NewCaddyClient_def resolveBaseURL_def tunnel_cfg_def zero_config_def
        zero_tunnel_def list_caddy_def)
  have "fst (RemoveRoute list_caddy tunnel_cfg ''a.io'' ?cw) = None"
    using u w n by (auto simp: RemoveRoute_def baseURLResolved_def findRouteIndexLocked_def listRoutesLocked_def
        list_caddy_def listed_routes_def)
  then show ?thesis
    using add_remove_route [OF list_caddy_laws, of "''a.io''" "[new_route ''b.io'' ''y'']" tunnel_cfg "''x''" NewCaddyClient
        "fst ?cw" "snd ?cw"] a n
    by (metis (no_types, lifting) list.set(1) list.set(2) singletonD list.distinct(1) prod.collapse route_host_new)
qed

end
