(* ===== verification/Dns_Records.thy ===== *)
theory Dns_Records
  imports Config
begin

text \<open>
  The DNS records of the exposed ports (\<open>proxy/dns.go\<close>). Cloudflare's interface is a record of four
  calls on an abstract world: no answer, or the HTTP status with the decoded envelope. What its
  documentation promises is the predicate \<open>cf_laws\<close>, over the records that a world holds. Resolving a
  name in manual mode only logs, so that lookup is left out.
\<close>

section \<open>Data\<close>

record dns_record =
  rec_ID :: string
  rec_Type :: string
  rec_Name :: string
  rec_Content :: string
  rec_Proxied :: bool
  rec_TTL :: int

text \<open>The answer to a change: the status, and the envelope's success flag when the body decodes.\<close>

type_synonym cf_answer = "(int \<times> bool option) option"

record 'w cf_api =
  cf_find :: "string \<Rightarrow> string \<Rightarrow> string \<Rightarrow> 'w \<Rightarrow> (int \<times> (bool \<times> dns_record list) option) option \<times> 'w"
  cf_create :: "string \<Rightarrow> string \<Rightarrow> dns_record \<Rightarrow> 'w \<Rightarrow> cf_answer \<times> 'w"
  cf_update :: "string \<Rightarrow> string \<Rightarrow> string \<Rightarrow> dns_record \<Rightarrow> 'w \<Rightarrow> cf_answer \<times> 'w"
  cf_delete :: "string \<Rightarrow> string \<Rightarrow> string \<Rightarrow> 'w \<Rightarrow> cf_answer \<times> 'w"

datatype dns_error = DnsProvider | DnsToken | DnsZone | DnsServerIP | DnsUnreachable | DnsStatus int | DnsDecode | DnsRefused

section \<open>Cloudflare\<close>

definition handleCFResponse :: "cf_answer \<Rightarrow> dns_error option" where
  "handleCFResponse a =
     (case a of
        None \<Rightarrow> Some DnsUnreachable
      | Some (st, None) \<Rightarrow> if st \<ge> 400 then Some (DnsStatus st) else None
      | Some (st, Some success) \<Rightarrow> if success then None else Some DnsRefused)"

definition findCloudflareRecord :: "'w cf_api \<Rightarrow> string \<Rightarrow> string \<Rightarrow> string \<Rightarrow> 'w \<Rightarrow> (dns_error + dns_record option) \<times> 'w" where
  "findCloudflareRecord api token zoneID name w =
     (case cf_find api token zoneID name w of
        (None, w1) \<Rightarrow> (Inl DnsUnreachable, w1)
      | (Some (st, body), w1) \<Rightarrow>
          if st \<ge> 400 then (Inl (DnsStatus st), w1)
          else (case body of
                  None \<Rightarrow> (Inl DnsDecode, w1)
                | Some (success, rs) \<Rightarrow> (Inr (if \<not> success \<or> rs = [] then None else Some (hd rs)), w1)))"

definition updateCloudflareRecord :: "'w cf_api \<Rightarrow> string \<Rightarrow> string \<Rightarrow> string \<Rightarrow> string \<Rightarrow> string \<Rightarrow> string \<Rightarrow> 'w \<Rightarrow> dns_error option \<times> 'w" where
  "updateCloudflareRecord api token zoneID recordID name recordType content w =
     (case cf_update api token zoneID recordID
         \<lparr>rec_ID = [], rec_Type = recordType, rec_Name = name, rec_Content = content, rec_Proxied = False, rec_TTL = 1\<rparr> w
      of (a, w1) \<Rightarrow> (handleCFResponse a, w1))"

text \<open>\<open>subdomain\<close> unless it already ends in the zone, as \<open>strings.HasSuffix\<close> decides it.\<close>

definition record_name :: "string \<Rightarrow> string \<Rightarrow> string" where
  "record_name subdomain domain = (if \<not> has_suffix subdomain domain then subdomain @ ''.'' @ domain else subdomain)"

definition createCloudflareRecord :: "'w cf_api \<Rightarrow> root_config \<Rightarrow> string \<Rightarrow> 'w \<Rightarrow> dns_error option \<times> 'w" where
  "createCloudflareRecord api cfg subdomain w =
     (let token = dns_Token (cfg_DNS cfg); zoneID = dns_Zone (cfg_DNS cfg); domain = dns_Zone (cfg_DNS cfg) in
      if token = [] then (Some DnsToken, w)
      else if zoneID = [] then (Some DnsZone, w)
      else
        let recordName = record_name subdomain domain; vpsIP = tun_ServerIP (cfg_Tunnel cfg) in
        if vpsIP = [] then (Some DnsServerIP, w)
        else
          case findCloudflareRecord api token zoneID recordName w of
            (Inl e, w1) \<Rightarrow> (Some e, w1)
          | (Inr (Some existing), w1) \<Rightarrow>
              if rec_Content existing \<noteq> vpsIP
              then updateCloudflareRecord api token zoneID (rec_ID existing) recordName ''A'' vpsIP w1
              else (None, w1)
          | (Inr None, w1) \<Rightarrow>
              (case cf_create api token zoneID
                   \<lparr>rec_ID = [], rec_Type = ''A'', rec_Name = recordName, rec_Content = vpsIP, rec_Proxied = False, rec_TTL = 1\<rparr> w1
               of (a, w2) \<Rightarrow> (handleCFResponse a, w2)))"

definition deleteCloudflareRecord :: "'w cf_api \<Rightarrow> root_config \<Rightarrow> string \<Rightarrow> 'w \<Rightarrow> dns_error option \<times> 'w" where
  "deleteCloudflareRecord api cfg subdomain w =
     (let token = dns_Token (cfg_DNS cfg); zoneID = dns_Zone (cfg_DNS cfg); domain = dns_Zone (cfg_DNS cfg) in
      if token = [] \<or> zoneID = [] then (Some DnsZone, w)
      else
        case findCloudflareRecord api token zoneID (record_name subdomain domain) w of
          (Inl e, w1) \<Rightarrow> (Some e, w1)
        | (Inr None, w1) \<Rightarrow> (None, w1)
        | (Inr (Some existing), w1) \<Rightarrow>
            (case cf_delete api token zoneID (rec_ID existing) w1 of (a, w2) \<Rightarrow> (handleCFResponse a, w2)))"

section \<open>Provider dispatch\<close>

definition CreateRecord :: "'w cf_api \<Rightarrow> root_config \<Rightarrow> string \<Rightarrow> 'w \<Rightarrow> dns_error option \<times> 'w" where
  "CreateRecord api cfg subdomain w =
     (let provider = to_lower (dns_Provider (cfg_DNS cfg)) in
      if provider = ''cloudflare'' then createCloudflareRecord api cfg subdomain w
      else if provider = ''manual'' \<or> provider = [] then (None, w)
      else (Some DnsProvider, w))"

definition DeleteRecord :: "'w cf_api \<Rightarrow> root_config \<Rightarrow> string \<Rightarrow> 'w \<Rightarrow> dns_error option \<times> 'w" where
  "DeleteRecord api cfg subdomain w =
     (let provider = to_lower (dns_Provider (cfg_DNS cfg)) in
      if provider = ''cloudflare'' then deleteCloudflareRecord api cfg subdomain w
      else if provider = ''manual'' \<or> provider = [] then (None, w)
      else (Some DnsProvider, w))"

section \<open>What Cloudflare promises\<close>

text \<open>Over the records of a zone: a successful search returns those of the name; create adds one under a new
  identifier; update replaces and delete removes the one with the identifier. Every answer below 400 is a
  decodable envelope that reports success, and a refusal changes nothing.\<close>

definition find_law :: "'w cf_api \<Rightarrow> ('w \<Rightarrow> dns_record list) \<Rightarrow> bool" where
  "find_law api rs \<longleftrightarrow> (\<forall>t z n w a w'. cf_find api t z n w = (a, w') \<longrightarrow> rs w' = rs w
        \<and> (\<forall>st d. a = Some (st, d) \<longrightarrow> st < 400 \<longrightarrow> d = Some (True, filter (\<lambda>r. rec_Name r = n) (rs w))))"

definition change_law :: "(int \<times> bool option) \<Rightarrow> 'r \<Rightarrow> 'r \<Rightarrow> ('r \<Rightarrow> 'r \<Rightarrow> bool) \<Rightarrow> bool" where
  "change_law a x x' eff \<longleftrightarrow>
     (if fst a < 400 then snd a = Some True \<and> eff x x' else snd a = Some False \<and> x' = x)"

definition cf_laws :: "'w cf_api \<Rightarrow> ('w \<Rightarrow> dns_record list) \<Rightarrow> bool" where
  "cf_laws api rs \<longleftrightarrow> find_law api rs
     \<and> (\<forall>t z r w a w'. cf_create api t z r w = (Some a, w') \<longrightarrow>
          change_law a (rs w) (rs w') (\<lambda>x x'. \<exists>i. i \<notin> rec_ID ` set x \<and> x' = x @ [r\<lparr>rec_ID := i\<rparr>]))
     \<and> (\<forall>t z i r w a w'. cf_update api t z i r w = (Some a, w') \<longrightarrow>
          change_law a (rs w) (rs w') (\<lambda>x x'. x' = map (\<lambda>y. if rec_ID y = i then r\<lparr>rec_ID := i\<rparr> else y) x))
     \<and> (\<forall>t z i w a w'. cf_delete api t z i w = (Some a, w') \<longrightarrow>
          change_law a (rs w) (rs w') (\<lambda>x x'. x' = filter (\<lambda>y. rec_ID y \<noteq> i) x))"

text \<open>A zone that answers every request, over its list of records.\<close>

definition list_zone :: "dns_record list cf_api" where
  "list_zone = \<lparr>cf_find = (\<lambda>_ _ n w. (Some (200, Some (True, filter (\<lambda>r. rec_Name r = n) w)), w)),
     cf_create = (\<lambda>_ _ r w. (Some (200, Some True), w @ [r\<lparr>rec_ID := replicate (Suc (sum_list (map (length \<circ> rec_ID) w))) CHR ''x''\<rparr>])),
     cf_update = (\<lambda>_ _ i r w. (Some (200, Some True), map (\<lambda>x. if rec_ID x = i then r\<lparr>rec_ID := i\<rparr> else x) w)),
     cf_delete = (\<lambda>_ _ i w. (Some (200, Some True), filter (\<lambda>x. rec_ID x \<noteq> i) w))\<rparr>"

lemma list_zone_laws: "cf_laws list_zone (\<lambda>w. w)"
proof -
  have "replicate (Suc (sum_list (map (length \<circ> rec_ID) w))) CHR ''x'' \<notin> rec_ID ` set w" for w :: "dns_record list"
  proof
    assume "replicate (Suc (sum_list (map (length \<circ> rec_ID) w))) CHR ''x'' \<in> rec_ID ` set w"
    then obtain r where "r \<in> set w" and l: "length (rec_ID r) = Suc (sum_list (map (length \<circ> rec_ID) w))"
      by (auto simp del: replicate.simps) (metis length_replicate)
    have "length (rec_ID r) \<in> set (map (length \<circ> rec_ID) w)" using \<open>r \<in> set w\<close> by auto
    then have "length (rec_ID r) \<le> sum_list (map (length \<circ> rec_ID) w)" by (rule member_le_sum_list) simp
    then show False using l by simp
  qed
  then show ?thesis by (auto simp: cf_laws_def find_law_def change_law_def list_zone_def simp del: replicate.simps)
qed

section \<open>Properties\<close>

definition cloudflare_ready :: "root_config \<Rightarrow> bool" where
  "cloudflare_ready cfg \<longleftrightarrow> to_lower (dns_Provider (cfg_DNS cfg)) = ''cloudflare'' \<and> dns_Token (cfg_DNS cfg) \<noteq> []
     \<and> dns_Zone (cfg_DNS cfg) \<noteq> [] \<and> tun_ServerIP (cfg_Tunnel cfg) \<noteq> []"

lemma find_hd_filter: "List.find P xs = (if filter P xs = [] then None else Some (hd (filter P xs)))"
  by (induction xs) auto

lemma find_step:
  assumes "cf_laws api rs" and f: "findCloudflareRecord api t z n w = (x, w')"
  shows "rs w' = rs w \<and> (\<forall>r. x = Inr r \<longrightarrow> r = List.find (\<lambda>r. rec_Name r = n) (rs w))"
proof -
  obtain a w1 where a: "cf_find api t z n w = (a, w1)" by fastforce
  have "find_law api rs" using assms(1) by (simp add: cf_laws_def)
  then have l: "rs w1 = rs w" "\<And>st d. a = Some (st, d) \<Longrightarrow> st < 400 \<Longrightarrow> d = Some (True, filter (\<lambda>r. rec_Name r = n) (rs w))"
    using a unfolding find_law_def by blast+
  show ?thesis
  proof (cases a)
    case None
    then show ?thesis using f a l(1) by (auto simp: findCloudflareRecord_def)
  next
    case (Some p)
    obtain st d where p: "p = (st, d)" by (cases p)
    show ?thesis
      using f a l(1) l(2) [of st d] Some p
      by (cases "st < 400") (auto simp: findCloudflareRecord_def find_hd_filter)
  qed
qed

lemma accepted:
  assumes "handleCFResponse a = None" and "\<And>b. a = Some b \<Longrightarrow> change_law b x x' eff"
  shows "eff x x'"
proof -
  obtain st d where a: "a = Some (st, d)" using assms(1) by (cases a) (auto simp: handleCFResponse_def)
  then show ?thesis using assms(1) assms(2) [OF a]
    by (cases d) (auto simp: handleCFResponse_def change_law_def split: if_splits)
qed

lemma create_step:
  assumes "cf_laws api rs" and "cf_create api t z r w = (a, w')" and "handleCFResponse a = None"
  shows "\<exists>i. i \<notin> rec_ID ` set (rs w) \<and> rs w' = rs w @ [r\<lparr>rec_ID := i\<rparr>]"
proof -
  have "change_law b (rs w) (rs w') (\<lambda>x x'. \<exists>i. i \<notin> rec_ID ` set x \<and> x' = x @ [r\<lparr>rec_ID := i\<rparr>])" if "a = Some b" for b
    using assms(1,2) that unfolding cf_laws_def by blast
  then show ?thesis by (rule accepted [OF assms(3)])
qed

lemma update_step:
  assumes "cf_laws api rs" and "cf_update api t z i r w = (a, w')" and "handleCFResponse a = None"
  shows "rs w' = map (\<lambda>x. if rec_ID x = i then r\<lparr>rec_ID := i\<rparr> else x) (rs w)"
proof -
  have "change_law b (rs w) (rs w') (\<lambda>x x'. x' = map (\<lambda>y. if rec_ID y = i then r\<lparr>rec_ID := i\<rparr> else y) x)" if "a = Some b" for b
    using assms(1,2) that unfolding cf_laws_def by blast
  then show ?thesis by (rule accepted [OF assms(3)])
qed

lemma delete_step:
  assumes "cf_laws api rs" and "cf_delete api t z i w = (a, w')" and "handleCFResponse a = None"
  shows "rs w' = filter (\<lambda>x. rec_ID x \<noteq> i) (rs w)"
proof -
  have "change_law b (rs w) (rs w') (\<lambda>x x'. x' = filter (\<lambda>y. rec_ID y \<noteq> i) x)" if "a = Some b" for b
    using assms(1,2) that unfolding cf_laws_def by blast
  then show ?thesis by (rule accepted [OF assms(3)])
qed

text \<open>What a name resolves to: the content of its first record.\<close>

definition resolves :: "dns_record list \<Rightarrow> string \<Rightarrow> string option" where
  "resolves rs n = map_option rec_Content (List.find (\<lambda>r. rec_Name r = n) rs)"

lemma find_snoc: "List.find P xs = None \<Longrightarrow> List.find P (xs @ [y]) = (if P y then Some y else None)"
  by (induction xs) (auto split: if_splits)

lemma resolves_update:
  assumes "List.find (\<lambda>r. rec_Name r = n) rs = Some e" and "distinct (map rec_ID rs)"
    and "rec_Name new = n" and "rec_ID new = rec_ID e"
  shows "resolves (map (\<lambda>x. if rec_ID x = rec_ID e then new else x) rs) n = Some (rec_Content new)"
  using assms
proof (induction rs)
  case (Cons x xs)
  show ?case
  proof (cases "rec_Name x = n")
    case True
    then show ?thesis using Cons.prems by (simp add: resolves_def)
  next
    case False
    then have "List.find (\<lambda>r. rec_Name r = n) xs = Some e" using Cons.prems by simp
    moreover from this have "e \<in> set xs" by (blast dest: find_Some_in)
    then have "rec_ID x \<noteq> rec_ID e" using Cons.prems(2) by auto
    ultimately show ?thesis using Cons.IH Cons.prems False by (simp add: resolves_def)
  qed
qed simp

lemma others_update:
  assumes "e \<in> set rs" and "distinct (map rec_ID rs)" and "rec_Name e = n" and "rec_Name new = n"
  shows "filter (\<lambda>r. rec_Name r \<noteq> n) (map (\<lambda>x. if rec_ID x = rec_ID e then new else x) rs) = filter (\<lambda>r. rec_Name r \<noteq> n) rs"
proof -
  have "rec_Name x = n" if "x \<in> set rs" "rec_ID x = rec_ID e" for x
    using that assms(1,2,3) by (metis distinct_map inj_onD)
  then show ?thesis using assms(4) by (induction rs) auto
qed

text \<open>With Cloudflare configured, a successful creation makes the name of the subdomain resolve to the tunnel
  server's address, whether a record existed, was outdated or was missing, and leaves the records of
  every other name as they were.\<close>

theorem CreateRecord_resolves:
  assumes laws: "cf_laws api rs" and cfg: "cloudflare_ready cfg" and d: "distinct (map rec_ID (rs w))"
    and r: "CreateRecord api cfg subdomain w = (None, w')"
  defines "n \<equiv> record_name subdomain (dns_Zone (cfg_DNS cfg))"
  shows "resolves (rs w') n = Some (tun_ServerIP (cfg_Tunnel cfg))
     \<and> filter (\<lambda>r. rec_Name r \<noteq> n) (rs w') = filter (\<lambda>r. rec_Name r \<noteq> n) (rs w) \<and> distinct (map rec_ID (rs w'))"
proof -
  let ?t = "dns_Token (cfg_DNS cfg)" and ?z = "dns_Zone (cfg_DNS cfg)" and ?ip = "tun_ServerIP (cfg_Tunnel cfg)"
  have c: "createCloudflareRecord api cfg subdomain w = (None, w')"
    using r cfg by (simp add: CreateRecord_def cloudflare_ready_def)
  obtain x w1 where f: "findCloudflareRecord api ?t ?z n w = (x, w1)" by fastforce
  note fs = find_step [OF laws f]
  show ?thesis
  proof (cases x)
    case (Inl e)
    then show ?thesis using c cfg f by (simp add: createCloudflareRecord_def cloudflare_ready_def n_def Let_def)
  next
    case (Inr o1)
    show ?thesis
    proof (cases o1)
      case None
      then obtain a where a: "cf_create api ?t ?z \<lparr>rec_ID = [], rec_Type = ''A'', rec_Name = n, rec_Content = ?ip, rec_Proxied = False, rec_TTL = 1\<rparr> w1 = (a, w')"
          "handleCFResponse a = None"
        using c cfg f Inr by (auto simp: createCloudflareRecord_def cloudflare_ready_def n_def Let_def split: prod.splits)
      have "List.find (\<lambda>r. rec_Name r = n) (rs w) = None" using fs Inr None by simp
      then have "\<forall>r \<in> set (rs w). rec_Name r \<noteq> n" by (simp add: find_None_iff)
      then show ?thesis using create_step [OF laws a] fs d
          \<open>List.find (\<lambda>r. rec_Name r = n) (rs w) = None\<close>
        by (auto simp: resolves_def find_snoc)
    next
      case (Some e)
      then have fe: "List.find (\<lambda>r. rec_Name r = n) (rs w) = Some e" using fs Inr by simp
      then have e: "e \<in> set (rs w)" "rec_Name e = n" by (auto dest: find_Some_in)
      show ?thesis
      proof (cases "rec_Content e = ?ip")
        case True
        then have "w' = w1" using c cfg f Inr Some by (simp add: createCloudflareRecord_def cloudflare_ready_def n_def Let_def)
        then show ?thesis using fs fe True d by (simp add: resolves_def)
      next
        case False
        let ?new = "\<lparr>rec_ID = [], rec_Type = ''A'', rec_Name = n, rec_Content = ?ip, rec_Proxied = False, rec_TTL = 1\<rparr>"
        obtain a where a: "cf_update api ?t ?z (rec_ID e) ?new w1 = (a, w')" "handleCFResponse a = None"
          using c cfg f Inr Some False
          by (auto simp: createCloudflareRecord_def updateCloudflareRecord_def cloudflare_ready_def n_def Let_def split: prod.splits)
        have u: "rs w' = map (\<lambda>x. if rec_ID x = rec_ID e then ?new\<lparr>rec_ID := rec_ID e\<rparr> else x) (rs w)"
          using update_step [OF laws a] fs by simp
        have "map rec_ID (rs w') = map rec_ID (rs w)" unfolding u map_map by (rule map_cong) auto
        then have "distinct (map rec_ID (rs w'))" using d by simp
        then show ?thesis
          using resolves_update [OF fe d, of "?new\<lparr>rec_ID := rec_ID e\<rparr>"] others_update [OF e(1) d e(2), of "?new\<lparr>rec_ID := rec_ID e\<rparr>"]
          unfolding u by simp
      qed
    qed
  qed
qed

definition zone_cfg :: root_config where
  "zone_cfg = zero_config\<lparr>cfg_DNS := \<lparr>dns_Provider = ''cloudflare'', dns_Token = ''t'', dns_Zone = ''ex.io''\<rparr>,
     cfg_Tunnel := zero_tunnel\<lparr>tun_ServerIP := ''10.8.1.1''\<rparr>\<rparr>"

definition old_record :: dns_record where
  "old_record = \<lparr>rec_ID = ''r1'', rec_Type = ''A'', rec_Name = ''app.ex.io'', rec_Content = ''1.2.3.4'', rec_Proxied = False, rec_TTL = 1\<rparr>"

theorem CreateRecord_resolves_witness:
  "resolves (snd (CreateRecord list_zone zone_cfg ''app'' [old_record])) ''app.ex.io'' = Some ''10.8.1.1''"
proof -
  have n: "record_name ''app'' ''ex.io'' = ''app.ex.io''" by (simp add: record_name_def has_suffix_def)
  have r: "cloudflare_ready zone_cfg"
    by (simp add: cloudflare_ready_def zone_cfg_def zero_config_def zero_tunnel_def to_lower_def lower_char_def)
  have "fst (CreateRecord list_zone zone_cfg ''app'' [old_record]) = None"
    by (simp add: CreateRecord_def createCloudflareRecord_def zone_cfg_def zero_config_def zero_tunnel_def to_lower_def
        lower_char_def findCloudflareRecord_def list_zone_def n old_record_def updateCloudflareRecord_def handleCFResponse_def)
  then have "CreateRecord list_zone zone_cfg ''app'' [old_record] = (None, snd (CreateRecord list_zone zone_cfg ''app'' [old_record]))"
    by (metis prod.collapse)
  then show ?thesis
    using CreateRecord_resolves [OF list_zone_laws r, of "[old_record]" "''app''"] n
    by (simp add: zone_cfg_def zero_config_def zero_tunnel_def)
qed

end
