(* ===== verification/Ports_Api.thy ===== *)
theory Ports_Api
  imports Caddy_Client Dns_Records
begin

text \<open>
  The daemon's port endpoints (\<open>daemon/api_ports.go\<close>), over the configuration manager, the Caddy client and
  the DNS records. Each handler is one step on their joint state. The local TCP proxies are the map from
  port identifier to the proxy's listening port and the service it forwards to; starting one succeeds with
  a port number or fails. Logging and error texts are not kept.
\<close>

section \<open>Requests, replies and state\<close>

record create_port =
  cp_LocalPort :: int
  cp_Subdomain :: string
  cp_Protocol :: string

record port_response =
  pr_ID :: string
  pr_LocalPort :: int
  pr_Subdomain :: string
  pr_Protocol :: string
  pr_Status :: string
  pr_CreatedAt :: string

datatype port_body = PortBody port_response | PortRemoved string | PortListBody "port_response list"

record port_env =
  pe_id :: string
  pe_now :: string
  pe_proxy :: "int option"
  pe_io :: io_env

record 'w ports_net =
  pn_caddy :: "'w caddy_api"
  pn_cf :: "'w cf_api"

record 'w ports_state =
  ps_mgr :: manager
  ps_cc :: caddy_client
  ps_world :: 'w
  ps_proxies :: "string \<Rightarrow> (int \<times> int) option"

section \<open>Validation\<close>

definition label_end :: "char \<Rightarrow> bool" where
  "label_end c \<longleftrightarrow> (97 \<le> (of_char c :: nat) \<and> (of_char c :: nat) \<le> 122) \<or> is_digit c"

definition subdomainLabelRe :: "string \<Rightarrow> bool" where
  "subdomainLabelRe s \<longleftrightarrow> s \<noteq> [] \<and> length s \<le> 63 \<and> label_end (hd s) \<and> label_end (last s)
     \<and> list_all (\<lambda>c. label_end c \<or> c = CHR ''-'') s"

definition subdomainFullRe :: "string \<Rightarrow> bool" where
  "subdomainFullRe s \<longleftrightarrow> s \<noteq> [] \<and> length s \<le> 253 \<and> label_end (hd s) \<and> label_end (last s)
     \<and> list_all (\<lambda>c. label_end c \<or> c = CHR ''-'' \<or> c = CHR ''.'') s"

definition check_port_request :: "create_port \<Rightarrow> string + create_port" where
  "check_port_request req =
     (if cp_LocalPort req < 1 \<or> cp_LocalPort req > 65535 then Inl ''invalid_port''
      else if cp_Subdomain req = [] then Inl ''invalid_subdomain''
      else if \<not> subdomainFullRe (cp_Subdomain req) then Inl ''invalid_subdomain''
      else if \<exists>l \<in> set (split_on CHR ''.'' (cp_Subdomain req)). \<not> subdomainLabelRe l then Inl ''invalid_subdomain''
      else
        let protocol = to_lower (if cp_Protocol req = [] then ''http'' else cp_Protocol req) in
        if protocol \<noteq> ''http'' \<and> protocol \<noteq> ''https'' \<and> protocol \<noteq> ''tcp'' then Inl ''invalid_protocol''
        else Inr (req\<lparr>cp_Protocol := protocol\<rparr>))"

definition full_host :: "root_config \<Rightarrow> string \<Rightarrow> string" where
  "full_host cfg subdomain =
     (if dns_Zone (cfg_DNS cfg) \<noteq> [] \<and> \<not> has_suffix subdomain (dns_Zone (cfg_DNS cfg))
      then subdomain @ ''.'' @ dns_Zone (cfg_DNS cfg) else subdomain)"

section \<open>Handlers\<close>

definition response_of :: "exposed_port \<Rightarrow> port_response" where
  "response_of ep = \<lparr>pr_ID = ep_ID ep, pr_LocalPort = ep_Internal ep, pr_Subdomain = ep_HostHeader ep,
     pr_Protocol = ep_Protocol ep, pr_Status = ep_Status ep, pr_CreatedAt = ep_CreatedAt ep\<rparr>"

definition has_host :: "string \<Rightarrow> root_config \<Rightarrow> bool" where
  "has_host subdomain c \<longleftrightarrow> (\<exists>ep \<in> set (cfg_ExposedPorts c). ep_HostHeader ep = subdomain)"

definition append_port :: "exposed_port \<Rightarrow> root_config \<Rightarrow> root_config" where
  "append_port ep c = (if has_host (ep_HostHeader ep) c then c else c\<lparr>cfg_ExposedPorts := cfg_ExposedPorts c @ [ep]\<rparr>)"

text \<open>The external resources of a new port: the Caddy route, then the DNS record. The result tells whether both
  worked and whether the record was created.\<close>

definition publish :: "'w ports_net \<Rightarrow> root_config \<Rightarrow> string \<Rightarrow> string \<Rightarrow> caddy_client \<times> 'w \<Rightarrow> bool \<times> caddy_client \<times> 'w" where
  "publish net cfg subdomain upstreamDial cw =
     (case AddRoute (pn_caddy net) cfg (full_host cfg subdomain) upstreamDial cw of
        (Some _, cw1) \<Rightarrow> (False, cw1)
      | (None, c1, w1) \<Rightarrow>
          (case CreateRecord (pn_cf net) cfg subdomain w1 of
             (Some _, w2) \<Rightarrow> (False, c1, w2)
           | (None, w2) \<Rightarrow> (True, c1, w2)))"

definition unpublish :: "'w ports_net \<Rightarrow> root_config \<Rightarrow> string \<Rightarrow> bool \<Rightarrow> caddy_client \<times> 'w \<Rightarrow> caddy_client \<times> 'w" where
  "unpublish net cfg subdomain dnsRecordCreated cw =
     (let (c1, w1) = snd (RemoveRoute (pn_caddy net) cfg (full_host cfg subdomain) cw)
      in if dnsRecordCreated then (c1, snd (DeleteRecord (pn_cf net) cfg subdomain w1)) else (c1, w1))"

definition upstream_dial :: "root_config \<Rightarrow> int \<Rightarrow> string" where
  "upstream_dial cfg proxyPort = tun_LocalIP (cfg_Tunnel cfg) @ '':'' @ show_int proxyPort"

text \<open>From the started proxy on: publish, store, and take back on failure.\<close>

definition port_entry :: "port_env \<Rightarrow> create_port \<Rightarrow> bool \<Rightarrow> exposed_port" where
  "port_entry e req ok = \<lparr>ep_ID = pe_id e, ep_Protocol = cp_Protocol req, ep_Internal = cp_LocalPort req,
     ep_HostHeader = cp_Subdomain req, ep_Status = (if ok then ''active'' else ''error''), ep_CreatedAt = pe_now e\<rparr>"

definition expose_port :: "'w ports_net \<Rightarrow> port_env \<Rightarrow> create_port \<Rightarrow> int \<Rightarrow> 'w ports_state
    \<Rightarrow> port_body reply \<times> 'w ports_state" where
  "expose_port net e req proxyPort s =
     (let cfg = live (ps_mgr s); subdomain = cp_Subdomain req;
          proxies = (ps_proxies s)(pe_id e \<mapsto> (proxyPort, cp_LocalPort req));
          (ok, cw) = publish net cfg subdomain (upstream_dial cfg proxyPort) (ps_cc s, ps_world s);
          newPort = port_entry e req ok;
          (err, m) = Manager_Update (pe_io e) (append_port newPort) (ps_mgr s);
          dup = has_host subdomain cfg;
          undone = unpublish net (live m) subdomain ok cw;
          kept = s\<lparr>ps_mgr := m, ps_cc := fst cw, ps_world := snd cw, ps_proxies := proxies\<rparr>;
          rolled = s\<lparr>ps_mgr := m, ps_cc := fst undone, ps_world := snd undone, ps_proxies := proxies\<rparr>
      in if err \<noteq> None then (ErrorResponse 500 ''internal_error'', rolled)
         else if dup then (ErrorResponse 409 ''duplicate_subdomain'', rolled)
         else (JSONResponse (if ok then 201 else 502) (PortBody (response_of newPort)), kept))"

definition port_handleCreate :: "'w ports_net \<Rightarrow> port_env \<Rightarrow> create_port option \<Rightarrow> 'w ports_state
    \<Rightarrow> port_body reply \<times> 'w ports_state" where
  "port_handleCreate net e body s =
     (case body of
        None \<Rightarrow> (ErrorResponse 400 ''invalid_request'', s)
      | Some req0 \<Rightarrow>
          case check_port_request req0 of
            Inl code \<Rightarrow> (ErrorResponse 400 code, s)
          | Inr req \<Rightarrow>
              let cfg = live (ps_mgr s) in
              if tun_Status (cfg_Tunnel cfg) \<noteq> ''connected'' then (ErrorResponse 409 ''tunnel_not_connected'', s)
              else if dns_Provider (cfg_DNS cfg) = ''cloudflare'' \<and> CHR ''.'' \<in> set (cp_Subdomain req)
              then (ErrorResponse 400 ''invalid_subdomain_depth'', s)
              else case pe_proxy e of
                     None \<Rightarrow> (ErrorResponse 500 ''proxy_error'', s)
                   | Some proxyPort \<Rightarrow> expose_port net e req proxyPort s)"

text \<open>The position that a DELETE or GET names: by identifier, or by the legacy form \<open>port-N\<close>.\<close>

definition find_port :: "string \<Rightarrow> exposed_port list \<Rightarrow> nat option" where
  "find_port portID eps =
     (case first_index (\<lambda>ep. ep_ID ep = portID) eps of
        Some i \<Rightarrow> Some i
      | None \<Rightarrow>
          if has_prefix portID ''port-'' then
            (case Atoi (trim_prefix portID ''port-'') of
               Some n \<Rightarrow> if n \<ge> 0 \<and> n < int (length eps) then Some (nat n) else None
             | None \<Rightarrow> None)
          else None)"

definition remove_port :: "string \<Rightarrow> nat \<Rightarrow> root_config \<Rightarrow> root_config" where
  "remove_port portID targetIdx c =
     (let idx = (case first_index (\<lambda>ep. ep_ID ep = portID) (cfg_ExposedPorts c) of Some i \<Rightarrow> i | None \<Rightarrow> targetIdx)
      in if idx < length (cfg_ExposedPorts c) then c\<lparr>cfg_ExposedPorts := delete_at idx (cfg_ExposedPorts c)\<rparr> else c)"

definition port_handleRemove :: "'w ports_net \<Rightarrow> io_env \<Rightarrow> string \<Rightarrow> 'w ports_state \<Rightarrow> port_body reply \<times> 'w ports_state" where
  "port_handleRemove net io portID s =
     (if portID = [] then (ErrorResponse 400 ''invalid_id'', s)
      else
        let cfg = live (ps_mgr s) in
        case find_port portID (cfg_ExposedPorts cfg) of
          None \<Rightarrow> (ErrorResponse 404 ''not_found'', s)
        | Some targetIdx \<Rightarrow>
            let subdomain = ep_HostHeader (cfg_ExposedPorts cfg ! targetIdx);
                cw = unpublish net cfg subdomain True (ps_cc s, ps_world s);
                (err, m) = Manager_Update io (remove_port portID targetIdx) (ps_mgr s);
                s1 = s\<lparr>ps_mgr := m, ps_cc := fst cw, ps_world := snd cw, ps_proxies := (ps_proxies s)(portID := None)\<rparr>
            in if err \<noteq> None then (ErrorResponse 500 ''internal_error'', s1) else (JSONResponse 200 (PortRemoved portID), s1))"

definition port_handleGet :: "string \<Rightarrow> 'w ports_state \<Rightarrow> port_body reply" where
  "port_handleGet portID s =
     (if portID = [] then ErrorResponse 400 ''invalid_id''
      else let eps = cfg_ExposedPorts (live (ps_mgr s)) in
        case find_port portID eps of
          None \<Rightarrow> ErrorResponse 404 ''not_found''
        | Some i \<Rightarrow> JSONResponse 200 (PortBody (response_of (eps ! i))))"

definition buildPortInfos :: "root_config \<Rightarrow> port_response list" where
  "buildPortInfos cfg = map response_of (filter (\<lambda>ep. ep_ID ep \<noteq> []) (cfg_ExposedPorts cfg))"

definition port_handleList :: "'w ports_state \<Rightarrow> port_body reply" where
  "port_handleList s = JSONResponse 200 (PortListBody (buildPortInfos (live (ps_mgr s))))"

section \<open>Well-formed ports\<close>

definition port_ok :: "exposed_port \<Rightarrow> bool" where
  "port_ok ep \<longleftrightarrow> 1 \<le> ep_Internal ep \<and> ep_Internal ep \<le> 65535
     \<and> ep_Protocol ep \<in> {''http'', ''https'', ''tcp''} \<and> ep_Status ep \<in> {''active'', ''error''}
     \<and> length (ep_HostHeader ep) \<le> 253 \<and> (\<forall>l \<in> set (split_on CHR ''.'' (ep_HostHeader ep)). subdomainLabelRe l)"

definition ports_wf :: "exposed_port list \<Rightarrow> bool" where
  "ports_wf eps \<longleftrightarrow> (\<forall>ep \<in> set eps. port_ok ep) \<and> distinct (map ep_HostHeader eps)"

definition ports_ok :: "'w ports_state \<Rightarrow> bool" where
  "ports_ok s \<longleftrightarrow> manager_ok (ps_mgr s) \<and> ports_wf (cfg_ExposedPorts (live (ps_mgr s)))"

lemma check_port_request_Inr:
  assumes "check_port_request req = Inr r"
  shows "cp_Subdomain r = cp_Subdomain req \<and> cp_LocalPort r = cp_LocalPort req
     \<and> port_ok \<lparr>ep_ID = i, ep_Protocol = cp_Protocol r, ep_Internal = cp_LocalPort r, ep_HostHeader = cp_Subdomain r,
          ep_Status = (if ok then ''active'' else ''error''), ep_CreatedAt = t\<rparr>"
  using assms by (auto simp: check_port_request_def port_ok_def subdomainFullRe_def Let_def split: if_splits)

lemma check_port_request_Inl:
  "check_port_request req = Inl c \<Longrightarrow> c \<notin> {''internal_error'', ''duplicate_subdomain''}"
  by (auto simp: check_port_request_def Let_def split: if_splits)

lemma valid_entry: "check_port_request req = Inr r \<Longrightarrow> port_ok (port_entry e r ok)"
  using check_port_request_Inr unfolding port_entry_def by blast

lemma append_port_wf: "ports_wf (cfg_ExposedPorts c) \<Longrightarrow> port_ok ep \<Longrightarrow> ports_wf (cfg_ExposedPorts (append_port ep c))"
  by (auto simp: append_port_def ports_wf_def has_host_def)

lemma delete_at_wf: "ports_wf eps \<Longrightarrow> ports_wf (delete_at i eps)"
  using set_delete_at [of i eps] by (auto simp: ports_wf_def intro: distinct_map_delete_at)

lemma remove_port_wf: "ports_wf (cfg_ExposedPorts c) \<Longrightarrow> ports_wf (cfg_ExposedPorts (remove_port portID i c))"
  by (simp add: remove_port_def Let_def delete_at_wf)

lemma update_keeps_ports:
  assumes "manager_ok m" and "ports_wf (cfg_ExposedPorts (live m))"
    and "ports_wf (cfg_ExposedPorts (fn (live m)))" and "Manager_Update io fn m = (r, m')"
  shows "manager_ok m' \<and> ports_wf (cfg_ExposedPorts (live m'))"
  using Manager_Update_step [OF assms(1,4)] assms(2,3) by (auto simp: update_outcome_def split: option.splits)

text \<open>The two requests that change the ports, each with the system's answers.\<close>

datatype port_request = CreateReq port_env "create_port option" | RemoveReq io_env string

fun port_handle :: "'w ports_net \<Rightarrow> port_request \<Rightarrow> 'w ports_state \<Rightarrow> port_body reply \<times> 'w ports_state" where
  "port_handle net (CreateReq e body) s = port_handleCreate net e body s"
| "port_handle net (RemoveReq io i) s = port_handleRemove net io i s"

fun port_run :: "'w ports_net \<Rightarrow> port_request list \<Rightarrow> 'w ports_state \<Rightarrow> 'w ports_state" where
  "port_run net [] s = s"
| "port_run net (q # qs) s = port_run net qs (snd (port_handle net q s))"

text \<open>How a creation ends: refused before anything happened, or with its proxy started.\<close>

lemma port_handleCreate_cases:
  obtains (refused) r where "port_handleCreate net e body s = (r, s)" "\<not> succeeded r"
      "reply_code r \<notin> {''internal_error'', ''duplicate_subdomain''}"
  | (started) req0 req pport where "body = Some req0" "check_port_request req0 = Inr req" "pe_proxy e = Some pport"
      "tun_Status (cfg_Tunnel (live (ps_mgr s))) = ''connected''"
      "port_handleCreate net e body s = expose_port net e req pport s"
proof -
  consider "body = None" | c req0 where "body = Some req0" "check_port_request req0 = Inl c"
    | req0 req where "body = Some req0" "check_port_request req0 = Inr req"
    by (cases body; cases "check_port_request (the body)") auto
  then show ?thesis
  proof cases
    case 1
    then show ?thesis by (intro refused [of "ErrorResponse 400 ''invalid_request''"]) (simp_all add: port_handleCreate_def)
  next
    case 2
    then show ?thesis using check_port_request_Inl [OF 2(2)]
      by (intro refused [of "ErrorResponse 400 c"]) (simp_all add: port_handleCreate_def)
  next
    case 3
    let ?cfg = "live (ps_mgr s)"
    consider "tun_Status (cfg_Tunnel ?cfg) \<noteq> ''connected''"
      | "tun_Status (cfg_Tunnel ?cfg) = ''connected''" "dns_Provider (cfg_DNS ?cfg) = ''cloudflare'' \<and> CHR ''.'' \<in> set (cp_Subdomain req)"
      | "tun_Status (cfg_Tunnel ?cfg) = ''connected''" "\<not> (dns_Provider (cfg_DNS ?cfg) = ''cloudflare'' \<and> CHR ''.'' \<in> set (cp_Subdomain req))"
      by blast
    then show ?thesis
    proof cases
      case 1
      then show ?thesis using 3
        by (intro refused [of "ErrorResponse 409 ''tunnel_not_connected''"]) (simp_all add: port_handleCreate_def Let_def)
    next
      case 2
      then show ?thesis using 3
        by (intro refused [of "ErrorResponse 400 ''invalid_subdomain_depth''"]) (simp_all add: port_handleCreate_def Let_def)
    next
      case c: 3
      show ?thesis
      proof (cases "pe_proxy e")
        case None
        then show ?thesis using c 3
          by (intro refused [of "ErrorResponse 500 ''proxy_error''"]) (simp_all only: port_handleCreate_def Let_def option.case sum.case if_False succeeded_simps reply.sel, simp_all)
      next
        case (Some pport)
        then show ?thesis using c 3
          by (intro started [OF 3 Some]) (simp_all only: port_handleCreate_def Let_def option.case sum.case if_False not_True_eq_False, simp_all only: simp_thms if_False)
      qed
    qed
  qed
qed

lemma expose_port_outcome:
  assumes "publish net (live (ps_mgr s)) (cp_Subdomain req) (upstream_dial (live (ps_mgr s)) pport) (ps_cc s, ps_world s) = (ok, cw)"
    and "Manager_Update (pe_io e) (append_port (port_entry e req ok)) (ps_mgr s) = (err, m)"
  shows "expose_port net e req pport s =
    (if err = None \<and> \<not> has_host (cp_Subdomain req) (live (ps_mgr s)) then
       (JSONResponse (if ok then 201 else 502) (PortBody (response_of (port_entry e req ok))),
        s\<lparr>ps_mgr := m, ps_cc := fst cw, ps_world := snd cw,
          ps_proxies := (ps_proxies s)(pe_id e \<mapsto> (pport, cp_LocalPort req))\<rparr>)
     else (if err = None then ErrorResponse 409 ''duplicate_subdomain'' else ErrorResponse 500 ''internal_error'',
        s\<lparr>ps_mgr := m, ps_cc := fst (unpublish net (live m) (cp_Subdomain req) ok cw),
          ps_world := snd (unpublish net (live m) (cp_Subdomain req) ok cw),
          ps_proxies := (ps_proxies s)(pe_id e \<mapsto> (pport, cp_LocalPort req))\<rparr>))"
  using assms by (cases err) (simp_all add: expose_port_def Let_def)

lemma create_keeps_ports:
  assumes "ports_ok s"
  shows "ports_ok (snd (port_handleCreate net e body s))"
proof (rule port_handleCreate_cases [of net e body s])
  fix r assume "port_handleCreate net e body s = (r, s)"
  then show ?thesis using assms by simp
next
  fix req0 req pport assume c: "check_port_request req0 = Inr req" and eq: "port_handleCreate net e body s = expose_port net e req pport s"
  obtain ok cw where p: "publish net (live (ps_mgr s)) (cp_Subdomain req) (upstream_dial (live (ps_mgr s)) pport) (ps_cc s, ps_world s) = (ok, cw)"
    by (rule that) (rule prod.collapse [symmetric])
  obtain err m where u: "Manager_Update (pe_io e) (append_port (port_entry e req ok)) (ps_mgr s) = (err, m)"
    by (rule that) (rule prod.collapse [symmetric])
  have "port_ok (port_entry e req ok)" by (rule valid_entry [OF c])
  then have "manager_ok m \<and> ports_wf (cfg_ExposedPorts (live m))"
    using update_keeps_ports [OF _ _ append_port_wf u] assms by (simp add: ports_ok_def)
  then show ?thesis unfolding eq expose_port_outcome [OF p u] by (simp add: ports_ok_def)
qed

lemma remove_keeps_ports:
  assumes "ports_ok s"
  shows "ports_ok (snd (port_handleRemove net io portID s))"
proof -
  obtain err m where u: "Manager_Update io (remove_port portID (the (find_port portID (cfg_ExposedPorts (live (ps_mgr s)))))) (ps_mgr s) = (err, m)"
    by (rule that) (rule prod.collapse [symmetric])
  have "manager_ok m \<and> ports_wf (cfg_ExposedPorts (live m))"
    using update_keeps_ports [OF _ _ remove_port_wf u] assms by (simp add: ports_ok_def)
  then show ?thesis using u assms
    by (auto simp: port_handleRemove_def ports_ok_def Let_def split: option.splits)
qed

text \<open>C17: Whatever create and delete requests are made, and whatever Caddy, Cloudflare and the disk answer, every
  stored port is well formed (a port number between 1 and 65535, a known protocol and status, valid DNS
  labels), no two share a subdomain, and the configuration file agrees with memory.\<close>

theorem ports_well_formed:
  assumes "ports_ok s"
  shows "ports_ok (port_run net qs s)"
  using assms
proof (induction qs arbitrary: s)
  case (Cons q qs)
  have "ports_ok (snd (port_handle net q s))"
    using Cons.prems create_keeps_ports remove_keeps_ports by (cases q) auto
  then show ?case using Cons.IH by simp
qed simp

text \<open>A daemon with a connected tunnel in manual DNS mode, with one exposed port.\<close>

definition web_port :: exposed_port where
  "web_port = \<lparr>ep_ID = ''p1'', ep_Protocol = ''http'', ep_Internal = 3000, ep_HostHeader = ''web'', ep_Status = ''active'', ep_CreatedAt = ''t0''\<rparr>"

definition web_config :: root_config where
  "web_config = zero_config\<lparr>cfg_Tunnel := zero_tunnel\<lparr>tun_ServerIP := ''10.8.1.1'', tun_LocalIP := ''10.8.1.2'', tun_Status := ''connected''\<rparr>,
     cfg_ExposedPorts := [web_port], cfg_DNS := \<lparr>dns_Provider = ''manual'', dns_Token = [], dns_Zone = ''ex.io''\<rparr>\<rparr>"

definition list_net :: "(caddy_route list \<times> dns_record list) ports_net" where
  "list_net = \<lparr>pn_caddy = \<lparr>ca_post = (\<lambda>_ r (w, z). (Some 200, w @ [r], z)),
       ca_get = (\<lambda>_ (w, z). (Some (200, Some [''srv0'' \<mapsto> w]), w, z)), ca_delete = (\<lambda>_ i (w, z). (Some 200, delete_at i w, z))\<rparr>,
     pn_cf = \<lparr>cf_find = (\<lambda>t zn n (w, z). (fst (cf_find list_zone t zn n z), w, snd (cf_find list_zone t zn n z))),
       cf_create = (\<lambda>t zn r (w, z). (fst (cf_create list_zone t zn r z), w, snd (cf_create list_zone t zn r z))),
       cf_update = (\<lambda>t zn i r (w, z). (fst (cf_update list_zone t zn i r z), w, snd (cf_update list_zone t zn i r z))),
       cf_delete = (\<lambda>t zn i (w, z). (fst (cf_delete list_zone t zn i z), w, snd (cf_delete list_zone t zn i z)))\<rparr>\<rparr>"

definition web_state :: "(caddy_route list \<times> dns_record list) ports_state" where
  "web_state = \<lparr>ps_mgr = \<lparr>mgr_heap = [web_config], mgr_config = 0, mgr_disk = \<lparr>target = Holds web_config, strays = 0\<rparr>\<rparr>,
     ps_cc = NewCaddyClient, ps_world = ([new_route ''web.ex.io'' ''10.8.1.2:41000''], []), ps_proxies = [''p1'' \<mapsto> (41000, 3000)]\<rparr>"

definition web_env :: port_env where
  "web_env = \<lparr>pe_id = ''p2'', pe_now = ''t1'', pe_proxy = Some 42000, pe_io = io_all_ok\<rparr>"

lemma web_live: "live (ps_mgr web_state) = web_config"
  by (simp add: web_state_def live_def deref_def)

lemma web_ok: "ports_ok web_state"
  by (simp add: ports_ok_def manager_ok_def live_def deref_def web_state_def web_config_def zero_config_def ports_wf_def
      port_ok_def web_port_def subdomainLabelRe_def label_end_def)

theorem ports_well_formed_witness:
  "ports_ok (port_run list_net [RemoveReq io_all_ok ''p1'', CreateReq web_env (Some \<lparr>cp_LocalPort = 99999, cp_Subdomain = ''web'', cp_Protocol = ''UDP''\<rparr>)] web_state)"
  by (rule ports_well_formed) (rule web_ok)

section \<open>Publishing and taking back\<close>

text \<open>Caddy and Cloudflare keep their promises and do not touch each other's data.\<close>

definition net_laws :: "'w ports_net \<Rightarrow> ('w \<Rightarrow> caddy_route list) \<Rightarrow> ('w \<Rightarrow> dns_record list) \<Rightarrow> bool" where
  "net_laws net rs zs \<longleftrightarrow> caddy_laws (pn_caddy net) rs \<and> cf_laws (pn_cf net) zs
     \<and> (\<forall>t z n w. rs (snd (cf_find (pn_cf net) t z n w)) = rs w)
     \<and> (\<forall>t z r w. rs (snd (cf_create (pn_cf net) t z r w)) = rs w)
     \<and> (\<forall>t z i r w. rs (snd (cf_update (pn_cf net) t z i r w)) = rs w)
     \<and> (\<forall>t z i w. rs (snd (cf_delete (pn_cf net) t z i w)) = rs w)
     \<and> (\<forall>u r w. zs (snd (ca_post (pn_caddy net) u r w)) = zs w)
     \<and> (\<forall>u w. zs (snd (ca_get (pn_caddy net) u w)) = zs w)
     \<and> (\<forall>u i w. zs (snd (ca_delete (pn_caddy net) u i w)) = zs w)"

lemma list_net_laws: "net_laws list_net fst snd"
proof -
  have "caddy_laws (pn_caddy list_net) fst" by (auto simp: caddy_laws_def list_net_def)
  moreover have "cf_laws (pn_cf list_net) snd"
    using list_zone_laws unfolding cf_laws_def find_law_def list_net_def
    by (auto simp: list_zone_def change_law_def simp del: replicate.simps)
  ultimately show ?thesis by (auto simp: net_laws_def list_net_def list_zone_def)
qed

lemma CreateRecord_keeps_routes: "net_laws net rs zs \<Longrightarrow> rs (snd (CreateRecord (pn_cf net) cfg sub w)) = rs w"
proof -
  assume l: "net_laws net rs zs"
  have f: "rs (snd (findCloudflareRecord (pn_cf net) t z n w)) = rs w" for t z n w
  proof -
    have "snd (findCloudflareRecord (pn_cf net) t z n w) = snd (cf_find (pn_cf net) t z n w)"
      by (auto simp: findCloudflareRecord_def split: prod.splits option.splits)
    then show ?thesis using l by (simp add: net_laws_def)
  qed
  obtain x w1 where x: "findCloudflareRecord (pn_cf net) (dns_Token (cfg_DNS cfg)) (dns_Zone (cfg_DNS cfg)) (record_name sub (dns_Zone (cfg_DNS cfg))) w = (x, w1)"
    by fastforce
  then have "rs w1 = rs w" using f by (metis snd_conv)
  then show ?thesis using l x
    by (auto simp: CreateRecord_def createCloudflareRecord_def updateCloudflareRecord_def Let_def net_laws_def
        split: sum.splits option.splits prod.splits) (metis snd_conv)+
qed

lemma AddRoute_keeps_records: "net_laws net rs zs \<Longrightarrow> zs (snd (snd (AddRoute (pn_caddy net) cfg h d (c, w)))) = zs w"
  by (auto simp: AddRoute_def net_laws_def split: prod.splits option.splits) (metis snd_conv)+

text \<open>C18: A port is reported as created only when everything is in place: the configuration has gained exactly
  this port, at the end and on disk, Caddy has gained exactly the route from its host to its proxy, the
  proxy forwards to the requested local port, and with Cloudflare its name resolves to the tunnel server.\<close>

theorem created_port_is_published:
  assumes laws: "net_laws net rs zs" and m: "manager_ok (ps_mgr s)"
    and r: "port_handleCreate net e body s = (JSONResponse 201 b, s')"
  shows "\<exists>req pport. live (ps_mgr s') = (live (ps_mgr s))\<lparr>cfg_ExposedPorts := cfg_ExposedPorts (live (ps_mgr s)) @ [port_entry e req True]\<rparr>
     \<and> target (mgr_disk (ps_mgr s')) = Holds (live (ps_mgr s'))
     \<and> \<not> has_host (cp_Subdomain req) (live (ps_mgr s))
     \<and> rs (ps_world s') = rs (ps_world s) @ [new_route (full_host (live (ps_mgr s)) (cp_Subdomain req)) (upstream_dial (live (ps_mgr s)) pport)]
     \<and> ps_proxies s' = (ps_proxies s)(pe_id e \<mapsto> (pport, cp_LocalPort req))
     \<and> b = PortBody (response_of (port_entry e req True))
     \<and> (cloudflare_ready (live (ps_mgr s)) \<longrightarrow> distinct (map rec_ID (zs (ps_world s))) \<longrightarrow>
          resolves (zs (ps_world s')) (record_name (cp_Subdomain req) (dns_Zone (cfg_DNS (live (ps_mgr s)))))
            = Some (tun_ServerIP (cfg_Tunnel (live (ps_mgr s)))))"
proof (rule port_handleCreate_cases [of net e body s])
  fix r' assume "port_handleCreate net e body s = (r', s)" "\<not> succeeded r'"
  then show ?thesis using r by auto
next
  fix req0 req pport assume eq: "port_handleCreate net e body s = expose_port net e req pport s"
  let ?cfg = "live (ps_mgr s)"
  obtain ok cw where p: "publish net ?cfg (cp_Subdomain req) (upstream_dial ?cfg pport) (ps_cc s, ps_world s) = (ok, cw)"
    by (rule that) (rule prod.collapse [symmetric])
  obtain err m' where u: "Manager_Update (pe_io e) (append_port (port_entry e req ok)) (ps_mgr s) = (err, m')"
    by (rule that) (rule prod.collapse [symmetric])
  note o' = r [unfolded eq expose_port_outcome [OF p u]]
  have ok: "ok" "err = None" "\<not> has_host (cp_Subdomain req) ?cfg" using o' by (auto split: if_splits)
  have s': "s' = s\<lparr>ps_mgr := m', ps_cc := fst cw, ps_world := snd cw, ps_proxies := (ps_proxies s)(pe_id e \<mapsto> (pport, cp_LocalPort req))\<rparr>"
      "b = PortBody (response_of (port_entry e req True))"
    using o' ok by auto
  have up: "manager_ok m' \<and> update_outcome (append_port (port_entry e req True)) (ps_mgr s) None m'"
    using Manager_Update_step [OF m u] ok by simp
  have "append_port (port_entry e req True) ?cfg = ?cfg\<lparr>cfg_ExposedPorts := cfg_ExposedPorts ?cfg @ [port_entry e req True]\<rparr>"
    using ok(3) by (simp add: append_port_def port_entry_def)
  then have cfg': "live m' = ?cfg\<lparr>cfg_ExposedPorts := cfg_ExposedPorts ?cfg @ [port_entry e req True]\<rparr>"
      "target (mgr_disk m') = Holds (live m')"
    using up by (simp_all add: update_outcome_def)
  obtain c1 w1 w2 where a: "AddRoute (pn_caddy net) ?cfg (full_host ?cfg (cp_Subdomain req)) (upstream_dial ?cfg pport) (ps_cc s, ps_world s) = (None, c1, w1)"
      and d: "CreateRecord (pn_cf net) ?cfg (cp_Subdomain req) w1 = (None, w2)" and cw: "cw = (c1, w2)"
    using p ok(1) by (auto simp: publish_def split: prod.splits option.splits)
  have "rs w1 = rs (ps_world s) @ [new_route (full_host ?cfg (cp_Subdomain req)) (upstream_dial ?cfg pport)]"
    using AddRoute_ok [OF _ a] laws by (simp add: net_laws_def)
  moreover have "rs w2 = rs w1" using CreateRecord_keeps_routes [OF laws, of ?cfg "cp_Subdomain req" w1] d by simp
  moreover have "zs w1 = zs (ps_world s)"
    using AddRoute_keeps_records [OF laws, of ?cfg "full_host ?cfg (cp_Subdomain req)" "upstream_dial ?cfg pport" "ps_cc s" "ps_world s"] a by simp
  moreover have "cf_laws (pn_cf net) zs" using laws by (simp add: net_laws_def)
  ultimately show ?thesis
    using s' cfg' ok(3) cw CreateRecord_resolves [of "pn_cf net" zs ?cfg w1 "cp_Subdomain req" w2] d
    by (intro exI [of _ req] exI [of _ pport]) simp
qed

lemma label_web: "subdomainLabelRe ''api''"
  by (simp add: subdomainLabelRe_def label_end_def is_digit_def)

definition api_request :: create_port where
  "api_request = \<lparr>cp_LocalPort = 8080, cp_Subdomain = ''api'', cp_Protocol = []\<rparr>"

definition web_request :: create_port where
  "web_request = \<lparr>cp_LocalPort = 8080, cp_Subdomain = ''web'', cp_Protocol = []\<rparr>"

lemma sample_checked:
  "check_port_request api_request = Inr (api_request\<lparr>cp_Protocol := ''http''\<rparr>)"
  "check_port_request web_request = Inr (web_request\<lparr>cp_Protocol := ''http''\<rparr>)"
  by (simp_all add: check_port_request_def api_request_def web_request_def subdomainFullRe_def subdomainLabelRe_def
      label_end_def is_digit_def to_lower_def lower_char_def)

lemma web_host: "full_host web_config x = x @ ''.ex.io''" if "length x < 5"
  using that by (simp add: full_host_def web_config_def zero_config_def has_suffix_def)

lemma web_base: "baseURLResolved web_config c \<noteq> (None, x)"
  by (simp add: baseURLResolved_def resolveBaseURL_def web_config_def zero_config_def zero_tunnel_def)

lemma web_created:
  "fst (port_handleCreate list_net web_env (Some api_request) web_state)
     = JSONResponse 201 (PortBody (response_of (port_entry web_env (api_request\<lparr>cp_Protocol := ''http''\<rparr>) True)))"
proof -
  let ?req = "api_request\<lparr>cp_Protocol := ''http''\<rparr>"
  have a: "fst (AddRoute (pn_caddy list_net) web_config h d (c, w)) = None" for h d c w
    using web_base by (cases w) (auto simp: AddRoute_def list_net_def split: prod.splits option.splits)
  have d: "CreateRecord (pn_cf list_net) web_config x w = (None, w)" for x w
    by (simp add: CreateRecord_def web_config_def zero_config_def to_lower_def lower_char_def)
  have "fst (publish list_net web_config (cp_Subdomain ?req) (upstream_dial web_config 42000) (ps_cc web_state, ps_world web_state))"
    using a [of "full_host web_config (cp_Subdomain ?req)" "upstream_dial web_config 42000" "ps_cc web_state" "ps_world web_state"] d
    by (auto simp: publish_def split: prod.splits option.splits)
  then obtain cw where p: "publish list_net (live (ps_mgr web_state)) (cp_Subdomain ?req) (upstream_dial (live (ps_mgr web_state)) 42000)
      (ps_cc web_state, ps_world web_state) = (True, cw)" unfolding web_live by (metis prod.collapse)
  have "fst (Manager_Update (pe_io web_env) (append_port (port_entry web_env ?req True)) (ps_mgr web_state)) = None"
    by (simp add: Manager_Update_def web_env_def saveLocked_def io_all_ok_def Let_def)
  then obtain m where u: "Manager_Update (pe_io web_env) (append_port (port_entry web_env ?req True)) (ps_mgr web_state) = (None, m)"
    by (metis prod.collapse)
  have "\<not> has_host (cp_Subdomain ?req) (live (ps_mgr web_state))"
    by (simp add: web_live web_config_def zero_config_def has_host_def web_port_def api_request_def)
  moreover have "port_handleCreate list_net web_env (Some api_request) web_state = expose_port list_net web_env ?req 42000 web_state"
    by (simp add: port_handleCreate_def sample_checked web_live web_env_def, simp add: web_config_def zero_config_def zero_tunnel_def)
  ultimately show ?thesis using expose_port_outcome [OF p u] by simp
qed

theorem created_port_is_published_witness:
  "map ep_HostHeader (cfg_ExposedPorts (live (ps_mgr (snd (port_handleCreate list_net web_env (Some api_request) web_state))))) = [''web'', ''api'']
     \<and> map route_host (fst (ps_world (snd (port_handleCreate list_net web_env (Some api_request) web_state)))) = [''web.ex.io'', ''api.ex.io'']"
proof -
  let ?r = "port_handleCreate list_net web_env (Some api_request) web_state"
  have m: "manager_ok (ps_mgr web_state)" using web_ok by (simp add: ports_ok_def)
  have r: "?r = (JSONResponse 201 (PortBody (response_of (port_entry web_env (api_request\<lparr>cp_Protocol := ''http''\<rparr>) True))), snd ?r)"
    using web_created by (metis prod.collapse)
  obtain req pport where R:
    "cfg_ExposedPorts (live (ps_mgr (snd ?r))) = [web_port, port_entry web_env req True]"
    "fst (ps_world (snd ?r)) = [new_route ''web.ex.io'' ''10.8.1.2:41000'', new_route (full_host web_config (cp_Subdomain req)) (upstream_dial web_config pport)]"
    "response_of (port_entry web_env (api_request\<lparr>cp_Protocol := ''http''\<rparr>) True) = response_of (port_entry web_env req True)"
    using created_port_is_published [OF list_net_laws m r] unfolding web_live
    by (auto simp: web_config_def zero_config_def web_state_def)
  have "cp_Subdomain req = ''api''" using R(3) by (simp add: response_of_def port_entry_def api_request_def)
  moreover have "full_host web_config ''api'' = ''api.ex.io''" by (subst web_host) simp_all
  ultimately show ?thesis by (simp only: R(1,2)) (simp add: port_entry_def web_port_def)
qed

section \<open>Failed creations\<close>

lemma failed_create_started:
  assumes r: "port_handleCreate net e body s = (ErrorResponse st code, s')" and c: "code \<in> {''internal_error'', ''duplicate_subdomain''}"
    and m: "manager_ok (ps_mgr s)"
  shows "\<exists>(req::create_port) pport. ps_proxies s' = (ps_proxies s)(pe_id e \<mapsto> (pport, cp_LocalPort req))
     \<and> live (ps_mgr s') = live (ps_mgr s) \<and> manager_ok (ps_mgr s')"
proof (rule port_handleCreate_cases [of net e body s])
  fix r' assume "port_handleCreate net e body s = (r', s)" "reply_code r' \<notin> {''internal_error'', ''duplicate_subdomain''}"
  then show ?thesis using r c by auto
next
  fix req0 req pport assume eq: "port_handleCreate net e body s = expose_port net e req pport s"
  obtain ok cw where p: "publish net (live (ps_mgr s)) (cp_Subdomain req) (upstream_dial (live (ps_mgr s)) pport) (ps_cc s, ps_world s) = (ok, cw)"
    by (rule that) (rule prod.collapse [symmetric])
  obtain err m' where u: "Manager_Update (pe_io e) (append_port (port_entry e req ok)) (ps_mgr s) = (err, m')"
    by (rule that) (rule prod.collapse [symmetric])
  note o' = r [unfolded eq expose_port_outcome [OF p u]]
  have up: "manager_ok m' \<and> update_outcome (append_port (port_entry e req ok)) (ps_mgr s) err m'"
    by (rule Manager_Update_step [OF m u])
  have bad: "\<not> (err = None \<and> \<not> has_host (cp_Subdomain req) (live (ps_mgr s)))"
    using o' by (auto split: if_splits)
  then have "live m' = live (ps_mgr s)" using up
    by (auto simp: update_outcome_def append_port_def port_entry_def split: option.splits)
  then show ?thesis using o' bad up by (intro exI [of _ req] exI [of _ pport]) auto
qed

definition fresh_id :: "string \<Rightarrow> port_request \<Rightarrow> bool" where
  "fresh_id i q = (case q of CreateReq e _ \<Rightarrow> pe_id e \<noteq> i | RemoveReq _ _ \<Rightarrow> True)"

definition unknown_id :: "string \<Rightarrow> 'w ports_state \<Rightarrow> bool" where
  "unknown_id i s \<longleftrightarrow> manager_ok (ps_mgr s) \<and> i \<notin> ep_ID ` set (cfg_ExposedPorts (live (ps_mgr s)))"

lemma unknown_step:
  assumes u: "unknown_id i s" and q: "fresh_id i q" and i: "\<not> has_prefix i ''port-''"
  shows "unknown_id i (snd (port_handle net q s)) \<and> ps_proxies (snd (port_handle net q s)) i = ps_proxies s i"
proof (cases q)
  case (CreateReq e body)
  then have ne: "pe_id e \<noteq> i" using q by (simp add: fresh_id_def)
  have "unknown_id i (snd (port_handleCreate net e body s)) \<and> ps_proxies (snd (port_handleCreate net e body s)) i = ps_proxies s i"
  proof (rule port_handleCreate_cases [of net e body s])
    fix r assume "port_handleCreate net e body s = (r, s)"
    then show ?thesis using u by simp
  next
    fix req0 req pport assume eq: "port_handleCreate net e body s = expose_port net e req pport s"
    obtain ok cw where p: "publish net (live (ps_mgr s)) (cp_Subdomain req) (upstream_dial (live (ps_mgr s)) pport) (ps_cc s, ps_world s) = (ok, cw)"
      by (rule that) (rule prod.collapse [symmetric])
    obtain err m' where up: "Manager_Update (pe_io e) (append_port (port_entry e req ok)) (ps_mgr s) = (err, m')"
      by (rule that) (rule prod.collapse [symmetric])
    have "manager_ok m' \<and> update_outcome (append_port (port_entry e req ok)) (ps_mgr s) err m'"
      using Manager_Update_step [OF _ up] u by (simp add: unknown_id_def)
    moreover have "i \<notin> ep_ID ` set (cfg_ExposedPorts (append_port (port_entry e req ok) (live (ps_mgr s))))"
      using u ne by (auto simp: unknown_id_def append_port_def port_entry_def)
    ultimately show ?thesis unfolding eq expose_port_outcome [OF p up] using ne u
      by (auto simp: unknown_id_def update_outcome_def split: option.splits)
  qed
  then show ?thesis using CreateReq by simp
next
  case (RemoveReq io j)
  obtain err m where up: "Manager_Update io (remove_port j (the (find_port j (cfg_ExposedPorts (live (ps_mgr s)))))) (ps_mgr s) = (err, m)"
    by (rule that) (rule prod.collapse [symmetric])
  have o': "manager_ok m \<and> update_outcome (remove_port j (the (find_port j (cfg_ExposedPorts (live (ps_mgr s)))))) (ps_mgr s) err m"
    using Manager_Update_step [OF _ up] u by (simp add: unknown_id_def)
  have "set (cfg_ExposedPorts (remove_port j n c)) \<subseteq> set (cfg_ExposedPorts c)" for n c
    by (auto simp: remove_port_def Let_def dest: set_delete_at [THEN subsetD])
  then have um: "i \<notin> ep_ID ` set (cfg_ExposedPorts (live m))"
    using o' u by (fastforce simp: update_outcome_def unknown_id_def split: option.splits)
  have fi: "find_port i (cfg_ExposedPorts (live (ps_mgr s))) = None"
    using u i by (auto simp: find_port_def unknown_id_def split: option.splits dest: first_index_SomeD)
  have uk: "unknown_id i s" by (rule u)
  show ?thesis
  proof (cases "j = [] \<or> find_port j (cfg_ExposedPorts (live (ps_mgr s))) = None")
    case True
    then show ?thesis using RemoveReq uk by (auto simp: port_handleRemove_def Let_def)
  next
    case False
    then obtain n where n: "j \<noteq> []" "find_port j (cfg_ExposedPorts (live (ps_mgr s))) = Some n" by auto
    then have "i \<noteq> j" using fi by auto
    moreover have "Manager_Update io (remove_port j n) (ps_mgr s) = (err, m)" using up n by simp
    ultimately show ?thesis using RemoveReq n o' um
      by (simp add: port_handleRemove_def Let_def unknown_id_def)
  qed
qed

text \<open>A creation that fails after its proxy has started leaks the proxy: it keeps forwarding from the tunnel
  to the requested local port although no stored port carries its identifier, and no later sequence of
  requests stops it.\<close>

theorem failed_create_leaks_proxy:
  assumes r: "port_handleCreate net e body s = (ErrorResponse st code, s')" and c: "code \<in> {''internal_error'', ''duplicate_subdomain''}"
    and u: "unknown_id (pe_id e) s" and i: "\<not> has_prefix (pe_id e) ''port-''" and q: "\<forall>q \<in> set qs. fresh_id (pe_id e) q"
  shows "\<exists>pport lport. ps_proxies (port_run net qs s') (pe_id e) = Some (pport, lport) \<and> unknown_id (pe_id e) (port_run net qs s')"
proof -
  have m: "manager_ok (ps_mgr s)" using u by (simp add: unknown_id_def)
  have x: "\<exists>x. ps_proxies s' (pe_id e) = Some x" and u': "unknown_id (pe_id e) s'"
    using failed_create_started [OF r c m] u by (auto simp: unknown_id_def)
  have "ps_proxies (port_run net qs t) (pe_id e) = ps_proxies t (pe_id e) \<and> unknown_id (pe_id e) (port_run net qs t)"
    if "unknown_id (pe_id e) t" for t
    using that q
  proof (induction qs arbitrary: t)
    case (Cons p ps)
    then show ?case using unknown_step [OF Cons.prems(1) _ i, of p net] by simp
  qed simp
  then show ?thesis using x u' by auto
qed

text \<open>Every answer of Caddy is a success.\<close>

definition caddy_up :: "'w caddy_api \<Rightarrow> bool" where
  "caddy_up api \<longleftrightarrow> (\<forall>u r w. \<exists>st w'. ca_post api u r w = (Some st, w') \<and> st < 400)
     \<and> (\<forall>u w. \<exists>st cfg w'. ca_get api u w = (Some (st, Some cfg), w') \<and> st < 400)
     \<and> (\<forall>u i w. \<exists>st w'. ca_delete api u i w = (Some st, w') \<and> st < 400)"

definition manual_dns :: "root_config \<Rightarrow> bool" where
  "manual_dns cfg \<longleftrightarrow> dns_Provider (cfg_DNS cfg) = ''manual''"

lemma baseURLResolved_Some:
  assumes "resolveBaseURL cfg \<noteq> None"
  obtains url c1 where "baseURLResolved cfg c = (Some url, c1)"
  using assms by (cases "cc_baseURL c = []") (auto simp: baseURLResolved_def)

lemma AddRoute_up: "caddy_up api \<Longrightarrow> resolveBaseURL cfg \<noteq> None \<Longrightarrow> fst (AddRoute api cfg h d (c, w)) = None"
proof -
  assume up: "caddy_up api" and b: "resolveBaseURL cfg \<noteq> None"
  obtain url c1 where u: "baseURLResolved cfg c = (Some url, c1)" using b by (rule baseURLResolved_Some)
  obtain st w' where "ca_post api url (new_route h d) w = (Some st, w')" "st < 400" using up unfolding caddy_up_def by blast
  then show ?thesis using u by (simp add: AddRoute_def)
qed

lemma RemoveRoute_up:
  assumes up: "caddy_up api" and laws: "caddy_laws api rs" and b: "resolveBaseURL cfg \<noteq> None"
    and h: "rs w = pre @ r # post" "host \<noteq> []" "EqualFold (route_host r) host" "\<forall>x \<in> set pre. \<not> EqualFold (route_host x) host"
  shows "fst (RemoveRoute api cfg host (c, w)) = None"
proof -
  obtain url c1 where u: "baseURLResolved cfg c = (Some url, c1)" using b by (rule baseURLResolved_Some)
  obtain st cf w1 where g: "ca_get api url w = (Some (st, Some cf), w1)" "st < 400" using up unfolding caddy_up_def by blast
  have "listRoutesLocked api url w = (Inr (listed_routes (rs w)), w1)"
    using g caddy_get(2) [OF laws g] by (simp add: listRoutesLocked_def)
  then obtain i where f: "findRouteIndexLocked api url host w = (Inr i, w1)"
    using first_index_listed [OF h(2,3,4), of post] h(1) by (simp add: findRouteIndexLocked_def)
  obtain st' w2 where "ca_delete api url i w1 = (Some st', w2)" "st' < 400" using up unfolding caddy_up_def by blast
  then show ?thesis using u f by (simp add: RemoveRoute_def)
qed

text \<open>Asking for a subdomain that is already in use takes it over. The request is refused as a duplicate, but
  the rollback removes the first route of the host, which is that of the existing port, and leaves the
  refused request's route: from then on the host forwards to the refused request's local port.\<close>

theorem duplicate_create_hijacks:
  assumes laws: "net_laws net rs zs" and up: "caddy_up (pn_caddy net)" and m: "manager_ok (ps_mgr s)"
    and cfg: "cfg = live (ps_mgr s)" "manual_dns cfg" "resolveBaseURL cfg \<noteq> None"
    and body: "check_port_request req0 = Inr req" "tun_Status (cfg_Tunnel cfg) = ''connected''" "pe_proxy e = Some pport"
    and dup: "has_host (cp_Subdomain req) cfg" and io: "pe_io e = io_all_ok"
    and h: "host = full_host cfg (cp_Subdomain req)" "host \<noteq> []"
    and r: "rs (ps_world s) = pre @ r # post" "EqualFold (route_host r) host"
      "\<forall>x \<in> set pre. route_host x \<noteq> [] \<and> \<not> EqualFold (route_host x) host"
  shows "fst (port_handleCreate net e (Some req0) s) = ErrorResponse 409 ''duplicate_subdomain''
     \<and> live (ps_mgr (snd (port_handleCreate net e (Some req0) s))) = cfg
     \<and> rs (ps_world (snd (port_handleCreate net e (Some req0) s))) = pre @ post @ [new_route host (upstream_dial cfg pport)]
     \<and> ps_proxies (snd (port_handleCreate net e (Some req0) s)) (pe_id e) = Some (pport, cp_LocalPort req)"
proof -
  let ?sub = "cp_Subdomain req" and ?d = "upstream_dial cfg pport"
  have eq: "port_handleCreate net e (Some req0) s = expose_port net e req pport s"
    using body cfg(1,2) by (simp add: port_handleCreate_def manual_dns_def)
  have cl: "caddy_laws (pn_caddy net) rs" using laws by (simp add: net_laws_def)
  obtain c1 w1 where a: "AddRoute (pn_caddy net) cfg host ?d (ps_cc s, ps_world s) = (None, c1, w1)"
    using AddRoute_up [OF up cfg(3)] by (metis prod.collapse)
  have w1: "rs w1 = pre @ r # (post @ [new_route host ?d])" using AddRoute_ok [OF cl a] r(1) by simp
  have dns: "CreateRecord (pn_cf net) cfg ?sub w = (None, w)" "DeleteRecord (pn_cf net) cfg ?sub w = (None, w)" for w
    using cfg(2) by (simp_all add: CreateRecord_def DeleteRecord_def manual_dns_def to_lower_def lower_char_def)
  have p: "publish net (live (ps_mgr s)) ?sub (upstream_dial (live (ps_mgr s)) pport) (ps_cc s, ps_world s) = (True, c1, w1)"
    using a dns h(1) cfg(1) by (simp add: publish_def)
  obtain err m' where u: "Manager_Update (pe_io e) (append_port (port_entry e req True)) (ps_mgr s) = (err, m')"
    by (rule that) (rule prod.collapse [symmetric])
  have err: "err = None" using u io config_file.save_all_ok
    by (auto simp: Manager_Update_def Let_def split: prod.splits option.splits) (metis fst_conv option.distinct(1))
  have live': "live m' = cfg"
    using Manager_Update_step [OF m u] err dup cfg(1) by (simp add: update_outcome_def append_port_def port_entry_def)
  have pre: "\<forall>x \<in> set pre. \<not> EqualFold (route_host x) host" using r(3) by blast
  obtain c2 w2 where rm: "RemoveRoute (pn_caddy net) cfg host (c1, w1) = (None, c2, w2)"
    using RemoveRoute_up [OF up cl cfg(3) w1 h(2) r(2) pre] by (metis prod.collapse)
  have "rs w2 = pre @ post @ [new_route host ?d]"
    using RemoveRoute_deletes [OF cl rm h(2) w1 r(2) pre] r(3) by blast
  moreover have "unpublish net (live m') ?sub True (c1, w1) = (c2, w2)"
    using rm dns live' h(1) by (simp add: unpublish_def)
  ultimately show ?thesis unfolding eq expose_port_outcome [OF p u] using err dup cfg(1) live' by simp
qed

lemma web_resolves: "resolveBaseURL web_config \<noteq> None"
  by (simp add: resolveBaseURL_def web_config_def zero_config_def zero_tunnel_def)

lemma list_net_up: "caddy_up (pn_caddy list_net)"
  by (auto simp: caddy_up_def list_net_def)

theorem duplicate_create_hijacks_witness:
  "fst (port_handleCreate list_net web_env (Some web_request) web_state) = ErrorResponse 409 ''duplicate_subdomain''
     \<and> fst (ps_world (snd (port_handleCreate list_net web_env (Some web_request) web_state)))
         = [new_route ''web.ex.io'' (''10.8.1.2'' @ '':'' @ show_int 42000)]"
proof -
  let ?req = "web_request\<lparr>cp_Protocol := ''http''\<rparr>"
  have m: "manager_ok (ps_mgr web_state)" using web_ok by (simp add: ports_ok_def)
  have h: "full_host web_config (cp_Subdomain ?req) = ''web.ex.io''"
    unfolding web_request_def create_port.simps by (subst web_host) simp_all
  have d: "upstream_dial web_config 42000 = ''10.8.1.2'' @ '':'' @ show_int 42000"
    by (simp add: upstream_dial_def web_config_def)
  have w: "fst (ps_world web_state) = [] @ new_route ''web.ex.io'' ''10.8.1.2:41000'' # []" by (simp add: web_state_def)
  have e: "EqualFold (route_host (new_route ''web.ex.io'' ''10.8.1.2:41000'')) ''web.ex.io''"
    by (simp add: EqualFold_def new_route_def route_host_def)
  have c: "tun_Status (cfg_Tunnel web_config) = ''connected''" "manual_dns web_config" "has_host (cp_Subdomain ?req) web_config"
      "pe_proxy web_env = Some 42000" "pe_io web_env = io_all_ok"
    by (simp_all add: web_config_def manual_dns_def has_host_def web_port_def web_request_def web_env_def)
  show ?thesis
    using duplicate_create_hijacks [OF list_net_laws list_net_up m web_live [symmetric] c(2) web_resolves sample_checked(2) c(1,4,3,5)
        h [symmetric] _ w e] by (simp add: d)
qed

theorem failed_create_leaks_proxy_witness:
  "\<exists>pport lport. ps_proxies (port_run list_net [RemoveReq io_all_ok ''p2'', RemoveReq io_all_ok ''p1'']
       (snd (port_handleCreate list_net web_env (Some web_request) web_state))) ''p2'' = Some (pport, lport)"
proof -
  let ?r = "port_handleCreate list_net web_env (Some web_request) web_state"
  have m: "manager_ok (ps_mgr web_state)" using web_ok by (simp add: ports_ok_def)
  have eq: "?r = expose_port list_net web_env (web_request\<lparr>cp_Protocol := ''http''\<rparr>) 42000 web_state"
    by (simp add: port_handleCreate_def sample_checked web_live web_env_def, simp add: web_config_def zero_config_def zero_tunnel_def)
  have h: "has_host (cp_Subdomain (web_request\<lparr>cp_Protocol := ''http''\<rparr>)) (live (ps_mgr web_state))"
    by (simp add: web_live web_config_def has_host_def web_port_def web_request_def)
  let ?req = "web_request\<lparr>cp_Protocol := ''http''\<rparr>" and ?cfg = "live (ps_mgr web_state)"
  obtain ok cw where p: "publish list_net ?cfg (cp_Subdomain ?req) (upstream_dial ?cfg 42000) (ps_cc web_state, ps_world web_state) = (ok, cw)"
    by (rule that) (rule prod.collapse [symmetric])
  obtain err m' where up: "Manager_Update (pe_io web_env) (append_port (port_entry web_env ?req ok)) (ps_mgr web_state) = (err, m')"
    by (rule that) (rule prod.collapse [symmetric])
  have "\<exists>st code. fst ?r = ErrorResponse st code \<and> code \<in> {''internal_error'', ''duplicate_subdomain''}"
    unfolding eq expose_port_outcome [OF p up] using h by (cases err) simp_all
  then obtain st code where f: "fst ?r = ErrorResponse st code" and c: "code \<in> {''internal_error'', ''duplicate_subdomain''}" by blast
  have r: "?r = (ErrorResponse st code, snd ?r)" using f by (metis prod.collapse)
  have u: "unknown_id (pe_id web_env) web_state" using m
    by (simp add: unknown_id_def web_live) (simp add: web_config_def web_port_def web_env_def)
  have i: "\<not> has_prefix (pe_id web_env) ''port-''" by (simp add: web_env_def has_prefix_def)
  show ?thesis
    using failed_create_leaks_proxy [OF r c u i, of "[RemoveReq io_all_ok ''p2'', RemoveReq io_all_ok ''p1'']"]
    by (auto simp: fresh_id_def web_env_def)
qed

end
