(* ===== verification/Log_Stream.thy ===== *)
theory Log_Stream
  imports Prelude
begin

text \<open>
  The log stream (\<open>logstream/\<close>): the ring buffer of records (\<open>ring.go\<close>), the hub that fans records out to
  subscribers (\<open>hub.go\<close>) and the request side of the event stream (\<open>sse_handler.go\<close>). The counters of the
  ring are unbounded here; the 64-bit ones of the code would wrap only after \<open>2 ^ 63\<close> records. An event is
  kept as the record it encodes. The writer holds the lock of the log handler, so every operation is one step.
\<close>

section \<open>Records\<close>

text \<open>A field value: the JSON kinds that the redaction distinguishes, and any other value with its JSON text,
  absent where \<open>encoding/json\<close> refuses it.\<close>

datatype lvalue = VString string | VMap "(string \<times> lvalue) list" | VAny "string option"

record log_record =
  lr_TS :: string
  lr_Level :: string
  lr_Component :: string
  lr_Source :: string
  lr_Msg :: string
  lr_Seq :: int
  lr_Fields :: "(string \<times> lvalue) list"

definition zero_record :: log_record where
  "zero_record = \<lparr>lr_TS = [], lr_Level = [], lr_Component = [], lr_Source = [], lr_Msg = [], lr_Seq = 0, lr_Fields = []\<rparr>"

fun json_ok :: "lvalue \<Rightarrow> bool" where
  "json_ok (VString _) \<longleftrightarrow> True"
| "json_ok (VAny t) \<longleftrightarrow> t \<noteq> None"
| "json_ok (VMap kvs) \<longleftrightarrow> (\<forall>kv \<in> set kvs. json_ok (snd kv))"

definition marshalable :: "log_record \<Rightarrow> bool" where
  "marshalable rec \<longleftrightarrow> json_ok (VMap (lr_Fields rec))"

section \<open>The ring\<close>

record ring =
  rg_records :: "log_record list"
  rg_cap :: nat
  rg_writeIdx :: nat
  rg_total :: nat
  rg_seq :: int

definition NewRing :: "int \<Rightarrow> ring" where
  "NewRing capacity =
     (let n = nat (if capacity \<le> 0 then 200 else capacity)
      in \<lparr>rg_records = replicate n zero_record, rg_cap = n, rg_writeIdx = 0, rg_total = 0, rg_seq = 0\<rparr>)"

definition Ring_Write :: "log_record \<Rightarrow> ring \<Rightarrow> int \<times> ring" where
  "Ring_Write rec r =
     (let sq = rg_seq r + 1
      in (sq, r\<lparr>rg_seq := sq, rg_writeIdx := rg_writeIdx r + 1,
            rg_records := (rg_records r)[rg_writeIdx r mod rg_cap r := rec\<lparr>lr_Seq := sq\<rparr>], rg_total := rg_total r + 1\<rparr>))"

definition NextSeq :: "ring \<Rightarrow> int" where
  "NextSeq r = rg_seq r + 1"

definition Ring_Snapshot :: "ring \<Rightarrow> log_record list" where
  "Ring_Snapshot r =
     (let cnt = min (rg_total r) (rg_cap r)
      in map (\<lambda>i. rg_records r ! ((rg_total r - cnt + i) mod rg_cap r)) [0..<cnt])"

definition Ring_Since :: "int \<Rightarrow> ring \<Rightarrow> log_record list" where
  "Ring_Since afterSeq r =
     (let startIdx = (if rg_total r > rg_cap r then rg_total r - rg_cap r else 0)
      in filter (\<lambda>rec. lr_Seq rec > afterSeq) (map (\<lambda>i. rg_records r ! (i mod rg_cap r)) [startIdx..<rg_total r]))"

definition Ring_Len :: "ring \<Rightarrow> nat" where
  "Ring_Len r = (if rg_total r > rg_cap r then rg_cap r else rg_total r)"

definition Ring_Cap :: "ring \<Rightarrow> nat" where
  "Ring_Cap r = rg_cap r"

section \<open>The ring as the end of a log\<close>

definition lasts :: "nat \<Rightarrow> 'a list \<Rightarrow> 'a list" where
  "lasts n xs = drop (length xs - n) xs"

lemma lasts_Nil [simp]: "lasts n [] = []"
  by (simp add: lasts_def)

lemma lasts_id: "length xs \<le> n \<Longrightarrow> lasts n xs = xs"
  by (simp add: lasts_def)

lemma nth_drop_less: "i < length xs - n \<Longrightarrow> drop n xs ! i = xs ! (n + i)"
  by (simp add: nth_drop)

lemma length_lasts [simp]: "length (lasts n xs) = min n (length xs)"
  by (simp add: lasts_def)

lemma lasts_lasts_append: "lasts n (lasts n xs @ ys) = lasts n (xs @ ys)"
proof (cases "length ys \<le> n")
  case True
  have "length xs - min n (length xs) + (min n (length xs) + length ys - n) = length xs + length ys - n"
    if "length xs > n" using that True by simp
  then show ?thesis using True by (cases "length xs > n") (auto simp: lasts_def min_def add.commute)
next
  case False
  then show ?thesis by (simp add: lasts_def)
qed

text \<open>The log that the ring stands for: every record written so far, numbered from 1.\<close>

definition ring_log :: "log_record list \<Rightarrow> ring \<Rightarrow> bool" where
  "ring_log h r \<longleftrightarrow> rg_cap r > 0 \<and> length (rg_records r) = rg_cap r \<and> rg_writeIdx r = length h
     \<and> rg_total r = length h \<and> rg_seq r = int (length h)
     \<and> (\<forall>i < length h. lr_Seq (h ! i) = int i + 1)
     \<and> (\<forall>i < length h. length h - rg_cap r \<le> i \<longrightarrow> rg_records r ! (i mod rg_cap r) = h ! i)"

lemma ring_log_new: "ring_log [] (NewRing c)"
  by (simp add: ring_log_def NewRing_def Let_def)

lemma window_mod_inj:
  fixes i j c :: nat
  assumes "i < j" and "j < i + c"
  shows "i mod c \<noteq> j mod c"
proof
  assume "i mod c = j mod c"
  then have "c dvd j - i" using assms(1) by (metis less_imp_le mod_eq_dvd_iff_nat)
  then show False using assms by (auto dest: dvd_imp_le)
qed

lemma ring_log_write:
  assumes "ring_log h r" and w: "Ring_Write rec r = (sq, r')"
  shows "sq = int (length h) + 1 \<and> ring_log (h @ [rec\<lparr>lr_Seq := sq\<rparr>]) r' \<and> rg_cap r' = rg_cap r"
proof -
  have sq: "sq = int (length h) + 1" and r': "r' = r\<lparr>rg_seq := sq, rg_writeIdx := length h + 1,
        rg_records := (rg_records r)[length h mod rg_cap r := rec\<lparr>lr_Seq := sq\<rparr>], rg_total := length h + 1\<rparr>"
    using assms by (auto simp: ring_log_def Ring_Write_def Let_def)
  have "rg_records r' ! (i mod rg_cap r) = (h @ [rec\<lparr>lr_Seq := sq\<rparr>]) ! i"
    if i: "i < length h + 1" "length h + 1 - rg_cap r \<le> i" for i
  proof (cases "i = length h")
    case True
    then show ?thesis using assms(1) r' by (simp add: ring_log_def)
  next
    case False
    then have "i mod rg_cap r \<noteq> length h mod rg_cap r" using i by (intro window_mod_inj) auto
    then show ?thesis using False i assms(1) r' by (simp add: ring_log_def nth_append)
  qed
  then show ?thesis using assms(1) sq r' by (auto simp: ring_log_def nth_append)
qed

lemma ring_slots: "ring_log h r \<Longrightarrow>
    map (\<lambda>i. rg_records r ! (i mod rg_cap r)) [length h - rg_cap r..<length h] = lasts (rg_cap r) h"
  by (rule nth_equalityI) (auto simp: ring_log_def lasts_def)

lemma Ring_Since_log: "ring_log h r \<Longrightarrow> Ring_Since a r = filter (\<lambda>rec. lr_Seq rec > a) (lasts (rg_cap r) h)"
proof -
  assume l: "ring_log h r"
  then have "(if rg_total r > rg_cap r then rg_total r - rg_cap r else 0) = length h - rg_cap r" "rg_total r = length h"
    by (auto simp: ring_log_def)
  then show ?thesis unfolding Ring_Since_def Let_def by (simp only: ring_slots [OF l])
qed

lemma Ring_Snapshot_log: "ring_log h r \<Longrightarrow> Ring_Snapshot r = lasts (rg_cap r) h"
proof -
  assume l: "ring_log h r"
  then have t: "rg_total r = length h" by (simp add: ring_log_def)
  have "[length h - min (length h) (rg_cap r)..<length h] = map (\<lambda>i. length h - min (length h) (rg_cap r) + i) [0..<min (length h) (rg_cap r)]"
    by (rule nth_equalityI) auto
  moreover have "length h - min (length h) (rg_cap r) = length h - rg_cap r" by simp
  ultimately show ?thesis
    unfolding Ring_Snapshot_def Let_def t using ring_slots [OF l] by (simp add: comp_def)
qed

text \<open>Writing one record after another.\<close>

fun write_all :: "log_record list \<Rightarrow> ring \<Rightarrow> ring" where
  "write_all [] r = r"
| "write_all (rec # recs) r = write_all recs (snd (Ring_Write rec r))"

fun number_from :: "int \<Rightarrow> log_record list \<Rightarrow> log_record list" where
  "number_from n [] = []"
| "number_from n (rec # recs) = rec\<lparr>lr_Seq := n\<rparr> # number_from (n + 1) recs"

lemma length_number_from [simp]: "length (number_from n recs) = length recs"
  by (induction n recs rule: number_from.induct) auto

lemma ring_log_write_all:
  "ring_log h r \<Longrightarrow> ring_log (h @ number_from (int (length h) + 1) recs) (write_all recs r) \<and> rg_cap (write_all recs r) = rg_cap r"
proof (induction recs arbitrary: h r)
  case (Cons rec recs)
  obtain sq r' where w: "Ring_Write rec r = (sq, r')" by (rule that) (rule prod.collapse [symmetric])
  have s: "sq = int (length h) + 1" "ring_log (h @ [rec\<lparr>lr_Seq := sq\<rparr>]) r'" "rg_cap r' = rg_cap r"
    using ring_log_write [OF Cons.prems w] by auto
  then show ?case using Cons.IH [OF s(2)] w by (simp add: add.commute)
qed simp

text \<open>C19: The ring refines the end of an unbounded log: after any writes, a snapshot is exactly the last
  records written, as many as the capacity, oldest first and numbered without gaps, and asking for what came
  after a sequence number returns those of them with larger numbers.\<close>

theorem ring_refines_log:
  "Ring_Cap (NewRing c) = nat (if c \<le> 0 then 200 else c)
     \<and> Ring_Snapshot (write_all recs (NewRing c)) = lasts (Ring_Cap (NewRing c)) (number_from 1 recs)
     \<and> Ring_Since a (write_all recs (NewRing c)) = filter (\<lambda>rec. lr_Seq rec > a) (lasts (Ring_Cap (NewRing c)) (number_from 1 recs))
     \<and> Ring_Len (write_all recs (NewRing c)) = min (Ring_Cap (NewRing c)) (length recs)"
proof -
  have l: "ring_log (number_from 1 recs) (write_all recs (NewRing c))" "rg_cap (write_all recs (NewRing c)) = rg_cap (NewRing c)"
    using ring_log_write_all [OF ring_log_new [of c], of recs] by auto
  then have "rg_total (write_all recs (NewRing c)) = length recs" by (simp add: ring_log_def)
  then show ?thesis using Ring_Since_log [OF l(1), of a] Ring_Snapshot_log [OF l(1)] l(2)
    by (simp add: Ring_Len_def Ring_Cap_def NewRing_def Let_def)
qed

section \<open>Reading on from a sequence number\<close>

text \<open>A source of numbered records that can be read from a sequence number on, and forgets all but the last
  ones. The hub and the clients that reconnect rely on these laws only.\<close>

locale log_source =
  fixes log :: "log_record list \<Rightarrow> 's \<Rightarrow> bool"
    and since :: "int \<Rightarrow> 's \<Rightarrow> log_record list"
    and room :: "'s \<Rightarrow> nat"
  assumes numbered: "log h s \<Longrightarrow> i < length h \<Longrightarrow> lr_Seq (h ! i) = int i + 1"
    and since_window: "log h s \<Longrightarrow> since a s = filter (\<lambda>rec. lr_Seq rec > a) (lasts (room s) h)"
begin

lemma after_position:
  assumes "log h s" and "k \<le> length h"
  shows "filter (\<lambda>rec. lr_Seq rec > int k) (drop m h) = drop (max k m) h"
proof -
  let ?old = "take (max k m - m) (drop m h)"
  have "drop m h = ?old @ drop (max k m) h"
    using append_take_drop_id [of "max k m - m" "drop m h"] by simp
  moreover have "lr_Seq rec \<le> int k" if mem: "rec \<in> set ?old" for rec
  proof -
    obtain i where i: "i < length ?old" "?old ! i = rec" using mem unfolding in_set_conv_nth by blast
    have "i < k - m" "m + i < length h" using i(1) by (auto simp: max_def min_def split: if_splits)
    moreover have "rec = h ! (m + i)" using i by (auto simp: nth_drop_less)
    ultimately show ?thesis using numbered [OF assms(1), of "m + i"] by simp
  qed
  then have "filter (\<lambda>rec. lr_Seq rec > int k) ?old = []"
    by (force simp: filter_empty_conv)
  moreover have "filter (\<lambda>rec. lr_Seq rec > int k) (drop (max k m) h) = drop (max k m) h"
    using numbered [OF assms(1)] by (auto simp: filter_id_conv in_set_conv_nth nth_drop_less)
  ultimately show ?thesis by (metis append_Nil filter_append)
qed

lemma since_position:
  assumes "log h s" and "k \<le> length h"
  shows "since (int k) s = lasts (room s) (drop k h)"
proof -
  have "max k (length h - room s) = (length h - k - room s) + k" using assms(2) by simp
  then show ?thesis
    using after_position [OF assms, of "length h - room s"] since_window [OF assms(1), of "int k"]
    by (simp add: lasts_def)
qed

lemma nothing_missed: "log h s \<Longrightarrow> k \<le> length h \<Longrightarrow> length h - k \<le> room s \<Longrightarrow> take k h @ since (int k) s = h"
  by (simp add: since_position lasts_id)

end

interpretation ring_source: log_source ring_log Ring_Since rg_cap
  by unfold_locales (simp_all add: Ring_Since_log, simp add: ring_log_def)

section \<open>Subscribers\<close>

record sub_filter =
  sf_Levels :: "string set"
  sf_Components :: "string set"
  sf_Sources :: "string set"

record subscriber =
  su_id :: int
  su_ch :: "log_record list"
  su_size :: nat
  su_filters :: sub_filter
  su_closed :: bool

definition NewSubscriber :: "int \<Rightarrow> sub_filter \<Rightarrow> subscriber" where
  "NewSubscriber bufferSize filters =
     \<lparr>su_id = 0, su_ch = [], su_size = nat (if bufferSize \<le> 0 then 1000 else bufferSize), su_filters = filters, su_closed = False\<rparr>"

definition Matches :: "subscriber \<Rightarrow> log_record \<Rightarrow> bool" where
  "Matches s rec \<longleftrightarrow>
     (if sf_Levels (su_filters s) \<noteq> {} \<and> lr_Level rec \<notin> sf_Levels (su_filters s) then False
      else if sf_Components (su_filters s) \<noteq> {} \<and> lr_Component rec \<notin> sf_Components (su_filters s) then False
      else if sf_Sources (su_filters s) \<noteq> {} \<and> lr_Source rec \<notin> sf_Sources (su_filters s) then False
      else True)"

definition Subscriber_Close :: "subscriber \<Rightarrow> subscriber" where
  "Subscriber_Close s = s\<lparr>su_closed := True\<rparr>"

definition send :: "log_record \<Rightarrow> subscriber \<Rightarrow> bool \<times> subscriber" where
  "send data s =
     (if su_closed s then (False, s)
      else if length (su_ch s) < su_size s then (True, s\<lparr>su_ch := su_ch s @ [data]\<rparr>)
      else
        let s1 = s\<lparr>su_ch := tl (su_ch s)\<rparr> in
        if length (su_ch s1) < su_size s then (True, s1\<lparr>su_ch := su_ch s1 @ [data]\<rparr>) else (False, s1))"

definition open_sub :: "subscriber \<Rightarrow> bool" where
  "open_sub s \<longleftrightarrow> \<not> su_closed s \<and> 0 < su_size s \<and> length (su_ch s) \<le> su_size s"

lemma send_open: "open_sub s \<Longrightarrow> send data s = (True, s\<lparr>su_ch := lasts (su_size s) (su_ch s @ [data])\<rparr>)"
  by (cases "su_ch s") (auto simp: send_def open_sub_def lasts_def Let_def)

lemma NewSubscriber_open: "open_sub (NewSubscriber n f)"
  by (simp add: open_sub_def NewSubscriber_def)

text \<open>What a subscriber gets of a list of records: those that can be encoded and pass its filters.\<close>

definition feed_one :: "log_record \<Rightarrow> subscriber \<Rightarrow> subscriber" where
  "feed_one rec s = (if marshalable rec \<and> Matches s rec then snd (send rec s) else s)"

definition wanted :: "subscriber \<Rightarrow> log_record list \<Rightarrow> log_record list" where
  "wanted s recs = filter (\<lambda>rec. marshalable rec \<and> Matches s rec) recs"

lemma feed:
  "open_sub s \<Longrightarrow> fold feed_one recs s = s\<lparr>su_ch := lasts (su_size s) (su_ch s @ wanted s recs)\<rparr>"
proof (induction recs arbitrary: s)
  case Nil
  then show ?case by (simp add: wanted_def open_sub_def lasts_id)
next
  case (Cons rec recs)
  have w: "wanted (s\<lparr>su_ch := c\<rparr>) xs = wanted s xs" for c xs by (simp add: wanted_def Matches_def)
  show ?case
  proof (cases "marshalable rec \<and> Matches s rec")
    case True
    have o': "open_sub (s\<lparr>su_ch := lasts (su_size s) (su_ch s @ [rec])\<rparr>)" using Cons.prems by (auto simp: open_sub_def)
    show ?thesis using True Cons.IH [OF o'] w
      by (simp add: feed_one_def send_open [OF Cons.prems] lasts_lasts_append) (simp add: wanted_def)
  next
    case False
    then show ?thesis using Cons.IH [OF Cons.prems] by (auto simp: feed_one_def wanted_def)
  qed
qed

section \<open>The hub\<close>

record hub =
  hb_ring :: ring
  hb_subscribers :: "int \<Rightarrow> subscriber option"
  hb_nextID :: int
  hb_stopped :: bool
  hb_notify :: "int list"

definition NewHub :: "ring \<Rightarrow> hub" where
  "NewHub r = \<lparr>hb_ring = r, hb_subscribers = Map.empty, hb_nextID = 0, hb_stopped = False, hb_notify = []\<rparr>"

definition Subscribe :: "sub_filter \<Rightarrow> hub \<Rightarrow> (subscriber \<times> int) \<times> hub" where
  "Subscribe filters h =
     (let sid = hb_nextID h + 1; sub = (NewSubscriber 1000 filters)\<lparr>su_id := sid\<rparr>
      in ((sub, NextSeq (hb_ring h) - 1), h\<lparr>hb_nextID := sid, hb_subscribers := (hb_subscribers h)(sid \<mapsto> sub)\<rparr>))"

text \<open>The removed subscriber, now closed, is what its reader still holds.\<close>

definition Unsubscribe :: "int \<Rightarrow> hub \<Rightarrow> subscriber option \<times> hub" where
  "Unsubscribe sid h =
     (case hb_subscribers h sid of
        Some sub \<Rightarrow> (Some (Subscriber_Close sub), h\<lparr>hb_subscribers := (hb_subscribers h)(sid := None)\<rparr>)
      | None \<Rightarrow> (None, h))"

definition Subscribers :: "hub \<Rightarrow> nat" where
  "Subscribers h = card (dom (hb_subscribers h))"

definition Notify :: "int \<Rightarrow> hub \<Rightarrow> hub" where
  "Notify sq h = (if length (hb_notify h) < 256 then h\<lparr>hb_notify := hb_notify h @ [sq]\<rparr> else h)"

definition fanout :: "int \<Rightarrow> hub \<Rightarrow> hub" where
  "fanout afterSeq h =
     (let records = Ring_Since (afterSeq - 1) (hb_ring h) in
      if records = [] then h
      else h\<lparr>hb_subscribers := (\<lambda>i. map_option (fold feed_one records) (hb_subscribers h i))\<rparr>)"

text \<open>One turn of the event loop; without a notification, or once stopped, it does nothing.\<close>

definition Hub_Run_step :: "hub \<Rightarrow> hub" where
  "Hub_Run_step h =
     (if hb_stopped h then h
      else case hb_notify h of [] \<Rightarrow> h | sq # rest \<Rightarrow> fanout sq (h\<lparr>hb_notify := rest\<rparr>))"

definition Replay :: "int \<Rightarrow> int \<Rightarrow> hub \<Rightarrow> hub" where
  "Replay sid afterSeq h =
     h\<lparr>hb_subscribers := (hb_subscribers h)
         (sid := map_option (fold feed_one (Ring_Since afterSeq (hb_ring h))) (hb_subscribers h sid))\<rparr>"

text \<open>Stopping twice closes a closed channel and panics.\<close>

definition Hub_Stop :: "hub \<Rightarrow> hub option" where
  "Hub_Stop h = (if hb_stopped h then None else Some (h\<lparr>hb_stopped := True, hb_subscribers := Map.empty\<rparr>))"

section \<open>The request side\<close>

definition parseFilterSet :: "string \<Rightarrow> string set" where
  "parseFilterSet s =
     (if s = [] then {}
      else set (map to_lower (filter (\<lambda>p. p \<noteq> []) (map trim_space (split_on CHR '','' s)))))"

record sse_request =
  sr_Method :: string
  sr_Accept :: string
  sr_Flushable :: bool
  sr_level :: string
  sr_component :: string
  sr_source :: string
  sr_LastEventID :: string

text \<open>Up to the event loop: the subscriber's identifier and the replay that the client asked for.\<close>

definition ServeHTTP_open :: "sse_request \<Rightarrow> hub \<Rightarrow> int reply \<times> hub" where
  "ServeHTTP_open r h =
     (if sr_Method r \<noteq> ''GET'' then (ErrorResponse 405 ''method not allowed'', h)
      else if sr_Accept r \<noteq> [] \<and> \<not> contains (sr_Accept r) ''text/event-stream'' \<and> \<not> contains (sr_Accept r) ''*/*''
      then (ErrorResponse 415 ''unsupported media type'', h)
      else if \<not> sr_Flushable r then (ErrorResponse 500 ''streaming not supported'', h)
      else
        let filters = \<lparr>sf_Levels = parseFilterSet (sr_level r), sf_Components = parseFilterSet (sr_component r),
                       sf_Sources = parseFilterSet (sr_source r)\<rparr>;
            ((sub, _), h1) = Subscribe filters h
        in (JSONResponse 200 (su_id sub),
            if sr_LastEventID r = [] then h1
            else case Atoi (sr_LastEventID r) of Some afterSeq \<Rightarrow> Replay (su_id sub) afterSeq h1 | None \<Rightarrow> h1))"

text \<open>The bytes of one event: no \<open>id\<close> line, so a client is never told the sequence number it has reached.\<close>

definition writeSSE :: "string \<Rightarrow> string \<Rightarrow> string" where
  "writeSSE eventType dataJSON = ''event: '' @ eventType @ [char_of (10::nat)] @ ''data: '' @ dataJSON @ [char_of (10::nat), char_of (10::nat)]"

section \<open>What subscribers receive\<close>

lemma fanout_channel:
  assumes "hb_subscribers h i = Some s" and "open_sub s"
  shows "hb_subscribers (fanout a h) i
    = Some (s\<lparr>su_ch := lasts (su_size s) (su_ch s @ wanted s (Ring_Since (a - 1) (hb_ring h)))\<rparr>)"
  using assms feed [OF assms(2)] by (auto simp: fanout_def Let_def wanted_def open_sub_def lasts_id)

lemma fanout_other [simp]:
  "hb_ring (fanout a h) = hb_ring h" "hb_notify (fanout a h) = hb_notify h" "hb_stopped (fanout a h) = hb_stopped h"
  by (simp_all add: fanout_def Let_def)

text \<open>The writer's side of an event: store the record, then notify the hub.\<close>

definition log_event :: "log_record \<Rightarrow> hub \<Rightarrow> hub" where
  "log_event rec h = (let (sq, r) = Ring_Write rec (hb_ring h) in Notify sq (h\<lparr>hb_ring := r\<rparr>))"

lemma log_event_step:
  assumes "ring_log hist (hb_ring h)" and "length (hb_notify h) < 256"
  shows "ring_log (hist @ [rec\<lparr>lr_Seq := int (length hist) + 1\<rparr>]) (hb_ring (log_event rec h))
    \<and> rg_cap (hb_ring (log_event rec h)) = rg_cap (hb_ring h)
    \<and> hb_notify (log_event rec h) = hb_notify h @ [int (length hist) + 1]
    \<and> hb_subscribers (log_event rec h) = hb_subscribers h \<and> hb_stopped (log_event rec h) = hb_stopped h"
proof -
  obtain sq r where w: "Ring_Write rec (hb_ring h) = (sq, r)" by (rule that) (rule prod.collapse [symmetric])
  have sq: "sq = int (length hist) + 1" using ring_log_write [OF assms(1) w] by blast
  show ?thesis using ring_log_write [OF assms(1) w, unfolded sq] w [unfolded sq] assms(2) by (simp add: log_event_def Notify_def)
qed

lemma wanted_append: "wanted s (xs @ ys) = wanted s xs @ wanted s ys"
  by (simp add: wanted_def)

lemma wanted_ch [simp]: "wanted (s\<lparr>su_ch := c\<rparr>) xs = wanted s xs"
  by (simp add: wanted_def Matches_def)

lemma log_events_burst:
  assumes "ring_log hist (hb_ring h)" and "length (hb_notify h) + length recs \<le> 256"
  shows "ring_log (hist @ number_from (int (length hist) + 1) recs) (hb_ring (fold log_event recs h))
    \<and> rg_cap (hb_ring (fold log_event recs h)) = rg_cap (hb_ring h)
    \<and> hb_notify (fold log_event recs h) = hb_notify h @ map (\<lambda>k. int k + 1) [length hist..<length hist + length recs]
    \<and> hb_subscribers (fold log_event recs h) = hb_subscribers h \<and> hb_stopped (fold log_event recs h) = hb_stopped h"
  using assms
proof (induction recs arbitrary: hist h)
  case (Cons rec recs)
  let ?h = "log_event rec h" and ?hist = "hist @ [rec\<lparr>lr_Seq := int (length hist) + 1\<rparr>]"
  have st: "ring_log ?hist (hb_ring ?h)" "rg_cap (hb_ring ?h) = rg_cap (hb_ring h)"
      "hb_notify ?h = hb_notify h @ [int (length hist) + 1]" "hb_subscribers ?h = hb_subscribers h" "hb_stopped ?h = hb_stopped h"
    using log_event_step [OF Cons.prems(1), of rec] Cons.prems(2) by auto
  have "[length hist..<length hist + length (rec # recs)] = length hist # [length ?hist..<length ?hist + length recs]"
    by (simp add: upt_rec)
  then show ?case using Cons.IH [OF st(1)] Cons.prems(2) st by (simp add: add.commute)
qed simp

lemma drain_notifications:
  assumes "ring_log hist (hb_ring h)" and "\<not> hb_stopped h" and "hb_notify h = map (\<lambda>k. int k + 1) ks"
    and "\<forall>k \<in> set ks. k \<le> length hist" and "hb_subscribers h i = Some s" and "open_sub s"
  shows "hb_subscribers ((Hub_Run_step ^^ length ks) h) i = Some (s\<lparr>su_ch := lasts (su_size s)
    (su_ch s @ wanted s (concat (map (\<lambda>k. lasts (rg_cap (hb_ring h)) (drop k hist)) ks)))\<rparr>)"
  using assms
proof (induction ks arbitrary: h s)
  case Nil
  then show ?case by (simp add: wanted_def open_sub_def lasts_id)
next
  case (Cons k ks)
  let ?h = "fanout (int k + 1) (h\<lparr>hb_notify := map (\<lambda>k. int k + 1) ks\<rparr>)"
  let ?w = "wanted s (lasts (rg_cap (hb_ring h)) (drop k hist))"
  let ?s = "s\<lparr>su_ch := lasts (su_size s) (su_ch s @ ?w)\<rparr>"
  have step: "Hub_Run_step h = ?h" using Cons.prems(2,3) by (simp add: Hub_Run_step_def)
  have "hb_subscribers ?h i = Some ?s"
    using fanout_channel [of "h\<lparr>hb_notify := map (\<lambda>k. int k + 1) ks\<rparr>" i s "int k + 1"] Cons.prems(4-6)
      ring_source.since_position [OF Cons.prems(1)] by simp
  moreover have "open_sub ?s" using Cons.prems(6) by (auto simp: open_sub_def)
  ultimately have "hb_subscribers ((Hub_Run_step ^^ length ks) ?h) i = Some (?s\<lparr>su_ch := lasts (su_size ?s)
      (su_ch ?s @ wanted ?s (concat (map (\<lambda>k. lasts (rg_cap (hb_ring h)) (drop k hist)) ks)))\<rparr>)"
    using Cons.IH [of ?h ?s] Cons.prems(1,2,4) by simp
  then show ?case using step by (simp add: funpow_Suc_right del: funpow.simps) (simp add: lasts_lasts_append wanted_append)
qed

text \<open>The hub delivers a record as often as notifications were waiting when it was written, plus one. When a
  burst of records is logged before the event loop runs, each notification makes it send every record from its
  own to the newest, so of \<open>n\<close> records the first is sent once and the last \<open>n\<close> times; a subscriber keeps the
  last of these that its buffer holds.\<close>

theorem burst_repeats_records:
  assumes "ring_log hist (hb_ring h)" and "\<not> hb_stopped h" and "hb_notify h = []" and "length recs \<le> 256"
    and "length recs \<le> rg_cap (hb_ring h)" and "hb_subscribers h i = Some s" and "open_sub s"
  shows "\<exists>s'. hb_subscribers ((Hub_Run_step ^^ length recs) (fold log_event recs h)) i = Some s'
    \<and> su_ch s' = lasts (su_size s) (su_ch s @ wanted s (concat (map (\<lambda>k. drop k (number_from (int (length hist) + 1) recs)) [0..<length recs])))"
proof -
  let ?new = "number_from (int (length hist) + 1) recs" and ?h = "fold log_event recs h"
  let ?ks = "[length hist..<length hist + length recs]"
  have b: "ring_log (hist @ ?new) (hb_ring ?h)" "rg_cap (hb_ring ?h) = rg_cap (hb_ring h)" "hb_notify ?h = map (\<lambda>k. int k + 1) ?ks"
      "hb_subscribers ?h = hb_subscribers h" "hb_stopped ?h = hb_stopped h"
    using log_events_burst [OF assms(1), of recs] assms(3,4) by simp_all
  have "map (\<lambda>k. lasts (rg_cap (hb_ring h)) (drop k (hist @ ?new))) ?ks = map (\<lambda>k. drop k ?new) [0..<length recs]"
    using assms(5) by (intro nth_equalityI) (auto simp: lasts_id)
  then show ?thesis
    using drain_notifications [OF b(1) _ b(3), of i s] b(2,4,5) assms(2,6,7) by simp
qed

text \<open>When the event loop runs after every record, a subscriber receives each record that passes its filters
  exactly once and in order.\<close>

theorem prompt_hub_delivers_once:
  assumes "ring_log hist (hb_ring h)" and "\<not> hb_stopped h" and "hb_notify h = []" and "hb_subscribers h i = Some s" and "open_sub s"
  shows "\<exists>s'. hb_subscribers (fold (\<lambda>rec. Hub_Run_step \<circ> log_event rec) recs h) i = Some s'
    \<and> su_ch s' = lasts (su_size s) (su_ch s @ wanted s (number_from (int (length hist) + 1) recs))"
  using assms
proof (induction recs arbitrary: hist h s)
  case Nil
  then show ?case by (simp add: wanted_def open_sub_def lasts_id)
next
  case (Cons rec recs)
  let ?rec = "rec\<lparr>lr_Seq := int (length hist) + 1\<rparr>" and ?h = "Hub_Run_step (log_event rec h)"
  have st: "ring_log (hist @ [?rec]) (hb_ring (log_event rec h))" "rg_cap (hb_ring (log_event rec h)) = rg_cap (hb_ring h)"
      "hb_notify (log_event rec h) = map (\<lambda>k. int k + 1) [length hist]"
      "hb_subscribers (log_event rec h) = hb_subscribers h" "hb_stopped (log_event rec h) = hb_stopped h"
    using log_event_step [OF Cons.prems(1), of rec] Cons.prems(3) by simp_all
  let ?s = "s\<lparr>su_ch := lasts (su_size s) (su_ch s @ wanted s [?rec])\<rparr>"
  have c: "0 < rg_cap (hb_ring h)" using Cons.prems(1) by (simp add: ring_log_def)
  have "hb_subscribers ?h i = Some ?s"
    using drain_notifications [OF st(1) _ st(3), of i s] st Cons.prems(2,4,5) c by (simp add: lasts_id)
  moreover have "hb_notify ?h = []" "\<not> hb_stopped ?h" "hb_ring ?h = hb_ring (log_event rec h)"
    using st Cons.prems(2) by (simp_all add: Hub_Run_step_def)
  moreover have "open_sub ?s" using Cons.prems(5) by (auto simp: open_sub_def)
  ultimately show ?case
    using Cons.IH [of "hist @ [?rec]" ?h ?s] st(1)
    by (simp add: lasts_lasts_append) (simp add: wanted_append [symmetric] add.commute)
qed

text \<open>A client that reconnects with the sequence number it has reached gets what it missed: the records with
  larger numbers that pass its filters, in order, as far as the ring and the buffer still hold them.\<close>

theorem reconnect_replays_missed:
  assumes "ring_log hist (hb_ring h)" and "k \<le> length hist" and "length hist < 2 ^ 63"
    and "sr_Method r = ''GET''" and "sr_Accept r = []" and "sr_Flushable r" and "sr_LastEventID r = show_int (int k)"
  shows "\<exists>s. fst (ServeHTTP_open r h) = JSONResponse 200 (su_id s) \<and> hb_subscribers (snd (ServeHTTP_open r h)) (su_id s) = Some s
    \<and> su_ch s = lasts 1000 (wanted s (lasts (rg_cap (hb_ring h)) (drop k hist)))"
proof -
  let ?f = "\<lparr>sf_Levels = parseFilterSet (sr_level r), sf_Components = parseFilterSet (sr_component r), sf_Sources = parseFilterSet (sr_source r)\<rparr>"
  let ?s = "(NewSubscriber 1000 ?f)\<lparr>su_id := hb_nextID h + 1\<rparr>"
  have "show_int (int k) \<noteq> []" using parse_int_show_int [of "int k"] by (auto simp: parse_int_def)
  moreover have "Atoi (show_int (int k)) = Some (int k)" using assms(2,3) by (intro Atoi_show_int) auto
  moreover have "open_sub ?s" by (simp add: open_sub_def NewSubscriber_def)
  ultimately show ?thesis
    using assms(4-7) ring_source.since_position [OF assms(1,2)] feed [of ?s "Ring_Since (int k) (hb_ring h)"]
    by (intro exI [of _ "?s\<lparr>su_ch := lasts 1000 (wanted ?s (lasts (rg_cap (hb_ring h)) (drop k hist)))\<rparr>"])
       (simp add: ServeHTTP_open_def Subscribe_def Replay_def Let_def NewSubscriber_def wanted_def Matches_def)
qed

section \<open>Examples\<close>

definition plain_record :: "string \<Rightarrow> log_record" where
  "plain_record m = zero_record\<lparr>lr_Level := ''info'', lr_Msg := m\<rparr>"

definition sample_hub :: hub where
  "sample_hub = snd (Subscribe \<lparr>sf_Levels = {}, sf_Components = {}, sf_Sources = {}\<rparr> (NewHub (NewRing 3)))"

definition sample_sub :: subscriber where
  "sample_sub = (NewSubscriber 1000 \<lparr>sf_Levels = {}, sf_Components = {}, sf_Sources = {}\<rparr>)\<lparr>su_id := 1\<rparr>"

lemma sample_hub_facts:
  "ring_log [] (hb_ring sample_hub)" "\<not> hb_stopped sample_hub" "hb_notify sample_hub = []"
  "hb_subscribers sample_hub 1 = Some sample_sub" "open_sub sample_sub" "rg_cap (hb_ring sample_hub) = 3"
  by (simp_all add: sample_hub_def sample_sub_def Subscribe_def NewHub_def ring_log_new open_sub_def NewSubscriber_def Let_def)
     (simp add: NewRing_def Let_def)

lemma sample_wanted: "wanted sample_sub xs = filter marshalable xs"
  by (simp add: wanted_def Matches_def sample_sub_def NewSubscriber_def)

lemma sample_ch: "su_ch sample_sub = []" "su_size sample_sub = 1000"
  by (simp_all add: sample_sub_def NewSubscriber_def)

lemma plain_marshalable [simp]: "marshalable (plain_record m\<lparr>lr_Seq := n\<rparr>)"
  by (simp add: marshalable_def plain_record_def zero_record_def)

theorem burst_repeats_records_witness:
  "\<exists>s. hb_subscribers ((Hub_Run_step ^^ 2) (fold log_event [plain_record ''a'', plain_record ''b''] sample_hub)) 1 = Some s
     \<and> map (\<lambda>r. (lr_Msg r, lr_Seq r)) (su_ch s) = [(''a'', 1), (''b'', 2), (''b'', 2)]"
proof -
  have two: "[0..<2] = [0, 1::nat]" by (simp add: upt_rec)
  show ?thesis
    using burst_repeats_records [OF sample_hub_facts(1-3) _ _ sample_hub_facts(4,5), of "[plain_record ''a'', plain_record ''b'']"]
    by (auto simp: sample_hub_facts(6) sample_wanted sample_ch two lasts_def numeral_2_eq_2) (auto simp: plain_record_def)
qed

theorem prompt_hub_delivers_once_witness:
  "\<exists>s. hb_subscribers (fold (\<lambda>rec. Hub_Run_step \<circ> log_event rec) [plain_record ''a'', plain_record ''b''] sample_hub) 1 = Some s
     \<and> map (\<lambda>r. (lr_Msg r, lr_Seq r)) (su_ch s) = [(''a'', 1), (''b'', 2)]"
  using prompt_hub_delivers_once [OF sample_hub_facts(1-5), of "[plain_record ''a'', plain_record ''b'']"]
  by (auto simp: sample_wanted sample_ch lasts_def) (auto simp: plain_record_def)

theorem reconnect_replays_missed_witness:
  "\<exists>s. hb_subscribers (snd (ServeHTTP_open \<lparr>sr_Method = ''GET'', sr_Accept = [], sr_Flushable = True, sr_level = [], sr_component = [],
       sr_source = [], sr_LastEventID = ''1''\<rparr> (NewHub (write_all [plain_record ''a'', plain_record ''b''] (NewRing 3))))) (su_id s) = Some s
     \<and> map lr_Msg (su_ch s) = [''b'']"
proof -
  let ?hist = "number_from 1 [plain_record ''a'', plain_record ''b'']"
  let ?h = "NewHub (write_all [plain_record ''a'', plain_record ''b''] (NewRing 3))"
  let ?r = "\<lparr>sr_Method = ''GET'', sr_Accept = [], sr_Flushable = True, sr_level = [], sr_component = [], sr_source = [], sr_LastEventID = ''1''\<rparr>"
  have l: "ring_log ?hist (hb_ring ?h)" "rg_cap (hb_ring ?h) = 3"
    using ring_log_write_all [OF ring_log_new [of 3], of "[plain_record ''a'', plain_record ''b'']"]
    by (simp_all add: NewHub_def) (simp add: NewRing_def Let_def)
  have "show_int (int 1) = ''1''" using show_nat.simps [of 1] by (simp add: show_int_def char_of_def bit_iff_odd)
  then obtain s where s: "hb_subscribers (snd (ServeHTTP_open ?r ?h)) (su_id s) = Some s"
      "su_ch s = lasts 1000 (wanted s (lasts 3 (drop 1 ?hist)))" "fst (ServeHTTP_open ?r ?h) = JSONResponse 200 (su_id s)"
    using reconnect_replays_missed [OF l(1), of 1 ?r] l(2) by auto
  have "su_filters s = \<lparr>sf_Levels = {}, sf_Components = {}, sf_Sources = {}\<rparr>"
    using s(1,3) by (auto simp: ServeHTTP_open_def Subscribe_def Replay_def Let_def parseFilterSet_def NewHub_def NewSubscriber_def
        feed open_sub_def Atoi_def parse_int_def is_digit_def split: option.splits)
  then show ?thesis using s(1,2) by (intro exI [of _ s]) (simp add: lasts_def wanted_def Matches_def, simp add: plain_record_def)
qed

end
