(* ===== verification/Log_Handler.thy ===== *)
theory Log_Handler
  imports Log_Fields
begin

text \<open>
  The structured log handler (\<open>logger/handler.go\<close>): rotation by date and by size, the write of one record to
  the file, to standard output and to the ring, degradation when writes fail, and the copies that
  \<open>WithAttrs\<close> and \<open>WithGroup\<close> make. Files are inodes, so that a renamed file and an open handle behave as
  the system's. The clock and the system's answers are the environment of a call; \<open>encoding/json\<close> is a
  parameter that renders a record as its line.
\<close>

section \<open>Files\<close>

record open_file =
  of_name :: string
  of_inode :: nat
  of_open :: bool

record log_fs =
  fs_names :: "string \<Rightarrow> nat option"
  fs_data :: "nat \<Rightarrow> string"
  fs_next :: nat
  fs_handles :: "open_file list"

record log_world =
  lw_fs :: log_fs
  lw_ring :: "ring option"
  lw_stdout :: "string list"

record log_env =
  le_today :: string
  le_ts :: string
  le_open_ok :: bool
  le_stat_ok :: bool
  le_rename_ok :: bool
  le_written :: "nat option"

text \<open>Opening for append creates the file when it does not exist and yields a new handle.\<close>

definition OpenFile :: "string \<Rightarrow> log_fs \<Rightarrow> nat \<times> log_fs" where
  "OpenFile name fs =
     (let fd = length (fs_handles fs) in
      case fs_names fs name of
        Some i \<Rightarrow> (fd, fs\<lparr>fs_handles := fs_handles fs @ [\<lparr>of_name = name, of_inode = i, of_open = True\<rparr>]\<rparr>)
      | None \<Rightarrow>
          (fd, fs\<lparr>fs_names := (fs_names fs)(name \<mapsto> fs_next fs), fs_data := (fs_data fs)(fs_next fs := []), fs_next := fs_next fs + 1,
                 fs_handles := fs_handles fs @ [\<lparr>of_name = name, of_inode = fs_next fs, of_open = True\<rparr>]\<rparr>))"

definition CloseFile :: "nat \<Rightarrow> log_fs \<Rightarrow> log_fs" where
  "CloseFile fd fs = fs\<lparr>fs_handles := (fs_handles fs)[fd := (fs_handles fs ! fd)\<lparr>of_open := False\<rparr>]\<rparr>"

definition RenameFile :: "string \<Rightarrow> string \<Rightarrow> log_fs \<Rightarrow> log_fs option" where
  "RenameFile old new fs = map_option (\<lambda>i. fs\<lparr>fs_names := (fs_names fs)(old := None, new \<mapsto> i)\<rparr>) (fs_names fs old)"

text \<open>The bytes written and whether the write failed; a closed handle takes none.\<close>

definition WriteFile :: "nat option \<Rightarrow> nat \<Rightarrow> string \<Rightarrow> log_fs \<Rightarrow> (nat \<times> bool) \<times> log_fs" where
  "WriteFile written fd line fs =
     (let f = fs_handles fs ! fd in
      if \<not> of_open f then ((0, True), fs)
      else
        let n = (case written of None \<Rightarrow> length line | Some n \<Rightarrow> min n (length line))
        in ((n, written \<noteq> None), fs\<lparr>fs_data := (fs_data fs)(of_inode f := fs_data fs (of_inode f) @ take n line)\<rparr>))"

section \<open>Handlers\<close>

record log_handler =
  hd_filter :: "level_filter option"
  hd_seq :: int
  hd_attrs :: "(string \<times> attr_value) list"
  hd_groups :: "string list"
  hd_comp :: string
  hd_src :: string
  hd_logDir :: string
  hd_baseName :: string
  hd_date :: string
  hd_maxSize :: int
  hd_file :: "nat option"
  hd_fileSize :: int
  hd_stdout :: bool
  hd_degrade :: int
  hd_alert :: "bool option"

text \<open>The alert channel holds at most one signal; the copies have none, and sending to it does nothing.\<close>

definition signal_alert :: "log_handler \<Rightarrow> log_handler" where
  "signal_alert h = h\<lparr>hd_alert := map_option (\<lambda>_. True) (hd_alert h)\<rparr>"

definition log_path :: "log_handler \<Rightarrow> string \<Rightarrow> string" where
  "log_path h name = hd_logDir h @ ''/'' @ name"

definition openNewFile :: "log_env \<Rightarrow> log_handler \<times> log_fs \<Rightarrow> bool \<times> log_handler \<times> log_fs" where
  "openNewFile e s =
     (case s of (h, fs) \<Rightarrow>
       let h1 = h\<lparr>hd_date := le_today e\<rparr>;
           filename = log_path h1 (hd_baseName h1 @ ''-'' @ hd_date h1 @ ''.jsonl'')
       in if \<not> le_open_ok e then (False, h1, fs)
          else
            let (f, fs1) = OpenFile filename fs in
            if \<not> le_stat_ok e then (False, h1, CloseFile f fs1)
            else (True, h1\<lparr>hd_file := Some f, hd_fileSize := int (length (fs_data fs1 (of_inode (fs_handles fs1 ! f))))\<rparr>, fs1))"

definition rotateDate :: "log_env \<Rightarrow> string \<Rightarrow> log_handler \<times> log_fs \<Rightarrow> bool \<times> log_handler \<times> log_fs" where
  "rotateDate e newDate s =
     (case s of (h, fs) \<Rightarrow>
       let fs1 = (case hd_file h of Some f \<Rightarrow> CloseFile f fs | None \<Rightarrow> fs)
       in openNewFile e (h\<lparr>hd_date := newDate\<rparr>, fs1))"

text \<open>The first free rotation index, of 999.\<close>

definition rotated_path :: "log_handler \<Rightarrow> nat \<Rightarrow> string" where
  "rotated_path h i = log_path h (hd_baseName h @ ''-'' @ hd_date h @ ''.'' @ show_nat i @ ''.jsonl'')"

definition free_index :: "log_handler \<Rightarrow> log_fs \<Rightarrow> nat option" where
  "free_index h fs = List.find (\<lambda>i. fs_names fs (rotated_path h i) = None) [1..<1000]"

definition rotateSize :: "log_env \<Rightarrow> log_handler \<times> log_fs \<Rightarrow> bool \<times> log_handler \<times> log_fs" where
  "rotateSize e s =
     (case s of (h, fs) \<Rightarrow>
       case hd_file h of
         None \<Rightarrow> (True, h, fs)
       | Some f \<Rightarrow>
           let oldName = of_name (fs_handles fs ! f); fs1 = CloseFile f fs in
           case free_index h fs1 of
             None \<Rightarrow> openNewFile e (h, fs1)
           | Some i \<Rightarrow>
               (case (if le_rename_ok e then RenameFile oldName (rotated_path h i) fs1 else None) of
                  Some fs2 \<Rightarrow> openNewFile e (h, fs2)
                | None \<Rightarrow>
                    if \<not> le_open_ok e then (False, h, fs1)
                    else let (g, fs2) = OpenFile oldName fs1 in (False, h\<lparr>hd_file := Some g\<rparr>, fs2)))"

definition rotateIfNeeded :: "log_env \<Rightarrow> log_handler \<times> log_fs \<Rightarrow> bool \<times> log_handler \<times> log_fs" where
  "rotateIfNeeded e s =
     (if le_today e \<noteq> hd_date (fst s) then rotateDate e (le_today e) s
      else if hd_fileSize (fst s) \<ge> hd_maxSize (fst s) then rotateSize e s
      else (True, s))"

record handler_options =
  ho_LogDir :: string
  ho_MaxFileSizeMB :: int
  ho_Filter :: "level_filter option"
  ho_Source :: string
  ho_Component :: string
  ho_LogToStdout :: bool

text \<open>\<open>NewHandler\<close>: the directory can be made or not (\<open>mkdir_ok\<close>).\<close>

definition NewLogHandler :: "log_env \<Rightarrow> bool \<Rightarrow> handler_options \<Rightarrow> log_fs \<Rightarrow> log_handler option \<times> log_fs" where
  "NewLogHandler e mkdir_ok opts fs =
     (let h = \<lparr>hd_filter = ho_Filter opts, hd_seq = 0, hd_attrs = [], hd_groups = [],
          hd_comp = (if ho_Component opts = [] then ''unknown'' else ho_Component opts),
          hd_src = (if ho_Source opts = [] then ''daemon'' else ho_Source opts), hd_logDir = ho_LogDir opts, hd_baseName = ''daemon'',
          hd_date = [], hd_maxSize = (if ho_MaxFileSizeMB opts \<le> 0 then 100 else ho_MaxFileSizeMB opts) * 1024 * 1024,
          hd_file = None, hd_fileSize = 0, hd_stdout = ho_LogToStdout opts, hd_degrade = 0, hd_alert = Some False\<rparr>
      in if ho_LogDir opts = [] then (Some h, fs)
         else if \<not> mkdir_ok then (None, fs)
         else case openNewFile e (h, fs) of (ok, h1, fs1) \<Rightarrow> (if ok then Some h1 else None, fs1))"

definition Log_Enabled :: "log_handler \<Rightarrow> int \<Rightarrow> bool" where
  "Log_Enabled h level =
     (case hd_filter h of None \<Rightarrow> level \<ge> LevelInfo | Some f \<Rightarrow> Filter_Enabled f (hd_comp h) level)"

definition clone :: "log_handler \<Rightarrow> log_handler" where
  "clone h = h\<lparr>hd_seq := 0, hd_degrade := 0, hd_alert := None\<rparr>"

definition WithAttrs :: "(string \<times> attr_value) list \<Rightarrow> log_handler \<Rightarrow> log_handler" where
  "WithAttrs attrs h = (clone h)\<lparr>hd_attrs := hd_attrs h @ attrs\<rparr>"

definition WithGroup :: "string \<Rightarrow> log_handler \<Rightarrow> log_handler" where
  "WithGroup name h = (clone h)\<lparr>hd_groups := hd_groups h @ [name]\<rparr>"

definition SetComponent :: "log_handler \<Rightarrow> string \<Rightarrow> log_handler" where
  "SetComponent h component = WithAttrs [(''component'', AString component)] h"

definition SetSource :: "log_handler \<Rightarrow> string \<Rightarrow> log_handler" where
  "SetSource h source = WithAttrs [(''source'', AString source)] h"

section \<open>One record\<close>

record log_input =
  li_Level :: int
  li_Message :: string
  li_Attrs :: "(string \<times> attr_value) list"

text \<open>The record of a call, with its fields redacted and the sequence number of this handler.\<close>

definition build_record :: "log_env \<Rightarrow> log_input \<Rightarrow> log_handler \<Rightarrow> log_record" where
  "build_record e r h =
     (case fold (add_attr (hd_groups h)) (hd_attrs h @ li_Attrs r) (hd_comp h, hd_src h, []) of
        (component, source, flds) \<Rightarrow>
          \<lparr>lr_TS = le_ts e, lr_Level = levelToString (li_Level r), lr_Component = component, lr_Source = source,
            lr_Msg = (if li_Message r = [] then '' '' else li_Message r), lr_Seq = hd_seq h + 1, lr_Fields = RedactFields flds\<rparr>)"

definition handleWriteError :: "log_handler \<Rightarrow> log_handler" where
  "handleWriteError h =
     (if hd_degrade h = 0 then h\<lparr>hd_degrade := 1\<rparr>
      else if hd_degrade h = 1 then h\<lparr>hd_degrade := 2\<rparr>
      else if hd_degrade h = 2 then signal_alert (h\<lparr>hd_degrade := 3\<rparr>)
      else h)"

definition write_line :: "log_env \<Rightarrow> int \<Rightarrow> string \<Rightarrow> log_handler \<times> log_fs \<Rightarrow> log_handler \<times> log_fs" where
  "write_line e level line s =
     (case s of (h, fs) \<Rightarrow>
       case hd_file h of
         None \<Rightarrow> (h, fs)
       | Some f \<Rightarrow>
           if hd_degrade h \<ge> 3 then (signal_alert h, fs)
           else if hd_degrade h = 2 \<and> level < LevelWarn then (h, fs)
           else if hd_degrade h = 1 \<and> level < LevelInfo then (h, fs)
           else
             let ((n, werr), fs1) = WriteFile (le_written e) f line fs; h1 = h\<lparr>hd_fileSize := hd_fileSize h + int n\<rparr>
             in if werr then (handleWriteError h1, fs1)
                else if hd_degrade h > 0 then (h1\<lparr>hd_degrade := hd_degrade h - 1\<rparr>, fs1)
                else (h1, fs1))"

text \<open>The result tells whether the record could be encoded; write errors are not reported.\<close>

definition Handle :: "(log_record \<Rightarrow> string) \<Rightarrow> log_env \<Rightarrow> log_input \<Rightarrow> log_handler \<times> log_world \<Rightarrow> bool \<times> log_handler \<times> log_world" where
  "Handle marshal e r s =
     (case s of (h, w) \<Rightarrow>
       let rec = build_record e r h; h1 = h\<lparr>hd_seq := hd_seq h + 1\<rparr>; line = marshal rec @ [char_of (10::nat)] in
       if \<not> marshalable rec then (False, h1, w)
       else
         let (h2, fs2) = (if hd_logDir h \<noteq> [] then snd (rotateIfNeeded e (h1, lw_fs w)) else (h1, lw_fs w));
             (h3, fs3) = write_line e (li_Level r) line (h2, fs2)
         in (True, h3, \<lparr>lw_fs = fs3, lw_ring = map_option (\<lambda>g. snd (Ring_Write rec g)) (lw_ring w),
               lw_stdout = (if hd_stdout h then lw_stdout w @ [line] else lw_stdout w)\<rparr>))"

definition CloseLog :: "log_handler \<times> log_fs \<Rightarrow> log_fs" where
  "CloseLog s = (case hd_file (fst s) of Some f \<Rightarrow> CloseFile f (snd s) | None \<Rightarrow> snd s)"

text \<open>The cleanup goroutine that a write error starts: it removes the first archive it can, in the order of the
  names, and then lowers the degradation by one. \<open>entries\<close> are the sorted names of the directory.\<close>

definition asyncFreeSpace :: "string \<Rightarrow> dir_entry list \<Rightarrow> (string \<Rightarrow> bool) \<Rightarrow> log_handler \<times> log_fs \<Rightarrow> log_handler \<times> log_fs" where
  "asyncFreeSpace today entries removable s =
     (case s of (h, fs) \<Rightarrow>
       case List.find (\<lambda>entry. \<not> de_IsDir entry \<and> has_suffix (de_Name entry) ''.jsonl'' \<and> \<not> contains (de_Name entry) today
                         \<and> removable (de_Name entry)) entries of
         None \<Rightarrow> (h, fs)
       | Some entry \<Rightarrow>
           ((if hd_degrade h > 0 then h\<lparr>hd_degrade := hd_degrade h - 1\<rparr> else h),
            fs\<lparr>fs_names := (fs_names fs)(log_path h (de_Name entry) := None)\<rparr>))"

fun log_all :: "(log_record \<Rightarrow> string) \<Rightarrow> (log_env \<times> log_input) list \<Rightarrow> log_handler \<times> log_world \<Rightarrow> log_handler \<times> log_world" where
  "log_all marshal [] s = s"
| "log_all marshal ((e, r) # rest) s = log_all marshal rest (snd (Handle marshal e r s))"

section \<open>A record reaches the file and the ring\<close>

definition handler_ready :: "log_env \<Rightarrow> log_handler \<Rightarrow> log_fs \<Rightarrow> nat \<Rightarrow> bool" where
  "handler_ready e h fs f \<longleftrightarrow> hd_logDir h \<noteq> [] \<and> hd_date h = le_today e \<and> hd_fileSize h < hd_maxSize h \<and> hd_file h = Some f
     \<and> of_open (fs_handles fs ! f) \<and> le_written e = None \<and> hd_degrade h = 0"

text \<open>On a working disk a record is appended to the current file as one line, added to the ring under the ring's next
  number, and both hold its redacted fields.\<close>

theorem Handle_writes_both:
  assumes "handler_ready e h (lw_fs w) f" and "marshalable (build_record e r h)" and "lw_ring w = Some g" and "ring_log hist g"
  shows "\<exists>h' w'. Handle marshal e r (h, w) = (True, h', w')
     \<and> fs_data (lw_fs w') = (fs_data (lw_fs w))(of_inode (fs_handles (lw_fs w) ! f) :=
          fs_data (lw_fs w) (of_inode (fs_handles (lw_fs w) ! f)) @ marshal (build_record e r h) @ [char_of (10::nat)])
     \<and> fs_names (lw_fs w') = fs_names (lw_fs w)
     \<and> (\<exists>g'. lw_ring w' = Some g' \<and> ring_log (hist @ [(build_record e r h)\<lparr>lr_Seq := int (length hist) + 1\<rparr>]) g')
     \<and> hd_degrade h' = 0 \<and> hd_seq h' = hd_seq h + 1"
proof -
  have w: "Ring_Write (build_record e r h) g = (int (length hist) + 1, snd (Ring_Write (build_record e r h) g))"
    using assms(4) by (simp add: Ring_Write_def Let_def ring_log_def)
  have "rotateIfNeeded e (h\<lparr>hd_seq := hd_seq h + 1\<rparr>, lw_fs w) = (True, h\<lparr>hd_seq := hd_seq h + 1\<rparr>, lw_fs w)"
    using assms(1) by (simp add: rotateIfNeeded_def handler_ready_def)
  then show ?thesis using assms(1-3) ring_log_write [OF assms(4) w]
    by (simp add: Handle_def handler_ready_def write_line_def WriteFile_def Let_def)
qed

section \<open>Rotation\<close>

text \<open>The handler's file is the one its path names, of today.\<close>

definition current_file :: "log_handler \<Rightarrow> log_fs \<Rightarrow> nat \<Rightarrow> nat \<Rightarrow> bool" where
  "current_file h fs f i \<longleftrightarrow> hd_file h = Some f \<and> f < length (fs_handles fs) \<and> of_inode (fs_handles fs ! f) = i
     \<and> of_name (fs_handles fs ! f) = log_path h (hd_baseName h @ ''-'' @ hd_date h @ ''.jsonl'')
     \<and> fs_names fs (log_path h (hd_baseName h @ ''-'' @ hd_date h @ ''.jsonl'')) = Some i \<and> i < fs_next fs"

lemma digit_then_json: "is_digit c \<Longrightarrow> c # x \<noteq> CHR ''j'' # y"
  by (auto simp: is_digit_def)

lemma rotated_path_other: "rotated_path h i \<noteq> log_path h (hd_baseName h @ ''-'' @ hd_date h @ ''.jsonl'')"
proof
  assume "rotated_path h i = log_path h (hd_baseName h @ ''-'' @ hd_date h @ ''.jsonl'')"
  then have eq: "show_nat i @ ''.jsonl'' = ''jsonl''" by (simp add: rotated_path_def log_path_def)
  obtain c x where c: "show_nat i = c # x" by (cases "show_nat i") auto
  then have "is_digit c" using show_nat_all_digits [of i] by simp
  then show False using eq c by (auto simp: is_digit_def)
qed

text \<open>Rotating by size loses nothing: the full file keeps its contents under the first free rotated name, which no
  file had, and the handler goes on with an empty file under today's name.\<close>

theorem rotateSize_keeps_lines:
  assumes "current_file h fs f i" and "le_today e = hd_date h" and "le_open_ok e" and "le_stat_ok e" and "le_rename_ok e"
    and k: "free_index h (CloseFile f fs) = Some k"
  shows "\<exists>h' fs' f'. rotateSize e (h, fs) = (True, h', fs') \<and> fs_names fs (rotated_path h k) = None
     \<and> fs_names fs' (rotated_path h k) = Some i \<and> fs_data fs' i = fs_data fs i
     \<and> current_file h' fs' f' (fs_next fs) \<and> of_open (fs_handles fs' ! f') \<and> fs_data fs' (fs_next fs) = [] \<and> hd_fileSize h' = 0"
proof -
  let ?old = "log_path h (hd_baseName h @ ''-'' @ hd_date h @ ''.jsonl'')"
  have "fs_names (CloseFile f fs) (rotated_path h k) = None" using find_Some_in [OF k [unfolded free_index_def]] by blast
  then have n: "fs_names fs (rotated_path h k) = None" by (simp add: CloseFile_def)
  have "RenameFile ?old (rotated_path h k) (CloseFile f fs)
      = Some ((CloseFile f fs)\<lparr>fs_names := (fs_names fs)(?old := None, rotated_path h k \<mapsto> i)\<rparr>)"
    using assms(1) by (simp add: RenameFile_def current_file_def CloseFile_def)
  moreover have "h\<lparr>hd_date := hd_date h\<rparr> = h" by simp
  moreover have "log_path (h\<lparr>hd_date := d, hd_file := x, hd_fileSize := z\<rparr>) m = log_path h m"
      "log_path (h\<lparr>hd_file := x, hd_fileSize := z\<rparr>) m = log_path h m" for d x z m by (simp_all add: log_path_def)
  ultimately show ?thesis
    using assms(1-5) k n rotated_path_other [of h k]
    by (simp add: rotateSize_def openNewFile_def OpenFile_def current_file_def CloseFile_def Let_def nth_append)
qed

section \<open>Copies of a handler\<close>

text \<open>A copy tagged with a component is filtered like its original: the filter looks up the component that the
  handler was built with, so the per-component overrides never apply.\<close>

theorem component_override_ignored:
  "Log_Enabled (SetComponent h component) level = Log_Enabled h level"
  by (simp add: Log_Enabled_def SetComponent_def WithAttrs_def clone_def split: option.splits)

lemma closed_handle_writes_nothing:
  assumes "hd_file h = Some f" and "\<not> of_open (fs_handles (lw_fs w) ! f)" and "hd_date h = le_today e" and "hd_fileSize h < hd_maxSize h"
    and "marshalable (build_record e r h)" and "li_Level r \<ge> LevelWarn" and "Handle marshal e r (h, w) = (ok, h', w')"
    and "0 \<le> hd_degrade h" and "hd_degrade h \<le> 3"
  shows "lw_fs w' = lw_fs w \<and> hd_file h' = Some f \<and> hd_date h' = hd_date h \<and> hd_fileSize h' = hd_fileSize h
     \<and> hd_maxSize h' = hd_maxSize h \<and> hd_attrs h' = hd_attrs h \<and> hd_groups h' = hd_groups h \<and> hd_degrade h' = min 3 (hd_degrade h + 1)"
proof -
  let ?h = "h\<lparr>hd_seq := hd_seq h + 1\<rparr>"
  have rot: "rotateIfNeeded e (?h, lw_fs w) = (True, ?h, lw_fs w)" using assms(3,4) by (simp add: rotateIfNeeded_def)
  have out: "h' = fst (write_line e (li_Level r) (marshal (build_record e r h) @ [char_of (10::nat)]) (?h, lw_fs w))"
      "lw_fs w' = snd (write_line e (li_Level r) (marshal (build_record e r h) @ [char_of (10::nat)]) (?h, lw_fs w))"
    using assms(5,7) rot by (auto simp: Handle_def Let_def split: prod.splits if_splits)
  have lv: "\<not> li_Level r < LevelWarn" "\<not> li_Level r < LevelInfo" using assms(6) by (simp_all add: level_defs)
  consider "hd_degrade h = 0" | "hd_degrade h = 1" | "hd_degrade h = 2" | "hd_degrade h = 3" using assms(8,9) by linarith
  then show ?thesis
    by cases (use assms(1-4) lv out in \<open>simp_all add: write_line_def WriteFile_def handleWriteError_def signal_alert_def\<close>)
qed

lemma closed_handle_runs_down:
  assumes "hd_file h = Some f" and "\<not> of_open (fs_handles (lw_fs w) ! f)" and "\<forall>x \<in> set xs. hd_date h = le_today (fst x)"
    and "hd_fileSize h < hd_maxSize h" and "\<forall>x \<in> set xs. li_Level (snd x) \<ge> LevelWarn"
    and "\<forall>x \<in> set xs. \<forall>c. hd_attrs c = hd_attrs h \<and> hd_groups c = hd_groups h \<longrightarrow> marshalable (build_record (fst x) (snd x) c)"
    and "0 \<le> hd_degrade h" and "hd_degrade h \<le> 3"
  shows "lw_fs (snd (log_all marshal xs (h, w))) = lw_fs w
     \<and> hd_degrade (fst (log_all marshal xs (h, w))) = min 3 (hd_degrade h + int (length xs))"
  using assms
proof (induction xs arbitrary: h w)
  case (Cons x xs)
  obtain e r where x: "x = (e, r)" by (cases x)
  obtain ok h1 w1 where st: "Handle marshal e r (h, w) = (ok, h1, w1)" by (rule prod_cases3)
  have s: "lw_fs w1 = lw_fs w" "hd_file h1 = Some f" "hd_date h1 = hd_date h" "hd_fileSize h1 = hd_fileSize h"
      "hd_maxSize h1 = hd_maxSize h" "hd_attrs h1 = hd_attrs h" "hd_groups h1 = hd_groups h" "hd_degrade h1 = min 3 (hd_degrade h + 1)"
    using closed_handle_writes_nothing [OF Cons.prems(1,2) _ Cons.prems(4) _ _ st] Cons.prems x by auto
  show ?case using Cons.IH [of h1 w1] Cons.prems s x st by (auto simp: min_def)
qed simp

text \<open>A copy of a handler is cut off by the original's next rotation. \<open>WithAttrs\<close> gives the copy the file handle
  that is open then; when the original rotates, it closes it, and of the copy nothing reaches a file for the
  rest of the day: each warning or error raises its degradation, and after three it stops writing.\<close>

theorem rotation_orphans_copies:
  assumes "hd_file p0 = Some f" and "hd_file p = Some f" and "f < length (fs_handles fs)" and "snd (rotateSize e (p, fs)) = (p', fs')"
    and "w = \<lparr>lw_fs = fs', lw_ring = g, lw_stdout = out\<rparr>" and "hd_fileSize p0 < hd_maxSize p0"
    and "\<forall>x \<in> set xs. hd_date p0 = le_today (fst x)" and "\<forall>x \<in> set xs. li_Level (snd x) \<ge> LevelWarn"
    and "\<forall>x \<in> set xs. \<forall>c. hd_attrs c = hd_attrs p0 @ attrs \<and> hd_groups c = hd_groups p0 \<longrightarrow> marshalable (build_record (fst x) (snd x) c)"
  shows "lw_fs (snd (log_all marshal xs (WithAttrs attrs p0, w))) = fs'
     \<and> hd_degrade (fst (log_all marshal xs (WithAttrs attrs p0, w))) = min 3 (int (length xs))"
proof -
  have closed: "\<not> of_open (fs_handles (CloseFile f fs) ! f)" "f < length (fs_handles (CloseFile f fs))"
    using assms(3) by (simp_all add: CloseFile_def)
  have o': "fs_handles (snd (OpenFile n s)) ! f = fs_handles s ! f \<and> f < length (fs_handles (snd (OpenFile n s)))"
    if "f < length (fs_handles s)" for n s using that by (auto simp: OpenFile_def Let_def nth_append split: option.splits)
  have new: "\<not> of_open (fs_handles (snd (snd (openNewFile e (h, s)))) ! f)"
    if "f < length (fs_handles s)" "\<not> of_open (fs_handles s ! f)" for h s
  proof -
    have "fst (OpenFile n s) \<noteq> f" for n using that by (auto simp: OpenFile_def Let_def split: option.splits)
    then show ?thesis using that o' [OF that(1)]
      by (auto simp: openNewFile_def Let_def CloseFile_def split: prod.splits) (metis fst_conv snd_conv nth_list_update_neq)+
  qed
  have "\<not> of_open (fs_handles fs' ! f)"
  proof (cases "free_index p (CloseFile f fs)")
    case None
    then have "fs' = snd (snd (openNewFile e (p, CloseFile f fs)))" using assms(2,4) by (simp add: rotateSize_def Let_def)
    then show ?thesis using new [OF closed(2,1)] by simp
  next
    case (Some i)
    have rn: "fs_handles s' = fs_handles s" if "RenameFile a b s = Some s'" for a b s s' using that by (auto simp: RenameFile_def)
    show ?thesis
    proof (cases "if le_rename_ok e then RenameFile (of_name (fs_handles fs ! f)) (rotated_path p i) (CloseFile f fs) else None")
      case None
      then show ?thesis using Some assms(2,4) closed o' [OF closed(2)]
        by (auto simp: rotateSize_def Let_def split: prod.splits if_splits) (metis snd_conv)+
    next
      case r: (Some fs2)
      then have "fs_handles fs2 = fs_handles (CloseFile f fs)" using rn by (auto split: if_splits)
      then show ?thesis using r Some assms(2,4) closed new [of fs2 p] by (auto simp: rotateSize_def Let_def split: if_splits)
    qed
  qed
  then show ?thesis
    using closed_handle_runs_down [of "WithAttrs attrs p0" f w xs marshal] assms(1,5-9) by (simp add: WithAttrs_def clone_def)
qed

text \<open>Once the degradation has reached its last level, the handler never writes to a file again: nothing is
  written, so nothing can succeed, and no further error starts a cleanup. Only a cleanup that was already
  under way can end this.\<close>

definition same_lines :: "log_fs \<Rightarrow> log_fs \<Rightarrow> bool" where
  "same_lines fs fs' \<longleftrightarrow> fs_next fs \<le> fs_next fs' \<and> (\<forall>i < fs_next fs. fs_data fs' i = fs_data fs i)
     \<and> (\<forall>i \<ge> fs_next fs. fs_data fs i = [] \<longrightarrow> fs_data fs' i = [])"

lemma same_lines_refl: "same_lines fs fs"
  by (simp add: same_lines_def)

lemma same_lines_trans: "same_lines a b \<Longrightarrow> same_lines b c \<Longrightarrow> same_lines a c"
  unfolding same_lines_def by (metis le_trans linorder_not_le order_less_le_trans)

lemma same_lines_ops:
  "same_lines fs (CloseFile f fs)"
  "RenameFile a b fs = Some fs' \<Longrightarrow> same_lines fs fs'"
  "same_lines fs (snd (OpenFile n fs))"
  by (auto simp: same_lines_def CloseFile_def RenameFile_def OpenFile_def Let_def split: option.splits)

lemma openNewFile_same: "same_lines fs (snd (snd (openNewFile e (h, fs)))) \<and> hd_degrade (fst (snd (openNewFile e (h, fs)))) = hd_degrade h"
proof -
  have "same_lines fs (CloseFile f (snd (OpenFile n fs)))" for f n
    using same_lines_trans [OF same_lines_ops(3) same_lines_ops(1)] .
  then show ?thesis
    using same_lines_ops(3) [of fs] by (auto simp: openNewFile_def Let_def same_lines_refl split: prod.splits) (metis snd_conv)+
qed

lemma rotateSize_same: "same_lines fs (snd (snd (rotateSize e (h, fs)))) \<and> hd_degrade (fst (snd (rotateSize e (h, fs)))) = hd_degrade h"
proof (cases "hd_file h")
  case None
  then show ?thesis by (simp add: rotateSize_def same_lines_refl)
next
  case f: (Some f)
  show ?thesis
  proof (cases "free_index h (CloseFile f fs)")
    case None
    then show ?thesis using f openNewFile_same [of "CloseFile f fs" e h] same_lines_trans [OF same_lines_ops(1) [of fs f]]
      by (auto simp: rotateSize_def Let_def)
  next
    case (Some k)
    let ?rn = "if le_rename_ok e then RenameFile (of_name (fs_handles fs ! f)) (rotated_path h k) (CloseFile f fs) else None"
    show ?thesis
    proof (cases ?rn)
      case None
      have "same_lines fs (snd (OpenFile (of_name (fs_handles fs ! f)) (CloseFile f fs)))"
        using same_lines_trans [OF same_lines_ops(1) same_lines_ops(3)] .
      then show ?thesis using f Some None same_lines_ops(1) [of fs f]
        by (auto simp: rotateSize_def Let_def split: prod.splits)
    next
      case r: (Some fs2)
      then have "same_lines fs fs2" using same_lines_ops(2) [of _ _ "CloseFile f fs" fs2] same_lines_trans [OF same_lines_ops(1) [of fs f]]
        by (auto split: if_splits)
      then show ?thesis using f Some r openNewFile_same [of fs2 e h] same_lines_trans by (auto simp: rotateSize_def Let_def)
    qed
  qed
qed

lemma rotate_same: "same_lines fs (snd (snd (rotateIfNeeded e (h, fs)))) \<and> hd_degrade (fst (snd (rotateIfNeeded e (h, fs)))) = hd_degrade h"
proof -
  have "same_lines fs (case hd_file h of Some f \<Rightarrow> CloseFile f fs | None \<Rightarrow> fs)"
    by (simp add: same_lines_refl same_lines_ops(1) split: option.splits)
  then have "same_lines fs (snd (snd (rotateDate e d (h, fs)))) \<and> hd_degrade (fst (snd (rotateDate e d (h, fs)))) = hd_degrade h" for d
    using openNewFile_same [of "case hd_file h of Some f \<Rightarrow> CloseFile f fs | None \<Rightarrow> fs" e "h\<lparr>hd_date := d\<rparr>"] same_lines_trans
    by (auto simp: rotateDate_def Let_def)
  then show ?thesis using rotateSize_same by (simp add: rotateIfNeeded_def same_lines_refl)
qed

theorem stopped_file_logging_stays_stopped:
  assumes "hd_degrade h \<ge> 3"
  shows "hd_degrade (fst (log_all marshal xs (h, w))) \<ge> 3 \<and> same_lines (lw_fs w) (lw_fs (snd (log_all marshal xs (h, w))))"
  using assms
proof (induction xs arbitrary: h w)
  case Nil
  then show ?case by (simp add: same_lines_refl)
next
  case (Cons x xs)
  obtain e r where x: "x = (e, r)" by (cases x)
  obtain ok h1 w1 where st: "Handle marshal e r (h, w) = (ok, h1, w1)" by (rule prod_cases3)
  obtain ok' h2 fs2 where rot: "rotateIfNeeded e (h\<lparr>hd_seq := hd_seq h + 1\<rparr>, lw_fs w) = (ok', h2, fs2)" by (rule prod_cases3)
  have s: "same_lines (lw_fs w) fs2" "hd_degrade h2 = hd_degrade h"
    using rotate_same [of "lw_fs w" e "h\<lparr>hd_seq := hd_seq h + 1\<rparr>"] rot by simp_all
  have wl: "snd (write_line e l line (h', fs')) = fs' \<and> hd_degrade (fst (write_line e l line (h', fs'))) = hd_degrade h'"
    if "hd_degrade h' \<ge> 3" for l line h' fs' using that by (simp add: write_line_def signal_alert_def split: option.splits)
  have "same_lines (lw_fs w) (lw_fs w1) \<and> hd_degrade h1 \<ge> 3"
    using st rot s Cons.prems wl [of h2 "li_Level r" "marshal (build_record e r h) @ [char_of (10::nat)]" fs2]
      wl [of "h\<lparr>hd_seq := hd_seq h + 1\<rparr>" "li_Level r" "marshal (build_record e r h) @ [char_of (10::nat)]" "lw_fs w"]
    by (auto simp: Handle_def Let_def same_lines_refl split: prod.splits if_splits)
  then show ?case using Cons.IH [of h1 w1] x st same_lines_trans by auto
qed

section \<open>Secrets in groups\<close>

text \<open>A secret that is logged under a group is not redacted: the group's name becomes a prefix of its key, and the
  list of secret keys is compared with the whole key.\<close>

theorem grouped_secret_is_logged:
  assumes "hd_attrs h = []" and "hd_groups h = []" and "g \<noteq> []" and "k \<noteq> []" and "li_Attrs r = [(k, AString v)]" and "\<not> holds_pem v"
  shows "lr_Fields (build_record e r (WithGroup g h)) = [(g @ ''.'' @ k, VString v)]"
proof -
  have d: "CHR ''.'' \<in> set (g @ ''.'' @ k)" by simp
  have "CHR ''.'' \<notin> set ''component''" "CHR ''.'' \<notin> set ''source''" by simp_all
  then have ne: "g @ ''.'' @ k \<noteq> ''component''" "g @ ''.'' @ k \<noteq> ''source''" using d by metis+
  have "attrToKV (k, AString v) [g] = (g @ ''.'' @ k, VString v)" using assms(3,4) by (simp add: attrToKV_def group_prefix_def)
  then have "add_attr [g] (k, AString v) (c, s, []) = (c, s, [(g @ ''.'' @ k, VString v)])" for c s
    using ne by (simp add: add_attr_def)
  then show ?thesis using assms dotted_not_secret [OF d]
    by (simp add: build_record_def WithGroup_def clone_def)
qed

section \<open>Example\<close>

definition sample_env :: log_env where
  "sample_env = \<lparr>le_today = ''2026-05-27'', le_ts = ''t'', le_open_ok = True, le_stat_ok = True, le_rename_ok = True, le_written = None\<rparr>"

definition empty_fs :: log_fs where
  "empty_fs = \<lparr>fs_names = Map.empty, fs_data = (\<lambda>_. []), fs_next = 0, fs_handles = []\<rparr>"

definition sample_options :: handler_options where
  "sample_options = \<lparr>ho_LogDir = ''/logs'', ho_MaxFileSizeMB = 0, ho_Filter = None, ho_Source = [], ho_Component = [], ho_LogToStdout = False\<rparr>"

definition warning :: log_input where
  "warning = \<lparr>li_Level = LevelWarn, li_Message = ''disk'', li_Attrs = []\<rparr>"

lemma plain_warning: "hd_attrs c = [] \<Longrightarrow> marshalable (build_record sample_env warning c)"
  by (simp add: build_record_def warning_def marshalable_def)

theorem rotation_orphans_copies_witness:
  "\<exists>p fs. NewLogHandler sample_env True sample_options empty_fs = (Some p, fs)
     \<and> lw_fs (snd (log_all lr_Msg [(sample_env, warning), (sample_env, warning), (sample_env, warning)]
           (WithAttrs [] p, \<lparr>lw_fs = snd (snd (rotateSize sample_env (p, fs))), lw_ring = None, lw_stdout = []\<rparr>)))
         = snd (snd (rotateSize sample_env (p, fs)))
     \<and> hd_degrade (fst (log_all lr_Msg [(sample_env, warning), (sample_env, warning), (sample_env, warning)]
           (WithAttrs [] p, \<lparr>lw_fs = snd (snd (rotateSize sample_env (p, fs))), lw_ring = None, lw_stdout = []\<rparr>))) = 3"
proof -
  have "\<exists>p fs. NewLogHandler sample_env True sample_options empty_fs = (Some p, fs) \<and> hd_file p = Some 0 \<and> 0 < length (fs_handles fs)
      \<and> hd_fileSize p < hd_maxSize p \<and> hd_date p = le_today sample_env \<and> hd_attrs p = []"
    by (simp add: NewLogHandler_def sample_env_def sample_options_def openNewFile_def OpenFile_def empty_fs_def Let_def)
  then obtain p fs where n: "NewLogHandler sample_env True sample_options empty_fs = (Some p, fs)"
    and p: "hd_file p = Some 0" "0 < length (fs_handles fs)" "hd_fileSize p < hd_maxSize p" "hd_date p = le_today sample_env" "hd_attrs p = []"
    by blast
  let ?fs' = "snd (snd (rotateSize sample_env (p, fs)))"
  have r: "snd (rotateSize sample_env (p, fs)) = (fst (snd (rotateSize sample_env (p, fs))), ?fs')" by simp
  show ?thesis
    using rotation_orphans_copies [OF p(1) p(1) p(2) r refl p(3), of "[(sample_env, warning), (sample_env, warning), (sample_env, warning)]" "[]" lr_Msg None "[]"]
      n p(4,5) plain_warning by (auto simp: warning_def)
qed

end
