(* ===== verification/Tunnel_Server.thy ===== *)
theory Tunnel_Server
  imports Config
begin

text \<open>
  Reading the state of the AmneziaWG server (\<open>tunnel/server_config.go\<close>): the configuration parser, the peer
  dump, the commands that fetch them over SSH, and the server mirror. The SSH executor runs a command line in
  a world and yields its standard output, absent when it fails; SHA-256 and the JSON codecs are parameters.
\<close>

section \<open>Shell words\<close>

definition newline :: char where
  "newline = CHR 0x0A"

definition unlines :: "string list \<Rightarrow> string" where
  "unlines lines = concat (map (\<lambda>line. line @ [newline]) lines)"

lemma split_unlines: "\<forall>l \<in> set ls. newline \<notin> set l \<Longrightarrow> split_on newline (unlines ls @ rest) = ls @ split_on newline rest"
proof (induction ls)
  case (Cons l ls)
  then show ?case using split_on_append [of newline l "unlines ls @ rest"] by (simp add: unlines_def)
qed (simp add: unlines_def)

lemma unlines_append: "unlines (xs @ ys) = unlines xs @ unlines ys"
  by (simp add: unlines_def)

definition quote_char :: "char \<Rightarrow> string" where
  "quote_char c = (if c = CHR 0x27 then [CHR 0x27, CHR 0x5C, CHR 0x27, CHR 0x27] else [c])"

definition shellArg :: "string \<Rightarrow> string" where
  "shellArg s = [CHR 0x27] @ concat (map quote_char s) @ [CHR 0x27]"

definition dockerExecCmd :: "string \<Rightarrow> string \<Rightarrow> string" where
  "dockerExecCmd container cmd = ''docker exec '' @ shellArg container @ '' '' @ cmd"

text \<open>How a POSIX shell reads one word of literals, single-quoted parts and backslashes; the rest of the line
  starts at the first unquoted blank. Any other character that an unquoted word gives a meaning to has no
  reading here.\<close>

definition shell_special :: "char \<Rightarrow> bool" where
  "shell_special c \<longleftrightarrow> c \<in> set ''$;&|<>()#*?[~%!{}`'' \<or> c = CHR 0x22 \<or> c = CHR 0x09 \<or> c = CHR 0x0A"

fun shell_word :: "bool \<Rightarrow> string \<Rightarrow> (string \<times> string) option" where
  "shell_word True [] = None"
| "shell_word True (c # cs) =
     (if c = CHR 0x27 then shell_word False cs else map_option (\<lambda>(w, r). (c # w, r)) (shell_word True cs))"
| "shell_word False [] = Some ([], [])"
| "shell_word False (c # cs) =
     (if c = CHR 0x27 then shell_word True cs
      else if c = CHR 0x5C then (case cs of [] \<Rightarrow> None | d # ds \<Rightarrow> map_option (\<lambda>(w, r). (d # w, r)) (shell_word False ds))
      else if c = CHR '' '' then Some ([], c # cs)
      else if shell_special c then None
      else map_option (\<lambda>(w, r). (c # w, r)) (shell_word False cs))"

lemma shell_word_quoted:
  "shell_word True (concat (map quote_char s) @ CHR 0x27 # rest) = map_option (\<lambda>(w, r). (s @ w, r)) (shell_word False rest)"
proof (induction s)
  case Nil
  show ?case by (cases "shell_word False rest") auto
next
  case (Cons c s)
  then show ?case by (cases "shell_word False rest") (auto simp: quote_char_def)
qed

text \<open>Quoting is safe: whatever bytes a string has, the shell reads its quoted form back as that one word, so
  nothing in it is interpreted and it cannot end its word.\<close>

theorem shellArg_safe:
  "shell_word False (shellArg s) = Some (s, []) \<and> shell_word False (shellArg s @ '' '' @ rest) = Some (s, '' '' @ rest)"
proof -
  have "shell_word False (shellArg s @ r) = map_option (\<lambda>(w, x). (s @ w, x)) (shell_word False r)" for r
    using shell_word_quoted [of s r] by (simp add: shellArg_def)
  from this [of "[]"] this [of "'' '' @ rest"] show ?thesis by simp
qed

section \<open>Parsing the configuration\<close>

definition trim_right :: "char \<Rightarrow> string \<Rightarrow> string" where
  "trim_right c s = rev (dropWhile (\<lambda>x. x = c) (rev s))"

fun section_lines :: "string \<Rightarrow> bool \<Rightarrow> string list \<Rightarrow> string list" where
  "section_lines header inSection [] = []"
| "section_lines header inSection (line # rest) =
     (if trim_space line = header then section_lines header True rest
      else if has_prefix (trim_space line) ''['' \<and> has_suffix (trim_space line) '']'' then
        (if inSection then [] else section_lines header inSection rest)
      else if inSection then line # section_lines header inSection rest
      else section_lines header inSection rest)"

definition extractSection :: "string \<Rightarrow> string \<Rightarrow> string" where
  "extractSection raw sectionName =
     trim_right newline (concat (map (\<lambda>line. line @ [newline])
       (section_lines (''['' @ sectionName @ '']'') False (split_on newline raw))))"

definition key_char :: "char \<Rightarrow> bool" where
  "key_char c \<longleftrightarrow> is_digit c \<or> (65 \<le> (of_char c :: nat) \<and> (of_char c :: nat) \<le> 90)
     \<or> (97 \<le> (of_char c :: nat) \<and> (of_char c :: nat) \<le> 122) \<or> c = CHR ''_''"

text \<open>The expression \<open>^\s*([A-Za-z0-9_]+)\s*=\s*(.*)$\<close> on one line.\<close>

definition splitKeyValue :: "string \<Rightarrow> (string \<times> string) option" where
  "splitKeyValue line =
     (let l = dropWhile is_space line; key = takeWhile key_char l; rest = dropWhile is_space (dropWhile key_char l)
      in if key \<noteq> [] \<and> has_prefix rest ''='' then Some (key, trim_space (tl rest)) else None)"

record peer_dump =
  pd_PublicKey :: string
  pd_PresharedKey :: string
  pd_Endpoint :: string
  pd_AllowedIPs :: string
  pd_LastHandshake :: string
  pd_RxBytes :: string
  pd_TxBytes :: string
  pd_PersistentKeepalive :: string

record server_config =
  svc_Address :: string
  svc_ListenPort :: int
  svc_Obfuscation :: obfuscation_config
  svc_ServerPublicKey :: string
  svc_PresharedKey :: string
  svc_RawConf :: string
  svc_ConfSha256 :: string
  svc_Peers :: "peer_dump list"

definition zero_server_config :: server_config where
  "zero_server_config = \<lparr>svc_Address = [], svc_ListenPort = 0, svc_Obfuscation = zero_obfuscation, svc_ServerPublicKey = [],
     svc_PresharedKey = [], svc_RawConf = [], svc_ConfSha256 = [], svc_Peers = []\<rparr>"

definition set_obfuscation :: "string \<Rightarrow> int \<Rightarrow> obfuscation_config \<Rightarrow> obfuscation_config" where
  "set_obfuscation key n o' =
     (if key = ''Jc'' then o'\<lparr>obf_Jc := n\<rparr> else if key = ''Jmin'' then o'\<lparr>obf_Jmin := n\<rparr> else if key = ''Jmax'' then o'\<lparr>obf_Jmax := n\<rparr>
      else if key = ''S1'' then o'\<lparr>obf_S1 := n\<rparr> else if key = ''S2'' then o'\<lparr>obf_S2 := n\<rparr> else if key = ''S3'' then o'\<lparr>obf_S3 := n\<rparr>
      else if key = ''S4'' then o'\<lparr>obf_S4 := n\<rparr> else if key = ''H1'' then o'\<lparr>obf_H1 := n\<rparr> else if key = ''H2'' then o'\<lparr>obf_H2 := n\<rparr>
      else if key = ''H3'' then o'\<lparr>obf_H3 := n\<rparr> else if key = ''H4'' then o'\<lparr>obf_H4 := n\<rparr> else if key = ''I1'' then o'\<lparr>obf_I1 := n\<rparr>
      else if key = ''I2'' then o'\<lparr>obf_I2 := n\<rparr> else if key = ''I3'' then o'\<lparr>obf_I3 := n\<rparr> else if key = ''I4'' then o'\<lparr>obf_I4 := n\<rparr>
      else if key = ''I5'' then o'\<lparr>obf_I5 := n\<rparr> else o')"

definition interface_line :: "string \<Rightarrow> server_config \<Rightarrow> server_config option" where
  "interface_line line scfg =
     (let line = trim_space line in
      if line = [] \<or> has_prefix line ''#'' then Some scfg
      else case splitKeyValue line of
             None \<Rightarrow> Some scfg
           | Some (key, value) \<Rightarrow>
               if key = ''Address'' then Some (scfg\<lparr>svc_Address := value\<rparr>)
               else if key = ''ListenPort'' then map_option (\<lambda>n. scfg\<lparr>svc_ListenPort := n\<rparr>) (Atoi value)
               else Some (scfg\<lparr>svc_Obfuscation := set_obfuscation key (Atoi_value value) (svc_Obfuscation scfg)\<rparr>))"

fun interface_lines :: "string list \<Rightarrow> server_config \<Rightarrow> server_config option" where
  "interface_lines [] scfg = Some scfg"
| "interface_lines (line # rest) scfg =
     (case interface_line line scfg of None \<Rightarrow> None | Some scfg' \<Rightarrow> interface_lines rest scfg')"

definition parseInterfaceSection :: "string \<Rightarrow> server_config \<Rightarrow> server_config option" where
  "parseInterfaceSection raw scfg =
     (let sec = extractSection raw ''Interface''
      in if sec = [] then None else interface_lines (split_on newline sec) scfg)"

definition parse_dump_line :: "string \<Rightarrow> peer_dump option" where
  "parse_dump_line line =
     (let fs = split_on CHR 0x09 line in
      if length fs < 8 then None
      else Some \<lparr>pd_PublicKey = fs ! 0, pd_PresharedKey = fs ! 1, pd_Endpoint = fs ! 2, pd_AllowedIPs = fs ! 3,
             pd_LastHandshake = fs ! 4, pd_RxBytes = fs ! 5, pd_TxBytes = fs ! 6, pd_PersistentKeepalive = fs ! 7\<rparr>)"

definition parseDumpOutput :: "string \<Rightarrow> peer_dump list" where
  "parseDumpOutput raw =
     (let lines = split_on newline (trim_space raw)
      in if length lines < 2 then [] else List.map_filter parse_dump_line (tl lines))"

section \<open>Fetching over SSH\<close>

record 'w ssh_executor =
  sx_command :: "string \<Rightarrow> 'w \<Rightarrow> string option \<times> 'w"
  sx_script :: "string \<Rightarrow> 'w \<Rightarrow> string option \<times> 'w"

definition container_of :: "vps_config \<Rightarrow> string" where
  "container_of vps = (if vps_ContainerName vps = [] then ''unet-amnezia-awg'' else vps_ContainerName vps)"

definition dockerCat :: "'w ssh_executor \<Rightarrow> string \<Rightarrow> string \<Rightarrow> 'w \<Rightarrow> string option \<times> 'w" where
  "dockerCat sx container path = sx_command sx (dockerExecCmd container (''cat '' @ shellArg path))"

definition fetchPeerDump :: "'w ssh_executor \<Rightarrow> string \<Rightarrow> string \<Rightarrow> 'w \<Rightarrow> peer_dump list option \<times> 'w" where
  "fetchPeerDump sx container iface w =
     (case sx_command sx (dockerExecCmd container (''awg show '' @ shellArg iface @ '' dump'')) w of
        (out, w') \<Rightarrow> (map_option parseDumpOutput out, w'))"

definition FetchAll :: "'w ssh_executor \<Rightarrow> (string \<Rightarrow> string) \<Rightarrow> vps_config \<Rightarrow> string \<Rightarrow> 'w \<Rightarrow> server_config option \<times> 'w" where
  "FetchAll sx sha256 vps iface w =
     (let container = container_of vps in
      case dockerCat sx container ''/opt/amnezia/awg/awg0.conf'' w of
        (None, w1) \<Rightarrow> (None, w1)
      | (Some confRaw, w1) \<Rightarrow>
          case parseInterfaceSection confRaw (zero_server_config\<lparr>svc_RawConf := confRaw, svc_ConfSha256 := sha256 confRaw\<rparr>) of
            None \<Rightarrow> (None, w1)
          | Some scfg \<Rightarrow>
              case dockerCat sx container ''/opt/amnezia/awg/wireguard_server_public_key.key'' w1 of
                (None, w2) \<Rightarrow> (None, w2)
              | (Some srvPubKey, w2) \<Rightarrow>
                  case dockerCat sx container ''/opt/amnezia/awg/wireguard_psk.key'' w2 of
                    (None, w3) \<Rightarrow> (None, w3)
                  | (Some psk, w3) \<Rightarrow>
                      let scfg = scfg\<lparr>svc_ServerPublicKey := trim_space srvPubKey, svc_PresharedKey := trim_space psk\<rparr> in
                      case fetchPeerDump sx container iface w3 of
                        (None, w4) \<Rightarrow> (Some scfg, w4)
                      | (Some peers, w4) \<Rightarrow> (Some (scfg\<lparr>svc_Peers := peers\<rparr>), w4))"

text \<open>\<open>strings.Fields\<close>, of which the hash is the first.\<close>

definition first_field :: "string \<Rightarrow> string option" where
  "first_field s = (let f = takeWhile (\<lambda>c. \<not> is_space c) (dropWhile is_space s) in if f = [] then None else Some f)"

definition FetchConfHash :: "'w ssh_executor \<Rightarrow> vps_config \<Rightarrow> 'w \<Rightarrow> string option \<times> 'w" where
  "FetchConfHash sx vps w =
     (case sx_command sx (dockerExecCmd (container_of vps) ''sha256sum /opt/amnezia/awg/awg0.conf'') w of
        (None, w') \<Rightarrow> (None, w')
      | (Some out, w') \<Rightarrow> (first_field out, w'))"

definition FetchPeers :: "'w ssh_executor \<Rightarrow> vps_config \<Rightarrow> string \<Rightarrow> 'w \<Rightarrow> peer_dump list option \<times> 'w" where
  "FetchPeers sx vps iface = fetchPeerDump sx (container_of vps) iface"

section \<open>The server mirror\<close>

record server_mirror =
  sm_LastSyncedAt :: string
  sm_AwgConfRaw :: string
  sm_AwgConfSha256 :: string
  sm_ClientsTable :: "string option"
  sm_CaddyAdminConfig :: "string option"
  sm_ServerPrivateKey :: string

definition zero_mirror :: server_mirror where
  "zero_mirror = \<lparr>sm_LastSyncedAt = [], sm_AwgConfRaw = [], sm_AwgConfSha256 = [], sm_ClientsTable = None,
     sm_CaddyAdminConfig = None, sm_ServerPrivateKey = []\<rparr>"

record mirror_codec =
  mc_unmarshal :: "string \<Rightarrow> server_mirror option"
  mc_marshal :: "server_mirror \<Rightarrow> string option"

definition ParseServerMirror :: "mirror_codec \<Rightarrow> string \<Rightarrow> server_mirror option" where
  "ParseServerMirror mc raw = (if raw = [] then Some zero_mirror else mc_unmarshal mc raw)"

text \<open>The text, empty when the mirror cannot be encoded.\<close>

definition SerializeServerMirror :: "mirror_codec \<Rightarrow> server_mirror \<Rightarrow> string" where
  "SerializeServerMirror mc m = (case mc_marshal mc m of Some s \<Rightarrow> s | None \<Rightarrow> [])"

end
