(* ===== verification/Tunnel_Peers.thy ===== *)
theory Tunnel_Peers
  imports Tunnel_Server
begin

text \<open>
  Adding and removing peers on the server over SSH (\<open>tunnel/peer.go\<close>): the address allocation, the peer block,
  the commands and the clients table. The clock and the JSON codec of the clients table are parameters.
\<close>

section \<open>Addresses\<close>

definition parse_octet :: "string \<Rightarrow> nat option" where
  "parse_octet s =
     (if s = [] \<or> length s > 3 \<or> \<not> list_all is_digit s \<or> (length s > 1 \<and> hd s = CHR ''0'') then None
      else let v = nat (digits_value 0 s) in if v > 255 then None else Some v)"

text \<open>A dotted IPv4 address. An IPv6 address is not IPv4 and fails in every place that this is used.\<close>

definition parse_ipv4 :: "string \<Rightarrow> nat list option" where
  "parse_ipv4 s =
     (let parts = map parse_octet (split_on CHR ''.'' s)
      in if length parts = 4 \<and> list_all (\<lambda>p. p \<noteq> None) parts then Some (map the parts) else None)"

definition show_ipv4 :: "nat list \<Rightarrow> string" where
  "show_ipv4 ip = join_with ''.'' (map show_nat ip)"

text \<open>\<open>net.ParseCIDR\<close>: the address and the length of the mask.\<close>

definition ParseCIDR :: "string \<Rightarrow> (nat list \<times> nat) option" where
  "ParseCIDR s =
     (case split_on CHR ''/'' s of
        [address, bits] \<Rightarrow>
          (case parse_ipv4 address of
             None \<Rightarrow> None
           | Some ip \<Rightarrow>
               if bits \<noteq> [] \<and> list_all is_digit bits \<and> digits_value 0 bits \<le> 32 then Some (ip, nat (digits_value 0 bits)) else None)
      | _ \<Rightarrow> None)"

text \<open>The octets of the network: those of the address under the mask.\<close>

definition mask_octet :: "nat \<Rightarrow> nat \<Rightarrow> nat \<Rightarrow> nat" where
  "mask_octet n k v = (let bits = min 8 (n - 8 * k) in v div 2 ^ (8 - bits) * 2 ^ (8 - bits))"

definition network_octets :: "nat list \<times> nat \<Rightarrow> nat list" where
  "network_octets c = map (\<lambda>k. mask_octet (snd c) k (fst c ! k)) [0..<4]"

definition occupied_ips :: "peer_dump list \<Rightarrow> string set" where
  "occupied_ips peers = (\<Union>p \<in> set peers. set (filter (\<lambda>ip. ip \<noteq> [])
     (map (\<lambda>ipCIDR. trim_space (hd (split_on CHR ''/'' ipCIDR))) (split_on CHR '','' (pd_AllowedIPs p)))))"

definition candidate_ip :: "nat list \<Rightarrow> nat \<Rightarrow> string" where
  "candidate_ip net i = show_ipv4 [net ! 0, net ! 1, net ! 2, i]"

definition AllocateNextIP :: "string \<Rightarrow> peer_dump list \<Rightarrow> string option" where
  "AllocateNextIP subnet peers =
     (case ParseCIDR subnet of
        None \<Rightarrow> None
      | Some c \<Rightarrow> map_option (candidate_ip (network_octets c))
          (List.find (\<lambda>i. candidate_ip (network_octets c) i \<notin> occupied_ips peers) [2..<255]))"

lemma find_upt_None: "List.find P [a..<b] = None \<longleftrightarrow> (\<forall>i. a \<le> i \<and> i < b \<longrightarrow> \<not> P i)"
  by (auto simp: find_None_iff)

lemma find_upt_Some: "List.find P [a..<b] = Some i \<Longrightarrow> a \<le> i \<and> i < b \<and> P i \<and> (\<forall>j. a \<le> j \<and> j < i \<longrightarrow> \<not> P j)"
proof -
  assume "List.find P [a..<b] = Some i"
  then obtain k where k: "k < b - a" "P (a + k)" "i = a + k" "\<forall>j < k. \<not> P (a + j)" unfolding find_Some_iff by auto
  have "\<not> P j" if "a \<le> j" "j < i" for j using k(3,4) that by (metis le_add_diff_inverse nat_add_left_cancel_less)
  then show ?thesis using k by auto
qed

text \<open>The allocation yields the lowest address of \<open>.2\<close> to \<open>.254\<close> that no peer has, and fails only when all of
  them are taken.\<close>

theorem AllocateNextIP_lowest_free:
  assumes "ParseCIDR subnet = Some c"
  shows "(case AllocateNextIP subnet peers of
      None \<Rightarrow> \<forall>i. 2 \<le> i \<and> i \<le> 254 \<longrightarrow> candidate_ip (network_octets c) i \<in> occupied_ips peers
    | Some ip \<Rightarrow> \<exists>i. 2 \<le> i \<and> i \<le> 254 \<and> ip = candidate_ip (network_octets c) i \<and> ip \<notin> occupied_ips peers
        \<and> (\<forall>j. 2 \<le> j \<and> j < i \<longrightarrow> candidate_ip (network_octets c) j \<in> occupied_ips peers))"
proof (cases "List.find (\<lambda>i. candidate_ip (network_octets c) i \<notin> occupied_ips peers) [2..<255]")
  case None
  then have "AllocateNextIP subnet peers = None" using assms by (simp add: AllocateNextIP_def del: upt_rec_numeral)
  then show ?thesis using None [unfolded find_upt_None] by (simp add: less_Suc_eq_le [symmetric])
next
  case (Some i)
  then have "AllocateNextIP subnet peers = Some (candidate_ip (network_octets c) i)" using assms by (simp add: AllocateNextIP_def del: upt_rec_numeral)
  then show ?thesis using find_upt_Some [OF Some] by (auto intro!: exI [of _ i])
qed

section \<open>Commands\<close>

definition buildPeerBlock :: "string \<Rightarrow> string \<Rightarrow> string \<Rightarrow> int \<Rightarrow> string" where
  "buildPeerBlock pubKey psk clientIP keepalive =
     [newline] @ ''[Peer]'' @ [newline] @ ''PublicKey = '' @ pubKey @ [newline] @ ''PresharedKey = '' @ psk @ [newline]
     @ ''AllowedIPs = '' @ clientIP @ ''/32'' @ [newline] @ ''PersistentKeepalive = '' @ show_int keepalive @ [newline]"

definition dockerExec :: "string \<Rightarrow> string \<Rightarrow> string" where
  "dockerExec container cmd = ''docker exec '' @ shellArg container @ '' sh -c '' @ shellArg cmd"

definition append_script :: "string \<Rightarrow> string \<Rightarrow> string" where
  "append_script container peerBlock =
     ''docker exec -i '' @ shellArg container @ '' sh -c '' @ shellArg ''cat >> /opt/amnezia/awg/awg0.conf'' @ '' <<'' @ shellArg ''PEER''
     @ [newline] @ peerBlock @ ''PEER''"

definition appendPeerBlock :: "'w ssh_executor \<Rightarrow> string \<Rightarrow> string \<Rightarrow> 'w \<Rightarrow> bool \<times> 'w" where
  "appendPeerBlock sx container peerBlock w = (case sx_script sx (append_script container peerBlock) w of (out, w') \<Rightarrow> (out \<noteq> None, w'))"

definition sync_script :: "string \<Rightarrow> string" where
  "sync_script iface =
     ''flock -w 10 '' @ shellArg ''/opt/amnezia/awg/awg0.lock'' @ '' sh -c '' @ [CHR 0x27] @ ''TMPFILE=$(mktemp /tmp/awg0-strip.XXXXXX) && ''
     @ ''trap '' @ [CHR 0x22] @ ''rm -f $TMPFILE'' @ [CHR 0x22] @ '' EXIT && '' @ ''awg-quick strip /opt/amnezia/awg/awg0.conf > $TMPFILE && ''
     @ ''awg syncconf '' @ shellArg iface @ '' $TMPFILE'' @ [CHR 0x27]"

definition syncConf :: "'w ssh_executor \<Rightarrow> string \<Rightarrow> string \<Rightarrow> 'w \<Rightarrow> bool \<times> 'w" where
  "syncConf sx container iface w =
     (case sx_command sx (dockerExec container (sync_script iface)) w of (out, w') \<Rightarrow> (out \<noteq> None, w'))"

definition verifyPeer :: "'w ssh_executor \<Rightarrow> string \<Rightarrow> string \<Rightarrow> string \<Rightarrow> 'w \<Rightarrow> bool \<times> 'w" where
  "verifyPeer sx container iface pubKey w =
     (case sx_command sx (dockerExec container (''awg show '' @ shellArg iface @ '' peers'')) w of
        (None, w') \<Rightarrow> (False, w')
      | (Some out, w') \<Rightarrow> (\<exists>line \<in> set (split_on newline out). trim_space line = pubKey, w'))"

section \<open>The clients table\<close>

record client_entry =
  ce_ClientID :: string
  ce_ClientName :: string
  ce_CreationDate :: string

record clients_codec =
  cl_unmarshal :: "string \<Rightarrow> client_entry list option"
  cl_marshal :: "client_entry list \<Rightarrow> string"

definition write_table_script :: "string \<Rightarrow> string \<Rightarrow> string" where
  "write_table_script container payload =
     ''docker exec -i '' @ shellArg container @ '' sh -c '' @ shellArg ''cat > /opt/amnezia/awg/clientsTable.new'' @ '' <<'' @ shellArg ''PAYLOAD''
     @ [newline] @ payload @ [newline] @ ''PAYLOAD''"

definition rename_table_command :: "string \<Rightarrow> string" where
  "rename_table_command container = dockerExec container ''mv /opt/amnezia/awg/clientsTable.new /opt/amnezia/awg/clientsTable''"

definition read_table_command :: "string \<Rightarrow> string" where
  "read_table_command container = dockerExec container ''cat /opt/amnezia/awg/clientsTable''"

definition readClientsTable :: "clients_codec \<Rightarrow> 'w ssh_executor \<Rightarrow> string \<Rightarrow> 'w \<Rightarrow> client_entry list option \<times> 'w" where
  "readClientsTable cl sx container w =
     (case sx_command sx (read_table_command container) w of
        (None, w') \<Rightarrow> (None, w')
      | (Some out, w') \<Rightarrow> (Some (case cl_unmarshal cl out of Some entries \<Rightarrow> entries | None \<Rightarrow> []), w'))"

definition write_table :: "clients_codec \<Rightarrow> 'w ssh_executor \<Rightarrow> string \<Rightarrow> client_entry list \<Rightarrow> 'w \<Rightarrow> string option \<times> 'w" where
  "write_table cl sx container entries w =
     (case sx_script sx (write_table_script container (cl_marshal cl entries)) w of
        (None, w1) \<Rightarrow> (None, w1)
      | (Some _, w1) \<Rightarrow>
          (case sx_command sx (rename_table_command container) w1 of
             (None, w2) \<Rightarrow> (None, w2)
           | (Some _, w2) \<Rightarrow> (Some (cl_marshal cl entries), w2)))"

definition updateClientsTable :: "clients_codec \<Rightarrow> 'w ssh_executor \<Rightarrow> string \<Rightarrow> string \<Rightarrow> string \<Rightarrow> string \<Rightarrow> 'w \<Rightarrow> string option \<times> 'w" where
  "updateClientsTable cl sx container pubKey clientName now w =
     (case readClientsTable cl sx container w of
        (r, w1) \<Rightarrow>
          let existing = (case r of None \<Rightarrow> [] | Some es \<Rightarrow> es)
          in write_table cl sx container (existing @ [\<lparr>ce_ClientID = pubKey, ce_ClientName = clientName, ce_CreationDate = now\<rparr>]) w1)"

definition removeFromClientsTable :: "clients_codec \<Rightarrow> 'w ssh_executor \<Rightarrow> string \<Rightarrow> string \<Rightarrow> 'w \<Rightarrow> string option \<times> 'w" where
  "removeFromClientsTable cl sx container pubKey w =
     (case readClientsTable cl sx container w of
        (None, w1) \<Rightarrow> (None, w1)
      | (Some existing, w1) \<Rightarrow> write_table cl sx container (filter (\<lambda>e. ce_ClientID e \<noteq> pubKey) existing) w1)"

section \<open>Adding and removing a peer\<close>

record add_peer_params =
  ap_VPS :: vps_config
  ap_Interface :: string
  ap_ClientPublicKey :: string
  ap_ClientIP :: string
  ap_PresharedKey :: string
  ap_ClientName :: string
  ap_PersistentKeepalive :: int

datatype add_peer_error = AppendFailed | SyncFailed | VerifyFailed | TableFailed

definition AddPeer :: "clients_codec \<Rightarrow> 'w ssh_executor \<Rightarrow> string \<Rightarrow> add_peer_params \<Rightarrow> 'w \<Rightarrow> (add_peer_error + string) \<times> 'w" where
  "AddPeer cl sx now params w =
     (let container = container_of (ap_VPS params);
          iface = (if ap_Interface params = [] then ''awg0'' else ap_Interface params);
          keepalive = (if ap_PersistentKeepalive params = 0 then 25 else ap_PersistentKeepalive params);
          peerBlock = buildPeerBlock (ap_ClientPublicKey params) (ap_PresharedKey params) (ap_ClientIP params) keepalive
      in case appendPeerBlock sx container peerBlock w of
           (False, w1) \<Rightarrow> (Inl AppendFailed, w1)
         | (True, w1) \<Rightarrow>
             case syncConf sx container iface w1 of
               (False, w2) \<Rightarrow> (Inl SyncFailed, w2)
             | (True, w2) \<Rightarrow>
                 case verifyPeer sx container iface (ap_ClientPublicKey params) w2 of
                   (False, w3) \<Rightarrow> (Inl VerifyFailed, w3)
                 | (True, w3) \<Rightarrow>
                     case updateClientsTable cl sx container (ap_ClientPublicKey params) (ap_ClientName params) now w3 of
                       (None, w4) \<Rightarrow> (Inl TableFailed, w4)
                     | (Some ct, w4) \<Rightarrow> (Inr ct, w4))"

text \<open>Every step of a removal is best effort: it never fails.\<close>

definition RemovePeer :: "clients_codec \<Rightarrow> 'w ssh_executor \<Rightarrow> vps_config \<Rightarrow> string \<Rightarrow> string \<Rightarrow> 'w \<Rightarrow> 'w" where
  "RemovePeer cl sx vps ifc pubKey w =
     (let container = container_of vps;
          iface = (if ifc = [] then ''awg0'' else ifc);
          w1 = snd (sx_command sx (dockerExec container (''awg set '' @ shellArg iface @ '' peer '' @ shellArg pubKey @ '' remove'')) w);
          w2 = snd (sx_command sx (dockerExec container (''awg-quick save '' @ shellArg iface)) w1)
      in snd (removeFromClientsTable cl sx container pubKey w2))"

definition truncateKey :: "string \<Rightarrow> string" where
  "truncateKey key = (if length key > 12 then take 12 key @ ''...'' else key)"

section \<open>What the server does\<close>

text \<open>The container's files behind the commands: the configuration, the clients table and its staged copy. A
  command that succeeds has the documented effect of the programs it runs; of one that fails nothing is said
  but that a read changes no file.\<close>

record 'w awg_files =
  af_conf :: "'w \<Rightarrow> string"
  af_table :: "'w \<Rightarrow> string"
  af_staged :: "'w \<Rightarrow> string"

definition reads_only :: "'w awg_files \<Rightarrow> 'w \<Rightarrow> 'w \<Rightarrow> bool" where
  "reads_only af w w' \<longleftrightarrow> af_conf af w' = af_conf af w \<and> af_table af w' = af_table af w \<and> af_staged af w' = af_staged af w"

definition awg_laws :: "'w ssh_executor \<Rightarrow> string \<Rightarrow> 'w awg_files \<Rightarrow> bool" where
  "awg_laws sx container af \<longleftrightarrow>
     (\<forall>block w w' out. sx_script sx (append_script container block) w = (Some out, w') \<longrightarrow>
        af_conf af w' = af_conf af w @ block \<and> af_table af w' = af_table af w)
   \<and> (\<forall>iface w. reads_only af w (snd (sx_command sx (dockerExec container (sync_script iface)) w)))
   \<and> (\<forall>iface w. reads_only af w (snd (sx_command sx (dockerExec container (''awg show '' @ shellArg iface @ '' peers'')) w)))
   \<and> (\<forall>iface w. reads_only af w (snd (sx_command sx (dockerExecCmd container (''awg show '' @ shellArg iface @ '' dump'')) w)))
   \<and> (\<forall>path w. reads_only af w (snd (sx_command sx (dockerExecCmd container (''cat '' @ shellArg path)) w)))
   \<and> (\<forall>w w' out. sx_command sx (dockerExecCmd container (''cat '' @ shellArg ''/opt/amnezia/awg/awg0.conf'')) w = (Some out, w') \<longrightarrow>
        out = af_conf af w)
   \<and> (\<forall>w. reads_only af w (snd (sx_command sx (read_table_command container) w)))
   \<and> (\<forall>w w' out. sx_command sx (read_table_command container) w = (Some out, w') \<longrightarrow> out = af_table af w)
   \<and> (\<forall>payload w w' out. sx_script sx (write_table_script container payload) w = (Some out, w') \<longrightarrow>
        af_staged af w' = payload @ [newline] \<and> af_table af w' = af_table af w \<and> af_conf af w' = af_conf af w)
   \<and> (\<forall>w w' out. sx_command sx (rename_table_command container) w = (Some out, w') \<longrightarrow>
        af_table af w' = af_staged af w \<and> af_conf af w' = af_conf af w)"

lemma awg_lawsD:
  assumes "awg_laws sx container af"
  shows "sx_script sx (append_script container block) w = (Some out, w') \<Longrightarrow> af_conf af w' = af_conf af w @ block"
    and "reads_only af w (snd (sx_command sx (dockerExec container (sync_script iface)) w))"
    and "reads_only af w (snd (sx_command sx (dockerExec container (''awg show '' @ shellArg iface @ '' peers'')) w))"
    and "reads_only af w (snd (sx_command sx (dockerExecCmd container (''awg show '' @ shellArg iface @ '' dump'')) w))"
    and "reads_only af w (snd (sx_command sx (dockerExecCmd container (''cat '' @ shellArg path)) w))"
    and "sx_command sx (dockerExecCmd container (''cat '' @ shellArg ''/opt/amnezia/awg/awg0.conf'')) w = (Some out, w') \<Longrightarrow> out = af_conf af w"
proof -
  note l = assms [unfolded awg_laws_def]
  note l1 = l [THEN conjunct1]
  note l2 = l [THEN conjunct2, THEN conjunct1]
  note l3 = l [THEN conjunct2, THEN conjunct2, THEN conjunct1]
  note l4 = l [THEN conjunct2, THEN conjunct2, THEN conjunct2, THEN conjunct1]
  note l5 = l [THEN conjunct2, THEN conjunct2, THEN conjunct2, THEN conjunct2, THEN conjunct1]
  note l6 = l [THEN conjunct2, THEN conjunct2, THEN conjunct2, THEN conjunct2, THEN conjunct2, THEN conjunct1]
  show "sx_script sx (append_script container block) w = (Some out, w') \<Longrightarrow> af_conf af w' = af_conf af w @ block" using l1 by blast
  show "reads_only af w (snd (sx_command sx (dockerExec container (sync_script iface)) w))" by (rule l2 [rule_format])
  show "reads_only af w (snd (sx_command sx (dockerExec container (''awg show '' @ shellArg iface @ '' peers'')) w))" by (rule l3 [rule_format])
  show "reads_only af w (snd (sx_command sx (dockerExecCmd container (''awg show '' @ shellArg iface @ '' dump'')) w))" by (rule l4 [rule_format])
  show "reads_only af w (snd (sx_command sx (dockerExecCmd container (''cat '' @ shellArg path)) w))" by (rule l5 [rule_format])
  show "sx_command sx (dockerExecCmd container (''cat '' @ shellArg ''/opt/amnezia/awg/awg0.conf'')) w = (Some out, w') \<Longrightarrow> out = af_conf af w"
    by (rule l6 [rule_format])
qed

definition codec_ok :: "clients_codec \<Rightarrow> bool" where
  "codec_ok cl \<longleftrightarrow> (\<forall>es. cl_unmarshal cl (cl_marshal cl es @ [newline]) = Some es)"

definition table_entries :: "clients_codec \<Rightarrow> string \<Rightarrow> client_entry list" where
  "table_entries cl text = (case cl_unmarshal cl text of Some es \<Rightarrow> es | None \<Rightarrow> [])"

lemma write_table_Some:
  assumes "awg_laws sx container af" and "codec_ok cl" and "write_table cl sx container es w = (Some ct, w')"
  shows "table_entries cl (af_table af w') = es \<and> af_conf af w' = af_conf af w \<and> ct = cl_marshal cl es"
proof -
  obtain out w1 where a: "sx_script sx (write_table_script container (cl_marshal cl es)) w = (Some out, w1)"
      and b: "(case sx_command sx (rename_table_command container) w1 of (None, w2) \<Rightarrow> (None, w2) | (Some _, w2) \<Rightarrow> (Some (cl_marshal cl es), w2)) = (Some ct, w')"
    using assms(3) by (auto simp: write_table_def split: prod.splits option.splits)
  then obtain out' where c: "sx_command sx (rename_table_command container) w1 = (Some out', w')" and ct: "ct = cl_marshal cl es"
    by (auto split: prod.splits option.splits)
  have "af_staged af w1 = cl_marshal cl es @ [newline]" "af_conf af w1 = af_conf af w"
      "af_table af w' = af_staged af w1" "af_conf af w' = af_conf af w1"
    using assms(1) a c unfolding awg_laws_def by blast+
  then show ?thesis using assms(2) ct by (simp add: table_entries_def codec_ok_def)
qed

lemma read_table_step:
  assumes "awg_laws sx container af" and "readClientsTable cl sx container w = (r, w')"
  shows "reads_only af w w' \<and> (\<forall>es. r = Some es \<longrightarrow> es = table_entries cl (af_table af w))"
proof -
  obtain x w0 where x0: "sx_command sx (read_table_command container) w = (x, w0)" by (rule that) (rule prod.collapse [symmetric])
  have x: "sx_command sx (read_table_command container) w = (x, w')" and r: "r = map_option (table_entries cl) x"
    using assms(2) x0 by (cases x; simp add: readClientsTable_def table_entries_def)+
  have "reads_only af w w'" using assms(1) x unfolding awg_laws_def by (metis snd_conv)
  moreover have "out = af_table af w" if "x = Some out" for out using assms(1) x that unfolding awg_laws_def by blast
  ultimately show ?thesis using r by auto
qed

text \<open>The clients table survives an addition only if it could be read. When the read fails the new entry
  replaces the whole table: every other client is gone from it.\<close>

theorem updateClientsTable_outcome:
  assumes laws: "awg_laws sx container af" and cl: "codec_ok cl"
    and u: "updateClientsTable cl sx container pubKey clientName now w = (Some ct, w')"
  shows "table_entries cl (af_table af w') =
      (if fst (sx_command sx (read_table_command container) w) = None then [] else table_entries cl (af_table af w))
      @ [\<lparr>ce_ClientID = pubKey, ce_ClientName = clientName, ce_CreationDate = now\<rparr>]
    \<and> af_conf af w' = af_conf af w"
proof -
  obtain r w1 where r: "readClientsTable cl sx container w = (r, w1)" by (rule that) (rule prod.collapse [symmetric])
  obtain x w0 where x: "sx_command sx (read_table_command container) w = (x, w0)" by (rule that) (rule prod.collapse [symmetric])
  have n: "r = None \<longleftrightarrow> fst (sx_command sx (read_table_command container) w) = None"
    using r x by (cases x) (simp_all add: readClientsTable_def, blast)
  have s: "af_conf af w1 = af_conf af w" "\<forall>es. r = Some es \<longrightarrow> es = table_entries cl (af_table af w)"
    using read_table_step [OF laws r] by (auto simp: reads_only_def)
  have "write_table cl sx container ((case r of None \<Rightarrow> [] | Some es \<Rightarrow> es)
      @ [\<lparr>ce_ClientID = pubKey, ce_ClientName = clientName, ce_CreationDate = now\<rparr>]) w1 = (Some ct, w')"
    using u r by (simp add: updateClientsTable_def)
  from write_table_Some [OF laws cl this] show ?thesis using s n by (cases r) auto
qed

end
