(* ===== verification/Tunnel_Manager.thy ===== *)
theory Tunnel_Manager
  imports Tunnel_Peers
begin

text \<open>
  The tunnel lifecycle (\<open>tunnel/manager.go\<close>) over the local command line tool (\<open>tunnel/awg.go\<close>), the server
  reader and the peer manager. The answers of the local tool to the calls of one operation are given by its
  environment, an absent output being an error; the server is the world of the SSH executor. Watchdogs are
  numbered in the order in which they are started.
\<close>

section \<open>The local tool\<close>

record awg_cli =
  aw_AwgPath :: string
  aw_GOOS :: string
  aw_awg :: "string list \<Rightarrow> string \<Rightarrow> string option"
  aw_quick :: "string list \<Rightarrow> string option"

definition Awg_Up :: "awg_cli \<Rightarrow> string \<Rightarrow> bool" where
  "Awg_Up c confPath \<longleftrightarrow> aw_quick c [''up'', confPath] \<noteq> None"

definition Awg_Down :: "awg_cli \<Rightarrow> string \<Rightarrow> bool" where
  "Awg_Down c confPath \<longleftrightarrow> aw_quick c [''down'', confPath] \<noteq> None"

definition Awg_Show :: "awg_cli \<Rightarrow> string \<Rightarrow> string option" where
  "Awg_Show c iface = (if aw_AwgPath c = [] then None else aw_awg c [''show'', iface] [])"

definition Awg_ShowDump :: "awg_cli \<Rightarrow> string \<Rightarrow> string option" where
  "Awg_ShowDump c iface = (if aw_AwgPath c = [] then None else aw_awg c [''show'', iface, ''dump''] [])"

definition Awg_Strip :: "awg_cli \<Rightarrow> string \<Rightarrow> string option" where
  "Awg_Strip c confPath = aw_quick c [''strip'', confPath]"

definition GenKey :: "awg_cli \<Rightarrow> string option" where
  "GenKey c = (if aw_AwgPath c = [] then None else map_option trim_space (aw_awg c [''genkey''] []))"

definition PubKey :: "awg_cli \<Rightarrow> string \<Rightarrow> string option" where
  "PubKey c privateKey =
     (if aw_AwgPath c = [] then None else map_option trim_space (aw_awg c [''pubkey''] (privateKey @ [newline])))"

definition GenerateKeyPair :: "awg_cli \<Rightarrow> (string \<times> string) option" where
  "GenerateKeyPair c =
     (case GenKey c of None \<Rightarrow> None | Some priv \<Rightarrow> map_option (\<lambda>pub. (priv, pub)) (PubKey c priv))"

definition InterfaceExists :: "awg_cli \<Rightarrow> string \<Rightarrow> bool" where
  "InterfaceExists c iface \<longleftrightarrow> Awg_Show c iface \<noteq> None"

text \<open>The first of the interfaces that the tool lists.\<close>

definition discoverDarwin :: "awg_cli \<Rightarrow> string option" where
  "discoverDarwin c =
     (if aw_AwgPath c = [] then None
      else case aw_awg c [''show'', ''interfaces''] [] of
             None \<Rightarrow> None
           | Some out \<Rightarrow> let ifaces = trim_space out in if ifaces = [] then None else Some (hd (split_on newline ifaces)))"

definition discoverWindows :: "awg_cli \<Rightarrow> string option" where
  "discoverWindows c =
     (if aw_AwgPath c = [] then None
      else case aw_awg c [''show'', ''interfaces''] [] of
             None \<Rightarrow> None
           | Some out \<Rightarrow> let ifaces = trim_space out in if ifaces = [] then None else Some (hd (split_on newline ifaces)))"

definition DiscoverInterface :: "awg_cli \<Rightarrow> string \<Rightarrow> string option" where
  "DiscoverInterface c expected =
     (if InterfaceExists c expected then Some expected
      else if aw_GOOS c = ''darwin'' then discoverDarwin c
      else if aw_GOOS c = ''windows'' then discoverWindows c
      else Some expected)"

section \<open>The client configuration\<close>

record client_conf_params =
  cc_PrivateKey :: string
  cc_Address :: string
  cc_ServerPublicKey :: string
  cc_Endpoint :: string
  cc_PresharedKey :: string
  cc_MTU :: int
  cc_PersistentKeepalive :: int
  cc_Obfuscation :: obfuscation_config

definition writeIfNonZero :: "string \<Rightarrow> int \<Rightarrow> string list" where
  "writeIfNonZero key value = (if value \<noteq> 0 then [key @ '' = '' @ show_int value] else [])"

definition obfuscation_lines :: "obfuscation_config \<Rightarrow> string list" where
  "obfuscation_lines o' =
     writeIfNonZero ''Jc'' (obf_Jc o') @ writeIfNonZero ''Jmin'' (obf_Jmin o') @ writeIfNonZero ''Jmax'' (obf_Jmax o')
   @ writeIfNonZero ''S1'' (obf_S1 o') @ writeIfNonZero ''S2'' (obf_S2 o') @ writeIfNonZero ''S3'' (obf_S3 o') @ writeIfNonZero ''S4'' (obf_S4 o')
   @ writeIfNonZero ''H1'' (obf_H1 o') @ writeIfNonZero ''H2'' (obf_H2 o') @ writeIfNonZero ''H3'' (obf_H3 o') @ writeIfNonZero ''H4'' (obf_H4 o')
   @ writeIfNonZero ''I1'' (obf_I1 o') @ writeIfNonZero ''I2'' (obf_I2 o') @ writeIfNonZero ''I3'' (obf_I3 o') @ writeIfNonZero ''I4'' (obf_I4 o')
   @ writeIfNonZero ''I5'' (obf_I5 o')"

definition interface_part :: "client_conf_params \<Rightarrow> string list" where
  "interface_part p = [''[Interface]'', ''PrivateKey = '' @ cc_PrivateKey p, ''Address = '' @ cc_Address p]
     @ (if cc_MTU p > 0 then [''MTU = '' @ show_int (cc_MTU p)] else [])"

definition peer_part :: "client_conf_params \<Rightarrow> string list" where
  "peer_part p = [''[Peer]'', ''PublicKey = '' @ cc_ServerPublicKey p, ''Endpoint = '' @ cc_Endpoint p,
       ''PresharedKey = '' @ cc_PresharedKey p, ''AllowedIPs = 0.0.0.0/0, ::/0'']
     @ (if cc_PersistentKeepalive p > 0 then [''PersistentKeepalive = '' @ show_int (cc_PersistentKeepalive p)] else [])"

definition client_conf :: "client_conf_params \<Rightarrow> string" where
  "client_conf p = unlines (interface_part p @ [[]] @ peer_part p @ obfuscation_lines (cc_Obfuscation p))"

section \<open>State\<close>

record 'w tunnel_state =
  ts_mgr :: manager
  ts_running :: bool
  ts_status :: string
  ts_watchdogs :: "nat set"
  ts_cancel :: "nat option"
  ts_started :: nat
  ts_conf :: "string option"
  ts_world :: 'w

record tunnel_env =
  te_awg :: awg_cli
  te_now :: string
  te_hostname :: string
  te_dir :: "string option"
  te_conf_ok :: bool
  te_io1 :: io_env
  te_io2 :: io_env

definition set_tunnel :: "(tunnel_config \<Rightarrow> tunnel_config) \<Rightarrow> root_config \<Rightarrow> root_config" where
  "set_tunnel f c = c\<lparr>cfg_Tunnel := f (cfg_Tunnel c)\<rparr>"

definition put_status :: "io_env \<Rightarrow> string \<Rightarrow> 'w tunnel_state \<Rightarrow> 'w tunnel_state" where
  "put_status io x s = s\<lparr>ts_status := x, ts_mgr := snd (Manager_Update io (set_tunnel (\<lambda>t. t\<lparr>tun_Status := x\<rparr>)) (ts_mgr s))\<rparr>"

definition tunnel_fail :: "io_env \<Rightarrow> string \<Rightarrow> 'w tunnel_state \<Rightarrow> string option \<times> 'w tunnel_state" where
  "tunnel_fail io msg s = (Some msg, put_status io ''error'' s)"

definition deriveSubnet :: "string \<Rightarrow> string" where
  "deriveSubnet address =
     (case ParseCIDR address of None \<Rightarrow> [] | Some (ip, _) \<Rightarrow> show_ipv4 [ip ! 0, ip ! 1, ip ! 2, 0] @ ''/24'')"

definition deriveServerIP :: "string \<Rightarrow> string" where
  "deriveServerIP address =
     (let idx = length (takeWhile (\<lambda>c. c \<noteq> CHR ''/'') address)
      in if idx < length address \<and> idx > 0 then take idx address else address)"

definition hostnameDefault :: "tunnel_env \<Rightarrow> string" where
  "hostnameDefault e = (if te_hostname e = [] then ''unet-client'' else te_hostname e)"

section \<open>Connecting\<close>

text \<open>What the manager is built with: the SSH executor, SHA-256 and the JSON codecs.\<close>

record 'w tunnel_deps =
  td_ssh :: "'w ssh_executor"
  td_sha256 :: "string \<Rightarrow> string"
  td_clients :: clients_codec
  td_mirror :: mirror_codec

definition NewTunnelManager :: "manager \<Rightarrow> 'w \<Rightarrow> 'w tunnel_state" where
  "NewTunnelManager mgr w = \<lparr>ts_mgr = mgr, ts_running = False, ts_status = ''disconnected'', ts_watchdogs = {}, ts_cancel = None,
     ts_started = 0, ts_conf = None, ts_world = w\<rparr>"

definition startWatchdog :: "'w tunnel_state \<Rightarrow> 'w tunnel_state" where
  "startWatchdog s = s\<lparr>ts_watchdogs := insert (ts_started s) (ts_watchdogs s), ts_cancel := Some (ts_started s), ts_started := ts_started s + 1\<rparr>"

text \<open>\<open>Connect\<close> up to the release of the lock, and the rest of it.\<close>

definition Connect_begin :: "io_env \<Rightarrow> 'w tunnel_state \<Rightarrow> string option \<times> 'w tunnel_state" where
  "Connect_begin io s = (if ts_running s then (Some ''already connected or connecting'', s) else (None, put_status io ''connecting'' s))"

text \<open>The peer is added unless the server already lists it; the result carries the new clients table.\<close>

definition ensure_peer :: "'w tunnel_deps \<Rightarrow> tunnel_env \<Rightarrow> vps_config \<Rightarrow> server_config \<Rightarrow> string \<Rightarrow> string \<Rightarrow> 'w
    \<Rightarrow> (add_peer_error + string option) \<times> 'w" where
  "ensure_peer td e vps srvCfg pubKey localIP w =
     (if \<exists>p \<in> set (svc_Peers srvCfg). pd_PublicKey p = pubKey then (Inr None, w)
      else case AddPeer (td_clients td) (td_ssh td) (te_now e)
             \<lparr>ap_VPS = vps, ap_Interface = ''awg0'', ap_ClientPublicKey = pubKey, ap_ClientIP = localIP,
               ap_PresharedKey = svc_PresharedKey srvCfg, ap_ClientName = hostnameDefault e, ap_PersistentKeepalive = 25\<rparr> w of
             (Inl er, w') \<Rightarrow> (Inl er, w')
           | (Inr ct, w') \<Rightarrow> (Inr (Some ct), w'))"

definition connected_config :: "'w tunnel_deps \<Rightarrow> tunnel_env \<Rightarrow> server_config \<Rightarrow> string \<Rightarrow> string \<Rightarrow> string \<Rightarrow> string \<Rightarrow> string
    \<Rightarrow> string option \<Rightarrow> root_config \<Rightarrow> root_config" where
  "connected_config td e srvCfg privKey pubKey localIP endpoint ifaceName ctJSON c =
     (set_tunnel (\<lambda>t. t\<lparr>tun_InterfaceName := ifaceName, tun_Subnet := deriveSubnet (svc_Address srvCfg),
        tun_ServerIP := deriveServerIP (svc_Address srvCfg), tun_LocalIP := localIP, tun_ServerEndpoint := endpoint,
        tun_ServerPublicKey := svc_ServerPublicKey srvCfg, tun_PresharedKey := svc_PresharedKey srvCfg, tun_PrivateKey := privKey,
        tun_PublicKey := pubKey, tun_MTU := 1280, tun_PersistentKeepalive := 25, tun_Obfuscation := svc_Obfuscation srvCfg,
        tun_Status := ''connected'', tun_ConnectedAt := te_now e\<rparr>) c)
     \<lparr>cfg_ServerMirror := SerializeServerMirror (td_mirror td) (zero_mirror\<lparr>sm_LastSyncedAt := te_now e,
        sm_AwgConfRaw := svc_RawConf srvCfg, sm_AwgConfSha256 := svc_ConfSha256 srvCfg, sm_ClientsTable := ctJSON\<rparr>)\<rparr>"

text \<open>From the added peer on: the local configuration, the interface, the configuration update, the watchdog.\<close>

definition bring_up :: "'w tunnel_deps \<Rightarrow> tunnel_env \<Rightarrow> vps_config \<Rightarrow> server_config \<Rightarrow> string \<Rightarrow> string \<Rightarrow> string \<Rightarrow> string option
    \<Rightarrow> 'w tunnel_state \<Rightarrow> string option \<times> 'w tunnel_state" where
  "bring_up td e vps srvCfg privKey pubKey localIP ctJSON s =
     (let endpoint = vps_Host vps @ '':'' @ show_int (svc_ListenPort srvCfg);
          conf = client_conf \<lparr>cc_PrivateKey = privKey, cc_Address = localIP @ ''/24'', cc_ServerPublicKey = svc_ServerPublicKey srvCfg,
            cc_Endpoint = endpoint, cc_PresharedKey = svc_PresharedKey srvCfg, cc_MTU = 1280, cc_PersistentKeepalive = 25,
            cc_Obfuscation = svc_Obfuscation srvCfg\<rparr>
      in case te_dir e of
           None \<Rightarrow> tunnel_fail (te_io2 e) ''write client conf'' s
         | Some dir \<Rightarrow>
             if \<not> te_conf_ok e then tunnel_fail (te_io2 e) ''write client conf'' s
             else
               let s1 = s\<lparr>ts_conf := Some conf\<rparr> in
               if \<not> Awg_Up (te_awg e) (dir @ ''/awg0'') then tunnel_fail (te_io2 e) ''awg-quick up'' s1
               else
                 let ifaceName = (case DiscoverInterface (te_awg e) ''awg0'' of Some i \<Rightarrow> i | None \<Rightarrow> ''awg0'');
                     m = snd (Manager_Update (te_io2 e) (connected_config td e srvCfg privKey pubKey localIP endpoint ifaceName ctJSON) (ts_mgr s1))
                 in (None, (startWatchdog (s1\<lparr>ts_mgr := m\<rparr>))\<lparr>ts_running := True, ts_status := ''connected''\<rparr>))"

definition Connect_rest :: "'w tunnel_deps \<Rightarrow> tunnel_env \<Rightarrow> 'w tunnel_state \<Rightarrow> string option \<times> 'w tunnel_state" where
  "Connect_rest td e s =
     (let cfg = live (ts_mgr s); vps = cfg_VPS cfg; t = cfg_Tunnel cfg in
      if vps_Host vps = [] then tunnel_fail (te_io2 e) ''VPS host not configured'' s
      else if \<not> vps_IsProvisioned vps then tunnel_fail (te_io2 e) ''VPS not provisioned'' s
      else case FetchAll (td_ssh td) (td_sha256 td) vps ''awg0'' (ts_world s) of
             (None, w1) \<Rightarrow> tunnel_fail (te_io2 e) ''fetch server state'' (s\<lparr>ts_world := w1\<rparr>)
           | (Some srvCfg, w1) \<Rightarrow>
               case (if tun_PrivateKey t = [] \<or> tun_PublicKey t = [] then GenerateKeyPair (te_awg e)
                     else Some (tun_PrivateKey t, tun_PublicKey t)) of
                 None \<Rightarrow> tunnel_fail (te_io2 e) ''generate keypair'' (s\<lparr>ts_world := w1\<rparr>)
               | Some (privKey, pubKey) \<Rightarrow>
                   let subnet = deriveSubnet (svc_Address srvCfg) in
                   if subnet = [] then tunnel_fail (te_io2 e) ''could not derive subnet'' (s\<lparr>ts_world := w1\<rparr>)
                   else case (if tun_LocalIP t = [] then AllocateNextIP subnet (svc_Peers srvCfg) else Some (tun_LocalIP t)) of
                          None \<Rightarrow> tunnel_fail (te_io2 e) ''allocate IP'' (s\<lparr>ts_world := w1\<rparr>)
                        | Some localIP \<Rightarrow>
                            case ensure_peer td e vps srvCfg pubKey localIP w1 of
                              (Inl _, w2) \<Rightarrow> tunnel_fail (te_io2 e) ''add peer'' (s\<lparr>ts_world := w2\<rparr>)
                            | (Inr ctJSON, w2) \<Rightarrow> bring_up td e vps srvCfg privKey pubKey localIP ctJSON (s\<lparr>ts_world := w2\<rparr>))"

definition Connect :: "'w tunnel_deps \<Rightarrow> tunnel_env \<Rightarrow> 'w tunnel_state \<Rightarrow> string option \<times> 'w tunnel_state" where
  "Connect td e s = (case Connect_begin (te_io1 e) s of (Some er, s1) \<Rightarrow> (Some er, s1) | (None, s1) \<Rightarrow> Connect_rest td e s1)"

section \<open>Disconnecting, drift and the watchdog\<close>

definition Disconnect :: "io_env \<Rightarrow> 'w tunnel_state \<Rightarrow> 'w tunnel_state" where
  "Disconnect io s =
     (if \<not> ts_running s then s
      else s\<lparr>ts_watchdogs := (case ts_cancel s of Some i \<Rightarrow> ts_watchdogs s - {i} | None \<Rightarrow> ts_watchdogs s),
             ts_mgr := snd (Manager_Update io (set_tunnel (\<lambda>t. t\<lparr>tun_Status := ''disconnected'', tun_ConnectedAt := []\<rparr>)) (ts_mgr s)),
             ts_running := False, ts_status := ''disconnected''\<rparr>)"

datatype drift = NoDrift | DriftDetected | DriftError | DriftPanics

text \<open>The messages of a detected drift slice both hashes to sixteen bytes.\<close>

definition CheckDrift :: "'w tunnel_deps \<Rightarrow> root_config \<Rightarrow> 'w \<Rightarrow> drift \<times> 'w" where
  "CheckDrift td cfg w =
     (case ParseServerMirror (td_mirror td) (cfg_ServerMirror cfg) of
        None \<Rightarrow> (DriftError, w)
      | Some mirror \<Rightarrow>
          if sm_AwgConfSha256 mirror = [] then (NoDrift, w)
          else case FetchConfHash (td_ssh td) (cfg_VPS cfg) w of
                 (None, w1) \<Rightarrow> (DriftError, w1)
               | (Some remoteHash, w1) \<Rightarrow>
                   if remoteHash \<noteq> sm_AwgConfSha256 mirror then
                     (if length remoteHash < 16 \<or> length (sm_AwgConfSha256 mirror) < 16 then (DriftPanics, w1) else (DriftDetected, w1))
                   else (NoDrift, w1))"

definition watchdogTick :: "'w tunnel_deps \<Rightarrow> awg_cli \<Rightarrow> io_env \<Rightarrow> 'w tunnel_state \<Rightarrow> drift \<times> 'w tunnel_state" where
  "watchdogTick td awg io s =
     (let cfg = live (ts_mgr s);
          ifaceName = (if tun_InterfaceName (cfg_Tunnel cfg) = [] then ''awg0'' else tun_InterfaceName (cfg_Tunnel cfg))
      in if \<not> InterfaceExists awg ifaceName then (NoDrift, put_status io ''error'' s)
         else case CheckDrift td cfg (ts_world s) of (d, w) \<Rightarrow> (d, s\<lparr>ts_world := w\<rparr>))"

section \<open>Peers of other devices\<close>

definition add_remote_config :: "'w tunnel_deps \<Rightarrow> string \<Rightarrow> string \<Rightarrow> string \<Rightarrow> string \<Rightarrow> root_config \<Rightarrow> root_config" where
  "add_remote_config td now ctJSON privKey pubKey c =
     (let mirror = (case ParseServerMirror (td_mirror td) (cfg_ServerMirror c) of Some m \<Rightarrow> m | None \<Rightarrow> zero_mirror);
          c1 = c\<lparr>cfg_ServerMirror := SerializeServerMirror (td_mirror td) (mirror\<lparr>sm_LastSyncedAt := now, sm_ClientsTable := Some ctJSON\<rparr>)\<rparr>
      in if tun_PrivateKey (cfg_Tunnel c1) = [] then set_tunnel (\<lambda>t. t\<lparr>tun_PrivateKey := privKey, tun_PublicKey := pubKey\<rparr>) c1 else c1)"

definition AddPeerForRemote :: "'w tunnel_deps \<Rightarrow> tunnel_env \<Rightarrow> string \<Rightarrow> 'w tunnel_state \<Rightarrow> (string + string) \<times> 'w tunnel_state" where
  "AddPeerForRemote td e name s =
     (let vps = cfg_VPS (live (ts_mgr s)) in
      if vps_Host vps = [] then (Inl ''VPS not configured'', s)
      else case GenerateKeyPair (te_awg e) of
             None \<Rightarrow> (Inl ''generate keypair'', s)
           | Some (privKey, pubKey) \<Rightarrow>
               case FetchAll (td_ssh td) (td_sha256 td) vps ''awg0'' (ts_world s) of
                 (None, w1) \<Rightarrow> (Inl ''fetch server state'', s\<lparr>ts_world := w1\<rparr>)
               | (Some srvCfg, w1) \<Rightarrow>
                   if deriveSubnet (svc_Address srvCfg) = [] then (Inl ''could not derive subnet'', s\<lparr>ts_world := w1\<rparr>)
                   else case AllocateNextIP (deriveSubnet (svc_Address srvCfg)) (svc_Peers srvCfg) of
                          None \<Rightarrow> (Inl ''allocate IP'', s\<lparr>ts_world := w1\<rparr>)
                        | Some clientIP \<Rightarrow>
                            case AddPeer (td_clients td) (td_ssh td) (te_now e)
                                   \<lparr>ap_VPS = vps, ap_Interface = ''awg0'', ap_ClientPublicKey = pubKey, ap_ClientIP = clientIP,
                                     ap_PresharedKey = svc_PresharedKey srvCfg, ap_ClientName = name, ap_PersistentKeepalive = 25\<rparr> w1 of
                              (Inl _, w2) \<Rightarrow> (Inl ''add peer'', s\<lparr>ts_world := w2\<rparr>)
                            | (Inr ct, w2) \<Rightarrow>
                                (Inr pubKey, s\<lparr>ts_world := w2,
                                   ts_mgr := snd (Manager_Update (te_io2 e) (add_remote_config td (te_now e) ct privKey pubKey) (ts_mgr s))\<rparr>))"

text \<open>\<open>json.Marshal\<close> of the remaining entries happens only when there are any.\<close>

definition remove_remote_config :: "'w tunnel_deps \<Rightarrow> (client_entry list \<Rightarrow> string) \<Rightarrow> string \<Rightarrow> string \<Rightarrow> root_config \<Rightarrow> root_config" where
  "remove_remote_config td marshal now publicKey c =
     (case ParseServerMirror (td_mirror td) (cfg_ServerMirror c) of
        None \<Rightarrow> c
      | Some mirror \<Rightarrow>
          let updated = (case sm_ClientsTable mirror of
                           None \<Rightarrow> []
                         | Some ct \<Rightarrow> (case cl_unmarshal (td_clients td) ct of
                             None \<Rightarrow> [] | Some entries \<Rightarrow> filter (\<lambda>e. ce_ClientID e \<noteq> publicKey) entries));
              mirror1 = mirror\<lparr>sm_LastSyncedAt := now\<rparr>;
              mirror2 = (if updated \<noteq> [] then mirror1\<lparr>sm_ClientsTable := Some (marshal updated)\<rparr> else mirror1)
          in c\<lparr>cfg_ServerMirror := SerializeServerMirror (td_mirror td) mirror2\<rparr>)"

definition RemovePeerByPublicKey :: "'w tunnel_deps \<Rightarrow> (client_entry list \<Rightarrow> string) \<Rightarrow> tunnel_env \<Rightarrow> string \<Rightarrow> 'w tunnel_state
    \<Rightarrow> string option \<times> 'w tunnel_state" where
  "RemovePeerByPublicKey td marshal e publicKey s =
     (let vps = cfg_VPS (live (ts_mgr s)) in
      if vps_Host vps = [] then (Some ''VPS not configured'', s)
      else (None, s\<lparr>ts_world := RemovePeer (td_clients td) (td_ssh td) vps ''awg0'' publicKey (ts_world s),
                    ts_mgr := snd (Manager_Update (te_io2 e) (remove_remote_config td marshal (te_now e) publicKey) (ts_mgr s))\<rparr>))"

section \<open>What the parser sees of a client configuration\<close>

lemma trim_space_core:
  assumes "list_all is_space p" and "list_all is_space q" and "m \<noteq> []" and "\<not> is_space (hd m)" and "\<not> is_space (last m)"
  shows "trim_space (p @ m @ q) = m"
proof -
  have "dropWhile is_space (p @ m @ q) = m @ q"
    using assms(1,3,4) by (cases m) (auto simp: dropWhile_append2 list_all_iff)
  moreover have "dropWhile is_space (rev (m @ q)) = rev m"
  proof -
    obtain ms c where m: "m = ms @ [c]" using assms(3) by (cases m rule: rev_cases) auto
    have "dropWhile is_space (rev q @ rev m) = dropWhile is_space (rev m)"
      using assms(2) by (intro dropWhile_append2) (auto simp: list_all_iff)
    then show ?thesis using m assms(5) by simp
  qed
  ultimately show ?thesis by (simp add: trim_space_def)
qed

lemma space_split:
  obtains "list_all is_space v" | p m q where "v = p @ m @ q" "list_all is_space p" "list_all is_space q" "m \<noteq> []"
    "\<not> is_space (hd m)" "\<not> is_space (last m)"
proof (cases "list_all is_space v")
  case False
  then have ne: "dropWhile is_space v \<noteq> []" by (auto simp: list_all_iff dropWhile_eq_Nil_conv)
  let ?d = "dropWhile is_space v"
  let ?m = "rev (dropWhile is_space (rev ?d))" and ?q = "rev (takeWhile is_space (rev ?d))"
  have dq: "?d = ?m @ ?q" by (metis rev_append rev_rev_ident takeWhile_dropWhile_id)
  have h: "\<not> is_space (hd ?d)" using ne by (rule hd_dropWhile)
  have m: "?m \<noteq> []"
  proof
    assume "?m = []"
    then have "\<forall>c \<in> set ?d. is_space c" by (simp add: dropWhile_eq_Nil_conv)
    then show False using ne h by (meson list.set_sel(1))
  qed
  moreover have "hd ?m = hd ?d" using m dq by (metis hd_append2)
  moreover have "\<not> is_space (last ?m)" using m hd_dropWhile [of is_space "rev ?d"] by (simp add: last_rev)
  moreover have "v = takeWhile is_space v @ ?m @ ?q" using dq by (metis takeWhile_dropWhile_id)
  moreover have "list_all is_space (takeWhile is_space v)" "list_all is_space ?q"
    by (auto simp: list_all_iff dest: set_takeWhileD)
  ultimately show ?thesis using h that(2) by metis
qed (rule that(1))

lemma key_char_not_space: "key_char c \<Longrightarrow> \<not> is_space c"
  by (auto simp: key_char_def is_space_def is_digit_def)

lemma split_assignment:
  assumes "k \<noteq> []" and "list_all key_char k"
  shows "splitKeyValue (trim_space (k @ '' = '' @ v)) = Some (k, trim_space v)"
    and "trim_space (k @ '' = '' @ v) \<noteq> []" and "hd (trim_space (k @ '' = '' @ v)) = hd k"
proof -
  have h: "\<not> is_space (hd k)" using assms key_char_not_space by (cases k) auto
  have sp: "is_space CHR '' ''" "\<not> is_space CHR ''=''" "\<not> key_char CHR '' ''" by (simp_all add: is_space_def key_char_def is_digit_def)
  have split: "splitKeyValue (k @ '' ='' @ r) = Some (k, trim_space r)" for r
  proof -
    have "dropWhile is_space (k @ '' ='' @ r) = k @ '' ='' @ r" using assms(1) h by (cases k) auto
    moreover have "takeWhile key_char (k @ '' ='' @ r) = k" "dropWhile key_char (k @ '' ='' @ r) = '' ='' @ r"
      using assms(2) sp by (simp_all add: takeWhile_append2 dropWhile_append2 list_all_iff)
    ultimately show ?thesis using assms(1) sp by (simp add: splitKeyValue_def has_prefix_def)
  qed
  show "splitKeyValue (trim_space (k @ '' = '' @ v)) = Some (k, trim_space v)"
    and "trim_space (k @ '' = '' @ v) \<noteq> []" and "hd (trim_space (k @ '' = '' @ v)) = hd k"
  proof (atomize (full), cases rule: space_split [of v])
    case 1
    have "trim_space ([] @ (k @ '' ='') @ ('' '' @ v)) = k @ '' =''"
      using 1 assms(1) h sp by (intro trim_space_core) (auto simp: list_all_iff)
    moreover have "trim_space v = []" using 1 by (simp add: trim_space_def dropWhile_eq_Nil_conv [THEN iffD2] list_all_iff)
    ultimately show "splitKeyValue (trim_space (k @ '' = '' @ v)) = Some (k, trim_space v) \<and> trim_space (k @ '' = '' @ v) \<noteq> []
        \<and> hd (trim_space (k @ '' = '' @ v)) = hd k" using split [of "[]"] assms(1) by (simp add: trim_space_def)
  next
    case (2 p m q)
    have "trim_space ([] @ (k @ '' = '' @ p @ m) @ q) = k @ '' = '' @ p @ m"
      using 2 assms(1) h by (intro trim_space_core) auto
    moreover have "trim_space ('' '' @ p @ m) = m" using trim_space_core [of "'' '' @ p" "[]" m] 2 sp by simp
    moreover have "trim_space v = m" using trim_space_core [of p q m] 2 by simp
    ultimately show "splitKeyValue (trim_space (k @ '' = '' @ v)) = Some (k, trim_space v) \<and> trim_space (k @ '' = '' @ v) \<noteq> []
        \<and> hd (trim_space (k @ '' = '' @ v)) = hd k" using split [of "'' '' @ p @ m"] assms(1) 2(1) by simp
  qed
qed

text \<open>The lines of a section, one assignment each.\<close>

definition assignment :: "string \<times> string \<Rightarrow> string" where
  "assignment kv = fst kv @ '' = '' @ snd kv"

definition plain_assignments :: "(string \<times> string) list \<Rightarrow> bool" where
  "plain_assignments kvs \<longleftrightarrow> (\<forall>kv \<in> set kvs. fst kv \<noteq> [] \<and> list_all key_char (fst kv) \<and> newline \<notin> set (snd kv))"

lemma newline_not_key: "\<not> key_char newline"
  by (simp add: newline_def key_char_def is_digit_def)

lemma assignment_no_newline: "plain_assignments kvs \<Longrightarrow> kv \<in> set kvs \<Longrightarrow> newline \<notin> set (assignment kv)"
proof -
  assume "plain_assignments kvs" "kv \<in> set kvs"
  then have "list_all key_char (fst kv)" "newline \<notin> set (snd kv)" by (auto simp: plain_assignments_def)
  moreover have "newline \<notin> set '' = ''" by (simp add: newline_def)
  ultimately show ?thesis using newline_not_key by (auto simp: assignment_def list_all_iff)
qed

lemma section_assignments:
  assumes "plain_assignments kvs"
  shows "section_lines ''[Interface]'' True (map assignment kvs @ rest) = map assignment kvs @ section_lines ''[Interface]'' True rest"
  using assms
proof (induction kvs)
  case (Cons kv kvs)
  then have k: "fst kv \<noteq> []" "list_all key_char (fst kv)" by (auto simp: plain_assignments_def)
  let ?l = "trim_space (assignment kv)"
  have l: "?l \<noteq> []" "hd ?l = hd (fst kv)" using split_assignment(2,3) [OF k] by (simp_all add: assignment_def)
  have "key_char (hd (fst kv))" using k by (cases "fst kv") auto
  then have "hd ?l \<noteq> CHR ''[''" using l by (auto simp: key_char_def is_digit_def)
  then have "?l \<noteq> ''[Interface]''" "\<not> has_prefix ?l ''[''" using l(1) by (auto simp: has_prefix_def) (cases ?l, auto)+
  then show ?case using Cons by (simp add: plain_assignments_def)
qed simp

lemma trim_right_lines:
  assumes "ls \<noteq> []" and "last ls \<noteq> []" and "newline \<notin> set (last ls)"
  shows "trim_right newline (unlines (ls @ [[]])) = join_with [newline] ls"
proof -
  have j: "unlines xs = join_with [newline] xs @ [newline]" if "xs \<noteq> []" for xs
    using that by (induction xs rule: induct_list012) (auto simp: unlines_def)
  have lj: "join_with [newline] ls \<noteq> [] \<and> last (join_with [newline] ls) = last (last ls)"
    using assms(1,2)
  proof (induction ls rule: induct_list012)
    case (3 x y zs)
    then show ?case by (cases zs) auto
  qed auto
  have "last (last ls) \<noteq> newline" using assms(2,3) by (metis last_in_set)
  then have "dropWhile (\<lambda>x. x = newline) (rev (join_with [newline] ls)) = rev (join_with [newline] ls)"
    using lj by (cases "join_with [newline] ls" rule: rev_cases) auto
  moreover have "unlines (ls @ [[]]) = join_with [newline] ls @ [newline, newline]"
    using j [OF assms(1)] by (simp add: unlines_append) (simp add: unlines_def)
  ultimately show ?thesis by (simp add: trim_right_def)
qed

lemma split_join: "ls \<noteq> [] \<Longrightarrow> \<forall>l \<in> set ls. newline \<notin> set l \<Longrightarrow> split_on newline (join_with [newline] ls) = ls"
proof (induction ls rule: induct_list012)
  case (2 x)
  then show ?case by (simp add: split_on_no_sep)
next
  case (3 x y zs)
  then show ?case using split_on_append [of newline x "join_with [newline] (y # zs)"] by simp
qed simp

text \<open>The interface section of a text that starts with it, has one assignment per line and then an empty line and
  another header.\<close>

lemma extract_assignments:
  assumes "plain_assignments kvs" and "kvs \<noteq> []"
  shows "split_on newline (extractSection (unlines ([''[Interface]''] @ map assignment kvs @ [[], ''[Peer]'']) @ rest) ''Interface'')
     = map assignment kvs"
    and "extractSection (unlines ([''[Interface]''] @ map assignment kvs @ [[], ''[Peer]'']) @ rest) ''Interface'' \<noteq> []"
proof -
  have hdr: "''['' @ ''Interface'' @ '']'' = ''[Interface]''" by simp
  have tr: "trim_space ''[Interface]'' = ''[Interface]''" "trim_space ''[Peer]'' = ''[Peer]''" "trim_space [] = []" by code_simp+
  have nl: "newline \<notin> set ''[Interface]''" "newline \<notin> set ''[Peer]''" by (simp_all add: newline_def)
  have an: "\<forall>l \<in> set (map assignment kvs). newline \<notin> set l" using assignment_no_newline [OF assms(1)] by auto
  have "split_on newline (unlines ([''[Interface]''] @ map assignment kvs @ [[], ''[Peer]'']) @ rest)
      = ([''[Interface]''] @ map assignment kvs @ [[], ''[Peer]'']) @ split_on newline rest"
    using nl an by (intro split_unlines) auto
  moreover have "section_lines ''[Interface]'' True ([[], ''[Peer]''] @ xs) = [[]]" for xs
    by (simp add: tr has_prefix_def has_suffix_def)
  ultimately have sec: "section_lines ''[Interface]'' False (split_on newline (unlines ([''[Interface]''] @ map assignment kvs @ [[], ''[Peer]'']) @ rest))
      = map assignment kvs @ [[]]"
    using section_assignments [OF assms(1), of "[[], ''[Peer]''] @ split_on newline rest"] by (simp add: tr)
  have la: "last (map assignment kvs) \<noteq> []" using assms(1,2) by (auto simp: last_map assignment_def plain_assignments_def)
  have ln: "newline \<notin> set (last (map assignment kvs))" using an assms(2) by (metis last_in_set map_is_Nil_conv)
  have ex: "extractSection (unlines ([''[Interface]''] @ map assignment kvs @ [[], ''[Peer]'']) @ rest) ''Interface'' = join_with [newline] (map assignment kvs)"
    unfolding extractSection_def hdr sec unfolding unlines_def [symmetric] using la ln assms(2) by (intro trim_right_lines) auto
  show "split_on newline (extractSection (unlines ([''[Interface]''] @ map assignment kvs @ [[], ''[Peer]'']) @ rest) ''Interface'') = map assignment kvs"
    unfolding ex using an assms(2) by (intro split_join) auto
  show "extractSection (unlines ([''[Interface]''] @ map assignment kvs @ [[], ''[Peer]'']) @ rest) ''Interface'' \<noteq> []"
    unfolding ex using assms(2) by (cases kvs rule: list.exhaust; cases "tl kvs") (auto simp: assignment_def)
qed

lemma interface_line_assignment:
  assumes "fst kv \<noteq> []" and "list_all key_char (fst kv)"
  shows "interface_line (assignment kv) scfg =
    (if fst kv = ''Address'' then Some (scfg\<lparr>svc_Address := trim_space (snd kv)\<rparr>)
     else if fst kv = ''ListenPort'' then map_option (\<lambda>n. scfg\<lparr>svc_ListenPort := n\<rparr>) (Atoi (trim_space (snd kv)))
     else Some (scfg\<lparr>svc_Obfuscation := set_obfuscation (fst kv) (Atoi_value (trim_space (snd kv))) (svc_Obfuscation scfg)\<rparr>))"
proof -
  let ?l = "trim_space (assignment kv)"
  have l: "splitKeyValue ?l = Some (fst kv, trim_space (snd kv))" "?l \<noteq> []" "hd ?l = hd (fst kv)"
    using split_assignment [OF assms] by (simp_all add: assignment_def)
  have "key_char (hd (fst kv))" using assms by (cases "fst kv") auto
  then have "\<not> has_prefix ?l ''#''" using l(2,3) by (cases ?l) (auto simp: has_prefix_def key_char_def is_digit_def)
  then show ?thesis using l by (simp add: interface_line_def Let_def)
qed

text \<open>The client configuration keeps none of the obfuscation parameters where a reader of configurations looks for
  them: they are written after the peer header, so in the interface section, from which the program's own
  parser takes them, there is only the address. Whatever the parameters are, reading the file back gives none.\<close>

theorem client_conf_loses_obfuscation:
  assumes "newline \<notin> set (cc_PrivateKey p)" and "newline \<notin> set (cc_Address p)"
  shows "parseInterfaceSection (client_conf p) zero_server_config
    = Some (zero_server_config\<lparr>svc_Address := trim_space (cc_Address p)\<rparr>)"
proof -
  let ?kvs = "[(''PrivateKey'', cc_PrivateKey p), (''Address'', cc_Address p)] @ (if cc_MTU p > 0 then [(''MTU'', show_int (cc_MTU p))] else [])"
  let ?rest = "unlines (tl (peer_part p) @ obfuscation_lines (cc_Obfuscation p))"
  have digits: "newline \<notin> set (show_int n)" for n
    using show_nat_all_digits [of "nat n"] show_nat_all_digits [of "nat (- n)"]
    by (auto simp: show_int_def list_all_iff is_digit_def newline_def)
  have kc: "list_all key_char ''PrivateKey''" "list_all key_char ''Address''" "list_all key_char ''MTU''" by code_simp+
  have pl: "plain_assignments ?kvs" using assms digits kc by (auto simp: plain_assignments_def)
  have "client_conf p = unlines ([''[Interface]''] @ map assignment ?kvs @ [[], ''[Peer]'']) @ ?rest"
    by (simp add: client_conf_def interface_part_def peer_part_def assignment_def unlines_def)
  then have "split_on newline (extractSection (client_conf p) ''Interface'') = map assignment ?kvs"
      "extractSection (client_conf p) ''Interface'' \<noteq> []"
    using extract_assignments [OF pl, of ?rest] by simp_all
  moreover have "interface_lines (map assignment ?kvs) zero_server_config = Some (zero_server_config\<lparr>svc_Address := trim_space (cc_Address p)\<rparr>)"
    using kc by (simp add: interface_line_assignment set_obfuscation_def)
  ultimately show ?thesis by (simp add: parseInterfaceSection_def Let_def)
qed

theorem client_conf_loses_obfuscation_witness:
  "map_option svc_Obfuscation (parseInterfaceSection (client_conf \<lparr>cc_PrivateKey = ''k'', cc_Address = ''10.8.1.2/24'', cc_ServerPublicKey = ''s'',
     cc_Endpoint = ''vps:31075'', cc_PresharedKey = ''p'', cc_MTU = 1280, cc_PersistentKeepalive = 25,
     cc_Obfuscation = zero_obfuscation\<lparr>obf_Jc := 5, obf_H1 := 1234567\<rparr>\<rparr>) zero_server_config) = Some zero_obfuscation"
  using client_conf_loses_obfuscation [of "\<lparr>cc_PrivateKey = ''k'', cc_Address = ''10.8.1.2/24'', cc_ServerPublicKey = ''s'',
     cc_Endpoint = ''vps:31075'', cc_PresharedKey = ''p'', cc_MTU = 1280, cc_PersistentKeepalive = 25,
     cc_Obfuscation = zero_obfuscation\<lparr>obf_Jc := 5, obf_H1 := 1234567\<rparr>\<rparr>"]
  by (simp add: newline_def zero_server_config_def)

section \<open>The mirror after a connection\<close>

lemma AddPeer_conf:
  assumes "awg_laws (td_ssh td) (container_of vps) af" and "codec_ok cl"
    and "AddPeer cl (td_ssh td) now params w = (Inr ct, w')" and "ap_VPS params = vps"
  shows "\<exists>block. block \<noteq> [] \<and> af_conf af w' = af_conf af w @ block"
proof -
  let ?sx = "td_ssh td" and ?c = "container_of vps" and ?if = "if ap_Interface params = [] then ''awg0'' else ap_Interface params"
  let ?block = "buildPeerBlock (ap_ClientPublicKey params) (ap_PresharedKey params) (ap_ClientIP params)
      (if ap_PersistentKeepalive params = 0 then 25 else ap_PersistentKeepalive params)"
  obtain w1 w2 w3 where a: "appendPeerBlock ?sx ?c ?block w = (True, w1)" and b: "syncConf ?sx ?c ?if w1 = (True, w2)"
    and v: "verifyPeer ?sx ?c ?if (ap_ClientPublicKey params) w2 = (True, w3)"
    and u: "updateClientsTable cl ?sx ?c (ap_ClientPublicKey params) (ap_ClientName params) now w3 = (Some ct, w')"
    using assms(3) unfolding AddPeer_def Let_def assms(4) by (auto split: prod.splits bool.splits option.splits)
  obtain out where "sx_script ?sx (append_script ?c ?block) w = (Some out, w1)"
    using a by (auto simp: appendPeerBlock_def split: prod.splits)
  then have "af_conf af w1 = af_conf af w @ ?block" by (rule awg_lawsD(1) [OF assms(1)])
  moreover have "w2 = snd (sx_command ?sx (dockerExec ?c (sync_script ?if)) w1)"
    using b by (auto simp: syncConf_def split: prod.splits)
  then have "af_conf af w2 = af_conf af w1" using awg_lawsD(2) [OF assms(1)] by (simp add: reads_only_def)
  moreover have "w3 = snd (sx_command ?sx (dockerExec ?c (''awg show '' @ shellArg ?if @ '' peers'')) w2)"
    using v unfolding verifyPeer_def by (auto split: prod.splits option.splits)
  then have "af_conf af w3 = af_conf af w2" using awg_lawsD(3) [OF assms(1)] by (simp add: reads_only_def)
  moreover have "af_conf af w' = af_conf af w3"
  proof -
    obtain r w4 where r: "readClientsTable cl ?sx ?c w3 = (r, w4)" by (rule that) (rule prod.collapse [symmetric])
    have "af_conf af w4 = af_conf af w3" using read_table_step [OF assms(1) r] by (simp add: reads_only_def)
    then show ?thesis using u r write_table_Some [OF assms(1,2)] by (auto simp: updateClientsTable_def)
  qed
  moreover have "?block \<noteq> []" by (simp add: buildPeerBlock_def)
  ultimately show ?thesis by metis
qed

lemma interface_line_keeps:
  "interface_line l c = Some c' \<Longrightarrow> svc_ConfSha256 c' = svc_ConfSha256 c \<and> svc_RawConf c' = svc_RawConf c"
  by (auto simp: interface_line_def Let_def split: if_splits option.splits)

lemma interface_lines_keep:
  "interface_lines ls c = Some c' \<Longrightarrow> svc_ConfSha256 c' = svc_ConfSha256 c \<and> svc_RawConf c' = svc_RawConf c"
proof (induction ls arbitrary: c)
  case (Cons l ls)
  then obtain c1 where "interface_line l c = Some c1" "interface_lines ls c1 = Some c'" by (auto split: option.splits)
  then show ?case using Cons.IH [of c1] interface_line_keeps [of l c c1] by simp
qed simp

lemma FetchAll_conf:
  assumes laws: "awg_laws sx (container_of vps) af" and f: "FetchAll sx sha vps iface w = (Some c, w')"
  shows "svc_ConfSha256 c = sha (af_conf af w) \<and> svc_RawConf c = af_conf af w \<and> af_conf af w' = af_conf af w"
proof -
  let ?cat = "\<lambda>p. dockerExecCmd (container_of vps) (''cat '' @ shellArg p)"
  obtain conf w1 c1 key w2 psk w3 dump w4 where a: "sx_command sx (?cat ''/opt/amnezia/awg/awg0.conf'') w = (Some conf, w1)"
    and p: "parseInterfaceSection conf (zero_server_config\<lparr>svc_RawConf := conf, svc_ConfSha256 := sha conf\<rparr>) = Some c1"
    and k: "sx_command sx (?cat ''/opt/amnezia/awg/wireguard_server_public_key.key'') w1 = (Some key, w2)"
    and s: "sx_command sx (?cat ''/opt/amnezia/awg/wireguard_psk.key'') w2 = (Some psk, w3)"
    and d: "fetchPeerDump sx (container_of vps) iface w3 = (dump, w4)" and w: "w' = w4"
    and c: "c = (case dump of None \<Rightarrow> c1\<lparr>svc_ServerPublicKey := trim_space key, svc_PresharedKey := trim_space psk\<rparr>
        | Some ps \<Rightarrow> c1\<lparr>svc_ServerPublicKey := trim_space key, svc_PresharedKey := trim_space psk, svc_Peers := ps\<rparr>)"
    using f unfolding FetchAll_def dockerCat_def Let_def by (auto split: prod.splits option.splits)
  have "w4 = snd (sx_command sx (dockerExecCmd (container_of vps) (''awg show '' @ shellArg iface @ '' dump'')) w3)"
    using d by (auto simp: fetchPeerDump_def split: prod.splits)
  then have "af_conf af w4 = af_conf af w3" using awg_lawsD(4) [OF laws] by (simp add: reads_only_def)
  moreover have "af_conf af w1 = af_conf af w" "af_conf af w2 = af_conf af w1" "af_conf af w3 = af_conf af w2"
    using awg_lawsD(5) [OF laws, of w "''/opt/amnezia/awg/awg0.conf''"] awg_lawsD(5) [OF laws, of w1 "''/opt/amnezia/awg/wireguard_server_public_key.key''"]
      awg_lawsD(5) [OF laws, of w2 "''/opt/amnezia/awg/wireguard_psk.key''"] a k s by (simp_all only: reads_only_def snd_conv)
  moreover have "conf = af_conf af w" by (rule awg_lawsD(6) [OF laws a])
  moreover have "svc_ConfSha256 c1 = sha conf" "svc_RawConf c1 = conf"
    using p interface_lines_keep by (fastforce simp: parseInterfaceSection_def Let_def split: if_splits)+
  ultimately show ?thesis using w c by (auto split: option.splits)
qed

lemma tunnel_fail_not_None [simp]: "tunnel_fail io msg s \<noteq> (None, s')"
  by (simp add: tunnel_fail_def)

lemma Connect_rest_success:
  assumes "Connect_rest td e s = (None, s')"
  obtains w1 srvCfg privKey pubKey localIP ctJSON w2 where
    "FetchAll (td_ssh td) (td_sha256 td) (cfg_VPS (live (ts_mgr s))) ''awg0'' (ts_world s) = (Some srvCfg, w1)"
    "ensure_peer td e (cfg_VPS (live (ts_mgr s))) srvCfg pubKey localIP w1 = (Inr ctJSON, w2)"
    "bring_up td e (cfg_VPS (live (ts_mgr s))) srvCfg privKey pubKey localIP ctJSON (s\<lparr>ts_world := w2\<rparr>) = (None, s')"
  using assms unfolding Connect_rest_def Let_def
  by (auto split: if_splits prod.splits option.splits sum.splits)

lemma bring_up_success:
  assumes "bring_up td e vps srvCfg privKey pubKey localIP ctJSON s = (None, s')"
  obtains endpoint iface where
    "ts_mgr s' = snd (Manager_Update (te_io2 e) (connected_config td e srvCfg privKey pubKey localIP endpoint iface ctJSON) (ts_mgr s))"
    "ts_world s' = ts_world s" "ts_watchdogs s' = insert (ts_started s) (ts_watchdogs s)" "ts_cancel s' = Some (ts_started s)"
    "ts_started s' = ts_started s + 1" "ts_running s'"
  using assms unfolding bring_up_def Let_def
  by (auto simp: startWatchdog_def tunnel_fail_def split: option.splits if_splits)

lemma live_set_tunnel_vps:
  assumes "manager_ok m"
  shows "cfg_VPS (live (snd (Manager_Update io (set_tunnel f) m))) = cfg_VPS (live m)"
proof -
  obtain r m' where u: "Manager_Update io (set_tunnel f) m = (r, m')" by (rule that) (rule prod.collapse [symmetric])
  then show ?thesis using Manager_Update_step [OF assms u] by (auto simp: update_outcome_def set_tunnel_def split: option.splits)
qed

lemma manager_ok_update: "manager_ok m \<Longrightarrow> manager_ok (snd (Manager_Update io f m))"
  using Manager_Update_step [of m io f "fst (Manager_Update io f m)" "snd (Manager_Update io f m)"] by simp

lemma update_all_ok:
  assumes "manager_ok m"
  shows "live (snd (Manager_Update io_all_ok fn m)) = fn (live m)"
proof -
  have "fst (Manager_Update io_all_ok fn m) = None"
    using config_file.save_all_ok [of "fn (deref m (mgr_config m))" "mgr_disk m"]
    by (auto simp: Manager_Update_def Let_def split: prod.splits option.splits)
  then show ?thesis
    using Manager_Update_step [OF assms, of io_all_ok fn None "snd (Manager_Update io_all_ok fn m)"] by (simp add: update_outcome_def prod_eq_iff)
qed

definition mirror_codec_ok :: "mirror_codec \<Rightarrow> bool" where
  "mirror_codec_ok mc \<longleftrightarrow> (\<forall>m. \<exists>t. mc_marshal mc m = Some t \<and> t \<noteq> [] \<and> mc_unmarshal mc t = Some m)"

text \<open>\<open>sha256sum\<close> prints the hash of the file, in 64 characters, and then its name, and writes nothing.\<close>

definition hash_laws :: "'w tunnel_deps \<Rightarrow> string \<Rightarrow> 'w awg_files \<Rightarrow> bool" where
  "hash_laws td container af \<longleftrightarrow>
     (\<forall>x. length (td_sha256 td x) = 64 \<and> list_all (\<lambda>c. \<not> is_space c) (td_sha256 td x))
   \<and> (\<forall>w out w'. sx_command (td_ssh td) (dockerExecCmd container ''sha256sum /opt/amnezia/awg/awg0.conf'') w = (out, w')
        \<longrightarrow> af_conf af w' = af_conf af w \<and> (\<forall>t. out = Some t \<longrightarrow> (\<exists>rest. t = td_sha256 td (af_conf af w) @ '' '' @ rest)))"

lemma hash_lawsD:
  assumes "hash_laws td container af"
  shows "length (td_sha256 td x) = 64" and "list_all (\<lambda>c. \<not> is_space c) (td_sha256 td x)" and "td_sha256 td x \<noteq> []"
    and "sx_command (td_ssh td) (dockerExecCmd container ''sha256sum /opt/amnezia/awg/awg0.conf'') w = (out, w')
      \<Longrightarrow> af_conf af w' = af_conf af w \<and> (\<forall>t. out = Some t \<longrightarrow> (\<exists>rest. t = td_sha256 td (af_conf af w) @ '' '' @ rest))"
proof -
  show l: "length (td_sha256 td x) = 64" and "list_all (\<lambda>c. \<not> is_space c) (td_sha256 td x)"
    using assms unfolding hash_laws_def by blast+
  from l show "td_sha256 td x \<noteq> []" by auto
  show "sx_command (td_ssh td) (dockerExecCmd container ''sha256sum /opt/amnezia/awg/awg0.conf'') w = (out, w')
      \<Longrightarrow> af_conf af w' = af_conf af w \<and> (\<forall>t. out = Some t \<longrightarrow> (\<exists>rest. t = td_sha256 td (af_conf af w) @ '' '' @ rest))"
    using assms unfolding hash_laws_def by blast
qed

lemma first_field_word: "w \<noteq> [] \<Longrightarrow> list_all (\<lambda>c. \<not> is_space c) w \<Longrightarrow> first_field (w @ '' '' @ rest) = Some w"
proof -
  assume w: "w \<noteq> []" "list_all (\<lambda>c. \<not> is_space c) w"
  have "dropWhile is_space (w @ '' '' @ rest) = w @ '' '' @ rest" using w by (cases w) auto
  moreover have "takeWhile (\<lambda>c. \<not> is_space c) (w @ '' '' @ rest) = w"
    using w(2) by (simp add: takeWhile_append2 list_all_iff is_space_def)
  ultimately show ?thesis using w(1) by (simp add: first_field_def)
qed

text \<open>What a successful \<open>Connect\<close> leaves behind: the server file with or without the block of the new peer, and in
  the configuration the hash of the file as it was before.\<close>

lemma Connect_mirror:
  assumes laws: "awg_laws (td_ssh td) (container_of (cfg_VPS (live (ts_mgr s)))) af" and cl: "codec_ok (td_clients td)"
    and mc: "mirror_codec_ok (td_mirror td)" and m: "manager_ok (ts_mgr s)" and io: "te_io2 e = io_all_ok"
    and c: "Connect td e s = (None, s')" and changed: "af_conf af (ts_world s') \<noteq> af_conf af (ts_world s)"
  obtains mirror where "\<exists>block. af_conf af (ts_world s') = af_conf af (ts_world s) @ block"
    and "cfg_VPS (live (ts_mgr s')) = cfg_VPS (live (ts_mgr s))" and "manager_ok (ts_mgr s')"
    and "ParseServerMirror (td_mirror td) (cfg_ServerMirror (live (ts_mgr s'))) = Some mirror"
    and "sm_AwgConfSha256 mirror = td_sha256 td (af_conf af (ts_world s))"
proof -
  let ?s1 = "put_status (te_io1 e) ''connecting'' s" and ?vps = "cfg_VPS (live (ts_mgr s))"
  have rest: "Connect_rest td e ?s1 = (None, s')" using c by (auto simp: Connect_def Connect_begin_def split: if_splits)
  have s1: "cfg_VPS (live (ts_mgr ?s1)) = ?vps" "ts_world ?s1 = ts_world s" "manager_ok (ts_mgr ?s1)"
    using live_set_tunnel_vps [OF m] manager_ok_update [OF m] by (simp_all add: put_status_def)
  obtain w1 srv priv pub ip ct w2 where f: "FetchAll (td_ssh td) (td_sha256 td) ?vps ''awg0'' (ts_world s) = (Some srv, w1)"
    and p: "ensure_peer td e ?vps srv pub ip w1 = (Inr ct, w2)"
    and b: "bring_up td e ?vps srv priv pub ip ct (?s1\<lparr>ts_world := w2\<rparr>) = (None, s')"
    using Connect_rest_success [OF rest] unfolding s1 by metis
  obtain endpoint iface where
    upd: "ts_mgr s' = snd (Manager_Update (te_io2 e) (connected_config td e srv priv pub ip endpoint iface ct) (ts_mgr ?s1))"
    and w': "ts_world s' = w2" by (rule bring_up_success [OF b]) simp
  have srv: "svc_ConfSha256 srv = td_sha256 td (af_conf af (ts_world s))" "af_conf af w1 = af_conf af (ts_world s)"
    using FetchAll_conf [OF laws f] by simp_all
  have "af_conf af w2 = af_conf af w1 \<or> (\<exists>block. af_conf af w2 = af_conf af w1 @ block)"
    using p AddPeer_conf [OF laws cl, of "te_now e" _ w1 _ w2]
    by (fastforce simp: ensure_peer_def split: if_splits prod.splits sum.splits)
  then have block: "\<exists>block. af_conf af (ts_world s') = af_conf af (ts_world s) @ block" using srv(2) w' changed by auto
  let ?fn = "connected_config td e srv priv pub ip endpoint iface ct"
  have live': "live (ts_mgr s') = ?fn (live (ts_mgr ?s1))" using upd update_all_ok [OF s1(3)] io by simp
  define mirror where "mirror = zero_mirror\<lparr>sm_LastSyncedAt := te_now e, sm_AwgConfRaw := svc_RawConf srv,
      sm_AwgConfSha256 := svc_ConfSha256 srv, sm_ClientsTable := ct\<rparr>"
  have mir: "cfg_ServerMirror (live (ts_mgr s')) = SerializeServerMirror (td_mirror td) mirror" "cfg_VPS (live (ts_mgr s')) = ?vps"
    using live' s1(1) by (simp_all add: connected_config_def mirror_def set_tunnel_def)
  obtain t where "mc_marshal (td_mirror td) mirror = Some t" "t \<noteq> []" "mc_unmarshal (td_mirror td) t = Some mirror"
    using mc unfolding mirror_codec_ok_def by blast
  then have "ParseServerMirror (td_mirror td) (cfg_ServerMirror (live (ts_mgr s'))) = Some mirror"
    by (simp add: mir ParseServerMirror_def SerializeServerMirror_def)
  moreover have "sm_AwgConfSha256 mirror = td_sha256 td (af_conf af (ts_world s))" using srv(1) by (simp add: mirror_def)
  moreover have "manager_ok (ts_mgr s')" using upd manager_ok_update [OF s1(3)] by simp
  ultimately show ?thesis using that [of mirror] block mir(2) by blast
qed

text \<open>What the drift check says when the hash in the configuration is not that of the file, and that it writes
  nothing.\<close>

lemma FetchConfHash_reads:
  assumes hash: "hash_laws td (container_of vps) af"
  shows "af_conf af (snd (FetchConfHash (td_ssh td) vps w)) = af_conf af w"
    and "fst (FetchConfHash (td_ssh td) vps w) \<in> {None, Some (td_sha256 td (af_conf af w))}"
proof -
  obtain out w3 where cmd: "sx_command (td_ssh td) (dockerExecCmd (container_of vps) ''sha256sum /opt/amnezia/awg/awg0.conf'') w = (out, w3)"
    by (rule that) (rule prod.collapse [symmetric])
  show "af_conf af (snd (FetchConfHash (td_ssh td) vps w)) = af_conf af w"
    using hash_lawsD(4) [OF hash cmd] cmd by (simp add: FetchConfHash_def split: option.splits)
  show "fst (FetchConfHash (td_ssh td) vps w) \<in> {None, Some (td_sha256 td (af_conf af w))}"
  proof (cases out)
    case (Some t)
    then obtain r where "t = td_sha256 td (af_conf af w) @ '' '' @ r" using hash_lawsD(4) [OF hash cmd] by blast
    then show ?thesis
      using cmd Some first_field_word [OF hash_lawsD(3,2) [OF hash]] by (simp add: FetchConfHash_def)
  qed (use cmd in \<open>simp add: FetchConfHash_def\<close>)
qed

lemma CheckDrift_world: "snd (CheckDrift td cfg w) \<in> {w, snd (FetchConfHash (td_ssh td) (cfg_VPS cfg) w)}"
  by (auto simp: CheckDrift_def Let_def split: option.splits prod.splits)

lemma stale_hash_drifts:
  assumes hash: "hash_laws td (container_of (cfg_VPS cfg)) af"
    and mir: "ParseServerMirror (td_mirror td) (cfg_ServerMirror cfg) = Some mirror" "sm_AwgConfSha256 mirror = td_sha256 td x"
    and stale: "td_sha256 td (af_conf af w) \<noteq> td_sha256 td x"
  shows "fst (CheckDrift td cfg w) = DriftDetected \<or> fst (FetchConfHash (td_ssh td) (cfg_VPS cfg) w) = None"
  using FetchConfHash_reads(2) [OF hash, of w] mir stale hash_lawsD(1,3) [OF hash]
  by (auto simp: CheckDrift_def split: prod.splits)

text \<open>A tick of the watchdog keeps what the next one looks at.\<close>

lemma put_status_keeps:
  assumes "manager_ok (ts_mgr s)"
  shows "manager_ok (ts_mgr (put_status io x s))" and "ts_world (put_status io x s) = ts_world s"
    and "cfg_VPS (live (ts_mgr (put_status io x s))) = cfg_VPS (live (ts_mgr s))"
    and "cfg_ServerMirror (live (ts_mgr (put_status io x s))) = cfg_ServerMirror (live (ts_mgr s))"
proof -
  show "manager_ok (ts_mgr (put_status io x s))" "ts_world (put_status io x s) = ts_world s"
    "cfg_VPS (live (ts_mgr (put_status io x s))) = cfg_VPS (live (ts_mgr s))"
    using live_set_tunnel_vps [OF assms] manager_ok_update [OF assms] by (simp_all add: put_status_def)
  obtain r m' where u: "Manager_Update io (set_tunnel (\<lambda>t. t\<lparr>tun_Status := x\<rparr>)) (ts_mgr s) = (r, m')"
    by (rule that) (rule prod.collapse [symmetric])
  then show "cfg_ServerMirror (live (ts_mgr (put_status io x s))) = cfg_ServerMirror (live (ts_mgr s))"
    using Manager_Update_step [OF assms u]
    by (auto simp: put_status_def update_outcome_def set_tunnel_def split: option.splits)
qed

fun watchdog_ticks :: "'w tunnel_deps \<Rightarrow> (awg_cli \<times> io_env) list \<Rightarrow> 'w tunnel_state \<Rightarrow> 'w tunnel_state" where
  "watchdog_ticks td [] s = s"
| "watchdog_ticks td ((awg, io) # ts) s = watchdog_ticks td ts (snd (watchdogTick td awg io s))"

lemma watchdogTick_keeps:
  assumes "manager_ok (ts_mgr s)" and hash: "hash_laws td (container_of (cfg_VPS (live (ts_mgr s)))) af"
    and s': "snd (watchdogTick td awg io s) = s'"
  shows "manager_ok (ts_mgr s') \<and> cfg_VPS (live (ts_mgr s')) = cfg_VPS (live (ts_mgr s))
     \<and> cfg_ServerMirror (live (ts_mgr s')) = cfg_ServerMirror (live (ts_mgr s)) \<and> af_conf af (ts_world s') = af_conf af (ts_world s)"
  using put_status_keeps [OF assms(1)] CheckDrift_world [of td "live (ts_mgr s)" "ts_world s"] FetchConfHash_reads(1) [OF hash] assms(1) s'
  by (auto simp: watchdogTick_def Let_def split: prod.splits if_splits)

lemma watchdog_ticks_keep:
  assumes "manager_ok (ts_mgr s)" and "hash_laws td (container_of (cfg_VPS (live (ts_mgr s)))) af"
    and "watchdog_ticks td ticks s = s'"
  shows "manager_ok (ts_mgr s') \<and> cfg_VPS (live (ts_mgr s')) = cfg_VPS (live (ts_mgr s))
     \<and> cfg_ServerMirror (live (ts_mgr s')) = cfg_ServerMirror (live (ts_mgr s)) \<and> af_conf af (ts_world s') = af_conf af (ts_world s)"
  using assms
proof (induction td ticks s rule: watchdog_ticks.induct)
  case (2 td awg io ts s)
  then show ?case using watchdogTick_keeps [OF 2(2,3) refl, of awg io] by simp
qed simp

text \<open>C21: Connecting makes the drift check fail for good. The mirror keeps the hash of the server configuration as it was
  before \<open>Connect\<close> appended its own peer to it. So after a connection that added the peer and whose last save of
  the configuration succeeded, as long as nothing else changes the server's file, after any number of ticks of the
  watchdog, whatever they find and whatever happens to their own saves, the next check still reports a drift,
  or does not get the hash from the server.\<close>

theorem connect_leaves_stale_mirror:
  assumes laws: "awg_laws (td_ssh td) (container_of (cfg_VPS (live (ts_mgr s)))) af" and cl: "codec_ok (td_clients td)"
    and mc: "mirror_codec_ok (td_mirror td)" and hash: "hash_laws td (container_of (cfg_VPS (live (ts_mgr s)))) af"
    and m: "manager_ok (ts_mgr s)" and io: "te_io2 e = io_all_ok" and c: "Connect td e s = (None, s')"
    and changed: "af_conf af (ts_world s') \<noteq> af_conf af (ts_world s)"
    and collision: "td_sha256 td (af_conf af (ts_world s')) \<noteq> td_sha256 td (af_conf af (ts_world s))"
    and ticks: "s'' = watchdog_ticks td ticks s'"
  shows "(\<exists>block. af_conf af (ts_world s'') = af_conf af (ts_world s) @ block)
     \<and> (fst (CheckDrift td (live (ts_mgr s'')) (ts_world s'')) = DriftDetected
        \<or> fst (FetchConfHash (td_ssh td) (cfg_VPS (live (ts_mgr s''))) (ts_world s'')) = None)"
proof -
  obtain mirror where c': "\<exists>block. af_conf af (ts_world s') = af_conf af (ts_world s) @ block"
    "cfg_VPS (live (ts_mgr s')) = cfg_VPS (live (ts_mgr s))" "manager_ok (ts_mgr s')"
    "ParseServerMirror (td_mirror td) (cfg_ServerMirror (live (ts_mgr s'))) = Some mirror"
    "sm_AwgConfSha256 mirror = td_sha256 td (af_conf af (ts_world s))"
    by (rule Connect_mirror [OF laws cl mc m io c changed])
  have k: "cfg_VPS (live (ts_mgr s'')) = cfg_VPS (live (ts_mgr s))" "af_conf af (ts_world s'') = af_conf af (ts_world s')"
    "cfg_ServerMirror (live (ts_mgr s'')) = cfg_ServerMirror (live (ts_mgr s'))"
    using watchdog_ticks_keep [of s' td af ticks] c'(2,3) hash ticks by simp_all
  have "fst (CheckDrift td (live (ts_mgr s'')) (ts_world s'')) = DriftDetected
      \<or> fst (FetchConfHash (td_ssh td) (cfg_VPS (live (ts_mgr s''))) (ts_world s'')) = None"
    by (rule stale_hash_drifts [where x = "af_conf af (ts_world s)" and af = af and mirror = mirror])
      (use hash k c' collision in simp_all)
  then show ?thesis using c'(1) k(2) by simp
qed

section \<open>Watchdogs\<close>

datatype tunnel_op = ConnectOp tunnel_env | DisconnectOp io_env | TickOp awg_cli io_env | AddRemoteOp tunnel_env string

fun tunnel_step :: "'w tunnel_deps \<Rightarrow> tunnel_op \<Rightarrow> 'w tunnel_state \<Rightarrow> 'w tunnel_state" where
  "tunnel_step td (ConnectOp e) s = snd (Connect td e s)"
| "tunnel_step td (DisconnectOp io) s = Disconnect io s"
| "tunnel_step td (TickOp awg io) s = snd (watchdogTick td awg io s)"
| "tunnel_step td (AddRemoteOp e name) s = snd (AddPeerForRemote td e name s)"

definition watch_part :: "'w tunnel_state \<Rightarrow> nat set \<times> nat option \<times> nat \<times> bool" where
  "watch_part s = (ts_watchdogs s, ts_cancel s, ts_started s, ts_running s)"

lemma watch_put_status [simp]: "watch_part (put_status io x s) = watch_part s"
  by (simp add: watch_part_def put_status_def)

lemma watch_updates [simp]:
  "watch_part (s\<lparr>ts_world := w\<rparr>) = watch_part s" "watch_part (s\<lparr>ts_mgr := m\<rparr>) = watch_part s" "watch_part (s\<lparr>ts_conf := c\<rparr>) = watch_part s"
  by (simp_all add: watch_part_def)

lemma watch_fail [simp]: "watch_part (snd (tunnel_fail io msg s)) = watch_part s"
  by (simp add: tunnel_fail_def)

lemma bring_up_watch:
  assumes "bring_up td e vps srv priv pub ip ct s = (r, s')"
  shows "watch_part s' = (if r = None then (insert (ts_started s) (ts_watchdogs s), Some (ts_started s), ts_started s + 1, True) else watch_part s)"
  using assms unfolding bring_up_def Let_def
  by (auto simp: tunnel_fail_def startWatchdog_def split: option.splits if_splits) (simp_all add: watch_part_def)

lemma Connect_rest_watch:
  assumes "Connect_rest td e s = (r, s')"
  shows "watch_part s' = (if r = None then (insert (ts_started s) (ts_watchdogs s), Some (ts_started s), ts_started s + 1, True) else watch_part s)"
proof (cases r)
  case None
  then have c: "Connect_rest td e s = (None, s')" using assms by simp
  obtain w1 srv priv pub ip ct w2 where "bring_up td e (cfg_VPS (live (ts_mgr s))) srv priv pub ip ct (s\<lparr>ts_world := w2\<rparr>) = (None, s')"
    by (rule Connect_rest_success [OF c])
  then show ?thesis using bring_up_watch None by fastforce
next
  case (Some msg)
  have f: "watch_part s' = watch_part s" if "tunnel_fail io msg' (s\<lparr>ts_world := w\<rparr>) = (Some msg, s')" for io msg' w
    using that watch_fail [of io msg' "s\<lparr>ts_world := w\<rparr>"] by simp
  have f0: "watch_part s' = watch_part s" if "tunnel_fail io msg' s = (Some msg, s')" for io msg'
    using that watch_fail [of io msg' s] by simp
  have b: "watch_part s' = watch_part s" if "bring_up td e vps srv priv pub ip ct (s\<lparr>ts_world := w\<rparr>) = (Some msg, s')" for vps srv priv pub ip ct w
    using bring_up_watch [OF that] by simp
  show ?thesis using assms Some unfolding Connect_rest_def Let_def
    by (auto split: if_splits prod.splits option.splits sum.splits dest: f f0 b)
qed

definition one_watchdog :: "'w tunnel_state \<Rightarrow> bool" where
  "one_watchdog s \<longleftrightarrow> (if ts_running s then \<exists>i. ts_cancel s = Some i \<and> ts_watchdogs s = {i} else ts_watchdogs s = {})"

lemma one_watchdog_part: "watch_part s' = watch_part s \<Longrightarrow> one_watchdog s \<Longrightarrow> one_watchdog s'"
  by (simp add: watch_part_def one_watchdog_def)

lemma tick_watch [simp]: "watch_part (snd (watchdogTick td awg io s)) = watch_part s"
  by (simp add: watchdogTick_def Let_def split: prod.splits)

lemma add_remote_watch [simp]: "watch_part (snd (AddPeerForRemote td e name s)) = watch_part s"
  by (simp add: AddPeerForRemote_def Let_def split: prod.splits option.splits sum.splits)

text \<open>One caller at a time: there is exactly one watchdog while the manager is running, the one that the next
  \<open>Disconnect\<close> stops, and none otherwise.\<close>

theorem sequential_tunnel_one_watchdog:
  "one_watchdog (fold (tunnel_step td) ops (NewTunnelManager mgr w))"
proof -
  have step: "one_watchdog (tunnel_step td q s)" if "one_watchdog s" for q s
  proof (cases q)
    case (ConnectOp e)
    obtain er s1 where b: "Connect_begin (te_io1 e) s = (er, s1)" by (rule that) (rule prod.collapse [symmetric])
    obtain r s2 where c: "Connect_rest td e s1 = (r, s2)" by (rule that) (rule prod.collapse [symmetric])
    have "watch_part s1 = watch_part s" "er = None \<longrightarrow> \<not> ts_running s" using b by (auto simp: Connect_begin_def split: if_splits)
    then show ?thesis using that b c Connect_rest_watch [OF c] ConnectOp
      by (cases er; cases r) (auto simp: Connect_def watch_part_def one_watchdog_def)
  next
    case (DisconnectOp io)
    then show ?thesis using that by (auto simp: Disconnect_def one_watchdog_def)
  qed (use that in \<open>simp_all add: one_watchdog_part [OF _ that]\<close>)
  have "one_watchdog (fold (tunnel_step td) ops s)" if "one_watchdog s" for s
    using that by (induction ops arbitrary: s) (auto intro: step)
  then show ?thesis by (simp add: NewTunnelManager_def one_watchdog_def)
qed

text \<open>C22: Two overlapping calls of \<open>Connect\<close> leave a watchdog that nothing stops. The guard tests whether the manager is
  running, which is set only at the end, so both calls pass it; the second overwrites the handle with which
  the first watchdog is stopped. After a disconnection, and whatever is done afterwards, it goes on running.\<close>

theorem overlapping_connects_leak_watchdog:
  assumes "\<not> ts_running s" and "Connect_begin io1 s = (None, s1)" and "Connect_begin io2 s1 = (None, s2)"
    and "Connect_rest td e1 s2 = (None, s3)" and "Connect_rest td e2 s3 = (None, s4)"
  shows "ts_started s \<in> ts_watchdogs (fold (tunnel_step td) ops (Disconnect io s4)) \<and> \<not> ts_running (Disconnect io s4)"
proof -
  define leaked where "leaked x \<longleftrightarrow> ts_started s \<in> ts_watchdogs x \<and> ts_started s < ts_started x \<and> ts_cancel x \<noteq> Some (ts_started s)" for x :: "'a tunnel_state"
  have part: "leaked x" if "watch_part x = watch_part y" "leaked y" for x y using that by (simp add: leaked_def watch_part_def)
  have step: "leaked (tunnel_step td q x)" if "leaked x" for q x
  proof (cases q)
    case (ConnectOp e)
    obtain er x1 where b: "Connect_begin (te_io1 e) x = (er, x1)" by (rule that) (rule prod.collapse [symmetric])
    obtain r x2 where c: "Connect_rest td e x1 = (r, x2)" by (rule that) (rule prod.collapse [symmetric])
    have "watch_part x1 = watch_part x" using b by (auto simp: Connect_begin_def split: if_splits)
    then show ?thesis using that b c Connect_rest_watch [OF c] ConnectOp
      by (cases er; cases r) (auto simp: Connect_def watch_part_def leaked_def)
  next
    case (DisconnectOp io)
    then show ?thesis using that by (auto simp: Disconnect_def leaked_def split: option.splits)
  qed (use that in \<open>simp_all add: part [OF _ that]\<close>)
  have "watch_part s1 = watch_part s" "watch_part s2 = watch_part s1"
    using assms(2,3) by (auto simp: Connect_begin_def split: if_splits)
  then have "ts_watchdogs s3 = insert (ts_started s) (ts_watchdogs s)" "ts_started s3 = ts_started s + 1"
    using Connect_rest_watch [OF assms(4)] by (auto simp: watch_part_def)
  then have "leaked (Disconnect io s4)" "\<not> ts_running (Disconnect io s4)"
    using Connect_rest_watch [OF assms(5)] by (auto simp: leaked_def Disconnect_def watch_part_def)
  moreover have "leaked (fold (tunnel_step td) ops x)" if "leaked x" for x
    using that by (induction ops arbitrary: x) (auto intro: step)
  ultimately show ?thesis by (auto simp: leaked_def)
qed

section \<open>Removing the last peer\<close>

text \<open>Removing the only peer of the mirror leaves it there: an empty list of the remaining entries is taken for
  no list, so the old clients table is kept.\<close>

theorem last_peer_stays_in_mirror:
  assumes "mirror_codec_ok (td_mirror td)" and "ParseServerMirror (td_mirror td) (cfg_ServerMirror c) = Some mirror"
    and "sm_ClientsTable mirror = Some ct" and "cl_unmarshal (td_clients td) ct = Some [entry]" and "ce_ClientID entry = publicKey"
  shows "ParseServerMirror (td_mirror td) (cfg_ServerMirror (remove_remote_config td marshal now publicKey c))
    = Some (mirror\<lparr>sm_LastSyncedAt := now\<rparr>)"
proof -
  obtain t where "mc_marshal (td_mirror td) (mirror\<lparr>sm_LastSyncedAt := now\<rparr>) = Some t" "t \<noteq> []"
      "mc_unmarshal (td_mirror td) t = Some (mirror\<lparr>sm_LastSyncedAt := now\<rparr>)"
    using assms(1) unfolding mirror_codec_ok_def by blast
  then show ?thesis using assms(2-5) by (simp add: remove_remote_config_def Let_def ParseServerMirror_def SerializeServerMirror_def)
qed

text \<open>Once the watchdog has seen the interface disappear, the tunnel cannot be connected again: its state is error but
  it still counts as running.\<close>

lemma lost_interface_blocks_connect:
  assumes "ts_running s" and "\<not> InterfaceExists awg (if tun_InterfaceName (cfg_Tunnel (live (ts_mgr s))) = [] then ''awg0'' else tun_InterfaceName (cfg_Tunnel (live (ts_mgr s))))"
  shows "ts_status (snd (watchdogTick td awg io s)) = ''error''
    \<and> fst (Connect td e (snd (watchdogTick td awg io s))) = Some ''already connected or connecting''"
  using assms by (simp add: watchdogTick_def Let_def put_status_def Connect_def Connect_begin_def)

end
