(* ===== verification/Tunnel_Examples.thy ===== *)
theory Tunnel_Examples
  imports Tunnel_Manager
begin

text \<open>
  A concrete server and concrete codecs that keep the laws of \<open>Tunnel_Peers\<close> and \<open>Tunnel_Manager\<close>, and the
  witnesses of the tunnel properties on it.
\<close>

section \<open>Codecs\<close>

definition enc_str :: "string \<Rightarrow> string" where
  "enc_str s = concat (map (\<lambda>c. [CHR ''x'', c]) s) @ ''.''"

definition enc_strs :: "string list \<Rightarrow> string" where
  "enc_strs ss = concat (map enc_str ss)"

fun dec_strs :: "string \<Rightarrow> string \<Rightarrow> string list option" where
  "dec_strs acc [] = Some []"
| "dec_strs acc (x # r) =
     (if x = CHR ''.'' then map_option ((#) (rev acc)) (dec_strs [] r)
      else if x = CHR ''x'' then (case r of c # r' \<Rightarrow> dec_strs (c # acc) r' | [] \<Rightarrow> None)
      else Some [])"

lemma dec_enc_str: "dec_strs acc (enc_str s @ r) = map_option ((#) (rev acc @ s)) (dec_strs [] r)"
  by (induction s arbitrary: acc) (auto simp: enc_str_def)

lemma dec_enc_strs: "dec_strs [] (enc_strs ss @ r) = map_option ((@) ss) (dec_strs [] r)"
proof (induction ss)
  case Nil
  show ?case by (cases "dec_strs [] r") (auto simp: enc_strs_def)
next
  case (Cons s ss)
  then show ?case using dec_enc_str [of "[]" s "enc_strs ss @ r"] by (cases "dec_strs [] r") (auto simp: enc_strs_def)
qed

fun entries_of :: "string list \<Rightarrow> client_entry list" where
  "entries_of (a # b # c # r) = \<lparr>ce_ClientID = a, ce_ClientName = b, ce_CreationDate = c\<rparr> # entries_of r"
| "entries_of _ = []"

definition sample_clients :: clients_codec where
  "sample_clients = \<lparr>cl_unmarshal = (\<lambda>t. map_option entries_of (dec_strs [] t)),
     cl_marshal = (\<lambda>es. enc_strs (concat (map (\<lambda>e. [ce_ClientID e, ce_ClientName e, ce_CreationDate e]) es)))\<rparr>"

lemma sample_clients_ok: "codec_ok sample_clients"
proof -
  have "entries_of (concat (map (\<lambda>e. [ce_ClientID e, ce_ClientName e, ce_CreationDate e]) es)) = es" for es
    by (induction es) auto
  moreover have "dec_strs [] [newline] = Some []" by (simp add: newline_def)
  ultimately show ?thesis by (simp add: codec_ok_def sample_clients_def dec_enc_strs)
qed

definition enc_opt :: "string option \<Rightarrow> string list" where
  "enc_opt t = (case t of None \<Rightarrow> [''-'', []] | Some s \<Rightarrow> [''+'', s])"

definition dec_opt :: "string \<Rightarrow> string \<Rightarrow> string option" where
  "dec_opt f s = (if f = ''-'' then None else Some s)"

definition mirror_of :: "string list \<Rightarrow> server_mirror option" where
  "mirror_of ss = (case ss of [a, b, c, f, d, g, e, k] \<Rightarrow> Some \<lparr>sm_LastSyncedAt = a, sm_AwgConfRaw = b, sm_AwgConfSha256 = c,
     sm_ClientsTable = dec_opt f d, sm_CaddyAdminConfig = dec_opt g e, sm_ServerPrivateKey = k\<rparr> | _ \<Rightarrow> None)"

definition sample_mirror :: mirror_codec where
  "sample_mirror = \<lparr>mc_unmarshal = (\<lambda>t. Option.bind (dec_strs [] t) mirror_of),
     mc_marshal = (\<lambda>m. Some (enc_strs ([sm_LastSyncedAt m, sm_AwgConfRaw m, sm_AwgConfSha256 m]
       @ enc_opt (sm_ClientsTable m) @ enc_opt (sm_CaddyAdminConfig m) @ [sm_ServerPrivateKey m])))\<rparr>"

lemma sample_mirror_ok: "mirror_codec_ok sample_mirror"
proof -
  have "dec_opt f s = t" if "enc_opt t = [f, s]" for t f s using that by (cases t) (auto simp: enc_opt_def dec_opt_def)
  then have "mirror_of ([sm_LastSyncedAt m, sm_AwgConfRaw m, sm_AwgConfSha256 m]
       @ enc_opt (sm_ClientsTable m) @ enc_opt (sm_CaddyAdminConfig m) @ [sm_ServerPrivateKey m]) = Some m" for m
    by (cases "sm_ClientsTable m"; cases "sm_CaddyAdminConfig m") (simp_all add: mirror_of_def enc_opt_def)
  moreover have "dec_strs [] (enc_strs ss) = Some ss" for ss using dec_enc_strs [of ss "[]"] by simp
  moreover have "enc_strs (s # ss) \<noteq> []" for s ss by (simp add: enc_strs_def enc_str_def)
  ultimately show ?thesis by (simp add: mirror_codec_ok_def sample_mirror_def)
qed

section \<open>A server\<close>

record sample_server =
  ss_conf :: string
  ss_table :: string
  ss_staged :: string

definition the_container :: string where
  "the_container = ''unet-amnezia-awg''"

definition append_head :: string where
  "append_head = ''docker exec -i '' @ shellArg the_container @ '' sh -c '' @ shellArg ''cat >> /opt/amnezia/awg/awg0.conf'' @ '' <<'' @ shellArg ''PEER'' @ [newline]"

definition table_head :: string where
  "table_head = ''docker exec -i '' @ shellArg the_container @ '' sh -c '' @ shellArg ''cat > /opt/amnezia/awg/clientsTable.new'' @ '' <<'' @ shellArg ''PAYLOAD'' @ [newline]"

definition drop_end :: "nat \<Rightarrow> string \<Rightarrow> string" where
  "drop_end n s = take (length s - n) s"

definition run_script :: "string \<Rightarrow> sample_server \<Rightarrow> string option \<times> sample_server" where
  "run_script sc w =
     (if has_prefix sc append_head then (Some [], w\<lparr>ss_conf := ss_conf w @ drop_end 4 (drop (length append_head) sc)\<rparr>)
      else if has_prefix sc table_head then (Some [], w\<lparr>ss_staged := drop_end 7 (drop (length table_head) sc)\<rparr>)
      else (None, w))"

definition first_conf :: string where
  "first_conf = unlines [''[Interface]'', ''Address = 10.8.1.1/24'', ''ListenPort = 31075'', ''Jc = 4'']"

definition sample_sha :: "string \<Rightarrow> string" where
  "sample_sha x = replicate 64 (if x = first_conf then CHR ''a'' else CHR ''b'')"

definition run_command :: "string \<Rightarrow> sample_server \<Rightarrow> string option \<times> sample_server" where
  "run_command cmd w =
     (if cmd = read_table_command the_container then (Some (ss_table w), w)
      else if cmd = rename_table_command the_container then (Some [], w\<lparr>ss_table := ss_staged w\<rparr>)
      else if cmd = dockerExecCmd the_container (''cat '' @ shellArg ''/opt/amnezia/awg/awg0.conf'') then (Some (ss_conf w), w)
      else if cmd = dockerExecCmd the_container ''sha256sum /opt/amnezia/awg/awg0.conf'' then (Some (sample_sha (ss_conf w) @ ''  awg0.conf''), w)
      else (Some ''pub'', w))"

definition sample_files :: "sample_server awg_files" where
  "sample_files = \<lparr>af_conf = ss_conf, af_table = ss_table, af_staged = ss_staged\<rparr>"

definition sample_ssh :: "sample_server ssh_executor" where
  "sample_ssh = \<lparr>sx_command = run_command, sx_script = run_script\<rparr>"

lemma not_rename:
  "dockerExec the_container (sync_script iface) \<noteq> rename_table_command the_container"
  "dockerExec the_container (''awg show '' @ x) \<noteq> rename_table_command the_container"
  "dockerExecCmd the_container (''awg show '' @ x) \<noteq> rename_table_command the_container"
  "dockerExecCmd the_container (''cat '' @ x) \<noteq> rename_table_command the_container"
  "read_table_command the_container \<noteq> rename_table_command the_container"
  "dockerExecCmd the_container (''cat '' @ x) \<noteq> read_table_command the_container"
  "dockerExecCmd the_container (''sha256sum'' @ x) \<noteq> read_table_command the_container"
  "dockerExecCmd the_container (''sha256sum'' @ x) \<noteq> rename_table_command the_container"
  "dockerExecCmd the_container (''sha256sum'' @ x) \<noteq> dockerExecCmd the_container (''cat '' @ y)"
  by (simp_all add: dockerExec_def dockerExecCmd_def rename_table_command_def read_table_command_def sync_script_def shellArg_def quote_char_def)

lemma reads_only_command: "cmd \<noteq> rename_table_command the_container \<Longrightarrow> reads_only sample_files w (snd (run_command cmd w))"
  by (simp add: run_command_def reads_only_def)

lemma table_not_append: "\<not> has_prefix (table_head @ x) append_head"
proof -
  have "length append_head \<le> length table_head" "take (length append_head) table_head \<noteq> append_head" by code_simp+
  then show ?thesis by (simp add: has_prefix_def)
qed

lemma sample_laws: "awg_laws sample_ssh the_container sample_files"
proof -
  have a: "append_script the_container block = append_head @ block @ ''PEER''" for block
    by (simp add: append_script_def append_head_def)
  have t: "write_table_script the_container payload = table_head @ payload @ [newline] @ ''PAYLOAD''" for payload
    by (simp add: write_table_script_def table_head_def)
  have "drop_end 4 (block @ ''PEER'') = block" "drop_end 7 (payload @ [newline] @ ''PAYLOAD'') = payload @ [newline]" for block payload
    by (simp_all add: drop_end_def)
  then have "run_script (append_script the_container block) w = (Some [], w\<lparr>ss_conf := ss_conf w @ block\<rparr>)"
      "run_script (write_table_script the_container payload) w = (Some [], w\<lparr>ss_staged := payload @ [newline]\<rparr>)" for block payload w
    using table_not_append by (simp_all add: run_script_def a t)
  moreover have "run_command (read_table_command the_container) w = (Some (ss_table w), w)"
      "run_command (rename_table_command the_container) w = (Some [], w\<lparr>ss_table := ss_staged w\<rparr>)"
      "run_command (dockerExecCmd the_container (''cat '' @ shellArg ''/opt/amnezia/awg/awg0.conf'')) w = (Some (ss_conf w), w)" for w
    using not_rename(4,5,6) by (simp_all add: run_command_def)
  ultimately show ?thesis
    unfolding awg_laws_def sample_ssh_def ssh_executor.simps
    using reads_only_command not_rename by (simp add: sample_files_def, simp add: reads_only_def)
qed

section \<open>Witnesses\<close>

definition sample_deps :: "sample_server tunnel_deps" where
  "sample_deps = \<lparr>td_ssh = sample_ssh, td_sha256 = sample_sha, td_clients = sample_clients, td_mirror = sample_mirror\<rparr>"

definition sample_awg :: awg_cli where
  "sample_awg = \<lparr>aw_AwgPath = ''/usr/bin/awg'', aw_GOOS = ''linux'', aw_awg = (\<lambda>args _. if args = [''genkey''] then Some ''priv'' else Some ''pub''),
     aw_quick = (\<lambda>_. Some [])\<rparr>"

definition sample_tunnel_env :: tunnel_env where
  "sample_tunnel_env = \<lparr>te_awg = sample_awg, te_now = ''now'', te_hostname = ''host'', te_dir = Some ''/etc/unet'', te_conf_ok = True,
     te_io1 = io_all_ok, te_io2 = io_all_ok\<rparr>"

definition provisioned_config :: root_config where
  "provisioned_config = zero_config\<lparr>cfg_VPS := zero_vps\<lparr>vps_Host := ''vps'', vps_IsProvisioned := True\<rparr>\<rparr>"

definition provisioned_manager :: manager where
  "provisioned_manager = \<lparr>mgr_heap = [provisioned_config], mgr_config = 0, mgr_disk = \<lparr>target = Holds provisioned_config, strays = 0\<rparr>\<rparr>"

definition first_server :: sample_server where
  "first_server = \<lparr>ss_conf = first_conf, ss_table = [], ss_staged = []\<rparr>"

definition sample_tunnel :: "sample_server tunnel_state" where
  "sample_tunnel = NewTunnelManager provisioned_manager first_server"

lemma sample_tunnel_facts:
  "manager_ok (ts_mgr sample_tunnel)" "container_of (cfg_VPS (live (ts_mgr sample_tunnel))) = the_container"
  "\<not> ts_running sample_tunnel" "af_conf sample_files (ts_world sample_tunnel) = first_conf"
  by (simp_all add: sample_tunnel_def NewTunnelManager_def provisioned_manager_def manager_ok_def live_def deref_def provisioned_config_def
      container_of_def zero_config_def zero_vps_def the_container_def first_server_def sample_files_def)

lemma sample_hash_laws: "hash_laws sample_deps the_container sample_files"
  using not_rename(7-9)
  by (auto simp: hash_laws_def sample_deps_def sample_ssh_def run_command_def sample_sha_def sample_files_def list_all_iff is_space_def)

definition sample_srv :: server_config where
  "sample_srv = zero_server_config\<lparr>svc_Address := ''10.8.1.1/24'', svc_ListenPort := 31075, svc_Obfuscation := zero_obfuscation\<lparr>obf_Jc := 4\<rparr>,
     svc_RawConf := first_conf, svc_ConfSha256 := sample_sha first_conf, svc_ServerPublicKey := ''pub'', svc_PresharedKey := ''pub''\<rparr>"

lemma sample_fetch: "FetchAll sample_ssh sample_sha (cfg_VPS provisioned_config) ''awg0'' first_server = (Some sample_srv, first_server)"
  by code_simp

lemma sample_allocate: "AllocateNextIP (deriveSubnet ''10.8.1.1/24'') [] = Some ''10.8.1.2''" "deriveSubnet ''10.8.1.1/24'' \<noteq> []"
  by code_simp+

lemma sample_add:
  "case ensure_peer sample_deps sample_tunnel_env (cfg_VPS provisioned_config) sample_srv ''pub'' ''10.8.1.2'' first_server of
     (Inr _, w) \<Rightarrow> ss_conf w \<noteq> first_conf | _ \<Rightarrow> False"
  by code_simp

lemma sample_keys: "GenerateKeyPair sample_awg = Some (''priv'', ''pub'')"
  by code_simp

lemma connecting_config:
  "live (ts_mgr (put_status io_all_ok x sample_tunnel)) = set_tunnel (\<lambda>t. t\<lparr>tun_Status := x\<rparr>) provisioned_config"
proof -
  have "live (ts_mgr sample_tunnel) = provisioned_config"
    by (simp add: sample_tunnel_def NewTunnelManager_def provisioned_manager_def live_def deref_def)
  then show ?thesis using update_all_ok [OF sample_tunnel_facts(1)] by (simp add: put_status_def)
qed

lemma sample_brings_up:
  assumes "te_awg e = sample_awg" and "te_dir e = Some d" and "te_conf_ok e"
  shows "fst (bring_up td e vps srv priv pub ip ct s) = None"
  using assms by (simp add: bring_up_def Let_def Awg_Up_def sample_awg_def)

lemma sample_connects:
  obtains s' where "Connect sample_deps sample_tunnel_env sample_tunnel = (None, s')" "ss_conf (ts_world s') \<noteq> first_conf"
    "cfg_VPS (live (ts_mgr s')) = cfg_VPS provisioned_config"
proof -
  let ?s1 = "put_status io_all_ok ''connecting'' sample_tunnel" and ?e = sample_tunnel_env
  obtain ct w2 where p: "ensure_peer sample_deps ?e (cfg_VPS provisioned_config) sample_srv ''pub'' ''10.8.1.2'' first_server = (Inr ct, w2)"
      and w2: "ss_conf w2 \<noteq> first_conf"
    using sample_add by (auto split: prod.splits sum.splits)
  let ?b = "bring_up sample_deps ?e (cfg_VPS provisioned_config) sample_srv ''priv'' ''pub'' ''10.8.1.2'' ct (?s1\<lparr>ts_world := w2\<rparr>)"
  have env: "te_io1 ?e = io_all_ok" "te_io2 ?e = io_all_ok" "te_awg ?e = sample_awg" "te_dir ?e = Some ''/etc/unet''" "te_conf_ok ?e"
    by (simp_all add: sample_tunnel_env_def)
  have cfg: "cfg_VPS (live (ts_mgr ?s1)) = cfg_VPS provisioned_config" "tun_PrivateKey (cfg_Tunnel (live (ts_mgr ?s1))) = []"
      "tun_LocalIP (cfg_Tunnel (live (ts_mgr ?s1))) = []" "vps_Host (cfg_VPS provisioned_config) \<noteq> []" "vps_IsProvisioned (cfg_VPS provisioned_config)"
    by (simp_all add: connecting_config set_tunnel_def provisioned_config_def zero_config_def zero_tunnel_def)
  have w: "ts_world ?s1 = first_server" by (simp add: put_status_def sample_tunnel_def NewTunnelManager_def)
  have srv: "svc_Address sample_srv = ''10.8.1.1/24''" "svc_Peers sample_srv = []" by (simp_all add: sample_srv_def zero_server_config_def)
  have dp: "td_ssh sample_deps = sample_ssh" "td_sha256 sample_deps = sample_sha" by (simp_all add: sample_deps_def)
  have "Connect_rest sample_deps ?e ?s1 = ?b"
    by (simp add: Connect_rest_def Let_def cfg w dp sample_fetch env sample_keys srv sample_allocate p)
  then have "Connect sample_deps ?e sample_tunnel = ?b"
    using sample_tunnel_facts(3) env(1) by (simp add: Connect_def Connect_begin_def)
  moreover have "fst ?b = None" by (rule sample_brings_up [OF env(3-5)])
  ultimately have c: "Connect sample_deps ?e sample_tunnel = (None, snd ?b)" by (metis prod.collapse)
  have b: "?b = (None, snd ?b)" using \<open>fst ?b = None\<close> by (metis prod.collapse)
  have m: "manager_ok (ts_mgr ?s1)" using manager_ok_update [OF sample_tunnel_facts(1)] by (simp add: put_status_def)
  obtain endpoint iface where w: "ts_world (snd ?b) = w2"
      and u: "ts_mgr (snd ?b) = snd (Manager_Update io_all_ok (connected_config sample_deps ?e sample_srv ''priv'' ''pub'' ''10.8.1.2'' endpoint iface ct) (ts_mgr ?s1))"
    by (rule bring_up_success [OF b]) (simp add: env)
  have "cfg_VPS (live (ts_mgr (snd ?b))) = cfg_VPS provisioned_config"
    unfolding u update_all_ok [OF m] by (simp add: connected_config_def connecting_config set_tunnel_def)
  then show ?thesis using that [OF c] w2 w by simp
qed

theorem connect_leaves_stale_mirror_witness:
  "\<exists>s' s''. Connect sample_deps sample_tunnel_env sample_tunnel = (None, s')
     \<and> s'' = watchdog_ticks sample_deps [(sample_awg, io_all_ok), (sample_awg, io_all_ok)] s'
     \<and> fst (CheckDrift sample_deps (live (ts_mgr s'')) (ts_world s'')) = DriftDetected"
proof -
  obtain s' where c: "Connect sample_deps sample_tunnel_env sample_tunnel = (None, s')" and ne: "ss_conf (ts_world s') \<noteq> first_conf"
    and v: "cfg_VPS (live (ts_mgr s')) = cfg_VPS provisioned_config" by (rule sample_connects)
  define s'' where "s'' = watchdog_ticks sample_deps [(sample_awg, io_all_ok), (sample_awg, io_all_ok)] s'"
  have d: "td_ssh sample_deps = sample_ssh" "td_clients sample_deps = sample_clients" "td_mirror sample_deps = sample_mirror" "te_io2 sample_tunnel_env = io_all_ok"
    by (simp_all add: sample_deps_def sample_tunnel_env_def)
  have ch: "af_conf sample_files (ts_world s') \<noteq> af_conf sample_files (ts_world sample_tunnel)"
    using ne sample_tunnel_facts(4) by (simp add: sample_files_def)
  have col: "td_sha256 sample_deps (af_conf sample_files (ts_world s')) \<noteq> td_sha256 sample_deps (af_conf sample_files (ts_world sample_tunnel))"
    using ne unfolding sample_tunnel_facts(4) by (simp add: sample_deps_def sample_sha_def sample_files_def)
  have "fst (CheckDrift sample_deps (live (ts_mgr s'')) (ts_world s'')) = DriftDetected
      \<or> fst (FetchConfHash (td_ssh sample_deps) (cfg_VPS (live (ts_mgr s''))) (ts_world s'')) = None"
    using connect_leaves_stale_mirror [of sample_deps sample_tunnel sample_files sample_tunnel_env s' s'', OF _ _ _ _ _ _ c ch col s''_def] d
      sample_laws sample_clients_ok sample_mirror_ok sample_hash_laws sample_tunnel_facts(1,2) by simp
  moreover have "fst (FetchConfHash sample_ssh vps w) \<noteq> None" if "container_of vps = the_container" for vps w
  proof -
    have "sx_command sample_ssh (dockerExecCmd (container_of vps) ''sha256sum /opt/amnezia/awg/awg0.conf'') w
        = (Some (sample_sha (ss_conf w) @ ''  awg0.conf''), w)"
      using not_rename(7-9) that by (simp add: sample_ssh_def run_command_def)
    moreover have "first_field (sample_sha x @ '' '' @ r) = Some (sample_sha x)" for x r
      by (rule first_field_word) (auto simp: sample_sha_def list_all_iff is_space_def)
    from this [of _ "'' awg0.conf''"] have "first_field (sample_sha x @ ''  awg0.conf'') = Some (sample_sha x)" for x by simp
    ultimately show ?thesis by (simp add: FetchConfHash_def)
  qed
  moreover have "container_of (cfg_VPS (live (ts_mgr s''))) = the_container"
  proof -
    have cv: "cfg_VPS (live (ts_mgr s')) = cfg_VPS (live (ts_mgr sample_tunnel))" "manager_ok (ts_mgr s')"
      by (rule Connect_mirror [OF _ _ _ sample_tunnel_facts(1) d(4) c ch],
          use d sample_laws sample_clients_ok sample_mirror_ok sample_tunnel_facts(2) in simp_all)+
    then show ?thesis
      using watchdog_ticks_keep [OF cv(2) _ s''_def [symmetric], of sample_files] sample_hash_laws sample_tunnel_facts(2) cv(1) by simp
  qed
  ultimately have "fst (CheckDrift sample_deps (live (ts_mgr s'')) (ts_world s'')) = DriftDetected" by (metis d(1))
  then show ?thesis using c s''_def by blast
qed

text \<open>A server that always answers the same, for two overlapping connections.\<close>

definition steady_ssh :: "unit ssh_executor" where
  "steady_ssh = \<lparr>sx_command = (\<lambda>cmd w. (Some (if cmd = dockerExecCmd the_container (''cat '' @ shellArg ''/opt/amnezia/awg/awg0.conf'')
     then first_conf else ''pub''), w)), sx_script = (\<lambda>_ w. (Some [], w))\<rparr>"

definition steady_deps :: "unit tunnel_deps" where
  "steady_deps = \<lparr>td_ssh = steady_ssh, td_sha256 = sample_sha, td_clients = sample_clients, td_mirror = sample_mirror\<rparr>"

lemma steady_fetch: "FetchAll steady_ssh sample_sha (cfg_VPS provisioned_config) ''awg0'' () = (Some sample_srv, ())"
  by code_simp

lemma steady_add:
  "case ensure_peer steady_deps sample_tunnel_env (cfg_VPS provisioned_config) sample_srv ''pub'' ''10.8.1.2'' () of (Inr _, _) \<Rightarrow> True | _ \<Rightarrow> False"
  by code_simp

lemma steady_connects:
  assumes "cfg_VPS (live (ts_mgr s)) = cfg_VPS provisioned_config" and "manager_ok (ts_mgr s)"
    and "tun_PrivateKey (cfg_Tunnel (live (ts_mgr s))) = [] \<or> tun_PublicKey (cfg_Tunnel (live (ts_mgr s))) = ''pub''"
    and "tun_LocalIP (cfg_Tunnel (live (ts_mgr s))) \<in> {[], ''10.8.1.2''}"
  obtains s' where "Connect_rest steady_deps sample_tunnel_env s = (None, s')" "cfg_VPS (live (ts_mgr s')) = cfg_VPS provisioned_config"
    "manager_ok (ts_mgr s')" "tun_PublicKey (cfg_Tunnel (live (ts_mgr s'))) = ''pub''" "tun_LocalIP (cfg_Tunnel (live (ts_mgr s'))) = ''10.8.1.2''"
proof -
  let ?e = sample_tunnel_env and ?t = "cfg_Tunnel (live (ts_mgr s))"
  obtain ct where p: "ensure_peer steady_deps ?e (cfg_VPS provisioned_config) sample_srv ''pub'' ''10.8.1.2'' () = (Inr ct, ())"
    using steady_add by (auto split: prod.splits sum.splits)
  have env: "te_io2 ?e = io_all_ok" "te_awg ?e = sample_awg" "te_dir ?e = Some ''/etc/unet''" "te_conf_ok ?e"
    by (simp_all add: sample_tunnel_env_def)
  have host: "vps_Host (cfg_VPS provisioned_config) \<noteq> []" "vps_IsProvisioned (cfg_VPS provisioned_config)"
    by (simp_all add: provisioned_config_def zero_config_def)
  have srv: "svc_Address sample_srv = ''10.8.1.1/24''" "svc_Peers sample_srv = []" by (simp_all add: sample_srv_def zero_server_config_def)
  have dp: "td_ssh steady_deps = steady_ssh" "td_sha256 steady_deps = sample_sha" by (simp_all add: steady_deps_def)
  define priv where "priv = (if tun_PrivateKey ?t = [] \<or> tun_PublicKey ?t = [] then ''priv'' else tun_PrivateKey ?t)"
  have k: "(if tun_PrivateKey ?t = [] \<or> tun_PublicKey ?t = [] then GenerateKeyPair sample_awg else Some (tun_PrivateKey ?t, tun_PublicKey ?t))
      = Some (priv, ''pub'')"
    using assms(3) sample_keys by (auto simp: priv_def)
  have ip: "(if tun_LocalIP ?t = [] then AllocateNextIP (deriveSubnet ''10.8.1.1/24'') [] else Some (tun_LocalIP ?t)) = Some ''10.8.1.2''"
    using assms(4) sample_allocate(1) by auto
  let ?b = "bring_up steady_deps ?e (cfg_VPS provisioned_config) sample_srv priv ''pub'' ''10.8.1.2'' ct (s\<lparr>ts_world := ()\<rparr>)"
  have c: "Connect_rest steady_deps ?e s = ?b"
  proof -
    have w: "ts_world s = ()" by simp
    show ?thesis unfolding Connect_rest_def Let_def assms(1) dp w steady_fetch env srv k
      by (simp only: host not_True_eq_False if_False option.case prod.case k env srv sample_allocate(2) ip p sum.case)
  qed
  have b: "?b = (None, snd ?b)" using sample_brings_up [OF env(2-4)] by (metis prod.collapse)
  obtain endpoint iface where
      u: "ts_mgr (snd ?b) = snd (Manager_Update io_all_ok (connected_config steady_deps ?e sample_srv priv ''pub'' ''10.8.1.2'' endpoint iface ct) (ts_mgr s))"
    by (rule bring_up_success [OF b]) (simp add: env)
  have "live (ts_mgr (snd ?b)) = connected_config steady_deps ?e sample_srv priv ''pub'' ''10.8.1.2'' endpoint iface ct (live (ts_mgr s))"
    unfolding u by (rule update_all_ok [OF assms(2)])
  then show ?thesis using that [of "snd ?b"] c b manager_ok_update [OF assms(2)] assms(1) u
    by (simp add: connected_config_def set_tunnel_def)
qed

theorem overlapping_connects_leak_watchdog_witness:
  "\<exists>s1 s2 s3 s4. Connect_begin io_all_ok (NewTunnelManager provisioned_manager ()) = (None, s1) \<and> Connect_begin io_all_ok s1 = (None, s2)
     \<and> Connect_rest steady_deps sample_tunnel_env s2 = (None, s3) \<and> Connect_rest steady_deps sample_tunnel_env s3 = (None, s4)
     \<and> 0 \<in> ts_watchdogs (Disconnect io_all_ok (Disconnect io_all_ok s4))"
proof -
  let ?s = "NewTunnelManager provisioned_manager ()"
  let ?s1 = "put_status io_all_ok ''connecting'' ?s"
  let ?s2 = "put_status io_all_ok ''connecting'' ?s1"
  have m: "manager_ok (ts_mgr ?s)" using sample_tunnel_facts(1) by (simp add: sample_tunnel_def NewTunnelManager_def)
  have m1: "manager_ok (ts_mgr ?s1)" "manager_ok (ts_mgr ?s2)" using manager_ok_update m by (simp_all add: put_status_def)
  have "live (ts_mgr ?s) = provisioned_config" by (simp add: NewTunnelManager_def provisioned_manager_def live_def deref_def)
  then have "live (ts_mgr ?s2) = set_tunnel (\<lambda>t. t\<lparr>tun_Status := ''connecting''\<rparr>) (set_tunnel (\<lambda>t. t\<lparr>tun_Status := ''connecting''\<rparr>) provisioned_config)"
    using update_all_ok m m1 by (simp add: put_status_def)
  then have cfg: "cfg_VPS (live (ts_mgr ?s2)) = cfg_VPS provisioned_config" "tun_PrivateKey (cfg_Tunnel (live (ts_mgr ?s2))) = []"
      "tun_LocalIP (cfg_Tunnel (live (ts_mgr ?s2))) = []"
    by (simp_all add: set_tunnel_def provisioned_config_def zero_config_def zero_tunnel_def)
  obtain s3 where s3: "Connect_rest steady_deps sample_tunnel_env ?s2 = (None, s3)" "cfg_VPS (live (ts_mgr s3)) = cfg_VPS provisioned_config"
      "manager_ok (ts_mgr s3)" "tun_PublicKey (cfg_Tunnel (live (ts_mgr s3))) = ''pub''" "tun_LocalIP (cfg_Tunnel (live (ts_mgr s3))) = ''10.8.1.2''"
    using steady_connects [of ?s2] cfg m1 by auto
  obtain s4 where s4: "Connect_rest steady_deps sample_tunnel_env s3 = (None, s4)"
    using steady_connects [of s3] s3 by auto
  have r: "\<not> ts_running ?s" "ts_started ?s = 0" by (simp_all add: NewTunnelManager_def)
  have b: "Connect_begin io_all_ok ?s = (None, ?s1)" "Connect_begin io_all_ok ?s1 = (None, ?s2)"
    using r by (simp_all add: Connect_begin_def put_status_def)
  show ?thesis
    using overlapping_connects_leak_watchdog [OF r(1) b s3(1) s4, of "[DisconnectOp io_all_ok]" io_all_ok] b s3(1) s4 r(2) by auto
qed

end
