(* ===== verification/Ssh_Pool.thy ===== *)
theory Ssh_Pool
  imports Tunnel_Server
begin

text \<open>
  SSH connections (\<open>ssh/client.go\<close>, \<open>ssh/session.go\<close>, \<open>ssh/pool.go\<close>): the connection settings and their
  validation, the file of known host keys, dialling, the wrapper of a session and the pool of a host. The
  package golang.org/x/crypto/ssh is a parameter, a record of its operations on a world; what its
  documentation says of sessions ("A Session only accepts one call to Run, Start, Shell, Output, or
  CombinedOutput") is the predicate \<open>one_command_law\<close>.
\<close>

section \<open>Settings\<close>

record connect_config =
  cn_Host :: string
  cn_Port :: int
  cn_User :: string
  cn_AuthMode :: string
  cn_PrivateKeyPath :: string
  cn_Password :: string
  cn_ConnectTimeout :: duration

definition ConnectConfigFromVPSConfig :: "vps_config \<Rightarrow> connect_config" where
  "ConnectConfigFromVPSConfig vps = \<lparr>cn_Host = vps_Host vps, cn_Port = vps_SSHPort vps, cn_User = vps_Username vps,
     cn_AuthMode = vps_AuthMode vps, cn_PrivateKeyPath = vps_PrivateKeyPath vps, cn_Password = vps_Password vps,
     cn_ConnectTimeout = 30 * second\<rparr>"

definition hostMetachars :: "char set" where
  "hostMetachars = {CHR '';'', CHR ''<'', CHR ''>'', CHR ''|'', CHR 0x60, CHR ''$'', newline}"

definition validateHost :: "string \<Rightarrow> bool" where
  "validateHost host \<longleftrightarrow> (\<forall>c \<in> set host. c \<notin> hostMetachars)"

datatype ssh_error = HostRequired | InvalidHost | UserRequired | PortOutOfRange | KeyPathRequired | PasswordRequired
  | UnsupportedAuthMode | HostKeyFile | ReadPrivateKey | DialFailed | HandshakeFailed | PoolClosed | PoolExhausted
  | NewSessionFailed | ValidationFailed

definition Validate :: "connect_config \<Rightarrow> ssh_error option" where
  "Validate c =
     (if cn_Host c = [] then Some HostRequired
      else if \<not> validateHost (cn_Host c) then Some InvalidHost
      else if cn_User c = [] then Some UserRequired
      else if cn_Port c < 0 \<or> cn_Port c > 65535 then Some PortOutOfRange
      else if cn_AuthMode c = ''key'' then (if cn_PrivateKeyPath c = [] then Some KeyPathRequired else None)
      else if cn_AuthMode c = ''password'' then (if cn_Password c = [] then Some PasswordRequired else None)
      else Some UnsupportedAuthMode)"

definition ShellEscape :: "string \<Rightarrow> string" where
  "ShellEscape s = [CHR 0x27] @ concat (map quote_char s) @ [CHR 0x27]"

lemma ShellEscape_shellArg: "ShellEscape s = shellArg s"
  by (simp add: ShellEscape_def shellArg_def)

section \<open>The file of known hosts\<close>

text \<open>The scanner keeps what it has read and not yet returned; a reader yields non-empty chunks and then an
  error, normally end of file. \<open>scan_line\<close> is one call of \<open>scan\<close>: a line and what is left, or none.\<close>

fun cut_line :: "string \<Rightarrow> (string \<times> string) option" where
  "cut_line [] = None"
| "cut_line (c # cs) = (if c = newline then Some ([], cs) else map_option (\<lambda>(l, r). (c # l, r)) (cut_line cs))"

fun scan_line :: "string \<Rightarrow> string list \<Rightarrow> (string \<times> string \<times> string list) option" where
  "scan_line buf [] = (case cut_line buf of Some (line, rest) \<Rightarrow> Some (line, rest, [])
     | None \<Rightarrow> if buf \<noteq> [] then Some (buf, [], []) else None)"
| "scan_line buf (chunk # chunks) = (case cut_line buf of Some (line, rest) \<Rightarrow> Some (line, rest, chunk # chunks)
     | None \<Rightarrow> scan_line (buf @ chunk) chunks)"

lemma cut_line_length: "cut_line s = Some (l, r) \<Longrightarrow> length r < length s"
  by (induction s arbitrary: l r) (auto split: if_splits)

lemma scan_line_size:
  "scan_line buf chunks = Some (l, rest, ahead) \<Longrightarrow> length rest + length (concat ahead) < length buf + length (concat chunks)"
proof (induction buf chunks arbitrary: l rest ahead rule: scan_line.induct)
  case (2 buf chunk chunks)
  then show ?case by (cases "cut_line buf") (fastforce dest: cut_line_length)+
qed (force split: option.splits if_splits dest: cut_line_length)

text \<open>The loop of the callback: does any scanned line equal the wanted one?\<close>

function any_line :: "string \<Rightarrow> string \<Rightarrow> string list \<Rightarrow> bool" where
  "any_line wanted buf chunks = (case scan_line buf chunks of None \<Rightarrow> False
     | Some (line, rest, ahead) \<Rightarrow> line = wanted \<or> any_line wanted rest ahead)"
  by pat_completeness auto
termination
  by (relation "measure (\<lambda>(_, buf, chunks). length buf + length (concat chunks))") (auto dest: scan_line_size)

declare any_line.simps [simp del]

fun scanned_lines :: "string \<Rightarrow> string list" where
  "scanned_lines s = (let parts = split_on newline s in if last parts = [] then butlast parts else parts)"

record known_hosts_io =
  kh_open :: bool
  kh_open_append :: bool
  kh_write :: bool
  kh_chunks :: "string \<Rightarrow> string list"

definition known_line :: "string \<Rightarrow> string \<Rightarrow> string" where
  "known_line hostname marshaled = hostname @ '' '' @ trim_space marshaled"

text \<open>The callback that the library runs with the key the server presents; true when it returns no error. The
  file is its content.\<close>

definition hostKeyCallback :: "known_hosts_io \<Rightarrow> string \<Rightarrow> string \<Rightarrow> string \<Rightarrow> bool \<times> string" where
  "hostKeyCallback io hostname marshaled khfile =
     (if \<not> kh_open io then (False, khfile)
      else if any_line (known_line hostname marshaled) [] (kh_chunks io khfile) then (True, khfile)
      else if \<not> kh_open_append io then (False, khfile)
      else if \<not> kh_write io then (False, khfile)
      else (True, khfile @ known_line hostname marshaled @ [newline]))"

text \<open>How the reader cuts the file into chunks makes no difference: the loop finds exactly the lines of the file.\<close>

lemma cut_line_None: "cut_line s = None \<longleftrightarrow> newline \<notin> set s"
  by (induction s) auto

lemma cut_line_SomeD: "cut_line s = Some (l, r) \<Longrightarrow> s = l @ newline # r \<and> newline \<notin> set l"
  by (induction s arbitrary: l r) (auto split: if_splits)

lemma scan_line_Some:
  "scan_line buf chunks = Some (l, rest, ahead) \<Longrightarrow>
     (newline \<notin> set l \<and> buf @ concat chunks = l @ newline # rest @ concat ahead)
     \<or> (newline \<notin> set l \<and> l \<noteq> [] \<and> buf @ concat chunks = l \<and> rest = [] \<and> ahead = [])"
proof (induction buf chunks arbitrary: l rest ahead rule: scan_line.induct)
  case (1 buf)
  then show ?case by (cases "cut_line buf") (auto simp: cut_line_None split: if_splits dest: cut_line_SomeD)
next
  case (2 buf chunk chunks)
  then show ?case by (cases "cut_line buf") (auto dest: cut_line_SomeD)
qed

lemma scan_line_None: "scan_line buf chunks = None \<longleftrightarrow> buf @ concat chunks = []"
  by (induction buf chunks rule: scan_line.induct) (auto split: option.splits dest: cut_line_length)

lemma scanned_lines_cut: "newline \<notin> set l \<Longrightarrow> scanned_lines (l @ newline # r) = l # scanned_lines r"
  by (simp add: split_on_append Let_def)

lemma scanned_lines_last: "newline \<notin> set l \<Longrightarrow> scanned_lines l = (if l = [] then [] else [l])"
  by (simp add: split_on_no_sep)

lemma any_line_iff: "any_line wanted buf chunks \<longleftrightarrow> wanted \<in> set (scanned_lines (buf @ concat chunks))"
proof (induction wanted buf chunks rule: any_line.induct)
  case (1 wanted buf chunks)
  show ?case
  proof (cases "scan_line buf chunks")
    case None
    then have "buf @ concat chunks = []" by (simp only: scan_line_None)
    moreover have "\<not> any_line wanted buf chunks" using None by (simp add: any_line.simps [of wanted buf])
    ultimately show ?thesis by (simp only: scanned_lines.simps) simp
  next
    case (Some x)
    obtain l rest ahead where x: "x = (l, rest, ahead)" by (cases x)
    have ih: "any_line wanted rest ahead \<longleftrightarrow> wanted \<in> set (scanned_lines (rest @ concat ahead))" using 1 Some x by blast
    from scan_line_Some [OF Some [unfolded x]] show ?thesis
    proof
      assume "newline \<notin> set l \<and> buf @ concat chunks = l @ newline # rest @ concat ahead"
      then show ?thesis using Some x ih by (simp add: any_line.simps [of wanted buf] scanned_lines_cut del: scanned_lines.simps) blast
    next
      assume a: "newline \<notin> set l \<and> l \<noteq> [] \<and> buf @ concat chunks = l \<and> rest = [] \<and> ahead = []"
      then have "\<not> any_line wanted rest ahead" by (simp add: any_line.simps)
      then show ?thesis using Some x a by (auto simp: any_line.simps [of wanted buf] scanned_lines_last simp del: scanned_lines.simps)
    qed
  qed
qed

section \<open>The library and its sessions\<close>

text \<open>The operations of the package: a connection attempt that ends with the name and key the server presents;
  authentication, once the key is accepted; sessions. A finished command leaves its output as chunks, marked
  when they come from standard error, and says whether it succeeded; a context that expires is a failure.\<close>

record ('c, 'r, 'w) ssh_lib =
  sl_connect :: "string \<Rightarrow> connect_config \<Rightarrow> 'w \<Rightarrow> (string \<times> string) option \<times> 'w"
  sl_authenticate :: "string \<Rightarrow> connect_config \<Rightarrow> 'w \<Rightarrow> 'c option \<times> 'w"
  sl_NewSession :: "'c \<Rightarrow> 'w \<Rightarrow> 'r option \<times> 'w"
  sl_keepalive :: "'c \<Rightarrow> 'w \<Rightarrow> bool \<times> 'w"
  sl_CloseClient :: "'c \<Rightarrow> 'w \<Rightarrow> 'w"
  sl_Start :: "'r \<Rightarrow> string \<Rightarrow> string \<Rightarrow> 'w \<Rightarrow> bool \<times> 'w"
  sl_Wait :: "'r \<Rightarrow> 'w \<Rightarrow> ((bool \<times> string) list \<times> bool) \<times> 'w"
  sl_CloseSession :: "'r \<Rightarrow> 'w \<Rightarrow> 'w"

record 'r session =
  ss_id :: nat
  ss_raw :: 'r

text \<open>The result of a command is its output and whether it succeeded.\<close>

definition start_and_wait :: "('c, 'r, 'w) ssh_lib \<Rightarrow> 'r session \<Rightarrow> string \<Rightarrow> string \<Rightarrow> 'w \<Rightarrow> ((bool \<times> string) list \<times> bool) \<times> 'w" where
  "start_and_wait lib s cmd stdin w =
     (case sl_Start lib (ss_raw s) cmd stdin w of
        (False, w1) \<Rightarrow> (([], False), w1)
      | (True, w1) \<Rightarrow> sl_Wait lib (ss_raw s) w1)"

definition Run :: "('c, 'r, 'w) ssh_lib \<Rightarrow> 'r session \<Rightarrow> string \<Rightarrow> 'w \<Rightarrow> (string \<times> bool) \<times> 'w" where
  "Run lib s cmd w = (case start_and_wait lib s cmd [] w of ((chunks, ok), w1) \<Rightarrow> ((concat (map snd chunks), ok), w1))"

definition split_output :: "(bool \<times> string) list \<Rightarrow> string \<times> string" where
  "split_output chunks = (concat (map snd (filter (\<lambda>c. \<not> fst c) chunks)), concat (map snd (filter fst chunks)))"

definition Output :: "('c, 'r, 'w) ssh_lib \<Rightarrow> 'r session \<Rightarrow> string \<Rightarrow> 'w \<Rightarrow> ((string \<times> string) \<times> bool) \<times> 'w" where
  "Output lib s cmd w = (case start_and_wait lib s cmd [] w of ((chunks, ok), w1) \<Rightarrow> ((split_output chunks, ok), w1))"

definition RunScript :: "('c, 'r, 'w) ssh_lib \<Rightarrow> 'r session \<Rightarrow> string \<Rightarrow> 'w \<Rightarrow> ((string \<times> string) \<times> bool) \<times> 'w" where
  "RunScript lib s script w = (case start_and_wait lib s ''bash -s'' script w of ((chunks, ok), w1) \<Rightarrow> ((split_output chunks, ok), w1))"

definition SessionClose :: "('c, 'r, 'w) ssh_lib \<Rightarrow> 'r session \<Rightarrow> 'w \<Rightarrow> 'w" where
  "SessionClose lib s w = sl_CloseSession lib (ss_raw s) w"

text \<open>The documented law: a session on which a command was started accepts no other. \<open>started\<close> are the sessions of a
  world on which one was.\<close>

definition one_command_law :: "('c, 'r, 'w) ssh_lib \<Rightarrow> ('w \<Rightarrow> 'r set) \<Rightarrow> bool" where
  "one_command_law lib started \<longleftrightarrow>
     (\<forall>r cmd inp w. r \<in> started w \<longrightarrow> \<not> fst (sl_Start lib r cmd inp w))
     \<and> (\<forall>r cmd inp w. fst (sl_Start lib r cmd inp w) \<longrightarrow> r \<in> started (snd (sl_Start lib r cmd inp w)))
     \<and> (\<forall>r cmd inp w. started w \<subseteq> started (snd (sl_Start lib r cmd inp w)))
     \<and> (\<forall>r w. started w \<subseteq> started (snd (sl_Wait lib r w)) \<and> started w \<subseteq> started (sl_CloseSession lib r w))"

datatype 'r session_op = RunOp "'r session" string | OutputOp "'r session" string | ScriptOp "'r session" string | CloseOp "'r session"

fun session_step :: "('c, 'r, 'w) ssh_lib \<Rightarrow> 'r session_op \<Rightarrow> 'w \<Rightarrow> 'w" where
  "session_step lib (RunOp s cmd) w = snd (Run lib s cmd w)"
| "session_step lib (OutputOp s cmd) w = snd (Output lib s cmd w)"
| "session_step lib (ScriptOp s script) w = snd (RunScript lib s script w)"
| "session_step lib (CloseOp s) w = SessionClose lib s w"

lemma start_and_wait_used:
  assumes "one_command_law lib started" and "ss_raw s \<in> started w"
  shows "fst (start_and_wait lib s cmd inp w) = ([], False)"
  using assms by (auto simp: one_command_law_def start_and_wait_def split: prod.splits bool.splits) (metis fst_conv)

lemma start_and_wait_grows:
  assumes "one_command_law lib started"
  shows "started w \<subseteq> started (snd (start_and_wait lib s cmd inp w))"
proof -
  obtain ok w1 where st: "sl_Start lib (ss_raw s) cmd inp w = (ok, w1)" by (rule that) (rule prod.collapse [symmetric])
  have "started w \<subseteq> started w1" "started w1 \<subseteq> started (snd (sl_Wait lib (ss_raw s) w1))"
    using assms st unfolding one_command_law_def by (metis snd_conv)+
  then show ?thesis using st by (cases ok) (auto simp: start_and_wait_def)
qed

lemma start_and_wait_marks:
  assumes "one_command_law lib started" and "snd (fst (start_and_wait lib s cmd inp w))"
  shows "ss_raw s \<in> started (snd (start_and_wait lib s cmd inp w))"
proof -
  obtain ok w1 where st: "sl_Start lib (ss_raw s) cmd inp w = (ok, w1)" by (rule that) (rule prod.collapse [symmetric])
  have ok: "ok" using assms(2) st by (cases ok) (auto simp: start_and_wait_def)
  then have "ss_raw s \<in> started w1" "started w1 \<subseteq> started (snd (sl_Wait lib (ss_raw s) w1))"
    using assms(1) st unfolding one_command_law_def by (metis fst_conv snd_conv)+
  then show ?thesis using st ok by (auto simp: start_and_wait_def)
qed

lemma session_world [simp]:
  "snd (Run lib s cmd w) = snd (start_and_wait lib s cmd [] w)"
  "snd (Output lib s cmd w) = snd (start_and_wait lib s cmd [] w)"
  "snd (RunScript lib s script w) = snd (start_and_wait lib s ''bash -s'' script w)"
  by (simp_all add: Run_def Output_def RunScript_def split: prod.splits)

lemma session_step_grows:
  assumes "one_command_law lib started"
  shows "started w \<subseteq> started (session_step lib q w)"
  using start_and_wait_grows [OF assms] assms by (cases q) (auto simp: SessionClose_def one_command_law_def)

text \<open>What the callers rely on: a used session fails at once, with empty output, and running changes nothing
  that would free it.\<close>

lemma used_session_fails:
  assumes "one_command_law lib started" and "ss_raw s \<in> started w"
  shows "fst (Run lib s cmd w) = ([], False)" and "fst (RunScript lib s script w) = (([], []), False)"
    and "fst (Output lib s cmd w) = (([], []), False)"
proof -
  have "\<exists>w'. start_and_wait lib s c inp w = (([], False), w')" for c inp
    using start_and_wait_used [OF assms, of c inp] by (metis prod.collapse)
  from this [of cmd "[]"] this [of "''bash -s''" script]
  show "fst (Run lib s cmd w) = ([], False)" "fst (RunScript lib s script w) = (([], []), False)"
    "fst (Output lib s cmd w) = (([], []), False)"
    by (auto simp: Run_def RunScript_def Output_def split_output_def)
qed

lemma used_run:
  assumes "one_command_law lib started" and "ss_raw s \<in> started w"
  obtains w' where "Run lib s cmd w = (([], False), w')" and "ss_raw s \<in> started w'"
proof (rule that)
  show "Run lib s cmd w = (([], False), snd (Run lib s cmd w))"
    using used_session_fails(1) [OF assms, of cmd] by (metis prod.collapse)
  show "ss_raw s \<in> started (snd (Run lib s cmd w))"
    using session_step_grows [OF assms(1), of w "RunOp s cmd"] assms(2) by auto
qed

lemma used_script:
  assumes "one_command_law lib started" and "ss_raw s \<in> started w"
  obtains w' where "RunScript lib s script w = ((([], []), False), w')" and "ss_raw s \<in> started w'"
proof (rule that)
  show "RunScript lib s script w = ((([], []), False), snd (RunScript lib s script w))"
    using used_session_fails(2) [OF assms, of script] by (metis prod.collapse)
  show "ss_raw s \<in> started (snd (RunScript lib s script w))"
    using session_step_grows [OF assms(1), of w "ScriptOp s script"] assms(2) by auto
qed

lemma Run_marks:
  assumes "one_command_law lib started" and "Run lib s cmd w = ((out, True), w')"
  shows "ss_raw s \<in> started w'"
  using start_and_wait_marks [OF assms(1), of s cmd "[]" w] assms(2) by (auto simp: Run_def split: prod.splits)

lemma Script_marks:
  assumes "one_command_law lib started" and "RunScript lib s script w = ((out, True), w')"
  shows "ss_raw s \<in> started w'"
  using start_and_wait_marks [OF assms(1), of s "''bash -s''" script w] assms(2) by (auto simp: RunScript_def split: prod.splits)

text \<open>A session serves one command: once a command has completed on it, and whatever is then run or closed, every
  later command or script on it fails without output.\<close>

theorem session_runs_one_command:
  assumes "one_command_law lib started" and "Run lib s cmd w = ((out, True), w')"
  shows "fst (Run lib s cmd' (fold (session_step lib) ops w')) = ([], False)
    \<and> fst (RunScript lib s script (fold (session_step lib) ops w')) = (([], []), False)"
proof -
  have "started w' \<subseteq> started (fold (session_step lib) ops w')"
    using session_step_grows [OF assms(1)] by (induction ops arbitrary: w') (auto, blast)
  then show ?thesis using used_session_fails [OF assms(1)] Run_marks [OF assms] by blast
qed

section \<open>Dialling\<close>

record dial_env =
  de_config_dir :: bool
  de_create_ok :: bool
  de_hosts :: known_hosts_io
  de_private_key :: "string option"
  de_key_parses :: bool

definition publicKeyAuth :: "dial_env \<Rightarrow> bool" where
  "publicKeyAuth e \<longleftrightarrow> de_private_key e \<noteq> None \<and> de_key_parses e"

definition dial_addr :: "connect_config \<Rightarrow> string" where
  "dial_addr cfg = cn_Host cfg @ '':'' @ show_int (if cn_Port cfg = 0 then 22 else cn_Port cfg)"

text \<open>The connection attempt, the callback with the key the server presents, and, if it accepts the key,
  authentication. The known hosts are part of the state.\<close>

definition Dial :: "('c, 'r, 'w) ssh_lib \<Rightarrow> dial_env \<Rightarrow> connect_config \<Rightarrow> string \<times> 'w \<Rightarrow> (ssh_error + 'c) \<times> string \<times> 'w" where
  "Dial lib e cfg s =
     (case s of (kh, w) \<Rightarrow>
       (case Validate cfg of
          Some err \<Rightarrow> (Inl err, kh, w)
        | None \<Rightarrow>
            if \<not> de_config_dir e \<or> \<not> de_create_ok e then (Inl HostKeyFile, kh, w)
            else if cn_AuthMode cfg = ''key'' \<and> \<not> publicKeyAuth e then (Inl ReadPrivateKey, kh, w)
            else (case sl_connect lib (dial_addr cfg) cfg w of
                (None, w1) \<Rightarrow> (Inl DialFailed, kh, w1)
              | (Some (hostname, key), w1) \<Rightarrow>
                  (case hostKeyCallback (de_hosts e) hostname key kh of
                     (False, kh1) \<Rightarrow> (Inl HandshakeFailed, kh1, w1)
                   | (True, kh1) \<Rightarrow>
                       (case sl_authenticate lib hostname cfg w1 of
                          (None, w2) \<Rightarrow> (Inl HandshakeFailed, kh1, w2)
                        | (Some c, w2) \<Rightarrow> (Inr c, kh1, w2))))))"

definition hosts_readable :: "known_hosts_io \<Rightarrow> string \<Rightarrow> bool" where
  "hosts_readable io kh \<longleftrightarrow> kh_open io \<and> kh_open_append io \<and> kh_write io \<and> concat (kh_chunks io kh) = kh"

lemma hostKeyCallback_accepts:
  assumes "hosts_readable io kh"
  shows "hostKeyCallback io hostname key kh = (True, if known_line hostname key \<in> set (scanned_lines kh) then kh
    else kh @ known_line hostname key @ [newline])"
  using assms by (simp add: hosts_readable_def hostKeyCallback_def any_line_iff del: scanned_lines.simps)

lemma scanned_lines_append:
  assumes "kh = [] \<or> last kh = newline" and "newline \<notin> set l"
  shows "scanned_lines (kh @ l @ [newline]) = scanned_lines kh @ [l]"
proof -
  have "scanned_lines (kh @ l @ [newline]) = scanned_lines kh @ [l]" if "kh = concat (map (\<lambda>p. p @ [newline]) ps)" "\<forall>p \<in> set ps. newline \<notin> set p" for ps
    using that
  proof (induction ps arbitrary: kh)
    case Nil
    then show ?case using scanned_lines_cut [OF assms(2), of "[]"] scanned_lines_last [of "[]"] by (simp del: scanned_lines.simps)
  next
    case (Cons p ps)
    then show ?case using scanned_lines_cut [of p] by (simp del: scanned_lines.simps)
  qed
  moreover have "\<exists>ps. kh = concat (map (\<lambda>p. p @ [newline]) ps) \<and> (\<forall>p \<in> set ps. newline \<notin> set p)"
    using assms(1)
  proof (induction "length kh" arbitrary: kh rule: less_induct)
    case less
    show ?case
    proof (cases "kh = []")
      case False
      then obtain l r where lr: "kh = l @ newline # r" "newline \<notin> set l"
        using less.prems split_list_first [of newline kh] by (metis last_in_set)
      then have "r = [] \<or> last r = newline" using less.prems by (auto split: if_splits)
      then obtain ps where "r = concat (map (\<lambda>p. p @ [newline]) ps)" "\<forall>p \<in> set ps. newline \<notin> set p"
        using less.hyps [of r] lr by auto
      then show ?thesis using lr by (intro exI [of _ "l # ps"]) auto
    qed (auto intro: exI [of _ "[]"])
  qed
  ultimately show ?thesis by blast
qed

text \<open>C24: Host keys are not verified. A server that presents another key than the one stored for its name is accepted
  exactly like one that presents the stored key: the outcome is that of authentication, and the new key is
  stored beside the old one, so that both are known from then on.\<close>

theorem changed_host_key_accepted:
  assumes "Validate cfg = None" and "de_config_dir e" and "de_create_ok e" and "cn_AuthMode cfg = ''key'' \<longrightarrow> publicKeyAuth e"
    and io: "hosts_readable (de_hosts e) kh" and kh: "last kh = newline" and stored: "known_line hostname oldkey \<in> set (scanned_lines kh)"
    and c: "sl_connect lib (dial_addr cfg) cfg w = (Some (hostname, newkey), w1)" "newline \<notin> set (known_line hostname newkey)"
    and a: "sl_authenticate lib hostname cfg w1 = (Some client, w2)"
  shows "\<exists>kh'. Dial lib e cfg (kh, w) = (Inr client, kh', w2)
    \<and> {known_line hostname oldkey, known_line hostname newkey} \<subseteq> set (scanned_lines kh')"
  using assms(1-4) c(1) a stored hostKeyCallback_accepts [OF io, of hostname newkey] scanned_lines_append [of kh, OF _ c(2)] kh
  by (auto simp: Dial_def simp del: scanned_lines.simps)

section \<open>The pool\<close>

record ('c, 'r, 'w) pool =
  pl_cfg :: connect_config
  pl_client :: "'c option"
  pl_sessions :: "'r session list"
  pl_closed :: bool
  pl_lastUsed :: instant
  pl_next :: nat
  pl_hosts :: string
  pl_world :: 'w

definition maxSessionsPerHost :: nat where
  "maxSessionsPerHost = 3"

definition idleTimeout :: duration where
  "idleTimeout = 30 * second"

definition NewPool :: "connect_config \<Rightarrow> instant \<Rightarrow> string \<Rightarrow> 'w \<Rightarrow> ssh_error + ('c, 'r, 'w) pool" where
  "NewPool cfg now kh w =
     (case Validate cfg of Some err \<Rightarrow> Inl err
      | None \<Rightarrow> Inr \<lparr>pl_cfg = cfg, pl_client = None, pl_sessions = [], pl_closed = False, pl_lastUsed = now, pl_next = 0,
          pl_hosts = kh, pl_world = w\<rparr>)"

definition closeClient :: "('c, 'r, 'w) ssh_lib \<Rightarrow> ('c, 'r, 'w) pool \<Rightarrow> ('c, 'r, 'w) pool" where
  "closeClient lib p = (case pl_client p of None \<Rightarrow> p
     | Some c \<Rightarrow> p\<lparr>pl_client := None, pl_world := sl_CloseClient lib c (pl_world p)\<rparr>)"

definition ensureClient :: "('c, 'r, 'w) ssh_lib \<Rightarrow> dial_env \<Rightarrow> ('c, 'r, 'w) pool \<Rightarrow> ssh_error option \<times> ('c, 'r, 'w) pool" where
  "ensureClient lib e p = (case pl_client p of Some c \<Rightarrow> (None, p)
     | None \<Rightarrow> (case Dial lib e (pl_cfg p) (pl_hosts p, pl_world p) of
          (Inl err, kh, w) \<Rightarrow> (Some err, p\<lparr>pl_hosts := kh, pl_world := w\<rparr>)
        | (Inr c, kh, w) \<Rightarrow> (None, p\<lparr>pl_client := Some c, pl_hosts := kh, pl_world := w\<rparr>)))"

text \<open>\<open>open_raw\<close> and \<open>keepalive\<close> are the calls \<open>p.client.NewSession()\<close> and \<open>p.client.SendRequest\<close>, on the client the pool
  has.\<close>

definition open_raw :: "('c, 'r, 'w) ssh_lib \<Rightarrow> ('c, 'r, 'w) pool \<Rightarrow> 'r option \<times> ('c, 'r, 'w) pool" where
  "open_raw lib p = (case pl_client p of None \<Rightarrow> (None, p)
     | Some c \<Rightarrow> (case sl_NewSession lib c (pl_world p) of (r, w) \<Rightarrow> (r, p\<lparr>pl_world := w\<rparr>)))"

definition keepalive :: "('c, 'r, 'w) ssh_lib \<Rightarrow> ('c, 'r, 'w) pool \<Rightarrow> bool \<times> ('c, 'r, 'w) pool" where
  "keepalive lib p = (case pl_client p of None \<Rightarrow> (False, p)
     | Some c \<Rightarrow> (case sl_keepalive lib c (pl_world p) of (ok, w) \<Rightarrow> (ok, p\<lparr>pl_world := w\<rparr>)))"

definition reconnect_and_open :: "('c, 'r, 'w) ssh_lib \<Rightarrow> dial_env \<Rightarrow> ssh_error \<Rightarrow> ('c, 'r, 'w) pool \<Rightarrow> (ssh_error + 'r) \<times> ('c, 'r, 'w) pool" where
  "reconnect_and_open lib e err p =
     (case ensureClient lib e (closeClient lib p) of
        (Some x, p1) \<Rightarrow> (Inl x, p1)
      | (None, p1) \<Rightarrow> (case open_raw lib p1 of (None, p2) \<Rightarrow> (Inl err, p2) | (Some r, p2) \<Rightarrow> (Inr r, p2)))"

definition track :: "instant \<Rightarrow> 'r \<Rightarrow> ('c, 'r, 'w) pool \<Rightarrow> 'r session \<times> ('c, 'r, 'w) pool" where
  "track now r p = (let s = \<lparr>ss_id = pl_next p, ss_raw = r\<rparr>
     in (s, p\<lparr>pl_sessions := s # pl_sessions p, pl_lastUsed := now, pl_next := pl_next p + 1\<rparr>))"

definition close_raw :: "('c, 'r, 'w) ssh_lib \<Rightarrow> 'r \<Rightarrow> ('c, 'r, 'w) pool \<Rightarrow> ('c, 'r, 'w) pool" where
  "close_raw lib r p = p\<lparr>pl_world := sl_CloseSession lib r (pl_world p)\<rparr>"

text \<open>\<open>Session\<close>; the environment gives one answer for each of the up to three connections it may make.\<close>

definition validated :: "('c, 'r, 'w) ssh_lib \<Rightarrow> dial_env \<Rightarrow> instant \<Rightarrow> 'r \<Rightarrow> ('c, 'r, 'w) pool \<Rightarrow> (ssh_error + 'r session) \<times> ('c, 'r, 'w) pool" where
  "validated lib e now r p =
     (case keepalive lib p of
        (True, p1) \<Rightarrow> map_prod Inr id (track now r p1)
      | (False, p1) \<Rightarrow>
          (case reconnect_and_open lib e NewSessionFailed (close_raw lib r p1) of
             (Inl err, p2) \<Rightarrow> (Inl err, p2)
           | (Inr r2, p2) \<Rightarrow>
               (case keepalive lib p2 of
                  (True, p3) \<Rightarrow> map_prod Inr id (track now r2 p3)
                | (False, p3) \<Rightarrow> (Inl ValidationFailed, close_raw lib r2 p3))))"

definition PoolSession :: "('c, 'r, 'w) ssh_lib \<Rightarrow> (nat \<Rightarrow> dial_env) \<Rightarrow> instant \<Rightarrow> ('c, 'r, 'w) pool \<Rightarrow> (ssh_error + 'r session) \<times> ('c, 'r, 'w) pool" where
  "PoolSession lib e now p =
     (if pl_closed p then (Inl PoolClosed, p)
      else if length (pl_sessions p) \<ge> maxSessionsPerHost then (Inl PoolExhausted, p)
      else (case ensureClient lib (e 0) p of
          (Some err, p1) \<Rightarrow> (Inl err, p1)
        | (None, p1) \<Rightarrow>
            (case open_raw lib p1 of
               (Some r, p2) \<Rightarrow> validated lib (e 2) now r p2
             | (None, p2) \<Rightarrow>
                 (case reconnect_and_open lib (e 1) NewSessionFailed p2 of
                    (Inl err, p3) \<Rightarrow> (Inl err, p3)
                  | (Inr r, p3) \<Rightarrow> validated lib (e 2) now r p3))))"

definition Put :: "('c, 'r, 'w) ssh_lib \<Rightarrow> 'r session \<Rightarrow> ('c, 'r, 'w) pool \<Rightarrow> ('c, 'r, 'w) pool" where
  "Put lib s p = close_raw lib (ss_raw s) (p\<lparr>pl_sessions := filter (\<lambda>x. ss_id x \<noteq> ss_id s) (pl_sessions p)\<rparr>)"

definition PoolClose :: "('c, 'r, 'w) ssh_lib \<Rightarrow> ('c, 'r, 'w) pool \<Rightarrow> ('c, 'r, 'w) pool" where
  "PoolClose lib p = (if pl_closed p then p
     else closeClient lib ((fold (\<lambda>s. close_raw lib (ss_raw s)) (pl_sessions p) (p\<lparr>pl_closed := True\<rparr>))\<lparr>pl_sessions := []\<rparr>))"

record pool_stats =
  pst_ActiveSessions :: int
  pst_IdleSlots :: int
  pst_HasConnection :: bool
  pst_LastUsed :: instant

definition Stats :: "('c, 'r, 'w) pool \<Rightarrow> pool_stats" where
  "Stats p = (let active = int (length (pl_sessions p)) in
     \<lparr>pst_ActiveSessions = active, pst_IdleSlots = int maxSessionsPerHost - active, pst_HasConnection = pl_client p \<noteq> None,
      pst_LastUsed = pl_lastUsed p\<rparr>)"

definition sweepIdle :: "('c, 'r, 'w) ssh_lib \<Rightarrow> instant \<Rightarrow> ('c, 'r, 'w) pool \<Rightarrow> ('c, 'r, 'w) pool" where
  "sweepIdle lib now p = (if \<not> pl_closed p \<and> pl_client p \<noteq> None \<and> pl_sessions p = [] \<and> now - pl_lastUsed p > idleTimeout
     then closeClient lib p else p)"

text \<open>The pool's invariant: at most three sessions out, with different identities, and none, nor a connection, once
  the pool is closed.\<close>

definition pool_ok :: "('c, 'r, 'w) pool \<Rightarrow> bool" where
  "pool_ok p \<longleftrightarrow> length (pl_sessions p) \<le> maxSessionsPerHost \<and> distinct (map ss_id (pl_sessions p))
     \<and> (\<forall>s \<in> set (pl_sessions p). ss_id s < pl_next p) \<and> (pl_closed p \<longrightarrow> pl_sessions p = [] \<and> pl_client p = None)"

text \<open>What the steps of \<open>Session\<close> other than tracking leave alone.\<close>

definition bookkeeping :: "('c, 'r, 'w) pool \<Rightarrow> 'r session list \<times> bool \<times> instant \<times> nat \<times> connect_config" where
  "bookkeeping p = (pl_sessions p, pl_closed p, pl_lastUsed p, pl_next p, pl_cfg p)"

named_theorems pool_simps \<open>what the internal steps of the pool leave alone\<close>

lemma closeClient_bookkeeping [pool_simps]: "bookkeeping (closeClient lib p) = bookkeeping p"
  by (simp add: bookkeeping_def closeClient_def split: option.splits)

lemma ensureClient_bookkeeping [pool_simps]: "bookkeeping (snd (ensureClient lib e p)) = bookkeeping p"
  by (simp add: bookkeeping_def ensureClient_def split: option.splits prod.splits sum.splits)

lemma open_raw_bookkeeping [pool_simps]: "bookkeeping (snd (open_raw lib p)) = bookkeeping p"
  by (simp add: bookkeeping_def open_raw_def split: option.splits prod.splits)

lemma keepalive_bookkeeping [pool_simps]: "bookkeeping (snd (keepalive lib p)) = bookkeeping p"
  by (simp add: bookkeeping_def keepalive_def split: option.splits prod.splits)

lemma close_raw_bookkeeping [pool_simps]: "bookkeeping (close_raw lib r p) = bookkeeping p"
  by (simp add: bookkeeping_def close_raw_def)

lemma reconnect_bookkeeping [pool_simps]: "bookkeeping (snd (reconnect_and_open lib e err p)) = bookkeeping p"
proof -
  obtain x p1 where en: "ensureClient lib e (closeClient lib p) = (x, p1)" by (rule that) (rule prod.collapse [symmetric])
  obtain r p2 where op: "open_raw lib p1 = (r, p2)" by (rule that) (rule prod.collapse [symmetric])
  have "bookkeeping p1 = bookkeeping p" "bookkeeping p2 = bookkeeping p1"
    using ensureClient_bookkeeping [of lib e "closeClient lib p"] open_raw_bookkeeping [of lib p1] by (simp_all add: en op pool_simps)
  then show ?thesis by (cases x; cases r) (simp_all add: reconnect_and_open_def en op)
qed

definition tracked :: "('c, 'r, 'w) pool \<Rightarrow> instant \<Rightarrow> (ssh_error + 'r session) \<times> ('c, 'r, 'w) pool \<Rightarrow> bool" where
  "tracked p now res \<longleftrightarrow> (case res of
      (Inl err, p') \<Rightarrow> bookkeeping p' = bookkeeping p
    | (Inr s, p') \<Rightarrow> ss_id s = pl_next p \<and> bookkeeping p' = (s # pl_sessions p, pl_closed p, now, pl_next p + 1, pl_cfg p))"

lemma track_tracked: "bookkeeping p1 = bookkeeping p \<Longrightarrow> tracked p now (map_prod Inr id (track now r p1))"
  by (simp add: tracked_def track_def bookkeeping_def Let_def)

lemma tracked_err: "bookkeeping p1 = bookkeeping p \<Longrightarrow> tracked p now (Inl err, p1)"
  by (simp add: tracked_def)

lemma validated_tracked:
  assumes "bookkeeping p1 = bookkeeping p"
  shows "tracked p now (validated lib e now r p1)"
proof -
  obtain ok p2 where k: "keepalive lib p1 = (ok, p2)" by (rule that) (rule prod.collapse [symmetric])
  obtain res p3 where rc: "reconnect_and_open lib e NewSessionFailed (close_raw lib r p2) = (res, p3)"
    by (rule that) (rule prod.collapse [symmetric])
  obtain ok2 p4 where k2: "keepalive lib p3 = (ok2, p4)" by (rule that) (rule prod.collapse [symmetric])
  have b: "bookkeeping p2 = bookkeeping p" "bookkeeping p3 = bookkeeping p" "bookkeeping p4 = bookkeeping p"
    using assms keepalive_bookkeeping [of lib p1] reconnect_bookkeeping [of lib e NewSessionFailed "close_raw lib r p2"]
      keepalive_bookkeeping [of lib p3] by (simp_all add: k rc k2 pool_simps)
  then show ?thesis
    by (cases ok; cases res; cases ok2) (simp_all add: validated_def k rc k2 track_tracked tracked_err pool_simps)
qed

lemma PoolSession_tracked: "tracked p now (PoolSession lib e now p)"
proof -
  obtain err p1 where en: "ensureClient lib (e 0) p = (err, p1)" by (rule that) (rule prod.collapse [symmetric])
  obtain r p2 where op: "open_raw lib p1 = (r, p2)" by (rule that) (rule prod.collapse [symmetric])
  obtain res p3 where rc: "reconnect_and_open lib (e 1) NewSessionFailed p2 = (res, p3)" by (rule that) (rule prod.collapse [symmetric])
  have b: "bookkeeping p1 = bookkeeping p" "bookkeeping p2 = bookkeeping p" "bookkeeping p3 = bookkeeping p"
    using ensureClient_bookkeeping [of lib "e 0" p] open_raw_bookkeeping [of lib p1] reconnect_bookkeeping [of lib "e 1" NewSessionFailed p2]
    by (simp_all add: en op rc del: One_nat_def)
  then show ?thesis
    using validated_tracked [OF b(2)] validated_tracked [OF b(3)]
    by (cases err; cases r; cases res) (auto simp: PoolSession_def en op rc tracked_err simp del: One_nat_def)
qed

datatype 'r pool_op = SessionReq "nat \<Rightarrow> dial_env" instant | PutReq "'r session" | SweepReq instant | CloseReq

fun pool_step :: "('c, 'r, 'w) ssh_lib \<Rightarrow> 'r pool_op \<Rightarrow> ('c, 'r, 'w) pool \<Rightarrow> ('c, 'r, 'w) pool" where
  "pool_step lib (SessionReq e now) p = snd (PoolSession lib e now p)"
| "pool_step lib (PutReq s) p = Put lib s p"
| "pool_step lib (SweepReq now) p = sweepIdle lib now p"
| "pool_step lib CloseReq p = PoolClose lib p"

lemma closed_client: "pl_client (closeClient lib p) = None"
  by (simp add: closeClient_def split: option.splits)

lemma pool_step_ok:
  assumes "pool_ok p"
  shows "pool_ok (pool_step lib q p)"
proof (cases q)
  case (SessionReq e now)
  obtain res p' where r: "PoolSession lib e now p = (res, p')" by (rule that) (rule prod.collapse [symmetric])
  show ?thesis
  proof (cases "pl_closed p \<or> length (pl_sessions p) \<ge> maxSessionsPerHost")
    case True
    then show ?thesis using assms SessionReq by (auto simp: PoolSession_def)
  next
    case False
    then show ?thesis
      using PoolSession_tracked [of p now lib e] assms r SessionReq
      by (cases res) (auto simp: tracked_def pool_ok_def bookkeeping_def)
  qed
next
  case (PutReq s)
  have "length (filter P xs) \<le> k" if "length xs \<le> k" for P k and xs :: "'b session list"
    by (rule le_trans [OF length_filter_le that])
  then show ?thesis using assms PutReq
    by (auto simp: Put_def close_raw_def pool_ok_def distinct_map_filter)
next
  case (SweepReq now)
  have "bookkeeping (sweepIdle lib now p) = bookkeeping p" by (simp add: sweepIdle_def pool_simps)
  then show ?thesis using assms SweepReq closed_client [of lib p]
    by (auto simp: pool_ok_def bookkeeping_def sweepIdle_def)
next
  case CloseReq
  let ?p = "(fold (\<lambda>s. close_raw lib (ss_raw s)) (pl_sessions p) (p\<lparr>pl_closed := True\<rparr>))\<lparr>pl_sessions := []\<rparr>"
  have "pl_sessions (closeClient lib ?p) = []"
    using closeClient_bookkeeping [of lib ?p] by (simp add: bookkeeping_def)
  then show ?thesis using assms CloseReq closed_client [of lib ?p] by (auto simp: PoolClose_def pool_ok_def)
qed

text \<open>C25: Whatever sessions are asked for, returned, swept and closed, in whatever order and with whatever answers of
  the network: at most three sessions are out, the statistics add up, and a closed pool has neither sessions
  nor a connection and gives out none.\<close>

theorem pool_bounded:
  assumes "NewPool cfg now kh w = Inr p0" and "p = fold (pool_step lib) ops p0"
  shows "0 \<le> pst_ActiveSessions (Stats p) \<and> pst_ActiveSessions (Stats p) \<le> 3
    \<and> pst_IdleSlots (Stats p) = 3 - pst_ActiveSessions (Stats p) \<and> distinct (map ss_id (pl_sessions p))
    \<and> (pl_closed p \<longrightarrow> pst_ActiveSessions (Stats p) = 0 \<and> \<not> pst_HasConnection (Stats p)
          \<and> PoolSession lib e t p = (Inl PoolClosed, p))"
proof -
  have "pool_ok p0" using assms(1) by (auto simp: NewPool_def pool_ok_def maxSessionsPerHost_def split: option.splits)
  then have "pool_ok p" unfolding assms(2) by (induction ops arbitrary: p0) (auto intro: pool_step_ok)
  then show ?thesis by (auto simp: pool_ok_def Stats_def Let_def PoolSession_def maxSessionsPerHost_def)
qed

section \<open>A server to run on\<close>

text \<open>A server with one key that answers each command as \<open>ans\<close> says; it keeps the law.\<close>

record sample_world =
  sw_started :: "nat list"
  sw_next :: nat
  sw_command :: string

definition sample_lib :: "(string \<Rightarrow> string option) \<Rightarrow> (unit, nat, sample_world) ssh_lib" where
  "sample_lib ans = \<lparr>sl_connect = (\<lambda>addr cfg w. (Some (addr, ''key-2''), w)), sl_authenticate = (\<lambda>h cfg w. (Some (), w)),
     sl_NewSession = (\<lambda>c w. (Some (sw_next w), w\<lparr>sw_next := sw_next w + 1\<rparr>)), sl_keepalive = (\<lambda>c w. (True, w)),
     sl_CloseClient = (\<lambda>c w. w),
     sl_Start = (\<lambda>r cmd inp w. if r \<in> set (sw_started w) then (False, w)
        else (True, w\<lparr>sw_started := r # sw_started w, sw_command := cmd\<rparr>)),
     sl_Wait = (\<lambda>r w. case ans (sw_command w) of None \<Rightarrow> (([], False), w) | Some t \<Rightarrow> (([(False, t)], True), w)),
     sl_CloseSession = (\<lambda>r w. w)\<rparr>"

definition sample_ssh :: sample_world where
  "sample_ssh = \<lparr>sw_started = [], sw_next = 0, sw_command = []\<rparr>"

definition sample_connect :: connect_config where
  "sample_connect = \<lparr>cn_Host = ''vps'', cn_Port = 0, cn_User = ''root'', cn_AuthMode = ''password'', cn_PrivateKeyPath = [],
     cn_Password = ''pw'', cn_ConnectTimeout = 0\<rparr>"

definition good_dial :: dial_env where
  "good_dial = \<lparr>de_config_dir = True, de_create_ok = True,
     de_hosts = \<lparr>kh_open = True, kh_open_append = True, kh_write = True, kh_chunks = (\<lambda>s. [s])\<rparr>,
     de_private_key = None, de_key_parses = False\<rparr>"

lemma sample_one_command: "one_command_law (sample_lib ans) (\<lambda>w. set (sw_started w))"
  by (auto simp: one_command_law_def sample_lib_def split: option.splits)

theorem session_runs_one_command_witness:
  "fst (Run (sample_lib (\<lambda>_. Some ''x'')) \<lparr>ss_id = 0, ss_raw = 0\<rparr> ''id'' sample_ssh) = (''x'', True)
    \<and> fst (Run (sample_lib (\<lambda>_. Some ''x'')) \<lparr>ss_id = 0, ss_raw = 0\<rparr> ''id''
        (snd (Run (sample_lib (\<lambda>_. Some ''x'')) \<lparr>ss_id = 0, ss_raw = 0\<rparr> ''id'' sample_ssh))) = ([], False)"
proof -
  let ?l = "sample_lib (\<lambda>_. Some ''x'')" and ?s = "\<lparr>ss_id = 0, ss_raw = 0\<rparr> :: nat session"
  have r: "Run ?l ?s ''id'' sample_ssh = ((''x'', True), snd (Run ?l ?s ''id'' sample_ssh))"
    by (simp add: Run_def start_and_wait_def sample_lib_def sample_ssh_def)
  show ?thesis using session_runs_one_command [OF sample_one_command r, of "''id''" "[]"] r by (metis fold_simps(1) fst_conv)
qed

theorem changed_host_key_accepted_witness:
  "\<exists>kh'. Dial (sample_lib (\<lambda>_. None)) good_dial sample_connect (known_line ''vps:22'' ''key-1'' @ [newline], sample_ssh) = (Inr (), kh', sample_ssh)
    \<and> {known_line ''vps:22'' ''key-1'', known_line ''vps:22'' ''key-2''} \<subseteq> set (scanned_lines kh')"
proof -
  have lines: "known_line ''vps:22'' ''key-1'' \<in> set (scanned_lines (known_line ''vps:22'' ''key-1'' @ [newline]))"
    "newline \<notin> set (known_line ''vps:22'' ''key-2'')"
    by code_simp+
  show ?thesis
    by (rule changed_host_key_accepted [OF _ _ _ _ _ _ lines(1) _ lines(2)])
      (code_simp | simp add: good_dial_def sample_connect_def sample_lib_def hosts_readable_def)+
qed

theorem pool_bounded_witness:
  "\<exists>p. NewPool sample_connect 0 [] sample_ssh = Inr (p :: (unit, nat, sample_world) pool)
    \<and> pst_ActiveSessions (Stats (fold (pool_step (sample_lib (\<lambda>_. None))) (replicate 5 (SessionReq (\<lambda>_. good_dial) 0)) p)) \<le> 3"
proof -
  obtain p :: "(unit, nat, sample_world) pool" where p: "NewPool sample_connect 0 [] sample_ssh = Inr p"
    by (simp add: NewPool_def) (simp add: sample_connect_def Validate_def validateHost_def hostMetachars_def newline_def)
  then show ?thesis using pool_bounded [OF p refl, of "sample_lib (\<lambda>_. None)" "replicate 5 (SessionReq (\<lambda>_. good_dial) 0)"] by blast
qed

end
