(* ===== verification/Vps_State.thy ===== *)
theory Vps_State
  imports Tunnel_Peers
begin

text \<open>
  The persisted entities of the VPS lifecycle (\<open>state/state.go\<close>, \<open>state/migration.go\<close>): the profile of the managed
  server in \<open>vps.json\<close> and the migration plan in \<open>migration.json\<close>, their validation, and loading and saving.
  \<open>uuid.Parse\<close> is a parameter.
\<close>

section \<open>Hosts\<close>

text \<open>\<open>net.ParseIP\<close> as a test: a dotted IPv4 address, or eight groups of hexadecimal digits of which \<open>::\<close> may
  stand for one or more zero groups and the last two may be a dotted address.\<close>

definition is_hex :: "char \<Rightarrow> bool" where
  "is_hex c \<longleftrightarrow> is_digit c \<or> (97 \<le> (of_char c :: nat) \<and> (of_char c :: nat) \<le> 102) \<or> (65 \<le> (of_char c :: nat) \<and> (of_char c :: nat) \<le> 70)"

definition ip6_group :: "string \<Rightarrow> bool" where
  "ip6_group g \<longleftrightarrow> g \<noteq> [] \<and> length g \<le> 4 \<and> list_all is_hex g"

fun ip6_groups :: "string list \<Rightarrow> nat option" where
  "ip6_groups [] = Some 0"
| "ip6_groups [g] = (if ip6_group g then Some 1 else if parse_ipv4 g \<noteq> None then Some 2 else None)"
| "ip6_groups (g # gs) = (if ip6_group g then map_option Suc (ip6_groups gs) else None)"

fun cut_ellipsis :: "string \<Rightarrow> (string \<times> string) option" where
  "cut_ellipsis (c # d # cs) =
     (if c = CHR '':'' \<and> d = CHR '':'' then Some ([], cs) else map_option (\<lambda>(l, r). (c # l, r)) (cut_ellipsis (d # cs)))"
| "cut_ellipsis _ = None"

definition colon_parts :: "string \<Rightarrow> string list" where
  "colon_parts s = (if s = [] then [] else split_on CHR '':'' s)"

definition parse_ipv6 :: "string \<Rightarrow> bool" where
  "parse_ipv6 s =
     (case cut_ellipsis s of
        None \<Rightarrow> ip6_groups (colon_parts s) = Some 8
      | Some (l, r) \<Rightarrow>
          list_all ip6_group (colon_parts l)
          \<and> (case ip6_groups (colon_parts r) of None \<Rightarrow> False | Some n \<Rightarrow> length (colon_parts l) + n \<le> 7))"

definition ParseIP :: "string \<Rightarrow> bool" where
  "ParseIP s \<longleftrightarrow> parse_ipv4 s \<noteq> None \<or> parse_ipv6 s"

definition alnum :: "char \<Rightarrow> bool" where
  "alnum c \<longleftrightarrow> is_digit c \<or> (97 \<le> (of_char c :: nat) \<and> (of_char c :: nat) \<le> 122) \<or> (65 \<le> (of_char c :: nat) \<and> (of_char c :: nat) \<le> 90)"

definition fqdn_label :: "string \<Rightarrow> bool" where
  "fqdn_label l \<longleftrightarrow> l \<noteq> [] \<and> length l \<le> 63 \<and> alnum (hd l) \<and> alnum (last l) \<and> list_all (\<lambda>c. alnum c \<or> c = CHR ''-'') l"

definition fqdnRe :: "string \<Rightarrow> bool" where
  "fqdnRe s \<longleftrightarrow> list_all fqdn_label (split_on CHR ''.'' s)"

definition isValidHost :: "string \<Rightarrow> bool" where
  "isValidHost host =
     (if ParseIP host then True
      else if has_prefix host ''['' \<and> has_suffix host '']'' then ParseIP (butlast (drop 1 host))
      else fqdnRe host \<and> length host \<le> 253)"

definition lower_hex :: "char \<Rightarrow> bool" where
  "lower_hex c \<longleftrightarrow> is_digit c \<or> (97 \<le> (of_char c :: nat) \<and> (of_char c :: nat) \<le> 102)"

definition isValidSHA256 :: "string \<Rightarrow> bool" where
  "isValidSHA256 s \<longleftrightarrow> length s = 64 \<and> list_all lower_hex s"

text \<open>\<open>lockRe\<close> is a sequence of one-character classes; what follows the \<open>T\<close> is free.\<close>

definition lock_pattern :: "(char \<Rightarrow> bool) list" where
  "lock_pattern = replicate 8 lower_hex @ [(=) CHR ''-''] @ replicate 4 lower_hex @ [(=) CHR ''-''] @ replicate 4 lower_hex @ [(=) CHR ''-'']
     @ replicate 4 lower_hex @ [(=) CHR ''-''] @ replicate 12 lower_hex @ [(=) CHR '':''] @ replicate 4 is_digit @ [(=) CHR ''-'']
     @ replicate 2 is_digit @ [(=) CHR ''-''] @ replicate 2 is_digit @ [(=) CHR ''T'']"

definition isValidLockFormat :: "string \<Rightarrow> bool" where
  "isValidLockFormat s \<longleftrightarrow> length lock_pattern \<le> length s \<and> list_all2 (\<lambda>p c. p c) lock_pattern (take (length lock_pattern) s)"

section \<open>The profile\<close>

record vps_profile =
  vp_Host :: string
  vp_Port :: int
  vp_User :: string
  vp_AuthMode :: string
  vp_PrivateKeyPath :: string
  vp_KnownGoodVersion :: string
  vp_LastSeenAt :: string
  vp_Status :: string
  vp_ComposeHash :: string
  vp_WGEndpoint :: string
  vp_WGServerPublicKey :: string
  vp_TunnelSubnet :: string
  vp_LockedBy :: string

datatype profile_error = HostRequiredE | InvalidHostE | PortRange | UserRequiredE | KeyPathRequiredE | InvalidAuthMode
  | InvalidComposeHash | InvalidLock

definition Profile_Validate :: "vps_profile \<Rightarrow> profile_error option" where
  "Profile_Validate p =
     (if vp_Host p = [] then Some HostRequiredE
      else if \<not> isValidHost (vp_Host p) then Some InvalidHostE
      else if vp_Port p < 0 \<or> vp_Port p > 65535 then Some PortRange
      else if vp_User p = [] then Some UserRequiredE
      else if vp_AuthMode p = ''key'' \<and> vp_PrivateKeyPath p = [] then Some KeyPathRequiredE
      else if vp_AuthMode p \<noteq> ''key'' \<and> vp_AuthMode p \<noteq> ''password'' then Some InvalidAuthMode
      else if vp_ComposeHash p \<noteq> [] \<and> \<not> isValidSHA256 (vp_ComposeHash p) then Some InvalidComposeHash
      else if vp_LockedBy p \<noteq> [] \<and> \<not> isValidLockFormat (vp_LockedBy p) then Some InvalidLock
      else None)"

definition DefaultPort :: "vps_profile \<Rightarrow> int" where
  "DefaultPort p = (if vp_Port p = 0 then 22 else vp_Port p)"

section \<open>The migration plan\<close>

datatype migration_status = MigrationPending | MigrationBootstrapping | MigrationSyncing | MigrationCutover
  | MigrationDraining | MigrationComplete | MigrationAborted

record migration_plan =
  mp_ID :: string
  mp_SourceVPS :: string
  mp_TargetVPS :: string
  mp_DNSTtlSeconds :: int
  mp_CutoverAt :: string
  mp_Status :: migration_status
  mp_SnapshotID :: string
  mp_StartedAt :: string
  mp_CompletedAt :: string
  mp_Error :: string

datatype plan_error = PlanIDRequired | PlanIDInvalid | SourceRequired | TargetRequired | SameVPS | TTLRange

definition Plan_Validate :: "(string \<Rightarrow> bool) \<Rightarrow> migration_plan \<Rightarrow> plan_error option" where
  "Plan_Validate uuid_ok m =
     (if mp_ID m = [] then Some PlanIDRequired
      else if \<not> uuid_ok (mp_ID m) then Some PlanIDInvalid
      else if mp_SourceVPS m = [] then Some SourceRequired
      else if mp_TargetVPS m = [] then Some TargetRequired
      else if mp_SourceVPS m = mp_TargetVPS m then Some SameVPS
      else if mp_DNSTtlSeconds m < 60 \<or> mp_DNSTtlSeconds m > 3600 then Some TTLRange
      else None)"

section \<open>Loading and saving\<close>

definition atomicWriteJSON :: "'a saver" where
  "atomicWriteJSON io v d =
     (if \<not> mkdir_ok io then (Some EMkdir, d)
      else if \<not> marshal_ok io then (Some EMarshal, d)
      else if \<not> create_ok io then (Some ECreate, d)
      else let d1 = create_temp d in
        if \<not> write_ok io then (Some EWrite, remove_temp io d1)
        else if \<not> sync_ok io then (Some ESync, remove_temp io d1)
        else if \<not> close_ok io then (Some EClose, remove_temp io d1)
        else if \<not> chmod_ok io then (Some EChmod, remove_temp io d1)
        else if \<not> rename_ok io then (Some ERename, remove_temp io d1)
        else (None, rename_temp v d1))"

interpretation state_file: atomic_saver atomicWriteJSON
  by unfold_locales (auto simp: atomicWriteJSON_def io_all_ok_def Let_def split: if_splits)

datatype 'e state_error = BadEntity 'e | NoHomeDir | ReadFailed | ParseFailed | SaveFailed io_error | RemoveFailed

text \<open>Reading a file: nothing when it does not exist. An empty file is not JSON.\<close>

definition load_entity :: "bool \<Rightarrow> 'a disk \<Rightarrow> 'e state_error + 'a option" where
  "load_entity home d =
     (if \<not> home then Inl NoHomeDir
      else case target d of NoFile \<Rightarrow> Inr None | Unreadable \<Rightarrow> Inl ReadFailed | Blank \<Rightarrow> Inl ParseFailed
        | Garbage \<Rightarrow> Inl ParseFailed | Holds v \<Rightarrow> Inr (Some v))"

definition save_entity :: "bool \<Rightarrow> 'e option \<Rightarrow> io_env \<Rightarrow> 'a \<Rightarrow> 'a disk \<Rightarrow> 'e state_error option \<times> 'a disk" where
  "save_entity home invalid io v d =
     (case invalid of Some e \<Rightarrow> (Some (BadEntity e), d)
      | None \<Rightarrow> if \<not> home then (Some NoHomeDir, d)
          else (case atomicWriteJSON io v d of (r, d1) \<Rightarrow> (map_option SaveFailed r, d1)))"

definition LoadVPSProfile :: "bool \<Rightarrow> vps_profile disk \<Rightarrow> profile_error state_error + vps_profile option" where
  "LoadVPSProfile home d = load_entity home d"

definition SaveVPSProfile :: "bool \<Rightarrow> io_env \<Rightarrow> vps_profile \<Rightarrow> vps_profile disk \<Rightarrow> profile_error state_error option \<times> vps_profile disk" where
  "SaveVPSProfile home io p d = save_entity home (Profile_Validate p) io p d"

definition LoadMigrationPlan :: "bool \<Rightarrow> migration_plan disk \<Rightarrow> plan_error state_error + migration_plan option" where
  "LoadMigrationPlan home d = load_entity home d"

definition SaveMigrationPlan :: "(string \<Rightarrow> bool) \<Rightarrow> bool \<Rightarrow> io_env \<Rightarrow> migration_plan \<Rightarrow> migration_plan disk
    \<Rightarrow> plan_error state_error option \<times> migration_plan disk" where
  "SaveMigrationPlan uuid_ok home io m d = save_entity home (Plan_Validate uuid_ok m) io m d"

definition DeleteMigrationPlan :: "bool \<Rightarrow> bool \<Rightarrow> migration_plan disk \<Rightarrow> plan_error state_error option \<times> migration_plan disk" where
  "DeleteMigrationPlan home remove_works d =
     (if \<not> home then (Some NoHomeDir, d)
      else if target d = NoFile then (None, d)
      else if remove_works then (None, d\<lparr>target := NoFile\<rparr>) else (Some RemoveFailed, d))"

lemma save_entity_outcome:
  assumes "save_entity home invalid io v d = (r, d')"
  shows "case r of None \<Rightarrow> target d' = Holds v \<and> invalid = None | Some _ \<Rightarrow> target d' = target d"
  using assms state_file.save_ok_target [of io v d] state_file.save_err_target [of io v d]
  by (auto simp: save_entity_def split: option.splits if_splits prod.splits)

text \<open>The file of the profile only ever holds valid profiles, whatever is saved and however saves fail, and it
  holds what was last saved with success.\<close>

fun save_profiles :: "(bool \<times> io_env \<times> vps_profile) list \<Rightarrow> vps_profile disk \<Rightarrow> vps_profile disk" where
  "save_profiles [] d = d"
| "save_profiles ((home, io, p) # ps) d = save_profiles ps (snd (SaveVPSProfile home io p d))"

theorem saved_profiles_valid:
  "target d = NoFile \<Longrightarrow> case LoadVPSProfile True (save_profiles ps d) of
      Inr (Some p) \<Rightarrow> Profile_Validate p = None \<and> p \<in> (\<lambda>x. snd (snd x)) ` set ps | Inr None \<Rightarrow> True | Inl _ \<Rightarrow> False"
proof -
  have "(\<exists>p \<in> P \<union> (\<lambda>x. snd (snd x)) ` set ps. target (save_profiles ps d) = Holds p \<and> Profile_Validate p = None) \<or> target (save_profiles ps d) = NoFile"
    if "(\<exists>p \<in> P. target d = Holds p \<and> Profile_Validate p = None) \<or> target d = NoFile" for P
    using that
  proof (induction ps arbitrary: d P)
    case (Cons x ps)
    obtain home io p where x: "x = (home, io, p)" by (cases x)
    obtain r d' where s: "SaveVPSProfile home io p d = (r, d')" by (rule that) (rule prod.collapse [symmetric])
    have "case r of None \<Rightarrow> target d' = Holds p \<and> Profile_Validate p = None | Some _ \<Rightarrow> target d' = target d"
      by (rule save_entity_outcome [OF s [unfolded SaveVPSProfile_def]])
    then have "(\<exists>q \<in> insert p P. target d' = Holds q \<and> Profile_Validate q = None) \<or> target d' = NoFile"
      using Cons.prems by (cases r) auto
    from Cons.IH [OF this] show ?case by (simp add: s x)
  qed auto
  note this [of "{}"]
  then show "target d = NoFile \<Longrightarrow> ?thesis" by (auto simp: LoadVPSProfile_def load_entity_def split: stored.splits intro: rev_image_eqI)
qed

end
