(* ===== verification/Health.thy ===== *)
theory Health
  imports Complex_Main "HOL-Library.Word" Ssh_Pool Vps_State
begin

text \<open>
  Health probing and reconnecting (\<open>lifecycle/health/prober.go\<close>, \<open>reconnect.go\<close>, \<open>health.go\<close>): the prober that counts
  failed probes, the reconnector with its exponential backoff over the SSH pool, and the manager that ties
  them together. The answers of a probe, the random number and the clock come from the environment; the
  state of the reconnector is changed by whole attempts (the source does not synchronise them).
\<close>

section \<open>Probing\<close>

record container_status =
  cs_Name :: string
  cs_Status :: string
  cs_Healthy :: bool

record health_snapshot =
  hs_Timestamp :: instant
  hs_VPSReachable :: bool
  hs_WGTunnelUp :: bool
  hs_ContainerStatuses :: "container_status list"
  hs_WGHandshakeRecency :: string
  hs_Errors :: "string list"
  hs_ProbeLatencyMS :: int

record prober_config =
  pc_Interval :: duration
  pc_FailureThreshold :: int
  pc_ICMPTarget :: string
  pc_HTTPTarget :: string

record prober =
  pr_cfg :: prober_config
  pr_lastSnapshot :: "health_snapshot option"
  pr_consecutiveFail :: int
  pr_running :: bool

definition NewProber :: "prober_config \<Rightarrow> prober" where
  "NewProber cfg =
     (let cfg1 = (if pc_Interval cfg = 0 then cfg\<lparr>pc_Interval := 15 * second\<rparr> else cfg);
          cfg2 = (if pc_FailureThreshold cfg1 = 0 then cfg1\<lparr>pc_FailureThreshold := 3\<rparr> else cfg1)
      in \<lparr>pr_cfg = cfg2, pr_lastSnapshot = None, pr_consecutiveFail = 0, pr_running = False\<rparr>)"

text \<open>The answers to one probe: when it starts, the errors of the two transports, and how long it takes.\<close>

record probe_env =
  pe_start :: instant
  pe_icmp :: "string option"
  pe_http :: "string option"
  pe_took :: duration

definition probe :: "probe_env \<Rightarrow> health_snapshot" where
  "probe e =
     (let snap = \<lparr>hs_Timestamp = pe_start e, hs_VPSReachable = False, hs_WGTunnelUp = False, hs_ContainerStatuses = [],
            hs_WGHandshakeRecency = [], hs_Errors = [], hs_ProbeLatencyMS = 0\<rparr>;
          snap1 = (case pe_icmp e of
              None \<Rightarrow> snap\<lparr>hs_VPSReachable := True, hs_WGTunnelUp := True\<rparr>
            | Some icmpErr \<Rightarrow> (case pe_http e of
                  None \<Rightarrow> snap\<lparr>hs_VPSReachable := True, hs_WGTunnelUp := True\<rparr>
                | Some httpErr \<Rightarrow> snap\<lparr>hs_Errors := hs_Errors snap @ [icmpErr, httpErr]\<rparr>))
      in snap1\<lparr>hs_ProbeLatencyMS := pe_took e div 1000000\<rparr>)"

text \<open>The result says whether \<open>OnReconnect\<close> is called; the manager always sets it.\<close>

definition processSnapshot :: "health_snapshot \<Rightarrow> prober \<Rightarrow> bool \<times> prober" where
  "processSnapshot snap p =
     (let p1 = p\<lparr>pr_lastSnapshot := Some snap,
               pr_consecutiveFail := (if hs_VPSReachable snap then 0 else pr_consecutiveFail p + 1)\<rparr>
      in if pr_consecutiveFail p1 \<ge> pc_FailureThreshold (pr_cfg p1) then (True, p1\<lparr>pr_consecutiveFail := 0\<rparr>) else (False, p1))"

definition ProberSnapshot :: "prober \<Rightarrow> health_snapshot option" where
  "ProberSnapshot p = pr_lastSnapshot p"

text \<open>The triggers of a sequence of probes, one answer for each.\<close>

fun probe_all :: "health_snapshot list \<Rightarrow> prober \<Rightarrow> bool list \<times> prober" where
  "probe_all [] p = ([], p)"
| "probe_all (snap # snaps) p = (case processSnapshot snap p of (t, p1) \<Rightarrow> (case probe_all snaps p1 of (ts, p2) \<Rightarrow> (t # ts, p2)))"

text \<open>The length of the run of failures that ends a history.\<close>

definition fail_run :: "health_snapshot list \<Rightarrow> nat" where
  "fail_run snaps = length (takeWhile (\<lambda>s. \<not> hs_VPSReachable s) (rev snaps))"

lemma fail_run_simps [simp]:
  "fail_run [] = 0"
  "fail_run (snaps @ [s]) = (if hs_VPSReachable s then 0 else Suc (fail_run snaps))"
  by (simp_all add: fail_run_def)

definition counts_run :: "health_snapshot list \<Rightarrow> prober \<Rightarrow> bool" where
  "counts_run snaps p \<longleftrightarrow> 0 < pc_FailureThreshold (pr_cfg p)
     \<and> pr_consecutiveFail p = int (fail_run snaps) mod pc_FailureThreshold (pr_cfg p)"

lemma processSnapshot_counts:
  assumes "counts_run snaps p" and "processSnapshot s p = (t, p')"
  shows "counts_run (snaps @ [s]) p' \<and> pr_cfg p' = pr_cfg p
    \<and> (t \<longleftrightarrow> 0 < fail_run (snaps @ [s]) \<and> pc_FailureThreshold (pr_cfg p) dvd int (fail_run (snaps @ [s])))"
proof -
  let ?k = "pc_FailureThreshold (pr_cfg p)" and ?n = "int (fail_run snaps)"
  have k: "0 < ?k" "pr_consecutiveFail p = ?n mod ?k" using assms(1) by (auto simp: counts_run_def)
  have "?n mod ?k < ?k" using k by simp
  then have m: "(?n + 1) mod ?k = (if ?n mod ?k + 1 \<ge> ?k then 0 else ?n mod ?k + 1)"
  proof (cases "?n mod ?k + 1 \<ge> ?k")
    case True
    then have "?n mod ?k + 1 = ?k" using \<open>?n mod ?k < ?k\<close> by simp
    then show ?thesis using mod_add_left_eq [of ?n ?k 1] by simp
  next
    case False
    then show ?thesis using k mod_add_left_eq [of ?n ?k 1] mod_pos_pos_trivial [of "?n mod ?k + 1" ?k] pos_mod_sign [OF k(1), of ?n] by simp
  qed
  have d: "?k dvd ?n + 1 \<longleftrightarrow> ?n mod ?k + 1 \<ge> ?k" 
  proof -
    have "((if A then 0 else r + 1) = (0::int)) = A" if "0 \<le> r" for A and r :: int using that by simp
    then show ?thesis unfolding dvd_eq_mod_eq_0 m using pos_mod_sign [OF k(1)] by blast
  qed
  have n: "int (fail_run (snaps @ [s])) = (if hs_VPSReachable s then 0 else ?n + 1)" by simp
  have z: "(?n mod ?k + 1 = 0) = False" using pos_mod_sign [OF k(1), of ?n] by auto
  have r: "t = (pr_consecutiveFail p' = 0 \<and> \<not> hs_VPSReachable s)" "pr_cfg p' = pr_cfg p"
    "pr_consecutiveFail p' = (if hs_VPSReachable s then 0 else if ?n mod ?k + 1 \<ge> ?k then 0 else ?n mod ?k + 1)"
    using assms(2) k z by (auto simp: processSnapshot_def Let_def split: if_splits)
  show ?thesis unfolding counts_run_def n r(2) using k(1) r(1,3) m d z by (cases "hs_VPSReachable s") auto
qed

lemma probe_all_counts:
  assumes "counts_run hist p" and "probe_all snaps p = (ts, p')"
  shows "counts_run (hist @ snaps) p' \<and> pr_cfg p' = pr_cfg p \<and> length ts = length snaps
    \<and> (\<forall>i < length snaps. ts ! i \<longleftrightarrow> 0 < fail_run (hist @ take (Suc i) snaps)
          \<and> pc_FailureThreshold (pr_cfg p) dvd int (fail_run (hist @ take (Suc i) snaps)))"
  using assms
proof (induction snaps arbitrary: hist p ts p')
  case (Cons s snaps)
  obtain t p1 where s: "processSnapshot s p = (t, p1)" by (rule that) (rule prod.collapse [symmetric])
  obtain ts1 p2 where r: "probe_all snaps p1 = (ts1, p2)" by (rule that) (rule prod.collapse [symmetric])
  have e: "ts = t # ts1" "p' = p2" using Cons.prems(2) s r by auto
  note a = processSnapshot_counts [OF Cons.prems(1) s]
  have b: "counts_run ((hist @ [s]) @ snaps) p2 \<and> pr_cfg p2 = pr_cfg p1 \<and> length ts1 = length snaps
    \<and> (\<forall>i < length snaps. ts1 ! i \<longleftrightarrow> 0 < fail_run ((hist @ [s]) @ take (Suc i) snaps)
          \<and> pc_FailureThreshold (pr_cfg p1) dvd int (fail_run ((hist @ [s]) @ take (Suc i) snaps)))"
    by (rule Cons.IH) (use a r e in auto)
  show ?case
  proof (intro conjI allI impI)
    fix i assume "i < length (s # snaps)"
    then show "(ts ! i) \<longleftrightarrow> 0 < fail_run (hist @ take (Suc i) (s # snaps))
      \<and> pc_FailureThreshold (pr_cfg p) dvd int (fail_run (hist @ take (Suc i) (s # snaps)))"
      using a b e by (cases i) auto
  qed (use a b e in auto)
qed simp

text \<open>A reconnection is triggered exactly at the probes where the current run of failures reaches a multiple of
  the threshold: never before that many failures in a row, and never on a success.\<close>

theorem prober_triggers_iff:
  assumes "0 < pc_FailureThreshold (pr_cfg (NewProber cfg))" and "i < length snaps"
  shows "fst (probe_all snaps (NewProber cfg)) ! i
    \<longleftrightarrow> 0 < fail_run (take (Suc i) snaps) \<and> pc_FailureThreshold (pr_cfg (NewProber cfg)) dvd int (fail_run (take (Suc i) snaps))"
proof -
  have "counts_run [] (NewProber cfg)" using assms(1) by (simp add: counts_run_def NewProber_def Let_def)
  moreover obtain ts p' where "probe_all snaps (NewProber cfg) = (ts, p')" by (rule that) (rule prod.collapse [symmetric])
  ultimately show ?thesis using probe_all_counts [of "[]" "NewProber cfg" snaps ts p'] assms(2) by auto
qed

text \<open>C23: A partition is always noticed: whatever was probed before, among as many failures in a row as the
  threshold there is exactly one that triggers a reconnection.\<close>

theorem partition_is_noticed:
  assumes "0 < pc_FailureThreshold (pr_cfg (NewProber cfg))" and "\<forall>s \<in> set fails. \<not> hs_VPSReachable s"
    and "int (length fails) = pc_FailureThreshold (pr_cfg (NewProber cfg))"
  shows "\<exists>!i. i < length fails \<and> fst (probe_all (snaps @ fails) (NewProber cfg)) ! (length snaps + i)"
proof -
  let ?k = "length fails" and ?p = "NewProber cfg"
  have c: "counts_run [] ?p" using assms(1) by (simp add: counts_run_def NewProber_def Let_def)
  obtain ts p' where r: "probe_all (snaps @ fails) ?p = (ts, p')" by (rule that) (rule prod.collapse [symmetric])
  have run: "fail_run (snaps @ take (Suc i) fails) = fail_run snaps + Suc i" if "i < ?k" for i
    using that
  proof (induction i)
    case 0
    then show ?case using assms(2) by (cases fails) (auto simp: fail_run_def)
  next
    case (Suc i)
    then have "take (Suc (Suc i)) fails = take (Suc i) fails @ [fails ! Suc i]" "fails ! Suc i \<in> set fails"
      by (auto simp: take_Suc_conv_app_nth)
    then show ?case using Suc assms(2) fail_run_simps(2) [of "snaps @ take (Suc i) fails" "fails ! Suc i"] by simp
  qed
  have t: "ts ! (length snaps + i) \<longleftrightarrow> ?k dvd fail_run snaps + Suc i" if "i < ?k" for i
  proof -
    have "take (Suc (length snaps + i)) (snaps @ fails) = snaps @ take (Suc i) fails" by simp
    moreover have "length snaps + i < length (snaps @ fails)" using that by simp
    ultimately have "ts ! (length snaps + i) \<longleftrightarrow> 0 < fail_run (snaps @ take (Suc i) fails)
        \<and> pc_FailureThreshold (pr_cfg ?p) dvd int (fail_run (snaps @ take (Suc i) fails))"
      using probe_all_counts [OF c r] by (metis append_Nil)
    then show ?thesis unfolding run [OF that] assms(3) [symmetric] by (simp del: of_nat_Suc of_nat_add)
  qed
  let ?i = "?k - 1 - fail_run snaps mod ?k"
  have k: "0 < ?k" using assms(1,3) by linarith
  have "\<exists>!i. i < ?k \<and> ?k dvd fail_run snaps + Suc i"
  proof (rule ex1I [of _ ?i])
    have "fail_run snaps + Suc ?i = ?k * (fail_run snaps div ?k) + ?k"
      using k mod_less_divisor [OF k, of "fail_run snaps"] mult_div_mod_eq [of ?k "fail_run snaps"] by linarith
    then show "?i < ?k \<and> ?k dvd fail_run snaps + Suc ?i" using k by simp
  next
    fix i assume i: "i < ?k \<and> ?k dvd fail_run snaps + Suc i"
    then have "?k dvd fail_run snaps mod ?k + Suc i" by (metis dvd_eq_mod_eq_0 mod_add_left_eq)
    then obtain q where q: "fail_run snaps mod ?k + Suc i = ?k * q" by (auto simp: dvd_def)
    have "fail_run snaps mod ?k + Suc i < ?k * 2" "0 < fail_run snaps mod ?k + Suc i" using i mod_less_divisor [OF k, of "fail_run snaps"] by linarith+
    then have "q = 1" unfolding q by (cases q) (auto simp: less_2_cases_iff)
    then show "i = ?i" using q i by simp
  qed
  then show ?thesis using t r by (auto simp: Ex1_def)
qed

section \<open>Backoff\<close>

datatype reconnect_phase = PhaseNone | PhaseProbing | PhaseReconnect | PhaseVerifying | PhaseSyncing | PhaseFailed | PhaseRecovered

datatype reconnect_error = SSHUnreachable ssh_error | DockerDown string | ContainerCheckFailed | MissingContainer string

record reconnect_state =
  rs_StartedAt :: "instant option"
  rs_AttemptCount :: int
  rs_NextAttemptAt :: "instant option"
  rs_CurrentDelay :: duration
  rs_Phase :: reconnect_phase
  rs_LastError :: "reconnect_error option"

definition zero_reconnect_state :: reconnect_state where
  "zero_reconnect_state = \<lparr>rs_StartedAt = None, rs_AttemptCount = 0, rs_NextAttemptAt = None, rs_CurrentDelay = 0,
     rs_Phase = PhaseNone, rs_LastError = None\<rparr>"

definition backoffInitial :: duration where
  "backoffInitial = 2 * second"

definition backoffCap :: duration where
  "backoffCap = 60 * second"

text \<open>\<open>time.Duration(math.Pow(2, k))\<close> is exact while the power fits an int64; the conversion of a larger float is
  left to the implementation, here the parameter \<open>big\<close>. The product with the initial delay is a 64-bit one.\<close>

definition pow_duration :: "64 word \<Rightarrow> int \<Rightarrow> 64 word" where
  "pow_duration big k = (if k < 0 then 0 else if k < 63 then 2 ^ nat k else big)"

definition backoff :: "64 word \<Rightarrow> int \<Rightarrow> duration" where
  "backoff big attempts =
     (let delay = sint (word_of_int backoffInitial * pow_duration big (attempts - 1))
      in if delay > backoffCap then backoffCap else delay)"

text \<open>The jitter for a random number \<open>u\<close> between 0 and 1; the conversion back truncates towards zero.\<close>

definition jittered :: "rat \<Rightarrow> duration \<Rightarrow> duration" where
  "jittered u delay =
     (let x = of_int delay * (1 + (u * 2 - 1) * (1 / 5)) in if x < 0 then - \<lfloor>- x\<rfloor> else \<lfloor>x\<rfloor>)"

lemma sint64_small: "0 \<le> n \<Longrightarrow> n < 2 ^ 63 \<Longrightarrow> sint (word_of_int n :: 64 word) = n"
  by (simp add: signed_take_bit_int_eq_self sint_uint unsigned_of_int take_bit_int_eq_self)

lemma pow_duration_small: "0 \<le> k \<Longrightarrow> k < 63 \<Longrightarrow> pow_duration big k = word_of_int (2 ^ nat k)"
  by (simp add: pow_duration_def)

lemma backoff_before_wrap:
  assumes "1 \<le> n" and "n \<le> 33"
  shows "backoff big n = min (backoffInitial * 2 ^ nat (n - 1)) backoffCap"
proof -
  have "(2::int) ^ nat (n - 1) \<le> 2 ^ 32" using assms by (intro power_increasing) auto
  then have "backoffInitial * 2 ^ nat (n - 1) < 2 ^ 63" by (simp add: backoffInitial_def second_def)
  moreover have "0 \<le> backoffInitial * 2 ^ nat (n - 1)" by (simp add: backoffInitial_def second_def)
  ultimately have "sint (word_of_int (backoffInitial * 2 ^ nat (n - 1)) :: 64 word) = backoffInitial * 2 ^ nat (n - 1)"
    by (intro sint64_small)
  moreover have "word_of_int backoffInitial * pow_duration big (n - 1) = word_of_int (backoffInitial * 2 ^ nat (n - 1))"
    using assms by (simp only: pow_duration_small wi_hom_mult)
  ultimately have "sint (word_of_int backoffInitial * pow_duration big (n - 1)) = backoffInitial * 2 ^ nat (n - 1)" by (simp only:)
  then show ?thesis by (simp add: backoff_def Let_def min_def)
qed

lemma backoff_first_wrap: "backoff big 34 = - 1266874889709551616"
proof -
  have "sint (word_of_int backoffInitial * pow_duration big 33) = - 1266874889709551616"
    by (simp add: pow_duration_def backoffInitial_def second_def)
  then show ?thesis by (simp add: backoff_def Let_def backoffCap_def second_def)
qed

text \<open>Every known implementation converts a float that is too large to the smallest or the largest int64.\<close>

definition conversion_result :: "64 word \<Rightarrow> bool" where
  "conversion_result big \<longleftrightarrow> big = 2 ^ 63 \<or> big = 2 ^ 63 - 1"

lemma backoff_exhausted:
  assumes "conversion_result big" and "55 \<le> n"
  shows "backoff big n \<le> 0"
proof -
  have "sint (word_of_int backoffInitial * pow_duration big (n - 1)) \<le> 0"
  proof (cases "n - 1 < 63")
    case True
    have "54 \<le> nat (n - 1)" using assms(2) by linarith
    then obtain k where k: "nat (n - 1) = 54 + k" using le_Suc_ex by blast
    have "word_of_int backoffInitial * (2 ^ 54 :: 64 word) = 0" by (simp add: backoffInitial_def second_def)
    then have "word_of_int backoffInitial * (2 ^ (54 + k) :: 64 word) = 0" by (simp add: power_add flip: mult.assoc)
    then show ?thesis using True assms(2) k by (simp add: pow_duration_def)
  next
    case False
    then show ?thesis using assms(1) by (auto simp: pow_duration_def conversion_result_def backoffInitial_def second_def)
  qed
  then show ?thesis by (simp add: backoff_def Let_def)
qed

lemma jittered_bounds:
  assumes "0 \<le> u" and "u \<le> 1" and "0 \<le> d"
  shows "4 * d \<le> 5 * jittered u d + 4" and "5 * jittered u d \<le> 6 * d"
proof -
  let ?x = "of_int d * (1 + (u * 2 - 1) * (1 / 5)) :: rat"
  have "4 / 5 \<le> 1 + (u * 2 - 1) * (1 / 5)" "1 + (u * 2 - 1) * (1 / 5) \<le> 6 / 5" using assms(1,2) by (simp_all add: field_simps)
  then have x: "of_int d * (4 / 5) \<le> ?x" "?x \<le> of_int d * (6 / 5)" using assms(3) by (intro mult_left_mono; simp)+
  then have "0 \<le> ?x" using assms(3) by (intro order_trans [OF _ x(1)]) simp
  then have j: "jittered u d = \<lfloor>?x\<rfloor>" by (simp add: jittered_def Let_def)
  have "of_int (4 * d) \<le> (5 * ?x)" "5 * ?x \<le> of_int (6 * d)" using x by simp_all
  moreover have "of_int \<lfloor>?x\<rfloor> \<le> ?x" "?x < of_int \<lfloor>?x\<rfloor> + 1" by linarith+
  ultimately have "(of_int (4 * d) :: rat) < of_int (5 * \<lfloor>?x\<rfloor> + 5)" "(of_int (5 * \<lfloor>?x\<rfloor>) :: rat) \<le> of_int (6 * d)"
    by (simp_all only: of_int_add of_int_mult of_int_numeral)
  then have "4 * d < 5 * \<lfloor>?x\<rfloor> + 5" "5 * \<lfloor>?x\<rfloor> \<le> 6 * d" by (simp_all only: of_int_less_iff of_int_le_iff)
  then show "4 * d \<le> 5 * jittered u d + 4" "5 * jittered u d \<le> 6 * d" unfolding j by linarith+
qed

lemma jittered_nonpos:
  assumes "0 \<le> u" and "u \<le> 1" and "d \<le> 0"
  shows "jittered u d \<le> 0"
proof -
  have "0 \<le> 1 + (u * 2 - 1) * (1 / 5)" using assms(1,2) by (simp add: field_simps)
  then have "of_int d * (1 + (u * 2 - 1) * (1 / 5)) \<le> (0::rat)" using assms(3) by (intro mult_nonpos_nonneg) auto
  then show ?thesis by (auto simp: jittered_def Let_def floor_le_zero)
qed

text \<open>The waiting times: two seconds, doubling up to a minute, for the first 33 attempts, within a fifth; the 34th is
  negative and from the 55th on none is positive, so that the retries follow each other without a pause.\<close>

theorem backoff_collapses:
  assumes "0 \<le> u" and "u \<le> 1" and "conversion_result big"
  shows "(1 \<le> n \<and> n \<le> 33 \<longrightarrow> backoff big n = min (backoffInitial * 2 ^ nat (n - 1)) backoffCap
      \<and> 4 * backoff big n \<le> 5 * jittered u (backoff big n) + 4 \<and> 5 * jittered u (backoff big n) \<le> 6 * backoff big n)
    \<and> (n = 34 \<or> 55 \<le> n \<longrightarrow> jittered u (backoff big n) \<le> 0)"
proof (intro conjI impI)
  assume n: "1 \<le> n \<and> n \<le> 33"
  then show b: "backoff big n = min (backoffInitial * 2 ^ nat (n - 1)) backoffCap" using backoff_before_wrap by blast
  then have "0 \<le> backoff big n" by (simp add: backoffInitial_def backoffCap_def second_def)
  then show "4 * backoff big n \<le> 5 * jittered u (backoff big n) + 4" "5 * jittered u (backoff big n) \<le> 6 * backoff big n"
    using jittered_bounds [OF assms(1,2)] by blast+
next
  assume "n = 34 \<or> 55 \<le> n"
  then have "backoff big n \<le> 0" using backoff_first_wrap [of big] backoff_exhausted [OF assms(3), of n] by auto
  then show "jittered u (backoff big n) \<le> 0" by (rule jittered_nonpos [OF assms(1,2)])
qed

theorem backoff_collapses_witness:
  "backoff (2 ^ 63) 3 = 8 * second \<and> jittered (1 / 2) (backoff (2 ^ 63) 60) \<le> 0"
proof -
  have "backoff (2 ^ 63) 3 = min (backoffInitial * 2 ^ nat (3 - 1)) backoffCap" "jittered (1 / 2) (backoff (2 ^ 63) 60) \<le> 0"
    using backoff_collapses [of "1 / 2" "2 ^ 63" 3] backoff_collapses [of "1 / 2" "2 ^ 63" 60] by (simp_all add: conversion_result_def)
  then show ?thesis by (simp add: backoffInitial_def backoffCap_def second_def)
qed

section \<open>Reconnecting\<close>

text \<open>The reconnector with its pool; \<open>rc_emitted\<close> is what \<open>OnStateChange\<close> was called with.\<close>

record ('c, 'r, 'w) reconnector =
  rc_pool :: "('c, 'r, 'w) pool"
  rc_state :: reconnect_state
  rc_emitted :: "reconnect_state list"

record attempt_env =
  at_started :: instant
  at_dial :: "nat \<Rightarrow> dial_env"
  at_used :: instant
  at_random :: rat
  at_scheduled :: instant

definition NewReconnector :: "('c, 'r, 'w) pool \<Rightarrow> ('c, 'r, 'w) reconnector" where
  "NewReconnector p = \<lparr>rc_pool = p, rc_state = zero_reconnect_state, rc_emitted = []\<rparr>"

definition emitState :: "('c, 'r, 'w) reconnector \<Rightarrow> ('c, 'r, 'w) reconnector" where
  "emitState r = r\<lparr>rc_emitted := rc_emitted r @ [rc_state r]\<rparr>"

definition enter_phase :: "reconnect_phase \<Rightarrow> ('c, 'r, 'w) reconnector \<Rightarrow> ('c, 'r, 'w) reconnector" where
  "enter_phase ph r = emitState (r\<lparr>rc_state := (rc_state r)\<lparr>rs_Phase := ph\<rparr>\<rparr>)"

definition scheduleNext :: "64 word \<Rightarrow> attempt_env \<Rightarrow> reconnect_state \<Rightarrow> reconnect_state" where
  "scheduleNext big e st =
     (let delay = jittered (at_random e) (backoff big (rs_AttemptCount st))
      in st\<lparr>rs_CurrentDelay := delay, rs_NextAttemptAt := Some (at_scheduled e + delay)\<rparr>)"

definition attempt_failed :: "64 word \<Rightarrow> attempt_env \<Rightarrow> reconnect_error \<Rightarrow> ('c, 'r, 'w) reconnector
    \<Rightarrow> reconnect_error option \<times> ('c, 'r, 'w) reconnector" where
  "attempt_failed big e err r =
     (Some err, emitState (r\<lparr>rc_state := scheduleNext big e ((rc_state r)\<lparr>rs_Phase := PhaseFailed, rs_LastError := Some err\<rparr>)\<rparr>))"

definition docker_info_command :: string where
  "docker_info_command = ''sudo docker info --format '' @ [CHR 0x27] @ ''{{.ServerVersion}}'' @ [CHR 0x27] @ '' 2>/dev/null''"

definition docker_ps_command :: string where
  "docker_ps_command = ''sudo docker ps --filter name=unet- --format '' @ [CHR 0x27] @ ''{{.Names}}'' @ [CHR 0x27] @ '' 2>/dev/null''"

definition expectedContainers :: "string list" where
  "expectedContainers = [''unet-net-pause'', ''unet-amnezia-awg'', ''unet-caddy'']"

definition on_pool :: "('w \<Rightarrow> 'a \<times> 'w) \<Rightarrow> ('c, 'r, 'w) reconnector \<Rightarrow> 'a \<times> ('c, 'r, 'w) reconnector" where
  "on_pool f r = (case f (pl_world (rc_pool r)) of (x, w) \<Rightarrow> (x, r\<lparr>rc_pool := (rc_pool r)\<lparr>pl_world := w\<rparr>\<rparr>))"

definition put_session :: "('c, 'r, 'w) ssh_lib \<Rightarrow> 'r session \<Rightarrow> ('c, 'r, 'w) reconnector \<Rightarrow> ('c, 'r, 'w) reconnector" where
  "put_session lib s r = r\<lparr>rc_pool := Put lib s (rc_pool r)\<rparr>"

definition begin_attempt :: "attempt_env \<Rightarrow> ('c, 'r, 'w) reconnector \<Rightarrow> ('c, 'r, 'w) reconnector" where
  "begin_attempt e r =
     (let st = rc_state r;
          st1 = (if rs_StartedAt st = None then st\<lparr>rs_StartedAt := Some (at_started e)\<rparr> else st)
      in enter_phase PhaseProbing (r\<lparr>rc_state := st1\<lparr>rs_AttemptCount := rs_AttemptCount st1 + 1\<rparr>\<rparr>))"

definition finish_attempt :: "('c, 'r, 'w) reconnector \<Rightarrow> ('c, 'r, 'w) reconnector" where
  "finish_attempt r =
     (let r1 = enter_phase PhaseSyncing r;
          r2 = enter_phase PhaseRecovered (r1\<lparr>rc_state := (rc_state r1)\<lparr>rs_LastError := None\<rparr>\<rparr>)
      in r2\<lparr>rc_state := zero_reconnect_state\<rparr>)"

definition check_containers :: "64 word \<Rightarrow> attempt_env \<Rightarrow> string \<Rightarrow> ('c, 'r, 'w) reconnector
    \<Rightarrow> reconnect_error option \<times> ('c, 'r, 'w) reconnector" where
  "check_containers big e containerOut r =
     (case List.find (\<lambda>name. \<not> contains containerOut name) expectedContainers of
        Some name \<Rightarrow> attempt_failed big e (MissingContainer name) r
      | None \<Rightarrow> (None, finish_attempt r))"

definition Execute :: "('c, 'r, 'w) ssh_lib \<Rightarrow> 64 word \<Rightarrow> attempt_env \<Rightarrow> ('c, 'r, 'w) reconnector
    \<Rightarrow> reconnect_error option \<times> ('c, 'r, 'w) reconnector" where
  "Execute lib big e r =
     (let r1 = begin_attempt e r in
      case PoolSession lib (at_dial e) (at_used e) (rc_pool r1) of
        (Inl err, p) \<Rightarrow> attempt_failed big e (SSHUnreachable err) (r1\<lparr>rc_pool := p\<rparr>)
      | (Inr sess, p) \<Rightarrow>
          (case on_pool (Run lib sess docker_info_command) (enter_phase PhaseReconnect (r1\<lparr>rc_pool := p\<rparr>)) of
             ((out, False), r2) \<Rightarrow> attempt_failed big e (DockerDown out) (put_session lib sess r2)
           | ((out, True), r2) \<Rightarrow>
               (case on_pool (Run lib sess docker_ps_command) (enter_phase PhaseVerifying r2) of
                  ((containerOut, False), r3) \<Rightarrow> attempt_failed big e ContainerCheckFailed (put_session lib sess r3)
                | ((containerOut, True), r3) \<Rightarrow> check_containers big e containerOut (put_session lib sess r3))))"

text \<open>Exactly when an attempt recovers, and what it then leaves.\<close>

lemma begin_attempt_simps [simp]:
  "rc_pool (begin_attempt e r) = rc_pool r"
  "rs_AttemptCount (rc_state (begin_attempt e r)) = rs_AttemptCount (rc_state r) + 1"
  by (simp_all add: begin_attempt_def enter_phase_def emitState_def Let_def)

lemma enter_phase_simps [simp]:
  "rc_pool (enter_phase ph r) = rc_pool r"
  "rs_AttemptCount (rc_state (enter_phase ph r)) = rs_AttemptCount (rc_state r)"
  by (simp_all add: enter_phase_def emitState_def)

lemma on_pool_eq: "on_pool f r = (x, r') \<longleftrightarrow> (\<exists>w. f (pl_world (rc_pool r)) = (x, w) \<and> r' = r\<lparr>rc_pool := (rc_pool r)\<lparr>pl_world := w\<rparr>\<rparr>)"
  by (auto simp: on_pool_def split: prod.splits)

lemma attempt_failed_fst [simp]: "fst (attempt_failed big e err r) = Some err"
  by (simp add: attempt_failed_def)

lemma check_containers_fst: "fst (check_containers big e out r) = None \<longleftrightarrow> list_all (contains out) expectedContainers"
  by (auto simp: check_containers_def list_all_iff find_None_iff split: option.splits dest: find_Some_in)

theorem Execute_recovers_iff:
  "fst (Execute lib big e r) = None \<longleftrightarrow>
     (\<exists>sess p out w1 names w2. PoolSession lib (at_dial e) (at_used e) (rc_pool r) = (Inr sess, p)
        \<and> Run lib sess docker_info_command (pl_world p) = ((out, True), w1)
        \<and> Run lib sess docker_ps_command w1 = ((names, True), w2) \<and> list_all (contains names) expectedContainers)"
proof -
  obtain res p where s: "PoolSession lib (at_dial e) (at_used e) (rc_pool r) = (res, p)" by (rule that) (rule prod.collapse [symmetric])
  show ?thesis
  proof (cases res)
    case (Inl err)
    then show ?thesis using s by (simp add: Execute_def Let_def)
  next
    case (Inr sess)
    obtain out ok w1 where i: "Run lib sess docker_info_command (pl_world p) = ((out, ok), w1)" by (metis prod.collapse)
    obtain names ok2 w2 where n: "Run lib sess docker_ps_command w1 = ((names, ok2), w2)" by (metis prod.collapse)
    show ?thesis using s i n Inr
      by (cases ok; cases ok2) (simp_all add: Execute_def Let_def on_pool_def check_containers_fst)
  qed
qed

definition failed_state :: "64 word \<Rightarrow> attempt_env \<Rightarrow> ('c, 'r, 'w) reconnector \<Rightarrow> ('c, 'r, 'w) reconnector \<Rightarrow> bool" where
  "failed_state big e r r' \<longleftrightarrow> rs_Phase (rc_state r') = PhaseFailed \<and> rs_AttemptCount (rc_state r') = rs_AttemptCount (rc_state r) + 1
     \<and> rs_CurrentDelay (rc_state r') = jittered (at_random e) (backoff big (rs_AttemptCount (rc_state r) + 1))"

lemma attempt_failed_state:
  "rs_AttemptCount (rc_state r1) = rs_AttemptCount (rc_state r) + 1 \<Longrightarrow> failed_state big e r (snd (attempt_failed big e err r1))"
  by (simp add: failed_state_def attempt_failed_def emitState_def scheduleNext_def Let_def)

lemma Execute_failed_state:
  assumes "fst (Execute lib big e r) \<noteq> None"
  shows "failed_state big e r (snd (Execute lib big e r))"
proof -
  obtain res p where s: "PoolSession lib (at_dial e) (at_used e) (rc_pool r) = (res, p)" by (rule that) (rule prod.collapse [symmetric])
  show ?thesis
  proof (cases res)
    case (Inl err)
    then show ?thesis using s by (simp add: Execute_def Let_def attempt_failed_state)
  next
    case (Inr sess)
    obtain out ok w1 where i: "Run lib sess docker_info_command (pl_world p) = ((out, ok), w1)" by (metis prod.collapse)
    obtain names ok2 w2 where n: "Run lib sess docker_ps_command w1 = ((names, ok2), w2)" by (metis prod.collapse)
    show ?thesis using assms s i n Inr
      by (cases ok; cases ok2)
         (auto simp: Execute_def Let_def on_pool_def put_session_def check_containers_def attempt_failed_state split: option.splits)
  qed
qed

lemma one_command_fails_Execute:
  assumes "one_command_law lib started"
  shows "fst (Execute lib big e r) \<noteq> None"
proof
  assume "fst (Execute lib big e r) = None"
  then obtain sess p out w1 names w2 where "PoolSession lib (at_dial e) (at_used e) (rc_pool r) = (Inr sess, p)" and i: "Run lib sess docker_info_command (pl_world p) = ((out, True), w1)"
      and n: "Run lib sess docker_ps_command w1 = ((names, True), w2)"
    unfolding Execute_recovers_iff by blast
  have "fst (Run lib sess docker_ps_command w1) = ([], False)"
    by (rule used_session_fails(1) [OF assms Run_marks [OF assms i]])
  then show False using n by simp
qed

text \<open>No attempt ever recovers. Both commands of an attempt run on one session, which takes only one, so whatever
  the state of the server the second fails. After any number of attempts the reconnector is in the failed
  phase, has counted them all, and from the 55th on retries without waiting.\<close>

theorem reconnect_never_recovers:
  assumes "one_command_law lib started" and "conversion_result big" and "es \<noteq> []"
    and "\<forall>e \<in> set es. 0 \<le> at_random e \<and> at_random e \<le> 1"
  shows "let st = rc_state (fold (\<lambda>e r. snd (Execute lib big e r)) es (NewReconnector p)) in
    rs_Phase st = PhaseFailed \<and> rs_AttemptCount st = int (length es) \<and> (55 \<le> length es \<longrightarrow> rs_CurrentDelay st \<le> 0)"
  using assms(3,4)
proof (induction es rule: rev_induct)
  case (snoc e es)
  let ?r = "fold (\<lambda>e r. snd (Execute lib big e r)) es (NewReconnector p)"
  have n: "rs_AttemptCount (rc_state ?r) = int (length es)"
    using snoc by (cases "es = []") (auto simp: NewReconnector_def zero_reconnect_state_def Let_def)
  have f: "failed_state big e ?r (snd (Execute lib big e ?r))"
    by (rule Execute_failed_state [OF one_command_fails_Execute [OF assms(1)]])
  have "jittered (at_random e) (backoff big (int (length es) + 1)) \<le> 0" if "55 \<le> length es + 1"
    by (rule jittered_nonpos [OF _ _ backoff_exhausted [OF assms(2)]]) (use snoc.prems(2) that in auto)
  then show ?case using f n by (simp add: failed_state_def Let_def)
qed simp

theorem reconnect_never_recovers_witness:
  "\<exists>p :: (unit, nat, sample_world) pool. let st = rc_state (fold (\<lambda>e r. snd (Execute (sample_lib (\<lambda>_. Some ''unet-net-pause unet-amnezia-awg unet-caddy'')) (2 ^ 63) e r))
     (replicate 60 \<lparr>at_started = 0, at_dial = (\<lambda>_. good_dial), at_used = 0, at_random = 0, at_scheduled = 0\<rparr>) (NewReconnector p)) in
    rs_Phase st = PhaseFailed \<and> rs_AttemptCount st = 60 \<and> rs_CurrentDelay st \<le> 0"
proof -
  obtain p :: "(unit, nat, sample_world) pool" where True by blast
  then show ?thesis
    using reconnect_never_recovers [OF sample_one_command, of "2 ^ 63" "replicate 60 \<lparr>at_started = 0, at_dial = (\<lambda>_. good_dial), at_used = 0, at_random = 0, at_scheduled = 0\<rparr>"]
    by (intro exI [of _ p]) (simp add: conversion_result_def Let_def del: replicate.simps fold_replicate)
qed

section \<open>The manager\<close>

text \<open>Contexts are numbered in the order in which \<open>Start\<close> creates them; \<open>hm_cancel\<close> is the one the stored cancel
  function cancels. \<open>hm_probers\<close> are the contexts of the goroutines that run the probe loop, \<open>hm_retries\<close> the
  goroutines that wait to retry, with their contexts and delays.\<close>

record ('c, 'r, 'w) health_manager =
  hm_prober :: prober
  hm_reconnect :: "('c, 'r, 'w) reconnector"
  hm_running :: bool
  hm_snapshot :: "health_snapshot option"
  hm_cancel :: "nat option"
  hm_contexts :: nat
  hm_cancelled :: "nat set"
  hm_probers :: "nat set"
  hm_retries :: "(nat \<times> duration) list"

definition NewHealthManager :: "('c, 'r, 'w) pool \<Rightarrow> vps_profile \<Rightarrow> ('c, 'r, 'w) health_manager" where
  "NewHealthManager pool profile =
     (let httpTarget = (if vp_TunnelSubnet profile \<noteq> [] then hd (split_on CHR ''/'' (vp_TunnelSubnet profile)) @ '':2019/config/'' else [])
      in \<lparr>hm_prober = NewProber \<lparr>pc_Interval = 0, pc_FailureThreshold = 0, pc_ICMPTarget = vp_WGEndpoint profile, pc_HTTPTarget = httpTarget\<rparr>,
          hm_reconnect = NewReconnector pool, hm_running = False, hm_snapshot = None, hm_cancel = None, hm_contexts = 0,
          hm_cancelled = {}, hm_probers = {}, hm_retries = []\<rparr>)"

definition Health_Start :: "('c, 'r, 'w) health_manager \<Rightarrow> ('c, 'r, 'w) health_manager" where
  "Health_Start s = (if hm_running s then s
     else s\<lparr>hm_cancel := Some (hm_contexts s), hm_contexts := hm_contexts s + 1, hm_running := True,
            hm_probers := insert (hm_contexts s) (hm_probers s), hm_prober := (hm_prober s)\<lparr>pr_running := True\<rparr>\<rparr>)"

definition Health_Stop :: "('c, 'r, 'w) health_manager \<Rightarrow> ('c, 'r, 'w) health_manager" where
  "Health_Stop s = (case hm_cancel s of
       Some ctx \<Rightarrow> s\<lparr>hm_cancelled := insert ctx (hm_cancelled s), hm_cancel := None, hm_running := False\<rparr>
     | None \<Rightarrow> s\<lparr>hm_running := False\<rparr>)"

definition handleReconnect :: "('c, 'r, 'w) ssh_lib \<Rightarrow> 64 word \<Rightarrow> nat \<Rightarrow> attempt_env \<Rightarrow> ('c, 'r, 'w) health_manager \<Rightarrow> ('c, 'r, 'w) health_manager" where
  "handleReconnect lib big ctx e s =
     (case Execute lib big e (hm_reconnect s) of
        (None, r) \<Rightarrow> s\<lparr>hm_reconnect := r\<rparr>
      | (Some err, r) \<Rightarrow> s\<lparr>hm_reconnect := r, hm_retries := hm_retries s @ [(ctx, rs_CurrentDelay (rc_state r))]\<rparr>)"

definition probe_once :: "('c, 'r, 'w) ssh_lib \<Rightarrow> 64 word \<Rightarrow> nat \<Rightarrow> probe_env \<Rightarrow> attempt_env \<Rightarrow> ('c, 'r, 'w) health_manager \<Rightarrow> ('c, 'r, 'w) health_manager" where
  "probe_once lib big ctx pe e s =
     (case processSnapshot (probe pe) (hm_prober s) of
        (trigger, p) \<Rightarrow>
          (let s1 = s\<lparr>hm_prober := p, hm_snapshot := Some (probe pe)\<rparr>
           in if trigger then handleReconnect lib big ctx e s1 else s1))"

definition end_prober :: "nat \<Rightarrow> ('c, 'r, 'w) health_manager \<Rightarrow> ('c, 'r, 'w) health_manager" where
  "end_prober ctx s = s\<lparr>hm_probers := hm_probers s - {ctx}, hm_prober := (hm_prober s)\<lparr>pr_running := False\<rparr>, hm_running := False\<rparr>"

datatype health_event = StartE | StopE | ProbeE nat probe_env attempt_env | ExitE nat | RetryE nat attempt_env | DropE nat

text \<open>The steps of the goroutines: a loop whose context is cancelled may still take a tick before it exits; a
  waiting retry is dropped when its context is cancelled and tries again otherwise.\<close>

inductive health_step :: "('c, 'r, 'w) ssh_lib \<Rightarrow> 64 word \<Rightarrow> ('c, 'r, 'w) health_manager \<Rightarrow> health_event \<Rightarrow> ('c, 'r, 'w) health_manager \<Rightarrow> bool"
  for lib :: "('c, 'r, 'w) ssh_lib" and big :: "64 word" where
  start: "health_step lib big s StartE (Health_Start s)"
| stop: "health_step lib big s StopE (Health_Stop s)"
| tick: "ctx \<in> hm_probers s \<Longrightarrow> health_step lib big s (ProbeE ctx pe e) (probe_once lib big ctx pe e s)"
| exit: "ctx \<in> hm_probers s \<Longrightarrow> ctx \<in> hm_cancelled s \<Longrightarrow> health_step lib big s (ExitE ctx) (end_prober ctx s)"
| retry: "hm_retries s = xs @ (ctx, d) # ys \<Longrightarrow> ctx \<notin> hm_cancelled s \<Longrightarrow>
    health_step lib big s (RetryE ctx e) (handleReconnect lib big ctx e (s\<lparr>hm_retries := xs @ ys\<rparr>))"
| drop: "hm_retries s = xs @ (ctx, d) # ys \<Longrightarrow> ctx \<in> hm_cancelled s \<Longrightarrow> health_step lib big s (DropE ctx) (s\<lparr>hm_retries := xs @ ys\<rparr>)"

inductive_simps health_step_simps [simp]:
  "health_step lib big s StartE s'"
  "health_step lib big s StopE s'"
  "health_step lib big s (ProbeE ctx pe e) s'"
  "health_step lib big s (ExitE ctx) s'"

inductive_cases health_step_cases [elim]:
  "health_step lib big s (RetryE ctx e) s'"
  "health_step lib big s (DropE ctx) s'"

inductive health_trace :: "('c, 'r, 'w) ssh_lib \<Rightarrow> 64 word \<Rightarrow> ('c, 'r, 'w) health_manager \<Rightarrow> health_event list \<Rightarrow> ('c, 'r, 'w) health_manager \<Rightarrow> bool"
  for lib :: "('c, 'r, 'w) ssh_lib" and big :: "64 word" and s0 :: "('c, 'r, 'w) health_manager" where
  empty: "health_trace lib big s0 [] s0"
| extend: "health_trace lib big s0 evs s \<Longrightarrow> health_step lib big s ev s' \<Longrightarrow> health_trace lib big s0 (evs @ [ev]) s'"

inductive_cases health_trace_snocE: "health_trace lib big s (evs @ [ev]) s'"

definition is_probe :: "health_event \<Rightarrow> bool" where
  "is_probe ev \<longleftrightarrow> (case ev of ProbeE ctx pe e \<Rightarrow> True | _ \<Rightarrow> False)"

definition is_retry :: "health_event \<Rightarrow> bool" where
  "is_retry ev \<longleftrightarrow> (case ev of RetryE ctx e \<Rightarrow> True | _ \<Rightarrow> False)"

definition failing :: "health_event \<Rightarrow> bool" where
  "failing ev \<longleftrightarrow> (case ev of ProbeE ctx pe e \<Rightarrow> pe_icmp pe \<noteq> None \<and> pe_http pe \<noteq> None | StopE \<Rightarrow> False | _ \<Rightarrow> True)"

lemma failing_probe: "pe_icmp pe \<noteq> None \<Longrightarrow> pe_http pe \<noteq> None \<Longrightarrow> \<not> hs_VPSReachable (probe pe)"
  by (auto simp: probe_def Let_def)

definition piled_up :: "nat \<Rightarrow> nat \<Rightarrow> ('c, 'r, 'w) health_manager \<Rightarrow> bool" where
  "piled_up n k s \<longleftrightarrow> hm_cancelled s = {} \<and> pc_FailureThreshold (pr_cfg (hm_prober s)) = 3
     \<and> pr_consecutiveFail (hm_prober s) = int (n mod 3) \<and> length (hm_retries s) = n div 3
     \<and> rs_AttemptCount (rc_state (hm_reconnect s)) = int (n div 3 + k)"

lemma handleReconnect_fails:
  assumes "one_command_law lib started"
  obtains r where "handleReconnect lib big ctx e s = s\<lparr>hm_reconnect := r, hm_retries := hm_retries s @ [(ctx, rs_CurrentDelay (rc_state r))]\<rparr>"
    and "rs_AttemptCount (rc_state r) = rs_AttemptCount (rc_state (hm_reconnect s)) + 1"
proof -
  obtain x r where x: "Execute lib big e (hm_reconnect s) = (x, r)" by (rule that) (rule prod.collapse [symmetric])
  have "x \<noteq> None" "failed_state big e (hm_reconnect s) r"
    using one_command_fails_Execute [OF assms, of big e "hm_reconnect s"] Execute_failed_state [of lib big e "hm_reconnect s"] x by simp_all
  then show ?thesis by (intro that [of r]) (auto simp: handleReconnect_def x failed_state_def)
qed

lemma piled_up_step:
  assumes "one_command_law lib started" and "health_step lib big s ev s'" and "failing ev" and "piled_up n k s"
  shows "piled_up (if is_probe ev then n + 1 else n) (if is_retry ev then k + 1 else k) s'"
  using assms(2)
proof cases
  case (tick ctx pe e)
  have fail: "\<not> hs_VPSReachable (probe pe)" using assms(3) tick failing_probe [of pe] by (simp add: failing_def)
  obtain t p where p: "processSnapshot (probe pe) (hm_prober s) = (t, p)" by (rule that) (rule prod.collapse [symmetric])
  have c: "t \<longleftrightarrow> (n + 1) mod 3 = 0" "pr_consecutiveFail p = int ((n + 1) mod 3)" "pc_FailureThreshold (pr_cfg p) = 3"
    "(n + 1) div 3 = (if t then n div 3 + 1 else n div 3)"
    using p fail assms(4) by (auto simp: processSnapshot_def piled_up_def Let_def split: if_splits) presburger+
  obtain r where r: "handleReconnect lib big ctx e (s\<lparr>hm_prober := p, hm_snapshot := Some (probe pe)\<rparr>)
      = s\<lparr>hm_prober := p, hm_snapshot := Some (probe pe), hm_reconnect := r, hm_retries := hm_retries s @ [(ctx, rs_CurrentDelay (rc_state r))]\<rparr>"
    "rs_AttemptCount (rc_state r) = rs_AttemptCount (rc_state (hm_reconnect s)) + 1"
    using handleReconnect_fails [OF assms(1), of big ctx e "s\<lparr>hm_prober := p, hm_snapshot := Some (probe pe)\<rparr>"] by auto
  show ?thesis
    using c r assms(4) tick p by (cases t) (simp_all add: probe_once_def Let_def piled_up_def is_probe_def is_retry_def)
next
  case (retry xs ctx d ys e)
  obtain r where r: "handleReconnect lib big ctx e (s\<lparr>hm_retries := xs @ ys\<rparr>)
      = s\<lparr>hm_reconnect := r, hm_retries := (xs @ ys) @ [(ctx, rs_CurrentDelay (rc_state r))]\<rparr>"
    "rs_AttemptCount (rc_state r) = rs_AttemptCount (rc_state (hm_reconnect s)) + 1"
    using handleReconnect_fails [OF assms(1), of big ctx e "s\<lparr>hm_retries := xs @ ys\<rparr>"] by auto
  then show ?thesis using assms(4) retry by (simp add: piled_up_def is_probe_def is_retry_def)
qed (use assms(3,4) in \<open>auto simp: piled_up_def failing_def is_probe_def is_retry_def Health_Start_def\<close>)

text \<open>Retries pile up. While every probe fails and nothing stops the manager, the prober goes on probing, and every
  third failure starts one more chain of retries that never ends; all of them share one attempt counter.\<close>

theorem retries_pile_up:
  assumes "one_command_law lib started" and "health_trace lib big (NewHealthManager p profile) evs s" and "list_all failing evs"
  shows "length (hm_retries s) = length (filter is_probe evs) div 3
    \<and> rs_AttemptCount (rc_state (hm_reconnect s)) = int (length (filter is_probe evs) div 3 + length (filter is_retry evs))"
proof -
  have "piled_up (length (filter is_probe evs)) (length (filter is_retry evs)) s"
    using assms(2,3)
  proof induction
    case empty
    show ?case by (simp add: piled_up_def NewHealthManager_def NewProber_def NewReconnector_def zero_reconnect_state_def Let_def)
  next
    case (extend evs s ev s')
    then show ?case using piled_up_step [OF assms(1) extend.hyps(2)] by auto
  qed
  then show ?thesis by (simp add: piled_up_def)
qed

section \<open>Stopping and starting again\<close>

lemma uncancelled_prober_step:
  assumes "health_step lib big s ev s'" and "i \<in> hm_probers s" and "i \<notin> hm_cancelled s" and "hm_cancel s \<noteq> Some i" and "i < hm_contexts s"
  shows "i \<in> hm_probers s' \<and> i \<notin> hm_cancelled s' \<and> hm_cancel s' \<noteq> Some i \<and> i < hm_contexts s'"
  using assms
  by cases (auto simp: Health_Start_def Health_Stop_def probe_once_def handleReconnect_def end_prober_def Let_def
      split: prod.splits option.splits)

lemma uncancelled_prober_trace:
  assumes "health_trace lib big s evs s'" and "i \<in> hm_probers s" and "i \<notin> hm_cancelled s" and "hm_cancel s \<noteq> Some i" and "i < hm_contexts s"
  shows "i \<in> hm_probers s' \<and> i \<notin> hm_cancelled s' \<and> hm_cancel s' \<noteq> Some i \<and> i < hm_contexts s'"
  using assms(1)
proof induction
  case empty
  show ?case using assms(2-5) by simp
next
  case (extend evs s1 ev s2)
  then show ?case using uncancelled_prober_step by blast
qed

text \<open>Stopping and starting quickly leaks a prober. When the goroutine of the stopped prober ends only after the
  next start, it marks the manager as not running; one more start then runs a second prober and overwrites the
  cancel function of the first, which nothing stops from then on.\<close>

theorem quick_restart_leaks_prober:
  assumes "s0 = NewHealthManager p profile" and "s1 = Health_Start (Health_Stop (Health_Start s0))"
    and "health_step lib big s1 (ExitE 0) s2" and "health_trace lib big (Health_Start s2) evs s"
  shows "1 \<in> hm_probers s \<and> 1 \<notin> hm_cancelled s"
proof -
  have "1 \<in> hm_probers (Health_Start s2) \<and> 1 \<notin> hm_cancelled (Health_Start s2) \<and> hm_cancel (Health_Start s2) \<noteq> Some 1 \<and> 1 < hm_contexts (Health_Start s2)"
    using assms(1-3) by (auto simp: NewHealthManager_def Health_Start_def Health_Stop_def end_prober_def Let_def)
  then show ?thesis using uncancelled_prober_trace [OF assms(4)] by blast
qed

section \<open>Examples\<close>

definition lost_probe :: probe_env where
  "lost_probe = \<lparr>pe_start = 0, pe_icmp = Some ''timeout'', pe_http = Some ''timeout'', pe_took = 0\<rparr>"

definition fine_probe :: probe_env where
  "fine_probe = lost_probe\<lparr>pe_icmp := None\<rparr>"

definition default_prober :: prober_config where
  "default_prober = \<lparr>pc_Interval = 0, pc_FailureThreshold = 0, pc_ICMPTarget = [], pc_HTTPTarget = []\<rparr>"

definition sample_attempt :: attempt_env where
  "sample_attempt = \<lparr>at_started = 0, at_dial = (\<lambda>_. good_dial), at_used = 0, at_random = 0, at_scheduled = 0\<rparr>"

definition sample_profile :: vps_profile where
  "sample_profile = \<lparr>vp_Host = ''vps'', vp_Port = 22, vp_User = ''root'', vp_AuthMode = ''password'', vp_PrivateKeyPath = [],
     vp_KnownGoodVersion = [], vp_LastSeenAt = [], vp_Status = ''active'', vp_ComposeHash = [], vp_WGEndpoint = ''10.8.1.1'',
     vp_WGServerPublicKey = [], vp_TunnelSubnet = ''10.8.1.1/24'', vp_LockedBy = []\<rparr>"

definition sample_manager :: "(unit, nat, sample_world) health_manager" where
  "sample_manager = NewHealthManager \<lparr>pl_cfg = sample_connect, pl_client = None, pl_sessions = [], pl_closed = False, pl_lastUsed = 0,
     pl_next = 0, pl_hosts = [], pl_world = sample_ssh\<rparr> sample_profile"

lemma default_threshold: "pc_FailureThreshold (pr_cfg (NewProber default_prober)) = 3"
  by (simp add: NewProber_def default_prober_def)

lemma lost_unreachable: "\<not> hs_VPSReachable (probe lost_probe)"
  by (simp add: probe_def lost_probe_def)

theorem prober_triggers_iff_witness:
  "\<not> fst (probe_all (map probe [lost_probe, fine_probe, lost_probe]) (NewProber default_prober)) ! 2"
  using prober_triggers_iff [of default_prober 2 "map probe [lost_probe, fine_probe, lost_probe]"]
  by (simp add: default_threshold fail_run_def probe_def lost_probe_def fine_probe_def)

theorem partition_is_noticed_witness:
  "\<exists>!i. i < length (replicate 3 (probe lost_probe))
     \<and> fst (probe_all ([probe fine_probe] @ replicate 3 (probe lost_probe)) (NewProber default_prober)) ! (length [probe fine_probe] + i)"
  by (rule partition_is_noticed) (use lost_unreachable in \<open>simp_all only: default_threshold length_replicate set_replicate_Suc eval_nat_numeral singleton_iff ball_simps simp_thms\<close>, simp_all)

theorem quick_restart_leaks_prober_witness:
  "1 \<in> hm_probers (Health_Stop (Health_Start (end_prober 0 (Health_Start (Health_Stop (Health_Start sample_manager))))))"
proof -
  let ?s1 = "Health_Start (Health_Stop (Health_Start sample_manager))"
  have e: "health_step (sample_lib (\<lambda>_. None)) 0 ?s1 (ExitE 0) (end_prober 0 ?s1)"
    by (simp add: sample_manager_def NewHealthManager_def Health_Start_def Health_Stop_def Let_def)
  have t: "health_trace (sample_lib (\<lambda>_. None)) 0 (Health_Start (end_prober 0 ?s1)) ([] @ [StopE]) (Health_Stop (Health_Start (end_prober 0 ?s1)))"
    by (rule health_trace.extend [OF health_trace.empty]) simp
  show ?thesis by (rule conjunct1 [OF quick_restart_leaks_prober [OF sample_manager_def refl e t]])
qed

theorem retries_pile_up_witness:
  "\<exists>s. health_trace (sample_lib (\<lambda>_. None)) 0 sample_manager (StartE # replicate 3 (ProbeE 0 lost_probe sample_attempt)) s \<and> length (hm_retries s) = 1"
proof -
  let ?l = "sample_lib (\<lambda>_. None)" and ?e = "ProbeE 0 lost_probe sample_attempt"
  have keep: "hm_probers (probe_once ?l 0 0 lost_probe sample_attempt s) = hm_probers s" for s :: "(unit, nat, sample_world) health_manager"
    by (simp add: probe_once_def handleReconnect_def Let_def split: prod.splits option.splits)
  have t0: "health_trace ?l 0 sample_manager ([] @ [StartE]) (Health_Start sample_manager)"
    by (rule health_trace.extend [OF health_trace.empty]) simp
  have p0: "0 \<in> hm_probers (Health_Start sample_manager)" by (simp add: sample_manager_def NewHealthManager_def Health_Start_def Let_def)
  have t: "health_trace ?l 0 sample_manager (StartE # replicate k ?e) ((probe_once ?l 0 0 lost_probe sample_attempt ^^ k) (Health_Start sample_manager))
      \<and> 0 \<in> hm_probers ((probe_once ?l 0 0 lost_probe sample_attempt ^^ k) (Health_Start sample_manager))" for k
  proof (induction k)
    case (Suc k)
    then show ?case using health_trace.extend [of ?l 0 sample_manager "StartE # replicate k ?e" _ ?e]
      by (simp add: keep replicate_append_same)
  qed (use t0 p0 in simp)
  have "list_all failing (StartE # replicate 3 ?e)" by (simp add: failing_def lost_probe_def eval_nat_numeral)
  moreover obtain s where s: "health_trace ?l 0 sample_manager (StartE # replicate 3 ?e) s" using t by blast
  ultimately have "length (hm_retries s) = length (filter is_probe (StartE # replicate 3 ?e)) div 3"
    using retries_pile_up [OF sample_one_command] unfolding sample_manager_def by blast
  moreover have "length (filter is_probe (StartE # replicate 3 ?e)) = 3" by (simp add: is_probe_def)
  ultimately show ?thesis using s by (intro exI [of _ s]) simp
qed

end
