(* ===== verification/Compose_Detect.thy ===== *)
theory Compose_Detect
  imports Ssh_Pool "HOL-Library.State_Monad"
begin

text \<open>
  The compose file of the server and the detection of what a server runs (\<open>lifecycle/compose/compose.go\<close>,
  \<open>lifecycle/detect/version.go\<close>, \<open>detect.go\<close>, \<open>drift.go\<close>). What runs over an SSH session is written in the state monad
  on the world of the session. SHA-256 is a parameter.
\<close>

section \<open>Commands on a session\<close>

definition run_cmd :: "('c, 'r, 'w) ssh_lib \<Rightarrow> 'r session \<Rightarrow> string \<Rightarrow> ('w, string \<times> bool) state" where
  "run_cmd lib s cmd = State (Run lib s cmd)"

definition run_script :: "('c, 'r, 'w) ssh_lib \<Rightarrow> 'r session \<Rightarrow> string \<Rightarrow> ('w, (string \<times> string) \<times> bool) state" where
  "run_script lib s script = State (RunScript lib s script)"

lemma run_cmd_simp [simp]: "run_state (run_cmd lib s cmd) w = Run lib s cmd w"
  by (simp add: run_cmd_def)

lemma run_script_simp [simp]: "run_state (run_script lib s script) w = RunScript lib s script w"
  by (simp add: run_script_def)

section \<open>The compose file\<close>

record render_config =
  rd_AWGPort :: int
  rd_ManualDNS :: bool
  rd_CaddyImage :: string

definition DefaultCaddyImage :: string where
  "DefaultCaddyImage = ''caddy:2-alpine''"

text \<open>The embedded template, cut where it substitutes.\<close>

definition compose_head :: "string list" where
  \<open>compose_head =
    [''services:'',
     ''  unet-net-pause:'',
     ''    image: busybox:1.36-uclibc'',
     ''    container_name: unet-net-pause'',
     ''    command: ["sleep", "infinity"]'',
     ''    ports:'']\<close>

definition compose_ports :: "render_config \<Rightarrow> string list" where
  \<open>compose_ports cfg =
    [''      - "'' @ show_int (rd_AWGPort cfg) @ '':'' @ show_int (rd_AWGPort cfg) @ ''/udp"'',
     ''      - "443:443/tcp"''] @ (if rd_ManualDNS cfg then [''      - "80:80/tcp"''] else [])\<close>

definition compose_middle :: "string list" where
  \<open>compose_middle =
    [''    restart: unless-stopped'',
     [],
     ''  unet-amnezia-awg:'',
     ''    build:'',
     ''      context: .'',
     ''      dockerfile: Dockerfile'',
     ''    image: unet/amnezia-awg:local'',
     ''    container_name: unet-amnezia-awg'',
     ''    network_mode: "service:unet-net-pause"'',
     ''    depends_on:'',
     ''      - unet-net-pause'',
     ''    cap_add:'',
     ''      - NET_ADMIN'',
     ''      - SYS_MODULE'',
     ''    sysctls:'',
     ''      - net.ipv4.ip_forward=1'',
     ''      - net.ipv6.conf.all.forwarding=1'',
     ''    volumes:'',
     ''      - amnezia-awg-state:/opt/amnezia/awg'',
     ''      - /lib/modules:/lib/modules:ro'',
     ''    restart: unless-stopped'',
     [],
     ''  unet-caddy:'']\<close>

definition compose_tail :: "string list" where
  \<open>compose_tail =
    [''    container_name: unet-caddy'',
     ''    network_mode: "service:unet-net-pause"'',
     ''    depends_on:'',
     ''      - unet-net-pause'',
     ''    volumes:'',
     ''      - caddy-data:/data'',
     ''      - caddy-config:/config'',
     ''    restart: unless-stopped'',
     [],
     ''volumes:'',
     ''  amnezia-awg-state:'',
     ''  caddy-data:'',
     ''  caddy-config:'']\<close>

definition Render :: "render_config \<Rightarrow> string option" where
  "Render cfg =
     (if rd_AWGPort cfg \<le> 0 \<or> rd_AWGPort cfg > 65535 then None
      else let cfg1 = (if rd_CaddyImage cfg = [] then cfg\<lparr>rd_CaddyImage := DefaultCaddyImage\<rparr> else cfg)
        in Some (unlines (compose_head @ compose_ports cfg1 @ compose_middle @ [''    image: '' @ rd_CaddyImage cfg1] @ compose_tail)))"

definition CanonicalHash :: "(string \<Rightarrow> string) \<Rightarrow> string option" where
  "CanonicalHash sha256 = map_option sha256 (Render \<lparr>rd_AWGPort = 51820, rd_ManualDNS = False, rd_CaddyImage = []\<rparr>)"

record drift_result =
  dr_Match :: bool
  dr_ExpectedHash :: string
  dr_ActualHash :: string

definition DetectDrift :: "string \<Rightarrow> string \<Rightarrow> drift_result option" where
  "DetectDrift expectedHash actualHash =
     (if expectedHash = [] then None
      else Some \<lparr>dr_Match = (expectedHash = actualHash), dr_ExpectedHash = expectedHash, dr_ActualHash = actualHash\<rparr>)"

section \<open>Versions\<close>

datatype semver = Semver (sv_Major: int) (sv_Minor: int) (sv_Patch: int)

text \<open>Versions are ordered by major, then minor, then patch number.\<close>

instantiation semver :: linorder
begin

definition less_eq_semver :: "semver \<Rightarrow> semver \<Rightarrow> bool" where
  "less_eq_semver v w \<longleftrightarrow> sv_Major v < sv_Major w \<or> (sv_Major v = sv_Major w \<and>
     (sv_Minor v < sv_Minor w \<or> (sv_Minor v = sv_Minor w \<and> sv_Patch v \<le> sv_Patch w)))"

definition less_semver :: "semver \<Rightarrow> semver \<Rightarrow> bool" where
  "less_semver v w \<longleftrightarrow> v \<le> w \<and> \<not> w \<le> (v :: semver)"

instance
  by standard (auto simp: less_eq_semver_def less_semver_def semver.expand)

end

definition ParseSemver :: "string \<Rightarrow> semver option" where
  "ParseSemver s =
     (let t = takeWhile (\<lambda>c. c \<noteq> CHR ''-'') (trim_space s);
          parts = split_on CHR ''.'' t
      in if length parts < 2 \<or> length parts > 3 then None
         else (case (Atoi (parts ! 0), Atoi (parts ! 1), if length parts = 3 then Atoi (parts ! 2) else Some 0) of
             (Some major, Some minor, Some patch) \<Rightarrow> Some (Semver major minor patch)
           | _ \<Rightarrow> None))"

definition Semver_String :: "semver \<Rightarrow> string" where
  "Semver_String v = show_int (sv_Major v) @ ''.'' @ show_int (sv_Minor v) @ ''.'' @ show_int (sv_Patch v)"

definition version_ok :: "semver \<Rightarrow> bool" where
  "version_ok v \<longleftrightarrow> 0 \<le> sv_Major v \<and> sv_Major v < 2 ^ 63 \<and> 0 \<le> sv_Minor v \<and> sv_Minor v < 2 ^ 63 \<and> 0 \<le> sv_Patch v \<and> sv_Patch v < 2 ^ 63"

lemma show_int_digits: "0 \<le> n \<Longrightarrow> list_all is_digit (show_int n)"
  by (simp add: show_int_def show_nat_all_digits)

lemma digits_free:
  assumes "list_all is_digit s" and "\<not> is_digit c"
  shows "c \<notin> set s"
  using assms by (auto simp: list_all_iff)

lemma not_digits [simp]: "\<not> is_digit CHR ''.''" "\<not> is_digit CHR ''-''"
  by (simp_all add: is_digit_def)

lemma is_digit_not_space: "is_digit c \<Longrightarrow> \<not> is_space c"
  by (auto simp: is_digit_def is_space_def)

lemma trim_space_id: "s \<noteq> [] \<Longrightarrow> \<not> is_space (hd s) \<Longrightarrow> \<not> is_space (last s) \<Longrightarrow> trim_space s = s"
  by (simp add: trim_space_def dropWhile_eq_self_iff [THEN iffD2] hd_rev)

text \<open>What the program writes as a version it reads back, with or without a pre-release suffix.\<close>

theorem version_roundtrip:
  assumes "version_ok v" and "pre = [] \<or> hd pre = CHR ''-'' \<and> \<not> is_space (last pre)"
  shows "ParseSemver (Semver_String v @ pre) = Some v"
proof -
  let ?a = "show_int (sv_Major v)" and ?b = "show_int (sv_Minor v)" and ?c = "show_int (sv_Patch v)"
  have d: "list_all is_digit ?a" "list_all is_digit ?b" "list_all is_digit ?c"
    using assms(1) by (simp_all add: version_ok_def show_int_digits)
  have ne: "?a \<noteq> []" "?c \<noteq> []" by (auto simp: show_int_def)
  have s: "Semver_String v @ pre = ?a @ CHR ''.'' # ?b @ CHR ''.'' # ?c @ pre" by (simp add: Semver_String_def)
  have "is_digit (hd ?a)" "is_digit (last ?c)" using d ne by (auto simp: list_all_iff)
  then have "trim_space (Semver_String v @ pre) = Semver_String v @ pre"
    using ne assms(2) unfolding s by (intro trim_space_id) (auto simp: is_digit_not_space hd_append last_append)
  moreover have "takeWhile (\<lambda>c. c \<noteq> CHR ''-'') (Semver_String v @ pre) = ?a @ CHR ''.'' # ?b @ CHR ''.'' # ?c"
  proof -
    have "takeWhile (\<lambda>c. c \<noteq> CHR ''-'') pre = []" using assms(2) by (cases pre) auto
    moreover have "\<forall>x \<in> set (Semver_String v). x \<noteq> CHR ''-''"
      using d[THEN digits_free, of "CHR ''-''"] by (auto simp: Semver_String_def)
    ultimately have "takeWhile (\<lambda>c. c \<noteq> CHR ''-'') (Semver_String v @ pre) = Semver_String v" by simp
    then show ?thesis by (simp add: Semver_String_def)
  qed
  moreover have "split_on CHR ''.'' (?a @ CHR ''.'' # ?b @ CHR ''.'' # ?c) = [?a, ?b, ?c]"
    using d[THEN digits_free, of "CHR ''.''"] by (simp add: split_on_append split_on_no_sep)
  moreover have "Atoi ?a = Some (sv_Major v)" "Atoi ?b = Some (sv_Minor v)" "Atoi ?c = Some (sv_Patch v)"
    using assms(1) by (auto simp: version_ok_def intro!: Atoi_show_int)
  ultimately show ?thesis by (simp add: ParseSemver_def Let_def)
qed

theorem version_roundtrip_witness: "ParseSemver (Semver_String (Semver 1 12 0) @ ''-rc1'') = Some (Semver 1 12 0)"
  by (rule version_roundtrip) (simp_all add: version_ok_def is_space_def)

section \<open>Classification\<close>

datatype vps_class = StateBlank | StateOld | StateCurrent | StateIncompatible

record classify_result =
  cl_State :: vps_class
  cl_HasDocker :: bool
  cl_VPSVersion :: string
  cl_DaemonVersion :: string
  cl_ComposeHashMatch :: bool
  cl_VPSComposeHash :: string
  cl_ExpectedHash :: string
  cl_HasContainers :: bool
  cl_HasAWGConf :: bool

definition classifyState :: "classify_result \<Rightarrow> vps_class" where
  "classifyState r =
     (if \<not> cl_HasDocker r \<and> cl_VPSVersion r = [] then StateBlank
      else if cl_VPSVersion r = [] then StateBlank
      else (case ParseSemver (cl_VPSVersion r) of
          None \<Rightarrow> StateIncompatible
        | Some vpsVer \<Rightarrow>
            (case ParseSemver (cl_DaemonVersion r) of
               None \<Rightarrow> StateCurrent
             | Some daemonVer \<Rightarrow>
                 if sv_Major vpsVer \<noteq> sv_Major daemonVer then StateIncompatible
                 else if \<bar>sv_Minor vpsVer - sv_Minor daemonVer\<bar> \<le> 2 \<and> sv_Minor vpsVer \<noteq> sv_Minor daemonVer then StateOld
                 else if sv_Minor vpsVer = sv_Minor daemonVer \<and> sv_Patch vpsVer = sv_Patch daemonVer \<and> cl_ComposeHashMatch r then StateCurrent
                 else StateOld)))"

text \<open>What the classification computes: the distance of the minor versions plays no part, a server of the same
  major version is old unless it is the same version with the same compose file, however far behind it is and
  also when it is newer than the daemon.\<close>

theorem classification_ignores_distance:
  assumes "ParseSemver (cl_VPSVersion r) = Some vpsVer" and "ParseSemver (cl_DaemonVersion r) = Some daemonVer" and "cl_VPSVersion r \<noteq> []"
  shows "classifyState r = (if sv_Major vpsVer \<noteq> sv_Major daemonVer then StateIncompatible
      else if vpsVer = daemonVer \<and> cl_ComposeHashMatch r then StateCurrent else StateOld)
    \<and> (daemonVer < vpsVer \<and> sv_Major vpsVer = sv_Major daemonVer \<longrightarrow> classifyState r = StateOld)"
  using assms by (auto simp: classifyState_def semver.expand)

definition probe_docker_command :: string where
  "probe_docker_command = ''command -v docker 2>/dev/null''"

definition read_version_command :: string where
  "read_version_command = ''sudo cat /opt/unet/version 2>/dev/null''"

definition read_hash_command :: string where
  "read_hash_command = ''sudo cat /opt/unet/.compose-hash 2>/dev/null''"

definition list_containers_command :: string where
  "list_containers_command = ''sudo docker ps --filter name=unet- --format '' @ [CHR 0x27] @ ''{{.Names}}'' @ [CHR 0x27] @ '' 2>/dev/null''"

definition test_awg_command :: string where
  "test_awg_command = ''sudo docker exec unet-amnezia-awg test -f /opt/amnezia/awg/awg0.conf 2>/dev/null''"

definition Classify :: "('c, 'r, 'w) ssh_lib \<Rightarrow> (string \<Rightarrow> string) \<Rightarrow> 'r session \<Rightarrow> string \<Rightarrow> render_config \<Rightarrow> ('w, classify_result) state" where
  "Classify lib sha256 sess daemonVersion renderCfg = do {
     (dockerOut, _) \<leftarrow> run_cmd lib sess probe_docker_command;
     (verOut, verOk) \<leftarrow> run_cmd lib sess read_version_command;
     (hashOut, hashOk) \<leftarrow> run_cmd lib sess read_hash_command;
     let vpsHash = (if hashOk then trim_space hashOut else []);
     let expected = (case Render renderCfg of None \<Rightarrow> [] | Some y \<Rightarrow> sha256 y);
     (containerOut, _) \<leftarrow> run_cmd lib sess list_containers_command;
     (_, awgOk) \<leftarrow> run_cmd lib sess test_awg_command;
     let r = \<lparr>cl_State = StateBlank, cl_HasDocker = trim_space dockerOut \<noteq> [],
        cl_VPSVersion = (if verOk then trim_space verOut else []), cl_DaemonVersion = daemonVersion,
        cl_ComposeHashMatch = vpsHash \<noteq> [] \<and> vpsHash = expected, cl_VPSComposeHash = vpsHash, cl_ExpectedHash = expected,
        cl_HasContainers = contains containerOut ''unet-'', cl_HasAWGConf = awgOk\<rparr>;
     State_Monad.return (r\<lparr>cl_State := classifyState r\<rparr>)
   }"

section \<open>Drift\<close>

datatype drift_resolution = DriftNone | DriftDetected | DriftMerged | DriftRefused

record drift_detail =
  dd_Resolution :: drift_resolution
  dd_ExpectedHash :: string
  dd_VPSHash :: string
  dd_Diff :: string

definition line_at :: "string list \<Rightarrow> nat \<Rightarrow> string" where
  "line_at ls i = (if i < length ls then ls ! i else [])"

definition diff_line :: "string \<Rightarrow> string \<Rightarrow> string" where
  "diff_line cLine vLine =
     (if cLine = vLine then []
      else (if cLine = [] then [] else ''- '' @ cLine @ [newline]) @ (if vLine = [] then [] else ''+ '' @ vLine @ [newline]))"

definition computeDiff :: "string \<Rightarrow> string \<Rightarrow> string" where
  "computeDiff canonical vps =
     (let cs = split_on newline canonical; vs = split_on newline vps
      in concat (map (\<lambda>i. diff_line (line_at cs i) (line_at vs i)) [0..<max (length cs) (length vs)]))"

datatype detect_error = RenderFailed | ReadFailedD | MergeFailed string

definition Detect_CheckDrift :: "('c, 'r, 'w) ssh_lib \<Rightarrow> (string \<Rightarrow> string) \<Rightarrow> 'r session \<Rightarrow> render_config
    \<Rightarrow> ('w, detect_error + drift_detail option) state" where
  "Detect_CheckDrift lib sha256 sess cfg =
     (case Render cfg of
        None \<Rightarrow> State_Monad.return (Inl RenderFailed)
      | Some canonical \<Rightarrow> do {
          (vpsCompose, ok) \<leftarrow> run_cmd lib sess ''sudo cat /opt/unet/docker-compose.yml 2>/dev/null'';
          State_Monad.return
            (if \<not> ok then Inl ReadFailedD
             else if trim_space vpsCompose = [] then Inr None
             else if sha256 vpsCompose = sha256 canonical then Inr None
             else Inr (Some \<lparr>dd_Resolution = DriftDetected, dd_ExpectedHash = sha256 canonical, dd_VPSHash = sha256 vpsCompose,
               dd_Diff = computeDiff canonical vpsCompose\<rparr>))
        })"

text \<open>The script that writes a compose file: the rendered text between the marks of a here-document, then its hash.\<close>

definition upload_script :: "string \<Rightarrow> string \<Rightarrow> string" where
  "upload_script yaml hash =
     ''cat > /tmp/docker-compose.yml.unet << '' @ [CHR 0x27] @ ''UNET_COMPOSE_EOF'' @ [CHR 0x27, newline]
     @ yaml @ [newline] @ ''UNET_COMPOSE_EOF'' @ [newline]
     @ ''sudo mv /tmp/docker-compose.yml.unet /opt/unet/docker-compose.yml'' @ [newline]
     @ ''echo '' @ [CHR 0x27] @ hash @ [CHR 0x27] @ '' | sudo tee /opt/unet/.compose-hash > /dev/null'' @ [newline]"

definition ResolveDriftMerge :: "('c, 'r, 'w) ssh_lib \<Rightarrow> (string \<Rightarrow> string) \<Rightarrow> 'r session \<Rightarrow> render_config \<Rightarrow> ('w, detect_error option) state" where
  "ResolveDriftMerge lib sha256 sess cfg =
     (case Render cfg of
        None \<Rightarrow> State_Monad.return (Some RenderFailed)
      | Some canonical \<Rightarrow> do {
          ((out, _), ok) \<leftarrow> run_script lib sess (upload_script canonical (sha256 canonical));
          State_Monad.return (if ok then None else Some (MergeFailed out))
        })"

text \<open>Two texts differ in no line that is shown exactly when they agree up to trailing empty lines.\<close>

definition strip_empty :: "string list \<Rightarrow> string list" where
  "strip_empty ls = rev (dropWhile (\<lambda>l. l = []) (rev ls))"

lemma line_at_strip: "line_at (strip_empty ls) = line_at ls"
proof (induction ls rule: rev_induct)
  case (snoc l ls)
  show ?case
  proof (cases "l = []")
    case True
    then have "strip_empty (ls @ [l]) = strip_empty ls" by (simp add: strip_empty_def)
    moreover have "line_at (ls @ [l]) = line_at ls" using True by (rule_tac ext) (simp add: line_at_def nth_append less_Suc_eq)
    ultimately show ?thesis using snoc.IH by simp
  qed (simp add: strip_empty_def)
qed (simp add: strip_empty_def)

lemma strip_empty_last: "strip_empty ls = [] \<or> last (strip_empty ls) \<noteq> []"
  using hd_dropWhile [of "\<lambda>l. l = []" "rev ls"] by (auto simp: strip_empty_def last_rev)

lemma line_at_inj:
  assumes "line_at xs = line_at ys" and "xs = [] \<or> last xs \<noteq> []" and "ys = [] \<or> last ys \<noteq> []"
  shows "xs = ys"
proof -
  have le: "length as \<le> length bs" if "line_at as = line_at bs" "as = [] \<or> last as \<noteq> []" for as bs :: "string list"
  proof (rule ccontr)
    assume n: "\<not> length as \<le> length bs"
    then have "as \<noteq> []" by auto
    then have "line_at as (length as - 1) = last as" by (simp add: line_at_def last_conv_nth)
    moreover have "line_at bs (length as - 1) = []" using n by (simp add: line_at_def)
    ultimately show False using that n by auto
  qed
  have l: "length xs = length ys" using le [OF assms(1,2)] le [OF assms(1)[symmetric] assms(3)] by simp
  then show ?thesis using assms(1) by (intro nth_equalityI) (auto simp: line_at_def fun_eq_iff split: if_splits)
qed

lemma diff_line_Nil: "diff_line a b = [] \<longleftrightarrow> a = b"
  by (auto simp: diff_line_def)

theorem computeDiff_empty_iff:
  "computeDiff c v = [] \<longleftrightarrow> strip_empty (split_on newline c) = strip_empty (split_on newline v)"
proof -
  let ?c = "split_on newline c" and ?v = "split_on newline v"
  have "computeDiff c v = [] \<longleftrightarrow> (\<forall>i < max (length ?c) (length ?v). line_at ?c i = line_at ?v i)"
    by (auto simp: computeDiff_def Let_def diff_line_Nil)
  also have "\<dots> \<longleftrightarrow> line_at ?c = line_at ?v"
    by (auto simp: fun_eq_iff line_at_def less_max_iff_disj)
  also have "\<dots> \<longleftrightarrow> strip_empty ?c = strip_empty ?v"
    using line_at_inj [of "strip_empty ?c" "strip_empty ?v"] strip_empty_last line_at_strip by metis
  finally show ?thesis .
qed

lemma split_on_snoc: "split_on d (s @ [d]) = split_on d s @ [[]]"
  by (induction s) (auto split: list.splits)

text \<open>Merging does not settle a drift. The here-document adds a line end to the rendered text, so when the file
  that the merge wrote is read back, the check still reports a drift unless the two texts have one hash; and
  the difference that it shows to the user is empty.\<close>

theorem merge_leaves_drift:
  assumes "Render cfg = Some canonical" and "Run lib sess ''sudo cat /opt/unet/docker-compose.yml 2>/dev/null'' w = ((canonical @ [newline], True), w')"
    and "sha256 (canonical @ [newline]) \<noteq> sha256 canonical" and "trim_space (canonical @ [newline]) \<noteq> []"
  shows "fst (run_state (Detect_CheckDrift lib sha256 sess cfg) w)
    = Inr (Some \<lparr>dd_Resolution = DriftDetected, dd_ExpectedHash = sha256 canonical, dd_VPSHash = sha256 (canonical @ [newline]), dd_Diff = []\<rparr>)"
proof -
  have "computeDiff canonical (canonical @ [newline]) = []"
    by (simp add: computeDiff_empty_iff split_on_snoc) (simp add: strip_empty_def)
  then show ?thesis using assms by (simp add: Detect_CheckDrift_def)
qed

lemma classify_used:
  assumes "one_command_law lib started" and "Run lib sess probe_docker_command w = ((out, True), w1)"
  shows "let r = fst (run_state (Classify lib sha256 sess v cfg) w) in
    cl_State r = StateBlank \<and> cl_VPSVersion r = [] \<and> cl_VPSComposeHash r = [] \<and> \<not> cl_HasContainers r \<and> \<not> cl_HasAWGConf r"
proof -
  note u = used_run [OF assms(1)]
  have m: "ss_raw sess \<in> started w1" by (rule Run_marks [OF assms])
  obtain w2 where 2: "Run lib sess read_version_command w1 = (([], False), w2)" "ss_raw sess \<in> started w2" by (rule u [OF m])
  obtain w3 where 3: "Run lib sess read_hash_command w2 = (([], False), w3)" "ss_raw sess \<in> started w3" by (rule u [OF 2(2)])
  obtain w4 where 4: "Run lib sess list_containers_command w3 = (([], False), w4)" "ss_raw sess \<in> started w4" by (rule u [OF 3(2)])
  obtain w5 where 5: "Run lib sess test_awg_command w4 = (([], False), w5)" by (rule u [OF 4(2)])
  show ?thesis using assms(2) 2 3 4 5 by (simp add: Classify_def Let_def classifyState_def)
qed

lemma classify_blank:
  "one_command_law lib started \<Longrightarrow> Run lib sess probe_docker_command w = ((out, True), w1) \<Longrightarrow>
     cl_State (fst (run_state (Classify lib sha256 sess v cfg) w)) = StateBlank"
  using classify_used [of lib started sess w out w1] by (simp add: Let_def)

text \<open>Every server with Docker is taken for a blank one. The probe for Docker uses up the session, so the other
  probes fail and no version is seen, whatever the server runs.\<close>

theorem classify_always_blank:
  assumes "one_command_law lib started" and "Run lib sess probe_docker_command w = ((out, True), w1)"
  shows "let r = fst (run_state (Classify lib sha256 sess v cfg) w) in
    cl_State r = StateBlank \<and> cl_VPSVersion r = [] \<and> cl_VPSComposeHash r = [] \<and> \<not> cl_HasContainers r \<and> \<not> cl_HasAWGConf r"
  by (rule classify_used [OF assms])

section \<open>Examples\<close>

definition sample_render :: render_config where
  "sample_render = \<lparr>rd_AWGPort = 51820, rd_ManualDNS = True, rd_CaddyImage = []\<rparr>"

theorem classify_always_blank_witness:
  "let r = fst (run_state (Classify (sample_lib (\<lambda>_. Some ''/usr/bin/docker'')) id \<lparr>ss_id = 0, ss_raw = 0\<rparr> ''1.0.0'' sample_render) sample_ssh) in
    cl_State r = StateBlank \<and> cl_VPSVersion r = [] \<and> cl_VPSComposeHash r = [] \<and> \<not> cl_HasContainers r \<and> \<not> cl_HasAWGConf r"
proof -
  let ?l = "sample_lib (\<lambda>_. Some ''/usr/bin/docker'')" and ?s = "\<lparr>ss_id = 0, ss_raw = 0\<rparr> :: nat session"
  have r: "Run ?l ?s probe_docker_command sample_ssh = ((''/usr/bin/docker'', True), snd (Run ?l ?s probe_docker_command sample_ssh))"
    by (simp add: Run_def start_and_wait_def sample_lib_def sample_ssh_def)
  show ?thesis by (rule classify_always_blank [OF sample_one_command r])
qed

theorem merge_leaves_drift_witness:
  "\<exists>canonical. fst (run_state (Detect_CheckDrift (sample_lib (\<lambda>_. Some (canonical @ [newline]))) id \<lparr>ss_id = 0, ss_raw = 0\<rparr> sample_render) sample_ssh)
    = Inr (Some \<lparr>dd_Resolution = DriftDetected, dd_ExpectedHash = canonical, dd_VPSHash = canonical @ [newline], dd_Diff = []\<rparr>)"
proof -
  obtain canonical where c: "Render sample_render = Some canonical" "trim_space (canonical @ [newline]) \<noteq> []"
  proof (rule that)
    show "Render sample_render = Some (the (Render sample_render))" by (simp add: Render_def sample_render_def)
    show "trim_space (the (Render sample_render) @ [newline]) \<noteq> []"
      by (simp add: Render_def sample_render_def compose_head_def unlines_def trim_space_def is_space_def dropWhile_append)
  qed
  let ?l = "sample_lib (\<lambda>_. Some (canonical @ [newline]))" and ?s = "\<lparr>ss_id = 0, ss_raw = 0\<rparr> :: nat session"
  have r: "Run ?l ?s ''sudo cat /opt/unet/docker-compose.yml 2>/dev/null'' sample_ssh
      = ((canonical @ [newline], True), snd (Run ?l ?s ''sudo cat /opt/unet/docker-compose.yml 2>/dev/null'' sample_ssh))"
    by (simp add: Run_def start_and_wait_def sample_lib_def sample_ssh_def)
  show ?thesis using merge_leaves_drift [OF c(1) r, of id] c(2) by (intro exI [of _ canonical]) simp
qed

theorem classification_ignores_distance_witness:
  "classifyState \<lparr>cl_State = StateBlank, cl_HasDocker = True, cl_VPSVersion = ''1.9.0'', cl_DaemonVersion = ''1.2.0'', cl_ComposeHashMatch = True,
     cl_VPSComposeHash = [], cl_ExpectedHash = [], cl_HasContainers = True, cl_HasAWGConf = True\<rparr> = StateOld"
proof -
  have v: "ParseSemver ''1.9.0'' = Some (Semver 1 9 0)" "ParseSemver ''1.2.0'' = Some (Semver 1 2 0)"
    by code_simp+
  show ?thesis
    using classification_ignores_distance [of "\<lparr>cl_State = StateBlank, cl_HasDocker = True, cl_VPSVersion = ''1.9.0'', cl_DaemonVersion = ''1.2.0'', cl_ComposeHashMatch = True,
     cl_VPSComposeHash = [], cl_ExpectedHash = [], cl_HasContainers = True, cl_HasAWGConf = True\<rparr>" "Semver 1 9 0" "Semver 1 2 0"] v by simp
qed

end
