(* ===== verification/Snapshot.thy ===== *)
theory Snapshot
  imports Compose_Detect "HOL-Library.Multiset" "HOL-Library.List_Lexorder" "HOL-Library.Char_ord"
begin

text \<open>
  Snapshots of the server's configuration (\<open>lifecycle/snapshot/snapshot.go\<close>): creating, restoring, listing and
  pruning them over one SSH session. The clock's timestamp is an argument.
\<close>

section \<open>Operations\<close>

definition snapshotDir :: string where
  "snapshotDir = ''/opt/unet/snapshots''"

definition maxSnapshots :: nat where
  "maxSnapshots = 5"

definition timestampFormat :: string where
  "timestampFormat = ''20060102-150405''"

record snapshot_info =
  sn_ID :: string
  sn_Timestamp :: string
  sn_Path :: string

definition snapshot_of :: "string \<Rightarrow> snapshot_info" where
  "snapshot_of i = \<lparr>sn_ID = i, sn_Timestamp = i, sn_Path = snapshotDir @ ''/'' @ i @ ''/snapshot.tar.gz''\<rparr>"

definition create_script :: "string \<Rightarrow> string" where
  \<open>create_script ts =
     (let path = snapshotDir @ ''/'' @ ts in unlines [''set -euo pipefail'', ''sudo mkdir -p '' @ path, ''cd '' @ path,
        ''# Collect config files (ignore missing)'',
        ''sudo cp /opt/unet/docker-compose.yml . 2>/dev/null || true'',
        ''sudo cp /opt/unet/.compose-hash ./compose.hash 2>/dev/null || true'',
        ''sudo cp /opt/unet/version . 2>/dev/null || true'',
        ''# AWG config from container (if running)'',
        ''sudo docker cp unet-amnezia-awg:/opt/amnezia/awg/awg0.conf ./awg0.conf 2>/dev/null || true'',
        ''# Create archive'',
        ''sudo tar czf snapshot.tar.gz -- *.conf *.yml *.hash version 2>/dev/null || true'',
        ''sudo rm -f *.conf *.yml *.hash version 2>/dev/null || true'',
        ''echo "ok"''])\<close>

definition restore_script :: "string \<Rightarrow> string" where
  \<open>restore_script i =
     (let path = snapshotDir @ ''/'' @ i @ ''/snapshot.tar.gz'' in unlines [''set -euo pipefail'', ''# Verify snapshot exists'',
        ''if ! sudo test -f '' @ path @ ''; then'', ''  echo "ERROR: snapshot not found" >&2'', ''  exit 1'', ''fi'',
        ''# Stop compose'', ''cd /opt/unet && sudo docker compose down --remove-orphans 2>/dev/null || true'',
        ''# Restore files'', ''cd /opt/unet && sudo tar xzf '' @ path,
        ''# Move compose hash to canonical location'',
        ''sudo mv /opt/unet/compose.hash /opt/unet/.compose-hash 2>/dev/null || true'',
        ''# Restart compose'', ''cd /opt/unet && sudo docker compose up -d'', ''echo "ok"''])\<close>

definition list_command :: string where
  "list_command = ''sudo ls -1d '' @ snapshotDir @ ''/*/ 2>/dev/null''"

text \<open>The identifier in a line of the listing, if it has the length of a timestamp.\<close>

definition listed_id :: "string \<Rightarrow> string option" where
  "listed_id raw =
     (let line = trim_space raw; base = trim_suffix (trim_prefix line (snapshotDir @ ''/'')) ''/''
      in if line = [] \<or> length base \<noteq> length timestampFormat then None else Some base)"

definition listed_snapshots :: "string \<Rightarrow> snapshot_info list" where
  "listed_snapshots out = rev (sort_key sn_ID (map snapshot_of (List.map_filter listed_id (split_on newline out))))"

definition List_snapshots :: "('c, 'r, 'w) ssh_lib \<Rightarrow> 'r session \<Rightarrow> ('w, snapshot_info list) state" where
  "List_snapshots lib sess = do {
     (out, ok) \<leftarrow> run_cmd lib sess list_command;
     State_Monad.return (if ok then listed_snapshots out else [])
   }"

definition remove_command :: "snapshot_info \<Rightarrow> string" where
  "remove_command s = ''sudo rm -rf '' @ snapshotDir @ ''/'' @ ShellEscape (sn_ID s)"

fun remove_all :: "('c, 'r, 'w) ssh_lib \<Rightarrow> 'r session \<Rightarrow> snapshot_info list \<Rightarrow> ('w, unit) state" where
  "remove_all lib sess [] = State_Monad.return ()"
| "remove_all lib sess (s # ss) = do { _ \<leftarrow> run_cmd lib sess (remove_command s); remove_all lib sess ss }"

definition Prune :: "('c, 'r, 'w) ssh_lib \<Rightarrow> 'r session \<Rightarrow> ('w, unit) state" where
  "Prune lib sess = do {
     snaps \<leftarrow> List_snapshots lib sess;
     if length snaps \<le> maxSnapshots then State_Monad.return () else remove_all lib sess (drop maxSnapshots snaps)
   }"

definition Create_snapshot :: "('c, 'r, 'w) ssh_lib \<Rightarrow> string \<Rightarrow> 'r session \<Rightarrow> ('w, snapshot_info option) state" where
  "Create_snapshot lib ts sess = do {
     ((out, _), ok) \<leftarrow> run_script lib sess (create_script ts);
     if \<not> ok then State_Monad.return None
     else do { _ \<leftarrow> Prune lib sess; State_Monad.return (Some (snapshot_of ts)) }
   }"

definition Restore_snapshot :: "('c, 'r, 'w) ssh_lib \<Rightarrow> string \<Rightarrow> 'r session \<Rightarrow> ('w, bool) state" where
  "Restore_snapshot lib snapshotID sess = do {
     (_, ok) \<leftarrow> run_script lib sess (restore_script snapshotID);
     State_Monad.return ok
   }"

section \<open>Properties\<close>

text \<open>On a session that takes the commands, what \<open>Prune\<close> removes of a listing are its oldest snapshots: the newest
  five stay, nothing that stays is older than something that goes, and each removal names one directory,
  whatever bytes the name has.\<close>

theorem prune_keeps_newest:
  "let snaps = listed_snapshots out; kept = take maxSnapshots snaps; removed = drop maxSnapshots snaps in
     length kept = min 5 (length snaps) \<and> list_all (\<lambda>r. list_all (\<lambda>k. sn_ID r \<le> sn_ID k) kept) removed
     \<and> mset (map sn_ID snaps) = mset (List.map_filter listed_id (split_on newline out))
     \<and> list_all (\<lambda>r. remove_command r = ''sudo rm -rf '' @ snapshotDir @ ''/'' @ ShellEscape (sn_ID r)
          \<and> shell_word False (ShellEscape (sn_ID r)) = Some (sn_ID r, [])) removed"
proof -
  let ?s = "listed_snapshots out"
  let ?l = "sort_key sn_ID (map snapshot_of (List.map_filter listed_id (split_on newline out)))"
  have "sorted_wrt (\<lambda>a b. sn_ID a \<le> sn_ID b) ?l" using sorted_sort_key [of sn_ID] by (simp only: sorted_map)
  then have "sorted_wrt (\<lambda>a b. sn_ID b \<le> sn_ID a) ?s" unfolding listed_snapshots_def sorted_wrt_rev .
  then have s: "sorted_wrt (\<lambda>a b. sn_ID b \<le> sn_ID a) (take maxSnapshots ?s @ drop maxSnapshots ?s)" by simp
  have o: "list_all (\<lambda>r. list_all (\<lambda>k. sn_ID r \<le> sn_ID k) (take maxSnapshots ?s)) (drop maxSnapshots ?s)"
    using s unfolding sorted_wrt_append list_all_iff by blast
  have "mset (map sn_ID ?s) = mset (List.map_filter listed_id (split_on newline out))"
    by (simp add: listed_snapshots_def multiset.map_comp comp_def snapshot_of_def)
  moreover have "shell_word False (ShellEscape x) = Some (x, [])" for x
    using shell_word_quoted [of x "[]"] by (simp add: ShellEscape_def)
  ultimately show ?thesis using o by (simp add: Let_def maxSnapshots_def remove_command_def list_all_iff min.commute)
qed

text \<open>After a snapshot was created, nothing is ever pruned: the listing runs on the session that created it, which
  takes no second command, and a failed listing counts as no snapshots.\<close>

theorem created_snapshots_never_pruned:
  assumes "one_command_law lib started" and "RunScript lib sess (create_script ts) w = ((out, True), w1)"
  shows "run_state (Create_snapshot lib ts sess) w = (Some (snapshot_of ts), snd (Run lib sess list_command w1))
    \<and> fst (Run lib sess list_command w1) = ([], False)"
proof -
  have "ss_raw sess \<in> started w1" by (rule Script_marks [OF assms])
  then obtain w2 where "Run lib sess list_command w1 = (([], False), w2)" using used_run [OF assms(1)] by blast
  then show ?thesis using assms(2)
    by (cases out) (simp add: Create_snapshot_def Prune_def List_snapshots_def maxSnapshots_def)
qed

theorem created_snapshots_never_pruned_witness:
  "fst (run_state (Create_snapshot (sample_lib (\<lambda>_. Some ''ok'')) ''20260101-000000'' \<lparr>ss_id = 0, ss_raw = 0\<rparr>) sample_ssh) = Some (snapshot_of ''20260101-000000'')"
proof -
  let ?l = "sample_lib (\<lambda>_. Some ''ok'')" and ?s = "\<lparr>ss_id = 0, ss_raw = 0\<rparr> :: nat session"
  have r: "RunScript ?l ?s (create_script ''20260101-000000'') sample_ssh
      = (((''ok'', []), True), snd (RunScript ?l ?s (create_script ''20260101-000000'') sample_ssh))"
    by (simp add: RunScript_def start_and_wait_def sample_lib_def sample_ssh_def split_output_def)
  show ?thesis by (simp only: conjunct1 [OF created_snapshots_never_pruned [OF sample_one_command r]] fst_conv)
qed

end
