(* ===== verification/Bootstrap.thy ===== *)
theory Bootstrap
  imports Compose_Detect
begin

text \<open>
  Bootstrapping a server (\<open>lifecycle/bootstrap/preflight.go\<close>, \<open>docker.go\<close>, \<open>bootstrap.go\<close>, \<open>rollback.go\<close>): the checks
  before anything is changed, the installation of Docker, the deployment of the compose file, waiting for the
  containers, and the rollback. Everything runs on one SSH session, in the state monad on its world.
\<close>

section \<open>Preflight\<close>

datatype check_message = FailedToRun | SupportedArch | UnsupportedArch string | UnsupportedOS string string | UnsupportedUbuntu string
  | SupportedOS | CannotParseDisk string | SufficientDisk int | InsufficientDisk int | SudoRequired | SudoAvailable

record preflight_check =
  pk_Name :: string
  pk_Pass :: bool
  pk_Message :: check_message
  pk_Output :: string

record preflight_result =
  pft_Pass :: bool
  pft_Checks :: "preflight_check list"

definition check_arch_output :: "string \<times> bool \<Rightarrow> preflight_check" where
  "check_arch_output r =
     (let out = trim_space (fst r); c = \<lparr>pk_Name = ''architecture'', pk_Pass = False, pk_Message = FailedToRun, pk_Output = out\<rparr>
      in if \<not> snd r then c
         else if out = ''x86_64'' \<or> out = ''aarch64'' then c\<lparr>pk_Pass := True, pk_Message := SupportedArch\<rparr>
         else c\<lparr>pk_Message := UnsupportedArch out\<rparr>)"

definition checkArch :: "('c, 'r, 'w) ssh_lib \<Rightarrow> 'r session \<Rightarrow> ('w, preflight_check) state" where
  "checkArch lib sess = do { r \<leftarrow> run_cmd lib sess ''uname -m''; State_Monad.return (check_arch_output r) }"

definition trim_quotes :: "string \<Rightarrow> string" where
  "trim_quotes s = rev (dropWhile ((=) (CHR 0x22)) (rev (dropWhile ((=) (CHR 0x22)) s)))"

text \<open>The last assignment of a key in \<open>os-release\<close>, without quotes.\<close>

definition os_field :: "string \<Rightarrow> string \<Rightarrow> string" where
  "os_field key out = fold (\<lambda>line v. let l = trim_space line in if has_prefix l key then trim_quotes (trim_prefix l key) else v)
     (split_on newline out) []"

definition check_os_output :: "string \<times> bool \<Rightarrow> preflight_check" where
  "check_os_output r =
     (let out = fst r; c = \<lparr>pk_Name = ''os'', pk_Pass = False, pk_Message = FailedToRun, pk_Output = out\<rparr>;
          osid = os_field ''ID='' out; version = os_field ''VERSION_ID='' out
      in if \<not> snd r then c
         else if osid \<noteq> ''ubuntu'' then c\<lparr>pk_Message := UnsupportedOS osid version\<rparr>
         else if version = ''22.04'' \<or> version = ''24.04'' then c\<lparr>pk_Pass := True, pk_Message := SupportedOS, pk_Output := osid @ '' '' @ version\<rparr>
         else c\<lparr>pk_Message := UnsupportedUbuntu version\<rparr>)"

definition checkOS :: "('c, 'r, 'w) ssh_lib \<Rightarrow> 'r session \<Rightarrow> ('w, preflight_check) state" where
  "checkOS lib sess = do { r \<leftarrow> run_cmd lib sess ''cat /etc/os-release''; State_Monad.return (check_os_output r) }"

definition disk_command :: string where
  "disk_command = ''df -BG / | tail -1 | awk '' @ [CHR 0x27] @ ''{print $4}'' @ [CHR 0x27]"

definition check_disk_output :: "string \<times> bool \<Rightarrow> preflight_check" where
  "check_disk_output r =
     (let out = trim_space (fst r); number = trim_suffix out ''G'';
          c = \<lparr>pk_Name = ''disk'', pk_Pass = False, pk_Message = FailedToRun, pk_Output = out\<rparr>
      in if \<not> snd r then c
         else (case Atoi number of
             None \<Rightarrow> c\<lparr>pk_Message := CannotParseDisk number, pk_Output := number\<rparr>
           | Some free \<Rightarrow>
               if free \<ge> 2 then c\<lparr>pk_Pass := True, pk_Message := SufficientDisk free, pk_Output := show_int free @ ''GB''\<rparr>
               else c\<lparr>pk_Message := InsufficientDisk free, pk_Output := show_int free @ ''GB''\<rparr>))"

definition checkDisk :: "('c, 'r, 'w) ssh_lib \<Rightarrow> 'r session \<Rightarrow> ('w, preflight_check) state" where
  "checkDisk lib sess = do { r \<leftarrow> run_cmd lib sess disk_command; State_Monad.return (check_disk_output r) }"

definition check_sudo_output :: "string \<times> bool \<Rightarrow> preflight_check" where
  "check_sudo_output r =
     (if snd r then \<lparr>pk_Name = ''sudo'', pk_Pass = True, pk_Message = SudoAvailable, pk_Output = []\<rparr>
      else \<lparr>pk_Name = ''sudo'', pk_Pass = False, pk_Message = SudoRequired, pk_Output = []\<rparr>)"

definition checkSudo :: "('c, 'r, 'w) ssh_lib \<Rightarrow> 'r session \<Rightarrow> ('w, preflight_check) state" where
  "checkSudo lib sess = do { r \<leftarrow> run_cmd lib sess ''sudo -n true 2>&1''; State_Monad.return (check_sudo_output r) }"

definition RunPreflight :: "('c, 'r, 'w) ssh_lib \<Rightarrow> 'r session \<Rightarrow> ('w, preflight_result) state" where
  "RunPreflight lib sess = do {
     arch \<leftarrow> checkArch lib sess;
     os \<leftarrow> checkOS lib sess;
     disk \<leftarrow> checkDisk lib sess;
     sudo \<leftarrow> checkSudo lib sess;
     let checks = [arch, os, disk, sudo];
     State_Monad.return \<lparr>pft_Pass = list_all pk_Pass checks, pft_Checks = checks\<rparr>
   }"

section \<open>Docker\<close>

record docker_result =
  dk_DockerInstalled :: bool
  dk_ComposeInstalled :: bool
  dk_WasAlreadyPresent :: bool
  dk_DockerVersion :: string
  dk_ComposeVersion :: string

datatype bootstrap_error = NoSession ssh_error | PreflightFailed | DockerInstallFailed string | ComposeInstallFailed string
  | RenderError | MkdirFailed | UploadFailed string | VersionFileFailed string | DiskFull | PullFailed string | UpFailed string
  | HealthTimeout

definition docker_install_script :: string where
  "docker_install_script = unlines [''set -euo pipefail'', ''curl -fsSL https://get.docker.com | sh'']"

definition compose_install_script :: string where
  "compose_install_script = unlines [''set -euo pipefail'', ''sudo apt-get update -qq'', ''sudo apt-get install -y -qq docker-compose-plugin'']"

text \<open>Both halves of \<open>EnsureDocker\<close> have one shape: probe, install when the probe finds nothing, and read the
  version, which for the compose plugin is the output of the probe.\<close>

definition ensure_docker_engine :: "('c, 'r, 'w) ssh_lib \<Rightarrow> 'r session \<Rightarrow> ('w, bootstrap_error + string) state" where
  "ensure_docker_engine lib sess = do {
     (dockerOut, found) \<leftarrow> run_cmd lib sess ''command -v docker'';
     if found \<and> trim_space dockerOut \<noteq> [] then do {
       (verOut, _) \<leftarrow> run_cmd lib sess ''docker --version'';
       State_Monad.return (Inr (trim_space verOut))
     } else do {
       ((out, _), ok) \<leftarrow> run_script lib sess docker_install_script;
       if \<not> ok then State_Monad.return (Inl (DockerInstallFailed out))
       else do {
         (verOut, _) \<leftarrow> run_cmd lib sess ''docker --version'';
         State_Monad.return (Inr (trim_space verOut))
       }
     }
   }"

definition ensure_compose_plugin :: "('c, 'r, 'w) ssh_lib \<Rightarrow> 'r session \<Rightarrow> ('w, bootstrap_error + string) state" where
  "ensure_compose_plugin lib sess = do {
     (composeOut, found) \<leftarrow> run_cmd lib sess ''docker compose version'';
     if found \<and> trim_space composeOut \<noteq> [] then State_Monad.return (Inr (trim_space composeOut))
     else do {
       ((out, _), ok) \<leftarrow> run_script lib sess compose_install_script;
       if \<not> ok then State_Monad.return (Inl (ComposeInstallFailed out))
       else do {
         (verOut, _) \<leftarrow> run_cmd lib sess ''docker compose version'';
         State_Monad.return (Inr (trim_space verOut))
       }
     }
   }"

definition EnsureDocker :: "('c, 'r, 'w) ssh_lib \<Rightarrow> 'r session \<Rightarrow> ('w, bootstrap_error + docker_result) state" where
  "EnsureDocker lib sess = do {
     d \<leftarrow> ensure_docker_engine lib sess;
     (case d of
        Inl e \<Rightarrow> State_Monad.return (Inl e)
      | Inr dockerVersion \<Rightarrow> do {
          p \<leftarrow> ensure_compose_plugin lib sess;
          State_Monad.return (case p of Inl e \<Rightarrow> Inl e
            | Inr composeVersion \<Rightarrow> Inr \<lparr>dk_DockerInstalled = True, dk_ComposeInstalled = True, dk_WasAlreadyPresent = True,
                dk_DockerVersion = dockerVersion, dk_ComposeVersion = composeVersion\<rparr>)
        })
   }"

section \<open>Deploying\<close>

record deploy_result =
  dp_ComposeUploaded :: bool
  dp_ComposeHash :: string
  dp_ContainersUp :: bool
  dp_Skipped :: bool

definition version_script :: "string \<Rightarrow> string" where
  "version_script version = ''echo '' @ [CHR 0x27] @ version @ [CHR 0x27] @ '' | sudo tee /opt/unet/version > /dev/null''"

definition pull_command :: string where
  "pull_command = ''cd /opt/unet && sudo docker compose pull 2>&1''"

definition up_command :: string where
  "up_command = ''cd /opt/unet && sudo docker compose up -d 2>&1''"

definition upload_and_start :: "('c, 'r, 'w) ssh_lib \<Rightarrow> 'r session \<Rightarrow> string \<Rightarrow> string \<Rightarrow> string \<Rightarrow> ('w, bootstrap_error + deploy_result) state" where
  "upload_and_start lib sess yaml hash version = do {
     ((out, _), uploaded) \<leftarrow> run_script lib sess (upload_script yaml hash);
     if \<not> uploaded then State_Monad.return (Inl (UploadFailed out)) else do {
     ((verOut, _), written) \<leftarrow> run_script lib sess (version_script version);
     if \<not> written then State_Monad.return (Inl (VersionFileFailed verOut)) else do {
     (pullOut, pulled) \<leftarrow> run_cmd lib sess pull_command;
     if \<not> pulled then
       (if contains pullOut ''no space left on device'' then do {
          _ \<leftarrow> run_cmd lib sess ''sudo docker system prune -f 2>/dev/null'';
          State_Monad.return (Inl DiskFull)
        } else State_Monad.return (Inl (PullFailed pullOut)))
     else do {
     (upOut, up) \<leftarrow> run_cmd lib sess up_command;
     State_Monad.return (if \<not> up then Inl (UpFailed upOut)
       else Inr \<lparr>dp_ComposeUploaded = True, dp_ComposeHash = hash, dp_ContainersUp = True, dp_Skipped = False\<rparr>)
   }}}}"

definition DeployCompose :: "('c, 'r, 'w) ssh_lib \<Rightarrow> (string \<Rightarrow> string) \<Rightarrow> 'r session \<Rightarrow> render_config \<Rightarrow> string \<Rightarrow> ('w, bootstrap_error + deploy_result) state" where
  "DeployCompose lib sha256 sess cfg version =
     (case Render cfg of
        None \<Rightarrow> State_Monad.return (Inl RenderError)
      | Some yaml \<Rightarrow> do {
          (_, made) \<leftarrow> run_cmd lib sess ''sudo mkdir -p /opt/unet'';
          if \<not> made then State_Monad.return (Inl MkdirFailed) else do {
          (existing, _) \<leftarrow> run_cmd lib sess read_hash_command;
          if trim_space existing = sha256 yaml then do {
            (containerOut, _) \<leftarrow> run_cmd lib sess list_containers_command;
            if contains containerOut ''unet-net-pause'' then
              State_Monad.return (Inr \<lparr>dp_ComposeUploaded = False, dp_ComposeHash = sha256 yaml, dp_ContainersUp = True, dp_Skipped = True\<rparr>)
            else upload_and_start lib sess yaml (sha256 yaml) version
          } else upload_and_start lib sess yaml (sha256 yaml) version
        }})"

definition Rollback :: "('c, 'r, 'w) ssh_lib \<Rightarrow> 'r session \<Rightarrow> ('w, string list) state" where
  "Rollback lib sess = do {
     (downOut, down) \<leftarrow> run_cmd lib sess ''cd /opt/unet && sudo docker compose down --remove-orphans 2>&1'';
     (rmOut, removed) \<leftarrow> run_cmd lib sess ''sudo rm -rf /opt/unet/* 2>&1'';
     State_Monad.return ((if down then [] else [downOut]) @ (if removed then [] else [rmOut]))
   }"

section \<open>Waiting for the containers\<close>

definition health_command :: string where
  "health_command = ''sudo docker ps --filter name=unet- --format '' @ [CHR 0x27] @ ''{{.Names}} {{.Status}}'' @ [CHR 0x27] @ '' 2>/dev/null''"

definition container_up :: "string \<Rightarrow> string \<Rightarrow> bool" where
  "container_up name out \<longleftrightarrow> list_ex (\<lambda>line. contains (trim_space line) name \<and> contains (trim_space line) ''Up'') (split_on newline out)"

definition checkContainerHealth :: "('c, 'r, 'w) ssh_lib \<Rightarrow> 'r session \<Rightarrow> ('w, bool option) state" where
  "checkContainerHealth lib sess = do {
     (out, ok) \<leftarrow> run_cmd lib sess health_command;
     State_Monad.return (if \<not> ok then None
       else Some (container_up ''unet-net-pause'' out \<and> container_up ''unet-amnezia-awg'' out \<and> container_up ''unet-caddy'' out))
   }"

text \<open>The waiting loop: \<open>left\<close> is the time to the deadline, \<open>took i\<close> what the \<open>i\<close>-th probe takes, \<open>cancelled i\<close>
  whether the context is cancelled by then.\<close>

record wait_env =
  we_took :: "nat \<Rightarrow> duration"
  we_cancelled :: "nat \<Rightarrow> bool"

function verify_loop :: "('c, 'r, 'w) ssh_lib \<Rightarrow> 'r session \<Rightarrow> wait_env \<Rightarrow> nat \<Rightarrow> duration \<Rightarrow> ('w, bool) state" where
  "verify_loop lib sess e i left =
     (if left \<le> 0 \<or> we_cancelled e i then State_Monad.return False
      else do {
        h \<leftarrow> checkContainerHealth lib sess;
        if h = Some True then State_Monad.return True
        else verify_loop lib sess e (Suc i) (left - max 0 (we_took e i) - 5 * second)
      })"
  by pat_completeness auto
termination
  by (relation "measure (\<lambda>(_, _, _, _, left). nat left)") (auto simp: second_def)

declare verify_loop.simps [simp del]

definition verifyHealth :: "('c, 'r, 'w) ssh_lib \<Rightarrow> 'r session \<Rightarrow> wait_env \<Rightarrow> ('w, bool) state" where
  "verifyHealth lib sess e = verify_loop lib sess e 0 (120 * second)"

record connection_params =
  cp_WGEndpoint :: string
  cp_WGServerPublicKey :: string
  cp_TunnelSubnet :: string

definition params_line :: "string \<Rightarrow> connection_params \<Rightarrow> connection_params" where
  "params_line raw p =
     (let line = trim_space raw;
          p1 = (if has_prefix line ''ListenPort = '' then p\<lparr>cp_WGEndpoint := ''0.0.0.0:'' @ trim_prefix line ''ListenPort = ''\<rparr> else p);
          p2 = (if has_prefix line ''PublicKey = '' then p1\<lparr>cp_WGServerPublicKey := trim_prefix line ''PublicKey = ''\<rparr> else p1);
          addr = trim_prefix line ''Address = ''
      in if has_prefix line ''Address = '' \<and> length (split_on CHR ''/'' addr) = 2 then p2\<lparr>cp_TunnelSubnet := addr\<rparr> else p2)"

definition discoverConnectionParams :: "('c, 'r, 'w) ssh_lib \<Rightarrow> 'r session \<Rightarrow> ('w, connection_params option) state" where
  "discoverConnectionParams lib sess = do {
     (out, ok) \<leftarrow> run_cmd lib sess ''sudo docker exec unet-amnezia-awg cat /opt/amnezia/awg/awg0.conf 2>/dev/null | head -20'';
     State_Monad.return (if \<not> ok then None
       else Some (fold params_line (split_on newline out) \<lparr>cp_WGEndpoint = [], cp_WGServerPublicKey = [], cp_TunnelSubnet = []\<rparr>))
   }"

section \<open>The whole sequence\<close>

record bootstrap_result =
  bs_Preflight :: "preflight_result option"
  bs_Docker :: "docker_result option"
  bs_Deploy :: "deploy_result option"
  bs_HealthVerified :: bool
  bs_ConnectionParams :: "connection_params option"
  bs_ZeroDiff :: bool

record bootstrap_opts =
  bo_ComposeConfig :: render_config
  bo_DaemonVersion :: string

definition empty_bootstrap_result :: bootstrap_result where
  "empty_bootstrap_result = \<lparr>bs_Preflight = None, bs_Docker = None, bs_Deploy = None, bs_HealthVerified = False,
     bs_ConnectionParams = None, bs_ZeroDiff = False\<rparr>"

definition bootstrap_run :: "('c, 'r, 'w) ssh_lib \<Rightarrow> (string \<Rightarrow> string) \<Rightarrow> wait_env \<Rightarrow> bootstrap_opts \<Rightarrow> 'r session
    \<Rightarrow> ('w, bootstrap_error option \<times> bootstrap_result) state" where
  "bootstrap_run lib sha256 e opts sess = do {
     preflight \<leftarrow> RunPreflight lib sess;
     let r1 = empty_bootstrap_result\<lparr>bs_Preflight := Some preflight\<rparr>;
     if \<not> pft_Pass preflight then State_Monad.return (Some PreflightFailed, r1) else do {
     docker \<leftarrow> EnsureDocker lib sess;
     (case docker of
        Inl err \<Rightarrow> State_Monad.return (Some err, r1)
      | Inr dockerResult \<Rightarrow> do {
          let r2 = r1\<lparr>bs_Docker := Some dockerResult\<rparr>;
          deploy \<leftarrow> DeployCompose lib sha256 sess (bo_ComposeConfig opts) (bo_DaemonVersion opts);
          (case deploy of
             Inl err \<Rightarrow> do { _ \<leftarrow> Rollback lib sess; State_Monad.return (Some err, r2) }
           | Inr deployResult \<Rightarrow> do {
               let r3 = r2\<lparr>bs_Deploy := Some deployResult\<rparr>;
               if dp_Skipped deployResult then do {
                 healthy \<leftarrow> checkContainerHealth lib sess;
                 State_Monad.return (None, r3\<lparr>bs_ZeroDiff := True, bs_HealthVerified := (healthy = Some True)\<rparr>)
               } else do {
                 healthy \<leftarrow> verifyHealth lib sess e;
                 if \<not> healthy then do { _ \<leftarrow> Rollback lib sess; State_Monad.return (Some HealthTimeout, r3) } else do {
                 params \<leftarrow> discoverConnectionParams lib sess;
                 State_Monad.return (None, r3\<lparr>bs_HealthVerified := True, bs_ConnectionParams := params\<rparr>)
               }}})})}}"

definition on_session :: "('w, 'a) state \<Rightarrow> ('c, 'r, 'w) pool \<Rightarrow> 'a \<times> ('c, 'r, 'w) pool" where
  "on_session m p = (case run_state m (pl_world p) of (x, w) \<Rightarrow> (x, p\<lparr>pl_world := w\<rparr>))"

text \<open>The environment of one request for a session: the answers to its connections and the time.\<close>

type_synonym session_env = "(nat \<Rightarrow> dial_env) \<times> instant"

definition Bootstrap :: "('c, 'r, 'w) ssh_lib \<Rightarrow> (string \<Rightarrow> string) \<Rightarrow> session_env \<Rightarrow> wait_env \<Rightarrow> bootstrap_opts \<Rightarrow> ('c, 'r, 'w) pool
    \<Rightarrow> (bootstrap_error option \<times> bootstrap_result option) \<times> ('c, 'r, 'w) pool" where
  "Bootstrap lib sha256 se e opts p =
     (case PoolSession lib (fst se) (snd se) p of
        (Inl err, p1) \<Rightarrow> ((Some (NoSession err), None), p1)
      | (Inr sess, p1) \<Rightarrow>
          (case on_session (bootstrap_run lib sha256 e opts sess) p1 of
             ((err, r), p2) \<Rightarrow> ((err, Some r), Put lib sess p2)))"

section \<open>Properties\<close>

text \<open>The output conditions under which a server passes.\<close>

theorem preflight_pass_iff:
  "pft_Pass (fst (run_state (RunPreflight lib sess) w)) \<longleftrightarrow>
     (\<exists>arch w1 os w2 disk w3 sudo w4. Run lib sess ''uname -m'' w = ((arch, True), w1) \<and> Run lib sess ''cat /etc/os-release'' w1 = ((os, True), w2)
        \<and> Run lib sess disk_command w2 = ((disk, True), w3) \<and> Run lib sess ''sudo -n true 2>&1'' w3 = ((sudo, True), w4)
        \<and> trim_space arch \<in> {''x86_64'', ''aarch64''} \<and> os_field ''ID='' os = ''ubuntu'' \<and> os_field ''VERSION_ID='' os \<in> {''22.04'', ''24.04''}
        \<and> (\<exists>n. Atoi (trim_suffix (trim_space disk) ''G'') = Some n \<and> 2 \<le> n))"
proof -
  obtain a oka w1 where 1: "Run lib sess ''uname -m'' w = ((a, oka), w1)" by (metis prod.collapse)
  obtain b okb w2 where 2: "Run lib sess ''cat /etc/os-release'' w1 = ((b, okb), w2)" by (metis prod.collapse)
  obtain c okc w3 where 3: "Run lib sess disk_command w2 = ((c, okc), w3)" by (metis prod.collapse)
  obtain d okd w4 where 4: "Run lib sess ''sudo -n true 2>&1'' w3 = ((d, okd), w4)" by (metis prod.collapse)
  have "pft_Pass (fst (run_state (RunPreflight lib sess) w)) \<longleftrightarrow>
      pk_Pass (check_arch_output (a, oka)) \<and> pk_Pass (check_os_output (b, okb)) \<and> pk_Pass (check_disk_output (c, okc)) \<and> pk_Pass (check_sudo_output (d, okd))"
    by (simp add: RunPreflight_def checkArch_def checkOS_def checkDisk_def checkSudo_def 1 2 3 4)
  also have "pk_Pass (check_arch_output (a, oka)) \<longleftrightarrow> oka \<and> trim_space a \<in> {''x86_64'', ''aarch64''}"
    by (simp add: check_arch_output_def Let_def)
  also have "pk_Pass (check_os_output (b, okb)) \<longleftrightarrow> okb \<and> os_field ''ID='' b = ''ubuntu'' \<and> os_field ''VERSION_ID='' b \<in> {''22.04'', ''24.04''}"
    by (simp add: check_os_output_def Let_def)
  also have "pk_Pass (check_disk_output (c, okc)) \<longleftrightarrow> okc \<and> (\<exists>n. Atoi (trim_suffix (trim_space c) ''G'') = Some n \<and> 2 \<le> n)"
    by (simp add: check_disk_output_def Let_def split: option.split)
  also have "pk_Pass (check_sudo_output (d, okd)) \<longleftrightarrow> okd" by (simp add: check_sudo_output_def)
  finally show ?thesis by (auto simp: 1 2 3 4)
qed

lemma preflight_fails:
  assumes "one_command_law lib started"
  shows "\<not> pft_Pass (fst (run_state (RunPreflight lib sess) w))"
proof
  assume "pft_Pass (fst (run_state (RunPreflight lib sess) w))"
  then obtain arch w1 os w2 where r: "Run lib sess ''uname -m'' w = ((arch, True), w1)" "Run lib sess ''cat /etc/os-release'' w1 = ((os, True), w2)"
    unfolding preflight_pass_iff by blast
  have "fst (Run lib sess ''cat /etc/os-release'' w1) = ([], False)"
    by (rule used_session_fails(1) [OF assms Run_marks [OF assms r(1)]])
  then show False using r(2) by simp
qed

lemma bootstrap_fails:
  assumes "one_command_law lib started"
  shows "\<exists>err. fst (fst (Bootstrap lib sha256 se e opts p)) = Some err \<and> (err = PreflightFailed \<or> (\<exists>x. err = NoSession x))
    \<and> (case snd (fst (Bootstrap lib sha256 se e opts p)) of None \<Rightarrow> True
        | Some r \<Rightarrow> bs_Docker r = None \<and> bs_Deploy r = None \<and> \<not> bs_HealthVerified r)"
proof -
  obtain res p1 where s: "PoolSession lib (fst se) (snd se) p = (res, p1)" by (rule that) (rule prod.collapse [symmetric])
  show ?thesis
  proof (cases res)
    case (Inl err)
    then show ?thesis using s by (simp add: Bootstrap_def)
  next
    case (Inr sess)
    obtain pf w1 where f: "run_state (RunPreflight lib sess) (pl_world p1) = (pf, w1)" by (rule that) (rule prod.collapse [symmetric])
    have "\<not> pft_Pass pf" using preflight_fails [OF assms, of sess "pl_world p1"] f by simp
    then show ?thesis using s Inr f by (simp add: Bootstrap_def on_session_def bootstrap_run_def empty_bootstrap_result_def Let_def)
  qed
qed

text \<open>No bootstrap gets past its first phase. The four checks run on one session, which takes one command, so the
  preflight fails on every server; nothing is installed, and nothing is rolled back.\<close>

theorem bootstrap_never_passes_preflight:
  assumes "one_command_law lib started"
  shows "\<exists>err. fst (fst (Bootstrap lib sha256 se e opts p)) = Some err \<and> (err = PreflightFailed \<or> (\<exists>x. err = NoSession x))
    \<and> (case snd (fst (Bootstrap lib sha256 se e opts p)) of None \<Rightarrow> True
        | Some r \<Rightarrow> bs_Docker r = None \<and> bs_Deploy r = None \<and> \<not> bs_HealthVerified r)"
  by (rule bootstrap_fails [OF assms])

theorem bootstrap_never_passes_preflight_witness:
  "\<exists>p :: (unit, nat, sample_world) pool. \<exists>err. fst (fst (Bootstrap (sample_lib (\<lambda>_. Some ''x86_64'')) id ((\<lambda>_. good_dial), 0) \<lparr>we_took = (\<lambda>_. 0), we_cancelled = (\<lambda>_. False)\<rparr>
     \<lparr>bo_ComposeConfig = sample_render, bo_DaemonVersion = ''1.0.0''\<rparr> p)) = Some err"
  using bootstrap_never_passes_preflight [OF sample_one_command] by blast

end
