(* ===== verification/Attach.thy ===== *)
theory Attach
  imports Bootstrap Vps_State
begin

text \<open>
  Attaching to a server (\<open>lifecycle/attach/sync.go\<close>, \<open>attach.go\<close>): classification, the detour to a bootstrap, the
  drift check, reading the server's state and saving it as the profile. The JSON of the client list is a
  parameter that gives its length, the clock's timestamp is part of the environment.
\<close>

section \<open>Reading the state of the server\<close>

record sync_result =
  sy_PeersSynced :: int
  sy_RoutesSynced :: int
  sy_TunnelSynced :: bool
  sy_VPSSynced :: bool
  sy_WGEndpoint :: string
  sy_WGServerKey :: string
  sy_TunnelSubnet :: string
  sy_ComposeHash :: string

definition zero_sync :: sync_result where
  "zero_sync = \<lparr>sy_PeersSynced = 0, sy_RoutesSynced = 0, sy_TunnelSynced = False, sy_VPSSynced = False, sy_WGEndpoint = [],
     sy_WGServerKey = [], sy_TunnelSubnet = [], sy_ComposeHash = []\<rparr>"

definition new_profile :: "connect_config \<Rightarrow> vps_profile" where
  "new_profile cfg = \<lparr>vp_Host = cn_Host cfg, vp_Port = cn_Port cfg, vp_User = cn_User cfg, vp_AuthMode = cn_AuthMode cfg,
     vp_PrivateKeyPath = [], vp_KnownGoodVersion = [], vp_LastSeenAt = [], vp_Status = ''active'', vp_ComposeHash = [],
     vp_WGEndpoint = [], vp_WGServerPublicKey = [], vp_TunnelSubnet = [], vp_LockedBy = []\<rparr>"

definition awg_line :: "string \<Rightarrow> vps_profile \<times> sync_result \<Rightarrow> vps_profile \<times> sync_result" where
  "awg_line raw s =
     (let line = trim_space raw; (p, r) = s;
          endpoint = ''0.0.0.0:'' @ trim_prefix line ''ListenPort = '';
          key = trim_prefix line ''PublicKey = ''; addr = trim_prefix line ''Address = '';
          (p, r) = (if has_prefix line ''ListenPort = '' then (p\<lparr>vp_WGEndpoint := endpoint\<rparr>, r\<lparr>sy_WGEndpoint := endpoint\<rparr>) else (p, r));
          (p, r) = (if has_prefix line ''PublicKey = '' then (p\<lparr>vp_WGServerPublicKey := key\<rparr>, r\<lparr>sy_WGServerKey := key\<rparr>) else (p, r))
      in if has_prefix line ''Address = '' then (p\<lparr>vp_TunnelSubnet := addr\<rparr>, r\<lparr>sy_TunnelSubnet := addr\<rparr>) else (p, r))"

definition parseAWGConfig :: "string \<Rightarrow> vps_profile \<times> sync_result \<Rightarrow> vps_profile \<times> sync_result" where
  "parseAWGConfig content s = fold awg_line (split_on newline content) s"

definition routes_command :: "string \<Rightarrow> string" where
  "routes_command subnet = ''curl -s http://'' @ ShellEscape (split_on CHR ''/'' subnet ! 0)
     @ '':2019/config/apps/http/servers/ 2>/dev/null | head -100''"

definition read_awg_command :: string where
  "read_awg_command = ''sudo docker exec unet-amnezia-awg cat /opt/amnezia/awg/awg0.conf 2>/dev/null | head -30''"

definition read_clients_command :: string where
  "read_clients_command = ''sudo docker exec unet-amnezia-awg cat /opt/amnezia/awg/clients.json 2>/dev/null''"

definition SyncState :: "('c, 'r, 'w) ssh_lib \<Rightarrow> (string \<Rightarrow> int option) \<Rightarrow> string \<Rightarrow> 'r session \<Rightarrow> connect_config \<Rightarrow> ('w, sync_result \<times> vps_profile) state" where
  "SyncState lib json_array now sess cfg = do {
     (hashOut, hashOk) \<leftarrow> run_cmd lib sess read_hash_command;
     let hash = (if hashOk then trim_space hashOut else []);
     let p1 = (new_profile cfg)\<lparr>vp_ComposeHash := hash\<rparr>;
     let r1 = zero_sync\<lparr>sy_ComposeHash := hash\<rparr>;
     (verOut, verOk) \<leftarrow> run_cmd lib sess read_version_command;
     let p2 = (if verOk then p1\<lparr>vp_KnownGoodVersion := trim_space verOut\<rparr> else p1);
     (awgOut, awgOk) \<leftarrow> run_cmd lib sess read_awg_command;
     let (p3, r3) = (if awgOk then (case parseAWGConfig awgOut (p2, r1) of (p, r) \<Rightarrow> (p, r\<lparr>sy_TunnelSynced := True\<rparr>)) else (p2, r1));
     (peersJSON, peersOk) \<leftarrow> run_cmd lib sess read_clients_command;
     let r4 = (if peersOk \<and> trim_space peersJSON \<noteq> [] then
         (case json_array peersJSON of Some n \<Rightarrow> r3\<lparr>sy_PeersSynced := n\<rparr> | None \<Rightarrow> r3) else r3);
     (_, routesOk) \<leftarrow> run_cmd lib sess (routes_command (vp_TunnelSubnet p3));
     let r5 = (if routesOk then r4\<lparr>sy_RoutesSynced := 0\<rparr> else r4);
     State_Monad.return (r5\<lparr>sy_VPSSynced := True\<rparr>, p3\<lparr>vp_LastSeenAt := now\<rparr>)
   }"

definition SaveSyncedProfile :: "bool \<Rightarrow> io_env \<Rightarrow> vps_profile \<Rightarrow> vps_profile disk \<Rightarrow> profile_error state_error option \<times> vps_profile disk" where
  "SaveSyncedProfile home io p d = SaveVPSProfile home io p d"

section \<open>Attaching\<close>

record attach_result =
  ar_Classification :: "classify_result option"
  ar_Sync :: "sync_result option"
  ar_ZeroDiff :: bool
  ar_Bootstrapped :: bool

record attach_opts =
  ao_DaemonVersion :: string
  ao_ComposeConfig :: render_config
  ao_BootstrapOpts :: bootstrap_opts

datatype attach_error = AttachNoSession ssh_error | BootstrapRedirect bootstrap_error | IncompatibleVersion string | SaveProfileFailed "profile_error state_error"

text \<open>The environment: the four requests for a session (classification, bootstrap, drift check, sync), the waiting
  of the bootstrap, the timestamp, and the system's answers when the profile is saved.\<close>

record attach_env =
  ae_sessions :: "nat \<Rightarrow> session_env"
  ae_wait :: wait_env
  ae_now :: string
  ae_home :: bool
  ae_io :: io_env

record ('c, 'r, 'w) attach_state =
  as_pool :: "('c, 'r, 'w) pool"
  as_disk :: "vps_profile disk"

text \<open>One step of the sequence: a session is taken, used and given back.\<close>

definition with_session :: "('c, 'r, 'w) ssh_lib \<Rightarrow> session_env \<Rightarrow> ('r session \<Rightarrow> ('w, 'a) state) \<Rightarrow> ('c, 'r, 'w) pool
    \<Rightarrow> (ssh_error + 'a) \<times> ('c, 'r, 'w) pool" where
  "with_session lib se m p =
     (case PoolSession lib (fst se) (snd se) p of
        (Inl err, p1) \<Rightarrow> (Inl err, p1)
      | (Inr sess, p1) \<Rightarrow> (case on_session (m sess) p1 of (x, p2) \<Rightarrow> (Inr x, Put lib sess p2)))"

definition sync_and_save :: "('c, 'r, 'w) ssh_lib \<Rightarrow> (string \<Rightarrow> int option) \<Rightarrow> attach_env \<Rightarrow> attach_result \<Rightarrow> ('c, 'r, 'w) attach_state
    \<Rightarrow> (attach_error + attach_result) \<times> ('c, 'r, 'w) attach_state" where
  "sync_and_save lib json_array e result s =
     (case with_session lib (ae_sessions e 3) (\<lambda>sess. SyncState lib json_array (ae_now e) sess (pl_cfg (as_pool s))) (as_pool s) of
        (Inl err, p) \<Rightarrow> (Inl (AttachNoSession err), s\<lparr>as_pool := p\<rparr>)
      | (Inr (sync, profile), p) \<Rightarrow>
          (case SaveSyncedProfile (ae_home e) (ae_io e) profile (as_disk s) of
             (Some err, d) \<Rightarrow> (Inl (SaveProfileFailed err), s\<lparr>as_pool := p, as_disk := d\<rparr>)
           | (None, d) \<Rightarrow> (Inr (result\<lparr>ar_Sync := Some sync\<rparr>), s\<lparr>as_pool := p, as_disk := d\<rparr>)))"

definition check_drift_and_sync :: "('c, 'r, 'w) ssh_lib \<Rightarrow> (string \<Rightarrow> string) \<Rightarrow> (string \<Rightarrow> int option) \<Rightarrow> attach_env \<Rightarrow> attach_opts \<Rightarrow> attach_result
    \<Rightarrow> ('c, 'r, 'w) attach_state \<Rightarrow> (attach_error + attach_result) \<times> ('c, 'r, 'w) attach_state" where
  "check_drift_and_sync lib sha256 json_array e opts result s =
     (case with_session lib (ae_sessions e 2) (\<lambda>sess. Detect_CheckDrift lib sha256 sess (ao_ComposeConfig opts)) (as_pool s) of
        (Inl err, p) \<Rightarrow> (Inl (AttachNoSession err), s\<lparr>as_pool := p\<rparr>)
      | (Inr _, p) \<Rightarrow> sync_and_save lib json_array e result (s\<lparr>as_pool := p\<rparr>))"

definition Attach :: "('c, 'r, 'w) ssh_lib \<Rightarrow> (string \<Rightarrow> string) \<Rightarrow> (string \<Rightarrow> int option) \<Rightarrow> attach_env \<Rightarrow> attach_opts
    \<Rightarrow> ('c, 'r, 'w) attach_state \<Rightarrow> (attach_error + attach_result) \<times> ('c, 'r, 'w) attach_state" where
  "Attach lib sha256 json_array e opts s =
     (case with_session lib (ae_sessions e 0) (\<lambda>sess. Classify lib sha256 sess (ao_DaemonVersion opts) (ao_ComposeConfig opts)) (as_pool s) of
        (Inl err, p) \<Rightarrow> (Inl (AttachNoSession err), s\<lparr>as_pool := p\<rparr>)
      | (Inr classification, p) \<Rightarrow>
          (let result = \<lparr>ar_Classification = Some classification, ar_Sync = None, ar_ZeroDiff = False, ar_Bootstrapped = False\<rparr>;
               s1 = s\<lparr>as_pool := p\<rparr>
           in case cl_State classification of
                StateBlank \<Rightarrow>
                  (case Bootstrap lib sha256 (ae_sessions e 1) (ae_wait e) (ao_BootstrapOpts opts) p of
                     ((Some err, _), p1) \<Rightarrow> (Inl (BootstrapRedirect err), s\<lparr>as_pool := p1\<rparr>)
                   | ((None, _), p1) \<Rightarrow> (Inr (result\<lparr>ar_Bootstrapped := True\<rparr>), s\<lparr>as_pool := p1\<rparr>))
              | StateIncompatible \<Rightarrow> (Inl (IncompatibleVersion (cl_VPSVersion classification)), s1)
              | StateOld \<Rightarrow> check_drift_and_sync lib sha256 json_array e opts result s1
              | StateCurrent \<Rightarrow> check_drift_and_sync lib sha256 json_array e opts (result\<lparr>ar_ZeroDiff := True\<rparr>) s1))"

section \<open>The key of the server\<close>

definition key_line :: "string \<Rightarrow> bool" where
  "key_line raw \<longleftrightarrow> has_prefix (trim_space raw) ''PublicKey = ''"

definition key_of :: "string \<Rightarrow> string" where
  "key_of raw = trim_prefix (trim_space raw) ''PublicKey = ''"

lemma fold_awg_key:
  "vp_WGServerPublicKey (fst (fold awg_line ls s)) = (if filter key_line ls = [] then vp_WGServerPublicKey (fst s) else key_of (last (filter key_line ls)))
    \<and> sy_WGServerKey (snd (fold awg_line ls s)) = (if filter key_line ls = [] then sy_WGServerKey (snd s) else key_of (last (filter key_line ls)))"
proof (induction ls arbitrary: s)
  case (Cons l ls)
  have "vp_WGServerPublicKey (fst (awg_line l s)) = (if key_line l then key_of l else vp_WGServerPublicKey (fst s))"
    "sy_WGServerKey (snd (awg_line l s)) = (if key_line l then key_of l else sy_WGServerKey (snd s))"
    by (cases s; simp add: awg_line_def key_line_def key_of_def Let_def)+
  then show ?case using Cons.IH [of "awg_line l s"] by simp
qed simp

text \<open>What is saved as the server's public key is the key of a peer. In a server's configuration the lines before
  the first peer hold no public key; of such a file with peers the parser takes the last public key, which is
  that of the last peer it reads, and without peers it takes none.\<close>

theorem sync_takes_peer_key:
  assumes "list_all (\<lambda>l. newline \<notin> set l) (iface @ concat peers)" and "list_all (\<lambda>l. \<not> key_line l) iface"
  shows "vp_WGServerPublicKey (fst (parseAWGConfig (unlines (iface @ concat peers)) (p, r)))
    = (case filter key_line (concat peers) of [] \<Rightarrow> vp_WGServerPublicKey p | ks \<Rightarrow> key_of (last ks))"
proof -
  have "split_on newline (unlines (iface @ concat peers)) = (iface @ concat peers) @ [[]]"
    using split_unlines [of "iface @ concat peers" "[]"] assms(1) by (simp add: list_all_iff)
  moreover have "filter key_line (iface @ concat peers @ [[]]) = filter key_line (concat peers)"
    using assms(2) by (auto simp: filter_empty_conv list_all_iff key_line_def trim_space_def has_prefix_def)
  ultimately show ?thesis
    using fold_awg_key [of "iface @ concat peers @ [[]]" "(p, r)"] by (auto simp: parseAWGConfig_def split: list.split)
qed

section \<open>Who can attach\<close>

lemma SyncState_profile:
  "vp_AuthMode (snd (fst (run_state (SyncState lib json_array now sess cfg) w))) = cn_AuthMode cfg
    \<and> vp_PrivateKeyPath (snd (fst (run_state (SyncState lib json_array now sess cfg) w))) = []"
proof -
  have f: "vp_AuthMode (fst (fold awg_line ls s)) = vp_AuthMode (fst s) \<and> vp_PrivateKeyPath (fst (fold awg_line ls s)) = vp_PrivateKeyPath (fst s)" for ls s
  proof (induction ls arbitrary: s)
    case (Cons l ls)
    have "vp_AuthMode (fst (awg_line l s)) = vp_AuthMode (fst s) \<and> vp_PrivateKeyPath (fst (awg_line l s)) = vp_PrivateKeyPath (fst s)"
      by (cases s) (simp add: awg_line_def Let_def)
    then show ?case using Cons.IH [of "awg_line l s"] by simp
  qed simp
  obtain h hk w1 where 1: "Run lib sess read_hash_command w = ((h, hk), w1)" by (metis prod.collapse)
  obtain v vk w2 where 2: "Run lib sess read_version_command w1 = ((v, vk), w2)" by (metis prod.collapse)
  obtain a ak w3 where 3: "Run lib sess read_awg_command w2 = ((a, ak), w3)" by (metis prod.collapse)
  obtain c ck w4 where 4: "Run lib sess read_clients_command w3 = ((c, ck), w4)" by (metis prod.collapse)
  let ?h = "if hk then trim_space h else []"
  let ?p1 = "(new_profile cfg)\<lparr>vp_ComposeHash := ?h\<rparr>"
  let ?p2 = "if vk then ?p1\<lparr>vp_KnownGoodVersion := trim_space v\<rparr> else ?p1"
  obtain p3 r3 where p: "parseAWGConfig a (?p2, zero_sync\<lparr>sy_ComposeHash := ?h\<rparr>) = (p3, r3)" by (metis prod.collapse)
  have "vp_AuthMode p3 = cn_AuthMode cfg \<and> vp_PrivateKeyPath p3 = []"
    using f [of "split_on newline a" "(?p2, zero_sync\<lparr>sy_ComposeHash := ?h\<rparr>)"] p by (cases vk) (simp_all add: parseAWGConfig_def new_profile_def)
  then show ?thesis using 1 2 3 4 p
    by (cases ak; cases vk) (simp_all add: SyncState_def Let_def new_profile_def split: prod.split)
qed

lemma SyncState_unsavable:
  "cn_AuthMode cfg = ''key'' \<Longrightarrow> Profile_Validate (snd (fst (run_state (SyncState lib json_array now sess cfg) w))) \<noteq> None"
  using SyncState_profile [of lib json_array now sess cfg w] by (simp add: Profile_Validate_def)

lemma with_session_cases:
  assumes "with_session lib se m p = (res, p')"
  obtains (failed) err where "res = Inl err" | (used) sess p1 where "PoolSession lib (fst se) (snd se) p = (Inr sess, p1)"
    and "res = Inr (fst (run_state (m sess) (pl_world p1)))"
  using assms by (auto simp: with_session_def on_session_def split: prod.splits sum.splits)

lemma with_session_cfg:
  "pl_cfg (snd (with_session lib se m p)) = pl_cfg p"
  using PoolSession_tracked [of p "snd se" lib "fst se"]
  by (auto simp: with_session_def on_session_def Put_def close_raw_def tracked_def bookkeeping_def split: prod.splits sum.splits)

lemma sync_and_save_key:
  assumes "cn_AuthMode (pl_cfg (as_pool s)) = ''key''"
  shows "fst (sync_and_save lib json_array e result s) \<noteq> Inr x"
proof -
  let ?m = "\<lambda>sess. SyncState lib json_array (ae_now e) sess (pl_cfg (as_pool s))"
  obtain res p' where r: "with_session lib (ae_sessions e 3) ?m (as_pool s) = (res, p')" by (rule that) (rule prod.collapse [symmetric])
  from r show ?thesis
  proof (cases rule: with_session_cases)
    case (failed err)
    then show ?thesis using r by (simp add: sync_and_save_def)
  next
    case (used sess p1)
    obtain sy pr where x: "fst (run_state (?m sess) (pl_world p1)) = (sy, pr)" by (rule that) (rule prod.collapse [symmetric])
    then have "Profile_Validate pr \<noteq> None" using SyncState_unsavable [OF assms] by (metis snd_conv)
    then show ?thesis using r used x
      by (auto simp: sync_and_save_def SaveSyncedProfile_def SaveVPSProfile_def save_entity_def)
  qed
qed

text \<open>With key authentication no existing installation can be attached. The profile that is put together from the
  server lacks the path of the private key, which its own validation requires, so saving it fails; an attach
  succeeds only when it found no installation and bootstrapped one.\<close>

theorem attach_with_key_needs_bootstrap:
  assumes "cn_AuthMode (pl_cfg (as_pool s)) = ''key''" and "fst (Attach lib sha256 json_array e opts s) = Inr result"
  shows "ar_Bootstrapped result \<and> ar_Sync result = None"
proof -
  let ?c = "\<lambda>sess. Classify lib sha256 sess (ao_DaemonVersion opts) (ao_ComposeConfig opts)"
  let ?d = "\<lambda>sess. Detect_CheckDrift lib sha256 sess (ao_ComposeConfig opts)"
  have no_sync: "fst (check_drift_and_sync lib sha256 json_array e opts r s1) \<noteq> Inr result" if "cn_AuthMode (pl_cfg (as_pool s1)) = ''key''" for r s1
    using sync_and_save_key [of "s1\<lparr>as_pool := snd (with_session lib (ae_sessions e 2) ?d (as_pool s1))\<rparr>" lib json_array e r result]
      with_session_cfg [of lib "ae_sessions e 2" ?d "as_pool s1"] that
    by (auto simp: check_drift_and_sync_def split: prod.splits sum.splits)
  obtain res p' where r: "with_session lib (ae_sessions e 0) ?c (as_pool s) = (res, p')" by (rule that) (rule prod.collapse [symmetric])
  have k: "cn_AuthMode (pl_cfg p') = ''key''" using with_session_cfg [of lib "ae_sessions e 0" ?c "as_pool s"] assms(1) r by simp
  show ?thesis using assms(2) r no_sync k
    by (auto simp: Attach_def Let_def split: sum.splits vps_class.splits prod.splits option.splits)
qed

text \<open>C26: Every server that has Docker is sent to a bootstrap, which then fails: with sessions that take one command
  no attach succeeds on it.\<close>

theorem attach_never_succeeds:
  assumes "one_command_law lib started"
    and "\<And>sess p. PoolSession lib (fst (ae_sessions e 0)) (snd (ae_sessions e 0)) (as_pool s) = (Inr sess, p)
      \<Longrightarrow> \<exists>out w. Run lib sess probe_docker_command (pl_world p) = ((out, True), w)"
  shows "\<exists>err. fst (Attach lib sha256 json_array e opts s) = Inl err \<and> ((\<exists>x. err = AttachNoSession x) \<or> (\<exists>x. err = BootstrapRedirect x))"
proof -
  let ?c = "\<lambda>sess. Classify lib sha256 sess (ao_DaemonVersion opts) (ao_ComposeConfig opts)"
  obtain res p' where r: "with_session lib (ae_sessions e 0) ?c (as_pool s) = (res, p')" by (rule that) (rule prod.collapse [symmetric])
  from r show ?thesis
  proof (cases rule: with_session_cases)
    case (failed err)
    then show ?thesis using r by (simp add: Attach_def)
  next
    case (used sess p1)
    obtain out w where "Run lib sess probe_docker_command (pl_world p1) = ((out, True), w)" using assms(2) [OF used(1)] by blast
    then have "cl_State (fst (run_state (?c sess) (pl_world p1))) = StateBlank" using classify_blank [OF assms(1)] by blast
    moreover obtain err where "fst (fst (Bootstrap lib sha256 (ae_sessions e 1) (ae_wait e) (ao_BootstrapOpts opts) p')) = Some err"
      using bootstrap_fails [OF assms(1)] by blast
    ultimately show ?thesis using r used
      by (cases "Bootstrap lib sha256 (ae_sessions e 1) (ae_wait e) (ao_BootstrapOpts opts) p'") (auto simp: Attach_def Let_def split: prod.splits)
  qed
qed

section \<open>Examples\<close>

theorem sync_takes_peer_key_witness:
  "vp_WGServerPublicKey (fst (parseAWGConfig (unlines ([''[Interface]'', ''Address = 10.8.1.1/24''] @ concat [[''[Peer]'', ''PublicKey = peer1''], [''[Peer]'', ''PublicKey = peer2'']]))
      (new_profile sample_connect, zero_sync))) = ''peer2''"
proof -
  have l: "list_all (\<lambda>l. newline \<notin> set l) ([''[Interface]'', ''Address = 10.8.1.1/24''] @ concat [[''[Peer]'', ''PublicKey = peer1''], [''[Peer]'', ''PublicKey = peer2'']])"
    "list_all (\<lambda>l. \<not> key_line l) [''[Interface]'', ''Address = 10.8.1.1/24'']" by code_simp+
  have k: "filter key_line (concat [[''[Peer]'', ''PublicKey = peer1''], [''[Peer]'', ''PublicKey = peer2'']]) = [''PublicKey = peer1'', ''PublicKey = peer2'']"
    "key_of ''PublicKey = peer2'' = ''peer2''" by code_simp+
  show ?thesis unfolding sync_takes_peer_key [OF l] k(1) using k(2) by simp
qed

text \<open>A server whose sessions take any number of commands, each answered as \<open>ans\<close> says; its world is the command
  that runs.\<close>

definition lax_lib :: "(string \<Rightarrow> string) \<Rightarrow> (unit, nat, string) ssh_lib" where
  "lax_lib ans = \<lparr>sl_connect = (\<lambda>addr cfg w. (Some (addr, ''key''), w)), sl_authenticate = (\<lambda>h cfg w. (Some (), w)),
     sl_NewSession = (\<lambda>c w. (Some 0, w)), sl_keepalive = (\<lambda>c w. (True, w)), sl_CloseClient = (\<lambda>c w. w),
     sl_Start = (\<lambda>r cmd inp w. (True, cmd)), sl_Wait = (\<lambda>r w. (([(False, ans w)], True), w)), sl_CloseSession = (\<lambda>r w. w)\<rparr>"

lemma lax_Run [simp]: "Run (lax_lib ans) s cmd w = ((ans cmd, True), cmd)"
  by (simp add: Run_def start_and_wait_def lax_lib_def)

lemma lax_RunScript [simp]: "RunScript (lax_lib ans) s script w = (((ans ''bash -s'', []), True), ''bash -s'')"
  by (simp add: RunScript_def start_and_wait_def lax_lib_def split_output_def)

definition open_pool :: "connect_config \<Rightarrow> 'w \<Rightarrow> (unit, 'r, 'w) pool" where
  "open_pool cfg w = \<lparr>pl_cfg = cfg, pl_client = Some (), pl_sessions = [], pl_closed = False, pl_lastUsed = 0, pl_next = 0,
     pl_hosts = [], pl_world = w\<rparr>"

definition sample_attach_env :: attach_env where
  "sample_attach_env = \<lparr>ae_sessions = (\<lambda>_. ((\<lambda>_. good_dial), 0)), ae_wait = \<lparr>we_took = (\<lambda>_. 0), we_cancelled = (\<lambda>_. False)\<rparr>, ae_now = ''2026'',
     ae_home = True, ae_io = io_all_ok\<rparr>"

definition sample_attach_opts :: attach_opts where
  "sample_attach_opts = \<lparr>ao_DaemonVersion = ''1.0.0'', ao_ComposeConfig = sample_render,
     ao_BootstrapOpts = \<lparr>bo_ComposeConfig = sample_render, bo_DaemonVersion = ''1.0.0''\<rparr>\<rparr>"

theorem attach_never_succeeds_witness:
  "\<exists>err. fst (Attach (sample_lib (\<lambda>_. Some ''/usr/bin/docker'')) id (\<lambda>_. None) sample_attach_env sample_attach_opts
      \<lparr>as_pool = open_pool sample_connect sample_ssh, as_disk = \<lparr>target = NoFile, strays = 0\<rparr>\<rparr>) = Inl err"
proof -
  let ?l = "sample_lib (\<lambda>_. Some ''/usr/bin/docker'')" and ?s = "\<lparr>as_pool = open_pool sample_connect sample_ssh, as_disk = \<lparr>target = NoFile, strays = 0\<rparr>\<rparr>"
  have p: "\<exists>out w. Run ?l sess probe_docker_command (pl_world p) = ((out, True), w)"
    if "PoolSession ?l (fst (ae_sessions sample_attach_env 0)) (snd (ae_sessions sample_attach_env 0)) (as_pool ?s) = (Inr sess, p)" for sess p
  proof -
    have "ss_raw sess = 0 \<and> sw_started (pl_world p) = []"
      using that by (auto simp: PoolSession_def open_pool_def maxSessionsPerHost_def ensureClient_def open_raw_def validated_def keepalive_def
          track_def sample_lib_def sample_ssh_def Let_def)
    then show ?thesis by (simp add: Run_def start_and_wait_def sample_lib_def)
  qed
  show ?thesis using attach_never_succeeds [OF sample_one_command p] by blast
qed

definition blank_server :: "string \<Rightarrow> string" where
  "blank_server cmd =
     (if cmd = ''uname -m'' then ''x86_64''
      else if cmd = ''cat /etc/os-release'' then ''ID=ubuntu'' @ [newline] @ ''VERSION_ID=24.04''
      else if cmd = disk_command then ''10G''
      else if cmd = health_command then ''unet-net-pause Up'' @ [newline] @ ''unet-amnezia-awg Up'' @ [newline] @ ''unet-caddy Up''
      else [])"

definition key_pool :: "(unit, nat, string) pool" where
  "key_pool = open_pool (sample_connect\<lparr>cn_AuthMode := ''key'', cn_PrivateKeyPath := ''/k''\<rparr>) []"

definition key_attach :: "(attach_error + attach_result) \<times> (unit, nat, string) attach_state" where
  "key_attach = Attach (lax_lib blank_server) (\<lambda>_. ''h'') (\<lambda>_. None) sample_attach_env sample_attach_opts
     \<lparr>as_pool = key_pool, as_disk = \<lparr>target = NoFile, strays = 0\<rparr>\<rparr>"

definition usable :: "(unit, nat, string) pool \<Rightarrow> bool" where
  "usable p \<longleftrightarrow> pl_client p = Some () \<and> \<not> pl_closed p \<and> pl_sessions p = []"

lemma lax_session:
  assumes "usable p"
  obtains sess p1 where "PoolSession (lax_lib ans) e now p = (Inr sess, p1)" and "pl_world p1 = pl_world p"
    and "\<And>w. usable (Put (lax_lib ans) sess (p1\<lparr>pl_world := w\<rparr>))"
proof (rule that)
  show "PoolSession (lax_lib ans) e now p = (Inr \<lparr>ss_id = pl_next p, ss_raw = 0\<rparr>,
      p\<lparr>pl_sessions := [\<lparr>ss_id = pl_next p, ss_raw = 0\<rparr>], pl_lastUsed := now, pl_next := pl_next p + 1\<rparr>)"
    using assms by (simp add: usable_def PoolSession_def maxSessionsPerHost_def ensureClient_def open_raw_def validated_def keepalive_def
        track_def lax_lib_def Let_def)
qed (use assms in \<open>simp_all add: usable_def Put_def close_raw_def\<close>)

lemma lax_with_session:
  assumes "usable p"
  obtains sess p1 where "with_session (lax_lib ans) se m p = (Inr (fst (run_state (m sess) (pl_world p))), p1)" and "usable p1"
proof -
  obtain sess p1 where p: "PoolSession (lax_lib ans) (fst se) (snd se) p = (Inr sess, p1)" "pl_world p1 = pl_world p"
    "\<And>w. usable (Put (lax_lib ans) sess (p1\<lparr>pl_world := w\<rparr>))" using lax_session [OF assms] by blast
  obtain x w where x: "run_state (m sess) (pl_world p) = (x, w)" by (rule that) (rule prod.collapse [symmetric])
  show ?thesis using p x by (intro that [of sess "Put (lax_lib ans) sess (p1\<lparr>pl_world := w\<rparr>)"]) (simp_all add: with_session_def on_session_def)
qed

lemma blank_server_bootstraps: "\<exists>r. fst key_attach = Inr r"
proof -
  have ans: "blank_server ''uname -m'' = ''x86_64''" "blank_server ''cat /etc/os-release'' = ''ID=ubuntu'' @ [newline] @ ''VERSION_ID=24.04''"
    "blank_server disk_command = ''10G''" "blank_server ''sudo -n true 2>&1'' = []" "blank_server read_version_command = []"
    "blank_server probe_docker_command = []" "blank_server read_hash_command = []" "blank_server ''bash -s'' = []"
    "blank_server ''command -v docker'' = []" "blank_server ''docker --version'' = []" "blank_server ''docker compose version'' = []"
    "blank_server pull_command = []" "blank_server up_command = []"
    "blank_server health_command = ''unet-net-pause Up'' @ [newline] @ ''unet-amnezia-awg Up'' @ [newline] @ ''unet-caddy Up''"
    by code_simp+
  have c: "pk_Pass (check_arch_output (''x86_64'', True))" "pk_Pass (check_os_output (''ID=ubuntu'' @ [newline] @ ''VERSION_ID=24.04'', True))"
    "pk_Pass (check_disk_output (''10G'', True))" "pk_Pass (check_sudo_output ([], True))"
    "container_up ''unet-net-pause'' (blank_server health_command)" "container_up ''unet-amnezia-awg'' (blank_server health_command)"
    "container_up ''unet-caddy'' (blank_server health_command)"
    by code_simp+
  obtain y where y: "Render sample_render = Some y" by (simp add: Render_def sample_render_def)
  have blank: "trim_space [] = []" by (simp add: trim_space_def)
  have cl: "cl_State (fst (run_state (Classify (lax_lib blank_server) h s v cfg) w)) = StateBlank" for h s v cfg w
    by (simp add: Classify_def ans blank Let_def classifyState_def)
  have vh: "fst (run_state (verifyHealth (lax_lib blank_server) s (ae_wait sample_attach_env)) w) = True" for s w
    using c(5-7) by (simp add: verifyHealth_def verify_loop.simps [of _ _ _ 0] sample_attach_env_def second_def checkContainerHealth_def)
  have b: "fst (fst (run_state (bootstrap_run (lax_lib blank_server) (\<lambda>_. ''h'') (ae_wait sample_attach_env) (ao_BootstrapOpts sample_attach_opts) s) w)) = None" for s w
    using c(1-4) vh y
    by (simp add: bootstrap_run_def RunPreflight_def checkArch_def checkOS_def checkDisk_def checkSudo_def ans EnsureDocker_def
        ensure_docker_engine_def ensure_compose_plugin_def DeployCompose_def upload_and_start_def sample_attach_opts_def blank
        discoverConnectionParams_def Let_def split: prod.split) (metis fst_conv)
  have u: "usable key_pool" by (simp add: usable_def key_pool_def open_pool_def)
  obtain sess p1 where 1: "with_session (lax_lib blank_server) (ae_sessions sample_attach_env 0)
      (\<lambda>sess. Classify (lax_lib blank_server) (\<lambda>_. ''h'') sess (ao_DaemonVersion sample_attach_opts) (ao_ComposeConfig sample_attach_opts)) key_pool
      = (Inr (fst (run_state (Classify (lax_lib blank_server) (\<lambda>_. ''h'') sess (ao_DaemonVersion sample_attach_opts) (ao_ComposeConfig sample_attach_opts)) (pl_world key_pool))), p1)"
    and u1: "usable p1" by (rule lax_with_session [OF u])
  obtain sess2 p2 where 2: "PoolSession (lax_lib blank_server) (fst (ae_sessions sample_attach_env 1)) (snd (ae_sessions sample_attach_env 1)) p1 = (Inr sess2, p2)"
    using lax_session [OF u1] by blast
  have "fst (fst (Bootstrap (lax_lib blank_server) (\<lambda>_. ''h'') (ae_sessions sample_attach_env 1) (ae_wait sample_attach_env) (ao_BootstrapOpts sample_attach_opts) p1)) = None"
    unfolding Bootstrap_def 2 using b [of sess2 "pl_world p2"] by (auto simp: on_session_def split: prod.splits)
  then show ?thesis using 1 cl
    by (cases "Bootstrap (lax_lib blank_server) (\<lambda>_. ''h'') (ae_sessions sample_attach_env 1) (ae_wait sample_attach_env) (ao_BootstrapOpts sample_attach_opts) p1")
       (auto simp: key_attach_def Attach_def Let_def)
qed

theorem attach_with_key_needs_bootstrap_witness:
  "\<exists>r. fst key_attach = Inr r \<and> ar_Bootstrapped r \<and> ar_Sync r = None"
proof -
  obtain r where r: "fst key_attach = Inr r" using blank_server_bootstraps by blast
  have k: "cn_AuthMode (pl_cfg (as_pool \<lparr>as_pool = key_pool, as_disk = \<lparr>target = NoFile, strays = 0\<rparr>\<rparr>)) = ''key''"
    by (simp add: key_pool_def open_pool_def)
  show ?thesis using attach_with_key_needs_bootstrap [OF k r [unfolded key_attach_def]] r by blast
qed

end
