(* ===== verification/Dns_Manager.thy ===== *)
theory Dns_Manager
  imports Dns_Records
begin

text \<open>
  The second DNS implementation (\<open>dns/cloudflare.go\<close>, \<open>dns/manager.go\<close>): a Cloudflare client that speaks the
  interface over HTTP, and the manager that chooses between it and manual mode. The HTTP exchange and the
  JSON codecs are parameters; the manager keeps the token of the first client it made.
\<close>

section \<open>The client\<close>

record cf_envelope =
  ev_Success :: bool
  ev_Errors :: "(int \<times> string) list"
  ev_Result :: string

datatype cf_error = CfRequest | CfReadBody string | Cf503 string | CfNotJSON string int | CfRefused string string | CfDecode
  | CfTokenStatus string | CfZoneNotFound string | CfNeedsToken | CfNeedsZone

record token_verify =
  tv_Status :: string
  tv_ID :: string

text \<open>The HTTP exchange: token, method, path and body give a status and a body, absent when it cannot be read, or
  no answer at all. The decoders of a result are partial.\<close>

record 'w cf_http =
  ch_do :: "string \<Rightarrow> string \<Rightarrow> string \<Rightarrow> string \<Rightarrow> 'w \<Rightarrow> (int \<times> string option) option \<times> 'w"
  ch_envelope :: "string \<Rightarrow> cf_envelope option"
  ch_verify :: "string \<Rightarrow> token_verify option"
  ch_records :: "string \<Rightarrow> dns_record list option"
  ch_zones :: "string \<Rightarrow> (string \<times> string) list option"
  ch_marshal :: "dns_record \<Rightarrow> string"

definition handleResponse :: "'w cf_http \<Rightarrow> string \<Rightarrow> int \<times> string option \<Rightarrow> cf_error + cf_envelope" where
  "handleResponse api operation resp =
     (case resp of
        (_, None) \<Rightarrow> Inl (CfReadBody operation)
      | (status, Some body) \<Rightarrow>
          if status = 503 then Inl (Cf503 operation)
          else (case ch_envelope api body of
              None \<Rightarrow> Inl (CfNotJSON operation status)
            | Some e \<Rightarrow>
                if \<not> ev_Success e then Inl (CfRefused operation (join_with ''; '' (map (\<lambda>(c, m). show_int c @ '': '' @ m) (ev_Errors e))))
                else Inr e))"

definition request :: "'w cf_http \<Rightarrow> string \<Rightarrow> string \<Rightarrow> string \<Rightarrow> string \<Rightarrow> string \<Rightarrow> 'w \<Rightarrow> (cf_error + cf_envelope) \<times> 'w" where
  "request api token operation verb path body w =
     (case ch_do api token verb path body w of
        (None, w1) \<Rightarrow> (Inl CfRequest, w1)
      | (Some resp, w1) \<Rightarrow> (handleResponse api operation resp, w1))"

definition check_verify :: "'w cf_http \<Rightarrow> cf_error + cf_envelope \<Rightarrow> cf_error option" where
  "check_verify api r =
     (case r of Inl e \<Rightarrow> Some e
      | Inr env \<Rightarrow> (case ch_verify api (ev_Result env) of None \<Rightarrow> Some CfDecode
          | Some v \<Rightarrow> if tv_Status v \<noteq> ''active'' then Some (CfTokenStatus (tv_Status v)) else None))"

definition ValidateToken :: "'w cf_http \<Rightarrow> string \<Rightarrow> 'w \<Rightarrow> cf_error option \<times> 'w" where
  "ValidateToken api token w =
     (case request api token ''validate token'' ''GET'' ''/user/tokens/verify'' [] w of (r, w1) \<Rightarrow> (check_verify api r, w1))"

definition ValidateTokenScopes :: "'w cf_http \<Rightarrow> string \<Rightarrow> 'w \<Rightarrow> cf_error option \<times> 'w" where
  "ValidateTokenScopes api token w =
     (case request api token ''validate token scopes'' ''GET'' ''/user/tokens/verify'' [] w of (r, w1) \<Rightarrow> (check_verify api r, w1))"

definition records_path :: "string \<Rightarrow> string" where
  "records_path zoneID = ''/zones/'' @ zoneID @ ''/dns_records''"

definition list_path :: "string \<Rightarrow> string \<Rightarrow> string \<Rightarrow> string" where
  "list_path zoneID name recordType = records_path zoneID @ ''?type='' @ recordType @ ''&name='' @ name"

definition ListRecords :: "'w cf_http \<Rightarrow> string \<Rightarrow> string \<Rightarrow> string \<Rightarrow> string \<Rightarrow> 'w \<Rightarrow> (cf_error + dns_record list) \<times> 'w" where
  "ListRecords api token zoneID name recordType w =
     (case request api token ''list records'' ''GET'' (list_path zoneID name recordType) [] w of
        (Inl e, w1) \<Rightarrow> (Inl e, w1)
      | (Inr env, w1) \<Rightarrow> ((case ch_records api (ev_Result env) of None \<Rightarrow> Inl CfDecode | Some rs \<Rightarrow> Inr rs), w1))"

definition a_record :: "string \<Rightarrow> string \<Rightarrow> dns_record" where
  "a_record name ip = \<lparr>rec_ID = [], rec_Type = ''A'', rec_Name = name, rec_Content = ip, rec_Proxied = False, rec_TTL = 120\<rparr>"

definition drop_result :: "(cf_error + 'a) \<times> 'w \<Rightarrow> cf_error option \<times> 'w" where
  "drop_result x = (case x of (Inl e, w) \<Rightarrow> (Some e, w) | (Inr _, w) \<Rightarrow> (None, w))"

definition UpsertARecord :: "'w cf_http \<Rightarrow> string \<Rightarrow> string \<Rightarrow> string \<Rightarrow> string \<Rightarrow> 'w \<Rightarrow> cf_error option \<times> 'w" where
  "UpsertARecord api token zoneID name ip w =
     (case ListRecords api token zoneID name ''A'' w of
        (Inl e, w1) \<Rightarrow> (Some e, w1)
      | (Inr existing, w1) \<Rightarrow>
          (let payload = ch_marshal api (a_record name ip) in
           case existing of
             x # _ \<Rightarrow> drop_result (request api token ''update record'' ''PUT'' (records_path zoneID @ ''/'' @ rec_ID x) payload w1)
           | [] \<Rightarrow> drop_result (request api token ''create record'' ''POST'' (records_path zoneID) payload w1)))"

definition Cloudflare_DeleteRecord :: "'w cf_http \<Rightarrow> string \<Rightarrow> string \<Rightarrow> string \<Rightarrow> 'w \<Rightarrow> cf_error option \<times> 'w" where
  "Cloudflare_DeleteRecord api token zoneID recordID w =
     drop_result (request api token ''delete record'' ''DELETE'' (records_path zoneID @ ''/'' @ recordID) [] w)"

definition GetZoneID :: "'w cf_http \<Rightarrow> string \<Rightarrow> string \<Rightarrow> 'w \<Rightarrow> (cf_error + string) \<times> 'w" where
  "GetZoneID api token zoneName w =
     (case request api token ''get zone id'' ''GET'' (''/zones?name='' @ zoneName) [] w of
        (Inl e, w1) \<Rightarrow> (Inl e, w1)
      | (Inr env, w1) \<Rightarrow> ((case ch_zones api (ev_Result env) of None \<Rightarrow> Inl CfDecode
            | Some [] \<Rightarrow> Inl (CfZoneNotFound zoneName) | Some (z # _) \<Rightarrow> Inr (fst z)), w1))"

section \<open>The manager\<close>

record 'w dns_manager =
  dm_cfClient :: "string option"
  dm_world :: 'w

text \<open>The token of the client: that of the first call.\<close>

definition cf_client :: "root_config \<Rightarrow> 'w dns_manager \<Rightarrow> string \<times> 'w dns_manager" where
  "cf_client cfg m = (case dm_cfClient m of Some t \<Rightarrow> (t, m)
     | None \<Rightarrow> (dns_Token (cfg_DNS cfg), m\<lparr>dm_cfClient := Some (dns_Token (cfg_DNS cfg))\<rparr>))"

definition on_world :: "('w \<Rightarrow> 'a \<times> 'w) \<Rightarrow> 'w dns_manager \<Rightarrow> 'a \<times> 'w dns_manager" where
  "on_world f m = (case f (dm_world m) of (x, w) \<Rightarrow> (x, m\<lparr>dm_world := w\<rparr>))"

datatype cert_strategy = CertStrategyWildcardDNS01 | CertStrategyHTTP01

definition CertStrategyForMode :: "string \<Rightarrow> cert_strategy" where
  "CertStrategyForMode mode = (if mode = ''cloudflare'' then CertStrategyWildcardDNS01 else CertStrategyHTTP01)"

datatype caddy_tls = TLS_DNS01 (tls_token: string) (tls_subject: string) | TLS_HTTP01

definition CaddyTLSConfig :: "root_config \<Rightarrow> string \<Rightarrow> string \<Rightarrow> caddy_tls" where
  "CaddyTLSConfig cfg mode zone = (if mode = ''cloudflare'' then TLS_DNS01 (dns_Token (cfg_DNS cfg)) (''*.'' @ zone) else TLS_HTTP01)"

definition Dns_UpsertRecord :: "'w cf_http \<Rightarrow> root_config \<Rightarrow> string \<Rightarrow> string \<Rightarrow> 'w dns_manager \<Rightarrow> cf_error option \<times> 'w dns_manager" where
  "Dns_UpsertRecord api cfg subdomain ip m =
     (if dns_Provider (cfg_DNS cfg) = ''cloudflare'' then
        (let (token, m0) = cf_client cfg m in
         case on_world (ValidateTokenScopes api token) m0 of
           (Some e, m1) \<Rightarrow> (Some e, m1)
         | (None, m1) \<Rightarrow>
             (case on_world (GetZoneID api token (dns_Zone (cfg_DNS cfg))) m1 of
                (Inl e, m2) \<Rightarrow> (Some e, m2)
              | (Inr zoneID, m2) \<Rightarrow> on_world (UpsertARecord api token zoneID (subdomain @ ''.'' @ dns_Zone (cfg_DNS cfg)) ip) m2))
      else (None, m))"

fun delete_records :: "'w cf_http \<Rightarrow> string \<Rightarrow> string \<Rightarrow> dns_record list \<Rightarrow> 'w \<Rightarrow> cf_error option \<times> 'w" where
  "delete_records api token zoneID [] w = (None, w)"
| "delete_records api token zoneID (r # rs) w =
     (case Cloudflare_DeleteRecord api token zoneID (rec_ID r) w of
        (Some e, w1) \<Rightarrow> (Some e, w1)
      | (None, w1) \<Rightarrow> delete_records api token zoneID rs w1)"

definition Dns_DeleteRecord :: "'w cf_http \<Rightarrow> root_config \<Rightarrow> string \<Rightarrow> 'w dns_manager \<Rightarrow> cf_error option \<times> 'w dns_manager" where
  "Dns_DeleteRecord api cfg subdomain m =
     (if dns_Provider (cfg_DNS cfg) = ''cloudflare'' then
        (let (token, m0) = cf_client cfg m in
         case on_world (GetZoneID api token (dns_Zone (cfg_DNS cfg))) m0 of
           (Inl e, m1) \<Rightarrow> (Some e, m1)
         | (Inr zoneID, m1) \<Rightarrow>
             (case on_world (ListRecords api token zoneID (subdomain @ ''.'' @ dns_Zone (cfg_DNS cfg)) ''A'') m1 of
                (Inl e, m2) \<Rightarrow> (Some e, m2)
              | (Inr records, m2) \<Rightarrow> on_world (delete_records api token zoneID records) m2))
      else (None, m))"

definition Dns_ValidateConfig :: "'w cf_http \<Rightarrow> root_config \<Rightarrow> 'w dns_manager \<Rightarrow> cf_error option \<times> 'w dns_manager" where
  "Dns_ValidateConfig api cfg m =
     (if dns_Provider (cfg_DNS cfg) = ''cloudflare'' then
        (if dns_Token (cfg_DNS cfg) = [] then (Some CfNeedsToken, m)
         else if dns_Zone (cfg_DNS cfg) = [] then (Some CfNeedsZone, m)
         else
           (let (token, m0) = cf_client cfg m in
            case on_world (ValidateToken api token) m0 of
              (Some e, m1) \<Rightarrow> (Some e, m1)
            | (None, m1) \<Rightarrow>
                (case on_world (ValidateTokenScopes api token) m1 of
                   (Some e, m2) \<Rightarrow> (Some e, m2)
                 | (None, m2) \<Rightarrow> (case on_world (GetZoneID api token (dns_Zone (cfg_DNS cfg))) m2 of
                       (Inl e, m3) \<Rightarrow> (Some e, m3) | (Inr _, m3) \<Rightarrow> (None, m3)))))
      else (None, m))"

definition countExposed :: "exposed_port list \<Rightarrow> nat" where
  "countExposed ports = card (set (filter (\<lambda>h. h \<noteq> []) (map ep_HostHeader ports)))"

definition RateLimitWarning :: "string \<Rightarrow> int \<Rightarrow> bool" where
  "RateLimitWarning mode exposedCount \<longleftrightarrow> mode \<noteq> ''cloudflare'' \<and> exposedCount > 5"

definition maskToken :: "secret \<Rightarrow> string" where
  "maskToken s = (if length s \<le> 4 then ''****'' else ''****'' @ drop (length s - 4) s)"

section \<open>A changed token\<close>

definition with_token :: "string \<Rightarrow> root_config \<Rightarrow> root_config" where
  "with_token t cfg = cfg\<lparr>cfg_DNS := (cfg_DNS cfg)\<lparr>dns_Token := t\<rparr>\<rparr>"

lemma with_token_fields [simp]:
  "dns_Token (cfg_DNS (with_token t cfg)) = t" "dns_Zone (cfg_DNS (with_token t cfg)) = dns_Zone (cfg_DNS cfg)"
  "dns_Provider (cfg_DNS (with_token t cfg)) = dns_Provider (cfg_DNS cfg)"
  by (simp_all add: with_token_def)

lemma cf_client_cached: "dm_cfClient m = Some t \<Longrightarrow> cf_client cfg m = (t, m)"
  by (simp add: cf_client_def)

text \<open>A token that is changed in the configuration is not used. Once the manager has made a client, creating,
  deleting and validating go on with the first token, and even validating a new token checks the old one.\<close>

theorem changed_token_ignored:
  assumes "dm_cfClient m = Some t" and "new \<noteq> []" and "dns_Token (cfg_DNS cfg) \<noteq> []"
  shows "Dns_UpsertRecord api (with_token new cfg) subdomain ip m = Dns_UpsertRecord api cfg subdomain ip m
    \<and> Dns_DeleteRecord api (with_token new cfg) subdomain m = Dns_DeleteRecord api cfg subdomain m
    \<and> Dns_ValidateConfig api (with_token new cfg) m = Dns_ValidateConfig api cfg m"
  using assms by (simp add: Dns_UpsertRecord_def Dns_DeleteRecord_def Dns_ValidateConfig_def cf_client_cached on_world_def
    split: prod.split sum.split option.split)

section \<open>What Cloudflare promises over HTTP\<close>

text \<open>For the zone with identifier \<open>zid\<close> and the records \<open>rs\<close> of a world: the requests that are accepted have the
  documented effect, and the others none.\<close>

definition accepted_by :: "'w cf_http \<Rightarrow> string \<Rightarrow> string \<Rightarrow> string \<Rightarrow> string \<Rightarrow> 'w \<Rightarrow> cf_envelope \<Rightarrow> 'w \<Rightarrow> bool" where
  "accepted_by api token verb path body w env w' \<longleftrightarrow> (\<exists>operation. request api token operation verb path body w = (Inr env, w'))"

definition http_laws :: "'w cf_http \<Rightarrow> string \<Rightarrow> ('w \<Rightarrow> dns_record list) \<Rightarrow> bool" where
  "http_laws api zid rs \<longleftrightarrow>
     (\<forall>t op path w. rs (snd (request api t op ''GET'' path [] w)) = rs w)
     \<and> (\<forall>t n w env w'. accepted_by api t ''GET'' (list_path zid n ''A'') [] w env w' \<longrightarrow>
          ch_records api (ev_Result env) = Some (filter (\<lambda>r. rec_Name r = n \<and> rec_Type r = ''A'') (rs w)))
     \<and> (\<forall>t i r w env w'. accepted_by api t ''PUT'' (records_path zid @ ''/'' @ i) (ch_marshal api r) w env w' \<longrightarrow>
          rs w' = map (\<lambda>x. if rec_ID x = i then r\<lparr>rec_ID := i\<rparr> else x) (rs w))
     \<and> (\<forall>t r w env w'. accepted_by api t ''POST'' (records_path zid) (ch_marshal api r) w env w' \<longrightarrow>
          (\<exists>i. i \<notin> rec_ID ` set (rs w) \<and> rs w' = rs w @ [r\<lparr>rec_ID := i\<rparr>]))"

lemma ListRecords_law:
  assumes "http_laws api zid rs" and "ListRecords api t zid n ''A'' w = (x, w')"
  shows "rs w' = rs w \<and> (\<forall>y. x = Inr y \<longrightarrow> y = filter (\<lambda>r. rec_Name r = n \<and> rec_Type r = ''A'') (rs w))"
proof -
  note l = assms(1)[unfolded http_laws_def]
  obtain r w1 where r: "request api t ''list records'' ''GET'' (list_path zid n ''A'') [] w = (r, w1)" by (rule that) (rule prod.collapse [symmetric])
  have w: "rs w1 = rs w" using l[THEN conjunct1, rule_format, of t "''list records''" "list_path zid n ''A''" w] r by simp
  show ?thesis
  proof (cases r)
    case (Inl e)
    then show ?thesis using assms(2) r w by (auto simp: ListRecords_def)
  next
    case (Inr env)
    then have "accepted_by api t ''GET'' (list_path zid n ''A'') [] w env w1" using r unfolding accepted_by_def by blast
    then have "ch_records api (ev_Result env) = Some (filter (\<lambda>r. rec_Name r = n \<and> rec_Type r = ''A'') (rs w))"
      using l[THEN conjunct2, THEN conjunct1] by blast
    then show ?thesis using assms(2) r w Inr by (auto simp: ListRecords_def)
  qed
qed

text \<open>What a name resolves to: the content of its first address record.\<close>

definition address_of :: "dns_record list \<Rightarrow> string \<Rightarrow> string option" where
  "address_of rs n = resolves (filter (\<lambda>r. rec_Type r = ''A'') rs) n"

lemma find_address: "address_of rs n = map_option rec_Content (List.find (\<lambda>r. rec_Name r = n \<and> rec_Type r = ''A'') rs)"
  by (induction rs) (auto simp: address_of_def resolves_def)

lemma find_updated:
  assumes "List.find P rs = Some x" and "distinct (map rec_ID rs)" and "P new" and "rec_ID new = rec_ID x"
  shows "List.find P (map (\<lambda>y. if rec_ID y = rec_ID x then new else y) rs) = Some new"
  using assms(1,2)
proof (induction rs)
  case (Cons y rs)
  show ?case
  proof (cases "P y")
    case False
    then have "x \<in> set rs" using Cons.prems(1) by (auto dest: find_Some_in)
    then have "rec_ID y \<noteq> rec_ID x" using Cons.prems(2) by auto
    then show ?thesis using Cons False by simp
  qed (use Cons.prems assms(3) in simp)
qed simp

text \<open>C27: When an upsert succeeds, the name has the address, whether a record existed or not, and the other names'
  records are as before.\<close>

theorem upsert_sets_address:
  assumes laws: "http_laws api zid rs" and d: "distinct (map rec_ID (rs w))" and u: "UpsertARecord api t zid n ip w = (None, w')"
  shows "address_of (rs w') n = Some ip \<and> filter (\<lambda>r. rec_Name r \<noteq> n) (rs w') = filter (\<lambda>r. rec_Name r \<noteq> n) (rs w)"
proof -
  note l = laws[unfolded http_laws_def]
  let ?P = "\<lambda>r. rec_Name r = n \<and> rec_Type r = ''A''" and ?body = "ch_marshal api (a_record n ip)"
  obtain x w1 where x: "ListRecords api t zid n ''A'' w = (x, w1)" by (rule that) (rule prod.collapse [symmetric])
  obtain rows where rows: "x = Inr rows" using u x by (cases x) (auto simp: UpsertARecord_def)
  have w1: "rs w1 = rs w" "rows = filter ?P (rs w)" using ListRecords_law [OF laws x] rows by auto
  show ?thesis
  proof (cases rows)
    case Nil
    then obtain env where "request api t ''create record'' ''POST'' (records_path zid) ?body w1 = (Inr env, w')"
      using u x rows by (auto simp: UpsertARecord_def drop_result_def Let_def split: prod.splits sum.splits)
    then have "accepted_by api t ''POST'' (records_path zid) ?body w1 env w'" unfolding accepted_by_def by blast
    then obtain i where "rs w' = rs w1 @ [(a_record n ip)\<lparr>rec_ID := i\<rparr>]" using l[THEN conjunct2, THEN conjunct2, THEN conjunct2] by blast
    moreover have "List.find ?P (rs w) = None" using w1(2)[unfolded Nil, symmetric] by (auto simp: find_None_iff filter_empty_conv)
    ultimately show ?thesis using w1(1) by (simp add: find_address find_snoc a_record_def)
  next
    case (Cons e rest)
    then have fe: "List.find ?P (rs w) = Some e" using w1(2) by (metis find_hd_filter list.distinct(1) list.sel(1))
    then have e: "e \<in> set (rs w)" "rec_Name e = n" by (auto dest: find_Some_in)
    obtain env where "request api t ''update record'' ''PUT'' (records_path zid @ ''/'' @ rec_ID e) ?body w1 = (Inr env, w')"
      using u x rows Cons by (auto simp: UpsertARecord_def drop_result_def Let_def split: prod.splits sum.splits)
    then have "accepted_by api t ''PUT'' (records_path zid @ ''/'' @ rec_ID e) ?body w1 env w'" unfolding accepted_by_def by blast
    then have "rs w' = map (\<lambda>x. if rec_ID x = rec_ID e then (a_record n ip)\<lparr>rec_ID := rec_ID e\<rparr> else x) (rs w1)"
      using l[THEN conjunct2, THEN conjunct2, THEN conjunct1] by blast
    then show ?thesis
      using find_updated [OF fe d, of "(a_record n ip)\<lparr>rec_ID := rec_ID e\<rparr>"] others_update [OF e(1) d e(2), of "(a_record n ip)\<lparr>rec_ID := rec_ID e\<rparr>"] w1(1)
      by (simp add: find_address a_record_def)
  qed
qed

section \<open>Examples\<close>

text \<open>A zone \<open>z\<close> with one record \<open>h\<close>, which a world of one bit holds before and after it is repointed.\<close>

definition zone_records :: "bool \<Rightarrow> dns_record list" where
  "zone_records w = [(a_record ''h.z'' (if w then ''2.2.2.2'' else ''1.1.1.1''))\<lparr>rec_ID := ''7''\<rparr>]"

definition zone_answer :: "string \<Rightarrow> cf_envelope option" where
  "zone_answer body = (if body = [] then None else Some \<lparr>ev_Success = True, ev_Errors = [], ev_Result = body\<rparr>)"

definition zone_do :: "string \<Rightarrow> string \<Rightarrow> string \<Rightarrow> string \<Rightarrow> bool \<Rightarrow> (int \<times> string option) option \<times> bool" where
  "zone_do token verb path body w =
     (if verb = ''GET'' \<and> path = list_path ''z'' ''h.z'' ''A'' then (Some (200, Some (if w then ''new'' else ''old'')), w)
      else if verb = ''PUT'' \<and> path = records_path ''z'' @ ''/7'' \<and> body = ''point'' then (Some (200, Some ''ok''), True)
      else (Some (404, Some []), w))"

definition zone_api :: "bool cf_http" where
  "zone_api = \<lparr>ch_do = zone_do, ch_envelope = zone_answer, ch_verify = (\<lambda>_. None),
     ch_records = (\<lambda>b. if b = ''new'' then Some (zone_records True) else if b = ''old'' then Some (zone_records False) else None),
     ch_zones = (\<lambda>_. None), ch_marshal = (\<lambda>r. if r = a_record ''h.z'' ''2.2.2.2'' then ''point'' else [])\<rparr>"

lemma zone_laws: "http_laws zone_api ''z'' zone_records"
  unfolding http_laws_def accepted_by_def request_def zone_api_def zone_do_def handleResponse_def zone_answer_def
  by (auto simp: zone_records_def a_record_def list_path_def records_path_def split: if_splits)

lemma zone_upsert: "UpsertARecord zone_api t ''z'' ''h.z'' ''2.2.2.2'' False = (None, True)"
  by (simp add: UpsertARecord_def ListRecords_def request_def zone_api_def zone_do_def handleResponse_def zone_answer_def
    zone_records_def drop_result_def a_record_def)

theorem upsert_sets_address_witness: "address_of (zone_records True) ''h.z'' = Some ''2.2.2.2''"
  using upsert_sets_address [OF zone_laws _ zone_upsert] by (simp add: zone_records_def)

definition cloudflare_config :: root_config where
  "cloudflare_config = zero_config\<lparr>cfg_DNS := (cfg_DNS zero_config)\<lparr>dns_Provider := ''cloudflare'', dns_Zone := ''z''\<rparr>\<rparr>"

theorem changed_token_ignored_witness:
  "Dns_ValidateConfig zone_api (with_token ''new'' (with_token ''old'' cloudflare_config)) \<lparr>dm_cfClient = Some ''old'', dm_world = False\<rparr>
   = Dns_ValidateConfig zone_api (with_token ''old'' cloudflare_config) \<lparr>dm_cfClient = Some ''old'', dm_world = False\<rparr>"
  using changed_token_ignored [of "\<lparr>dm_cfClient = Some ''old'', dm_world = False\<rparr>" "''old''" "''new''" "with_token ''old'' cloudflare_config" zone_api]
  by simp

end
