(* ===== verification/Routes_Expose.thy ===== *)
theory Routes_Expose
  imports Ports_Api Host_Checks
begin

text \<open>
  The endpoint that exposes a local port under a subdomain (\<open>routes/expose.go\<close>) and the adapters that the daemon
  gives it (\<open>daemon/api_wizard.go\<close>). The handler holds no lock over its three accesses to the configuration, so it
  is three steps: check the request, save the port, create the DNS record (and take the port back when
  that fails). The DNS creator is a parameter; the random letters and the identifier are the environment's.
\<close>

section \<open>The handler\<close>

record expose_request =
  er_LocalPort :: int
  er_Subdomain :: string

record expose_route =
  rt_ID :: string
  rt_Subdomain :: string
  rt_LocalPort :: int
  rt_FQDN :: string
  rt_Status :: string
  rt_CreatedAt :: string
  rt_URL :: string

datatype expose_reply = ExposeError int string "string list" | ExposeCreated expose_route

record expose_handler =
  eh_tunnel :: bool
  eh_vpsPublicIP :: string

record expose_env =
  ee_uuid :: string
  ee_now :: string
  ee_picks :: "nat list"
  ee_suggest :: "nat list list"

definition subdomainRe :: "string \<Rightarrow> bool" where
  "subdomainRe s \<longleftrightarrow> s \<noteq> [] \<and> length s \<le> 63 \<and> label_end (hd s) \<and> label_end (last s)
     \<and> list_all (\<lambda>c. label_end c \<or> c = CHR ''-'') s"

definition charset :: string where
  "charset = ''abcdefghijklmnopqrstuvwxyz0123456789''"

definition GenerateSubdomain :: "nat list \<Rightarrow> string \<Rightarrow> string" where
  "GenerateSubdomain picks hint = (if hint \<noteq> [] then hint else ''svc-'' @ map (\<lambda>i. charset ! (i mod length charset)) (take 4 picks))"

definition generateSuggestions :: "nat list list \<Rightarrow> string list" where
  "generateSuggestions picks = map (\<lambda>p. GenerateSubdomain p []) (take 3 picks)"

definition buildFQDN :: "string \<Rightarrow> root_config \<Rightarrow> string \<Rightarrow> string option" where
  "buildFQDN vpsPublicIP cfg subdomain =
     (if vpsPublicIP \<noteq> [] then Some (BuildNipioSubdomain subdomain vpsPublicIP)
      else if dns_Zone (cfg_DNS cfg) \<noteq> [] then Some (subdomain @ ''.'' @ dns_Zone (cfg_DNS cfg))
      else None)"

definition resolveTargetIP :: "string \<Rightarrow> root_config \<Rightarrow> string" where
  "resolveTargetIP vpsPublicIP cfg = (if vpsPublicIP \<noteq> [] then vpsPublicIP else tun_ServerIP (cfg_Tunnel cfg))"

text \<open>What the first step leaves for the others: the new port, its name and the address of its record.\<close>

record exposure =
  ex_port :: exposed_port
  ex_fqdn :: string
  ex_target :: string

definition expose_check :: "expose_handler \<Rightarrow> expose_env \<Rightarrow> expose_request option \<Rightarrow> root_config \<Rightarrow> expose_reply + exposure" where
  "expose_check h e body cfg =
     (case body of
        None \<Rightarrow> Inl (ExposeError 400 ''bad_request'' [])
      | Some req \<Rightarrow>
          if er_LocalPort req < 1 \<or> er_LocalPort req > 65535 then Inl (ExposeError 400 ''bad_request'' [])
          else if \<not> eh_tunnel h then Inl (ExposeError 412 ''tunnel_not_connected'' [])
          else
            let subdomain = (if er_Subdomain req = [] then GenerateSubdomain (ee_picks e) [] else er_Subdomain req) in
            if \<not> subdomainRe subdomain then Inl (ExposeError 400 ''bad_request'' [])
            else if has_host subdomain cfg then Inl (ExposeError 409 ''route_conflict'' (generateSuggestions (ee_suggest e)))
            else case buildFQDN (eh_vpsPublicIP h) cfg subdomain of
                None \<Rightarrow> Inl (ExposeError 400 ''bad_request'' [])
              | Some fqdn \<Rightarrow> Inr \<lparr>ex_port = \<lparr>ep_ID = ee_uuid e, ep_Protocol = ''http'', ep_Internal = er_LocalPort req,
                    ep_HostHeader = subdomain, ep_Status = ''active'', ep_CreatedAt = ee_now e\<rparr>,
                  ex_fqdn = fqdn, ex_target = resolveTargetIP (eh_vpsPublicIP h) cfg\<rparr>)"

definition expose_save :: "io_env \<Rightarrow> exposure \<Rightarrow> manager \<Rightarrow> expose_reply option \<times> manager" where
  "expose_save io x m =
     (case Manager_Update io (append_port (ex_port x)) m of
        (Some _, m1) \<Rightarrow> (Some (ExposeError 500 ''internal_error'' []), m1)
      | (None, m1) \<Rightarrow> (None, m1))"

definition drop_port :: "string \<Rightarrow> root_config \<Rightarrow> root_config" where
  "drop_port routeID c = c\<lparr>cfg_ExposedPorts := remove_first (\<lambda>ep. ep_ID ep = routeID) (cfg_ExposedPorts c)\<rparr>"

definition route_of :: "exposure \<Rightarrow> expose_route" where
  "route_of x = (let p = ex_port x in \<lparr>rt_ID = ep_ID p, rt_Subdomain = ep_HostHeader p, rt_LocalPort = ep_Internal p,
     rt_FQDN = ex_fqdn x, rt_Status = ''active'', rt_CreatedAt = ep_CreatedAt p, rt_URL = ''https://'' @ ex_fqdn x\<rparr>)"

text \<open>The DNS creator: subdomain and address, then the world; it tells whether it succeeded.\<close>

type_synonym 'w dns_creator = "string \<Rightarrow> string \<Rightarrow> 'w \<Rightarrow> bool \<times> 'w"

definition expose_publish :: "'w dns_creator \<Rightarrow> io_env \<Rightarrow> exposure \<Rightarrow> manager \<times> 'w \<Rightarrow> expose_reply \<times> manager \<times> 'w" where
  "expose_publish dns io x mw =
     (case mw of (m, w) \<Rightarrow>
        (case dns (ep_HostHeader (ex_port x)) (ex_target x) w of
           (True, w1) \<Rightarrow> (ExposeCreated (route_of x), m, w1)
         | (False, w1) \<Rightarrow> (ExposeError 500 ''internal_error'' [], snd (Manager_Update io (drop_port (ep_ID (ex_port x))) m), w1)))"

definition HandleExpose :: "'w dns_creator \<Rightarrow> expose_handler \<Rightarrow> expose_env \<Rightarrow> io_env \<Rightarrow> io_env \<Rightarrow> expose_request option
    \<Rightarrow> manager \<times> 'w \<Rightarrow> expose_reply \<times> manager \<times> 'w" where
  "HandleExpose dns h e io io2 body mw =
     (case mw of (m, w) \<Rightarrow>
        (case expose_check h e body (live m) of
           Inl r \<Rightarrow> (r, m, w)
         | Inr x \<Rightarrow>
             (case expose_save io x m of
                (Some r, m1) \<Rightarrow> (r, m1, w)
              | (None, m1) \<Rightarrow> expose_publish dns io2 x (m1, w))))"

section \<open>The daemon's adapters\<close>

definition dnsAdapter_UpsertRecord :: "'w dns_creator" where
  "dnsAdapter_UpsertRecord subdomain ip w = (True, w)"

definition tunnelAdapter_IsConnected :: "bool option \<Rightarrow> bool" where
  "tunnelAdapter_IsConnected mgr = (case mgr of None \<Rightarrow> False | Some up \<Rightarrow> up)"

definition resolveVPSPublicIP :: "resolver \<Rightarrow> string \<Rightarrow> string" where
  "resolveVPSPublicIP res host = (case LookupHost res host of Inl _ \<Rightarrow> [] | Inr [] \<Rightarrow> [] | Inr (a # _) \<Rightarrow> a)"

text \<open>The handler as the daemon registers it: the tunnel manager may be absent, and then no address is looked up.\<close>

definition routesHandler :: "resolver \<Rightarrow> bool option \<Rightarrow> root_config \<Rightarrow> expose_handler" where
  "routesHandler res mgr cfg = \<lparr>eh_tunnel = tunnelAdapter_IsConnected mgr,
     eh_vpsPublicIP = (if mgr \<noteq> None \<and> vps_Host (cfg_VPS cfg) \<noteq> [] then resolveVPSPublicIP res (vps_Host (cfg_VPS cfg)) else [])\<rparr>"

section \<open>Every outcome\<close>

lemma subdomainRe_label: "subdomainRe s \<Longrightarrow> subdomainLabelRe s"
  by (simp add: subdomainRe_def subdomainLabelRe_def)

lemma subdomainRe_no_dot: "subdomainRe s \<Longrightarrow> CHR ''.'' \<notin> set s"
  by (auto simp: subdomainRe_def list_all_iff label_end_def is_digit_def)

lemma split_no_sep: "c \<notin> set s \<Longrightarrow> split_on c s = [s]"
  by (induction s) auto

lemma expose_check_Inr:
  assumes "expose_check h e body cfg = Inr x"
  shows "port_ok (ex_port x) \<and> \<not> has_host (ep_HostHeader (ex_port x)) cfg \<and> ep_ID (ex_port x) = ee_uuid e \<and> eh_tunnel h
    \<and> ex_target x = resolveTargetIP (eh_vpsPublicIP h) cfg \<and> buildFQDN (eh_vpsPublicIP h) cfg (ep_HostHeader (ex_port x)) = Some (ex_fqdn x)"
proof -
  have "port_ok \<lparr>ep_ID = i, ep_Protocol = ''http'', ep_Internal = p, ep_HostHeader = s, ep_Status = ''active'', ep_CreatedAt = t\<rparr>"
    if "subdomainRe s" "\<not> (p < 1 \<or> p > 65535)" for i p s t
    using that subdomainRe_label split_no_sep [OF subdomainRe_no_dot [OF that(1)]] by (auto simp: port_ok_def subdomainRe_def)
  then show ?thesis using assms by (auto simp: expose_check_def Let_def split: option.splits if_splits)
qed

text \<open>A port reported as created is the last one of the configuration and of the file, and its record was requested
  with the address the handler resolves.\<close>

theorem exposed_port_is_stored:
  assumes "manager_ok m" and "HandleExpose dns h e io io2 body (m, w) = (ExposeCreated r, m', w')"
  shows "eh_tunnel h \<and> \<not> has_host (rt_Subdomain r) (live m)
    \<and> dns (rt_Subdomain r) (resolveTargetIP (eh_vpsPublicIP h) (live m)) w = (True, w')
    \<and> (\<exists>p. cfg_ExposedPorts (live m') = cfg_ExposedPorts (live m) @ [p] \<and> ep_ID p = rt_ID r \<and> ep_HostHeader p = rt_Subdomain r
         \<and> ep_Internal p = rt_LocalPort r \<and> port_ok p)
    \<and> target (mgr_disk m') = Holds (live m')"
proof -
  obtain x where x: "expose_check h e body (live m) = Inr x"
    using assms(2) by (cases "expose_check h e body (live m)") (auto simp: HandleExpose_def expose_check_def Let_def split: option.splits if_splits)
  note xx = expose_check_Inr [OF x]
  obtain err m1 where u: "Manager_Update io (append_port (ex_port x)) m = (err, m1)" by (rule that) (rule prod.collapse [symmetric])
  have err: "err = None" using assms(2) x u by (cases err) (auto simp: HandleExpose_def expose_save_def)
  then have d: "dns (ep_HostHeader (ex_port x)) (ex_target x) w = (True, w')" "r = route_of x" "m' = m1"
    using assms(2) x u by (auto simp: HandleExpose_def expose_save_def expose_publish_def split: prod.splits bool.splits)
  have "live m1 = append_port (ex_port x) (live m) \<and> target (mgr_disk m1) = Holds (live m1)"
    using Manager_Update_step [OF assms(1) u] err by (auto simp: update_outcome_def)
  then show ?thesis using xx d by (auto simp: append_port_def route_of_def Let_def)
qed

lemma remove_first_snoc: "\<forall>y \<in> set xs. \<not> P y \<Longrightarrow> P x \<Longrightarrow> remove_first P (xs @ [x]) = xs"
  by (induction xs) auto

text \<open>When the DNS record cannot be created the port is taken back: the configuration and the file are what they
  were, provided that the second save works. When it does not, the port of the failed request stays.\<close>

theorem failed_record_rolls_back:
  assumes "manager_ok m" and "expose_check h e body (live m) = Inr x" and "expose_save io x m = (None, m1)"
    and "dns (ep_HostHeader (ex_port x)) (ex_target x) w = (False, w')" and "\<forall>p \<in> set (cfg_ExposedPorts (live m)). ep_ID p \<noteq> ee_uuid e"
    and "Manager_Update io2 (drop_port (ee_uuid e)) m1 = (err, m2)"
  shows "HandleExpose dns h e io io2 body (m, w) = (ExposeError 500 ''internal_error'' [], m2, w')
    \<and> live m2 = (if err = None then live m else append_port (ex_port x) (live m)) \<and> target (mgr_disk m2) = Holds (live m2)"
proof -
  note xx = expose_check_Inr [OF assms(2)]
  have u: "Manager_Update io (append_port (ex_port x)) m = (None, m1)"
    using assms(3) by (auto simp: expose_save_def split: prod.splits option.splits)
  have l1: "live m1 = append_port (ex_port x) (live m)" "target (mgr_disk m1) = Holds (live m1)" "manager_ok m1"
    using Manager_Update_step [OF assms(1) u] by (auto simp: update_outcome_def)
  have "live m2 = (if err = None then drop_port (ee_uuid e) (live m1) else live m1) \<and> target (mgr_disk m2) = Holds (live m2)"
    using Manager_Update_step [OF l1(3) assms(6)] l1(2) by (auto simp: update_outcome_def split: option.splits)
  moreover have "drop_port (ee_uuid e) (live m1) = live m"
    using l1(1) xx remove_first_snoc [OF assms(5), of "ex_port x"] by (simp add: append_port_def drop_port_def)
  ultimately show ?thesis using assms l1(1) xx by (simp add: HandleExpose_def expose_publish_def)
qed

text \<open>Two requests for one subdomain that both pass the check before either is saved are both answered as created;
  the second has an identifier that no port has.\<close>

theorem simultaneous_exposures:
  assumes "manager_ok m" and "expose_check h e1 b1 (live m) = Inr x1" and "expose_check h e2 b2 (live m) = Inr x2"
    and "ep_HostHeader (ex_port x1) = ep_HostHeader (ex_port x2)" and "\<forall>p \<in> set (cfg_ExposedPorts (live m)). ep_ID p \<noteq> ee_uuid e2"
    and "ee_uuid e1 \<noteq> ee_uuid e2" and "expose_save io1 x1 m = (None, m1)" and "expose_save io2 x2 m1 = (r2, m2)"
    and "dns (ep_HostHeader (ex_port x2)) (ex_target x2) w = (True, w')"
  shows "live m2 = live m1 \<and> (r2 = None \<longrightarrow> fst (expose_publish dns io3 x2 (m2, w)) = ExposeCreated (route_of x2))
    \<and> rt_ID (route_of x2) \<notin> ep_ID ` set (cfg_ExposedPorts (live m2))"
proof -
  note x1 = expose_check_Inr [OF assms(2)] and x2 = expose_check_Inr [OF assms(3)]
  have u: "Manager_Update io1 (append_port (ex_port x1)) m = (None, m1)"
    using assms(7) by (auto simp: expose_save_def split: prod.splits option.splits)
  have l1: "live m1 = append_port (ex_port x1) (live m)" "manager_ok m1"
    using Manager_Update_step [OF assms(1) u] by (auto simp: update_outcome_def)
  obtain err where u2: "Manager_Update io2 (append_port (ex_port x2)) m1 = (err, m2)"
    using assms(8) by (auto simp: expose_save_def split: prod.splits option.splits)
  have "append_port (ex_port x2) (live m1) = live m1" using l1(1) x1 assms(4) by (auto simp: append_port_def has_host_def)
  then have l2: "live m2 = live m1" using Manager_Update_step [OF l1(2) u2] by (auto simp: update_outcome_def split: option.splits)
  then show ?thesis using l1 x1 x2 assms(5,6,9) by (auto simp: expose_publish_def route_of_def append_port_def Let_def)
qed

section \<open>Writers of ports\<close>

text \<open>The contract of a writer of the configuration that checks what it stores: each of its operations keeps the
  stored ports well formed.\<close>

definition stored_ok :: "manager \<Rightarrow> bool" where
  "stored_ok m \<longleftrightarrow> manager_ok m \<and> ports_wf (cfg_ExposedPorts (live m))"

locale port_writer =
  fixes handle :: "'q \<Rightarrow> 's \<Rightarrow> 's" and mgr :: "'s \<Rightarrow> manager"
  assumes keeps: "stored_ok (mgr s) \<Longrightarrow> stored_ok (mgr (handle q s))"
begin

lemma run_keeps: "stored_ok (mgr s) \<Longrightarrow> stored_ok (mgr (fold handle qs s))"
  by (induction qs arbitrary: s) (simp_all add: keeps)

lemma never_two_ports: "stored_ok (mgr s) \<Longrightarrow> distinct (map ep_HostHeader (cfg_ExposedPorts (live (mgr (fold handle qs s)))))"
  using run_keeps [of s qs] by (simp add: stored_ok_def ports_wf_def)

end

interpretation ports: port_writer "\<lambda>q s. snd (port_handle net q s)" ps_mgr for net
  by unfold_locales (metis create_keeps_ports port_handle.simps port_request.exhaust ports_ok_def remove_keeps_ports stored_ok_def)

lemma ports_wf_remove_first: "ports_wf eps \<Longrightarrow> ports_wf (remove_first P eps)"
  by (induction eps) (use set_remove_first in \<open>fastforce simp: ports_wf_def\<close>)+

lemma update_stored: "stored_ok m \<Longrightarrow> ports_wf (cfg_ExposedPorts (fn (live m))) \<Longrightarrow> stored_ok (snd (Manager_Update io fn m))"
  using update_keeps_ports [of m fn io] unfolding stored_ok_def by (metis prod.collapse)

text \<open>An exposure as a whole is another such writer.\<close>

datatype 'w expose_call = ExposeCall "'w dns_creator" expose_handler expose_env io_env io_env "expose_request option"

fun expose_step :: "'w expose_call \<Rightarrow> manager \<times> 'w \<Rightarrow> manager \<times> 'w" where
  "expose_step (ExposeCall dns h e io io2 body) mw = snd (HandleExpose dns h e io io2 body mw)"

lemma expose_stored:
  assumes "stored_ok m"
  shows "stored_ok (fst (expose_step q (m, w)))"
proof (cases q)
  case (ExposeCall dns h e io io2 body)
  have "stored_ok (snd (expose_save io x m))" if "port_ok (ex_port x)" for x
    using update_stored [of m "append_port (ex_port x)" io] append_port_wf [of "live m" "ex_port x"] assms that
    by (auto simp: expose_save_def stored_ok_def split: prod.splits option.splits)
  moreover have "stored_ok (fst (snd (expose_publish dns io2 x (m', w))))" if "stored_ok m'" for x m'
    using update_stored [of m' "drop_port (ep_ID (ex_port x))" io2] that
    by (auto simp: expose_publish_def drop_port_def stored_ok_def ports_wf_remove_first split: prod.splits bool.splits)
  ultimately show ?thesis
    using assms expose_check_Inr [of h e body "live m"] unfolding ExposeCall
    by (auto simp: HandleExpose_def split: sum.splits prod.splits option.splits) (metis snd_conv)+
qed

interpretation exposures: port_writer expose_step fst
  by unfold_locales (metis expose_stored prod.collapse)

section \<open>Examples\<close>

definition expose_request_3000 :: expose_request where
  "expose_request_3000 = \<lparr>er_LocalPort = 3000, er_Subdomain = ''api''\<rparr>"

definition up_handler :: expose_handler where
  "up_handler = \<lparr>eh_tunnel = True, eh_vpsPublicIP = ''203.0.113.7''\<rparr>"

definition env_of :: "string \<Rightarrow> expose_env" where
  "env_of i = \<lparr>ee_uuid = i, ee_now = ''t1'', ee_picks = [0, 1, 2, 3], ee_suggest = []\<rparr>"

definition api_exposure :: "string \<Rightarrow> exposure" where
  "api_exposure i = \<lparr>ex_port = \<lparr>ep_ID = i, ep_Protocol = ''http'', ep_Internal = 3000, ep_HostHeader = ''api'', ep_Status = ''active'', ep_CreatedAt = ''t1''\<rparr>,
     ex_fqdn = ''api.203-0-113-7.nip.io'', ex_target = ''203.0.113.7''\<rparr>"

definition web_manager :: manager where
  "web_manager = ps_mgr web_state"

lemma web_manager_live [simp]: "live web_manager = web_config" "manager_ok web_manager"
  using web_live web_ok by (simp_all add: web_manager_def ports_ok_def)

lemma web_checked: "expose_check up_handler (env_of i) (Some expose_request_3000) web_config = Inr (api_exposure i)"
proof -
  have "subdomainRe ''api''" by code_simp
  moreover have "BuildNipioSubdomain ''api'' ''203.0.113.7'' = ''api.203-0-113-7.nip.io''" by code_simp
  ultimately show ?thesis
    by (simp add: expose_check_def expose_request_3000_def up_handler_def env_of_def api_exposure_def has_host_def web_config_def zero_config_def web_port_def
      buildFQDN_def resolveTargetIP_def)
qed

lemma env_of_uuid [simp]: "ee_uuid (env_of i) = i"
  by (simp add: env_of_def)

lemma web_ids [simp]: "cfg_ExposedPorts web_config = [web_port]" "ep_ID web_port = ''p1''"
  by (simp_all add: web_config_def zero_config_def web_port_def)

lemma expose_save_ok: "expose_save io_all_ok x m = (None, snd (expose_save io_all_ok x m))"
  using save_ok [of "append_port (ex_port x)" m] by (auto simp: expose_save_def split: prod.splits option.splits)

lemma web_created_exposure:
  "HandleExpose dnsAdapter_UpsertRecord up_handler (env_of ''p9'') io_all_ok io_all_ok (Some expose_request_3000) (web_manager, w)
   = (ExposeCreated (route_of (api_exposure ''p9'')), snd (expose_save io_all_ok (api_exposure ''p9'') web_manager), w)"
proof -
  obtain m where m: "expose_save io_all_ok (api_exposure ''p9'') web_manager = (None, m)" using expose_save_ok by blast
  show ?thesis by (simp add: HandleExpose_def web_checked m expose_publish_def dnsAdapter_UpsertRecord_def)
qed

theorem exposed_port_is_stored_witness:
  "\<exists>m'. \<exists>p. HandleExpose dnsAdapter_UpsertRecord up_handler (env_of ''p9'') io_all_ok io_all_ok (Some expose_request_3000) (web_manager, ()) =
     (ExposeCreated (route_of (api_exposure ''p9'')), m', ()) \<and> cfg_ExposedPorts (live m') = [web_port, p] \<and> ep_ID p = ''p9''"
proof -
  have "rt_ID (route_of (api_exposure ''p9'')) = ''p9''" by (simp add: route_of_def api_exposure_def)
  then show ?thesis using exposed_port_is_stored [OF web_manager_live(2) web_created_exposure [of "()"]] web_created_exposure [of "()"] by auto
qed

theorem failed_record_rolls_back_witness:
  "\<exists>m2. HandleExpose (\<lambda>_ _ w. (False, w)) up_handler (env_of ''p9'') io_all_ok io_all_ok (Some expose_request_3000) (web_manager, ()) =
     (ExposeError 500 ''internal_error'' [], m2, ()) \<and> live m2 = web_config"
proof -
  obtain m1 where m1: "expose_save io_all_ok (api_exposure ''p9'') web_manager = (None, m1)" using expose_save_ok by blast
  obtain m2 where m2: "Manager_Update io_all_ok (drop_port (ee_uuid (env_of ''p9''))) m1 = (None, m2)" using save_ok by (metis prod.collapse)
  show ?thesis
    using failed_record_rolls_back [OF web_manager_live(2) _ m1, where h = up_handler and e = "env_of ''p9''" and body = "Some expose_request_3000"
        and dns = "\<lambda>_ _ w. (False, w)" and w = "()" and w' = "()" and ?io2.0 = io_all_ok and err = None and ?m2.0 = m2] m2
    by (auto simp: web_checked)
qed

theorem simultaneous_exposures_witness:
  "\<exists>m1 m2. expose_save io_all_ok (api_exposure ''p8'') web_manager = (None, m1) \<and> expose_save io_all_ok (api_exposure ''p9'') m1 = (None, m2)
     \<and> live m2 = live m1 \<and> fst (expose_publish dnsAdapter_UpsertRecord io_all_ok (api_exposure ''p9'') (m2, ())) = ExposeCreated (route_of (api_exposure ''p9''))"
proof -
  obtain m1 where m1: "expose_save io_all_ok (api_exposure ''p8'') web_manager = (None, m1)" using expose_save_ok by blast
  obtain m2 where m2: "expose_save io_all_ok (api_exposure ''p9'') m1 = (None, m2)" using expose_save_ok by blast
  show ?thesis
    using simultaneous_exposures [OF web_manager_live(2) _ _ _ _ _ m1 m2, where h = up_handler and ?e1.0 = "env_of ''p8''" and ?e2.0 = "env_of ''p9''"
      and ?b1.0 = "Some expose_request_3000" and ?b2.0 = "Some expose_request_3000" and dns = dnsAdapter_UpsertRecord and w = "()" and w' = "()" and ?io3.0 = io_all_ok] m1 m2
    by (auto simp: web_checked dnsAdapter_UpsertRecord_def api_exposure_def)
qed

end
