(* ===== verification/Caddy_Mtls.thy ===== *)
theory Caddy_Mtls
  imports Caddy_Client Base64_Codec Tunnel_Server "HOL-Library.Finite_Map"
begin

text \<open>
  Client certificates for the Caddy admin interface (\<open>proxy/caddy_mtls.go\<close>): the certificate's PEM form, the
  key that is put into Caddy's stored configuration over SSH, and the switch between the two HTTP clients.
  The cryptography and the JSON codec are parameters; a JSON object is a finite map, as Go decodes it.
\<close>

section \<open>JSON values\<close>

datatype json = JNull | JBool bool | JNum string | JStr string | JArr "json list" | JObj "(string, json) fmap"

text \<open>The two type assertions of the code: an object, and a list, of a value that may be absent.\<close>

definition as_obj :: "json option \<Rightarrow> (string, json) fmap option" where
  "as_obj v = (case v of Some (JObj m) \<Rightarrow> Some m | _ \<Rightarrow> None)"

definition as_list :: "json option \<Rightarrow> json list option" where
  "as_list v = (case v of Some (JArr l) \<Rightarrow> Some l | _ \<Rightarrow> None)"

definition or_empty :: "(string, json) fmap option \<Rightarrow> (string, json) fmap" where
  "or_empty m = (case m of Some x \<Rightarrow> x | None \<Rightarrow> fmempty)"

definition or_nil :: "json list option \<Rightarrow> json list" where
  "or_nil l = (case l of Some x \<Rightarrow> x | None \<Rightarrow> [])"

definition admin_of :: "(string, json) fmap \<Rightarrow> (string, json) fmap" where
  "admin_of c = or_empty (as_obj (fmlookup c ''admin''))"

definition remote_of :: "(string, json) fmap \<Rightarrow> (string, json) fmap" where
  "remote_of c = or_empty (as_obj (fmlookup (admin_of c) ''remote''))"

definition access_of :: "(string, json) fmap \<Rightarrow> json list" where
  "access_of c = or_nil (as_list (fmlookup (remote_of c) ''access_control''))"

definition entry_keys :: "json \<Rightarrow> json list" where
  "entry_keys e = (case as_obj (Some e) of None \<Rightarrow> [] | Some m \<Rightarrow> or_nil (as_list (fmlookup m ''public_keys'')))"

definition key_registered :: "(string, json) fmap \<Rightarrow> string \<Rightarrow> bool" where
  "key_registered c key \<longleftrightarrow> (\<exists>e \<in> set (access_of c). JStr key \<in> set (entry_keys e))"

section \<open>Registering a key\<close>

definition new_access_entry :: "string \<Rightarrow> json" where
  "new_access_entry key = JObj (fmap_of_list [(''public_keys'', JArr [JStr key]),
     (''permissions'', JArr [JObj (fmap_of_list [(''paths'', JArr [JStr ''/config/*'']),
        (''methods'', JArr [JStr ''GET'', JStr ''POST'', JStr ''DELETE'', JStr ''PATCH'', JStr ''PUT''])])])])"

definition inject_access :: "string \<Rightarrow> json list \<Rightarrow> json list" where
  "inject_access key acList =
     (case acList of
        [] \<Rightarrow> [new_access_entry key]
      | JObj m # rest \<Rightarrow> JObj (fmupd ''public_keys'' (JArr (or_nil (as_list (fmlookup m ''public_keys'')) @ [JStr key])) m) # rest
      | _ \<Rightarrow> acList)"

text \<open>The maps on the path are created when they are missing or of another type, also when the key is found.\<close>

definition injectMTLSPublicKey :: "string \<Rightarrow> (string, json) fmap \<Rightarrow> (string, json) fmap" where
  "injectMTLSPublicKey pubKeyB64 c =
     (let remote = (if key_registered c pubKeyB64 then remote_of c
                    else fmupd ''access_control'' (JArr (inject_access pubKeyB64 (access_of c))) (remote_of c))
      in fmupd ''admin'' (JObj (fmupd ''remote'' (JObj remote) (admin_of c))) c)"

definition is_https :: "json \<Rightarrow> bool" where
  "is_https v = (case v of JStr s \<Rightarrow> has_prefix s ''https://'' | _ \<Rightarrow> False)"

definition hasTLSListener :: "(string, json) fmap \<Rightarrow> bool" where
  "hasTLSListener c =
     (case as_obj (fmlookup c ''admin'') of
        None \<Rightarrow> False
      | Some admin \<Rightarrow> (case fmlookup admin ''listen'' of
            Some (JStr s) \<Rightarrow> has_prefix s ''https://'' | Some (JArr l) \<Rightarrow> list_ex is_https l | _ \<Rightarrow> False))"

definition first_is_object :: "json list \<Rightarrow> bool" where
  "first_is_object l \<longleftrightarrow> (case l of [] \<Rightarrow> True | e # _ \<Rightarrow> as_obj (Some e) \<noteq> None)"

lemma as_simps [simp]: "as_obj (Some (JObj m)) = Some m" "as_list (Some (JArr l)) = Some l" "or_empty (Some m) = m" "or_nil (Some l) = l"
  "or_nil None = []" "as_obj (Some e) = Some m \<longleftrightarrow> e = JObj m"
  by (auto simp: as_obj_def as_list_def or_empty_def or_nil_def split: json.split)

lemma injected_remote: "remote_of (injectMTLSPublicKey key c) = (if key_registered c key then remote_of c
    else fmupd ''access_control'' (JArr (inject_access key (access_of c))) (remote_of c))"
  by (simp add: injectMTLSPublicKey_def remote_of_def [of "fmupd _ _ _"] admin_of_def [of "fmupd _ _ _"] Let_def)

lemma injected_access: "access_of (injectMTLSPublicKey key c) = (if key_registered c key then access_of c else inject_access key (access_of c))"
  by (simp add: access_of_def [of "injectMTLSPublicKey key c"] injected_remote) (simp add: access_of_def)

lemma entry_keys_simps [simp]: "entry_keys (JObj m) = or_nil (as_list (fmlookup m ''public_keys''))"
  by (simp add: entry_keys_def)

lemma keys_new_entry [simp]: "entry_keys (new_access_entry key) = [JStr key]"
  by (simp add: new_access_entry_def)

lemma inject_access_keys:
  "(\<exists>e \<in> set (inject_access key l). JStr k \<in> set (entry_keys e))
     \<longleftrightarrow> (\<exists>e \<in> set l. JStr k \<in> set (entry_keys e)) \<or> k = key \<and> first_is_object l"
proof (cases l)
  case (Cons e rest)
  then show ?thesis by (cases e) (auto simp: inject_access_def first_is_object_def as_obj_def)
qed (simp add: inject_access_def first_is_object_def)

lemma inject_keys:
  "key_registered (injectMTLSPublicKey key c) k \<longleftrightarrow> key_registered c k \<or> k = key \<and> first_is_object (access_of c)"
  unfolding key_registered_def [of "injectMTLSPublicKey key c"] injected_access
  using inject_access_keys [of key "access_of c" k] by (auto simp: key_registered_def)

text \<open>C29: Registering a key adds exactly that key and keeps every other one, unless the first entry of the list
  is not an object: then the key is not registered, and no error is reported.\<close>

theorem inject_registers_exactly:
  "key_registered (injectMTLSPublicKey key c) k \<longleftrightarrow> key_registered c k \<or> k = key \<and> first_is_object (access_of c)"
  by (rule inject_keys)

lemma inject_path: "admin_of (injectMTLSPublicKey key c) = fmupd ''remote'' (JObj (remote_of (injectMTLSPublicKey key c))) (admin_of c)"
  by (simp add: injected_remote) (simp add: injectMTLSPublicKey_def admin_of_def [of "fmupd _ _ _"] Let_def)

lemma fmupd_same: "fmlookup m k = Some v \<Longrightarrow> fmupd k v m = m"
  by (rule fmap_ext) auto

lemma inject_outside: "k \<noteq> ''admin'' \<Longrightarrow> fmlookup (injectMTLSPublicKey key c) k = fmlookup c k"
  by (simp add: injectMTLSPublicKey_def Let_def)

text \<open>Registering is idempotent, and it changes nothing else: not the listener of the interface, although
  the code speaks of flipping it for the first peer.\<close>

theorem inject_idempotent:
  "injectMTLSPublicKey key (injectMTLSPublicKey key c) = injectMTLSPublicKey key c
   \<and> hasTLSListener (injectMTLSPublicKey key c) = hasTLSListener c"
proof
  let ?d = "injectMTLSPublicKey key c"
  have a: "fmlookup ?d ''admin'' = Some (JObj (fmupd ''remote'' (JObj (remote_of ?d)) (admin_of c)))"
    by (simp add: injected_remote) (simp add: injectMTLSPublicKey_def Let_def)
  have r: "remote_of (injectMTLSPublicKey key ?d) = remote_of ?d"
  proof (cases "key_registered ?d key")
    case False
    then have "\<not> key_registered c key" "\<not> first_is_object (access_of c)" using inject_keys [of key c key] by auto
    then have "inject_access key (access_of ?d) = access_of ?d" "fmlookup (remote_of ?d) ''access_control'' = Some (JArr (access_of ?d))"
      by (auto simp: injected_access injected_remote inject_access_def first_is_object_def split: list.split json.split)
    then show ?thesis using False by (simp add: injected_remote [of key ?d] fmupd_same)
  qed (simp add: injected_remote [of key ?d])
  have "injectMTLSPublicKey key ?d = fmupd ''admin'' (JObj (fmupd ''remote'' (JObj (remote_of ?d)) (admin_of ?d))) ?d"
    using r by (simp add: injected_remote [of key ?d]) (simp add: injectMTLSPublicKey_def [of key ?d] Let_def)
  also have "\<dots> = ?d" using a inject_path [of key c] by (simp add: fmupd_same)
  finally show "injectMTLSPublicKey key ?d = ?d" .
  show "hasTLSListener ?d = hasTLSListener c"
    using a by (cases "as_obj (fmlookup c ''admin'')") (simp_all add: hasTLSListener_def admin_of_def or_empty_def)
qed

section \<open>PEM\<close>

definition cert_begin :: string where
  "cert_begin = ''-----BEGIN CERTIFICATE-----''"

definition cert_end :: string where
  "cert_end = ''-----END CERTIFICATE-----''"

text \<open>\<open>pem.EncodeToMemory\<close>: the Base64 text in lines of 64 columns.\<close>

function pem_lines :: "string \<Rightarrow> string" where
  "pem_lines s = (if s = [] then [] else take 64 s @ [newline] @ pem_lines (drop 64 s))"
  by pat_completeness auto
termination by (relation "measure length") auto

declare pem_lines.simps [simp del]

definition pem_encode :: "string \<Rightarrow> string \<Rightarrow> string" where
  "pem_encode kind der = ''-----BEGIN '' @ kind @ ''-----'' @ [newline] @ pem_lines (std_encode der) @ ''-----END '' @ kind @ ''-----'' @ [newline]"

definition encodeCertPEM :: "string \<Rightarrow> string option \<Rightarrow> (string \<times> string) option" where
  "encodeCertPEM certDER keyDER = map_option (\<lambda>k. (pem_encode ''CERTIFICATE'' certDER, pem_encode ''EC PRIVATE KEY'' k)) keyDER"

fun str_index :: "string \<Rightarrow> string \<Rightarrow> nat option" where
  "str_index [] sub = (if sub = [] then Some 0 else None)"
| "str_index (c # cs) sub = (if has_prefix (c # cs) sub then Some 0 else map_option Suc (str_index cs sub))"

datatype pem_error = PemNoBlock | PemPanic | PemBase64

text \<open>The slice between the markers panics when the end marker comes first.\<close>

definition pemDecode :: "string \<Rightarrow> pem_error + string" where
  "pemDecode pemStr =
     (case (str_index pemStr cert_begin, str_index pemStr cert_end) of
        (Some i, Some j) \<Rightarrow>
          if i + length cert_begin > j then Inl PemPanic
          else (let b64 = trim_space (take (j - (i + length cert_begin)) (drop (i + length cert_begin) pemStr)) in
            case std_decode (filter (\<lambda>c. byte c \<notin> {10, 13, 32}) b64) of None \<Rightarrow> Inl PemBase64 | Some der \<Rightarrow> Inr der)
      | _ \<Rightarrow> Inl PemNoBlock)"

lemma filter_dropWhile: "\<forall>x \<in> set s. Q x \<longrightarrow> \<not> P x \<Longrightarrow> filter P (dropWhile Q s) = filter P s"
  by (induction s) auto

lemma filter_trim: "\<forall>c \<in> set s. is_space c \<longrightarrow> \<not> P c \<Longrightarrow> filter P (trim_space s) = filter P s"
proof -
  assume a: "\<forall>c \<in> set s. is_space c \<longrightarrow> \<not> P c"
  have b: "\<forall>x \<in> set (rev (dropWhile is_space s)). is_space x \<longrightarrow> \<not> P x" using a by (auto dest: set_dropWhileD)
  have "filter P (trim_space s) = rev (filter P (dropWhile is_space (rev (dropWhile is_space s))))"
    by (simp add: trim_space_def rev_filter)
  also have "\<dots> = filter P (dropWhile is_space s)" by (simp add: filter_dropWhile [OF b] rev_filter)
  also have "\<dots> = filter P s" by (rule filter_dropWhile [OF a])
  finally show ?thesis .
qed

lemma std_encode_chars: "c \<in> set (std_encode s) \<Longrightarrow> \<not> is_space c \<and> c \<noteq> CHR ''-'' \<and> c \<noteq> newline"
proof -
  have "list_all (\<lambda>c. \<not> is_space c \<and> c \<noteq> CHR ''-'' \<and> c \<noteq> newline) (CHR ''='' # std_alphabet)"
    by (simp add: std_alphabet_def is_space_def newline_def)
  moreover have "set (std_encode s) \<subseteq> set (CHR ''='' # std_alphabet)"
  proof -
    have "b64_char std_alphabet d \<in> set std_alphabet" if "d < 64" for d
      using that unfolding b64_char_def by (intro nth_mem) (simp add: std_alphabet_def)
    then show ?thesis using b64_digits_less by (auto simp: std_encode_def std_padding_def)
  qed
  ultimately show "c \<in> set (std_encode s) \<Longrightarrow> ?thesis" unfolding list_all_iff by blast
qed

lemma pem_lines_set: "set (pem_lines s) \<subseteq> insert newline (set s)"
proof (induction s rule: pem_lines.induct)
  case (1 s)
  then show ?case by (subst pem_lines.simps) (auto dest: in_set_takeD in_set_dropD)
qed

lemma pem_lines_filter: "\<not> P newline \<Longrightarrow> filter P (pem_lines s) = filter P s"
proof (induction s rule: pem_lines.induct)
  case (1 s)
  then show ?case
    using filter_append [of P "take 64 s" "drop 64 s"] by (subst pem_lines.simps) (auto simp del: filter_append simp: filter_append [of _ "take 64 s"])
qed

lemma has_prefix_hd: "has_prefix (c # cs) sub \<Longrightarrow> sub \<noteq> [] \<Longrightarrow> hd sub = c"
  by (cases sub) (auto simp: has_prefix_def)

lemma str_index_skip: "\<forall>c \<in> set xs. c \<noteq> hd sub \<Longrightarrow> sub \<noteq> [] \<Longrightarrow> str_index (xs @ ys) sub = map_option (\<lambda>n. length xs + n) (str_index ys sub)"
proof (induction xs)
  case (Cons c cs)
  then have "\<not> has_prefix (c # cs @ ys) sub" using has_prefix_hd by fastforce
  then show ?case using Cons by (simp add: option.map_comp comp_def)
qed (cases "str_index ys sub"; simp)

lemma index_begin: "str_index (cert_begin @ ys) cert_begin = Some 0"
  by (simp add: cert_begin_def has_prefix_def)

lemma index_end_after_begin: "str_index (cert_begin @ newline # ys) cert_end = map_option (\<lambda>n. 27 + n) (str_index (newline # ys) cert_end)"
  by (simp add: cert_begin_def cert_end_def has_prefix_def newline_def option.map_comp comp_def) (rule option.map_cong; simp)

lemma index_end: "str_index (cert_end @ ys) cert_end = Some 0"
  by (simp add: cert_end_def has_prefix_def)

lemma pem_decoded: "pemDecode (fst (the (encodeCertPEM der (Some key)))) = Inr der"
proof -
  let ?body = "pem_lines (std_encode der)"
  let ?pem = "cert_begin @ newline # ?body @ cert_end @ [newline]"
  have pem: "fst (the (encodeCertPEM der (Some key))) = ?pem"
    by (simp add: encodeCertPEM_def pem_encode_def cert_begin_def cert_end_def)
  have nd: "\<forall>c \<in> set (newline # ?body). c \<noteq> hd cert_end"
    using pem_lines_set [of "std_encode der"] std_encode_chars by (auto simp: cert_end_def newline_def)
  have j: "str_index ?pem cert_end = Some (28 + length ?body)"
  proof -
    have "cert_end \<noteq> []" by (simp add: cert_end_def)
    then have "str_index ((newline # ?body) @ cert_end @ [newline]) cert_end = Some (length (newline # ?body))"
      using str_index_skip [OF nd, of "cert_end @ [newline]"] index_end [of "[newline]"] by (simp only: option.map add_0_right list.size not_False_eq_True)
    then have "str_index (newline # ?body @ cert_end @ [newline]) cert_end = Some (Suc (length ?body))"
      by (simp only: append_Cons list.size add_Suc_right add_0_right)
    then show ?thesis unfolding index_end_after_begin by simp
  qed
  let ?P = "\<lambda>c. byte c \<notin> {10, 13, 32 :: nat}"
  have sp: "\<forall>c \<in> set (newline # ?body). is_space c \<longrightarrow> \<not> ?P c"
    using pem_lines_set [of "std_encode der"] std_encode_chars by (auto simp: newline_def)
  have "filter ?P (trim_space (newline # ?body)) = filter ?P (newline # ?body)" by (rule filter_trim [OF sp])
  also have "\<dots> = filter ?P (std_encode der)" by (simp add: pem_lines_filter newline_def)
  also have "\<dots> = std_encode der"
    using std_encode_chars [of _ der] by (auto simp: filter_id_conv is_space_def)
  finally have f: "filter ?P (trim_space (newline # ?body)) = std_encode der" .
  have l: "length cert_begin = 27" by (simp add: cert_begin_def)
  have t: "take (28 + length ?body - 27) (drop 27 ?pem) = newline # ?body" using l by simp
  show ?thesis
    unfolding pem pemDecode_def using j index_begin [of "newline # ?body @ cert_end @ [newline]"] l t f by simp
qed

text \<open>C30: The PEM text that the code writes for a certificate is read back to the certificate's bytes, whatever they are.\<close>

theorem pem_roundtrip: "pemDecode (fst (the (encodeCertPEM der (Some key)))) = Inr der"
  by (rule pem_decoded)

section \<open>Putting a key into Caddy's stored configuration\<close>

datatype mtls_error = MtlsGenerate | MtlsKey | MtlsNoSSH | MtlsRead | MtlsParse | MtlsWrite | MtlsReload | MtlsPanic

text \<open>The libraries: the public key of a DER certificate, whether a certificate and a key belong together, and JSON.\<close>

record mtls_lib =
  ml_public_key :: "string \<Rightarrow> string option"
  ml_keypair :: "string \<Rightarrow> string \<Rightarrow> bool"
  ml_parse :: "string \<Rightarrow> json option"
  ml_marshal :: "(string, json) fmap \<Rightarrow> string"

definition extractPublicKeyDER :: "mtls_lib \<Rightarrow> string \<Rightarrow> mtls_error + string" where
  "extractPublicKeyDER lib certPEM =
     (case pemDecode certPEM of
        Inl PemPanic \<Rightarrow> Inl MtlsPanic
      | Inl _ \<Rightarrow> Inl MtlsKey
      | Inr der \<Rightarrow> (case ml_public_key lib der of None \<Rightarrow> Inl MtlsKey | Some k \<Rightarrow> Inr k))"

text \<open>What the random generator and the certificate library gave: the certificate and the key's bytes, if any. A
  failed save of the configuration is only logged.\<close>

definition GenerateClientCert :: "io_env \<Rightarrow> (string \<times> string option) option \<Rightarrow> manager \<Rightarrow> (string \<times> string) option \<times> manager" where
  "GenerateClientCert io generated m =
     (case generated of
        None \<Rightarrow> (None, m)
      | Some (certDER, keyDER) \<Rightarrow>
          (case encodeCertPEM certDER keyDER of
             None \<Rightarrow> (None, m)
           | Some (certPEM, keyPEM) \<Rightarrow>
               (Some (certPEM, keyPEM), snd (Manager_Update io
                  (\<lambda>cfg. cfg\<lparr>cfg_CaddyAPI := (cfg_CaddyAPI cfg)\<lparr>cad_ClientCert := certPEM, cad_ClientKey := keyPEM\<rparr>\<rparr>) m))))"

definition shellArgCaddy :: "string \<Rightarrow> string" where
  "shellArgCaddy s = [CHR 0x27] @ concat (map quote_char s) @ [CHR 0x27]"

definition readCmd :: string where
  "readCmd = ''docker exec '' @ shellArgCaddy ''unet-caddy'' @ '' cat /config/caddy/autosave.json''"

definition write_head :: string where
  "write_head = ''docker exec -i '' @ shellArgCaddy ''unet-caddy'' @ '' sh -c '' @ [CHR 0x27] @ ''cat > /config/caddy/autosave.json''
     @ [CHR 0x27] @ '' <<'' @ [CHR 0x27] @ ''UNETFENCE'' @ [CHR 0x27, newline]"

definition fullScript :: "string \<Rightarrow> string" where
  "fullScript updatedJSON = write_head @ updatedJSON @ newline # ''UNETFENCE''"

definition reloadCmd :: string where
  "reloadCmd = ''docker exec '' @ shellArgCaddy ''unet-caddy'' @ '' caddy reload --config /config/caddy/autosave.json --adapter json''"

text \<open>Reading: \<open>null\<close> is accepted as an empty (nil) map, into which the next step writes, which panics.\<close>

definition mtls_fetch :: "mtls_lib \<Rightarrow> 'w ssh_executor \<Rightarrow> 'w \<Rightarrow> (mtls_error + (string, json) fmap) \<times> 'w" where
  "mtls_fetch lib sx w =
     (case sx_command sx readCmd w of
        (None, w1) \<Rightarrow> (Inl MtlsRead, w1)
      | (Some out, w1) \<Rightarrow>
          ((case ml_parse lib out of Some (JObj c) \<Rightarrow> Inr c | Some JNull \<Rightarrow> Inl MtlsPanic | _ \<Rightarrow> Inl MtlsParse), w1))"

definition mtls_store :: "mtls_lib \<Rightarrow> 'w ssh_executor \<Rightarrow> (string, json) fmap \<Rightarrow> 'w \<Rightarrow> mtls_error option \<times> 'w" where
  "mtls_store lib sx c w =
     (case sx_script sx (fullScript (ml_marshal lib c)) w of
        (None, w1) \<Rightarrow> (Some MtlsWrite, w1)
      | (Some _, w1) \<Rightarrow>
          (case sx_command sx reloadCmd w1 of (None, w2) \<Rightarrow> (Some MtlsReload, w2) | (Some _, w2) \<Rightarrow> (None, w2)))"

definition ensure_cert :: "io_env \<Rightarrow> (string \<times> string option) option \<Rightarrow> manager \<Rightarrow> (string \<times> string) option \<times> manager" where
  "ensure_cert io generated m =
     (let api = cfg_CaddyAPI (live m) in
      if cad_ClientCert api = [] \<or> cad_ClientKey api = [] then GenerateClientCert io generated m
      else (Some (cad_ClientCert api, cad_ClientKey api), m))"

definition BootstrapMTLS :: "mtls_lib \<Rightarrow> 'w ssh_executor option \<Rightarrow> io_env \<Rightarrow> (string \<times> string option) option
    \<Rightarrow> manager \<times> 'w \<Rightarrow> mtls_error option \<times> manager \<times> 'w" where
  "BootstrapMTLS lib sshClient io generated mw =
     (case mw of (m, w) \<Rightarrow>
        (case ensure_cert io generated m of
           (None, m1) \<Rightarrow> (Some MtlsGenerate, m1, w)
         | (Some (certPEM, _), m1) \<Rightarrow>
             (case extractPublicKeyDER lib certPEM of
                Inl e \<Rightarrow> (Some e, m1, w)
              | Inr pubKeyDER \<Rightarrow>
                  (case sshClient of
                     None \<Rightarrow> (Some MtlsNoSSH, m1, w)
                   | Some sx \<Rightarrow>
                       (case mtls_fetch lib sx w of
                          (Inl e, w1) \<Rightarrow> (Some e, m1, w1)
                        | (Inr c, w1) \<Rightarrow> (case mtls_store lib sx (injectMTLSPublicKey (std_encode pubKeyDER) c) w1 of (e, w2) \<Rightarrow> (e, m1, w2)))))))"

section \<open>The two HTTP clients\<close>

datatype http_client = IpOnly | WithCert string string

definition CreateTLSClient :: "mtls_lib \<Rightarrow> root_config \<Rightarrow> http_client option" where
  "CreateTLSClient lib cfg =
     (let api = cfg_CaddyAPI cfg in
      if cad_ClientCert api = [] \<or> cad_ClientKey api = [] then None
      else if \<not> ml_keypair lib (cad_ClientCert api) (cad_ClientKey api) then None
      else Some (WithCert (cad_ClientCert api) (cad_ClientKey api)))"

definition ToggleMTLS :: "mtls_lib \<Rightarrow> root_config \<Rightarrow> bool \<Rightarrow> http_client \<Rightarrow> bool \<times> http_client" where
  "ToggleMTLS lib cfg enabled client =
     (if enabled then (case CreateTLSClient lib cfg of None \<Rightarrow> (False, client) | Some c \<Rightarrow> (True, c)) else (True, IpOnly))"

section \<open>What registering achieves\<close>

text \<open>What the server and the JSON library promise: reading shows the file, reloading and reading leave it, the
  here-document of a text of one line ends up in the file with its newline, and an object that is
  printed on one line is read back.\<close>

definition caddy_box :: "'w ssh_executor \<Rightarrow> ('w \<Rightarrow> string) \<Rightarrow> bool" where
  "caddy_box sx file_of \<longleftrightarrow>
     (\<forall>w out w'. sx_command sx readCmd w = (Some out, w') \<longrightarrow> out = file_of w \<and> file_of w' = file_of w)
     \<and> (\<forall>w out w'. sx_command sx reloadCmd w = (Some out, w') \<longrightarrow> file_of w' = file_of w)
     \<and> (\<forall>w t x w'. newline \<notin> set t \<longrightarrow> sx_script sx (fullScript t) w = (Some x, w') \<longrightarrow> file_of w' = t @ [newline])"

definition json_stable :: "mtls_lib \<Rightarrow> (string, json) fmap \<Rightarrow> bool" where
  "json_stable lib c \<longleftrightarrow> newline \<notin> set (ml_marshal lib c) \<and> ml_parse lib (ml_marshal lib c @ [newline]) = Some (JObj c)"

lemma mtls_fetch_file:
  assumes "caddy_box sx file_of" and "mtls_fetch lib sx w = (Inr c, w')"
  shows "ml_parse lib (file_of w) = Some (JObj c) \<and> file_of w' = file_of w"
  using assms by (force simp: mtls_fetch_def caddy_box_def split: prod.splits option.splits json.splits)

lemma mtls_store_file:
  assumes "caddy_box sx file_of" and "json_stable lib c" and "mtls_store lib sx c w = (None, w')"
  shows "file_of w' = ml_marshal lib c @ [newline] \<and> ml_parse lib (file_of w') = Some (JObj c)"
proof -
  obtain x w1 y where s: "sx_script sx (fullScript (ml_marshal lib c)) w = (Some x, w1)" "sx_command sx reloadCmd w1 = (Some y, w')"
    using assms(3) by (auto simp: mtls_store_def split: prod.splits option.splits)
  have "file_of w1 = ml_marshal lib c @ [newline]" using assms(1,2) s(1) unfolding caddy_box_def json_stable_def by blast
  moreover have "file_of w' = file_of w1" using assms(1) s(2) unfolding caddy_box_def by blast
  ultimately show ?thesis using assms(2) by (simp add: json_stable_def)
qed

text \<open>A bootstrap that succeeds leaves in the server's file the configuration with this client's key, and with every
  key that was registered before; only when the first entry of the list is no object the key is missing.\<close>

theorem bootstrap_registers_key:
  assumes "caddy_box sx file_of" and "ml_parse lib (file_of w) = Some (JObj c)"
    and "cad_ClientCert (cfg_CaddyAPI (live m)) = fst (the (encodeCertPEM der (Some priv)))" and "cad_ClientKey (cfg_CaddyAPI (live m)) \<noteq> []"
    and "ml_public_key lib der = Some pub" and "json_stable lib (injectMTLSPublicKey (std_encode pub) c)"
    and "BootstrapMTLS lib (Some sx) io gen (m, w) = (None, m', w')"
  shows "m' = m \<and> (\<exists>d. ml_parse lib (file_of w') = Some (JObj d)
     \<and> (\<forall>k. key_registered d k \<longleftrightarrow> key_registered c k \<or> k = std_encode pub \<and> first_is_object (access_of c)))"
proof -
  have pem: "extractPublicKeyDER lib (cad_ClientCert (cfg_CaddyAPI (live m))) = Inr pub"
    using assms(3,5) pem_decoded [of der priv] by (simp add: extractPublicKeyDER_def)
  have "cad_ClientCert (cfg_CaddyAPI (live m)) \<noteq> []" unfolding assms(3) by (simp add: encodeCertPEM_def pem_encode_def)
  then have ens: "ensure_cert io gen m = (Some (cad_ClientCert (cfg_CaddyAPI (live m)), cad_ClientKey (cfg_CaddyAPI (live m))), m)"
    using assms(4) by (simp add: ensure_cert_def Let_def)
  obtain x w1 where f: "mtls_fetch lib sx w = (x, w1)" by (rule that) (rule prod.collapse [symmetric])
  then obtain c' where x: "x = Inr c'" using assms(7) ens pem by (cases x) (auto simp: BootstrapMTLS_def)
  then have c: "c' = c" using mtls_fetch_file [OF assms(1)] f assms(2) by fastforce
  have "mtls_store lib sx (injectMTLSPublicKey (std_encode pub) c) w1 = (None, w')" "m' = m"
    using assms(7) ens pem f x c by (auto simp: BootstrapMTLS_def split: prod.splits)
  then show ?thesis using mtls_store_file [OF assms(1,6)] inject_keys by blast
qed

text \<open>Two clients that bootstrap at the same time, each reading the file before either writes it: both are told
  that it worked, and the key of the first is lost.\<close>

theorem concurrent_bootstrap_loses_key:
  assumes "caddy_box sx file_of" and "mtls_fetch lib sx w = (Inr c, w1)" and "mtls_fetch lib sx w1 = (Inr d, w2)"
    and "json_stable lib (injectMTLSPublicKey keyA c)" and "json_stable lib (injectMTLSPublicKey keyB d)"
    and "mtls_store lib sx (injectMTLSPublicKey keyA c) w2 = (None, w3)" and "mtls_store lib sx (injectMTLSPublicKey keyB d) w3 = (None, w4)"
    and "keyA \<noteq> keyB" and "\<not> key_registered c keyA"
  shows "\<exists>e. ml_parse lib (file_of w4) = Some (JObj e) \<and> \<not> key_registered e keyA
    \<and> (first_is_object (access_of c) \<longrightarrow> key_registered e keyB)"
proof -
  have "d = c" using mtls_fetch_file [OF assms(1,2)] mtls_fetch_file [OF assms(1,3)] by simp
  then show ?thesis using mtls_store_file [OF assms(1,5,7)] inject_keys [of keyB c] assms(8,9) by auto
qed

section \<open>Examples\<close>

text \<open>A server whose file is its world, and a JSON library that knows three documents.\<close>

definition box_sx :: "string ssh_executor" where
  "box_sx = \<lparr>sx_command = (\<lambda>cmd w. (Some w, w)),
     sx_script = (\<lambda>s w. (Some [], take (length s - length write_head - 10) (drop (length write_head) s) @ [newline]))\<rparr>"

lemma box_laws: "caddy_box box_sx (\<lambda>w. w)"
  by (simp add: caddy_box_def box_sx_def fullScript_def)

definition doc :: "string \<Rightarrow> (string, json) fmap" where
  "doc s = (if s = ''a'' then injectMTLSPublicKey (std_encode ''A'') fmempty
     else if s = ''b'' then injectMTLSPublicKey (std_encode ''B'') fmempty else fmempty)"

definition box_lib :: mtls_lib where
  "box_lib = \<lparr>ml_public_key = (\<lambda>der. Some der), ml_keypair = (\<lambda>_ _. True),
     ml_parse = (\<lambda>s. Some (JObj (doc (filter (\<lambda>c. c \<noteq> newline) s)))),
     ml_marshal = (\<lambda>c. if c = doc ''a'' then ''a'' else if c = doc ''b'' then ''b'' else ''{'')\<rparr>"

definition cert_manager :: manager where
  "cert_manager = (let c = zero_config\<lparr>cfg_CaddyAPI := (cfg_CaddyAPI zero_config)\<lparr>cad_ClientCert := fst (the (encodeCertPEM ''A'' (Some ''k''))), cad_ClientKey := ''k''\<rparr>\<rparr>
     in \<lparr>mgr_heap = [c], mgr_config = 0, mgr_disk = \<lparr>target = Holds c, strays = 0\<rparr>\<rparr>)"

lemma cert_manager_api: "cad_ClientCert (cfg_CaddyAPI (live cert_manager)) = fst (the (encodeCertPEM ''A'' (Some ''k'')))"
  "cad_ClientKey (cfg_CaddyAPI (live cert_manager)) = ''k''"
  by (simp_all add: cert_manager_def live_def deref_def Let_def)

lemma box_stable: "json_stable box_lib (injectMTLSPublicKey (std_encode ''A'') fmempty)" "json_stable box_lib (injectMTLSPublicKey (std_encode ''B'') fmempty)"
  by (simp_all add: json_stable_def box_lib_def doc_def newline_def)

lemma box_fetch: "mtls_fetch box_lib box_sx [] = (Inr fmempty, [])"
  by (simp add: mtls_fetch_def box_sx_def box_lib_def doc_def)

lemma box_store: "\<exists>w'. mtls_store box_lib box_sx c w = (None, w')"
  by (simp add: mtls_store_def box_sx_def)

lemma fmempty_access [simp]: "access_of fmempty = []" "\<not> key_registered fmempty k"
  by (simp_all add: access_of_def remote_of_def admin_of_def as_obj_def as_list_def or_empty_def key_registered_def)

lemma box_bootstrap: "\<exists>w'. BootstrapMTLS box_lib (Some box_sx) io_all_ok None (cert_manager, []) = (None, cert_manager, w')"
proof -
  have "cad_ClientCert (cfg_CaddyAPI (live cert_manager)) \<noteq> []"
    unfolding cert_manager_api by (simp add: encodeCertPEM_def pem_encode_def)
  then have e: "ensure_cert io_all_ok None cert_manager = (Some (fst (the (encodeCertPEM ''A'' (Some ''k''))), ''k''), cert_manager)"
    by (simp add: ensure_cert_def cert_manager_api Let_def)
  obtain w' where w': "mtls_store box_lib box_sx (injectMTLSPublicKey (std_encode ''A'') fmempty) [] = (None, w')" using box_store by blast
  have x: "extractPublicKeyDER box_lib (fst (the (encodeCertPEM ''A'' (Some ''k'')))) = Inr ''A''"
    unfolding extractPublicKeyDER_def pem_decoded by (simp add: box_lib_def)
  show ?thesis unfolding BootstrapMTLS_def prod.case e option.case x sum.case box_fetch w' by blast
qed

theorem bootstrap_registers_key_witness:
  "\<exists>w' d. BootstrapMTLS box_lib (Some box_sx) io_all_ok None (cert_manager, []) = (None, cert_manager, w')
     \<and> ml_parse box_lib w' = Some (JObj d) \<and> key_registered d (std_encode ''A'')"
proof -
  obtain w' where b: "BootstrapMTLS box_lib (Some box_sx) io_all_ok None (cert_manager, []) = (None, cert_manager, w')" using box_bootstrap by blast
  have "ml_parse box_lib [] = Some (JObj fmempty)" "ml_public_key box_lib ''A'' = Some ''A''" by (simp_all add: box_lib_def doc_def)
  then show ?thesis
    using bootstrap_registers_key [OF box_laws _ cert_manager_api(1) _ _ box_stable(1) b] b
    by (auto simp: cert_manager_api(2) first_is_object_def)
qed

lemma two_keys: "std_encode ''A'' \<noteq> std_encode ''B''"
proof
  assume "std_encode ''A'' = std_encode ''B''"
  then have "Some ''A'' = Some ''B''" by (metis std_decode_encode)
  then show False by simp
qed

theorem concurrent_bootstrap_loses_key_witness:
  "\<exists>w3 w4 e. mtls_store box_lib box_sx (injectMTLSPublicKey (std_encode ''A'') fmempty) [] = (None, w3)
     \<and> mtls_store box_lib box_sx (injectMTLSPublicKey (std_encode ''B'') fmempty) w3 = (None, w4)
     \<and> ml_parse box_lib w4 = Some (JObj e) \<and> \<not> key_registered e (std_encode ''A'') \<and> key_registered e (std_encode ''B'')"
proof -
  obtain w3 where a: "mtls_store box_lib box_sx (injectMTLSPublicKey (std_encode ''A'') fmempty) [] = (None, w3)" using box_store by blast
  obtain w4 where b: "mtls_store box_lib box_sx (injectMTLSPublicKey (std_encode ''B'') fmempty) w3 = (None, w4)" using box_store by blast
  show ?thesis
    using concurrent_bootstrap_loses_key [OF box_laws box_fetch box_fetch box_stable a b two_keys] a b by (auto simp: first_is_object_def)
qed

end
