(* ===== verification/Event_Ring.thy ===== *)
theory Event_Ring
  imports Prelude "HOL-Library.Word"
begin

text \<open>
  The daemon's event list (\<open>daemon/api_events.go\<close>): a bounded ring of numbered events and the endpoint that
  pages through it with the identifier of the last event seen. The ring refines the log of all events.
\<close>

section \<open>Numbers\<close>

fun itoa_loop :: "nat \<Rightarrow> string" where
  "itoa_loop n = (if n = 0 then [] else itoa_loop (n div 10) @ [char_of (48 + n mod 10)])"

declare itoa_loop.simps [simp del]

text \<open>The loop does not run for a negative number, which gives the empty string.\<close>

definition itoa3 :: "int \<Rightarrow> string" where
  "itoa3 n = (if n = 0 then ''0'' else itoa_loop (nat n))"

lemma itoa_loop_show: "0 < n \<Longrightarrow> itoa_loop n = show_nat n"
proof (induction n rule: itoa_loop.induct)
  case (1 n)
  show ?case
  proof (cases "n < 10")
    case True
    then show ?thesis using 1 by (simp add: itoa_loop.simps [of n] itoa_loop.simps [of 0] show_nat.simps [of n])
  next
    case False
    then have "0 < n div 10" by (simp add: div_greater_zero_iff)
    then show ?thesis using 1 False by (simp add: itoa_loop.simps [of n] show_nat.simps [of n])
  qed
qed

lemma itoa3_show: "0 \<le> n \<Longrightarrow> itoa3 n = show_int n"
proof (cases "n = 0")
  case True
  have "show_nat 0 = ''0''" by code_simp
  then show ?thesis using True by (simp add: itoa3_def show_int_def)
qed (simp add: itoa3_def show_int_def itoa_loop_show)

lemma show_nat_inj [simp]: "show_nat a = show_nat b \<longleftrightarrow> a = b"
  using digits_value_show_nat [of a] digits_value_show_nat [of b] by (metis of_nat_eq_iff)

lemma itoa3_inj: "0 \<le> a \<Longrightarrow> 0 \<le> b \<Longrightarrow> itoa3 a = itoa3 b \<longleftrightarrow> a = b"
  by (auto simp: itoa3_show show_int_def)

text \<open>The number of the query: 0 with no error when a character is no digit, and wrapped at 64 bits.\<close>

fun atoi2_loop :: "64 word \<Rightarrow> string \<Rightarrow> 64 word" where
  "atoi2_loop n [] = n"
| "atoi2_loop n (c # cs) = (if is_digit c then atoi2_loop (n * 10 + of_nat (of_char c - 48)) cs else 0)"

definition atoi2 :: "string \<Rightarrow> 64 word" where
  "atoi2 s = atoi2_loop 0 s"

section \<open>The ring\<close>

record life_event =
  le_ID :: string
  le_Type :: string
  le_Timestamp :: string
  le_Message :: string
  le_Details :: string

record event_ring =
  er_events :: "life_event list"
  er_max :: nat
  er_seq :: nat

definition NewEventRing :: "nat \<Rightarrow> event_ring" where
  "NewEventRing cap = \<lparr>er_events = [], er_max = cap, er_seq = 0\<rparr>"

definition new_event :: "string \<Rightarrow> nat \<Rightarrow> string \<Rightarrow> string \<Rightarrow> string \<Rightarrow> life_event" where
  "new_event now n eventType message details = \<lparr>le_ID = itoa3 (int n), le_Type = eventType, le_Timestamp = now, le_Message = message, le_Details = details\<rparr>"

text \<open>Adding to a full ring drops the oldest event; with no capacity at all that panics.\<close>

definition Ring_Add :: "string \<Rightarrow> string \<Rightarrow> string \<Rightarrow> string \<Rightarrow> event_ring \<Rightarrow> event_ring option" where
  "Ring_Add now eventType message details r =
     (let evt = new_event now (er_seq r + 1) eventType message details in
      if er_max r \<le> length (er_events r) then
        (if er_events r = [] then None else Some (r\<lparr>er_events := tl (er_events r) @ [evt], er_seq := er_seq r + 1\<rparr>))
      else Some (r\<lparr>er_events := er_events r @ [evt], er_seq := er_seq r + 1\<rparr>))"

definition page_limit :: "int \<Rightarrow> nat" where
  "page_limit limit = (if limit \<le> 0 \<or> limit > 1000 then 100 else nat limit)"

definition page_start :: "event_ring \<Rightarrow> string \<Rightarrow> nat" where
  "page_start r after = (if after = [] then 0
     else case first_index (\<lambda>e. le_ID e = after) (er_events r) of Some i \<Rightarrow> i + 1 | None \<Rightarrow> 0)"

definition Ring_List :: "event_ring \<Rightarrow> string \<Rightarrow> int \<Rightarrow> life_event list" where
  "Ring_List r after limit = take (page_limit limit) (drop (page_start r after) (er_events r))"

definition handleEvents :: "event_ring \<Rightarrow> string \<Rightarrow> string \<Rightarrow> life_event list" where
  "handleEvents r after l =
     (let limit = (if l \<noteq> [] then (let v = sint (atoi2 l) in if v > 0 then v else 100) else 100)
      in Ring_List r after limit)"

section \<open>The ring refines the log\<close>

text \<open>The log of all events, numbered from 1; the ring holds its last ones.\<close>

definition log_ok :: "life_event list \<Rightarrow> bool" where
  "log_ok log \<longleftrightarrow> (\<forall>i < length log. le_ID (log ! i) = itoa3 (int i + 1))"

definition ring_of :: "event_ring \<Rightarrow> life_event list \<Rightarrow> bool" where
  "ring_of r log \<longleftrightarrow> log_ok log \<and> 0 < er_max r \<and> er_seq r = length log \<and> er_events r = drop (length log - er_max r) log"

lemma NewEventRing_log: "0 < cap \<Longrightarrow> ring_of (NewEventRing cap) []"
  by (simp add: ring_of_def NewEventRing_def log_ok_def)

lemma Ring_Add_log:
  assumes "ring_of r log"
  shows "\<exists>r'. Ring_Add now ty msg det r = Some r' \<and> ring_of r' (log @ [new_event now (length log + 1) ty msg det])"
proof -
  let ?e = "new_event now (length log + 1) ty msg det"
  have ok: "log_ok (log @ [?e])" using assms by (auto simp: ring_of_def log_ok_def nth_append new_event_def less_Suc_eq add.commute)
  show ?thesis
  proof (cases "er_max r \<le> length log")
    case True
    then have "er_events r \<noteq> []" using assms True unfolding ring_of_def by auto
    moreover have "tl (er_events r) @ [?e] = drop (length (log @ [?e]) - er_max r) (log @ [?e])"
      using assms True by (simp add: ring_of_def Suc_diff_le drop_Suc tl_drop)
    moreover have "er_max r \<le> length (er_events r)" using assms True by (simp add: ring_of_def)
    ultimately show ?thesis using assms ok by (simp add: Ring_Add_def ring_of_def Let_def)
  next
    case False
    then show ?thesis using assms ok by (simp add: Ring_Add_def ring_of_def Let_def)
  qed
qed

lemma page_limit_pos: "0 < page_limit limit \<and> page_limit limit \<le> 1000"
  by (auto simp: page_limit_def)

lemma first_index_nth:
  assumes "i < length xs" and "P (xs ! i)" and "\<forall>j < i. \<not> P (xs ! j)"
  shows "first_index P xs = Some i"
  using assms
proof (induction xs arbitrary: i)
  case (Cons x xs)
  show ?case
  proof (cases i)
    case 0
    then show ?thesis using Cons.prems by simp
  next
    case (Suc k)
    have "\<not> P x" using Cons.prems(3)[rule_format, of 0] Suc by simp
    moreover have "\<forall>j < k. \<not> P (xs ! j)" using Cons.prems(3)[rule_format, of "Suc _"] Suc by auto
    ultimately show ?thesis using Cons Suc by simp
  qed
qed simp

lemma log_index:
  assumes "log_ok log" and "n \<le> length log" and "k < length log"
  shows "first_index (\<lambda>e. le_ID e = itoa3 (int k + 1)) (drop n log) = (if n \<le> k then Some (k - n) else None)"
proof -
  have id: "le_ID (drop n log ! j) = itoa3 (int k + 1) \<longleftrightarrow> n + j = k" if "j < length log - n" for j
    using that assms(1) itoa3_inj [of "int (n + j) + 1" "int k + 1"] by (auto simp: log_ok_def)
  show ?thesis
  proof (cases "n \<le> k")
    case True
    then have "first_index (\<lambda>e. le_ID e = itoa3 (int k + 1)) (drop n log) = Some (k - n)"
      using assms(3) id id [of "k - n"] True by (intro first_index_nth) auto
    then show ?thesis using True by simp
  next
    case False
    then have "\<forall>e \<in> set (drop n log). le_ID e \<noteq> itoa3 (int k + 1)" using id by (auto simp: in_set_conv_nth)
    then show ?thesis using False by simp
  qed
qed

text \<open>What a page holds: with the number of an event as the cursor, the events that follow it, without a gap, unless
  they have left the ring, in which case from the oldest one on; at most the limit of them.\<close>

theorem page_follows_cursor:
  assumes "ring_of r log" and "k \<le> length log"
  shows "Ring_List r (if k = 0 then [] else itoa3 (int k)) limit = take (page_limit limit) (drop (max k (length log - er_max r)) log)"
proof -
  let ?n = "length log - er_max r"
  show ?thesis
  proof (cases k)
    case 0
    then show ?thesis using assms by (simp add: Ring_List_def page_start_def ring_of_def)
  next
    case (Suc j)
    then have ne: "itoa3 (int k) \<noteq> []" by (simp add: itoa3_show show_int_def)
    have "page_start r (itoa3 (int k)) = (if ?n \<le> j then j - ?n + 1 else 0)"
      using assms Suc ne log_index [of log ?n j] by (simp add: page_start_def ring_of_def add.commute)
    then show ?thesis using assms Suc by (auto simp: Ring_List_def ring_of_def max_def)
  qed
qed

text \<open>Any sequence of additions: what happened is the log, and the ring holds its end.\<close>

fun add_all :: "(string \<times> string \<times> string \<times> string) list \<Rightarrow> event_ring \<Rightarrow> event_ring option" where
  "add_all [] r = Some r"
| "add_all ((now, ty, msg, det) # es) r = (case Ring_Add now ty msg det r of None \<Rightarrow> None | Some r1 \<Rightarrow> add_all es r1)"

fun events_from :: "nat \<Rightarrow> (string \<times> string \<times> string \<times> string) list \<Rightarrow> life_event list" where
  "events_from n [] = []"
| "events_from n ((now, ty, msg, det) # es) = new_event now (n + 1) ty msg det # events_from (n + 1) es"

lemma length_events_from [simp]: "length (events_from n es) = length es"
  by (induction n es rule: events_from.induct) auto

lemma add_all_log: "ring_of r log \<Longrightarrow> \<exists>r'. add_all es r = Some r' \<and> er_max r' = er_max r \<and> ring_of r' (log @ events_from (length log) es)"
proof (induction es arbitrary: r log)
  case (Cons e es)
  obtain now ty msg det where e: "e = (now, ty, msg, det)" by (cases e)
  obtain r1 where r1: "Ring_Add now ty msg det r = Some r1" "ring_of r1 (log @ [new_event now (length log + 1) ty msg det])"
    using Ring_Add_log [OF Cons.prems] by blast
  have "er_max r1 = er_max r" using r1(1) by (auto simp: Ring_Add_def Let_def split: if_splits)
  then show ?case using Cons.IH [OF r1(2)] r1(1) e by simp
qed simp

text \<open>The ring refines the log: no addition fails, and after any additions the ring holds the last events of the log,
  as many as it has room for, numbered from 1 in the order of the additions.\<close>

theorem event_ring_refines_log:
  assumes "0 < cap"
  shows "\<exists>r. add_all es (NewEventRing cap) = Some r \<and> er_events r = drop (length es - cap) (events_from 0 es)
    \<and> (\<forall>i < length es. le_ID (events_from 0 es ! i) = show_int (int i + 1))"
proof -
  obtain r where "add_all es (NewEventRing cap) = Some r" "er_max r = cap" "ring_of r (events_from 0 es)"
    using add_all_log [OF NewEventRing_log [OF assms], of es] by (auto simp: NewEventRing_def)
  then show ?thesis by (auto simp: ring_of_def log_ok_def itoa3_show)
qed

text \<open>A client that asks for the page after the last event it has, until a page is empty.\<close>

fun read_all :: "nat \<Rightarrow> int \<Rightarrow> string \<Rightarrow> event_ring \<Rightarrow> life_event list" where
  "read_all 0 limit after r = []"
| "read_all (Suc n) limit after r =
     (let page = Ring_List r after limit in if page = [] then [] else page @ read_all n limit (le_ID (last page)) r)"

lemma read_from:
  assumes "ring_of r log" and "length log - er_max r \<le> k" and "k \<le> length log" and "length log - k < n" and "0 < k \<or> length log \<le> er_max r"
  shows "read_all n limit (if k = 0 then [] else itoa3 (int k)) r = drop k log"
  using assms(2-)
proof (induction n arbitrary: k)
  case (Suc n)
  let ?l = "page_limit limit"
  have page: "Ring_List r (if k = 0 then [] else itoa3 (int k)) limit = take ?l (drop k log)"
    using page_follows_cursor [OF assms(1) Suc.prems(2), of limit] Suc.prems(1) by (simp add: max_absorb1)
  show ?case
  proof (cases "k = length log")
    case True
    then show ?thesis using page by simp
  next
    case False
    define m where "m = min ?l (length log - k)"
    have m: "0 < m" "k + m \<le> length log" using False Suc.prems(2) page_limit_pos [of limit] by (auto simp: m_def)
    have t: "take ?l (drop k log) = take m (drop k log)" by (simp add: m_def min_def)
    have ne: "take m (drop k log) \<noteq> []" using m by simp
    have "last (take m (drop k log)) = log ! (k + m - 1)" using m by (subst last_conv_nth [OF ne]) (simp add: min_absorb2)
    then have "le_ID (last (take m (drop k log))) = itoa3 (int (k + m))"
      using assms(1) m by (simp add: ring_of_def log_ok_def of_nat_diff)
    moreover have "read_all n limit (itoa3 (int (k + m))) r = drop (k + m) log"
      using Suc.IH [of "k + m"] Suc.prems m by simp
    moreover have "take m (drop k log) @ drop (k + m) log = drop k log" by (metis add.commute append_take_drop_id drop_drop)
    ultimately show ?thesis using page t ne by simp
  qed
qed simp

lemma read_all_events:
  assumes "ring_of r log" and "length (er_events r) < n"
  shows "read_all n limit [] r = er_events r"
proof (cases "length log \<le> er_max r")
  case True
  then show ?thesis using read_from [OF assms(1), of 0 n limit] assms by (simp add: ring_of_def)
next
  case False
  let ?k = "length log - er_max r"
  have "Ring_List r [] limit = Ring_List r (itoa3 (int ?k)) limit"
    using page_follows_cursor [OF assms(1), of 0 limit] page_follows_cursor [OF assms(1), of ?k limit] False by simp
  then have "read_all n limit [] r = read_all n limit (itoa3 (int ?k)) r" by (cases n) simp_all
  also have "\<dots> = drop ?k log" using read_from [OF assms(1), of ?k n limit] assms False by (simp add: ring_of_def)
  finally show ?thesis using assms(1) by (simp add: ring_of_def)
qed

text \<open>C31: Paging is complete: following the cursor reads every event the ring holds, once and in order, and it ends
  after at most as many pages as there are events, whatever limit is asked for.\<close>

theorem event_pages_complete:
  assumes "0 < cap" and "add_all es (NewEventRing cap) = Some r" and "length es < n"
  shows "read_all n limit [] r = drop (length es - cap) (events_from 0 es)"
proof -
  have "ring_of r (events_from 0 es)" "er_max r = cap"
    using add_all_log [OF NewEventRing_log [OF assms(1)], of es] assms(2) by (auto simp: NewEventRing_def)
  then show ?thesis using read_all_events [of r "events_from 0 es" n limit] assms(3) by (auto simp: ring_of_def)
qed

theorem page_follows_cursor_witness: "Ring_List (NewEventRing 3) [] 7 = []"
  using page_follows_cursor [OF NewEventRing_log [of 3], of 0 7] by simp

definition five_events :: "(string \<times> string \<times> string \<times> string) list" where
  "five_events = map (\<lambda>t. (''now'', t, ''m'', ''d'')) [''a'', ''b'', ''c'', ''d'', ''e'']"

theorem event_ring_refines_log_witness:
  "\<exists>r. add_all five_events (NewEventRing 3) = Some r \<and> map le_Type (er_events r) = [''c'', ''d'', ''e'']"
  using event_ring_refines_log [of 3 five_events] by (auto simp: five_events_def new_event_def)

theorem event_pages_complete_witness:
  "\<exists>r. add_all five_events (NewEventRing 3) = Some r \<and> map le_Type (read_all 6 2 [] r) = [''c'', ''d'', ''e'']"
proof -
  obtain r where r: "add_all five_events (NewEventRing 3) = Some r"
    using add_all_log [OF NewEventRing_log [of 3], of five_events] by auto
  have "read_all 6 2 [] r = drop 2 (events_from 0 five_events)"
    using event_pages_complete [OF _ r, of 6 2] by (simp add: five_events_def)
  then show ?thesis using r by (simp add: five_events_def new_event_def)
qed

text \<open>The number in the query is reduced modulo \<open>2 ^ 64\<close>: a limit of \<open>2 ^ 64 + 1\<close> is read as 1, and one that is no
  number is ignored.\<close>

lemma atoi2_loop_value: "list_all is_digit s \<Longrightarrow> atoi2_loop (of_int n) s = of_int (digits_value n s)"
proof (induction s arbitrary: n)
  case (Cons c cs)
  have "48 \<le> (of_char c :: nat)" using Cons.prems by (simp add: is_digit_def)
  then have "(of_int n * 10 + of_nat (of_char c - 48) :: 64 word) = of_int (n * 10 + (int (of_char c) - 48))"
    by (simp add: of_nat_diff)
  then have "atoi2_loop (of_int n) (c # cs) = atoi2_loop (of_int (n * 10 + (int (of_char c) - 48))) cs"
    using Cons.prems by (simp only: atoi2_loop.simps list.pred_inject if_True)
  then show ?case using Cons.IH [of "n * 10 + (int (of_char c) - 48)"] Cons.prems by simp
qed simp

theorem query_number_wraps: "atoi2 (show_nat n) = of_nat n"
  using atoi2_loop_value [OF show_nat_all_digits, of 0 n] by (simp add: atoi2_def digits_value_show_nat)

end
