(* ===== verification/Daemon_Api.thy ===== *)
theory Daemon_Api
  imports Ports_Api Tunnel_Manager "HOL-Library.Word"
begin

text \<open>
  The remaining endpoints of the local daemon: the server's root handler (\<open>daemon/server.go\<close>), configuring and
  provisioning the server (\<open>daemon/api_vps.go\<close>), the tunnel (\<open>daemon/api_tunnel.go\<close>), DNS settings
  (\<open>daemon/api_dns.go\<close>), the status of the tray's API (\<open>daemon/api_status.go\<close>), the hosts of the user's SSH
  configuration (\<open>daemon/api_ssh.go\<close>) and start at login (\<open>daemon/api_autostart.go\<close>). Work that a handler starts in
  the background is a task of the state that another step ends.
\<close>

section \<open>The server\<close>

datatype root_target = ApiMux | StaticFiles

definition NewServer :: "int \<Rightarrow> int" where
  "NewServer port = (if port \<le> 0 then 8080 else port)"

definition rootHandler :: "string \<Rightarrow> root_target" where
  "rootHandler path = (if 5 \<le> length path \<and> take 5 path = ''/api/'' then ApiMux else StaticFiles)"

section \<open>The VPS\<close>

record vps_settings =
  vs_Host :: string
  vs_SSHPort :: int
  vs_Username :: string
  vs_AuthMode :: string
  vs_PrivateKeyPath :: string
  vs_Password :: string

record provision_task =
  pt_ID :: string
  pt_Status :: string
  pt_Error :: string

text \<open>The tasks whose provisioning still runs are listed by identifier; the handler itself keeps only the last.\<close>

record vps_handler =
  vh_mgr :: manager
  vh_task :: "provision_task option"
  vh_running :: "string list"

datatype daemon_body = TaskStarted string string | StatusIs string | DnsConfigured string

definition check_vps_settings :: "(string \<Rightarrow> bool) \<Rightarrow> vps_settings \<Rightarrow> vps_settings option" where
  "check_vps_settings exists_file req =
     (if vs_Host req = [] then None
      else let req = (if vs_SSHPort req \<le> 0 then req\<lparr>vs_SSHPort := 22\<rparr> else req) in
      if vs_Username req = [] then None
      else if vs_AuthMode req \<noteq> ''key'' \<and> vs_AuthMode req \<noteq> ''password'' then None
      else if vs_AuthMode req = ''key'' \<and> (vs_PrivateKeyPath req = [] \<or> \<not> exists_file (vs_PrivateKeyPath req)) then None
      else if vs_AuthMode req = ''password'' \<and> vs_Password req = [] then None
      else Some req)"

definition store_vps :: "vps_settings \<Rightarrow> root_config \<Rightarrow> root_config" where
  "store_vps req c = c\<lparr>cfg_VPS := (cfg_VPS c)\<lparr>vps_Host := vs_Host req, vps_SSHPort := vs_SSHPort req, vps_Username := vs_Username req,
     vps_AuthMode := vs_AuthMode req, vps_PrivateKeyPath := vs_PrivateKeyPath req, vps_Password := vs_Password req\<rparr>\<rparr>"

definition handleVPSConfigure :: "(string \<Rightarrow> bool) \<Rightarrow> io_env \<Rightarrow> string \<Rightarrow> vps_settings option \<Rightarrow> vps_handler \<Rightarrow> daemon_body reply \<times> vps_handler" where
  "handleVPSConfigure exists_file io uuid body h =
     (case body of
        None \<Rightarrow> (ErrorResponse 400 ''invalid_request'', h)
      | Some req0 \<Rightarrow>
          (case check_vps_settings exists_file req0 of
             None \<Rightarrow> (ErrorResponse 400 ''invalid_credentials'', h)
           | Some req \<Rightarrow>
               (case Manager_Update io (store_vps req) (vh_mgr h) of
                  (Some _, m) \<Rightarrow> (ErrorResponse 500 ''internal_error'', h\<lparr>vh_mgr := m\<rparr>)
                | (None, m) \<Rightarrow>
                    (let taskID = ''provision-'' @ take 8 uuid in
                     (JSONResponse 202 (TaskStarted taskID ''provisioning''),
                      h\<lparr>vh_mgr := m, vh_task := Some \<lparr>pt_ID = taskID, pt_Status = ''provisioning'', pt_Error = []\<rparr>,
                        vh_running := vh_running h @ [taskID]\<rparr>)))))"

text \<open>The end of a provisioning run: it changes the configuration and writes its result into the handler's task,
  whichever that is by then.\<close>

definition finish_task :: "string option \<Rightarrow> provision_task \<Rightarrow> provision_task" where
  "finish_task err t = (case err of Some e \<Rightarrow> t\<lparr>pt_Status := ''failed'', pt_Error := e\<rparr> | None \<Rightarrow> t\<lparr>pt_Status := ''completed''\<rparr>)"

definition runProvision_ends :: "(manager \<Rightarrow> string option \<times> manager) \<Rightarrow> string \<Rightarrow> vps_handler \<Rightarrow> vps_handler" where
  "runProvision_ends provision taskID h =
     (if taskID \<in> set (vh_running h) then
        (let (err, m) = provision (vh_mgr h)
         in h\<lparr>vh_mgr := m, vh_task := map_option (finish_task err) (vh_task h), vh_running := remove1 taskID (vh_running h)\<rparr>)
      else h)"

record vps_status =
  st_configured :: bool
  st_provisioned :: bool
  st_host :: string
  st_taskStatus :: "string option"
  st_taskError :: "string option"

definition handleVPSStatus :: "vps_handler \<Rightarrow> vps_status" where
  "handleVPSStatus h =
     (let vps = cfg_VPS (live (vh_mgr h))
      in \<lparr>st_configured = (vps_Host vps \<noteq> []), st_provisioned = vps_IsProvisioned vps, st_host = vps_Host vps,
          st_taskStatus = map_option pt_Status (vh_task h),
          st_taskError = (case vh_task h of None \<Rightarrow> None | Some t \<Rightarrow> if pt_Error t = [] then None else Some (pt_Error t))\<rparr>)"

record system_status =
  sy_Privileged :: bool
  sy_Configured :: bool
  sy_Provisioned :: bool
  sy_Host :: string
  sy_TunnelStatus :: string
  sy_LocalIP :: string
  sy_ServerIP :: string
  sy_Ports :: "port_response list"
  sy_DaemonPort :: int

definition handleSystemStatus :: "bool \<Rightarrow> int \<Rightarrow> root_config \<Rightarrow> system_status" where
  "handleSystemStatus privileged port cfg =
     \<lparr>sy_Privileged = privileged, sy_Configured = (vps_Host (cfg_VPS cfg) \<noteq> []), sy_Provisioned = vps_IsProvisioned (cfg_VPS cfg),
      sy_Host = vps_Host (cfg_VPS cfg), sy_TunnelStatus = tun_Status (cfg_Tunnel cfg), sy_LocalIP = tun_LocalIP (cfg_Tunnel cfg),
      sy_ServerIP = tun_ServerIP (cfg_Tunnel cfg), sy_Ports = buildPortInfos cfg, sy_DaemonPort = port\<rparr>"

section \<open>The tunnel\<close>

text \<open>A connection request only starts \<open>Connect\<close> in the background: the second part of the state counts the calls that
  have been started and have not begun.\<close>

definition tunnel_handleConnect :: "bool \<Rightarrow> 'w tunnel_state \<times> nat \<Rightarrow> daemon_body reply \<times> 'w tunnel_state \<times> nat" where
  "tunnel_handleConnect privileged sp =
     (if \<not> privileged then (ErrorResponse 503 ''not_privileged'', sp)
      else if ts_status (fst sp) = ''connected'' \<or> ts_status (fst sp) = ''connecting'' then (ErrorResponse 409 ''already_connected'', sp)
      else (JSONResponse 202 (StatusIs ''connecting''), fst sp, snd sp + 1))"

definition tunnel_handleDisconnect :: "io_env \<Rightarrow> 'w tunnel_state \<times> nat \<Rightarrow> daemon_body reply \<times> 'w tunnel_state \<times> nat" where
  "tunnel_handleDisconnect io sp = (JSONResponse 200 (StatusIs ''disconnected''), Disconnect io (fst sp), snd sp)"

record tunnel_status =
  tr_Status :: string
  tr_LocalIP :: string
  tr_ServerIP :: string
  tr_ServerEndpoint :: string
  tr_ConnectedAt :: string

definition tunnel_handleStatus :: "'w tunnel_state \<Rightarrow> tunnel_status" where
  "tunnel_handleStatus s =
     (let t = cfg_Tunnel (live (ts_mgr s))
      in \<lparr>tr_Status = ts_status s, tr_LocalIP = tun_LocalIP t, tr_ServerIP = tun_ServerIP t,
          tr_ServerEndpoint = tun_ServerEndpoint t, tr_ConnectedAt = tun_ConnectedAt t\<rparr>)"

section \<open>DNS settings\<close>

record dns_configure =
  dc_Mode :: string
  dc_CloudflareToken :: string
  dc_Zone :: string

definition store_dns :: "dns_configure \<Rightarrow> root_config \<Rightarrow> root_config" where
  "store_dns req c = c\<lparr>cfg_DNS := \<lparr>dns_Provider = dc_Mode req,
     dns_Token = (if dc_Mode req = ''cloudflare'' then dc_CloudflareToken req else dns_Token (cfg_DNS c)), dns_Zone = dc_Zone req\<rparr>\<rparr>"

definition dns_handleConfigure :: "io_env \<Rightarrow> dns_configure option \<Rightarrow> manager \<Rightarrow> daemon_body reply \<times> manager" where
  "dns_handleConfigure io body m =
     (case body of
        None \<Rightarrow> (ErrorResponse 400 ''bad_request'', m)
      | Some req \<Rightarrow>
          if dc_Mode req \<noteq> ''cloudflare'' \<and> dc_Mode req \<noteq> ''manual'' then (ErrorResponse 400 ''bad_request'', m)
          else if dc_Mode req = ''cloudflare'' \<and> dc_CloudflareToken req = [] then (ErrorResponse 400 ''bad_request'', m)
          else (case Manager_Update io (store_dns req) m of
              (Some _, m1) \<Rightarrow> (ErrorResponse 500 ''internal_error'', m1)
            | (None, m1) \<Rightarrow> (JSONResponse 200 (DnsConfigured (dc_Mode req)), m1)))"

section \<open>The hosts of the user's SSH configuration\<close>

record ssh_host_entry =
  se_Host :: string
  se_HostName :: string
  se_User :: string
  se_Port :: "64 word"
  se_IdentityFile :: string

definition Fields :: "string \<Rightarrow> string list" where
  "Fields s = filter (\<lambda>w. w \<noteq> []) (split_on CHR '' '' (map (\<lambda>c. if is_space c then CHR '' '' else c) s))"

fun port_loop :: "64 word \<Rightarrow> string \<Rightarrow> 64 word" where
  "port_loop port [] = port"
| "port_loop port (c # cs) = (if is_digit c then port_loop (port * 10 + of_nat (of_char c - 48)) cs else port)"

definition new_host :: "string \<Rightarrow> ssh_host_entry" where
  "new_host value = \<lparr>se_Host = value, se_HostName = [], se_User = [], se_Port = 0, se_IdentityFile = []\<rparr>"

text \<open>The finished entries and the current one. \<open>join\<close> is \<open>filepath.Join\<close> with the home directory, which is the
  platform's.\<close>

type_synonym ssh_scan = "ssh_host_entry list \<times> ssh_host_entry option"

definition close_entry :: "ssh_scan \<Rightarrow> ssh_host_entry list" where
  "close_entry st = fst st @ (case snd st of None \<Rightarrow> [] | Some e \<Rightarrow> [e])"

definition ssh_option :: "(string \<Rightarrow> string) \<Rightarrow> string \<Rightarrow> string \<Rightarrow> ssh_host_entry \<Rightarrow> ssh_host_entry" where
  "ssh_option join key value e =
     (if key = ''hostname'' then e\<lparr>se_HostName := value\<rparr>
      else if key = ''user'' then e\<lparr>se_User := value\<rparr>
      else if key = ''port'' then e\<lparr>se_Port := port_loop 0 value\<rparr>
      else if key = ''identityfile'' then e\<lparr>se_IdentityFile := (if has_prefix value ''~/'' then join (drop 2 value) else value)\<rparr>
      else e)"

definition ssh_line :: "(string \<Rightarrow> string) \<Rightarrow> ssh_scan \<Rightarrow> string \<Rightarrow> ssh_scan" where
  "ssh_line join st text =
     (let line = trim_space text in
      if line = [] \<or> has_prefix line ''#'' then st
      else case Fields line of
          k # value # _ \<Rightarrow>
            (let key = to_lower k in
             if key = ''host'' then
               (close_entry st, if CHR ''*'' \<in> set value \<or> CHR ''?'' \<in> set value then None else Some (new_host value))
             else (fst st, map_option (ssh_option join key value) (snd st)))
        | _ \<Rightarrow> st)"

text \<open>The scanner stops with an error at a line of 65536 bytes or more. The last entry is kept in any case.\<close>

definition parseSSHConfig :: "(string \<Rightarrow> string) \<Rightarrow> string \<Rightarrow> ssh_host_entry list \<times> bool" where
  "parseSSHConfig join text =
     (let lines = split_on newline text; short = takeWhile (\<lambda>l. length l < 65536) lines
      in (close_entry (foldl (ssh_line join) ([], None) short), length short < length lines))"

datatype config_file = NoHome | NoSuchFile | Unreadable | ConfigText string

definition HandleSSHHosts :: "(string \<Rightarrow> string) \<Rightarrow> config_file \<Rightarrow> ssh_host_entry list reply" where
  "HandleSSHHosts join f =
     (case f of
        NoHome \<Rightarrow> ErrorResponse 500 ''internal_error''
      | NoSuchFile \<Rightarrow> JSONResponse 200 []
      | Unreadable \<Rightarrow> ErrorResponse 500 ''internal_error''
      | ConfigText text \<Rightarrow>
          (let (entries, err) = parseSSHConfig join text in if err then ErrorResponse 500 ''internal_error'' else JSONResponse 200 entries))"

section \<open>Start at login and the exit sentinel\<close>

text \<open>The platform's registration: whether it is set, and whether a change of it works.\<close>

definition handleAutostart :: "bool \<Rightarrow> bool option \<Rightarrow> bool \<Rightarrow> bool reply \<times> bool" where
  "handleAutostart works body enabled =
     (case body of
        None \<Rightarrow> (ErrorResponse 400 ''bad_request'', enabled)
      | Some want \<Rightarrow> (if works then (JSONResponse 200 want, want) else (ErrorResponse 500 ''autostart_error'', enabled)))"

text \<open>The file that marks a clean exit: written with the time, consumed by the check.\<close>

definition WriteGracefulExit :: "bool \<Rightarrow> string \<Rightarrow> string option \<Rightarrow> string option" where
  "WriteGracefulExit works now sentinel = (if works then Some now else sentinel)"

definition CheckGracefulExit :: "string option \<Rightarrow> bool \<times> string option" where
  "CheckGracefulExit sentinel = (case sentinel of None \<Rightarrow> (False, None) | Some text \<Rightarrow> (text \<noteq> [], None))"

section \<open>What the endpoints do\<close>

text \<open>A configuration request that is accepted stores the validated settings and nothing else: the server stays
  marked as provisioned, with its container, although the host may be another one.\<close>

theorem configure_keeps_provisioned:
  assumes "manager_ok (vh_mgr h)" and "handleVPSConfigure exists_file io uuid body h = (JSONResponse st b, h')"
  shows "\<exists>req. check_vps_settings exists_file (the body) = Some req \<and> live (vh_mgr h') = store_vps req (live (vh_mgr h))
    \<and> target (mgr_disk (vh_mgr h')) = Holds (live (vh_mgr h'))
    \<and> st_configured (handleVPSStatus h') \<and> st_host (handleVPSStatus h') = vs_Host req
    \<and> st_provisioned (handleVPSStatus h') = st_provisioned (handleVPSStatus h) \<and> st_taskStatus (handleVPSStatus h') = Some ''provisioning''"
proof -
  obtain req0 req where b: "body = Some req0" "check_vps_settings exists_file req0 = Some req"
    using assms(2) by (auto simp: handleVPSConfigure_def split: option.splits)
  obtain err m where u: "Manager_Update io (store_vps req) (vh_mgr h) = (err, m)" by (rule that) (rule prod.collapse [symmetric])
  have e: "err = None" using assms(2) b u by (cases err) (auto simp: handleVPSConfigure_def)
  then have h': "vh_mgr h' = m" "map_option pt_Status (vh_task h') = Some ''provisioning''"
    using assms(2) b u by (auto simp: handleVPSConfigure_def Let_def)
  have "live m = store_vps req (live (vh_mgr h))" "target (mgr_disk m) = Holds (live m)"
    using Manager_Update_step [OF assms(1) u] e by (auto simp: update_outcome_def)
  moreover have "vs_Host req \<noteq> []" using b(2) by (auto simp: check_vps_settings_def Let_def split: if_splits)
  ultimately show ?thesis using b h' by (auto simp: handleVPSStatus_def store_vps_def Let_def)
qed

text \<open>Two requests in a row: when the first provisioning ends, its result is written into the task of the second,
  which then counts as completed although it still runs.\<close>

theorem first_provision_completes_second:
  assumes "handleVPSConfigure f1 io1 u1 b1 h = (JSONResponse s1 (TaskStarted t1 x1), h1)"
    and "handleVPSConfigure f2 io2 u2 b2 h1 = (JSONResponse s2 (TaskStarted t2 x2), h2)" and "t1 \<noteq> t2"
    and "provision (vh_mgr h2) = (None, m)"
  shows "let h3 = runProvision_ends provision t1 h2 in
    vh_task h3 = Some \<lparr>pt_ID = t2, pt_Status = ''completed'', pt_Error = []\<rparr> \<and> t2 \<in> set (vh_running h3)"
  using assms by (auto simp: handleVPSConfigure_def runProvision_ends_def finish_task_def Let_def split: option.splits prod.splits)

text \<open>Requests to connect that arrive before the first one's background call begins are all accepted.\<close>

theorem connect_requests_pile_up:
  assumes "ts_status s \<notin> {''connected'', ''connecting''}"
  shows "((\<lambda>sp. snd (tunnel_handleConnect True sp)) ^^ n) (s, k) = (s, k + n)
    \<and> reply_status (fst (tunnel_handleConnect True (s, k + n))) = 202"
  using assms by (induction n) (auto simp: tunnel_handleConnect_def)

section \<open>Reading an SSH configuration back\<close>

definition word_ok :: "string \<Rightarrow> bool" where
  "word_ok w \<longleftrightarrow> w \<noteq> [] \<and> list_all (\<lambda>c. \<not> is_space c) w"

definition option_line :: "string \<Rightarrow> string \<Rightarrow> string" where
  "option_line key value = key @ CHR '' '' # value"

definition entry_lines :: "ssh_host_entry \<Rightarrow> string list" where
  "entry_lines e = [option_line ''Host'' (se_Host e)]
     @ (if se_HostName e = [] then [] else [option_line ''HostName'' (se_HostName e)])
     @ (if se_User e = [] then [] else [option_line ''User'' (se_User e)])
     @ (if se_Port e = 0 then [] else [option_line ''Port'' (show_nat (unat (se_Port e)))])
     @ (if se_IdentityFile e = [] then [] else [option_line ''IdentityFile'' (se_IdentityFile e)])"

definition entry_ok :: "ssh_host_entry \<Rightarrow> bool" where
  "entry_ok e \<longleftrightarrow> word_ok (se_Host e) \<and> CHR ''*'' \<notin> set (se_Host e) \<and> CHR ''?'' \<notin> set (se_Host e)
     \<and> (se_HostName e = [] \<or> word_ok (se_HostName e)) \<and> (se_User e = [] \<or> word_ok (se_User e))
     \<and> (se_IdentityFile e = [] \<or> word_ok (se_IdentityFile e)) \<and> \<not> has_prefix (se_IdentityFile e) ''~/''
     \<and> list_all (\<lambda>l. length l < 65536) (entry_lines e)"

lemma trim_space_word: "s \<noteq> [] \<Longrightarrow> \<not> is_space (hd s) \<Longrightarrow> \<not> is_space (last s) \<Longrightarrow> trim_space s = s"
  unfolding trim_space_def by (metis dropWhile_eq_self_iff hd_rev rev_is_Nil_conv rev_rev_ident)

lemma Fields_two: "word_ok a \<Longrightarrow> word_ok b \<Longrightarrow> Fields (option_line a b) = [a, b]"
proof -
  assume a: "word_ok a" and b: "word_ok b"
  have blank: "map (\<lambda>c. if is_space c then CHR '' '' else c) w = w" if "word_ok w" for w
    using that by (auto simp: word_ok_def list_all_iff map_idI)
  have no: "CHR '' '' \<notin> set w" if "word_ok w" for w using that by (auto simp: word_ok_def list_all_iff is_space_def)
  have "split_on CHR '' '' b = [b]" using no [OF b] by (induction b) auto
  then show ?thesis
    using a b no [OF a] blank by (simp add: Fields_def option_line_def split_on_append word_ok_def is_space_def)
qed

lemma ssh_line_words:
  assumes "word_ok k" and "hd k \<noteq> CHR ''#''" and "word_ok v"
  shows "ssh_line join st (option_line k v) =
    (if to_lower k = ''host'' then (close_entry st, if CHR ''*'' \<in> set v \<or> CHR ''?'' \<in> set v then None else Some (new_host v))
     else (fst st, map_option (ssh_option join (to_lower k) v) (snd st)))"
proof -
  have "trim_space (option_line k v) = option_line k v"
    using assms by (intro trim_space_word) (auto simp: option_line_def word_ok_def list_all_iff)
  moreover have "option_line k v \<noteq> []" "\<not> has_prefix (option_line k v) ''#''"
    using assms by (cases k; auto simp: option_line_def has_prefix_def word_ok_def)+
  ultimately show ?thesis using Fields_two [OF assms(1,3)] by (simp add: ssh_line_def Let_def)
qed

lemma port_loop_digits: "list_all is_digit s \<Longrightarrow> port_loop (of_int n) s = of_int (digits_value n s)"
proof (induction s arbitrary: n)
  case (Cons c cs)
  have "48 \<le> (of_char c :: nat)" using Cons.prems by (simp add: is_digit_def)
  then have "(of_int n * 10 + of_nat (of_char c - 48) :: 64 word) = of_int (n * 10 + (int (of_char c) - 48))"
    by (simp add: of_nat_diff)
  then have "port_loop (of_int n) (c # cs) = port_loop (of_int (n * 10 + (int (of_char c) - 48))) cs"
    using Cons.prems by (simp only: port_loop.simps list.pred_inject if_True)
  then show ?case using Cons.IH [of "n * 10 + (int (of_char c) - 48)"] Cons.prems by simp
qed simp

lemma port_loop_show: "port_loop 0 (show_nat (unat p)) = p"
  using port_loop_digits [OF show_nat_all_digits, of 0 "unat p"] by (simp add: digits_value_show_nat)

lemma word_ok_digits: "word_ok (show_nat n)"
  using show_nat_all_digits [of n] by (auto simp: word_ok_def list_all_iff is_digit_def is_space_def)

lemma key_words: "word_ok ''Host''" "word_ok ''HostName''" "word_ok ''User''" "word_ok ''Port''" "word_ok ''IdentityFile''"
  by (simp_all add: word_ok_def is_space_def)

lemma lower_keys: "to_lower ''Host'' = ''host''" "to_lower ''HostName'' = ''hostname''" "to_lower ''User'' = ''user''"
  "to_lower ''Port'' = ''port''" "to_lower ''IdentityFile'' = ''identityfile''"
  by code_simp+

lemmas read_line = ssh_line_words [OF key_words(1)] ssh_line_words [OF key_words(2)] ssh_line_words [OF key_words(3)]
  ssh_line_words [OF key_words(4)] ssh_line_words [OF key_words(5)]

lemma entry_read: "entry_ok e \<Longrightarrow> foldl (ssh_line join) st (entry_lines e) = (close_entry st, Some e)"
  unfolding entry_lines_def entry_ok_def
  by (cases e) (auto simp: read_line lower_keys ssh_option_def new_host_def port_loop_show word_ok_digits)

lemma entries_read: "list_all entry_ok es \<Longrightarrow> close_entry (foldl (ssh_line join) st (concat (map entry_lines es))) = close_entry st @ es"
proof (induction es arbitrary: st)
  case (Cons e es)
  then show ?case using Cons.IH [of "(close_entry st, Some e)"] by (simp add: entry_read) (simp add: close_entry_def)
qed simp

lemma entry_lines_newline: "entry_ok e \<Longrightarrow> l \<in> set (entry_lines e) \<Longrightarrow> newline \<notin> set l \<and> length l < 65536"
proof -
  assume e: "entry_ok e" and l: "l \<in> set (entry_lines e)"
  have no: "newline \<notin> set w" if "word_ok w" for w using that by (auto simp: word_ok_def list_all_iff is_space_def newline_def)
  have opt: "newline \<notin> set (option_line k w)" if "word_ok k" "word_ok w" for k w
    using no [OF that(1)] no [OF that(2)] by (auto simp: option_line_def newline_def)
  have "newline \<notin> set l"
    using l e opt [OF key_words(1)] opt [OF key_words(2)] opt [OF key_words(3)] opt [OF key_words(4) word_ok_digits] opt [OF key_words(5)]
    by (auto simp: entry_lines_def entry_ok_def split: if_splits)
  then show ?thesis using e l by (simp add: entry_ok_def list_all_iff)
qed

text \<open>A configuration with one block per host, in the usual form, is read back to exactly its hosts.\<close>

theorem ssh_config_roundtrip:
  assumes "list_all entry_ok es"
  shows "parseSSHConfig join (unlines (concat (map entry_lines es))) = (es, False)"
proof -
  let ?ls = "concat (map entry_lines es)"
  have ok: "\<forall>l \<in> set ?ls. newline \<notin> set l \<and> length l < 65536" using assms entry_lines_newline by (fastforce simp: list_all_iff)
  then have lines: "split_on newline (unlines ?ls) = ?ls @ [[]]" using split_unlines [of ?ls "[]"] by simp
  have tw: "takeWhile (\<lambda>l. length l < 65536) (?ls @ [[]]) = ?ls @ [[]]" using ok by (subst takeWhile_eq_all_conv) auto
  have "ssh_line join st [] = st" for st by (simp add: ssh_line_def trim_space_def)
  then show ?thesis
    using entries_read [OF assms, of join "([], None)"] unfolding parseSSHConfig_def lines Let_def tw by (simp add: close_entry_def)
qed

section \<open>Examples\<close>

definition sample_entry :: ssh_host_entry where
  "sample_entry = \<lparr>se_Host = ''vps'', se_HostName = ''203.0.113.7'', se_User = ''root'', se_Port = 2222, se_IdentityFile = ''/k''\<rparr>"

lemma sample_entry_ok: "entry_ok sample_entry"
  by (simp add: entry_ok_def sample_entry_def word_ok_def is_space_def entry_lines_def option_line_def has_prefix_def length_show_nat [of 2222 4])

theorem ssh_config_roundtrip_witness:
  "parseSSHConfig (\<lambda>p. p) (unlines (concat (map entry_lines [sample_entry, new_host ''b'']))) = ([sample_entry, new_host ''b''], False)"
  by (rule ssh_config_roundtrip) (simp add: sample_entry_ok, simp add: entry_ok_def new_host_def word_ok_def is_space_def entry_lines_def option_line_def has_prefix_def)

definition key_settings :: vps_settings where
  "key_settings = \<lparr>vs_Host = ''203.0.113.7'', vs_SSHPort = 0, vs_Username = ''root'', vs_AuthMode = ''key'', vs_PrivateKeyPath = ''/k'', vs_Password = []\<rparr>"

definition idle_handler :: vps_handler where
  "idle_handler = \<lparr>vh_mgr = ps_mgr web_state, vh_task = None, vh_running = []\<rparr>"

lemma configure_accepted:
  "\<exists>m. Manager_Update io_all_ok (store_vps (key_settings\<lparr>vs_SSHPort := 22\<rparr>)) (vh_mgr h) = (None, m) \<and>
     handleVPSConfigure (\<lambda>_. True) io_all_ok u (Some key_settings) h =
     (JSONResponse 202 (TaskStarted (''provision-'' @ take 8 u) ''provisioning''),
      h\<lparr>vh_mgr := m, vh_task := Some \<lparr>pt_ID = ''provision-'' @ take 8 u, pt_Status = ''provisioning'', pt_Error = []\<rparr>, vh_running := vh_running h @ [''provision-'' @ take 8 u]\<rparr>)"
proof -
  obtain m where m: "Manager_Update io_all_ok (store_vps (key_settings\<lparr>vs_SSHPort := 22\<rparr>)) (vh_mgr h) = (None, m)"
    by (simp add: Manager_Update_def saveLocked_def io_all_ok_def Let_def)
  have "check_vps_settings (\<lambda>_. True) key_settings = Some (key_settings\<lparr>vs_SSHPort := 22\<rparr>)" by (simp add: check_vps_settings_def key_settings_def)
  then show ?thesis using m by (simp add: handleVPSConfigure_def Let_def)
qed

theorem configure_keeps_provisioned_witness:
  "\<exists>b h'. handleVPSConfigure (\<lambda>_. True) io_all_ok ''12345678'' (Some key_settings) idle_handler = (JSONResponse 202 b, h')
     \<and> st_host (handleVPSStatus h') = ''203.0.113.7''"
proof -
  have "check_vps_settings (\<lambda>_. True) key_settings = Some (key_settings\<lparr>vs_SSHPort := 22\<rparr>)" by (simp add: check_vps_settings_def key_settings_def)
  moreover have "manager_ok (vh_mgr idle_handler)" using web_ok by (simp add: idle_handler_def ports_ok_def)
  ultimately show ?thesis
    using configure_accepted [of idle_handler "''12345678''"] configure_keeps_provisioned [of idle_handler "\<lambda>_. True" io_all_ok "''12345678''" "Some key_settings"]
    by (fastforce simp: key_settings_def)
qed

theorem first_provision_completes_second_witness:
  "\<exists>h2. vh_running h2 = [''provision-a'', ''provision-b'']
     \<and> vh_task (runProvision_ends (\<lambda>m. (None, m)) ''provision-a'' h2) = Some \<lparr>pt_ID = ''provision-b'', pt_Status = ''completed'', pt_Error = []\<rparr>"
proof -
  obtain m1 where c1: "handleVPSConfigure (\<lambda>_. True) io_all_ok ''a'' (Some key_settings) idle_handler = (JSONResponse 202 (TaskStarted ''provision-a'' ''provisioning''),
      idle_handler\<lparr>vh_mgr := m1, vh_task := Some \<lparr>pt_ID = ''provision-a'', pt_Status = ''provisioning'', pt_Error = []\<rparr>, vh_running := [''provision-a'']\<rparr>)" (is "_ = (_, ?h1)")
    using configure_accepted [of idle_handler "''a''"] by (auto simp: idle_handler_def)
  obtain m2 where c2: "handleVPSConfigure (\<lambda>_. True) io_all_ok ''b'' (Some key_settings) ?h1 = (JSONResponse 202 (TaskStarted ''provision-b'' ''provisioning''),
      ?h1\<lparr>vh_mgr := m2, vh_task := Some \<lparr>pt_ID = ''provision-b'', pt_Status = ''provisioning'', pt_Error = []\<rparr>, vh_running := [''provision-a'', ''provision-b'']\<rparr>)" (is "_ = (_, ?h2)")
    using configure_accepted [of ?h1 "''b''"] by auto
  show ?thesis using first_provision_completes_second [OF c1 c2, of "\<lambda>m. (None, m)" m2] by (intro exI [of _ ?h2]) (simp add: Let_def)
qed

theorem connect_requests_pile_up_witness:
  "((\<lambda>sp. snd (tunnel_handleConnect True sp)) ^^ 3) (NewTunnelManager m w, 0) = (NewTunnelManager m w, 3)"
  using connect_requests_pile_up [of "NewTunnelManager m w" 3 0] by (simp add: NewTunnelManager_def)

end
