(* ===== verification/Tray.thy ===== *)
theory Tray
  imports Daemon_Api
begin

text \<open>
  The tray application (\<open>traylogic/\<close>), its client of the daemon's API (\<open>trayapi/client.go\<close>) and the network monitor
  (\<open>platform/network_monitor.go\<close>): health and status polling, the icon and menu, throttled notifications and the
  reconnection loop. Each turn of a loop is one step; what the daemon, the network and the clock answer
  are its arguments. What the tray shows (icon, tooltip, menu) is kept beside the logical state.
\<close>

section \<open>State\<close>

datatype icon = IconGreen | IconYellow | IconRed

datatype severity = SeverityInfo | SeverityWarning | SeverityError

record tray_state =
  tk_IconState :: icon
  tk_TunnelStatus :: string
  tk_DaemonAlive :: bool
  tk_VPSName :: string
  tk_ExposedCount :: nat

record menu_item =
  mi_ID :: string
  mi_Disabled :: bool
  mi_Checked :: bool

record notification =
  nt_time :: instant
  nt_title :: string
  nt_body :: string
  nt_severity :: severity

record tray_app =
  ta_state :: tray_state
  ta_fails :: nat
  ta_lastSent :: "string \<rightharpoonup> instant"
  ta_sent :: "notification list"
  ta_icon :: icon
  ta_tooltip :: string
  ta_menu :: "menu_item list"
  ta_autostart :: bool

section \<open>Notifications\<close>

definition cooldown :: duration where
  "cooldown = 60 * second"

text \<open>The event type of the throttle is the title. What is sent is remembered in \<open>ta_sent\<close>.\<close>

definition notify :: "instant \<Rightarrow> string \<Rightarrow> string \<Rightarrow> severity \<Rightarrow> tray_app \<Rightarrow> tray_app" where
  "notify now title body sev a =
     (case ta_lastSent a title of
        Some sent \<Rightarrow>
          if now - sent < cooldown then a
          else a\<lparr>ta_lastSent := (ta_lastSent a)(title \<mapsto> now), ta_sent := ta_sent a @ [\<lparr>nt_time = now, nt_title = title, nt_body = body, nt_severity = sev\<rparr>]\<rparr>
      | None \<Rightarrow>
          a\<lparr>ta_lastSent := (ta_lastSent a)(title \<mapsto> now), ta_sent := ta_sent a @ [\<lparr>nt_time = now, nt_title = title, nt_body = body, nt_severity = sev\<rparr>]\<rparr>)"

section \<open>Icon, tooltip and menu\<close>

fun itoa2_loop :: "nat \<Rightarrow> string" where
  "itoa2_loop n = (if n = 0 then [] else itoa2_loop (n div 10) @ [char_of (48 + n mod 10)])"

declare itoa2_loop.simps [simp del]

definition itoa2 :: "nat \<Rightarrow> string" where
  "itoa2 n = (if n = 0 then ''0'' else itoa2_loop n)"

definition buildTooltip :: "tray_state \<Rightarrow> string" where
  "buildTooltip st =
     (if \<not> tk_DaemonAlive st then ''unet: Daemon not running''
      else if tk_TunnelStatus st = ''connected'' then
        ''unet: Connected ('' @ (if tk_VPSName st = [] then ''unknown'' else tk_VPSName st) @ ''), '' @ itoa2 (tk_ExposedCount st) @ '' routes''
      else if tk_TunnelStatus st = ''connecting'' then ''unet: Connecting...''
      else ''unet: Disconnected'')"

definition icon_of :: "tray_state \<Rightarrow> icon" where
  "icon_of st =
     (if \<not> tk_DaemonAlive st then IconRed
      else if tk_TunnelStatus st = ''connected'' then IconGreen
      else if tk_TunnelStatus st = ''connecting'' then IconYellow
      else IconRed)"

definition updateStateIcon :: "tray_app \<Rightarrow> tray_app" where
  "updateStateIcon a =
     (let st = (ta_state a)\<lparr>tk_IconState := icon_of (ta_state a)\<rparr>
      in a\<lparr>ta_state := st, ta_icon := tk_IconState st, ta_tooltip := buildTooltip st\<rparr>)"

definition buildMenu :: "tray_app \<Rightarrow> menu_item list" where
  "buildMenu a =
     (let st = ta_state a; item = (\<lambda>i d c. \<lparr>mi_ID = i, mi_Disabled = d, mi_Checked = c\<rparr>) in
      (if tk_DaemonAlive st then [item (if tk_TunnelStatus st = ''connected'' then ''disconnect'' else ''connect'') False False] else [])
      @ [item ''copy_url'' (tk_ExposedCount st = 0) False, item ''open_admin'' False False, item ''sep1'' False False,
         item ''autostart'' False (ta_autostart a), item ''sep2'' False False]
      @ (if \<not> tk_DaemonAlive st then [item ''restart_daemon'' False False] else [])
      @ [item ''about'' False False, item ''quit'' False False])"

definition NewApp :: "bool \<Rightarrow> tray_app" where
  "NewApp autostart = \<lparr>ta_state = \<lparr>tk_IconState = IconRed, tk_TunnelStatus = ''disconnected'', tk_DaemonAlive = False, tk_VPSName = [], tk_ExposedCount = 0\<rparr>,
     ta_fails = 0, ta_lastSent = Map.empty, ta_sent = [], ta_icon = IconRed, ta_tooltip = [], ta_menu = [], ta_autostart = autostart\<rparr>"

definition Run :: "tray_app \<Rightarrow> tray_app" where
  "Run a = (let b = a\<lparr>ta_icon := IconRed, ta_tooltip := ''unet: starting...''\<rparr> in b\<lparr>ta_menu := buildMenu b\<rparr>)"

text \<open>Toggling start at login: the platform may refuse; the menu is rebuilt in any case.\<close>

definition actionToggleAutostart :: "bool \<Rightarrow> tray_app \<Rightarrow> tray_app" where
  "actionToggleAutostart works a =
     (let b = (if works then a\<lparr>ta_autostart := \<not> ta_autostart a\<rparr> else a) in b\<lparr>ta_menu := buildMenu b\<rparr>)"

definition actionConnect :: "instant \<Rightarrow> bool \<Rightarrow> tray_app \<Rightarrow> tray_app" where
  "actionConnect now ok a = (if ok then a else notify now ''unet'' ''Failed to connect tunnel'' SeverityError a)"

definition actionAbout :: "instant \<Rightarrow> string \<Rightarrow> tray_app \<Rightarrow> tray_app" where
  "actionAbout now version a = notify now ''unet'' (''unet v'' @ version) SeverityInfo a"

section \<open>The client\<close>

record daemon_port =
  dp_FQDN :: string
  dp_Status :: string

record daemon_status =
  ds_Tunnel :: string
  ds_Host :: string
  ds_Ports :: "daemon_port list"

text \<open>What the client makes of an answer of the daemon's status endpoint: the fields it names, as far as they are
  there. The ports that the daemon lists have no \<open>fqdn\<close>.\<close>

definition decode_status :: "system_status \<Rightarrow> daemon_status" where
  "decode_status s = \<lparr>ds_Tunnel = sy_TunnelStatus s, ds_Host = sy_Host s,
     ds_Ports = map (\<lambda>p. \<lparr>dp_FQDN = [], dp_Status = pr_Status p\<rparr>) (sy_Ports s)\<rparr>"

text \<open>The exchanges: no answer, or a status code.\<close>

definition GetStatus :: "(int \<times> daemon_status option) option \<Rightarrow> daemon_status option" where
  "GetStatus resp = (case resp of None \<Rightarrow> None | Some (code, body) \<Rightarrow> if code \<noteq> 200 then None else body)"

definition HealthCheck :: "(int \<times> daemon_status option) option \<Rightarrow> bool" where
  "HealthCheck resp = (case resp of None \<Rightarrow> False | Some (code, _) \<Rightarrow> code = 200)"

definition postAction :: "int option \<Rightarrow> bool" where
  "postAction resp = (case resp of None \<Rightarrow> False | Some code \<Rightarrow> code < 400)"

definition GetPortURLs :: "daemon_status option \<Rightarrow> string list option" where
  "GetPortURLs status = map_option (\<lambda>s. map (\<lambda>p. ''https://'' @ dp_FQDN p)
     (filter (\<lambda>p. dp_Status p = ''active'' \<and> dp_FQDN p \<noteq> []) (ds_Ports s))) status"

text \<open>The clipboard after the click.\<close>

definition actionCopyURL :: "daemon_status option \<Rightarrow> string \<Rightarrow> string" where
  "actionCopyURL status clipboard = (case GetPortURLs status of None \<Rightarrow> clipboard | Some [] \<Rightarrow> clipboard | Some (u # _) \<Rightarrow> u)"

definition discoverPort :: "string \<Rightarrow> int option \<Rightarrow> int" where
  "discoverPort envPort configured =
     (case (if envPort = [] then None else Atoi envPort) of
        Some p \<Rightarrow> if p > 0 then p else (case configured of Some q \<Rightarrow> if q > 0 then q else 8080 | None \<Rightarrow> 8080)
      | None \<Rightarrow> (case configured of Some q \<Rightarrow> if q > 0 then q else 8080 | None \<Rightarrow> 8080))"

section \<open>Polling\<close>

definition healthFailThreshold :: nat where
  "healthFailThreshold = 3"

definition health_tick :: "instant \<Rightarrow> bool \<Rightarrow> tray_app \<Rightarrow> tray_app" where
  "health_tick now alive a =
     (let wasAlive = tk_DaemonAlive (ta_state a); a1 = a\<lparr>ta_state := (ta_state a)\<lparr>tk_DaemonAlive := alive\<rparr>\<rparr> in
      if alive then
        (let a2 = a1\<lparr>ta_fails := 0\<rparr> in
         if \<not> wasAlive then notify now ''unet'' ''Daemon recovered'' SeverityInfo a2 else a2)
      else
        (let a2 = a1\<lparr>ta_fails := ta_fails a1 + 1\<rparr> in
         if wasAlive \<and> ta_fails a2 \<ge> healthFailThreshold then
           updateStateIcon (notify now ''unet'' ''Daemon stopped'' SeverityError a2)
         else a2))"

definition pollDaemonStatus :: "daemon_status option \<Rightarrow> tray_app \<Rightarrow> tray_app" where
  "pollDaemonStatus status a =
     (case status of
        None \<Rightarrow> a
      | Some s \<Rightarrow> updateStateIcon (a\<lparr>ta_state := (ta_state a)\<lparr>tk_TunnelStatus := ds_Tunnel s, tk_VPSName := ds_Host s,
          tk_ExposedCount := length (filter (\<lambda>p. dp_Status p = ''active'') (ds_Ports s))\<rparr>\<rparr>))"

definition poll_interval :: "tray_app \<Rightarrow> duration" where
  "poll_interval a = (if tk_TunnelStatus (ta_state a) \<noteq> ''connected'' then 10 * second else 3 * second)"

section \<open>Reconnecting\<close>

definition backoffInitial :: duration where
  "backoffInitial = second"

definition backoffCap :: duration where
  "backoffCap = 60 * second"

definition next_delay :: "duration \<Rightarrow> duration" where
  "next_delay delay = min (delay * 2) backoffCap"

definition cannot_reach :: string where
  "cannot_reach = ''Cannot reach VPS '' @ [CHR 0xE2, CHR 0x80, CHR 0x94] @ '' check network''"

text \<open>One attempt: the disconnection's result is ignored, the connection's ends the loop or not.\<close>

definition reconnect_attempt :: "instant \<Rightarrow> nat \<Rightarrow> bool \<Rightarrow> tray_app \<Rightarrow> tray_app" where
  "reconnect_attempt now attempt ok a =
     (let a1 = updateStateIcon (a\<lparr>ta_state := (ta_state a)\<lparr>tk_TunnelStatus := ''connecting''\<rparr>\<rparr>) in
      if ok then notify now ''unet'' ''Tunnel connected'' SeverityInfo a1
      else if attempt = 3 then notify now ''unet'' cannot_reach SeverityError a1 else a1)"

datatype wake = TimerFires | NetworkRestored | OtherEvent | EventsClosed | ContextDone

record reconnect_round =
  rr_now :: instant
  rr_connected :: bool
  rr_wake :: wake

datatype reconnect_end = Reconnected | Stopped | StillTrying

text \<open>The loop over the rounds the environment gives: how it ends, the delays it waits with, and the tray.\<close>

fun doReconnectBackoff :: "nat \<Rightarrow> duration \<Rightarrow> reconnect_round list \<Rightarrow> tray_app \<Rightarrow> reconnect_end \<times> duration list \<times> tray_app" where
  "doReconnectBackoff attempt delay [] a = (StillTrying, [], a)"
| "doReconnectBackoff attempt delay (r # rs) a =
     (let a1 = reconnect_attempt (rr_now r) (attempt + 1) (rr_connected r) a in
      if rr_connected r then (Reconnected, [], a1)
      else (case rr_wake r of
          ContextDone \<Rightarrow> (Stopped, [delay], a1)
        | EventsClosed \<Rightarrow> (Stopped, [delay], a1)
        | w \<Rightarrow> (let d = next_delay (if w = NetworkRestored then backoffInitial else delay);
                    (e, ds, a2) = doReconnectBackoff (attempt + 1) d rs a1
                in (e, delay # ds, a2))))"

section \<open>The network monitor\<close>

datatype network_event = ReachabilityLost | ReachabilityRestored

text \<open>One probe: whether the network was reachable, the failures in a row, and the event that is sent, if any.\<close>

definition monitor_tick :: "bool \<Rightarrow> bool \<times> nat \<Rightarrow> network_event option \<times> bool \<times> nat" where
  "monitor_tick reachable st =
     (let (wasReachable, fails) = st; failCount = (if reachable then 0 else fails + 1) in
      if wasReachable \<and> failCount \<ge> 2 then
        (Some ReachabilityLost, False, failCount)
      else if \<not> wasReachable \<and> reachable then (Some ReachabilityRestored, True, 0)
      else (None, wasReachable, failCount))"

fun monitor_run :: "bool list \<Rightarrow> bool \<times> nat \<Rightarrow> network_event list" where
  "monitor_run [] st = []"
| "monitor_run (p # ps) st = (case monitor_tick p st of (e, st1) \<Rightarrow> (case e of None \<Rightarrow> [] | Some x \<Rightarrow> [x]) @ monitor_run ps st1)"

section \<open>The tray's steps\<close>

datatype tray_op = HealthStep instant bool | PollStep "daemon_status option" | AttemptStep instant nat bool
  | ToggleStep bool | ConnectClick instant bool | AboutClick instant string

fun tray_step :: "tray_op \<Rightarrow> tray_app \<Rightarrow> tray_app" where
  "tray_step (HealthStep now alive) a = health_tick now alive a"
| "tray_step (PollStep status) a = pollDaemonStatus status a"
| "tray_step (AttemptStep now n ok) a = reconnect_attempt now n ok a"
| "tray_step (ToggleStep works) a = actionToggleAutostart works a"
| "tray_step (ConnectClick now ok) a = actionConnect now ok a"
| "tray_step (AboutClick now version) a = actionAbout now version a"

lemma notify_fields [simp]:
  "ta_state (notify t x b v a) = ta_state a" "ta_fails (notify t x b v a) = ta_fails a" "ta_icon (notify t x b v a) = ta_icon a"
  "ta_tooltip (notify t x b v a) = ta_tooltip a" "ta_menu (notify t x b v a) = ta_menu a"
  by (simp_all add: notify_def split: option.split)

lemma update_fields [simp]:
  "ta_fails (updateStateIcon a) = ta_fails a" "ta_lastSent (updateStateIcon a) = ta_lastSent a" "ta_sent (updateStateIcon a) = ta_sent a"
  "ta_menu (updateStateIcon a) = ta_menu a" "tk_DaemonAlive (ta_state (updateStateIcon a)) = tk_DaemonAlive (ta_state a)"
  by (simp_all add: updateStateIcon_def Let_def)

lemmas step_defs = health_tick_def pollDaemonStatus_def reconnect_attempt_def actionToggleAutostart_def actionConnect_def actionAbout_def Let_def

text \<open>A living daemon has no failures counted, since the same loop sets both.\<close>

definition health_ok :: "tray_app \<Rightarrow> bool" where
  "health_ok a \<longleftrightarrow> (tk_DaemonAlive (ta_state a) \<longrightarrow> ta_fails a = 0)"

lemma step_health_ok: "health_ok a \<Longrightarrow> health_ok (tray_step q a)"
  by (cases q) (auto simp: health_ok_def step_defs split: option.split)

lemma steps_health_ok: "health_ok a \<Longrightarrow> health_ok (fold tray_step qs a)"
  by (induction qs arbitrary: a) (simp_all add: step_health_ok)

lemma start_health_ok: "health_ok (Run (NewApp auto))"
  by (simp add: health_ok_def Run_def NewApp_def Let_def)

text \<open>So the threshold of three failures is never met by a daemon that was alive.\<close>

lemma dead_tick: "health_ok a \<Longrightarrow> health_tick now False a = a\<lparr>ta_state := (ta_state a)\<lparr>tk_DaemonAlive := False\<rparr>, ta_fails := ta_fails a + 1\<rparr>"
  by (auto simp: health_ok_def health_tick_def healthFailThreshold_def Let_def)

section \<open>A daemon that dies\<close>

lemma notify_sent: "ta_sent (notify t x b v a) = ta_sent a \<or>
    ta_sent (notify t x b v a) = ta_sent a @ [\<lparr>nt_time = t, nt_title = x, nt_body = b, nt_severity = v\<rparr>]"
  by (simp add: notify_def split: option.split)

text \<open>A step is silent or passes one notification to the throttle, with the same title always, and never with the
  body that announces a dead daemon.\<close>

lemma step_notes:
  assumes "health_ok a"
  obtains (silent) "ta_sent (tray_step q a) = ta_sent a" "ta_lastSent (tray_step q a) = ta_lastSent a"
  | (shown) t b v c where "tray_step q a = notify t ''unet'' b v c" "ta_sent c = ta_sent a" "ta_lastSent c = ta_lastSent a" "b \<noteq> ''Daemon stopped''"
proof (cases q)
  case (HealthStep now alive)
  let ?a1 = "a\<lparr>ta_state := (ta_state a)\<lparr>tk_DaemonAlive := True\<rparr>, ta_fails := 0\<rparr>"
  show ?thesis
  proof (cases "alive \<and> \<not> tk_DaemonAlive (ta_state a)")
    case True
    then show ?thesis using HealthStep by (intro shown [of now "''Daemon recovered''" SeverityInfo ?a1]) (simp_all add: health_tick_def Let_def)
  next
    case False
    then show ?thesis using HealthStep dead_tick [OF assms] by (intro silent; cases alive) (simp_all add: health_tick_def Let_def)
  qed
next
  case (AttemptStep now n ok)
  let ?a1 = "updateStateIcon (a\<lparr>ta_state := (ta_state a)\<lparr>tk_TunnelStatus := ''connecting''\<rparr>\<rparr>)"
  consider "ok" | "\<not> ok \<and> n = 3" | "\<not> ok \<and> n \<noteq> 3" by blast
  then show ?thesis
  proof cases
    case 1
    then show ?thesis using AttemptStep by (intro shown [of now "''Tunnel connected''" SeverityInfo ?a1]) (simp_all add: reconnect_attempt_def Let_def)
  next
    case 2
    then show ?thesis using AttemptStep
      by (intro shown [of now cannot_reach SeverityError ?a1]) (simp_all add: reconnect_attempt_def Let_def cannot_reach_def)
  next
    case 3
    then show ?thesis using AttemptStep by (intro silent) (simp_all add: reconnect_attempt_def Let_def)
  qed
next
  case (ConnectClick now ok)
  show ?thesis
  proof (cases ok)
    case False
    then show ?thesis using ConnectClick by (intro shown [of now "''Failed to connect tunnel''" SeverityError a]) (simp_all add: actionConnect_def)
  qed (use ConnectClick in \<open>intro silent; simp add: actionConnect_def\<close>)
next
  case (AboutClick now version)
  then show ?thesis by (intro shown [of now "''unet v'' @ version" SeverityInfo a]) (simp_all add: actionAbout_def)
qed (intro silent; simp add: step_defs split: option.split)+

lemma steps_induct:
  assumes "P (Run (NewApp auto))" and "\<And>q a. health_ok a \<Longrightarrow> P a \<Longrightarrow> P (tray_step q a)"
  shows "P (fold tray_step qs (Run (NewApp auto)))"
proof -
  have "P (fold tray_step qs a)" if "health_ok a" "P a" for a
    using that assms(2) step_health_ok by (induction qs arbitrary: a) simp_all
  then show ?thesis using assms(1) start_health_ok by blast
qed

lemma start_silent [simp]: "ta_sent (Run (NewApp auto)) = []" "ta_lastSent (Run (NewApp auto)) = Map.empty"
  by (simp_all add: Run_def NewApp_def Let_def)

text \<open>C32: That the daemon has stopped is never announced, however long it stays dead and whatever else happens: the test
  that three checks in a row failed is made only when the check before had succeeded.\<close>

theorem daemon_death_never_announced:
  "''Daemon stopped'' \<notin> nt_body ` set (ta_sent (fold tray_step qs (Run (NewApp auto))))"
proof (rule steps_induct)
  fix q a assume h: "health_ok a" and n: "''Daemon stopped'' \<notin> nt_body ` set (ta_sent a)"
  show "''Daemon stopped'' \<notin> nt_body ` set (ta_sent (tray_step q a))"
  proof (rule step_notes [OF h, of q])
    fix t b v c assume "tray_step q a = notify t ''unet'' b v c" "ta_sent c = ta_sent a" "b \<noteq> ''Daemon stopped''"
    then show ?thesis using notify_sent [of t "''unet''" b v c] n by auto
  qed (use n in simp)
qed simp

definition dead_op :: "tray_op \<Rightarrow> bool" where
  "dead_op q \<longleftrightarrow> q = PollStep None \<or> (\<exists>now. q = HealthStep now False)"

text \<open>While the daemon is dead, all health checks fail and all status requests too. Then the tray goes on showing what
  it showed when the daemon was last alive: a green icon stays green.\<close>

theorem dead_daemon_keeps_icon:
  assumes "list_all dead_op dead"
  shows "let a = fold tray_step qs (Run (NewApp auto)); b = fold tray_step dead a in
    ta_icon b = ta_icon a \<and> ta_tooltip b = ta_tooltip a \<and> ta_menu b = ta_menu a \<and> ta_sent b = ta_sent a"
proof -
  have "health_ok a \<Longrightarrow> ta_icon (fold tray_step dead a) = ta_icon a \<and> ta_tooltip (fold tray_step dead a) = ta_tooltip a
      \<and> ta_menu (fold tray_step dead a) = ta_menu a \<and> ta_sent (fold tray_step dead a) = ta_sent a" for a
    using assms
  proof (induction dead arbitrary: a)
    case (Cons q qs)
    have "ta_icon (tray_step q a) = ta_icon a \<and> ta_tooltip (tray_step q a) = ta_tooltip a \<and> ta_menu (tray_step q a) = ta_menu a
        \<and> ta_sent (tray_step q a) = ta_sent a"
      using Cons.prems by (auto simp: dead_op_def pollDaemonStatus_def dead_tick)
    then show ?case using Cons.IH [OF step_health_ok [OF Cons.prems(1)]] Cons.prems(2) by simp
  qed simp
  then show ?thesis using steps_health_ok [OF start_health_ok] by (simp add: Let_def)
qed

section \<open>The throttle\<close>

definition throttle_ok :: "tray_app \<Rightarrow> bool" where
  "throttle_ok a \<longleftrightarrow> ta_lastSent a = (if ta_sent a = [] then Map.empty else [''unet'' \<mapsto> nt_time (last (ta_sent a))])
     \<and> sorted_wrt (\<lambda>x y. nt_time y - nt_time x \<ge> cooldown) (ta_sent a)"

lemma sorted_wrt_snoc_trans:
  assumes "sorted_wrt R xs" and "xs = [] \<or> R (last xs) y" and "\<And>a b c. R a b \<Longrightarrow> R b c \<Longrightarrow> R a c"
  shows "sorted_wrt R (xs @ [y])"
proof -
  have "R x y" if "x \<in> set xs" for x
  proof (cases "x = last xs")
    case False
    then have "x \<in> set (butlast xs)" using that by (metis in_set_butlastD snoc_eq_iff_butlast append_butlast_last_id empty_iff list.set(1) rotate1.simps(2) set_ConsD set_rotate1)
    moreover have "sorted_wrt R (butlast xs @ [last xs])" using assms(1) that by (metis append_butlast_last_id empty_iff list.set(1))
    ultimately have "R x (last xs)" by (simp add: sorted_wrt_append)
    then show ?thesis using assms(2,3) that by fastforce
  qed (use assms(2) that in auto)
  then show ?thesis using assms(1) by (simp add: sorted_wrt_append)
qed

lemma notify_throttle: "throttle_ok a \<Longrightarrow> throttle_ok (notify t ''unet'' b v a)"
proof -
  assume a: "throttle_ok a"
  show ?thesis
  proof (cases "ta_sent a = [] \<or> t - nt_time (last (ta_sent a)) \<ge> cooldown")
    case True
    let ?n = "\<lparr>nt_time = t, nt_title = ''unet'', nt_body = b, nt_severity = v\<rparr>"
    have "sorted_wrt (\<lambda>x y. nt_time y - nt_time x \<ge> cooldown) (ta_sent a @ [?n])"
      using a True by (intro sorted_wrt_snoc_trans) (auto simp: throttle_ok_def cooldown_def second_def)
    then show ?thesis using a True by (auto simp: throttle_ok_def notify_def)
  next
    case False
    then show ?thesis using a by (auto simp: throttle_ok_def notify_def)
  qed
qed

lemma throttle_cong: "ta_lastSent a = ta_lastSent b \<Longrightarrow> ta_sent a = ta_sent b \<Longrightarrow> throttle_ok a = throttle_ok b"
  by (simp add: throttle_ok_def)

text \<open>All notifications have the same title and so the same event type: of any two that are shown, whatever they are
  about, the later comes at least a minute after the earlier. An error is dropped when something else was
  shown in the minute before.\<close>

theorem one_notification_per_minute:
  "sorted_wrt (\<lambda>x y. nt_time y - nt_time x \<ge> 60 * second) (ta_sent (fold tray_step qs (Run (NewApp auto))))"
proof -
  have "throttle_ok (fold tray_step qs (Run (NewApp auto)))"
  proof (rule steps_induct)
    fix q a assume h: "health_ok a" and t: "throttle_ok a"
    show "throttle_ok (tray_step q a)"
    proof (rule step_notes [OF h, of q])
      fix x b v c assume c: "tray_step q a = notify x ''unet'' b v c" "ta_sent c = ta_sent a" "ta_lastSent c = ta_lastSent a"
      then have "throttle_ok c" using t by (simp add: throttle_ok_def)
      then show ?thesis using c(1) notify_throttle by simp
    qed (use t in \<open>simp add: throttle_ok_def\<close>)
  qed (simp add: throttle_ok_def)
  then show ?thesis by (simp add: throttle_ok_def cooldown_def)
qed

section \<open>The menu and the clipboard\<close>

definition is_toggle :: "tray_op \<Rightarrow> bool" where
  "is_toggle q \<longleftrightarrow> (case q of ToggleStep _ \<Rightarrow> True | _ \<Rightarrow> False)"

lemma step_menu: "\<not> is_toggle q \<Longrightarrow> ta_menu (tray_step q a) = ta_menu a"
  by (cases q) (auto simp: is_toggle_def step_defs split: option.split)

text \<open>The menu is built once, before the daemon's state is known, and again only when start at login is toggled. Until
  then it never offers to connect or disconnect, and copying the address stays disabled, although the
  daemon is alive and ports are exposed.\<close>

theorem menu_never_refreshed:
  assumes "list_all (\<lambda>q. \<not> is_toggle q) qs"
  shows "map mi_ID (ta_menu (fold tray_step qs (Run (NewApp auto))))
      = [''copy_url'', ''open_admin'', ''sep1'', ''autostart'', ''sep2'', ''restart_daemon'', ''about'', ''quit'']
    \<and> mi_Disabled (hd (ta_menu (fold tray_step qs (Run (NewApp auto)))))"
proof -
  have "ta_menu (fold tray_step qs a) = ta_menu a" for a
    using assms by (induction qs arbitrary: a) (simp_all add: step_menu)
  then show ?thesis by (simp add: Run_def NewApp_def buildMenu_def Let_def)
qed

text \<open>The daemon's answer names no addresses, so that the click on "Copy public URL" leaves the clipboard as it is,
  whatever ports the configuration has.\<close>

theorem copy_url_never_copies:
  "actionCopyURL (GetStatus (Some (200, Some (decode_status (handleSystemStatus priv port cfg))))) clipboard = clipboard"
proof -
  have "filter (\<lambda>p. dp_Status p = ''active'' \<and> dp_FQDN p \<noteq> []) (ds_Ports (decode_status (handleSystemStatus priv port cfg))) = []"
    by (auto simp: decode_status_def filter_empty_conv)
  then show ?thesis by (simp add: actionCopyURL_def GetPortURLs_def GetStatus_def)
qed

section \<open>Backing off\<close>

text \<open>The delays while every attempt fails and no event says that the network is back: they double from one second
  up to a minute.\<close>

lemma delays_double:
  assumes "\<forall>r \<in> set rs. \<not> rr_connected r \<and> rr_wake r \<in> {TimerFires, OtherEvent}" and "d = min backoffCap (2 ^ k * second)"
  shows "fst (snd (doReconnectBackoff n d rs a)) = map (\<lambda>i. min backoffCap (2 ^ (k + i) * second)) [0..<length rs]
    \<and> fst (doReconnectBackoff n d rs a) = StillTrying"
  using assms
proof (induction rs arbitrary: n d k a)
  case (Cons r rs)
  have d: "next_delay d = min backoffCap (2 ^ (Suc k) * second)"
    using Cons.prems(2) by (simp add: next_delay_def backoffCap_def second_def min_def)
  obtain e ds b where ih: "doReconnectBackoff (n + 1) (next_delay d) rs (reconnect_attempt (rr_now r) (n + 1) False a) = (e, ds, b)"
    by (metis prod.collapse)
  have "e = StillTrying \<and> ds = map (\<lambda>i. min backoffCap (2 ^ (Suc k + i) * second)) [0..<length rs]"
    using Cons.IH [OF _ d, of "n + 1" "reconnect_attempt (rr_now r) (n + 1) False a"] Cons.prems(1) ih by simp
  moreover have "[0..<length (r # rs)] = 0 # map Suc [0..<length rs]" by (simp add: upt_conv_Cons map_Suc_upt del: upt_Suc)
  ultimately show ?case using Cons.prems ih by (auto simp: Let_def comp_def)
qed simp

theorem backoff_doubles_to_a_minute:
  assumes "\<forall>r \<in> set rs. \<not> rr_connected r \<and> rr_wake r \<in> {TimerFires, OtherEvent}"
  shows "fst (snd (doReconnectBackoff 0 backoffInitial rs a)) = map (\<lambda>i. min (60 * second) (2 ^ i * second)) [0..<length rs]"
  using delays_double [OF assms, of backoffInitial 0 0 a] by (simp add: backoffInitial_def backoffCap_def second_def)

lemma delays_bounded:
  "second \<le> d \<Longrightarrow> d \<le> backoffCap \<Longrightarrow> list_all (\<lambda>x. second \<le> x \<and> x \<le> backoffCap) (fst (snd (doReconnectBackoff n d rs a)))"
proof (induction rs arbitrary: n d a)
  case (Cons r rs)
  have "second \<le> next_delay d \<and> next_delay d \<le> backoffCap" "second \<le> next_delay backoffInitial \<and> next_delay backoffInitial \<le> backoffCap"
    using Cons.prems by (auto simp: next_delay_def backoffInitial_def backoffCap_def second_def)
  then show ?case
    using Cons.prems Cons.IH [of "next_delay d" "n + 1" "reconnect_attempt (rr_now r) (n + 1) False a"]
      Cons.IH [of "next_delay backoffInitial" "n + 1" "reconnect_attempt (rr_now r) (n + 1) False a"]
    by (cases "rr_connected r"; cases "rr_wake r") (simp_all add: Let_def split_beta)
qed simp

text \<open>Whatever happens, every wait is between a second and a minute.\<close>

theorem backoff_bounded:
  "list_all (\<lambda>d. second \<le> d \<and> d \<le> 60 * second) (fst (snd (doReconnectBackoff n backoffInitial rs a)))"
  using delays_bounded [of backoffInitial n rs a] by (simp add: backoffInitial_def backoffCap_def second_def)

text \<open>The daemon answers a connection request before it connects. So the loop's first attempt counts as success and
  announces a connected tunnel while the tunnel is as it was.\<close>

theorem reconnect_reports_early:
  assumes "ts_status s \<notin> {''connected'', ''connecting''}" and "tunnel_handleConnect True (s, k) = (reply, s', k')"
    and "rr_connected r = postAction (Some (reply_status reply))" and "ta_sent a = []" and "ta_lastSent a = Map.empty"
  shows "fst (doReconnectBackoff 0 backoffInitial [r] a) = Reconnected \<and> s' = s
    \<and> map nt_body (ta_sent (snd (snd (doReconnectBackoff 0 backoffInitial [r] a)))) = [''Tunnel connected'']"
proof -
  have "s' = s" "rr_connected r" using assms(1-3) by (auto simp: tunnel_handleConnect_def postAction_def)
  then show ?thesis using assms(4,5) by (simp add: reconnect_attempt_def notify_def Let_def)
qed

section \<open>The events of the monitor\<close>

fun alternating :: "bool \<Rightarrow> network_event list \<Rightarrow> bool" where
  "alternating reachable [] \<longleftrightarrow> True"
| "alternating reachable (e # es) \<longleftrightarrow> e = (if reachable then ReachabilityLost else ReachabilityRestored) \<and> alternating (\<not> reachable) es"

text \<open>The monitor reports losses and recoveries in turn, the first event being a loss.\<close>

lemma monitor_alternates: "alternating w (monitor_run ps (w, n))"
  by (induction ps arbitrary: w n) (auto simp: monitor_tick_def Let_def split: prod.split)

text \<open>One failed probe between successes is never reported, two in a row always are, and the recovery at once.\<close>

theorem monitor_needs_two_failures:
  "alternating True (monitor_run ps (True, 0))
   \<and> (ReachabilityLost \<in> set (monitor_run ps (True, 0)) \<longleftrightarrow> (\<exists>us vs. ps = us @ [False, False] @ vs))"
proof -
  have two: "ReachabilityLost \<in> set (monitor_run ps (True, n)) \<longleftrightarrow> (\<exists>us vs. ps = us @ [False, False] @ vs) \<or> n = 1 \<and> (\<exists>vs. ps = False # vs)"
    if "n \<le> 1" for n
    using that
  proof (induction ps arbitrary: n)
    case (Cons p ps)
    have split: "(\<exists>us vs. p # ps = us @ [False, False] @ vs) \<longleftrightarrow> (\<exists>us vs. ps = us @ [False, False] @ vs) \<or> \<not> p \<and> (\<exists>vs. ps = False # vs)"
      by (auto simp: Cons_eq_append_conv)
    show ?case using Cons.IH [of 0] Cons.IH [of 1] Cons.prems unfolding split by (cases p; cases "n = 0") (auto simp: monitor_tick_def)
  qed simp
  show ?thesis using two [of 0] monitor_alternates by auto
qed

section \<open>Examples\<close>

definition connected_status :: daemon_status where
  "connected_status = \<lparr>ds_Tunnel = ''connected'', ds_Host = ''vps'', ds_Ports = [\<lparr>dp_FQDN = [], dp_Status = ''active''\<rparr>]\<rparr>"

definition alive_ops :: "tray_op list" where
  "alive_ops = [HealthStep 0 True, PollStep (Some connected_status)]"

theorem dead_daemon_keeps_icon_witness:
  "ta_icon (fold tray_step (replicate 100 (HealthStep 1 False) @ [PollStep None]) (fold tray_step alive_ops (Run (NewApp False)))) = IconGreen"
proof -
  have "list_all dead_op (replicate 100 (HealthStep 1 False) @ [PollStep None])" by (simp add: dead_op_def list_all_iff)
  from dead_daemon_keeps_icon [OF this, of alive_ops False]
  have "ta_icon (fold tray_step (replicate 100 (HealthStep 1 False) @ [PollStep None]) (fold tray_step alive_ops (Run (NewApp False))))
      = ta_icon (fold tray_step alive_ops (Run (NewApp False)))" by (simp only: Let_def)
  also have "\<dots> = IconGreen"
    by (simp add: alive_ops_def health_tick_def pollDaemonStatus_def updateStateIcon_def icon_of_def connected_status_def Let_def Run_def NewApp_def)
  finally show ?thesis .
qed

theorem menu_never_refreshed_witness:
  "''connect'' \<notin> set (map mi_ID (ta_menu (fold tray_step alive_ops (Run (NewApp False)))))"
  using menu_never_refreshed [of alive_ops False] by (simp add: alive_ops_def is_toggle_def)

definition failing_rounds :: "reconnect_round list" where
  "failing_rounds = replicate 8 \<lparr>rr_now = 0, rr_connected = False, rr_wake = TimerFires\<rparr>"

theorem backoff_doubles_to_a_minute_witness:
  "fst (snd (doReconnectBackoff 0 backoffInitial failing_rounds (NewApp False))) = map (\<lambda>s. s * second) [1, 2, 4, 8, 16, 32, 60, 60]"
  using backoff_doubles_to_a_minute [of failing_rounds "NewApp False"] by (simp add: failing_rounds_def second_def eval_nat_numeral)

theorem reconnect_reports_early_witness:
  "map nt_body (ta_sent (snd (snd (doReconnectBackoff 0 backoffInitial [\<lparr>rr_now = 0, rr_connected = True, rr_wake = TimerFires\<rparr>] (NewApp False))))) = [''Tunnel connected'']"
  using reconnect_reports_early [of "NewTunnelManager m w" 0 "JSONResponse 202 (StatusIs ''connecting'')" "NewTunnelManager m w" 1
      "\<lparr>rr_now = 0, rr_connected = True, rr_wake = TimerFires\<rparr>" "NewApp False"]
  by (simp add: NewTunnelManager_def tunnel_handleConnect_def postAction_def NewApp_def)

end
