(* ===== verification/Provision_Ssh.thy ===== *)
theory Provision_Ssh
  imports Ssh_Pool Daemon_Api
begin

text \<open>
  The provisioner's SSH client (\<open>provisioner/ssh.go\<close>): host aliases from the user's SSH configuration, the
  connection that is kept and replaced when it is stale, and the commands, scripts and uploads, each on a
  session of its own. The SSH package is the parameter that \<open>Ssh_Pool\<close> describes.
\<close>

section \<open>Aliases\<close>

definition alias_option :: "(string \<Rightarrow> string) \<Rightarrow> string \<Rightarrow> string \<Rightarrow> vps_config \<Rightarrow> vps_config" where
  "alias_option join key value r =
     (if key = ''hostname'' then r\<lparr>vps_Host := value\<rparr>
      else if key = ''user'' then
        (if vps_Username r = [] \<or> vps_Username r = ''root'' then r\<lparr>vps_Username := value\<rparr> else r)
      else if key = ''port'' then
        (if vps_SSHPort r = 0 \<or> vps_SSHPort r = 22 then
           (let n = sint (port_loop 0 value) in if n > 0 then r\<lparr>vps_SSHPort := n\<rparr> else r)
         else r)
      else if key = ''identityfile'' then
        (if vps_PrivateKeyPath r = [] then r\<lparr>vps_PrivateKeyPath := (if has_prefix value ''~/'' then join (drop 2 value) else value)\<rparr> else r)
      else r)"

text \<open>The loop over the lines; the next host line after the wanted one ends it.\<close>

fun alias_lines :: "(string \<Rightarrow> string) \<Rightarrow> string \<Rightarrow> string list \<Rightarrow> bool \<times> vps_config \<Rightarrow> bool \<times> vps_config" where
  "alias_lines join host [] st = st"
| "alias_lines join host (text # ls) (inTarget, r) =
     (let line = trim_space text in
      if line = [] \<or> has_prefix line ''#'' then alias_lines join host ls (inTarget, r)
      else case Fields line of
          k # value # _ \<Rightarrow>
            (let key = to_lower k in
             if key = ''host'' then (if inTarget then (True, r) else alias_lines join host ls (value = host, r))
             else if \<not> inTarget then alias_lines join host ls (inTarget, r)
             else alias_lines join host ls (inTarget, alias_option join key value r))
        | _ \<Rightarrow> alias_lines join host ls (inTarget, r))"

declare alias_lines.simps(2) [simp del]

definition resolveSSHAlias :: "(string \<Rightarrow> string) \<Rightarrow> config_file \<Rightarrow> vps_config \<Rightarrow> vps_config option" where
  "resolveSSHAlias join f vps =
     (case f of
        ConfigText text \<Rightarrow> (case alias_lines join (vps_Host vps) (scanned_lines text) (False, vps) of
            (True, r) \<Rightarrow> Some r | (False, _) \<Rightarrow> None)
      | _ \<Rightarrow> None)"

section \<open>The client\<close>

record ('c, 'w) prov_client =
  pv_cfg :: vps_config
  pv_client :: "'c option"
  pv_hosts :: string
  pv_world :: 'w

definition prov_NewClient :: "(string \<Rightarrow> string) \<Rightarrow> config_file \<Rightarrow> string \<Rightarrow> 'w \<Rightarrow> vps_config \<Rightarrow> ('c, 'w) prov_client option" where
  "prov_NewClient join f kh w vps =
     (if \<not> validateHost (vps_Host vps) then None
      else Some \<lparr>pv_cfg = (case resolveSSHAlias join f vps of None \<Rightarrow> vps | Some r \<Rightarrow> r), pv_client = None, pv_hosts = kh, pv_world = w\<rparr>)"

definition prov_connect :: "('c, 'r, 'w) ssh_lib \<Rightarrow> dial_env \<Rightarrow> ('c, 'w) prov_client \<Rightarrow> (ssh_error + 'c) \<times> ('c, 'w) prov_client" where
  "prov_connect lib e p0 =
     (let p = (if vps_SSHPort (pv_cfg p0) = 0 then p0\<lparr>pv_cfg := (pv_cfg p0)\<lparr>vps_SSHPort := 22\<rparr>\<rparr> else p0);
          cfg = ConnectConfigFromVPSConfig (pv_cfg p) in
      if \<not> de_config_dir e \<or> \<not> de_create_ok e then (Inl HostKeyFile, p)
      else if cn_AuthMode cfg = ''key'' \<and> \<not> publicKeyAuth e then (Inl ReadPrivateKey, p)
      else if cn_AuthMode cfg \<noteq> ''key'' \<and> cn_AuthMode cfg \<noteq> ''password'' then (Inl UnsupportedAuthMode, p)
      else (case sl_connect lib (dial_addr cfg) cfg (pv_world p) of
          (None, w1) \<Rightarrow> (Inl DialFailed, p\<lparr>pv_world := w1\<rparr>)
        | (Some (hostname, key), w1) \<Rightarrow>
            (case hostKeyCallback (de_hosts e) hostname key (pv_hosts p) of
               (False, kh1) \<Rightarrow> (Inl HandshakeFailed, p\<lparr>pv_hosts := kh1, pv_world := w1\<rparr>)
             | (True, kh1) \<Rightarrow>
                 (case sl_authenticate lib hostname cfg w1 of
                    (None, w2) \<Rightarrow> (Inl HandshakeFailed, p\<lparr>pv_hosts := kh1, pv_world := w2\<rparr>)
                  | (Some c, w2) \<Rightarrow> (Inr c, p\<lparr>pv_hosts := kh1, pv_world := w2\<rparr>)))))"

definition connect_session :: "('c, 'r, 'w) ssh_lib \<Rightarrow> dial_env \<Rightarrow> ('c, 'w) prov_client \<Rightarrow> (ssh_error + 'r) \<times> ('c, 'w) prov_client" where
  "connect_session lib e p =
     (case prov_connect lib e p of
        (Inl err, p1) \<Rightarrow> (Inl err, p1)
      | (Inr c, p1) \<Rightarrow>
          (case sl_NewSession lib c (pv_world p1) of
             (Some r, w) \<Rightarrow> (Inr r, p1\<lparr>pv_client := Some c, pv_world := w\<rparr>)
           | (None, w) \<Rightarrow> (Inl NewSessionFailed, p1\<lparr>pv_client := None, pv_world := sl_CloseClient lib c w\<rparr>)))"

definition getSession :: "('c, 'r, 'w) ssh_lib \<Rightarrow> dial_env \<Rightarrow> ('c, 'w) prov_client \<Rightarrow> (ssh_error + 'r) \<times> ('c, 'w) prov_client" where
  "getSession lib e p =
     (case pv_client p of
        None \<Rightarrow> connect_session lib e p
      | Some c \<Rightarrow>
          (case sl_NewSession lib c (pv_world p) of
             (Some r, w) \<Rightarrow> (Inr r, p\<lparr>pv_world := w\<rparr>)
           | (None, w) \<Rightarrow> connect_session lib e (p\<lparr>pv_client := None, pv_world := sl_CloseClient lib c w\<rparr>)))"

text \<open>One command with its standard input: standard output and error, and whether it succeeded.\<close>

definition prov_exec :: "('c, 'r, 'w) ssh_lib \<Rightarrow> dial_env \<Rightarrow> string \<Rightarrow> string \<Rightarrow> ('c, 'w) prov_client
    \<Rightarrow> ((string \<times> string) \<times> bool) \<times> ('c, 'w) prov_client" where
  "prov_exec lib e cmd stdin p =
     (case getSession lib e p of
        (Inl _, p1) \<Rightarrow> ((([], []), False), p1)
      | (Inr r, p1) \<Rightarrow>
          (case start_and_wait lib \<lparr>ss_id = 0, ss_raw = r\<rparr> cmd stdin (pv_world p1) of
             ((chunks, ok), w) \<Rightarrow> ((split_output chunks, ok), p1\<lparr>pv_world := sl_CloseSession lib r w\<rparr>)))"

definition ExecuteCommand :: "('c, 'r, 'w) ssh_lib \<Rightarrow> dial_env \<Rightarrow> string \<Rightarrow> ('c, 'w) prov_client \<Rightarrow> ((string \<times> string) \<times> bool) \<times> ('c, 'w) prov_client" where
  "ExecuteCommand lib e cmd p = prov_exec lib e cmd [] p"

definition ExecuteScript :: "('c, 'r, 'w) ssh_lib \<Rightarrow> dial_env \<Rightarrow> string \<Rightarrow> ('c, 'w) prov_client \<Rightarrow> ((string \<times> string) \<times> bool) \<times> ('c, 'w) prov_client" where
  "ExecuteScript lib e script p = prov_exec lib e ''bash -s'' script p"

definition shellEscape :: "string \<Rightarrow> string" where
  "shellEscape s = [CHR 0x27] @ concat (map quote_char s) @ [CHR 0x27]"

definition upload_command :: "string \<Rightarrow> string" where
  "upload_command remotePath = ''dd of='' @ shellEscape remotePath @ '' bs=4096 2>/dev/null && chmod 0600 '' @ shellEscape remotePath"

definition UploadFile :: "('c, 'r, 'w) ssh_lib \<Rightarrow> dial_env \<Rightarrow> string \<Rightarrow> string \<Rightarrow> ('c, 'w) prov_client \<Rightarrow> bool \<times> ('c, 'w) prov_client" where
  "UploadFile lib e remotePath content p = (case prov_exec lib e (upload_command remotePath) content p of ((_, ok), p1) \<Rightarrow> (ok, p1))"

definition prov_Close :: "('c, 'r, 'w) ssh_lib \<Rightarrow> ('c, 'w) prov_client \<Rightarrow> ('c, 'w) prov_client" where
  "prov_Close lib p = (case pv_client p of None \<Rightarrow> p | Some c \<Rightarrow> p\<lparr>pv_client := None, pv_world := sl_CloseClient lib c (pv_world p)\<rparr>)"

section \<open>What resolving does\<close>

text \<open>What the entry of an alias makes of the settings: the name always, the rest where the settings have only the
  default.\<close>

definition with_entry :: "ssh_host_entry \<Rightarrow> vps_config \<Rightarrow> vps_config" where
  "with_entry en vps = vps\<lparr>vps_Host := (if se_HostName en = [] then vps_Host vps else se_HostName en),
     vps_Username := (if se_User en \<noteq> [] \<and> (vps_Username vps = [] \<or> vps_Username vps = ''root'') then se_User en else vps_Username vps),
     vps_SSHPort := (if sint (se_Port en) > 0 \<and> (vps_SSHPort vps = 0 \<or> vps_SSHPort vps = 22) then sint (se_Port en) else vps_SSHPort vps),
     vps_PrivateKeyPath := (if se_IdentityFile en \<noteq> [] \<and> vps_PrivateKeyPath vps = [] then se_IdentityFile en else vps_PrivateKeyPath vps)\<rparr>"

lemma alias_line_words:
  assumes "word_ok k" and "hd k \<noteq> CHR ''#''" and "word_ok v"
  shows "alias_lines join host (option_line k v # ls) (b, r) =
    (if to_lower k = ''host'' then (if b then (True, r) else alias_lines join host ls (v = host, r))
     else if \<not> b then alias_lines join host ls (b, r) else alias_lines join host ls (b, alias_option join (to_lower k) v r))"
proof -
  have "trim_space (option_line k v) = option_line k v"
    using assms by (intro trim_space_word) (auto simp: option_line_def word_ok_def list_all_iff)
  moreover have "option_line k v \<noteq> []" "\<not> has_prefix (option_line k v) ''#''"
    using assms by (cases k; auto simp: option_line_def has_prefix_def word_ok_def)+
  ultimately show ?thesis using Fields_two [OF assms(1,3)] by (simp add: alias_lines.simps(2) Let_def)
qed

lemmas alias_line = alias_line_words [OF key_words(1)] alias_line_words [OF key_words(2)] alias_line_words [OF key_words(3)]
  alias_line_words [OF key_words(4)] alias_line_words [OF key_words(5)]

lemma alias_skips: "entry_ok en \<Longrightarrow> se_Host en \<noteq> host \<Longrightarrow> alias_lines join host (entry_lines en @ ls) (False, r) = alias_lines join host ls (False, r)"
  unfolding entry_lines_def entry_ok_def by (auto simp: alias_line lower_keys word_ok_digits)

text \<open>One optional line of an entry at a time.\<close>

lemma alias_hostname: "v = [] \<or> word_ok v \<Longrightarrow> alias_lines join host ((if v = [] then [] else [option_line ''HostName'' v]) @ ls) (True, r) =
    alias_lines join host ls (True, r\<lparr>vps_Host := if v = [] then vps_Host r else v\<rparr>)"
  by (auto simp: alias_line lower_keys alias_option_def)

lemma alias_user: "v = [] \<or> word_ok v \<Longrightarrow> alias_lines join host ((if v = [] then [] else [option_line ''User'' v]) @ ls) (True, r) =
    alias_lines join host ls (True, r\<lparr>vps_Username := if v \<noteq> [] \<and> (vps_Username r = [] \<or> vps_Username r = ''root'') then v else vps_Username r\<rparr>)"
  by (auto simp: alias_line lower_keys alias_option_def)

lemma alias_port: "alias_lines join host ((if p = 0 then [] else [option_line ''Port'' (show_nat (unat (p :: 64 word)))]) @ ls) (True, r) =
    alias_lines join host ls (True, r\<lparr>vps_SSHPort := if sint p > 0 \<and> (vps_SSHPort r = 0 \<or> vps_SSHPort r = 22) then sint p else vps_SSHPort r\<rparr>)"
  by (cases r) (auto simp: alias_line lower_keys alias_option_def word_ok_digits port_loop_show Let_def)

lemma alias_identity: "v = [] \<or> word_ok v \<Longrightarrow> \<not> has_prefix v ''~/'' \<Longrightarrow>
    alias_lines join host ((if v = [] then [] else [option_line ''IdentityFile'' v]) @ ls) (True, r) =
    alias_lines join host ls (True, r\<lparr>vps_PrivateKeyPath := if v \<noteq> [] \<and> vps_PrivateKeyPath r = [] then v else vps_PrivateKeyPath r\<rparr>)"
  by (auto simp: alias_line lower_keys alias_option_def)

lemma alias_reads:
  assumes "entry_ok en" and "se_Host en = host"
  shows "alias_lines join host (entry_lines en @ ls) (False, r) = alias_lines join host ls (True, with_entry en r)"
proof -
  have ok: "word_ok (se_Host en)" "se_HostName en = [] \<or> word_ok (se_HostName en)" "se_User en = [] \<or> word_ok (se_User en)"
    "se_IdentityFile en = [] \<or> word_ok (se_IdentityFile en)" "\<not> has_prefix (se_IdentityFile en) ''~/''"
    using assms(1) by (simp_all add: entry_ok_def)
  have first: "alias_lines join host (option_line ''Host'' host # xs) (False, r) = alias_lines join host xs (True, r)" for xs
    using ok(1) assms(2) by (simp add: alias_line lower_keys)
  show ?thesis
    unfolding entry_lines_def append_assoc append_Cons append_Nil first [folded assms(2)] assms(2) [symmetric]
      alias_hostname [OF ok(2)] alias_user [OF ok(3)] alias_port alias_identity [OF ok(4,5)]
    by (rule arg_cong [where f = "\<lambda>x. alias_lines join (se_Host en) ls (True, x)"]) (cases r; auto simp: with_entry_def)
qed

lemma alias_stops: "entry_ok en \<Longrightarrow> alias_lines join host (entry_lines en @ ls) (True, r) = (True, r)"
  by (simp add: entry_lines_def entry_ok_def alias_line lower_keys)

text \<open>For a configuration with one block per host the alias is resolved to the first block of its name, and only
  settings that still have their default take its values.\<close>

theorem alias_resolves_to_entry:
  assumes "list_all entry_ok es"
  shows "resolveSSHAlias join (ConfigText (unlines (concat (map entry_lines es)))) vps =
    map_option (\<lambda>en. with_entry en vps) (List.find (\<lambda>en. se_Host en = vps_Host vps) es)"
proof -
  let ?ls = "concat (map entry_lines es)"
  have "\<forall>l \<in> set ?ls. newline \<notin> set l" using assms entry_lines_newline by (fastforce simp: list_all_iff)
  then have "scanned_lines (unlines ?ls) = ?ls" using split_unlines [of ?ls "[]"] by (simp add: Let_def)
  moreover have "alias_lines join (vps_Host vps) ?ls (False, vps) = (case List.find (\<lambda>en. se_Host en = vps_Host vps) es of
      None \<Rightarrow> (False, vps) | Some en \<Rightarrow> (True, with_entry en vps))"
    using assms
  proof (induction es)
    case (Cons en es)
    show ?case
    proof (cases "se_Host en = vps_Host vps")
      case True
      have "alias_lines join (vps_Host vps) (concat (map entry_lines es)) (True, r) = (True, r)" for r
        using Cons.prems by (cases es) (simp_all add: alias_stops)
      then show ?thesis using Cons.prems True by (simp add: alias_reads)
    next
      case False
      then show ?thesis using Cons by (simp add: alias_skips)
    qed
  qed simp
  ultimately show ?thesis by (simp add: resolveSSHAlias_def split: option.split del: scanned_lines.simps)
qed

section \<open>Every command has a session of its own\<close>

text \<open>What the SSH package says of a session that was just opened: no command was started on it, and one can be.\<close>

definition fresh_session_law :: "('c, 'r, 'w) ssh_lib \<Rightarrow> ('w \<Rightarrow> 'r set) \<Rightarrow> bool" where
  "fresh_session_law lib started \<longleftrightarrow>
     (\<forall>c w r w'. sl_NewSession lib c w = (Some r, w') \<longrightarrow> r \<notin> started w')
     \<and> (\<forall>r cmd inp w. r \<notin> started w \<longrightarrow> fst (sl_Start lib r cmd inp w))"

lemma getSession_fresh:
  assumes "fresh_session_law lib started" and "getSession lib e p = (Inr r, p')"
  shows "r \<notin> started (pv_world p')"
proof -
  have "r \<notin> started (pv_world q')" if "connect_session lib e q = (Inr r, q')" for q q'
    using that assms(1) by (force simp: connect_session_def fresh_session_law_def split: prod.splits sum.splits option.splits)
  then show ?thesis using assms
    by (force simp: getSession_def fresh_session_law_def split: prod.splits option.splits)
qed

text \<open>Unlike the sessions of the pool, which serve one command, the provisioner's client can run any number: whatever
  was executed before, a command for which a session can be opened is started, and its result is what the
  server answers.\<close>

theorem every_command_is_started:
  assumes "fresh_session_law lib started" and "getSession lib e (fold (\<lambda>cmd p. snd (ExecuteCommand lib (es cmd) cmd p)) before p) = (Inr r, q)"
  shows "\<exists>w1 chunks ok w2. sl_Start lib r cmd [] (pv_world q) = (True, w1) \<and> sl_Wait lib r w1 = ((chunks, ok), w2)
    \<and> ExecuteCommand lib e cmd (fold (\<lambda>cmd p. snd (ExecuteCommand lib (es cmd) cmd p)) before p)
        = ((split_output chunks, ok), q\<lparr>pv_world := sl_CloseSession lib r w2\<rparr>)"
proof -
  have "fst (sl_Start lib r cmd [] (pv_world q))"
    using getSession_fresh [OF assms] assms(1) by (simp add: fresh_session_law_def)
  then obtain w1 where s: "sl_Start lib r cmd [] (pv_world q) = (True, w1)" by (metis prod.collapse)
  obtain chunks ok w2 where w: "sl_Wait lib r w1 = ((chunks, ok), w2)" by (metis prod.collapse)
  show ?thesis using s w assms(2) by (simp add: ExecuteCommand_def prov_exec_def start_and_wait_def)
qed

section \<open>Examples\<close>

definition alias_vps :: vps_config where
  "alias_vps = zero_vps\<lparr>vps_Host := ''vps'', vps_SSHPort := 22, vps_Username := ''root''\<rparr>"

theorem alias_resolves_to_entry_witness:
  "resolveSSHAlias (\<lambda>p. p) (ConfigText (unlines (concat (map entry_lines [new_host ''b'', sample_entry])))) alias_vps =
     Some (alias_vps\<lparr>vps_Host := ''203.0.113.7'', vps_SSHPort := 2222, vps_PrivateKeyPath := ''/k''\<rparr>)"
proof -
  have "list_all entry_ok [new_host ''b'', sample_entry]"
    by (simp add: sample_entry_ok) (simp add: entry_ok_def new_host_def word_ok_def is_space_def entry_lines_def option_line_def has_prefix_def)
  from alias_resolves_to_entry [OF this, of "\<lambda>p. p" alias_vps] show ?thesis
    by (simp add: alias_vps_def sample_entry_def new_host_def with_entry_def zero_vps_def)
qed

text \<open>A server on which every session works and answers each command with its text.\<close>

definition echo_lib :: "(unit, nat, nat \<times> (nat \<Rightarrow> string option)) ssh_lib" where
  "echo_lib = \<lparr>sl_connect = (\<lambda>addr _ w. (Some (addr, ''key''), w)), sl_authenticate = (\<lambda>_ _ w. (Some (), w)),
     sl_NewSession = (\<lambda>_ (n, f). (Some n, Suc n, f(n := None))), sl_keepalive = (\<lambda>_ w. (True, w)), sl_CloseClient = (\<lambda>_ w. w),
     sl_Start = (\<lambda>r cmd inp (n, f). (f r = None, n, if f r = None then f(r \<mapsto> cmd) else f)),
     sl_Wait = (\<lambda>r (n, f). (([(False, case f r of Some c \<Rightarrow> c | None \<Rightarrow> [])], True), n, f)), sl_CloseSession = (\<lambda>_ w. w)\<rparr>"

lemma echo_fresh: "fresh_session_law echo_lib (\<lambda>(n, f). {r. f r \<noteq> None})"
  by (auto simp: fresh_session_law_def echo_lib_def)

definition echo_client :: "(unit, nat \<times> (nat \<Rightarrow> string option)) prov_client" where
  "echo_client = \<lparr>pv_cfg = alias_vps, pv_client = Some (), pv_hosts = [], pv_world = (0, Map.empty)\<rparr>"

lemma echo_session: "pv_client p = Some () \<Longrightarrow> \<exists>q. getSession echo_lib e p = (Inr (fst (pv_world p)), q)"
  by (cases "pv_world p") (simp add: getSession_def echo_lib_def)

lemma echo_keeps: "pv_client p = Some () \<Longrightarrow> pv_client (snd (ExecuteCommand echo_lib e cmd p)) = Some ()"
  by (cases "pv_world p") (auto simp: ExecuteCommand_def prov_exec_def getSession_def echo_lib_def start_and_wait_def split: prod.split)

theorem every_command_is_started_witness:
  "\<exists>out q. ExecuteCommand echo_lib good_dial ''uname'' (fold (\<lambda>cmd p. snd (ExecuteCommand echo_lib good_dial cmd p)) [''id'', ''ls''] echo_client) = ((out, True), q)"
proof -
  let ?p = "fold (\<lambda>cmd p. snd (ExecuteCommand echo_lib good_dial cmd p)) [''id'', ''ls''] echo_client"
  have "pv_client ?p = Some ()" by (simp add: echo_keeps echo_client_def)
  then obtain q where q: "getSession echo_lib good_dial ?p = (Inr (fst (pv_world ?p)), q)" using echo_session by blast
  show ?thesis
    using every_command_is_started [OF echo_fresh q, of "''uname''"] by (auto simp: echo_lib_def split: prod.splits)
qed

end
