(* ===== verification/Provision.thy ===== *)
theory Provision
  imports Provision_Ssh Base64_Codec "HOL-Library.Word" "HOL-Library.Multiset"
begin

text \<open>
  Provisioning a server (\<open>provisioner/awg_init.go\<close>, \<open>dockerfile.go\<close>, \<open>compose.go\<close>, \<open>firewall.go\<close>, \<open>setup.go\<close>): the
  generated keys, ports, subnets and obfuscation parameters, the files that are uploaded, and the run over the
  SSH client. Random draws, the curve and the commands' answers are parameters.
\<close>

unbundle bit_operations_syntax

section \<open>Random values\<close>

text \<open>\<open>rand.Int\<close> gives any value below its bound; a draw is reduced to it, and a failing reader is no draw.\<close>

definition randInt :: "int \<Rightarrow> int \<Rightarrow> int \<Rightarrow> int" where
  "randInt lo hi draw = draw mod (hi - lo + 1) + lo"

text \<open>The loop of \<open>randomDistinct\<close> over the draws: absent when they run out before there are enough values.\<close>

fun draw_distinct :: "nat \<Rightarrow> int \<Rightarrow> int \<Rightarrow> int list \<Rightarrow> int list \<Rightarrow> int list option" where
  "draw_distinct n lo hi acc [] = (if length acc < n then None else Some acc)"
| "draw_distinct n lo hi acc (x # xs) =
     (if length acc < n then
        (let v = randInt lo hi x in draw_distinct n lo hi (if v \<in> set acc then acc else acc @ [v]) xs)
      else Some acc)"

definition randomDistinct :: "nat \<Rightarrow> int \<Rightarrow> int \<Rightarrow> int list \<Rightarrow> int list option" where
  "randomDistinct n lo hi draws = (if hi - lo + 1 < int n then None else map_option sort (draw_distinct n lo hi [] draws))"

definition pickSubnet :: "int \<Rightarrow> string" where
  "pickSubnet draw = (let x = randInt 0 16383 draw in
     ''100.'' @ show_int (64 + drop_bit 8 x) @ ''.'' @ show_int (x AND 0xFF) @ ''.0/24'')"

definition generateObfuscation :: "int list \<Rightarrow> int list \<Rightarrow> obfuscation_config option" where
  "generateObfuscation sDraws hDraws =
     (case randomDistinct 4 0 255 sDraws of
        None \<Rightarrow> None
      | Some s \<Rightarrow>
          (case randomDistinct 4 1 2147483647 hDraws of
             None \<Rightarrow> None
           | Some h \<Rightarrow> Some \<lparr>obf_Jc = 4, obf_Jmin = 10, obf_Jmax = 50, obf_S1 = s ! 0, obf_S2 = s ! 1, obf_S3 = s ! 2, obf_S4 = s ! 3,
               obf_H1 = h ! 0, obf_H2 = h ! 1, obf_H3 = h ! 2, obf_H4 = h ! 3, obf_I1 = 0, obf_I2 = 0, obf_I3 = 0, obf_I4 = 0, obf_I5 = 0\<rparr>))"

section \<open>Keys\<close>

definition clamp :: "8 word list \<Rightarrow> 8 word list" where
  "clamp priv = (let p = priv[0 := priv ! 0 AND 248] in p[31 := (p ! 31 AND 127) OR 64])"

definition key_text :: "8 word list \<Rightarrow> string" where
  "key_text bytes = std_encode (map (\<lambda>b. char_of (unat b)) bytes)"

text \<open>\<open>x25519\<close> is the scalar multiplication of the base point, which may fail.\<close>

definition generateKeyPair :: "(8 word list \<Rightarrow> 8 word list option) \<Rightarrow> 8 word list \<Rightarrow> (string \<times> string) option" where
  "generateKeyPair x25519 random = map_option (\<lambda>pub. (key_text (clamp random), key_text pub)) (x25519 (clamp random))"

record awg_init =
  ai_ServerPrivateKey :: string
  ai_ServerPublicKey :: string
  ai_PresharedKey :: string
  ai_ListenPort :: int
  ai_Subnet :: string
  ai_Obfuscation :: obfuscation_config

record awg_draws =
  ad_key :: "8 word list option"
  ad_psk :: "8 word list option"
  ad_port :: "int option"
  ad_subnet :: "int option"
  ad_s :: "int list"
  ad_h :: "int list"

definition GenerateAWGConfig :: "(8 word list \<Rightarrow> 8 word list option) \<Rightarrow> awg_draws \<Rightarrow> awg_init option" where
  "GenerateAWGConfig x25519 d =
     (case Option.bind (ad_key d) (generateKeyPair x25519) of
        None \<Rightarrow> None
      | Some (priv, pub) \<Rightarrow>
          (case (ad_psk d, ad_port d, ad_subnet d, generateObfuscation (ad_s d) (ad_h d)) of
             (Some psk, Some port, Some sub, Some obf) \<Rightarrow>
               Some \<lparr>ai_ServerPrivateKey = priv, ai_ServerPublicKey = pub, ai_PresharedKey = key_text psk,
                 ai_ListenPort = randInt 30000 60000 port, ai_Subnet = pickSubnet sub, ai_Obfuscation = obf\<rparr>
           | _ \<Rightarrow> None))"

section \<open>The uploaded files\<close>

definition prov_compose_head :: "string \<Rightarrow> string list" where \<open>
  prov_compose_head port =
    [''services:'',
     ''  unet-net-pause:'',
     ''    image: busybox:1.36-uclibc'',
     ''    container_name: unet-net-pause'',
     ''    command: ["sleep", "infinity"]'',
     ''    ports:'',
     ''      - "'' @ port @ '':'' @ port @ ''/udp"'',
     ''      - "443:443/tcp"'']\<close>

definition prov_compose_http :: "string list" where \<open>
  prov_compose_http =
    [''      - "80:80/tcp"'']\<close>

definition prov_compose_tail :: "string \<Rightarrow> string list" where \<open>
  prov_compose_tail img =
    [''    restart: unless-stopped'',
     [],
     ''  unet-amnezia-awg:'',
     ''    build:'',
     ''      context: .'',
     ''      dockerfile: Dockerfile'',
     ''    image: unet/amnezia-awg:local'',
     ''    container_name: unet-amnezia-awg'',
     ''    network_mode: "service:unet-net-pause"'',
     ''    depends_on:'',
     ''      - unet-net-pause'',
     ''    cap_add:'',
     ''      - NET_ADMIN'',
     ''      - SYS_MODULE'',
     ''    sysctls:'',
     ''      - net.ipv4.ip_forward=1'',
     ''      - net.ipv6.conf.all.forwarding=1'',
     ''    volumes:'',
     ''      - amnezia-awg-state:/opt/amnezia/awg'',
     ''      - /lib/modules:/lib/modules:ro'',
     ''    restart: unless-stopped'',
     [],
     ''  unet-caddy:'',
     ''    image: '' @ img,
     ''    container_name: unet-caddy'',
     ''    network_mode: "service:unet-net-pause"'',
     ''    depends_on:'',
     ''      - unet-net-pause'',
     ''    volumes:'',
     ''      - caddy-data:/data'',
     ''      - caddy-config:/config'',
     ''    restart: unless-stopped'',
     [],
     ''volumes:'',
     ''  amnezia-awg-state:'',
     ''  caddy-data:'',
     ''  caddy-config:'']\<close>

definition dockerfile_lines :: "string \<Rightarrow> string \<Rightarrow> string list" where \<open>
  dockerfile_lines tools go =
    [''FROM golang:1.24.4-alpine AS awg-builder'',
     ''RUN apk add --no-cache git gcc musl-dev'',
     ''RUN git clone --depth 1 --branch '' @ go @ '' https://github.com/amnezia-vpn/amneziawg-go.git /awg'',
     ''WORKDIR /awg'',
     ''RUN go mod download && '' @ [CHR 0x5C],
     ''    go mod verify && '' @ [CHR 0x5C],
     ''    go build -ldflags '' @ [CHR 0x27] @ ''-linkmode external -extldflags "-fno-PIC -static"'' @ [CHR 0x27] @ '' -v -o /usr/bin/amneziawg-go'',
     [],
     ''FROM alpine:3.19'',
     [],
     ''RUN apk add --no-cache bash curl dumb-init unzip wget && '' @ [CHR 0x5C],
     ''    apk --update upgrade --no-cache && '' @ [CHR 0x5C],
     ''    mkdir -p /opt/amnezia'',
     [],
     ''RUN echo -e " '' @ [CHR 0x5C] @ ''n'' @ [CHR 0x5C],
     ''  fs.file-max = 51200 '' @ [CHR 0x5C] @ ''n'' @ [CHR 0x5C],
     ''  net.core.rmem_max = 67108864 '' @ [CHR 0x5C] @ ''n'' @ [CHR 0x5C],
     ''  net.core.wmem_max = 67108864 '' @ [CHR 0x5C] @ ''n'' @ [CHR 0x5C],
     ''  net.core.netdev_max_backlog = 250000 '' @ [CHR 0x5C] @ ''n'' @ [CHR 0x5C],
     ''  net.core.somaxconn = 4096 '' @ [CHR 0x5C] @ ''n'' @ [CHR 0x5C],
     ''  net.ipv4.tcp_syncookies = 1 '' @ [CHR 0x5C] @ ''n'' @ [CHR 0x5C],
     ''  net.ipv4.tcp_tw_reuse = 1 '' @ [CHR 0x5C] @ ''n'' @ [CHR 0x5C],
     ''  net.ipv4.tcp_fin_timeout = 30 '' @ [CHR 0x5C] @ ''n'' @ [CHR 0x5C],
     ''  net.ipv4.tcp_keepalive_time = 1200 '' @ [CHR 0x5C] @ ''n'' @ [CHR 0x5C],
     ''  net.ipv4.ip_local_port_range = 10000 65000 '' @ [CHR 0x5C] @ ''n'' @ [CHR 0x5C],
     ''  net.ipv4.tcp_max_syn_backlog = 8192 '' @ [CHR 0x5C] @ ''n'' @ [CHR 0x5C],
     ''  net.ipv4.tcp_max_tw_buckets = 5000 '' @ [CHR 0x5C] @ ''n'' @ [CHR 0x5C],
     ''  net.ipv4.tcp_fastopen = 3 '' @ [CHR 0x5C] @ ''n'' @ [CHR 0x5C],
     ''  net.ipv4.tcp_mem = 25600 51200 102400 '' @ [CHR 0x5C] @ ''n'' @ [CHR 0x5C],
     ''  net.ipv4.tcp_rmem = 4096 87380 67108864 '' @ [CHR 0x5C] @ ''n'' @ [CHR 0x5C],
     ''  net.ipv4.tcp_wmem = 4096 65536 67108864 '' @ [CHR 0x5C] @ ''n'' @ [CHR 0x5C],
     ''  net.ipv4.tcp_mtu_probing = 1 '' @ [CHR 0x5C] @ ''n'' @ [CHR 0x5C],
     ''  net.ipv4.tcp_congestion_control = hybla '' @ [CHR 0x5C] @ ''n'' @ [CHR 0x5C],
     ''  " | sed -e '' @ [CHR 0x27] @ ''s/^'' @ [CHR 0x5C] @ ''s'' @ [CHR 0x5C] @ ''+//g'' @ [CHR 0x27] @ '' | tee -a /etc/sysctl.conf && '' @ [CHR 0x5C],
     ''    mkdir -p /etc/security && '' @ [CHR 0x5C],
     ''    echo -e " * soft nofile 51200 '' @ [CHR 0x5C] @ ''n * hard nofile 51200" | tee -a /etc/security/limits.conf'',
     [],
     ''ARG AWGTOOLS_RELEASE='' @ tools,
     ''RUN apk --no-cache add iproute2 iptables && '' @ [CHR 0x5C],
     ''    cd /usr/bin/ && '' @ [CHR 0x5C],
     ''    wget https://github.com/amnezia-vpn/amneziawg-tools/releases/download/v${AWGTOOLS_RELEASE}/alpine-3.19-amneziawg-tools.zip && '' @ [CHR 0x5C],
     ''    unzip -j alpine-3.19-amneziawg-tools.zip && '' @ [CHR 0x5C],
     ''    chmod +x /usr/bin/awg /usr/bin/awg-quick && '' @ [CHR 0x5C],
     ''    ln -s /usr/bin/awg /usr/bin/wg && '' @ [CHR 0x5C],
     ''    ln -s /usr/bin/awg-quick /usr/bin/wg-quick'',
     [],
     ''COPY --from=awg-builder /usr/bin/amneziawg-go /usr/bin/amneziawg-go'',
     [],
     ''COPY start.sh /opt/amnezia/start.sh'',
     ''RUN chmod +x /opt/amnezia/start.sh'',
     [],
     ''LABEL maintainer="unet/amneziaawg"'',
     [],
     ''ENTRYPOINT ["dumb-init", "/opt/amnezia/start.sh"]'']\<close>

definition startsh_lines :: "string \<Rightarrow> string list" where \<open>
  startsh_lines subnet =
    [''#!/bin/bash'',
     ''# /opt/amnezia/start.sh '' @ [CHR 0xE2] @ [CHR 0x80] @ [CHR 0x94] @ '' provisioned by unet daemon via SSH on initial setup'',
     [],
     ''set -e'',
     ''CONF=/opt/amnezia/awg/awg0.conf'',
     ''SUBNET="'' @ subnet @ ''"'',
     [],
     ''# Clean shutdown of any prior interface'',
     ''awg-quick down "$CONF" 2>/dev/null || true'',
     [],
     ''# Bring up the interface (relies on awg0.conf populated by provisioner)'',
     ''if [ -f "$CONF" ]; then'',
     ''    awg-quick up "$CONF"'',
     ''fi'',
     [],
     ''# Forwarding firewall rules '' @ [CHR 0xE2] @ [CHR 0x80] @ [CHR 0x94] @ '' bound to the AmneziaWG interface'',
     ''iptables -A INPUT   -i awg0 -j ACCEPT'',
     ''iptables -A FORWARD -i awg0 -j ACCEPT'',
     ''iptables -A OUTPUT  -o awg0 -j ACCEPT'',
     ''iptables -A FORWARD -i awg0 -o eth0 -s "$SUBNET" -j ACCEPT'',
     ''iptables -A FORWARD -i awg0 -o eth1 -s "$SUBNET" -j ACCEPT 2>/dev/null || true'',
     ''iptables -A FORWARD -m state --state ESTABLISHED,RELATED -j ACCEPT'',
     [],
     ''# Outbound MASQUERADE '' @ [CHR 0xE2] @ [CHR 0x80] @ [CHR 0x94] @ '' clients reach the public internet through eth0/eth1'',
     ''iptables -t nat -A POSTROUTING -s "$SUBNET" -o eth0 -j MASQUERADE'',
     ''iptables -t nat -A POSTROUTING -s "$SUBNET" -o eth1 -j MASQUERADE 2>/dev/null || true'',
     [],
     ''# Keep the container alive'',
     ''exec tail -f /dev/null'']\<close>

definition GenerateCompose :: "int \<Rightarrow> bool \<Rightarrow> string \<Rightarrow> string option" where
  "GenerateCompose port manualDNS img =
     (if port \<le> 0 \<or> port > 65535 then None
      else Some (unlines (prov_compose_head (show_int port) @ (if manualDNS then prov_compose_http else [])
        @ prov_compose_tail (if img = [] then ''caddy:2-alpine'' else img))))"

definition GenerateDockerfile :: "string \<Rightarrow> string \<Rightarrow> string" where
  "GenerateDockerfile tools go = unlines (dockerfile_lines (if tools = [] then ''1.0.20250901'' else tools) (if go = [] then ''v0.2.13'' else go))"

definition GenerateStartSh :: "string \<Rightarrow> string option" where
  "GenerateStartSh subnet = (if subnet = [] then None else Some (unlines (startsh_lines subnet)))"

section \<open>The firewall\<close>

record ufw_rule =
  ur_Port :: int
  ur_Protocol :: string
  ur_Comment :: string

definition UFWRules :: "int \<Rightarrow> bool \<Rightarrow> ufw_rule list" where
  "UFWRules awgPort manualDNS =
     [\<lparr>ur_Port = awgPort, ur_Protocol = ''udp'', ur_Comment = ''unet AmneziaWG''\<rparr>, \<lparr>ur_Port = 443, ur_Protocol = ''tcp'', ur_Comment = ''unet Caddy HTTPS''\<rparr>]
     @ (if manualDNS then [\<lparr>ur_Port = 80, ur_Protocol = ''tcp'', ur_Comment = ''unet Caddy ACME HTTP-01''\<rparr>] else [])"

definition UFWAllowCommand :: "ufw_rule \<Rightarrow> string" where
  "UFWAllowCommand r = ''ufw allow '' @ show_int (ur_Port r) @ ''/'' @ ur_Protocol r @ '' comment '' @ [CHR 0x27] @ ur_Comment r @ [CHR 0x27]"

definition UFWAllowScript :: "int \<Rightarrow> bool \<Rightarrow> string" where
  "UFWAllowScript awgPort manualDNS = join_with [newline] ([''#!/bin/bash'', ''set -e''] @ map UFWAllowCommand (UFWRules awgPort manualDNS))"

definition IsUFWActive :: "string \<Rightarrow> bool" where
  "IsUFWActive ufwStatusOutput = contains ufwStatusOutput ''Status: active''"

section \<open>The run\<close>

text \<open>The client's operations on its state, and the client of \<open>Provision_Ssh\<close> as such.\<close>

record 'p prov_ops =
  po_command :: "string \<Rightarrow> 'p \<Rightarrow> ((string \<times> string) \<times> bool) \<times> 'p"
  po_script :: "string \<Rightarrow> 'p \<Rightarrow> ((string \<times> string) \<times> bool) \<times> 'p"
  po_upload :: "string \<Rightarrow> string \<Rightarrow> 'p \<Rightarrow> bool \<times> 'p"

definition ssh_ops :: "('c, 'r, 'w) ssh_lib \<Rightarrow> dial_env \<Rightarrow> ('c, 'w) prov_client prov_ops" where
  "ssh_ops lib e = \<lparr>po_command = ExecuteCommand lib e, po_script = ExecuteScript lib e, po_upload = UploadFile lib e\<rparr>"

datatype prov_error = ProvClient | ProvAWG | ProvStart | ProvCompose | ProvMkdir | ProvUpload string | ProvUp | ProvInspect | ProvUnhealthy
  | ProvWriteConfig | ProvAwgQuick | ProvSave

definition remoteDir :: string where
  "remoteDir = ''/opt/unet''"

definition prov_container :: string where
  "prov_container = ''unet-amnezia-awg''"

definition inspect_command :: "string \<Rightarrow> string" where
  "inspect_command name = ''docker inspect --format='' @ [CHR 0x27] @ ''{{.State.Health.Status}}'' @ [CHR 0x27] @ '' '' @ name
     @ '' 2>/dev/null || echo '' @ [CHR 0x27] @ ''not_found'' @ [CHR 0x27]"

text \<open>The polls of one wait: at most 40 fit into its two minutes, since each is followed by a pause of three seconds.
  A context that is cancelled ends the polls.\<close>

fun waitForContainerHealthy :: "'p prov_ops \<Rightarrow> string \<Rightarrow> nat \<Rightarrow> 'p \<Rightarrow> prov_error option \<times> 'p" where
  "waitForContainerHealthy ops name 0 p = (Some ProvUnhealthy, p)"
| "waitForContainerHealthy ops name (Suc n) p =
     (case po_command ops (inspect_command name) p of
        ((_, False), p1) \<Rightarrow> (Some ProvInspect, p1)
      | ((out, True), p1) \<Rightarrow> if trim_space (fst out) = ''healthy'' then (None, p1) else waitForContainerHealthy ops name n p1)"

definition serverIPFromSubnet :: "string \<Rightarrow> string" where
  "serverIPFromSubnet subnet = trim_suffix subnet ''.0/24'' @ ''.1''"

definition caddyImage :: "root_config \<Rightarrow> string" where
  "caddyImage cfg = (if dns_Provider (cfg_DNS cfg) = ''cloudflare'' then ''unet/caddy-cloudflare:local'' else ''caddy:2-alpine'')"

definition awg_conf :: "awg_init \<Rightarrow> string" where
  "awg_conf c = (let o' = ai_Obfuscation c in unlines
     [''[Interface]'', ''PrivateKey = '' @ ai_ServerPrivateKey c, ''Address = '' @ serverIPFromSubnet (ai_Subnet c) @ ''/24'',
      ''ListenPort = '' @ show_int (ai_ListenPort c), [],
      ''Jc = '' @ show_int (obf_Jc o'), ''Jmin = '' @ show_int (obf_Jmin o'), ''Jmax = '' @ show_int (obf_Jmax o'),
      ''S1 = '' @ show_int (obf_S1 o'), ''S2 = '' @ show_int (obf_S2 o'), ''S3 = '' @ show_int (obf_S3 o'), ''S4 = '' @ show_int (obf_S4 o'),
      ''H1 = '' @ show_int (obf_H1 o'), ''H2 = '' @ show_int (obf_H2 o'), ''H3 = '' @ show_int (obf_H3 o'), ''H4 = '' @ show_int (obf_H4 o')])"

definition write_conf_script :: "string \<Rightarrow> awg_init \<Rightarrow> string" where
  "write_conf_script name c = ''docker exec '' @ name @ '' mkdir -p /opt/amnezia/awg && cat <<'' @ [CHR 0x27] @ ''AWGEOF'' @ [CHR 0x27]
     @ '' | docker exec -i '' @ name @ '' tee /opt/amnezia/awg/awg0.conf > /dev/null'' @ [newline] @ awg_conf c @ [newline] @ ''AWGEOF''"

text \<open>The files in the order in which the map yields their names.\<close>

fun upload_files :: "'p prov_ops \<Rightarrow> (string \<times> string) list \<Rightarrow> 'p \<Rightarrow> prov_error option \<times> 'p" where
  "upload_files ops [] p = (None, p)"
| "upload_files ops ((name, content) # fs) p =
     (case po_upload ops (remoteDir @ ''/'' @ name) content p of
        (False, p1) \<Rightarrow> (Some (ProvUpload name), p1)
      | (True, p1) \<Rightarrow> upload_files ops fs p1)"

definition persist_provisioned :: "awg_init \<Rightarrow> root_config \<Rightarrow> root_config" where
  "persist_provisioned a c =
     c\<lparr>cfg_VPS := (cfg_VPS c)\<lparr>vps_IsProvisioned := True, vps_ContainerName := prov_container\<rparr>,
       cfg_Tunnel := (cfg_Tunnel c)\<lparr>tun_InterfaceName := ''awg0'', tun_Subnet := ai_Subnet a, tun_ServerIP := serverIPFromSubnet (ai_Subnet a),
         tun_ServerEndpoint := vps_Host (cfg_VPS c) @ '':'' @ show_int (ai_ListenPort a), tun_ServerPublicKey := ai_ServerPublicKey a,
         tun_PresharedKey := ai_PresharedKey a, tun_Status := ''provisioned'', tun_Obfuscation := ai_Obfuscation a\<rparr>\<rparr>"

record prov_env =
  pv_ssh_ok :: bool
  pv_awg :: "awg_init option"
  pv_order :: "(string \<times> string) list \<Rightarrow> (string \<times> string) list"
  pv_polls :: nat
  pv_io :: io_env

definition up_command :: string where
  "up_command = ''cd '' @ remoteDir @ '' && docker compose up -d --build''"

definition awg_quick_command :: string where
  "awg_quick_command = ''docker exec '' @ prov_container @ '' awg-quick up awg0''"

text \<open>From the container's start on; then from the generated configuration on.\<close>

definition finish_provision :: "'p prov_ops \<Rightarrow> prov_env \<Rightarrow> awg_init \<Rightarrow> manager \<times> 'p \<Rightarrow> (prov_error + string) \<times> manager \<times> 'p" where
  "finish_provision ops e a mp =
     (case waitForContainerHealthy ops prov_container (min 40 (pv_polls e)) (snd mp) of
        (Some err, p1) \<Rightarrow> (Inl err, fst mp, p1)
      | (None, p1) \<Rightarrow>
          (case po_script ops (write_conf_script prov_container a) p1 of
             ((_, False), p2) \<Rightarrow> (Inl ProvWriteConfig, fst mp, p2)
           | ((_, True), p2) \<Rightarrow>
               (case po_command ops awg_quick_command p2 of
                  ((_, False), p3) \<Rightarrow> (Inl ProvAwgQuick, fst mp, p3)
                | ((_, True), p3) \<Rightarrow>
                    (case Manager_Update (pv_io e) (persist_provisioned a) (fst mp) of
                       (Some _, m) \<Rightarrow> (Inl ProvSave, m, p3)
                     | (None, m) \<Rightarrow> (Inr prov_container, m, p3)))))"

definition deploy :: "'p prov_ops \<Rightarrow> prov_env \<Rightarrow> awg_init \<Rightarrow> string \<Rightarrow> string \<Rightarrow> manager \<times> 'p \<Rightarrow> (prov_error + string) \<times> manager \<times> 'p" where
  "deploy ops e a startSh composeYML mp =
     (case po_command ops (''mkdir -p '' @ remoteDir) (snd mp) of
        ((_, False), p1) \<Rightarrow> (Inl ProvMkdir, fst mp, p1)
      | ((_, True), p1) \<Rightarrow>
          (case upload_files ops (pv_order e [(''Dockerfile'', GenerateDockerfile ''1.0.20250901'' ''v0.2.13''), (''start.sh'', startSh), (''compose.yml'', composeYML)]) p1 of
             (Some err, p2) \<Rightarrow> (Inl err, fst mp, p2)
           | (None, p2) \<Rightarrow>
               (case po_command ops up_command p2 of
                  ((_, False), p3) \<Rightarrow> (Inl ProvUp, fst mp, p3)
                | ((_, True), p3) \<Rightarrow> finish_provision ops e a (fst mp, p3))))"

definition Provision :: "'p prov_ops \<Rightarrow> prov_env \<Rightarrow> manager \<times> 'p \<Rightarrow> (prov_error + string) \<times> manager \<times> 'p" where
  "Provision ops e mp =
     (let cfg = live (fst mp); vps = cfg_VPS cfg in
      if vps_IsProvisioned vps \<and> vps_ContainerName vps \<noteq> [] then (Inr (vps_ContainerName vps), mp)
      else if \<not> pv_ssh_ok e then (Inl ProvClient, mp)
      else case pv_awg e of
          None \<Rightarrow> (Inl ProvAWG, mp)
        | Some a \<Rightarrow>
            (case GenerateStartSh (ai_Subnet a) of
               None \<Rightarrow> (Inl ProvStart, mp)
             | Some startSh \<Rightarrow>
                 (case GenerateCompose (ai_ListenPort a) (dns_Provider (cfg_DNS cfg) = [] \<or> dns_Provider (cfg_DNS cfg) = ''manual'') (caddyImage cfg) of
                    None \<Rightarrow> (Inl ProvCompose, mp)
                  | Some composeYML \<Rightarrow> deploy ops e a startSh composeYML mp)))"

section \<open>The generated values\<close>

lemma randInt_range: "lo \<le> hi \<Longrightarrow> lo \<le> randInt lo hi x \<and> randInt lo hi x \<le> hi"
  using pos_mod_bound [of "hi - lo + 1" x] pos_mod_sign [of "hi - lo + 1" x] by (simp add: randInt_def)

lemma draw_distinct_spec:
  assumes "draw_distinct n lo hi acc draws = Some vs" and "distinct acc" and "set acc \<subseteq> {lo..hi}" and "length acc \<le> n" and "lo \<le> hi"
  shows "distinct vs \<and> set vs \<subseteq> {lo..hi} \<and> length vs = n"
  using assms
proof (induction draws arbitrary: acc)
  case (Cons x xs)
  then show ?case using randInt_range [of lo hi x] by (auto simp: Let_def split: if_splits)
qed (auto split: if_splits)

lemma draw_distinct_ends:
  "length acc \<le> n \<Longrightarrow> n \<le> card (set acc \<union> randInt lo hi ` set draws) \<Longrightarrow> \<exists>vs. draw_distinct n lo hi acc draws = Some vs"
proof (induction draws arbitrary: acc)
  case Nil
  then show ?case using card_length [of acc] by auto
next
  case (Cons x xs)
  let ?v = "randInt lo hi x"
  have u: "set (if ?v \<in> set acc then acc else acc @ [?v]) \<union> randInt lo hi ` set xs = set acc \<union> randInt lo hi ` set (x # xs)" by auto
  show ?case
  proof (cases "length acc < n")
    case True
    have "length (if ?v \<in> set acc then acc else acc @ [?v]) \<le> n" using True by simp
    then show ?thesis using Cons.IH [of "if ?v \<in> set acc then acc else acc @ [?v]"] Cons.prems(2) True unfolding u by (simp add: Let_def)
  qed (use Cons.prems in simp)
qed

text \<open>Distinct values: whenever the draws contain enough different ones the loop ends, and then the values are
  strictly increasing, in range and as many as asked for.\<close>

theorem randomDistinct_complete:
  assumes "lo \<le> hi" and "n \<le> card (randInt lo hi ` set draws)"
  shows "\<exists>vs. randomDistinct n lo hi draws = Some vs \<and> sorted_wrt (<) vs \<and> set vs \<subseteq> {lo..hi} \<and> length vs = n"
proof -
  obtain vs where vs: "draw_distinct n lo hi [] draws = Some vs" using draw_distinct_ends [of "[]" n lo hi draws] assms(2) by auto
  have v: "distinct vs" "set vs \<subseteq> {lo..hi}" "length vs = n" using draw_distinct_spec [OF vs] assms(1) by auto
  then have "n \<le> card {lo..hi}" using card_mono [OF finite_atLeastAtMost_int v(2)] by (simp add: distinct_card)
  then have "\<not> hi - lo + 1 < int n" using assms(1) by simp
  moreover have "sorted_wrt (<) (sort vs)" using v(1) by (simp add: strict_sorted_iff)
  ultimately show ?thesis using vs v by (simp add: randomDistinct_def)
qed

lemma randomDistinct_Some:
  assumes "randomDistinct n lo hi draws = Some vs" and "lo \<le> hi"
  shows "length vs = n \<and> set vs \<subseteq> {lo..hi} \<and> sorted_wrt (<) vs"
proof -
  obtain ws where ws: "draw_distinct n lo hi [] draws = Some ws" "vs = sort ws"
    using assms(1) by (auto simp: randomDistinct_def split: if_splits)
  then show ?thesis using draw_distinct_spec [OF ws(1)] assms(2) by (simp add: strict_sorted_iff)
qed

lemma trim_suffix_end: "trim_suffix (t @ x) x = t"
  by (simp add: trim_suffix_def has_suffix_def)

lemma byte_parts:
  fixes x :: int
  assumes "0 \<le> x" and "x \<le> 16383"
  shows "0 \<le> drop_bit 8 x \<and> drop_bit 8 x \<le> 63 \<and> 0 \<le> x AND 255 \<and> x AND 255 \<le> 255 \<and> x = 256 * drop_bit 8 x + (x AND 255)"
proof -
  have "x AND 255 = x mod 256" using take_bit_eq_mask [of 8 x] by (simp add: take_bit_eq_mod mask_eq_exp_minus_1)
  moreover have "drop_bit 8 x = x div 256" by (simp add: drop_bit_eq_div)
  ultimately show ?thesis using assms by auto
qed

text \<open>The subnet is one of the 16384 of the shared address space 100.64.0.0/10, each draw giving another one, and the
  server's address is its first.\<close>

theorem pickSubnet_range:
  "\<exists>b c. pickSubnet draw = ''100.'' @ show_int b @ ''.'' @ show_int c @ ''.0/24'' \<and> 64 \<le> b \<and> b \<le> 127 \<and> 0 \<le> c \<and> c \<le> 255
     \<and> 256 * (b - 64) + c = draw mod 16384
     \<and> serverIPFromSubnet (pickSubnet draw) = ''100.'' @ show_int b @ ''.'' @ show_int c @ ''.1''"
proof -
  define x where "x = randInt 0 16383 draw"
  have "0 \<le> x" "x \<le> 16383" using randInt_range [of 0 16383 draw] by (simp_all add: x_def)
  note p = byte_parts [OF this]
  have s: "serverIPFromSubnet (t @ ''.0/24'') = t @ ''.1''" for t
    by (simp add: serverIPFromSubnet_def trim_suffix_def has_suffix_def)
  have "x = draw mod 16384" by (simp add: x_def randInt_def)
  then show ?thesis
    using p s [of "''100.'' @ show_int (64 + drop_bit 8 x) @ ''.'' @ show_int (x AND 255)"]
    by (intro exI [of _ "64 + drop_bit 8 x"] exI [of _ "x AND 255"]) (simp add: pickSubnet_def x_def Let_def)
qed

lemma serverIP_form: "\<exists>b c. serverIPFromSubnet (pickSubnet draw) = ''100.'' @ show_int b @ ''.'' @ show_int c @ ''.1''"
  unfolding pickSubnet_def serverIPFromSubnet_def Let_def
  by (intro exI [of _ "64 + drop_bit 8 (randInt 0 16383 draw)"] exI [of _ "randInt 0 16383 draw AND 255"])
     (use trim_suffix_end [of "''100.'' @ show_int (64 + drop_bit 8 (randInt 0 16383 draw)) @ ''.'' @ show_int (randInt 0 16383 draw AND 255)" "''.0/24''"] in simp)

text \<open>A private key is clamped: its three lowest bits are clear, its highest bit is clear and the next one set; clamping
  again changes nothing, and the other bytes are the random ones.\<close>

theorem clamp_spec:
  assumes "length k = 32"
  shows "length (clamp k) = 32 \<and> clamp (clamp k) = clamp k \<and> (\<forall>i. 0 < i \<and> i < 31 \<longrightarrow> clamp k ! i = k ! i)
    \<and> clamp k ! 0 AND 7 = 0 \<and> clamp k ! 31 AND 192 = 64"
proof -
  have 0: "clamp k ! 0 = k ! 0 AND 248" and 31: "clamp k ! 31 = (k ! 31 AND 127) OR 64" using assms by (simp_all add: clamp_def Let_def)
  have w: "(b AND 248) AND (7 :: 8 word) = 0" "(b AND 248) AND 248 = b AND (248 :: 8 word)" for b
    by (simp_all add: and.assoc)
  have v: "((b AND 127) OR 64) AND (192 :: 8 word) = 64" "(((b AND 127) OR 64) AND 127) OR 64 = (b AND 127) OR (64 :: 8 word)" for b
    by (simp_all add: bit.conj_disj_distrib2 and.assoc or.assoc)
  have "clamp (clamp k) = clamp k"
    using assms w(2) [of "k ! 0"] v(2) [of "k ! 31"] by (simp add: clamp_def Let_def list_update_swap list_update_overwrite)
  then show ?thesis using assms 0 31 w(1) [of "k ! 0"] v(1) [of "k ! 31"] by (auto simp: clamp_def Let_def)
qed

section \<open>No health check\<close>

text \<open>Docker answers a container's health only if its image or its service declares a health check. \<open>mentions_healthcheck\<close> is
  a generous reading of a file: the word somewhere in a line.\<close>

definition mentions_healthcheck :: "string \<Rightarrow> bool" where
  "mentions_healthcheck text = list_ex (\<lambda>l. contains (to_lower l) ''healthcheck'') (split_on newline text)"

text \<open>A line with the word has one of these two letters after the other.\<close>

fun has_hc :: "string \<Rightarrow> bool" where
  "has_hc (x # y # r) = ((x = CHR ''h'' \<or> x = CHR ''H'') \<and> (y = CHR ''c'' \<or> y = CHR ''C'') \<or> has_hc (y # r))"
| "has_hc _ = False"

definition no_healthcheck_line :: "string \<Rightarrow> bool" where
  "no_healthcheck_line l \<longleftrightarrow> newline \<notin> set l \<and> \<not> has_hc l"

lemma lower_char_cases:
  assumes "lower_char c = d"
  shows "c = d \<or> c = char_of ((of_char d :: nat) - 32)"
proof (cases "65 \<le> (of_char c :: nat) \<and> (of_char c :: nat) \<le> 90")
  case True
  then have "(of_char d :: nat) = of_char c + 32" using assms by (auto simp: lower_char_def)
  then show ?thesis by simp
qed (use assms in \<open>auto simp: lower_char_def\<close>)

lemma lower_char_letter: "lower_char c = CHR ''h'' \<Longrightarrow> c = CHR ''h'' \<or> c = CHR ''H''" "lower_char c = CHR ''c'' \<Longrightarrow> c = CHR ''c'' \<or> c = CHR ''C''"
proof -
  have "char_of (72 :: nat) = CHR ''H''" "char_of (67 :: nat) = CHR ''C''" by code_simp+
  then show "lower_char c = CHR ''h'' \<Longrightarrow> c = CHR ''h'' \<or> c = CHR ''H''" "lower_char c = CHR ''c'' \<Longrightarrow> c = CHR ''c'' \<or> c = CHR ''C''"
    using lower_char_cases [of c "CHR ''h''"] lower_char_cases [of c "CHR ''c''"] by auto
qed

lemma has_hc_middle: "has_hc (pre @ x # y # post) \<longleftrightarrow> has_hc (pre @ [x]) \<or> has_hc (x # y # post)"
  by (induction pre rule: induct_list012) auto

lemma contains_has_hc: "contains (to_lower l) ''healthcheck'' \<Longrightarrow> has_hc l"
proof -
  assume "contains (to_lower l) ''healthcheck''"
  then obtain a b where "map lower_char l = (a @ ''healt'') @ CHR ''h'' # CHR ''c'' # ''heck'' @ b" unfolding contains_iff to_lower_def by auto
  then obtain pre x y post where l: "l = pre @ x # y # post" "lower_char x = CHR ''h''" "lower_char y = CHR ''c''"
    by (auto simp: map_eq_append_conv map_eq_Cons_conv simp del: append_assoc)
  then show "has_hc l" unfolding l(1) has_hc_middle [of pre x y post] using lower_char_letter by auto
qed

lemma unlines_no_healthcheck: "list_all no_healthcheck_line ls \<Longrightarrow> \<not> mentions_healthcheck (unlines ls)"
  using split_unlines [of ls "[]"] contains_has_hc by (auto simp: mentions_healthcheck_def no_healthcheck_line_def list_all_iff list_ex_iff to_lower_def)

lemma Dockerfile_no_healthcheck: "\<not> mentions_healthcheck (GenerateDockerfile ''1.0.20250901'' ''v0.2.13'')"
proof -
  have "list_all no_healthcheck_line (dockerfile_lines ''1.0.20250901'' ''v0.2.13'')" by code_simp
  then show ?thesis using unlines_no_healthcheck by (simp add: GenerateDockerfile_def)
qed

lemma set_show_int: "c \<in> set (show_int n) \<Longrightarrow> is_digit c \<or> c = CHR ''-''"
  using show_nat_all_digits [of "nat n"] show_nat_all_digits [of "nat (- n)"] by (auto simp: show_int_def list_all_iff split: if_splits)

lemma port_line_no_healthcheck: "no_healthcheck_line (''      - '' @ [CHR 0x22] @ show_int n @ '':'' @ show_int n @ ''/udp'' @ [CHR 0x22])"
  (is "no_healthcheck_line ?l")
proof -
  define plain where "plain c \<longleftrightarrow> c \<noteq> newline \<and> c \<noteq> CHR ''h'' \<and> c \<noteq> CHR ''H''" for c
  have "is_digit c \<or> c = CHR ''-'' \<Longrightarrow> plain c" for c
    by (auto simp: plain_def is_digit_def newline_def)
  then have "list_all plain (show_int n)" using set_show_int by (simp add: list_all_iff)
  moreover have "list_all plain (''      - '' @ [CHR 0x22])" "list_all plain '':''" "list_all plain (''/udp'' @ [CHR 0x22])"
    by (simp_all add: plain_def newline_def)
  ultimately have "list_all plain ?l" by simp
  moreover have "list_all plain s \<Longrightarrow> \<not> has_hc s \<and> newline \<notin> set s" for s by (induction s rule: has_hc.induct) (auto simp: plain_def)
  ultimately show ?thesis unfolding no_healthcheck_line_def by blast
qed

lemma compose_no_healthcheck:
  assumes "GenerateCompose port manualDNS (caddyImage cfg) = Some text"
  shows "\<not> mentions_healthcheck text"
proof -
  have h: "list_all no_healthcheck_line (prov_compose_head (show_int port))"
  proof -
    have "list_all no_healthcheck_line (take 6 (prov_compose_head []) @ drop 7 (prov_compose_head []))" by code_simp
    then show ?thesis using port_line_no_healthcheck [of port] by (simp add: prov_compose_head_def)
  qed
  have m: "list_all no_healthcheck_line prov_compose_http" by code_simp
  have t: "list_all no_healthcheck_line (prov_compose_tail ''caddy:2-alpine'')" "list_all no_healthcheck_line (prov_compose_tail ''unet/caddy-cloudflare:local'')"
    by code_simp+
  have "\<exists>ls. text = unlines ls \<and> list_all no_healthcheck_line ls"
    using assms h m t by (auto simp: GenerateCompose_def caddyImage_def split: if_splits)
  then show ?thesis using unlines_no_healthcheck by blast
qed

section \<open>The configuration that is read back\<close>

lemma trim_space_plain: "list_all (\<lambda>c. \<not> is_space c) s \<Longrightarrow> trim_space s = s"
proof -
  assume "list_all (\<lambda>c. \<not> is_space c) s"
  then have "dropWhile is_space s = s" "dropWhile is_space (rev s) = rev s"
    by (auto simp: list_all_iff dropWhile_eq_self_iff hd_rev dest: last_in_set)
  then show ?thesis by (simp add: trim_space_def)
qed

lemma show_int_plain: "list_all (\<lambda>c. \<not> is_space c) (show_int n)" "newline \<notin> set (show_int n)"
  using set_show_int [of _ n] by (fastforce simp: list_all_iff is_digit_def is_space_def, fastforce simp: is_digit_def newline_def)

lemma trim_space_show_int [simp]: "trim_space (show_int n) = show_int n"
  by (rule trim_space_plain [OF show_int_plain(1)])

lemma Atoi_value_show_int: "- (2 ^ 63) \<le> v \<Longrightarrow> v < 2 ^ 63 \<Longrightarrow> Atoi_value (show_int v) = v"
  by (simp add: Atoi_value_def parse_int_show_int)

lemma key_text_plain: "newline \<notin> set (key_text k)"
proof -
  have "b64_char std_alphabet n \<noteq> newline" if "n < 64" for n
    using std_char(2) [OF that] by (cases "b64_char std_alphabet n = newline") (simp_all add: newline_def)
  then have "newline \<notin> set (map (b64_char std_alphabet) (b64_digits t))" for t using b64_digits_less by fastforce
  moreover have "newline \<notin> set (std_padding n)" for n by (simp add: std_padding_def newline_def)
  ultimately show ?thesis by (simp add: key_text_def std_encode_def)
qed

lemma trim_right_twice: "trim_right newline (t @ [newline]) = trim_right newline t"
  by (simp add: trim_right_def)

text \<open>An interface section in two blocks, which no other section follows.\<close>

lemma extract_two_blocks:
  assumes "plain_assignments xs" and "plain_assignments ys" and "ys \<noteq> []"
  defines "text \<equiv> unlines ([''[Interface]''] @ map assignment xs @ [[]] @ map assignment ys @ [[]])"
  shows "split_on newline (extractSection text ''Interface'') = map assignment xs @ [[]] @ map assignment ys" and "extractSection text ''Interface'' \<noteq> []"
proof -
  let ?ls = "map assignment xs @ [[]] @ map assignment ys"
  have an: "\<forall>l \<in> set ?ls. newline \<notin> set l" using assignment_no_newline [OF assms(1)] assignment_no_newline [OF assms(2)] by auto
  have tr: "trim_space ''[Interface]'' = ''[Interface]''" "trim_space [] = []" "newline \<notin> set ''[Interface]''" by (code_simp, code_simp, simp add: newline_def)
  have "split_on newline text = [''[Interface]''] @ ?ls @ [[], []]"
    using an tr(3) split_unlines [of "[''[Interface]''] @ ?ls @ [[]]" "[]"] by (simp add: text_def ball_Un)
  moreover have "section_lines ''[Interface]'' True ([[]] @ rest) = [] # section_lines ''[Interface]'' True rest" for rest
    by (simp add: tr has_prefix_def has_suffix_def)
  ultimately have sec: "section_lines ''[Interface]'' False (split_on newline text) = ?ls @ [[], []]"
    using section_assignments [OF assms(1)] section_assignments [OF assms(2)] by (simp add: tr has_prefix_def)
  have la: "last ?ls \<noteq> []" using assms(2,3) by (auto simp: last_map assignment_def plain_assignments_def)
  have ln: "newline \<notin> set (last ?ls)" using an by (metis last_in_set append_is_Nil_conv not_Cons_self2)
  have "trim_right newline (unlines (?ls @ [[], []])) = trim_right newline (unlines (?ls @ [[]]))"
    using trim_right_twice [of "unlines (?ls @ [[]])"] by (simp add: unlines_def)
  then have ex: "extractSection text ''Interface'' = join_with [newline] ?ls"
    using trim_right_lines [OF _ la ln] sec by (simp add: extractSection_def unlines_def)
  show "split_on newline (extractSection text ''Interface'') = ?ls" unfolding ex using an by (intro split_join) auto
  then show "extractSection text ''Interface'' \<noteq> []" by (intro notI) (use assms(3) in \<open>cases xs; simp\<close>)
qed

lemma awg_conf_blocks:
  "awg_conf c @ [newline] = unlines ([''[Interface]''] @ map assignment
       [(''PrivateKey'', ai_ServerPrivateKey c), (''Address'', serverIPFromSubnet (ai_Subnet c) @ ''/24''), (''ListenPort'', show_int (ai_ListenPort c))] @ [[]]
     @ map assignment [(''Jc'', show_int (obf_Jc (ai_Obfuscation c))), (''Jmin'', show_int (obf_Jmin (ai_Obfuscation c))), (''Jmax'', show_int (obf_Jmax (ai_Obfuscation c))),
       (''S1'', show_int (obf_S1 (ai_Obfuscation c))), (''S2'', show_int (obf_S2 (ai_Obfuscation c))), (''S3'', show_int (obf_S3 (ai_Obfuscation c))),
       (''S4'', show_int (obf_S4 (ai_Obfuscation c))), (''H1'', show_int (obf_H1 (ai_Obfuscation c))), (''H2'', show_int (obf_H2 (ai_Obfuscation c))),
       (''H3'', show_int (obf_H3 (ai_Obfuscation c))), (''H4'', show_int (obf_H4 (ai_Obfuscation c)))] @ [[]])"
  by (simp add: awg_conf_def unlines_def assignment_def Let_def)

definition obfuscation_ok :: "obfuscation_config \<Rightarrow> bool" where
  "obfuscation_ok obf \<longleftrightarrow> obf_Jc obf = 4 \<and> obf_Jmin obf = 10 \<and> obf_Jmax obf = 50
     \<and> (\<forall>v \<in> {obf_S1 obf, obf_S2 obf, obf_S3 obf, obf_S4 obf}. 0 \<le> v \<and> v \<le> 255)
     \<and> (\<forall>v \<in> {obf_H1 obf, obf_H2 obf, obf_H3 obf, obf_H4 obf}. 1 \<le> v \<and> v \<le> 2147483647)
     \<and> distinct [obf_S1 obf, obf_S2 obf, obf_S3 obf, obf_S4 obf] \<and> distinct [obf_H1 obf, obf_H2 obf, obf_H3 obf, obf_H4 obf]
     \<and> obf_I1 obf = 0 \<and> obf_I2 obf = 0 \<and> obf_I3 obf = 0 \<and> obf_I4 obf = 0 \<and> obf_I5 obf = 0"

lemma four_values:
  assumes "randomDistinct 4 lo hi draws = Some vs" and "lo \<le> hi"
  shows "\<exists>a b c d. vs = [a, b, c, d] \<and> distinct [a, b, c, d] \<and> (\<forall>v \<in> {a, b, c, d}. lo \<le> v \<and> v \<le> hi)"
proof -
  have v: "length vs = 4" "set vs \<subseteq> {lo..hi}" "sorted_wrt (<) vs" using randomDistinct_Some [OF assms] by auto
  then obtain a b c d where "vs = [a, b, c, d]" by (auto simp: length_Suc_conv numeral_eq_Suc)
  then show ?thesis using v by auto
qed

lemma generateObfuscation_ok:
  assumes "generateObfuscation s h = Some obf"
  shows "obfuscation_ok obf"
proof -
  obtain vs ws where r: "randomDistinct 4 0 255 s = Some vs" "randomDistinct 4 1 2147483647 h = Some ws"
    using assms by (auto simp: generateObfuscation_def split: option.splits)
  obtain a b c d where v: "vs = [a, b, c, d]" "distinct [a, b, c, d]" "\<forall>v \<in> {a, b, c, d}. 0 \<le> v \<and> v \<le> 255" using four_values [OF r(1)] by auto
  obtain e f g i where w: "ws = [e, f, g, i]" "distinct [e, f, g, i]" "\<forall>v \<in> {e, f, g, i}. 1 \<le> v \<and> v \<le> 2147483647" using four_values [OF r(2)] by auto
  have "obf = \<lparr>obf_Jc = 4, obf_Jmin = 10, obf_Jmax = 50, obf_S1 = a, obf_S2 = b, obf_S3 = c, obf_S4 = d, obf_H1 = e, obf_H2 = f, obf_H3 = g, obf_H4 = i,
      obf_I1 = 0, obf_I2 = 0, obf_I3 = 0, obf_I4 = 0, obf_I5 = 0\<rparr>"
    using assms r v(1) w(1) by (simp add: generateObfuscation_def numeral_eq_Suc)
  then show ?thesis using v(2,3) w(2,3) unfolding obfuscation_ok_def by simp
qed

lemma interface_lines_append: "interface_lines (xs @ ys) s = Option.bind (interface_lines xs s) (interface_lines ys)"
  by (induction xs arbitrary: s) (simp_all split: option.split)

lemma GenerateAWGConfig_parts:
  assumes "GenerateAWGConfig x25519 d = Some c"
  shows "newline \<notin> set (ai_ServerPrivateKey c)" and "30000 \<le> ai_ListenPort c \<and> ai_ListenPort c \<le> 60000"
    and "\<exists>draw. ai_Subnet c = pickSubnet draw" and "obfuscation_ok (ai_Obfuscation c)"
  using assms generateObfuscation_ok randInt_range [of 30000 60000] key_text_plain
  by (auto simp: GenerateAWGConfig_def generateKeyPair_def Option.bind_eq_Some_conv split: option.splits prod.splits)

text \<open>C34: The generated configuration is read back whole: the program's own parser finds in it the address, the port and
  the obfuscation parameters that were drawn.\<close>
theorem awg_conf_roundtrip:
  assumes "GenerateAWGConfig x25519 d = Some c"
  shows "parseInterfaceSection (awg_conf c @ [newline]) scfg
    = Some (scfg\<lparr>svc_Address := serverIPFromSubnet (ai_Subnet c) @ ''/24'', svc_ListenPort := ai_ListenPort c,
        svc_Obfuscation := (svc_Obfuscation scfg)\<lparr>obf_Jc := obf_Jc (ai_Obfuscation c), obf_Jmin := obf_Jmin (ai_Obfuscation c), obf_Jmax := obf_Jmax (ai_Obfuscation c),
          obf_S1 := obf_S1 (ai_Obfuscation c), obf_S2 := obf_S2 (ai_Obfuscation c), obf_S3 := obf_S3 (ai_Obfuscation c), obf_S4 := obf_S4 (ai_Obfuscation c),
          obf_H1 := obf_H1 (ai_Obfuscation c), obf_H2 := obf_H2 (ai_Obfuscation c), obf_H3 := obf_H3 (ai_Obfuscation c), obf_H4 := obf_H4 (ai_Obfuscation c)\<rparr>\<rparr>)" (is "_ = Some ?read")
proof -
  note g = GenerateAWGConfig_parts [OF assms]
  obtain draw where sub: "ai_Subnet c = pickSubnet draw" using g(3) by auto
  have ip: "list_all (\<lambda>c. \<not> is_space c) (serverIPFromSubnet (ai_Subnet c) @ ''/24'') \<and> newline \<notin> set (serverIPFromSubnet (ai_Subnet c) @ ''/24'')"
    using serverIP_form [of draw] show_int_plain unfolding sub by (auto simp: is_space_def newline_def)
  let ?xs = "[(''PrivateKey'', ai_ServerPrivateKey c), (''Address'', serverIPFromSubnet (ai_Subnet c) @ ''/24''), (''ListenPort'', show_int (ai_ListenPort c))]"
  let ?ob = "ai_Obfuscation c"
  let ?ys = "[(''Jc'', show_int (obf_Jc ?ob)), (''Jmin'', show_int (obf_Jmin ?ob)), (''Jmax'', show_int (obf_Jmax ?ob)),
       (''S1'', show_int (obf_S1 ?ob)), (''S2'', show_int (obf_S2 ?ob)), (''S3'', show_int (obf_S3 ?ob)), (''S4'', show_int (obf_S4 ?ob)),
       (''H1'', show_int (obf_H1 ?ob)), (''H2'', show_int (obf_H2 ?ob)), (''H3'', show_int (obf_H3 ?ob)), (''H4'', show_int (obf_H4 ?ob))]"
  have kx: "list_all key_char ''PrivateKey''" "list_all key_char ''Address''" "list_all key_char ''ListenPort''"
    and ky: "list_all (list_all key_char) [''Jc'', ''Jmin'', ''Jmax'', ''S1'', ''S2'', ''S3'', ''S4'', ''H1'', ''H2'', ''H3'', ''H4'']" by code_simp+
  have px: "plain_assignments ?xs" and py: "plain_assignments ?ys" using kx ky g(1) ip show_int_plain(2) by (auto simp: plain_assignments_def)
  note ex = extract_two_blocks [OF px py list.distinct(2), folded awg_conf_blocks]
  have x: "interface_lines (map assignment ?xs) s = Some (s\<lparr>svc_Address := serverIPFromSubnet (ai_Subnet c) @ ''/24'', svc_ListenPort := ai_ListenPort c\<rparr>)" for s
    using kx g(2) trim_space_plain [OF conjunct1 [OF ip]] by (simp add: interface_line_assignment set_obfuscation_def Atoi_show_int)
  have n: "interface_lines ([[]] @ ls) s = interface_lines ls s" for ls s by (simp add: interface_line_def trim_space_def)
  have y: "interface_lines (map assignment ?ys) s = Some (s\<lparr>svc_Obfuscation := (svc_Obfuscation s)\<lparr>obf_Jc := obf_Jc ?ob, obf_Jmin := obf_Jmin ?ob, obf_Jmax := obf_Jmax ?ob,
          obf_S1 := obf_S1 ?ob, obf_S2 := obf_S2 ?ob, obf_S3 := obf_S3 ?ob, obf_S4 := obf_S4 ?ob,
          obf_H1 := obf_H1 ?ob, obf_H2 := obf_H2 ?ob, obf_H3 := obf_H3 ?ob, obf_H4 := obf_H4 ?ob\<rparr>\<rparr>)" for s
    using ky g(4) by (simp add: interface_line_assignment set_obfuscation_def Atoi_value_show_int obfuscation_ok_def)
  have "interface_lines (map assignment ?xs @ [[]] @ map assignment ?ys) scfg = Some ?read"
    unfolding interface_lines_append [of "map assignment ?xs"] x bind.bind_lunit n y by simp
  then show ?thesis unfolding parseInterfaceSection_def Let_def ex(1) using ex(2) by simp
qed

lemma upload_files_stored:
  assumes "\<And>path text p p'. po_upload ops path text p = (True, p') \<Longrightarrow> files p' = (files p)(path \<mapsto> text)"
    and "upload_files ops fs p = (None, p')" and "distinct (map fst fs)"
  shows "(\<forall>(n, c) \<in> set fs. files p' (remoteDir @ ''/'' @ n) = Some c) \<and> (\<forall>path. path \<notin> (\<lambda>n. remoteDir @ ''/'' @ n) ` set (map fst fs) \<longrightarrow> files p' path = files p path)"
  using assms(2,3)
proof (induction fs arbitrary: p)
  case (Cons nc fs)
  obtain n c where nc: "nc = (n, c)" by (cases nc)
  obtain p1 where u: "po_upload ops (remoteDir @ ''/'' @ n) c p = (True, p1)" "upload_files ops fs p1 = (None, p')"
    using Cons.prems(1) nc by (auto split: prod.splits bool.splits)
  have "remoteDir @ ''/'' @ n \<notin> (\<lambda>n. remoteDir @ ''/'' @ n) ` set (map fst fs)" using Cons.prems(2) nc by auto
  then show ?case using Cons.IH [OF u(2)] Cons.prems(2) assms(1) [OF u(1)] nc by auto
qed simp

lemma waitForContainerHealthy_fails:
  assumes "\<And>p out er p'. Q p \<Longrightarrow> po_command ops (inspect_command name) p = (((out, er), True), p') \<Longrightarrow> Q p' \<and> trim_space out \<noteq> ''healthy''" and "Q p"
  shows "fst (waitForContainerHealthy ops name n p) \<noteq> None"
  using assms(2)
proof (induction n arbitrary: p)
  case (Suc n)
  obtain out er ok p1 where c: "po_command ops (inspect_command name) p = (((out, er), ok), p1)" by (metis prod.collapse)
  show ?case using assms(1) [OF Suc.prems, of out er p1] Suc.IH [of p1] c by (cases ok) auto
qed simp

text \<open>C33: A server that is not provisioned never becomes so. The laws are those of the remote side: an upload that succeeds
  leaves the file on the host, starting the containers and asking for their health leave the files alone, and
  Docker says \<open>healthy\<close> only of a container for which the uploaded files declare a health check. None does, so the wait for
  the container always fails, whatever the network does, and the configuration stays as it was.\<close>
theorem provision_never_completes:
  assumes new: "\<not> (vps_IsProvisioned (cfg_VPS (live m)) \<and> vps_ContainerName (cfg_VPS (live m)) \<noteq> [])"
    and order: "\<And>fs. mset (pv_order e fs) = mset fs"
    and upload: "\<And>path text p p'. po_upload ops path text p = (True, p') \<Longrightarrow> files p' = (files p)(path \<mapsto> text)"
    and command: "\<And>cmd p. cmd \<in> {up_command, inspect_command prov_container} \<Longrightarrow> files (snd (po_command ops cmd p)) = files p"
    and health: "\<And>p out er p'. po_command ops (inspect_command prov_container) p = (((out, er), True), p') \<Longrightarrow> trim_space out = ''healthy'' \<Longrightarrow>
      \<exists>name text. name \<in> {''Dockerfile'', ''compose.yml''} \<and> files p (remoteDir @ ''/'' @ name) = Some text \<and> mentions_healthcheck text"
  shows "\<exists>err p'. Provision ops e (m, p) = (Inl err, m, p')"
proof -
  let ?quiet = "\<lambda>p. \<forall>name \<in> {''Dockerfile'', ''compose.yml''}. \<exists>text. files p (remoteDir @ ''/'' @ name) = Some text \<and> \<not> mentions_healthcheck text"
  have wait: "fst (waitForContainerHealthy ops prov_container n p) \<noteq> None" if "?quiet p" for n p
  proof (rule waitForContainerHealthy_fails [of ?quiet, OF _ that])
    fix p out er p' assume q: "?quiet p" and c: "po_command ops (inspect_command prov_container) p = (((out, er), True), p')"
    have "files p' = files p" using command [of "inspect_command prov_container" p] c by simp
    moreover have "trim_space out \<noteq> ''healthy''" using health [OF c] q by fastforce
    ultimately show "?quiet p' \<and> trim_space out \<noteq> ''healthy''" using q by simp
  qed
  have finish: "\<exists>err p'. finish_provision ops e a (m, p) = (Inl err, m, p')" if "?quiet p" for a p
    using wait [OF that, of "min 40 (pv_polls e)"] by (auto simp: finish_provision_def split: prod.splits option.splits)
  have "\<exists>err p'. deploy ops e a startSh composeYML (m, p) = (Inl err, m, p')" if "\<not> mentions_healthcheck composeYML" for a startSh composeYML p
  proof -
    let ?fs = "[(''Dockerfile'', GenerateDockerfile ''1.0.20250901'' ''v0.2.13''), (''start.sh'', startSh), (''compose.yml'', composeYML)]"
    have "mset (map fst (pv_order e ?fs)) = mset (map fst ?fs)" unfolding mset_map order ..
    then have d: "distinct (map fst (pv_order e ?fs))" using mset_eq_imp_distinct_iff by fastforce
    have s: "set (pv_order e ?fs) = set ?fs" using order [of ?fs] by (metis set_mset_mset)
    have q: "?quiet p2" if "upload_files ops (pv_order e ?fs) p1 = (None, p2)" for p1 p2
      using upload_files_stored [of ops files, OF upload that d] Dockerfile_no_healthcheck \<open>\<not> mentions_healthcheck composeYML\<close> unfolding s by simp
    have k: "?quiet (snd (po_command ops up_command p2))" if "?quiet p2" for p2 using command [of up_command p2] that by simp
    obtain out1 ok1 p1 where c1: "po_command ops (''mkdir -p '' @ remoteDir) p = ((out1, ok1), p1)" by (metis prod.collapse)
    obtain r p2 where c2: "upload_files ops (pv_order e ?fs) p1 = (r, p2)" by (metis prod.collapse)
    obtain out3 ok3 p3 where c3: "po_command ops up_command p2 = ((out3, ok3), p3)" by (metis prod.collapse)
    have "\<exists>err p'. finish_provision ops e a (m, p3) = (Inl err, m, p')" if "r = None" using finish [of p3 a] k [of p2] q c2 c3 that by simp
    then show ?thesis using c1 c2 c3 by (cases ok1; cases r; cases ok3) (simp_all add: deploy_def)
  qed
  then show ?thesis using new compose_no_healthcheck by (auto simp: Provision_def Let_def split: option.splits)
qed

text \<open>A server that was provisioned before is never provisioned again: when the daemon is configured for another host, the
  run for the new host ends at once, with the old container's name, and no command reaches the new host.\<close>

theorem reconfigured_host_skipped:
  assumes "manager_ok (vh_mgr h)" and "vps_IsProvisioned (cfg_VPS (live (vh_mgr h)))" and "vps_ContainerName (cfg_VPS (live (vh_mgr h))) \<noteq> []"
    and "handleVPSConfigure exists_file io uuid body h = (JSONResponse st b, h')"
  shows "Provision ops e (vh_mgr h', p) = (Inr (vps_ContainerName (cfg_VPS (live (vh_mgr h)))), vh_mgr h', p)"
proof -
  obtain req where "live (vh_mgr h') = store_vps req (live (vh_mgr h))" using configure_keeps_provisioned [OF assms(1,4)] by blast
  then show ?thesis using assms(2,3) by (simp add: Provision_def store_vps_def Let_def)
qed

section \<open>Witnesses\<close>

theorem randomDistinct_complete_witness: "\<exists>vs. randomDistinct 2 0 255 [7, 7 + 256, 3] = Some vs \<and> sorted_wrt (<) vs \<and> set vs \<subseteq> {0..255} \<and> length vs = 2"
  by (rule randomDistinct_complete) (simp_all add: randInt_def)

theorem clamp_spec_witness: "clamp (replicate 32 (255 :: 8 word)) ! 31 AND 192 = 64"
  using clamp_spec [of "replicate 32 255"] by simp

definition sample_draws :: awg_draws where
  "sample_draws = \<lparr>ad_key = Some (replicate 32 0), ad_psk = Some (replicate 32 1), ad_port = Some 5, ad_subnet = Some 300, ad_s = [1, 2, 2, 3, 4], ad_h = [10, 20, 30, 40]\<rparr>"

lemma sample_generated: "\<exists>c. GenerateAWGConfig Some sample_draws = Some c \<and> ai_ListenPort c = 30005"
  by (simp add: GenerateAWGConfig_def generateKeyPair_def sample_draws_def generateObfuscation_def randomDistinct_def randInt_def)

theorem awg_conf_roundtrip_witness:
  "map_option svc_ListenPort (parseInterfaceSection (awg_conf (the (GenerateAWGConfig Some sample_draws)) @ [newline]) zero_server_config) = Some 30005"
proof -
  obtain c where c: "GenerateAWGConfig Some sample_draws = Some c" "ai_ListenPort c = 30005" using sample_generated by auto
  show ?thesis using awg_conf_roundtrip [OF c(1), of zero_server_config] c by simp
qed

text \<open>A host that stores what is uploaded and whose containers have no health.\<close>

definition plain_host :: "(string \<Rightarrow> string option) prov_ops" where
  "plain_host = \<lparr>po_command = (\<lambda>cmd fs. (((''not_found'' @ [newline], []), True), fs)), po_script = (\<lambda>script fs. ((([], []), True), fs)),
     po_upload = (\<lambda>path text fs. (True, fs(path \<mapsto> text)))\<rparr>"

definition plain_env :: prov_env where
  "plain_env = \<lparr>pv_ssh_ok = True, pv_awg = GenerateAWGConfig Some sample_draws, pv_order = rev, pv_polls = 40, pv_io = io_all_ok\<rparr>"

theorem provision_never_completes_witness:
  "\<exists>err p'. Provision plain_host plain_env (vh_mgr idle_handler, \<lambda>_. None) = (Inl err, vh_mgr idle_handler, p')"
proof (rule provision_never_completes [where files = "\<lambda>fs. fs"])
  show "\<not> (vps_IsProvisioned (cfg_VPS (live (vh_mgr idle_handler))) \<and> vps_ContainerName (cfg_VPS (live (vh_mgr idle_handler))) \<noteq> [])"
    by (simp add: idle_handler_def web_live web_config_def zero_config_def zero_vps_def)
  have "trim_space (''not_found'' @ [newline]) \<noteq> ''healthy''" by code_simp
  then show "\<exists>name text. name \<in> {''Dockerfile'', ''compose.yml''} \<and> p (remoteDir @ ''/'' @ name) = Some text \<and> mentions_healthcheck text"
    if "po_command plain_host (inspect_command prov_container) p = (((out, er), True), p')" "trim_space out = ''healthy''" for p out er p'
    using that by (auto simp: plain_host_def)
qed (auto simp: plain_env_def plain_host_def)

definition old_host :: vps_handler where
  "old_host = idle_handler\<lparr>vh_mgr := snd (Manager_Update io_all_ok (\<lambda>c. c\<lparr>cfg_VPS := (cfg_VPS c)\<lparr>vps_IsProvisioned := True, vps_ContainerName := prov_container\<rparr>\<rparr>) (vh_mgr idle_handler))\<rparr>"

theorem reconfigured_host_skipped_witness:
  "\<exists>b h'. handleVPSConfigure (\<lambda>_. True) io_all_ok ''12345678'' (Some key_settings) old_host = (JSONResponse 202 b, h')
     \<and> Provision plain_host plain_env (vh_mgr h', \<lambda>_. None) = (Inr prov_container, vh_mgr h', \<lambda>_. None)"
proof -
  let ?f = "\<lambda>c. c\<lparr>cfg_VPS := (cfg_VPS c)\<lparr>vps_IsProvisioned := True, vps_ContainerName := prov_container\<rparr>\<rparr>"
  obtain err m where u: "Manager_Update io_all_ok ?f (vh_mgr idle_handler) = (err, m)" by (rule that) (rule prod.collapse [symmetric])
  have ok: "manager_ok (vh_mgr idle_handler)" using web_ok by (simp add: idle_handler_def ports_ok_def)
  have "err = None" using save_ok [of ?f "vh_mgr idle_handler"] u by simp
  then have m: "manager_ok m" "live m = ?f (live (vh_mgr idle_handler))" using Manager_Update_step [OF ok u] by (auto simp: update_outcome_def)
  have old: "vh_mgr old_host = m" using u by (simp add: old_host_def)
  obtain b h' where h: "handleVPSConfigure (\<lambda>_. True) io_all_ok ''12345678'' (Some key_settings) old_host = (JSONResponse 202 b, h')"
    using configure_accepted [of old_host "''12345678''"] by blast
  have "Provision plain_host plain_env (vh_mgr h', \<lambda>_. None) = (Inr (vps_ContainerName (cfg_VPS (live (vh_mgr old_host)))), vh_mgr h', \<lambda>_. None)"
    by (rule reconfigured_host_skipped [OF _ _ _ h]) (simp_all add: old m prov_container_def)
  then show ?thesis using h by (auto simp: old m)
qed

end
