(* ===== verification/Adapters.thy ===== *)
theory Adapters
  imports Remote_Handlers Routes_Expose Tunnel_Examples
begin

text \<open>
  The adapters that give the remote API its peers, routes and tunnel status (\<open>api/adapters/adapters.go\<close>), over
  the tunnel manager, the Caddy client, the DNS records and the one configuration that they all share. They
  are the values of the interfaces that \<open>Remote_Api\<close> leaves open, so that the handlers of the remote
  API run on them.
\<close>

section \<open>The shared state\<close>

text \<open>The tunnel's state contains the configuration. A proxy that was started is a pair of its listening port and
  the port it forwards to; nothing refers to it any more.\<close>

record ('t, 'c) remote_world =
  rw_tunnel :: "'t tunnel_state"
  rw_cc :: caddy_client
  rw_net :: 'c
  rw_proxies :: "(int \<times> int) list"

definition rw_cfg :: "('t, 'c) remote_world \<Rightarrow> root_config" where
  "rw_cfg w = live (ts_mgr (rw_tunnel w))"

definition with_mgr :: "manager \<Rightarrow> ('t, 'c) remote_world \<Rightarrow> ('t, 'c) remote_world" where
  "with_mgr m w = w\<lparr>rw_tunnel := (rw_tunnel w)\<lparr>ts_mgr := m\<rparr>\<rparr>"

text \<open>What the environment answers during one call; a proxy starts with a port or fails with a message.\<close>

record adapter_env =
  ax_uuid :: string
  ax_now :: string
  ax_proxy :: "string + int"
  ax_io :: io_env
  ax_text :: "io_error \<Rightarrow> string"
  ax_tunnel :: tunnel_env

section \<open>Tunnel status\<close>

definition TunnelAdapter :: "('t, 'c) remote_world tunnel_status" where
  "TunnelAdapter = \<lparr>ts_Status = (\<lambda>w. ts_status (rw_tunnel w)), ts_IsConnected = (\<lambda>w. ts_running (rw_tunnel w)),
     ts_GetConfig = (\<lambda>w. let t = cfg_Tunnel (rw_cfg w) in
       \<lparr>tc_LocalIP = tun_LocalIP t, tc_ServerIP = tun_ServerIP t, tc_ServerEndpoint = tun_ServerEndpoint t,
         tc_Status = tun_Status t, tc_ConnectedAt = tun_ConnectedAt t\<rparr>)\<rparr>"

section \<open>Routes\<close>

definition route_fqdn :: "root_config \<Rightarrow> string \<Rightarrow> string" where
  "route_fqdn cfg subdomain = (if dns_Zone (cfg_DNS cfg) \<noteq> [] then subdomain @ ''.'' @ dns_Zone (cfg_DNS cfg) else subdomain)"

definition route_view_of :: "root_config \<Rightarrow> exposed_port \<Rightarrow> route_view" where
  "route_view_of cfg p = \<lparr>rv_ID = ep_ID p, rv_Subdomain = ep_HostHeader p, rv_LocalPort = ep_Internal p, rv_Status = ep_Status p,
     rv_FQDN = route_fqdn cfg (ep_HostHeader p), rv_CreatedAt = ep_CreatedAt p\<rparr>"

definition Route_List :: "('t, 'c) remote_world \<Rightarrow> string + route_view list" where
  "Route_List w = Inr (map (route_view_of (rw_cfg w)) (cfg_ExposedPorts (rw_cfg w)))"

definition conflict_text :: "string \<Rightarrow> string" where
  "conflict_text subdomain = ''subdomain conflict: '' @ subdomain @ '' already in use''"

definition adapter_port :: "adapter_env \<Rightarrow> string \<Rightarrow> int \<Rightarrow> bool \<Rightarrow> exposed_port" where
  "adapter_port e subdomain port ok = \<lparr>ep_ID = ax_uuid e, ep_Protocol = ''http'', ep_Internal = port, ep_HostHeader = subdomain,
     ep_Status = (if ok then ''active'' else ''error''), ep_CreatedAt = ax_now e\<rparr>"

text \<open>From the started proxy on; \<open>cfg\<close> is the configuration read at the start of the call.\<close>

definition Route_publish :: "'c ports_net \<Rightarrow> adapter_env \<Rightarrow> root_config \<Rightarrow> string \<Rightarrow> int \<Rightarrow> int \<Rightarrow> ('t, 'c) remote_world
    \<Rightarrow> (string + route_view) \<times> ('t, 'c) remote_world" where
  "Route_publish net e cfg subdomain port proxyPort w =
     (let (ok, cw) = publish net cfg subdomain (upstream_dial cfg proxyPort) (rw_cc w, rw_net w);
          newPort = adapter_port e subdomain port ok;
          dup = has_host subdomain (rw_cfg w);
          (err, m) = Manager_Update (ax_io e) (append_port newPort) (ts_mgr (rw_tunnel w));
          undone = unpublish net (live m) subdomain ok cw;
          w1 = (with_mgr m w)\<lparr>rw_proxies := rw_proxies w @ [(proxyPort, port)]\<rparr>;
          kept = w1\<lparr>rw_cc := fst cw, rw_net := snd cw\<rparr>;
          rolled = w1\<lparr>rw_cc := fst undone, rw_net := snd undone\<rparr>
      in case err of
           Some x \<Rightarrow> (Inl (''failed to save route: '' @ ax_text e x), rolled)
         | None \<Rightarrow> if dup then (Inl (conflict_text subdomain), rolled) else (Inr (route_view_of cfg newPort), kept))"

definition Route_Create :: "'c ports_net \<Rightarrow> adapter_env \<Rightarrow> string \<Rightarrow> int \<Rightarrow> ('t, 'c) remote_world
    \<Rightarrow> (string + route_view) \<times> ('t, 'c) remote_world" where
  "Route_Create net e subdomain port w =
     (let cfg = rw_cfg w in
      if tun_Status (cfg_Tunnel cfg) \<noteq> ''connected'' then (Inl ''tunnel not connected'', w)
      else if has_host subdomain cfg then (Inl (conflict_text subdomain), w)
      else case ax_proxy e of
             Inl msg \<Rightarrow> (Inl (''failed to start local proxy: '' @ msg), w)
           | Inr proxyPort \<Rightarrow> Route_publish net e cfg subdomain port proxyPort w)"

definition Route_Delete :: "'c ports_net \<Rightarrow> adapter_env \<Rightarrow> string \<Rightarrow> ('t, 'c) remote_world \<Rightarrow> string option \<times> ('t, 'c) remote_world" where
  "Route_Delete net e i w =
     (let cfg = rw_cfg w in
      case List.find (\<lambda>ep. ep_ID ep = i) (cfg_ExposedPorts cfg) of
        None \<Rightarrow> (Some (''route not found: '' @ i), w)
      | Some ep \<Rightarrow>
          let cw = unpublish net cfg (ep_HostHeader ep) True (rw_cc w, rw_net w);
              (err, m) = Manager_Update (ax_io e) (drop_port i) (ts_mgr (rw_tunnel w))
          in (map_option (ax_text e) err, (with_mgr m w)\<lparr>rw_cc := fst cw, rw_net := snd cw\<rparr>))"

definition RouteAdapter :: "'c ports_net \<Rightarrow> adapter_env \<Rightarrow> ('t, 'c) remote_world route_mutator" where
  "RouteAdapter net e = \<lparr>rm_List = Route_List, rm_Create = Route_Create net e, rm_Delete = Route_Delete net e\<rparr>"

section \<open>Peers\<close>

definition peer_view_of :: "client_entry \<Rightarrow> peer_view" where
  "peer_view_of c = \<lparr>pv_ID = ce_ClientID c, pv_Name = ce_ClientName c, pv_PublicKey = [], pv_AllowedIP = [], pv_CreatedVia = ''api'',
     pv_CreatedAt = ce_CreationDate c, pv_Connected = False, pv_LastHandshake = [], pv_TransferRx = 0, pv_TransferTx = 0\<rparr>"

definition mirror_clients :: "'t tunnel_deps \<Rightarrow> root_config \<Rightarrow> client_entry list" where
  "mirror_clients td cfg =
     (case ParseServerMirror (td_mirror td) (cfg_ServerMirror cfg) of
        None \<Rightarrow> []
      | Some mirror \<Rightarrow> (case sm_ClientsTable mirror of None \<Rightarrow> [] | Some ct \<Rightarrow> (case cl_unmarshal (td_clients td) ct of None \<Rightarrow> [] | Some cs \<Rightarrow> cs)))"

definition Peer_List :: "'t tunnel_deps \<Rightarrow> ('t, 'c) remote_world \<Rightarrow> string + peer_view list" where
  "Peer_List td w = Inr (map peer_view_of (mirror_clients td (rw_cfg w)))"

definition Peer_GetByID :: "'t tunnel_deps \<Rightarrow> string \<Rightarrow> ('t, 'c) remote_world \<Rightarrow> string + peer_detail_view" where
  "Peer_GetByID td i w =
     (case Peer_List td w of
        Inl err \<Rightarrow> Inl err
      | Inr peers \<Rightarrow>
          (case List.find (\<lambda>p. pv_ID p = i \<or> has_prefix (pv_Name p) i) peers of
             None \<Rightarrow> Inl (''peer not found: '' @ i)
           | Some p \<Rightarrow> Inr \<lparr>pd_PeerView = p, pd_ClientConfig = []\<rparr>))"

definition not_connected_text :: "string \<Rightarrow> string" where
  "not_connected_text verb = ''tunnel not connected '' @ [CHR 0xE2] @ [CHR 0x80] @ [CHR 0x94] @ '' cannot '' @ verb @ '' peer''"

definition Peer_Create :: "'t tunnel_deps \<Rightarrow> adapter_env \<Rightarrow> string \<Rightarrow> ('t, 'c) remote_world \<Rightarrow> (string + peer_detail_view) \<times> ('t, 'c) remote_world" where
  "Peer_Create td e name w =
     (if \<not> ts_running (rw_tunnel w) then (Inl (not_connected_text ''create''), w)
      else case AddPeerForRemote td (ax_tunnel e) name (rw_tunnel w) of
             (Inl err, t) \<Rightarrow> (Inl err, w\<lparr>rw_tunnel := t\<rparr>)
           | (Inr pubKey, t) \<Rightarrow>
               (Inr \<lparr>pd_PeerView = peer_view_of \<lparr>ce_ClientID = pubKey, ce_ClientName = name, ce_CreationDate = ax_now e\<rparr>, pd_ClientConfig = []\<rparr>, w\<lparr>rw_tunnel := t\<rparr>))"

definition Peer_Delete :: "'t tunnel_deps \<Rightarrow> (client_entry list \<Rightarrow> string) \<Rightarrow> adapter_env \<Rightarrow> string \<Rightarrow> ('t, 'c) remote_world
    \<Rightarrow> string option \<times> ('t, 'c) remote_world" where
  "Peer_Delete td marshal e i w =
     (if \<not> ts_running (rw_tunnel w) then (Some (not_connected_text ''delete''), w)
      else case RemovePeerByPublicKey td marshal (ax_tunnel e) i (rw_tunnel w) of (err, t) \<Rightarrow> (err, w\<lparr>rw_tunnel := t\<rparr>))"

definition PeerAdapter :: "'t tunnel_deps \<Rightarrow> (client_entry list \<Rightarrow> string) \<Rightarrow> adapter_env \<Rightarrow> ('t, 'c) remote_world peer_mutator" where
  "PeerAdapter td marshal e = \<lparr>pm_List = Peer_List td, pm_GetByID = Peer_GetByID td, pm_Create = Peer_Create td e, pm_Delete = Peer_Delete td marshal e\<rparr>"

section \<open>The status codes of the remote API\<close>

text \<open>What a request for a new route answers, on every branch. A proxy that cannot be started is told apart from a
  tunnel that is not connected by nothing: its message starts with the word tunnel.\<close>

lemma conflict_reply: "reply_status (handleRouteError (conflict_text subdomain)) = 409"
proof -
  have "to_lower (conflict_text subdomain) = ''subdomain '' @ ''conflict'' @ to_lower ('': '' @ subdomain @ '' already in use'')"
    by (simp add: conflict_text_def to_lower_def lower_char_def)
  then have "contains (to_lower (conflict_text subdomain)) ''conflict''" unfolding contains_iff by blast
  then show ?thesis by (simp add: handleRouteError_def)
qed

lemma not_connected_reply: "reply_status (handleRouteError ''tunnel not connected'') = 412"
  by code_simp

lemma Manager_Update_result: "fst (Manager_Update io fn m) = fst (saveLocked io (fn (live m)) (mgr_disk m))"
  by (simp add: Manager_Update_def live_def Let_def split: prod.splits option.splits)

lemma Route_publish_result:
  assumes "\<not> has_host subdomain (rw_cfg w)"
  shows "fst (Route_publish net e cfg subdomain port proxyPort w) =
    (let p = adapter_port e subdomain port (fst (publish net cfg subdomain (upstream_dial cfg proxyPort) (rw_cc w, rw_net w))) in
     case fst (saveLocked (ax_io e) (append_port p (rw_cfg w)) (mgr_disk (ts_mgr (rw_tunnel w)))) of
       Some err \<Rightarrow> Inl (''failed to save route: '' @ ax_text e err) | None \<Rightarrow> Inr (route_view_of cfg p))"
proof -
  obtain ok cw where p: "publish net cfg subdomain (upstream_dial cfg proxyPort) (rw_cc w, rw_net w) = (ok, cw)" by (metis prod.collapse)
  obtain err m where u: "Manager_Update (ax_io e) (append_port (adapter_port e subdomain port ok)) (ts_mgr (rw_tunnel w)) = (err, m)"
    by (metis prod.collapse)
  have "err = fst (saveLocked (ax_io e) (append_port (adapter_port e subdomain port ok) (rw_cfg w)) (mgr_disk (ts_mgr (rw_tunnel w))))"
    using Manager_Update_result [of "ax_io e" _ "ts_mgr (rw_tunnel w)"] u by (metis fst_conv rw_cfg_def)
  then show ?thesis using assms p u by (simp add: Route_publish_def Let_def split: option.splits)
qed

theorem remote_route_codes:
  "reply_status (fst (CreateRoute (RouteAdapter net e) r info s)) =
     (case r_Body r of
        RouteReq subdomain port \<Rightarrow>
          if subdomain = [] \<or> port < 1 \<or> port > 65535 then 400
          else if tun_Status (cfg_Tunnel (rw_cfg (srv_world s))) \<noteq> ''connected'' then 412
          else if has_host subdomain (rw_cfg (srv_world s)) then 409
          else (case ax_proxy e of
                  Inl msg \<Rightarrow> reply_status (handleRouteError (''failed to start local proxy: '' @ msg))
                | Inr proxyPort \<Rightarrow>
                    (case fst (saveLocked (ax_io e) (append_port (adapter_port e subdomain port
                         (fst (publish net (rw_cfg (srv_world s)) subdomain (upstream_dial (rw_cfg (srv_world s)) proxyPort) (rw_cc (srv_world s), rw_net (srv_world s)))))
                         (rw_cfg (srv_world s))) (mgr_disk (ts_mgr (rw_tunnel (srv_world s))))) of
                       Some err \<Rightarrow> reply_status (handleRouteError (''failed to save route: '' @ ax_text e err))
                     | None \<Rightarrow> 201))
      | _ \<Rightarrow> 400)"
proof (cases "r_Body r")
  case (RouteReq subdomain port)
  let ?w = "srv_world s"
  have reply: "reply_status (fst (CreateRoute (RouteAdapter net e) r info s)) = (if subdomain = [] \<or> port < 1 \<or> port > 65535 then 400
      else case fst (Route_Create net e subdomain port ?w) of Inl msg \<Rightarrow> reply_status (handleRouteError msg) | Inr v \<Rightarrow> 201)"
    by (simp add: RouteReq CreateRoute_def RouteAdapter_def split: prod.splits sum.splits)
  show ?thesis
  proof (cases "tun_Status (cfg_Tunnel (rw_cfg ?w)) = ''connected'' \<and> \<not> has_host subdomain (rw_cfg ?w)")
    case True
    then show ?thesis
      by (cases "ax_proxy e") (simp_all add: reply RouteReq Route_Create_def Let_def Route_publish_result split: option.splits)
  qed (auto simp: reply RouteReq Route_Create_def Let_def conflict_reply not_connected_reply)
qed (simp_all add: CreateRoute_def)

lemma proxy_failure_reply: "reply_status (handleRouteError (''failed to start local proxy: tunnel: '' @ rest)) \<in> {409, 412}"
proof -
  have "to_lower (''failed to start local proxy: tunnel: '' @ rest) = ''failed to start local proxy: '' @ ''tunnel'' @ '': '' @ to_lower rest"
    by (simp add: to_lower_def lower_char_def)
  then have "contains (to_lower (''failed to start local proxy: tunnel: '' @ rest)) ''tunnel''" unfolding contains_iff by blast
  then show ?thesis by (auto simp: handleRouteError_def Let_def)
qed

section \<open>Routes and their proxies\<close>

lemma find_key_snoc: "\<forall>y \<in> set xs. f y \<noteq> k \<Longrightarrow> List.find (\<lambda>y. f y = k) (xs @ [x]) = (if f x = k then Some x else None)"
  by (induction xs) auto

text \<open>Creating and deleting a route restores the configuration and Caddy's routes exactly, but the local proxy
  of the route goes on listening on the tunnel's address and forwarding to the port.\<close>

theorem deleted_route_leaves_proxy:
  assumes laws: "net_laws net rs zs" and up: "caddy_up (pn_caddy net)" and m: "manager_ok (ts_mgr (rw_tunnel w))"
    and cfg: "cfg = rw_cfg w" "manual_dns cfg" "resolveBaseURL cfg \<noteq> None" "tun_Status (cfg_Tunnel cfg) = ''connected''"
    and new: "\<not> has_host subdomain cfg" "\<forall>ep \<in> set (cfg_ExposedPorts cfg). ep_ID ep \<noteq> ax_uuid e"
    and env: "ax_proxy e = Inr proxyPort" "ax_io e = io_all_ok" "ax_io e2 = io_all_ok"
    and h: "host = full_host cfg subdomain" "host \<noteq> []" "\<forall>x \<in> set (rs (rw_net w)). route_host x \<noteq> [] \<and> \<not> EqualFold (route_host x) host"
    and run: "Route_Create net e subdomain port w = (r, w1)" "Route_Delete net e2 (ax_uuid e) w1 = (d, w2)"
  shows "r = Inr (route_view_of cfg (adapter_port e subdomain port True)) \<and> rs (rw_net w1) = rs (rw_net w) @ [new_route host (upstream_dial cfg proxyPort)]
    \<and> d = None \<and> rw_cfg w2 = cfg \<and> rs (rw_net w2) = rs (rw_net w)
    \<and> rw_proxies w2 = rw_proxies w @ [(proxyPort, port)]"
proof -
  let ?d = "upstream_dial cfg proxyPort" and ?p = "adapter_port e subdomain port True" and ?m = "ts_mgr (rw_tunnel w)"
  have cl: "caddy_laws (pn_caddy net) rs" using laws by (simp add: net_laws_def)
  obtain c1 n1 where a: "AddRoute (pn_caddy net) cfg host ?d (rw_cc w, rw_net w) = (None, c1, n1)"
    using AddRoute_up [OF up cfg(3)] by (metis prod.collapse)
  have n1: "rs n1 = rs (rw_net w) @ new_route host ?d # []" using AddRoute_ok [OF cl a] by simp
  have dns: "manual_dns c \<Longrightarrow> CreateRecord (pn_cf net) c subdomain x = (None, x)" "manual_dns c \<Longrightarrow> DeleteRecord (pn_cf net) c subdomain x = (None, x)" for c x
    by (simp_all add: CreateRecord_def DeleteRecord_def manual_dns_def to_lower_def lower_char_def)
  have p: "publish net cfg subdomain ?d (rw_cc w, rw_net w) = (True, c1, n1)" using a dns(1) [OF cfg(2)] h(1) by (simp add: publish_def)
  obtain m1 where u1: "Manager_Update io_all_ok (append_port ?p) ?m = (None, m1)" using save_ok by (metis prod.collapse)
  have cfg1: "live m1 = cfg\<lparr>cfg_ExposedPorts := cfg_ExposedPorts cfg @ [?p]\<rparr>" and ok1: "manager_ok m1"
    using Manager_Update_step [OF m u1] new(1) cfg(1) by (simp_all add: update_outcome_def append_port_def adapter_port_def rw_cfg_def)
  have r: "r = Inr (route_view_of cfg ?p)" and w1: "w1 = (with_mgr m1 w)\<lparr>rw_proxies := rw_proxies w @ [(proxyPort, port)], rw_cc := c1, rw_net := n1\<rparr>"
    using run(1) env cfg new(1) p u1 by (auto simp: Route_Create_def Route_publish_def Let_def rw_cfg_def [symmetric])
  have live1: "rw_cfg w1 = cfg\<lparr>cfg_ExposedPorts := cfg_ExposedPorts cfg @ [?p]\<rparr>" (is "_ = ?cfg1") using w1 cfg1 by (simp add: rw_cfg_def with_mgr_def)
  have same: "resolveBaseURL ?cfg1 = resolveBaseURL cfg" "full_host ?cfg1 subdomain = host" "manual_dns ?cfg1"
    using cfg(2) h(1) by (simp_all add: resolveBaseURL_def full_host_def manual_dns_def)
  have f: "List.find (\<lambda>ep. ep_ID ep = ax_uuid e) (cfg_ExposedPorts ?cfg1) = Some ?p"
    using find_key_snoc [OF new(2), of ?p] by (simp add: adapter_port_def)
  have hf: "route_host (new_route host ?d) = host" using h(2) by (rule route_host_new)
  have pre: "\<forall>x \<in> set (rs (rw_net w)). \<not> EqualFold (route_host x) host" using h(3) by blast
  have eq: "EqualFold (route_host (new_route host ?d)) host" using hf by (simp add: EqualFold_def)
  obtain c2 n2 where rm: "RemoveRoute (pn_caddy net) ?cfg1 host (c1, n1) = (None, c2, n2)"
    using RemoveRoute_up [OF up cl _ n1 h(2) eq pre, of ?cfg1] same(1) cfg(3) by (metis prod.collapse)
  have n2: "rs n2 = rs (rw_net w)" using conjunct1 [OF conjunct2 [OF RemoveRoute_deletes [OF cl rm h(2) n1 eq pre]]] h(3) by simp
  have un: "unpublish net ?cfg1 subdomain True (c1, n1) = (c2, n2)" using rm dns(2) [OF same(3)] same(2) by (simp add: unpublish_def)
  obtain m2 where u2: "Manager_Update io_all_ok (drop_port (ax_uuid e)) m1 = (None, m2)" using save_ok by (metis prod.collapse)
  have "live m2 = cfg1\<lparr>cfg_ExposedPorts := cfg_ExposedPorts cfg\<rparr>" if "cfg1 = live m1" for cfg1
    using Manager_Update_step [OF ok1 u2] cfg1 remove_first_snoc [OF new(2), of ?p] that
    by (simp add: update_outcome_def drop_port_def adapter_port_def)
  then have live2: "live m2 = cfg" unfolding cfg1 by (cases cfg) simp
  have host: "ep_HostHeader ?p = subdomain" by (simp add: adapter_port_def)
  have "d = None" "w2 = (with_mgr m2 w1)\<lparr>rw_cc := c2, rw_net := n2\<rparr>"
    using run(2) env(3) f un u2 host w1 unfolding Route_Delete_def Let_def live1 by (auto simp: with_mgr_def)
  then show ?thesis using r n1 n2 live2 w1 by (simp add: rw_cfg_def with_mgr_def)
qed

text \<open>A deletion is reported as done although Caddy did not take part: the host stays published, the configuration
  has forgotten it, and a second deletion is refused.\<close>

theorem deleted_route_stays_public:
  assumes m: "manager_ok (ts_mgr (rw_tunnel w))" and cfg: "cfg = rw_cfg w"
    and down: "\<forall>u x. ca_get (pn_caddy net) u x = (None, x)" and manual: "manual_dns cfg"
    and ep: "cfg_ExposedPorts cfg = [ep]" "i = ep_ID ep" "i \<noteq> []"
    and io: "ax_io e = io_all_ok" and del: "DeleteRoute (RouteAdapter net e) i r info s = (reply, s')" and w: "w = srv_world s"
  shows "reply = JSONResponse 200 (RemovedBody i) \<and> rw_net (srv_world s') = rw_net w \<and> cfg_ExposedPorts (rw_cfg (srv_world s')) = []
    \<and> reply_status (fst (DeleteRoute (RouteAdapter net e) i r info s')) = 404"
proof -
  have dns: "DeleteRecord (pn_cf net) cfg sub x = (None, x)" for sub x
    using manual by (simp add: DeleteRecord_def manual_dns_def to_lower_def lower_char_def)
  obtain url c1 where "baseURLResolved cfg (rw_cc w) = (url, c1)" by (metis prod.collapse)
  then have "unpublish net cfg (ep_HostHeader ep) True (rw_cc w, rw_net w) = (c1, rw_net w)"
    using down dns by (cases url) (simp_all add: unpublish_def RemoveRoute_def findRouteIndexLocked_def listRoutesLocked_def)
  moreover obtain m1 where u: "Manager_Update io_all_ok (drop_port i) (ts_mgr (rw_tunnel w)) = (None, m1)" using save_ok by (metis prod.collapse)
  ultimately have d: "Route_Delete net e i w = (None, (with_mgr m1 w)\<lparr>rw_cc := c1, rw_net := rw_net w\<rparr>)"
    using ep io cfg by (simp add: Route_Delete_def Let_def)
  have "cfg_ExposedPorts (live m1) = []"
    using Manager_Update_step [OF m u] ep cfg by (simp add: update_outcome_def drop_port_def rw_cfg_def)
  then show ?thesis using d del ep(3) w by (auto simp: DeleteRoute_def RouteAdapter_def Route_Delete_def rw_cfg_def with_mgr_def)
qed

text \<open>The remote API takes any text for a subdomain, so it stores ports that the daemon's own API refuses.\<close>

theorem remote_route_unchecked:
  assumes "manager_ok (ts_mgr (rw_tunnel (srv_world s)))" and "tun_Status (cfg_Tunnel (rw_cfg (srv_world s))) = ''connected''"
    and "subdomain \<noteq> []" and "1 \<le> port" and "port \<le> 65535" and "\<not> has_host subdomain (rw_cfg (srv_world s))"
    and "ax_proxy e = Inr proxyPort" and "ax_io e = io_all_ok" and "r_Body r = RouteReq subdomain port"
    and "\<exists>l \<in> set (split_on CHR ''.'' subdomain). \<not> subdomainLabelRe l"
    and "CreateRoute (RouteAdapter net e) r info s = (reply, s')"
  shows "reply_status reply = 201 \<and> has_host subdomain (rw_cfg (srv_world s')) \<and> \<not> ports_wf (cfg_ExposedPorts (rw_cfg (srv_world s')))
    \<and> check_port_request \<lparr>cp_LocalPort = port, cp_Subdomain = subdomain, cp_Protocol = ''http''\<rparr> = Inl ''invalid_subdomain''"
proof -
  let ?w = "srv_world s"
  obtain ok cw where p: "publish net (rw_cfg ?w) subdomain (upstream_dial (rw_cfg ?w) proxyPort) (rw_cc ?w, rw_net ?w) = (ok, cw)" by (metis prod.collapse)
  let ?p = "adapter_port e subdomain port ok"
  obtain m1 where u: "Manager_Update io_all_ok (append_port ?p) (ts_mgr (rw_tunnel ?w)) = (None, m1)" using save_ok by (metis prod.collapse)
  have "live m1 = (rw_cfg ?w)\<lparr>cfg_ExposedPorts := cfg_ExposedPorts (rw_cfg ?w) @ [?p]\<rparr>"
    using Manager_Update_step [OF assms(1) u] assms(6) by (simp add: update_outcome_def append_port_def adapter_port_def rw_cfg_def)
  moreover have "fst (Route_Create net e subdomain port ?w) = Inr (route_view_of (rw_cfg ?w) ?p)"
      "rw_cfg (snd (Route_Create net e subdomain port ?w)) = live m1"
    using assms(2,6,7,8) p u by (simp_all add: Route_Create_def Route_publish_def Let_def) (simp add: rw_cfg_def with_mgr_def)
  moreover have "\<not> port_ok ?p" using assms(10) by (auto simp: port_ok_def adapter_port_def)
  moreover have "check_port_request \<lparr>cp_LocalPort = port, cp_Subdomain = subdomain, cp_Protocol = ''http''\<rparr> = Inl ''invalid_subdomain''"
    using assms(3,4,5,10) by (auto simp: check_port_request_def)
  ultimately show ?thesis
    using assms(3,4,5,9,11) by (auto simp: CreateRoute_def RouteAdapter_def has_host_def ports_wf_def adapter_port_def split: prod.splits)
qed

text \<open>The domain name that is reported is the one that is published, except for a subdomain that ends with the zone.\<close>

theorem reported_fqdn:
  "rv_FQDN (route_view_of cfg ep) = full_host cfg (ep_HostHeader ep) \<longleftrightarrow> dns_Zone (cfg_DNS cfg) = [] \<or> \<not> has_suffix (ep_HostHeader ep) (dns_Zone (cfg_DNS cfg))"
  by (auto simp: route_view_of_def route_fqdn_def full_host_def)

section \<open>Peers\<close>

text \<open>A lookup takes the first peer whose identifier is the text or whose name begins with it, so the exact identifier
  of one peer may give another.\<close>

theorem peer_lookup_takes_prefix:
  assumes "mirror_clients td (rw_cfg w) = pre @ c # post" and "has_prefix (ce_ClientName c) i"
    and "\<forall>x \<in> set pre. ce_ClientID x \<noteq> i \<and> \<not> has_prefix (ce_ClientName x) i"
  shows "Peer_GetByID td i w = Inr \<lparr>pd_PeerView = peer_view_of c, pd_ClientConfig = []\<rparr>"
proof -
  have "List.find (\<lambda>p. pv_ID p = i \<or> has_prefix (pv_Name p) i) (map peer_view_of (pre @ c # post)) = Some (peer_view_of c)"
    using assms(2,3) by (induction pre) (auto simp: peer_view_of_def)
  then show ?thesis using assms(1) by (simp add: Peer_GetByID_def Peer_List_def)
qed

text \<open>The last peer that is deleted through the API is reported as removed and stays in the list.\<close>

theorem deleted_peer_still_listed:
  assumes "manager_ok (ts_mgr (rw_tunnel (srv_world s)))" and "ts_running (rw_tunnel (srv_world s))"
    and "vps_Host (cfg_VPS (rw_cfg (srv_world s))) \<noteq> []"
    and codec: "mirror_codec_ok (td_mirror td)" and mirror: "ParseServerMirror (td_mirror td) (cfg_ServerMirror (rw_cfg (srv_world s))) = Some mirror"
    and table: "sm_ClientsTable mirror = Some ct" "cl_unmarshal (td_clients td) ct = Some [c]" and i: "ce_ClientID c \<noteq> []"
    and del: "DeletePeer (PeerAdapter td marshal e) (ce_ClientID c) r info s = (reply, s')"
  shows "reply = JSONResponse 200 (RemovedBody (ce_ClientID c)) \<and> GetPeers (PeerAdapter td marshal e) r info s' = (JSONResponse 200 (PeerListBody [peer_view_of c]), s')"
proof -
  let ?m = "ts_mgr (rw_tunnel (srv_world s))" and ?fn = "remove_remote_config td marshal (te_now (ax_tunnel e)) (ce_ClientID c)"
  obtain err m1 where u: "Manager_Update (te_io2 (ax_tunnel e)) ?fn ?m = (err, m1)" by (metis prod.collapse)
  have "mirror_clients td (live m1) = [c]"
  proof (cases err)
    case None
    then have "live m1 = ?fn (rw_cfg (srv_world s))" using Manager_Update_step [OF assms(1) u] by (simp add: update_outcome_def rw_cfg_def)
    then show ?thesis using last_peer_stays_in_mirror [OF codec mirror table(1,2) refl] table by (simp add: mirror_clients_def)
  next
    case (Some x)
    then have "live m1 = rw_cfg (srv_world s)" using Manager_Update_step [OF assms(1) u] by (simp add: update_outcome_def rw_cfg_def)
    then show ?thesis using mirror table by (simp add: mirror_clients_def)
  qed
  moreover have "reply = JSONResponse 200 (RemovedBody (ce_ClientID c))" "rw_cfg (srv_world s') = live m1"
    using assms(2,3) i del u by (auto simp: DeletePeer_def PeerAdapter_def Peer_Delete_def RemovePeerByPublicKey_def rw_cfg_def Let_def)
  ultimately show ?thesis by (simp add: GetPeers_def PeerAdapter_def Peer_List_def)
qed

text \<open>A peer that cannot be created because there is no tunnel is an internal error, unlike a route.\<close>

theorem peer_without_tunnel:
  assumes "\<not> ts_running (rw_tunnel (srv_world s))" and "r_Body r = PeerReq name" and "peerNameRe name"
  shows "CreatePeer (PeerAdapter td marshal e) r info s = (ErrorResponse 500 ErrCodeInternalError, s)"
proof -
  have "handlePeerError (not_connected_text ''create'') = ErrorResponse 500 ErrCodeInternalError" by code_simp
  then show ?thesis using assms by (simp add: CreatePeer_def PeerAdapter_def Peer_Create_def)
qed

section \<open>One host, one port\<close>

text \<open>Whatever writes the shared configuration keeps it in step with its file and the subdomains distinct.\<close>

definition hosts_ok :: "manager \<Rightarrow> bool" where
  "hosts_ok m \<longleftrightarrow> manager_ok m \<and> distinct (map ep_HostHeader (cfg_ExposedPorts (live m)))"

locale host_keeper =
  fixes handle :: "'q \<Rightarrow> 's \<Rightarrow> 's" and mgr :: "'s \<Rightarrow> manager"
  assumes keeps: "hosts_ok (mgr s) \<Longrightarrow> hosts_ok (mgr (handle q s))"
begin

lemma run_keeps: "hosts_ok (mgr s) \<Longrightarrow> hosts_ok (mgr (fold handle qs s))"
  by (induction qs arbitrary: s) (simp_all add: keeps)

lemma host_of_one_port:
  assumes "hosts_ok (mgr s)" and "p \<in> set (cfg_ExposedPorts (live (mgr (fold handle qs s))))"
    and "q \<in> set (cfg_ExposedPorts (live (mgr (fold handle qs s))))" and "ep_HostHeader p = ep_HostHeader q"
  shows "p = q"
  using run_keeps [OF assms(1), of qs] assms(2-4) by (simp add: hosts_ok_def distinct_map inj_on_def)

end

lemma update_hosts:
  assumes "hosts_ok m" and "distinct (map ep_HostHeader (cfg_ExposedPorts (fn (live m))))"
  shows "hosts_ok (snd (Manager_Update io fn m))"
proof -
  obtain r m' where u: "Manager_Update io fn m = (r, m')" by (metis prod.collapse)
  show ?thesis using Manager_Update_step [OF _ u] assms by (auto simp: hosts_ok_def update_outcome_def u split: option.splits)
qed

lemma append_hosts: "hosts_ok m \<Longrightarrow> hosts_ok (snd (Manager_Update io (append_port p) m))"
  by (rule update_hosts) (auto simp: hosts_ok_def append_port_def has_host_def)

lemma set_remove_first_sub: "set (remove_first P xs) \<subseteq> set xs"
  by (induction xs) auto

lemma drop_hosts: "hosts_ok m \<Longrightarrow> hosts_ok (snd (Manager_Update io (drop_port i) m))"
proof (rule update_hosts)
  have "distinct (map f xs) \<Longrightarrow> distinct (map f (remove_first P xs))" for f :: "exposed_port \<Rightarrow> string" and P xs
    using set_remove_first_sub [of P] by (induction xs) auto
  then show "hosts_ok m \<Longrightarrow> distinct (map ep_HostHeader (cfg_ExposedPorts (drop_port i (live m))))" by (simp add: hosts_ok_def drop_port_def)
qed

lemma remove_hosts: "hosts_ok m \<Longrightarrow> hosts_ok (snd (Manager_Update io (remove_port i k) m))"
  by (rule update_hosts) (auto simp: hosts_ok_def remove_port_def Let_def intro: distinct_map_delete_at)

lemma same_ports_hosts: "hosts_ok m \<Longrightarrow> \<forall>c. cfg_ExposedPorts (fn c) = cfg_ExposedPorts c \<Longrightarrow> hosts_ok (snd (Manager_Update io fn m))"
  by (rule update_hosts) (auto simp: hosts_ok_def)

lemma Route_Create_hosts:
  assumes "hosts_ok (ts_mgr (rw_tunnel w))"
  shows "hosts_ok (ts_mgr (rw_tunnel (snd (Route_Create net e subdomain port w))))"
proof -
  have "ts_mgr (rw_tunnel (snd (Route_publish net e cfg subdomain port pp w)))
      = snd (Manager_Update (ax_io e) (append_port (adapter_port e subdomain port
          (fst (publish net cfg subdomain (upstream_dial cfg pp) (rw_cc w, rw_net w))))) (ts_mgr (rw_tunnel w)))" for cfg pp
    by (simp add: Route_publish_def Let_def with_mgr_def split: prod.splits option.splits)
  then show ?thesis using assms append_hosts by (simp add: Route_Create_def Let_def split: sum.splits)
qed

lemma Route_Delete_hosts: "hosts_ok (ts_mgr (rw_tunnel w)) \<Longrightarrow> hosts_ok (ts_mgr (rw_tunnel (snd (Route_Delete net e i w))))"
  using drop_hosts [of "ts_mgr (rw_tunnel w)" "ax_io e" i] by (auto simp: Route_Delete_def Let_def with_mgr_def split: prod.splits option.splits)

lemma add_remote_ports: "cfg_ExposedPorts (add_remote_config td now ct k1 k2 c) = cfg_ExposedPorts c"
  by (simp add: add_remote_config_def set_tunnel_def Let_def)

lemma remove_remote_ports: "cfg_ExposedPorts (remove_remote_config td marshal now k c) = cfg_ExposedPorts c"
  by (simp add: remove_remote_config_def Let_def split: option.splits)

lemma add_hosts: "hosts_ok m \<Longrightarrow> hosts_ok (snd (Manager_Update io (add_remote_config td now ct k1 k2) m))"
  by (rule same_ports_hosts) (simp_all add: add_remote_ports)

lemma remove_remote_hosts: "hosts_ok m \<Longrightarrow> hosts_ok (snd (Manager_Update io (remove_remote_config td marshal now k) m))"
  by (rule same_ports_hosts) (simp_all add: remove_remote_ports)

lemma AddPeerForRemote_hosts: "hosts_ok (ts_mgr t) \<Longrightarrow> AddPeerForRemote td te name t = (r, t') \<Longrightarrow> hosts_ok (ts_mgr t')"
  by (auto simp: AddPeerForRemote_def Let_def add_hosts split: if_splits option.splits prod.splits sum.splits)

lemma Peer_Create_hosts: "hosts_ok (ts_mgr (rw_tunnel w)) \<Longrightarrow> hosts_ok (ts_mgr (rw_tunnel (snd (Peer_Create td e name w))))"
  by (auto simp: Peer_Create_def split: prod.splits sum.splits intro: AddPeerForRemote_hosts)

lemma Peer_Delete_hosts: "hosts_ok (ts_mgr (rw_tunnel w)) \<Longrightarrow> hosts_ok (ts_mgr (rw_tunnel (snd (Peer_Delete td marshal e i w))))"
  by (auto simp: Peer_Delete_def RemovePeerByPublicKey_def Let_def remove_remote_hosts)

text \<open>The calls of the remote API that change something.\<close>

datatype remote_call = CreateR adapter_env string int | DeleteR adapter_env string | CreateP adapter_env string | DeleteP adapter_env string

fun remote_call_step :: "'c ports_net \<Rightarrow> 't tunnel_deps \<Rightarrow> (client_entry list \<Rightarrow> string) \<Rightarrow> remote_call \<Rightarrow> ('t, 'c) remote_world \<Rightarrow> ('t, 'c) remote_world" where
  "remote_call_step net td marshal (CreateR e subdomain port) w = snd (Route_Create net e subdomain port w)"
| "remote_call_step net td marshal (DeleteR e i) w = snd (Route_Delete net e i w)"
| "remote_call_step net td marshal (CreateP e name) w = snd (Peer_Create td e name w)"
| "remote_call_step net td marshal (DeleteP e i) w = snd (Peer_Delete td marshal e i w)"

lemma remote_call_step_hosts:
  "hosts_ok (ts_mgr (rw_tunnel w)) \<Longrightarrow> hosts_ok (ts_mgr (rw_tunnel (remote_call_step net td marshal q w)))"
  by (cases q) (simp_all add: Route_Create_hosts Route_Delete_hosts Peer_Create_hosts Peer_Delete_hosts)

interpretation remote_calls: host_keeper "remote_call_step net td marshal" "\<lambda>w. ts_mgr (rw_tunnel w)" for net td marshal
  by unfold_locales (rule remote_call_step_hosts)

lemma port_handle_hosts: "hosts_ok (ps_mgr s) \<Longrightarrow> hosts_ok (ps_mgr (snd (port_handle net q s)))"
proof (cases q)
  case (CreateReq e body)
  assume h: "hosts_ok (ps_mgr s)"
  have "ps_mgr (snd (expose_port net e req pport s)) = snd (Manager_Update (pe_io e) (append_port (port_entry e req
      (fst (publish net (live (ps_mgr s)) (cp_Subdomain req) (upstream_dial (live (ps_mgr s)) pport) (ps_cc s, ps_world s))))) (ps_mgr s))" for req pport
    by (simp add: expose_port_def Let_def split: prod.splits)
  then show ?thesis using h append_hosts CreateReq by (auto intro: port_handleCreate_cases [of net e body s])
next
  case (RemoveReq io i)
  assume "hosts_ok (ps_mgr s)"
  then show ?thesis using remove_hosts RemoveReq by (auto simp: port_handleRemove_def Let_def split: option.splits prod.splits) (metis snd_conv)+
qed

interpretation daemon_calls: host_keeper "\<lambda>q s. snd (port_handle net q s)" ps_mgr for net
  by unfold_locales (rule port_handle_hosts)

text \<open>However the calls of the remote API for routes and peers are mixed, the file agrees with the memory and no two
  ports have the same subdomain; and proxies are only ever added.\<close>

theorem remote_calls_keep_hosts:
  assumes "hosts_ok (ts_mgr (rw_tunnel w))"
  shows "hosts_ok (ts_mgr (rw_tunnel (fold (remote_call_step net td marshal) qs w)))"
  using assms by (rule remote_calls.run_keeps)

lemma remote_call_proxies: "\<exists>new. rw_proxies (remote_call_step net td marshal q w) = rw_proxies w @ new"
  by (cases q) (auto simp: Route_Create_def Route_publish_def Route_Delete_def Peer_Create_def Peer_Delete_def with_mgr_def Let_def
      split: prod.splits option.splits sum.splits)

section \<open>Witnesses\<close>

definition mirror_text :: "client_entry list \<Rightarrow> string" where
  "mirror_text cs = the (mc_marshal sample_mirror (zero_mirror\<lparr>sm_ClientsTable := Some (cl_marshal sample_clients cs @ [newline])\<rparr>))"

definition remote_config :: "client_entry list \<Rightarrow> root_config" where
  "remote_config cs = web_config\<lparr>cfg_VPS := zero_vps\<lparr>vps_Host := ''vps''\<rparr>, cfg_ServerMirror := mirror_text cs\<rparr>"

definition remote_state :: "client_entry list \<Rightarrow> (sample_server, caddy_route list \<times> dns_record list) remote_world" where
  "remote_state cs = \<lparr>rw_tunnel = (NewTunnelManager \<lparr>mgr_heap = [remote_config cs], mgr_config = 0, mgr_disk = \<lparr>target = Holds (remote_config cs), strays = 0\<rparr>\<rparr> first_server)
       \<lparr>ts_running := True, ts_status := ''connected''\<rparr>,
     rw_cc = NewCaddyClient, rw_net = ([new_route ''web.ex.io'' ''10.8.1.2:41000''], []), rw_proxies = [(41000, 3000)]\<rparr>"

definition adapter_answers :: adapter_env where
  "adapter_answers = \<lparr>ax_uuid = ''p2'', ax_now = ''t1'', ax_proxy = Inr 42000, ax_io = io_all_ok, ax_text = (\<lambda>_. ''disk full''), ax_tunnel = sample_tunnel_env\<rparr>"

definition remote_server :: "client_entry list \<Rightarrow> (sample_server, caddy_route list \<times> dns_record list) remote_world server" where
  "remote_server cs = \<lparr>srv_disk = \<lparr>target = Holds [], strays = 0\<rparr>, srv_cache = NewTokenCache 0, srv_visitors = [], srv_audit = [], srv_world = remote_state cs\<rparr>"

definition remote_request :: "req_body \<Rightarrow> request" where
  "remote_request b = \<lparr>r_Method = ''POST'', r_Path = ''/v1/routes'', r_RemoteAddr = ''127.0.0.1:5000'', r_XForwardedFor = [], r_Authorization = [],
     r_UserAgent = ''curl'', r_Body = b, r_Query = (\<lambda>_. [])\<rparr>"

lemma remote_facts:
  "rw_cfg (remote_state cs) = remote_config cs" "manager_ok (ts_mgr (rw_tunnel (remote_state cs)))" "ts_running (rw_tunnel (remote_state cs))"
  "cfg_ExposedPorts (remote_config cs) = [web_port]" "manual_dns (remote_config cs)" "resolveBaseURL (remote_config cs) \<noteq> None"
  "tun_Status (cfg_Tunnel (remote_config cs)) = ''connected''" "vps_Host (cfg_VPS (remote_config cs)) = ''vps''"
  by (simp_all add: remote_state_def rw_cfg_def NewTunnelManager_def live_def deref_def manager_ok_def remote_config_def web_config_def zero_config_def
      manual_dns_def resolveBaseURL_def zero_tunnel_def zero_vps_def)

lemma remote_full_host: "length x < 5 \<Longrightarrow> full_host (remote_config cs) x = x @ ''.ex.io''"
proof -
  have "full_host (remote_config cs) x = full_host web_config x" by (simp add: full_host_def remote_config_def)
  then show "length x < 5 \<Longrightarrow> full_host (remote_config cs) x = x @ ''.ex.io''" using web_host by simp
qed

lemma remote_mirror:
  "ParseServerMirror sample_mirror (cfg_ServerMirror (remote_config cs)) = Some (zero_mirror\<lparr>sm_ClientsTable := Some (cl_marshal sample_clients cs @ [newline])\<rparr>)"
proof -
  let ?m = "zero_mirror\<lparr>sm_ClientsTable := Some (cl_marshal sample_clients cs @ [newline])\<rparr>"
  obtain t where "mc_marshal sample_mirror ?m = Some t" "t \<noteq> []" "mc_unmarshal sample_mirror t = Some ?m"
    using sample_mirror_ok unfolding mirror_codec_ok_def by blast
  then show ?thesis by (simp add: remote_config_def mirror_text_def ParseServerMirror_def)
qed

lemma remote_table: "cl_unmarshal sample_clients (cl_marshal sample_clients cs @ [newline]) = Some cs"
  using sample_clients_ok by (simp add: codec_ok_def)

lemma remote_clients: "mirror_clients sample_deps (remote_config cs) = cs"
  using remote_mirror [of cs] remote_table [of cs] by (simp add: mirror_clients_def sample_deps_def)

theorem deleted_route_leaves_proxy_witness:
  "rw_proxies (snd (Route_Delete list_net adapter_answers ''p2'' (snd (Route_Create list_net adapter_answers ''api'' 3001 (remote_state [])))))
     = [(41000, 3000), (42000, 3001)]"
proof -
  let ?c = "Route_Create list_net adapter_answers ''api'' 3001 (remote_state [])"
  obtain r w1 where c: "?c = (r, w1)" by (metis prod.collapse)
  obtain d w2 where d: "Route_Delete list_net adapter_answers (ax_uuid adapter_answers) w1 = (d, w2)" by (metis prod.collapse)
  have h: "full_host (remote_config []) ''api'' = ''api.ex.io''" using remote_full_host [of "''api''"] by simp
  have e: "\<not> EqualFold (route_host x) ''api.ex.io'' \<and> route_host x \<noteq> []" if "x = new_route ''web.ex.io'' ''10.8.1.2:41000''" for x
    using that by (simp add: EqualFold_def new_route_def route_host_def to_lower_def lower_char_def)
  have n: "\<not> has_host ''api'' (remote_config [])" "\<forall>ep \<in> set (cfg_ExposedPorts (remote_config [])). ep_ID ep \<noteq> ax_uuid adapter_answers"
    by (simp_all add: has_host_def remote_facts web_port_def adapter_answers_def)
  have "rw_proxies w2 = rw_proxies (remote_state []) @ [(42000, 3001)]"
    using deleted_route_leaves_proxy [OF list_net_laws list_net_up remote_facts(2) remote_facts(1) [symmetric] remote_facts(5,6,7) n
        _ _ _ h [symmetric] _ _ c d] e by (simp add: adapter_answers_def remote_state_def)
  then show ?thesis using c d by (simp add: remote_state_def adapter_answers_def)
qed

text \<open>A Caddy that does not answer.\<close>

definition dead_net :: "(caddy_route list \<times> dns_record list) ports_net" where
  "dead_net = list_net\<lparr>pn_caddy := \<lparr>ca_post = (\<lambda>_ _ w. (None, w)), ca_get = (\<lambda>_ w. (None, w)), ca_delete = (\<lambda>_ _ w. (None, w))\<rparr>\<rparr>"

theorem deleted_route_stays_public_witness:
  "fst (DeleteRoute (RouteAdapter dead_net adapter_answers) ''p1'' (remote_request BadBody) None (remote_server [])) = JSONResponse 200 (RemovedBody ''p1'')"
proof -
  obtain reply s' where d: "DeleteRoute (RouteAdapter dead_net adapter_answers) ''p1'' (remote_request BadBody) None (remote_server []) = (reply, s')"
    by (metis prod.collapse)
  show ?thesis
    using deleted_route_stays_public [OF remote_facts(2) remote_facts(1) [symmetric] _ remote_facts(5,4) _ _ _ d] d
    by (simp add: dead_net_def web_port_def adapter_answers_def remote_server_def)
qed

theorem remote_route_unchecked_witness:
  "reply_status (fst (CreateRoute (RouteAdapter list_net adapter_answers) (remote_request (RouteReq ''-x'' 3001)) None (remote_server []))) = 201"
proof -
  obtain reply s' where c: "CreateRoute (RouteAdapter list_net adapter_answers) (remote_request (RouteReq ''-x'' 3001)) None (remote_server []) = (reply, s')"
    by (metis prod.collapse)
  have "\<exists>l \<in> set (split_on CHR ''.'' ''-x''). \<not> subdomainLabelRe l" by code_simp
  then show ?thesis
    using remote_route_unchecked [OF _ _ _ _ _ _ _ _ _ _ c, of "''-x''" 3001 42000] c remote_facts(1,2,7) [of "[]"]
    by (simp add: remote_server_def remote_request_def adapter_answers_def has_host_def remote_facts web_port_def)
qed

theorem peer_lookup_takes_prefix_witness:
  "map_option (pv_ID \<circ> pd_PeerView) (case Peer_GetByID sample_deps ''k2'' (remote_state [\<lparr>ce_ClientID = ''k1'', ce_ClientName = ''k2-laptop'', ce_CreationDate = []\<rparr>,
     \<lparr>ce_ClientID = ''k2'', ce_ClientName = ''phone'', ce_CreationDate = []\<rparr>]) of Inl _ \<Rightarrow> None | Inr p \<Rightarrow> Some p) = Some ''k1''"
  using peer_lookup_takes_prefix [of sample_deps "remote_state [\<lparr>ce_ClientID = ''k1'', ce_ClientName = ''k2-laptop'', ce_CreationDate = []\<rparr>,
     \<lparr>ce_ClientID = ''k2'', ce_ClientName = ''phone'', ce_CreationDate = []\<rparr>]" "[]" _ _ "''k2''"]
  by (simp add: remote_facts remote_clients has_prefix_def peer_view_of_def)

theorem deleted_peer_still_listed_witness:
  "fst (DeletePeer (PeerAdapter sample_deps (cl_marshal sample_clients) adapter_answers) ''k1'' (remote_request BadBody) None
     (remote_server [\<lparr>ce_ClientID = ''k1'', ce_ClientName = ''laptop'', ce_CreationDate = []\<rparr>])) = JSONResponse 200 (RemovedBody ''k1'')"
proof -
  let ?c = "\<lparr>ce_ClientID = ''k1'', ce_ClientName = ''laptop'', ce_CreationDate = []\<rparr>"
  obtain reply s' where d: "DeletePeer (PeerAdapter sample_deps (cl_marshal sample_clients) adapter_answers) (ce_ClientID ?c) (remote_request BadBody) None (remote_server [?c]) = (reply, s')"
    by (metis prod.collapse)
  have s: "srv_world (remote_server [?c]) = remote_state [?c]" "td_mirror sample_deps = sample_mirror" "td_clients sample_deps = sample_clients"
    by (simp_all add: remote_server_def sample_deps_def)
  have m: "ParseServerMirror (td_mirror sample_deps) (cfg_ServerMirror (rw_cfg (srv_world (remote_server [?c])))) =
      Some (zero_mirror\<lparr>sm_ClientsTable := Some (cl_marshal sample_clients [?c] @ [newline])\<rparr>)" by (simp add: s remote_facts remote_mirror)
  have t: "cl_unmarshal (td_clients sample_deps) (cl_marshal sample_clients [?c] @ [newline]) = Some [?c]" using remote_table [of "[?c]"] by (simp add: s)
  show ?thesis
    using deleted_peer_still_listed [OF _ _ _ _ m _ t _ d] d sample_mirror_ok by (simp add: s remote_facts)
qed

theorem remote_calls_keep_hosts_witness:
  "hosts_ok (ts_mgr (rw_tunnel (fold (remote_call_step list_net sample_deps (cl_marshal sample_clients))
     [CreateR adapter_answers ''api'' 3001, CreateR adapter_answers ''api'' 3002] (remote_state []))))"
proof (rule remote_calls_keep_hosts)
  show "hosts_ok (ts_mgr (rw_tunnel (remote_state [])))" using remote_facts [of "[]"] by (simp add: hosts_ok_def rw_cfg_def)
qed

end
