(* ===== verification/Log_Collect.thy ===== *)
theory Log_Collect
  imports Invite_Store Audit_Log
begin

text \<open>
  The sources that are collected into the log: the lifecycle audit file (\<open>audit/lifecycle.go\<close>), the aggregator
  that follows such files (\<open>loguicapi/file_aggregator.go\<close>) and the one that follows containers
  (\<open>loguicapi/container_aggregator.go\<close>). A file is its text together with the identity of its inode; one tick of
  the follower is one step, with what the file system answers in it. A call of the logger is kept as its
  level, message and attributes.
\<close>

section \<open>Lifecycle events\<close>

datatype lifecycle_action = BootstrapStart | BootstrapComplete | AttachAction | DetachAction | UpgradeStart | UpgradeComplete | UpgradeRollback
  | SnapshotCreate | RollbackAction | MigrateStart | MigrateCutover | MigrateComplete | PartitionDetected | ReconnectSuccess | StateExport | StateImport

fun action_text :: "lifecycle_action \<Rightarrow> string" where
  "action_text BootstrapStart = ''bootstrap_start''"
| "action_text BootstrapComplete = ''bootstrap_complete''"
| "action_text AttachAction = ''attach''"
| "action_text DetachAction = ''detach''"
| "action_text UpgradeStart = ''upgrade_start''"
| "action_text UpgradeComplete = ''upgrade_complete''"
| "action_text UpgradeRollback = ''upgrade_rollback''"
| "action_text SnapshotCreate = ''snapshot_create''"
| "action_text RollbackAction = ''rollback''"
| "action_text MigrateStart = ''migrate_start''"
| "action_text MigrateCutover = ''migrate_cutover''"
| "action_text MigrateComplete = ''migrate_complete''"
| "action_text PartitionDetected = ''partition_detected''"
| "action_text ReconnectSuccess = ''reconnect_success''"
| "action_text StateExport = ''state_export''"
| "action_text StateImport = ''state_import''"

datatype lifecycle_result = ResultSuccess | ResultFailure | ResultPartial

record lifecycle_event =
  lev_ID :: string
  lev_Timestamp :: string
  lev_ActorTokenID :: string
  lev_ActorTokenName :: string
  lev_Action :: lifecycle_action
  lev_TargetResourceID :: string
  lev_SourceIP :: string
  lev_UserAgent :: string
  lev_Result :: lifecycle_result
  lev_Metadata :: "metadata option"

datatype lifecycle_error = LevMarshalMetadata | LevMetadataSize | LevMarshalEntry | LevWrite | LevSync

definition lifecycleMaxMetadataSize :: nat where
  "lifecycleMaxMetadataSize = 4096"

text \<open>What the generators and the disk answer: \<open>lw_cut\<close> is the number of bytes of a write that fails.\<close>

record lifecycle_env =
  lw_uuid :: string
  lw_now :: string
  lw_cut :: "nat option"
  lw_sync :: bool

definition fill_event :: "lifecycle_env \<Rightarrow> lifecycle_event \<Rightarrow> lifecycle_event" where
  "fill_event e ev =
     (let ev1 = (if lev_ID ev = [] then ev\<lparr>lev_ID := lw_uuid e\<rparr> else ev)
      in if lev_Timestamp ev1 = [] then ev1\<lparr>lev_Timestamp := lw_now e\<rparr> else ev1)"

text \<open>\<open>encode\<close> is \<open>json.Marshal\<close>, the file a text to which is appended.\<close>

definition Lifecycle_Write :: "(lifecycle_event \<Rightarrow> string option) \<Rightarrow> lifecycle_env \<Rightarrow> lifecycle_event \<Rightarrow> string \<Rightarrow> lifecycle_error option \<times> string" where
  "Lifecycle_Write encode e entry text =
     (let meta_error = (case lev_Metadata entry of
            None \<Rightarrow> None
          | Some MetaUnmarshalable \<Rightarrow> Some LevMarshalMetadata
          | Some (MetaJSON raw) \<Rightarrow> if length raw > lifecycleMaxMetadataSize then Some LevMetadataSize else None)
      in case meta_error of Some err \<Rightarrow> (Some err, text)
       | None \<Rightarrow>
           (case encode (fill_event e entry) of
              None \<Rightarrow> (Some LevMarshalEntry, text)
            | Some line \<Rightarrow>
                (case lw_cut e of
                   Some k \<Rightarrow> (Some LevWrite, text @ take k (line @ [newline]))
                 | None \<Rightarrow> (if lw_sync e then None else Some LevSync, text @ line @ [newline]))))"

section \<open>Following a file\<close>

text \<open>\<open>fmt.Sprintf("%v")\<close> of a JSON value and the parser are parameters; the pairs come in the order in which the map
  yields them.\<close>

datatype call_level = CallInfo | CallWarn

datatype 'v attr = TextAttr string | ValueAttr 'v

record 'v log_call =
  cl_level :: call_level
  cl_msg :: string
  cl_attrs :: "(string \<times> 'v attr) list"

record 'v line_reader =
  lnr_parse :: "string \<Rightarrow> (string \<times> 'v) list option"
  lnr_show :: "'v \<Rightarrow> string"

definition field_text :: "'v line_reader \<Rightarrow> (string \<times> 'v) list \<Rightarrow> string \<Rightarrow> string" where
  "field_text rd raw key = (case map_of raw key of None \<Rightarrow> [] | Some v \<Rightarrow> lnr_show rd v)"

definition line_message :: "'v line_reader \<Rightarrow> string \<Rightarrow> (string \<times> 'v) list \<Rightarrow> string" where
  "line_message rd line raw =
     (let m = field_text rd raw ''msg'' in
      if m \<noteq> [] then m
      else let m2 = field_text rd raw ''message'' in if m2 \<noteq> [] then m2 else line)"

definition own_keys :: "string list" where
  "own_keys = [''ts'', ''time'', ''timestamp'', ''msg'', ''message'', ''level'']"

definition emitLine :: "'v line_reader \<Rightarrow> string \<Rightarrow> string \<Rightarrow> 'v log_call" where
  "emitLine rd source line =
     (let own = [(''source'', TextAttr source), (''component'', TextAttr source)] in
      case lnr_parse rd line of
        None \<Rightarrow> \<lparr>cl_level = CallInfo, cl_msg = line, cl_attrs = own\<rparr>
      | Some raw \<Rightarrow> \<lparr>cl_level = CallInfo, cl_msg = line_message rd line raw,
          cl_attrs = own @ map (\<lambda>(k, v). (k, ValueAttr v)) (filter (\<lambda>kv. fst kv \<notin> set own_keys) raw)\<rparr>)"

definition trimNewline :: "string \<Rightarrow> string" where
  "trimNewline s =
     (let s1 = (if s \<noteq> [] \<and> last s = newline then butlast s else s)
      in if s1 \<noteq> [] \<and> last s1 = CHR 0x0D then butlast s1 else s1)"

text \<open>The follower holds an open file by its inode, the offset up to which it has read and the last size it saw.\<close>

record tail =
  tl_ino :: nat
  tl_off :: nat
  tl_last :: nat

text \<open>What the file system answers in one tick: the file at the path, the text of the open file, and whether a new
  file can be opened.\<close>

record tail_env =
  te_path :: "(nat \<times> string) option"
  te_open :: string
  te_reopen :: bool

definition tail_start :: "(nat \<times> string) option \<Rightarrow> tail option" where
  "tail_start path = map_option (\<lambda>(ino, text). \<lparr>tl_ino = ino, tl_off = length text, tl_last = length text\<rparr>) path"

text \<open>\<open>ReadString\<close> up to the end: the complete lines are handled, and what follows the last newline is read and
  thrown away.\<close>

definition read_rest :: "'v line_reader \<Rightarrow> string \<Rightarrow> string \<Rightarrow> tail \<Rightarrow> 'v log_call list \<times> tail" where
  "read_rest rd source text t =
     (let complete = butlast (split_on newline (drop (tl_off t) text));
          lines = filter (\<lambda>l. l \<noteq> []) (map (\<lambda>l. trimNewline (l @ [newline])) complete)
      in (map (emitLine rd source) lines, t\<lparr>tl_off := max (tl_off t) (length text)\<rparr>))"

definition tail_tick :: "'v line_reader \<Rightarrow> string \<Rightarrow> tail_env \<Rightarrow> tail \<Rightarrow> 'v log_call list \<times> tail option" where
  "tail_tick rd source e t =
     (case te_path e of
        None \<Rightarrow> apsnd Some (read_rest rd source (te_open e) t)
      | Some (ino, text) \<Rightarrow>
          if ino \<noteq> tl_ino t then ([], if te_reopen e then Some \<lparr>tl_ino = ino, tl_off = 0, tl_last = 0\<rparr> else None)
          else if length text < tl_last t then ([], Some (t\<lparr>tl_off := 0, tl_last := 0\<rparr>))
          else apsnd Some (read_rest rd source (te_open e) (t\<lparr>tl_last := length text\<rparr>)))"

fun tail_run :: "'v line_reader \<Rightarrow> string \<Rightarrow> tail_env list \<Rightarrow> tail option \<Rightarrow> 'v log_call list \<times> tail option" where
  "tail_run rd source [] t = ([], t)"
| "tail_run rd source (e # es) None = ([], None)"
| "tail_run rd source (e # es) (Some t) =
     (let (calls, t1) = tail_tick rd source e t; (more, t2) = tail_run rd source es t1 in (calls @ more, t2))"

section \<open>Following a container\<close>

text \<open>The prefix of a line that the expression \<open>\d{4}-\d{2}-\d{2}[T ]\d{2}:\d{2}:\d{2}[.\d]*(Z|[+-]\d{2}:?\d{2})?\<close> matches before
  white space; the optional parts are taken as long as they go, as nothing that could follow begins with a
  character of them.\<close>

definition ts_shape :: "(char \<Rightarrow> bool) list" where
  "ts_shape = (let d = is_digit; dash = (\<lambda>c. c = CHR ''-''); colon = (\<lambda>c. c = CHR '':'') in
     [d, d, d, d, dash, d, d, dash, d, d, (\<lambda>c. c = CHR ''T'' \<or> c = CHR '' ''), d, d, colon, d, d, colon, d, d])"

definition matches_shape :: "(char \<Rightarrow> bool) list \<Rightarrow> string \<Rightarrow> bool" where
  "matches_shape ps s \<longleftrightarrow> length ps \<le> length s \<and> list_all2 (\<lambda>p c. p c) ps (take (length ps) s)"

definition zone_length :: "string \<Rightarrow> nat" where
  "zone_length s =
     (if has_prefix s ''Z'' then 1
      else if matches_shape [\<lambda>c. c = CHR ''+'' \<or> c = CHR ''-'', is_digit, is_digit, \<lambda>c. c = CHR '':'', is_digit, is_digit] s then 6
      else if matches_shape [\<lambda>c. c = CHR ''+'' \<or> c = CHR ''-'', is_digit, is_digit, is_digit, is_digit] s then 5
      else 0)"

definition re_space :: "char \<Rightarrow> bool" where
  "re_space c \<longleftrightarrow> (of_char c :: nat) \<in> {9, 10, 12, 13, 32}"

definition extractContainerTS :: "string \<Rightarrow> string" where
  "extractContainerTS line =
     (if \<not> matches_shape ts_shape line then []
      else let rest = drop 19 line;
               frac = takeWhile (\<lambda>c. c = CHR ''.'' \<or> is_digit c) rest;
               n = 19 + length frac + zone_length (drop (length frac) rest)
           in if n < length line \<and> re_space (line ! n) then take n line else [])"

datatype stream = Stdout | Stderr

fun stream_text :: "stream \<Rightarrow> string" where
  "stream_text Stdout = ''stdout''"
| "stream_text Stderr = ''stderr''"

definition container_call :: "string \<Rightarrow> stream \<Rightarrow> string \<Rightarrow> 'v log_call" where
  "container_call name st line =
     (let ts = extractContainerTS line in
      \<lparr>cl_level = (if st = Stderr then CallWarn else CallInfo), cl_msg = line,
        cl_attrs = [(''source'', TextAttr ''container''), (''component'', TextAttr (''container.'' @ name)), (''container'', TextAttr name),
          (''stream'', TextAttr (stream_text st))] @ (if ts \<noteq> [] then [(''container_ts'', TextAttr ts)] else [])\<rparr>)"

text \<open>What one stream has carried until it ends or its reader stops.\<close>

definition processLines :: "string \<Rightarrow> stream \<Rightarrow> string \<Rightarrow> 'v log_call list" where
  "processLines name st text = map (container_call name st) (filter (\<lambda>l. l \<noteq> []) (fst (scan_text maxLine text)))"

text \<open>\<open>StdCopy\<close> gives each frame to the pipe of its stream. A line that does not fit its reader's buffer makes the
  reader close the pipe, so that the copying ends for both streams.\<close>

definition carried :: "stream \<Rightarrow> (stream \<times> string) list \<Rightarrow> string" where
  "carried st frames = concat (map snd (filter (\<lambda>f. fst f = st) frames))"

definition overlong :: "string \<Rightarrow> bool" where
  "overlong text \<longleftrightarrow> snd (scan_text maxLine text)"

fun copied :: "(stream \<times> string) list \<Rightarrow> (stream \<times> string) list \<Rightarrow> (stream \<times> string) list" where
  "copied acc [] = acc"
| "copied acc (f # fs) = (if overlong (carried (fst f) (acc @ [f])) then acc @ [f] else copied (acc @ [f]) fs)"

definition captureContainer :: "string \<Rightarrow> (stream \<times> string) list \<Rightarrow> stream \<Rightarrow> 'v log_call list" where
  "captureContainer name frames st = processLines name st (carried st (copied [] frames))"

text \<open>The containers that Docker lists, with their identifier and names.\<close>

definition resolveContainer :: "string \<Rightarrow> (string \<times> string list) list \<Rightarrow> string option" where
  "resolveContainer name containers =
     map_option fst (List.find (\<lambda>(i, names). \<exists>n \<in> set names. trim_prefix n ''/'' = name) containers)"

section \<open>Nothing is lost between whole lines\<close>

definition whole :: "string list \<Rightarrow> string" where
  "whole ls = concat (map (\<lambda>l. l @ [newline]) ls)"

lemma whole_simps [simp]: "whole [] = []" "whole (l # ls) = l @ newline # whole ls" "whole (ls @ ks) = whole ls @ whole ks"
  by (simp_all add: whole_def)

lemma split_whole: "\<forall>l \<in> set ls. newline \<notin> set l \<Longrightarrow> newline \<notin> set r \<Longrightarrow> split_on newline (whole ls @ r) = ls @ [r]"
  by (induction ls) (simp_all add: split_on_append split_on_no_sep)

lemma trimNewline_line: "trimNewline (l @ [newline]) = drop_cr l"
  by (simp add: trimNewline_def drop_cr_def)

lemma read_whole:
  assumes "\<forall>l \<in> set ls. newline \<notin> set l" and "newline \<notin> set r" and "tl_off t = length c"
  shows "read_rest rd source (c @ whole ls @ r) t
    = (map (emitLine rd source) (filter (\<lambda>l. l \<noteq> []) (map drop_cr ls)), t\<lparr>tl_off := length (c @ whole ls @ r)\<rparr>)"
  using split_whole [OF assms(1,2)] assms(3) by (simp add: read_rest_def trimNewline_line comp_def)

text \<open>A tick at which the file at the path is the open one, and the texts of a file to which groups of lines are appended.\<close>

definition grown :: "nat \<Rightarrow> string \<Rightarrow> tail_env" where
  "grown ino text = \<lparr>te_path = Some (ino, text), te_open = text, te_reopen = True\<rparr>"

fun growth :: "string \<Rightarrow> string list list \<Rightarrow> string list" where
  "growth c [] = []"
| "growth c (ls # lss) = (c @ whole ls) # growth (c @ whole ls) lss"

lemma tail_run_growth:
  assumes "\<forall>l \<in> set (concat lss). newline \<notin> set l"
  shows "fst (tail_run rd source (map (grown ino) (growth c lss)) (tail_start (Some (ino, c))))
    = map (emitLine rd source) (filter (\<lambda>l. l \<noteq> []) (map drop_cr (concat lss)))"
  using assms
proof (induction lss arbitrary: c)
  case (Cons ls lss)
  have "tail_tick rd source (grown ino (c @ whole ls)) \<lparr>tl_ino = ino, tl_off = length c, tl_last = length c\<rparr>
      = (map (emitLine rd source) (filter (\<lambda>l. l \<noteq> []) (map drop_cr ls)), tail_start (Some (ino, c @ whole ls)))"
    using read_whole [of ls "[]" "\<lparr>tl_ino = ino, tl_off = length c, tl_last = length (c @ whole ls)\<rparr>" c rd source] Cons.prems
    by (simp add: tail_tick_def grown_def tail_start_def)
  moreover obtain calls t where "tail_run rd source (map (grown ino) (growth (c @ whole ls) lss)) (tail_start (Some (ino, c @ whole ls))) = (calls, t)"
    by (metis prod.collapse)
  ultimately show ?case using Cons.IH [of "c @ whole ls"] Cons.prems by (simp add: tail_start_def)
qed (simp add: tail_start_def)

theorem tail_emits_every_line:
  assumes "\<forall>l \<in> set (concat lss). newline \<notin> set l"
  shows "fst (tail_run rd source (map (grown ino) (growth c lss)) (tail_start (Some (ino, c))))
    = map (emitLine rd source) (filter (\<lambda>l. l \<noteq> []) (map drop_cr (concat lss)))"
  using assms by (rule tail_run_growth)

text \<open>Events that are written between the ticks. \<open>recordable\<close>: accepted, encoded as one line, and written in full.\<close>

type_synonym lifecycle_write = "lifecycle_env \<times> lifecycle_event"

definition event_line :: "(lifecycle_event \<Rightarrow> string option) \<Rightarrow> lifecycle_write \<Rightarrow> string" where
  "event_line encode w = the (encode (fill_event (fst w) (snd w)))"

definition accepted :: "(lifecycle_event \<Rightarrow> string option) \<Rightarrow> lifecycle_write \<Rightarrow> bool" where
  "accepted encode w \<longleftrightarrow> encode (fill_event (fst w) (snd w)) \<noteq> None \<and> newline \<notin> set (event_line encode w)
     \<and> event_line encode w \<noteq> [] \<and> last (event_line encode w) \<noteq> CHR 0x0D
     \<and> (case lev_Metadata (snd w) of None \<Rightarrow> True | Some MetaUnmarshalable \<Rightarrow> False | Some (MetaJSON raw) \<Rightarrow> length raw \<le> lifecycleMaxMetadataSize)"

fun write_all :: "(lifecycle_event \<Rightarrow> string option) \<Rightarrow> lifecycle_write list \<Rightarrow> string \<Rightarrow> string" where
  "write_all encode [] text = text"
| "write_all encode ((e, ev) # ws) text = write_all encode ws (snd (Lifecycle_Write encode e ev text))"

fun texts_at_ticks :: "(lifecycle_event \<Rightarrow> string option) \<Rightarrow> string \<Rightarrow> lifecycle_write list list \<Rightarrow> string list" where
  "texts_at_ticks encode text [] = []"
| "texts_at_ticks encode text (g # gs) = write_all encode g text # texts_at_ticks encode (write_all encode g text) gs"

lemma Lifecycle_Write_accepted:
  "accepted encode w \<Longrightarrow> Lifecycle_Write encode (fst w) (snd w) text =
     (case lw_cut (fst w) of
        Some k \<Rightarrow> (Some LevWrite, text @ take k (event_line encode w @ [newline]))
      | None \<Rightarrow> (if lw_sync (fst w) then None else Some LevSync, text @ event_line encode w @ [newline]))"
  by (auto simp: Lifecycle_Write_def accepted_def event_line_def split: option.splits metadata.splits)

lemma write_all_whole:
  "\<forall>w \<in> set ws. accepted encode w \<and> lw_cut (fst w) = None \<Longrightarrow> write_all encode ws body = body @ whole (map (event_line encode) ws)"
proof (induction ws arbitrary: body)
  case (Cons w ws)
  obtain e ev where w: "w = (e, ev)" by (cases w)
  then show ?case using Cons Lifecycle_Write_accepted [of encode w body] by simp
qed simp

lemma texts_growth:
  "\<forall>w \<in> set (concat gs). accepted encode w \<and> lw_cut (fst w) = None \<Longrightarrow> texts_at_ticks encode body gs = growth body (map (map (event_line encode)) gs)"
  by (induction gs arbitrary: body) (simp_all add: write_all_whole)

text \<open>The log's follower and the audit file together: however the ticks fall between the writes, every event that is
  written is emitted once, in order, and nothing else is; whether the disk was flushed makes no difference.\<close>

theorem lifecycle_events_reemitted:
  assumes "\<forall>w \<in> set (concat gs). accepted encode w \<and> lw_cut (fst w) = None"
  shows "fst (tail_run rd source (map (grown ino) (texts_at_ticks encode c gs)) (tail_start (Some (ino, c))))
    = map (emitLine rd source \<circ> event_line encode) (concat gs)"
proof -
  have l: "newline \<notin> set (event_line encode w) \<and> event_line encode w \<noteq> [] \<and> drop_cr (event_line encode w) = event_line encode w"
    if "w \<in> set (concat gs)" for w using assms that by (auto simp: accepted_def drop_cr_def)
  have c: "concat (map (map (event_line encode)) gs) = map (event_line encode) (concat gs)" by (simp add: map_concat)
  have d: "map drop_cr (map (event_line encode) (concat gs)) = map (event_line encode) (concat gs)" using l by auto
  have f: "filter (\<lambda>l. l \<noteq> []) (map (event_line encode) (concat gs)) = map (event_line encode) (concat gs)" using l by (auto simp: filter_id_conv)
  have "\<forall>k \<in> set (concat (map (map (event_line encode)) gs)). newline \<notin> set k" using l unfolding c by auto
  from tail_run_growth [OF this, of rd source ino c] show ?thesis unfolding texts_growth [OF assms] c d f by simp
qed

section \<open>What is lost\<close>

text \<open>A write that the disk cuts short is not taken back: the next event continues its line, so that the two are emitted
  as one broken line.\<close>

theorem torn_event_swallows_next:
  assumes "accepted encode w1" and "lw_cut (fst w1) = Some k" and "0 < k" and "k \<le> length (event_line encode w1)"
    and "accepted encode w2" and "lw_cut (fst w2) = None"
  shows "fst (tail_run rd source (map (grown ino) (texts_at_ticks encode c [[w1, w2]])) (tail_start (Some (ino, c))))
    = [emitLine rd source (take k (event_line encode w1) @ event_line encode w2)]"
proof -
  let ?l = "take k (event_line encode w1) @ event_line encode w2"
  have "write_all encode [w1, w2] c = c @ whole [?l]"
    using Lifecycle_Write_accepted [OF assms(1)] Lifecycle_Write_accepted [OF assms(5)] assms(2,4,6) by (cases w1; cases w2) simp
  then have t: "texts_at_ticks encode c [[w1, w2]] = growth c [[?l]]" by simp
  have "newline \<notin> set ?l" "?l \<noteq> []" "last ?l \<noteq> CHR 0x0D" using assms(1,5) by (auto simp: accepted_def dest: in_set_takeD)
  then have "newline \<notin> set ?l" "drop_cr ?l = ?l" "?l \<noteq> []" by (simp_all add: drop_cr_def)
  then show ?thesis unfolding t using tail_run_growth [of "[[?l]]" rd source ino c] by simp
qed

text \<open>A line that is still being written at a tick loses what was there: only its rest is emitted.\<close>

theorem half_written_line_lost:
  assumes "newline \<notin> set a" and "newline \<notin> set b" and "drop_cr b = b" and "b \<noteq> []"
  shows "fst (tail_run rd source (map (grown ino) [c @ a, c @ a @ b @ [newline]]) (tail_start (Some (ino, c)))) = [emitLine rd source b]"
proof -
  have "read_rest rd source (c @ a) \<lparr>tl_ino = ino, tl_off = length c, tl_last = length (c @ a)\<rparr>
      = ([], \<lparr>tl_ino = ino, tl_off = length (c @ a), tl_last = length (c @ a)\<rparr>)"
    using read_whole [of "[]" a "\<lparr>tl_ino = ino, tl_off = length c, tl_last = length (c @ a)\<rparr>" c rd source] assms(1) by simp
  moreover have "read_rest rd source ((c @ a) @ whole [b]) \<lparr>tl_ino = ino, tl_off = length (c @ a), tl_last = length ((c @ a) @ whole [b])\<rparr>
      = ([emitLine rd source b], \<lparr>tl_ino = ino, tl_off = length ((c @ a) @ whole [b]), tl_last = length ((c @ a) @ whole [b])\<rparr>)"
    using read_whole [of "[b]" "[]" "\<lparr>tl_ino = ino, tl_off = length (c @ a), tl_last = length ((c @ a) @ whole [b])\<rparr>" "c @ a" rd source] assms(2-4) by simp
  ultimately show ?thesis by (simp add: tail_tick_def grown_def tail_start_def)
qed

text \<open>When the file is rotated, what was appended to the old one since the last tick is never emitted; the new one is
  read from its beginning, one tick later.\<close>

theorem rotation_loses_unread:
  assumes "new \<noteq> ino" and "\<forall>l \<in> set ls. newline \<notin> set l"
  shows "fst (tail_run rd source [\<lparr>te_path = Some (new, x), te_open = c @ unread, te_reopen = True\<rparr>, grown new (whole ls)] (tail_start (Some (ino, c))))
    = map (emitLine rd source) (filter (\<lambda>l. l \<noteq> []) (map drop_cr ls))"
  using assms read_whole [OF assms(2), of "[]" "\<lparr>tl_ino = new, tl_off = 0, tl_last = length (whole ls)\<rparr>" "[]" rd source]
  by (simp add: tail_tick_def grown_def tail_start_def)

section \<open>Containers\<close>

fun fits :: "(stream \<times> string) list \<Rightarrow> (stream \<times> string) list \<Rightarrow> bool" where
  "fits acc [] = True"
| "fits acc (f # fs) = (\<not> overlong (carried (fst f) (acc @ [f])) \<and> fits (acc @ [f]) fs)"

lemma copied_fits: "fits acc fs \<Longrightarrow> copied acc (fs @ rest) = copied (acc @ fs) rest"
  by (induction fs arbitrary: acc) simp_all

lemma overlong_Nil: "\<not> overlong []"
  by (simp add: overlong_def scan_text_def raw_lines_def)

lemma fits_not_overlong: "fits acc fs \<Longrightarrow> \<not> overlong (carried st acc) \<Longrightarrow> \<not> overlong (carried st (acc @ fs))"
proof (induction fs arbitrary: acc)
  case (Cons f fs)
  have "\<not> overlong (carried st (acc @ [f]))" using Cons.prems by (cases "fst f = st") (auto simp: carried_def)
  then show ?case using Cons.IH [of "acc @ [f]"] Cons.prems by simp
qed simp

lemma takeWhile_all: "\<not> length (takeWhile P xs) < length xs \<Longrightarrow> takeWhile P xs = xs"
  by (metis antisym_conv2 length_takeWhile_le takeWhile_eq_take take_all_iff order_refl)

lemma not_overlong: "\<not> overlong t \<Longrightarrow> fst (scan_text maxLine t) = map drop_cr (raw_lines t)"
proof -
  assume "\<not> overlong t"
  then have "takeWhile (\<lambda>l. length l < maxLine) (raw_lines t) = raw_lines t"
    unfolding overlong_def scan_text_def Let_def snd_conv by (rule takeWhile_all)
  then show ?thesis by (simp add: scan_text_def Let_def del: takeWhile_eq_all_conv)
qed

text \<open>While all lines fit, every line that the container writes is collected, each stream in its order and with its
  level. A line of a megabyte on either stream ends the capture of both: whatever follows is not collected.\<close>

theorem container_capture:
  assumes "fits [] pre"
  shows "captureContainer name pre st = map (container_call name st) (filter (\<lambda>l. l \<noteq> []) (map drop_cr (raw_lines (carried st pre))))"
    and "overlong (carried long (pre @ [(long, b)])) \<Longrightarrow> captureContainer name (pre @ (long, b) # post) st = captureContainer name (pre @ [(long, b)]) st"
proof -
  have "\<not> overlong (carried st pre)" using fits_not_overlong [OF assms, of st] overlong_Nil by (simp add: carried_def)
  then have "fst (scan_text maxLine (carried st pre)) = map drop_cr (raw_lines (carried st pre))"
    by (rule not_overlong)
  then show "captureContainer name pre st = map (container_call name st) (filter (\<lambda>l. l \<noteq> []) (map drop_cr (raw_lines (carried st pre))))"
    using copied_fits [OF assms, of "[]"] by (simp add: captureContainer_def processLines_def)
  show "overlong (carried long (pre @ [(long, b)])) \<Longrightarrow> captureContainer name (pre @ (long, b) # post) st = captureContainer name (pre @ [(long, b)]) st"
    using copied_fits [OF assms, of "(long, b) # post"] copied_fits [OF assms, of "[(long, b)]"] by (simp add: captureContainer_def)
qed

text \<open>Docker's filter also finds containers whose names only contain the text; the one that is taken has the name.\<close>

theorem resolved_by_exact_name:
  "resolveContainer name containers = Some i \<Longrightarrow> \<exists>names. (i, names) \<in> set containers \<and> (name \<in> set names \<or> ''/'' @ name \<in> set names)"
proof -
  assume "resolveContainer name containers = Some i"
  then obtain names where f: "List.find (\<lambda>(i, names). \<exists>n \<in> set names. trim_prefix n ''/'' = name) containers = Some (i, names)"
    by (auto simp: resolveContainer_def)
  obtain n where "(i, names) \<in> set containers" "n \<in> set names" "trim_prefix n ''/'' = name"
    using find_Some_in [OF f] by auto
  moreover have "n = name \<or> n = ''/'' @ name" using \<open>trim_prefix n ''/'' = name\<close> by (auto simp: trim_prefix_def has_prefix_iff split: if_splits)
  ultimately show ?thesis by auto
qed

section \<open>Witnesses\<close>

definition plain_event :: "string \<Rightarrow> lifecycle_event" where
  "plain_event i = \<lparr>lev_ID = i, lev_Timestamp = ''t'', lev_ActorTokenID = [], lev_ActorTokenName = [], lev_Action = AttachAction, lev_TargetResourceID = [],
     lev_SourceIP = [], lev_UserAgent = [], lev_Result = ResultSuccess, lev_Metadata = None\<rparr>"

definition plain_encode :: "lifecycle_event \<Rightarrow> string option" where
  "plain_encode ev = Some (''{'' @ lev_ID ev @ ''}'')"

definition good_disk :: lifecycle_env where
  "good_disk = \<lparr>lw_uuid = ''u'', lw_now = ''n'', lw_cut = None, lw_sync = True\<rparr>"

definition text_reader :: "string line_reader" where
  "text_reader = \<lparr>lnr_parse = (\<lambda>l. if has_prefix l ''{'' then Some [(''msg'', drop 1 l), (''k'', ''v'')] else None), lnr_show = (\<lambda>v. v)\<rparr>"

lemma plain_accepted: "newline \<notin> set i \<Longrightarrow> i \<noteq> [] \<Longrightarrow> accepted plain_encode (e, plain_event i)"
  by (simp add: accepted_def event_line_def plain_encode_def plain_event_def fill_event_def Let_def)

theorem tail_emits_every_line_witness:
  "map cl_msg (fst (tail_run text_reader ''s'' (map (grown 1) (growth ''old'' [[''a'', []], [], [''b'']])) (tail_start (Some (1, ''old''))))) = [''a'', ''b'']"
  using tail_emits_every_line [of "[[''a'', []], [], [''b'']]" text_reader "''s''" 1 "''old''"]
  by (simp add: emitLine_def text_reader_def has_prefix_def drop_cr_def)

theorem lifecycle_events_reemitted_witness:
  "map cl_msg (fst (tail_run text_reader ''lifecycle'' (map (grown 1) (texts_at_ticks plain_encode [] [[(good_disk, plain_event ''1''), (good_disk, plain_event ''2'')], [(good_disk, plain_event ''3'')]]))
     (tail_start (Some (1, []))))) = [''1}'', ''2}'', ''3}'']"
proof -
  have "\<forall>w \<in> set (concat [[(good_disk, plain_event ''1''), (good_disk, plain_event ''2'')], [(good_disk, plain_event ''3'')]]). accepted plain_encode w \<and> lw_cut (fst w) = None"
    by (simp add: plain_accepted good_disk_def)
  from lifecycle_events_reemitted [OF this, of text_reader "''lifecycle''" 1 "[]"] show ?thesis
    by (simp add: emitLine_def text_reader_def line_message_def field_text_def event_line_def plain_encode_def fill_event_def plain_event_def has_prefix_def Let_def)
qed

theorem torn_event_swallows_next_witness:
  "map cl_msg (fst (tail_run text_reader ''lifecycle'' (map (grown 1) (texts_at_ticks plain_encode [] [[(good_disk\<lparr>lw_cut := Some 2\<rparr>, plain_event ''12''), (good_disk, plain_event ''3'')]]))
     (tail_start (Some (1, []))))) = [''1{3}'']"
proof -
  let ?w1 = "(good_disk\<lparr>lw_cut := Some 2\<rparr>, plain_event ''12'')" and ?w2 = "(good_disk, plain_event ''3'')"
  have h: "accepted plain_encode ?w1" "lw_cut (fst ?w1) = Some 2" "accepted plain_encode ?w2" "lw_cut (fst ?w2) = None"
    using plain_accepted [of "''12''"] plain_accepted [of "''3''"] by (simp_all add: good_disk_def)
  have l: "event_line plain_encode ?w1 = ''{12}''" "event_line plain_encode ?w2 = ''{3}''"
    by (simp_all add: event_line_def plain_encode_def fill_event_def plain_event_def)
  show ?thesis using torn_event_swallows_next [OF h(1,2) _ _ h(3,4), of text_reader "''lifecycle''" 1 "[]"] unfolding l
    by (simp add: emitLine_def text_reader_def line_message_def field_text_def has_prefix_def)
qed

theorem half_written_line_lost_witness:
  "map cl_msg (fst (tail_run text_reader ''s'' (map (grown 1) [''old'' @ ''he'', ''old'' @ ''he'' @ ''llo'' @ [newline]]) (tail_start (Some (1, ''old''))))) = [''llo'']"
  using half_written_line_lost [of "''he''" "''llo''" text_reader "''s''" 1 "''old''"] by (simp add: drop_cr_def emitLine_def text_reader_def has_prefix_def)

theorem rotation_loses_unread_witness:
  "map cl_msg (fst (tail_run text_reader ''s'' [\<lparr>te_path = Some (2, []), te_open = ''old'' @ ''x'' @ [newline], te_reopen = True\<rparr>, grown 2 (whole [''y''])] (tail_start (Some (1, ''old''))))) = [''y'']"
  using rotation_loses_unread [of 2 1 "[''y'']" text_reader "''s''" "[]" "''old''" "''x'' @ [newline]"]
  by (simp add: emitLine_def text_reader_def has_prefix_def drop_cr_def)

theorem container_capture_witness:
  "captureContainer ''c'' [(Stdout, ''a''), (Stderr, ''e'' @ [newline]), (Stdout, ''b'' @ [newline])] Stdout = [container_call ''c'' Stdout ''ab'' :: string log_call]"
proof -
  have "fits [] [(Stdout, ''a''), (Stderr, ''e'' @ [newline]), (Stdout, ''b'' @ [newline])]"
    by (simp add: overlong_def carried_def scan_text_def raw_lines_def maxLine_def Let_def)
  from container_capture(1) [OF this, of "''c''" Stdout] show ?thesis by (simp add: carried_def raw_lines_def drop_cr_def)
qed

end
