(* ===== verification/Log_Export.thy ===== *)
theory Log_Export
  imports Log_Stream
begin

text \<open>
  Exporting the ring buffer to a file (\<open>loguicapi/export.go\<close>). The compression is a writer that passes its text on; the
  text before it is kept. The environment tells which calls of the operating system succeed. A reader of
  comma-separated values after RFC 4180 is the reference for that format.
\<close>

abbreviation lf :: char where
  "lf \<equiv> CHR 0x0A"

section \<open>Options and results\<close>

datatype export_format = ExportJSONL | ExportGZIP | ExportZIP | ExportCSV

record export_options =
  eo_Format :: export_format
  eo_StartTime :: int
  eo_EndTime :: int
  eo_Level :: string
  eo_Component :: string
  eo_Source :: string
  eo_Limit :: int

text \<open>The name of the temporary file, whether the archive's entry can be created, whether the i-th write succeeds, and the
  size that the file system tells (absent when it fails).\<close>

record export_env =
  xe_temp :: "string option"
  xe_zip :: bool
  xe_write :: "nat \<Rightarrow> bool"
  xe_size :: "int option"

datatype export_outcome = Exported (exp_path: string) (exp_records: nat) (exp_size: int) (exp_text: string)
  | ExportFailed (exp_left: "string option")

section \<open>Writing\<close>

definition wanted_record :: "export_options \<Rightarrow> log_record \<Rightarrow> bool" where
  "wanted_record o' rec \<longleftrightarrow> (eo_Level o' = [] \<or> lr_Level rec = eo_Level o') \<and> (eo_Component o' = [] \<or> lr_Component rec = eo_Component o')
     \<and> (eo_Source o' = [] \<or> lr_Source rec = eo_Source o')"

definition filterRecords :: "log_record list \<Rightarrow> export_options \<Rightarrow> log_record list" where
  "filterRecords records o' = filter (wanted_record o') records"

text \<open>The writes of a run: the number of records, whether all went well, and the text. \<open>encode\<close> is \<open>json.Marshal\<close>.\<close>

fun writeJSONL :: "(log_record \<Rightarrow> string option) \<Rightarrow> (nat \<Rightarrow> bool) \<Rightarrow> nat \<Rightarrow> nat \<Rightarrow> log_record list \<Rightarrow> nat \<times> bool \<times> string" where
  "writeJSONL encode ok i count [] = (count, True, [])"
| "writeJSONL encode ok i count (rec # rest) =
     (case encode rec of
        None \<Rightarrow> writeJSONL encode ok i count rest
      | Some line \<Rightarrow>
          if \<not> ok i then (count, False, [])
          else case writeJSONL encode ok (i + 1) (count + 1) rest of (n, r, t) \<Rightarrow> (n, r, line @ [lf] @ t))"

definition double_quotes :: "string \<Rightarrow> string" where
  "double_quotes s = concat (map (\<lambda>c. if c = CHR 0x22 then [CHR 0x22, CHR 0x22] else [c]) s)"

definition csv_row :: "log_record \<Rightarrow> string" where
  "csv_row rec = lr_TS rec @ '','' @ lr_Level rec @ '','' @ lr_Component rec @ '','' @ lr_Source rec @ '','' @ [CHR 0x22] @ double_quotes (lr_Msg rec) @ [CHR 0x22]
     @ '','' @ show_int (lr_Seq rec) @ [lf]"

definition csv_header :: string where
  "csv_header = ''ts,level,component,source,msg,seq'' @ [lf]"

fun write_rows :: "(nat \<Rightarrow> bool) \<Rightarrow> nat \<Rightarrow> nat \<Rightarrow> log_record list \<Rightarrow> nat \<times> bool \<times> string" where
  "write_rows ok i count [] = (count, True, [])"
| "write_rows ok i count (rec # rest) =
     (if \<not> ok i then (count, False, [])
      else case write_rows ok (i + 1) (count + 1) rest of (n, r, t) \<Rightarrow> (n, r, csv_row rec @ t))"

text \<open>The outcome of writing the header is not looked at; without it the text has no header.\<close>

definition writeCSV :: "(nat \<Rightarrow> bool) \<Rightarrow> log_record list \<Rightarrow> nat \<times> bool \<times> string" where
  "writeCSV ok records = (case write_rows ok 1 0 records of (n, r, t) \<Rightarrow> (n, r, (if ok 0 then csv_header else []) @ t))"

definition writeRecords :: "(log_record \<Rightarrow> string option) \<Rightarrow> (nat \<Rightarrow> bool) \<Rightarrow> export_format \<Rightarrow> log_record list \<Rightarrow> nat \<times> bool \<times> string" where
  "writeRecords encode ok fmt records = (case fmt of ExportCSV \<Rightarrow> writeCSV ok records | _ \<Rightarrow> writeJSONL encode ok 0 0 records)"

definition ExportRing :: "(log_record \<Rightarrow> string option) \<Rightarrow> export_env \<Rightarrow> export_options \<Rightarrow> ring \<Rightarrow> export_outcome" where
  "ExportRing encode e o' ring =
     (let filtered0 = filterRecords (Ring_Snapshot ring) o';
          filtered = (if eo_Limit o' > 0 \<and> int (length filtered0) > eo_Limit o' then take (nat (eo_Limit o')) filtered0 else filtered0)
      in case xe_temp e of
           None \<Rightarrow> ExportFailed None
         | Some path \<Rightarrow>
             if eo_Format o' = ExportZIP \<and> \<not> xe_zip e then ExportFailed (Some path)
             else case writeRecords encode (xe_write e) (eo_Format o') filtered of
                    (count, False, _) \<Rightarrow> ExportFailed None
                  | (count, True, text) \<Rightarrow> Exported path count (case xe_size e of Some n \<Rightarrow> n | None \<Rightarrow> 0) text)"

text \<open>The file names that are left over after a cleanup: only the exporter's own files are removed.\<close>

definition base_name :: "string \<Rightarrow> string" where
  "base_name path = last (split_on CHR ''/'' path)"

definition CleanupExport :: "string \<Rightarrow> string list \<Rightarrow> string list" where
  "CleanupExport path fs = (if path \<noteq> [] \<and> has_prefix (base_name path) ''unet-export-'' then filter (\<lambda>f. f \<noteq> path) fs else fs)"

section \<open>The reference reader\<close>

fun csv_read :: "bool \<Rightarrow> string \<Rightarrow> string list \<Rightarrow> string \<Rightarrow> string list list" where
  "csv_read q f r [] = (if f = [] \<and> r = [] then [] else [r @ [f]])"
| "csv_read True f r (c # cs) =
     (if c = CHR 0x22 then
        (case cs of
           d # ds \<Rightarrow> if d = CHR 0x22 then csv_read True (f @ [CHR 0x22]) r ds else csv_read False f r cs
         | [] \<Rightarrow> csv_read False f r cs)
      else csv_read True (f @ [c]) r cs)"
| "csv_read False f r (c # cs) =
     (if c = CHR 0x22 then csv_read True f r cs
      else if c = CHR '','' then csv_read False [] (r @ [f]) cs
      else if c = lf then (r @ [f]) # csv_read False [] [] cs
      else csv_read False (f @ [c]) r cs)"

definition csv_plain :: "string \<Rightarrow> bool" where
  "csv_plain s \<longleftrightarrow> list_all (\<lambda>c. c \<noteq> CHR 0x22 \<and> c \<noteq> CHR '','' \<and> c \<noteq> lf) s"

definition record_fields :: "log_record \<Rightarrow> string list" where
  "record_fields rec = [lr_TS rec, lr_Level rec, lr_Component rec, lr_Source rec, lr_Msg rec, show_int (lr_Seq rec)]"

lemma csv_read_plain: "csv_plain s \<Longrightarrow> csv_read False f r (s @ rest) = csv_read False (f @ s) r rest"
  by (induction s arbitrary: f) (simp_all add: csv_plain_def)

lemma csv_read_field: "csv_plain s \<Longrightarrow> csv_read False [] r (s @ CHR '','' # rest) = csv_read False [] (r @ [s]) rest"
  using csv_read_plain [of s "[]" r "CHR '','' # rest"] by simp

lemma csv_read_quoted: "rest = [] \<or> hd rest \<noteq> CHR 0x22 \<Longrightarrow> csv_read True f r (double_quotes s @ CHR 0x22 # rest) = csv_read False (f @ s) r rest"
proof (induction s arbitrary: f)
  case Nil
  then show ?case by (cases rest) (simp_all add: double_quotes_def)
next
  case (Cons c s)
  then show ?case by (simp add: double_quotes_def)
qed

lemma show_int_csv: "csv_plain (show_int n)"
proof -
  have "is_digit c \<or> c = CHR ''-'' \<Longrightarrow> c \<noteq> CHR 0x22 \<and> c \<noteq> CHR '','' \<and> c \<noteq> lf" for c by (auto simp: is_digit_def)
  moreover have "c \<in> set (show_int n) \<Longrightarrow> is_digit c \<or> c = CHR ''-''" for c
    using show_nat_all_digits [of "nat n"] show_nat_all_digits [of "nat (- n)"] by (auto simp: show_int_def list_all_iff split: if_splits)
  ultimately show ?thesis by (auto simp: csv_plain_def list_all_iff)
qed

lemma csv_read_row:
  assumes "csv_plain (lr_TS rec)" and "csv_plain (lr_Level rec)" and "csv_plain (lr_Component rec)" and "csv_plain (lr_Source rec)"
  shows "csv_read False [] [] (csv_row rec @ rest) = record_fields rec # csv_read False [] [] rest"
proof -
  have n: "lf \<noteq> CHR 0x22" "lf \<noteq> CHR '',''" "CHR '','' \<noteq> CHR 0x22" by (simp_all)
  have q: "csv_read True [] r (double_quotes m @ CHR 0x22 # CHR '','' # t) = csv_read False [] (r @ [m]) t" for r m t
    using csv_read_quoted [of "CHR '','' # t" "[]" r m] n by simp
  have s: "csv_read False [] r (show_int k @ lf # t) = (r @ [show_int k]) # csv_read False [] [] t" for r k t
    using csv_read_plain [OF show_int_csv, of "[]" r k "lf # t"] n by simp
  show ?thesis using assms by (simp add: csv_row_def csv_read_field q s record_fields_def)
qed

lemma write_rows_ok: "\<forall>i. ok i \<Longrightarrow> write_rows ok i n recs = (n + length recs, True, concat (map csv_row recs))"
  by (induction recs arbitrary: i n) simp_all

definition header_fields :: "string list" where
  "header_fields = [''ts'', ''level'', ''component'', ''source'', ''msg'', ''seq'']"

lemma csv_read_header: "csv_read False [] [] (csv_header @ rest) = header_fields # csv_read False [] [] rest"
proof -
  have "lf \<noteq> CHR 0x22" "lf \<noteq> CHR '',''" by (simp_all)
  moreover have p: "csv_plain ''ts''" "csv_plain ''level''" "csv_plain ''component''" "csv_plain ''source''" "csv_plain ''msg''" "csv_plain ''seq''"
    by (simp_all add: csv_plain_def)
  moreover have "csv_header @ rest = ''ts'' @ CHR '','' # ''level'' @ CHR '','' # ''component'' @ CHR '','' # ''source'' @ CHR '','' # ''msg'' @ CHR '','' # ''seq'' @ lf # rest"
    by (simp add: csv_header_def)
  ultimately show ?thesis by (simp only: csv_read_field append.simps csv_read_plain) (simp add: header_fields_def)
qed

lemma csv_read_rows:
  "\<forall>rec \<in> set recs. csv_plain (lr_TS rec) \<and> csv_plain (lr_Level rec) \<and> csv_plain (lr_Component rec) \<and> csv_plain (lr_Source rec)
   \<Longrightarrow> csv_read False [] [] (concat (map csv_row recs)) = map record_fields recs"
  by (induction recs) (simp_all add: csv_read_row)

section \<open>Exports\<close>

text \<open>What the limit leaves.\<close>

definition exported_records :: "export_options \<Rightarrow> log_record list \<Rightarrow> log_record list" where
  "exported_records o' records = (if eo_Limit o' > 0 then take (nat (eo_Limit o')) else id) (filter (wanted_record o') records)"

lemma ExportRing_records:
  assumes "xe_temp e = Some path" and "eo_Format o' \<noteq> ExportZIP \<or> xe_zip e"
  shows "ExportRing encode e o' ring =
     (case writeRecords encode (xe_write e) (eo_Format o') (exported_records o' (Ring_Snapshot ring)) of
        (count, False, _) \<Rightarrow> ExportFailed None
      | (count, True, text) \<Rightarrow> Exported path count (case xe_size e of Some n \<Rightarrow> n | None \<Rightarrow> 0) text)"
proof -
  have "(if eo_Limit o' > 0 \<and> int (length xs) > eo_Limit o' then take (nat (eo_Limit o')) xs else xs)
      = (if eo_Limit o' > 0 then take (nat (eo_Limit o')) else id) xs" for xs :: "log_record list" by auto
  then show ?thesis using assms by (auto simp: ExportRing_def exported_records_def filterRecords_def Let_def)
qed

text \<open>C36: A comma-separated export is read back by the reference reader as the header and the exported records, whatever
  their messages contain, as long as their other fields hold no quote, comma or line end (only the message is
  quoted); and its count is theirs. The exported records are those of the ring, oldest first, whose level,
  component and source are the ones asked for, where any is; a positive limit cuts off the newest of them.\<close>

theorem csv_export_roundtrip:
  assumes "ring_log h ring" and "xe_temp e = Some path" and "\<forall>i. xe_write e i" and "eo_Format o' = ExportCSV"
    and kept: "kept = filter (\<lambda>rec. (eo_Level o' = [] \<or> lr_Level rec = eo_Level o') \<and> (eo_Component o' = [] \<or> lr_Component rec = eo_Component o')
      \<and> (eo_Source o' = [] \<or> lr_Source rec = eo_Source o')) (lasts (rg_cap ring) h)"
    and recs: "recs = (if eo_Limit o' > 0 then take (nat (eo_Limit o')) kept else kept)"
    and plain: "\<forall>rec \<in> set recs. \<forall>s \<in> {lr_TS rec, lr_Level rec, lr_Component rec, lr_Source rec}.
      CHR 0x22 \<notin> set s \<and> CHR '','' \<notin> set s \<and> CHR 0x0A \<notin> set s"
  shows "\<exists>size text. ExportRing encode e o' ring = Exported path (length recs) size text
    \<and> csv_read False [] [] text = [''ts'', ''level'', ''component'', ''source'', ''msg'', ''seq'']
        # map (\<lambda>rec. [lr_TS rec, lr_Level rec, lr_Component rec, lr_Source rec, lr_Msg rec, show_int (lr_Seq rec)]) recs"
proof -
  have recs': "exported_records o' (lasts (rg_cap ring) h) = recs"
    unfolding recs kept by (simp add: exported_records_def wanted_record_def [abs_def])
  have "\<forall>rec \<in> set recs. csv_plain (lr_TS rec) \<and> csv_plain (lr_Level rec) \<and> csv_plain (lr_Component rec) \<and> csv_plain (lr_Source rec)"
    using plain by (auto simp: csv_plain_def list_all_iff)
  then have "csv_read False [] [] (csv_header @ concat (map csv_row recs)) = header_fields # map record_fields recs"
    using csv_read_rows [of recs] by (simp add: csv_read_header)
  moreover have "ExportRing encode e o' ring = Exported path (length recs) (case xe_size e of Some n \<Rightarrow> n | None \<Rightarrow> 0) (csv_header @ concat (map csv_row recs))"
    using assms(2-4) by (simp add: ExportRing_records Ring_Snapshot_log [OF assms(1)] recs' writeRecords_def writeCSV_def write_rows_ok)
  ultimately show ?thesis by (auto simp: header_fields_def record_fields_def [abs_def])
qed

text \<open>The time window of the options is not looked at.\<close>

theorem export_ignores_window:
  "ExportRing encode e (o'\<lparr>eo_StartTime := from', eo_EndTime := until\<rparr>) ring = ExportRing encode e o' ring"
proof -
  have "wanted_record (o'\<lparr>eo_StartTime := from', eo_EndTime := until\<rparr>) = wanted_record o'" by (rule ext) (simp add: wanted_record_def)
  then show ?thesis by (cases "xe_temp e") (simp_all add: ExportRing_def filterRecords_def Let_def)
qed

text \<open>A failing export leaves its temporary file behind exactly when the archive's entry cannot be created.\<close>

theorem failed_export_leftover:
  "exp_left (ExportRing encode e o' ring) = Some path \<and> \<not> (\<exists>p n z t. ExportRing encode e o' ring = Exported p n z t)
    \<longleftrightarrow> xe_temp e = Some path \<and> eo_Format o' = ExportZIP \<and> \<not> xe_zip e"
  by (auto simp: ExportRing_def Let_def split: option.splits prod.splits bool.splits)

section \<open>Witnesses\<close>

definition noted :: "string \<Rightarrow> log_record" where
  "noted m = zero_record\<lparr>lr_TS := ''t'', lr_Level := ''info'', lr_Msg := m\<rparr>"

definition csv_options :: export_options where
  "csv_options = \<lparr>eo_Format = ExportCSV, eo_StartTime = 0, eo_EndTime = 0, eo_Level = [], eo_Component = [], eo_Source = [], eo_Limit = 1\<rparr>"

definition csv_env :: export_env where
  "csv_env = \<lparr>xe_temp = Some ''/tmp/unet-export-1.csv'', xe_zip = True, xe_write = (\<lambda>_. True), xe_size = Some 64\<rparr>"

theorem csv_export_roundtrip_witness:
  "\<exists>size text. ExportRing (\<lambda>_. None) csv_env csv_options (snd (Ring_Write (noted (CHR 0x22 # ''hi, twice'')) (NewRing 0))) = Exported ''/tmp/unet-export-1.csv'' 1 size text
    \<and> csv_read False [] [] text = [[''ts'', ''level'', ''component'', ''source'', ''msg'', ''seq''], [''t'', ''info'', [], [], CHR 0x22 # ''hi, twice'', ''1'']]"
proof -
  let ?rec = "noted (CHR 0x22 # ''hi, twice'')\<lparr>lr_Seq := 1\<rparr>"
  let ?ring = "snd (Ring_Write (noted (CHR 0x22 # ''hi, twice'')) (NewRing 0))"
  obtain q r where w: "Ring_Write (noted (CHR 0x22 # ''hi, twice'')) (NewRing 0) = (q, r)" by (metis prod.collapse)
  have l: "ring_log [?rec] ?ring" and c: "rg_cap ?ring = rg_cap (NewRing 0)"
    using ring_log_write [OF ring_log_new w] w by (auto)
  have n: "rg_cap (NewRing 0) = 200" by (simp add: NewRing_def Let_def)
  have i: "show_int 1 = ''1''" by code_simp
  have t: "lasts 200 [?rec] = [?rec]" by (simp add: lasts_def)
  show ?thesis
    using csv_export_roundtrip [OF l _ _ _ refl refl, of csv_env "''/tmp/unet-export-1.csv''" csv_options "\<lambda>_. None"] c n t i
    by (simp add: csv_env_def csv_options_def noted_def zero_record_def)
qed

end
