(* ===== verification/Observability.thy ===== *)
theory Observability
  imports Log_Handler
begin

text \<open>
  The settings of logging and the set-up of its parts (\<open>observability/config.go\<close>, \<open>observability/init.go\<close>): the defaults,
  the level of a component, and what a record goes through once everything is wired. The directory for an empty
  name is given as an argument, since it depends on the home directory.
\<close>

section \<open>Settings\<close>

record metrics_config =
  mc_Enabled :: bool
  mc_ListenAddr :: string
  mc_BearerToken :: string

record obs_config =
  oc_Enabled :: bool
  oc_LogLevels :: "string \<Rightarrow> string option"
  oc_GlobalLevel :: string
  oc_MaxFileSizeMB :: int
  oc_RetentionDays :: int
  oc_CaptureContainerLogs :: bool
  oc_ScrubPii :: bool
  oc_SSEClientBuffer :: int
  oc_LogToStdout :: bool
  oc_Metrics :: metrics_config

definition DefaultObsConfig :: obs_config where
  "DefaultObsConfig = \<lparr>oc_Enabled = True, oc_LogLevels = Map.empty, oc_GlobalLevel = ''info'', oc_MaxFileSizeMB = 100, oc_RetentionDays = 30,
     oc_CaptureContainerLogs = True, oc_ScrubPii = False, oc_SSEClientBuffer = 1000, oc_LogToStdout = True,
     oc_Metrics = \<lparr>mc_Enabled = False, mc_ListenAddr = ''127.0.0.1:9090'', mc_BearerToken = []\<rparr>\<rparr>"

definition ApplyDefaults :: "obs_config \<Rightarrow> obs_config" where
  "ApplyDefaults c =
     (let d = DefaultObsConfig;
          c1 = (if oc_GlobalLevel c = [] then c\<lparr>oc_GlobalLevel := oc_GlobalLevel d\<rparr> else c);
          c2 = (if oc_MaxFileSizeMB c1 \<le> 0 then c1\<lparr>oc_MaxFileSizeMB := oc_MaxFileSizeMB d\<rparr> else c1);
          c3 = (if oc_RetentionDays c2 \<le> 0 then c2\<lparr>oc_RetentionDays := oc_RetentionDays d\<rparr> else c2);
          c4 = (if oc_SSEClientBuffer c3 \<le> 0 then c3\<lparr>oc_SSEClientBuffer := oc_SSEClientBuffer d\<rparr> else c3)
      in if mc_ListenAddr (oc_Metrics c4) = []
         then c4\<lparr>oc_Metrics := (oc_Metrics c4)\<lparr>mc_ListenAddr := mc_ListenAddr (oc_Metrics d)\<rparr>\<rparr> else c4)"

record obs_bus =
  bus_Config :: obs_config
  bus_LogDir :: string
  bus_RingSize :: int
  bus_started :: bool

definition NewBus :: "string \<Rightarrow> obs_config \<Rightarrow> string \<Rightarrow> obs_bus" where
  "NewBus home_logs cfg logDir =
     \<lparr>bus_Config = ApplyDefaults cfg, bus_LogDir = (if logDir = [] then home_logs else logDir), bus_RingSize = 200, bus_started = False\<rparr>"

definition obs_MustParseLevel :: "string \<Rightarrow> int" where
  "obs_MustParseLevel s =
     (if s = ''debug'' then LevelDebug else if s = ''info'' then LevelInfo else if s = ''warn'' then LevelWarn
      else if s = ''error'' then LevelError else LevelInfo)"

definition parseLevelOverrides :: "(string \<Rightarrow> string option) \<Rightarrow> string \<Rightarrow> int option" where
  "parseLevelOverrides logLevels component = map_option obs_MustParseLevel (logLevels component)"

section \<open>Set-up\<close>

text \<open>The handler that becomes the default, together with the ring and the bus. \<open>made\<close> and \<open>made_again\<close> tell whether
  the directory can be created here and in the handler.\<close>

definition Init :: "log_env \<Rightarrow> bool \<Rightarrow> bool \<Rightarrow> string \<Rightarrow> obs_config \<Rightarrow> string \<Rightarrow> log_fs \<Rightarrow> (obs_bus \<times> ring \<times> log_handler) option \<times> log_fs" where
  "Init e made made_again home_logs cfg logDir fs =
     (let bus = NewBus home_logs cfg logDir in
      if \<not> made then (None, fs)
      else
        let ring = NewRing (bus_RingSize bus);
            lf = NewLevelFilter (obs_MustParseLevel (oc_GlobalLevel (bus_Config bus))) (parseLevelOverrides (oc_LogLevels (bus_Config bus)))
        in case NewLogHandler e made_again
              \<lparr>ho_LogDir = bus_LogDir bus, ho_MaxFileSizeMB = oc_MaxFileSizeMB (bus_Config bus), ho_Filter = Some lf,
               ho_Source = ''daemon'', ho_Component = ''unknown'', ho_LogToStdout = oc_LogToStdout (bus_Config bus)\<rparr> fs of
             (None, fs1) \<Rightarrow> (None, fs1)
           | (Some h, fs1) \<Rightarrow> (Some (bus\<lparr>bus_started := True\<rparr>, ring, h), fs1))"

section \<open>Defaults\<close>

lemmas obs_accessors = ApplyDefaults_def DefaultObsConfig_def Let_def

text \<open>The settings that are left as they are: every text is there and every number is positive.\<close>

definition complete_config :: "obs_config \<Rightarrow> bool" where
  "complete_config c \<longleftrightarrow> oc_GlobalLevel c \<noteq> [] \<and> oc_MaxFileSizeMB c > 0 \<and> oc_RetentionDays c > 0 \<and> oc_SSEClientBuffer c > 0
     \<and> mc_ListenAddr (oc_Metrics c) \<noteq> []"

lemma ApplyDefaults_complete: "complete_config (ApplyDefaults c)"
  by (simp add: complete_config_def obs_accessors)

lemma ApplyDefaults_keeps: "complete_config c \<Longrightarrow> ApplyDefaults c = c"
  by (simp add: complete_config_def obs_accessors)

text \<open>Filling in the defaults once is enough, changes nothing exactly when nothing is missing, and the default settings are
  what becomes of settings that say nothing but for the flags: an absent \<open>captureContainerLogs\<close> stays off, although
  its default is on.\<close>

theorem defaults_are_a_closure:
  "ApplyDefaults (ApplyDefaults c) = ApplyDefaults c \<and> (ApplyDefaults c = c \<longleftrightarrow> complete_config c)
   \<and> oc_CaptureContainerLogs (ApplyDefaults c) = oc_CaptureContainerLogs c"
proof -
  have "oc_CaptureContainerLogs (ApplyDefaults c) = oc_CaptureContainerLogs c" by (simp add: obs_accessors)
  then show ?thesis using ApplyDefaults_complete [of c] ApplyDefaults_keeps by metis
qed

lemma ApplyDefaults_simps [simp]:
  "oc_GlobalLevel (ApplyDefaults c) = (if oc_GlobalLevel c = [] then ''info'' else oc_GlobalLevel c)"
  "oc_MaxFileSizeMB (ApplyDefaults c) = (if oc_MaxFileSizeMB c \<le> 0 then 100 else oc_MaxFileSizeMB c)"
  "oc_LogLevels (ApplyDefaults c) = oc_LogLevels c"
  "oc_LogToStdout (ApplyDefaults c) = oc_LogToStdout c"
  by (simp_all add: obs_accessors)

section \<open>Levels\<close>

text \<open>This parser of levels agrees with the one of the logger on lower-case text only: any other spelling means info, so
  \<open>DEBUG\<close> turns debugging off and \<open>ERROR\<close> lets everything from info on through.\<close>

theorem level_parsers_differ_on_case:
  "obs_MustParseLevel s = (if to_lower s = s then MustParseLevel s else LevelInfo)"
proof (cases "to_lower s = s")
  case True
  then show ?thesis by (simp add: obs_MustParseLevel_def MustParseLevel_def ParseLevel_def)
next
  case False
  have "to_lower ''debug'' = ''debug''" "to_lower ''warn'' = ''warn''" "to_lower ''error'' = ''error''"
    by (simp_all add: to_lower_def lower_char_def)
  then show ?thesis using False by (auto simp: obs_MustParseLevel_def)
qed

text \<open>The level from which a set-up handler lets records through.\<close>

definition threshold :: "obs_config \<Rightarrow> int" where
  "threshold cfg = (case oc_LogLevels cfg ''unknown'' of Some l \<Rightarrow> obs_MustParseLevel l | None \<Rightarrow> obs_MustParseLevel (oc_GlobalLevel cfg))"

lemma openNewFile_keeps:
  "openNewFile e (h0, fs) = (ok, h, fs1) \<Longrightarrow> hd_comp h = hd_comp h0 \<and> hd_filter h = hd_filter h0"
  by (simp add: openNewFile_def Let_def split: if_splits prod.splits) auto

definition init_options :: "string \<Rightarrow> obs_config \<Rightarrow> string \<Rightarrow> handler_options" where
  "init_options home_logs cfg logDir =
     \<lparr>ho_LogDir = (if logDir = [] then home_logs else logDir), ho_MaxFileSizeMB = oc_MaxFileSizeMB (ApplyDefaults cfg),
      ho_Filter = Some (NewLevelFilter (obs_MustParseLevel (oc_GlobalLevel (ApplyDefaults cfg))) (parseLevelOverrides (oc_LogLevels (ApplyDefaults cfg)))),
      ho_Source = ''daemon'', ho_Component = ''unknown'', ho_LogToStdout = oc_LogToStdout (ApplyDefaults cfg)\<rparr>"

lemma Init_eq:
  "Init e made again home_logs cfg logDir fs =
     (if \<not> made then (None, fs)
      else case NewLogHandler e again (init_options home_logs cfg logDir) fs of
             (None, fs1) \<Rightarrow> (None, fs1)
           | (Some h, fs1) \<Rightarrow> (Some ((NewBus home_logs cfg logDir)\<lparr>bus_started := True\<rparr>, NewRing 200, h), fs1))"
  unfolding Init_def NewBus_def init_options_def Let_def by (auto split: option.splits prod.splits simp del: ApplyDefaults_simps)

lemma NewLogHandler_cases:
  assumes "NewLogHandler e again opts fs = (Some h, fs1)"
  obtains h0 where "hd_filter h0 = ho_Filter opts" "hd_comp h0 = (if ho_Component opts = [] then ''unknown'' else ho_Component opts)"
      "hd_logDir h0 = ho_LogDir opts" "hd_baseName h0 = ''daemon''" "hd_maxSize h0 > 0" "hd_degrade h0 = 0"
      "ho_LogDir opts = [] \<and> h = h0 \<and> fs1 = fs \<or> ho_LogDir opts \<noteq> [] \<and> openNewFile e (h0, fs) = (True, h, fs1)"
proof -
  let ?h0 = "\<lparr>hd_filter = ho_Filter opts, hd_seq = 0, hd_attrs = [], hd_groups = [],
          hd_comp = (if ho_Component opts = [] then ''unknown'' else ho_Component opts),
          hd_src = (if ho_Source opts = [] then ''daemon'' else ho_Source opts), hd_logDir = ho_LogDir opts, hd_baseName = ''daemon'',
          hd_date = [], hd_maxSize = (if ho_MaxFileSizeMB opts \<le> 0 then 100 else ho_MaxFileSizeMB opts) * 1024 * 1024,
          hd_file = None, hd_fileSize = 0, hd_stdout = ho_LogToStdout opts, hd_degrade = 0, hd_alert = Some False\<rparr>"
  have "ho_LogDir opts = [] \<and> h = ?h0 \<and> fs1 = fs \<or> ho_LogDir opts \<noteq> [] \<and> openNewFile e (?h0, fs) = (True, h, fs1)"
    using assms unfolding NewLogHandler_def Let_def
    by (cases "ho_LogDir opts = []"; cases again; cases "openNewFile e (?h0, fs)") (simp_all split: if_split_asm)
  then show thesis by (rule that [rotated -1]) simp_all
qed

lemma Init_handler:
  assumes "Init e made made_again home_logs cfg logDir fs = (Some (bus, ring, h), fs1)"
  shows "hd_comp h = ''unknown'' \<and> hd_filter h = Some (NewLevelFilter (obs_MustParseLevel (oc_GlobalLevel (ApplyDefaults cfg))) (parseLevelOverrides (oc_LogLevels cfg)))
    \<and> ring = NewRing 200 \<and> bus_started bus"
proof -
  have n: "NewLogHandler e made_again (init_options home_logs cfg logDir) fs = (Some h, fs1)" "ring = NewRing 200" "bus_started bus"
    using assms by (auto simp: Init_eq split: if_splits prod.splits option.splits)
  from n(1) show ?thesis
    by (rule NewLogHandler_cases) (use n(2,3) in \<open>auto simp: init_options_def dest!: openNewFile_keeps\<close>)
qed

lemma level_of_default: "obs_MustParseLevel (oc_GlobalLevel (ApplyDefaults cfg)) = obs_MustParseLevel (oc_GlobalLevel cfg)"
  by (simp add: obs_MustParseLevel_def)

text \<open>The levels of the single components have no effect: whatever component a logger is tagged with, one threshold
  decides, that of the component \<open>unknown\<close> or the global one.\<close>

theorem component_levels_have_no_effect:
  assumes "Init e made made_again home_logs cfg logDir fs = (Some (bus, ring, h), fs1)"
  shows "Log_Enabled (SetComponent h component) level \<longleftrightarrow> threshold cfg \<le> level"
proof -
  have "hd_comp (SetComponent h component) = hd_comp h" "hd_filter (SetComponent h component) = hd_filter h"
    by (simp_all add: SetComponent_def WithAttrs_def clone_def)
  then show ?thesis using Init_handler [OF assms] level_of_default [of cfg]
    by (cases "oc_LogLevels cfg ''unknown''")
      (simp_all add: Log_Enabled_def Filter_Enabled_def NewLevelFilter_def parseLevelOverrides_def threshold_def)
qed

section \<open>The first record\<close>

text \<open>A set-up that meets a working disk and no file of today: the first record is the only line of today's file and the
  only record of the ring.\<close>

theorem init_then_log:
  assumes "Init e True True home_logs cfg logDir fs = (Some (bus, ring, h), fs1)" and "home_logs \<noteq> []"
    and "fs_names fs (log_path h (''daemon-'' @ le_today e @ ''.jsonl'')) = None" and "le_written e = None"
    and "marshalable (build_record e r h)"
  shows "\<exists>h' w' i g. Handle marshal e r (h, \<lparr>lw_fs = fs1, lw_ring = Some ring, lw_stdout = []\<rparr>) = (True, h', w')
     \<and> fs_names (lw_fs w') (log_path h (''daemon-'' @ le_today e @ ''.jsonl'')) = Some i
     \<and> fs_data (lw_fs w') i = marshal (build_record e r h) @ [char_of (10::nat)]
     \<and> lw_ring w' = Some g \<and> Ring_Snapshot g = [(build_record e r h)\<lparr>lr_Seq := 1\<rparr>]"
proof -
  let ?name = "log_path h (''daemon-'' @ le_today e @ ''.jsonl'')" and ?w = "\<lparr>lw_fs = fs1, lw_ring = Some ring, lw_stdout = []\<rparr>"
  have "NewLogHandler e True (init_options home_logs cfg logDir) fs = (Some h, fs1)"
    using assms(1) by (auto simp: Init_eq split: prod.splits option.splits)
  then obtain h0 where h0: "hd_logDir h0 \<noteq> []" "hd_baseName h0 = ''daemon''" "hd_maxSize h0 > 0" "hd_degrade h0 = 0"
      "openNewFile e (h0, fs) = (True, h, fs1)"
    by (rule NewLogHandler_cases) (use assms(2) in \<open>auto simp: init_options_def split: if_splits\<close>)
  have fs1: "fs_names fs1 ?name = Some (fs_next fs)" "fs_data fs1 (fs_next fs) = []" "hd_file h = Some (length (fs_handles fs))"
      "fs_handles fs1 ! length (fs_handles fs) = \<lparr>of_name = ?name, of_inode = fs_next fs, of_open = True\<rparr>"
      "hd_logDir h \<noteq> []" "hd_date h = le_today e" "hd_fileSize h = 0" "hd_maxSize h > 0" "hd_degrade h = 0"
    using h0 assms(3) by (auto simp: openNewFile_def OpenFile_def log_path_def Let_def split: if_splits option.splits)
  then have ready: "handler_ready e h (lw_fs ?w) (length (fs_handles fs))" using assms(4) by (simp add: handler_ready_def)
  have ring: "ring = NewRing 200" using Init_handler [OF assms(1)] by simp
  obtain h' w' g where w: "Handle marshal e r (h, ?w) = (True, h', w')"
     "fs_data (lw_fs w') = (fs_data fs1)(fs_next fs := marshal (build_record e r h) @ [char_of (10::nat)])"
     "fs_names (lw_fs w') = fs_names fs1" "lw_ring w' = Some g" "ring_log [(build_record e r h)\<lparr>lr_Seq := 1\<rparr>] g"
    using Handle_writes_both [OF ready assms(5), of "NewRing 200" "[]" marshal] ring ring_log_new [of 200] fs1(2,4) by auto
  moreover have "Ring_Snapshot g = [(build_record e r h)\<lparr>lr_Seq := 1\<rparr>]"
    using Ring_Snapshot_log [OF w(5)] w(5) by (simp add: lasts_def ring_log_def)
  ultimately show ?thesis using fs1(1) by auto
qed

section \<open>Settings that nothing reads\<close>

text \<open>Whether logging is enabled, how long files are kept, whether containers are captured, whether personal data is
  scrubbed, the size of the subscribers' buffers and the metrics make no difference to what is set up.\<close>

theorem settings_without_effect:
  "let c' = cfg\<lparr>oc_Enabled := a, oc_RetentionDays := b, oc_CaptureContainerLogs := c, oc_ScrubPii := d, oc_SSEClientBuffer := f, oc_Metrics := g\<rparr>
   in snd (Init e made again home_logs c' logDir fs) = snd (Init e made again home_logs cfg logDir fs)
      \<and> map_option snd (fst (Init e made again home_logs c' logDir fs)) = map_option snd (fst (Init e made again home_logs cfg logDir fs))"
proof -
  let ?c = "cfg\<lparr>oc_Enabled := a, oc_RetentionDays := b, oc_CaptureContainerLogs := c, oc_ScrubPii := d, oc_SSEClientBuffer := f, oc_Metrics := g\<rparr>"
  have "init_options home_logs ?c logDir = init_options home_logs cfg logDir" by (simp add: init_options_def)
  then show ?thesis unfolding Let_def Init_eq by (simp split: option.splits prod.splits)
qed

section \<open>Witnesses\<close>

definition quiet_config :: obs_config where
  "quiet_config = DefaultObsConfig\<lparr>oc_LogLevels := [''tunnel'' \<mapsto> ''debug'']\<rparr>"

lemma sample_Init: "\<exists>bus ring h fs1. Init sample_env True True ''/logs'' quiet_config [] empty_fs = (Some (bus, ring, h), fs1) \<and> hd_attrs h = []"
  by (simp add: Init_def NewBus_def NewLogHandler_def openNewFile_def OpenFile_def sample_env_def empty_fs_def Let_def)

theorem component_levels_have_no_effect_witness:
  "\<exists>bus ring h fs1. Init sample_env True True ''/logs'' quiet_config [] empty_fs = (Some (bus, ring, h), fs1)
    \<and> \<not> Log_Enabled (SetComponent h ''tunnel'') LevelDebug"
proof -
  obtain bus ring h fs1 where i: "Init sample_env True True ''/logs'' quiet_config [] empty_fs = (Some (bus, ring, h), fs1)"
    using sample_Init by blast
  then show ?thesis using component_levels_have_no_effect [OF i, of "''tunnel''" LevelDebug]
    by (simp add: threshold_def quiet_config_def DefaultObsConfig_def obs_MustParseLevel_def level_defs)
qed

theorem init_then_log_witness:
  "\<exists>bus ring h fs1 h' w' g. Init sample_env True True ''/logs'' quiet_config [] empty_fs = (Some (bus, ring, h), fs1)
    \<and> Handle lr_Msg sample_env warning (h, \<lparr>lw_fs = fs1, lw_ring = Some ring, lw_stdout = []\<rparr>) = (True, h', w')
    \<and> lw_ring w' = Some g \<and> map lr_Msg (Ring_Snapshot g) = [''disk'']"
proof -
  obtain bus ring h fs1 where i: "Init sample_env True True ''/logs'' quiet_config [] empty_fs = (Some (bus, ring, h), fs1)" "hd_attrs h = []"
    using sample_Init by blast
  have "fs_names empty_fs (log_path h (''daemon-'' @ le_today sample_env @ ''.jsonl'')) = None" "le_written sample_env = None"
    by (simp_all add: empty_fs_def sample_env_def)
  then show ?thesis
    using init_then_log [OF i(1) _ _ _ plain_warning [OF i(2)], of lr_Msg] i(1)
    by (fastforce simp: build_record_def warning_def i(2))
qed

end
