(* ===== verification/Metrics.thy ===== *)
theory Metrics
  imports Prelude
begin

text \<open>
  The metrics of the daemon (\<open>metrics/registry.go\<close>): which counter each recorded event increments, and who may read
  the metrics. The counters and gauges belong to the Prometheus library: their operations are the functions
  \<open>inc\<close> (the counter of a list of label values), \<open>set'\<close> and \<open>observe\<close> over abstract values.
\<close>

section \<open>The registry\<close>

record ('c, 'g, 'h) registry =
  mr_HealthChecksTotal :: 'c
  mr_VPSOpsTotal :: 'c
  mr_LogEventsTotal :: 'c
  mr_ActiveConns :: 'g
  mr_Uptime :: 'g
  mr_SSEReaders :: 'g
  mr_VPSOpDuration :: 'h

text \<open>The constructors take the name of a metric and the names of its labels.\<close>

definition NewRegistry :: "(string \<Rightarrow> string list \<Rightarrow> 'c) \<Rightarrow> (string \<Rightarrow> 'g) \<Rightarrow> (string \<Rightarrow> string list \<Rightarrow> 'h) \<Rightarrow> ('c, 'g, 'h) registry" where
  "NewRegistry new_counter new_gauge new_histogram =
     \<lparr>mr_HealthChecksTotal = new_counter ''unet_health_checks_total'' [''target'', ''result''],
      mr_VPSOpsTotal = new_counter ''unet_vps_operations_total'' [''operation'', ''provider'', ''result''],
      mr_LogEventsTotal = new_counter ''unet_log_events_total'' [''level'', ''component'', ''source''],
      mr_ActiveConns = new_gauge ''unet_active_connections'', mr_Uptime = new_gauge ''unet_uptime_seconds'',
      mr_SSEReaders = new_gauge ''unet_sse_readers'',
      mr_VPSOpDuration = new_histogram ''unet_vps_operation_duration_seconds'' [''operation'', ''provider'']\<rparr>"

definition RecordHealthCheck :: "(string list \<Rightarrow> 'c \<Rightarrow> 'c) \<Rightarrow> string \<Rightarrow> string \<Rightarrow> ('c, 'g, 'h) registry \<Rightarrow> ('c, 'g, 'h) registry" where
  "RecordHealthCheck inc target result r = r\<lparr>mr_HealthChecksTotal := inc [target, result] (mr_HealthChecksTotal r)\<rparr>"

definition RecordVPSOp :: "(string list \<Rightarrow> 'c \<Rightarrow> 'c) \<Rightarrow> string \<Rightarrow> string \<Rightarrow> string \<Rightarrow> ('c, 'g, 'h) registry \<Rightarrow> ('c, 'g, 'h) registry" where
  "RecordVPSOp inc operation provider result r = r\<lparr>mr_VPSOpsTotal := inc [operation, provider, result] (mr_VPSOpsTotal r)\<rparr>"

definition RecordLogEvent :: "(string list \<Rightarrow> 'c \<Rightarrow> 'c) \<Rightarrow> string \<Rightarrow> string \<Rightarrow> string \<Rightarrow> ('c, 'g, 'h) registry \<Rightarrow> ('c, 'g, 'h) registry" where
  "RecordLogEvent inc level component source r = r\<lparr>mr_LogEventsTotal := inc [level, component, source] (mr_LogEventsTotal r)\<rparr>"

definition ObserveVPSOpDuration :: "(string list \<Rightarrow> 't \<Rightarrow> 'h \<Rightarrow> 'h) \<Rightarrow> string \<Rightarrow> string \<Rightarrow> 't \<Rightarrow> ('c, 'g, 'h) registry \<Rightarrow> ('c, 'g, 'h) registry" where
  "ObserveVPSOpDuration observe operation provider seconds r = r\<lparr>mr_VPSOpDuration := observe [operation, provider] seconds (mr_VPSOpDuration r)\<rparr>"

definition SetSSEReaders :: "(int \<Rightarrow> 'g \<Rightarrow> 'g) \<Rightarrow> int \<Rightarrow> ('c, 'g, 'h) registry \<Rightarrow> ('c, 'g, 'h) registry" where
  "SetSSEReaders set' count r = r\<lparr>mr_SSEReaders := set' count (mr_SSEReaders r)\<rparr>"

section \<open>Recorded events\<close>

datatype 't metric_event = HealthCheckDone string string | VPSOpDone string string string | LogEventDone string string string
  | VPSOpTook string string 't | ReadersAre int

fun recorded :: "(string list \<Rightarrow> 'c \<Rightarrow> 'c) \<Rightarrow> (int \<Rightarrow> 'g \<Rightarrow> 'g) \<Rightarrow> (string list \<Rightarrow> 't \<Rightarrow> 'h \<Rightarrow> 'h) \<Rightarrow> 't metric_event \<Rightarrow> ('c, 'g, 'h) registry \<Rightarrow> ('c, 'g, 'h) registry" where
  "recorded inc set' observe (HealthCheckDone a b) r = RecordHealthCheck inc a b r"
| "recorded inc set' observe (VPSOpDone a b c) r = RecordVPSOp inc a b c r"
| "recorded inc set' observe (LogEventDone a b c) r = RecordLogEvent inc a b c r"
| "recorded inc set' observe (VPSOpTook a b t) r = ObserveVPSOpDuration observe a b t r"
| "recorded inc set' observe (ReadersAre n) r = SetSSEReaders set' n r"

definition recorded_all :: "(string list \<Rightarrow> 'c \<Rightarrow> 'c) \<Rightarrow> (int \<Rightarrow> 'g \<Rightarrow> 'g) \<Rightarrow> (string list \<Rightarrow> 't \<Rightarrow> 'h \<Rightarrow> 'h) \<Rightarrow> 't metric_event list \<Rightarrow> ('c, 'g, 'h) registry \<Rightarrow> ('c, 'g, 'h) registry" where
  "recorded_all inc set' observe es r = fold (recorded inc set' observe) es r"

lemmas record_defs = RecordHealthCheck_def RecordVPSOp_def RecordLogEvent_def ObserveVPSOpDuration_def SetSSEReaders_def

lemma recorded_all_counts:
  assumes "\<And>l l' c. val l (inc l' c) = val l c + (if l' = l then 1 else (0 :: nat))"
  shows "val l (mr_HealthChecksTotal (recorded_all inc set' observe es r))
       = val l (mr_HealthChecksTotal r) + length (filter (\<lambda>e. case e of HealthCheckDone a b \<Rightarrow> [a, b] = l | _ \<Rightarrow> False) es)"
    and "val l (mr_VPSOpsTotal (recorded_all inc set' observe es r))
       = val l (mr_VPSOpsTotal r) + length (filter (\<lambda>e. case e of VPSOpDone a b c \<Rightarrow> [a, b, c] = l | _ \<Rightarrow> False) es)"
    and "val l (mr_LogEventsTotal (recorded_all inc set' observe es r))
       = val l (mr_LogEventsTotal r) + length (filter (\<lambda>e. case e of LogEventDone a b c \<Rightarrow> [a, b, c] = l | _ \<Rightarrow> False) es)"
proof (induction es arbitrary: r)
  case (Cons e es)
  { case 1 then show ?case using Cons by (cases e) (simp_all add: recorded_all_def record_defs assms) next
    case 2 then show ?case using Cons by (cases e) (simp_all add: recorded_all_def record_defs assms) next
    case 3 then show ?case using Cons by (cases e) (simp_all add: recorded_all_def record_defs assms) }
qed (simp_all add: recorded_all_def)

lemma recorded_all_gauges:
  "mr_ActiveConns (recorded_all inc set' observe es r) = mr_ActiveConns r \<and> mr_Uptime (recorded_all inc set' observe es r) = mr_Uptime r"
proof (induction es arbitrary: r)
  case (Cons e es)
  then show ?case by (cases e) (simp_all add: recorded_all_def record_defs)
qed (simp add: recorded_all_def)

text \<open>With counters that start at zero and add one for the labels they are given, each counter of a new registry tells
  how many events with its labels were recorded, whatever else was recorded in between; the gauges of connections
  and uptime keep their first value.\<close>

theorem counters_count:
  assumes "\<And>l l' c. val l (inc l' c) = val l c + (if l' = l then 1 else (0 :: nat))" and "\<And>name labels l. val l (new_counter name labels) = 0"
  shows "let r = recorded_all inc set' observe es (NewRegistry new_counter new_gauge new_histogram) in
     val l (mr_HealthChecksTotal r) = length (filter (\<lambda>e. case e of HealthCheckDone a b \<Rightarrow> [a, b] = l | _ \<Rightarrow> False) es)
   \<and> val l (mr_VPSOpsTotal r) = length (filter (\<lambda>e. case e of VPSOpDone a b c \<Rightarrow> [a, b, c] = l | _ \<Rightarrow> False) es)
   \<and> val l (mr_LogEventsTotal r) = length (filter (\<lambda>e. case e of LogEventDone a b c \<Rightarrow> [a, b, c] = l | _ \<Rightarrow> False) es)
   \<and> mr_Uptime r = new_gauge ''unet_uptime_seconds'' \<and> mr_ActiveConns r = new_gauge ''unet_active_connections''"
  by (simp add: Let_def recorded_all_counts [of val inc, OF assms(1)] recorded_all_gauges) (simp add: NewRegistry_def assms(2))

section \<open>Reading the metrics\<close>

datatype metrics_reply = MetricsPage | HealthOk | MetricsRefused int

definition bearerAuth :: "string \<Rightarrow> string \<Rightarrow> metrics_reply" where
  "bearerAuth bearerToken auth =
     (if auth = [] then MetricsRefused 401
      else if length auth < 7 \<or> take 7 auth \<noteq> ''Bearer '' then MetricsRefused 401
      else if drop 7 auth \<noteq> bearerToken then MetricsRefused 403
      else MetricsPage)"

text \<open>A request for a clean path, which is all the multiplexer hands on.\<close>

definition exposer_serve :: "string \<Rightarrow> string \<Rightarrow> string \<Rightarrow> metrics_reply" where
  "exposer_serve bearerToken path auth =
     (if path = ''/metrics'' then (if bearerToken \<noteq> [] then bearerAuth bearerToken auth else MetricsPage)
      else if path = ''/health'' then HealthOk
      else MetricsRefused 404)"

text \<open>The metrics are served exactly under their path and to those that present the configured token; without a token,
  to everyone, whatever the address that is listened on.\<close>

theorem metrics_served_iff:
  "exposer_serve token path auth = MetricsPage \<longleftrightarrow> path = ''/metrics'' \<and> (token = [] \<or> auth = ''Bearer '' @ token)"
proof -
  have "auth = ''Bearer '' @ token \<longleftrightarrow> 7 \<le> length auth \<and> take 7 auth = ''Bearer '' \<and> drop 7 auth = token" (is "_ \<longleftrightarrow> ?r")
  proof
    assume "7 \<le> length auth \<and> take 7 auth = ''Bearer '' \<and> drop 7 auth = token"
    then show "auth = ''Bearer '' @ token" by (metis append_take_drop_id)
  qed simp
  then show ?thesis by (auto simp: exposer_serve_def bearerAuth_def)
qed

section \<open>Witness\<close>

theorem counters_count_witness:
  "mr_HealthChecksTotal (recorded_all (\<lambda>l c. c(l := c l + 1)) (\<lambda>n g. n) (\<lambda>l t h. h)
     [HealthCheckDone ''a'' ''ok'', VPSOpTook ''up'' ''ssh'' (3::nat), HealthCheckDone ''a'' ''ok''] (NewRegistry (\<lambda>_ _ _. 0) (\<lambda>_. 0) (\<lambda>_ _. ()))) [''a'', ''ok''] = (2 :: nat)"
  using counters_count [of "\<lambda>l c. c l" "\<lambda>l c. c(l := c l + 1)" "\<lambda>_ _ _. 0" "\<lambda>n g. n" "\<lambda>l t h. h"
     "[HealthCheckDone ''a'' ''ok'', VPSOpTook ''up'' ''ssh'' (3::nat), HealthCheckDone ''a'' ''ok'']" "\<lambda>_. 0" "\<lambda>_ _. ()" "[''a'', ''ok'']"]
  by (simp add: Let_def)

end
