(* ===== verification/Remote_Server.thy ===== *)
theory Remote_Server
  imports Config Remote_Api
begin

text \<open>
  The listener of the remote API and its certificate (\<open>api/remote/server.go\<close>, \<open>api/remote/tls.go\<close>). A file holds the
  certificate or the key of a pair, or the beginning of one. Key generation, encoding and the system calls
  succeed or fail as the environment tells.
\<close>

section \<open>The certificate\<close>

record certificate =
  ce_Organization :: string
  ce_NotBefore :: instant
  ce_NotAfter :: instant
  ce_Names :: "string list"
  ce_pair :: nat

datatype tls_file = CertPEM certificate | KeyPEM nat | TornPEM

text \<open>\<open>ge_pair\<close> is the fresh key pair, absent when it, the serial number or the signature fails.\<close>

record generate_env =
  ge_pair :: "nat option"
  ge_mkdir :: bool
  ge_create_cert :: bool
  ge_write_cert :: bool
  ge_open_key :: bool
  ge_write_key :: bool

definition cert_template :: "instant \<Rightarrow> nat \<Rightarrow> certificate" where
  "cert_template now pair =
     \<lparr>ce_Organization = ''unet'', ce_NotBefore = now, ce_NotAfter = now + 365 * 24 * 60 * minute, ce_Names = [], ce_pair = pair\<rparr>"

definition GenerateSelfSignedCert :: "generate_env \<Rightarrow> instant \<Rightarrow> string \<Rightarrow> string \<Rightarrow> (string \<Rightarrow> tls_file option) \<Rightarrow> bool \<times> (string \<Rightarrow> tls_file option)" where
  "GenerateSelfSignedCert e now certPath keyPath fs =
     (case ge_pair e of
        None \<Rightarrow> (False, fs)
      | Some pair \<Rightarrow>
          if \<not> ge_mkdir e then (False, fs)
          else if \<not> ge_create_cert e then (False, fs)
          else if \<not> ge_write_cert e then (False, fs(certPath \<mapsto> TornPEM))
          else
            let fs1 = fs(certPath \<mapsto> CertPEM (cert_template now pair)) in
            if \<not> ge_open_key e then (False, fs1)
            else if \<not> ge_write_key e then (False, fs1(keyPath \<mapsto> TornPEM))
            else (True, fs1(keyPath \<mapsto> KeyPEM pair)))"

text \<open>\<open>statable\<close> tells which existing files the system lets one look at.\<close>

definition EnsureTLS :: "generate_env \<Rightarrow> instant \<Rightarrow> (string \<Rightarrow> bool) \<Rightarrow> string \<Rightarrow> string \<Rightarrow> (string \<Rightarrow> tls_file option) \<Rightarrow> bool \<times> (string \<Rightarrow> tls_file option)" where
  "EnsureTLS e now statable certPath keyPath fs =
     (if fs certPath = None \<or> fs keyPath = None then GenerateSelfSignedCert e now certPath keyPath fs
      else if \<not> statable certPath then (False, fs)
      else if \<not> statable keyPath then (False, fs)
      else (True, fs))"

definition DefaultTLSCertPaths :: "string option \<Rightarrow> (string \<times> string) option" where
  "DefaultTLSCertPaths config_dir = map_option (\<lambda>dir. (dir @ ''/cert.pem'', dir @ ''/key.pem'')) config_dir"

section \<open>The server\<close>

record remote_server =
  rs_ReadHeaderTimeout :: duration
  rs_ReadTimeout :: duration
  rs_WriteTimeout :: duration
  rs_IdleTimeout :: duration
  rs_Addr :: string

definition NewRemoteServer :: remote_server where
  "NewRemoteServer = \<lparr>rs_ReadHeaderTimeout = 5 * second, rs_ReadTimeout = 15 * second, rs_WriteTimeout = 15 * second, rs_IdleTimeout = 60 * second, rs_Addr = []\<rparr>"

definition isLoopbackAddress :: "string \<Rightarrow> bool" where
  "isLoopbackAddress addr = isLoopback (case SplitHostPort addr of Some (host, _) \<Rightarrow> host | None \<Rightarrow> addr)"

text \<open>The standard library's loading of a pair: the files hold a certificate and its key; their dates are not looked at.\<close>

definition load_pair :: "(string \<Rightarrow> tls_file option) \<Rightarrow> string \<Rightarrow> string \<Rightarrow> certificate option" where
  "load_pair fs certPath keyPath =
     (case (fs certPath, fs keyPath) of (Some (CertPEM c), Some (KeyPEM k)) \<Rightarrow> if ce_pair c = k then Some c else None | _ \<Rightarrow> None)"

datatype start_outcome = NotEnabled | NoPaths | TLSFailed | PairRefused | ListeningTLS string certificate

definition Server_Start :: "generate_env \<Rightarrow> instant \<Rightarrow> (string \<Rightarrow> bool) \<Rightarrow> string option \<Rightarrow> remote_api_config \<Rightarrow> remote_server \<times> (string \<Rightarrow> tls_file option)
    \<Rightarrow> start_outcome \<times> remote_server \<times> (string \<Rightarrow> tls_file option)" where
  "Server_Start e now statable config_dir cfg s =
     (case s of (srv, fs) \<Rightarrow>
       if \<not> rem_Enabled cfg then (NotEnabled, srv, fs)
       else
         let listenAddr = (if rem_ListenAddr cfg = [] then ''0.0.0.0:8443'' else rem_ListenAddr cfg);
             srv1 = srv\<lparr>rs_Addr := listenAddr\<rparr>;
             paths = (if rem_TLSCert cfg = [] \<or> rem_TLSKey cfg = []
                      then map_option (\<lambda>(c, k). (if rem_TLSCert cfg = [] then c else rem_TLSCert cfg, if rem_TLSKey cfg = [] then k else rem_TLSKey cfg))
                             (DefaultTLSCertPaths config_dir)
                      else Some (rem_TLSCert cfg, rem_TLSKey cfg))
         in case paths of
              None \<Rightarrow> (NoPaths, srv1, fs)
            | Some (certPath, keyPath) \<Rightarrow>
                (case EnsureTLS e now statable certPath keyPath fs of
                   (False, fs1) \<Rightarrow> (TLSFailed, srv1, fs1)
                 | (True, fs1) \<Rightarrow>
                     (case load_pair fs1 certPath keyPath of
                        None \<Rightarrow> (PairRefused, srv1, fs1)
                      | Some c \<Rightarrow> (ListeningTLS listenAddr c, srv1, fs1))))"

section \<open>Generating a pair\<close>

text \<open>A complete run leaves a pair that loads; whatever the answer, no other file is touched; and a second call finds both
  files and changes nothing.\<close>

theorem generated_pair_loads:
  assumes "certPath \<noteq> keyPath" and "GenerateSelfSignedCert e now certPath keyPath fs = (ok, fs')"
  shows "(ok \<longleftrightarrow> (\<exists>pair. load_pair fs' certPath keyPath = Some (cert_template now pair) \<and> ge_pair e = Some pair \<and> ge_mkdir e \<and> ge_create_cert e
           \<and> ge_write_cert e \<and> ge_open_key e \<and> ge_write_key e))
     \<and> (\<forall>p. p \<noteq> certPath \<and> p \<noteq> keyPath \<longrightarrow> fs' p = fs p)
     \<and> (ok \<longrightarrow> EnsureTLS e' later (\<lambda>_. True) certPath keyPath fs' = (True, fs'))"
proof (cases "ge_pair e \<noteq> None \<and> ge_mkdir e \<and> ge_create_cert e \<and> ge_write_cert e \<and> ge_open_key e \<and> ge_write_key e")
  case True
  then obtain pair where "ge_pair e = Some pair" by blast
  then have "ok" "fs' = fs(certPath \<mapsto> CertPEM (cert_template now pair), keyPath \<mapsto> KeyPEM pair)"
    using True assms(2) by (simp_all add: GenerateSelfSignedCert_def Let_def)
  then show ?thesis using True assms(1) \<open>ge_pair e = Some pair\<close> by (simp add: EnsureTLS_def load_pair_def cert_template_def)
next
  case False
  then have "\<not> ok" using assms(2) by (auto simp: GenerateSelfSignedCert_def Let_def split: option.splits if_splits)
  moreover have "\<forall>p. p \<noteq> certPath \<and> p \<noteq> keyPath \<longrightarrow> fs' p = fs p"
    using assms(2) by (auto simp: GenerateSelfSignedCert_def Let_def split: option.splits if_splits)
  ultimately show ?thesis using False by auto
qed

text \<open>C40: Files that are there are never replaced, so a pair that cannot be loaded stays: no later start listens, at whatever
  time and however well the system works then. A generation that fails while it writes the key leaves such files.\<close>

theorem torn_pair_never_repaired:
  assumes "ge_pair e = Some pair" and "ge_mkdir e" and "ge_create_cert e" and "ge_write_cert e" and "ge_open_key e" and "\<not> ge_write_key e"
    and "rem_Enabled cfg" and "rem_TLSCert cfg \<noteq> []" and "rem_TLSKey cfg \<noteq> []" and "fs (rem_TLSKey cfg) = None"
    and "Server_Start e now statable dir cfg (srv, fs) = (out, srv', fs')"
  shows "out = TLSFailed \<and> (\<forall>e2 later dir2 srv2. fst (Server_Start e2 later (\<lambda>_. True) dir2 cfg (srv2, fs')) = PairRefused
     \<and> snd (snd (Server_Start e2 later (\<lambda>_. True) dir2 cfg (srv2, fs'))) = fs')"
proof -
  have "out = TLSFailed" "fs' (rem_TLSKey cfg) = Some TornPEM" "fs' (rem_TLSCert cfg) \<noteq> None"
    using assms by (auto simp: Server_Start_def EnsureTLS_def GenerateSelfSignedCert_def Let_def)
  then show ?thesis
    using assms(7-9) by (auto simp: Server_Start_def EnsureTLS_def load_pair_def Let_def split: option.splits tls_file.splits)
qed

text \<open>When only the key is missing, the certificate at the configured path is replaced, also one that the operator put there.\<close>

theorem missing_key_replaces_certificate:
  assumes "fs certPath = Some (CertPEM mine)" and "fs keyPath = None" and "certPath \<noteq> keyPath"
    and "ge_pair e = Some pair" and "ge_mkdir e" and "ge_create_cert e" and "ge_write_cert e"
  shows "snd (EnsureTLS e now statable certPath keyPath fs) certPath = Some (CertPEM (cert_template now pair))"
  using assms by (auto simp: EnsureTLS_def GenerateSelfSignedCert_def Let_def)

text \<open>The dates of the certificate are not looked at: a start long after its last day listens with the same certificate,
  and no name is in it for a client to compare with.\<close>

theorem expired_certificate_served:
  assumes "rem_Enabled cfg" and "rem_TLSCert cfg \<noteq> []" and "rem_TLSKey cfg \<noteq> []" and "rem_TLSCert cfg \<noteq> rem_TLSKey cfg"
    and "EnsureTLS e now statable (rem_TLSCert cfg) (rem_TLSKey cfg) Map.empty = (True, fs)"
    and "Server_Start e2 later (\<lambda>_. True) dir cfg (srv, fs) = (out, srv', fs')"
  shows "\<exists>addr c. out = ListeningTLS addr c \<and> ce_NotAfter c = now + 365 * 24 * 60 * minute \<and> ce_Names c = [] \<and> fs' = fs"
proof -
  obtain pair where "load_pair fs (rem_TLSCert cfg) (rem_TLSKey cfg) = Some (cert_template now pair)"
      "fs (rem_TLSCert cfg) \<noteq> None" "fs (rem_TLSKey cfg) \<noteq> None"
    using assms(4,5) by (auto simp: EnsureTLS_def GenerateSelfSignedCert_def load_pair_def cert_template_def Let_def split: option.splits if_splits)
  then show ?thesis using assms(1-3,6) by (auto simp: Server_Start_def EnsureTLS_def Let_def cert_template_def)
qed

section \<open>The address\<close>

text \<open>Names that begin with \<open>127.\<close> count as loopback.\<close>

theorem named_host_counts_as_loopback:
  "isLoopbackAddress ''127.example.com:8443'' \<and> isLoopbackAddress ''127.0.0.53:8443'' \<and> \<not> isLoopbackAddress ''0.0.0.0:8443'' \<and> \<not> isLoopbackAddress '':8443''"
  by code_simp

section \<open>Witnesses\<close>

definition good_generate :: generate_env where
  "good_generate = \<lparr>ge_pair = Some 1, ge_mkdir = True, ge_create_cert = True, ge_write_cert = True, ge_open_key = True, ge_write_key = True\<rparr>"

definition full_disk :: generate_env where
  "full_disk = good_generate\<lparr>ge_write_key := False\<rparr>"

definition listening_config :: remote_api_config where
  "listening_config = \<lparr>rem_Enabled = True, rem_ListenAddr = [], rem_TLSCert = ''c'', rem_TLSKey = ''k''\<rparr>"

theorem generated_pair_loads_witness:
  "EnsureTLS full_disk 9 (\<lambda>_. True) ''c'' ''k'' (snd (GenerateSelfSignedCert good_generate 0 ''c'' ''k'' Map.empty)) = (True, snd (GenerateSelfSignedCert good_generate 0 ''c'' ''k'' Map.empty))"
  using generated_pair_loads [of "''c''" "''k''" good_generate 0 Map.empty "fst (GenerateSelfSignedCert good_generate 0 ''c'' ''k'' Map.empty)"
      "snd (GenerateSelfSignedCert good_generate 0 ''c'' ''k'' Map.empty)" full_disk 9]
  by (simp add: GenerateSelfSignedCert_def good_generate_def Let_def)

theorem torn_pair_never_repaired_witness:
  "fst (Server_Start good_generate 9 (\<lambda>_. True) None listening_config (NewRemoteServer, snd (snd (Server_Start full_disk 0 (\<lambda>_. True) None listening_config (NewRemoteServer, Map.empty))))) = PairRefused"
proof -
  obtain out srv' fs' where s: "Server_Start full_disk 0 (\<lambda>_. True) None listening_config (NewRemoteServer, Map.empty) = (out, srv', fs')"
    by (rule prod_cases3)
  show ?thesis using torn_pair_never_repaired [OF _ _ _ _ _ _ _ _ _ _ s, of 1] s
    by (simp add: full_disk_def good_generate_def listening_config_def)
qed

theorem missing_key_replaces_certificate_witness:
  "snd (EnsureTLS good_generate 0 (\<lambda>_. True) ''c'' ''k'' [''c'' \<mapsto> CertPEM (cert_template 0 7)]) ''c'' = Some (CertPEM (cert_template 0 1))"
  using missing_key_replaces_certificate [of "[''c'' \<mapsto> CertPEM (cert_template 0 7)]" "''c''" "cert_template 0 7" "''k''" good_generate 1 0 "\<lambda>_. True"]
  by (simp add: good_generate_def)

theorem expired_certificate_served_witness:
  "\<exists>fs addr c. EnsureTLS good_generate 0 (\<lambda>_. True) ''c'' ''k'' Map.empty = (True, fs)
    \<and> fst (Server_Start full_disk (400 * 24 * 60 * minute) (\<lambda>_. True) None listening_config (NewRemoteServer, fs)) = ListeningTLS addr c
    \<and> ce_NotAfter c < 400 * 24 * 60 * minute"
proof -
  obtain fs where f: "EnsureTLS good_generate 0 (\<lambda>_. True) ''c'' ''k'' Map.empty = (True, fs)"
    by (simp add: EnsureTLS_def GenerateSelfSignedCert_def good_generate_def Let_def)
  obtain out srv' fs' where s: "Server_Start full_disk (400 * 24 * 60 * minute) (\<lambda>_. True) None listening_config (NewRemoteServer, fs) = (out, srv', fs')"
    by (rule prod_cases3)
  show ?thesis using expired_certificate_served [OF _ _ _ _ _ s, of good_generate 0 "\<lambda>_. True"] f s
    by (auto simp: listening_config_def duration_defs)
qed

end
