(* ===== verification/Local_Proxy.thy ===== *)
theory Local_Proxy
  imports Prelude
begin

text \<open>
  The local proxy of an exposed port (\<open>tunnel/local_proxy.go\<close>) as a transition system. Its callers hold the mutex for
  the whole of a start or a stop, so at most one is inside; a stop is its three calls that the accept loop and the
  connections can observe: cancel the context, close the listener, wait for the loop. A connection keeps the
  context of the start that accepted it.
\<close>

section \<open>States\<close>

datatype conn_phase = Dialing | Forwarding

datatype stop_phase = Outside | Cancelled | Closed

text \<open>\<open>px_start\<close> counts the starts and names the context of the latest one; \<open>px_cancelled\<close> tells whether that one is cancelled,
  earlier ones always are. The flag \<open>px_loop\<close> is set until the loop closes the channel \<open>done\<close>.\<close>

record proxy =
  px_tunnelIP :: string
  px_targetAddr :: string
  px_listenPort :: int
  px_running :: bool
  px_listening :: bool
  px_start :: nat
  px_cancelled :: bool
  px_loop :: bool
  px_conns :: "(nat \<times> conn_phase) list"
  px_stop :: stop_phase

definition NewLocalTCPProxy :: "string \<Rightarrow> string \<Rightarrow> proxy" where
  "NewLocalTCPProxy tunnelIP targetAddr =
     \<lparr>px_tunnelIP = tunnelIP, px_targetAddr = targetAddr, px_listenPort = 0, px_running = False, px_listening = False, px_start = 0,
      px_cancelled = True, px_loop = False, px_conns = [], px_stop = Outside\<rparr>"

text \<open>A start while nobody else is inside; \<open>listened\<close> is the port that the system gave, on the address of the tunnel.\<close>

definition listen_address :: "proxy \<Rightarrow> string" where
  "listen_address p = px_tunnelIP p @ '':0''"

definition Proxy_Start :: "int option \<Rightarrow> proxy \<Rightarrow> int option \<times> proxy" where
  "Proxy_Start listened p =
     (if px_running p then (Some (px_listenPort p), p)
      else case listened of
             None \<Rightarrow> (None, p)
           | Some port \<Rightarrow>
               (Some port, p\<lparr>px_listening := True, px_listenPort := port, px_running := True, px_start := px_start p + 1,
                    px_cancelled := False, px_loop := True\<rparr>))"

definition ListenPort :: "proxy \<Rightarrow> int" where
  "ListenPort p = px_listenPort p"

section \<open>Steps\<close>

definition context_done :: "proxy \<Rightarrow> nat \<Rightarrow> bool" where
  "context_done p n \<longleftrightarrow> n < px_start p \<or> px_cancelled p"

inductive stop_step :: "proxy \<Rightarrow> proxy \<Rightarrow> bool" where
  stop_idle: "px_stop p = Outside \<Longrightarrow> \<not> px_running p \<Longrightarrow> stop_step p p"
| stop_cancel: "px_stop p = Outside \<Longrightarrow> px_running p \<Longrightarrow> stop_step p (p\<lparr>px_running := False, px_cancelled := True, px_stop := Cancelled\<rparr>)"
| stop_close: "px_stop p = Cancelled \<Longrightarrow> stop_step p (p\<lparr>px_listening := False, px_stop := Closed\<rparr>)"
| stop_waited: "px_stop p = Closed \<Longrightarrow> \<not> px_loop p \<Longrightarrow> stop_step p (p\<lparr>px_stop := Outside\<rparr>)"

text \<open>An accept fails on a closed listener and may fail on an open one; the loop ends only if it then sees its context
  cancelled.\<close>

inductive loop_step :: "proxy \<Rightarrow> proxy \<Rightarrow> bool" where
  accepted: "px_loop p \<Longrightarrow> px_listening p \<Longrightarrow> loop_step p (p\<lparr>px_conns := px_conns p @ [(px_start p, Dialing)]\<rparr>)"
| accept_retry: "px_loop p \<Longrightarrow> \<not> px_cancelled p \<Longrightarrow> loop_step p p"
| accept_end: "px_loop p \<Longrightarrow> px_cancelled p \<Longrightarrow> loop_step p (p\<lparr>px_loop := False\<rparr>)"

text \<open>A connection dials the target, which fails when its context is cancelled, forwards, and is closed at the end. What
  forwards does not look at the context.\<close>

inductive conn_step :: "proxy \<Rightarrow> proxy \<Rightarrow> bool" where
  dialled: "i < length (px_conns p) \<Longrightarrow> px_conns p ! i = (n, Dialing) \<Longrightarrow> \<not> context_done p n
    \<Longrightarrow> conn_step p (p\<lparr>px_conns := (px_conns p)[i := (n, Forwarding)]\<rparr>)"
| dial_failed: "i < length (px_conns p) \<Longrightarrow> px_conns p ! i = (n, Dialing) \<Longrightarrow> conn_step p (p\<lparr>px_conns := take i (px_conns p) @ drop (i + 1) (px_conns p)\<rparr>)"
| finished: "i < length (px_conns p) \<Longrightarrow> px_conns p ! i = (n, Forwarding) \<Longrightarrow> conn_step p (p\<lparr>px_conns := take i (px_conns p) @ drop (i + 1) (px_conns p)\<rparr>)"

inductive proxy_step :: "proxy \<Rightarrow> proxy \<Rightarrow> bool" where
  by_start: "px_stop p = Outside \<Longrightarrow> Proxy_Start listened p = (r, q) \<Longrightarrow> proxy_step p q"
| by_stop: "stop_step p q \<Longrightarrow> proxy_step p q"
| by_loop: "loop_step p q \<Longrightarrow> proxy_step p q"
| by_conn: "conn_step p q \<Longrightarrow> proxy_step p q"

inductive proxy_reachable :: "proxy \<Rightarrow> proxy \<Rightarrow> bool" for p where
  created: "proxy_reachable p p"
| stepped: "proxy_reachable p q \<Longrightarrow> proxy_step q r \<Longrightarrow> proxy_reachable p r"

inductive_cases stop_stepE: "stop_step p q"
inductive_cases loop_stepE: "loop_step p q"
inductive_cases conn_stepE: "conn_step p q"
inductive_cases proxy_stepE: "proxy_step p q"
inductive_simps loop_step_iff: "loop_step p q"

lemma proxy_reachable_trans: "proxy_reachable q r \<Longrightarrow> proxy_reachable p q \<Longrightarrow> proxy_reachable p r"
  by (induction rule: proxy_reachable.induct) (auto intro: stepped)

section \<open>The invariant\<close>

definition proxy_ok :: "proxy \<Rightarrow> bool" where
  "proxy_ok p \<longleftrightarrow>
     (px_running p \<longrightarrow> px_stop p = Outside \<and> px_listening p \<and> px_loop p \<and> \<not> px_cancelled p)
   \<and> (\<not> px_running p \<and> px_stop p = Outside \<longrightarrow> \<not> px_listening p \<and> \<not> px_loop p)
   \<and> (\<not> px_running p \<longrightarrow> px_cancelled p)
   \<and> (px_stop p = Closed \<longrightarrow> \<not> px_listening p)
   \<and> (\<forall>(n, c) \<in> set (px_conns p). n \<le> px_start p)"

lemma proxy_ok_new: "proxy_ok (NewLocalTCPProxy ip target)"
  by (simp add: proxy_ok_def NewLocalTCPProxy_def)

lemma conn_step_keeps:
  assumes "conn_step p q"
  shows "q\<lparr>px_conns := px_conns p\<rparr> = p \<and> (\<forall>(n, c) \<in> set (px_conns q). \<exists>d. (n, d) \<in> set (px_conns p))"
  using assms
  by cases (force dest!: set_update_subset_insert [THEN subsetD] in_set_takeD in_set_dropD nth_mem)+

lemma proxy_ok_step:
  assumes "proxy_ok p" and "proxy_step p q"
  shows "proxy_ok q"
  using assms(2)
proof (rule proxy_stepE)
  fix listened r
  assume "px_stop p = Outside" and "Proxy_Start listened p = (r, q)"
  then show ?thesis using assms(1) by (force simp: Proxy_Start_def proxy_ok_def split: if_splits option.splits)
next
  assume "stop_step p q"
  then show ?thesis using assms(1) by (elim stop_stepE) (auto simp: proxy_ok_def)
next
  assume "loop_step p q"
  then show ?thesis using assms(1) by (elim loop_stepE) (auto simp: proxy_ok_def)
next
  assume "conn_step p q"
  note k = conn_step_keeps [OF this]
  then obtain conns where q: "q = p\<lparr>px_conns := conns\<rparr>" by (metis (no_types, lifting) proxy.surjective proxy.update_convs(9))
  then show ?thesis using assms(1) k by (fastforce simp: proxy_ok_def)
qed

lemma reachable_ok: "proxy_reachable p q \<Longrightarrow> proxy_ok p \<Longrightarrow> proxy_ok q"
  by (induction rule: proxy_reachable.induct) (auto intro: proxy_ok_step)

section \<open>Starting and stopping\<close>

text \<open>Between a stop that returned and the next start the proxy has no listener and no loop, so nothing is accepted.\<close>

theorem stopped_proxy_accepts_nothing:
  assumes "proxy_reachable (NewLocalTCPProxy ip target) p" and "px_stop p = Outside" and "\<not> px_running p"
  shows "\<not> px_listening p \<and> \<not> (\<exists>q. loop_step p q)"
  using reachable_ok [OF assms(1) proxy_ok_new] assms(2,3) by (auto simp: proxy_ok_def loop_step_iff)

text \<open>C37: A stop never hangs: when it waits, the loop can only take its last step, and after it the wait is over.\<close>

theorem stop_returns:
  assumes "proxy_reachable (NewLocalTCPProxy ip target) p" and "px_stop p = Closed"
  shows "(px_loop p \<longrightarrow> (\<exists>q. loop_step p q)) \<and> (\<forall>q. loop_step p q \<longrightarrow> \<not> px_loop q \<and> px_stop q = Closed)
    \<and> (\<not> px_loop p \<longrightarrow> stop_step p (p\<lparr>px_stop := Outside\<rparr>))"
proof -
  have "px_cancelled p" "\<not> px_listening p"
    using reachable_ok [OF assms(1) proxy_ok_new] assms(2) by (auto simp: proxy_ok_def)
  then show ?thesis using assms(2) by (auto simp: loop_step_iff intro: stop_waited)
qed

text \<open>The same loop step with the context not yet cancelled would be a retry: were the listener closed first, the loop
  could turn round on it until the cancellation. In the order of the code a running proxy has an open listener.\<close>

theorem running_proxy_listens:
  assumes "proxy_reachable (NewLocalTCPProxy ip target) p"
  shows "px_loop p \<and> \<not> px_cancelled p \<longrightarrow> px_listening p \<and> px_running p"
  using reachable_ok [OF assms proxy_ok_new] by (auto simp: proxy_ok_def)

abbreviation stopped :: "proxy \<Rightarrow> proxy" where
  "stopped p \<equiv> p\<lparr>px_running := False, px_cancelled := True, px_listening := False, px_loop := False, px_stop := Outside\<rparr>"

lemma full_stop:
  assumes "px_running p" and "px_stop p = Outside" and "px_loop p"
  shows "proxy_reachable p (stopped p)"
proof -
  let ?q1 = "p\<lparr>px_running := False, px_cancelled := True, px_stop := Cancelled\<rparr>"
  let ?q2 = "?q1\<lparr>px_listening := False, px_stop := Closed\<rparr>"
  let ?q3 = "?q2\<lparr>px_loop := False\<rparr>"
  have "proxy_step p ?q1" by (intro by_stop stop_cancel assms)
  moreover have "proxy_step ?q1 ?q2" by (intro by_stop stop_close) simp
  moreover have "proxy_step ?q2 ?q3" by (intro by_loop accept_end) (simp_all add: assms)
  moreover have "proxy_step ?q3 (?q3\<lparr>px_stop := Outside\<rparr>)" by (intro by_stop stop_waited) simp_all
  ultimately have "proxy_reachable p (?q3\<lparr>px_stop := Outside\<rparr>)" by (meson created stepped)
  then show ?thesis by simp
qed

text \<open>A second start returns the port of the first and changes nothing; a stopped proxy still reports the port of its last
  start, not 0.\<close>

theorem stopped_proxy_reports_port:
  assumes "proxy_reachable (NewLocalTCPProxy ip target) p" and "px_stop p = Outside" and "\<not> px_running p" and "Proxy_Start (Some port) p = (r, q)"
  shows "Proxy_Start other q = (Some port, q) \<and> (\<exists>s. proxy_reachable q s \<and> px_stop s = Outside \<and> \<not> px_running s \<and> ListenPort s = port)"
proof -
  have q: "px_running q" "px_stop q = Outside" "px_listenPort q = port" "px_loop q"
    using assms(2-4) by (auto simp: Proxy_Start_def)
  then show ?thesis using full_stop [OF q(1,2,4)]
    by (auto simp: Proxy_Start_def ListenPort_def intro!: exI [of _ "stopped q"])
qed

section \<open>Connections\<close>

text \<open>A stop cuts off what is still dialling but not what forwards: a connection that is forwarding when the stop begins is
  still there when it has returned.\<close>

theorem stop_keeps_connections:
  assumes "proxy_reachable (NewLocalTCPProxy ip target) p" and "px_running p"
  shows "\<exists>q. proxy_reachable p q \<and> px_stop q = Outside \<and> \<not> px_running q \<and> px_conns q = px_conns p
    \<and> (\<forall>i r. conn_step q r \<and> i < length (px_conns r) \<and> snd (px_conns r ! i) = Forwarding \<longrightarrow> px_conns r ! i \<in> set (px_conns p))"
proof -
  have p: "px_stop p = Outside" "px_loop p" using reachable_ok [OF assms(1) proxy_ok_new] assms(2) by (auto simp: proxy_ok_def)
  have "proxy_reachable p (stopped p)" using full_stop assms(2) p by blast
  moreover have "px_conns r ! i \<in> set (px_conns p)" if "conn_step (stopped p) r" "i < length (px_conns r)" for r i
    using that by (cases rule: conn_stepE)
      (auto simp: context_done_def dest!: nth_mem [of i] in_set_takeD in_set_dropD)
  ultimately show ?thesis by (intro exI [of _ "stopped p"]) simp
qed

section \<open>Witnesses\<close>

abbreviation fresh_proxy :: proxy where
  "fresh_proxy \<equiv> NewLocalTCPProxy ''10.8.0.2'' ''127.0.0.1:3000''"

theorem stopped_proxy_accepts_nothing_witness:
  "\<not> px_listening fresh_proxy \<and> \<not> (\<exists>q. loop_step fresh_proxy q)"
  using stopped_proxy_accepts_nothing [OF created] by (simp add: NewLocalTCPProxy_def)

definition started_proxy :: proxy where
  "started_proxy = snd (Proxy_Start (Some 40001) fresh_proxy)"

lemma started_reachable: "proxy_reachable fresh_proxy started_proxy"
proof -
  have "proxy_step fresh_proxy started_proxy"
    by (rule by_start [where listened = "Some 40001"]) (simp_all add: started_proxy_def NewLocalTCPProxy_def Proxy_Start_def)
  then show ?thesis by (rule stepped [OF created])
qed

lemma closing_reachable:
  "proxy_reachable fresh_proxy (started_proxy\<lparr>px_running := False, px_cancelled := True, px_listening := False, px_stop := Closed\<rparr>)"
proof -
  let ?q1 = "started_proxy\<lparr>px_running := False, px_cancelled := True, px_stop := Cancelled\<rparr>"
  have p: "px_stop started_proxy = Outside" "px_running started_proxy" by (simp_all add: started_proxy_def NewLocalTCPProxy_def Proxy_Start_def)
  have "proxy_step started_proxy ?q1" by (intro by_stop stop_cancel p)
  moreover have "proxy_step ?q1 (?q1\<lparr>px_listening := False, px_stop := Closed\<rparr>)" by (intro by_stop stop_close) simp
  ultimately have "proxy_reachable fresh_proxy (?q1\<lparr>px_listening := False, px_stop := Closed\<rparr>)" by (meson started_reachable stepped)
  then show ?thesis by simp
qed

theorem stop_returns_witness:
  "\<exists>q. loop_step (started_proxy\<lparr>px_running := False, px_cancelled := True, px_listening := False, px_stop := Closed\<rparr>) q"
  using stop_returns [OF closing_reachable] by (simp add: started_proxy_def NewLocalTCPProxy_def Proxy_Start_def)

theorem running_proxy_listens_witness: "px_listening started_proxy"
  using running_proxy_listens [OF started_reachable] by (simp add: started_proxy_def NewLocalTCPProxy_def Proxy_Start_def)

theorem stopped_proxy_reports_port_witness:
  "\<exists>s. proxy_reachable started_proxy s \<and> \<not> px_running s \<and> ListenPort s = 40001"
  using stopped_proxy_reports_port [OF created, of "''10.8.0.2''" "''127.0.0.1:3000''" 40001 "Some 40001" started_proxy]
  by (auto simp: started_proxy_def NewLocalTCPProxy_def Proxy_Start_def)

theorem stop_keeps_connections_witness:
  "\<exists>p q. proxy_reachable started_proxy p \<and> px_conns p = [(1, Forwarding)] \<and> proxy_reachable p q \<and> \<not> px_running q \<and> px_conns q = [(1, Forwarding)]"
proof -
  let ?p1 = "started_proxy\<lparr>px_conns := [(1, Dialing)]\<rparr>" and ?p = "started_proxy\<lparr>px_conns := [(1, Forwarding)]\<rparr>"
  have s: "px_loop started_proxy" "px_listening started_proxy" "px_conns started_proxy = []" "px_start started_proxy = 1"
      "\<not> px_cancelled started_proxy" "px_running started_proxy"
    by (simp_all add: started_proxy_def NewLocalTCPProxy_def Proxy_Start_def)
  have "proxy_step started_proxy ?p1" using by_loop [OF accepted [OF s(1,2)]] s by simp
  moreover have "proxy_step ?p1 ?p"
    using by_conn [OF dialled [of 0 ?p1 1]] s by (simp add: context_done_def)
  ultimately have r: "proxy_reachable started_proxy ?p" by (meson created stepped)
  then have "proxy_reachable fresh_proxy ?p" by (rule proxy_reachable_trans) (rule started_reachable)
  from stop_keeps_connections [OF this] r show ?thesis using s by auto
qed

end
