(* ===== verification/Startup.thy ===== *)
theory Startup
  imports Provision_Ssh Tunnel_Manager Jwt Remote_Server
begin

text \<open>
  The start of the daemon (\<open>cmd/unet/startup.go\<close>, \<open>cmd/unet/main.go\<close>): the lock file of the single instance, with its
  two system calls as separate steps of concurrent instances; the reconciliation of the tunnel's status; the set-up of
  the remote API; the client that runs commands on the server; and the order of the main function up to the
  point where it waits for a signal. Privileges and the tool's path are answers of the system.
\<close>

section \<open>The lock file\<close>

text \<open>An instance has looked at the file, has written it, or is gone; \<open>lw_other\<close> are the other processes of the machine.\<close>

datatype instance_phase = Starting | SawFree | Holding

record lock_world =
  lw_file :: "string option"
  lw_instances :: "int \<Rightarrow> instance_phase option"
  lw_other :: "int set"

definition pid_alive :: "lock_world \<Rightarrow> int \<Rightarrow> bool" where
  "pid_alive w pid \<longleftrightarrow> lw_instances w pid \<noteq> None \<or> pid \<in> lw_other w"

definition lock_taken :: "lock_world \<Rightarrow> bool" where
  "lock_taken w =
     (case lw_file w of
        None \<Rightarrow> False
      | Some data \<Rightarrow> (case Atoi data of None \<Rightarrow> False | Some existingPID \<Rightarrow> pid_alive w existingPID))"

definition write_pid :: "int \<Rightarrow> lock_world \<Rightarrow> lock_world" where
  "write_pid pid w = w\<lparr>lw_file := Some (show_int pid), lw_instances := (lw_instances w)(pid \<mapsto> Holding)\<rparr>"

definition gone :: "int \<Rightarrow> lock_world \<Rightarrow> lock_world" where
  "gone pid w = w\<lparr>lw_instances := (lw_instances w)(pid := None)\<rparr>"

text \<open>A process number is not given twice at a time.\<close>

inductive lock_step :: "lock_world \<Rightarrow> lock_world \<Rightarrow> bool" where
  launched: "\<not> pid_alive w pid \<Longrightarrow> 0 < pid \<Longrightarrow> pid < 2 ^ 31 \<Longrightarrow> lock_step w (w\<lparr>lw_instances := (lw_instances w)(pid \<mapsto> Starting)\<rparr>)"
| saw_free: "lw_instances w pid = Some Starting \<Longrightarrow> \<not> lock_taken w \<Longrightarrow> lock_step w (w\<lparr>lw_instances := (lw_instances w)(pid \<mapsto> SawFree)\<rparr>)"
| refused: "lw_instances w pid = Some Starting \<Longrightarrow> lock_taken w \<Longrightarrow> lock_step w (gone pid w)"
| wrote: "lw_instances w pid = Some SawFree \<Longrightarrow> lock_step w (write_pid pid w)"
| ended: "lw_instances w pid = Some Holding \<Longrightarrow> lock_step w ((gone pid w)\<lparr>lw_file := None\<rparr>)"
| killed: "lw_instances w pid \<noteq> None \<Longrightarrow> lock_step w (gone pid w)"

inductive lock_reachable :: "lock_world \<Rightarrow> lock_world \<Rightarrow> bool" for w0 where
  lock_refl: "lock_reachable w0 w0"
| lock_trans: "lock_reachable w0 w \<Longrightarrow> lock_step w w' \<Longrightarrow> lock_reachable w0 w'"

text \<open>The whole function in one go, and runs in which no instance is launched between the look and the write of another.\<close>

definition acquireLockPIDFile :: "int \<Rightarrow> lock_world \<Rightarrow> bool \<times> lock_world" where
  "acquireLockPIDFile pid w = (if lock_taken w then (False, gone pid w) else (True, write_pid pid w))"

inductive serial_step :: "lock_world \<Rightarrow> lock_world \<Rightarrow> bool" where
  serial_start: "\<not> pid_alive w pid \<Longrightarrow> 0 < pid \<Longrightarrow> pid < 2 ^ 31
    \<Longrightarrow> serial_step w (snd (acquireLockPIDFile pid (w\<lparr>lw_instances := (lw_instances w)(pid \<mapsto> Starting)\<rparr>)))"
| serial_end: "lw_instances w pid = Some Holding \<Longrightarrow> serial_step w ((gone pid w)\<lparr>lw_file := None\<rparr>)"
| serial_kill: "lw_instances w pid \<noteq> None \<Longrightarrow> serial_step w (gone pid w)"

inductive serial_reachable :: "lock_world \<Rightarrow> lock_world \<Rightarrow> bool" for w0 where
  serial_refl: "serial_reachable w0 w0"
| serial_trans: "serial_reachable w0 w \<Longrightarrow> serial_step w w' \<Longrightarrow> serial_reachable w0 w'"

inductive_cases serial_stepE: "serial_step w w'"

lemma lock_steps:
  "serial_step w w' \<Longrightarrow> lock_reachable w0 w \<Longrightarrow> lock_reachable w0 w'"
proof (erule serial_stepE, goal_cases)
  case (1 pid)
  let ?w1 = "w\<lparr>lw_instances := (lw_instances w)(pid \<mapsto> Starting)\<rparr>"
  have r: "lock_reachable w0 ?w1" using 1 by (intro lock_trans [OF 1(1) launched]) auto
  show ?case
  proof (cases "lock_taken ?w1")
    case True
    then show ?thesis using 1 lock_trans [OF r refused [of ?w1 pid]] by (simp add: acquireLockPIDFile_def)
  next
    case False
    have "lock_reachable w0 (?w1\<lparr>lw_instances := (lw_instances ?w1)(pid \<mapsto> SawFree)\<rparr>)"
      using False by (intro lock_trans [OF r saw_free]) auto
    then have "lock_reachable w0 (write_pid pid (?w1\<lparr>lw_instances := (lw_instances ?w1)(pid \<mapsto> SawFree)\<rparr>))"
      by (rule lock_trans [OF _ wrote]) simp
    moreover have "write_pid pid (?w1\<lparr>lw_instances := (lw_instances ?w1)(pid \<mapsto> SawFree)\<rparr>) = write_pid pid ?w1" by (simp add: write_pid_def)
    ultimately show ?thesis using 1 False by (simp add: acquireLockPIDFile_def)
  qed
next
  case (2 pid)
  then show ?case using lock_trans [OF 2(1) ended] by simp
next
  case (3 pid)
  then show ?case using lock_trans [OF 3(1) killed] by simp
qed

text \<open>A machine without instances.\<close>

definition lock_fresh :: "lock_world \<Rightarrow> bool" where
  "lock_fresh w \<longleftrightarrow> lw_instances w = Map.empty"

definition lock_inv :: "lock_world \<Rightarrow> bool" where
  "lock_inv w \<longleftrightarrow> (\<forall>pid c. lw_instances w pid = Some c \<longrightarrow> c = Holding \<and> 0 < pid \<and> pid < 2 ^ 31 \<and> lw_file w = Some (show_int pid))"

lemma show_int_inj: "show_int a = show_int b \<Longrightarrow> a = b"
  by (metis option.inject parse_int_show_int)

lemma lock_inv_one:
  assumes "lock_inv w" and "lw_instances w p = Some c" and "lw_instances w q = Some d"
  shows "p = q"
proof -
  have "lw_file w = Some (show_int p)" "lw_file w = Some (show_int q)" using assms unfolding lock_inv_def by blast+
  then show ?thesis using show_int_inj by simp
qed

lemma lock_inv_gone: "lock_inv w \<Longrightarrow> lock_inv (gone pid w)"
  unfolding lock_inv_def gone_def by (simp split: if_splits)

lemma lock_inv_step: "serial_step w w' \<Longrightarrow> lock_inv w \<Longrightarrow> lock_inv w'"
proof (erule serial_stepE, goal_cases)
  case (1 pid)
  let ?w1 = "w\<lparr>lw_instances := (lw_instances w)(pid \<mapsto> Starting)\<rparr>"
  show ?case
  proof (cases "lock_taken ?w1")
    case True
    then show ?thesis using 1 by (simp add: lock_inv_def acquireLockPIDFile_def gone_def)
  next
    case False
    have "lw_instances w q = None" for q
    proof (rule ccontr)
      assume "lw_instances w q \<noteq> None"
      then have "lw_file w = Some (show_int q)" "0 < q" "q < 2 ^ 31" "lw_instances ?w1 q \<noteq> None" using 1(1) by (auto simp: lock_inv_def)
      then show False using False Atoi_show_int [of q] by (simp add: lock_taken_def pid_alive_def)
    qed
    then show ?thesis using 1 False by (auto simp: lock_inv_def acquireLockPIDFile_def write_pid_def)
  qed
next
  case (2 pid)
  then have "lw_instances w q = None" if "q \<noteq> pid" for q
    using that 2 lock_inv_one [of w q _ pid Holding] by (cases "lw_instances w q") auto
  then show ?case using 2 by (auto simp: lock_inv_def gone_def)
next
  case (3 pid)
  then show ?case using lock_inv_gone by simp
qed

lemma serial_inv: "serial_reachable w0 w \<Longrightarrow> lock_fresh w0 \<Longrightarrow> lock_inv w"
  by (induction rule: serial_reachable.induct) (simp add: lock_fresh_def lock_inv_def, blast intro: lock_inv_step)

section \<open>Single instances\<close>

text \<open>Were looking and writing one step, at most one instance would hold the lock at any time, also after crashes.\<close>

theorem serial_lock_exclusive:
  assumes "lock_fresh w0" and "serial_reachable w0 w" and "lw_instances w p = Some Holding" and "lw_instances w q = Some Holding"
  shows "p = q"
proof -
  have "lock_inv w" using serial_inv assms(1,2) by blast
  then show ?thesis using assms(3,4) by (rule lock_inv_one)
qed

text \<open>C39: As it is, two instances started at the same time both go on; when one of them ends it removes the file of the other,
  so that a third may join.\<close>

theorem lock_race:
  assumes "lock_fresh w0" and "lw_file w0 = None" and "distinct [p, q, r]" and "{p, q, r} \<inter> lw_other w0 = {}" and "{p, q, r} \<subseteq> {1..<2 ^ 31}"
  shows "\<exists>w1 w2 w3. lock_reachable w0 w1 \<and> lw_instances w1 p = Some Holding \<and> lw_instances w1 q = Some Holding
    \<and> lock_step w1 w2 \<and> lw_instances w2 p = None \<and> lw_instances w2 q = Some Holding \<and> \<not> lock_taken w2
    \<and> lock_reachable w2 w3 \<and> lw_instances w3 q = Some Holding \<and> lw_instances w3 r = Some Holding"
proof -
  let ?i = "\<lambda>m. w0\<lparr>lw_instances := m\<rparr>"
  have e: "lw_instances w0 = Map.empty" using assms(1) by (simp add: lock_fresh_def)
  have t: "\<not> lock_taken (?i m)" for m using assms(2) by (simp add: lock_taken_def)
  let ?w1 = "w0\<lparr>lw_file := Some (show_int q), lw_instances := [p \<mapsto> Holding, q \<mapsto> Holding]\<rparr>"
  have "lock_step w0 (?i [p \<mapsto> Starting])" using launched [of w0 p] assms(4,5) e by (simp add: pid_alive_def)
  moreover have "lock_step (?i [p \<mapsto> Starting]) (?i [p \<mapsto> Starting, q \<mapsto> Starting])"
    using launched [of "?i [p \<mapsto> Starting]" q] assms(3-5) by (simp add: pid_alive_def)
  moreover have "lock_step (?i [p \<mapsto> Starting, q \<mapsto> Starting]) (?i [p \<mapsto> SawFree, q \<mapsto> Starting])"
    using saw_free [OF _ t, of "[p \<mapsto> Starting, q \<mapsto> Starting]" p] assms(3) by (simp add: fun_upd_twist)
  moreover have "lock_step (?i [p \<mapsto> SawFree, q \<mapsto> Starting]) (?i [p \<mapsto> SawFree, q \<mapsto> SawFree])"
    using saw_free [OF _ t, of "[p \<mapsto> SawFree, q \<mapsto> Starting]" q] by simp
  moreover have "lock_step (?i [p \<mapsto> SawFree, q \<mapsto> SawFree]) (w0\<lparr>lw_file := Some (show_int p), lw_instances := [p \<mapsto> Holding, q \<mapsto> SawFree]\<rparr>)"
    using wrote [of "?i [p \<mapsto> SawFree, q \<mapsto> SawFree]" p] assms(3) by (simp add: write_pid_def fun_upd_twist)
  moreover have "lock_step (w0\<lparr>lw_file := Some (show_int p), lw_instances := [p \<mapsto> Holding, q \<mapsto> SawFree]\<rparr>) ?w1"
    using wrote [of "w0\<lparr>lw_file := Some (show_int p), lw_instances := [p \<mapsto> Holding, q \<mapsto> SawFree]\<rparr>" q] by (simp add: write_pid_def)
  ultimately have r1: "lock_reachable w0 ?w1" by (meson lock_refl lock_trans)
  let ?w2 = "(gone p ?w1)\<lparr>lw_file := None\<rparr>"
  have s2: "lock_step ?w1 ?w2" using assms(3) by (intro ended) simp
  have i2: "lw_instances ?w2 = [q \<mapsto> Holding]" using assms(3) by (auto simp: gone_def)
  have "serial_step ?w2 (snd (acquireLockPIDFile r (?w2\<lparr>lw_instances := (lw_instances ?w2)(r \<mapsto> Starting)\<rparr>)))"
    using assms(3-5) i2 by (intro serial_start) (auto simp: pid_alive_def gone_def)
  then have r3: "lock_reachable ?w2 (snd (acquireLockPIDFile r (?w2\<lparr>lw_instances := (lw_instances ?w2)(r \<mapsto> Starting)\<rparr>)))"
    by (rule lock_steps) (rule lock_refl)
  have "lw_instances (snd (acquireLockPIDFile r (?w2\<lparr>lw_instances := (lw_instances ?w2)(r \<mapsto> Starting)\<rparr>))) = [q \<mapsto> Holding, r \<mapsto> Holding]"
    using i2 by (simp add: acquireLockPIDFile_def lock_taken_def write_pid_def)
  moreover have "\<not> lock_taken ?w2" by (simp add: lock_taken_def)
  ultimately show ?thesis using r1 s2 r3 i2 assms(3)
    by (intro exI [of _ ?w1] exI [of _ ?w2] exI [of _ "snd (acquireLockPIDFile r (?w2\<lparr>lw_instances := (lw_instances ?w2)(r \<mapsto> Starting)\<rparr>))"] conjI) auto
qed

text \<open>After a crash the file stays; if another process has its number since, no instance starts.\<close>

theorem reused_pid_blocks_start:
  assumes "lw_file w = Some (show_int old)" and "0 < old" and "old < 2 ^ 31" and "old \<in> lw_other w"
  shows "fst (acquireLockPIDFile pid w) = False"
  using assms Atoi_show_int [of old] by (simp add: acquireLockPIDFile_def lock_taken_def pid_alive_def)

section \<open>Reconciliation of the status\<close>

definition ReconcileStartupState :: "io_env \<Rightarrow> awg_cli \<Rightarrow> manager \<Rightarrow> manager" where
  "ReconcileStartupState io awg m =
     (let cfg = live m in
      if tun_Status (cfg_Tunnel cfg) \<noteq> ''connected'' \<or> tun_InterfaceName (cfg_Tunnel cfg) = [] then m
      else if InterfaceExists awg (tun_InterfaceName (cfg_Tunnel cfg)) then m
      else snd (Manager_Update io (\<lambda>c. c\<lparr>cfg_Tunnel := (cfg_Tunnel c)\<lparr>tun_Status := ''disconnected'', tun_ConnectedAt := []\<rparr>\<rparr>) m))"

lemma update_result_indep: "fst (Manager_Update io f m) = fst (Manager_Update io g m)"
proof -
  have "fst (saveLocked io a d) = fst (saveLocked io b d)" for a b d by (simp add: saveLocked_def Let_def)
  moreover have "fst (Manager_Update io f m) = fst (saveLocked io (f (deref m (mgr_config m))) (mgr_disk m))" for f
    by (simp add: Manager_Update_def Let_def split: prod.splits option.splits)
  ultimately show ?thesis by metis
qed

text \<open>Afterwards a tunnel that counts as connected has its interface, unless it names none or the change could not be saved;
  whatever else the configuration holds is as before. A status of a connection in progress is not looked at.\<close>

theorem reconciled_status:
  assumes "manager_ok m"
  shows "manager_ok (ReconcileStartupState io awg m)
    \<and> (fst (Manager_Update io id m) = None \<longrightarrow> tun_Status (cfg_Tunnel (live (ReconcileStartupState io awg m))) = ''connected''
         \<longrightarrow> tun_InterfaceName (cfg_Tunnel (live m)) = [] \<or> InterfaceExists awg (tun_InterfaceName (cfg_Tunnel (live m))))
    \<and> (live (ReconcileStartupState io awg m))\<lparr>cfg_Tunnel := (cfg_Tunnel (live (ReconcileStartupState io awg m)))\<lparr>tun_Status := a, tun_ConnectedAt := b\<rparr>\<rparr>
       = (live m)\<lparr>cfg_Tunnel := (cfg_Tunnel (live m))\<lparr>tun_Status := a, tun_ConnectedAt := b\<rparr>\<rparr>
    \<and> (tun_Status (cfg_Tunnel (live m)) \<noteq> ''connected'' \<longrightarrow> ReconcileStartupState io awg m = m)"
proof (cases "tun_Status (cfg_Tunnel (live m)) \<noteq> ''connected'' \<or> tun_InterfaceName (cfg_Tunnel (live m)) = [] \<or> InterfaceExists awg (tun_InterfaceName (cfg_Tunnel (live m)))")
  case True
  then show ?thesis using assms by (auto simp: ReconcileStartupState_def Let_def)
next
  case False
  let ?fn = "\<lambda>c. c\<lparr>cfg_Tunnel := (cfg_Tunnel c)\<lparr>tun_Status := ''disconnected'', tun_ConnectedAt := []\<rparr>\<rparr>"
  obtain e m1 where u: "Manager_Update io ?fn m = (e, m1)" by (cases "Manager_Update io ?fn m") blast
  have r: "ReconcileStartupState io awg m = m1" using False u by (simp add: ReconcileStartupState_def Let_def)
  have oc: "manager_ok m1" "update_outcome ?fn m e m1" using Manager_Update_step [OF assms u] by auto
  have same: "fst (Manager_Update io id m) = None \<longleftrightarrow> e = None"
    using update_result_indep [of io id m ?fn] u by simp
  show ?thesis
  proof (cases e)
    case None
    then have "live m1 = ?fn (live m)" using oc(2) by (simp add: update_outcome_def)
    then show ?thesis using r oc(1) same None False by simp
  next
    case (Some x)
    then have "live m1 = live m" using oc(2) by (simp add: update_outcome_def)
    then show ?thesis using r oc(1) same Some False by simp
  qed
qed

section \<open>The client for commands on the server\<close>

record ('c, 'w) lazy_client =
  lz_client :: "('c, 'w) prov_client option"

definition ensureClient :: "(vps_config \<Rightarrow> ('c, 'w) prov_client option) \<Rightarrow> manager \<Rightarrow> ('c, 'w) lazy_client \<Rightarrow> ('c, 'w) prov_client option \<times> ('c, 'w) lazy_client" where
  "ensureClient new m l =
     (case lz_client l of
        Some c \<Rightarrow> (Some c, l)
      | None \<Rightarrow>
          let cfg = live m in
          if vps_Host (cfg_VPS cfg) = [] then (None, l)
          else case new (cfg_VPS cfg) of None \<Rightarrow> (None, l) | Some c \<Rightarrow> (Some c, l\<lparr>lz_client := Some c\<rparr>))"

text \<open>The client is made once: whatever the configuration says later, commands go to the first host.\<close>

theorem lazy_client_keeps_first_host:
  assumes "ensureClient (prov_NewClient join f kh w) m l = (Some c, l')" and "lz_client l = None" and "resolveSSHAlias join f (cfg_VPS (live m)) = None"
  shows "vps_Host (pv_cfg c) = vps_Host (cfg_VPS (live m)) \<and> (\<forall>new m'. ensureClient new m' l' = (Some c, l'))"
  using assms by (auto simp: ensureClient_def prov_NewClient_def Let_def split: if_splits)

section \<open>Setting up the remote API\<close>

text \<open>The answers of the system: the configuration directory, the random key and the audit file.\<close>

record setup_env =
  se_config_dir :: "string option"
  se_random :: "string option"
  se_audit_ok :: bool

definition set_jwt_key :: "string \<Rightarrow> root_config \<Rightarrow> root_config" where
  "set_jwt_key key c = c\<lparr>cfg_Daemon := (cfg_Daemon c)\<lparr>dae_JWTSigningKey := key\<rparr>\<rparr>"

text \<open>The result is the token file, the issuer and the audit file of the server.\<close>

definition setupRemoteAPI :: "io_env \<Rightarrow> setup_env \<Rightarrow> manager \<Rightarrow> (string \<times> jwt_issuer \<times> string) option \<times> manager" where
  "setupRemoteAPI io e m =
     (let cfg = live m in
      if \<not> rem_Enabled (cfg_RemoteAPI cfg) then (None, m)
      else case se_config_dir e of
        None \<Rightarrow> (None, m)
      | Some configDir \<Rightarrow>
          (case (if dae_JWTSigningKey (cfg_Daemon cfg) \<noteq> [] then (Some (dae_JWTSigningKey (cfg_Daemon cfg)), m)
                 else case GenerateJWTSigningKey (se_random e) of
                        Inl _ \<Rightarrow> (None, m)
                      | Inr key \<Rightarrow> (case Manager_Update io (set_jwt_key key) m of
                            (Some _, m1) \<Rightarrow> (None, m1) | (None, m1) \<Rightarrow> (Some key, m1))) of
             (None, m1) \<Rightarrow> (None, m1)
           | (Some jwtKey, m1) \<Rightarrow>
               (case NewJWTIssuer jwtKey of
                  Inl _ \<Rightarrow> (None, m1)
                | Inr issuer \<Rightarrow>
                    if \<not> se_audit_ok e then (None, m1)
                    else (Some (configDir @ ''/tokens.json'', issuer, configDir @ ''/audit.jsonl''), m1))))"

lemma empty_key: "std_decode [] = Some []"
  by code_simp

lemma setup_key:
  assumes "manager_ok m" and "setupRemoteAPI io e m = (Some (tokens, issuer, audit), m')"
  shows "manager_ok m' \<and> rem_Enabled (cfg_RemoteAPI (live m')) \<and> dae_JWTSigningKey (cfg_Daemon (live m')) \<noteq> []
    \<and> NewJWTIssuer (dae_JWTSigningKey (cfg_Daemon (live m'))) = Inr issuer"
proof (cases "dae_JWTSigningKey (cfg_Daemon (live m)) = []")
  case False
  then show ?thesis using assms by (auto simp: setupRemoteAPI_def Let_def split: if_splits option.splits sum.splits)
next
  case True
  then obtain key m1 where k: "GenerateJWTSigningKey (se_random e) = Inr key" "Manager_Update io (set_jwt_key key) m = (None, m1)"
      "NewJWTIssuer key = Inr issuer" "m' = m1" "rem_Enabled (cfg_RemoteAPI (live m))"
    using assms(2) by (auto simp: setupRemoteAPI_def Let_def split: if_splits option.splits sum.splits prod.splits)
  have "manager_ok m1" "live m1 = set_jwt_key key (live m)"
    using Manager_Update_step [OF assms(1) k(2)] by (auto simp: update_outcome_def)
  moreover have "key \<noteq> []"
  proof
    assume "key = []"
    then have "NewJWTIssuer key = NewJWTIssuer []" by simp
    also have "\<dots> \<noteq> Inr issuer" by (simp add: NewJWTIssuer_def empty_key)
    finally show False using k(3) by simp
  qed
  ultimately show ?thesis using k by (simp add: set_jwt_key_def)
qed

text \<open>A daemon that is restarted signs with the same key, so its sessions survive: once a set-up succeeded, every later one
  has the same issuer and leaves the configuration alone, whatever the random source says.\<close>

theorem signing_key_survives_restart:
  assumes "manager_ok m" and "setupRemoteAPI io e m = (Some (tokens, issuer, audit), m')" and "NewManager io2 uuid (mgr_disk m') = (Inr m2, d2)"
    and "se_config_dir e2 = Some dir" and "se_audit_ok e2"
  shows "setupRemoteAPI io3 e2 m2 = (Some (dir @ ''/tokens.json'', issuer, dir @ ''/audit.jsonl''), m2)"
proof -
  have s: "manager_ok m'" "rem_Enabled (cfg_RemoteAPI (live m'))" "dae_JWTSigningKey (cfg_Daemon (live m')) \<noteq> []"
      "NewJWTIssuer (dae_JWTSigningKey (cfg_Daemon (live m'))) = Inr issuer"
    using setup_key [OF assms(1,2)] by auto
  then have "target (mgr_disk m') = Holds (live m')" by (simp add: manager_ok_def)
  then have "live m2 = live m'" using assms(3) by (auto simp: NewManager_def live_def deref_def split: if_splits)
  then show ?thesis using s assms(4,5) by (simp add: setupRemoteAPI_def Let_def)
qed

section \<open>The main function\<close>

text \<open>Where the main function is: gone with a status, serving the remote API, or waiting for a signal. The answers are those
  of its calls, in their order.\<close>

datatype main_state = Exited int | InRemoteServer | WaitingForSignal

record main_env =
  me_version :: bool
  me_privileged :: bool
  me_awg_found :: bool
  me_locked :: bool
  me_config :: bool
  me_cli :: bool
  me_listen :: bool
  me_remote :: "start_outcome option"

definition main_run :: "main_env \<Rightarrow> main_state" where
  "main_run e =
     (if me_version e then Exited 0
      else if \<not> me_privileged e then Exited 1
      else if \<not> me_awg_found e then Exited 1
      else if \<not> me_locked e then Exited 1
      else if \<not> me_config e then Exited 1
      else if \<not> me_cli e then Exited 1
      else if \<not> me_listen e then Exited 1
      else case me_remote e of
             Some (ListeningTLS _ _) \<Rightarrow> InRemoteServer
           | _ \<Rightarrow> WaitingForSignal)"

text \<open>What a termination signal does: handled, the lock file is removed; before the handler is installed, the system ends the
  process.\<close>

definition terminated :: "main_state \<Rightarrow> int \<Rightarrow> lock_world \<Rightarrow> lock_world" where
  "terminated s pid w =
     (case s of
        Exited _ \<Rightarrow> w
      | InRemoteServer \<Rightarrow> gone pid w
      | WaitingForSignal \<Rightarrow> (gone pid w)\<lparr>lw_file := None\<rparr>)"

text \<open>The start of the remote API does not return while it listens, so with it the daemon never comes to handle signals: a
  termination leaves the lock file, exactly then.\<close>

theorem remote_api_prevents_shutdown:
  assumes "\<not> me_version e" and "me_privileged e" and "me_awg_found e" and "me_locked e" and "me_config e" and "me_cli e" and "me_listen e"
    and "lw_file w = Some (show_int pid)"
  shows "(lw_file (terminated (main_run e) pid w) \<noteq> None) \<longleftrightarrow> (\<exists>addr c. me_remote e = Some (ListeningTLS addr c))"
  using assms by (auto simp: main_run_def terminated_def gone_def split: option.splits start_outcome.splits)

section \<open>Witnesses\<close>

definition quiet_machine :: lock_world where
  "quiet_machine = \<lparr>lw_file = None, lw_instances = Map.empty, lw_other = {1}\<rparr>"

theorem serial_lock_exclusive_witness:
  "\<exists>w. serial_reachable quiet_machine w \<and> lw_instances w 7 = Some Holding \<and> (\<forall>q. lw_instances w q = Some Holding \<longrightarrow> 7 = q)"
proof -
  let ?w = "snd (acquireLockPIDFile 7 (quiet_machine\<lparr>lw_instances := [7 \<mapsto> Starting]\<rparr>))"
  have "serial_step quiet_machine ?w"
    using serial_start [of quiet_machine 7] by (simp add: quiet_machine_def pid_alive_def)
  then have r: "serial_reachable quiet_machine ?w" by (rule serial_trans [OF serial_refl])
  moreover have h: "lw_instances ?w 7 = Some Holding" by (simp add: quiet_machine_def acquireLockPIDFile_def lock_taken_def write_pid_def)
  moreover have "lock_fresh quiet_machine" by (simp add: lock_fresh_def quiet_machine_def)
  ultimately show ?thesis using serial_lock_exclusive [OF _ r h] by blast
qed

theorem lock_race_witness:
  "\<exists>w1. lock_reachable quiet_machine w1 \<and> lw_instances w1 7 = Some Holding \<and> lw_instances w1 8 = Some Holding"
  using lock_race [of quiet_machine 7 8 9] by (auto simp: quiet_machine_def lock_fresh_def)

theorem reused_pid_blocks_start_witness:
  "fst (acquireLockPIDFile 7 (quiet_machine\<lparr>lw_file := Some (show_int 1)\<rparr>)) = False"
  using reused_pid_blocks_start [of "quiet_machine\<lparr>lw_file := Some (show_int 1)\<rparr>" 1] by (simp add: quiet_machine_def)

definition absent_tool :: awg_cli where
  "absent_tool = \<lparr>aw_AwgPath = [], aw_GOOS = ''linux'', aw_awg = (\<lambda>_ _. None), aw_quick = (\<lambda>_. None)\<rparr>"

theorem reconciled_status_witness: "manager_ok (ReconcileStartupState io_all_ok absent_tool sample_manager)"
  using reconciled_status [of sample_manager io_all_ok absent_tool] by (simp add: sample_manager_def manager_ok_def live_def deref_def)

theorem remote_api_prevents_shutdown_witness:
  "lw_file (terminated (main_run \<lparr>me_version = False, me_privileged = True, me_awg_found = True, me_locked = True, me_config = True, me_cli = True,
      me_listen = True, me_remote = Some (ListeningTLS ''0.0.0.0:8443'' (cert_template 0 1))\<rparr>) 7 (quiet_machine\<lparr>lw_file := Some (show_int 7)\<rparr>)) \<noteq> None"
  using remote_api_prevents_shutdown [of "\<lparr>me_version = False, me_privileged = True, me_awg_found = True, me_locked = True, me_config = True, me_cli = True,
      me_listen = True, me_remote = Some (ListeningTLS ''0.0.0.0:8443'' (cert_template 0 1))\<rparr>" "quiet_machine\<lparr>lw_file := Some (show_int 7)\<rparr>" 7]
  by simp

end
