(* ===== verification/Static_Files.thy ===== *)
theory Static_Files
  imports Daemon_Api
begin

text \<open>
  The embedded frontend (\<open>daemon/static.go\<close>): which file a path names, when the index page is served instead, and
  the standard library's cleaning of paths, on which this rests. The files are given by a function that tells
  whether a name is a directory, absent where there is none; a failed reading of the index page gives a fixed text.
\<close>

section \<open>Cleaning a path\<close>

text \<open>The kept elements in reverse order, after one more element.\<close>

fun clean_step :: "bool \<Rightarrow> string \<Rightarrow> string list \<Rightarrow> string list" where
  "clean_step rooted seg out =
     (if seg = [] \<or> seg = ''.'' then out
      else if seg = ''..'' then (case out of [] \<Rightarrow> if rooted then [] else [''..''] | x # rest \<Rightarrow> if x = ''..'' then ''..'' # out else rest)
      else seg # out)"

definition clean_segments :: "bool \<Rightarrow> string list \<Rightarrow> string list" where
  "clean_segments rooted segs = rev (fold (clean_step rooted) segs [])"

definition Clean :: "string \<Rightarrow> string" where
  "Clean p =
     (let rooted = has_prefix p ''/''; out = clean_segments rooted (split_on CHR ''/'' p)
      in if rooted then CHR ''/'' # join_with ''/'' out else if out = [] then ''.'' else join_with ''/'' out)"

section \<open>The handler\<close>

datatype static_reply = StaticAsset string | IndexPage string

record static_handler =
  sh_index :: string
  sh_files :: "string \<Rightarrow> bool option"

definition newStaticHandler :: "string option \<Rightarrow> (string \<Rightarrow> bool option) \<Rightarrow> static_handler" where
  "newStaticHandler index_file files =
     \<lparr>sh_index = (case index_file of Some html \<Rightarrow> html | None \<Rightarrow> ''<!DOCTYPE html><html><body><h1>Frontend not built</h1></body></html>''),
      sh_files = files\<rparr>"

definition fileExists :: "static_handler \<Rightarrow> string \<Rightarrow> bool" where
  "fileExists h filePath = (let name = trim_prefix filePath ''/'' in if name = [] then False else sh_files h name = Some False)"

definition Static_ServeHTTP :: "static_handler \<Rightarrow> string \<Rightarrow> static_reply" where
  "Static_ServeHTTP h path =
     (let cleanPath = Clean path in
      if cleanPath \<noteq> ''/'' \<and> cleanPath \<noteq> ''/index.html'' \<and> fileExists h cleanPath then StaticAsset (trim_prefix cleanPath ''/'')
      else IndexPage (sh_index h))"

section \<open>Cleaned paths\<close>

definition plain_segment :: "string \<Rightarrow> bool" where
  "plain_segment s \<longleftrightarrow> s \<noteq> [] \<and> s \<noteq> ''.'' \<and> s \<noteq> ''..'' \<and> CHR ''/'' \<notin> set s"

lemma clean_step_plain: "list_all plain_segment out \<Longrightarrow> CHR ''/'' \<notin> set seg \<Longrightarrow> list_all plain_segment (clean_step True seg out)"
  by (cases out) (auto simp: plain_segment_def)

lemma fold_clean_plain:
  "list_all plain_segment out \<Longrightarrow> \<forall>s \<in> set segs. CHR ''/'' \<notin> set s \<Longrightarrow> list_all plain_segment (fold (clean_step True) segs out)"
  by (induction segs arbitrary: out) (auto simp: clean_step_plain simp del: clean_step.simps)

lemma clean_segments_plain: "list_all plain_segment (clean_segments True (split_on CHR ''/'' p))"
  using fold_clean_plain [of "[]" "split_on CHR ''/'' p"] split_on_parts by (fastforce simp: clean_segments_def list_all_iff)

lemma fold_clean_id: "list_all plain_segment segs \<Longrightarrow> fold (clean_step rooted) segs out = rev segs @ out"
  by (induction segs arbitrary: out) (auto simp: plain_segment_def)

lemma split_join_segments: "segs \<noteq> [] \<Longrightarrow> list_all plain_segment segs \<Longrightarrow> split_on CHR ''/'' (join_with ''/'' segs) = segs"
proof (induction segs)
  case (Cons s segs)
  then show ?case by (cases segs) (auto simp: plain_segment_def split_on_no_sep split_on_append)
qed simp

lemma clean_again: "list_all plain_segment segs \<Longrightarrow> clean_segments True (split_on CHR ''/'' (CHR ''/'' # join_with ''/'' segs)) = segs"
  by (cases "segs = []") (simp_all add: clean_segments_def split_join_segments fold_clean_id)

lemma Clean_rooted: "Clean (CHR ''/'' # q) = CHR ''/'' # join_with ''/'' (clean_segments True (split_on CHR ''/'' (CHR ''/'' # q)))"
  by (simp add: Clean_def has_prefix_def)

text \<open>Cleaning a rooted path twice is cleaning it once; of the result no element is empty, a dot or two dots, so the name
  that is looked up never leads out of the tree; and a path whose elements are such already is left alone.\<close>

theorem Clean_normalises:
  "Clean (Clean (CHR ''/'' # q)) = Clean (CHR ''/'' # q)
   \<and> (\<exists>segs. list_all plain_segment segs \<and> Clean (CHR ''/'' # q) = CHR ''/'' # join_with ''/'' segs)
   \<and> (\<forall>segs. list_all plain_segment segs \<longrightarrow> Clean (CHR ''/'' # join_with ''/'' segs) = CHR ''/'' # join_with ''/'' segs)"
  using clean_segments_plain [of "CHR ''/'' # q"] by (auto simp: Clean_rooted clean_again simp del: split_on.simps)

section \<open>What is served\<close>

text \<open>A file is served exactly when the cleaned path names one that is not a directory, other than the index page, and its
  name stays inside the tree; every other path, one under a directory of missing files too, gets the index page as a
  success.\<close>

theorem static_serves_exactly:
  "(Static_ServeHTTP h (CHR ''/'' # q) = StaticAsset name \<longleftrightarrow>
      Clean (CHR ''/'' # q) = CHR ''/'' # name \<and> name \<noteq> [] \<and> name \<noteq> ''index.html'' \<and> sh_files h name = Some False)
   \<and> (Static_ServeHTTP h (CHR ''/'' # q) = StaticAsset name \<longrightarrow> (\<forall>seg \<in> set (split_on CHR ''/'' name). plain_segment seg))
   \<and> (sh_files h name \<noteq> Some False \<longrightarrow> Clean (CHR ''/'' # q) = CHR ''/'' # name \<longrightarrow> Static_ServeHTTP h (CHR ''/'' # q) = IndexPage (sh_index h))"
proof -
  have c: "\<exists>n. Clean (CHR ''/'' # q) = CHR ''/'' # n" by (simp add: Clean_rooted)
  have "Static_ServeHTTP h (CHR ''/'' # q) = StaticAsset name \<longleftrightarrow>
      Clean (CHR ''/'' # q) = CHR ''/'' # name \<and> name \<noteq> [] \<and> name \<noteq> ''index.html'' \<and> sh_files h name = Some False"
    using c by (auto simp: Static_ServeHTTP_def fileExists_def trim_prefix_def has_prefix_def Let_def)
  moreover have "\<forall>seg \<in> set (split_on CHR ''/'' name). plain_segment seg" if n: "Clean (CHR ''/'' # q) = CHR ''/'' # name" "name \<noteq> []"
  proof -
    let ?segs = "clean_segments True (split_on CHR ''/'' (CHR ''/'' # q))"
    have "name = join_with ''/'' ?segs" using n by (simp add: Clean_rooted)
    then show ?thesis using n(2) clean_segments_plain [of "CHR ''/'' # q"] split_join_segments [of ?segs]
      by (cases "?segs = []") (auto simp: list_all_iff)
  qed
  ultimately show ?thesis by (auto simp: Static_ServeHTTP_def fileExists_def trim_prefix_def has_prefix_def Let_def)
qed

text \<open>Requests that differ only by what cleaning removes are answered alike.\<close>

theorem static_depends_on_clean_path: "Clean p = Clean q \<Longrightarrow> Static_ServeHTTP h p = Static_ServeHTTP h q"
  by (simp add: Static_ServeHTTP_def)

text \<open>The two halves of the server: a path under \<open>/api/\<close> never reaches the files, \<open>/api\<close> itself does.\<close>

theorem api_paths_reach_no_file:
  "rootHandler (''/api/'' @ rest) = ApiMux \<and> rootHandler ''/api'' = StaticFiles \<and> rootHandler (''//api/'' @ rest) = StaticFiles"
  by (simp add: rootHandler_def)

section \<open>Witness\<close>

theorem static_depends_on_clean_path_witness:
  "Static_ServeHTTP h ''/assets/../assets//app.js'' = Static_ServeHTTP h ''/assets/app.js''"
  by (rule static_depends_on_clean_path) code_simp

end
