(* ===== verification/Daemon_Wiring.thy ===== *)
theory Daemon_Wiring
  imports Wizard_Safety Invite_Handlers Routes_Expose
begin

text \<open>
  What the daemon puts together for the wizard (\<open>daemon/api_wizard.go\<close>) and its status endpoint (\<open>daemon/api_status.go\<close>): the
  pool behind the wizard's connections, the secret behind the invitations, and the addresses. The steps of the
  wizard that runs in the daemon are those of its handlers with this pool.
\<close>

section \<open>The wizard's parts\<close>

definition wizardDataDir :: "string option \<Rightarrow> string option" where
  "wizardDataDir config_dir = map_option (\<lambda>d. d @ ''/wizard'') config_dir"

definition daemonSSHPool_Connect :: "ssh_input \<Rightarrow> string + ssh_session" where
  "daemonSSHPool_Connect cfg = Inl ''wizard SSH pool: not yet implemented''"

definition daemon_secret :: "root_config \<Rightarrow> string" where
  "daemon_secret cfg = (if cfg_UIToken cfg = [] then ''default-daemon-secret'' else cfg_UIToken cfg)"

record wizard_wiring =
  wr_dataDir :: string
  wr_wizard :: wiz_deps
  wr_invites :: "invite_handler option"
  wr_routes :: expose_handler

text \<open>\<open>file\<close> is the text of the invitations' file, absent when it cannot be opened.\<close>

definition RegisterWizardRoutes :: "string option \<Rightarrow> resolver \<Rightarrow> parse_float \<Rightarrow> invite_params \<Rightarrow> string option \<Rightarrow> bool option \<Rightarrow> root_config \<Rightarrow> wizard_wiring" where
  "RegisterWizardRoutes config_dir res pfloat p invite_file tunnelMgr cfg =
     (let dataDir = (case wizardDataDir config_dir of Some d \<Rightarrow> d | None \<Rightarrow> ''wizard'');
          vpsIP = (if vps_Host (cfg_VPS cfg) \<noteq> [] then resolveVPSPublicIP res (vps_Host (cfg_VPS cfg)) else []);
          store = (case invite_file of None \<Rightarrow> None | Some f \<Rightarrow> (case NewInviteStore (ip_codec p) f of Inl _ \<Rightarrow> None | Inr st \<Rightarrow> Some st))
      in \<lparr>wr_dataDir = dataDir,
          wr_wizard = \<lparr>wd_Resolver = res, wd_vpsIP = vpsIP, wd_Connect = daemonSSHPool_Connect, wd_ParseFloat = pfloat\<rparr>,
          wr_invites = map_option (\<lambda>st. NewHandler p st (daemon_secret cfg)) store,
          wr_routes = routesHandler res tunnelMgr cfg\<rparr>)"

section \<open>The wizard in the daemon\<close>

inductive daemon_wiz_step :: "wizard_wiring \<Rightarrow> wiz_sys \<Rightarrow> wiz_sys \<Rightarrow> bool" for wr where
  D_Create: "uuidPattern uuid \<Longrightarrow> handleCreateSession io uuid now (sys_disk y) = (r, d) \<Longrightarrow> daemon_wiz_step wr y (y\<lparr>sys_disk := d\<rparr>)"
| D_Submit: "handleStepSubmit (wr_wizard wr) io now i st body (sys_disk y) = (r, d) \<Longrightarrow> daemon_wiz_step wr y (y\<lparr>sys_disk := d\<rparr>)"
| D_Preflight: "handlePreflight (wr_wizard wr) io now i (sys_disk y) = (r, d) \<Longrightarrow> daemon_wiz_step wr y (y\<lparr>sys_disk := d\<rparr>)"
| D_Delete: "handleDeleteSession w now i (sys_disk y) = (r, d) \<Longrightarrow> daemon_wiz_step wr y (y\<lparr>sys_disk := d\<rparr>)"
| D_Commit: "handleCommit io now i y = (r, y') \<Longrightarrow> daemon_wiz_step wr y y'"
| D_Boot: "sys_running y = xs @ s # zs \<Longrightarrow> runBootstrap bd io now s (sys_disk y) = (e, d) \<Longrightarrow> daemon_wiz_step wr y (y\<lparr>sys_disk := d, sys_running := xs @ zs\<rparr>)"

inductive daemon_wiz_reach :: "wizard_wiring \<Rightarrow> wiz_sys \<Rightarrow> bool" for wr where
  D_Start: "daemon_wiz_reach wr \<lparr>sys_disk = \<lparr>target = NoFile, strays = 0\<rparr>, sys_running = []\<rparr>"
| D_Step: "daemon_wiz_reach wr y \<Longrightarrow> daemon_wiz_step wr y y' \<Longrightarrow> daemon_wiz_reach wr y'"

inductive_cases daemon_wiz_stepE: "daemon_wiz_step wr y y'"

text \<open>These runs are runs of the wizard, so what holds of it in general holds here.\<close>

lemma daemon_wiz_is_wiz: "daemon_wiz_reach wr y \<Longrightarrow> wiz_reach y"
proof (induction rule: daemon_wiz_reach.induct)
  case (D_Step y y')
  from D_Step(2) have "wiz_step y y'" by (rule daemon_wiz_stepE) (auto intro: wiz_step.intros)
  then show ?case using D_Step(3) wiz_reach.Step by blast
qed (rule wiz_reach.Start)

definition early_step :: "wizard_step \<Rightarrow> bool" where
  "early_step st \<longleftrightarrow> st = StepWelcome \<or> st = StepSSH \<or> st = StepPreflight"

definition early_disk :: "wizard_state disk \<Rightarrow> bool" where
  "early_disk d \<longleftrightarrow> (\<forall>s. target d = Holds s \<longrightarrow> early_step (ws_CurrentStep s))"

lemma early_save: "early_disk d \<Longrightarrow> early_step (ws_CurrentStep u) \<Longrightarrow> SaveState io now u d = (r, d1) \<Longrightarrow> early_disk d1"
  using wizard_file.save_old_or_new [of io "u\<lparr>ws_LastSavedAt := now\<rparr>" d] by (auto simp: early_disk_def SaveState_def)

lemma early_load: "early_disk d \<Longrightarrow> LoadState d = Inr (Some s) \<Longrightarrow> early_step (ws_CurrentStep s)"
  by (auto simp: early_disk_def LoadState_def split: stored.splits if_splits)

lemma early_create: "early_disk d \<Longrightarrow> handleCreateSession io uuid now d = (r, d1) \<Longrightarrow> early_disk d1"
  using early_save [of d "NewState uuid now" io now]
  by (auto simp: handleCreateSession_def NewState_def early_step_def split: sum.splits option.splits prod.splits)

lemma early_submit:
  assumes "early_disk d" and "handleStepSubmit deps io now i st body d = (r, d1)"
  shows "early_disk d1"
proof (cases "d1 = d")
  case False
  obtain s s1 s2 n u r' where s: "LoadState d = Inr (Some s)" "ws_CurrentStep s = step_of_string st"
      "applyStepInput (step_of_string st) body s = Some s1" "s2 = (if step_of_string st = StepDomainCheck then run_domain_check deps now s1 else s1)"
      "resolveNextStep s2 (step_of_string st) = Some n" "Reducer now (ActionStepComplete n) (Some s2) = Inr u" "SaveState io now u d = (r', d1)"
    using assms(2) False
    by (auto simp: handleStepSubmit_def Let_def simp del: Reducer.simps split: sum.splits option.splits if_splits prod.splits)
  have "early_step (step_of_string st)" using early_load [OF assms(1) s(1)] s(2) by simp
  moreover have "step_of_string st \<noteq> StepPreflight" using s(3) by (auto simp: applyStepInput_def)
  ultimately have "early_step n" using s(5) by (auto simp: early_step_def resolveNextStep_def)
  moreover have "ws_CurrentStep u = n" using s(6) by (auto simp: handleStepComplete_def goto_step_def split: if_splits)
  ultimately show ?thesis using early_save [OF assms(1) _ s(7)] by simp
qed (use assms in simp)

lemma early_preflight: "handlePreflight (wr_wizard wr) io now i d = (r, d1) \<Longrightarrow> wd_Connect (wr_wizard wr) = daemonSSHPool_Connect \<Longrightarrow> d1 = d"
  by (auto simp: handlePreflight_def daemonSSHPool_Connect_def split: sum.splits option.splits if_splits)

lemma early_delete: "early_disk d \<Longrightarrow> handleDeleteSession w now i d = (r, d1) \<Longrightarrow> early_disk d1"
  by (auto simp: handleDeleteSession_def handleAbandon_def DeleteState_def early_disk_def Let_def split: sum.splits option.splits if_splits)

lemma early_commit: "early_disk (sys_disk y) \<Longrightarrow> handleCommit io now i y = (r, y') \<Longrightarrow> y' = y"
  by (auto simp: handleCommit_def Let_def early_step_def dest!: early_load simp del: Reducer.simps split: sum.splits option.splits if_splits prod.splits)

text \<open>C35: In the daemon the wizard never gets past the preflight and never starts a commit: its pool refuses every connection. This
  holds in every reachable state, whatever the requests, and every preflight of a session that has reached
  that step is answered with an error.\<close>

theorem wizard_stuck_at_preflight:
  assumes "daemon_wiz_reach (RegisterWizardRoutes config_dir res pfloat p invite_file mgr cfg) y"
  shows "early_disk (sys_disk y) \<and> sys_running y = []
    \<and> (\<forall>io now i. \<not> succeeded (fst (handlePreflight (wr_wizard (RegisterWizardRoutes config_dir res pfloat p invite_file mgr cfg)) io now i (sys_disk y))))"
proof -
  let ?wr = "RegisterWizardRoutes config_dir res pfloat p invite_file mgr cfg"
  have w: "wd_Connect (wr_wizard ?wr) = daemonSSHPool_Connect" by (simp add: RegisterWizardRoutes_def Let_def)
  have "early_disk (sys_disk y) \<and> sys_running y = []" using assms
  proof (induction rule: daemon_wiz_reach.induct)
    case D_Start
    show ?case by (simp add: early_disk_def)
  next
    case (D_Step y y')
    from D_Step(2) show ?case
      by (rule daemon_wiz_stepE) (use D_Step(3) w in \<open>auto dest: early_create early_submit early_preflight early_delete early_commit\<close>)
  qed
  moreover have "\<not> succeeded (fst (handlePreflight (wr_wizard ?wr) io now i (sys_disk y)))" for io now i
    by (auto simp: handlePreflight_def w daemonSSHPool_Connect_def split: sum.splits option.splits)
  ultimately show ?thesis by blast
qed

section \<open>The secret of the invitations\<close>

text \<open>A daemon whose UI token is empty signs with a key that everyone can derive: a signature that is made from the published
  text alone is accepted for any token, peer and expiry; and what such a daemon encrypts, the same text decrypts.\<close>

theorem default_secret_forgeable:
  assumes "cfg_UIToken cfg = []" and "wr_invites (RegisterWizardRoutes config_dir res pfloat p invite_file mgr cfg) = Some h"
    and "lr_sig r = hex_encode (SignURL (ip_hmac p) (lr_token r) (lr_peerId r) (ip_sscan p (lr_expires r)) (DeriveKey (ip_aead p) ''default-daemon-secret-hmac''))"
  shows "signature_acceptable p h r
    \<and> (\<forall>nonce text blob. (\<forall>k n t. gcm_open (ip_aead p) k n (gcm_seal (ip_aead p) k n t) = Some t) \<and> length nonce = nonceSize
         \<and> EncryptConfig (ip_aead p) (Some nonce) text (ih_encKey h) = Inr blob
         \<longrightarrow> DecryptConfig (ip_aead p) blob (DeriveKey (ip_aead p) ''default-daemon-secret'') = Inr text)"
proof -
  have k: "ih_hmacKey h = DeriveKey (ip_aead p) ''default-daemon-secret-hmac''" "ih_encKey h = DeriveKey (ip_aead p) ''default-daemon-secret''"
    using assms(1,2) by (auto simp: RegisterWizardRoutes_def NewHandler_def daemon_secret_def Let_def split: option.splits sum.splits)
  have "signature_acceptable p h r" using assms(3) k(1) by (simp add: signature_acceptable_def ValidateURL_def)
  then show ?thesis by (auto simp: EncryptConfig_def DecryptConfig_def k(2) nonceSize_def split: if_splits)
qed

section \<open>The status endpoint\<close>

record status_response =
  sr_TunnelStatus :: string
  sr_ConnectedAt :: string
  sr_Host :: string
  sr_Ports :: "(string \<times> string \<times> int \<times> string) list"

definition handleStatus :: "(unit \<Rightarrow> string) option \<Rightarrow> root_config \<Rightarrow> status_response" where
  "handleStatus tunnelStatusFn cfg =
     \<lparr>sr_TunnelStatus = (case tunnelStatusFn of Some fn \<Rightarrow> fn () | None \<Rightarrow> []), sr_ConnectedAt = [], sr_Host = vps_Host (cfg_VPS cfg), sr_Ports = []\<rparr>"

text \<open>The answer says nothing about the exposed ports nor since when the tunnel is connected.\<close>

theorem status_reports_no_ports:
  "handleStatus fn (cfg\<lparr>cfg_ExposedPorts := ports, cfg_Tunnel := tun\<rparr>) = handleStatus fn cfg \<and> sr_Ports (handleStatus fn cfg) = [] \<and> sr_ConnectedAt (handleStatus fn cfg) = []"
  by (simp add: handleStatus_def)

section \<open>Witnesses\<close>

abbreviation sample_wiring :: wizard_wiring where
  "sample_wiring \<equiv> RegisterWizardRoutes None (wd_Resolver sample_deps_w) (\<lambda>_. None) (sample_params link_codec) (Some []) None zero_config"

theorem wizard_stuck_at_preflight_witness:
  "\<exists>y s. daemon_wiz_reach sample_wiring y \<and> target (sys_disk y) = Holds s \<and> ws_CurrentStep s = StepWelcome \<and> early_disk (sys_disk y)"
proof -
  have "daemon_wiz_step sample_wiring \<lparr>sys_disk = \<lparr>target = NoFile, strays = 0\<rparr>, sys_running = []\<rparr>
      (\<lparr>sys_disk = \<lparr>target = NoFile, strays = 0\<rparr>, sys_running = []\<rparr>\<lparr>sys_disk := \<lparr>target = Holds (NewState sample_uuid ''t''), strays = 0\<rparr>\<rparr>)"
    by (rule D_Create [OF sample_uuid_ok, of io_all_ok "''t''"])
      (auto simp: handleCreateSession_def LoadState_def SaveState_all_ok NewState_def)
  then have r: "daemon_wiz_reach sample_wiring (\<lparr>sys_disk = \<lparr>target = NoFile, strays = 0\<rparr>, sys_running = []\<rparr>\<lparr>sys_disk := \<lparr>target = Holds (NewState sample_uuid ''t''), strays = 0\<rparr>\<rparr>)"
    by (rule D_Step [OF D_Start])
  show ?thesis using wizard_stuck_at_preflight [OF r] r by (auto simp: NewState_def)
qed

theorem default_secret_forgeable_witness:
  "\<exists>h. wr_invites sample_wiring = Some h \<and> signature_acceptable (sample_params link_codec) h
     \<lparr>lr_peerId = ''mallory'', lr_XForwardedFor = [], lr_RemoteAddr = ''10.0.0.9:4000'', lr_token = ''t'', lr_expires = show_int 3600,
      lr_sig = hex_encode (SignURL (ip_hmac (sample_params link_codec)) ''t'' ''mallory'' 3600 (DeriveKey (ip_aead (sample_params link_codec)) ''default-daemon-secret-hmac'')), lr_code = []\<rparr>"
proof -
  have "scan_text maxLine [] = ([], False)" by (simp add: scan_text_def raw_lines_def Let_def)
  then have "NewInviteStore c [] = Inr \<lparr>st_file = [], st_open = True, st_index = (\<lambda>_. None)\<rparr>" for c
    by (simp add: NewInviteStore_def buildIndex_def)
  then obtain h where h: "wr_invites sample_wiring = Some h" by (simp add: RegisterWizardRoutes_def Let_def)
  have "cfg_UIToken zero_config = []" by (simp add: zero_config_def)
  moreover have "ip_sscan (sample_params link_codec) (show_int 3600) = 3600" by (simp add: sample_params_def)
  ultimately show ?thesis using default_secret_forgeable [OF _ h] h by simp
qed

end
