(* ===== verification/Probe_Transports.thy ===== *)
theory Probe_Transports
  imports Health Remote_Api
begin

text \<open>
  The two ways in which the health prober looks for the server (\<open>lifecycle/health/prober.go\<close>): a raw socket to the host of
  the ICMP target and an HTTP request. The network is a parameter: which hosts a raw socket can be connected to,
  which needs a name that resolves and the privilege but no packet, and the status that a request for a URL is answered
  with, absent when there is no answer or no request can be made.
\<close>

record network =
  net_raw :: "string \<Rightarrow> bool"
  net_get :: "string \<Rightarrow> int option"

text \<open>The timeout is filled in at the first use.\<close>

definition icmp_timeout :: "duration \<Rightarrow> duration" where
  "icmp_timeout timeout = (if timeout = 0 then 3 * second else timeout)"

definition icmp_host :: "string \<Rightarrow> string" where
  "icmp_host addr = (case SplitHostPort addr of Some (host, _) \<Rightarrow> host | None \<Rightarrow> addr)"

definition ICMP_Probe :: "network \<Rightarrow> string \<Rightarrow> string option" where
  "ICMP_Probe net addr = (if net_raw net (icmp_host addr) then None else Some ''ICMP ping failed'')"

definition http_url :: "string \<Rightarrow> string" where
  "http_url addr = (if length addr > 0 \<and> hd addr \<noteq> CHR ''h'' then ''http://'' @ addr else addr)"

definition HTTP_Probe :: "network \<Rightarrow> string \<Rightarrow> string option" where
  "HTTP_Probe net addr =
     (case net_get net (http_url addr) of
        None \<Rightarrow> Some ''HTTP probe failed''
      | Some status \<Rightarrow> if status \<ge> 500 then Some (''HTTP probe: server error '' @ show_int status) else None)"

text \<open>What a probe of this prober finds; the second transport is only asked when the first fails.\<close>

definition probe_network :: "network \<Rightarrow> prober_config \<Rightarrow> instant \<Rightarrow> duration \<Rightarrow> health_snapshot" where
  "probe_network net cfg start took =
     probe \<lparr>pe_start = start, pe_icmp = ICMP_Probe net (pc_ICMPTarget cfg), pe_http = HTTP_Probe net (pc_HTTPTarget cfg), pe_took = took\<rparr>"

lemma probe_reachable_iff: "hs_VPSReachable (probe e) \<longleftrightarrow> pe_icmp e = None \<or> pe_http e = None"
  by (simp add: probe_def Let_def split: option.splits)

text \<open>A server counts as reachable exactly when a raw socket to its host can be opened, or an HTTP request is answered by
  anything below 500.\<close>

theorem probed_reachable_iff:
  "hs_VPSReachable (probe_network net cfg start took)
     \<longleftrightarrow> net_raw net (icmp_host (pc_ICMPTarget cfg)) \<or> (\<exists>status < 500. net_get net (http_url (pc_HTTPTarget cfg)) = Some status)"
  by (auto simp: probe_network_def probe_reachable_iff ICMP_Probe_def HTTP_Probe_def split: option.splits)

text \<open>The loop of the prober: it ticks until its context is done, one probe for each tick.\<close>

fun prober_run :: "(network \<times> instant \<times> duration) list \<Rightarrow> prober \<Rightarrow> bool list \<times> prober" where
  "prober_run [] p = ([], p\<lparr>pr_running := False\<rparr>)"
| "prober_run ((net, start, took) # ticks) p =
     (case processSnapshot (probe_network net (pr_cfg p) start took) p of
        (t, p1) \<Rightarrow> (case prober_run ticks p1 of (ts, p2) \<Rightarrow> (t # ts, p2)))"

definition Prober_Run :: "(network \<times> instant \<times> duration) list \<Rightarrow> prober \<Rightarrow> bool list \<times> prober" where
  "Prober_Run ticks p = prober_run ticks (p\<lparr>pr_running := True\<rparr>)"

lemma processSnapshot_cfg: "pr_cfg (snd (processSnapshot snap p)) = pr_cfg p"
  by (simp add: processSnapshot_def Let_def)

lemma prober_run_probe_all:
  "fst (prober_run ticks p) = fst (probe_all (map (\<lambda>(net, start, took). probe_network net (pr_cfg p) start took) ticks) p)"
proof (induction ticks arbitrary: p)
  case (Cons tick ticks)
  obtain net start took where t: "tick = (net, start, took)" by (rule prod_cases3)
  obtain t p1 where s: "processSnapshot (probe_network net (pr_cfg p) start took) p = (t, p1)" by (cases "processSnapshot (probe_network net (pr_cfg p) start took) p")
  have "pr_cfg p1 = pr_cfg p" using processSnapshot_cfg [of "probe_network net (pr_cfg p) start took" p] s by simp
  then show ?case using Cons.IH [of p1] t s by (simp add: case_prod_beta)
qed simp

lemma probe_all_running: "fst (probe_all snaps (p\<lparr>pr_running := b\<rparr>)) = fst (probe_all snaps p)"
proof (induction snaps arbitrary: p)
  case (Cons s snaps)
  have "processSnapshot s (p\<lparr>pr_running := b\<rparr>) = (fst (processSnapshot s p), (snd (processSnapshot s p))\<lparr>pr_running := b\<rparr>)"
    by (simp add: processSnapshot_def Let_def)
  then show ?case using Cons.IH [of "snd (processSnapshot s p)"] by (simp add: case_prod_beta)
qed simp

lemma probe_all_answers: "length (fst (probe_all snaps p)) = length snaps"
  by (induction snaps arbitrary: p) (simp_all add: case_prod_beta)

text \<open>As long as a raw socket to the host can be opened, which says nothing about the server, no reconnection is ever triggered,
  whatever the HTTP requests are answered with.\<close>

theorem raw_socket_hides_outage:
  assumes "0 < pc_FailureThreshold (pr_cfg (NewProber cfg))" and "\<forall>(net, start, took) \<in> set ticks. net_raw net (icmp_host (pc_ICMPTarget cfg))"
  shows "True \<notin> set (fst (Prober_Run ticks (NewProber cfg)))"
proof -
  let ?snaps = "map (\<lambda>(net, start, took). probe_network net (pr_cfg (NewProber cfg)) start took) ticks"
  have c: "pc_ICMPTarget (pr_cfg (NewProber cfg)) = pc_ICMPTarget cfg" by (simp add: NewProber_def Let_def)
  have f: "fst (Prober_Run ticks (NewProber cfg)) = fst (probe_all ?snaps (NewProber cfg))"
    by (simp add: Prober_Run_def prober_run_probe_all probe_all_running)
  have r: "\<forall>s \<in> set ?snaps. hs_VPSReachable s" using assms(2) c by (auto simp: probed_reachable_iff)
  have z: "fail_run (take (Suc i) ?snaps) = 0" if "i < length ?snaps" for i
    using r that by (simp add: take_Suc_conv_app_nth)
  have "fst (probe_all ?snaps (NewProber cfg)) ! i = False" if "i < length ?snaps" for i
    using prober_triggers_iff [OF assms(1) that] z [OF that] by simp
  moreover have "length (fst (probe_all ?snaps (NewProber cfg))) = length ?snaps" by (rule probe_all_answers)
  ultimately show ?thesis unfolding f by (metis in_set_conv_nth)
qed

text \<open>A request needs a URL with a scheme. A target whose first letter is an h is taken to have one, so a host such as
  \<open>hub:2019\<close> is never asked, and every probe of it by HTTP fails.\<close>

theorem host_beginning_with_h_fails:
  assumes "\<And>url. \<not> has_prefix url ''http://'' \<Longrightarrow> \<not> has_prefix url ''https://'' \<Longrightarrow> net_get net url = None"
    and "hd addr = CHR ''h''" and "addr \<noteq> []" and "\<not> has_prefix addr ''http://''" and "\<not> has_prefix addr ''https://''"
  shows "HTTP_Probe net addr = Some ''HTTP probe failed''"
  using assms by (simp add: HTTP_Probe_def http_url_def)

section \<open>Witnesses\<close>

definition silent_network :: network where
  "silent_network = \<lparr>net_raw = (\<lambda>_. True), net_get = (\<lambda>_. None)\<rparr>"

theorem raw_socket_hides_outage_witness:
  "True \<notin> set (fst (Prober_Run [(silent_network, 0, 0), (silent_network, 1, 0), (silent_network, 2, 0), (silent_network, 3, 0)]
     (NewProber \<lparr>pc_Interval = 0, pc_FailureThreshold = 0, pc_ICMPTarget = ''203.0.113.7:51820'', pc_HTTPTarget = []\<rparr>)))"
  by (rule raw_socket_hides_outage) (simp_all add: NewProber_def silent_network_def)

theorem host_beginning_with_h_fails_witness: "HTTP_Probe silent_network ''hub:2019'' = Some ''HTTP probe failed''"
  by (rule host_beginning_with_h_fails) (simp_all add: silent_network_def has_prefix_def)

end
