(* ===== verification/Event_Streams.thy ===== *)
theory Event_Streams
  imports Observability Wizard_Handlers
begin

text \<open>
  The event loops of the two streams: that of the log (\<open>logstream/sse_handler.go\<close>) and that of the wizard
  (\<open>wizard/bootstrap.go\<close>). A loop waits for the client to leave, for an event in its subscriber's channel or for the
  heartbeat; its run is given by the order in which these come, between which the hub fills the channel or closes
  it. What is written is kept as the list of events. An event is taken out of its JSON text and put into it
  again, which is the identity up to the order of the keys.
\<close>

section \<open>The loop\<close>

datatype sse_event = SysConnected int int | WizConnected string | LogWritten log_record | SysHeartbeat string | WizDone wizard_step session_status

datatype 'x stream_input = ClientGone | TakeEvent 'x | HeartbeatTick string | FedByHub log_record | ClosedByHub

text \<open>\<open>after\<close> looks for the end of the wizard's session after an event, which ends the loop; the result tells whether the loop has returned.\<close>

fun stream_loop :: "('x \<Rightarrow> (wizard_step \<times> session_status) option) \<Rightarrow> 'x stream_input list \<Rightarrow> subscriber \<Rightarrow> sse_event list \<times> bool \<times> subscriber" where
  "stream_loop after [] s = ([], False, s)"
| "stream_loop after (ClientGone # inputs) s = ([], True, s)"
| "stream_loop after (TakeEvent x # inputs) s =
     (case su_ch s of
        [] \<Rightarrow> if su_closed s then ([], True, s) else stream_loop after inputs s
      | rec # rest \<Rightarrow>
          (case after x of
             Some (step, status) \<Rightarrow> ([LogWritten rec, WizDone step status], True, s\<lparr>su_ch := rest\<rparr>)
           | None \<Rightarrow> (case stream_loop after inputs (s\<lparr>su_ch := rest\<rparr>) of (out, r) \<Rightarrow> (LogWritten rec # out, r))))"
| "stream_loop after (HeartbeatTick ts # inputs) s = (case stream_loop after inputs s of (out, r) \<Rightarrow> (SysHeartbeat ts # out, r))"
| "stream_loop after (FedByHub rec # inputs) s = stream_loop after inputs (feed_one rec s)"
| "stream_loop after (ClosedByHub # inputs) s = stream_loop after inputs (Subscriber_Close s)"

section \<open>The two handlers\<close>

definition log_after :: "unit \<Rightarrow> (wizard_step \<times> session_status) option" where
  "log_after x = None"

definition ServeHTTP_stream :: "sse_request \<Rightarrow> unit stream_input list \<Rightarrow> hub \<Rightarrow> (int \<times> string + sse_event list) \<times> hub" where
  "ServeHTTP_stream r inputs h =
     (case ServeHTTP_open r h of
        (ErrorResponse c e, h1) \<Rightarrow> (Inl (c, e), h1)
      | (JSONResponse c sid, h1) \<Rightarrow>
          (case hb_subscribers h1 sid of
             None \<Rightarrow> (Inr [], h1)
           | Some sub \<Rightarrow>
               (case stream_loop log_after inputs sub of
                  (out, returned, s') \<Rightarrow>
                    (Inr (SysConnected sid (int (Ring_Cap (hb_ring h1))) # out), if returned then snd (Unsubscribe sid h1) else h1))))"

definition wizard_after :: "wizard_state disk \<Rightarrow> (wizard_step \<times> session_status) option" where
  "wizard_after d =
     (case LoadState d of
        Inr (Some current) \<Rightarrow>
          if ws_CurrentStep current = StepSuccess \<or> ws_CurrentStep current = StepError
          then Some (ws_CurrentStep current, ws_Status current) else None
      | _ \<Rightarrow> None)"

definition wizard_filter :: sub_filter where
  "wizard_filter = \<lparr>sf_Levels = {}, sf_Components = {''wizard'', ''bootstrap''}, sf_Sources = {}\<rparr>"

definition handleSSEEvents :: "bool \<Rightarrow> string \<Rightarrow> wizard_state disk \<Rightarrow> wizard_state disk stream_input list \<Rightarrow> hub option \<Rightarrow> (int \<times> string + sse_event list) \<times> hub option" where
  "handleSSEEvents flushable i d inputs logHub =
     (case LoadState d of
        Inr (Some state) \<Rightarrow>
          if ws_SessionID state \<noteq> i then (Inl (404, ''not_found''), logHub)
          else (case logHub of
             None \<Rightarrow> (Inl (500, ''no_log_hub''), None)
           | Some h \<Rightarrow>
               if \<not> flushable then (Inl (500, ''streaming_error''), Some h)
               else (case Subscribe wizard_filter h of
                       ((sub, _), h1) \<Rightarrow>
                         (case stream_loop wizard_after inputs sub of
                            (out, returned, s') \<Rightarrow>
                              (Inr (WizConnected i # out), Some (if returned then snd (Unsubscribe (su_id sub) h1) else h1)))))
      | _ \<Rightarrow> (Inl (404, ''not_found''), logHub))"

section \<open>What a stream delivers\<close>

definition written_logs :: "sse_event list \<Rightarrow> log_record list" where
  "written_logs out = concat (map (\<lambda>ev. case ev of LogWritten rec \<Rightarrow> [rec] | _ \<Rightarrow> []) out)"

definition fed_logs :: "'x stream_input list \<Rightarrow> log_record list" where
  "fed_logs inputs = concat (map (\<lambda>e. case e of FedByHub rec \<Rightarrow> [rec] | _ \<Rightarrow> []) inputs)"

lemma logs_simps [simp]:
  "written_logs [] = []" "written_logs (LogWritten rec # out) = rec # written_logs out" "written_logs (SysHeartbeat t # out) = written_logs out"
  "written_logs (WizDone a b # out) = written_logs out"
  "fed_logs [] = []" "fed_logs (FedByHub rec # inputs) = rec # fed_logs inputs" "fed_logs (ClientGone # inputs) = fed_logs inputs"
  "fed_logs (TakeEvent x # inputs) = fed_logs inputs" "fed_logs (HeartbeatTick t # inputs) = fed_logs inputs" "fed_logs (ClosedByHub # inputs) = fed_logs inputs"
  by (simp_all add: written_logs_def fed_logs_def)

lemma wanted_Nil [simp]: "wanted s [] = []"
  by (simp add: wanted_def)

lemma wanted_Cons: "wanted s (rec # recs) = (if marshalable rec \<and> Matches s rec then [rec] else []) @ wanted s recs"
  by (simp add: wanted_def)

lemma feed_one_same [simp]: "su_filters (feed_one rec s) = su_filters s" "su_size (feed_one rec s) = su_size s" "su_closed (feed_one rec s) = su_closed s"
  by (auto simp: feed_one_def send_def Let_def)

lemma wanted_filters: "su_filters s' = su_filters s \<Longrightarrow> wanted s' recs = wanted s recs"
  by (simp add: wanted_def Matches_def)

lemma wanted_closed [simp]: "wanted (s\<lparr>su_closed := b\<rparr>) recs = wanted s recs"
  by (rule wanted_filters) simp

lemma feed_one_channel: "subseq (su_ch (feed_one rec s)) (su_ch s @ wanted s [rec])"
  by (cases "su_ch s") (auto simp: feed_one_def send_def Let_def wanted_def)

text \<open>Whatever the order of events, what is written and what still waits is in the order in which the hub fed it, each record at
  most as often as it was fed, and all of it passes the filters of the client.\<close>

lemma stream_loop_subseq:
  "stream_loop after inputs s = (out, r, s') \<Longrightarrow> subseq (written_logs out @ su_ch s') (su_ch s @ wanted s (fed_logs inputs))"
proof (induction after inputs s arbitrary: out rule: stream_loop.induct)
  case (3 after x inputs s)
  show ?case
  proof (cases "su_ch s")
    case Nil
    then show ?thesis using 3 by (auto split: if_splits)
  next
    case (Cons rec rest)
    then show ?thesis using 3(2) [OF Cons] 3(3)
      by (cases "after x") (auto split: prod.splits simp: wanted_filters [of "s\<lparr>su_ch := rest\<rparr>" s])
  qed
next
  case (5 after rec inputs s)
  have "subseq (written_logs out @ su_ch s') (su_ch (feed_one rec s) @ wanted s (fed_logs inputs))"
    using 5 by (auto simp: wanted_filters [of "feed_one rec s" s])
  also have "subseq \<dots> ((su_ch s @ wanted s [rec]) @ wanted s (fed_logs inputs))"
    by (intro list_emb_append_mono feed_one_channel) simp
  finally show ?case by (simp add: wanted_Cons [of s rec "fed_logs inputs"] wanted_Cons [of s rec "[]"])
next
  case (6 after inputs s)
  then show ?case by (simp add: Subscriber_Close_def)
qed (auto split: prod.splits)

theorem stream_in_order:
  assumes "stream_loop after inputs s = (out, r, s')"
  shows "subseq (written_logs out) (su_ch s @ wanted s (fed_logs inputs))"
proof -
  have "subseq (written_logs out) (written_logs out @ su_ch s')" by (rule prefix_imp_subseq) simp
  then show ?thesis using stream_loop_subseq [OF assms] subseq_order.order_trans by blast
qed

text \<open>The channel of size \<open>n\<close> that holds \<open>k\<close> records never runs over: whenever the hub feeds a record that \<open>P\<close> lets
  through, there is room for it, a record being taken out at each turn of the loop that finds one.\<close>

fun never_full :: "(log_record \<Rightarrow> bool) \<Rightarrow> nat \<Rightarrow> nat \<Rightarrow> 'x stream_input list \<Rightarrow> bool" where
  "never_full P n k [] \<longleftrightarrow> True"
| "never_full P n k (TakeEvent x # inputs) \<longleftrightarrow> never_full P n (k - 1) inputs"
| "never_full P n k (FedByHub rec # inputs) \<longleftrightarrow> (if P rec then k < n \<and> never_full P n (k + 1) inputs else never_full P n k inputs)"
| "never_full P n k (ClientGone # inputs) \<longleftrightarrow> never_full P n k inputs"
| "never_full P n k (HeartbeatTick ts # inputs) \<longleftrightarrow> never_full P n k inputs"
| "never_full P n k (ClosedByHub # inputs) \<longleftrightarrow> never_full P n k inputs"

lemma stream_loop_complete:
  assumes "stream_loop after inputs s = (out, r, s')" and "open_sub s" and "\<forall>x. after x = None" and "ClientGone \<notin> set inputs" and "ClosedByHub \<notin> set inputs"
    and "never_full (\<lambda>rec. marshalable rec \<and> Matches s rec) (su_size s) (length (su_ch s)) inputs"
  shows "written_logs out @ su_ch s' = su_ch s @ wanted s (fed_logs inputs) \<and> \<not> r"
  using assms
proof (induction after inputs s arbitrary: out rule: stream_loop.induct)
  case (3 after x inputs s)
  show ?case
  proof (cases "su_ch s")
    case Nil
    then show ?thesis using 3 by (auto simp: open_sub_def)
  next
    case (Cons rec rest)
    have "open_sub (s\<lparr>su_ch := rest\<rparr>)" using 3(4) Cons by (simp add: open_sub_def)
    moreover have "Matches (s\<lparr>su_ch := rest\<rparr>) = Matches s" by (rule ext) (simp add: Matches_def)
    ultimately show ?thesis using 3(2) [OF Cons] 3(3,5-8) Cons
      by (auto split: prod.splits simp: wanted_filters [of "s\<lparr>su_ch := rest\<rparr>" s])
  qed
next
  case (5 after rec inputs s)
  have ch: "su_ch (feed_one rec s) = su_ch s @ wanted s [rec]"
    using 5(3,7) by (auto simp: feed_one_def send_open wanted_def lasts_id split: if_splits)
  then have "open_sub (feed_one rec s)" using 5(3,7) by (auto simp: open_sub_def wanted_def split: if_splits)
  moreover have m: "Matches (feed_one rec s) = Matches s" by (rule ext) (simp add: Matches_def)
  moreover have "never_full (\<lambda>q. marshalable q \<and> Matches (feed_one rec s) q) (su_size (feed_one rec s)) (length (su_ch (feed_one rec s))) inputs"
    unfolding m using 5(7) ch by (auto simp: wanted_def split: if_splits)
  ultimately have "written_logs out @ su_ch s' = su_ch (feed_one rec s) @ wanted (feed_one rec s) (fed_logs inputs) \<and> \<not> r"
    using 5 by simp
  then show ?case using ch wanted_filters [of "feed_one rec s" s] by (simp add: wanted_def)
qed (auto split: prod.splits)


section \<open>The end of a stream\<close>

lemma stream_loop_gone: "ClientGone \<in> set inputs \<Longrightarrow> fst (snd (stream_loop after inputs s))"
  by (induction after inputs s rule: stream_loop.induct) (auto split: list.splits option.splits prod.splits)

text \<open>A client that leaves is forgotten: whatever happened during its stream, the hub has the subscribers that it had before.\<close>

theorem finished_stream_unsubscribes:
  assumes "ServeHTTP_stream r inputs h = (Inr events, h')" and "ClientGone \<in> set inputs" and "hb_subscribers h (hb_nextID h + 1) = None"
  shows "hb_subscribers h' = hb_subscribers h \<and> hb_nextID h' = hb_nextID h + 1"
proof -
  obtain c sid h1 where o: "ServeHTTP_open r h = (JSONResponse c sid, h1)"
    using assms(1) by (cases "ServeHTTP_open r h") (auto simp: ServeHTTP_stream_def split: reply.splits)
  then obtain sub where h1: "sid = hb_nextID h + 1" "hb_subscribers h1 = (hb_subscribers h)(sid \<mapsto> sub)" "hb_nextID h1 = hb_nextID h + 1"
    by (auto simp: ServeHTTP_open_def Subscribe_def Replay_def Let_def split: if_splits option.splits)
  have "fst (snd (stream_loop log_after inputs sub))" using stream_loop_gone [OF assms(2)] by blast
  then have "h' = snd (Unsubscribe sid h1)"
    using assms(1) o h1 by (auto simp: ServeHTTP_stream_def split: prod.splits)
  then show ?thesis using h1 assms(3) by (auto simp: Unsubscribe_def)
qed

section \<open>The stream of the wizard\<close>

text \<open>The wizard's messages are logged without a component, so they are of none that its stream lets through. Such a stream
  consists of its greeting and heartbeats only: the end of a commit, which is looked for after an event, is
  never told.\<close>

theorem wizard_stream_silent:
  assumes "\<forall>rec \<in> set (fed_logs inputs). lr_Component rec \<notin> {''wizard'', ''bootstrap''}"
    and "handleSSEEvents flushable i d inputs (Some h) = (Inr events, h')"
  shows "\<exists>beats. events = WizConnected i # map SysHeartbeat beats"
proof -
  obtain out r s' where l: "stream_loop wizard_after inputs (fst (fst (Subscribe wizard_filter h))) = (out, r, s')" by (rule prod_cases3)
  have e: "events = WizConnected i # out"
    using assms(2) l by (auto simp: handleSSEEvents_def split: sum.splits option.splits if_splits prod.splits)
  have "wanted (fst (fst (Subscribe wizard_filter h))) (fed_logs inputs) = []" and "su_ch (fst (fst (Subscribe wizard_filter h))) = []"
    using assms(1) by (auto simp: wanted_def Matches_def Subscribe_def NewSubscriber_def wizard_filter_def Let_def filter_empty_conv)
  moreover have "su_ch s = [] \<Longrightarrow> wanted s (fed_logs inputs) = [] \<Longrightarrow> stream_loop wizard_after inputs s = (out, r, s') \<Longrightarrow> \<exists>beats. out = map SysHeartbeat beats" for s inputs out
  proof (induction wizard_after inputs s arbitrary: out rule: stream_loop.induct)
    case (4 ts inputs s)
    then obtain out' where "stream_loop wizard_after inputs s = (out', r, s')" "out = SysHeartbeat ts # out'" by (auto split: prod.splits)
    moreover have "\<exists>beats. out' = map SysHeartbeat beats" using 4 \<open>stream_loop wizard_after inputs s = (out', r, s')\<close> by simp
    ultimately show ?case by (metis list.simps(9))
  next
    case (5 rec inputs s)
    have "feed_one rec s = s" using 5(3) by (auto simp: wanted_Cons feed_one_def split: if_splits)
    then show ?case using 5 by (auto simp: wanted_Cons)
  next
    case (6 inputs s)
    have "stream_loop wizard_after inputs (Subscriber_Close s) = (out, r, s')" using 6(4) by simp
    moreover have "su_ch (Subscriber_Close s) = []" "wanted (Subscriber_Close s) (fed_logs inputs) = []"
      using 6(2,3) wanted_filters [of "Subscriber_Close s" s] by (simp_all add: Subscriber_Close_def)
    ultimately show ?case using 6(1) by blast
  qed (auto split: if_splits)
  ultimately show ?thesis using l e by blast
qed

text \<open>A record of a logger without groups has the component of its handler unless an attribute names one.\<close>

lemma add_attrs_component:
  "''component'' \<notin> fst ` set attrs \<Longrightarrow> fst (fold (add_attr []) attrs acc) = fst acc"
proof (induction attrs arbitrary: acc)
  case (Cons a attrs)
  have "fst (add_attr [] a acc) = fst acc"
    using Cons.prems by (cases acc; cases "fst a = []") (auto simp: add_attr_def attrToKV_def split: lvalue.splits)
  then show ?case using Cons by simp
qed simp

lemma untagged_component:
  "hd_groups h = [] \<Longrightarrow> ''component'' \<notin> fst ` set (hd_attrs h @ li_Attrs r) \<Longrightarrow> lr_Component (build_record e r h) = hd_comp h"
  using add_attrs_component [of "hd_attrs h @ li_Attrs r" "(hd_comp h, hd_src h, [])"]
  by (auto simp: build_record_def split: prod.splits)

text \<open>The whole chain, from the set-up of logging to the wizard's stream: whatever is logged through the handler of the set-up
  without naming a component, and none of the wizard's messages names one, the stream stays silent.\<close>

theorem untagged_logs_reach_no_wizard_stream:
  assumes "Init e0 made again home_logs cfg logDir fs = (Some (bus, ring, lh), fs1)" and "hd_groups lh = []" and "hd_attrs lh = []"
    and "\<forall>rec \<in> set (fed_logs inputs). \<exists>e r n. ''component'' \<notin> fst ` set (li_Attrs r) \<and> rec = (build_record e r (lh\<lparr>hd_seq := n\<rparr>))\<lparr>lr_Seq := n\<rparr>"
    and "handleSSEEvents flushable i d inputs (Some h) = (Inr events, h')"
  shows "\<exists>beats. events = WizConnected i # map SysHeartbeat beats"
proof (rule wizard_stream_silent [OF _ assms(5)])
  show "\<forall>rec \<in> set (fed_logs inputs). lr_Component rec \<notin> {''wizard'', ''bootstrap''}"
    using assms(2-4) Init_handler [OF assms(1)] by (fastforce simp: untagged_component)
qed

section \<open>Witnesses\<close>

definition lonely_record :: log_record where
  "lonely_record = zero_record\<lparr>lr_Component := ''unknown'', lr_Msg := ''wizard: committed''\<rparr>"

definition plain_request :: sse_request where
  "plain_request = \<lparr>sr_Method = ''GET'', sr_Accept = [], sr_Flushable = True, sr_level = [], sr_component = [], sr_source = [], sr_LastEventID = []\<rparr>"

theorem finished_stream_unsubscribes_witness:
  "\<exists>events h'. ServeHTTP_stream plain_request [HeartbeatTick ''t'', ClientGone] (NewHub (NewRing 0)) = (Inr events, h') \<and> hb_subscribers h' = Map.empty"
proof -
  obtain events h' where s: "ServeHTTP_stream plain_request [HeartbeatTick ''t'', ClientGone] (NewHub (NewRing 0)) = (Inr events, h')"
    by (simp add: ServeHTTP_stream_def ServeHTTP_open_def plain_request_def Subscribe_def Let_def)
  show ?thesis using finished_stream_unsubscribes [OF s] s by (simp add: NewHub_def)
qed

theorem stream_in_order_witness:
  "subseq (written_logs (fst (stream_loop log_after [FedByHub lonely_record, TakeEvent (), HeartbeatTick ''t''] (NewSubscriber 0 wizard_filter))))
     (wanted (NewSubscriber 0 wizard_filter) [lonely_record])"
  using stream_in_order [of log_after "[FedByHub lonely_record, TakeEvent (), HeartbeatTick ''t'']" "NewSubscriber 0 wizard_filter"]
  by (cases "stream_loop log_after [FedByHub lonely_record, TakeEvent (), HeartbeatTick ''t''] (NewSubscriber 0 wizard_filter)")
    (simp add: NewSubscriber_def)

text \<open>A channel with room for one record, through which two that are asked for pass, and one that is not.\<close>

definition asked_record :: log_record where
  "asked_record = lonely_record\<lparr>lr_Component := ''wizard''\<rparr>"


end
