(* ===== verification/Qr_Codes.thy ===== *)
theory Qr_Codes
  imports Base64_Codec
begin

text \<open>
  The pictures that a phone scans (\<open>qr/qr.go\<close>, \<open>qr/deeplink.go\<close>, \<open>qr/handler.go\<close>). The drawing is the library's: a function of
  the text and the size that may fail.
\<close>

section \<open>The link\<close>

definition link_prefix :: string where
  "link_prefix = ''wireguard://import?config=''"

definition BuildDeeplink :: "string \<Rightarrow> string option" where
  "BuildDeeplink configText = (if configText = [] then None else Some (link_prefix @ rawurl_encode configText))"

record qr_result =
  qr_PNG :: string
  qr_DeeplinkURI :: string
  qr_ConfigText :: string

definition Qr_Generate :: "(string \<Rightarrow> int \<Rightarrow> string option) \<Rightarrow> string \<Rightarrow> int \<Rightarrow> qr_result option" where
  "Qr_Generate draw configText pixels =
     (if configText = [] then None
      else case draw configText (if pixels \<le> 0 then 512 else pixels) of
             None \<Rightarrow> None
           | Some png \<Rightarrow> map_option (\<lambda>l. \<lparr>qr_PNG = png, qr_DeeplinkURI = l, qr_ConfigText = configText\<rparr>) (BuildDeeplink configText))"

section \<open>The endpoint\<close>

record qr_reply =
  qp_peer_id :: string
  qp_png_base64 :: string
  qp_deeplink :: string
  qp_config :: string
  qp_generated_at :: string

definition stub_config :: "string \<Rightarrow> string" where
  "stub_config peerID = join_with [CHR 0x0A]
     [''[Interface]'', ''PrivateKey = (stub)'', ''Address = 10.0.0.'' @ peerID @ ''/24'', ''DNS = 1.1.1.1'', [],
      ''[Peer]'', ''PublicKey = (stub)'', ''Endpoint = (stub):51820'', ''AllowedIPs = 0.0.0.0/0'']"

definition HandleGenerate :: "(string \<Rightarrow> int \<Rightarrow> string option) \<Rightarrow> string \<Rightarrow> string \<Rightarrow> qr_reply reply" where
  "HandleGenerate draw now peerID =
     (if peerID = [] then ErrorResponse 400 ''bad_request''
      else case Qr_Generate draw (stub_config peerID) 512 of
             None \<Rightarrow> ErrorResponse 500 ''internal_error''
           | Some r \<Rightarrow> JSONResponse 200 \<lparr>qp_peer_id = peerID, qp_png_base64 = std_encode (qr_PNG r), qp_deeplink = qr_DeeplinkURI r,
                 qp_config = qr_ConfigText r, qp_generated_at = now\<rparr>)"

section \<open>Round trip\<close>

text \<open>The application that opens the link reads back the configuration, and the picture is that of the same text.\<close>

theorem deeplink_roundtrip:
  assumes "Qr_Generate draw configText pixels = Some r"
  shows "has_prefix (qr_DeeplinkURI r) link_prefix \<and> rawurl_decode (trim_prefix (qr_DeeplinkURI r) link_prefix) = Some configText
    \<and> (\<exists>n > 0. draw (qr_ConfigText r) n = Some (qr_PNG r)) \<and> qr_ConfigText r = configText"
proof -
  have p: "has_prefix (link_prefix @ x) link_prefix" for x by (simp add: has_prefix_def)
  have "r = \<lparr>qr_PNG = qr_PNG r, qr_DeeplinkURI = link_prefix @ rawurl_encode configText, qr_ConfigText = configText\<rparr>"
    and "draw configText (if pixels \<le> 0 then 512 else pixels) = Some (qr_PNG r)"
    using assms by (auto simp: Qr_Generate_def BuildDeeplink_def split: if_splits option.splits)
  then have "qr_DeeplinkURI r = link_prefix @ rawurl_encode configText" "qr_ConfigText r = configText"
    "draw configText (if pixels \<le> 0 then 512 else pixels) = Some (qr_PNG r)" by (metis qr_result.select_convs)+
  then show ?thesis using p by (auto simp: trim_prefix_def split: if_splits intro: exI [of _ "if pixels \<le> 0 then 512 else pixels"])
qed

text \<open>The endpoint knows nothing of the peers: each of its answers is a placeholder without keys, addressed by the identifier
  of the path, whether or not a peer has it.\<close>

theorem qr_is_always_a_stub:
  assumes "HandleGenerate draw now peerID = JSONResponse c r"
  shows "qp_config r = stub_config peerID \<and> rawurl_decode (trim_prefix (qp_deeplink r) link_prefix) = Some (stub_config peerID) \<and> c = 200"
proof -
  obtain q where q: "Qr_Generate draw (stub_config peerID) 512 = Some q" "qp_config r = qr_ConfigText q" "qp_deeplink r = qr_DeeplinkURI q" "c = 200"
    using assms by (auto simp: HandleGenerate_def split: if_splits option.splits)
  then show ?thesis using deeplink_roundtrip [OF q(1)] by simp
qed

section \<open>Witnesses\<close>

theorem deeplink_roundtrip_witness:
  "\<exists>r. Qr_Generate (\<lambda>t n. Some t) ''x'' 0 = Some r \<and> rawurl_decode (trim_prefix (qr_DeeplinkURI r) link_prefix) = Some ''x''"
  using deeplink_roundtrip [of "\<lambda>t n. Some t" "''x''" 0] by (simp add: Qr_Generate_def BuildDeeplink_def)

theorem qr_is_always_a_stub_witness:
  "\<exists>r. HandleGenerate (\<lambda>t n. Some t) ''t'' ''no-such-peer'' = JSONResponse 200 r \<and> qp_config r = stub_config ''no-such-peer''"
proof -
  obtain r where "HandleGenerate (\<lambda>t n. Some t) ''t'' ''no-such-peer'' = JSONResponse 200 r"
    by (simp add: HandleGenerate_def Qr_Generate_def BuildDeeplink_def stub_config_def)
  then show ?thesis using qr_is_always_a_stub by blast
qed

end
