(* ===== verification/Auth_Runs.thy ===== *)
theory Auth_Runs
  imports Remote_Security
begin

text \<open>
  Authentication and revocation under concurrency. Every request is a goroutine, and \<open>cache.go\<close> and
  \<open>store.go\<close> hold their locks only for one lookup, listing, save, installation or invalidation at a
  time. A run is a list of actions, each of which performs one such critical section of one request;
  any list of actions is a possible interleaving. The run keeps a log of what the requests did, newest
  event first. The theorems say what an accepted credential means in every reachable state, and what a
  completed revocation guarantees there.
\<close>

section \<open>Requests between two critical sections\<close>

text \<open>A validation that missed the cache and is about to list, one that is scanning the rest of its
  listing (bcrypt runs outside every lock), one that found its token and is about to install it; a
  revocation that has looked its token up, and one that has disabled it and not yet dropped the cache
  entry.\<close>

datatype auth_thread = VMissed string | VScan string "api_token list" | VMatched string api_token
  | VFound api_token | VDeleted api_token

datatype auth_event =
    EvListed nat instant "api_token list"
  | EvInstalled nat instant string api_token
  | EvAccepted nat instant string validation_result
  | EvSession nat instant string
  | EvLocal nat
  | EvRefused nat
  | EvDisabled nat string
  | EvRevoked nat string

record auth_run =
  run_disk :: token_disk
  run_cache :: token_cache
  run_now :: instant
  run_next :: nat
  run_threads :: "nat \<Rightarrow> auth_thread option"
  run_log :: "auth_event list"

definition auth_start :: "token_disk \<Rightarrow> duration \<Rightarrow> auth_run" where
  "auth_start d ttl = \<lparr>run_disk = d, run_cache = NewTokenCache ttl, run_now = 0, run_next = 0,
     run_threads = (\<lambda>_. None), run_log = []\<rparr>"

definition ev :: "auth_event \<Rightarrow> auth_run \<Rightarrow> auth_run" where
  "ev e s = s\<lparr>run_log := e # run_log s\<rparr>"

definition set_thread :: "nat \<Rightarrow> auth_thread option \<Rightarrow> auth_run \<Rightarrow> auth_run" where
  "set_thread k t s = s\<lparr>run_threads := (run_threads s)(k := t)\<rparr>"

definition bump :: "auth_run \<Rightarrow> auth_run" where
  "bump s = s\<lparr>run_next := run_next s + 1\<rparr>"

section \<open>The critical sections\<close>

text \<open>\<open>TokenCache.Validate\<close>: the lookup under the read lock.\<close>

definition present_pat :: "crypto \<Rightarrow> string \<Rightarrow> auth_run \<Rightarrow> auth_run" where
  "present_pat cr plain s =
     (case cache_lookup (cr_sha cr) (run_now s) plain (run_cache s) of
        Some r \<Rightarrow> ev (EvAccepted (run_next s) (run_now s) plain r) (bump s)
      | None \<Rightarrow> set_thread (run_next s) (Some (VMissed plain)) (bump s))"

text \<open>\<open>handleJWT\<close> has one critical section, the listing: it is run as it is, with a next handler that
  records what it was called with.\<close>

definition jwt_passes :: "crypto \<Rightarrow> jwt_issuer \<Rightarrow> instant \<Rightarrow> request \<Rightarrow> auth_run \<Rightarrow> auth_info option" where
  "jwt_passes cr j now r s =
     srv_world (snd (handleJWT cr j now (presented r) (\<lambda>r i s. (ErrorResponse 0 [], s\<lparr>srv_world := i\<rparr>)) r
       \<lparr>srv_disk = run_disk s, srv_cache = run_cache s, srv_visitors = [], srv_audit = [], srv_world = None\<rparr>))"

definition present_jwt :: "crypto \<Rightarrow> jwt_issuer \<Rightarrow> request \<Rightarrow> auth_run \<Rightarrow> auth_run" where
  "present_jwt cr j r s =
     (case jwt_passes cr j (run_now s) r s of
        Some i \<Rightarrow> ev (EvSession (run_next s) (run_now s) (ai_TokenID i)) (bump s)
      | None \<Rightarrow> ev (EvRefused (run_next s)) (bump s))"

text \<open>The dispatcher up to the first critical section of the credential it selects.\<close>

definition arrive :: "crypto \<Rightarrow> jwt_issuer \<Rightarrow> request \<Rightarrow> auth_run \<Rightarrow> auth_run" where
  "arrive cr j r s =
     (if r_XForwardedFor r = [] \<and> isLoopback (remote_host r) then ev (EvLocal (run_next s)) (bump s)
      else if r_Authorization r = [] \<or> presented r = r_Authorization r then ev (EvRefused (run_next s)) (bump s)
      else if has_prefix (presented r) ''unet_'' then present_pat cr (presented r) s
      else if has_prefix (presented r) ''eyJ'' then present_jwt cr j r s
      else ev (EvRefused (run_next s)) (bump s))"

text \<open>\<open>RevokeToken\<close> up to \<open>GetByID\<close>, and the store section of \<open>CreateToken\<close>; a new token's random
  identifier is not in use.\<close>

definition revoke_request :: "string \<Rightarrow> auth_run \<Rightarrow> auth_run" where
  "revoke_request i s =
     (if i = [] then s
      else case Store_GetByID i (run_disk s) of
             Inl _ \<Rightarrow> s
           | Inr t \<Rightarrow> set_thread (run_next s) (Some (VFound t)) (bump s))"

definition store_tokens :: "token_disk \<Rightarrow> api_token list" where
  "store_tokens d = (case Store_load d of Inl _ \<Rightarrow> [] | Inr ts \<Rightarrow> ts)"

definition create_request :: "req_env \<Rightarrow> string \<Rightarrow> scope \<Rightarrow> string \<Rightarrow> instant option \<Rightarrow> auth_run \<Rightarrow> auth_run" where
  "create_request env name scope who expires s =
     (case NewAPIToken (re_gen env) (re_random env) (re_uuid env) (run_now s) name scope who expires of
        Inl _ \<Rightarrow> s
      | Inr (t, plain) \<Rightarrow>
          if re_uuid env \<in> tok_ID ` set (store_tokens (run_disk s)) then s
          else s\<lparr>run_disk := snd (Store_Create (re_io env) t (run_disk s))\<rparr>)"

text \<open>The next section of a request that is under way. The scan is cut after every token, because each
  bcrypt comparison takes its time and reads the clock again.\<close>

definition go :: "crypto \<Rightarrow> io_env \<Rightarrow> nat \<Rightarrow> auth_run \<Rightarrow> auth_run" where
  "go cr io k s =
     (case run_threads s k of
        None \<Rightarrow> s
      | Some (VMissed plain) \<Rightarrow>
          (case Store_List (run_disk s) of
             Inl _ \<Rightarrow> ev (EvRefused k) (set_thread k None s)
           | Inr ts \<Rightarrow> ev (EvListed k (run_now s) ts) (set_thread k (Some (VScan plain ts)) s))
      | Some (VScan plain []) \<Rightarrow> ev (EvRefused k) (set_thread k None s)
      | Some (VScan plain (t # ts)) \<Rightarrow>
          (case scan_tokens (cr_cmp cr) (run_now s) plain [t] of
             None \<Rightarrow> set_thread k (Some (VScan plain ts)) s
           | Some u \<Rightarrow> set_thread k (Some (VMatched plain u)) s)
      | Some (VMatched plain t) \<Rightarrow>
          ev (EvAccepted k (run_now s) plain (validation_result_of t))
            (ev (EvInstalled k (run_now s) plain t)
              (set_thread k None (s\<lparr>run_cache := cache_install (cr_sha cr) (run_now s) plain t (run_cache s)\<rparr>)))
      | Some (VFound t) \<Rightarrow>
          (case Store_SoftDelete io (tok_ID t) (run_disk s) of
             (Some _, d) \<Rightarrow> set_thread k None (s\<lparr>run_disk := d\<rparr>)
           | (None, d) \<Rightarrow> ev (EvDisabled k (tok_ID t)) (set_thread k (Some (VDeleted t)) (s\<lparr>run_disk := d\<rparr>)))
      | Some (VDeleted t) \<Rightarrow>
          ev (EvRevoked k (tok_ID t))
            (set_thread k None (s\<lparr>run_cache := Cache_Invalidate (tok_TokenPrefix t) (run_cache s)\<rparr>)))"

datatype auth_action = AcTick duration | AcArrive request | AcRevoke string
  | AcCreate req_env string scope string "instant option" | AcGo io_env nat

fun auth_exec :: "crypto \<Rightarrow> jwt_issuer \<Rightarrow> auth_action \<Rightarrow> auth_run \<Rightarrow> auth_run" where
  "auth_exec cr j (AcTick d) s = s\<lparr>run_now := run_now s + max 0 d\<rparr>"
| "auth_exec cr j (AcArrive r) s = arrive cr j r s"
| "auth_exec cr j (AcRevoke i) s = revoke_request i s"
| "auth_exec cr j (AcCreate env name scope who expires) s = create_request env name scope who expires s"
| "auth_exec cr j (AcGo io k) s = go cr io k s"

definition auth_play :: "crypto \<Rightarrow> jwt_issuer \<Rightarrow> auth_action list \<Rightarrow> auth_run \<Rightarrow> auth_run" where
  "auth_play cr j acts s = fold (auth_exec cr j) acts s"

definition presented_in :: "auth_action list \<Rightarrow> string set" where
  "presented_in acts = presented ` {r. AcArrive r \<in> set acts}"

lemma run_sel [simp]:
  "run_disk (ev e s) = run_disk s" "run_cache (ev e s) = run_cache s" "run_now (ev e s) = run_now s"
  "run_next (ev e s) = run_next s" "run_threads (ev e s) = run_threads s" "run_log (ev e s) = e # run_log s"
  "run_disk (set_thread k t s) = run_disk s" "run_cache (set_thread k t s) = run_cache s"
  "run_now (set_thread k t s) = run_now s" "run_next (set_thread k t s) = run_next s"
  "run_threads (set_thread k t s) = (run_threads s)(k := t)" "run_log (set_thread k t s) = run_log s"
  "run_disk (bump s) = run_disk s" "run_cache (bump s) = run_cache s" "run_now (bump s) = run_now s"
  "run_next (bump s) = run_next s + 1" "run_threads (bump s) = run_threads s" "run_log (bump s) = run_log s"
  by (simp_all add: ev_def set_thread_def bump_def)

lemma set_thread_ev: "set_thread k t (ev e s) = ev e (set_thread k t s)"
  by (cases s) (simp add: ev_def set_thread_def)

lemma set_thread_twice [simp]: "set_thread k t (set_thread k u s) = set_thread k t s"
  by (cases s) (simp add: set_thread_def)

lemma run_cache_frame:
  "(ev e s)\<lparr>run_cache := c\<rparr> = ev e (s\<lparr>run_cache := c\<rparr>)"
  "(set_thread k t s)\<lparr>run_cache := c\<rparr> = set_thread k t (s\<lparr>run_cache := c\<rparr>)"
  by (cases s; simp add: ev_def set_thread_def)+

section \<open>What the store does to a token over a run\<close>

text \<open>A token that was ever read from the store still has its identifier there, under the same prefix;
  an identifier that was disabled stays disabled.\<close>

definition known :: "token_disk \<Rightarrow> api_token \<Rightarrow> bool" where
  "known d u \<longleftrightarrow> (\<exists>t \<in> set (store_tokens d). tok_ID t = tok_ID u \<and> tok_TokenPrefix t = tok_TokenPrefix u)"

definition gone :: "token_disk \<Rightarrow> string \<Rightarrow> bool" where
  "gone d i \<longleftrightarrow> i \<in> tok_ID ` set (store_tokens d) \<and> (\<forall>t \<in> set (store_tokens d). tok_ID t = i \<longrightarrow> \<not> tok_Enabled t)"

definition evolves :: "token_disk \<Rightarrow> token_disk \<Rightarrow> bool" where
  "evolves d d' \<longleftrightarrow> store_wf d' \<and> (\<forall>u. known d u \<longrightarrow> known d' u) \<and> (\<forall>i. gone d i \<longrightarrow> gone d' i)"

lemma evolves_same_load: "store_wf d \<Longrightarrow> Store_load d' = Store_load d \<Longrightarrow> evolves d d'"
  by (simp add: evolves_def known_def gone_def store_tokens_def store_wf_def)

lemma known_listed: "Store_List d = Inr ts \<Longrightarrow> u \<in> set ts \<Longrightarrow> known d u"
  by (auto simp: known_def store_tokens_def Store_List_def)

lemma known_found: "Store_GetByID i d = Inr t \<Longrightarrow> known d t \<and> tok_ID t = i"
  by (auto simp: known_def store_tokens_def Store_GetByID_def split: sum.splits option.splits dest: find_Some_in)

lemma known_prefix:
  assumes "store_wf d" and "known d u" and "known d v" and "tok_ID u = tok_ID v"
  shows "tok_TokenPrefix u = tok_TokenPrefix v"
proof -
  obtain s t where st: "s \<in> set (store_tokens d)" "t \<in> set (store_tokens d)" "tok_ID s = tok_ID u" "tok_ID t = tok_ID v"
      "tok_TokenPrefix s = tok_TokenPrefix u" "tok_TokenPrefix t = tok_TokenPrefix v"
    using assms(2,3) unfolding known_def by blast
  have "distinct (map tok_ID (store_tokens d))"
    using assms(1) by (auto simp: store_wf_def store_tokens_def split: sum.splits)
  then have "s = t" using st assms(4) by (metis distinct_map inj_onD)
  then show ?thesis using st by simp
qed

lemma Create_evolves:
  assumes "store_wf d" and "tok_ID t \<notin> tok_ID ` set (store_tokens d)"
  shows "evolves d (snd (Store_Create io t d))"
proof (cases "Store_Create io t d")
  case (Pair e d')
  show ?thesis
  proof (cases e)
    case None
    then obtain ts where ts: "Store_load d = Inr ts"
      using Pair by (auto simp: Store_Create_def split: sum.splits)
    have l: "Store_load d' = Inr (ts @ [t])" using Store_Create_ok [OF ts] Pair None by simp
    have "tok_ID t \<notin> tok_ID ` set ts" using assms(2) ts by (simp add: store_tokens_def)
    then have "store_wf d'" using Create_refines [OF ts assms(1)] Pair by (simp add: refines_spec_def)
    then show ?thesis using Pair ts l assms(2)
      by (auto simp: evolves_def known_def gone_def store_tokens_def)
  next
    case (Some x)
    then show ?thesis using Pair evolves_same_load [OF assms(1)] Store_Create_err by simp
  qed
qed

lemma SoftDelete_evolves:
  assumes "store_wf d" and "Store_SoftDelete io i d = (e, d')"
  shows "evolves d d'" and "e = None \<Longrightarrow> gone d' i"
proof -
  have "evolves d d' \<and> (e = None \<longrightarrow> gone d' i)"
  proof (cases e)
    case None
    obtain ts where ts: "Store_load d = Inr ts" and i: "i \<in> tok_ID ` set ts"
      using assms(2) None by (auto simp: Store_SoftDelete_def split: sum.splits if_splits)
    define ts' where "ts' = update_first (\<lambda>t. tok_ID t = i) (\<lambda>t. t\<lparr>tok_Enabled := False\<rparr>) ts"
    have l: "Store_load d' = Inr ts'"
      using Store_SoftDelete_ok [OF ts] assms(2) None by (simp add: ts'_def)
    have "map tok_ID ts' = map tok_ID ts" unfolding ts'_def by (rule map_update_first_eq) simp
    then have ids: "tok_ID ` set ts' = tok_ID ` set ts" by (metis set_map)
    have keep: "\<exists>t' \<in> set ts'. tok_ID t' = tok_ID t \<and> tok_TokenPrefix t' = tok_TokenPrefix t" if "t \<in> set ts" for t
      using that unfolding ts'_def by (induction ts) auto
    have "\<not> tok_Enabled t" if "t \<in> set ts'" "tok_ID t = i" for t
      using update_first_disables [of ts t i] that assms(1) ts by (simp add: ts'_def store_wf_Inr)
    moreover have "\<not> tok_Enabled t" if "t \<in> set ts'" "\<forall>u \<in> set ts. tok_ID u = tok_ID t \<longrightarrow> \<not> tok_Enabled u" for t
      using that unfolding ts'_def by (fastforce dest: in_set_update_firstD)
    moreover have "store_wf d'" using SoftDelete_wf [OF assms(1), of io i] assms(2) by simp
    ultimately show ?thesis using keep ids i
      by (fastforce simp: evolves_def known_def gone_def store_tokens_def ts l)
  next
    case (Some x)
    then show ?thesis using evolves_same_load [OF assms(1)] Store_SoftDelete_err assms(2) by simp
  qed
  then show "evolves d d'" and "e = None \<Longrightarrow> gone d' i" by simp_all
qed

section \<open>The history invariant\<close>

text \<open>The token was in a listing that request \<open>k\<close> took: enabled, its hash matching the plaintext, and not
  expired when it was listed.\<close>

definition listed_match :: "crypto \<Rightarrow> nat \<Rightarrow> string \<Rightarrow> api_token \<Rightarrow> auth_event list \<Rightarrow> instant \<Rightarrow> bool" where
  "listed_match cr k plain t L n \<longleftrightarrow>
     (\<exists>tl ts. EvListed k tl ts \<in> set L \<and> t \<in> set ts \<and> tok_Enabled t \<and> cr_cmp cr (tok_TokenHash t) plain
        \<and> (\<forall>x. tok_ExpiresAt t = Some x \<longrightarrow> tl \<le> x) \<and> tl \<le> n)"

text \<open>An installation for the plaintext, newer than every completed revocation of its token.\<close>

definition backed :: "duration \<Rightarrow> instant \<Rightarrow> string \<Rightarrow> validation_result \<Rightarrow> auth_event list \<Rightarrow> bool" where
  "backed ttl n plain r L \<longleftrightarrow>
     (\<exists>C k ti t A. L = C @ EvInstalled k ti plain t # A \<and> r = validation_result_of t \<and> n < ti + ttl
        \<and> (\<forall>k'. EvRevoked k' (tok_ID t) \<notin> set C))"

fun justified :: "crypto \<Rightarrow> duration \<Rightarrow> auth_event \<Rightarrow> auth_event list \<Rightarrow> bool" where
  "justified cr ttl (EvListed k n ts) L =
     (\<forall>k' t. EvDisabled k' (tok_ID t) \<in> set L \<longrightarrow> t \<in> set ts \<longrightarrow> \<not> tok_Enabled t)"
| "justified cr ttl (EvInstalled k n plain t) L = listed_match cr k plain t L n"
| "justified cr ttl (EvAccepted k n plain r) L = backed ttl n plain r L"
| "justified cr ttl (EvSession k n i) L = (\<forall>k'. EvDisabled k' i \<notin> set L)"
| "justified cr ttl (EvRevoked k i) L = (EvDisabled k i \<in> set L)"
| "justified cr ttl _ L = True"

fun log_ok :: "crypto \<Rightarrow> duration \<Rightarrow> auth_event list \<Rightarrow> bool" where
  "log_ok cr ttl [] = True"
| "log_ok cr ttl (e # L) = (justified cr ttl e L \<and> log_ok cr ttl L)"

fun thread_ok :: "crypto \<Rightarrow> string set \<Rightarrow> auth_run \<Rightarrow> nat \<Rightarrow> auth_thread \<Rightarrow> bool" where
  "thread_ok cr P s k (VMissed plain) = (plain \<in> P)"
| "thread_ok cr P s k (VScan plain rest) =
     (plain \<in> P \<and> (\<exists>tl ts. EvListed k tl ts \<in> set (run_log s) \<and> set rest \<subseteq> set ts \<and> tl \<le> run_now s))"
| "thread_ok cr P s k (VMatched plain t) = (plain \<in> P \<and> listed_match cr k plain t (run_log s) (run_now s))"
| "thread_ok cr P s k (VFound t) = known (run_disk s) t"
| "thread_ok cr P s k (VDeleted t) = (known (run_disk s) t \<and> EvDisabled k (tok_ID t) \<in> set (run_log s))"

definition entry_ok :: "crypto \<Rightarrow> string set \<Rightarrow> auth_event list \<Rightarrow> string \<Rightarrow> cache_entry \<Rightarrow> bool" where
  "entry_ok cr P L p e \<longleftrightarrow>
     (\<exists>C k ti plain t A. L = C @ EvInstalled k ti plain t # A \<and> (\<forall>k'. EvRevoked k' (tok_ID t) \<notin> set C)
        \<and> plain \<in> P \<and> tok_TokenPrefix t = p \<and> ent_tokenID e = tok_ID t \<and> ent_tokenName e = tok_Name t
        \<and> ent_scope e = tok_Scope t \<and> ent_sha256Sum e = cr_sha cr plain \<and> ent_cachedAt e = ti)"

definition history_ok :: "crypto \<Rightarrow> duration \<Rightarrow> string set \<Rightarrow> auth_run \<Rightarrow> bool" where
  "history_ok cr ttl P s \<longleftrightarrow>
     store_wf (run_disk s) \<and> cache_ttl (run_cache s) = ttl \<and> log_ok cr ttl (run_log s)
     \<and> (\<forall>k n ts u. EvListed k n ts \<in> set (run_log s) \<longrightarrow> u \<in> set ts \<longrightarrow> known (run_disk s) u)
     \<and> (\<forall>k i. EvDisabled k i \<in> set (run_log s) \<longrightarrow> gone (run_disk s) i)
     \<and> (\<forall>k th. run_threads s k = Some th \<longrightarrow> thread_ok cr P s k th)
     \<and> (\<forall>p e. cache_entries (run_cache s) p = Some e \<longrightarrow> entry_ok cr P (run_log s) p e)"

lemma history_okI:
  assumes "store_wf (run_disk s)" and "cache_ttl (run_cache s) = ttl" and "log_ok cr ttl (run_log s)"
    and "\<And>k n ts u. EvListed k n ts \<in> set (run_log s) \<Longrightarrow> u \<in> set ts \<Longrightarrow> known (run_disk s) u"
    and "\<And>k i. EvDisabled k i \<in> set (run_log s) \<Longrightarrow> gone (run_disk s) i"
    and "\<And>k th. run_threads s k = Some th \<Longrightarrow> thread_ok cr P s k th"
    and "\<And>p e. cache_entries (run_cache s) p = Some e \<Longrightarrow> entry_ok cr P (run_log s) p e"
  shows "history_ok cr ttl P s"
  using assms unfolding history_ok_def by blast

lemma history_okD:
  assumes "history_ok cr ttl P s"
  shows "store_wf (run_disk s)" "cache_ttl (run_cache s) = ttl" "log_ok cr ttl (run_log s)"
    "EvListed k n ts \<in> set (run_log s) \<Longrightarrow> u \<in> set ts \<Longrightarrow> known (run_disk s) u"
    "EvDisabled k i \<in> set (run_log s) \<Longrightarrow> gone (run_disk s) i"
    "run_threads s k = Some th \<Longrightarrow> thread_ok cr P s k th"
    "cache_entries (run_cache s) p = Some e \<Longrightarrow> entry_ok cr P (run_log s) p e"
  using assms unfolding history_ok_def by blast+

lemma log_ok_at: "log_ok cr ttl (B @ e # A) \<Longrightarrow> justified cr ttl e A"
  by (induction B) auto

lemma listed_match_mono:
  "listed_match cr k plain t L n \<Longrightarrow> set L \<subseteq> set L' \<Longrightarrow> n \<le> n' \<Longrightarrow> listed_match cr k plain t L' n'"
  unfolding listed_match_def by (meson order_trans subsetD)

lemma thread_ok_mono:
  assumes "thread_ok cr P s k th" and "set (run_log s) \<subseteq> set (run_log s')" and "run_now s \<le> run_now s'"
    and "\<And>u. known (run_disk s) u \<Longrightarrow> known (run_disk s') u"
  shows "thread_ok cr P s' k th"
  using assms
  by (cases th) (auto intro: listed_match_mono, meson order_trans subsetD)

lemma entry_ok_Cons:
  "entry_ok cr P L p e \<Longrightarrow> (\<And>k i. e' \<noteq> EvRevoked k i) \<Longrightarrow> entry_ok cr P (e' # L) p e"
  unfolding entry_ok_def by (metis append_Cons set_ConsD)

text \<open>Every step other than a disk change appends at most one event at a time and updates one thread.\<close>

lemma history_ev:
  assumes "history_ok cr ttl P s" and "justified cr ttl e (run_log s)" and "\<And>k i. e \<noteq> EvRevoked k i"
    and "\<And>k n ts u. e = EvListed k n ts \<Longrightarrow> u \<in> set ts \<Longrightarrow> known (run_disk s) u"
    and "\<And>k i. e = EvDisabled k i \<Longrightarrow> gone (run_disk s) i"
  shows "history_ok cr ttl P (ev e s)"
proof (rule history_okI)
  show "log_ok cr ttl (run_log (ev e s))" using assms(1,2) by (simp add: history_okD)
  show "known (run_disk (ev e s)) u" if "EvListed k n ts \<in> set (run_log (ev e s))" "u \<in> set ts" for k n ts u
    using that assms(4) history_okD(4) [OF assms(1)] by auto
  show "gone (run_disk (ev e s)) i" if "EvDisabled k i \<in> set (run_log (ev e s))" for k i
    using that assms(5) history_okD(5) [OF assms(1)] by auto
  show "thread_ok cr P (ev e s) k th" if "run_threads (ev e s) k = Some th" for k th
    using that history_okD(6) [OF assms(1), of k th] by (auto elim!: thread_ok_mono)
  show "entry_ok cr P (run_log (ev e s)) p c" if "cache_entries (run_cache (ev e s)) p = Some c" for p c
    using that history_okD(7) [OF assms(1), of p c] assms(3) by (simp add: entry_ok_Cons)
qed (simp_all add: history_okD [OF assms(1)])

lemma history_thread:
  assumes "history_ok cr ttl P s" and "\<And>u. th = Some u \<Longrightarrow> thread_ok cr P s k u"
  shows "history_ok cr ttl P (set_thread k th s)"
proof (rule history_okI)
  show "thread_ok cr P (set_thread k th s) k' u" if "run_threads (set_thread k th s) k' = Some u" for k' u
  proof -
    have "thread_ok cr P s k' u"
      using that assms(2) history_okD(6) [OF assms(1), of k' u] by (auto split: if_splits)
    then show ?thesis by (rule thread_ok_mono) simp_all
  qed
qed (use history_okD [OF assms(1)] in auto)

lemma history_bump: "history_ok cr ttl P s \<Longrightarrow> history_ok cr ttl P (bump s)"
  by (rule history_okI) (auto simp: history_okD elim!: thread_ok_mono dest: history_okD(6))

lemma history_disk:
  assumes "history_ok cr ttl P s" and "evolves (run_disk s) d"
  shows "history_ok cr ttl P (s\<lparr>run_disk := d\<rparr>)"
proof (rule history_okI)
  show "thread_ok cr P (s\<lparr>run_disk := d\<rparr>) k th" if "run_threads (s\<lparr>run_disk := d\<rparr>) k = Some th" for k th
  proof -
    have "thread_ok cr P s k th" using that history_okD(6) [OF assms(1)] by simp
    then show ?thesis using assms(2) by (elim thread_ok_mono) (simp_all add: evolves_def)
  qed
qed (use assms history_okD [OF assms(1)] in \<open>auto simp: evolves_def\<close>)

lemma history_cache:
  assumes "history_ok cr ttl P s" and "cache_ttl c = ttl"
    and "\<And>p e. cache_entries c p = Some e \<Longrightarrow> entry_ok cr P (run_log s) p e"
  shows "history_ok cr ttl P (s\<lparr>run_cache := c\<rparr>)"
proof (rule history_okI)
  show "thread_ok cr P (s\<lparr>run_cache := c\<rparr>) k th" if "run_threads (s\<lparr>run_cache := c\<rparr>) k = Some th" for k th
  proof -
    have "thread_ok cr P s k th" using that history_okD(6) [OF assms(1)] by simp
    then show ?thesis by (rule thread_ok_mono) simp_all
  qed
qed (use assms history_okD [OF assms(1)] in auto)

lemma history_tick:
  assumes "history_ok cr ttl P s"
  shows "history_ok cr ttl P (s\<lparr>run_now := run_now s + max 0 d\<rparr>)"
proof (rule history_okI)
  show "thread_ok cr P (s\<lparr>run_now := run_now s + max 0 d\<rparr>) k th"
    if "run_threads (s\<lparr>run_now := run_now s + max 0 d\<rparr>) k = Some th" for k th
  proof -
    have "thread_ok cr P s k th" using that history_okD(6) [OF assms] by simp
    then show ?thesis by (rule thread_ok_mono) simp_all
  qed
qed (use history_okD [OF assms] in auto)

lemma history_installed_known:
  assumes "history_ok cr ttl P s" and "run_log s = C @ EvInstalled k ti plain t # A"
  shows "known (run_disk s) t"
proof -
  have "listed_match cr k plain t A ti"
    using log_ok_at [of cr ttl C "EvInstalled k ti plain t" A] history_okD(3) [OF assms(1)] assms(2) by simp
  then obtain tl ts where "EvListed k tl ts \<in> set A" "t \<in> set ts" unfolding listed_match_def by blast
  then show ?thesis using history_okD(4) [OF assms(1), of k tl ts t] assms(2) by simp
qed

lemma history_revoked:
  assumes h: "history_ok cr ttl P s" and t: "known (run_disk s) t" and "EvDisabled k (tok_ID t) \<in> set (run_log s)"
  shows "history_ok cr ttl P (ev (EvRevoked k (tok_ID t))
      (s\<lparr>run_cache := Cache_Invalidate (tok_TokenPrefix t) (run_cache s)\<rparr>))"
proof (rule history_okI)
  let ?s = "ev (EvRevoked k (tok_ID t)) (s\<lparr>run_cache := Cache_Invalidate (tok_TokenPrefix t) (run_cache s)\<rparr>)"
  show "thread_ok cr P ?s k' th" if "run_threads ?s k' = Some th" for k' th
  proof -
    have "thread_ok cr P s k' th" using that history_okD(6) [OF h] by simp
    then show ?thesis by (rule thread_ok_mono) auto
  qed
  show "entry_ok cr P (run_log ?s) p e" if "cache_entries (run_cache ?s) p = Some e" for p e
  proof -
    have p: "p \<noteq> tok_TokenPrefix t" "cache_entries (run_cache s) p = Some e"
      using that by (auto simp: Cache_Invalidate_def split: if_splits)
    then obtain C k' ti plain u A where u: "run_log s = C @ EvInstalled k' ti plain u # A"
        "\<forall>k'. EvRevoked k' (tok_ID u) \<notin> set C" "plain \<in> P" "tok_TokenPrefix u = p" "ent_tokenID e = tok_ID u"
        "ent_tokenName e = tok_Name u" "ent_scope e = tok_Scope u" "ent_sha256Sum e = cr_sha cr plain" "ent_cachedAt e = ti"
      using history_okD(7) [OF h] unfolding entry_ok_def by blast
    have "tok_ID u \<noteq> tok_ID t"
      using known_prefix [OF history_okD(1) [OF h] history_installed_known [OF h u(1)] t] u(4) p(1) by blast
    then show ?thesis unfolding entry_ok_def using u
      by (intro exI [of _ "EvRevoked k (tok_ID t) # C"] exI [of _ k'] exI [of _ ti] exI [of _ plain] exI [of _ u] exI [of _ A])
        simp
  qed
  show "known (run_disk ?s) u" if "EvListed k' n ts \<in> set (run_log ?s)" "u \<in> set ts" for k' n ts u
    using that history_okD(4) [OF h] by auto
  show "gone (run_disk ?s) i" if "EvDisabled k' i \<in> set (run_log ?s)" for k' i
    using that history_okD(5) [OF h] by auto
qed (use assms(3) history_okD [OF h] in \<open>auto simp: Cache_Invalidate_def\<close>)

section \<open>Every step keeps it\<close>

lemma lookup_backed:
  assumes h: "history_ok cr ttl P s" and "inj_on (cr_sha cr) P" and "plain \<in> P"
    and "cache_lookup (cr_sha cr) (run_now s) plain (run_cache s) = Some r"
  shows "backed ttl (run_now s) plain r (run_log s)"
proof -
  from assms(4) obtain e where e: "cache_entries (run_cache s) (cache_prefix plain) = Some e"
      "run_now s - ent_cachedAt e < cache_ttl (run_cache s)" "cr_sha cr plain = ent_sha256Sum e"
      "r = \<lparr>res_TokenID = ent_tokenID e, res_TokenName = ent_tokenName e, res_Scope = ent_scope e\<rparr>"
    by (auto simp: cache_lookup_def split: option.splits if_splits)
  then obtain C k ti p t A where t: "run_log s = C @ EvInstalled k ti p t # A" "\<forall>k'. EvRevoked k' (tok_ID t) \<notin> set C"
      "p \<in> P" "ent_tokenID e = tok_ID t" "ent_tokenName e = tok_Name t" "ent_scope e = tok_Scope t"
      "ent_sha256Sum e = cr_sha cr p" "ent_cachedAt e = ti"
    using history_okD(7) [OF h] unfolding entry_ok_def by blast
  have "p = plain" using assms(2,3) t(3,7) e(3) by (metis inj_onD)
  moreover have "r = validation_result_of t" using e(4) t(4-6) by (simp add: validation_result_of_def)
  moreover have "run_now s < ti + ttl" using e(2) t(8) history_okD(2) [OF h] by simp
  ultimately show ?thesis using t(1,2) unfolding backed_def by blast
qed

lemma jwt_passes_enabled:
  assumes "jwt_passes cr j now r s = Some i"
  obtains ts t where "Store_List (run_disk s) = Inr ts" "t \<in> set ts" "tok_ID t = ai_TokenID i" "tok_Enabled t"
  using assms
  by (auto simp: jwt_passes_def handleJWT_def unauthorized_def split: sum.splits if_splits)

lemma arrive_history:
  assumes h: "history_ok cr ttl P s" and inj: "inj_on (cr_sha cr) P" and P: "presented r \<in> P"
  shows "history_ok cr ttl P (arrive cr j r s)"
proof -
  have b: "history_ok cr ttl P (bump s)" by (rule history_bump [OF h])
  have refuse: "history_ok cr ttl P (ev (EvRefused (run_next s)) (bump s))" "history_ok cr ttl P (ev (EvLocal (run_next s)) (bump s))"
    by (rule history_ev [OF b]; simp)+
  have pat: "history_ok cr ttl P (present_pat cr (presented r) s)"
  proof (cases "cache_lookup (cr_sha cr) (run_now s) (presented r) (run_cache s)")
    case None
    have "history_ok cr ttl P (set_thread (run_next s) (Some (VMissed (presented r))) (bump s))"
      using P by (intro history_thread [OF b]) auto
    then show ?thesis using None by (simp add: present_pat_def)
  next
    case (Some v)
    have "history_ok cr ttl P (ev (EvAccepted (run_next s) (run_now s) (presented r) v) (bump s))"
      using lookup_backed [OF h inj P Some] by (intro history_ev [OF b]) simp_all
    then show ?thesis using Some by (simp add: present_pat_def)
  qed
  have jwt: "history_ok cr ttl P (present_jwt cr j r s)"
  proof (cases "jwt_passes cr j (run_now s) r s")
    case None
    then show ?thesis using refuse by (simp add: present_jwt_def)
  next
    case (Some i)
    have "EvDisabled k' (ai_TokenID i) \<notin> set (run_log s)" for k'
    proof
      assume "EvDisabled k' (ai_TokenID i) \<in> set (run_log s)"
      then have "gone (run_disk s) (ai_TokenID i)" by (rule history_okD(5) [OF h])
      then show False using jwt_passes_enabled [OF Some]
        by (metis gone_def Store_List_def store_tokens_def sum.case(2))
    qed
    then have "history_ok cr ttl P (ev (EvSession (run_next s) (run_now s) (ai_TokenID i)) (bump s))"
      by (intro history_ev [OF b]) simp_all
    then show ?thesis using Some by (simp add: present_jwt_def)
  qed
  show ?thesis using refuse pat jwt by (simp add: arrive_def)
qed

lemma revoke_request_history:
  "history_ok cr ttl P s \<Longrightarrow> history_ok cr ttl P (revoke_request i s)"
  using known_found [of i "run_disk s"]
  by (auto simp: revoke_request_def split: sum.splits intro!: history_thread history_bump)

lemma create_request_history:
  assumes h: "history_ok cr ttl P s"
  shows "history_ok cr ttl P (create_request env name scope who expires s)"
proof (cases "NewAPIToken (re_gen env) (re_random env) (re_uuid env) (run_now s) name scope who expires")
  case (Inl e)
  then show ?thesis using h by (simp add: create_request_def)
next
  case (Inr tp)
  obtain t plain where tp: "tp = (t, plain)" by (cases tp)
  have "tok_ID t = re_uuid env" using NewAPIToken_ok(5) Inr tp by blast
  then have "evolves (run_disk s) (snd (Store_Create (re_io env) t (run_disk s)))"
    if "re_uuid env \<notin> tok_ID ` set (store_tokens (run_disk s))"
    using that Create_evolves [OF history_okD(1) [OF h]] by simp
  then show ?thesis using Inr tp h history_disk [OF h] by (simp add: create_request_def)
qed

lemma scan_one:
  "scan_tokens cmp now plain [t] = (if tok_Enabled t \<and> \<not> (tok_ExpiresAt t \<noteq> None \<and> the (tok_ExpiresAt t) < now)
     \<and> cmp (tok_TokenHash t) plain then Some t else None)"
  by (simp add: VerifyToken_def)

lemma list_history:
  assumes h: "history_ok cr ttl P s" and "run_threads s k = Some (VMissed plain)" and l: "Store_List (run_disk s) = Inr ts"
  shows "history_ok cr ttl P (ev (EvListed k (run_now s) ts) (set_thread k (Some (VScan plain ts)) s))"
proof -
  have P: "plain \<in> P" using history_okD(6) [OF h assms(2)] by simp
  have dis: "\<not> tok_Enabled t" if "EvDisabled k' (tok_ID t) \<in> set (run_log s)" "t \<in> set ts" for k' t
    using history_okD(5) [OF h that(1)] that(2) l by (auto simp: gone_def store_tokens_def Store_List_def)
  have "history_ok cr ttl P (set_thread k None s)" by (rule history_thread [OF h]) simp
  then have "history_ok cr ttl P (ev (EvListed k (run_now s) ts) (set_thread k None s))"
    using dis known_listed [OF l] by (intro history_ev) auto
  then have "history_ok cr ttl P (set_thread k (Some (VScan plain ts)) (ev (EvListed k (run_now s) ts) (set_thread k None s)))"
    using P by (intro history_thread) (auto intro!: exI [of _ "run_now s"] exI [of _ ts])
  then show ?thesis by (simp add: set_thread_ev)
qed

lemma scan_history:
  assumes h: "history_ok cr ttl P s" and th: "run_threads s k = Some (VScan plain (t # ts))"
  shows "history_ok cr ttl P (go cr io k s)"
proof -
  obtain tl ls where l: "plain \<in> P" "EvListed k tl ls \<in> set (run_log s)" "set (t # ts) \<subseteq> set ls" "tl \<le> run_now s"
    using history_okD(6) [OF h th] by auto
  show ?thesis
  proof (cases "scan_tokens (cr_cmp cr) (run_now s) plain [t]")
    case None
    have "history_ok cr ttl P (set_thread k (Some (VScan plain ts)) s)"
      using l by (intro history_thread [OF h]) (auto intro!: exI [of _ tl] exI [of _ ls])
    then show ?thesis using None th by (simp add: go_def)
  next
    case (Some u)
    then have u: "u = t" "tok_Enabled t" "cr_cmp cr (tok_TokenHash t) plain" "\<forall>x. tok_ExpiresAt t = Some x \<longrightarrow> run_now s \<le> x"
      using scan_tokens_SomeD [OF Some] by auto
    have "\<forall>x. tok_ExpiresAt t = Some x \<longrightarrow> tl \<le> x" using u(4) l(4) order_trans by blast
    then have "listed_match cr k plain t (run_log s) (run_now s)"
      using u l unfolding listed_match_def by (meson list.set_intros(1) subsetD)
    then have "history_ok cr ttl P (set_thread k (Some (VMatched plain t)) s)"
      using l(1) by (intro history_thread [OF h]) auto
    then show ?thesis using Some th u(1) by (simp add: go_def)
  qed
qed

lemma install_history:
  assumes h: "history_ok cr ttl P s" and th: "run_threads s k = Some (VMatched plain t)" and "0 < ttl"
  shows "history_ok cr ttl P (go cr io k s)"
proof -
  have m: "plain \<in> P" "listed_match cr k plain t (run_log s) (run_now s)" using history_okD(6) [OF h th] by auto
  define s1 where "s1 = ev (EvInstalled k (run_now s) plain t) (set_thread k None s)"
  have h1: "history_ok cr ttl P s1"
    unfolding s1_def using m by (intro history_ev history_thread [OF h]) auto
  define s2 where "s2 = s1\<lparr>run_cache := cache_install (cr_sha cr) (run_now s) plain t (run_cache s)\<rparr>"
  have "history_ok cr ttl P s2" unfolding s2_def
  proof (rule history_cache [OF h1])
    fix p e
    assume e: "cache_entries (cache_install (cr_sha cr) (run_now s) plain t (run_cache s)) p = Some e"
    show "entry_ok cr P (run_log s1) p e"
    proof (cases "p = tok_TokenPrefix t")
      case True
      have "run_log s1 = [] @ EvInstalled k (run_now s) plain t # run_log s" by (simp add: s1_def)
      then show ?thesis using e m(1) True unfolding entry_ok_def cache_install_def by fastforce
    next
      case False
      then have "cache_entries (run_cache s) p = Some e" using e by (simp add: cache_install_def)
      then show ?thesis using history_okD(7) [OF h] by (simp add: s1_def entry_ok_Cons)
    qed
  qed (use history_okD(2) [OF h] in \<open>simp add: cache_install_def\<close>)
  moreover have "backed ttl (run_now s) plain (validation_result_of t) (run_log s2)"
    using assms(3) unfolding backed_def s2_def s1_def by (intro exI [of _ "[]"]) simp
  ultimately have "history_ok cr ttl P (ev (EvAccepted k (run_now s) plain (validation_result_of t)) s2)"
    by (intro history_ev) simp_all
  moreover have "ev (EvAccepted k (run_now s) plain (validation_result_of t)) s2 = go cr io k s"
    using th by (simp add: go_def s2_def s1_def run_cache_frame)
  ultimately show ?thesis by simp
qed

lemma disable_history:
  assumes h: "history_ok cr ttl P s" and th: "run_threads s k = Some (VFound t)"
  shows "history_ok cr ttl P (go cr io k s)"
proof (cases "Store_SoftDelete io (tok_ID t) (run_disk s)")
  case (Pair e d)
  note d = SoftDelete_evolves [OF history_okD(1) [OF h] Pair]
  have k: "known d t" using history_okD(6) [OF h th] d(1) by (simp add: evolves_def)
  have hd: "history_ok cr ttl P (s\<lparr>run_disk := d\<rparr>)" by (rule history_disk [OF h d(1)])
  have hn: "history_ok cr ttl P (set_thread k None (s\<lparr>run_disk := d\<rparr>))" by (rule history_thread [OF hd]) simp
  show ?thesis
  proof (cases e)
    case None
    have "history_ok cr ttl P (ev (EvDisabled k (tok_ID t)) (set_thread k None (s\<lparr>run_disk := d\<rparr>)))"
      using d(2) None by (intro history_ev [OF hn]) auto
    then have "history_ok cr ttl P (set_thread k (Some (VDeleted t)) (ev (EvDisabled k (tok_ID t)) (set_thread k None (s\<lparr>run_disk := d\<rparr>))))"
      using k by (intro history_thread) auto
    then show ?thesis using Pair None th by (simp add: go_def set_thread_ev)
  next
    case (Some x)
    then show ?thesis using Pair hn th by (simp add: go_def)
  qed
qed

lemma go_history:
  assumes h: "history_ok cr ttl P s" and "0 < ttl"
  shows "history_ok cr ttl P (go cr io k s)"
proof (cases "run_threads s k")
  case None
  then show ?thesis using h by (simp add: go_def)
next
  case (Some th)
  have fin: "history_ok cr ttl P (ev (EvRefused k) (set_thread k None s))"
    by (intro history_ev history_thread [OF h]) auto
  show ?thesis
  proof (cases th)
    case (VMissed plain)
    then show ?thesis using Some fin list_history [OF h] by (simp add: go_def split: sum.split)
  next
    case (VScan plain ts)
    then show ?thesis using Some fin scan_history [OF h] by (cases ts) (auto simp: go_def)
  next
    case (VMatched plain t)
    then show ?thesis using Some install_history [OF h _ assms(2)] by simp
  next
    case (VFound t)
    then show ?thesis using Some disable_history [OF h] by simp
  next
    case (VDeleted t)
    have "known (run_disk s) t" "EvDisabled k (tok_ID t) \<in> set (run_log s)"
      using history_okD(6) [OF h, of k th] Some VDeleted by auto
    then have "history_ok cr ttl P (set_thread k None (ev (EvRevoked k (tok_ID t))
        (s\<lparr>run_cache := Cache_Invalidate (tok_TokenPrefix t) (run_cache s)\<rparr>)))"
      using history_revoked [OF h] by (intro history_thread) auto
    then show ?thesis using Some VDeleted by (simp add: go_def set_thread_ev)
  qed
qed

lemma start_history: "store_wf d \<Longrightarrow> history_ok cr (if ttl = 0 then 5 * minute else ttl) P (auth_start d ttl)"
  by (simp add: history_ok_def auth_start_def NewTokenCache_def)

lemma play_history:
  assumes "store_wf d" and "0 \<le> ttl" and "inj_on (cr_sha cr) P" and "presented_in acts \<subseteq> P"
  shows "history_ok cr (if ttl = 0 then 5 * minute else ttl) P (auth_play cr j acts (auth_start d ttl))"
  using assms(4)
proof (induction acts rule: rev_induct)
  case Nil
  then show ?case using assms(1) by (simp add: auth_play_def start_history)
next
  case (snoc a acts)
  let ?s = "auth_play cr j acts (auth_start d ttl)"
  have "presented_in acts \<subseteq> P" using snoc.prems by (auto simp: presented_in_def)
  then have h: "history_ok cr (if ttl = 0 then 5 * minute else ttl) P ?s" by (rule snoc.IH)
  have "0 < (if ttl = 0 then 5 * minute else ttl)" using assms(2) by (simp add: minute_def second_def)
  then have "history_ok cr (if ttl = 0 then 5 * minute else ttl) P (auth_exec cr j a ?s)"
    using h arrive_history [OF h assms(3)] snoc.prems
    by (cases a) (auto simp: history_tick revoke_request_history create_request_history go_history presented_in_def)
  then show ?case by (simp add: auth_play_def)
qed

section \<open>The sections compose to the handlers\<close>

text \<open>When no other request comes between, the sections of one validation are \<open>TokenCache.Validate\<close>, and
  the sections of one revocation are \<open>RevokeToken\<close>.\<close>

definition outcome_event :: "nat \<Rightarrow> instant \<Rightarrow> string \<Rightarrow> store_error + validation_result \<Rightarrow> auth_event" where
  "outcome_event k n plain res = (case res of Inl _ \<Rightarrow> EvRefused k | Inr r \<Rightarrow> EvAccepted k n plain r)"

lemma go_scan_alone:
  assumes "run_threads s k = Some (VScan plain ts)"
    and "scan_and_install (cr_cmp cr) (cr_sha cr) (run_now s) plain (Inr ts) (run_cache s) = (res, c)"
  shows "\<exists>m. run_cache ((go cr io k ^^ m) s) = c \<and> run_threads ((go cr io k ^^ m) s) k = None
    \<and> (\<exists>L. run_log ((go cr io k ^^ m) s) = outcome_event k (run_now s) plain res # L)"
  using assms
proof (induction ts arbitrary: s)
  case Nil
  then show ?case
    by (intro exI [of _ 1]) (auto simp: go_def scan_and_install_def outcome_event_def)
next
  case (Cons t ts)
  show ?case
  proof (cases "scan_tokens (cr_cmp cr) (run_now s) plain [t]")
    case None
    have g: "go cr io k s = set_thread k (Some (VScan plain ts)) s" using None Cons.prems(1) by (simp add: go_def)
    have "scan_tokens (cr_cmp cr) (run_now s) plain (t # ts) = scan_tokens (cr_cmp cr) (run_now s) plain ts"
      using None by (auto split: if_splits)
    then have "scan_and_install (cr_cmp cr) (cr_sha cr) (run_now (go cr io k s)) plain (Inr ts) (run_cache (go cr io k s)) = (res, c)"
      using Cons.prems(2) g by (simp add: scan_and_install_def)
    then obtain m where "run_cache ((go cr io k ^^ m) (go cr io k s)) = c \<and> run_threads ((go cr io k ^^ m) (go cr io k s)) k = None
      \<and> (\<exists>L. run_log ((go cr io k ^^ m) (go cr io k s)) = outcome_event k (run_now (go cr io k s)) plain res # L)"
      using Cons.IH [of "go cr io k s"] g by auto
    then show ?thesis using g by (intro exI [of _ "Suc m"]) (simp add: funpow_Suc_right del: funpow.simps)
  next
    case (Some u)
    have g: "go cr io k s = set_thread k (Some (VMatched plain u)) s" using Some Cons.prems(1) by (simp add: go_def)
    have "scan_tokens (cr_cmp cr) (run_now s) plain (t # ts) = Some u" using Some by (auto split: if_splits)
    then have "res = Inr (validation_result_of u)" "c = cache_install (cr_sha cr) (run_now s) plain u (run_cache s)"
      using Cons.prems(2) by (auto simp: scan_and_install_def)
    then show ?thesis using g
      by (intro exI [of _ 2]) (simp add: numeral_2_eq_2, simp add: go_def outcome_event_def)
  qed
qed

lemma validate_alone:
  assumes "Cache_Validate (cr_cmp cr) (cr_sha cr) (run_now s) plain (run_disk s) (run_cache s) = (res, c)"
  shows "\<exists>m. run_cache ((go cr io (run_next s) ^^ m) (present_pat cr plain s)) = c
    \<and> (\<exists>L. run_log ((go cr io (run_next s) ^^ m) (present_pat cr plain s)) = outcome_event (run_next s) (run_now s) plain res # L)"
proof (cases "cache_lookup (cr_sha cr) (run_now s) plain (run_cache s)")
  case (Some r)
  then show ?thesis using assms
    by (intro exI [of _ 0]) (auto simp: Cache_Validate_def validate_with_def present_pat_def outcome_event_def)
next
  case None
  let ?k = "run_next s"
  define s1 where "s1 = present_pat cr plain s"
  have s1: "run_threads s1 ?k = Some (VMissed plain)" "run_now s1 = run_now s" "run_disk s1 = run_disk s" "run_cache s1 = run_cache s"
    using None by (simp_all add: s1_def present_pat_def)
  have v: "scan_and_install (cr_cmp cr) (cr_sha cr) (run_now s) plain (Store_List (run_disk s)) (run_cache s) = (res, c)"
    using assms None by (simp add: Cache_Validate_def validate_with_def)
  show ?thesis
  proof (cases "Store_List (run_disk s)")
    case (Inl e)
    then show ?thesis using v s1
      by (intro exI [of _ 1]) (auto simp: s1_def [symmetric] go_def scan_and_install_def outcome_event_def)
  next
    case (Inr ts)
    then have g: "go cr io ?k s1 = ev (EvListed ?k (run_now s) ts) (set_thread ?k (Some (VScan plain ts)) s1)"
      using s1 by (simp add: go_def)
    obtain m where "run_cache ((go cr io ?k ^^ m) (go cr io ?k s1)) = c
        \<and> (\<exists>L. run_log ((go cr io ?k ^^ m) (go cr io ?k s1)) = outcome_event ?k (run_now s) plain res # L)"
      using go_scan_alone [of "go cr io ?k s1" ?k plain ts cr res c io] v Inr s1 g by auto
    then show ?thesis
      by (intro exI [of _ "Suc m"]) (simp add: s1_def [symmetric] funpow_Suc_right del: funpow.simps)
  qed
qed

lemma revoke_alone:
  fixes sv :: "'w server"
  assumes "RevokeToken env i r info sv = (rep, sv')" and "succeeded rep"
    and "run_disk s = srv_disk sv" and "run_cache s = srv_cache sv"
  shows "run_disk ((go cr (re_io env) (run_next s) ^^ 2) (revoke_request i s)) = srv_disk sv'
    \<and> run_cache ((go cr (re_io env) (run_next s) ^^ 2) (revoke_request i s)) = srv_cache sv'
    \<and> (\<exists>L. run_log ((go cr (re_io env) (run_next s) ^^ 2) (revoke_request i s)) = EvRevoked (run_next s) i # L)"
proof -
  from assms(1,2) obtain t d where t: "i \<noteq> []" "Store_GetByID i (srv_disk sv) = Inr t"
      "Store_SoftDelete (re_io env) i (srv_disk sv) = (None, d)"
      "sv' = sv\<lparr>srv_disk := d, srv_cache := Cache_Invalidate (tok_TokenPrefix t) (srv_cache sv)\<rparr>"
    by (auto simp: RevokeToken_def split: if_splits sum.splits prod.splits option.splits)
  have "tok_ID t = i" using known_found [OF t(2)] by simp
  then show ?thesis using t assms(3,4)
    by (simp add: numeral_2_eq_2 revoke_request_def, simp add: go_def)
qed

section \<open>Properties\<close>

text \<open>C5: What acceptance means, over every interleaving. Start from an empty cache and let any requests,
  token creations and revocations interleave section by section. Whenever the cache or a scan accepts a
  plaintext, some validation of this very plaintext had listed the store, found there the token whose
  identity, name and scope are returned, enabled, with a hash that bcrypt matches, and not past its expiry
  when listed; it installed the token less than the TTL ago (5 minutes when \<open>main\<close> passes 0); and no
  revocation of that token has been completed since the installation. SHA-256 is assumed injective on the
  plaintexts presented in the run.\<close>

theorem acceptance_backed:
  assumes "store_wf d" and "0 \<le> ttl" and "inj_on (cr_sha cr) (presented_in acts)"
    and "run_log (auth_play cr j acts (auth_start d ttl)) = B @ EvAccepted k n plain r # A"
  shows "\<exists>C i ti t D tl ts. A = C @ EvInstalled i ti plain t # D \<and> (\<forall>k'. EvRevoked k' (tok_ID t) \<notin> set C)
    \<and> n < ti + (if ttl = 0 then 5 * 60 * 1000000000 else ttl)
    \<and> r = \<lparr>res_TokenID = tok_ID t, res_TokenName = tok_Name t, res_Scope = tok_Scope t\<rparr>
    \<and> EvListed i tl ts \<in> set D \<and> tl \<le> ti \<and> t \<in> set ts \<and> tok_Enabled t \<and> cr_cmp cr (tok_TokenHash t) plain
    \<and> (\<forall>x. tok_ExpiresAt t = Some x \<longrightarrow> tl \<le> x)"
proof -
  let ?ttl = "if ttl = 0 then 5 * minute else ttl"
  have "history_ok cr ?ttl (presented_in acts) (auth_play cr j acts (auth_start d ttl))"
    by (rule play_history [OF assms(1-3) order_refl])
  then have l: "log_ok cr ?ttl (B @ EvAccepted k n plain r # A)" using history_okD(3) assms(4) by metis
  then obtain C i ti t D where b: "A = C @ EvInstalled i ti plain t # D" "r = validation_result_of t"
      "n < ti + ?ttl" "\<forall>k'. EvRevoked k' (tok_ID t) \<notin> set C"
    using log_ok_at [OF l] unfolding justified.simps backed_def by blast
  have "log_ok cr ?ttl ((B @ EvAccepted k n plain r # C) @ EvInstalled i ti plain t # D)" using l b(1) by simp
  then have "listed_match cr i plain t D ti" using log_ok_at by (metis justified.simps(2))
  then obtain tl ts where "EvListed i tl ts \<in> set D" "tl \<le> ti" "t \<in> set ts" "tok_Enabled t"
      "cr_cmp cr (tok_TokenHash t) plain" "\<forall>x. tok_ExpiresAt t = Some x \<longrightarrow> tl \<le> x"
    unfolding listed_match_def by blast
  moreover have "n < ti + (if ttl = 0 then 5 * 60 * 1000000000 else ttl)"
    using b(3) by (simp add: minute_def second_def split: if_splits)
  ultimately show ?thesis using b(1,2,4) unfolding validation_result_of_def by blast
qed

definition cached_run :: "auth_action list" where
  "cached_run = [AcArrive sample_request, AcGo io_all_ok 0, AcGo io_all_ok 0, AcGo io_all_ok 0, AcTick 9,
     AcArrive sample_request]"

definition raced_run :: "auth_action list" where
  "raced_run = [AcArrive sample_request, AcGo io_all_ok 0, AcRevoke ''1'', AcGo io_all_ok 1, AcGo io_all_ok 1,
     AcGo io_all_ok 0, AcGo io_all_ok 0, AcTick 400000000000, AcArrive sample_request, AcGo io_all_ok 2,
     AcGo io_all_ok 2, AcGo io_all_ok 2]"

definition ci_result :: validation_result where
  "ci_result = \<lparr>res_TokenID = ''1'', res_TokenName = ''ci'', res_Scope = ScopeRead\<rparr>"

definition ci_revoked :: api_token where
  "ci_revoked = (sample_token ''1'' ''ci'')\<lparr>tok_Enabled := False\<rparr>"

lemma cached_run_log:
  "run_log (auth_play sample_crypto sample_issuer cached_run (auth_start sample_disk 0))
    = [EvAccepted 1 9 ''unet_abcXYZ'' ci_result, EvAccepted 0 0 ''unet_abcXYZ'' ci_result,
       EvInstalled 0 0 ''unet_abcXYZ'' (sample_token ''1'' ''ci''), EvListed 0 0 [sample_token ''1'' ''ci'']]"
  by code_simp

lemma raced_run_log:
  "run_log (auth_play sample_crypto sample_issuer raced_run (auth_start sample_disk 0))
    = [EvRefused 2, EvListed 2 400000000000 [ci_revoked], EvAccepted 0 0 ''unet_abcXYZ'' ci_result,
       EvInstalled 0 0 ''unet_abcXYZ'' (sample_token ''1'' ''ci''), EvRevoked 1 ''1'', EvDisabled 1 ''1'',
       EvListed 0 0 [sample_token ''1'' ''ci'']]"
  by code_simp

lemma sample_disk_wf: "store_wf sample_disk"
  by (simp add: sample_disk_def store_wf_def Store_load_def)

theorem acceptance_backed_witness:
  "\<exists>C i ti t D tl ts. [EvAccepted 0 0 ''unet_abcXYZ'' ci_result,
       EvInstalled 0 0 ''unet_abcXYZ'' (sample_token ''1'' ''ci''), EvListed 0 0 [sample_token ''1'' ''ci'']]
        = C @ EvInstalled i ti ''unet_abcXYZ'' t # D \<and> 9 < ti + 300000000000 \<and> tok_ID t = ''1''
      \<and> EvListed i tl ts \<in> set D \<and> t \<in> set ts \<and> tok_Enabled t"
proof -
  have "run_log (auth_play sample_crypto sample_issuer cached_run (auth_start sample_disk 0))
      = [] @ EvAccepted 1 9 ''unet_abcXYZ'' ci_result # [EvAccepted 0 0 ''unet_abcXYZ'' ci_result,
       EvInstalled 0 0 ''unet_abcXYZ'' (sample_token ''1'' ''ci''), EvListed 0 0 [sample_token ''1'' ''ci'']]"
    by (simp add: cached_run_log)
  from acceptance_backed [OF sample_disk_wf order_refl sample_inj this] obtain C i ti t D tl ts
    where "[EvAccepted 0 0 ''unet_abcXYZ'' ci_result,
       EvInstalled 0 0 ''unet_abcXYZ'' (sample_token ''1'' ''ci''), EvListed 0 0 [sample_token ''1'' ''ci'']]
        = C @ EvInstalled i ti ''unet_abcXYZ'' t # D" "9 < ti + 300000000000" "tok_ID t = ''1''"
      "EvListed i tl ts \<in> set D" "t \<in> set ts" "tok_Enabled t"
    by (auto simp: ci_result_def)
  then show ?thesis by blast
qed

text \<open>C3: A revocation is final for every later validation. Once \<open>RevokeToken\<close> has answered success for an
  identifier, then in every interleaving that follows no session token is let through under it, and an
  access token is let through under it only by way of a validation that had listed the store before the
  revocation disabled the token, installed its entry after the revocation's answer, and did so less than
  the TTL before. A validation that lists later, and an entry installed earlier, never let it in.\<close>

theorem revocation_locks_out:
  assumes "store_wf d" and "0 \<le> ttl" and "inj_on (cr_sha cr) (presented_in acts)"
    and "run_log (auth_play cr j acts (auth_start d ttl)) = B @ EvRevoked k i # A"
  shows "(\<forall>k' n. EvSession k' n i \<notin> set B)
    \<and> (\<exists>A1 A2. A = A1 @ EvDisabled k i # A2
        \<and> (\<forall>k' n plain r. EvAccepted k' n plain r \<in> set B \<longrightarrow> res_TokenID r = i \<longrightarrow>
              (\<exists>v tl ts ti t. EvListed v tl ts \<in> set A2 \<and> EvInstalled v ti plain t \<in> set B
                 \<and> n < ti + (if ttl = 0 then 5 * 60 * 1000000000 else ttl))))"
proof -
  let ?ttl = "if ttl = 0 then 5 * 60 * 1000000000 else ttl"
  have "history_ok cr ?ttl (presented_in acts) (auth_play cr j acts (auth_start d ttl))"
    using play_history [OF assms(1-3) order_refl, of j] by (cases "ttl = 0") (simp_all add: minute_def second_def)
  then have l: "log_ok cr ?ttl (B @ EvRevoked k i # A)" using history_okD(3) assms(4) by metis
  then have "EvDisabled k i \<in> set A" using log_ok_at by (metis justified.simps(5))
  then obtain A1 A2 where A: "A = A1 @ EvDisabled k i # A2" by (meson split_list)
  have "EvSession k' n i \<notin> set B" for k' n
  proof
    assume "EvSession k' n i \<in> set B"
    then obtain B1 B2 where "B = B1 @ EvSession k' n i # B2" by (meson split_list)
    then have "justified cr ?ttl (EvSession k' n i) (B2 @ EvRevoked k i # A)"
      using l log_ok_at [of cr ?ttl B1 "EvSession k' n i" "B2 @ EvRevoked k i # A"] by simp
    then show False using A by auto
  qed
  moreover
  have "\<exists>v tl ts ti t. EvListed v tl ts \<in> set A2 \<and> EvInstalled v ti plain t \<in> set B \<and> n < ti + ?ttl"
    if acc: "EvAccepted k' n plain r \<in> set B" and r: "res_TokenID r = i" for k' n plain r
  proof -
    obtain B1 B2 where B: "B = B1 @ EvAccepted k' n plain r # B2" using acc by (meson split_list)
    then have "justified cr ?ttl (EvAccepted k' n plain r) (B2 @ EvRevoked k i # A)"
      using l log_ok_at [of cr ?ttl B1 "EvAccepted k' n plain r" "B2 @ EvRevoked k i # A"] by simp
    then obtain C v ti t D where b: "B2 @ EvRevoked k i # A = C @ EvInstalled v ti plain t # D"
        "r = validation_result_of t" "n < ti + ?ttl" "\<forall>k'. EvRevoked k' (tok_ID t) \<notin> set C"
      unfolding justified.simps backed_def by blast
    have ti: "tok_ID t = i" using b(2) r by (simp add: validation_result_of_def)
    then have "EvRevoked k i \<notin> set C" using b(4) by blast
    then obtain E where E: "B2 = C @ EvInstalled v ti plain t # E" "D = E @ EvRevoked k i # A"
      using b(1) by (auto simp: append_eq_append_conv2 Cons_eq_append_conv append_eq_Cons_conv)
    have "log_ok cr ?ttl ((B1 @ EvAccepted k' n plain r # C) @ EvInstalled v ti plain t # D)" using l B E by simp
    then have "listed_match cr v plain t D ti" using log_ok_at by (metis justified.simps(2))
    then obtain tl ts where m: "EvListed v tl ts \<in> set D" "t \<in> set ts" "tok_Enabled t"
      unfolding listed_match_def by blast
    then obtain X Y where D: "D = X @ EvListed v tl ts # Y" by (meson split_list)
    have "log_ok cr ?ttl ((B1 @ EvAccepted k' n plain r # C @ EvInstalled v ti plain t # X) @ EvListed v tl ts # Y)"
      using l B E D by simp
    then have "EvDisabled k i \<notin> set Y" using log_ok_at m(2,3) ti by (metis justified.simps(1))
    moreover have "(E @ EvRevoked k i # A1) @ EvDisabled k i # A2 = X @ EvListed v tl ts # Y" using D E A by simp
    ultimately have "EvListed v tl ts \<in> set A2"
      by (auto simp: append_eq_append_conv2 Cons_eq_append_conv append_eq_Cons_conv)
    moreover have "EvInstalled v ti plain t \<in> set B" using E B by simp
    ultimately show ?thesis using b(3) by blast
  qed
  ultimately show ?thesis using A by blast
qed

theorem revocation_locks_out_witness:
  "\<exists>A1 A2. [EvDisabled 1 ''1'', EvListed 0 0 [sample_token ''1'' ''ci'']] = A1 @ EvDisabled 1 ''1'' # A2
    \<and> (\<exists>v tl ts ti t. EvListed v tl ts \<in> set A2 \<and> 0 < ti + (300000000000::int)
        \<and> EvInstalled v ti ''unet_abcXYZ'' t \<in> {EvInstalled 0 0 ''unet_abcXYZ'' (sample_token ''1'' ''ci'')})"
proof -
  have "run_log (auth_play sample_crypto sample_issuer raced_run (auth_start sample_disk 0))
      = [EvRefused 2, EvListed 2 400000000000 [ci_revoked], EvAccepted 0 0 ''unet_abcXYZ'' ci_result,
       EvInstalled 0 0 ''unet_abcXYZ'' (sample_token ''1'' ''ci'')] @ EvRevoked 1 ''1'' # [EvDisabled 1 ''1'',
       EvListed 0 0 [sample_token ''1'' ''ci'']]"
    by (simp add: raced_run_log)
  from revocation_locks_out [OF sample_disk_wf order_refl sample_inj this] obtain A1 A2
    where A: "[EvDisabled 1 ''1'', EvListed 0 0 [sample_token ''1'' ''ci'']] = A1 @ EvDisabled 1 ''1'' # A2"
      and imp: "\<forall>k' n plain r. EvAccepted k' n plain r \<in> set [EvRefused 2, EvListed 2 400000000000 [ci_revoked],
          EvAccepted 0 0 ''unet_abcXYZ'' ci_result, EvInstalled 0 0 ''unet_abcXYZ'' (sample_token ''1'' ''ci'')]
        \<longrightarrow> res_TokenID r = ''1'' \<longrightarrow> (\<exists>v tl ts ti t. EvListed v tl ts \<in> set A2
          \<and> EvInstalled v ti plain t \<in> set [EvRefused 2, EvListed 2 400000000000 [ci_revoked],
              EvAccepted 0 0 ''unet_abcXYZ'' ci_result, EvInstalled 0 0 ''unet_abcXYZ'' (sample_token ''1'' ''ci'')]
          \<and> n < ti + (if (0::int) = 0 then 5 * 60 * 1000000000 else 0))"
    by blast
  have "res_TokenID ci_result = ''1''" by (simp add: ci_result_def)
  from imp [rule_format, OF _ this, of 0 0 "''unet_abcXYZ''"] have
    "\<exists>v tl ts ti t. EvListed v tl ts \<in> set A2 \<and> 0 < ti + (300000000000::int)
        \<and> EvInstalled v ti ''unet_abcXYZ'' t \<in> {EvInstalled 0 0 ''unet_abcXYZ'' (sample_token ''1'' ''ci'')}"
    by simp
  then show ?thesis using A by blast
qed

end
