(* ===== verification/Config_Memory.thy ===== *)
theory Config_Memory
  imports Ports_Api
begin

text \<open>
  The configuration manager of \<open>config/config.go\<close> on Go's memory. A \<open>RootConfig\<close> is a struct whose only
  reference is the slice \<open>ExposedPorts\<close>; a slice is a window on a backing array, and several structs may
  hold windows on one array. The callbacks of \<open>Update\<close> write through the slice: an append within the
  capacity and a deletion by shifting change the array in place. \<open>cloneConfig\<close> is what separates the draft
  from everything that was handed out. The theory proves that it does, and that on this memory \<open>Update\<close>
  refines the update on values that the other theories use.
\<close>

section \<open>Memory\<close>

text \<open>A slice starts at the first element of its array; the capacity is the array's length. Addresses are
  indices of arrays and of structs. The field \<open>cfg_ExposedPorts\<close> of \<open>cs_fields\<close> is not used.\<close>

record port_slice =
  sl_array :: nat
  sl_len :: nat

record config_struct =
  cs_fields :: root_config
  cs_ports :: "port_slice option"

record go_memory =
  gm_arrays :: "exposed_port list list"
  gm_structs :: "config_struct list"

definition read_slice :: "go_memory \<Rightarrow> port_slice option \<Rightarrow> exposed_port list" where
  "read_slice g s = (case s of None \<Rightarrow> [] | Some w \<Rightarrow> take (sl_len w) (gm_arrays g ! sl_array w))"

definition read_config :: "go_memory \<Rightarrow> config_ptr \<Rightarrow> root_config" where
  "read_config g p = (cs_fields (gm_structs g ! p))\<lparr>cfg_ExposedPorts := read_slice g (cs_ports (gm_structs g ! p))\<rparr>"

definition alloc_array :: "exposed_port list \<Rightarrow> go_memory \<Rightarrow> nat \<times> go_memory" where
  "alloc_array xs g = (length (gm_arrays g), g\<lparr>gm_arrays := gm_arrays g @ [xs]\<rparr>)"

definition set_array :: "nat \<Rightarrow> exposed_port list \<Rightarrow> go_memory \<Rightarrow> go_memory" where
  "set_array a xs g = g\<lparr>gm_arrays := (gm_arrays g)[a := xs]\<rparr>"

definition set_struct :: "config_ptr \<Rightarrow> config_struct \<Rightarrow> go_memory \<Rightarrow> go_memory" where
  "set_struct p c g = g\<lparr>gm_structs := (gm_structs g)[p := c]\<rparr>"

section \<open>Operations\<close>

definition cloneConfig :: "config_ptr \<Rightarrow> go_memory \<Rightarrow> config_ptr \<times> go_memory" where
  "cloneConfig src g =
     (let dst = gm_structs g ! src;
          (dst1, g1) = (case cs_ports dst of
             None \<Rightarrow> (dst, g)
           | Some w \<Rightarrow> (let (a, g1) = alloc_array (take (sl_len w) (gm_arrays g ! sl_array w)) g
                       in (dst\<lparr>cs_ports := Some \<lparr>sl_array = a, sl_len = sl_len w\<rparr>\<rparr>, g1)))
      in (length (gm_structs g1), g1\<lparr>gm_structs := gm_structs g1 @ [dst1]\<rparr>))"

text \<open>\<open>append(s, p)\<close>: in place when the capacity allows it, else into a new array with some spare room,
  which \<open>grow\<close> gives.\<close>

definition zero_port :: exposed_port where
  "zero_port = \<lparr>ep_ID = [], ep_Protocol = [], ep_Internal = 0, ep_HostHeader = [], ep_Status = [], ep_CreatedAt = []\<rparr>"

definition append_slice :: "(nat \<Rightarrow> nat) \<Rightarrow> exposed_port \<Rightarrow> port_slice option \<Rightarrow> go_memory \<Rightarrow> port_slice option \<times> go_memory" where
  "append_slice grow ep s g =
     (let n = (case s of None \<Rightarrow> 0 | Some w \<Rightarrow> sl_len w) in
      case s of
        Some w \<Rightarrow>
          if n < length (gm_arrays g ! sl_array w)
          then (Some (w\<lparr>sl_len := n + 1\<rparr>), set_array (sl_array w) ((gm_arrays g ! sl_array w)[n := ep]) g)
          else let (a, g1) = alloc_array (read_slice g s @ [ep] @ replicate (grow n) zero_port) g
               in (Some \<lparr>sl_array = a, sl_len = n + 1\<rparr>, g1)
      | None \<Rightarrow> let (a, g1) = alloc_array ([ep] @ replicate (grow 0) zero_port) g in (Some \<lparr>sl_array = a, sl_len = 1\<rparr>, g1))"

text \<open>\<open>append(s[:i], s[i+1:]...)\<close>: the tail is shifted down in place, the last element stays behind.\<close>

definition delete_slice :: "nat \<Rightarrow> port_slice option \<Rightarrow> go_memory \<Rightarrow> port_slice option \<times> go_memory" where
  "delete_slice i s g =
     (case s of
        None \<Rightarrow> (None, g)
      | Some w \<Rightarrow>
          if i < sl_len w
          then let xs = gm_arrays g ! sl_array w; n = sl_len w
               in (Some (w\<lparr>sl_len := n - 1\<rparr>), set_array (sl_array w) (take i xs @ drop (Suc i) (take n xs) @ drop (n - 1) xs) g)
          else (s, g))"

text \<open>What a callback does to the draft: assignments to fields, an append, a deletion at an index. It decides
  by what it reads in the draft.\<close>

datatype config_edit = EditFields "root_config \<Rightarrow> root_config" | AppendPort exposed_port | DeletePort nat

type_synonym callback = "root_config \<Rightarrow> config_edit list"

fun edit_memory :: "(nat \<Rightarrow> nat) \<Rightarrow> config_ptr \<Rightarrow> config_edit \<Rightarrow> go_memory \<Rightarrow> go_memory" where
  "edit_memory grow p (EditFields f) g = set_struct p ((gm_structs g ! p)\<lparr>cs_fields := f (read_config g p)\<rparr>) g"
| "edit_memory grow p (AppendPort ep) g =
     (let (s, g1) = append_slice grow ep (cs_ports (gm_structs g ! p)) g
      in set_struct p ((gm_structs g ! p)\<lparr>cs_ports := s\<rparr>) g1)"
| "edit_memory grow p (DeletePort i) g =
     (let (s, g1) = delete_slice i (cs_ports (gm_structs g ! p)) g
      in set_struct p ((gm_structs g ! p)\<lparr>cs_ports := s\<rparr>) g1)"

record memory_manager =
  mm_memory :: go_memory
  mm_config :: config_ptr
  mm_disk :: "root_config disk"

definition Update_memory :: "(nat \<Rightarrow> nat) \<Rightarrow> io_env \<Rightarrow> callback \<Rightarrow> memory_manager \<Rightarrow> io_error option \<times> memory_manager" where
  "Update_memory grow io fn m =
     (let (draft, g) = cloneConfig (mm_config m) (mm_memory m);
          g1 = fold (edit_memory grow draft) (fn (read_config g draft)) g
      in case saveLocked io (read_config g1 draft) (mm_disk m) of
           (Some e, d) \<Rightarrow> (Some e, m\<lparr>mm_memory := g1, mm_disk := d\<rparr>)
         | (None, d) \<Rightarrow> (None, m\<lparr>mm_memory := g1, mm_disk := d, mm_config := draft\<rparr>))"

section \<open>The same edits on values\<close>

fun edit_value :: "config_edit \<Rightarrow> root_config \<Rightarrow> root_config" where
  "edit_value (EditFields f) c = (f c)\<lparr>cfg_ExposedPorts := cfg_ExposedPorts c\<rparr>"
| "edit_value (AppendPort ep) c = c\<lparr>cfg_ExposedPorts := cfg_ExposedPorts c @ [ep]\<rparr>"
| "edit_value (DeletePort i) c = c\<lparr>cfg_ExposedPorts := take i (cfg_ExposedPorts c) @ drop (Suc i) (cfg_ExposedPorts c)\<rparr>"

text \<open>The callbacks of the ports handlers, as edits.\<close>

lemma append_port_edits:
  "append_port ep c = fold edit_value (if has_host (ep_HostHeader ep) c then [] else [AppendPort ep]) c"
  by (simp add: append_port_def)

section \<open>Frames\<close>

text \<open>All slices point into allocated arrays and fit them. Nothing is said about sharing.\<close>

definition slice_ok :: "go_memory \<Rightarrow> port_slice option \<Rightarrow> bool" where
  "slice_ok g s \<longleftrightarrow> (\<forall>w. s = Some w \<longrightarrow> sl_array w < length (gm_arrays g) \<and> sl_len w \<le> length (gm_arrays g ! sl_array w))"

definition memory_ok :: "go_memory \<Rightarrow> bool" where
  "memory_ok g \<longleftrightarrow> (\<forall>c \<in> set (gm_structs g). slice_ok g (cs_ports c))"

text \<open>The draft at \<open>p\<close> owns its array: it was allocated after the first \<open>n\<close>. The memory keeps the structs
  and the arrays of \<open>g\<close>.\<close>

definition owns :: "go_memory \<Rightarrow> config_ptr \<Rightarrow> go_memory \<Rightarrow> bool" where
  "owns g p g' \<longleftrightarrow> p = length (gm_structs g) \<and> length (gm_structs g') = Suc p
     \<and> (\<forall>q < p. gm_structs g' ! q = gm_structs g ! q)
     \<and> length (gm_arrays g) \<le> length (gm_arrays g') \<and> (\<forall>a < length (gm_arrays g). gm_arrays g' ! a = gm_arrays g ! a)
     \<and> slice_ok g' (cs_ports (gm_structs g' ! p))
     \<and> (\<forall>w. cs_ports (gm_structs g' ! p) = Some w \<longrightarrow> length (gm_arrays g) \<le> sl_array w)"

lemma ownsD:
  assumes "owns g p g'"
  shows "p = length (gm_structs g)" "length (gm_structs g') = Suc p" "q < p \<Longrightarrow> gm_structs g' ! q = gm_structs g ! q"
    "length (gm_arrays g) \<le> length (gm_arrays g')" "a < length (gm_arrays g) \<Longrightarrow> gm_arrays g' ! a = gm_arrays g ! a"
    "slice_ok g' (cs_ports (gm_structs g' ! p))" "cs_ports (gm_structs g' ! p) = Some w \<Longrightarrow> length (gm_arrays g) \<le> sl_array w"
  using assms unfolding owns_def by blast+

lemma owns_reads:
  assumes "memory_ok g" and "owns g p g'" and "q < length (gm_structs g)"
  shows "read_config g' q = read_config g q"
proof -
  have "slice_ok g (cs_ports (gm_structs g ! q))" using assms(1,3) by (auto simp: memory_ok_def)
  then have "read_slice g' (cs_ports (gm_structs g ! q)) = read_slice g (cs_ports (gm_structs g ! q))"
    using ownsD(5) [OF assms(2)] by (auto simp: read_slice_def slice_ok_def split: option.splits)
  then show ?thesis using ownsD(1,3) [OF assms(2)] assms(3) by (simp add: read_config_def)
qed

lemma owns_memory_ok:
  assumes "memory_ok g" and o: "owns g p g'"
  shows "memory_ok g'"
  unfolding memory_ok_def
proof
  fix c assume "c \<in> set (gm_structs g')"
  then obtain q where q: "q < Suc p" "c = gm_structs g' ! q" using ownsD(2) [OF o] by (metis in_set_conv_nth)
  show "slice_ok g' (cs_ports c)"
  proof (cases "q = p")
    case True
    then show ?thesis using ownsD(6) [OF o] q by simp
  next
    case False
    then have "c = gm_structs g ! q" "q < length (gm_structs g)" using q ownsD(1,3) [OF o] by auto
    then have "slice_ok g (cs_ports c)" using assms(1) by (simp add: memory_ok_def)
    then show ?thesis using ownsD(4,5) [OF o] by (auto simp: slice_ok_def intro: less_le_trans)
  qed
qed

lemma clone_owns:
  assumes "memory_ok g" and "src < length (gm_structs g)" and "cloneConfig src g = (p, g')"
  shows "owns g p g'" and "read_config g' p = read_config g src"
proof -
  let ?c = "gm_structs g ! src"
  have s: "slice_ok g (cs_ports ?c)" using assms(1,2) by (simp add: memory_ok_def)
  have "owns g p g' \<and> read_config g' p = read_config g src"
  proof (cases "cs_ports ?c")
    case None
    then show ?thesis using assms(3)
      by (auto simp: cloneConfig_def owns_def slice_ok_def read_config_def read_slice_def nth_append Let_def)
  next
    case (Some w)
    then show ?thesis using assms(3) s
      by (auto simp: cloneConfig_def alloc_array_def owns_def slice_ok_def read_config_def read_slice_def nth_append Let_def)
  qed
  then show "owns g p g'" and "read_config g' p = read_config g src" by blast+
qed

lemma delete_slice_read:
  assumes "i < n" and "n \<le> length xs"
  shows "take (n - 1) (take i xs @ drop (Suc i) (take n xs) @ drop (n - 1) xs) = take i (take n xs) @ drop (Suc i) (take n xs)"
    and "length (take i xs @ drop (Suc i) (take n xs) @ drop (n - 1) xs) = length xs"
  using assms by (simp_all add: min_absorb1 min_absorb2)

lemma edit_owns:
  assumes "owns g p g'"
  shows "owns g p (edit_memory grow p e g')" and "read_config (edit_memory grow p e g') p = edit_value e (read_config g' p)"
proof -
  let ?s = "cs_ports (gm_structs g' ! p)"
  note o = ownsD [OF assms]
  have p: "p < length (gm_structs g')" using o(2) by simp
  have "owns g p (edit_memory grow p e g') \<and> read_config (edit_memory grow p e g') p = edit_value e (read_config g' p)"
  proof (cases e)
    case (EditFields f)
    then show ?thesis using assms p
      by (auto simp: owns_def set_struct_def slice_ok_def read_config_def read_slice_def split: option.splits)
  next
    case (AppendPort ep)
    show ?thesis
    proof (cases ?s)
      case None
      then show ?thesis using AppendPort assms p
        by (auto simp: owns_def set_struct_def slice_ok_def read_config_def read_slice_def append_slice_def alloc_array_def nth_append Let_def)
    next
      case (Some w)
      have w: "sl_array w < length (gm_arrays g')" "sl_len w \<le> length (gm_arrays g' ! sl_array w)" "length (gm_arrays g) \<le> sl_array w"
        using o(6,7) Some by (auto simp: slice_ok_def)
      show ?thesis
      proof (cases "sl_len w < length (gm_arrays g' ! sl_array w)")
        case True
        then have "take (Suc (sl_len w)) ((gm_arrays g' ! sl_array w)[sl_len w := ep]) = take (sl_len w) (gm_arrays g' ! sl_array w) @ [ep]"
          by (simp add: take_Suc_conv_app_nth take_update_cancel)
        then show ?thesis using AppendPort assms p Some True w
          by (auto simp: owns_def set_struct_def set_array_def slice_ok_def read_config_def read_slice_def append_slice_def Let_def)
      next
        case False
        then show ?thesis using AppendPort assms p Some w
          by (auto simp: owns_def set_struct_def slice_ok_def read_config_def read_slice_def append_slice_def alloc_array_def nth_append Let_def)
      qed
    qed
  next
    case (DeletePort i)
    show ?thesis
    proof (cases ?s)
      case None
      then show ?thesis using DeletePort assms p
        by (auto simp: owns_def set_struct_def slice_ok_def read_config_def read_slice_def delete_slice_def)
    next
      case (Some w)
      have w: "sl_array w < length (gm_arrays g')" "sl_len w \<le> length (gm_arrays g' ! sl_array w)" "length (gm_arrays g) \<le> sl_array w"
        using o(6,7) Some by (auto simp: slice_ok_def)
      show ?thesis
      proof (cases "i < sl_len w")
        case True
        note d = delete_slice_read [OF True w(2)]
        show ?thesis using DeletePort assms p Some True w d
          by (auto simp: owns_def set_struct_def set_array_def slice_ok_def read_config_def read_slice_def delete_slice_def Let_def
              simp del: length_append take_append)
      next
        case False
        then show ?thesis using DeletePort assms p Some w
          by (auto simp: owns_def set_struct_def slice_ok_def read_config_def read_slice_def delete_slice_def)
      qed
    qed
  qed
  then show "owns g p (edit_memory grow p e g')"
    and "read_config (edit_memory grow p e g') p = edit_value e (read_config g' p)" by blast+
qed

lemma edits_owns:
  assumes "owns g p g'"
  shows "owns g p (fold (edit_memory grow p) es g')
    \<and> read_config (fold (edit_memory grow p) es g') p = fold edit_value es (read_config g' p)"
  using assms by (induction es arbitrary: g') (simp_all add: edit_owns)

section \<open>Update\<close>

text \<open>A loaded manager: one struct, its ports in an array that may have spare room.\<close>

definition start_memory :: "root_config \<Rightarrow> exposed_port list \<Rightarrow> nat \<Rightarrow> memory_manager" where
  "start_memory c spare n = \<lparr>mm_memory = \<lparr>gm_arrays = [cfg_ExposedPorts c @ spare],
       gm_structs = [\<lparr>cs_fields = c, cs_ports = Some \<lparr>sl_array = 0, sl_len = length (cfg_ExposedPorts c)\<rparr>\<rparr>]\<rparr>,
     mm_config = 0, mm_disk = \<lparr>target = Holds c, strays = n\<rparr>\<rparr>"

fun run_memory :: "(nat \<Rightarrow> nat) \<Rightarrow> (io_env \<times> callback) list \<Rightarrow> memory_manager \<Rightarrow> memory_manager" where
  "run_memory grow [] m = m"
| "run_memory grow ((io, fn) # us) m = run_memory grow us (snd (Update_memory grow io fn m))"

definition live_config :: "memory_manager \<Rightarrow> root_config" where
  "live_config m = read_config (mm_memory m) (mm_config m)"

definition mm_ok :: "memory_manager \<Rightarrow> bool" where
  "mm_ok m \<longleftrightarrow> memory_ok (mm_memory m) \<and> mm_config m < length (gm_structs (mm_memory m))
     \<and> target (mm_disk m) = Holds (live_config m)"

text \<open>The value-level manager: what each pointer reads.\<close>

definition mm_abs :: "memory_manager \<Rightarrow> manager" where
  "mm_abs m = \<lparr>mgr_heap = map (read_config (mm_memory m)) [0..<length (gm_structs (mm_memory m))],
     mgr_config = mm_config m, mgr_disk = mm_disk m\<rparr>"

lemma start_ok: "mm_ok (start_memory c spare n)"
  by (simp add: mm_ok_def start_memory_def memory_ok_def slice_ok_def live_config_def read_config_def read_slice_def)

lemma Update_memory_effect:
  assumes "mm_ok m" and "Update_memory grow io fn m = (r, m')"
  obtains g d where "owns (mm_memory m) (length (gm_structs (mm_memory m))) g"
    "read_config g (length (gm_structs (mm_memory m))) = fold edit_value (fn (live_config m)) (live_config m)"
    "saveLocked io (fold edit_value (fn (live_config m)) (live_config m)) (mm_disk m) = (r, d)"
    "m' = m\<lparr>mm_memory := g, mm_disk := d, mm_config := (if r = None then length (gm_structs (mm_memory m)) else mm_config m)\<rparr>"
proof -
  obtain draft g0 where c: "cloneConfig (mm_config m) (mm_memory m) = (draft, g0)" by fastforce
  have m: "memory_ok (mm_memory m)" "mm_config m < length (gm_structs (mm_memory m))"
    using assms(1) by (simp_all add: mm_ok_def)
  note o = clone_owns [OF m c]
  define g where "g = fold (edit_memory grow draft) (fn (live_config m)) g0"
  have g: "owns (mm_memory m) draft g" "read_config g draft = fold edit_value (fn (live_config m)) (live_config m)"
    using edits_owns [OF o(1)] o(2) by (simp_all add: g_def live_config_def)
  obtain e d where s: "saveLocked io (read_config g draft) (mm_disk m) = (e, d)" by fastforce
  have "r = e \<and> m' = m\<lparr>mm_memory := g, mm_disk := d, mm_config := (if e = None then draft else mm_config m)\<rparr>"
    using assms(2) c s o(2) by (auto simp: Update_memory_def g_def live_config_def Let_def split: option.splits)
  then show thesis using that [of g d] g s ownsD(1) [OF g(1)] by simp
qed

lemma Update_memory_step:
  assumes "mm_ok m" and "Update_memory grow io fn m = (r, m')"
  shows "mm_ok m'" and "Manager_Update io (\<lambda>c. fold edit_value (fn c) c) (mm_abs m) = (r, mm_abs m')"
    and "\<And>q. q < length (gm_structs (mm_memory m)) \<Longrightarrow> read_config (mm_memory m') q = read_config (mm_memory m) q"
    and "r = None \<Longrightarrow> live_config m' = fold edit_value (fn (live_config m)) (live_config m)"
    and "r \<noteq> None \<Longrightarrow> live_config m' = live_config m"
proof -
  let ?n = "length (gm_structs (mm_memory m))"
  let ?c = "fold edit_value (fn (live_config m)) (live_config m)"
  from assms obtain g d where g: "owns (mm_memory m) ?n g" "read_config g ?n = ?c"
      "saveLocked io ?c (mm_disk m) = (r, d)"
      "m' = m\<lparr>mm_memory := g, mm_disk := d, mm_config := (if r = None then ?n else mm_config m)\<rparr>"
    by (rule Update_memory_effect)
  have m: "memory_ok (mm_memory m)" "mm_config m < ?n" "target (mm_disk m) = Holds (live_config m)"
    using assms(1) by (simp_all add: mm_ok_def)
  note frame = owns_reads [OF m(1) g(1)]
  show "read_config (mm_memory m') q = read_config (mm_memory m) q" if "q < ?n" for q
    using frame [OF that] g(4) by simp
  show live1: "live_config m' = ?c" if "r = None" using that g(2,4) by (simp add: live_config_def)
  show live2: "live_config m' = live_config m" if "r \<noteq> None"
    using that g(4) frame [OF m(2)] by (auto simp: live_config_def)
  have "target d = Holds (live_config m')"
  proof (cases r)
    case None
    then show ?thesis using config_file.save_ok_target [of io ?c "mm_disk m"] g(3) live1 by simp
  next
    case (Some e)
    then show ?thesis using config_file.save_err_target [of io ?c "mm_disk m" e] g(3) live2 m(3) by simp
  qed
  then show "mm_ok m'"
    using g(4) owns_memory_ok [OF m(1) g(1)] m(2) ownsD(2) [OF g(1)] by (auto simp: mm_ok_def live_config_def)
  have "map (read_config g) [0..<Suc ?n] = map (read_config (mm_memory m)) [0..<?n] @ [?c]"
    using frame g(2) by simp
  then have "mgr_heap (mm_abs m') = mgr_heap (mm_abs m) @ [?c]"
    using g(4) ownsD(2) [OF g(1)] by (simp add: mm_abs_def)
  moreover have "deref (mm_abs m) (mgr_config (mm_abs m)) = live_config m"
    using m(2) by (simp add: deref_def mm_abs_def live_config_def)
  ultimately show "Manager_Update io (\<lambda>c. fold edit_value (fn c) c) (mm_abs m) = (r, mm_abs m')"
    using g(3,4) by (auto simp: Manager_Update_def mm_abs_def Let_def split: option.splits)
qed

lemma run_memory_ok: "mm_ok m \<Longrightarrow> mm_ok (run_memory grow us m)"
proof (induction us arbitrary: m)
  case (Cons u us)
  obtain io fn where u: "u = (io, fn)" by (cases u)
  show ?case unfolding u run_memory.simps
    by (rule Cons.IH, rule Update_memory_step(1) [OF Cons.prems prod.collapse [symmetric]])
qed simp

text \<open>C13: An update is all or nothing, and invisible to whoever holds an older pointer. After any sequence of
  updates by any callbacks, with any outcomes of their saves and any growth of the arrays, one more update
  either succeeds, and then both the live configuration and the file are the old one with the callback's
  edits, or fails, and then both are as before; and every pointer to a configuration that exists, so every
  pointer that \<open>Get\<close> ever returned, still reads what it read, although the edits append and shift elements in
  place. On values it is the update of \<open>Config\<close>.\<close>

theorem config_update_atomic:
  assumes "m = run_memory grow us (start_memory c0 spare n)" and "Update_memory grow io fn m = (r, m')"
  shows "(case r of
       None \<Rightarrow> live_config m' = fold edit_value (fn (live_config m)) (live_config m)
         \<and> target (mm_disk m') = Holds (fold edit_value (fn (live_config m)) (live_config m))
     | Some e \<Rightarrow> live_config m' = live_config m \<and> target (mm_disk m') = target (mm_disk m))
    \<and> (\<forall>p < length (gm_structs (mm_memory m)). read_config (mm_memory m') p = read_config (mm_memory m) p)
    \<and> mm_config m < length (gm_structs (mm_memory m))
    \<and> Manager_Update io (\<lambda>c. fold edit_value (fn c) c) (mm_abs m) = (r, mm_abs m')"
proof -
  have ok: "mm_ok m" unfolding assms(1) by (rule run_memory_ok [OF start_ok])
  note step = Update_memory_step [OF ok assms(2)]
  have "target (mm_disk m') = Holds (live_config m')" "target (mm_disk m) = Holds (live_config m)"
    "mm_config m < length (gm_structs (mm_memory m))"
    using ok step(1) by (simp_all add: mm_ok_def)
  then show ?thesis using step(2-5) by (auto split: option.splits)
qed

text \<open>Two ports; the second update deletes the first of them in place while the first pointer is held.\<close>

definition port_named :: "string \<Rightarrow> exposed_port" where
  "port_named i = zero_port\<lparr>ep_ID := i, ep_HostHeader := i\<rparr>"

definition two_ports :: root_config where
  "two_ports = zero_config\<lparr>cfg_ExposedPorts := [port_named ''a'', port_named ''b'']\<rparr>"

lemma Update_memory_all_ok: "fst (Update_memory grow io_all_ok fn m) = None"
  by (simp add: Update_memory_def saveLocked_def io_all_ok_def Let_def split: prod.split)

theorem config_update_atomic_witness:
  "\<exists>m'. Update_memory id io_all_ok (\<lambda>_. [DeletePort 0]) (run_memory id [(io_all_ok, \<lambda>_. [AppendPort (port_named ''c'')])]
        (start_memory two_ports [] 0)) = (None, m')
    \<and> map ep_ID (cfg_ExposedPorts (read_config (mm_memory m') 0)) = [''a'', ''b'']
    \<and> map ep_ID (cfg_ExposedPorts (read_config (mm_memory m') 1)) = [''a'', ''b'', ''c'']
    \<and> map ep_ID (cfg_ExposedPorts (live_config m')) = [''b'', ''c'']"
proof -
  let ?m = "run_memory id [(io_all_ok, \<lambda>_. [AppendPort (port_named ''c'')])] (start_memory two_ports [] 0)"
  obtain m' where u: "Update_memory id io_all_ok (\<lambda>_. [DeletePort 0]) ?m = (None, m')"
    using Update_memory_all_ok by (metis prod.collapse)
  have m: "length (gm_structs (mm_memory ?m)) = 2"
    "map ep_ID (cfg_ExposedPorts (read_config (mm_memory ?m) 0)) = [''a'', ''b'']"
    "map ep_ID (cfg_ExposedPorts (read_config (mm_memory ?m) 1)) = [''a'', ''b'', ''c'']"
    "map ep_ID (cfg_ExposedPorts (live_config ?m)) = [''a'', ''b'', ''c'']"
    by code_simp+
  from config_update_atomic [OF refl u] have
    "live_config m' = edit_value (DeletePort 0) (live_config ?m)"
    "\<forall>p < length (gm_structs (mm_memory ?m)). read_config (mm_memory m') p = read_config (mm_memory ?m) p"
    by simp_all
  then show ?thesis using u m by (intro exI [of _ m']) (simp add: drop_map [symmetric])
qed

end
