(* ===== verification/Port_Writers.thy ===== *)
theory Port_Writers
  imports Adapters
begin

text \<open>
  Everyone who writes the exposed ports, at once: the ports API (\<open>daemon/api_ports.go\<close>), the expose endpoint
  (\<open>routes/expose.go\<close>) and the routes of the remote API (\<open>api/adapters/adapters.go\<close>). None of them holds a lock over
  its request, so a request is a sequence of sections, between which those of the others run: one section is
  one call of the Caddy client or of the DNS manager, each of which reads the current configuration, or one
  update of the configuration, which is atomic by its lock. What a section hands to the next one, the values
  that the handler keeps in variables, is the state of the request. The local proxies of the ports API are in
  its state; those of the remote API, which nothing refers to again, are left out here.
\<close>

section \<open>Requests under way\<close>

text \<open>A port that is being published: the entry to store, its host and where Caddy is to send requests.\<close>

record publication =
  pj_port :: exposed_port
  pj_host :: string
  pj_dial :: string

text \<open>What the callback of a removal captures: the ports API's also a position.\<close>

datatype removal = ByPosition string nat | ById string

datatype writer = ToRoute publication | ToRecord publication | ToStore publication bool
  | UndoRoute string string bool | UndoRecord string
  | ToUnroute removal string string | ToUnrecord removal string | ToRemove removal
  | ToSave exposure | ToExpose exposure | ToDrop string | Finished

datatype writer_request = PortCreate port_env "create_port option" | PortRemove string
  | ExposeCreate expose_handler expose_env "expose_request option"
  | RouteCreate adapter_env string int | RouteDelete string

definition with_status :: "bool \<Rightarrow> exposed_port \<Rightarrow> exposed_port" where
  "with_status ok p = p\<lparr>ep_Status := (if ok then ''active'' else ''error'')\<rparr>"

text \<open>The first section of a request, up to its first call.\<close>

fun writer_arrive :: "writer_request \<Rightarrow> 'w ports_state \<Rightarrow> writer \<times> 'w ports_state" where
  "writer_arrive (PortCreate e body) s =
     (case body of
        None \<Rightarrow> (Finished, s)
      | Some req0 \<Rightarrow>
          (case check_port_request req0 of
             Inl code \<Rightarrow> (Finished, s)
           | Inr req \<Rightarrow>
               let cfg = live (ps_mgr s) in
               if tun_Status (cfg_Tunnel cfg) \<noteq> ''connected'' then (Finished, s)
               else if dns_Provider (cfg_DNS cfg) = ''cloudflare'' \<and> CHR ''.'' \<in> set (cp_Subdomain req) then (Finished, s)
               else (case pe_proxy e of
                       None \<Rightarrow> (Finished, s)
                     | Some proxyPort \<Rightarrow>
                         (ToRoute \<lparr>pj_port = port_entry e req True, pj_host = full_host cfg (cp_Subdomain req),
                            pj_dial = upstream_dial cfg proxyPort\<rparr>,
                          s\<lparr>ps_proxies := (ps_proxies s)(pe_id e \<mapsto> (proxyPort, cp_LocalPort req))\<rparr>))))"
| "writer_arrive (PortRemove portID) s =
     (if portID = [] then (Finished, s)
      else
        let cfg = live (ps_mgr s) in
        case find_port portID (cfg_ExposedPorts cfg) of
          None \<Rightarrow> (Finished, s)
        | Some targetIdx \<Rightarrow>
            let subdomain = ep_HostHeader (cfg_ExposedPorts cfg ! targetIdx)
            in (ToUnroute (ByPosition portID targetIdx) (full_host cfg subdomain) subdomain, s))"
| "writer_arrive (ExposeCreate h e body) s =
     (case expose_check h e body (live (ps_mgr s)) of Inl r \<Rightarrow> (Finished, s) | Inr x \<Rightarrow> (ToSave x, s))"
| "writer_arrive (RouteCreate e subdomain port) s =
     (let cfg = live (ps_mgr s) in
      if tun_Status (cfg_Tunnel cfg) \<noteq> ''connected'' then (Finished, s)
      else if has_host subdomain cfg then (Finished, s)
      else case ax_proxy e of
             Inl msg \<Rightarrow> (Finished, s)
           | Inr proxyPort \<Rightarrow>
               (ToRoute \<lparr>pj_port = adapter_port e subdomain port True, pj_host = full_host cfg subdomain,
                  pj_dial = upstream_dial cfg proxyPort\<rparr>, s))"
| "writer_arrive (RouteDelete i) s =
     (let cfg = live (ps_mgr s) in
      case List.find (\<lambda>ep. ep_ID ep = i) (cfg_ExposedPorts cfg) of
        None \<Rightarrow> (Finished, s)
      | Some ep \<Rightarrow> (ToUnroute (ById i) (full_host cfg (ep_HostHeader ep)) (ep_HostHeader ep), s))"

text \<open>The callback of a removal, and what the ports API forgets with a port.\<close>

fun removal_fn :: "removal \<Rightarrow> root_config \<Rightarrow> root_config" where
  "removal_fn (ByPosition portID i) = remove_port portID i"
| "removal_fn (ById i) = drop_port i"

fun stop_proxy :: "removal \<Rightarrow> (string \<Rightarrow> (int \<times> int) option) \<Rightarrow> string \<Rightarrow> (int \<times> int) option" where
  "stop_proxy (ByPosition portID i) proxies = proxies(portID := None)"
| "stop_proxy (ById i) proxies = proxies"

text \<open>The next section of a request; \<open>io\<close> is what the system answers if it is an update.\<close>

fun writer_step :: "'w ports_net \<Rightarrow> 'w dns_creator \<Rightarrow> io_env \<Rightarrow> writer \<Rightarrow> 'w ports_state \<Rightarrow> writer \<times> 'w ports_state" where
  "writer_step net dns io (ToRoute j) s =
     (let (err, cw) = AddRoute (pn_caddy net) (live (ps_mgr s)) (pj_host j) (pj_dial j) (ps_cc s, ps_world s)
      in ((if err = None then ToRecord j else ToStore j False), s\<lparr>ps_cc := fst cw, ps_world := snd cw\<rparr>))"
| "writer_step net dns io (ToRecord j) s =
     (let (err, w) = CreateRecord (pn_cf net) (live (ps_mgr s)) (ep_HostHeader (pj_port j)) (ps_world s)
      in (ToStore j (err = None), s\<lparr>ps_world := w\<rparr>))"
| "writer_step net dns io (ToStore j ok) s =
     (let dup = has_host (ep_HostHeader (pj_port j)) (live (ps_mgr s));
          (err, m) = Manager_Update io (append_port (with_status ok (pj_port j))) (ps_mgr s)
      in ((if err = None \<and> \<not> dup then Finished else UndoRoute (pj_host j) (ep_HostHeader (pj_port j)) ok), s\<lparr>ps_mgr := m\<rparr>))"
| "writer_step net dns io (UndoRoute host subdomain created) s =
     (let cw = snd (RemoveRoute (pn_caddy net) (live (ps_mgr s)) host (ps_cc s, ps_world s))
      in ((if created then UndoRecord subdomain else Finished), s\<lparr>ps_cc := fst cw, ps_world := snd cw\<rparr>))"
| "writer_step net dns io (UndoRecord subdomain) s =
     (Finished, s\<lparr>ps_world := snd (DeleteRecord (pn_cf net) (live (ps_mgr s)) subdomain (ps_world s))\<rparr>)"
| "writer_step net dns io (ToUnroute rm host subdomain) s =
     (let cw = snd (RemoveRoute (pn_caddy net) (live (ps_mgr s)) host (ps_cc s, ps_world s))
      in (ToUnrecord rm subdomain, s\<lparr>ps_cc := fst cw, ps_world := snd cw\<rparr>))"
| "writer_step net dns io (ToUnrecord rm subdomain) s =
     (ToRemove rm, s\<lparr>ps_world := snd (DeleteRecord (pn_cf net) (live (ps_mgr s)) subdomain (ps_world s)),
        ps_proxies := stop_proxy rm (ps_proxies s)\<rparr>)"
| "writer_step net dns io (ToRemove rm) s = (Finished, s\<lparr>ps_mgr := snd (Manager_Update io (removal_fn rm) (ps_mgr s))\<rparr>)"
| "writer_step net dns io (ToSave x) s =
     (let (r, m) = expose_save io x (ps_mgr s) in ((if r = None then ToExpose x else Finished), s\<lparr>ps_mgr := m\<rparr>))"
| "writer_step net dns io (ToExpose x) s =
     (let (ok, w) = dns (ep_HostHeader (ex_port x)) (ex_target x) (ps_world s)
      in ((if ok then Finished else ToDrop (ep_ID (ex_port x))), s\<lparr>ps_world := w\<rparr>))"
| "writer_step net dns io (ToDrop i) s = (Finished, s\<lparr>ps_mgr := snd (Manager_Update io (drop_port i) (ps_mgr s))\<rparr>)"
| "writer_step net dns io Finished s = (Finished, s)"

text \<open>All of them together: a request arrives, the i-th one of those under way makes its next step, or some other part
  of the program updates the configuration.\<close>

record 'w port_writers =
  pw_ports :: "'w ports_state"
  pw_requests :: "writer list"

datatype writer_event = Arrives writer_request | Goes nat io_env | OtherUpdate io_env "root_config \<Rightarrow> root_config"

fun writer_exec :: "'w ports_net \<Rightarrow> 'w dns_creator \<Rightarrow> writer_event \<Rightarrow> 'w port_writers \<Rightarrow> 'w port_writers" where
  "writer_exec net dns (Arrives q) a =
     (let (t, s) = writer_arrive q (pw_ports a) in a\<lparr>pw_ports := s, pw_requests := pw_requests a @ [t]\<rparr>)"
| "writer_exec net dns (Goes i io) a =
     (if i < length (pw_requests a) then
        (let (t, s) = writer_step net dns io (pw_requests a ! i) (pw_ports a)
         in a\<lparr>pw_ports := s, pw_requests := (pw_requests a)[i := t]\<rparr>)
      else a)"
| "writer_exec net dns (OtherUpdate io fn) a =
     a\<lparr>pw_ports := (pw_ports a)\<lparr>ps_mgr := snd (Manager_Update io fn (ps_mgr (pw_ports a)))\<rparr>\<rparr>"

definition writer_run :: "'w ports_net \<Rightarrow> 'w dns_creator \<Rightarrow> writer_event list \<Rightarrow> 'w ports_state \<Rightarrow> 'w port_writers" where
  "writer_run net dns evs s = fold (writer_exec net dns) evs \<lparr>pw_ports = s, pw_requests = []\<rparr>"

section \<open>A request that runs alone\<close>

lemma with_status_entry [simp]:
  "with_status ok (port_entry e req b) = port_entry e req ok" "with_status ok (adapter_port e' subdomain port b) = adapter_port e' subdomain port ok"
  "ep_HostHeader (with_status ok p) = ep_HostHeader p"
  by (simp_all add: with_status_def port_entry_def adapter_port_def)

text \<open>Every request is finished after at most five sections, and run without others between them they are the handler.\<close>

fun sections_left :: "writer \<Rightarrow> nat" where
  "sections_left (ToRoute j) = 5"
| "sections_left (ToRecord j) = 4"
| "sections_left (ToStore j ok) = 3"
| "sections_left (UndoRoute host subdomain ok) = 2"
| "sections_left (UndoRecord subdomain) = 1"
| "sections_left (ToUnroute rm host subdomain) = 3"
| "sections_left (ToUnrecord rm subdomain) = 2"
| "sections_left (ToRemove rm) = 1"
| "sections_left (ToSave x) = 3"
| "sections_left (ToExpose x) = 2"
| "sections_left (ToDrop i) = 1"
| "sections_left Finished = 0"

lemma sections_decrease: "t \<noteq> Finished \<Longrightarrow> sections_left (fst (writer_step net dns io t s)) < sections_left t"
  by (cases t) (auto simp: Let_def split: prod.splits)

fun run_sections :: "'w ports_net \<Rightarrow> 'w dns_creator \<Rightarrow> io_env list \<Rightarrow> writer \<times> 'w ports_state \<Rightarrow> writer \<times> 'w ports_state" where
  "run_sections net dns [] ts = ts"
| "run_sections net dns (io # ios) (t, s) = run_sections net dns ios (writer_step net dns io t s)"

lemma request_finishes: "sections_left t \<le> length ios \<Longrightarrow> fst (run_sections net dns ios (t, s)) = Finished"
proof (induction ios arbitrary: t s)
  case Nil
  then show ?case by (cases t) simp_all
next
  case (Cons io ios)
  obtain t' s' where st: "writer_step net dns io t s = (t', s')" by (metis prod.collapse)
  have "t = Finished \<or> sections_left t' < sections_left t" using sections_decrease [of t net dns io s] st by auto
  then have "sections_left t' \<le> length ios" using Cons.prems st by auto
  then show ?case using Cons.IH st by simp
qed

lemma run_Finished [simp]: "run_sections net dns ios (Finished, s) = (Finished, s)"
  by (induction ios) simp_all

lemma run_sections_append: "run_sections net dns (ios @ ios') ts = run_sections net dns ios' (run_sections net dns ios ts)"
  by (induction net dns ios ts rule: run_sections.induct) simp_all

lemma update_full_host:
  "manager_ok m \<Longrightarrow> Manager_Update io (append_port p) m = (r, m') \<Longrightarrow> full_host (live m') x = full_host (live m) x"
  using Manager_Update_step [of m io "append_port p" r m']
  by (auto simp: update_outcome_def full_host_def append_port_def split: option.splits if_splits)

lemma publication_alone:
  assumes "manager_ok (ps_mgr s)" and "pj_host j = full_host (live (ps_mgr s)) (ep_HostHeader (pj_port j))"
    and p: "publish net (live (ps_mgr s)) (ep_HostHeader (pj_port j)) (pj_dial j) (ps_cc s, ps_world s) = (ok, cw)"
    and u: "Manager_Update io (append_port (with_status ok (pj_port j))) (ps_mgr s) = (err, m)"
    and cw': "cw' = (if err = None \<and> \<not> has_host (ep_HostHeader (pj_port j)) (live (ps_mgr s)) then cw
       else unpublish net (live m) (ep_HostHeader (pj_port j)) ok cw)"
  shows "run_sections net dns [io, io, io, io, io] (ToRoute j, s) = (Finished, s\<lparr>ps_mgr := m, ps_cc := fst cw', ps_world := snd cw'\<rparr>)"
proof -
  let ?t = "if err = None \<and> \<not> has_host (ep_HostHeader (pj_port j)) (live (ps_mgr s)) then Finished
      else UndoRoute (pj_host j) (ep_HostHeader (pj_port j)) ok"
  let ?s = "s\<lparr>ps_mgr := m, ps_cc := fst cw, ps_world := snd cw\<rparr>"
  have fh: "pj_host j = full_host (live m) (ep_HostHeader (pj_port j))" using update_full_host [OF assms(1) u] assms(2) by simp
  have undo: "run_sections net dns [io, io] (?t, ?s) = (Finished, s\<lparr>ps_mgr := m, ps_cc := fst cw', ps_world := snd cw'\<rparr>)"
    using fh by (auto simp: cw' unpublish_def Let_def split: prod.splits)
  obtain er c w where a: "AddRoute (pn_caddy net) (live (ps_mgr s)) (pj_host j) (pj_dial j) (ps_cc s, ps_world s) = (er, c, w)" by (metis prod.collapse)
  show ?thesis
  proof (cases er)
    case None
    obtain er2 w2 where r: "CreateRecord (pn_cf net) (live (ps_mgr s)) (ep_HostHeader (pj_port j)) w = (er2, w2)" by (metis prod.collapse)
    have "ok \<longleftrightarrow> er2 = None" "cw = (c, w2)" using p a r None assms(2) by (auto simp: publish_def split: option.splits)
    then have "run_sections net dns [io, io, io, io, io] (ToRoute j, s) = run_sections net dns [io, io] (?t, ?s)"
      using a r None u by (auto simp: Let_def)
    then show ?thesis using undo by simp
  next
    case (Some x)
    have "\<not> ok" "cw = (c, w)" using p a Some assms(2) by (auto simp: publish_def)
    then have "run_sections net dns [io, io, io, io] (ToRoute j, s) = run_sections net dns [io, io] (?t, ?s)"
      using a Some u by (auto simp: Let_def)
    then have "run_sections net dns [io, io, io, io] (ToRoute j, s) = (Finished, s\<lparr>ps_mgr := m, ps_cc := fst cw', ps_world := snd cw'\<rparr>)"
      using undo by simp
    moreover have "run_sections net dns [io, io, io, io, io] (ToRoute j, s)
        = run_sections net dns [io] (run_sections net dns [io, io, io, io] (ToRoute j, s))"
      by (metis append.simps run_sections_append)
    ultimately show ?thesis by simp
  qed
qed

text \<open>The ports API's creation and removal, each as its handler.\<close>

lemma port_create_alone:
  assumes "manager_ok (ps_mgr s)" and io: "pe_io e = io"
  shows "snd (run_sections net dns [io, io, io, io, io] (writer_arrive (PortCreate e body) s)) = snd (port_handleCreate net e body s)"
proof (cases "fst (writer_arrive (PortCreate e body) s) = Finished")
  case True
  then have "snd (writer_arrive (PortCreate e body) s) = s \<and> snd (port_handleCreate net e body s) = s"
    by (auto simp: port_handleCreate_def Let_def split: option.splits sum.splits if_splits)
  then show ?thesis using True by (metis prod.collapse run_Finished)
next
  case False
  then obtain req0 req pport where r: "body = Some req0" "check_port_request req0 = Inr req" "pe_proxy e = Some pport"
    and h: "port_handleCreate net e body s = expose_port net e req pport s"
    and a: "writer_arrive (PortCreate e body) s = (ToRoute \<lparr>pj_port = port_entry e req True, pj_host = full_host (live (ps_mgr s)) (cp_Subdomain req),
      pj_dial = upstream_dial (live (ps_mgr s)) pport\<rparr>, s\<lparr>ps_proxies := (ps_proxies s)(pe_id e \<mapsto> (pport, cp_LocalPort req))\<rparr>)"
    by (auto simp: port_handleCreate_def Let_def split: option.splits sum.splits if_splits)
  let ?s = "s\<lparr>ps_proxies := (ps_proxies s)(pe_id e \<mapsto> (pport, cp_LocalPort req))\<rparr>"
  obtain ok cw where p: "publish net (live (ps_mgr s)) (cp_Subdomain req) (upstream_dial (live (ps_mgr s)) pport) (ps_cc s, ps_world s) = (ok, cw)"
    by (metis prod.collapse)
  obtain err m where u: "Manager_Update (pe_io e) (append_port (port_entry e req ok)) (ps_mgr s) = (err, m)" by (metis prod.collapse)
  have sub: "ep_HostHeader (port_entry e req True) = cp_Subdomain req" by (simp add: port_entry_def)
  show ?thesis
    unfolding a h expose_port_outcome [OF p u]
    by (subst publication_alone [where s = ?s and ok = ok and cw = cw and err = err and m = m, OF _ _ _ _ refl])
      (use assms p u sub in auto)
qed

lemma port_remove_alone:
  "snd (run_sections net dns [io, io, io] (writer_arrive (PortRemove i) s)) = snd (port_handleRemove net io i s)"
  by (auto simp: port_handleRemove_def unpublish_def Let_def split: option.splits prod.splits)

text \<open>An exposure, as the endpoint's handler.\<close>

lemma expose_alone:
  "(\<lambda>s'. (ps_mgr s', ps_world s')) (snd (run_sections net dns [io, io2, io2] (writer_arrive (ExposeCreate h e body) s)))
    = snd (HandleExpose dns h e io io2 body (ps_mgr s, ps_world s))"
  by (auto simp: HandleExpose_def expose_publish_def Let_def split: sum.splits option.splits prod.splits bool.splits)

text \<open>The routes of the remote API, on the parts that they share with the ports API.\<close>

definition same_world :: "'w ports_state \<Rightarrow> ('t, 'w) remote_world \<Rightarrow> bool" where
  "same_world s w \<longleftrightarrow> ps_mgr s = ts_mgr (rw_tunnel w) \<and> ps_cc s = rw_cc w \<and> ps_world s = rw_net w"

lemma route_delete_alone:
  assumes "same_world s w" and "ax_io e = io"
  shows "same_world (snd (run_sections net dns [io, io, io] (writer_arrive (RouteDelete i) s))) (snd (Route_Delete net e i w))"
  using assms by (auto simp: same_world_def Route_Delete_def rw_cfg_def with_mgr_def unpublish_def Let_def split: option.splits prod.splits)

lemma route_create_alone:
  assumes "manager_ok (ps_mgr s)" and w: "same_world s w" and io: "ax_io e = io"
  shows "same_world (snd (run_sections net dns [io, io, io, io, io] (writer_arrive (RouteCreate e subdomain port) s)))
    (snd (Route_Create net e subdomain port w))"
proof (cases "fst (writer_arrive (RouteCreate e subdomain port) s) = Finished")
  case True
  then have "snd (writer_arrive (RouteCreate e subdomain port) s) = s \<and> snd (Route_Create net e subdomain port w) = w"
    using w by (auto simp: same_world_def rw_cfg_def Route_Create_def Let_def split: sum.splits if_splits)
  then show ?thesis using True w by (metis prod.collapse run_Finished snd_conv)
next
  case False
  let ?cfg = "live (ps_mgr s)"
  obtain pport where c: "Route_Create net e subdomain port w = Route_publish net e ?cfg subdomain port pport w"
    and no: "\<not> has_host subdomain ?cfg"
    and a: "writer_arrive (RouteCreate e subdomain port) s = (ToRoute \<lparr>pj_port = adapter_port e subdomain port True,
      pj_host = full_host ?cfg subdomain, pj_dial = upstream_dial ?cfg pport\<rparr>, s)"
    using False w by (auto simp: same_world_def rw_cfg_def Route_Create_def Let_def split: sum.splits if_splits)
  obtain ok cw where p: "publish net ?cfg subdomain (upstream_dial ?cfg pport) (ps_cc s, ps_world s) = (ok, cw)" by (metis prod.collapse)
  obtain err m where u: "Manager_Update io (append_port (adapter_port e subdomain port ok)) (ps_mgr s) = (err, m)" by (metis prod.collapse)
  have sub: "ep_HostHeader (adapter_port e subdomain port True) = subdomain" by (simp add: adapter_port_def)
  let ?cw = "if err = None \<and> \<not> has_host subdomain ?cfg then cw else unpublish net (live m) subdomain ok cw"
  have "run_sections net dns [io, io, io, io, io] (writer_arrive (RouteCreate e subdomain port) s)
      = (Finished, s\<lparr>ps_mgr := m, ps_cc := fst ?cw, ps_world := snd ?cw\<rparr>)"
    unfolding a by (rule publication_alone [where ok = ok and cw = cw and err = err]) (use assms(1) p u sub in auto)
  moreover have "same_world (s\<lparr>ps_mgr := m, ps_cc := fst ?cw, ps_world := snd ?cw\<rparr>) (snd (Route_publish net e ?cfg subdomain port pport w))"
    using w p u no io by (auto simp: same_world_def Route_publish_def rw_cfg_def with_mgr_def Let_def split: option.splits)
  ultimately show ?thesis by (simp add: c)
qed

section \<open>What every writer keeps\<close>

text \<open>The ports that may be stored when the requests \<open>R\<close> have arrived: well-formed ones, and those of the remote API,
  which checks nothing but that there is no port with the subdomain.\<close>

definition may_store :: "writer_request set \<Rightarrow> exposed_port \<Rightarrow> bool" where
  "may_store R p \<longleftrightarrow> port_ok p \<or> (\<exists>e subdomain port ok. RouteCreate e subdomain port \<in> R \<and> p = adapter_port e subdomain port ok)"

definition ports_kept :: "writer_request set \<Rightarrow> manager \<Rightarrow> bool" where
  "ports_kept R m \<longleftrightarrow> hosts_ok m \<and> (\<forall>p \<in> set (cfg_ExposedPorts (live m)). may_store R p)"

fun writer_ok :: "writer_request set \<Rightarrow> writer \<Rightarrow> bool" where
  "writer_ok R (ToRoute j) \<longleftrightarrow> (\<forall>ok. may_store R (with_status ok (pj_port j)))"
| "writer_ok R (ToRecord j) \<longleftrightarrow> (\<forall>ok. may_store R (with_status ok (pj_port j)))"
| "writer_ok R (ToStore j ok) \<longleftrightarrow> may_store R (with_status ok (pj_port j))"
| "writer_ok R (ToSave x) \<longleftrightarrow> port_ok (ex_port x)"
| "writer_ok R _ \<longleftrightarrow> True"

definition writers_ok :: "writer_request set \<Rightarrow> 'w port_writers \<Rightarrow> bool" where
  "writers_ok R a \<longleftrightarrow> ports_kept R (ps_mgr (pw_ports a)) \<and> (\<forall>t \<in> set (pw_requests a). writer_ok R t)"

lemma update_ports_kept:
  assumes "ports_kept R m" and "hosts_ok (snd (Manager_Update io fn m))"
    and "\<forall>p \<in> set (cfg_ExposedPorts (fn (live m))). may_store R p"
  shows "ports_kept R (snd (Manager_Update io fn m))"
proof -
  obtain r m' where u: "Manager_Update io fn m = (r, m')" by (metis prod.collapse)
  show ?thesis using Manager_Update_step [OF _ u] assms by (auto simp: ports_kept_def hosts_ok_def update_outcome_def u split: option.splits)
qed

lemma append_kept: "ports_kept R m \<Longrightarrow> may_store R p \<Longrightarrow> ports_kept R (snd (Manager_Update io (append_port p) m))"
  by (rule update_ports_kept) (auto simp: ports_kept_def append_hosts append_port_def)

lemma drop_kept: "ports_kept R m \<Longrightarrow> ports_kept R (snd (Manager_Update io (drop_port i) m))"
  using set_remove_first_sub by (intro update_ports_kept) (fastforce simp: ports_kept_def drop_hosts drop_port_def)+

lemma remove_kept: "ports_kept R m \<Longrightarrow> ports_kept R (snd (Manager_Update io (remove_port i k) m))"
proof (rule update_ports_kept)
  have "set (cfg_ExposedPorts (remove_port i k c)) \<subseteq> set (cfg_ExposedPorts c)" for c
    by (simp add: remove_port_def Let_def set_delete_at)
  then show "ports_kept R m \<Longrightarrow> \<forall>p \<in> set (cfg_ExposedPorts (remove_port i k (live m))). may_store R p"
    by (auto simp: ports_kept_def)
qed (simp_all add: ports_kept_def remove_hosts)

lemma same_ports_kept:
  "ports_kept R m \<Longrightarrow> \<forall>c. cfg_ExposedPorts (fn c) = cfg_ExposedPorts c \<Longrightarrow> ports_kept R (snd (Manager_Update io fn m))"
  by (rule update_ports_kept) (auto simp: ports_kept_def same_ports_hosts)

lemma writer_arrive_ok:
  assumes "q \<in> R"
  shows "writer_ok R (fst (writer_arrive q s)) \<and> ps_mgr (snd (writer_arrive q s)) = ps_mgr s"
proof (cases q)
  case (PortCreate e body)
  have "check_port_request req0 = Inr req \<Longrightarrow> may_store R (port_entry e req ok)" for req0 req ok
    using valid_entry by (simp add: may_store_def)
  then show ?thesis using PortCreate by (auto simp: Let_def split: option.splits sum.splits)
next
  case (ExposeCreate h e body)
  then show ?thesis using expose_check_Inr [of h e body] by (auto split: sum.splits)
next
  case (RouteCreate e subdomain port)
  then show ?thesis using assms by (auto simp: Let_def may_store_def split: sum.splits)
qed (auto simp: Let_def split: option.splits)

lemma writer_step_ok:
  assumes "ports_kept R (ps_mgr s)" and "writer_ok R t"
  shows "writer_ok R (fst (writer_step net dns io t s)) \<and> ports_kept R (ps_mgr (snd (writer_step net dns io t s)))"
proof (cases t)
  case (ToStore j ok)
  then show ?thesis using assms append_kept [of R "ps_mgr s" "with_status ok (pj_port j)" io]
    by (auto simp: Let_def split: prod.splits)
next
  case (ToRemove rm)
  then show ?thesis using assms by (cases rm) (simp_all add: remove_kept drop_kept)
next
  case (ToSave x)
  have "ps_mgr (snd (writer_step net dns io (ToSave x) s)) = snd (Manager_Update io (append_port (ex_port x)) (ps_mgr s))"
    by (simp add: expose_save_def split: prod.splits option.splits)
  then show ?thesis using assms ToSave append_kept [of R "ps_mgr s" "ex_port x" io] by (auto simp: may_store_def Let_def split: prod.splits)
qed (use assms in \<open>auto simp: Let_def drop_kept split: prod.splits\<close>)

lemma writer_exec_ok:
  assumes "writers_ok R a" and "\<And>q. ev = Arrives q \<Longrightarrow> q \<in> R"
    and "\<And>io fn. ev = OtherUpdate io fn \<Longrightarrow> \<forall>c. cfg_ExposedPorts (fn c) = cfg_ExposedPorts c"
  shows "writers_ok R (writer_exec net dns ev a)"
proof (cases ev)
  case (Arrives q)
  then show ?thesis using assms(1,2) writer_arrive_ok [of q R "pw_ports a"] by (auto simp: writers_ok_def split: prod.splits)
next
  case (Goes i io)
  show ?thesis
  proof (cases "i < length (pw_requests a)")
    case True
    then have "writer_ok R (pw_requests a ! i)" using assms(1) by (simp add: writers_ok_def)
    then show ?thesis using True assms(1) Goes writer_step_ok [of R "pw_ports a" "pw_requests a ! i" net dns io] set_update_subset_insert
      by (fastforce simp: writers_ok_def split: prod.splits)
  qed (use assms(1) Goes in simp)
next
  case (OtherUpdate io fn)
  then show ?thesis using assms(1,3) same_ports_kept [of R _ fn io] by (simp add: writers_ok_def)
qed

lemma writer_run_ok:
  assumes "writers_ok R a" and "\<forall>q. Arrives q \<in> set evs \<longrightarrow> q \<in> R"
    and "\<forall>io fn c. OtherUpdate io fn \<in> set evs \<longrightarrow> cfg_ExposedPorts (fn c) = cfg_ExposedPorts c"
  shows "writers_ok R (fold (writer_exec net dns) evs a)"
  using assms
proof (induction evs arbitrary: a)
  case (Cons ev evs)
  then have "writers_ok R (writer_exec net dns ev a)" by (intro writer_exec_ok) auto
  then show ?case using Cons by simp
qed simp

text \<open>C28: However the sections of any number of requests to the three writers interleave, with other updates of the
  configuration that leave the ports alone between them, and whatever fails on the way: file and memory agree,
  no two stored ports have one subdomain, and every stored port is well formed or is one that a request of the
  remote API asked for, which does not look at the subdomain.\<close>

theorem interleaved_writers_keep_ports:
  assumes "hosts_ok (ps_mgr s)" and "\<forall>p \<in> set (cfg_ExposedPorts (live (ps_mgr s))). port_ok p"
    and "\<forall>io fn c. OtherUpdate io fn \<in> set evs \<longrightarrow> cfg_ExposedPorts (fn c) = cfg_ExposedPorts c"
    and m: "m = ps_mgr (pw_ports (writer_run net dns evs s))"
  shows "target (mgr_disk m) = Holds (live m) \<and> distinct (map ep_HostHeader (cfg_ExposedPorts (live m)))
    \<and> (\<forall>p \<in> set (cfg_ExposedPorts (live m)). port_ok p
        \<or> (\<exists>e subdomain port ok. Arrives (RouteCreate e subdomain port) \<in> set evs \<and> p = adapter_port e subdomain port ok))"
proof -
  let ?R = "{q. Arrives q \<in> set evs}"
  have "writers_ok ?R \<lparr>pw_ports = s, pw_requests = []\<rparr>"
    using assms(1,2) by (simp add: writers_ok_def ports_kept_def may_store_def)
  then have "writers_ok ?R (writer_run net dns evs s)"
    unfolding writer_run_def using assms(3) by (intro writer_run_ok) auto
  then show ?thesis unfolding m by (auto simp: writers_ok_def ports_kept_def hosts_ok_def manager_ok_def may_store_def)
qed

section \<open>Witness\<close>

text \<open>All three writers ask for one subdomain at once, the remote API for a malformed one besides, and a port goes.\<close>

definition crossing_events :: "writer_event list" where
  "crossing_events = [Arrives (RouteCreate adapter_answers ''api'' 3001), Arrives (ExposeCreate up_handler (env_of ''p8'') (Some expose_request_3000)),
     Arrives (RouteCreate adapter_answers ''-x'' 3002), Arrives (PortRemove ''p1''), Goes 0 io_all_ok, Goes 1 io_all_ok, Goes 2 io_all_ok,
     OtherUpdate io_all_ok (set_tunnel (\<lambda>t. t\<lparr>tun_Status := ''error''\<rparr>)), Goes 0 io_all_ok, Goes 3 io_all_ok, Goes 0 io_all_ok,
     Goes 2 io_all_ok, Goes 3 io_all_ok, Goes 1 io_all_ok, Goes 2 io_all_ok, Goes 0 io_all_ok, Goes 3 io_all_ok]"

theorem interleaved_writers_keep_ports_witness:
  "\<exists>m. m = ps_mgr (pw_ports (writer_run list_net dnsAdapter_UpsertRecord crossing_events web_state))
    \<and> target (mgr_disk m) = Holds (live m) \<and> distinct (map ep_HostHeader (cfg_ExposedPorts (live m)))
    \<and> (\<forall>p \<in> set (cfg_ExposedPorts (live m)). \<not> port_ok p \<longrightarrow> ep_ID p = ax_uuid adapter_answers)"
proof -
  have w: "hosts_ok (ps_mgr web_state)" "\<forall>p \<in> set (cfg_ExposedPorts (live (ps_mgr web_state))). port_ok p"
    using web_ok by (simp_all add: hosts_ok_def ports_ok_def ports_wf_def)
  have "\<forall>io fn c. OtherUpdate io fn \<in> set crossing_events \<longrightarrow> cfg_ExposedPorts (fn c) = cfg_ExposedPorts c"
    by (simp add: crossing_events_def set_tunnel_def)
  from interleaved_writers_keep_ports [OF w this refl, of list_net dnsAdapter_UpsertRecord]
  show ?thesis by (auto simp: crossing_events_def adapter_port_def)
qed

end
