(* ===== verification/Spec2Isabelle.thy ===== *)
theory Spec2Isabelle
  imports Remote_Security Config Wizard_Safety Step_Validators Invite_Handlers
    Ports_Api Log_Handler Tunnel_Examples Health Snapshot Attach
    Dns_Manager Routes_Expose Caddy_Mtls Event_Ring Daemon_Api Tray
    Provision Adapters Log_Collect Log_Export Observability Metrics
    Remote_Server Local_Proxy Startup Static_Files Daemon_Wiring Probe_Transports Event_Streams
    Qr_Codes Auth_Runs Config_Memory Port_Writers
begin

text \<open>
  A verification development of \<open>unet\<close> (the Go sources under \<open>src/src\<close>; below, paths are relative to \<open>src/src/internal\<close>
  unless they begin with \<open>cmd\<close>).

  \<^bold>\<open>The program.\<close> A daemon on the user's machine keeps a WireGuard-like tunnel (AmneziaWG) to the user's own server,
  publishes local ports under subdomains through a Caddy reverse proxy and DNS records on that server, and offers
  an HTTP interface to a web frontend, a setup wizard, a tray application and, over TLS with tokens, to remote clients.
  The parts share one configuration file, which a manager owns; they reach the server by SSH commands; they log
  through one structured handler into files and a ring from which streams are fed.

  \<^bold>\<open>Conventions.\<close> A Go string is a list of bytes (\<open>char\<close>), an instant or duration a number of nanoseconds. A struct is a
  record whose fields carry a short prefix, an enumeration a datatype, a fallible function a sum, an option or a reply
  with its status. A function that changes state takes it and returns it; the answers of the clock, the random
  source, the disk and the network are an environment record of the call, so every order of failures is covered. Code
  that is not in the repository (Caddy, Cloudflare, SSH, bcrypt, HMAC, AES, JSON, Prometheus, Docker) is a parameter, and
  what is relied on is a named hypothesis. Where the sources hold no lock across two accesses, these are separate
  steps, either of an inductive step relation or as definitions that a theorem interleaves; where they hold one, the
  operation is one step. Integers are unbounded unless their width matters; then they are words (\<open>HOL-Library.Word\<close>).
  Lower-casing is that of ASCII, except for the names of secrets, where the two letters beyond ASCII that matter are there.

  \<^bold>\<open>Foundations.\<close>
  \<^item> \<open>Prelude\<close>: types for time and replies, Go's string operations, decimal texts and their parsers, with the collections
    \<open>go_simps\<close> and \<open>go_intros\<close>. \<open>Base64_Codec\<close>: the two alphabets, with decoding after encoding.
  \<^item> \<open>Atomic_File\<close>: the write-to-temporary-and-rename protocol that four packages repeat, as the locale \<open>atomic_saver\<close>: a save
    that reports success has replaced the file, one that fails has left it. It is interpreted on the configuration, the
    token store, the wizard's state and the VPS profile.
  \<^item> \<open>Config\<close> (\<open>config/\<close>): the data model, the manager over allocated configurations, so that pointers handed out earlier are
    seen to stay as they were, and masking. Updates are all or nothing and none is lost. \<open>Config_Memory\<close>: the same update
    over Go's memory, where the ports are a slice of an array that is written in place: the copy that \<open>cloneConfig\<close> makes
    keeps an update from writing into what earlier pointers read, and it computes what the value-level update does.
  \<^item> \<open>Float64\<close>: rounding to the nearest double, executable, with its error bound and monotonicity. \<open>Line_Scan\<close>: reading a text line
    by line as \<open>bufio.Scanner\<close> does, with its limit.

  \<^bold>\<open>Remote access.\<close>
  \<^item> \<open>Token_Store\<close>, \<open>Token_Cache\<close>, \<open>Jwt\<close> (\<open>auth/\<close>): scopes, tokens and their store, which refines a finite map; the cache in its
    three critical sections, over the locale \<open>token_source\<close>, with what a concurrent revocation can do; session tokens.
  \<^item> \<open>Rate_Limiter\<close>, \<open>Audit_Log\<close>, \<open>Remote_Api\<close>, \<open>Remote_Handlers\<close>, \<open>Remote_Security\<close> (\<open>api/\<close>, \<open>audit/\<close>): the middleware chain, the
    handlers and the routing table, and for the assembled interface: who gets through the dispatcher, which scope every
    change needs, and what is audited. \<open>Auth_Runs\<close>: requests, revocations and creations of tokens
    interleaved at their critical sections, for the two claims that concern several requests: what backs an accepted
    token at the moment of its listing, and when a revocation locks a token out in spite of the race. \<open>Rate_Limiter\<close> computes
    in doubles; \<open>Audit_Log\<close> works on the text of the file, torn and overlong lines included.
  \<^item> \<open>Adapters\<close> (\<open>api/adapters\<close>): the peers, routes and status behind that interface, over the shared configuration; the locale
    \<open>host_keeper\<close> states what its calls and those of the daemon leave alone. \<open>Port_Writers\<close>: the three writers of ports at once, each
    request cut at its calls of Caddy, DNS and the configuration, and run alone the same as its handler. \<open>Remote_Server\<close> (\<open>api/remote\<close>): the listener and
    its certificate.

  \<^bold>\<open>Setup wizard and invitations.\<close>
  \<^item> \<open>Host_Checks\<close>, \<open>Wizard\<close>, \<open>Wizard_Handlers\<close>, \<open>Wizard_Safety\<close>, \<open>Step_Validators\<close> (\<open>wizard/\<close>): the checks, the reducer with its table of
    transitions, the handlers and the commit in the background as a step relation, and the invariant of every state
    that can be on disk. \<open>Daemon_Wiring\<close> (\<open>daemon/api_wizard.go\<close>, \<open>api_status.go\<close>): what the daemon gives the wizard, and that
    with it the wizard stays at its preflight. \<open>Qr_Codes\<close> (\<open>qr/\<close>): the pictures and links for phones.
  \<^item> \<open>Invite_Store\<close>, \<open>Invite_Handlers\<close> (\<open>invite/\<close>): the append-only store, which refines a list, its garbage collection, the public
    pages with their rate limit, signatures and encryption.

  \<^bold>\<open>Ports, proxy and names.\<close>
  \<^item> \<open>Caddy_Client\<close>, \<open>Caddy_Mtls\<close>, \<open>Dns_Records\<close>, \<open>Dns_Manager\<close> (\<open>proxy/\<close>, \<open>dns/\<close>): routes, client certificates, and the two DNS clients.
  \<^item> \<open>Ports_Api\<close>, \<open>Routes_Expose\<close> (\<open>daemon/api_ports.go\<close>, \<open>routes/\<close>): the two interfaces that store ports; the locale \<open>port_writer\<close> carries
    the well-formedness of the stored ports through any sequence of requests to either. \<open>Local_Proxy\<close> (\<open>tunnel/local_proxy.go\<close>): the
    proxy of one port as a transition system with its invariant.

  \<^bold>\<open>Tunnel and server.\<close>
  \<^item> \<open>Tunnel_Server\<close>, \<open>Tunnel_Peers\<close>, \<open>Tunnel_Manager\<close>, \<open>Tunnel_Examples\<close> (\<open>tunnel/\<close>): the server's configuration and its parsers, shell
    quoting, adding and removing peers, connecting, watching and comparing with the server, and concrete instances.
  \<^item> \<open>Ssh_Pool\<close>, \<open>Vps_State\<close>, \<open>Compose_Detect\<close>, \<open>Bootstrap\<close>, \<open>Snapshot\<close>, \<open>Attach\<close>, \<open>Health\<close>, \<open>Probe_Transports\<close> (\<open>ssh/\<close>, \<open>state/\<close>, \<open>lifecycle/\<close>): the pool
    of connections, the profile of a server, detection, bootstrapping, snapshots, attaching, and the prober with its
    reconnections.
  \<^item> \<open>Provision_Ssh\<close>, \<open>Provision\<close> (\<open>provisioner/\<close>): the provisioning of a server and the files it generates.

  \<^bold>\<open>The daemon and its observers.\<close>
  \<^item> \<open>Daemon_Api\<close>, \<open>Event_Ring\<close>, \<open>Static_Files\<close> (\<open>daemon/\<close>): the remaining endpoints, the paged event list and the frontend's files.
    \<open>Startup\<close> (\<open>cmd/unet\<close>): the lock file as interleaved steps, reconciliation, the order of the main function. \<open>Tray\<close>
    (\<open>traylogic/\<close>, \<open>trayapi/\<close>): the tray's polling, notifications, menu and reconnection.
  \<^item> \<open>Log_Stream\<close>, \<open>Log_Fields\<close>, \<open>Log_Handler\<close>, \<open>Event_Streams\<close>, \<open>Log_Collect\<close>, \<open>Log_Export\<close>, \<open>Observability\<close>, \<open>Metrics\<close> (\<open>logstream/\<close>, \<open>logger/\<close>,
    \<open>loguicapi/\<close>, \<open>observability/\<close>, \<open>metrics/\<close>): the ring, which refines the end of a numbered log (locale \<open>log_source\<close>), the hub and
    the streams; redaction and levels; the handler with its files as inodes; what is collected into the log and exported
    from it; the settings; the counters.

  \<^bold>\<open>What the lemmas show.\<close> Each theory has the lemmas of its operations; the properties are, per component, its invariant
  under every operation, its refinement of an abstract value (a finite map for the token store, a list for invitations
  and the log), round trips of its texts, exact conditions for what is accepted, and
  bounds and ends of its loops. Several state a defect as it is: the theorem then says exactly when it happens, and its
  witness is a run in which it does.

  \<^bold>\<open>Bounds.\<close> Loops that could fail to end are given their numbers by the code: 40 polls for a healthy container, 999 names for a
  rotated log, 64 KiB and 1 MiB for a scanned line, 256 waiting notifications and 1000 events of a subscriber, three
  sessions of a pool, five attempts in a minute for a public page. Retries, ticks and requests are lists or steps of a
  relation of any length, so no fuel is used for them. Recursions over texts and lists are structural or have a measure.

  \<^bold>\<open>Not modelled.\<close> The Windows integration, the stubs of other systems and the tray's drawing are calls of the system without
  logic of their own. The contents of JSON, certificates, archives and pictures, the
  network and cryptography are parameters. Of goroutines only the interleavings described in the theories are covered;
  Go's memory model is not. Times are exact, and the delays of a scheduler do not occur.
\<close>

end
